(* ===== verification/Prelude.thy ===== *)
theory Prelude
  imports Main "HOL-Library.AList" "HOL-Library.Char_ord" "HOL-Library.List_Lexorder"
begin

text \<open>
  What every component shares: Go's strings (byte sequences, so \<open>string\<close>, since a HOL
  \<open>char\<close> is a byte) with the functions of the packages \<open>strings\<close> and \<open>strconv\<close> the node
  calls, Go's \<open>int64\<close>/\<open>uint64\<close> arithmetic, Go's maps, and the reachability locale the
  step relations of the components instantiate.

  Conventions.
  \<^item> A Go map is an association list with distinct keys (\<open>gomap\<close>). Go iterates a map in an
    unspecified order: the order of the association list stands for the order one execution
    happens to see, and every theorem is about all of them or about \<open>map_of\<close>.
  \<^item> \<open>int64\<close> values are \<open>int\<close>s, with the wrap-around written out (\<open>int64\<close>) where an
    operation can overflow; \<open>uint64\<close> values are \<open>nat\<close>s below \<open>2 ^ 64\<close>.
  \<^item> \<open>strings.ToLower\<close> and \<open>strings.EqualFold\<close> are modelled on the ASCII letters; bytes above
    \<open>0x7F\<close> are left alone. \<open>strings.TrimSpace\<close> is modelled on all of Unicode's space runes
    in their UTF-8 encoding.
\<close>

named_theorems go_simps \<comment> \<open>rewriting Go's string, integer and map primitives\<close>
named_theorems keeps \<comment> \<open>an operation keeps an invariant\<close>

section \<open>Integers\<close>

abbreviation max_int64 :: int where "max_int64 \<equiv> 9223372036854775807"
abbreviation min_int64 :: int where "min_int64 \<equiv> - 9223372036854775808"

definition int64 :: "int \<Rightarrow> int" where
  "int64 x = (x + 2 ^ 63) mod 2 ^ 64 - 2 ^ 63"

definition is_int64 :: "int \<Rightarrow> bool" where
  "is_int64 x \<longleftrightarrow> min_int64 \<le> x \<and> x \<le> max_int64"

definition is_uint64 :: "nat \<Rightarrow> bool" where
  "is_uint64 n \<longleftrightarrow> n < 2 ^ 64"

lemma int64_id [go_simps]: "is_int64 x \<Longrightarrow> int64 x = x"
  by (simp add: int64_def is_int64_def)

lemma is_int64_int64: "is_int64 (int64 x)"
  using pos_mod_bound [of "2 ^ 64" "x + 2 ^ 63"] pos_mod_sign [of "2 ^ 64" "x + 2 ^ 63"]
  by (simp add: int64_def is_int64_def)

lemma is_int64_0 [simp]: "is_int64 0"
  by (simp add: is_int64_def)

lemma is_int64_sub: "\<lbrakk>is_int64 x; 0 \<le> x; 0 \<le> y; is_int64 y\<rbrakk> \<Longrightarrow> is_int64 (x - y)"
  by (simp add: is_int64_def)

section \<open>Maps\<close>

type_synonym ('k, 'v) gomap = "('k \<times> 'v) list"

abbreviation gomap_wf :: "('k, 'v) gomap \<Rightarrow> bool" where
  "gomap_wf m \<equiv> distinct (map fst m)"

text \<open>\<open>m[k]\<close> with Go's zero value for a missing key.\<close>

definition mget :: "'v \<Rightarrow> ('k, 'v) gomap \<Rightarrow> 'k \<Rightarrow> 'v" where
  "mget z m k = (case map_of m k of None \<Rightarrow> z | Some v \<Rightarrow> v)"

lemma mget_update [simp]: "mget z (AList.update k v m) k' = (if k' = k then v else mget z m k')"
  by (simp add: mget_def update_conv')

lemma mget_delete [simp]: "mget z (AList.delete k m) k' = (if k' = k then z else mget z m k')"
  by (simp add: mget_def delete_conv')

lemma mget_Nil [simp]: "mget z [] k = z"
  by (simp add: mget_def)

lemma mget_Cons: "mget z ((k', v) # m) k = (if k = k' then v else mget z m k)"
  by (simp add: mget_def)

lemma map_of_filter_wf:
  "gomap_wf m \<Longrightarrow> map_of (filter P m) k = (case map_of m k of None \<Rightarrow> None
     | Some v \<Rightarrow> if P (k, v) then Some v else None)"
proof (induction m)
  case Nil
  then show ?case by simp
next
  case (Cons p m)
  obtain a b where p: "p = (a, b)" by (cases p)
  have "map_of (filter P m) k = None" if "k = a"
  proof -
    from Cons.prems p have "a \<notin> fst ` set (filter P m)" by auto
    with that show ?thesis by (simp add: map_of_eq_None_iff)
  qed
  with Cons p show ?case by auto
qed

lemma mget_filter_wf:
  "gomap_wf m \<Longrightarrow> mget z (filter P m) k =
     (case map_of m k of None \<Rightarrow> z | Some v \<Rightarrow> if P (k, v) then v else z)"
  by (simp add: mget_def map_of_filter_wf split: option.split)

lemma gomap_wf_filter [simp]: "gomap_wf m \<Longrightarrow> gomap_wf (filter P m)"
  by (induction m) auto

lemma gomap_wf_update [simp]: "gomap_wf m \<Longrightarrow> gomap_wf (AList.update k v m)"
  by (rule distinct_update)

lemma gomap_wf_delete [simp]: "gomap_wf m \<Longrightarrow> gomap_wf (AList.delete k m)"
  by (rule distinct_delete)

lemma update_new: "k \<notin> fst ` set m \<Longrightarrow> AList.update k v m = m @ [(k, v)]"
  by (induction m) auto

lemma set_delete_subset: "set (AList.delete k m) \<subseteq> set m"
  by (simp add: AList.delete_eq)

lemma update_in_set: "x \<in> set (AList.update k v m) \<Longrightarrow> x = (k, v) \<or> x \<in> set m"
  by (induction m) (auto split: if_splits)

section \<open>Strings\<close>

definition hasPrefix :: "string \<Rightarrow> string \<Rightarrow> bool" where
  "hasPrefix s p \<longleftrightarrow> take (length p) s = p"

definition hasSuffix :: "string \<Rightarrow> string \<Rightarrow> bool" where
  "hasSuffix s p \<longleftrightarrow> hasPrefix (rev s) (rev p)"

definition trimPrefix :: "string \<Rightarrow> string \<Rightarrow> string" where
  "trimPrefix s p = (if hasPrefix s p then drop (length p) s else s)"

definition trimSuffix :: "string \<Rightarrow> string \<Rightarrow> string" where
  "trimSuffix s p = (if hasSuffix s p then take (length s - length p) s else s)"

fun contains :: "string \<Rightarrow> string \<Rightarrow> bool" where
  "contains [] sub = (sub = [])"
| "contains (c # s) sub = (hasPrefix (c # s) sub \<or> contains s sub)"

text \<open>\<open>strings.Cut\<close>: before, after, found. Without the separator it is \<open>(s, [], False)\<close>.\<close>

fun cut :: "string \<Rightarrow> string \<Rightarrow> string \<times> string \<times> bool" where
  "cut [] sep = (if sep = [] then ([], [], True) else ([], [], False))"
| "cut (c # s) sep =
     (if hasPrefix (c # s) sep then ([], drop (length sep) (c # s), True)
      else case cut s sep of (b, a, f) \<Rightarrow> (c # b, a, f))"

lemma cut_not_found: "cut s sep = (b, a, False) \<Longrightarrow> b = s \<and> a = []"
  by (induction s arbitrary: b) (auto split: if_splits prod.splits)

lemma cut_found: "cut s sep = (b, a, True) \<Longrightarrow> s = b @ sep @ a"
proof (induction s arbitrary: b)
  case Nil
  then show ?case by (auto split: if_splits)
next
  case (Cons c s)
  then show ?case
    by (auto split: if_splits prod.splits simp: hasPrefix_def) (metis append_take_drop_id)
qed

lemma cut_char_absent: "c \<notin> set s \<Longrightarrow> cut s [c] = (s, [], False)"
  by (induction s) (auto simp: hasPrefix_def)

lemma cut_char_append: "c \<notin> set s \<Longrightarrow> cut (s @ c # t) [c] = (s, t, True)"
  by (induction s) (auto simp: hasPrefix_def)

text \<open>\<open>strings.Split\<close> for a non-empty separator.\<close>

function splitOn :: "string \<Rightarrow> string \<Rightarrow> string list" where
  "splitOn s sep =
     (if sep = [] then [s]
      else case cut s sep of (b, a, f) \<Rightarrow> if f then b # splitOn a sep else [s])"
  by pat_completeness auto
termination
  by (relation "measure (\<lambda>(s, sep). length s)") (auto dest!: cut_found [OF sym])

declare splitOn.simps [simp del]

fun joinWith :: "string \<Rightarrow> string list \<Rightarrow> string" where
  "joinWith sep [] = []"
| "joinWith sep [x] = x"
| "joinWith sep (x # y # xs) = x @ sep @ joinWith sep (y # xs)"

lemma splitOn_not_Nil [simp]: "splitOn s sep \<noteq> []"
  by (subst splitOn.simps) (auto split: prod.split)

lemma joinWith_splitOn: "sep \<noteq> [] \<Longrightarrow> joinWith sep (splitOn s sep) = s"
proof (induction s sep rule: splitOn.induct)
  case (1 s sep)
  obtain b a f where c: "cut s sep = (b, a, f)" by (cases "cut s sep")
  show ?case
  proof (cases f)
    case True
    with c have s: "s = b @ sep @ a" by (simp add: cut_found)
    from 1 c True have IH: "joinWith sep (splitOn a sep) = a" by simp
    obtain y ys where ys: "splitOn a sep = y # ys"
      using splitOn_not_Nil [of a sep] by (cases "splitOn a sep") auto
    from 1 c True have "splitOn s sep = b # splitOn a sep"
      by (simp add: splitOn.simps [of s sep])
    then show ?thesis using IH s ys by simp
  next
    case False
    with 1 c show ?thesis by (simp add: splitOn.simps [of s sep])
  qed
qed

text \<open>The encodings of the runes \<open>unicode.IsSpace\<close> accepts.\<close>

definition space_runes :: "string list" where
  "space_runes =
     [[CHR 0x09], [CHR 0x0A], [CHR 0x0B], [CHR 0x0C], [CHR 0x0D], [CHR 0x20],
      [CHR 0xC2, CHR 0x85], [CHR 0xC2, CHR 0xA0], [CHR 0xE1, CHR 0x9A, CHR 0x80],
      [CHR 0xE2, CHR 0x80, CHR 0x80], [CHR 0xE2, CHR 0x80, CHR 0x81],
      [CHR 0xE2, CHR 0x80, CHR 0x82], [CHR 0xE2, CHR 0x80, CHR 0x83],
      [CHR 0xE2, CHR 0x80, CHR 0x84], [CHR 0xE2, CHR 0x80, CHR 0x85],
      [CHR 0xE2, CHR 0x80, CHR 0x86], [CHR 0xE2, CHR 0x80, CHR 0x87],
      [CHR 0xE2, CHR 0x80, CHR 0x88], [CHR 0xE2, CHR 0x80, CHR 0x89],
      [CHR 0xE2, CHR 0x80, CHR 0x8A], [CHR 0xE2, CHR 0x80, CHR 0xA8],
      [CHR 0xE2, CHR 0x80, CHR 0xA9], [CHR 0xE2, CHR 0x80, CHR 0xAF],
      [CHR 0xE2, CHR 0x81, CHR 0x9F], [CHR 0xE3, CHR 0x80, CHR 0x80]]"

function stripRunes :: "string list \<Rightarrow> string \<Rightarrow> string" where
  "stripRunes rs s =
     (case find (\<lambda>p. p \<noteq> [] \<and> hasPrefix s p) rs of
        None \<Rightarrow> s | Some p \<Rightarrow> stripRunes rs (drop (length p) s))"
  by pat_completeness auto
termination
proof (relation "measure (\<lambda>(rs, s). length s)", simp)
  fix rs :: "string list" and s p
  assume "find (\<lambda>p. p \<noteq> [] \<and> hasPrefix s p) rs = Some p"
  then have "p \<noteq> []" and "hasPrefix s p" by (auto simp: find_Some_iff)
  then have "0 < length p" and "length p \<le> length s"
    by (auto simp: hasPrefix_def dest: arg_cong [where f = length])
  then show "((rs, drop (length p) s), rs, s) \<in> measure (\<lambda>(rs, s). length s)"
    by (simp del: length_greater_0_conv)
qed

declare stripRunes.simps [simp del]

definition trimLeftSpace :: "string \<Rightarrow> string" where
  "trimLeftSpace s = stripRunes space_runes s"

definition trimRightSpace :: "string \<Rightarrow> string" where
  "trimRightSpace s = rev (stripRunes (map rev space_runes) (rev s))"

definition trimSpace :: "string \<Rightarrow> string" where
  "trimSpace s = trimRightSpace (trimLeftSpace s)"

lemma stripRunes_suffix: "\<exists>p. s = p @ stripRunes rs s"
proof (induction rs s rule: stripRunes.induct)
  case (1 rs s)
  show ?case
  proof (cases "find (\<lambda>p. p \<noteq> [] \<and> hasPrefix s p) rs")
    case None
    then show ?thesis by (simp add: stripRunes.simps [of rs s])
  next
    case (Some p)
    with 1 obtain q where "drop (length p) s = q @ stripRunes rs (drop (length p) s)" by blast
    then have "s = (take (length p) s @ q) @ stripRunes rs (drop (length p) s)"
      by (metis append.assoc append_take_drop_id)
    moreover from Some have "stripRunes rs s = stripRunes rs (drop (length p) s)"
      by (simp add: stripRunes.simps [of rs s])
    ultimately show ?thesis by metis
  qed
qed

lemma stripRunes_clean: "find (\<lambda>p. p \<noteq> [] \<and> hasPrefix (stripRunes rs s) p) rs = None"
proof (induction rs s rule: stripRunes.induct)
  case (1 rs s)
  then show ?case
    by (cases "find (\<lambda>p. p \<noteq> [] \<and> hasPrefix s p) rs")
      (auto simp: stripRunes.simps [of rs s])
qed

lemma stripRunes_idem: "stripRunes rs (stripRunes rs s) = stripRunes rs s"
  using stripRunes_clean [of rs s] by (subst stripRunes.simps) simp

lemma hasPrefix_length: "hasPrefix s p \<Longrightarrow> length p \<le> length s"
  by (auto simp: hasPrefix_def dest: arg_cong [where f = length])

lemma hasPrefix_append: "hasPrefix s p \<Longrightarrow> hasPrefix (s @ t) p"
  using hasPrefix_length [of s p] by (simp add: hasPrefix_def)

lemma stripRunes_prefix_clean:
  assumes "find (\<lambda>p. p \<noteq> [] \<and> hasPrefix (s @ t) p) rs = None"
  shows "stripRunes rs s = s"
proof -
  from assms have "find (\<lambda>p. p \<noteq> [] \<and> hasPrefix s p) rs = None"
    by (auto simp: find_None_iff dest: hasPrefix_append)
  then show ?thesis by (simp add: stripRunes.simps [of rs s])
qed

lemma trimLeft_trimRight:
  "trimLeftSpace (trimRightSpace (trimLeftSpace s)) = trimRightSpace (trimLeftSpace s)"
proof -
  let ?t = "trimLeftSpace s"
  from stripRunes_suffix [of "rev ?t" "map rev space_runes"]
  obtain p where "rev ?t = p @ stripRunes (map rev space_runes) (rev ?t)" by blast
  then have "?t = trimRightSpace ?t @ rev p"
    by (metis rev_append rev_rev_ident trimRightSpace_def)
  then have "find (\<lambda>q. q \<noteq> [] \<and> hasPrefix (trimRightSpace ?t @ rev p) q) space_runes = None"
    using stripRunes_clean [of space_runes s] by (simp add: trimLeftSpace_def)
  then show ?thesis
    unfolding trimLeftSpace_def [of "trimRightSpace ?t"] by (rule stripRunes_prefix_clean)
qed

lemma trimSpace_idem [simp]: "trimSpace (trimSpace s) = trimSpace s"
proof -
  have "trimRightSpace (trimRightSpace t) = trimRightSpace t" for t
    by (simp add: trimRightSpace_def stripRunes_idem)
  then show ?thesis by (simp add: trimSpace_def trimLeft_trimRight)
qed

lemma trimSpace_Nil [simp]: "trimSpace [] = []"
  by (simp add: trimSpace_def trimLeftSpace_def trimRightSpace_def stripRunes.simps
      space_runes_def hasPrefix_def)

definition toLowerChar :: "char \<Rightarrow> char" where
  "toLowerChar c = (if 65 \<le> (of_char c :: nat) \<and> (of_char c :: nat) \<le> 90
     then char_of ((of_char c :: nat) + 32) else c)"

definition toLower :: "string \<Rightarrow> string" where
  "toLower s = map toLowerChar s"

definition equalFold :: "string \<Rightarrow> string \<Rightarrow> bool" where
  "equalFold s t \<longleftrightarrow> toLower s = toLower t"

lemma toLowerChar_idem [simp]: "toLowerChar (toLowerChar c) = toLowerChar c"
  by (auto simp: toLowerChar_def)

lemma toLower_idem [simp]: "toLower (toLower s) = toLower s"
  by (simp add: toLower_def)

section \<open>Lines\<close>

text \<open>
  \<open>bufio.Scanner\<close> with \<open>ScanLines\<close>: the lines without their ends (a final carriage return is
  dropped); scanning stops for good at the first line that does not fit the 64 KiB buffer.
\<close>

definition maxScanTokenSize :: nat where
  "maxScanTokenSize = 65536"

definition dropCR :: "string \<Rightarrow> string" where
  "dropCR s = (if s \<noteq> [] \<and> last s = CHR 0x0D then butlast s else s)"

function scanLines :: "string \<Rightarrow> string list" where
  "scanLines s =
     (if s = [] then []
      else let line = takeWhile (\<lambda>c. c \<noteq> CHR 0x0A) s; rest = drop (Suc (length line)) s in
           if length line \<ge> maxScanTokenSize then [] else dropCR line # scanLines rest)"
  by pat_completeness auto
termination
  by (relation "measure length") auto

declare scanLines.simps [simp del]

lemma dropCR_id: "CHR 0x0D \<notin> set s \<Longrightarrow> dropCR s = s"
  by (cases "s = []") (auto simp: dropCR_def in_set_conv_decomp dest: last_in_set)

lemma scanLines_Nil [simp]: "scanLines [] = []"
  by (simp add: scanLines.simps)

lemma takeWhile_line: "CHR 0x0A \<notin> set line \<Longrightarrow> takeWhile (\<lambda>c. c \<noteq> CHR 0x0A) (line @ CHR 0x0A # rest) = line"
  by (induction line) auto

lemma scanLines_line:
  assumes "CHR 0x0A \<notin> set line"
  shows "scanLines (line @ CHR 0x0A # rest) =
    (if length line \<ge> maxScanTokenSize then [] else dropCR line # scanLines rest)"
  using takeWhile_line [OF assms, of rest] by (subst scanLines.simps) (simp add: Let_def)

section \<open>Cut sets\<close>

definition trimChars :: "char set \<Rightarrow> string \<Rightarrow> string" where
  "trimChars cs s = rev (dropWhile (\<lambda>c. c \<in> cs) (rev (dropWhile (\<lambda>c. c \<in> cs) s)))"

definition trimRightChars :: "char set \<Rightarrow> string \<Rightarrow> string" where
  "trimRightChars cs s = rev (dropWhile (\<lambda>c. c \<in> cs) (rev s))"

text \<open>
  \<open>strings.Fields\<close> and \<open>strings.ReplaceAll\<close> (of a non-empty pattern). A word is never empty, since
  the text left of it was trimmed; the test is there for termination.
\<close>

fun takeWord :: "string \<Rightarrow> string" where
  "takeWord [] = []"
| "takeWord (c # s) = (if list_ex (hasPrefix (c # s)) space_runes then [] else c # takeWord s)"

lemma length_trimLeftSpace: "length (trimLeftSpace s) \<le> length s"
proof -
  obtain p where "s = p @ stripRunes space_runes s" using stripRunes_suffix by blast
  then have "length s = length p + length (stripRunes space_runes s)" by (metis length_append)
  then show ?thesis by (simp add: trimLeftSpace_def)
qed

function fields :: "string \<Rightarrow> string list" where
  "fields s = (let t = trimLeftSpace s; w = takeWord t in
     if w = [] then [] else w # fields (drop (length w) t))"
  by pat_completeness auto
termination
proof (relation "measure length", simp)
  fix s :: string and t w
  assume t: "t = trimLeftSpace s" and w: "w = takeWord t" "w \<noteq> []"
  then have "t \<noteq> []" by auto
  then have "0 < length t" "0 < length w" using w by simp_all
  then have "length (drop (length w) t) < length t" by (simp del: length_greater_0_conv)
  with length_trimLeftSpace [of s] t show "(drop (length w) t, s) \<in> measure length" by simp
qed

declare fields.simps [simp del]

function replaceAll :: "string \<Rightarrow> string \<Rightarrow> string \<Rightarrow> string" where
  "replaceAll s old new =
     (if old = [] \<or> s = [] then s
      else if hasPrefix s old then new @ replaceAll (drop (length old) s) old new
      else hd s # replaceAll (tl s) old new)"
  by pat_completeness auto
termination
proof (relation "measure (\<lambda>(s, _). length s)", simp, goal_cases)
  case (1 s old new)
  then have "0 < length s" "0 < length old" by simp_all
  then show ?case by (simp del: length_greater_0_conv)
next
  case (2 s old new)
  then have "0 < length s" by simp
  then show ?case by (simp del: length_greater_0_conv)
qed

declare replaceAll.simps [simp del]

end
