(* ===== verification/Encoding.thy ===== *)
theory Encoding
  imports Prelude "HOL-Library.Word"
begin

unbundle bit_operations_syntax

text \<open>
  The encoders of Go's standard library the node's file formats and keys rest on: decimal
  numbers (\<open>strconv\<close>), unpadded URL-safe base64 (\<open>encoding/base64\<close>), variable-length integers
  and little-endian words (\<open>encoding/binary\<close>) and the Castagnoli CRC (\<open>hash/crc32\<close>). Each comes
  with the round trip its users need; for the CRC it is the injectivity that makes one wrong
  byte visible.
\<close>

section \<open>Decimal numbers\<close>

definition digit :: "nat \<Rightarrow> char" where
  "digit n = char_of (48 + n)"

definition digitVal :: "char \<Rightarrow> nat option" where
  "digitVal c = (let n = of_char c :: nat in if 48 \<le> n \<and> n \<le> 57 then Some (n - 48) else None)"

fun formatUint :: "nat \<Rightarrow> string" where
  "formatUint n = (if n < 10 then [digit n] else formatUint (n div 10) @ [digit (n mod 10)])"

declare formatUint.simps [simp del]

definition formatInt :: "int \<Rightarrow> string" where
  "formatInt i = (if i < 0 then CHR ''-'' # formatUint (nat (- i)) else formatUint (nat i))"

fun digitsVal :: "nat \<Rightarrow> string \<Rightarrow> nat option" where
  "digitsVal acc [] = Some acc"
| "digitsVal acc (c # s) = (case digitVal c of None \<Rightarrow> None | Some d \<Rightarrow> digitsVal (10 * acc + d) s)"

text \<open>\<open>strconv.ParseUint(s, 10, bits)\<close> and \<open>strconv.ParseInt(s, 10, bits)\<close>; \<open>None\<close> is the error.\<close>

definition parseUint :: "nat \<Rightarrow> string \<Rightarrow> nat option" where
  "parseUint bits s = (if s = [] then None else
     case digitsVal 0 s of None \<Rightarrow> None | Some n \<Rightarrow> if n < 2 ^ bits then Some n else None)"

definition parseInt :: "nat \<Rightarrow> string \<Rightarrow> int option" where
  "parseInt bits s =
     (let neg = (s \<noteq> [] \<and> hd s = CHR ''-'');
          body = (if s \<noteq> [] \<and> (hd s = CHR ''-'' \<or> hd s = CHR ''+'') then tl s else s)
      in if body = [] then None else
         case digitsVal 0 body of None \<Rightarrow> None
         | Some n \<Rightarrow>
             if neg then (if n \<le> 2 ^ (bits - 1) then Some (- int n) else None)
             else (if n < 2 ^ (bits - 1) then Some (int n) else None))"

lemma digitVal_digit [simp]: "n < 10 \<Longrightarrow> digitVal (digit n) = Some n"
  by (simp add: digitVal_def digit_def)

lemma digitsVal_append:
  "digitsVal acc (s @ t) = (case digitsVal acc s of None \<Rightarrow> None | Some a \<Rightarrow> digitsVal a t)"
  by (induction s arbitrary: acc) (auto split: option.split)

lemma digitsVal_formatUint: "digitsVal 0 (formatUint n) = Some n"
proof (induction n rule: formatUint.induct)
  case (1 n)
  then show ?case by (cases "n < 10") (auto simp: formatUint.simps [of n] digitsVal_append)
qed

lemma formatUint_not_Nil [simp]: "formatUint n \<noteq> []"
  by (subst formatUint.simps) simp

lemma parseUint_formatUint [simp]: "n < 2 ^ bits \<Longrightarrow> parseUint bits (formatUint n) = Some n"
  by (simp add: parseUint_def digitsVal_formatUint)

lemma formatUint_inject: "formatUint m = formatUint n \<Longrightarrow> m = n"
  by (metis digitsVal_formatUint option.inject)

lemma of_char_digit: "n < 10 \<Longrightarrow> (of_char (digit n) :: nat) = 48 + n"
  by (simp add: digit_def take_bit_eq_mod)

lemma formatUint_digits: "c \<in> set (formatUint n) \<Longrightarrow> 48 \<le> (of_char c :: nat) \<and> (of_char c :: nat) \<le> 57"
proof (induction n rule: formatUint.induct)
  case (1 n)
  show ?case
  proof (cases "n < 10")
    case True
    with 1 have "c = digit n" by (simp add: formatUint.simps [of n])
    with True show ?thesis by (simp add: of_char_digit)
  next
    case False
    with "1.prems" have "c \<in> set (formatUint (n div 10)) \<or> c = digit (n mod 10)"
      by (auto simp: formatUint.simps [of n])
    then show ?thesis using 1 False of_char_digit [of "n mod 10"] by auto
  qed
qed

lemma hd_formatUint: "hd (formatUint n) \<noteq> CHR ''-'' \<and> hd (formatUint n) \<noteq> CHR ''+''"
  using formatUint_digits [OF hd_in_set [OF formatUint_not_Nil [of n]]] by auto

lemma parseInt_formatInt:
  assumes "0 < bits" and "- (2 ^ (bits - 1)) \<le> i" and "i < 2 ^ (bits - 1)"
  shows "parseInt bits (formatInt i) = Some i"
proof (cases "i < 0")
  case True
  have "nat (- i) \<le> 2 ^ (bits - 1)"
    using assms(2) by (simp add: nat_le_iff)
  with True show ?thesis
    by (simp add: parseInt_def formatInt_def digitsVal_formatUint)
next
  case False
  have "nat i < 2 ^ (bits - 1)"
    using assms(3) False by (simp add: nat_less_iff)
  with False show ?thesis
    using hd_formatUint [of "nat i"] by (simp add: parseInt_def formatInt_def digitsVal_formatUint)
qed

section \<open>Unpadded URL-safe base64\<close>

definition b64Char :: "nat \<Rightarrow> char" where
  "b64Char n = (if n < 26 then char_of (65 + n) else if n < 52 then char_of (71 + n)
     else if n < 62 then char_of (n - 4) else if n = 62 then CHR ''-'' else CHR ''_'')"

definition b64Val :: "char \<Rightarrow> nat option" where
  "b64Val c = (let n = of_char c :: nat in
     if 65 \<le> n \<and> n \<le> 90 then Some (n - 65) else if 97 \<le> n \<and> n \<le> 122 then Some (n - 71)
     else if 48 \<le> n \<and> n \<le> 57 then Some (n + 4) else if n = 45 then Some 62
     else if n = 95 then Some 63 else None)"

fun b64Encode :: "string \<Rightarrow> string" where
  "b64Encode [] = []"
| "b64Encode [a] = (let v = (of_char a :: nat) * 65536
     in [b64Char (v div 262144), b64Char (v div 4096 mod 64)])"
| "b64Encode [a, b] = (let v = (of_char a :: nat) * 65536 + (of_char b :: nat) * 256
     in [b64Char (v div 262144), b64Char (v div 4096 mod 64), b64Char (v div 64 mod 64)])"
| "b64Encode (a # b # c # s) =
     (let v = (of_char a :: nat) * 65536 + (of_char b :: nat) * 256 + (of_char c :: nat)
      in b64Char (v div 262144) # b64Char (v div 4096 mod 64) # b64Char (v div 64 mod 64)
         # b64Char (v mod 64) # b64Encode s)"

fun b64Quanta :: "nat list \<Rightarrow> string option" where
  "b64Quanta [] = Some []"
| "b64Quanta [p] = None"
| "b64Quanta [p, q] = Some [char_of ((p * 262144 + q * 4096) div 65536 mod 256 :: nat)]"
| "b64Quanta [p, q, r] = (let v = p * 262144 + q * 4096 + r * 64
     in Some [char_of (v div 65536 mod 256), char_of (v div 256 mod 256)])"
| "b64Quanta (p # q # r # s # ds) = (let v = p * 262144 + q * 4096 + r * 64 + s
     in map_option (\<lambda>t. char_of (v div 65536 mod 256) # char_of (v div 256 mod 256)
                        # char_of (v mod 256) # t) (b64Quanta ds))"

fun b64Digits :: "string \<Rightarrow> nat list option" where
  "b64Digits [] = Some []"
| "b64Digits (c # s) =
     (if c = CHR 0x0A \<or> c = CHR 0x0D then b64Digits s
      else case b64Val c of None \<Rightarrow> None | Some d \<Rightarrow> map_option ((#) d) (b64Digits s))"

definition b64Decode :: "string \<Rightarrow> string option" where
  "b64Decode s = Option.bind (b64Digits s) b64Quanta"

lemma b64Val_b64Char [simp]: "n < 64 \<Longrightarrow> b64Val (b64Char n) = Some n"
  by (auto simp: b64Val_def b64Char_def Let_def)

lemma b64Char_not_newline [simp]:
  "n < 64 \<Longrightarrow> b64Char n \<noteq> CHR 0x0A" "n < 64 \<Longrightarrow> b64Char n \<noteq> CHR 0x0D" "b64Char n \<noteq> CHR 0x00"
  by (auto simp: b64Char_def char_of_eq_iff take_bit_eq_mod)

lemma b64Digits_Cons [simp]:
  "n < 64 \<Longrightarrow> b64Digits (b64Char n # s) = map_option ((#) n) (b64Digits s)"
  by simp

lemma of_char_less: "(of_char c :: nat) < 256"
  by (rule nat_of_char_less_256)

lemma sextets_join:
  fixes v :: nat
  shows "v div 262144 * 262144 + v div 4096 mod 64 * 4096 + v div 64 mod 64 * 64 + v mod 64 = v"
proof -
  have "v div 64 div 64 = v div 4096" and "v div 4096 div 64 = v div 262144"
    by (simp_all add: div_mult2_eq [symmetric])
  moreover have "v div 64 * 64 + v mod 64 = v" by simp
  moreover have "v div 64 div 64 * 64 + v div 64 mod 64 = v div 64" by simp
  moreover have "v div 4096 div 64 * 64 + v div 4096 mod 64 = v div 4096" by simp
  ultimately show ?thesis by linarith
qed

lemma octets_split:
  fixes a b c :: nat
  assumes "a < 256" "b < 256" "c < 256"
  defines "v \<equiv> a * 65536 + b * 256 + c"
  shows "v div 65536 mod 256 = a" "v div 256 mod 256 = b" "v mod 256 = c" "v div 262144 < 64"
proof -
  have v: "v = c + 256 * (a * 256 + b)" by (simp add: v_def)
  have m: "v mod 256 = c" using assms(3) unfolding v by (simp only: mod_mult_self2) simp
  have d: "v div 256 = a * 256 + b" using assms(3) unfolding v by (subst div_mult_self2) simp_all
  have "v div 65536 = v div 256 div 256" by (simp add: div_mult2_eq [symmetric])
  with d have "v div 65536 = a" using assms by simp
  with d m show "v div 65536 mod 256 = a" "v div 256 mod 256 = b" "v mod 256 = c"
    using assms by simp_all
  show "v div 262144 < 64" using assms by (simp add: v_def div_less_iff_less_mult)
qed

lemma b64Decode_b64Encode_quad:
  assumes "b64Digits (b64Encode s) = Some ds"
  shows "b64Digits (b64Encode (a # b # c # s)) =
    (let v = (of_char a :: nat) * 65536 + (of_char b :: nat) * 256 + (of_char c :: nat)
     in Some (v div 262144 # v div 4096 mod 64 # v div 64 mod 64 # v mod 64 # ds))"
  using octets_split(4) [of "of_char a" "of_char b" "of_char c"] assms
  by (simp add: Let_def of_char_less del: b64Digits.simps(2))

lemma b64Decode_b64Encode [simp]: "b64Decode (b64Encode s) = Some s"
proof -
  have "\<exists>ds. b64Digits (b64Encode s) = Some ds \<and> b64Quanta ds = Some s"
  proof (induction s rule: b64Encode.induct)
    case 1
    then show ?case by simp
  next
    case (2 a)
    let ?v = "(of_char a :: nat) * 65536"
    have lt: "?v div 262144 < 64" using of_char_less [of a] by (simp add: div_less_iff_less_mult)
    have "?v div 64 = of_char a * 16 * 64" "?v = of_char a * 1024 * 64" by simp_all
    then have "?v div 64 mod 64 = 0" "?v mod 64 = 0" by (simp_all only: mod_mult_self2_is_0)
    then have j: "?v div 262144 * 262144 + ?v div 4096 mod 64 * 4096 = ?v"
      using sextets_join [of ?v] by linarith
    have "?v div 65536 mod 256 = of_char a" using of_char_less [of a] by simp
    then have "b64Quanta [?v div 262144, ?v div 4096 mod 64] = Some [a]"
      by (simp only: b64Quanta.simps j) simp
    with lt show ?case by (simp add: Let_def del: b64Digits.simps(2))
  next
    case (3 a b)
    let ?v = "(of_char a :: nat) * 65536 + (of_char b :: nat) * 256"
    have sp: "?v div 65536 mod 256 = of_char a" "?v div 256 mod 256 = of_char b" "?v div 262144 < 64"
      using octets_split [of "of_char a" "of_char b" 0] by (simp_all only: of_char_less) simp_all
    have "?v = (of_char a * 1024 + of_char b * 4) * 64" by simp
    then have "?v mod 64 = 0" by (simp only: mod_mult_self2_is_0)
    then have j: "?v div 262144 * 262144 + ?v div 4096 mod 64 * 4096 + ?v div 64 mod 64 * 64 = ?v"
      using sextets_join [of ?v] by linarith
    have "b64Quanta [?v div 262144, ?v div 4096 mod 64, ?v div 64 mod 64] = Some [a, b]"
      using sp by (simp only: b64Quanta.simps Let_def j) simp
    with sp show ?case by (simp add: Let_def del: b64Digits.simps(2))
  next
    case (4 a b c s)
    then obtain ds where ds: "b64Digits (b64Encode s) = Some ds" "b64Quanta ds = Some s" by blast
    let ?v = "(of_char a :: nat) * 65536 + (of_char b :: nat) * 256 + (of_char c :: nat)"
    have "b64Quanta (?v div 262144 # ?v div 4096 mod 64 # ?v div 64 mod 64 # ?v mod 64 # ds)
        = Some (a # b # c # s)"
      by (simp only: b64Quanta.simps Let_def sextets_join ds(2)
          octets_split [OF of_char_less [of a] of_char_less [of b] of_char_less [of c]]) simp
    with b64Decode_b64Encode_quad [OF ds(1), of a b c] show ?case by (simp add: Let_def)
  qed
  then show ?thesis by (auto simp: b64Decode_def)
qed

lemma b64Encode_no_NUL: "CHR 0x00 \<notin> set (b64Encode s)"
  by (induction s rule: b64Encode.induct) (auto simp: Let_def dest: sym)

section \<open>Variable-length integers\<close>

text \<open>
  \<open>binary.AppendUvarint\<close>: seven bits a byte, least significant first, the top bit set on all
  bytes but the last. The bit operations are written as arithmetic: \<open>x >> 7\<close> is \<open>x div 128\<close> and
  \<open>byte(x) | 0x80\<close> is \<open>x mod 128 + 128\<close>.
\<close>

fun uvarintBytes :: "nat \<Rightarrow> string" where
  "uvarintBytes x = (if x < 128 then [char_of x]
     else char_of (x mod 128 + 128) # uvarintBytes (x div 128))"

declare uvarintBytes.simps [simp del]

text \<open>
  \<open>binary.Uvarint\<close>: \<open>i\<close> bytes have been read into \<open>x\<close>. The result is the value and the number of
  bytes read; \<open>None\<close> is a count that is not positive: the buffer ended, or the value does not fit
  64 bits (an eleventh byte, or a tenth one above 1).
\<close>

fun uvarintFrom :: "nat \<Rightarrow> nat \<Rightarrow> string \<Rightarrow> (nat \<times> nat) option" where
  "uvarintFrom i x [] = None"
| "uvarintFrom i x (c # s) =
     (let b = of_char c :: nat in
      if i = 10 then None
      else if b < 128 then (if i = 9 \<and> 1 < b then None else Some (x + b * 2 ^ (7 * i), i + 1))
      else uvarintFrom (i + 1) (x + b mod 128 * 2 ^ (7 * i)) s)"

definition uvarint :: "string \<Rightarrow> (nat \<times> nat) option" where
  "uvarint s = uvarintFrom 0 0 s"

text \<open>\<open>binary.AppendVarint\<close> and \<open>binary.Varint\<close>: the zig-zag encoding of an \<open>int64\<close>.\<close>

definition zigzag :: "int \<Rightarrow> nat" where
  "zigzag x = nat (if x < 0 then - 2 * x - 1 else 2 * x)"

definition unzigzag :: "nat \<Rightarrow> int" where
  "unzigzag u = (if odd u then - int (u div 2) - 1 else int (u div 2))"

definition varintBytes :: "int \<Rightarrow> string" where
  "varintBytes x = uvarintBytes (zigzag x)"

definition varint :: "string \<Rightarrow> (int \<times> nat) option" where
  "varint s = map_option (\<lambda>(u, n). (unzigzag u, n)) (uvarint s)"

lemma unzigzag_zigzag [simp]: "unzigzag (zigzag x) = x"
proof (cases "x < 0")
  case True
  then have "zigzag x = Suc (2 * nat (- x - 1))" by (simp add: zigzag_def)
  with True show ?thesis by (simp add: unzigzag_def)
next
  case False
  then have "zigzag x = 2 * nat x" by (simp add: zigzag_def)
  with False show ?thesis by (simp add: unzigzag_def)
qed

lemma zigzag_bound: "is_int64 x \<Longrightarrow> zigzag x < 2 ^ 64"
  by (auto simp: zigzag_def is_int64_def nat_less_iff)

lemma uvarintBytes_not_Nil [simp]: "uvarintBytes x \<noteq> []"
  by (subst uvarintBytes.simps) simp

lemma uvarintFrom_uvarintBytes:
  assumes "x * 2 ^ (7 * i) < 2 ^ 64" and "0 < x \<or> i = 0" and "i \<le> 9"
  shows "uvarintFrom i a (uvarintBytes x @ s) =
    Some (a + x * 2 ^ (7 * i), i + length (uvarintBytes x))"
  using assms
proof (induction x arbitrary: i a rule: uvarintBytes.induct)
  case (1 x)
  show ?case
  proof (cases "x < 128")
    case True
    have "\<not> 1 < x" if "i = 9"
      using 1(2) that by simp
    with True 1(4) show ?thesis by (simp add: uvarintBytes.simps [of x] take_bit_eq_mod)
  next
    case False
    have "i \<noteq> 9" using 1(2) False by auto
    with 1(4) have i: "i + 1 \<le> 9" by simp
    have "x div 128 * 2 ^ (7 * (i + 1)) = x div 128 * 128 * 2 ^ (7 * i)"
      by (simp add: power_add)
    also have "\<dots> \<le> x * 2 ^ (7 * i)" by simp
    finally have le: "x div 128 * 2 ^ (7 * (i + 1)) < 2 ^ 64" using 1(2) by linarith
    have pos: "0 < x div 128" using False by (simp add: div_greater_zero_iff)
    have sum: "x mod 128 * 2 ^ (7 * i) + x div 128 * 2 ^ (7 * (i + 1)) = x * 2 ^ (7 * i)"
    proof -
      have "x * 2 ^ (7 * i) = (x mod 128 + x div 128 * 128) * 2 ^ (7 * i)" by simp
      also have "\<dots> = x mod 128 * 2 ^ (7 * i) + x div 128 * (128 * 2 ^ (7 * i))"
        by (simp only: distrib_right mult.assoc)
      also have "128 * 2 ^ (7 * i) = (2 ^ (7 * (i + 1)) :: nat)" by (simp add: power_add)
      finally show ?thesis by simp
    qed
    have oc: "(of_char (char_of (x mod 128 + 128) :: char) :: nat) = x mod 128 + 128"
      by (simp add: take_bit_eq_mod)
    have "uvarintFrom i a (uvarintBytes x @ s) =
        uvarintFrom (i + 1) (a + x mod 128 * 2 ^ (7 * i)) (uvarintBytes (x div 128) @ s)"
      using False i by (simp add: uvarintBytes.simps [of x] oc del: of_char_of)
    also have "\<dots> = Some (a + x mod 128 * 2 ^ (7 * i) + x div 128 * 2 ^ (7 * (i + 1)),
        i + 1 + length (uvarintBytes (x div 128)))"
      using 1(1) [OF False le _ i] pos by simp
    also have "\<dots> = Some (a + x * 2 ^ (7 * i), i + length (uvarintBytes x))"
      using False sum by (simp add: uvarintBytes.simps [of x] add.assoc)
    finally show ?thesis .
  qed
qed

lemma uvarint_uvarintBytes [go_simps]:
  "x < 2 ^ 64 \<Longrightarrow> uvarint (uvarintBytes x @ s) = Some (x, length (uvarintBytes x))"
  using uvarintFrom_uvarintBytes [of x 0 0 s] by (simp add: uvarint_def)

lemma varint_varintBytes [go_simps]:
  "is_int64 x \<Longrightarrow> varint (varintBytes x @ s) = Some (x, length (varintBytes x))"
  using uvarint_uvarintBytes [OF zigzag_bound, of x s] by (simp add: varint_def varintBytes_def)

lemma uvarintFrom_bound:
  "uvarintFrom i x s = Some (v, n) \<Longrightarrow> x < 2 ^ (7 * i) \<Longrightarrow> i \<le> 9 \<Longrightarrow>
     v < 2 ^ 64 \<and> i < n \<and> n \<le> i + length s"
proof (induction i x s rule: uvarintFrom.induct)
  case (1 i x)
  then show ?case by simp
next
  case (2 i x c s)
  let ?b = "of_char c :: nat"
  have step: "x + b * 2 ^ (7 * i) < 2 ^ (7 * i + k)" if "b < 2 ^ k" for b k
  proof -
    have "x + b * 2 ^ (7 * i) < (b + 1) * 2 ^ (7 * i)" using "2.prems"(2) by simp
    also have "\<dots> \<le> 2 ^ k * 2 ^ (7 * i)" using that by (intro mult_le_mono1) simp
    finally show ?thesis by (simp add: power_add mult.commute)
  qed
  show ?case
  proof (cases "?b < 128")
    case True
    then have v: "v = x + ?b * 2 ^ (7 * i)" "n = i + 1" "i = 9 \<Longrightarrow> ?b \<le> 1"
      using "2.prems" by (auto simp: Let_def split: if_splits)
    have "v < 2 ^ 64"
    proof (cases "i = 9")
      case True
      with v step [of ?b 1] show ?thesis by simp
    next
      case False
      with "2.prems" have "7 * i + 7 \<le> 64" by simp
      then have "(2::nat) ^ (7 * i + 7) \<le> 2 ^ 64" by (rule power_increasing) simp
      with v step [of ?b 7] True show ?thesis by simp
    qed
    with v show ?thesis by simp
  next
    case False
    with "2.prems" have rec: "uvarintFrom (i + 1) (x + ?b mod 128 * 2 ^ (7 * i)) s = Some (v, n)"
      by (auto simp: Let_def split: if_splits)
    have "i \<noteq> 9"
    proof
      assume "i = 9"
      with rec show False by (cases s) (simp_all add: Let_def)
    qed
    with "2.prems" have "i + 1 \<le> 9" by simp
    moreover have "x + ?b mod 128 * 2 ^ (7 * i) < 2 ^ (7 * (i + 1))"
      using step [of "?b mod 128" 7] by (simp add: algebra_simps)
    ultimately show ?thesis using "2.IH" [OF refl _ False rec] "2.prems" by simp
  qed
qed

lemma uvarint_bound: "uvarint s = Some (v, n) \<Longrightarrow> v < 2 ^ 64 \<and> 0 < n \<and> n \<le> length s"
  using uvarintFrom_bound [of 0 0 s v n] by (simp add: uvarint_def)

end
