(* ===== verification/Checksum.thy ===== *)
theory Checksum
  imports Encoding
begin

unbundle bit_operations_syntax

text \<open>
  The checksum of the usage spool: CRC-32 with the Castagnoli polynomial as \<open>hash/crc32\<close> computes
  it (reflected, initial value and final complement all ones), and the little-endian form in
  which it is appended. The two facts the spool needs: the bytes determine the word, and changing
  one byte of a message always changes its checksum.
\<close>

type_synonym u32 = "32 word"

definition castagnoli :: u32 where
  "castagnoli = 0x82F63B78"

definition crcBit :: "u32 \<Rightarrow> u32" where
  "crcBit w = drop_bit 1 w XOR (if bit w 0 then castagnoli else 0)"

definition crcByte :: "u32 \<Rightarrow> char \<Rightarrow> u32" where
  "crcByte c b = (crcBit ^^ 8) (c XOR word_of_nat (of_char b))"

definition crc32c :: "string \<Rightarrow> u32" where
  "crc32c s = NOT (foldl crcByte (NOT 0) s)"

definition le32 :: "u32 \<Rightarrow> string" where
  "le32 w = map (\<lambda>i. char_of (unat w div 256 ^ i mod 256)) [0, 1, 2, 3]"

definition unle32 :: "string \<Rightarrow> u32" where
  "unle32 s = word_of_nat (foldr (\<lambda>c v. of_char c + 256 * v) s 0)"

lemma crcBit_top: "bit (crcBit w) 31 \<longleftrightarrow> bit w 0"
proof -
  have "bit castagnoli 31" by (simp add: castagnoli_def)
  moreover have "\<not> bit w 32" using bit_imp_le_length [of w 32] by auto
  ultimately show ?thesis by (auto simp: crcBit_def bit_simps)
qed

lemma crcBit_inj: "inj crcBit"
proof (rule injI)
  fix v w
  assume eq: "crcBit v = crcBit w"
  then have low: "bit v 0 \<longleftrightarrow> bit w 0" by (metis crcBit_top)
  have "drop_bit 1 v = crcBit v XOR (if bit v 0 then castagnoli else 0)"
    by (simp add: crcBit_def xor.assoc)
  also have "\<dots> = crcBit w XOR (if bit w 0 then castagnoli else 0)"
    using eq low by simp
  also have "\<dots> = drop_bit 1 w" by (simp add: crcBit_def xor.assoc)
  finally have high: "drop_bit 1 v = drop_bit 1 w" .
  show "v = w"
  proof (rule bit_word_eqI)
    fix n
    show "bit v n = bit w n"
      using low arg_cong [OF high, of "\<lambda>u. bit u (n - 1)"] by (cases n) (simp_all add: bit_drop_bit_eq)
  qed
qed

lemma crcBits_inj: "inj (crcBit ^^ 8)"
  by (rule inj_fn [OF crcBit_inj])

lemma xor_cancel: "(c XOR x = c XOR y) \<longleftrightarrow> (x = y)" for c x y :: u32
  by (metis xor.left_commute xor_self_eq xor.right_neutral)

lemma crcByte_inj_state: "crcByte c b = crcByte d b \<Longrightarrow> c = d"
  unfolding crcByte_def by (drule injD [OF crcBits_inj]) (metis xor.commute xor_cancel)

lemma crcByte_inj_char: "crcByte c a = crcByte c b \<Longrightarrow> a = b"
proof -
  assume "crcByte c a = crcByte c b"
  then have "(word_of_nat (of_char a) :: u32) = word_of_nat (of_char b)"
    unfolding crcByte_def by (drule_tac injD [OF crcBits_inj]) (simp add: xor_cancel)
  moreover have "(of_char a :: nat) < 2 ^ 32" "(of_char b :: nat) < 2 ^ 32"
    by (rule less_trans [OF of_char_less], simp)+
  then have "unat (word_of_nat (of_char a) :: u32) = of_char a"
    and "unat (word_of_nat (of_char b) :: u32) = of_char b" by (simp_all add: unat_of_nat)
  ultimately have "(of_char a :: nat) = of_char b" by metis
  then show "a = b" by simp
qed

lemma foldl_crcByte_inj: "foldl crcByte c s = foldl crcByte d s \<Longrightarrow> c = d"
  by (induction s arbitrary: c d) (auto dest: crcByte_inj_state)

lemma crc32c_one_byte:
  "a \<noteq> b \<Longrightarrow> crc32c (s @ a # t) \<noteq> crc32c (s @ b # t)"
  by (auto simp: crc32c_def dest!: foldl_crcByte_inj crcByte_inj_char)

lemma length_le32 [simp]: "length (le32 w) = 4"
  by (simp add: le32_def)

lemma unle32_le32 [simp]: "unle32 (le32 w) = w"
proof -
  let ?u = "unat w"
  have b: "?u < 4294967296" using unsigned_less [of w] by simp
  have d: "?u div 65536 = ?u div 256 div 256" "?u div 16777216 = ?u div 256 div 256 div 256"
    by (simp_all add: div_mult2_eq [symmetric])
  have t: "?u div 16777216 < 256" using b by (simp add: div_less_iff_less_mult)
  then have "?u mod 256 + 256 * (?u div 256 mod 256 + 256 * (?u div 65536 mod 256
      + 256 * (?u div 16777216 mod 256))) = ?u"
    unfolding d by (simp add: mult_div_mod_eq)
  then have "foldr (\<lambda>c v. of_char c + 256 * v) (le32 w) (0 :: nat) = ?u"
    using t by (simp add: le32_def take_bit_eq_mod)
  then show ?thesis by (simp add: unle32_def)
qed

lemma foldr_le_bound: "foldr (\<lambda>c v. of_char c + 256 * v) s (0 :: nat) < 256 ^ length s"
proof (induction s)
  case Nil
  then show ?case by simp
next
  case (Cons c s)
  let ?x = "foldr (\<lambda>c v. of_char c + 256 * v) s (0 :: nat)"
  have "of_char c + 256 * ?x < 256 * (?x + 1)" using of_char_less [of c] by simp
  also have "\<dots> \<le> 256 * 256 ^ length s" using Cons by (intro mult_le_mono2) simp
  finally show ?case by simp
qed

lemma foldr_le_inj:
  "length s = length t \<Longrightarrow>
   foldr (\<lambda>c v. of_char c + 256 * v) s (0 :: nat) = foldr (\<lambda>c v. of_char c + 256 * v) t 0 \<Longrightarrow> s = t"
proof (induction s t rule: list_induct2)
  case Nil
  then show ?case by simp
next
  case (Cons c s d t)
  let ?x = "foldr (\<lambda>c v. of_char c + 256 * v) s (0 :: nat)"
  let ?y = "foldr (\<lambda>c v. of_char c + 256 * v) t (0 :: nat)"
  have eq: "of_char c + 256 * ?x = (of_char d :: nat) + 256 * ?y" using Cons.prems by simp
  have "(of_char c + 256 * ?x) mod 256 = (of_char c :: nat)"
    and "(of_char d + 256 * ?y) mod 256 = (of_char d :: nat)"
    using of_char_less [of c] of_char_less [of d] by (simp_all only: mod_mult_self2) simp_all
  with eq have "(of_char c :: nat) = of_char d" by simp
  moreover from this eq have "?x = ?y" by simp
  ultimately show ?case using Cons.IH by simp
qed

lemma unle32_inj: "\<lbrakk>length s = 4; length t = 4; unle32 s = unle32 t\<rbrakk> \<Longrightarrow> s = t"
proof (rule foldr_le_inj, simp)
  assume l: "length s = 4" "length t = 4" and eq: "unle32 s = unle32 t"
  let ?f = "\<lambda>s. foldr (\<lambda>c v. of_char c + 256 * v) s (0 :: nat)"
  have "?f s < 2 ^ 32" "?f t < 2 ^ 32"
    using foldr_le_bound [of s] foldr_le_bound [of t] l by simp_all
  moreover have "unat (word_of_nat (?f s) :: u32) = unat (word_of_nat (?f t) :: u32)"
    using eq by (simp add: unle32_def)
  ultimately show "?f s = ?f t" by (simp add: unat_of_nat)
qed

end
