(* ===== verification/Usage_Spool.thy ===== *)
theory Usage_Spool
  imports Checksum
begin

text \<open>
  The on-disk format of the usage buffer: \<open>internal/node/usage_spool.go\<close>. The writer
  (\<open>encodeUsageSpool\<close> and the \<open>append*\<close> functions) builds a byte string; the reader
  (\<open>decodeUsageSpool\<close> over a \<open>spoolReader\<close>) is a cursor with a sticky error, translated method by
  method. The locale \<open>spool_entry\<close> is the contract between the writer and the reader of one map
  entry; the loop over a whole map is proved correct once inside it and instantiated for the
  traffic statistics and for the user counters. Results: what is encoded is decoded to the same
  state, and a spool in which one byte was altered after the magic is rejected as corrupt.
\<close>

section \<open>Data\<close>

text \<open>\<open>xray.OutboundStat\<close> and \<open>xray.InboundStat\<close> have the same fields.\<close>

record stat =
  Tag :: string
  Up :: int
  Down :: int

type_synonym statMap = "(string, stat) gomap"

record usageBufferSpool =
  NextBatch :: nat
  Pending :: statMap
  Inbounds :: statMap
  Users :: "(string, int) gomap"
  ActiveOutboundBatch :: string
  ActiveOutboundSnapshot :: "statMap option"
  ActiveInboundSnapshot :: "statMap option"
  ActiveUserBatch :: string
  ActiveUserSnapshot :: "(string, int) gomap option"

datatype spoolError = errUsageSpoolCorrupt | errUsageSpoolUnknownFmt | errOther string

definition usageSpoolMagic :: string where
  "usageSpoolMagic = ''RBSPOOL1''"

section \<open>Writer\<close>

definition appendString :: "string \<Rightarrow> string" where
  "appendString v = uvarintBytes (length v) @ v"

definition appendOptional :: "'a option \<Rightarrow> ('a \<Rightarrow> string) \<Rightarrow> string" where
  "appendOptional v put = (case v of None \<Rightarrow> [CHR 0x00] | Some x \<Rightarrow> CHR 0x01 # put x)"

definition putStat :: "string \<times> stat \<Rightarrow> string" where
  "putStat e = (case e of (key, item) \<Rightarrow>
     appendString key @ appendString (Tag item) @ varintBytes (Up item) @ varintBytes (Down item))"

definition appendStats :: "statMap \<Rightarrow> string" where
  "appendStats stats = uvarintBytes (length stats) @ concat (map putStat stats)"

text \<open>
  The first loop of \<open>appendUserCounters\<close> collects the distinct key tails (what follows the first
  NUL) in the order they are met and numbers them from 1.
\<close>

fun collectTails :: "string list \<Rightarrow> string list \<Rightarrow> (string, nat) gomap \<Rightarrow> string list \<times> (string, nat) gomap" where
  "collectTails [] tails tailIndex = (tails, tailIndex)"
| "collectTails (key # keys) tails tailIndex =
     (case cut key [CHR 0x00] of (_, tail, found) \<Rightarrow>
        if found \<and> map_of tailIndex tail = None
        then collectTails keys (tails @ [tail]) (AList.update tail (length tails + 1) tailIndex)
        else collectTails keys tails tailIndex)"

definition putUser :: "(string, nat) gomap \<Rightarrow> string \<times> int \<Rightarrow> string" where
  "putUser tailIndex e = (case e of (key, value) \<Rightarrow> case cut key [CHR 0x00] of (uid, tail, found) \<Rightarrow>
     appendString uid @ (if found then uvarintBytes (mget 0 tailIndex tail) else uvarintBytes 0)
       @ varintBytes value)"

definition appendUserCounters :: "(string, int) gomap \<Rightarrow> string" where
  "appendUserCounters counters =
     (case collectTails (map fst counters) [] [] of (tails, tailIndex) \<Rightarrow>
        uvarintBytes (length tails) @ concat (map appendString tails)
        @ uvarintBytes (length counters) @ concat (map (putUser tailIndex) counters))"

definition spoolBody :: "usageBufferSpool \<Rightarrow> string" where
  "spoolBody state =
     uvarintBytes (NextBatch state)
     @ appendStats (Pending state)
     @ appendStats (Inbounds state)
     @ appendUserCounters (Users state)
     @ appendString (ActiveOutboundBatch state)
     @ appendOptional (ActiveOutboundSnapshot state) appendStats
     @ appendOptional (ActiveInboundSnapshot state) appendStats
     @ appendString (ActiveUserBatch state)
     @ appendOptional (ActiveUserSnapshot state) appendUserCounters"

definition encodeUsageSpool :: "usageBufferSpool \<Rightarrow> string" where
  "encodeUsageSpool state = usageSpoolMagic @ spoolBody state @ le32 (crc32c (spoolBody state))"

section \<open>Reader\<close>

record spoolReader =
  rdata :: string
  rerr :: "spoolError option"

definition rUvarint :: "spoolReader \<Rightarrow> nat \<times> spoolReader" where
  "rUvarint r = (if rerr r \<noteq> None then (0, r)
     else case uvarint (rdata r) of
       None \<Rightarrow> (0, r\<lparr>rerr := Some errUsageSpoolCorrupt\<rparr>)
     | Some (value, n) \<Rightarrow> (value, r\<lparr>rdata := drop n (rdata r)\<rparr>))"

definition rVarint :: "spoolReader \<Rightarrow> int \<times> spoolReader" where
  "rVarint r = (if rerr r \<noteq> None then (0, r)
     else case varint (rdata r) of
       None \<Rightarrow> (0, r\<lparr>rerr := Some errUsageSpoolCorrupt\<rparr>)
     | Some (value, n) \<Rightarrow> (value, r\<lparr>rdata := drop n (rdata r)\<rparr>))"

definition rCount :: "spoolReader \<Rightarrow> nat \<times> spoolReader" where
  "rCount r = (case rUvarint r of (value, r') \<Rightarrow>
     if rerr r' = None \<and> length (rdata r') < value
     then (0, r'\<lparr>rerr := Some errUsageSpoolCorrupt\<rparr>) else (value, r'))"

definition rStr :: "spoolReader \<Rightarrow> string \<times> spoolReader" where
  "rStr r = (case rUvarint r of (len, r') \<Rightarrow>
     if rerr r' \<noteq> None then ([], r')
     else if length (rdata r') < len then ([], r'\<lparr>rerr := Some errUsageSpoolCorrupt\<rparr>)
     else (take len (rdata r'), r'\<lparr>rdata := drop len (rdata r')\<rparr>))"

definition rOptional :: "spoolReader \<Rightarrow> bool \<times> spoolReader" where
  "rOptional r = (if rerr r \<noteq> None \<or> rdata r = [] then (False, r\<lparr>rerr := Some errUsageSpoolCorrupt\<rparr>)
     else let flag = hd (rdata r); r' = r\<lparr>rdata := tl (rdata r)\<rparr>;
              r'' = (if 1 < (of_char flag :: nat) then r'\<lparr>rerr := Some errUsageSpoolCorrupt\<rparr> else r')
          in (flag = CHR 0x01, r''))"

text \<open>
  The loop \<open>for i := 0; i < n && r.err == nil; i++\<close> over a reader of one entry; the entry reader
  answers \<open>None\<close> where the body breaks out of the loop before it stores.
\<close>

fun readEntries :: "(spoolReader \<Rightarrow> ('k \<times> 'v) option \<times> spoolReader) \<Rightarrow> nat \<Rightarrow> spoolReader
    \<Rightarrow> ('k, 'v) gomap \<Rightarrow> ('k, 'v) gomap \<times> spoolReader" where
  "readEntries rd 0 r result = (result, r)"
| "readEntries rd (Suc n) r result =
     (if rerr r \<noteq> None then (result, r)
      else case rd r of
        (None, r') \<Rightarrow> (result, r')
      | (Some (key, item), r') \<Rightarrow> readEntries rd n r' (AList.update key item result))"

definition rdStat :: "spoolReader \<Rightarrow> (string \<times> stat) option \<times> spoolReader" where
  "rdStat r = (case rStr r of (key, r1) \<Rightarrow> case rStr r1 of (tg, r2) \<Rightarrow>
     case rVarint r2 of (up, r3) \<Rightarrow> case rVarint r3 of (down, r4) \<Rightarrow>
       (Some (key, \<lparr>Tag = tg, Up = up, Down = down\<rparr>), r4))"

definition rStats :: "spoolReader \<Rightarrow> statMap \<times> spoolReader" where
  "rStats r = (case rCount r of (n, r') \<Rightarrow> readEntries rdStat n r' [])"

fun rStrs :: "nat \<Rightarrow> spoolReader \<Rightarrow> string list \<times> spoolReader" where
  "rStrs 0 r = ([], r)"
| "rStrs (Suc n) r = (case rStr r of (s, r') \<Rightarrow> case rStrs n r' of (ss, r'') \<Rightarrow> (s # ss, r''))"

definition rdUser :: "string list \<Rightarrow> spoolReader \<Rightarrow> (string \<times> int) option \<times> spoolReader" where
  "rdUser tails r = (case rStr r of (key, r1) \<Rightarrow> case rUvarint r1 of (index, r2) \<Rightarrow>
     if length tails < index then (None, r2\<lparr>rerr := Some errUsageSpoolCorrupt\<rparr>)
     else let key' = (if 0 < index then key @ CHR 0x00 # tails ! (index - 1) else key)
          in case rVarint r2 of (value, r3) \<Rightarrow> (Some (key', value), r3))"

definition rUserCounters :: "spoolReader \<Rightarrow> (string, int) gomap \<times> spoolReader" where
  "rUserCounters r = (case rCount r of (k, r1) \<Rightarrow> case rStrs k r1 of (tails, r2) \<Rightarrow>
     case rCount r2 of (n, r3) \<Rightarrow> readEntries (rdUser tails) n r3 [])"

text \<open>\<open>if reader.optional() { state.X = reader.read() }\<close>\<close>

definition rOptionally :: "(spoolReader \<Rightarrow> 'a \<times> spoolReader) \<Rightarrow> spoolReader \<Rightarrow> 'a option \<times> spoolReader" where
  "rOptionally rd r = (case rOptional r of (present, r') \<Rightarrow>
     if present then (case rd r' of (v, r'') \<Rightarrow> (Some v, r'')) else (None, r'))"

definition rState :: "spoolReader \<Rightarrow> usageBufferSpool \<times> spoolReader" where
  "rState r0 =
     (case rUvarint r0 of (nb, r1) \<Rightarrow>
      case rStats r1 of (pe, r2) \<Rightarrow>
      case rStats r2 of (inb, r3) \<Rightarrow>
      case rUserCounters r3 of (us, r4) \<Rightarrow>
      case rStr r4 of (aob, r5) \<Rightarrow>
      case rOptionally rStats r5 of (aos, r6) \<Rightarrow>
      case rOptionally rStats r6 of (ais, r7) \<Rightarrow>
      case rStr r7 of (aub, r8) \<Rightarrow>
      case rOptionally rUserCounters r8 of (aus, r9) \<Rightarrow>
        (\<lparr>NextBatch = nb, Pending = pe, Inbounds = inb, Users = us, ActiveOutboundBatch = aob,
          ActiveOutboundSnapshot = aos, ActiveInboundSnapshot = ais, ActiveUserBatch = aub,
          ActiveUserSnapshot = aus\<rparr>, r9))"

definition trimLeftJSON :: "string \<Rightarrow> string" where
  "trimLeftJSON s = dropWhile (\<lambda>c. c \<in> {CHR '' '', CHR 0x09, CHR 0x0D, CHR 0x0A}) s"

text \<open>
  \<open>decodeUsageSpool\<close>. A file that starts with a brace is the older JSON spool: \<open>json.Unmarshal\<close>
  into the state is the argument \<open>unjson\<close>.
\<close>

definition decodeUsageSpool :: "(string \<Rightarrow> spoolError + usageBufferSpool) \<Rightarrow> string
    \<Rightarrow> spoolError + usageBufferSpool" where
  "decodeUsageSpool unjson inp =
     (let trimmed = trimLeftJSON inp in
      if trimmed \<noteq> [] \<and> hd trimmed = CHR 0x7B then unjson inp
      else if length inp < length usageSpoolMagic + 4
              \<or> take (length usageSpoolMagic) inp \<noteq> usageSpoolMagic
           then Inl errUsageSpoolUnknownFmt
      else let body = drop (length usageSpoolMagic) (take (length inp - 4) inp) in
           if crc32c body \<noteq> unle32 (drop (length inp - 4) inp) then Inl errUsageSpoolCorrupt
           else case rState \<lparr>rdata = body, rerr = None\<rparr> of (state, r) \<Rightarrow>
             let r' = (if rerr r = None \<and> rdata r \<noteq> [] then r\<lparr>rerr := Some errUsageSpoolCorrupt\<rparr> else r)
             in case rerr r' of Some e \<Rightarrow> Inl e | None \<Rightarrow> Inr state)"

section \<open>The reader inverts the writer\<close>

named_theorems spool_read \<comment> \<open>a reader applied to what its writer put in front of the cursor\<close>

abbreviation at :: "string \<Rightarrow> spoolReader" where
  "at s \<equiv> \<lparr>rdata = s, rerr = None\<rparr>"

abbreviation short :: "'a list \<Rightarrow> bool" where
  "short s \<equiv> length s < 18446744073709551616"

lemma rUvarint_put [spool_read]: "n < 18446744073709551616 \<Longrightarrow> rUvarint (at (uvarintBytes n @ s)) = (n, at s)"
  using uvarint_uvarintBytes [of n s] by (simp add: rUvarint_def)

lemma rVarint_put [spool_read]: "is_int64 x \<Longrightarrow> rVarint (at (varintBytes x @ s)) = (x, at s)"
  using varint_varintBytes [of x s] by (simp add: rVarint_def)

lemma rStr_put [spool_read]: "short v \<Longrightarrow> rStr (at (appendString v @ s)) = (v, at s)"
  by (simp add: rStr_def appendString_def rUvarint_put)

lemma rCount_put [spool_read]:
  "n < 18446744073709551616 \<Longrightarrow> n \<le> length s \<Longrightarrow> rCount (at (uvarintBytes n @ s)) = (n, at s)"
  by (simp add: rCount_def rUvarint_put)

lemma appendString_not_Nil [simp]: "appendString v \<noteq> []"
  by (simp add: appendString_def)

lemma length_concat_map_ge: "(\<And>x. f x \<noteq> []) \<Longrightarrow> length xs \<le> length (concat (map f xs))"
proof (induction xs)
  case Nil
  then show ?case by simp
next
  case (Cons x xs)
  have "0 < length (f x)" using Cons.prems by simp
  with Cons show ?case by (simp del: length_greater_0_conv)
qed

lemma rStrs_put [spool_read]:
  "\<forall>v \<in> set vs. short v \<Longrightarrow> rStrs (length vs) (at (concat (map appendString vs) @ s)) = (vs, at s)"
  by (induction vs) (simp_all add: rStr_put)

text \<open>
  The contract of one map entry: reading what was put gives the entry back and leaves the cursor
  behind it, and an entry takes at least one byte (the reader bounds the announced count by the
  bytes that are left).
\<close>

locale spool_entry =
  fixes put :: "string \<times> 'v \<Rightarrow> string"
    and rd :: "spoolReader \<Rightarrow> (string \<times> 'v) option \<times> spoolReader"
    and ok :: "string \<times> 'v \<Rightarrow> bool"
  assumes rd_put: "ok e \<Longrightarrow> rd (at (put e @ s)) = (Some e, at s)"
    and put_not_Nil: "put e \<noteq> []"
begin

lemma readEntries_put:
  assumes "\<forall>e \<in> set es. ok e" and "gomap_wf (acc @ es)"
  shows "readEntries rd (length es) (at (concat (map put es) @ s)) acc = (acc @ es, at s)"
  using assms
proof (induction es arbitrary: acc)
  case Nil
  then show ?case by simp
next
  case (Cons e es)
  obtain k v where e: "e = (k, v)" by (cases e)
  have "readEntries rd (length (e # es)) (at (concat (map put (e # es)) @ s)) acc
      = readEntries rd (length es) (at (concat (map put es) @ s)) (AList.update k v acc)"
    using Cons.prems rd_put [of e "concat (map put es) @ s"] by (simp add: e)
  also have "AList.update k v acc = acc @ [e]"
    using Cons.prems(2) by (simp add: e update_new)
  also have "readEntries rd (length es) (at (concat (map put es) @ s)) (acc @ [e])
      = ((acc @ [e]) @ es, at s)"
    using Cons.prems by (intro Cons.IH) auto
  finally show ?case by simp
qed

lemma readMap_put:
  assumes "\<forall>e \<in> set es. ok e" and "gomap_wf es" and "short es"
  shows "(case rCount (at (uvarintBytes (length es) @ concat (map put es) @ s)) of
    (n, r) \<Rightarrow> readEntries rd n r []) = (es, at s)"
proof -
  have "length es \<le> length (concat (map put es) @ s)"
    using length_concat_map_ge [of put es] put_not_Nil by simp
  with assms(3) have "rCount (at (uvarintBytes (length es) @ concat (map put es) @ s))
      = (length es, at (concat (map put es) @ s))"
    by (simp add: rCount_put)
  then show ?thesis using readEntries_put [of es "[]" s] assms by simp
qed

end

definition statOk :: "string \<times> stat \<Rightarrow> bool" where
  "statOk e \<longleftrightarrow> short (fst e) \<and> short (Tag (snd e)) \<and> is_int64 (Up (snd e)) \<and> is_int64 (Down (snd e))"

interpretation statEntry: spool_entry putStat rdStat statOk
proof
  fix e s
  assume "statOk e"
  then show "rdStat (at (putStat e @ s)) = (Some e, at s)"
    by (cases e) (simp add: statOk_def putStat_def rdStat_def spool_read)
next
  fix e
  show "putStat e \<noteq> []" by (cases e) (simp add: putStat_def)
qed

definition userOk :: "string list \<Rightarrow> (string, nat) gomap \<Rightarrow> string \<times> int \<Rightarrow> bool" where
  "userOk tails tailIndex e \<longleftrightarrow> short (fst e) \<and> is_int64 (snd e) \<and> short tails \<and>
     (case cut (fst e) [CHR 0x00] of (uid, tail, found) \<Rightarrow> found \<longrightarrow>
        (let i = mget 0 tailIndex tail in 0 < i \<and> i \<le> length tails \<and> tails ! (i - 1) = tail))"

interpretation userEntry: spool_entry "putUser tailIndex" "rdUser tails" "userOk tails tailIndex"
  for tails tailIndex
proof
  fix e s
  assume ok: "userOk tails tailIndex e"
  obtain key val where e: "e = (key, val)" by (cases e)
  obtain uid tail found where c: "cut key [CHR 0x00] = (uid, tail, found)" by (cases "cut key [CHR 0x00]")
  have "short uid"
  proof (cases found)
    case True
    with c have "key = uid @ [CHR 0x00] @ tail" by (auto dest: cut_found)
    with ok e show ?thesis by (simp add: userOk_def)
  next
    case False
    with c have "key = uid" by (auto dest: cut_not_found)
    with ok e show ?thesis by (simp add: userOk_def)
  qed
  then show "rdUser tails (at (putUser tailIndex e @ s)) = (Some e, at s)"
    using ok e c
    by (cases found) (auto simp: userOk_def putUser_def rdUser_def spool_read Let_def
        dest: cut_found cut_not_found)
next
  fix e
  show "putUser tailIndex e \<noteq> []"
    by (cases e) (simp add: putUser_def split: prod.split)
qed

lemma collectTails_sound:
  assumes "collectTails keys tails ix = (T, X)"
    and "\<And>t i. map_of ix t = Some i \<Longrightarrow> 0 < i \<and> i \<le> length tails \<and> tails ! (i - 1) = t"
  shows "map_of X t = Some i \<Longrightarrow> 0 < i \<and> i \<le> length T \<and> T ! (i - 1) = t"
  using assms
proof (induction keys arbitrary: tails ix)
  case Nil
  then show ?case by simp
next
  case (Cons key keys)
  obtain uid tl' found where c: "cut key [CHR 0x00] = (uid, tl', found)" by (cases "cut key [CHR 0x00]")
  show ?case
  proof (cases "found \<and> map_of ix tl' = None")
    case True
    let ?tails = "tails @ [tl']" and ?ix = "AList.update tl' (length tails + 1) ix"
    have "0 < j \<and> j \<le> length ?tails \<and> ?tails ! (j - 1) = u" if "map_of ?ix u = Some j" for u j
    proof (cases "u = tl'")
      case True
      with that show ?thesis by (auto simp: update_conv')
    next
      case False
      with that have "map_of ix u = Some j" by (simp add: update_conv')
      with Cons.prems(3) have "0 < j \<and> j \<le> length tails \<and> tails ! (j - 1) = u" by blast
      then show ?thesis by (auto simp: nth_append)
    qed
    then show ?thesis using Cons.IH [of ?tails ?ix] Cons.prems c True by simp
  next
    case False
    then have "collectTails keys tails ix = (T, X)" using Cons.prems(2) c by (auto split: if_splits)
    then show ?thesis using Cons.IH Cons.prems by blast
  qed
qed

lemma collectTails_keeps: "collectTails keys tails ix = (T, X) \<Longrightarrow> map_of ix t \<noteq> None \<Longrightarrow> map_of X t \<noteq> None"
proof (induction keys arbitrary: tails ix)
  case Nil
  then show ?case by simp
next
  case (Cons k keys)
  obtain u tl' f where c: "cut k [CHR 0x00] = (u, tl', f)" by (cases "cut k [CHR 0x00]")
  show ?case
  proof (cases "f \<and> map_of ix tl' = None")
    case True
    moreover have "map_of (AList.update tl' (length tails + 1) ix) t \<noteq> None"
      using Cons.prems by (simp add: update_conv')
    ultimately show ?thesis
      using Cons.IH [of "tails @ [tl']" "AList.update tl' (length tails + 1) ix"] Cons.prems c by simp
  next
    case False
    with Cons.prems c have "collectTails keys tails ix = (T, X)" by auto
    with Cons.IH Cons.prems show ?thesis by blast
  qed
qed

lemma collectTails_complete:
  "collectTails keys tails ix = (T, X) \<Longrightarrow> key \<in> set keys \<Longrightarrow> cut key [CHR 0x00] = (uid, t, True) \<Longrightarrow>
     map_of X t \<noteq> None"
proof (induction keys arbitrary: tails ix)
  case Nil
  then show ?case by simp
next
  case (Cons k keys)
  obtain u tl' f where c: "cut k [CHR 0x00] = (u, tl', f)" by (cases "cut k [CHR 0x00]")
  show ?case
  proof (cases "key \<in> set keys")
    case True
    with Cons c show ?thesis by (auto split: if_splits)
  next
    case False
    with Cons.prems c have "f" "tl' = t" by auto
    show ?thesis
    proof (cases "map_of ix t")
      case None
      then have "collectTails keys (tails @ [t]) (AList.update t (length tails + 1) ix) = (T, X)"
        using Cons.prems(1) c \<open>f\<close> \<open>tl' = t\<close> by simp
      then show ?thesis by (rule collectTails_keeps) (simp add: update_conv')
    next
      case (Some i)
      with Cons.prems(1) c \<open>tl' = t\<close> have "collectTails keys tails ix = (T, X)" by simp
      then show ?thesis by (rule collectTails_keeps) (simp add: Some)
    qed
  qed
qed

lemma collectTails_short:
  "collectTails keys tails ix = (T, X) \<Longrightarrow> \<forall>k \<in> set keys. short k \<Longrightarrow> \<forall>t \<in> set tails. short t \<Longrightarrow>
     (\<forall>t \<in> set T. short t) \<and> length T \<le> length tails + length keys"
proof (induction keys arbitrary: tails ix)
  case Nil
  then show ?case by simp
next
  case (Cons k keys)
  obtain u tl' f where c: "cut k [CHR 0x00] = (u, tl', f)" by (cases "cut k [CHR 0x00]")
  show ?case
  proof (cases "f \<and> map_of ix tl' = None")
    case True
    with c have "k = u @ [CHR 0x00] @ tl'" by (auto dest: cut_found)
    with Cons.prems have "short tl'" by auto
    with Cons.prems c True Cons.IH [of "tails @ [tl']" "AList.update tl' (length tails + 1) ix"]
    show ?thesis by auto
  next
    case False
    with Cons.prems c have "collectTails keys tails ix = (T, X)" by auto
    with Cons.IH Cons.prems show ?thesis by fastforce
  qed
qed

section \<open>Whole maps and the whole state\<close>

definition statsOk :: "statMap \<Rightarrow> bool" where
  "statsOk m \<longleftrightarrow> gomap_wf m \<and> short m \<and> list_all statOk m"

definition countersOk :: "(string, int) gomap \<Rightarrow> bool" where
  "countersOk m \<longleftrightarrow> gomap_wf m \<and> short m \<and> list_all (\<lambda>e. short (fst e) \<and> is_int64 (snd e)) m"

definition spoolOk :: "usageBufferSpool \<Rightarrow> bool" where
  "spoolOk st \<longleftrightarrow> NextBatch st < 18446744073709551616 \<and> statsOk (Pending st) \<and> statsOk (Inbounds st)
     \<and> countersOk (Users st) \<and> short (ActiveOutboundBatch st) \<and> short (ActiveUserBatch st)
     \<and> pred_option statsOk (ActiveOutboundSnapshot st) \<and> pred_option statsOk (ActiveInboundSnapshot st)
     \<and> pred_option countersOk (ActiveUserSnapshot st)"

lemma rStats_put [spool_read]: "statsOk m \<Longrightarrow> rStats (at (appendStats m @ s)) = (m, at s)"
  using statEntry.readMap_put [of m s]
  by (simp add: rStats_def appendStats_def statsOk_def list_all_iff)

lemma rUserCounters_put [spool_read]:
  assumes "countersOk m"
  shows "rUserCounters (at (appendUserCounters m @ s)) = (m, at s)"
proof -
  obtain T X where TX: "collectTails (map fst m) [] [] = (T, X)" by (cases "collectTails (map fst m) [] []")
  have sh: "\<forall>t \<in> set T. short t" "length T \<le> length m"
    using collectTails_short [OF TX] assms by (auto simp: countersOk_def list_all_iff)
  then have "short T" using assms by (simp add: countersOk_def)
  have ok: "\<forall>e \<in> set m. userOk T X e"
  proof
    fix e
    assume e: "e \<in> set m"
    obtain u t f where c: "cut (fst e) [CHR 0x00] = (u, t, f)" by (cases "cut (fst e) [CHR 0x00]")
    have "0 < mget 0 X t \<and> mget 0 X t \<le> length T \<and> T ! (mget 0 X t - 1) = t" if f
    proof -
      have "map_of X t \<noteq> None"
        by (rule collectTails_complete [OF TX, of "fst e" u]) (use that c e in auto)
      then obtain i where "map_of X t = Some i" by auto
      with collectTails_sound [OF TX] show ?thesis by (simp add: mget_def)
    qed
    with c e assms \<open>short T\<close> show "userOk T X e"
      by (auto simp: userOk_def countersOk_def list_all_iff Let_def)
  qed
  let ?rest = "uvarintBytes (length m) @ concat (map (putUser X) m) @ s"
  have "length T \<le> length (concat (map appendString T) @ ?rest)"
    using length_concat_map_ge [of appendString T] by simp
  then have "rCount (at (uvarintBytes (length T) @ concat (map appendString T) @ ?rest))
      = (length T, at (concat (map appendString T) @ ?rest))"
    using \<open>short T\<close> by (intro rCount_put)
  moreover have "rStrs (length T) (at (concat (map appendString T) @ ?rest)) = (T, at ?rest)"
    using sh by (intro rStrs_put)
  moreover have "(case rCount (at ?rest) of (n, r) \<Rightarrow> readEntries (rdUser T) n r []) = (m, at s)"
    using ok assms by (intro userEntry.readMap_put) (auto simp: countersOk_def)
  ultimately show ?thesis by (simp add: rUserCounters_def appendUserCounters_def TX)
qed

lemma rOptionally_put [spool_read]:
  assumes "\<And>x t. P x \<Longrightarrow> rd (at (put x @ t)) = (x, at t)" and "pred_option P v"
  shows "rOptionally rd (at (appendOptional v put @ s)) = (v, at s)"
  using assms by (cases v) (simp_all add: rOptionally_def appendOptional_def rOptional_def)

lemma rState_put:
  assumes "spoolOk st"
  shows "rState (at (spoolBody st)) = (st, at [])"
proof -
  note optStats = rOptionally_put [where P = statsOk, OF rStats_put]
  note optUsers = rOptionally_put [where P = countersOk, OF rUserCounters_put]
  show ?thesis
    using assms optUsers [of "ActiveUserSnapshot st" "[]"] unfolding spoolOk_def
    by (simp add: rState_def spoolBody_def rUvarint_put rStr_put rStats_put rUserCounters_put optStats)
qed

lemma encode_layout:
  "take (length usageSpoolMagic) (encodeUsageSpool st) = usageSpoolMagic"
  "\<not> length (encodeUsageSpool st) < length usageSpoolMagic + 4"
  "drop (length usageSpoolMagic) (take (length (encodeUsageSpool st) - 4) (encodeUsageSpool st)) = spoolBody st"
  "drop (length (encodeUsageSpool st) - 4) (encodeUsageSpool st) = le32 (crc32c (spoolBody st))"
  by (simp_all add: encodeUsageSpool_def)

lemma magic_not_json: "trimLeftJSON (usageSpoolMagic @ s) = usageSpoolMagic @ s"
  by (simp add: trimLeftJSON_def usageSpoolMagic_def)

lemma hd_magic: "hd (usageSpoolMagic @ s) \<noteq> CHR 0x7B"
  by (simp add: usageSpoolMagic_def)

lemma decode_encode: "spoolOk st \<Longrightarrow> decodeUsageSpool unjson (encodeUsageSpool st) = Inr st"
  using hd_magic magic_not_json
  unfolding decodeUsageSpool_def Let_def encode_layout
  by (simp add: encodeUsageSpool_def rState_put)

section \<open>A changed byte is found\<close>

lemma crc32c_list_update:
  assumes "i < length s" and "c \<noteq> s ! i"
  shows "crc32c (s[i := c]) \<noteq> crc32c s"
  using crc32c_one_byte [OF assms(2), of "take i s" "drop (Suc i) s"] assms(1)
  by (simp add: upd_conv_take_nth_drop id_take_nth_drop [symmetric])

lemma decode_corrupt:
  assumes "length b = 4" and "crc32c body \<noteq> unle32 b"
  shows "decodeUsageSpool unjson (usageSpoolMagic @ body @ b) = Inl errUsageSpoolCorrupt"
  using assms hd_magic [of "body @ b"] magic_not_json [of "body @ b"]
  unfolding decodeUsageSpool_def Let_def by simp

lemma decode_one_byte:
  assumes "length usageSpoolMagic \<le> i" and "i < length (encodeUsageSpool st)"
    and "c \<noteq> encodeUsageSpool st ! i"
  shows "decodeUsageSpool unjson ((encodeUsageSpool st)[i := c]) = Inl errUsageSpoolCorrupt"
proof -
  let ?m = usageSpoolMagic and ?b = "spoolBody st"
  let ?k = "le32 (crc32c ?b)" and ?j = "i - length usageSpoolMagic"
  have upd: "(encodeUsageSpool st)[i := c] = ?m @ (?b @ ?k)[?j := c]"
    using assms(1) by (simp add: encodeUsageSpool_def list_update_append)
  show ?thesis
  proof (cases "?j < length ?b")
    case True
    then have "crc32c (?b[?j := c]) \<noteq> crc32c ?b"
      using assms by (intro crc32c_list_update) (simp_all add: encodeUsageSpool_def nth_append)
    with True show ?thesis unfolding upd by (simp add: list_update_append decode_corrupt)
  next
    case False
    let ?n = "?j - length ?b"
    have n: "?n < 4" "?k ! ?n \<noteq> c"
      using False assms by (auto simp: encodeUsageSpool_def nth_append)
    then have "?k[?n := c] \<noteq> ?k" by (metis length_le32 nth_list_update_eq)
    then have "unle32 (?k[?n := c]) \<noteq> crc32c ?b"
      using unle32_inj [of "?k[?n := c]" ?k] by auto
    with False show ?thesis unfolding upd by (simp add: list_update_append decode_corrupt)
  qed
qed

text \<open>
  (C11) Whatever the counters are, a spool file in which a single byte after the magic was changed
  is refused as corrupt: no altered counter is ever loaded.
\<close>

theorem spool_single_byte_corruption:
  assumes "length usageSpoolMagic \<le> i" and "i < length (encodeUsageSpool st)"
    and "c \<noteq> encodeUsageSpool st ! i"
  shows "decodeUsageSpool unjson ((encodeUsageSpool st)[i := c]) = Inl errUsageSpoolCorrupt"
  using assms by (rule decode_one_byte)

text \<open>
  (C8) Every state the buffer can write (64-bit counters, lengths below $2^{64}$, maps with
  distinct keys) is read back exactly as it was written.
\<close>

theorem spool_roundtrip:
  assumes "spoolOk st"
  shows "decodeUsageSpool unjson (encodeUsageSpool st) = Inr st"
  using assms by (rule decode_encode)

definition exampleSpool :: usageBufferSpool where
  "exampleSpool = \<lparr>NextBatch = 300, Pending = [(''out'', \<lparr>Tag = ''out'', Up = 5, Down = 70\<rparr>)],
     Inbounds = [], Users = [(''7.ann'', 12), (''8.bob'' @ [CHR 0x00] @ ''dGFn'', 900)],
     ActiveOutboundBatch = [], ActiveOutboundSnapshot = None, ActiveInboundSnapshot = None,
     ActiveUserBatch = ''300'', ActiveUserSnapshot = Some [(''7.ann'', 10)]\<rparr>"

lemma exampleSpool_ok: "spoolOk exampleSpool"
  by (simp add: exampleSpool_def spoolOk_def statsOk_def countersOk_def statOk_def is_int64_def)

theorem spool_roundtrip_witness:
  "spoolOk exampleSpool
   \<and> decodeUsageSpool (\<lambda>_. Inl (errOther ''json'')) (encodeUsageSpool exampleSpool) = Inr exampleSpool"
  using spool_roundtrip [OF exampleSpool_ok] exampleSpool_ok by simp

theorem spool_single_byte_corruption_witness:
  "decodeUsageSpool (\<lambda>_. Inl (errOther ''json'')) ((encodeUsageSpool exampleSpool)[8 := CHR 0x00])
     = Inl errUsageSpoolCorrupt"
proof (rule spool_single_byte_corruption)
  show "length usageSpoolMagic \<le> 8" by (simp add: usageSpoolMagic_def)
  show "8 < length (encodeUsageSpool exampleSpool)"
    by (simp add: encodeUsageSpool_def usageSpoolMagic_def)
  have "spoolBody exampleSpool \<noteq> [] \<and> hd (spoolBody exampleSpool) \<noteq> CHR 0x00"
    by (simp add: spoolBody_def exampleSpool_def uvarintBytes.simps char_of_def)
  then show "CHR 0x00 \<noteq> encodeUsageSpool exampleSpool ! 8"
    by (cases "spoolBody exampleSpool") (auto simp: encodeUsageSpool_def usageSpoolMagic_def)
qed

end
