(* ===== verification/Batch_Ledger.thy ===== *)
theory Batch_Ledger
  imports Prelude
begin

text \<open>
  The protocol by which the master drains the node's counters: samples are added, a batch (a
  snapshot of the counters) is handed out and stays the same until it is acknowledged, and an
  acknowledgement subtracts it. \<open>batch_ledger\<close> states what one set of counters promises; the
  conservation law (what was collected is what was delivered plus what is still counted) is
  proved once here and holds for every component that instantiates it: the user counters and the
  outbound and inbound counters of \<open>Usage_Buffer\<close>.
\<close>

datatype ('s, 'a, 'o) ledgerEvent = AddSamples 's | CollectBatch 's | AckBatch 'a | OtherOp 'o

text \<open>
  A run of events on the buffer, with the two ghost totals per key: everything the samples
  brought, and everything the acknowledged batches carried.
\<close>

fun ledgerStep :: "('s \<Rightarrow> 'k \<Rightarrow> int) \<Rightarrow> ('b \<Rightarrow> ('k \<Rightarrow> int) option) \<Rightarrow> ('s \<Rightarrow> 'b \<Rightarrow> 'b) \<Rightarrow> ('s \<Rightarrow> 'b \<Rightarrow> 'b)
    \<Rightarrow> ('a \<Rightarrow> 'b \<Rightarrow> bool \<times> 'b) \<Rightarrow> ('o \<Rightarrow> 'b \<Rightarrow> 'b) \<Rightarrow> ('s, 'a, 'o) ledgerEvent
    \<Rightarrow> 'b \<times> ('k \<Rightarrow> int) \<times> ('k \<Rightarrow> int) \<Rightarrow> 'b \<times> ('k \<Rightarrow> int) \<times> ('k \<Rightarrow> int)" where
  "ledgerStep amount snap add collect ack other (AddSamples s) (b, col, del) =
     (add s b, \<lambda>k. col k + amount s k, del)"
| "ledgerStep amount snap add collect ack other (CollectBatch s) (b, col, del) =
     (collect s b, \<lambda>k. col k + amount s k, del)"
| "ledgerStep amount snap add collect ack other (AckBatch a) (b, col, del) =
     (snd (ack a b), col,
      if fst (ack a b) then (\<lambda>k. del k + (case snap b of None \<Rightarrow> 0 | Some m \<Rightarrow> m k)) else del)"
| "ledgerStep amount snap add collect ack other (OtherOp x) (b, col, del) = (other x b, col, del)"

definition ledgerRun :: "('s \<Rightarrow> 'k \<Rightarrow> int) \<Rightarrow> ('b \<Rightarrow> ('k \<Rightarrow> int) option) \<Rightarrow> ('s \<Rightarrow> 'b \<Rightarrow> 'b) \<Rightarrow> ('s \<Rightarrow> 'b \<Rightarrow> 'b)
    \<Rightarrow> ('a \<Rightarrow> 'b \<Rightarrow> bool \<times> 'b) \<Rightarrow> ('o \<Rightarrow> 'b \<Rightarrow> 'b) \<Rightarrow> ('s, 'a, 'o) ledgerEvent list
    \<Rightarrow> 'b \<times> ('k \<Rightarrow> int) \<times> ('k \<Rightarrow> int) \<Rightarrow> 'b \<times> ('k \<Rightarrow> int) \<times> ('k \<Rightarrow> int)" where
  "ledgerRun amount snap add collect ack other evs st =
     fold (ledgerStep amount snap add collect ack other) evs st"

text \<open>Saturating addition of a non-negative amount.\<close>

definition satAdd :: "int \<Rightarrow> int \<Rightarrow> int" where
  "satAdd x y = min max_int64 (x + y)"

lemma satAdd_satAdd: "0 \<le> z \<Longrightarrow> satAdd (satAdd x y) z = satAdd x (y + z)"
  by (simp add: satAdd_def min_def)

locale batch_ledger =
  fixes cnt :: "'b \<Rightarrow> 'k \<Rightarrow> int"
    and snap :: "'b \<Rightarrow> ('k \<Rightarrow> int) option"
    and inv :: "'b \<Rightarrow> bool"
    and amount :: "'s \<Rightarrow> 'k \<Rightarrow> int"
    and add :: "'s \<Rightarrow> 'b \<Rightarrow> 'b"
    and collect :: "'s \<Rightarrow> 'b \<Rightarrow> 'b"
    and ack :: "'a \<Rightarrow> 'b \<Rightarrow> bool \<times> 'b"
    and other :: "'o \<Rightarrow> 'b \<Rightarrow> 'b"
  assumes amount_nonneg: "0 \<le> amount s k"
    and cnt_bounds: "inv b \<Longrightarrow> 0 \<le> cnt b k \<and> cnt b k \<le> max_int64"
    and snap_bounds: "inv b \<Longrightarrow> snap b = Some m \<Longrightarrow> 0 \<le> m k \<and> m k \<le> cnt b k"
    and inv_add: "inv b \<Longrightarrow> inv (add s b)"
    and cnt_add: "inv b \<Longrightarrow> cnt (add s b) k = satAdd (cnt b k) (amount s k)"
    and inv_collect: "inv b \<Longrightarrow> inv (collect s b)"
    and cnt_collect: "inv b \<Longrightarrow> cnt (collect s b) k = satAdd (cnt b k) (amount s k)"
    and inv_ack: "inv b \<Longrightarrow> inv (snd (ack a b))"
    and ack_refused: "inv b \<Longrightarrow> \<not> fst (ack a b) \<Longrightarrow> cnt (snd (ack a b)) = cnt b"
    and ack_accepted: "inv b \<Longrightarrow> fst (ack a b) \<Longrightarrow>
      \<exists>m. snap b = Some m \<and> (\<forall>k. cnt (snd (ack a b)) k = cnt b k - m k)"
    and inv_other: "inv b \<Longrightarrow> inv (other x b)"
    and cnt_other: "inv b \<Longrightarrow> cnt (other x b) = cnt b"
begin

abbreviation step :: "('s, 'a, 'o) ledgerEvent \<Rightarrow> 'b \<times> ('k \<Rightarrow> int) \<times> ('k \<Rightarrow> int) \<Rightarrow> 'b \<times> ('k \<Rightarrow> int) \<times> ('k \<Rightarrow> int)" where
  "step \<equiv> ledgerStep amount snap add collect ack other"

definition balanced :: "'b \<times> ('k \<Rightarrow> int) \<times> ('k \<Rightarrow> int) \<Rightarrow> bool" where
  "balanced st \<longleftrightarrow> (case st of (b, col, del) \<Rightarrow> inv b \<and>
     (\<forall>k. del k + cnt b k \<le> col k \<and> (col k \<le> max_int64 \<longrightarrow> del k + cnt b k = col k) \<and> 0 \<le> del k))"

lemma balanced_grow:
  assumes "balanced (b, col, del)" and "inv b'" and "\<And>k. cnt b' k = satAdd (cnt b k) (amount s k)"
  shows "balanced (b', \<lambda>k. col k + amount s k, del)"
  unfolding balanced_def prod.case
proof (intro conjI allI)
  fix k
  have k: "del k + cnt b k \<le> col k" "col k \<le> max_int64 \<longrightarrow> del k + cnt b k = col k" "0 \<le> del k"
    using assms(1) by (auto simp: balanced_def)
  have n: "0 \<le> amount s k" by (rule amount_nonneg)
  show "del k + cnt b' k \<le> col k + amount s k"
    using k n by (simp add: assms(3) satAdd_def min_def)
  show "col k + amount s k \<le> max_int64 \<longrightarrow> del k + cnt b' k = col k + amount s k"
    using k n by (auto simp: assms(3) satAdd_def min_def)
  show "0 \<le> del k" by (rule k)
qed (rule assms(2))

lemma balanced_step:
  assumes "balanced st"
  shows "balanced (step e st)"
proof -
  obtain b col del where st: "st = (b, col, del)" by (cases st)
  have i: "inv b" using assms st by (simp add: balanced_def)
  show ?thesis
  proof (cases e)
    case (AddSamples s)
    then show ?thesis using balanced_grow assms i st by (simp add: inv_add cnt_add)
  next
    case (CollectBatch s)
    then show ?thesis using balanced_grow assms i st by (simp add: inv_collect cnt_collect)
  next
    case (AckBatch a)
    show ?thesis
    proof (cases "fst (ack a b)")
      case True
      then obtain m where m: "snap b = Some m" "\<forall>k. cnt (snd (ack a b)) k = cnt b k - m k"
        using ack_accepted i by blast
      have "0 \<le> m k" for k using snap_bounds [OF i m(1)] by simp
      with True m assms i st AckBatch show ?thesis by (simp add: balanced_def inv_ack)
    next
      case False
      then show ?thesis using AckBatch assms i st by (simp add: balanced_def inv_ack ack_refused)
    qed
  next
    case (OtherOp x)
    then show ?thesis using assms i st by (simp add: balanced_def inv_other cnt_other)
  qed
qed

lemma balanced_run: "balanced st \<Longrightarrow> balanced (ledgerRun amount snap add collect ack other evs st)"
  unfolding ledgerRun_def by (induction evs arbitrary: st) (simp_all add: balanced_step)

lemma conservation:
  assumes "inv b" and "\<And>k. cnt b k = 0"
  shows "case ledgerRun amount snap add collect ack other evs (b, \<lambda>_. 0, \<lambda>_. 0) of (b', col, del) \<Rightarrow>
    del k + cnt b' k = col k \<or> (max_int64 < col k \<and> del k + cnt b' k < col k)"
proof -
  have "balanced (b, \<lambda>_. 0, \<lambda>_. 0)" using assms by (simp add: balanced_def)
  then have bal: "balanced (ledgerRun amount snap add collect ack other evs (b, \<lambda>_. 0, \<lambda>_. 0))"
    by (rule balanced_run)
  obtain b' col del where run:
    "ledgerRun amount snap add collect ack other evs (b, \<lambda>_. 0, \<lambda>_. 0) = (b', col, del)"
    by (rule prod_cases3)
  have "del k + cnt b' k \<le> col k" "col k \<le> max_int64 \<longrightarrow> del k + cnt b' k = col k"
    using bal unfolding run by (simp_all add: balanced_def)
  then show ?thesis unfolding run prod.case by linarith
qed

end

end
