(* ===== verification/Usage_Buffer.thy ===== *)
theory Usage_Buffer
  imports Usage_Spool Batch_Ledger
begin

text \<open>
  The usage buffer: \<open>internal/node/usage_buffer.go\<close>, with \<open>user_usage.go\<close> and
  \<open>usage_online.go\<close>. The state is the struct \<open>usageBuffer\<close> and the bytes of its spool file; every
  method that takes the mutex is one definition on that pair, so that a run of the server is a
  sequence of them in any order. What the file system answers is the argument \<open>fsEnv\<close>.
  Results: the two instances of the ledger (no traffic is lost or counted twice, whatever the
  interleaving of collections, acknowledgements and samples), durability (a buffer that was
  persisted is what a restart loads), atomic replacement of the spool, and the round trip of the
  composite user key.
\<close>

section \<open>Data\<close>

record userStat =
  UID :: string
  Value :: int
  UserUp :: int
  UserDown :: int
  InboundTag :: string

record usageBuffer =
  spoolPath :: string
  nextBatch :: nat
  pending :: statMap
  inbounds :: statMap
  users :: "(string, int) gomap"
  activeOutboundBatch :: string
  activeOutboundSnapshot :: "statMap option"
  activeInboundSnapshot :: "statMap option"
  activeUserBatch :: string
  activeUserSnapshot :: "(string, int) gomap option"

type_synonym spoolFile = "string option"

text \<open>
  What the operating system answers to one attempt to persist; \<open>None\<close> is success. A write that fails has written the given number of
  bytes before.
\<close>

record fsEnv =
  fsWindows :: bool
  fsMkdir :: "string option"
  fsOpen :: "string option"
  fsWrite :: "(nat \<times> string) option"
  fsSync :: "string option"
  fsClose :: "string option"
  fsRemove :: "string option"
  fsRename :: "string option"

text \<open>A file of the disk, with whether its content is on stable storage; the temporary file and the spool file.\<close>

type_synonym diskFile = "(string \<times> bool) option"

record disk =
  dkTemp :: diskFile
  dkSpool :: diskFile

definition newUsageBuffer :: usageBuffer where
  "newUsageBuffer = \<lparr>spoolPath = [], nextBatch = 0, pending = [], inbounds = [], users = [],
     activeOutboundBatch = [], activeOutboundSnapshot = None, activeInboundSnapshot = None,
     activeUserBatch = [], activeUserSnapshot = None\<rparr>"

section \<open>Persistence\<close>

definition spoolState :: "usageBuffer \<Rightarrow> usageBufferSpool" where
  "spoolState b = \<lparr>NextBatch = nextBatch b, Pending = pending b, Inbounds = inbounds b,
     Users = users b, ActiveOutboundBatch = activeOutboundBatch b,
     ActiveOutboundSnapshot = activeOutboundSnapshot b,
     ActiveInboundSnapshot = activeInboundSnapshot b,
     ActiveUserBatch = activeUserBatch b, ActiveUserSnapshot = activeUserSnapshot b\<rparr>"

text \<open>The states the file passes through: it is created or truncated, then written, then synchronised.\<close>

definition writeFileSync :: "fsEnv \<Rightarrow> string \<Rightarrow> string option \<times> diskFile list" where
  "writeFileSync env content = (case fsOpen env of
       Some e \<Rightarrow> (Some e, [])
     | None \<Rightarrow> (case fsWrite env of
         Some (n, e) \<Rightarrow> (Some e, [Some ([], False), Some (take n content, False)])
       | None \<Rightarrow> (case fsSync env of
           Some e \<Rightarrow> (Some e, [Some ([], False), Some (content, False)])
         | None \<Rightarrow> (fsClose env, [Some ([], False), Some (content, False), Some (content, True)]))))"

text \<open>
  The rename makes the temporary file, with what it holds, the spool file, and leaves both as they are when it fails. On Windows the target is removed before.
\<close>

definition replaceFile :: "fsEnv \<Rightarrow> disk \<Rightarrow> string option \<times> disk list" where
  "replaceFile env d =
     (let removed = (if fsWindows env \<and> fsRemove env = None then [d\<lparr>dkSpool := None\<rparr>] else []); d1 = last (d # removed)
      in case fsRename env of Some e \<Rightarrow> (Some e, removed) | None \<Rightarrow> (None, removed @ [d1\<lparr>dkTemp := None, dkSpool := dkTemp d1\<rparr>]))"

text \<open>\<open>persistLocked\<close>, with all the states of the disk it passes through: a crash leaves one of them.\<close>

definition persistSteps :: "fsEnv \<Rightarrow> usageBuffer \<Rightarrow> disk \<Rightarrow> string option \<times> disk list" where
  "persistSteps env b d =
     (if spoolPath b = [] then (None, [])
      else let spoolBuf = encodeUsageSpool (spoolState b) in
        case fsMkdir env of Some e \<Rightarrow> (Some e, [])
        | None \<Rightarrow> (case writeFileSync env spoolBuf of (err, temps) \<Rightarrow>
            let written = map (\<lambda>t. d\<lparr>dkTemp := t\<rparr>) temps in
            case err of Some e \<Rightarrow> (Some e, written)
            | None \<Rightarrow> (case replaceFile env (last (d # written)) of (err', renamed) \<Rightarrow> (err', written @ renamed))))"

text \<open>What it leaves of the spool file; what an earlier attempt left in the temporary file is of no effect (\<open>persist_leftover\<close>).\<close>

definition persistLocked :: "fsEnv \<Rightarrow> usageBuffer \<Rightarrow> spoolFile \<Rightarrow> string option \<times> spoolFile" where
  "persistLocked env b f =
     (let d = \<lparr>dkTemp = None, dkSpool = map_option (\<lambda>c. (c, True)) f\<rparr> in
      case persistSteps env b d of (err, ds) \<Rightarrow> (err, map_option fst (dkSpool (last (d # ds)))))"

text \<open>The error is only logged.\<close>

definition persistBestEffortLocked :: "fsEnv \<Rightarrow> usageBuffer \<Rightarrow> spoolFile \<Rightarrow> spoolFile" where
  "persistBestEffortLocked env b f = snd (persistLocked env b f)"

text \<open>
  \<open>newPersistentUsageBuffer\<close>: \<open>readErr\<close> is an error of \<open>os.ReadFile\<close> other than a missing file.
\<close>

definition newPersistentUsageBuffer :: "(string \<Rightarrow> spoolError + usageBufferSpool) \<Rightarrow> string \<Rightarrow> string option
    \<Rightarrow> spoolFile \<Rightarrow> spoolError + usageBuffer" where
  "newPersistentUsageBuffer unjson path readErr f =
     (let buffer = newUsageBuffer\<lparr>spoolPath := path\<rparr> in
      if path = [] then Inr buffer
      else case f of None \<Rightarrow> Inr buffer
      | Some content \<Rightarrow>
         (case readErr of Some e \<Rightarrow> Inl (errOther e)
          | None \<Rightarrow>
             if content = [] then Inr buffer
             else case decodeUsageSpool unjson content of Inl e \<Rightarrow> Inl e
             | Inr state \<Rightarrow> Inr \<lparr>spoolPath = path, nextBatch = NextBatch state,
                 pending = Pending state, inbounds = Inbounds state, users = Users state,
                 activeOutboundBatch = ActiveOutboundBatch state,
                 activeOutboundSnapshot = ActiveOutboundSnapshot state,
                 activeInboundSnapshot = ActiveInboundSnapshot state,
                 activeUserBatch = ActiveUserBatch state,
                 activeUserSnapshot = ActiveUserSnapshot state\<rparr>))"

section \<open>Counters\<close>

text \<open>
  \<open>addUsageCounter\<close>; on \<open>int64\<close> arguments neither \<open>max_int64 - delta\<close> nor \<open>current + delta\<close> can
  overflow where it is evaluated (\<open>addUsageCounter_no_overflow\<close>), so no wrap-around is written.
\<close>

definition addUsageCounter :: "int \<Rightarrow> int \<Rightarrow> int" where
  "addUsageCounter current delta =
     (if delta \<le> 0 then current
      else let current = (if current < 0 then 0 else current) in
           if current > max_int64 - delta then max_int64 else current + delta)"

abbreviation zeroStat :: stat where
  "zeroStat \<equiv> \<lparr>Tag = [], Up = 0, Down = 0\<rparr>"

text \<open>The body of \<open>addOutboundLocked\<close> and of \<open>addInboundLocked\<close>, on the map each works on.\<close>

fun addStats :: "statMap \<Rightarrow> stat list \<Rightarrow> statMap" where
  "addStats m [] = m"
| "addStats m (sample # samples) =
     (if Tag sample = [] \<or> (Up sample \<le> 0 \<and> Down sample \<le> 0) then addStats m samples
      else let current = mget zeroStat m (Tag sample) in
           addStats (AList.update (Tag sample)
             \<lparr>Tag = Tag sample, Up = addUsageCounter (Up current) (Up sample),
              Down = addUsageCounter (Down current) (Down sample)\<rparr> m) samples)"

definition addOutboundLocked :: "stat list \<Rightarrow> usageBuffer \<Rightarrow> usageBuffer" where
  "addOutboundLocked samples b = b\<lparr>pending := addStats (pending b) samples\<rparr>"

definition addInboundLocked :: "stat list \<Rightarrow> usageBuffer \<Rightarrow> usageBuffer" where
  "addInboundLocked samples b = b\<lparr>inbounds := addStats (inbounds b) samples\<rparr>"

definition userUsageBufferKey :: "string \<Rightarrow> string \<Rightarrow> string" where
  "userUsageBufferKey uid inboundTag =
     (if inboundTag = [] then uid else uid @ CHR 0x00 # b64Encode inboundTag)"

definition parseUserUsageBufferKey :: "string \<Rightarrow> string \<times> string" where
  "parseUserUsageBufferKey key = (case cut key [CHR 0x00] of (uid, encodedTag, found) \<Rightarrow>
     if \<not> found then (key, [])
     else case b64Decode encodedTag of None \<Rightarrow> (uid, []) | Some decoded \<Rightarrow> (uid, decoded))"

fun addUserCounters :: "(string, int) gomap \<Rightarrow> userStat list \<Rightarrow> (string, int) gomap" where
  "addUserCounters m [] = m"
| "addUserCounters m (sample # samples) =
     (if UID sample = [] \<or> Value sample = 0 then addUserCounters m samples
      else let key = userUsageBufferKey (UID sample) (InboundTag sample) in
           addUserCounters (AList.update key (addUsageCounter (mget 0 m key) (Value sample)) m) samples)"

definition addUsersLocked :: "userStat list \<Rightarrow> usageBuffer \<Rightarrow> usageBuffer" where
  "addUsersLocked samples b = b\<lparr>users := addUserCounters (users b) samples\<rparr>"

section \<open>The methods\<close>

definition add :: "fsEnv \<Rightarrow> stat list \<Rightarrow> usageBuffer \<times> spoolFile \<Rightarrow> usageBuffer \<times> spoolFile" where
  "add env samples st = (case st of (b, f) \<Rightarrow>
     let b' = addOutboundLocked samples b in (b', persistBestEffortLocked env b' f))"

definition addInbound :: "fsEnv \<Rightarrow> stat list \<Rightarrow> usageBuffer \<times> spoolFile \<Rightarrow> usageBuffer \<times> spoolFile" where
  "addInbound env samples st = (case st of (b, f) \<Rightarrow>
     let b' = addInboundLocked samples b in (b', persistBestEffortLocked env b' f))"

definition addUsers :: "fsEnv \<Rightarrow> userStat list \<Rightarrow> usageBuffer \<times> spoolFile \<Rightarrow> usageBuffer \<times> spoolFile" where
  "addUsers env samples st = (case st of (b, f) \<Rightarrow>
     let b' = addUsersLocked samples b in (b', persistBestEffortLocked env b' f))"

definition statSnapshotResult :: "statMap \<Rightarrow> stat list" where
  "statSnapshotResult snapshot =
     map snd (filter (\<lambda>(_, item). Up item \<noteq> 0 \<or> Down item \<noteq> 0) snapshot)"

definition outboundSnapshotResult :: "statMap option \<Rightarrow> stat list" where
  "outboundSnapshotResult snapshot = (case snapshot of None \<Rightarrow> [] | Some m \<Rightarrow> statSnapshotResult m)"

definition inboundSnapshotResult :: "statMap option \<Rightarrow> stat list" where
  "inboundSnapshotResult snapshot = (case snapshot of None \<Rightarrow> [] | Some m \<Rightarrow> statSnapshotResult m)"

definition userSnapshotResult :: "(string, int) gomap option \<Rightarrow> userStat list" where
  "userSnapshotResult snapshot = (case snapshot of None \<Rightarrow> [] | Some m \<Rightarrow>
     map (\<lambda>(key, v). case parseUserUsageBufferKey key of (uid, tg) \<Rightarrow>
            \<lparr>UID = uid, Value = v, UserUp = 0, UserDown = 0, InboundTag = tg\<rparr>)
         (filter (\<lambda>(_, v). v \<noteq> 0) m))"

definition nonzeroStats :: "statMap \<Rightarrow> statMap" where
  "nonzeroStats m = filter (\<lambda>(_, item). \<not> (Up item = 0 \<and> Down item = 0)) m"

definition addUsageAndSnapshot :: "fsEnv \<Rightarrow> stat list \<Rightarrow> stat list \<Rightarrow> usageBuffer \<times> spoolFile
    \<Rightarrow> (string \<times> stat list \<times> stat list) \<times> usageBuffer \<times> spoolFile" where
  "addUsageAndSnapshot env outs ins st = (case st of (b0, f) \<Rightarrow>
     let b = addInboundLocked ins (addOutboundLocked outs b0) in
     if activeOutboundBatch b \<noteq> [] then
       ((activeOutboundBatch b, outboundSnapshotResult (activeOutboundSnapshot b),
         inboundSnapshotResult (activeInboundSnapshot b)), b, persistBestEffortLocked env b f)
     else let snapshot = nonzeroStats (pending b); inboundSnapshot = nonzeroStats (inbounds b) in
       if snapshot = [] \<and> inboundSnapshot = [] then (([], [], []), b, f)
       else let next = (nextBatch b + 1) mod 2 ^ 64; batchID = formatUint next;
                b' = b\<lparr>nextBatch := next, activeOutboundBatch := batchID,
                       activeOutboundSnapshot := Some snapshot,
                       activeInboundSnapshot := Some inboundSnapshot\<rparr>
            in ((batchID, outboundSnapshotResult (Some snapshot),
                 inboundSnapshotResult (Some inboundSnapshot)), b', persistBestEffortLocked env b' f))"

definition addUsersAndSnapshot :: "fsEnv \<Rightarrow> userStat list \<Rightarrow> usageBuffer \<times> spoolFile
    \<Rightarrow> (string \<times> userStat list) \<times> usageBuffer \<times> spoolFile" where
  "addUsersAndSnapshot env samples st = (case st of (b0, f) \<Rightarrow>
     let b = addUsersLocked samples b0 in
     if activeUserBatch b \<noteq> [] then
       ((activeUserBatch b, userSnapshotResult (activeUserSnapshot b)), b,
        persistBestEffortLocked env b f)
     else let snapshot = filter (\<lambda>(_, v). v \<noteq> 0) (users b) in
       if snapshot = [] then (([], []), b, f)
       else let next = (nextBatch b + 1) mod 2 ^ 64; batchID = formatUint next;
                b' = b\<lparr>nextBatch := next, activeUserBatch := batchID,
                       activeUserSnapshot := Some snapshot\<rparr>
            in ((batchID, userSnapshotResult (Some snapshot)), b', persistBestEffortLocked env b' f))"

fun subUsers :: "(string, int) gomap \<Rightarrow> (string, int) gomap \<Rightarrow> (string, int) gomap" where
  "subUsers us [] = us"
| "subUsers us ((uid, v) # snapshot) =
     (case map_of us uid of
        None \<Rightarrow> subUsers us snapshot
      | Some current \<Rightarrow>
          let current = int64 (current - v) in
          if current \<le> 0 then subUsers (AList.delete uid us) snapshot
          else subUsers (AList.update uid current us) snapshot)"

definition ackUsers :: "fsEnv \<Rightarrow> string \<Rightarrow> usageBuffer \<times> spoolFile \<Rightarrow> bool \<times> usageBuffer \<times> spoolFile" where
  "ackUsers env batchID st = (case st of (b, f) \<Rightarrow>
     case activeUserSnapshot b of
       None \<Rightarrow> (False, b, f)
     | Some snapshot \<Rightarrow>
         if batchID = [] \<or> batchID \<noteq> activeUserBatch b then (False, b, f)
         else let b' = b\<lparr>users := subUsers (users b) snapshot, activeUserBatch := [],
                         activeUserSnapshot := None\<rparr>
              in (True, b', persistBestEffortLocked env b' f))"

text \<open>One of the two loops of \<open>ack\<close>; a nil snapshot has no entries.\<close>

fun subStats :: "statMap \<Rightarrow> statMap \<Rightarrow> statMap" where
  "subStats m [] = m"
| "subStats m ((tg, item) # snapshot) =
     (case map_of m tg of
        None \<Rightarrow> subStats m snapshot
      | Some current \<Rightarrow>
          let up = int64 (Up current - Up item); down = int64 (Down current - Down item) in
          if up \<le> 0 \<and> down \<le> 0 then subStats (AList.delete tg m) snapshot
          else subStats (AList.update tg \<lparr>Tag = tg, Up = up, Down = down\<rparr> m) snapshot)"

definition ack :: "fsEnv \<Rightarrow> string \<Rightarrow> usageBuffer \<times> spoolFile \<Rightarrow> bool \<times> usageBuffer \<times> spoolFile" where
  "ack env batchID st = (case st of (b, f) \<Rightarrow>
     if batchID = [] \<or> batchID \<noteq> activeOutboundBatch b
        \<or> (activeOutboundSnapshot b = None \<and> activeInboundSnapshot b = None)
     then (False, b, f)
     else let b' = b\<lparr>pending := subStats (pending b) (case activeOutboundSnapshot b of None \<Rightarrow> [] | Some m \<Rightarrow> m),
                     inbounds := subStats (inbounds b) (case activeInboundSnapshot b of None \<Rightarrow> [] | Some m \<Rightarrow> m),
                     activeOutboundBatch := [], activeOutboundSnapshot := None,
                     activeInboundSnapshot := None\<rparr>
          in (True, b', persistBestEffortLocked env b' f))"

section \<open>Per-collection totals and online markers\<close>

text \<open>\<open>user_usage.go\<close>: the key is the pair of user and inbound tag.\<close>

definition addUserUsage :: "(string \<times> string, int) gomap \<Rightarrow> string \<Rightarrow> string \<Rightarrow> int \<Rightarrow> (string \<times> string, int) gomap" where
  "addUserUsage totals uid tg v =
     (if uid = [] \<or> v \<le> 0 then totals
      else AList.update (uid, tg) (addUsageCounter (mget 0 totals (uid, tg)) v) totals)"

definition userUsageStats :: "(string \<times> string, int) gomap \<Rightarrow> userStat list" where
  "userUsageStats totals =
     map (\<lambda>((uid, tg), v). \<lparr>UID = uid, Value = v, UserUp = 0, UserDown = 0, InboundTag = tg\<rparr>)
         (filter (\<lambda>(_, v). v > 0) totals)"

definition onlineUserSamplePrefix :: string where
  "onlineUserSamplePrefix = ''online:''"

definition usersWithTraffic :: "userStat list \<Rightarrow> string list" where
  "usersWithTraffic stats =
     map (\<lambda>st. trimSpace (UID st)) (filter (\<lambda>st. trimSpace (UID st) \<noteq> [] \<and> Value st > 0) stats)"

fun onlineMarkers :: "string list \<Rightarrow> string list \<Rightarrow> userStat list" where
  "onlineMarkers withTraffic [] = []"
| "onlineMarkers withTraffic (u # us) =
     (let uid = trimSpace u in
      if uid = [] \<or> uid \<in> set withTraffic then onlineMarkers withTraffic us
      else \<lparr>UID = onlineUserSamplePrefix @ uid, Value = 1, UserUp = 0, UserDown = 0, InboundTag = []\<rparr>
           # onlineMarkers withTraffic us)"

definition appendOnlineUserMarkers :: "userStat list \<Rightarrow> string list \<Rightarrow> userStat list" where
  "appendOnlineUserMarkers stats onlineUIDs =
     (if onlineUIDs = [] then stats else stats @ onlineMarkers (usersWithTraffic stats) onlineUIDs)"

section \<open>Saturating counters\<close>

lemma addUsageCounter_no_overflow:
  assumes "is_int64 c" and "is_int64 d"
  shows "0 < d \<Longrightarrow> is_int64 (max_int64 - d)" and "is_int64 (addUsageCounter c d)"
  using assms by (auto simp: is_int64_def addUsageCounter_def Let_def)

lemma addUsageCounter_satAdd [simp]:
  "0 \<le> c \<Longrightarrow> c \<le> max_int64 \<Longrightarrow> addUsageCounter c d = satAdd c (max 0 d)"
  by (auto simp: addUsageCounter_def satAdd_def min_def)

lemma satAdd_0 [simp]: "c \<le> max_int64 \<Longrightarrow> satAdd c 0 = c"
  by (simp add: satAdd_def)

lemma satAdd_range [simp]: "0 \<le> c \<Longrightarrow> 0 \<le> d \<Longrightarrow> 0 \<le> satAdd c d" "satAdd c d \<le> max_int64"
  by (auto simp: satAdd_def)

lemma satAdd_mono: "0 \<le> d \<Longrightarrow> c \<le> max_int64 \<Longrightarrow> c \<le> satAdd c d"
  by (simp add: satAdd_def)

text \<open>A counter map all of whose values are in range.\<close>

definition inRange :: "(string, int) gomap \<Rightarrow> bool" where
  "inRange m \<longleftrightarrow> (\<forall>k. 0 \<le> mget 0 m k \<and> mget 0 m k \<le> max_int64)"

lemma inRangeD: "inRange m \<Longrightarrow> 0 \<le> mget 0 m k \<and> mget 0 m k \<le> max_int64"
  by (simp add: inRange_def)

lemma inRange_update: "inRange m \<Longrightarrow> 0 \<le> v \<Longrightarrow> v \<le> max_int64 \<Longrightarrow> inRange (AList.update k v m)"
  by (simp add: inRange_def)

primrec userAmount :: "userStat list \<Rightarrow> string \<Rightarrow> int" where
  "userAmount [] k = 0"
| "userAmount (s # ss) k =
     (if UID s \<noteq> [] \<and> userUsageBufferKey (UID s) (InboundTag s) = k then max 0 (Value s) else 0) + userAmount ss k"

lemma userAmount_nonneg [simp]: "0 \<le> userAmount ss k"
  by (induction ss) auto

lemma addUserCounters_correct:
  "inRange m \<Longrightarrow> mget 0 (addUserCounters m ss) k = satAdd (mget 0 m k) (userAmount ss k)
     \<and> inRange (addUserCounters m ss)"
proof (induction m ss rule: addUserCounters.induct)
  case (1 m)
  then show ?case by (simp add: inRange_def)
next
  case (2 m s ss)
  let ?key = "userUsageBufferKey (UID s) (InboundTag s)"
  show ?case
  proof (cases "UID s = [] \<or> Value s = 0")
    case True
    with 2 show ?thesis by auto
  next
    case False
    let ?m = "AList.update ?key (addUsageCounter (mget 0 m ?key) (Value s)) m"
    have r: "0 \<le> mget 0 m ?key \<and> mget 0 m ?key \<le> max_int64" using 2(3) by (rule inRangeD)
    then have "inRange ?m" using 2(3) by (intro inRange_update) simp_all
    with 2(2) [OF False refl] have IH: "mget 0 (addUserCounters ?m ss) k = satAdd (mget 0 ?m k) (userAmount ss k)"
      "inRange (addUserCounters ?m ss)" by simp_all
    have "satAdd (mget 0 ?m k) (userAmount ss k) = satAdd (mget 0 m k) (userAmount (s # ss) k)"
      using False r by (auto simp: satAdd_satAdd)
    with IH False show ?thesis by (simp add: Let_def)
  qed
qed

lemma gomap_wf_addUserCounters [simp]: "gomap_wf m \<Longrightarrow> gomap_wf (addUserCounters m ss)"
  by (induction m ss rule: addUserCounters.induct) (auto simp: Let_def)

lemma subUsers_correct:
  assumes "gomap_wf snapshot" and "inRange us"
    and "\<And>k. 0 \<le> mget 0 snapshot k \<and> mget 0 snapshot k \<le> mget 0 us k"
  shows "mget 0 (subUsers us snapshot) k = mget 0 us k - mget 0 snapshot k"
  using assms
proof (induction us snapshot rule: subUsers.induct)
  case (1 us)
  then show ?case by simp
next
  case (2 us uid v snapshot)
  have rest0: "mget 0 snapshot uid = 0"
    using 2(4) by (simp add: mget_def map_of_eq_None_iff [THEN iffD2])
  have v: "0 \<le> v" "v \<le> mget 0 us uid" using 2(6) [of uid] by (simp_all add: mget_Cons)
  show ?case
  proof (cases "map_of us uid")
    case None
    then have "v = 0" using v by (simp add: mget_def)
    have le: "0 \<le> mget 0 snapshot k \<and> mget 0 snapshot k \<le> mget 0 us k" for k
      using 2(6) [of k] rest0 inRangeD [OF 2(5)] by (auto simp: mget_Cons split: if_splits)
    have "mget 0 (subUsers us snapshot) k = mget 0 us k - mget 0 snapshot k"
      using 2(1) [OF None _ 2(5) le] 2(4) by simp
    with None \<open>v = 0\<close> rest0 show ?thesis by (auto simp: mget_Cons)
  next
    case (Some current)
    let ?cur = "int64 (current - v)"
    have cur: "mget 0 us uid = current" using Some by (simp add: mget_def)
    have c: "?cur = current - v"
      using v inRangeD [OF 2(5), of uid] by (intro int64_id) (simp add: is_int64_def cur)
    let ?us = "if ?cur \<le> 0 then AList.delete uid us else AList.update uid ?cur us"
    have get: "mget 0 ?us k = (if k = uid then current - v else mget 0 us k)" for k
      using v cur c by auto
    have r: "inRange ?us"
      using 2(5) v inRangeD [OF 2(5), of uid] unfolding inRange_def get by (auto simp: cur)
    have le: "0 \<le> mget 0 snapshot k \<and> mget 0 snapshot k \<le> mget 0 ?us k" for k
      using 2(6) [of k] rest0 v cur unfolding get by (auto simp: mget_Cons split: if_splits)
    have step: "subUsers us ((uid, v) # snapshot) = subUsers ?us snapshot"
      by (simp add: Some Let_def)
    have "mget 0 (subUsers ?us snapshot) k = mget 0 ?us k - mget 0 snapshot k"
    proof (cases "?cur \<le> 0")
      case True
      then show ?thesis using 2(2) [OF Some refl True] 2(4) r le by simp
    next
      case False
      then show ?thesis using 2(3) [OF Some refl False] 2(4) r le by simp
    qed
    then show ?thesis unfolding step get using rest0 cur by (auto simp: mget_Cons)
  qed
qed

lemma gomap_wf_subUsers [simp]: "gomap_wf us \<Longrightarrow> gomap_wf (subUsers us snapshot)"
  by (induction us snapshot rule: subUsers.induct) (auto simp: Let_def split: option.split)

text \<open>The two directions of an outbound or inbound counter.\<close>

definition side :: "bool \<Rightarrow> stat \<Rightarrow> int" where
  "side up st = (if up then Up st else Down st)"

definition statCnt :: "statMap \<Rightarrow> string \<Rightarrow> bool \<Rightarrow> int" where
  "statCnt m tg up = side up (mget zeroStat m tg)"

lemma side_simps [simp]: "side True st = Up st" "side False st = Down st"
  by (simp_all add: side_def)

lemma statCnt_simps [simp]:
  "statCnt [] tg up = 0"
  "statCnt (AList.update k v m) tg up = (if tg = k then side up v else statCnt m tg up)"
  "statCnt (AList.delete k m) tg up = (if tg = k then 0 else statCnt m tg up)"
  by (simp_all add: statCnt_def side_def)

lemma statCnt_Cons: "statCnt ((k, v) # m) tg up = (if tg = k then side up v else statCnt m tg up)"
  by (simp add: statCnt_def mget_Cons)

definition statsInRange :: "statMap \<Rightarrow> bool" where
  "statsInRange m \<longleftrightarrow> (\<forall>tg up. 0 \<le> statCnt m tg up \<and> statCnt m tg up \<le> max_int64)"

lemma statsInRangeD: "statsInRange m \<Longrightarrow> 0 \<le> statCnt m tg up \<and> statCnt m tg up \<le> max_int64"
  by (simp add: statsInRange_def)

primrec statAmount :: "stat list \<Rightarrow> string \<Rightarrow> bool \<Rightarrow> int" where
  "statAmount [] tg up = 0"
| "statAmount (s # ss) tg up =
     (if Tag s \<noteq> [] \<and> Tag s = tg then max 0 (side up s) else 0) + statAmount ss tg up"

lemma statAmount_nonneg [simp]: "0 \<le> statAmount ss tg up"
  by (induction ss) auto

lemma addStats_correct:
  "statsInRange m \<Longrightarrow> statCnt (addStats m ss) tg up = satAdd (statCnt m tg up) (statAmount ss tg up)
     \<and> statsInRange (addStats m ss)"
proof (induction m ss rule: addStats.induct)
  case (1 m)
  then show ?case by (simp add: statsInRange_def)
next
  case (2 m s ss)
  show ?case
  proof (cases "Tag s = [] \<or> (Up s \<le> 0 \<and> Down s \<le> 0)")
    case True
    with 2 show ?thesis by (cases up) auto
  next
    case False
    let ?c = "mget zeroStat m (Tag s)"
    let ?m = "AList.update (Tag s) \<lparr>Tag = Tag s, Up = addUsageCounter (Up ?c) (Up s),
              Down = addUsageCounter (Down ?c) (Down s)\<rparr> m"
    have r: "0 \<le> Up ?c \<and> Up ?c \<le> max_int64" "0 \<le> Down ?c \<and> Down ?c \<le> max_int64"
      using statsInRangeD [OF 2(3), of "Tag s" True] statsInRangeD [OF 2(3), of "Tag s" False]
      by (simp_all add: statCnt_def)
    then have sd: "statCnt ?m tg up = (if tg = Tag s then satAdd (statCnt m tg up) (max 0 (side up s))
        else statCnt m tg up)" for tg up
      by (cases up) (simp_all add: statCnt_def)
    have "statsInRange ?m"
      using 2(3) unfolding statsInRange_def sd by simp
    with 2(2) [OF False refl] have IH:
      "statCnt (addStats ?m ss) tg up = satAdd (statCnt ?m tg up) (statAmount ss tg up)"
      "statsInRange (addStats ?m ss)" by simp_all
    have "satAdd (statCnt ?m tg up) (statAmount ss tg up) = satAdd (statCnt m tg up) (statAmount (s # ss) tg up)"
      using False unfolding sd by (auto simp: satAdd_satAdd)
    moreover have "addStats m (s # ss) = addStats ?m ss" using False by (auto simp: Let_def)
    ultimately show ?thesis using IH by metis
  qed
qed

lemma gomap_wf_addStats [simp]: "gomap_wf m \<Longrightarrow> gomap_wf (addStats m ss)"
  by (induction m ss rule: addStats.induct) (auto simp: Let_def)

lemma subStats_correct:
  assumes "gomap_wf snapshot" and "statsInRange m"
    and "\<And>tg up. 0 \<le> statCnt snapshot tg up \<and> statCnt snapshot tg up \<le> statCnt m tg up"
  shows "statCnt (subStats m snapshot) tg up = statCnt m tg up - statCnt snapshot tg up"
  using assms
proof (induction m snapshot rule: subStats.induct)
  case (1 m)
  then show ?case by simp
next
  case (2 m t v snapshot)
  have rest0: "statCnt snapshot t up = 0" for up
    using 2(4) by (simp add: statCnt_def mget_def side_def map_of_eq_None_iff [THEN iffD2])
  have v: "0 \<le> side up v \<and> side up v \<le> statCnt m t up" for up
    using 2(6) [of t up] by (simp add: statCnt_Cons)
  show ?case
  proof (cases "map_of m t")
    case None
    then have v0: "side up v = 0" for up using v [of up] by (auto simp: statCnt_def mget_def side_def)
    have le: "0 \<le> statCnt snapshot tg up \<and> statCnt snapshot tg up \<le> statCnt m tg up" for tg up
      using 2(6) [of tg up] rest0 statsInRangeD [OF 2(5)] by (auto simp: statCnt_Cons split: if_splits)
    have "statCnt (subStats m snapshot) tg up = statCnt m tg up - statCnt snapshot tg up"
      using 2(1) [OF None _ 2(5) le] 2(4) by simp
    with None v0 rest0 show ?thesis by (auto simp: statCnt_Cons)
  next
    case (Some c)
    let ?up = "int64 (Up c - Up v)" and ?dn = "int64 (Down c - Down v)"
    have cur: "statCnt m t up = side up c" for up using Some by (simp add: statCnt_def mget_def)
    have c: "?up = Up c - Up v" "?dn = Down c - Down v"
      using v [of True] v [of False] statsInRangeD [OF 2(5), of t True] statsInRangeD [OF 2(5), of t False]
      by (auto simp: is_int64_def cur intro!: int64_id)
    let ?m = "if ?up \<le> 0 \<and> ?dn \<le> 0 then AList.delete t m
              else AList.update t \<lparr>Tag = t, Up = ?up, Down = ?dn\<rparr> m"
    have get: "statCnt ?m tg up = (if tg = t then side up c - side up v else statCnt m tg up)" for tg up
      using v [of True] v [of False] unfolding c by (cases up) (auto simp: cur)
    have r: "statsInRange ?m"
      unfolding statsInRange_def get
    proof (intro allI)
      fix tg up
      show "0 \<le> (if tg = t then side up c - side up v else statCnt m tg up) \<and>
        (if tg = t then side up c - side up v else statCnt m tg up) \<le> max_int64"
        using statsInRangeD [OF 2(5), of tg up] v [of up] cur [of up] by auto
    qed
    have le: "0 \<le> statCnt snapshot tg up \<and> statCnt snapshot tg up \<le> statCnt ?m tg up" for tg up
      using 2(6) [of tg up] rest0 [of up] v [of up] cur [of up] unfolding get
      by (auto simp: statCnt_Cons split: if_splits)
    have step: "subStats m ((t, v) # snapshot) = subStats ?m snapshot"
      by (simp add: Some Let_def)
    have "statCnt (subStats ?m snapshot) tg up = statCnt ?m tg up - statCnt snapshot tg up"
    proof (cases "?up \<le> 0 \<and> ?dn \<le> 0")
      case True
      note e = if_P [OF True, of "AList.delete t m" "AList.update t \<lparr>Tag = t, Up = ?up, Down = ?dn\<rparr> m"]
      show ?thesis using 2(2) [OF Some refl refl True] 2(4) r le unfolding e by simp
    next
      case False
      note e = if_not_P [OF False, of "AList.delete t m" "AList.update t \<lparr>Tag = t, Up = ?up, Down = ?dn\<rparr> m"]
      show ?thesis using 2(3) [OF Some refl refl False] 2(4) r le unfolding e by simp
    qed
    then show ?thesis unfolding step get using rest0 [of up] cur by (auto simp: statCnt_Cons)
  qed
qed

lemma gomap_wf_subStats [simp]: "gomap_wf m \<Longrightarrow> gomap_wf (subStats m snapshot)"
  by (induction m snapshot rule: subStats.induct) (auto simp: Let_def split: option.split)

section \<open>The two ledgers\<close>

text \<open>The calls that concern the other kind of counters, which may come in between.\<close>

datatype outboundCall = Add fsEnv "stat list" | AddInbound fsEnv "stat list"
  | Collect fsEnv "stat list" "stat list" | Ack fsEnv string

fun outboundOp :: "outboundCall \<Rightarrow> usageBuffer \<times> spoolFile \<Rightarrow> usageBuffer \<times> spoolFile" where
  "outboundOp (Add env samples) st = add env samples st"
| "outboundOp (AddInbound env samples) st = addInbound env samples st"
| "outboundOp (Collect env outs ins) st = snd (addUsageAndSnapshot env outs ins st)"
| "outboundOp (Ack env batchID) st = snd (ack env batchID st)"

datatype userCall = AddUsers fsEnv "userStat list" | CollectUsers fsEnv "userStat list" | AckUsers fsEnv string

fun userOp :: "userCall \<Rightarrow> usageBuffer \<times> spoolFile \<Rightarrow> usageBuffer \<times> spoolFile" where
  "userOp (AddUsers env samples) st = addUsers env samples st"
| "userOp (CollectUsers env samples) st = snd (addUsersAndSnapshot env samples st)"
| "userOp (AckUsers env batchID) st = snd (ackUsers env batchID st)"

text \<open>User counters, by composite key.\<close>

definition userCnt :: "usageBuffer \<times> spoolFile \<Rightarrow> string \<Rightarrow> int" where
  "userCnt st k = mget 0 (users (fst st)) k"

definition userSnap :: "usageBuffer \<times> spoolFile \<Rightarrow> (string \<Rightarrow> int) option" where
  "userSnap st = map_option (mget 0) (activeUserSnapshot (fst st))"

definition usersInv :: "usageBuffer \<times> spoolFile \<Rightarrow> bool" where
  "usersInv st \<longleftrightarrow> gomap_wf (users (fst st)) \<and> inRange (users (fst st)) \<and>
     pred_option (\<lambda>m. gomap_wf m \<and> (\<forall>k. 0 \<le> mget 0 m k \<and> mget 0 m k \<le> mget 0 (users (fst st)) k))
       (activeUserSnapshot (fst st))"

text \<open>
  Outbound and inbound counters: the first component of a key tells an outbound from an inbound.
  A sample is one pair of calls of \<open>add\<close> and \<open>addInbound\<close>.
\<close>

type_synonym linkKey = "bool \<times> string \<times> bool"

definition linkCnt :: "usageBuffer \<times> spoolFile \<Rightarrow> linkKey \<Rightarrow> int" where
  "linkCnt st k = (case k of (out, tg, up) \<Rightarrow>
     statCnt (if out then pending (fst st) else inbounds (fst st)) tg up)"

definition linkSnap :: "usageBuffer \<times> spoolFile \<Rightarrow> (linkKey \<Rightarrow> int) option" where
  "linkSnap st = (let b = fst st in
     if activeOutboundSnapshot b = None \<and> activeInboundSnapshot b = None then None
     else Some (\<lambda>(out, tg, up). case if out then activeOutboundSnapshot b else activeInboundSnapshot b of
                                  None \<Rightarrow> 0 | Some m \<Rightarrow> statCnt m tg up))"

definition linkAmount :: "fsEnv \<times> stat list \<times> stat list \<Rightarrow> linkKey \<Rightarrow> int" where
  "linkAmount s k = (case (s, k) of ((_, outs, ins), out, tg, up) \<Rightarrow> statAmount (if out then outs else ins) tg up)"

definition linkAdd :: "fsEnv \<times> stat list \<times> stat list \<Rightarrow> usageBuffer \<times> spoolFile \<Rightarrow> usageBuffer \<times> spoolFile" where
  "linkAdd s st = (case s of (env, outs, ins) \<Rightarrow> addInbound env ins (add env outs st))"

definition snapOf :: "statMap \<Rightarrow> statMap \<Rightarrow> bool" where
  "snapOf full m \<longleftrightarrow> gomap_wf m \<and> (\<forall>tg up. 0 \<le> statCnt m tg up \<and> statCnt m tg up \<le> statCnt full tg up)"

definition linksInv :: "usageBuffer \<times> spoolFile \<Rightarrow> bool" where
  "linksInv st \<longleftrightarrow> gomap_wf (pending (fst st)) \<and> statsInRange (pending (fst st))
     \<and> gomap_wf (inbounds (fst st)) \<and> statsInRange (inbounds (fst st))
     \<and> pred_option (snapOf (pending (fst st))) (activeOutboundSnapshot (fst st))
     \<and> pred_option (snapOf (inbounds (fst st))) (activeInboundSnapshot (fst st))"

lemmas method_defs = add_def addInbound_def addUsers_def addUsageAndSnapshot_def addUsersAndSnapshot_def
  ack_def ackUsers_def addOutboundLocked_def addInboundLocked_def addUsersLocked_def

lemma outboundOp_users:
  "users (fst (outboundOp x st)) = users (fst st)"
  "activeUserSnapshot (fst (outboundOp x st)) = activeUserSnapshot (fst st)"
  by (cases x; cases st; simp add: method_defs Let_def)+

lemma userOp_links:
  "pending (fst (userOp x st)) = pending (fst st)" "inbounds (fst (userOp x st)) = inbounds (fst st)"
  "activeOutboundSnapshot (fst (userOp x st)) = activeOutboundSnapshot (fst st)"
  "activeInboundSnapshot (fst (userOp x st)) = activeInboundSnapshot (fst st)"
  by (cases x; cases st; simp add: method_defs Let_def split: option.split)+

lemma mget_nonzero: "gomap_wf m \<Longrightarrow> mget 0 (filter (\<lambda>(_, v). v \<noteq> 0) m) k = mget 0 m k"
  by (cases "map_of m k") (simp_all add: mget_def map_of_filter_wf)

lemma usersInv_grow:
  assumes "usersInv (b, f)"
  shows "usersInv (b\<lparr>users := addUserCounters (users b) ss\<rparr>, f')"
proof -
  have g: "mget 0 (addUserCounters (users b) ss) k = satAdd (mget 0 (users b) k) (userAmount ss k)"
    "inRange (addUserCounters (users b) ss)" for k
    using addUserCounters_correct assms by (auto simp: usersInv_def)
  have mono: "mget 0 (users b) k \<le> mget 0 (addUserCounters (users b) ss) k" for k
    using assms by (auto simp: g usersInv_def inRange_def intro: satAdd_mono)
  show ?thesis
    using assms g(2) mono unfolding usersInv_def
    by (auto simp: option.pred_set intro: order_trans)
qed

lemma usersInv_collect: "usersInv st \<Longrightarrow> usersInv (snd (addUsersAndSnapshot env ss st))"
proof -
  assume i: "usersInv st"
  obtain b f where st: "st = (b, f)" by (cases st)
  have g: "usersInv (addUsersLocked ss b, f')" for f'
    using usersInv_grow i st by (simp add: addUsersLocked_def)
  then show ?thesis
    by (auto simp: addUsersAndSnapshot_def Let_def st usersInv_def mget_nonzero inRange_def)
qed

lemma usersInv_ack: "usersInv st \<Longrightarrow> usersInv (snd (ackUsers env a st))"
proof (cases st)
  case (Pair b f)
  assume i: "usersInv st"
  show ?thesis
  proof (cases "activeUserSnapshot b")
    case None
    then show ?thesis using i by (simp add: Pair ackUsers_def)
  next
    case (Some m)
    then have "mget 0 (subUsers (users b) m) k = mget 0 (users b) k - mget 0 m k
        \<and> 0 \<le> mget 0 m k \<and> mget 0 m k \<le> mget 0 (users b) k" for k
      using i Pair by (auto simp: usersInv_def intro!: subUsers_correct)
    then have "inRange (subUsers (users b) m)"
      using i Pair by (auto simp: usersInv_def inRange_def) (smt (verit))
    then show ?thesis using i Some by (simp add: Pair ackUsers_def Let_def usersInv_def)
  qed
qed

interpretation userLedger: batch_ledger userCnt userSnap usersInv
  "\<lambda>s. userAmount (snd s)" "\<lambda>s. addUsers (fst s) (snd s)"
  "\<lambda>s st. snd (addUsersAndSnapshot (fst s) (snd s) st)" "\<lambda>a. ackUsers (fst a) (snd a)" outboundOp
proof (unfold_locales, goal_cases)
  case (1 s k)
  show ?case by simp
next
  case (2 b k)
  then show ?case by (simp add: usersInv_def inRange_def userCnt_def)
next
  case (3 b m k)
  then show ?case by (auto simp: usersInv_def userCnt_def userSnap_def)
next
  case (4 b s)
  then show ?case by (cases b) (simp add: addUsers_def addUsersLocked_def Let_def usersInv_grow)
next
  case (5 b s k)
  then show ?case
    by (cases b) (simp add: addUsers_def addUsersLocked_def Let_def userCnt_def usersInv_def addUserCounters_correct)
next
  case (6 b s)
  then show ?case by (rule usersInv_collect)
next
  case (7 b s k)
  then show ?case
    by (cases b) (auto simp: addUsersAndSnapshot_def addUsersLocked_def Let_def userCnt_def usersInv_def
      addUserCounters_correct)
next
  case (8 b a)
  then show ?case by (rule usersInv_ack)
next
  case (9 b a)
  then show ?case by (cases b) (auto simp: ackUsers_def Let_def split: option.splits if_splits)
next
  case (10 b a)
  then show ?case
    by (cases b) (auto simp: ackUsers_def Let_def userCnt_def userSnap_def usersInv_def
      intro!: subUsers_correct split: option.splits if_splits)
next
  case (11 b x)
  then show ?case by (simp add: usersInv_def outboundOp_users)
next
  case (12 b x)
  then show ?case by (simp add: userCnt_def outboundOp_users fun_eq_iff)
qed

lemma statCnt_nonzeroStats [simp]: "gomap_wf m \<Longrightarrow> statCnt (nonzeroStats m) tg up = statCnt m tg up"
  unfolding statCnt_def nonzeroStats_def side_def
  by (cases "map_of m tg") (auto simp: mget_def map_of_filter_wf)

lemma gomap_wf_nonzeroStats [simp]: "gomap_wf m \<Longrightarrow> gomap_wf (nonzeroStats m)"
  by (simp add: nonzeroStats_def)

lemma snapOf_self: "gomap_wf m \<Longrightarrow> statsInRange m \<Longrightarrow> snapOf m (nonzeroStats m)"
  by (simp add: snapOf_def statsInRange_def)

lemma snapOf_grow: "statsInRange m \<Longrightarrow> snapOf m s \<Longrightarrow> snapOf (addStats m ss) s"
proof -
  assume r: "statsInRange m" and s: "snapOf m s"
  have "statCnt m tg up \<le> statCnt (addStats m ss) tg up" for tg up
    using addStats_correct [OF r, of ss tg up] statsInRangeD [OF r, of tg up]
    by (auto intro: satAdd_mono)
  with s show ?thesis unfolding snapOf_def by (meson order_trans)
qed

lemma linksInv_grow:
  assumes "linksInv (b, f)"
  shows "linksInv (addInboundLocked ins (addOutboundLocked outs b), f')"
  using assms addStats_correct snapOf_grow
  unfolding linksInv_def addInboundLocked_def addOutboundLocked_def
  by (auto simp: option.pred_set)

lemma linkCnt_grow:
  assumes "linksInv (b, f)"
  shows "linkCnt (addInboundLocked ins (addOutboundLocked outs b), f') k
    = satAdd (linkCnt (b, f) k) (linkAmount (env, outs, ins) k)"
proof -
  have r: "statsInRange (pending b)" "statsInRange (inbounds b)"
    using assms by (simp_all add: linksInv_def)
  show ?thesis
    by (cases k) (simp add: linkCnt_def linkAmount_def addInboundLocked_def addOutboundLocked_def
      addStats_correct [OF r(1), THEN conjunct1] addStats_correct [OF r(2), THEN conjunct1])
qed

lemma linkAdd_eq: "\<exists>f'. linkAdd (env, outs, ins) (b, f) = (addInboundLocked ins (addOutboundLocked outs b), f')"
  by (simp add: linkAdd_def add_def addInbound_def Let_def)

lemma linksInv_collect: "linksInv st \<Longrightarrow> linksInv (snd (addUsageAndSnapshot env outs ins st))"
proof -
  assume i: "linksInv st"
  obtain b f where st: "st = (b, f)" by (cases st)
  have g: "linksInv (addInboundLocked ins (addOutboundLocked outs b), f')" for f'
    using linksInv_grow i st by simp
  then show ?thesis
    by (auto simp: addUsageAndSnapshot_def Let_def st linksInv_def snapOf_self)
qed

lemma statsInRange_sub:
  assumes "statsInRange m" and "snapOf m s"
  shows "statsInRange (subStats m s)"
proof -
  have s: "gomap_wf s" "\<And>tg up. 0 \<le> statCnt s tg up \<and> statCnt s tg up \<le> statCnt m tg up"
    using assms(2) by (simp_all add: snapOf_def)
  have "0 \<le> statCnt (subStats m s) tg up \<and> statCnt (subStats m s) tg up \<le> max_int64" for tg up
    using subStats_correct [OF s(1) assms(1) s(2), of tg up] s(2) [of tg up]
      statsInRangeD [OF assms(1), of tg up] by linarith
  then show ?thesis by (simp add: statsInRange_def)
qed

lemma subStats_snapOf:
  "statsInRange m \<Longrightarrow> snapOf m s \<Longrightarrow> statCnt (subStats m s) tg up = statCnt m tg up - statCnt s tg up"
  by (rule subStats_correct) (simp_all add: snapOf_def)

lemma linksInv_ack: "linksInv st \<Longrightarrow> linksInv (snd (ack env a st))"
  by (cases st) (auto simp: linksInv_def ack_def Let_def statsInRange_sub split: option.splits)

interpretation linkLedger: batch_ledger linkCnt linkSnap linksInv linkAmount linkAdd
  "\<lambda>(env, outs, ins) st. snd (addUsageAndSnapshot env outs ins st)" "\<lambda>a. ack (fst a) (snd a)" userOp
proof (unfold_locales, goal_cases)
  case (1 s k)
  show ?case by (cases s; cases k) (simp add: linkAmount_def)
next
  case (2 b k)
  then show ?case by (cases k) (simp add: linksInv_def linkCnt_def statsInRange_def)
next
  case (3 b m k)
  then show ?case
    by (cases k) (auto simp: linksInv_def linkCnt_def linkSnap_def Let_def snapOf_def
      dest!: statsInRangeD split: if_splits option.splits)
next
  case (4 b s)
  obtain env outs ins where "s = (env, outs, ins)" by (cases s)
  moreover obtain c f where "b = (c, f)" by (cases b)
  ultimately show ?case using 4 linkAdd_eq [of env outs ins c f] linksInv_grow by fastforce
next
  case (5 b s k)
  obtain env outs ins where s: "s = (env, outs, ins)" by (cases s)
  moreover obtain c f where b: "b = (c, f)" by (cases b)
  ultimately show ?case
    using 5 linkAdd_eq [of env outs ins c f] linkCnt_grow [of c f ins outs _ k env] by fastforce
next
  case (6 b s)
  then show ?case by (cases s) (simp add: linksInv_collect)
next
  case (7 b s k)
  obtain env outs ins where s: "s = (env, outs, ins)" by (cases s)
  moreover obtain c f where b: "b = (c, f)" by (cases b)
  moreover have "linkCnt (snd (addUsageAndSnapshot env outs ins (c, f))) k
      = linkCnt (addInboundLocked ins (addOutboundLocked outs c), f) k"
    by (cases k) (simp add: addUsageAndSnapshot_def Let_def linkCnt_def)
  ultimately show ?case using 7 linkCnt_grow [of c f ins outs f k env] by simp
next
  case (8 b a)
  then show ?case by (rule linksInv_ack)
next
  case (9 b a)
  then show ?case by (cases b) (auto simp: ack_def Let_def split: option.splits if_splits)
next
  case (10 b a)
  then show ?case
    by (cases b) (auto simp: ack_def Let_def linkCnt_def linkSnap_def linksInv_def subStats_snapOf
      split: option.splits if_splits)
next
  case (11 b x)
  then show ?case by (simp add: linksInv_def userOp_links)
next
  case (12 b x)
  then show ?case by (simp add: linkCnt_def userOp_links fun_eq_iff)
qed

section \<open>Batch identifiers\<close>

datatype bufferCall = UserCall userCall | OutboundCall outboundCall

fun bufferOp :: "bufferCall \<Rightarrow> usageBuffer \<times> spoolFile \<Rightarrow> usageBuffer \<times> spoolFile" where
  "bufferOp (UserCall c) st = userOp c st"
| "bufferOp (OutboundCall c) st = outboundOp c st"

definition runCalls :: "bufferCall list \<Rightarrow> usageBuffer \<times> spoolFile \<Rightarrow> usageBuffer \<times> spoolFile" where
  "runCalls calls st = fold bufferOp calls st"

text \<open>The open user batch, if there is one, was numbered after the \<open>n\<close>-th.\<close>

definition freshIds :: "nat \<Rightarrow> usageBuffer \<times> spoolFile \<Rightarrow> bool" where
  "freshIds n st \<longleftrightarrow> n \<le> nextBatch (fst st) \<and> (activeUserBatch (fst st) = [] \<or>
     (\<exists>k. n < k \<and> k \<le> nextBatch (fst st) \<and> activeUserBatch (fst st) = formatUint k))"

lemma freshIds_mono:
  assumes "freshIds n st" and "activeUserBatch (fst st') \<in> {activeUserBatch (fst st), []}"
    and "nextBatch (fst st) \<le> nextBatch (fst st')"
  shows "freshIds n st'"
  using assms unfolding freshIds_def by (metis insert_iff empty_iff order_trans)

lemma outboundOp_ids:
  assumes "nextBatch (fst st) < 18446744073709551615"
  shows "activeUserBatch (fst (outboundOp x st)) = activeUserBatch (fst st)
    \<and> nextBatch (fst st) \<le> nextBatch (fst (outboundOp x st))
    \<and> nextBatch (fst (outboundOp x st)) \<le> Suc (nextBatch (fst st))"
  using assms by (cases x; cases st; simp add: method_defs Let_def)

lemma userOp_ids:
  assumes "nextBatch (fst st) < 18446744073709551615"
  shows "nextBatch (fst st) \<le> nextBatch (fst (userOp x st))
    \<and> nextBatch (fst (userOp x st)) \<le> Suc (nextBatch (fst st))
    \<and> (activeUserBatch (fst (userOp x st)) \<in> {activeUserBatch (fst st), []}
       \<or> nextBatch (fst (userOp x st)) = Suc (nextBatch (fst st))
          \<and> activeUserBatch (fst (userOp x st)) = formatUint (Suc (nextBatch (fst st))))"
  using assms by (cases x; cases st; simp add: method_defs Let_def split: option.split)

lemma freshIds_call:
  assumes "freshIds n st" and "nextBatch (fst st) < 18446744073709551615"
  shows "freshIds n (bufferOp c st) \<and> nextBatch (fst (bufferOp c st)) \<le> Suc (nextBatch (fst st))"
proof (cases c)
  case (UserCall x)
  from userOp_ids [OF assms(2), of x]
  consider "activeUserBatch (fst (userOp x st)) \<in> {activeUserBatch (fst st), []}"
    | "activeUserBatch (fst (userOp x st)) = formatUint (Suc (nextBatch (fst st)))"
      "nextBatch (fst (userOp x st)) = Suc (nextBatch (fst st))" by blast
  then show ?thesis
  proof cases
    case 1
    with userOp_ids [OF assms(2), of x] assms(1) UserCall freshIds_mono show ?thesis by simp
  next
    case 2
    with assms(1) UserCall show ?thesis
      by (auto simp: freshIds_def intro!: exI [of _ "Suc (nextBatch (fst st))"])
  qed
next
  case (OutboundCall x)
  with outboundOp_ids [OF assms(2), of x] assms(1) freshIds_mono show ?thesis by auto
qed

lemma freshIds_run:
  "freshIds n st \<Longrightarrow> nextBatch (fst st) + length calls < 18446744073709551616 \<Longrightarrow>
   freshIds n (runCalls calls st) \<and> nextBatch (fst (runCalls calls st)) \<le> nextBatch (fst st) + length calls"
proof (induction calls arbitrary: st)
  case Nil
  then show ?case by (simp add: runCalls_def)
next
  case (Cons c calls)
  have st: "freshIds n (bufferOp c st)" "nextBatch (fst (bufferOp c st)) \<le> Suc (nextBatch (fst st))"
    using freshIds_call [of n st c] Cons.prems by simp_all
  then have "freshIds n (runCalls calls (bufferOp c st))"
    "nextBatch (fst (runCalls calls (bufferOp c st))) \<le> nextBatch (fst (bufferOp c st)) + length calls"
    using Cons.IH [OF st(1)] Cons.prems by simp_all
  with st(2) show ?case by (simp add: runCalls_def)
qed

lemma Nil_not_formatUint [simp]: "[] \<noteq> formatUint n"
  using formatUint_not_Nil [of n] by (rule not_sym)

lemma formatUint_inj: "formatUint m = formatUint n \<longleftrightarrow> m = n"
  by (metis digitsVal_formatUint option.inject)

lemma ackUsers_accepted:
  assumes "fst (ackUsers env batchID st)"
  shows "batchID \<noteq> []" "batchID = activeUserBatch (fst st)"
    "activeUserBatch (fst (snd (ackUsers env batchID st))) = []"
    "nextBatch (fst (snd (ackUsers env batchID st))) = nextBatch (fst st)"
  using assms by (cases st; auto simp: ackUsers_def Let_def split: option.splits if_splits)+

section \<open>Properties of the buffer\<close>

text \<open>
  (C1) No user traffic is lost and none is counted twice. Start from an empty buffer and let
  samples be recorded, batches be collected and acknowledged, and outbound traffic be handled, in
  any order, with any file system failures and any (also stale or forged) batch identifiers. For
  every user key the acknowledged batches together with the current counter are exactly what the
  samples brought, unless these exceed the largest 64-bit integer, where the counter saturates and
  the sum is smaller.
\<close>

theorem user_usage_conserved:
  "case ledgerRun (\<lambda>s. userAmount (snd s)) userSnap (\<lambda>s. addUsers (fst s) (snd s))
       (\<lambda>s st. snd (addUsersAndSnapshot (fst s) (snd s) st)) (\<lambda>a. ackUsers (fst a) (snd a)) outboundOp
       evs ((newUsageBuffer\<lparr>spoolPath := path\<rparr>, f), \<lambda>_. 0, \<lambda>_. 0) of (st, collected, delivered) \<Rightarrow>
     delivered k + userCnt st k = collected k
     \<or> (max_int64 < collected k \<and> delivered k + userCnt st k < collected k)"
proof -
  have "usersInv (newUsageBuffer\<lparr>spoolPath := path\<rparr>, f)" "userCnt (newUsageBuffer\<lparr>spoolPath := path\<rparr>, f) k = 0" for k
    by (simp_all add: usersInv_def newUsageBuffer_def inRange_def userCnt_def)
  then show ?thesis by (rule userLedger.conservation)
qed

text \<open>
  (C2) The same for the traffic of outbounds and inbounds, by tag and direction, with the user
  calls interleaved.
\<close>

theorem link_usage_conserved:
  "case ledgerRun linkAmount linkSnap linkAdd
       (\<lambda>(env, outs, ins) st. snd (addUsageAndSnapshot env outs ins st)) (\<lambda>a. ack (fst a) (snd a)) userOp
       evs ((newUsageBuffer\<lparr>spoolPath := path\<rparr>, f), \<lambda>_. 0, \<lambda>_. 0) of (st, collected, delivered) \<Rightarrow>
     delivered k + linkCnt st k = collected k
     \<or> (max_int64 < collected k \<and> delivered k + linkCnt st k < collected k)"
proof -
  have "linksInv (newUsageBuffer\<lparr>spoolPath := path\<rparr>, f)" "linkCnt (newUsageBuffer\<lparr>spoolPath := path\<rparr>, f) k = 0" for k
    by (cases k; simp add: linksInv_def newUsageBuffer_def statsInRange_def linkCnt_def)+
  then show ?thesis by (rule linkLedger.conservation)
qed

text \<open>
  (C3) A user batch is acknowledged at most once: after the buffer accepted an acknowledgement, no
  later call, whatever was called in between, accepts the same identifier again. The bound keeps
  the 64-bit batch number from wrapping.
\<close>

theorem user_batch_acked_once:
  assumes "length calls0 + length calls < 18446744073709551616"
    and "st = runCalls calls0 (newUsageBuffer\<lparr>spoolPath := path\<rparr>, f)"
    and "fst (ackUsers env batchID st)"
  shows "\<not> fst (ackUsers env' batchID (runCalls calls (snd (ackUsers env batchID st))))"
proof -
  let ?st = "snd (ackUsers env batchID st)"
  have "freshIds 0 st \<and> nextBatch (fst st) \<le> length calls0"
    unfolding assms(2) using freshIds_run [of 0 "(newUsageBuffer\<lparr>spoolPath := path\<rparr>, f)" calls0] assms(1)
    by (simp add: freshIds_def newUsageBuffer_def)
  then obtain k where k: "k \<le> nextBatch (fst st)" "batchID = formatUint k" and n: "nextBatch (fst st) \<le> length calls0"
    using ackUsers_accepted [OF assms(3)] by (auto simp: freshIds_def)
  have "freshIds (nextBatch (fst st)) ?st"
    using ackUsers_accepted [OF assms(3)] by (simp add: freshIds_def)
  then have "freshIds (nextBatch (fst st)) (runCalls calls ?st)"
    using freshIds_run [of _ ?st calls] assms(1) n ackUsers_accepted(4) [OF assms(3)] by simp
  then have "activeUserBatch (fst (runCalls calls ?st)) \<noteq> batchID"
    using k ackUsers_accepted(1) [OF assms(3)] by (auto simp: freshIds_def formatUint_inj)
  then show ?thesis using ackUsers_accepted(2) [of env' batchID "runCalls calls ?st"] by auto
qed

fun isUserAck :: "bufferCall \<Rightarrow> bool" where
  "isUserAck (UserCall (AckUsers env batchID)) = True"
| "isUserAck _ = False"

lemma bufferOp_keeps_batch:
  assumes "activeUserBatch (fst st) \<noteq> []" and "\<not> isUserAck c"
  shows "activeUserBatch (fst (bufferOp c st)) = activeUserBatch (fst st)
    \<and> activeUserSnapshot (fst (bufferOp c st)) = activeUserSnapshot (fst st)"
proof (cases c)
  case (UserCall x)
  with assms show ?thesis by (cases x; cases st; simp add: method_defs Let_def)
next
  case (OutboundCall x)
  then show ?thesis by (cases x; cases st; simp add: method_defs Let_def)
qed

lemma runCalls_keeps_batch:
  "activeUserBatch (fst st) \<noteq> [] \<Longrightarrow> list_all (\<lambda>c. \<not> isUserAck c) calls \<Longrightarrow>
   activeUserBatch (fst (runCalls calls st)) = activeUserBatch (fst st)
    \<and> activeUserSnapshot (fst (runCalls calls st)) = activeUserSnapshot (fst st)"
proof (induction calls arbitrary: st)
  case Nil
  then show ?case by (simp add: runCalls_def)
next
  case (Cons c calls)
  with bufferOp_keeps_batch [of st c] show ?case by (simp add: runCalls_def)
qed

lemma collect_open:
  "activeUserBatch (fst st) \<noteq> [] \<Longrightarrow>
   fst (addUsersAndSnapshot env ss st) = (activeUserBatch (fst st), userSnapshotResult (activeUserSnapshot (fst st)))"
  by (cases st) (simp add: addUsersAndSnapshot_def addUsersLocked_def Let_def)

lemma collect_opens:
  assumes "addUsersAndSnapshot env ss st = ((batchID, rs), st')" and "batchID \<noteq> []"
  shows "activeUserBatch (fst st') = batchID \<and> userSnapshotResult (activeUserSnapshot (fst st')) = rs"
  using assms by (cases st) (auto simp: addUsersAndSnapshot_def addUsersLocked_def Let_def split: if_splits)

text \<open>
  (C5) A batch that was handed out and not acknowledged is handed out again unchanged: whatever
  calls other than a user acknowledgement come in between, the next collection returns the same
  identifier and the same counters, so a response lost on the way to the master loses nothing.
\<close>

theorem user_batch_redelivered:
  assumes "addUsersAndSnapshot env samples st = ((batchID, batch), st')" and "batchID \<noteq> []"
    and "list_all (\<lambda>c. \<not> isUserAck c) calls"
  shows "fst (addUsersAndSnapshot env' samples' (runCalls calls st')) = (batchID, batch)"
  using collect_opens [OF assms(1,2)] runCalls_keeps_batch [OF _ assms(3)] collect_open assms(2) by metis

abbreviation fsFine :: fsEnv where
  "fsFine \<equiv> \<lparr>fsWindows = False, fsMkdir = None, fsOpen = None, fsWrite = None, fsSync = None, fsClose = None, fsRemove = None, fsRename = None\<rparr>"

abbreviation exampleUser :: userStat where
  "exampleUser \<equiv> \<lparr>UID = ''7'', Value = 10, UserUp = 0, UserDown = 0, InboundTag = []\<rparr>"

lemmas eval_buffer = method_defs newUsageBuffer_def addUsageCounter_def userUsageBufferKey_def
  userSnapshotResult_def parseUserUsageBufferKey_def persistBestEffortLocked_def persistLocked_def persistSteps_def
  runCalls_def formatUint.simps digit_def cut_char_absent mget_def char_of_def Let_def hasPrefix_def bit_0

theorem user_batch_redelivered_witness:
  "fst (addUsersAndSnapshot fsFine [exampleUser] (runCalls [UserCall (AddUsers fsFine [exampleUser])]
     (snd (addUsersAndSnapshot fsFine [exampleUser] (newUsageBuffer, None))))) = (''1'', [exampleUser])"
proof (rule user_batch_redelivered [where st = "(newUsageBuffer, None)" and env = fsFine and samples = "[exampleUser]"])
  show "addUsersAndSnapshot fsFine [exampleUser] (newUsageBuffer, None)
      = ((''1'', [exampleUser]), snd (addUsersAndSnapshot fsFine [exampleUser] (newUsageBuffer, None)))"
    by (simp add: eval_buffer)
qed simp_all

theorem user_batch_acked_once_witness:
  "\<not> fst (ackUsers fsFine ''1'' (runCalls [UserCall (CollectUsers fsFine [exampleUser])]
     (snd (ackUsers fsFine ''1'' (runCalls [UserCall (CollectUsers fsFine [exampleUser])]
       (newUsageBuffer\<lparr>spoolPath := []\<rparr>, None))))))"
proof (rule user_batch_acked_once [OF _ refl])
  show "fst (ackUsers fsFine ''1'' (runCalls [UserCall (CollectUsers fsFine [exampleUser])]
       (newUsageBuffer\<lparr>spoolPath := []\<rparr>, None)))"
    by (simp add: eval_buffer)
qed simp

lemmas persist_defs = persistLocked_def persistSteps_def writeFileSync_def replaceFile_def Let_def

lemma write_done: "writeFileSync env content = (None, temps) \<Longrightarrow> temps = [Some ([], False), Some (content, False), Some (content, True)]"
  by (auto simp: writeFileSync_def split: option.splits)

lemma persist_outcome: "spoolPath b \<noteq> [] \<Longrightarrow> fst (persistLocked env b f) = None \<Longrightarrow> snd (persistLocked env b f) = Some (encodeUsageSpool (spoolState b))"
  by (auto simp: persistLocked_def persistSteps_def replaceFile_def Let_def last_map dest!: write_done split: option.splits prod.splits)

lemma persist_leftover:
  "fst (persistSteps env b (d\<lparr>dkTemp := t\<rparr>)) = fst (persistSteps env b d)
    \<and> dkSpool (last (d\<lparr>dkTemp := t\<rparr> # snd (persistSteps env b (d\<lparr>dkTemp := t\<rparr>)))) = dkSpool (last (d # snd (persistSteps env b d)))"
  by (simp add: persist_defs split: option.split)

text \<open>
  (C16) What was persisted is what a restart loads: when the file system calls succeed, the buffer
  constructed from the spool file is the buffer that was written, open batches included.
\<close>

theorem persisted_buffer_reloads:
  assumes "spoolPath b \<noteq> []" and "spoolOk (spoolState b)" and "persistLocked env b f = (None, f')"
  shows "newPersistentUsageBuffer unjson (spoolPath b) None f' = Inr b"
proof -
  have f': "f' = Some (encodeUsageSpool (spoolState b))"
    using persist_outcome [OF assms(1), of env f] assms(3) by simp
  have "encodeUsageSpool (spoolState b) \<noteq> []"
    by (simp add: encodeUsageSpool_def usageSpoolMagic_def)
  then show ?thesis
    unfolding f' newPersistentUsageBuffer_def Let_def
    using assms(1) by (simp add: decode_encode [OF assms(2)]) (simp add: spoolState_def)
qed

theorem persisted_buffer_reloads_witness:
  "newPersistentUsageBuffer (\<lambda>_. Inl (errOther ''json'')) ''spool''
     None (snd (persistLocked fsFine (newUsageBuffer\<lparr>spoolPath := ''spool'', users := [(''7'', 10)]\<rparr>) None))
   = Inr (newUsageBuffer\<lparr>spoolPath := ''spool'', users := [(''7'', 10)]\<rparr>)"
proof -
  let ?b = "newUsageBuffer\<lparr>spoolPath := ''spool'', users := [(''7'', 10)]\<rparr>"
  have "newPersistentUsageBuffer (\<lambda>_. Inl (errOther ''json'')) (spoolPath ?b) None (snd (persistLocked fsFine ?b None)) = Inr ?b"
  proof (rule persisted_buffer_reloads)
    show "spoolOk (spoolState ?b)"
      by (simp add: spoolState_def newUsageBuffer_def spoolOk_def statsOk_def countersOk_def is_int64_def)
    show "persistLocked fsFine ?b None = (None, snd (persistLocked fsFine ?b None))"
      by (simp add: persist_defs)
  qed simp
  then show ?thesis by simp
qed

text \<open>
  (C20) Replacing the spool is atomic except on Windows, also when the machine stops half way: whatever step fails and wherever the
  call is interrupted, the spool file is the old one or the complete encoding of the new state, which is then on stable storage.
  When the call returns it is the new one exactly when no error is reported. What was in the temporary file before does not matter.
\<close>

theorem persist_atomic:
  assumes "\<not> fsWindows env" and "spoolPath b \<noteq> []"
  shows "(\<forall>d' \<in> set (snd (persistSteps env b d)). dkSpool d' = dkSpool d \<or> dkSpool d' = Some (encodeUsageSpool (spoolState b), True))
    \<and> dkSpool (last (d # snd (persistSteps env b d)))
        = (if fst (persistSteps env b d) = None then Some (encodeUsageSpool (spoolState b), True) else dkSpool d)"
  using assms by (auto simp: persistSteps_def replaceFile_def Let_def last_map dest!: write_done split: option.split prod.split)

theorem persist_atomic_witness:
  "dkSpool (last (\<lparr>dkTemp = Some (''rest'', False), dkSpool = Some (''old'', True)\<rparr> # snd (persistSteps (fsFine\<lparr>fsWrite := Some (3, ''no space left on device'')\<rparr>)
     (newUsageBuffer\<lparr>spoolPath := ''spool''\<rparr>) \<lparr>dkTemp = Some (''rest'', False), dkSpool = Some (''old'', True)\<rparr>))) = Some (''old'', True)"
  using persist_atomic [of "fsFine\<lparr>fsWrite := Some (3, ''no space left on device'')\<rparr>" "newUsageBuffer\<lparr>spoolPath := ''spool''\<rparr>"
      "\<lparr>dkTemp = Some (''rest'', False), dkSpool = Some (''old'', True)\<rparr>"]
  by (simp add: persist_defs)

text \<open>
  On Windows the old file is removed before the rename: when the rename fails, or the machine stops between, there is no spool file, and what
  was pending in it is lost.
\<close>

theorem persist_windows_loses:
  assumes "fsWindows env" and "spoolPath b \<noteq> []" and "fsMkdir env = None" and "fst (writeFileSync env (encodeUsageSpool (spoolState b))) = None"
    and "fsRemove env = None"
  shows "\<exists>d' \<in> set (snd (persistSteps env b d)). dkSpool d' = None"
  using assms by (auto simp: persistSteps_def replaceFile_def Let_def split: option.split prod.split)

text \<open>
  The composite key of a user counter determines the user and the inbound: parsing gives
  back the pair, for every user identifier without a NUL byte and every tag.
\<close>

theorem user_key_roundtrip:
  assumes "CHR 0x00 \<notin> set uid"
  shows "parseUserUsageBufferKey (userUsageBufferKey uid tg) = (uid, tg)"
  using assms by (simp add: parseUserUsageBufferKey_def userUsageBufferKey_def cut_char_absent cut_char_append)

theorem user_key_roundtrip_witness:
  "parseUserUsageBufferKey (userUsageBufferKey ''7.ann'' ''vless in'') = (''7.ann'', ''vless in'')"
  by (rule user_key_roundtrip) simp

lemma set_onlineMarkers:
  "set (onlineMarkers w us) = {\<lparr>UID = onlineUserSamplePrefix @ trimSpace u, Value = 1, UserUp = 0,
     UserDown = 0, InboundTag = []\<rparr> | u. u \<in> set us \<and> trimSpace u \<noteq> [] \<and> trimSpace u \<notin> set w}"
  by (induction us) (auto simp: Let_def)

text \<open>
  Online markers: after \<open>appendOnlineUserMarkers\<close> every online user with a non-blank name is
  represented, by its own traffic or by a marker, and no user that has traffic gets a marker.
\<close>

theorem online_users_marked:
  assumes "u \<in> set onlineUIDs" and "trimSpace u \<noteq> []"
  shows "(\<exists>st \<in> set stats. trimSpace (UID st) = trimSpace u \<and> Value st > 0) \<noteq>
    (\<lparr>UID = onlineUserSamplePrefix @ trimSpace u, Value = 1, UserUp = 0, UserDown = 0, InboundTag = []\<rparr>
      \<in> set (drop (length stats) (appendOnlineUserMarkers stats onlineUIDs)))"
proof -
  have "onlineUIDs \<noteq> []" using assms(1) by auto
  then show ?thesis
    using assms by (auto simp: appendOnlineUserMarkers_def set_onlineMarkers usersWithTraffic_def image_iff) metis
qed

theorem online_users_marked_witness:
  "\<lparr>UID = ''online:8'', Value = 1, UserUp = 0, UserDown = 0, InboundTag = []\<rparr>
     \<in> set (drop 1 (appendOnlineUserMarkers [exampleUser] [''7'', ''8'']))"
proof -
  have t: "trimSpace ''8'' = ''8''" "trimSpace ''7'' = ''7''" by code_simp+
  show ?thesis
    using online_users_marked [of "''8''" "[''7'', ''8'']" "[exampleUser]"] t
    by (simp add: onlineUserSamplePrefix_def)
qed

end
