(* ===== verification/Operation_Dedup.thy ===== *)
theory Operation_Dedup
  imports Encoding Transition "HOL-Library.Multiset"
begin

text \<open>
  Idempotent operations: \<open>internal/node/operation_dedup.go\<close>. The gRPC interceptor runs in one
  goroutine per request; each critical section between \<open>mu.Lock\<close> and \<open>mu.Unlock\<close> is one step of
  a thread, and steps of different threads interleave freely. The response messages and their
  protobuf encoding are parameters, as is the JSON text of a journal entry; the laws used of them
  are stated where they are needed. Results: one handler at a time per operation, at most one
  successful execution per operation in the window of 2048 receipts, the recorded response for every
  later call, no waiter left behind, the bound on receipts, and what a restart recovers.
\<close>

section \<open>Data\<close>

definition maxOperationReceipts :: nat where
  "maxOperationReceipts = 2048"

definition maxOperationJournalSize :: int where
  "maxOperationJournalSize = 8388608"

record operationReceipt =
  Method :: string
  Response :: string
  RecordedAt :: int

record operationDeduper =
  receipts :: "(string, operationReceipt) gomap"
  inflight :: "(string, nat) gomap"
  journalBytes :: int

text \<open>\<open>encoding/json\<close> on one journal entry and on the map of the legacy format.\<close>

record journalCodec =
  marshalEntry :: "string \<Rightarrow> operationReceipt \<Rightarrow> string"
  unmarshalEntry :: "string \<Rightarrow> (string \<times> operationReceipt) option"
  unmarshalLegacy :: "string \<Rightarrow> (string, operationReceipt) gomap option"

text \<open>
  What the file system answers. A failed append may have written a part of the line
  (\<open>Some n\<close>: the first \<open>n\<close> bytes); a failed compaction changes nothing, since it writes to a
  temporary file.
\<close>

record journalFS =
  fsMkdirFails :: bool
  fsAppend :: "nat option"
  fsCompactFails :: bool

type_synonym journal = "string option"

section \<open>Trimming\<close>

text \<open>The order of the association list stands for Go's arbitrary map order.\<close>

definition trimKeys :: "(string, operationReceipt) gomap \<Rightarrow> string list" where
  "trimKeys rs = (let keys = sort_key (\<lambda>k. case map_of rs k of None \<Rightarrow> 0 | Some r \<Rightarrow> RecordedAt r) (map fst rs)
     in take (length keys - maxOperationReceipts) keys)"

definition trimLocked :: "operationDeduper \<Rightarrow> operationDeduper" where
  "trimLocked d =
     (if length (receipts d) \<le> maxOperationReceipts then d
      else d\<lparr>receipts := fold AList.delete (trimKeys (receipts d)) (receipts d)\<rparr>)"

section \<open>The journal\<close>

definition compactLocked :: "journalCodec \<Rightarrow> journalFS \<Rightarrow> operationDeduper \<Rightarrow> journal \<Rightarrow> operationDeduper \<times> journal" where
  "compactLocked C fs d j =
     (if fsMkdirFails fs \<or> fsCompactFails fs then (d, j)
      else let keys = sort (map fst (receipts d));
               text = concat (map (\<lambda>k. marshalEntry C k (the (map_of (receipts d) k)) @ [CHR 0x0A]) keys)
           in (d\<lparr>journalBytes := int (length text)\<rparr>, Some text))"

definition appendLocked :: "journalCodec \<Rightarrow> journalFS \<Rightarrow> string \<Rightarrow> operationReceipt \<Rightarrow> operationDeduper \<Rightarrow> journal
    \<Rightarrow> operationDeduper \<times> journal" where
  "appendLocked C fs key receipt d j =
     (let line = marshalEntry C key receipt @ [CHR 0x0A]; old = (case j of None \<Rightarrow> [] | Some t \<Rightarrow> t) in
      if fsMkdirFails fs then (d, j)
      else case fsAppend fs of
        Some n \<Rightarrow> (d, if n = 0 then j else Some (old @ take n line))
      | None \<Rightarrow>
          let d' = d\<lparr>journalBytes := journalBytes d + int (length line)\<rparr>; j' = Some (old @ line) in
          if journalBytes d' \<ge> maxOperationJournalSize then compactLocked C fs d' j' else (d', j'))"

definition loadEntry :: "journalCodec \<Rightarrow> string \<Rightarrow> (string, operationReceipt) gomap \<Rightarrow> (string, operationReceipt) gomap" where
  "loadEntry C line rs = (case unmarshalEntry C line of
       None \<Rightarrow> rs
     | Some (key, receipt) \<Rightarrow> if key \<noteq> [] then AList.update key receipt rs else rs)"

definition load :: "journalCodec \<Rightarrow> journalFS \<Rightarrow> operationDeduper \<Rightarrow> journal \<Rightarrow> operationDeduper \<times> journal" where
  "load C fs d j = (case j of None \<Rightarrow> (d, j)
     | Some raw \<Rightarrow> (case unmarshalLegacy C raw of
         Some legacy \<Rightarrow> compactLocked C fs (trimLocked (d\<lparr>receipts := legacy\<rparr>)) j
       | None \<Rightarrow>
           let d' = trimLocked (d\<lparr>receipts := fold (loadEntry C) (scanLines raw) (receipts d)\<rparr>)
           in (d'\<lparr>journalBytes := int (length raw)\<rparr>, j)))"

definition newOperationDeduper :: "journalCodec \<Rightarrow> journalFS \<Rightarrow> journal \<Rightarrow> operationDeduper \<times> journal" where
  "newOperationDeduper C fs j = load C fs \<lparr>receipts = [], inflight = [], journalBytes = 0\<rparr> j"

section \<open>Requests\<close>

text \<open>\<open>None\<close>: the request type has no operation identifier.\<close>

record request =
  fullMethod :: string
  operationId :: "string option"

definition requestOperationID :: "request \<Rightarrow> string" where
  "requestOperationID req = (case operationId req of None \<Rightarrow> [] | Some v \<Rightarrow> trimSpace v)"

datatype responseKind = WindscribeProxyResponse | PsiphonProxyResponse | RuntimeActionResponse

definition mutationResponse :: "string \<Rightarrow> responseKind option" where
  "mutationResponse meth =
     (if hasSuffix meth ''/ConfigureWindscribe'' then Some WindscribeProxyResponse
      else if hasSuffix meth ''/ConfigurePsiphon'' then Some PsiphonProxyResponse
      else if list_ex (hasSuffix meth)
        [''/StartRuntime'', ''/RestartRuntime'', ''/StopRuntime'', ''/SyncConfig'', ''/AddUser'',
         ''/UpdateUser'', ''/RemoveUser'', ''/UpdateRuntime'', ''/UpdateGeo'', ''/RestartService'',
         ''/UpdateService'', ''/RebootHost'', ''/ApplyIPBlocks'', ''/ApplyTorProxy'']
        then Some RuntimeActionResponse
      else None)"

definition operationKey :: "request \<Rightarrow> string" where
  "operationKey req = fullMethod req @ CHR 0x00 # requestOperationID req"

definition deduplicated :: "request \<Rightarrow> bool" where
  "deduplicated req \<longleftrightarrow> requestOperationID req \<noteq> [] \<and> mutationResponse (fullMethod req) \<noteq> None"

section \<open>The interceptor\<close>

text \<open>Where a thread is between its critical sections, and what it returned.\<close>

datatype 'm pc = Loop | Replaying operationReceipt | Waiting nat | Running nat | Passing
  | Returned "string + 'm"

text \<open>The first critical section; \<open>ch\<close> is the channel it makes when it has to.\<close>

definition enterLocked :: "string \<Rightarrow> nat \<Rightarrow> operationDeduper \<Rightarrow> 'm pc \<times> operationDeduper" where
  "enterLocked key ch d =
     (case map_of (receipts d) key of
        Some receipt \<Rightarrow> (Replaying receipt, d)
      | None \<Rightarrow> (case map_of (inflight d) key of
           Some done \<Rightarrow> (Waiting done, d)
         | None \<Rightarrow> (Running ch, d\<lparr>inflight := AList.update key ch (inflight d)\<rparr>)))"

text \<open>The critical section after the handler; \<open>raw\<close> is the marshalled response of a success.\<close>

definition finishLocked :: "journalCodec \<Rightarrow> journalFS \<Rightarrow> request \<Rightarrow> string option \<Rightarrow> int \<Rightarrow> operationDeduper \<Rightarrow> journal
    \<Rightarrow> operationDeduper \<times> journal" where
  "finishLocked C fs req raw now d j =
     (let key = operationKey req;
          (d', j') = (case raw of None \<Rightarrow> (d, j)
            | Some bytes \<Rightarrow>
                let receipt = \<lparr>Method = fullMethod req, Response = bytes, RecordedAt = now\<rparr>
                in appendLocked C fs key receipt
                     (trimLocked (d\<lparr>receipts := AList.update key receipt (receipts d)\<rparr>)) j)
      in (d'\<lparr>inflight := AList.delete key (inflight d')\<rparr>, j'))"

record 'm world =
  ded :: operationDeduper
  jrn :: journal
  closed :: "nat set"
  nextChan :: nat
  threads :: "nat \<Rightarrow> 'm pc"
  outs :: "(string \<times> 'm \<times> int) list"

text \<open>
  The parameters of the interceptor: the codec of a response (\<open>kindOf\<close> is its message type) and
  of the journal.
\<close>

record 'm dedupEnv =
  marshal :: "'m \<Rightarrow> string option"
  unmarshal :: "responseKind \<Rightarrow> string \<Rightarrow> 'm option"
  kindOf :: "'m \<Rightarrow> responseKind"
  codec :: journalCodec

abbreviation goto :: "'m world \<Rightarrow> nat \<Rightarrow> 'm pc \<Rightarrow> 'm world" where
  "goto w t p \<equiv> w\<lparr>threads := (threads w)(t := p)\<rparr>"

text \<open>
  One step of thread \<open>t\<close>, which serves \<open>reqs t\<close>. The ghost field \<open>outs\<close> records the successful
  executions, the newest first: the operation, the response and the time.
\<close>

inductive interceptorStep :: "'m dedupEnv \<Rightarrow> (nat \<Rightarrow> request) \<Rightarrow> 'm world \<Rightarrow> 'm world \<Rightarrow> bool"
  for E reqs where
  bypass: "threads w t = Loop \<Longrightarrow> \<not> deduplicated (reqs t) \<Longrightarrow>
    interceptorStep E reqs w (goto w t Passing)"
| bypassed: "threads w t = Passing \<Longrightarrow>
    interceptorStep E reqs w (goto w t (Returned r))"
| enter: "threads w t = Loop \<Longrightarrow> deduplicated (reqs t) \<Longrightarrow>
    enterLocked (operationKey (reqs t)) (nextChan w) (ded w) = (p, d) \<Longrightarrow>
    interceptorStep E reqs w (goto (w\<lparr>ded := d, nextChan := Suc (nextChan w)\<rparr>) t p)"
| replay: "threads w t = Replaying receipt \<Longrightarrow> mutationResponse (fullMethod (reqs t)) = Some kind \<Longrightarrow>
    unmarshal E kind (Response receipt) = Some m \<Longrightarrow>
    interceptorStep E reqs w (goto w t (Returned (Inr m)))"
| discard: "threads w t = Replaying receipt \<Longrightarrow> mutationResponse (fullMethod (reqs t)) = Some kind \<Longrightarrow>
    unmarshal E kind (Response receipt) = None \<Longrightarrow>
    interceptorStep E reqs w
      (goto (w\<lparr>ded := (ded w)\<lparr>receipts := AList.delete (operationKey (reqs t)) (receipts (ded w))\<rparr>\<rparr>) t Loop)"
| cancelled: "threads w t = Waiting ch \<Longrightarrow>
    interceptorStep E reqs w (goto w t (Returned (Inl ctxErr)))"
| woken: "threads w t = Waiting ch \<Longrightarrow> ch \<in> closed w \<Longrightarrow>
    interceptorStep E reqs w (goto w t Loop)"
| failed: "threads w t = Running ch \<Longrightarrow> finishLocked (codec E) fs (reqs t) None now (ded w) (jrn w) = (d, j) \<Longrightarrow>
    interceptorStep E reqs w
      (goto (w\<lparr>ded := d, jrn := j, closed := insert ch (closed w)\<rparr>) t (Returned (Inl handlerErr)))"
| succeeded: "threads w t = Running ch \<Longrightarrow> mutationResponse (fullMethod (reqs t)) = Some (kindOf E m) \<Longrightarrow>
    finishLocked (codec E) fs (reqs t) (marshal E m) now (ded w) (jrn w) = (d, j) \<Longrightarrow>
    interceptorStep E reqs w
      (goto (w\<lparr>ded := d, jrn := j, closed := insert ch (closed w), outs := (operationKey (reqs t), m, now) # outs w\<rparr>)
        t (Returned (Inr m)))"

inductive_cases interceptorStepE: "interceptorStep E reqs w w'"

text \<open>
  \<open>goodReceipt\<close>: every request with this key can decode the receipt, to the message \<open>m\<close>. A run
  starts with no request under way; the receipts a restart loaded count as executions of the past.
\<close>

definition goodReceipt :: "'m dedupEnv \<Rightarrow> (nat \<Rightarrow> request) \<Rightarrow> string \<Rightarrow> operationReceipt \<Rightarrow> 'm \<Rightarrow> bool" where
  "goodReceipt E reqs key r m \<longleftrightarrow> (\<forall>t. operationKey (reqs t) = key \<longrightarrow>
     (\<forall>kind. mutationResponse (fullMethod (reqs t)) = Some kind \<longrightarrow> unmarshal E kind (Response r) = Some m))"

definition executed :: "'m world \<Rightarrow> string \<Rightarrow> 'm \<Rightarrow> bool" where
  "executed w key m \<longleftrightarrow> (key, m) \<in> (\<lambda>(k, x, _). (k, x)) ` set (outs w)"

definition initialWorld :: "'m dedupEnv \<Rightarrow> (nat \<Rightarrow> request) \<Rightarrow> 'm world \<Rightarrow> bool" where
  "initialWorld E reqs w \<longleftrightarrow> inflight (ded w) = [] \<and> closed w = {}
     \<and> (\<forall>t. threads w t = Loop) \<and> distinct (map fst (outs w))
     \<and> fst ` set (outs w) = fst ` set (receipts (ded w))
     \<and> (\<forall>key r. map_of (receipts (ded w)) key = Some r \<longrightarrow>
          (\<exists>m. (key, m, RecordedAt r) \<in> set (outs w) \<and> goodReceipt E reqs key r m))"

text \<open>The laws of the codec: marshalling does not fail and is undone by unmarshalling into the same type.\<close>

definition codecOk :: "'m dedupEnv \<Rightarrow> bool" where
  "codecOk E \<longleftrightarrow> (\<forall>m. \<exists>raw. marshal E m = Some raw \<and> unmarshal E (kindOf E m) raw = Some m)"

definition methodsOk :: "(nat \<Rightarrow> request) \<Rightarrow> bool" where
  "methodsOk reqs \<longleftrightarrow> (\<forall>t. CHR 0x00 \<notin> set (fullMethod (reqs t)))"

section \<open>Facts on the critical sections\<close>

lemma fold_delete: "map_of (fold AList.delete ks m) k = (if k \<in> set ks then None else map_of m k)"
  by (induction ks arbitrary: m) (auto simp: delete_conv')

lemma trimLocked_simps [simp]:
  "inflight (trimLocked d) = inflight d" "journalBytes (trimLocked d) = journalBytes d"
  by (simp_all add: trimLocked_def)

lemma trimLocked_receipts:
  "map_of (receipts (trimLocked d)) k = Some r \<Longrightarrow> map_of (receipts d) k = Some r"
  by (auto simp: trimLocked_def fold_delete split: if_splits)

lemma compactLocked_simps [simp]:
  "inflight (fst (compactLocked C fs d j)) = inflight d" "receipts (fst (compactLocked C fs d j)) = receipts d"
  by (simp_all add: compactLocked_def Let_def)

lemma appendLocked_simps [simp]:
  "inflight (fst (appendLocked C fs k r d j)) = inflight d"
  "receipts (fst (appendLocked C fs k r d j)) = receipts d"
  by (simp_all add: appendLocked_def Let_def split: option.split)

lemma finishLocked_inflight:
  "finishLocked C fs req raw now d j = (d', j') \<Longrightarrow> inflight d' = AList.delete (operationKey req) (inflight d)"
  by (auto simp: finishLocked_def Let_def case_prod_beta split: option.splits)

lemma finishLocked_None:
  "finishLocked C fs req None now d j = (d', j') \<Longrightarrow> receipts d' = receipts d"
  by (auto simp: finishLocked_def Let_def)

lemma finishLocked_Some:
  assumes "finishLocked C fs req (Some raw) now d j = (d', j')" and "map_of (receipts d') k = Some r"
  shows "(k = operationKey req \<and> Response r = raw) \<or> map_of (receipts d) k = Some r"
  using assms by (auto simp: finishLocked_def Let_def case_prod_beta update_conv'
    dest!: trimLocked_receipts split: if_splits)

lemma map_of_None_keys: "map_of m k \<noteq> None \<longleftrightarrow> k \<in> fst ` set m"
  by (simp add: map_of_eq_None_iff)

lemma enterLocked_cases:
  assumes "enterLocked key ch d = (p, d')"
  obtains (replay) r where "map_of (receipts d) key = Some r" "p = Replaying r" "d' = d"
  | (wait) c where "map_of (receipts d) key = None" "map_of (inflight d) key = Some c" "p = Waiting c" "d' = d"
  | (run) "map_of (receipts d) key = None" "map_of (inflight d) key = None" "p = Running ch"
      "d' = d\<lparr>inflight := AList.update key ch (inflight d)\<rparr>"
  using assms by (auto simp: enterLocked_def split: option.splits)

section \<open>The invariant\<close>

abbreviation keyOf :: "(nat \<Rightarrow> request) \<Rightarrow> nat \<Rightarrow> string" where
  "keyOf reqs t \<equiv> operationKey (reqs t)"

text \<open>Channels: the in-flight map is the set of running handlers, and every waiter has a waker.\<close>

definition chanInv :: "(nat \<Rightarrow> request) \<Rightarrow> 'm world \<Rightarrow> bool" where
  "chanInv reqs w \<longleftrightarrow>
     (\<forall>t ch. threads w t = Running ch \<longrightarrow>
        map_of (inflight (ded w)) (keyOf reqs t) = Some ch \<and> ch < nextChan w \<and> ch \<notin> closed w)
   \<and> (\<forall>t t' ch. threads w t = Running ch \<longrightarrow> threads w t' = Running ch \<longrightarrow> t = t')
   \<and> (\<forall>key ch. map_of (inflight (ded w)) key = Some ch \<longrightarrow> (\<exists>t. threads w t = Running ch \<and> keyOf reqs t = key))
   \<and> (\<forall>t ch. threads w t = Waiting ch \<longrightarrow> ch \<in> closed w \<or> (\<exists>t'. threads w t' = Running ch))
   \<and> (\<forall>ch \<in> closed w. ch < nextChan w)"

text \<open>Executions: what the receipts say and what was returned is what a handler returned; a running operation has no receipt.\<close>

definition execInv :: "'m dedupEnv \<Rightarrow> (nat \<Rightarrow> request) \<Rightarrow> 'm world \<Rightarrow> bool" where
  "execInv E reqs w \<longleftrightarrow>
     (\<forall>key r. map_of (receipts (ded w)) key = Some r \<longrightarrow> (\<exists>m. executed w key m \<and> goodReceipt E reqs key r m))
   \<and> (\<forall>t r. threads w t = Replaying r \<longrightarrow> (\<exists>m. executed w (keyOf reqs t) m \<and> goodReceipt E reqs (keyOf reqs t) r m))
   \<and> (\<forall>t m. deduplicated (reqs t) \<longrightarrow> threads w t = Returned (Inr m) \<longrightarrow> executed w (keyOf reqs t) m)
   \<and> (\<forall>t. threads w t = Passing \<longrightarrow> \<not> deduplicated (reqs t))
   \<and> (\<forall>t ch. threads w t = Running ch \<longrightarrow> map_of (receipts (ded w)) (keyOf reqs t) = None)"

lemma chanInvD:
  assumes "chanInv reqs w"
  shows "threads w t = Running ch \<Longrightarrow>
      map_of (inflight (ded w)) (keyOf reqs t) = Some ch \<and> ch < nextChan w \<and> ch \<notin> closed w"
    and "threads w t = Running ch \<Longrightarrow> threads w t' = Running ch \<Longrightarrow> t = t'"
    and "map_of (inflight (ded w)) key = Some ch \<Longrightarrow> \<exists>t. threads w t = Running ch \<and> keyOf reqs t = key"
    and "threads w t = Waiting ch \<Longrightarrow> ch \<in> closed w \<or> (\<exists>t'. threads w t' = Running ch)"
    and "ch \<in> closed w \<Longrightarrow> ch < nextChan w"
  using assms unfolding chanInv_def by blast+

lemma running_unique:
  assumes "chanInv reqs w" and "threads w t = Running c" and "threads w t' = Running c'"
    and "keyOf reqs t = keyOf reqs t'"
  shows "t = t'"
proof -
  have "c = c'" using chanInvD(1) [OF assms(1,2)] chanInvD(1) [OF assms(1,3)] assms(4) by simp
  with assms(3) have "threads w t' = Running c" by simp
  with assms(1,2) show ?thesis by (rule chanInvD(2))
qed

text \<open>A step that starts, wakes or ends no handler.\<close>

lemma chanInv_goto:
  assumes "chanInv reqs w" and "inflight d = inflight (ded w)" and "nextChan w \<le> n"
    and "\<And>ch. threads w t \<noteq> Running ch" and "\<And>ch. p \<noteq> Running ch"
    and "\<And>ch. p = Waiting ch \<Longrightarrow> ch \<in> closed w \<or> (\<exists>t'. threads w t' = Running ch)"
  shows "chanInv reqs (goto (w\<lparr>ded := d, nextChan := n\<rparr>) t p)"
proof -
  have run: "threads (goto (w\<lparr>ded := d, nextChan := n\<rparr>) t p) t' = Running ch \<longleftrightarrow> threads w t' = Running ch" for t' ch
    using assms(4,5) by auto
  show ?thesis
    unfolding chanInv_def run
  proof (intro conjI allI impI ballI)
    fix t' ch assume "threads w t' = Running ch"
    with chanInvD(1) [OF assms(1)] assms(2,3) show
      "map_of (inflight (ded (goto (w\<lparr>ded := d, nextChan := n\<rparr>) t p))) (keyOf reqs t') = Some ch"
      "ch < nextChan (goto (w\<lparr>ded := d, nextChan := n\<rparr>) t p)" "ch \<notin> closed (goto (w\<lparr>ded := d, nextChan := n\<rparr>) t p)"
      by (auto intro: less_le_trans)
  next
    fix t' t'' ch assume "threads w t' = Running ch" "threads w t'' = Running ch"
    then show "t' = t''" by (rule chanInvD(2) [OF assms(1)])
  next
    fix key ch assume "map_of (inflight (ded (goto (w\<lparr>ded := d, nextChan := n\<rparr>) t p))) key = Some ch"
    then show "\<exists>t. threads w t = Running ch \<and> keyOf reqs t = key"
      using chanInvD(3) [OF assms(1)] assms(2) by simp
  next
    fix t' ch assume "threads (goto (w\<lparr>ded := d, nextChan := n\<rparr>) t p) t' = Waiting ch"
    then show "ch \<in> closed (goto (w\<lparr>ded := d, nextChan := n\<rparr>) t p) \<or> (\<exists>t'. threads w t' = Running ch)"
      using chanInvD(4) [OF assms(1)] assms(6) by (cases "t' = t") auto
  next
    fix ch assume "ch \<in> closed (goto (w\<lparr>ded := d, nextChan := n\<rparr>) t p)"
    then show "ch < nextChan (goto (w\<lparr>ded := d, nextChan := n\<rparr>) t p)"
      using chanInvD(5) [OF assms(1), of ch] assms(3) by simp
  qed
qed

text \<open>A step that starts a handler.\<close>

lemma chanInv_start:
  assumes "chanInv reqs w" and "map_of (inflight (ded w)) (keyOf reqs t) = None"
    and "\<And>ch. threads w t \<noteq> Running ch"
  shows "chanInv reqs (goto (w\<lparr>ded := (ded w)\<lparr>inflight := AList.update (keyOf reqs t) (nextChan w) (inflight (ded w))\<rparr>,
      nextChan := Suc (nextChan w)\<rparr>) t (Running (nextChan w)))"
  unfolding chanInv_def
proof (intro conjI allI impI ballI, goal_cases)
  case (1 t' ch)
  then show ?case using chanInvD(1) [OF assms(1), of t' ch] assms(2) by (auto simp: update_conv' split: if_splits)
next
  case (2 t' ch)
  then show ?case using chanInvD(1) [OF assms(1), of t' ch] by (auto split: if_splits)
next
  case (3 t' ch)
  then show ?case using chanInvD(1) [OF assms(1), of t' ch] chanInvD(5) [OF assms(1), of ch] by (auto split: if_splits)
next
  case (4 t' t'' ch)
  then show ?case
    using chanInvD(1) [OF assms(1), of t' ch] chanInvD(1) [OF assms(1), of t'' ch] chanInvD(2) [OF assms(1), of t' ch t'']
    by (auto split: if_splits)
next
  case (5 key ch)
  show ?case
  proof (cases "key = keyOf reqs t")
    case True
    with 5 show ?thesis by (auto simp: update_conv' intro!: exI [of _ t])
  next
    case False
    with 5 obtain t' where "threads w t' = Running ch" "keyOf reqs t' = key"
      using chanInvD(3) [OF assms(1)] by (auto simp: update_conv')
    then show ?thesis using assms(3) by (intro exI [of _ t']) auto
  qed
next
  case (6 t' ch)
  then have "threads w t' = Waiting ch" by (auto split: if_splits)
  with chanInvD(4) [OF assms(1)] consider "ch \<in> closed w" | t2 where "threads w t2 = Running ch" by blast
  then show ?case
  proof cases
    case 2
    with assms(3) have "t2 \<noteq> t" by auto
    with 2 show ?thesis by (intro disjI2 exI [of _ t2]) simp
  qed simp
next
  case (7 ch)
  then show ?case using chanInvD(5) [OF assms(1), of ch] by simp
qed

text \<open>A step that ends a handler.\<close>

lemma chanInv_finish:
  assumes "chanInv reqs w" and "threads w t = Running c"
    and "inflight d = AList.delete (keyOf reqs t) (inflight (ded w))"
    and w': "ded w' = d" "closed w' = insert c (closed w)" "nextChan w' = nextChan w"
      "threads w' = (threads w)(t := Returned r)"
  shows "chanInv reqs w'"
proof -
  have key: "keyOf reqs t' \<noteq> keyOf reqs t \<and> ch \<noteq> c" if "threads w t' = Running ch" "t' \<noteq> t" for t' ch
  proof
    show "ch \<noteq> c" using chanInvD(2) [OF assms(1) that(1), of t] assms(2) that(2) by auto
    then show "keyOf reqs t' \<noteq> keyOf reqs t"
      using chanInvD(1) [OF assms(1) that(1)] chanInvD(1) [OF assms(1,2)] by auto
  qed
  show ?thesis
    unfolding chanInv_def w'
  proof (intro conjI allI impI ballI, goal_cases)
    case (1 t' ch)
    then show ?case using chanInvD(1) [OF assms(1), of t' ch] key assms(3) by (auto simp: delete_conv' split: if_splits)
  next
    case (2 t' ch)
    then show ?case using chanInvD(1) [OF assms(1), of t' ch] by (auto split: if_splits)
  next
    case (3 t' ch)
    then show ?case using chanInvD(1) [OF assms(1), of t' ch] key by (auto split: if_splits)
  next
    case (4 t' t'' ch)
    then show ?case using chanInvD(2) [OF assms(1), of t' ch t''] by (auto split: if_splits)
  next
    case (5 k ch)
    then have "k \<noteq> keyOf reqs t" "map_of (inflight (ded w)) k = Some ch"
      using assms(3) by (auto simp: delete_conv' split: if_splits)
    with chanInvD(3) [OF assms(1)] obtain t' where "threads w t' = Running ch" "keyOf reqs t' = k" by blast
    with \<open>k \<noteq> keyOf reqs t\<close> show ?case by (intro exI [of _ t']) auto
  next
    case (6 t' ch)
    then have "threads w t' = Waiting ch" by (auto split: if_splits)
    with chanInvD(4) [OF assms(1)] consider "ch \<in> insert c (closed w)"
      | t2 where "threads w t2 = Running ch" "ch \<noteq> c" by blast
    then show ?case
    proof cases
      case 2
      with assms(2) have "t2 \<noteq> t" by auto
      with 2 show ?thesis by (intro disjI2 exI [of _ t2]) simp
    qed simp
  next
    case (7 ch)
    then show ?case using chanInvD(5) [OF assms(1), of ch] chanInvD(1) [OF assms(1,2)] by auto
  qed
qed

lemma chanInv_step:
  assumes "chanInv reqs w" and "interceptorStep E reqs w w'"
  shows "chanInv reqs w'"
  using assms(2)
proof cases
  case (enter t p d)
  from enter(4) show ?thesis
  proof (cases rule: enterLocked_cases)
    case (replay r)
    then show ?thesis using enter chanInv_goto [OF assms(1), of "ded w" "Suc (nextChan w)" t p] by simp
  next
    case (wait c)
    then show ?thesis
      using enter chanInv_goto [OF assms(1), of "ded w" "Suc (nextChan w)" t p] chanInvD(3) [OF assms(1)] by auto
  next
    case run
    then show ?thesis using enter chanInv_start [OF assms(1)] by simp
  qed
next
  case (failed t ch fs now d j)
  show ?thesis
    by (rule chanInv_finish [OF assms(1) failed(2) finishLocked_inflight [OF failed(3)]]) (simp_all add: failed(1))
next
  case (succeeded t ch m fs now d j)
  show ?thesis
    by (rule chanInv_finish [OF assms(1) succeeded(2) finishLocked_inflight [OF succeeded(4)]])
      (simp_all add: succeeded(1))
next
  case (bypass t)
  then show ?thesis using chanInv_goto [OF assms(1), of "ded w" "nextChan w" t Passing] by simp
next
  case (bypassed t r)
  then show ?thesis using chanInv_goto [OF assms(1), of "ded w" "nextChan w" t "Returned r"] by simp
next
  case (replay t r kind m)
  then show ?thesis using chanInv_goto [OF assms(1), of "ded w" "nextChan w" t "Returned (Inr m)"] by simp
next
  case (discard t r kind)
  then show ?thesis
    using chanInv_goto [OF assms(1), of "(ded w)\<lparr>receipts := AList.delete (keyOf reqs t) (receipts (ded w))\<rparr>" "nextChan w" t Loop]
    by simp
next
  case (cancelled t ch e)
  then show ?thesis using chanInv_goto [OF assms(1), of "ded w" "nextChan w" t "Returned (Inl e)"] by simp
next
  case (woken t ch)
  then show ?thesis using chanInv_goto [OF assms(1), of "ded w" "nextChan w" t Loop] by simp
qed

lemma execInvD:
  assumes "execInv E reqs w"
  shows "map_of (receipts (ded w)) key = Some r \<Longrightarrow> \<exists>m. executed w key m \<and> goodReceipt E reqs key r m"
    and "threads w t = Replaying r \<Longrightarrow> \<exists>m. executed w (keyOf reqs t) m \<and> goodReceipt E reqs (keyOf reqs t) r m"
    and "deduplicated (reqs t) \<Longrightarrow> threads w t = Returned (Inr m) \<Longrightarrow> executed w (keyOf reqs t) m"
    and "threads w t = Passing \<Longrightarrow> \<not> deduplicated (reqs t)"
    and "threads w t = Running ch \<Longrightarrow> map_of (receipts (ded w)) (keyOf reqs t) = None"
  using assms unfolding execInv_def by blast+

lemma executed_cong: "outs w' = outs w \<Longrightarrow> executed w' = executed w"
  by (simp add: executed_def fun_eq_iff)

lemma execInv_goto:
  assumes "execInv E reqs w" and "receipts d = receipts (ded w)"
    and "\<And>r. p = Replaying r \<Longrightarrow> \<exists>m. executed w (keyOf reqs t) m \<and> goodReceipt E reqs (keyOf reqs t) r m"
    and "\<And>m. p = Returned (Inr m) \<Longrightarrow> deduplicated (reqs t) \<Longrightarrow> executed w (keyOf reqs t) m"
    and "p = Passing \<Longrightarrow> \<not> deduplicated (reqs t)"
    and "\<And>ch. p = Running ch \<Longrightarrow> map_of (receipts (ded w)) (keyOf reqs t) = None"
    and w': "ded w' = d" "outs w' = outs w" "threads w' = (threads w)(t := p)"
  shows "execInv E reqs w'"
  unfolding execInv_def executed_cong [OF w'(2)] w'(1,3) assms(2)
proof (intro conjI allI impI, goal_cases)
  case (2 t' r)
  then show ?case using execInvD(2) [OF assms(1)] assms(3) by (auto split: if_splits)
next
  case (3 t' m)
  then show ?case using execInvD(3) [OF assms(1)] assms(4) by (auto split: if_splits)
next
  case (4 t')
  then show ?case using execInvD(4) [OF assms(1)] assms(5) by (auto split: if_splits)
next
  case (5 t' ch)
  then show ?case using execInvD(5) [OF assms(1)] assms(6) by (cases "t' = t") auto
qed (use execInvD [OF assms(1)] in blast)+

text \<open>A success records the receipt, and no other operation gets one.\<close>

lemma execInv_success:
  assumes "execInv E reqs w" and "chanInv reqs w" and "codecOk E" and "methodsOk reqs"
    and "threads w t = Running ch" and "mutationResponse (fullMethod (reqs t)) = Some (kindOf E m)"
    and "finishLocked (codec E) fs (reqs t) (marshal E m) now (ded w) (jrn w) = (d, j)"
    and w': "ded w' = d" "outs w' = (keyOf reqs t, m, now) # outs w" "threads w' = (threads w)(t := Returned (Inr m))"
  shows "execInv E reqs w'"
proof -
  obtain raw where raw: "marshal E m = Some raw" "unmarshal E (kindOf E m) raw = Some m"
    using assms(3) by (auto simp: codecOk_def)
  have same: "fullMethod (reqs t') = fullMethod (reqs t)" if "keyOf reqs t' = keyOf reqs t" for t'
    using arg_cong [OF that, of "\<lambda>k. cut k [CHR 0x00]"] assms(4)
    by (simp add: operationKey_def methodsOk_def cut_char_append)
  have good: "goodReceipt E reqs (keyOf reqs t) r m" if "Response r = raw" for r
    unfolding goodReceipt_def
  proof (intro allI impI)
    fix t' kind
    assume k: "keyOf reqs t' = keyOf reqs t" "mutationResponse (fullMethod (reqs t')) = Some kind"
    then have "kind = kindOf E m" using same [OF k(1)] assms(6) by simp
    then show "unmarshal E kind (Response r) = Some m" using raw(2) that by simp
  qed
  have ran: "executed w' key x \<longleftrightarrow> key = keyOf reqs t \<and> x = m \<or> executed w key x" for key x
    by (auto simp: executed_def w'(2))
  note fin = finishLocked_Some [OF assms(7) [unfolded raw(1)]]
  have others: "keyOf reqs t' \<noteq> keyOf reqs t" if "threads w t' = Running c" "t' \<noteq> t" for t' c
    using running_unique [OF assms(2) that(1) assms(5)] that(2) by blast
  show ?thesis
    unfolding execInv_def ran w'(1,3)
  proof (intro conjI allI impI, goal_cases)
    case (1 key r)
    from fin [OF 1] show ?case
    proof (elim disjE conjE)
      assume "key = keyOf reqs t" "Response r = raw"
      with good show ?thesis by (intro exI [of _ m]) simp
    next
      assume "map_of (receipts (ded w)) key = Some r"
      from execInvD(1) [OF assms(1) this] show ?thesis by auto
    qed
  next
    case (2 t' r)
    then show ?case using execInvD(2) [OF assms(1), of t' r] by (auto split: if_splits)
  next
    case (3 t' m')
    then show ?case using execInvD(3) [OF assms(1), of t' m'] by (auto split: if_splits)
  next
    case (4 t')
    then show ?case using execInvD(4) [OF assms(1), of t'] by (auto split: if_splits)
  next
    case (5 t' c)
    then have t': "threads w t' = Running c" "t' \<noteq> t" by (auto split: if_splits)
    show ?case
    proof (cases "map_of (receipts d) (keyOf reqs t')")
      case (Some r)
      from fin [OF this] others [OF t'] have "map_of (receipts (ded w)) (keyOf reqs t') = Some r" by simp
      then show ?thesis using execInvD(5) [OF assms(1) t'(1)] by simp
    qed
  qed
qed

lemma execInv_step:
  assumes "execInv E reqs w" and "chanInv reqs w" and "codecOk E" and "methodsOk reqs"
    and "interceptorStep E reqs w w'"
  shows "execInv E reqs w'"
  using assms(5)
proof cases
  case (bypass t)
  then show ?thesis by (intro execInv_goto [OF assms(1), of "ded w" Passing t]) simp_all
next
  case (bypassed t r)
  then show ?thesis using execInvD(4) [OF assms(1), of t]
    by (intro execInv_goto [OF assms(1), of "ded w" "Returned r" t]) simp_all
next
  case (enter t p d)
  from enter(4) show ?thesis
  proof (cases rule: enterLocked_cases)
    case (replay r)
    then show ?thesis using enter execInvD(1) [OF assms(1)]
      by (intro execInv_goto [OF assms(1), of d p t]) simp_all
  next
    case (wait c)
    then show ?thesis using enter by (intro execInv_goto [OF assms(1), of d p t]) simp_all
  next
    case run
    with enter show ?thesis by (intro execInv_goto [OF assms(1), of d p t]) simp_all
  qed
next
  case (replay t r kind m)
  from execInvD(2) [OF assms(1) replay(2)] replay(3,4) have "executed w (keyOf reqs t) m"
    by (auto simp: goodReceipt_def)
  with replay show ?thesis by (intro execInv_goto [OF assms(1), of "ded w" "Returned (Inr m)" t]) simp_all
next
  case (discard t r kind)
  with execInvD(2) [OF assms(1) discard(2)] have False by (auto simp: goodReceipt_def)
  then show ?thesis ..
next
  case (cancelled t ch e)
  then show ?thesis by (intro execInv_goto [OF assms(1), of "ded w" "Returned (Inl e)" t]) simp_all
next
  case (woken t ch)
  then show ?thesis by (intro execInv_goto [OF assms(1), of "ded w" Loop t]) simp_all
next
  case (failed t ch fs now d j e)
  then show ?thesis
    by (intro execInv_goto [OF assms(1), of d "Returned (Inl e)" t]) (simp_all add: finishLocked_None)
next
  case (succeeded t ch m fs now d j)
  then show ?thesis by (intro execInv_success [OF assms(1-4) succeeded(2-4)]) simp_all
qed

lemma initial_inv:
  assumes "initialWorld E reqs w"
  shows "chanInv reqs w" and "execInv E reqs w"
proof -
  show "chanInv reqs w" using assms by (simp add: initialWorld_def chanInv_def)
  have ran: "executed w key m" if "(key, m, at) \<in> set (outs w)" for key m at
    using that by (force simp: executed_def)
  show "execInv E reqs w"
    unfolding execInv_def
  proof (intro conjI allI impI, goal_cases)
    case (1 key r)
    then obtain m where "(key, m, RecordedAt r) \<in> set (outs w)" "goodReceipt E reqs key r m"
      using assms unfolding initialWorld_def by blast
    with ran show ?case by blast
  qed (use assms in \<open>simp_all add: initialWorld_def\<close>)
qed

interpretation dedupSystem: invariant_system
  "\<lambda>w. codecOk E \<and> methodsOk reqs \<and> initialWorld E reqs w" "interceptorStep E reqs"
  "\<lambda>w. codecOk E \<and> methodsOk reqs \<and> chanInv reqs w \<and> execInv E reqs w"
  by unfold_locales (use initial_inv chanInv_step execInv_step in blast)+

section \<open>Trimming keeps the newest receipts\<close>

lemma fold_delete_filter: "fold AList.delete ks m = filter (\<lambda>p. fst p \<notin> set ks) m"
proof (induction ks arbitrary: m)
  case Nil
  show ?case by simp
next
  case (Cons k ks)
  have "AList.delete k m = filter (\<lambda>p. fst p \<noteq> k) m"
    by (auto simp: AList.delete_eq case_prod_unfold intro: filter_cong)
  then show ?case by (simp add: Cons.IH conj_commute)
qed

lemma filter_not_take: "distinct xs \<Longrightarrow> filter (\<lambda>x. x \<notin> set (take n xs)) xs = drop n xs"
proof -
  assume d: "distinct xs"
  have "filter (\<lambda>x. x \<notin> set (take n xs)) (take n xs) = []" by (simp add: filter_empty_conv)
  moreover have "filter (\<lambda>x. x \<notin> set (take n xs)) (drop n xs) = drop n xs"
    using set_take_disj_set_drop_if_distinct [OF d, of n n] by (auto simp: filter_id_conv)
  ultimately show ?thesis
    using filter_append [of "\<lambda>x. x \<notin> set (take n xs)" "take n xs" "drop n xs"] by simp
qed

lemma length_filter_mset: "mset xs = mset ys \<Longrightarrow> length (filter P xs) = length (filter P ys)"
  by (metis mset_filter size_mset)

lemma trim_length:
  assumes "gomap_wf (receipts d)"
  shows "length (receipts (trimLocked d)) = min (length (receipts d)) maxOperationReceipts"
proof (cases "length (receipts d) \<le> maxOperationReceipts")
  case True
  then show ?thesis by (simp add: trimLocked_def)
next
  case False
  let ?f = "\<lambda>k. case map_of (receipts d) k of None \<Rightarrow> 0 | Some r \<Rightarrow> RecordedAt r"
  let ?keys = "sort_key ?f (map fst (receipts d))"
  let ?n = "length ?keys - maxOperationReceipts"
  have "length (receipts (trimLocked d)) = length (filter (\<lambda>p. fst p \<notin> set (take ?n ?keys)) (receipts d))"
    using False by (simp add: trimLocked_def trimKeys_def Let_def fold_delete_filter)
  also have "\<dots> = length (filter (\<lambda>k. k \<notin> set (take ?n ?keys)) (map fst (receipts d)))"
    by (simp add: filter_map o_def)
  also have "\<dots> = length (filter (\<lambda>k. k \<notin> set (take ?n ?keys)) ?keys)"
    by (rule length_filter_mset) simp
  also have "\<dots> = length (drop ?n ?keys)"
    using assms by (subst filter_not_take) simp_all
  finally show ?thesis using False by simp
qed

lemma sorted_take_drop:
  assumes "sorted (map f xs)" and "a \<in> set (take n xs)" and "b \<in> set (drop n xs)"
  shows "f a \<le> f b"
proof -
  have "sorted (map f (take n xs) @ map f (drop n xs))"
    using assms(1) by (metis append_take_drop_id map_append)
  with assms(2,3) show ?thesis by (auto simp: sorted_append)
qed

section \<open>The window of the receipts\<close>

text \<open>
  \<open>newer k es\<close>: the executions after the latest one of \<open>k\<close>. An execution of an operation is repeated only after 2048 others (\<open>spaced\<close>).
\<close>

definition newer :: "string \<Rightarrow> (string \<times> 'a) list \<Rightarrow> (string \<times> 'a) list" where
  "newer k es = takeWhile (\<lambda>e. fst e \<noteq> k) es"

fun spaced :: "(string \<times> 'a) list \<Rightarrow> bool" where
  "spaced [] \<longleftrightarrow> True"
| "spaced (e # es) \<longleftrightarrow> (fst e \<in> fst ` set es \<longrightarrow> maxOperationReceipts \<le> length (newer (fst e) es)) \<and> spaced es"

lemma newer_Cons [simp]: "newer k (e # es) = (if fst e = k then [] else e # newer k es)"
  by (simp add: newer_def)

lemma newer_append: "fst e = k \<Longrightarrow> length (newer k (ys @ e # zs)) \<le> length ys"
  by (induction ys) (simp_all add: newer_def)

lemma spaced_gap: "spaced (xs @ e # ys @ e' # zs) \<Longrightarrow> fst e = fst e' \<Longrightarrow> maxOperationReceipts \<le> length ys"
  by (induction xs) (use newer_append [of e' "fst e" ys zs] in auto)

text \<open>With a gap of \<open>n\<close> between two executions of an operation there is at most one among \<open>n\<close> of them.\<close>

lemma once_in_window:
  assumes "length es \<le> n" and "\<And>xs e ys e' zs. es = xs @ e # ys @ e' # zs \<Longrightarrow> fst e = fst e' \<Longrightarrow> n \<le> length ys"
  shows "length (filter (\<lambda>e. fst e = k) es) \<le> 1"
proof (rule ccontr)
  assume "\<not> length (filter (\<lambda>e. fst e = k) es) \<le> 1"
  then obtain e e' fs where "filter (\<lambda>e. fst e = k) es = e # e' # fs"
    by (cases "filter (\<lambda>e. fst e = k) es" rule: remdups_adj.cases) auto
  from filter_eq_ConsD [OF this] obtain xs vs where v: "es = xs @ e # vs" "fst e = k" "filter (\<lambda>e. fst e = k) vs = e' # fs" by metis
  from filter_eq_ConsD [OF v(3)] obtain ys zs where "vs = ys @ e' # zs" "fst e' = k" by metis
  with v(1,2) assms(2) [of xs e ys e' zs] assms(1) show False by simp
qed

lemma once_same:
  assumes "length (filter (\<lambda>e. fst e = k) es) \<le> 1" and "(k, m) \<in> (\<lambda>(k, x, _). (k, x)) ` set es" and "(k, m') \<in> (\<lambda>(k, x, _). (k, x)) ` set es"
  shows "m = m'"
proof -
  obtain at at' where "(k, m, at) \<in> set (filter (\<lambda>e. fst e = k) es)" "(k, m', at') \<in> set (filter (\<lambda>e. fst e = k) es)"
    using assms(2,3) by auto
  with assms(1) show ?thesis by (cases "filter (\<lambda>e. fst e = k) es") auto
qed

lemma spaced_distinct: "distinct (map fst es) \<Longrightarrow> spaced es"
  by (induction es) auto

abbreviation stamp :: "string \<times> 'm \<times> int \<Rightarrow> int" where
  "stamp e \<equiv> snd (snd e)"

text \<open>The time of the latest execution of an operation.\<close>

definition latestStamp :: "(string \<times> 'm \<times> int) list \<Rightarrow> string \<Rightarrow> int option" where
  "latestStamp es k = map_of (map (\<lambda>(k, m, at). (k, at)) es) k"

lemma latestStamp_Cons [simp]: "latestStamp (e # es) k = (if fst e = k then Some (stamp e) else latestStamp es k)"
  by (cases e) (auto simp: latestStamp_def)

lemma latestStamp_in: "latestStamp es k = Some at \<Longrightarrow> \<exists>m. (k, m, at) \<in> set es"
  by (auto simp: latestStamp_def dest!: map_of_SomeD)

text \<open>Operations whose latest execution is not older than that of \<open>k\<close> are, with strictly growing times, among the newer ones.\<close>

lemma later_newer:
  assumes "sorted_wrt (>) (map stamp es)" and "latestStamp es k = Some at" and "latestStamp es k' = Some at'" and "at \<le> at'" and "k' \<noteq> k"
  shows "k' \<in> fst ` set (newer k es)"
  using assms
proof (induction es)
  case (Cons e es)
  show ?case
  proof (cases "fst e = k")
    case True
    then obtain m where "(k', m, at') \<in> set es" using Cons.prems latestStamp_in [of es k' at'] by auto
    then have "stamp e > at'" using Cons.prems(1) by force
    then show ?thesis using True Cons.prems(2,4) by simp
  qed (use Cons in \<open>auto split: if_splits\<close>)
qed (simp add: latestStamp_def)

definition trimmedWorld :: "'m world \<Rightarrow> bool" where
  "trimmedWorld w \<longleftrightarrow> gomap_wf (receipts (ded w)) \<and> length (receipts (ded w)) \<le> maxOperationReceipts"

text \<open>
  With strictly growing times: a receipt is that of the latest execution of its operation, and an executed operation without a receipt
  was followed by 2048 executions.
\<close>

definition windowed :: "(string, operationReceipt) gomap \<Rightarrow> (string \<times> 'm \<times> int) list \<Rightarrow> bool" where
  "windowed rs es \<longleftrightarrow> (\<forall>k r. map_of rs k = Some r \<longrightarrow> latestStamp es k = Some (RecordedAt r))
     \<and> (\<forall>k \<in> fst ` set es. map_of rs k = None \<longrightarrow> maxOperationReceipts \<le> length (newer k es)) \<and> spaced es"

definition windowInv :: "'m world \<Rightarrow> bool" where
  "windowInv w \<longleftrightarrow> trimmedWorld w \<and> (sorted_wrt (>) (map stamp (outs w)) \<longrightarrow> windowed (receipts (ded w)) (outs w))"

lemma trim_oldest:
  assumes "map_of (receipts (trimLocked d)) k = Some r" and "map_of (receipts d) k' = Some r'" and "map_of (receipts (trimLocked d)) k' = None"
  shows "RecordedAt r' \<le> RecordedAt r"
proof -
  let ?f = "\<lambda>k. case map_of (receipts d) k of None \<Rightarrow> 0 | Some r \<Rightarrow> RecordedAt r"
  let ?keys = "sort_key ?f (map fst (receipts d))"
  let ?n = "length ?keys - maxOperationReceipts"
  have tk: "trimKeys (receipts d) = take ?n ?keys" by (simp add: trimKeys_def Let_def)
  have old: "map_of (receipts d) k = Some r" using assms(1) by (rule trimLocked_receipts)
  have k: "k \<notin> set (take ?n ?keys)" "k' \<in> set (take ?n ?keys)"
    using assms old by (auto simp: trimLocked_def fold_delete tk split: if_splits)
  have "k \<in> set ?keys" using old by (auto dest: map_of_SomeD intro: rev_image_eqI)
  then have "k \<in> set (drop ?n ?keys)" using k(1) by (metis Un_iff append_take_drop_id set_append)
  from sorted_take_drop [OF sorted_sort_key k(2) this] show ?thesis using old assms(2) by simp
qed

lemma trim_wf: "gomap_wf (receipts d) \<Longrightarrow> gomap_wf (receipts (trimLocked d))"
  by (simp add: trimLocked_def fold_delete_filter distinct_map_filter)

text \<open>A dropped receipt is followed by 2048 executions, those of the receipts that are kept.\<close>

lemma dropped_old:
  assumes "gomap_wf (receipts d)" and "\<And>k r. map_of (receipts d) k = Some r \<Longrightarrow> latestStamp es k = Some (RecordedAt r)"
    and "sorted_wrt (>) (map stamp es)" and "map_of (receipts d) k = Some r" and "map_of (receipts (trimLocked d)) k = None"
  shows "maxOperationReceipts \<le> length (newer k es)"
proof -
  let ?rs = "receipts (trimLocked d)"
  have "fst ` set ?rs \<subseteq> fst ` set (newer k es)"
  proof
    fix k' assume "k' \<in> fst ` set ?rs"
    then obtain r' where r': "map_of ?rs k' = Some r'" using map_of_None_keys [of ?rs k'] by auto
    then have "k' \<noteq> k" using assms(5) by auto
    then show "k' \<in> fst ` set (newer k es)"
      by (rule later_newer [OF assms(3) assms(2) [OF assms(4)] assms(2) [OF trimLocked_receipts [OF r']] trim_oldest [OF r' assms(4,5)]])
  qed
  then have "card (fst ` set ?rs) \<le> length (newer k es)"
    by (meson card_image_le card_length card_mono finite_imageI finite_set le_trans)
  moreover have "card (fst ` set ?rs) = length ?rs"
    using trim_wf [OF assms(1)] distinct_card [of "map fst ?rs"] by simp
  moreover have "maxOperationReceipts < length (receipts d)" using assms(4,5) by (auto simp: trimLocked_def split: if_splits)
  ultimately show ?thesis using trim_length [OF assms(1)] by simp
qed

lemma windowed_success:
  assumes "windowed rs es" and "gomap_wf rs" and "map_of rs k = None" and "RecordedAt receipt = now"
    and "sorted_wrt (>) (map stamp ((k, m, now) # es))" and "receipts d = AList.update k receipt rs"
  shows "windowed (receipts (trimLocked d)) ((k, m, now) # es)"
proof -
  let ?es = "(k, m, now) # es"
  have stamps: "latestStamp ?es k' = Some (RecordedAt r)" if "map_of (receipts d) k' = Some r" for k' r
    using that assms(1,4,6) by (auto simp: windowed_def update_conv' split: if_splits)
  have lost: "maxOperationReceipts \<le> length (newer k' es)" if "k' \<in> fst ` set es" "map_of rs k' = None" for k'
    using assms(1) that unfolding windowed_def by blast
  have wf: "gomap_wf (receipts d)" using assms(2,6) by (simp add: distinct_update)
  have "maxOperationReceipts \<le> length (newer k' ?es)" if k': "k' \<in> fst ` set ?es" "map_of (receipts (trimLocked d)) k' = None" for k'
  proof (cases "map_of (receipts d) k'")
    case None
    then have "k' \<noteq> k" "map_of rs k' = None" using assms(6) by (auto simp: update_conv' split: if_splits)
    then show ?thesis using lost [of k'] k'(1) by auto
  next
    case (Some r)
    show ?thesis by (rule dropped_old [OF wf stamps assms(5) Some k'(2)])
  qed
  moreover have "spaced ?es" using lost [OF _ assms(3)] assms(1) by (auto simp: windowed_def)
  ultimately show ?thesis unfolding windowed_def using stamps trimLocked_receipts by blast
qed

lemma finishLocked_receipts:
  "finishLocked C fs req (Some raw) now d j = (d', j') \<Longrightarrow>
    receipts d' = receipts (trimLocked (d\<lparr>receipts := AList.update (operationKey req) \<lparr>Method = fullMethod req, Response = raw, RecordedAt = now\<rparr> (receipts d)\<rparr>))"
  by (auto simp: finishLocked_def Let_def case_prod_beta)

lemma windowInv_success:
  assumes "windowInv w" and "execInv E reqs w" and "codecOk E" and "threads w t = Running ch"
    and "finishLocked (codec E) fs (reqs t) (marshal E m) now (ded w) (jrn w) = (d, j)"
    and w': "ded w' = d" "outs w' = (keyOf reqs t, m, now) # outs w"
  shows "windowInv w'"
proof -
  obtain raw where raw: "marshal E m = Some raw" using assms(3) by (auto simp: codecOk_def)
  let ?r = "\<lparr>Method = fullMethod (reqs t), Response = raw, RecordedAt = now\<rparr>"
  let ?d = "(ded w)\<lparr>receipts := AList.update (keyOf reqs t) ?r (receipts (ded w))\<rparr>"
  note rs = finishLocked_receipts [OF assms(5) [unfolded raw]]
  have wf: "gomap_wf (receipts (ded w))" using assms(1) by (simp add: windowInv_def trimmedWorld_def)
  then have wf': "gomap_wf (receipts ?d)" by (simp add: distinct_update)
  have "trimmedWorld w'" using trim_wf [OF wf'] trim_length [OF wf'] by (simp add: trimmedWorld_def w'(1) rs)
  moreover have "windowed (receipts d) (outs w')" if "sorted_wrt (>) (map stamp (outs w'))"
    unfolding rs w'(2)
  proof (rule windowed_success [OF _ wf])
    show "windowed (receipts (ded w)) (outs w)" using that assms(1) by (simp add: windowInv_def w'(2))
    show "map_of (receipts (ded w)) (keyOf reqs t) = None" using assms(2,4) by (rule execInvD(5))
  qed (use that in \<open>simp_all add: w'(2)\<close>)
  ultimately show ?thesis by (simp add: windowInv_def w'(1))
qed

lemma windowInv_step:
  assumes "windowInv w" and "execInv E reqs w" and "codecOk E" and "interceptorStep E reqs w w'"
  shows "windowInv w'"
  using assms(4)
proof cases
  case (enter t p d)
  then have "receipts d = receipts (ded w)" by (auto elim: enterLocked_cases)
  with enter assms(1) show ?thesis by (simp add: windowInv_def trimmedWorld_def)
next
  case (discard t r kind)
  with execInvD(2) [OF assms(2) discard(2)] have False by (auto simp: goodReceipt_def)
  then show ?thesis ..
next
  case (failed t ch fs now d j e)
  with assms(1) finishLocked_None [OF failed(3)] show ?thesis by (simp add: windowInv_def trimmedWorld_def)
next
  case (succeeded t ch m fs now d j)
  then show ?thesis by (intro windowInv_success [OF assms(1-3) succeeded(2,4)]) simp_all
qed (use assms(1) in \<open>simp_all add: windowInv_def trimmedWorld_def\<close>)

lemma initial_window:
  assumes "initialWorld E reqs w" and "trimmedWorld w"
  shows "windowInv w"
proof -
  let ?es = "outs w" and ?rs = "receipts (ded w)"
  have d: "distinct (map fst ?es)" and k: "fst ` set ?es = fst ` set ?rs" using assms(1) by (simp_all add: initialWorld_def)
  have "latestStamp ?es key = Some (RecordedAt r)" if r: "map_of ?rs key = Some r" for key r
  proof -
    obtain m where "(key, m, RecordedAt r) \<in> set ?es" using assms(1) r unfolding initialWorld_def by blast
    then have "(key, RecordedAt r) \<in> set (map (\<lambda>(k, m, at). (k, at)) ?es)" by force
    moreover have "map fst (map (\<lambda>(k, m, at). (k, at)) ?es) = map fst ?es" by (simp add: case_prod_unfold o_def)
    ultimately show ?thesis unfolding latestStamp_def using d by (metis map_of_is_SomeI)
  qed
  moreover have "map_of ?rs key \<noteq> None" if "key \<in> fst ` set ?es" for key using that unfolding map_of_None_keys k .
  ultimately have "windowed ?rs ?es" unfolding windowed_def using spaced_distinct [OF d] by blast
  then show ?thesis using assms(2) by (simp add: windowInv_def)
qed

interpretation dedupWindow: invariant_system
  "\<lambda>w. codecOk E \<and> methodsOk reqs \<and> initialWorld E reqs w \<and> trimmedWorld w" "interceptorStep E reqs"
  "\<lambda>w. codecOk E \<and> methodsOk reqs \<and> chanInv reqs w \<and> execInv E reqs w \<and> windowInv w"
proof unfold_locales
  fix w :: "'a world"
  assume "codecOk E \<and> methodsOk reqs \<and> initialWorld E reqs w \<and> trimmedWorld w"
  then show "codecOk E \<and> methodsOk reqs \<and> chanInv reqs w \<and> execInv E reqs w \<and> windowInv w"
    using initial_inv [of E reqs w] initial_window [of E reqs w] by simp
next
  fix w w' :: "'a world"
  assume "codecOk E \<and> methodsOk reqs \<and> chanInv reqs w \<and> execInv E reqs w \<and> windowInv w" and "interceptorStep E reqs w w'"
  then show "codecOk E \<and> methodsOk reqs \<and> chanInv reqs w' \<and> execInv E reqs w' \<and> windowInv w'"
    using chanInv_step [of reqs w E w'] execInv_step [of E reqs w w'] windowInv_step [of w E reqs w'] by simp
qed

section \<open>The journal across a restart\<close>

text \<open>The laws of \<open>encoding/json\<close> on a journal entry: one line, undone by decoding.\<close>

definition journalLaws :: "journalCodec \<Rightarrow> bool" where
  "journalLaws C \<longleftrightarrow> (\<forall>k r. unmarshalEntry C (marshalEntry C k r) = Some (k, r)
     \<and> CHR 0x0A \<notin> set (marshalEntry C k r) \<and> CHR 0x0D \<notin> set (marshalEntry C k r) \<and> marshalEntry C k r \<noteq> [])"

definition journalText :: "journalCodec \<Rightarrow> (string \<times> operationReceipt) list \<Rightarrow> string" where
  "journalText C es = concat (map (\<lambda>(k, r). marshalEntry C k r @ [CHR 0x0A]) es)"

text \<open>What a sequence of successful operations does to the receipts and the journal.\<close>

definition recordReceipt :: "journalCodec \<Rightarrow> journalFS \<Rightarrow> string \<times> operationReceipt \<Rightarrow> operationDeduper \<times> journal
    \<Rightarrow> operationDeduper \<times> journal" where
  "recordReceipt C fs e st = (case (e, st) of ((k, r), (d, j)) \<Rightarrow>
     appendLocked C fs k r (trimLocked (d\<lparr>receipts := AList.update k r (receipts d)\<rparr>)) j)"

lemma load_lines:
  assumes "journalLaws C" and "\<forall>(k, r) \<in> set es. k \<noteq> [] \<and> length (marshalEntry C k r) < maxScanTokenSize"
  shows "fold (loadEntry C) (scanLines (journalText C es @ rest)) rs
    = fold (loadEntry C) (scanLines rest) (fold (\<lambda>(k, r). AList.update k r) es rs)"
  using assms(2)
proof (induction es arbitrary: rs)
  case Nil
  then show ?case by (simp add: journalText_def)
next
  case (Cons e es)
  obtain k r where e: "e = (k, r)" by (cases e)
  have law: "unmarshalEntry C (marshalEntry C k r) = Some (k, r)" "CHR 0x0A \<notin> set (marshalEntry C k r)"
    "dropCR (marshalEntry C k r) = marshalEntry C k r"
    using assms(1) by (simp_all add: journalLaws_def dropCR_id)
  have "journalText C (e # es) @ rest = marshalEntry C k r @ CHR 0x0A # (journalText C es @ rest)"
    by (simp add: journalText_def e)
  then have "scanLines (journalText C (e # es) @ rest) = marshalEntry C k r # scanLines (journalText C es @ rest)"
    using Cons.prems law by (simp add: scanLines_line e)
  then show ?case using Cons law by (simp add: loadEntry_def e)
qed

lemma length_update_le: "length (AList.update k v m) \<le> Suc (length m)"
  by (induction m) auto

lemma length_fold_update: "length (fold (\<lambda>(k, r). AList.update k r) es m) \<le> length es + length m"
proof (induction es arbitrary: m)
  case (Cons e es)
  obtain k r where e: "e = (k, r)" by (cases e)
  show ?case using Cons [of "AList.update k r m"] length_update_le [of k r m] by (simp add: e)
qed simp

abbreviation quietFS :: journalFS where
  "quietFS \<equiv> \<lparr>fsMkdirFails = False, fsAppend = None, fsCompactFails = False\<rparr>"

abbreviation emptyDeduper :: operationDeduper where
  "emptyDeduper \<equiv> \<lparr>receipts = [], inflight = [], journalBytes = 0\<rparr>"

lemma record_run:
  assumes "length es \<le> maxOperationReceipts" and "int (length (journalText C es)) < maxOperationJournalSize"
  shows "fold (recordReceipt C quietFS) es (emptyDeduper, None) =
    (emptyDeduper\<lparr>receipts := fold (\<lambda>(k, r). AList.update k r) es [], journalBytes := int (length (journalText C es))\<rparr>,
     if es = [] then None else Some (journalText C es))"
  using assms
proof (induction es rule: rev_induct)
  case Nil
  then show ?case by (simp add: journalText_def)
next
  case (snoc e es)
  obtain k r where e: "e = (k, r)" by (cases e)
  have t: "journalText C (es @ [e]) = journalText C es @ marshalEntry C k r @ [CHR 0x0A]"
    by (simp add: journalText_def e)
  let ?rs = "fold (\<lambda>(k, r). AList.update k r) es []"
  have "length (AList.update k r ?rs) \<le> maxOperationReceipts"
    using length_update_le [of k r ?rs] length_fold_update [of es "[]"] snoc.prems(1) by simp
  then have trim: "trimLocked (d\<lparr>receipts := AList.update k r ?rs\<rparr>) = d\<lparr>receipts := AList.update k r ?rs\<rparr>" for d
    by (simp add: trimLocked_def)
  have j: "(case if es = [] then None else Some (journalText C es) of None \<Rightarrow> [] | Some t \<Rightarrow> t) = journalText C es"
    by (simp add: journalText_def)
  have ih: "fold (recordReceipt C quietFS) es (emptyDeduper, None) =
    (emptyDeduper\<lparr>receipts := ?rs, journalBytes := int (length (journalText C es))\<rparr>,
     if es = [] then None else Some (journalText C es))"
    using snoc by (simp add: t)
  have size: "int (length (journalText C es)) + int (length (marshalEntry C k r @ [CHR 0x0A])) < maxOperationJournalSize"
    using snoc.prems(2) by (simp add: t)
  have "fold (recordReceipt C quietFS) (es @ [e]) (emptyDeduper, None) = recordReceipt C quietFS (k, r)
    (emptyDeduper\<lparr>receipts := ?rs, journalBytes := int (length (journalText C es))\<rparr>,
     if es = [] then None else Some (journalText C es))"
    unfolding fold_append o_def ih by (simp add: e)
  also have "\<dots> = (emptyDeduper\<lparr>receipts := AList.update k r ?rs,
      journalBytes := int (length (journalText C es)) + int (length (marshalEntry C k r @ [CHR 0x0A]))\<rparr>,
      Some (journalText C es @ marshalEntry C k r @ [CHR 0x0A]))"
    using size trim [of "emptyDeduper\<lparr>receipts := ?rs, journalBytes := int (length (journalText C es))\<rparr>"] j
    by (simp add: recordReceipt_def appendLocked_def Let_def)
  finally show ?case by (simp add: t [unfolded e] e)
qed

section \<open>Properties\<close>

text \<open>
  (C29) One handler at a time per operation: in every reachable state of the interceptor, with any
  number of concurrent requests, two requests that are both inside the handler for the same method
  and operation identifier are the same request.
\<close>

theorem dedup_mutual_exclusion:
  assumes "codecOk E" and "methodsOk reqs" and "initialWorld E reqs w0"
    and "(interceptorStep E reqs)\<^sup>*\<^sup>* w0 w"
    and "threads w t = Running ch" and "threads w t' = Running ch'"
    and "operationKey (reqs t) = operationKey (reqs t')"
  shows "t = t'"
  using dedupSystem.reachable_inv [of E reqs w0 w] assms running_unique by blast

text \<open>
  (C24) At most one successful execution in the window of the receipts: when the clock advances from each success to the next, over all
  interleavings of concurrent requests, an operation is executed successfully again only after at least 2048 other successful
  executions. So, as long as there were at most 2048 in all, no operation was executed twice, and all requests for an operation
  that returned a response returned the one of its execution.
\<close>

theorem dedup_at_most_once:
  assumes "codecOk E" and "methodsOk reqs" and "initialWorld E reqs w0" and "trimmedWorld w0"
    and "(interceptorStep E reqs)\<^sup>*\<^sup>* w0 w" and "sorted_wrt (>) (map stamp (outs w))"
  shows "(\<forall>xs m at ys m' at' zs. outs w = xs @ (key, m, at) # ys @ (key, m', at') # zs \<longrightarrow> 2048 \<le> length ys)
    \<and> (length (outs w) \<le> 2048 \<longrightarrow> length (filter (\<lambda>e. fst e = key) (outs w)) \<le> 1
       \<and> (\<forall>t t' m m'. deduplicated (reqs t) \<and> deduplicated (reqs t') \<and> operationKey (reqs t) = key
            \<and> operationKey (reqs t') = key \<and> threads w t = Returned (Inr m) \<and> threads w t' = Returned (Inr m')
            \<longrightarrow> m = m'))"
proof -
  have inv: "execInv E reqs w" "windowInv w"
    using dedupWindow.reachable_inv [of E reqs w0 w] assms(1-5) by simp_all
  then have "spaced (outs w)" using assms(6) by (simp add: windowInv_def windowed_def)
  then have gap: "2048 \<le> length ys" if "outs w = xs @ e # ys @ e' # zs" "fst e = fst e'" for xs e ys e' zs
    using that spaced_gap [of xs e ys e' zs] by (simp add: maxOperationReceipts_def)
  have once: "length (filter (\<lambda>e. fst e = key) (outs w)) \<le> 1" if "length (outs w) \<le> 2048"
    by (rule once_in_window [of "outs w" 2048]) (use gap that in auto)
  have "m = m'" if "length (outs w) \<le> 2048" "executed w key m" "executed w key m'" for m m'
    using once [OF that(1)] that(2,3) unfolding executed_def by (rule once_same)
  moreover have "executed w key m" if "deduplicated (reqs t)" "operationKey (reqs t) = key" "threads w t = Returned (Inr m)" for t m
    using execInvD(3) [OF inv(1) that(1,3)] that(2) by simp
  ultimately show ?thesis using gap once by (metis fst_conv)
qed

text \<open>
  (C33) No request waits for a handler that is gone: the channel of a waiting request is already
  closed, or a handler is running that closes it when it ends, whatever its result.
\<close>

theorem dedup_no_lost_wakeup:
  assumes "codecOk E" and "methodsOk reqs" and "initialWorld E reqs w0"
    and "(interceptorStep E reqs)\<^sup>*\<^sup>* w0 w" and "threads w t = Waiting ch"
  shows "ch \<in> closed w \<or> (\<exists>t' w'. threads w t' = Running ch \<and> interceptorStep E reqs w w' \<and> ch \<in> closed w')"
proof -
  have "chanInv reqs w" using dedupSystem.reachable_inv [of E reqs w0 w] assms by blast
  from chanInvD(4) [OF this assms(5)] show ?thesis
  proof (elim disjE exE)
    fix t' assume t': "threads w t' = Running ch"
    have "finishLocked (codec E) undefined (reqs t') None 0 (ded w) (jrn w)
        = ((ded w)\<lparr>inflight := AList.delete (keyOf reqs t') (inflight (ded w))\<rparr>, jrn w)"
      by (simp add: finishLocked_def Let_def)
    from interceptorStep.failed [where handlerErr = "[]" and E = E and reqs = reqs, OF t' this] t'
    show ?thesis by fastforce
  qed simp
qed

text \<open>
  Trimming keeps the newest 2048 receipts: their number is the smaller of what there was and
  2048, what is kept is unchanged, and no dropped receipt is newer than a kept one.
\<close>

theorem trim_keeps_newest:
  assumes "gomap_wf (receipts d)"
  shows "length (receipts (trimLocked d)) = min (length (receipts d)) 2048
    \<and> (\<forall>k r. map_of (receipts (trimLocked d)) k = Some r \<longrightarrow> map_of (receipts d) k = Some r)
    \<and> (\<forall>k r k' r'. map_of (receipts (trimLocked d)) k = Some r \<longrightarrow> map_of (receipts d) k' = Some r'
         \<longrightarrow> map_of (receipts (trimLocked d)) k' = None \<longrightarrow> RecordedAt r' \<le> RecordedAt r)"
proof (intro conjI allI impI)
  show "length (receipts (trimLocked d)) = min (length (receipts d)) 2048"
    using trim_length [OF assms] by (simp add: maxOperationReceipts_def)
next
  fix k r assume "map_of (receipts (trimLocked d)) k = Some r"
  then show "map_of (receipts d) k = Some r" by (rule trimLocked_receipts)
next
  fix k r k' r'
  assume "map_of (receipts (trimLocked d)) k = Some r" "map_of (receipts d) k' = Some r'" "map_of (receipts (trimLocked d)) k' = None"
  then show "RecordedAt r' \<le> RecordedAt r" by (rule trim_oldest)
qed

text \<open>
  A restart recovers the receipts: when up to 2048 operations were recorded, each with a
  journal line below 64 KiB, and the journal did not reach the size of a compaction, the deduper
  built from the journal holds the receipts the old one held.
\<close>

theorem journal_recovers_receipts:
  assumes "journalLaws C" and "length es \<le> 2048" and "int (length (journalText C es)) < 8388608"
    and "list_all (\<lambda>(k, r). k \<noteq> [] \<and> length (marshalEntry C k r) < 65536) es"
    and "unmarshalLegacy C (journalText C es) = None"
    and "fold (recordReceipt C quietFS) es (emptyDeduper, None) = (d, j)"
  shows "receipts (fst (newOperationDeduper C fs j)) = receipts d"
proof -
  let ?rs = "fold (\<lambda>(k, r). AList.update k r) es []"
  have run: "receipts d = ?rs" "j = (if es = [] then None else Some (journalText C es))"
    using record_run [of es C] assms(2,3,6) by (simp_all add: maxOperationReceipts_def maxOperationJournalSize_def)
  have short: "\<forall>(k, r) \<in> set es. k \<noteq> [] \<and> length (marshalEntry C k r) < maxScanTokenSize"
    using assms(4) by (simp add: list_all_iff maxScanTokenSize_def)
  have "fold (loadEntry C) (scanLines (journalText C es)) [] = ?rs"
    using load_lines [OF assms(1) short, of "[]"] by simp
  moreover have "length ?rs \<le> maxOperationReceipts"
    using length_fold_update [of es "[]"] assms(2) by (simp add: maxOperationReceipts_def)
  ultimately show ?thesis
    using assms(5) by (simp add: run newOperationDeduper_def load_def trimLocked_def Let_def)
qed

text \<open>
  The scanner's line limit: a journal line of 64 KiB or more ends the load, so that neither
  its receipt nor any receipt recorded after it is recovered.
\<close>

theorem load_stops_at_long_line:
  assumes "journalLaws C" and "list_all (\<lambda>(k, r). k \<noteq> [] \<and> length (marshalEntry C k r) < 65536) es"
    and "65536 \<le> length (marshalEntry C k r)"
    and "unmarshalLegacy C (journalText C (es @ (k, r) # later)) = None" and "unmarshalLegacy C (journalText C es) = None"
  shows "receipts (fst (newOperationDeduper C fs (Some (journalText C (es @ (k, r) # later)))))
    = receipts (fst (newOperationDeduper C fs (Some (journalText C es))))"
proof -
  have short: "\<forall>(k, r) \<in> set es. k \<noteq> [] \<and> length (marshalEntry C k r) < maxScanTokenSize"
    using assms(2) by (simp add: list_all_iff maxScanTokenSize_def)
  have split: "journalText C (es @ (k, r) # later)
      = journalText C es @ marshalEntry C k r @ CHR 0x0A # journalText C later"
    by (simp add: journalText_def)
  have "CHR 0x0A \<notin> set (marshalEntry C k r)" using assms(1) by (simp add: journalLaws_def)
  then have "scanLines (marshalEntry C k r @ CHR 0x0A # journalText C later) = []"
    using assms(3) by (simp add: scanLines_line maxScanTokenSize_def)
  then have "fold (loadEntry C) (scanLines (journalText C (es @ (k, r) # later))) []
      = fold (loadEntry C) (scanLines (journalText C es)) []"
    using load_lines [OF assms(1) short] load_lines [OF assms(1) short, of "[]"] by (simp add: split)
  then show ?thesis using assms(4,5) by (simp add: newOperationDeduper_def load_def Let_def trimLocked_def)
qed

section \<open>Witnesses\<close>

text \<open>
  A concrete one-line codec for journal entries (bytes as pairs of letters, the time in unary),
  which shows that the laws can hold, and a run of two requests for one operation.
\<close>

definition nibble :: "nat \<Rightarrow> char" where
  "nibble n = char_of (65 + n)"

definition hexLine :: "string \<Rightarrow> string" where
  "hexLine s = concat (map (\<lambda>c. [nibble (of_char c div 16), nibble (of_char c mod 16)]) s)"

fun unhexLine :: "string \<Rightarrow> string" where
  "unhexLine (a # b # s) = char_of ((of_char a - 65) * 16 + (of_char b - 65) :: nat) # unhexLine s"
| "unhexLine _ = []"

definition unaryLine :: "int \<Rightarrow> string" where
  "unaryLine i = (if i < 0 then CHR ''M'' else CHR ''P'') # replicate (nat \<bar>i\<bar>) CHR ''I''"

definition unUnaryLine :: "string \<Rightarrow> int" where
  "unUnaryLine s = (case s of [] \<Rightarrow> 0 | c # t \<Rightarrow> if c = CHR ''M'' then - int (length t) else int (length t))"

definition exCodec :: journalCodec where
  "exCodec = \<lparr>
     marshalEntry = (\<lambda>k r. hexLine k @ CHR '','' # hexLine (Method r) @ CHR '','' # hexLine (Response r)
        @ CHR '','' # unaryLine (RecordedAt r)),
     unmarshalEntry = (\<lambda>s. case cut s '','' of (k, s1, _) \<Rightarrow> case cut s1 '','' of (m, s2, _) \<Rightarrow>
        case cut s2 '','' of (resp, t, _) \<Rightarrow>
          Some (unhexLine k, \<lparr>Method = unhexLine m, Response = unhexLine resp, RecordedAt = unUnaryLine t\<rparr>)),
     unmarshalLegacy = (\<lambda>_. None)\<rparr>"

lemma nibble_val: "n < 16 \<Longrightarrow> (of_char (nibble n) :: nat) = 65 + n"
  by (simp add: nibble_def)

lemma nibble_plain: "n < 16 \<Longrightarrow> nibble n \<notin> {CHR '','', CHR 0x0A, CHR 0x0D}"
proof -
  assume n: "n < 16"
  have "(of_char (nibble n) :: nat) \<noteq> of_char (CHR '','') \<and> (of_char (nibble n) :: nat) \<noteq> of_char (CHR 0x0A)
      \<and> (of_char (nibble n) :: nat) \<noteq> of_char (CHR 0x0D)"
    unfolding nibble_val [OF n] by simp
  then show ?thesis by auto
qed

lemma high_nibble: "(of_char c :: nat) div 16 < 16"
  using of_char_less [of c] by (simp add: div_less_iff_less_mult)

lemma unhex_hex [simp]: "unhexLine (hexLine s) = s"
proof (induction s)
  case Nil
  show ?case by (simp add: hexLine_def)
next
  case (Cons c s)
  have "(of_char c :: nat) div 16 * 16 + of_char c mod 16 = of_char c" by simp
  with Cons high_nibble [of c] show ?case by (simp add: hexLine_def nibble_val)
qed

lemma hexLine_plain: "c \<in> {CHR '','', CHR 0x0A, CHR 0x0D} \<Longrightarrow> c \<notin> set (hexLine s)"
proof -
  assume c: "c \<in> {CHR '','', CHR 0x0A, CHR 0x0D}"
  have "nibble (of_char d div 16) \<noteq> c" "nibble (of_char d mod 16) \<noteq> c" for d
    using high_nibble [of d] nibble_plain [of "of_char d div 16"] nibble_plain [of "of_char d mod 16"] c by auto
  then show ?thesis by (auto simp: hexLine_def)
qed

lemma exCodec_laws: "journalLaws exCodec"
  unfolding journalLaws_def
proof (intro allI conjI)
  fix k :: string and r :: operationReceipt
  have "unUnaryLine (unaryLine i) = i" for i by (simp add: unUnaryLine_def unaryLine_def)
  then show "unmarshalEntry exCodec (marshalEntry exCodec k r) = Some (k, r)"
    by (simp add: exCodec_def cut_char_append hexLine_plain)
  show "CHR 0x0A \<notin> set (marshalEntry exCodec k r)" "CHR 0x0D \<notin> set (marshalEntry exCodec k r)"
    "marshalEntry exCodec k r \<noteq> []"
    by (auto simp: exCodec_def hexLine_plain unaryLine_def)
qed

definition exReceipt :: operationReceipt where
  "exReceipt = \<lparr>Method = ''/AddUser'', Response = ''ok'', RecordedAt = 5\<rparr>"

theorem journal_recovers_receipts_witness:
  "receipts (fst (newOperationDeduper exCodec quietFS
     (snd (fold (recordReceipt exCodec quietFS) [(''k'', exReceipt)] (emptyDeduper, None))))) = [(''k'', exReceipt)]"
proof -
  let ?es = "[(''k'', exReceipt)]"
  have len: "length (marshalEntry exCodec ''k'' exReceipt) < 100"
    by (simp add: exCodec_def exReceipt_def hexLine_def unaryLine_def)
  have "receipts (fst (newOperationDeduper exCodec quietFS
     (snd (fold (recordReceipt exCodec quietFS) ?es (emptyDeduper, None)))))
    = receipts (fst (fold (recordReceipt exCodec quietFS) ?es (emptyDeduper, None)))"
  proof (rule journal_recovers_receipts [OF exCodec_laws, where es = "[(''k'', exReceipt)]"])
    show "int (length (journalText exCodec ?es)) < 8388608" using len by (simp add: journalText_def)
    show "list_all (\<lambda>(k, r). k \<noteq> [] \<and> length (marshalEntry exCodec k r) < 65536) ?es" using len by simp
    show "unmarshalLegacy exCodec (journalText exCodec ?es) = None" by (simp add: exCodec_def)
  qed simp_all
  also have "\<dots> = [(''k'', exReceipt)]"
    by (simp add: recordReceipt_def trimLocked_def maxOperationReceipts_def)
  finally show ?thesis .
qed

theorem load_stops_at_long_line_witness:
  "receipts (fst (newOperationDeduper exCodec quietFS (Some (journalText exCodec
       ([(''k'', exReceipt)] @ (''big'', exReceipt\<lparr>RecordedAt := 70000\<rparr>) # [(''lost'', exReceipt)])))))
   = receipts (fst (newOperationDeduper exCodec quietFS (Some (journalText exCodec [(''k'', exReceipt)]))))"
proof (rule load_stops_at_long_line [OF exCodec_laws])
  show "list_all (\<lambda>(k, r). k \<noteq> [] \<and> length (marshalEntry exCodec k r) < 65536) [(''k'', exReceipt)]"
    by (simp add: exCodec_def exReceipt_def hexLine_def unaryLine_def)
  show "65536 \<le> length (marshalEntry exCodec ''big'' (exReceipt\<lparr>RecordedAt := 70000\<rparr>))"
    by (simp add: exCodec_def unaryLine_def)
qed (simp_all add: exCodec_def)

theorem trim_keeps_newest_witness:
  "length (receipts (trimLocked (emptyDeduper\<lparr>receipts := [(''k'', exReceipt)]\<rparr>))) = 1"
  using trim_keeps_newest [of "emptyDeduper\<lparr>receipts := [(''k'', exReceipt)]\<rparr>"] by simp

definition exEnv :: "string dedupEnv" where
  "exEnv = \<lparr>marshal = Some, unmarshal = (\<lambda>_ raw. Some raw), kindOf = (\<lambda>_. RuntimeActionResponse), codec = exCodec\<rparr>"

definition exReqs :: "nat \<Rightarrow> request" where
  "exReqs t = \<lparr>fullMethod = ''/AddUser'', operationId = Some ''7''\<rparr>"

definition exKey :: string where
  "exKey = ''/AddUser'' @ CHR 0x00 # ''7''"

text \<open>The states of the run: the first request runs and succeeds, the second one waits, then replays.\<close>

definition exWorld :: "(string, operationReceipt) gomap \<Rightarrow> (string, nat) gomap \<Rightarrow> int \<Rightarrow> journal \<Rightarrow> nat set \<Rightarrow> nat
    \<Rightarrow> string pc \<Rightarrow> string pc \<Rightarrow> (string \<times> string \<times> int) list \<Rightarrow> string world" where
  "exWorld rs fl jb j cl n p0 p1 os = \<lparr>ded = \<lparr>receipts = rs, inflight = fl, journalBytes = jb\<rparr>, jrn = j,
     closed = cl, nextChan = n, threads = (\<lambda>_. Loop)(0 := p0, 1 := p1), outs = os\<rparr>"

abbreviation exStart :: "string world" where
  "exStart \<equiv> exWorld [] [] 0 None {} 0 Loop Loop []"

abbreviation exBusy :: "string world" where
  "exBusy \<equiv> exWorld [] [(exKey, 0)] 0 None {} 2 (Running 0) (Waiting 0) []"

lemma exReqs_simps [simp]: "operationKey (exReqs t) = exKey" "deduplicated (exReqs t)"
  "mutationResponse (fullMethod (exReqs t)) = Some RuntimeActionResponse" "fullMethod (exReqs t) = ''/AddUser''"
proof -
  have t: "requestOperationID (exReqs t) = ''7''"
    by (simp add: requestOperationID_def exReqs_def) code_simp
  show f: "fullMethod (exReqs t) = ''/AddUser''" by (simp add: exReqs_def)
  show k: "mutationResponse (fullMethod (exReqs t)) = Some RuntimeActionResponse" unfolding f by code_simp
  show "operationKey (exReqs t) = exKey" by (simp add: operationKey_def exKey_def t f)
  show "deduplicated (exReqs t)" by (simp add: deduplicated_def t k)
qed

lemma exHyps: "codecOk exEnv" "methodsOk exReqs" "initialWorld exEnv exReqs exStart"
  by (simp_all add: codecOk_def exEnv_def methodsOk_def initialWorld_def exWorld_def)

lemma exReach_busy: "(interceptorStep exEnv exReqs)\<^sup>*\<^sup>* exStart exBusy"
proof -
  have "interceptorStep exEnv exReqs exStart (exWorld [] [(exKey, 0)] 0 None {} 1 (Running 0) Loop [])"
    using interceptorStep.enter [of exStart 0 exReqs "Running 0" "\<lparr>receipts = [], inflight = [(exKey, 0)], journalBytes = 0\<rparr>" exEnv]
    by (simp add: exWorld_def enterLocked_def fun_upd_twist)
  moreover have "interceptorStep exEnv exReqs (exWorld [] [(exKey, 0)] 0 None {} 1 (Running 0) Loop []) exBusy"
    using interceptorStep.enter [of "exWorld [] [(exKey, 0)] 0 None {} 1 (Running 0) Loop []" 1 exReqs "Waiting 0"
      "\<lparr>receipts = [], inflight = [(exKey, 0)], journalBytes = 0\<rparr>" exEnv]
    by (simp add: exWorld_def enterLocked_def numeral_2_eq_2)
  ultimately show ?thesis by (meson converse_rtranclp_into_rtranclp rtranclp.rtrancl_refl)
qed

theorem dedup_mutual_exclusion_witness:
  "threads exBusy 0 = Running 0 \<and> threads exBusy 1 \<noteq> Running 7"
  using dedup_mutual_exclusion [OF exHyps exReach_busy, of 0 0 1 7] by (auto simp: exWorld_def)

theorem dedup_no_lost_wakeup_witness:
  "\<exists>t' w'. threads exBusy t' = Running 0 \<and> interceptorStep exEnv exReqs exBusy w' \<and> 0 \<in> closed w'"
  using dedup_no_lost_wakeup [OF exHyps exReach_busy, of 1 0] by (simp add: exWorld_def)

abbreviation exStored :: "(string, operationReceipt) gomap" where
  "exStored \<equiv> [(exKey, \<lparr>Method = ''/AddUser'', Response = ''added'', RecordedAt = 1\<rparr>)]"

abbreviation exDone :: "string pc \<Rightarrow> nat \<Rightarrow> string world" where
  "exDone p n \<equiv> exWorld exStored [] 0 None {0} n (Returned (Inr ''added'')) p [(exKey, ''added'', 1)]"

lemma exReach_done: "(interceptorStep exEnv exReqs)\<^sup>*\<^sup>* exStart (exDone (Returned (Inr ''added'')) 3)"
proof -
  let ?fs = "\<lparr>fsMkdirFails = True, fsAppend = None, fsCompactFails = True\<rparr>"
  have k: "mutationResponse ''/AddUser'' = Some RuntimeActionResponse" using exReqs_simps(3,4) by metis
  have "interceptorStep exEnv exReqs exBusy (exDone (Waiting 0) 2)"
    using interceptorStep.succeeded [of exBusy 0 0 exReqs exEnv "''added''" ?fs 1 "\<lparr>receipts = exStored, inflight = [], journalBytes = 0\<rparr>" None]
    by (simp add: k exWorld_def exEnv_def finishLocked_def appendLocked_def trimLocked_def maxOperationReceipts_def fun_upd_twist)
  moreover have "interceptorStep exEnv exReqs (exDone (Waiting 0) 2) (exDone Loop 2)"
    using interceptorStep.woken [of "exDone (Waiting 0) 2" 1 0 exEnv exReqs] by (simp add: exWorld_def)
  moreover have "interceptorStep exEnv exReqs (exDone Loop 2) (exDone (Replaying (snd (hd exStored))) 3)"
    using interceptorStep.enter [of "exDone Loop 2" 1 exReqs "Replaying (snd (hd exStored))" "\<lparr>receipts = exStored, inflight = [], journalBytes = 0\<rparr>" exEnv]
    by (simp add: exWorld_def enterLocked_def)
  moreover have "interceptorStep exEnv exReqs (exDone (Replaying (snd (hd exStored))) 3) (exDone (Returned (Inr ''added'')) 3)"
    using interceptorStep.replay [of "exDone (Replaying (snd (hd exStored))) 3" 1 "snd (hd exStored)" exReqs RuntimeActionResponse exEnv "''added''"]
    by (simp add: k exWorld_def exEnv_def)
  ultimately show ?thesis using exReach_busy by (meson rtranclp.rtrancl_into_rtrancl)
qed

theorem dedup_at_most_once_witness:
  "length (filter (\<lambda>e. fst e = exKey) (outs (exDone (Returned (Inr ''added'')) 3))) = 1
    \<and> threads (exDone (Returned (Inr ''added'')) 3) 0 = threads (exDone (Returned (Inr ''added'')) 3) 1"
proof -
  let ?w = "exDone (Returned (Inr ''added'')) 3"
  have h: "trimmedWorld exStart" "sorted_wrt (>) (map stamp (outs ?w))" and l: "length (outs ?w) \<le> 2048" "exKey \<in> fst ` set (outs ?w)"
    by (simp_all add: trimmedWorld_def exWorld_def)
  note all = dedup_at_most_once [OF exHyps h(1) exReach_done h(2), THEN conjunct2, THEN mp, OF l(1)]
  have "filter (\<lambda>e. fst e = exKey) (outs ?w) \<noteq> []" using l(2) by (force simp: filter_empty_conv)
  moreover have "threads ?w 0 = Returned (Inr ''added'')" "threads ?w 1 = Returned (Inr ''added'')" by (simp_all add: exWorld_def)
  ultimately show ?thesis using all [of exKey, THEN conjunct1] by (simp add: le_Suc_eq)
qed

end
