(* ===== verification/Paths.thy ===== *)
theory Paths
  imports Prelude
begin

text \<open>
  The functions of \<open>path/filepath\<close> the program uses, for Unix: \<open>Clean\<close>, \<open>Base\<close>, \<open>Dir\<close>, \<open>Join\<close>
  and \<open>IsAbs\<close>, and the facts on their results by which file names taken from requests and
  archives are shown to stay inside a directory.
\<close>

abbreviation slash :: char where
  "slash \<equiv> CHR ''/''"

fun slashSplit :: "string \<Rightarrow> string list" where
  "slashSplit [] = [[]]"
| "slashSplit (c # s) =
     (if c = slash then [] # slashSplit s
      else case slashSplit s of [] \<Rightarrow> [[c]] | w # ws \<Rightarrow> (c # w) # ws)"

text \<open>One component; the components kept so far are in reverse order.\<close>

definition cleanStep :: "bool \<Rightarrow> string list \<Rightarrow> string \<Rightarrow> string list" where
  "cleanStep rooted out c =
     (if c = [] \<or> c = ''.'' then out
      else if c = ''..'' then
        (case out of [] \<Rightarrow> if rooted then [] else [''..'']
         | up # below \<Rightarrow> if up = ''..'' then ''..'' # out else below)
      else c # out)"

definition cleanComps :: "bool \<Rightarrow> string \<Rightarrow> string list" where
  "cleanComps rooted p = rev (foldl (cleanStep rooted) [] (slashSplit p))"

definition isAbs :: "string \<Rightarrow> bool" where
  "isAbs p \<longleftrightarrow> p \<noteq> [] \<and> hd p = slash"

definition clean :: "string \<Rightarrow> string" where
  "clean p =
     (if p = [] then ''.''
      else let body = joinWith ''/'' (cleanComps (isAbs p) p)
           in if isAbs p then slash # body else if body = [] then ''.'' else body)"

definition base :: "string \<Rightarrow> string" where
  "base p = (if p = [] then ''.''
     else let q = trimRightChars {slash} p in if q = [] then ''/'' else last (slashSplit q))"

definition dir :: "string \<Rightarrow> string" where
  "dir p = clean (rev (dropWhile (\<lambda>c. c \<noteq> slash) (rev p)))"

definition joinPath :: "string list \<Rightarrow> string" where
  "joinPath elems = (case dropWhile (\<lambda>e. e = []) elems of [] \<Rightarrow> [] | es \<Rightarrow> clean (joinWith ''/'' es))"

section \<open>Splitting\<close>

lemma slashSplit_not_Nil [simp]: "slashSplit s \<noteq> []"
  by (induction s) (auto split: list.split)

lemma slashSplit_plain: "w \<in> set (slashSplit s) \<Longrightarrow> slash \<notin> set w"
  by (induction s arbitrary: w) (auto split: list.splits if_splits)

lemma slashSplit_word: "slash \<notin> set w \<Longrightarrow> slashSplit w = [w]"
  by (induction w) auto

lemma slashSplit_append: "slash \<notin> set w \<Longrightarrow> slashSplit (w @ slash # s) = w # slashSplit s"
  by (induction w) auto

lemma slashSplit_join:
  "cs \<noteq> [] \<Longrightarrow> \<forall>c \<in> set cs. slash \<notin> set c \<Longrightarrow> slashSplit (joinWith ''/'' cs) = cs"
  by (induction "''/''" cs rule: joinWith.induct) (auto simp: slashSplit_word slashSplit_append)

section \<open>Components of a clean path\<close>

definition plainComp :: "string \<Rightarrow> bool" where
  "plainComp c \<longleftrightarrow> c \<noteq> [] \<and> c \<noteq> ''.'' \<and> slash \<notin> set c"

lemma cleanStep_plain:
  "list_all plainComp out \<Longrightarrow> slash \<notin> set c \<Longrightarrow> list_all plainComp (cleanStep rooted out c)"
  by (auto simp: cleanStep_def plainComp_def split: list.split)

lemma foldl_cleanStep_plain:
  "list_all plainComp out \<Longrightarrow> (\<And>c. c \<in> set cs \<Longrightarrow> slash \<notin> set c)
   \<Longrightarrow> list_all plainComp (foldl (cleanStep rooted) out cs)"
  by (induction cs arbitrary: out) (auto simp: cleanStep_plain)

lemma cleanComps_plain: "list_all plainComp (cleanComps rooted p)"
  using foldl_cleanStep_plain [of "[]" "slashSplit p" rooted] slashSplit_plain
  by (simp add: cleanComps_def list_all_rev)

text \<open>Parent references occur only at the front of a relative clean path.\<close>

definition upsFirst :: "string list \<Rightarrow> bool" where
  "upsFirst out \<longleftrightarrow> (\<exists>r n. out = r @ replicate n ''..'' \<and> ''..'' \<notin> set r)"

lemma upsFirst_step: "upsFirst out \<Longrightarrow> upsFirst (cleanStep False out c)"
proof -
  assume "upsFirst out"
  then obtain r n where out: "out = r @ replicate n ''..''" and r: "''..'' \<notin> set r"
    by (auto simp: upsFirst_def)
  consider "c = [] \<or> c = ''.''" | "c = ''..''" | "c \<noteq> []" "c \<noteq> ''.''" "c \<noteq> ''..''" by blast
  then show ?thesis
  proof cases
    case 1
    then show ?thesis using \<open>upsFirst out\<close> by (simp add: cleanStep_def)
  next
    case 2
    show ?thesis
    proof (cases r)
      case Nil
      then have "cleanStep False out c = replicate (Suc n) ''..''"
        using 2 out by (cases n) (simp_all add: cleanStep_def)
      then show ?thesis unfolding upsFirst_def by (intro exI [of _ "[]"] exI [of _ "Suc n"]) simp
    next
      case (Cons a r')
      then have "cleanStep False out c = r' @ replicate n ''..''" using 2 out r by (auto simp: cleanStep_def)
      then show ?thesis unfolding upsFirst_def using Cons r by (intro exI [of _ r'] exI [of _ n]) simp
    qed
  next
    case 3
    then have "cleanStep False out c = (c # r) @ replicate n ''..''" using out by (simp add: cleanStep_def)
    then show ?thesis unfolding upsFirst_def using 3 r by (intro exI [of _ "c # r"] exI [of _ n]) auto
  qed
qed

lemma upsFirst_comps: "upsFirst (rev (cleanComps False p))"
proof -
  have "upsFirst out \<Longrightarrow> upsFirst (foldl (cleanStep False) out cs)" for out cs
    by (induction cs arbitrary: out) (auto simp: upsFirst_step)
  moreover have "upsFirst []" unfolding upsFirst_def by (intro exI [of _ "[]"] exI [of _ 0]) simp
  ultimately show ?thesis by (simp add: cleanComps_def)
qed

lemma last_up:
  assumes "upsFirst (rev cs)" and "cs \<noteq> []" and "last cs = ''..''"
  shows "hd cs = ''..''"
proof -
  obtain r n where rn: "rev cs = r @ replicate n ''..''" and r: "''..'' \<notin> set r"
    using assms(1) by (auto simp: upsFirst_def)
  have "hd (rev cs) = ''..''" using assms(2,3) by (simp add: hd_rev)
  then have "r = []" using rn r by (cases r) auto
  with rn have "cs = replicate n ''..''" by (metis append_Nil rev_replicate rev_swap)
  with assms(2) show ?thesis by (cases n) auto
qed

section \<open>The base of a clean relative path\<close>

lemma joinWith_Cons: "joinWith sep (x # xs) = (if xs = [] then x else x @ sep @ joinWith sep xs)"
  by (cases xs) auto

lemma joinWith_last_char:
  "cs \<noteq> [] \<Longrightarrow> list_all plainComp cs \<Longrightarrow> joinWith ''/'' cs \<noteq> [] \<and> last (joinWith ''/'' cs) \<noteq> slash"
proof (induction cs)
  case (Cons c cs)
  then show ?case by (cases "cs = []") (auto simp: joinWith_Cons plainComp_def dest: last_in_set)
qed simp

lemma trimRight_id: "s \<noteq> [] \<Longrightarrow> last s \<noteq> slash \<Longrightarrow> trimRightChars {slash} s = s"
  by (cases "rev s") (auto simp: trimRightChars_def dropWhile_eq_Cons_conv hd_rev [symmetric])

lemma base_join:
  assumes "cs \<noteq> []" and "list_all plainComp cs"
  shows "base (joinWith ''/'' cs) = last cs"
proof -
  have j: "joinWith ''/'' cs \<noteq> []" "last (joinWith ''/'' cs) \<noteq> slash" using joinWith_last_char [OF assms] by simp_all
  have "slashSplit (joinWith ''/'' cs) = cs"
    using assms by (intro slashSplit_join) (auto simp: list_all_iff plainComp_def)
  with j show ?thesis by (simp add: base_def Let_def trimRight_id)
qed

lemma base_clean_relative:
  assumes "p \<noteq> []" and "\<not> isAbs p" and "clean p \<noteq> ''..''" and "\<not> hasPrefix (clean p) ''../''"
  shows "base (clean p) = ''.'' \<or> (plainComp (base (clean p)) \<and> base (clean p) \<noteq> ''..'')"
proof (cases "cleanComps False p")
  case Nil
  then have "clean p = ''.''" using assms(1,2) by (simp add: clean_def)
  then show ?thesis by (simp add: base_def trimRight_id)
next
  case (Cons c cs)
  have pl: "list_all plainComp (c # cs)" using cleanComps_plain [of False p] Cons by simp
  have cl: "clean p = joinWith ''/'' (c # cs)"
    using assms(1,2) Cons joinWith_last_char [OF _ pl] by (simp add: clean_def)
  then have b: "base (clean p) = last (c # cs)" using base_join [OF _ pl] by simp
  have "last (c # cs) \<noteq> ''..''"
  proof
    assume "last (c # cs) = ''..''"
    then have "c = ''..''" using last_up [of "c # cs"] upsFirst_comps [of p] Cons by simp
    with cl assms(3,4) show False by (auto simp: joinWith_Cons hasPrefix_def split: if_splits)
  qed
  moreover have "plainComp (last (c # cs))" using pl by (metis last_in_set list.distinct(1) list_all_iff)
  ultimately show ?thesis using b by simp
qed

lemma clean_abs: "isAbs p \<Longrightarrow> isAbs (clean p)"
  by (auto simp: clean_def isAbs_def Let_def)

lemma clean_relative: "p \<noteq> [] \<Longrightarrow> \<not> isAbs p \<Longrightarrow> \<not> isAbs (clean p)"
proof (cases "cleanComps False p")
  case Nil
  then show "p \<noteq> [] \<Longrightarrow> \<not> isAbs p \<Longrightarrow> \<not> isAbs (clean p)" by (simp add: clean_def isAbs_def)
next
  case (Cons c cs)
  moreover have "plainComp c" using cleanComps_plain [of False p] Cons by simp
  ultimately show "p \<noteq> [] \<Longrightarrow> \<not> isAbs p \<Longrightarrow> \<not> isAbs (clean p)"
    by (cases c) (auto simp: clean_def isAbs_def Let_def joinWith_Cons plainComp_def)
qed

end
