(* ===== verification/Settings.thy ===== *)
theory Settings
  imports Encoding Paths
begin

text \<open>
  The settings: \<open>internal/config/config.go\<close>. The process environment is a map, which files exist
  is a predicate, and \<open>windows\<close> is \<open>runtime.GOOS == "windows"\<close>.
\<close>

section \<open>Definitions\<close>

record settings =
  AppName :: string
  InstallMode :: string
  ServiceHost :: string
  ServicePort :: int
  XrayAPIHost :: string
  XrayAPIPort :: int
  RebeccaDataDir :: string
  XrayExecutablePath :: string
  XrayAssetsPath :: string
  XrayLogDir :: string
  NodeVersion :: string
  SSLCertFile :: string
  SSLKeyFile :: string
  SSLClientCertFile :: string
  Debug :: bool
  SettingsInbounds :: "string list"

type_synonym environment = "(string, string) gomap"

definition NodeVersionFallback :: string where
  "NodeVersionFallback = ''1.7.0''"

text \<open>\<open>os.Setenv\<close> refuses a key or a value with a NUL byte; the error is ignored.\<close>

definition setenv :: "string \<Rightarrow> string \<Rightarrow> environment \<Rightarrow> environment" where
  "setenv key v env =
     (if key = [] \<or> CHR 0x00 \<in> set key \<or> CHR ''='' \<in> set key \<or> CHR 0x00 \<in> set v then env
      else AList.update key v env)"

text \<open>The assignment a line of the file makes, if it makes one.\<close>

definition dotEnvEntry :: "string \<Rightarrow> (string \<times> string) option" where
  "dotEnvEntry text =
     (let line = trimSpace text in
      if line = [] \<or> hasPrefix line ''#'' then None
      else let line = (if hasPrefix line ''export '' then trimSpace (trimPrefix line ''export '') else line) in
        case cut line ''='' of (key, v, ok) \<Rightarrow>
          if \<not> ok then None
          else let key = trimSpace key; v = trimChars {CHR 0x22, CHR 0x27} (trimSpace v) in
            if key \<noteq> [] then Some (key, v) else None)"

definition dotEnvLine :: "string \<Rightarrow> environment \<Rightarrow> environment" where
  "dotEnvLine text env = (case dotEnvEntry text of
       None \<Rightarrow> env
     | Some (key, v) \<Rightarrow> (case map_of env key of Some _ \<Rightarrow> env | None \<Rightarrow> setenv key v env))"

text \<open>\<open>None\<close>: the file cannot be opened.\<close>

definition LoadDotEnv :: "string option \<Rightarrow> environment \<Rightarrow> environment" where
  "LoadDotEnv file env = (case file of None \<Rightarrow> env | Some content \<Rightarrow> fold dotEnvLine (scanLines content) env)"

definition ParseBool :: "string \<Rightarrow> string + bool" where
  "ParseBool v =
     (let normalized = toLower (trimSpace v) in
      if normalized \<in> {''1'', ''true'', ''yes'', ''y'', ''on'', ''debug''} then Inr True
      else if normalized \<in> {''0'', ''false'', ''no'', ''n'', ''off'', [], ''release'', ''prod'', ''production''}
        then Inr False
      else Inl (''invalid truth value: '' @ v))"

definition getString :: "environment \<Rightarrow> string \<Rightarrow> string \<Rightarrow> string" where
  "getString env key fallback = (case map_of env key of Some v \<Rightarrow> trimSpace v | None \<Rightarrow> fallback)"

definition getInstallMode :: "environment \<Rightarrow> string" where
  "getInstallMode env =
     (let mode = toLower (trimSpace (getString env ''REBECCA_NODE_INSTALL_MODE'' ''docker''))
      in if mode = [] then ''docker'' else mode)"

definition getInt :: "environment \<Rightarrow> string \<Rightarrow> int \<Rightarrow> int" where
  "getInt env key fallback = (case map_of env key of None \<Rightarrow> fallback
     | Some v \<Rightarrow> (case parseInt 64 (trimSpace v) of None \<Rightarrow> fallback | Some parsed \<Rightarrow> parsed))"

definition getBool :: "environment \<Rightarrow> string \<Rightarrow> bool \<Rightarrow> bool" where
  "getBool env key fallback = (case map_of env key of None \<Rightarrow> fallback
     | Some v \<Rightarrow> (case ParseBool v of Inl _ \<Rightarrow> fallback | Inr parsed \<Rightarrow> parsed))"

definition getCSVDefault :: "environment \<Rightarrow> string \<Rightarrow> string \<Rightarrow> string list" where
  "getCSVDefault env key fallback =
     (let v = getString env key fallback in
      if trimSpace v = [] then []
      else filter (\<lambda>item. item \<noteq> []) (map trimSpace (splitOn v '','')))"

definition getCSV :: "environment \<Rightarrow> string \<Rightarrow> string list" where
  "getCSV env key = getCSVDefault env key []"

definition executableName :: "bool \<Rightarrow> string \<Rightarrow> string" where
  "executableName windows name = (if windows then name @ ''.exe'' else name)"

definition resolveXrayExecutablePath :: "bool \<Rightarrow> (string \<Rightarrow> bool) \<Rightarrow> environment \<Rightarrow> string \<Rightarrow> string" where
  "resolveXrayExecutablePath windows fileExists env dataDir =
     (let persistentExecutable = joinPath [dataDir, ''xray-core'', executableName windows ''xray''] in
      if fileExists persistentExecutable then persistentExecutable
      else let configured = getString env ''XRAY_EXECUTABLE_PATH'' [] in
           if configured \<noteq> [] then configured else ''/usr/local/bin/xray'')"

definition resolveXrayAssetsPath :: "(string \<Rightarrow> bool) \<Rightarrow> environment \<Rightarrow> string \<Rightarrow> string" where
  "resolveXrayAssetsPath fileExists env dataDir =
     (case find (\<lambda>candidate. fileExists (joinPath [candidate, ''geoip.dat'']) \<or> fileExists (joinPath [candidate, ''geosite.dat'']))
        [joinPath [dataDir, ''assets''], joinPath [dataDir, ''xray-core'']] of
        Some candidate \<Rightarrow> candidate
      | None \<Rightarrow> let configured = getString env ''XRAY_ASSETS_PATH'' [] in
          if configured \<noteq> [] then configured else ''/usr/local/share/xray'')"

definition Load :: "bool \<Rightarrow> (string \<Rightarrow> bool) \<Rightarrow> string option \<Rightarrow> environment \<Rightarrow> settings" where
  "Load windows fileExists dotEnv env0 =
     (let env = LoadDotEnv dotEnv env0; dataDir = getString env ''REBECCA_DATA_DIR'' ''/var/lib/rebecca-node'' in
      \<lparr>AppName = getString env ''REBECCA_NODE_APP_NAME'' ''rebecca-node'',
       InstallMode = getInstallMode env,
       ServiceHost = getString env ''SERVICE_HOST'' ''0.0.0.0'',
       ServicePort = getInt env ''SERVICE_PORT'' 62050,
       XrayAPIHost = getString env ''XRAY_API_HOST'' ''0.0.0.0'',
       XrayAPIPort = getInt env ''XRAY_API_PORT'' 62051,
       RebeccaDataDir = dataDir,
       XrayExecutablePath = resolveXrayExecutablePath windows fileExists env dataDir,
       XrayAssetsPath = resolveXrayAssetsPath fileExists env dataDir,
       XrayLogDir = trimSpace (getString env ''XRAY_LOG_DIR'' []),
       NodeVersion = getString env ''NODE_VERSION'' NodeVersionFallback,
       SSLCertFile = getString env ''SSL_CERT_FILE'' ''/var/lib/rebecca-node/ssl_cert.pem'',
       SSLKeyFile = getString env ''SSL_KEY_FILE'' ''/var/lib/rebecca-node/ssl_key.pem'',
       SSLClientCertFile = getString env ''SSL_CLIENT_CERT_FILE'' [],
       Debug = getBool env ''DEBUG'' False,
       SettingsInbounds = getCSV env ''INBOUNDS''\<rparr>)"

section \<open>The environment wins over the file\<close>

lemma dotEnvLine_keeps: "map_of env k = Some v \<Longrightarrow> map_of (dotEnvLine line env) k = Some v"
  by (auto simp: dotEnvLine_def setenv_def update_conv' split: prod.split option.split)

lemma dotEnv_keeps: "map_of env k = Some v \<Longrightarrow> map_of (fold dotEnvLine ls env) k = Some v"
  by (induction ls arbitrary: env) (simp_all add: dotEnvLine_keeps)

lemma LoadDotEnv_keeps: "map_of env k = Some v \<Longrightarrow> map_of (LoadDotEnv file env) k = Some v"
  by (simp add: LoadDotEnv_def dotEnv_keeps split: option.split)

text \<open>
  The process environment always wins over the \<open>.env\<close> file: whatever the file holds, a
  variable that was set keeps its value, and the settings read from it are those of the
  environment.
\<close>

theorem dotenv_never_overrides:
  assumes "map_of env k = Some v"
  shows "map_of (LoadDotEnv file env) k = Some v
    \<and> getString (LoadDotEnv file env) k fallback = trimSpace v"
  using assms by (simp add: LoadDotEnv_keeps getString_def)

theorem dotenv_never_overrides_witness:
  "getString (LoadDotEnv (Some ''SERVICE_HOST=10.0.0.1'') [(''SERVICE_HOST'', ''1.1.1.1'')]) ''SERVICE_HOST'' ''x''
     = trimSpace ''1.1.1.1''"
  using dotenv_never_overrides [of "[(''SERVICE_HOST'', ''1.1.1.1'')]" "''SERVICE_HOST''" "''1.1.1.1''"] by simp

end
