(* ===== verification/Json.thy ===== *)
theory Json
  imports Prelude
begin

text \<open>
  The values \<open>encoding/json\<close> decodes into \<open>any\<close>: a Go \<open>map[string]any\<close> is an association list,
  a number is the text it is encoded as. \<open>asObj\<close>, \<open>asArr\<close> and \<open>asStr\<close> are the type assertions
  \<open>v.(T)\<close> on the result of a map lookup, \<open>None\<close> where the assertion fails or the key is absent.
\<close>

datatype json = JNull | JBool bool | JNum string | JStr string | JArr "json list"
  | JObj "(string \<times> json) list"

type_synonym jobj = "(string, json) gomap"

fun asObj :: "json option \<Rightarrow> jobj option" where
  "asObj (Some (JObj m)) = Some m"
| "asObj _ = None"

fun asArr :: "json option \<Rightarrow> json list option" where
  "asArr (Some (JArr xs)) = Some xs"
| "asArr _ = None"

fun asStr :: "json option \<Rightarrow> string option" where
  "asStr (Some (JStr s)) = Some s"
| "asStr _ = None"

text \<open>\<open>x, _ := v.(T)\<close>: the zero value when the assertion fails.\<close>

definition objOr :: "json option \<Rightarrow> jobj" where
  "objOr v = (case asObj v of None \<Rightarrow> [] | Some m \<Rightarrow> m)"

definition arrOr :: "json option \<Rightarrow> json list" where
  "arrOr v = (case asArr v of None \<Rightarrow> [] | Some xs \<Rightarrow> xs)"

definition strOr :: "json option \<Rightarrow> string" where
  "strOr v = (case asStr v of None \<Rightarrow> [] | Some s \<Rightarrow> s)"

lemma json_or_simps [simp]:
  "objOr None = []" "objOr (Some (JObj m)) = m" "arrOr None = []" "arrOr (Some (JArr xs)) = xs"
  "strOr None = []" "strOr (Some (JStr s)) = s"
  by (simp_all add: objOr_def arrOr_def strOr_def)

lemma asObj_SomeD: "asObj v = Some m \<Longrightarrow> v = Some (JObj m)"
  by (induction v rule: asObj.induct) auto

lemma asStr_SomeD: "asStr v = Some s \<Longrightarrow> v = Some (JStr s)"
  by (induction v rule: asStr.induct) auto

lemma asArr_SomeD: "asArr v = Some s \<Longrightarrow> v = Some (JArr s)"
  by (induction v rule: asArr.induct) auto

lemma map_of_update [simp]: "map_of (AList.update k v m) k' = (if k' = k then Some v else map_of m k')"
  by (simp add: update_conv')

lemma map_of_delete [simp]: "map_of (AList.delete k m) k' = (if k' = k then None else map_of m k')"
  by (simp add: delete_conv')

lemma update_same: "map_of m k = Some v \<Longrightarrow> AList.update k v m = m"
  by (induction m) (auto split: if_splits)

lemma update_update [simp]: "AList.update k v (AList.update k w m) = AList.update k v m"
  by (induction m) auto

lemma update_commute_present:
  "k \<noteq> k' \<Longrightarrow> map_of m k \<noteq> None \<Longrightarrow> AList.update k v (AList.update k' w m) = AList.update k' w (AList.update k v m)"
  by (induction m) (auto split: if_splits)

end
