(* ===== verification/Xray_Config.thy ===== *)
theory Xray_Config
  imports Settings Json
begin

text \<open>
  The Xray configuration document: \<open>internal/xray/config.go\<close> and \<open>forceWireGuardUserspace\<close> of
  \<open>core.go\<close>. The document is the JSON object the master sent; \<open>applyAPI\<close> adds to it what the node
  needs to control Xray. \<open>unmarshal\<close> and \<open>marshal\<close> are \<open>json.Unmarshal\<close> and \<open>json.Marshal\<close> on
  \<open>any\<close>.
\<close>

section \<open>Definitions\<close>

record config =
  cfgData :: jobj
  cfgSettings :: settings
  cfgPeerIP :: string

text \<open>A call returns a value, returns an error or panics.\<close>

datatype 'a goResult = Ok 'a | Err string | Panic

definition apiTagged :: "json option \<Rightarrow> bool" where
  "apiTagged v \<longleftrightarrow> v = Some (JStr ''API_INBOUND'')"

definition keepInbound :: "string list \<Rightarrow> json \<Rightarrow> bool" where
  "keepInbound allowed item = (case item of
       JObj inbound \<Rightarrow> \<not> apiTagged (map_of inbound ''tag'')
         \<and> (allowed = [] \<or> strOr (map_of inbound ''tag'') \<in> set allowed)
     | _ \<Rightarrow> True)"

definition filterInbounds :: "string list \<Rightarrow> jobj \<Rightarrow> jobj" where
  "filterInbounds allowed m =
     AList.update ''inbounds'' (JArr (filter (keepInbound allowed) (arrOr (map_of m ''inbounds'')))) m"

definition routesTo :: "string \<Rightarrow> json \<Rightarrow> bool" where
  "routesTo tag item = (case item of JObj rule \<Rightarrow> map_of rule ''outboundTag'' = Some (JStr tag) | _ \<Rightarrow> False)"

definition filterAPIRoutes :: "jobj \<Rightarrow> jobj" where
  "filterAPIRoutes m =
     (let apiTag = strOr (map_of (objOr (map_of m ''api'')) ''tag'') in
      if apiTag = [] then m
      else case asObj (map_of m ''routing'') of None \<Rightarrow> m
        | Some routing \<Rightarrow>
            let filtered = filter (\<lambda>item. \<not> routesTo apiTag item) (arrOr (map_of routing ''rules''))
            in AList.update ''routing'' (JObj (AList.update ''rules'' (JArr filtered) routing)) m)"

definition setDefault :: "string \<Rightarrow> json \<Rightarrow> jobj \<Rightarrow> jobj" where
  "setDefault k v m = (case map_of m k of Some _ \<Rightarrow> m | None \<Rightarrow> AList.update k v m)"

text \<open>\<open>ensureConfigMap\<close> gives the child and, as the maps are references, the caller's changes go
  to the parent: \<open>inConfigMap\<close> is both.\<close>

definition inConfigMap :: "string \<Rightarrow> (jobj \<Rightarrow> jobj) \<Rightarrow> jobj \<Rightarrow> jobj" where
  "inConfigMap key change parent = AList.update key (JObj (change (objOr (map_of parent key)))) parent"

definition statsLevel :: "jobj \<Rightarrow> jobj" where
  "statsLevel level0 = AList.update ''statsUserOnline'' (JBool True)
     (AList.update ''statsUserDownlink'' (JBool True) (AList.update ''statsUserUplink'' (JBool True) level0))"

definition statsSystem :: "jobj \<Rightarrow> jobj" where
  "statsSystem system = AList.update ''statsOutboundUplink'' (JBool True)
     (AList.update ''statsOutboundDownlink'' (JBool True)
       (setDefault ''statsInboundDownlink'' (JBool True) (setDefault ''statsInboundUplink'' (JBool True) system)))"

definition statsPolicy :: "jobj \<Rightarrow> jobj" where
  "statsPolicy policy =
     inConfigMap ''system'' statsSystem (inConfigMap ''levels'' (inConfigMap ''0'' statsLevel) policy)"

definition applyStatsPolicy :: "jobj \<Rightarrow> jobj" where
  "applyStatsPolicy m = inConfigMap ''policy'' statsPolicy m"

definition apiInbound :: "settings \<Rightarrow> json" where
  "apiInbound s = JObj [(''listen'', JStr (XrayAPIHost s)), (''port'', JNum (formatInt (XrayAPIPort s))),
     (''protocol'', JStr ''tunnel''),
     (''settings'', JObj [(''allowedNetwork'', JStr ''tcp''), (''rewriteAddress'', JStr ''127.0.0.1'')]),
     (''tag'', JStr ''API_INBOUND'')]"

definition apiRule :: "string \<Rightarrow> json" where
  "apiRule peerIP = JObj [(''inboundTag'', JArr [JStr ''API_INBOUND'']),
     (''source'', JArr [JStr ''127.0.0.1'', JStr peerIP]), (''outboundTag'', JStr ''API''), (''type'', JStr ''field'')]"

definition apiSection :: json where
  "apiSection = JObj [(''services'', JArr [JStr ''HandlerService'', JStr ''StatsService'', JStr ''LoggerService'',
     JStr ''RoutingService'']), (''tag'', JStr ''API'')]"

definition applyAPI :: "settings \<Rightarrow> string \<Rightarrow> jobj \<Rightarrow> jobj" where
  "applyAPI s peerIP m =
     (let m = filterAPIRoutes (filterInbounds (SettingsInbounds s) m);
          m = AList.update ''stats'' (JObj []) (AList.update ''api'' apiSection m);
          m = applyStatsPolicy m;
          m = AList.update ''inbounds'' (JArr (apiInbound s # arrOr (map_of m ''inbounds''))) m;
          routing = objOr (map_of m ''routing'')
      in AList.update ''routing''
           (JObj (AList.update ''rules'' (JArr (apiRule peerIP # arrOr (map_of routing ''rules''))) routing)) m)"

text \<open>Decoding \<open>null\<close> leaves a nil map, and the first assignment of \<open>applyAPI\<close> to it panics.\<close>

definition NewConfig :: "(string \<Rightarrow> string + json) \<Rightarrow> string \<Rightarrow> string \<Rightarrow> settings \<Rightarrow> config goResult" where
  "NewConfig unmarshal raw peerIP s = (case unmarshal raw of
       Inl err \<Rightarrow> Err err
     | Inr (JObj m) \<Rightarrow> Ok \<lparr>cfgData = applyAPI s peerIP m, cfgSettings = s, cfgPeerIP = peerIP\<rparr>
     | Inr JNull \<Rightarrow> Panic
     | Inr _ \<Rightarrow> Err ''json: cannot unmarshal into Go value of type map[string]interface {}'')"

definition InboundCount :: "config \<Rightarrow> nat" where
  "InboundCount c = length (filter (\<lambda>item. \<not> equalFold (strOr (map_of (objOr (Some item)) ''tag'')) ''API'')
     (arrOr (map_of (cfgData c) ''inbounds'')))"

definition AccessLogPath :: "config \<Rightarrow> string" where
  "AccessLogPath c = (case asObj (map_of (cfgData c) ''log'') of None \<Rightarrow> []
     | Some logConfig \<Rightarrow> strOr (map_of logConfig ''access''))"

definition resolveLogPath :: "json \<Rightarrow> string \<Rightarrow> string \<Rightarrow> string" where
  "resolveLogPath v filename baseDir = (case v of
       JNull \<Rightarrow> []
     | JStr text \<Rightarrow>
         let text = trimSpace text in
         if text = [] then []
         else if equalFold text ''none'' then ''none''
         else if \<not> isAbs text \<or> dir text = ''/'' then joinPath [baseDir, base text]
         else text
     | _ \<Rightarrow> joinPath [baseDir, filename])"

definition logBaseDir :: "settings \<Rightarrow> string" where
  "logBaseDir s =
     (let baseDir = (if trimSpace (XrayLogDir s) = [] then XrayAssetsPath s else XrayLogDir s)
      in if trimSpace baseDir = [] then ''/var/log'' else baseDir)"

definition normalizeLog :: "settings \<Rightarrow> jobj \<Rightarrow> jobj" where
  "normalizeLog s logConfig =
     (let level = strOr (map_of logConfig ''logLevel'');
          l = (if level = ''none'' \<or> level = ''error'' then AList.update ''logLevel'' (JStr ''warning'') logConfig else logConfig);
          l = setDefault ''error'' (JStr []) (setDefault ''access'' (JStr []) l);
          l = AList.update ''access'' (JStr (resolveLogPath (the (map_of l ''access'')) ''access.log'' (logBaseDir s))) l
      in AList.update ''error'' (JStr (resolveLogPath (the (map_of l ''error'')) ''error.log'' (logBaseDir s))) l)"

definition NormalizeLogPaths :: "config \<Rightarrow> config" where
  "NormalizeLogPaths c = c\<lparr>cfgData := AList.update ''log''
     (JObj (normalizeLog (cfgSettings c) (objOr (map_of (cfgData c) ''log'')))) (cfgData c)\<rparr>"

text \<open>\<open>sprint\<close> is \<open>fmt.Sprint\<close> on a decoded value (or nil).\<close>

definition forceUserspace :: "(json option \<Rightarrow> string) \<Rightarrow> json \<Rightarrow> json" where
  "forceUserspace sprint item = (case item of
       JObj outbound \<Rightarrow>
         (if \<not> equalFold (trimSpace (sprint (map_of outbound ''protocol''))) ''wireguard'' then item
          else case asObj (map_of outbound ''settings'') of None \<Rightarrow> item
            | Some st \<Rightarrow> JObj (AList.update ''settings'' (JObj (AList.update ''noKernelTun'' (JBool True) st)) outbound))
     | _ \<Rightarrow> item)"

definition forceWireGuardUserspace :: "(json option \<Rightarrow> string) \<Rightarrow> jobj \<Rightarrow> jobj" where
  "forceWireGuardUserspace sprint data = (case asArr (map_of data ''outbounds'') of None \<Rightarrow> data
     | Some outbounds \<Rightarrow> AList.update ''outbounds'' (JArr (map (forceUserspace sprint) outbounds)) data)"

section \<open>What \<open>applyAPI\<close> leaves\<close>

lemma inConfigMap_get [simp]:
  "map_of (inConfigMap key f m) k = (if k = key then Some (JObj (f (objOr (map_of m key)))) else map_of m k)"
  by (simp add: inConfigMap_def)

lemma applyStatsPolicy_get [simp]:
  "map_of (applyStatsPolicy m) k = (if k = ''policy'' then Some (JObj (statsPolicy (objOr (map_of m ''policy'')))) else map_of m k)"
  by (simp add: applyStatsPolicy_def)

lemma filterAPIRoutes_other: "k \<noteq> ''routing'' \<Longrightarrow> map_of (filterAPIRoutes m) k = map_of m k"
  by (simp add: filterAPIRoutes_def Let_def split: option.split)

definition keptRules :: "jobj \<Rightarrow> json list" where
  "keptRules m = arrOr (map_of (objOr (map_of (filterAPIRoutes m) ''routing'')) ''rules'')"

lemma filterInbounds_get [simp]:
  "map_of (filterInbounds allowed m) k = (if k = ''inbounds'' then
     Some (JArr (filter (keepInbound allowed) (arrOr (map_of m ''inbounds'')))) else map_of m k)"
  by (simp add: filterInbounds_def)

lemma applyAPI_get:
  "map_of (applyAPI s ip m) ''inbounds''
     = Some (JArr (apiInbound s # filter (keepInbound (SettingsInbounds s)) (arrOr (map_of m ''inbounds''))))"
  "map_of (applyAPI s ip m) ''api'' = Some apiSection"
  "map_of (applyAPI s ip m) ''stats'' = Some (JObj [])"
  "map_of (applyAPI s ip m) ''policy'' = Some (JObj (statsPolicy (objOr (map_of m ''policy''))))"
  "map_of (applyAPI s ip m) ''routing'' = Some (JObj (AList.update ''rules''
     (JArr (apiRule ip # keptRules (filterInbounds (SettingsInbounds s) m)))
     (objOr (map_of (filterAPIRoutes (filterInbounds (SettingsInbounds s) m)) ''routing''))))"
  "k \<notin> {''inbounds'', ''api'', ''stats'', ''policy'', ''routing''} \<Longrightarrow> map_of (applyAPI s ip m) k = map_of m k"
  by (simp_all add: applyAPI_def Let_def filterAPIRoutes_other keptRules_def)

section \<open>Applying it twice\<close>

lemma alist_ext:
  "map fst xs = map fst ys \<Longrightarrow> distinct (map fst xs) \<Longrightarrow> (\<And>k. map_of xs k = map_of ys k) \<Longrightarrow> xs = ys"
proof (induction xs arbitrary: ys)
  case (Cons x xs)
  obtain k v where x: "x = (k, v)" by (cases x)
  obtain w zs where ys: "ys = (k, w) # zs" using Cons.prems(1) x by (cases ys) auto
  have "v = w" using Cons.prems(3) [of k] by (simp add: x ys)
  moreover have "xs = zs"
  proof (rule Cons.IH)
    show "map fst xs = map fst zs" "distinct (map fst xs)" using Cons.prems(1,2) by (simp_all add: ys x)
    have "set (map fst xs) = set (map fst zs)" using Cons.prems(1) by (simp only: x ys list.map fst_conv list.inject)
    then have "map_of xs k = None" "map_of zs k = None"
      using Cons.prems(2) by (simp_all add: x map_of_eq_None_iff)
    then show "map_of xs j = map_of zs j" for j
      using Cons.prems(3) [of j] by (cases "j = k") (simp_all add: x ys)
  qed
  ultimately show ?case by (simp add: x ys)
qed simp

lemma keys_update: "map fst (AList.update k v m) = (if k \<in> fst ` set m then map fst m else map fst m @ [k])"
  by (induction m) (auto split: if_splits)

lemma keys_update_present: "map_of m k \<noteq> None \<Longrightarrow> map fst (AList.update k v m) = map fst m"
  by (simp add: keys_update map_of_eq_None_iff)

lemma gomap_wf_applyAPI: "gomap_wf m \<Longrightarrow> gomap_wf (applyAPI s ip m)"
  by (simp add: applyAPI_def Let_def applyStatsPolicy_def inConfigMap_def filterInbounds_def
      filterAPIRoutes_def split: option.split)

lemma setDefault_get [simp]:
  "map_of (setDefault k v m) k' = (if k' = k then Some (case map_of m k of None \<Rightarrow> v | Some w \<Rightarrow> w) else map_of m k')"
  by (simp add: setDefault_def split: option.split)

lemma setDefault_present: "map_of m k \<noteq> None \<Longrightarrow> setDefault k v m = m"
  by (auto simp: setDefault_def)

lemma statsLevel_idem: "statsLevel (statsLevel m) = statsLevel m"
  unfolding statsLevel_def by (simp add: update_same)

lemma statsSystem_idem: "statsSystem (statsSystem m) = statsSystem m"
proof -
  have "statsSystem x = x" if "map_of x ''statsInboundUplink'' \<noteq> None" "map_of x ''statsInboundDownlink'' \<noteq> None"
    "map_of x ''statsOutboundUplink'' = Some (JBool True)" "map_of x ''statsOutboundDownlink'' = Some (JBool True)" for x
    using that by (simp add: statsSystem_def setDefault_present update_same)
  then show ?thesis by (simp add: statsSystem_def)
qed

lemma inConfigMap_same: "map_of m k = Some (JObj c) \<Longrightarrow> f c = c \<Longrightarrow> inConfigMap k f m = m"
  by (simp add: inConfigMap_def update_same)

lemma statsPolicy_idem: "statsPolicy (statsPolicy m) = statsPolicy m"
proof -
  have lv: "inConfigMap ''0'' statsLevel (inConfigMap ''0'' statsLevel l) = inConfigMap ''0'' statsLevel l" for l
    by (rule inConfigMap_same, simp, rule statsLevel_idem)
  let ?p = "statsPolicy m"
  have "map_of ?p ''levels'' = Some (JObj (inConfigMap ''0'' statsLevel (objOr (map_of m ''levels''))))"
    "map_of ?p ''system'' = Some (JObj (statsSystem (objOr (map_of m ''system''))))"
    by (simp_all add: statsPolicy_def)
  then show ?thesis
    unfolding statsPolicy_def [of ?p] by (simp add: inConfigMap_same lv statsSystem_idem)
qed

lemma keys_filterAPIRoutes: "map fst (filterAPIRoutes m) = map fst m"
proof (cases "asObj (map_of m ''routing'')")
  case None
  then show ?thesis by (simp add: filterAPIRoutes_def Let_def)
next
  case (Some r)
  then have "map_of m ''routing'' \<noteq> None" by (auto dest: asObj_SomeD)
  with Some show ?thesis by (simp add: filterAPIRoutes_def Let_def keys_update_present)
qed

lemma keys_applyAPI:
  assumes "\<And>k. k \<in> {''inbounds'', ''api'', ''stats'', ''policy'', ''routing''} \<Longrightarrow> map_of m k \<noteq> None"
  shows "map fst (applyAPI s ip m) = map fst m"
proof -
  have k: "k \<in> fst ` set m'" if "k \<in> {''inbounds'', ''api'', ''stats'', ''policy'', ''routing''}" "map fst m' = map fst m" for k m'
    using assms [OF that(1)] arg_cong [OF that(2), of set] by (simp add: map_of_eq_None_iff)
  have up: "map fst (AList.update k v m') = map fst m"
    if "k \<in> {''inbounds'', ''api'', ''stats'', ''policy'', ''routing''}" "map fst m' = map fst m" for k v m'
    using k [OF that] that(2) by (simp add: keys_update)
  show ?thesis
    unfolding applyAPI_def Let_def applyStatsPolicy_def inConfigMap_def filterInbounds_def
    by (intro up keys_filterAPIRoutes [THEN trans]) simp_all
qed

lemma apiInbound_dropped [simp]: "\<not> keepInbound allowed (apiInbound s)"
  by (simp add: keepInbound_def apiInbound_def apiTagged_def)

lemma apiRule_routes [simp]: "routesTo ''API'' (apiRule ip)"
  by (simp add: routesTo_def apiRule_def)

lemma filter_routes:
  assumes "asObj (map_of m ''routing'') = Some r" and "map_of m ''api'' = Some apiSection"
  shows "map_of (filterAPIRoutes m) ''routing''
    = Some (JObj (AList.update ''rules'' (JArr (filter (\<lambda>i. \<not> routesTo ''API'' i) (arrOr (map_of r ''rules'')))) r))"
  using assms by (simp add: filterAPIRoutes_def Let_def apiSection_def)

section \<open>Properties\<close>

lemma one_of_five:
  obtains "k = a" | "k = e" | "k = d" | "k = b" | "k = c" | "k \<notin> {a, b, c, d, e}"
  by blast

text \<open>
  Preparing a configuration is idempotent: a document the node has prepared, written to the
  cache and read again is not changed by preparing it a second time. The hypothesis excludes
  routing rules that lead to the tag \<open>API\<close> while the document's own API tag is another one; such
  rules are removed by the second pass only.
\<close>

theorem applyAPI_idempotent:
  assumes "gomap_wf m" and "list_all (\<lambda>i. \<not> routesTo ''API'' i) (keptRules (filterInbounds (SettingsInbounds s) m))"
  shows "applyAPI s ip (applyAPI s ip m) = applyAPI s ip m"
proof (rule alist_ext)
  let ?d = "applyAPI s ip m"
  let ?kept = "keptRules (filterInbounds (SettingsInbounds s) m)"
  let ?r = "objOr (map_of (filterAPIRoutes (filterInbounds (SettingsInbounds s) m)) ''routing'')"
  let ?rules = "AList.update ''rules'' (JArr (apiRule ip # ?kept)) ?r"
  have pres: "map_of ?d k \<noteq> None" if "k \<in> {''inbounds'', ''api'', ''stats'', ''policy'', ''routing''}" for k
    using that by (auto simp: applyAPI_get)
  show "map fst (applyAPI s ip ?d) = map fst ?d" using pres by (rule keys_applyAPI)
  show "distinct (map fst (applyAPI s ip ?d))" using assms(1) by (simp add: gomap_wf_applyAPI)
  have kf: "filter (\<lambda>i. \<not> routesTo ''API'' i) ?kept = ?kept"
    using assms(2) by (simp add: filter_id_conv list_all_iff)
  have fr: "map_of (filterAPIRoutes (filterInbounds (SettingsInbounds s) ?d)) ''routing''
      = Some (JObj (AList.update ''rules'' (JArr ?kept) ?rules))"
    using filter_routes [of "filterInbounds (SettingsInbounds s) ?d" ?rules] kf by (simp add: applyAPI_get)
  show "map_of (applyAPI s ip ?d) k = map_of ?d k" for k
  proof -
    consider "k = ''inbounds''" | "k = ''routing''" | "k = ''policy''" | "k = ''api''" | "k = ''stats''"
      | "k \<notin> {''inbounds'', ''api'', ''stats'', ''policy'', ''routing''}" by (rule one_of_five)
    then show ?thesis
    proof cases
      case 2
      show ?thesis unfolding 2 by (subst applyAPI_get(5)) (simp add: keptRules_def fr, simp add: applyAPI_get(5) keptRules_def)
    next
      case 3
      then show ?thesis by (simp add: applyAPI_get(4) statsPolicy_idem)
    qed (simp_all add: applyAPI_get)
  qed
qed

text \<open>
  The control interface of Xray is not exposed by the document: when the API tag of the
  document is \<open>API\<close>, exactly one inbound of the prepared document carries the reserved tag, the
  node's own, and every routing rule that leads to the API is the node's rule, which admits only
  the loopback address and the master.
\<close>

theorem api_access_restricted:
  assumes "map_of (objOr (map_of m ''api'')) ''tag'' = Some (JStr ''API'')"
  shows "filter (\<lambda>i. apiTagged (map_of (objOr (Some i)) ''tag'')) (arrOr (map_of (applyAPI s ip m) ''inbounds'')) = [apiInbound s]
    \<and> (\<exists>r. map_of (applyAPI s ip m) ''routing'' = Some (JObj r)
         \<and> filter (routesTo ''API'') (arrOr (map_of r ''rules'')) = [apiRule ip])"
proof
  have "filter (\<lambda>i. apiTagged (map_of (objOr (Some i)) ''tag'')) (filter (keepInbound allowed) xs) = []" for allowed xs
    by (auto simp: filter_empty_conv keepInbound_def apiTagged_def objOr_def split: json.splits)
  then show "filter (\<lambda>i. apiTagged (map_of (objOr (Some i)) ''tag'')) (arrOr (map_of (applyAPI s ip m) ''inbounds'')) = [apiInbound s]"
    by (simp add: applyAPI_get) (simp add: apiInbound_def apiTagged_def)
  let ?m = "filterInbounds (SettingsInbounds s) m"
  have "filter (routesTo ''API'') (keptRules ?m) = []"
  proof (cases "asObj (map_of m ''routing'')")
    case None
    then show ?thesis
      using assms by (simp add: keptRules_def filterAPIRoutes_def Let_def objOr_def)
  next
    case (Some r)
    then show ?thesis
      using assms by (simp add: keptRules_def filterAPIRoutes_def Let_def)
  qed
  then show "\<exists>r. map_of (applyAPI s ip m) ''routing'' = Some (JObj r)
         \<and> filter (routesTo ''API'') (arrOr (map_of r ''rules'')) = [apiRule ip]"
    by (simp add: applyAPI_get)
qed

text \<open>
  A configuration of the text \<open>null\<close> decodes without an error, to a nil map, and preparing it
  panics; every other text gives a configuration or an error.
\<close>

theorem newConfig_panics_on_null:
  "NewConfig unmarshal raw ip s = Panic \<longleftrightarrow> unmarshal raw = Inr JNull"
  by (auto simp: NewConfig_def split: sum.splits json.splits)

definition exampleDoc :: jobj where
  "exampleDoc = [(''api'', JObj [(''tag'', JStr ''API'')]),
     (''inbounds'', JArr [JObj [(''tag'', JStr ''vless'')], JObj [(''tag'', JStr ''API_INBOUND'')]]),
     (''routing'', JObj [(''rules'', JArr [JObj [(''outboundTag'', JStr ''API'')], JObj [(''outboundTag'', JStr ''direct'')]])])]"

definition exampleSettings :: settings where
  "exampleSettings = Load False (\<lambda>_. False) None []"

theorem applyAPI_idempotent_witness:
  "applyAPI exampleSettings ''10.0.0.1'' (applyAPI exampleSettings ''10.0.0.1'' exampleDoc)
     = applyAPI exampleSettings ''10.0.0.1'' exampleDoc"
  by (rule applyAPI_idempotent) (simp_all add: exampleDoc_def keptRules_def filterAPIRoutes_def Let_def routesTo_def)

theorem api_access_restricted_witness:
  "\<exists>r. map_of (applyAPI exampleSettings ''10.0.0.1'' exampleDoc) ''routing'' = Some (JObj r)
     \<and> filter (routesTo ''API'') (arrOr (map_of r ''rules'')) = [apiRule ''10.0.0.1'']"
  using api_access_restricted [of exampleDoc exampleSettings "''10.0.0.1''"] by (simp add: exampleDoc_def)

end
