(* ===== verification/Log_Bus.thy ===== *)
theory Log_Bus
  imports Prelude
begin

text \<open>
  The log bus: \<open>internal/xray/logbus.go\<close>. A ring of the last lines and one buffered channel per
  subscriber; every method runs under the mutex and is one function on the state. A channel is the
  list of the lines sent to it and not yet received.
\<close>

section \<open>Definitions\<close>

record LogBus =
  ring :: "string list"
  maxLines :: nat
  subscribers :: "(nat, string list) gomap"
  nextCh :: nat

definition chanCap :: nat where
  "chanCap = 128"

definition NewLogBus :: "nat \<Rightarrow> LogBus" where
  "NewLogBus n = \<lparr>ring = [], maxLines = n, subscribers = [], nextCh = 0\<rparr>"

text \<open>A send with a \<open>default\<close> branch: a full channel drops the line.\<close>

definition trySend :: "string \<Rightarrow> string list \<Rightarrow> string list" where
  "trySend line ch = (if length ch < chanCap then ch @ [line] else ch)"

text \<open>\<open>None\<close>: the slice expression of a full ring without capacity panics.\<close>

definition Append :: "string \<Rightarrow> LogBus \<Rightarrow> LogBus option" where
  "Append line b =
     (let subs = map (\<lambda>(ch, buf). (ch, trySend line buf)) (subscribers b) in
      if length (ring b) = maxLines b then
        (if ring b = [] then None
         else Some (b\<lparr>ring := tl (ring b) @ [line], subscribers := subs\<rparr>))
      else Some (b\<lparr>ring := ring b @ [line], subscribers := subs\<rparr>))"

definition Snapshot :: "LogBus \<Rightarrow> string list" where
  "Snapshot b = ring b"

text \<open>
  Under the lock the lines of the ring are sent to a channel nobody reads yet, so a ring longer
  than the channel would block for ever (\<open>None\<close>).
\<close>

definition Subscribe :: "LogBus \<Rightarrow> (nat \<times> LogBus) option" where
  "Subscribe b =
     (if length (ring b) > chanCap then None
      else Some (nextCh b, b\<lparr>subscribers := AList.update (nextCh b) (ring b) (subscribers b),
                             nextCh := Suc (nextCh b)\<rparr>))"

definition cancel :: "nat \<Rightarrow> LogBus \<Rightarrow> LogBus" where
  "cancel ch b = b\<lparr>subscribers := AList.delete ch (subscribers b)\<rparr>"

text \<open>A receive by the subscriber.\<close>

definition receive :: "nat \<Rightarrow> LogBus \<Rightarrow> (string \<times> LogBus) option" where
  "receive ch b = (case map_of (subscribers b) ch of
       Some (line # buf) \<Rightarrow> Some (line, b\<lparr>subscribers := AList.update ch buf (subscribers b)\<rparr>)
     | _ \<Rightarrow> None)"

fun appendAll :: "string list \<Rightarrow> LogBus \<Rightarrow> LogBus option" where
  "appendAll [] b = Some b"
| "appendAll (line # lines) b = (case Append line b of None \<Rightarrow> None | Some b' \<Rightarrow> appendAll lines b')"

section \<open>The ring\<close>

definition lastN :: "nat \<Rightarrow> 'a list \<Rightarrow> 'a list" where
  "lastN n xs = drop (length xs - n) xs"

lemma lastN_snoc:
  "0 < n \<Longrightarrow> lastN n (xs @ [x]) = (if length (lastN n xs) = n then tl (lastN n xs) @ [x] else lastN n xs @ [x])"
  by (auto simp: lastN_def drop_Suc tl_drop Suc_diff_le split: if_splits)

lemma Append_ring:
  assumes "0 < maxLines b"
  obtains b' where "Append line b = Some b'" "maxLines b' = maxLines b"
    "ring b' = (if length (ring b) = maxLines b then tl (ring b) @ [line] else ring b @ [line])"
    "subscribers b' = map (\<lambda>(ch, buf). (ch, trySend line buf)) (subscribers b)"
proof
  let ?subs = "map (\<lambda>(ch, buf). (ch, trySend line buf)) (subscribers b)"
  let ?b = "b\<lparr>ring := if length (ring b) = maxLines b then tl (ring b) @ [line] else ring b @ [line], subscribers := ?subs\<rparr>"
  show "Append line b = Some ?b" using assms by (auto simp: Append_def Let_def)
qed simp_all

lemma appendAll_ring:
  assumes "0 < maxLines b" and "ring b = lastN (maxLines b) old"
  shows "\<exists>b'. appendAll lines b = Some b' \<and> maxLines b' = maxLines b
    \<and> ring b' = lastN (maxLines b) (old @ lines)"
  using assms
proof (induction lines arbitrary: b old)
  case Nil
  then show ?case by simp
next
  case (Cons line lines)
  obtain b1 where b1: "Append line b = Some b1" "maxLines b1 = maxLines b"
    "ring b1 = (if length (ring b) = maxLines b then tl (ring b) @ [line] else ring b @ [line])"
    using Append_ring [OF Cons.prems(1)] by metis
  have "ring b1 = lastN (maxLines b1) (old @ [line])"
    using b1 Cons.prems by (simp add: lastN_snoc)
  with Cons.IH [of b1 "old @ [line]"] b1 Cons.prems show ?case by auto
qed

lemma appendAll_subscriber:
  assumes "0 < maxLines b" and "map_of (subscribers b) ch = Some buf" and "length buf + length lines \<le> chanCap"
  shows "\<exists>b'. appendAll lines b = Some b' \<and> map_of (subscribers b') ch = Some (buf @ lines)"
  using assms
proof (induction lines arbitrary: b buf)
  case Nil
  then show ?case by simp
next
  case (Cons line lines)
  obtain b1 where b1: "Append line b = Some b1" "maxLines b1 = maxLines b"
    "subscribers b1 = map (\<lambda>(ch, buf). (ch, trySend line buf)) (subscribers b)"
    using Append_ring [OF Cons.prems(1)] by metis
  have "map_of (subscribers b1) ch = Some (buf @ [line])"
    using Cons.prems(2,3) by (simp add: b1 map_of_map trySend_def)
  with Cons.IH [of b1 "buf @ [line]"] b1 Cons.prems show ?case by auto
qed

section \<open>Properties\<close>

text \<open>
  The ring holds the last lines in order: whatever was appended to a bus of positive size, its
  snapshot is the last \<open>n\<close> of the lines, and appending never fails.
\<close>

theorem logbus_keeps_last:
  assumes "0 < n"
  shows "\<exists>b. appendAll lines (NewLogBus n) = Some b \<and> Snapshot b = drop (length lines - n) lines"
  using appendAll_ring [of "NewLogBus n" "[]" lines] assms by (auto simp: NewLogBus_def Snapshot_def lastN_def)

theorem logbus_keeps_last_witness:
  "\<exists>b. appendAll [''a'', ''b'', ''c''] (NewLogBus 2) = Some b \<and> Snapshot b = [''b'', ''c'']"
  using logbus_keeps_last [of 2 "[''a'', ''b'', ''c'']"] by simp

text \<open>
  A subscriber misses nothing it has room for: on a bus of at most 128 lines subscribing never
  blocks, and the channel then holds the lines of the ring followed by every later line, in order,
  as long as the two fit the channel.
\<close>

theorem logbus_subscriber_complete:
  assumes "0 < n" and "n \<le> 128" and "appendAll old (NewLogBus n) = Some b"
    and "length (Snapshot b) + length lines \<le> 128"
  shows "\<exists>ch b1 b2. Subscribe b = Some (ch, b1) \<and> appendAll lines b1 = Some b2
    \<and> map_of (subscribers b2) ch = Some (Snapshot b @ lines)"
proof -
  have b: "maxLines b = n" using appendAll_ring [of "NewLogBus n" "[]" old] assms(1,3) by (auto simp: NewLogBus_def lastN_def)
  let ?b1 = "b\<lparr>subscribers := AList.update (nextCh b) (ring b) (subscribers b), nextCh := Suc (nextCh b)\<rparr>"
  have sub: "Subscribe b = Some (nextCh b, ?b1)"
    using assms(4) by (simp add: Subscribe_def Snapshot_def chanCap_def)
  have "\<exists>b2. appendAll lines ?b1 = Some b2 \<and> map_of (subscribers b2) (nextCh b) = Some (ring b @ lines)"
    by (rule appendAll_subscriber) (use assms b in \<open>simp_all add: Snapshot_def chanCap_def update_conv'\<close>)
  with sub show ?thesis by (auto simp: Snapshot_def)
qed

theorem logbus_subscriber_complete_witness:
  "\<exists>ch b1 b2. Subscribe (NewLogBus 100) = Some (ch, b1) \<and> appendAll [''x''] b1 = Some b2
    \<and> map_of (subscribers b2) ch = Some (Snapshot (NewLogBus 100) @ [''x''])"
  by (rule logbus_subscriber_complete [of 100 "[]"]) (simp_all add: Snapshot_def NewLogBus_def)

end
