(* ===== verification/Xray_Core.thy ===== *)
theory Xray_Core
  imports Xray_Config Transition Log_Bus
begin

text \<open>
  The supervised Xray process: \<open>internal/xray/core.go\<close>, \<open>process_unix.go\<close>, \<open>process_wait.go\<close> and
  the command line test of \<open>stale_linux.go\<close>. \<open>Start\<close>, \<open>Stop\<close> and \<open>Restart\<close> hold \<open>lifecycleMu\<close>,
  so one of them is under way at a time (\<open>phase\<close>); the operating system and the goroutine that
  waits for the process act in between. What the system answers to a spawn, a write to the pipe or
  a signal is free, so that a property of all runs covers every failure.
\<close>

section \<open>State\<close>

record Core =
  executablePath :: string
  assetsPath :: string
  version :: string
  cmd :: "nat option"
  running :: bool
  startedAt :: int

text \<open>
  Where the holder of \<open>lifecycleMu\<close> is: before the spawn of \<open>start\<close>, between the spawn and the
  end of the write to the pipe, or waiting in \<open>stop\<close> with the configuration \<open>Restart\<close> will start.
\<close>

datatype phase = Free | Starting config | Spawned nat | Stopping nat "config option"

text \<open>\<open>alive\<close>: managed processes that have not exited; \<open>watched\<close>: those with a goroutine in
  \<open>cmd.Wait\<close>; \<open>exited\<close>: processes whose channel \<open>exited\<close> is closed.\<close>

record host =
  core :: Core
  phase :: phase
  alive :: "nat set"
  watched :: "nat set"
  exited :: "nat set"
  nextPid :: nat

section \<open>Operations\<close>

definition setRunning :: "nat \<Rightarrow> int \<Rightarrow> Core \<Rightarrow> Core" where
  "setRunning pid now c = c\<lparr>cmd := Some pid, running := True, startedAt := now\<rparr>"

text \<open>What the waiting goroutine does under the mutex.\<close>

definition reap :: "nat \<Rightarrow> Core \<Rightarrow> Core" where
  "reap pid c = (if cmd c = Some pid then c\<lparr>running := False, cmd := None, startedAt := 0\<rparr> else c)"

definition Started :: "Core \<Rightarrow> bool" where
  "Started c = running c"

definition Process :: "int \<Rightarrow> Core \<Rightarrow> nat \<times> int" where
  "Process now c = (case cmd c of Some pid \<Rightarrow> if running c then (pid, (now - startedAt c) div 1000000000) else (0, 0)
     | None \<Rightarrow> (0, 0))"

inductive coreStep :: "host \<Rightarrow> host \<Rightarrow> bool" where
  startCalled: "phase h = Free \<Longrightarrow> coreStep h (h\<lparr>phase := Starting cfg\<rparr>)"
| startRefused: "phase h = Starting cfg \<Longrightarrow> running (core h) \<Longrightarrow> coreStep h (h\<lparr>phase := Free\<rparr>)"
| startFailed: "phase h = Starting cfg \<Longrightarrow> \<not> running (core h) \<Longrightarrow> coreStep h (h\<lparr>phase := Free\<rparr>)"
| spawned: "phase h = Starting cfg \<Longrightarrow> \<not> running (core h) \<Longrightarrow>
    coreStep h (h\<lparr>phase := Spawned (nextPid h), alive := insert (nextPid h) (alive h), nextPid := Suc (nextPid h)\<rparr>)"
| writeFailed: "phase h = Spawned pid \<Longrightarrow> coreStep h (h\<lparr>phase := Free, alive := alive h - {pid}\<rparr>)"
| registered: "phase h = Spawned pid \<Longrightarrow>
    coreStep h (h\<lparr>phase := Free, core := setRunning pid now (core h), watched := insert pid (watched h)\<rparr>)"
| stopCalled: "phase h = Free \<Longrightarrow> cmd (core h) = Some pid \<Longrightarrow> coreStep h (h\<lparr>phase := Stopping pid None\<rparr>)"
| stopNothing: "phase h = Free \<Longrightarrow> cmd (core h) = None \<Longrightarrow> coreStep h h"
| restartRejected: "phase h = Free \<Longrightarrow> coreStep h h"
| restartStops: "phase h = Free \<Longrightarrow> cmd (core h) = Some pid \<Longrightarrow> coreStep h (h\<lparr>phase := Stopping pid (Some cfg)\<rparr>)"
| restartStarts: "phase h = Free \<Longrightarrow> cmd (core h) = None \<Longrightarrow> coreStep h (h\<lparr>phase := Starting cfg\<rparr>)"
| stopped: "phase h = Stopping pid next \<Longrightarrow> pid \<in> exited h \<Longrightarrow>
    coreStep h (h\<lparr>phase := case next of None \<Rightarrow> Free | Some cfg \<Rightarrow> Starting cfg\<rparr>)"
| stopFailed: "phase h = Stopping pid next \<Longrightarrow> coreStep h (h\<lparr>phase := Free\<rparr>)"
| processExits: "pid \<in> alive h \<Longrightarrow> coreStep h (h\<lparr>alive := alive h - {pid}\<rparr>)"
| reaped: "pid \<in> watched h \<Longrightarrow> pid \<notin> alive h \<Longrightarrow>
    coreStep h (h\<lparr>core := reap pid (core h), watched := watched h - {pid}, exited := insert pid (exited h)\<rparr>)"

definition initialHost :: "host \<Rightarrow> bool" where
  "initialHost h \<longleftrightarrow> phase h = Free \<and> cmd (core h) = None \<and> \<not> running (core h) \<and> alive h = {}
     \<and> watched h = {} \<and> exited h = {}"

section \<open>Version and command line\<close>

definition isDigit :: "char \<Rightarrow> bool" where
  "isDigit c \<longleftrightarrow> digitVal c \<noteq> None"

definition digits :: "string \<Rightarrow> string \<times> string" where
  "digits s = (takeWhile isDigit s, dropWhile isDigit s)"

text \<open>The pattern \<open>Xray n.n.n\<close> at the start of a line.\<close>

definition versionAt :: "string \<Rightarrow> string option" where
  "versionAt line =
     (if \<not> hasPrefix line ''Xray '' then None
      else case digits (drop 5 line) of (a, r) \<Rightarrow>
        if a = [] \<or> r = [] \<or> hd r \<noteq> CHR ''.'' then None
        else case digits (tl r) of (b, r2) \<Rightarrow>
          if b = [] \<or> r2 = [] \<or> hd r2 \<noteq> CHR ''.'' then None
          else case digits (tl r2) of (c, r3) \<Rightarrow>
            if c = [] then None else Some (a @ ''.'' @ b @ ''.'' @ c))"

definition GetVersion :: "(string \<Rightarrow> string + string) \<Rightarrow> Core \<Rightarrow> string + string" where
  "GetVersion runVersion c = (case runVersion (executablePath c) of
       Inl err \<Rightarrow> Inl err
     | Inr output \<Rightarrow> (case List.find (\<lambda>l. versionAt l \<noteq> None) (splitOn output [CHR 0x0A]) of
         None \<Rightarrow> Inl ''unable to detect Xray version''
       | Some line \<Rightarrow> Inr (the (versionAt line))))"

text \<open>The path is set before the new executable is tried.\<close>

definition SetExecutablePath :: "(string \<Rightarrow> string + string) \<Rightarrow> string \<Rightarrow> Core \<Rightarrow> string option \<times> Core" where
  "SetExecutablePath runVersion path c =
     (let c' = c\<lparr>executablePath := path\<rparr> in
      case GetVersion runVersion c' of Inl err \<Rightarrow> (Some err, c') | Inr v \<Rightarrow> (None, c'\<lparr>version := v\<rparr>))"

definition SetAssetsPath :: "string \<Rightarrow> Core \<Rightarrow> Core" where
  "SetAssetsPath path c = c\<lparr>assetsPath := path\<rparr>"

definition isManagedXrayCmdline :: "string \<Rightarrow> bool" where
  "isManagedXrayCmdline cmdline =
     (let parts = splitOn (trimRightChars {CHR 0x00} cmdline) [CHR 0x00] in
      length parts \<ge> 4 \<and> list_ex (\<lambda>i. parts ! i = ''run'' \<and> parts ! (i + 1) = ''-config'' \<and> parts ! (i + 2) = ''stdin:'')
        [1..<length parts - 2])"

definition staleProcessExecutable :: "string \<Rightarrow> string" where
  "staleProcessExecutable link = trimSuffix link '' (deleted)''"

definition procPPID :: "string option \<Rightarrow> int" where
  "procPPID status = (case status of None \<Rightarrow> 0
     | Some text \<Rightarrow> (case List.find (\<lambda>l. hasPrefix l ''PPid:'') (splitOn text [CHR 0x0A]) of
         None \<Rightarrow> 0
       | Some line \<Rightarrow> (case Prelude.fields line of [_, v] \<Rightarrow> (case parseInt 64 v of None \<Rightarrow> 0 | Some n \<Rightarrow> n) | _ \<Rightarrow> 0)))"

definition LooksStarted :: "string list \<Rightarrow> string \<Rightarrow> bool" where
  "LooksStarted logs ver = list_ex (\<lambda>line. contains line (''Xray '' @ ver @ '' started'')) logs"

text \<open>The lines \<open>capture\<close> puts on the bus.\<close>

definition captured :: "string \<Rightarrow> string list" where
  "captured output = filter (\<lambda>l. l \<noteq> []) (map trimSpace (scanLines output))"

section \<open>The invariant of the lifecycle\<close>

definition coreInv :: "host \<Rightarrow> bool" where
  "coreInv h \<longleftrightarrow>
     (running (core h) \<longleftrightarrow> cmd (core h) \<noteq> None)
   \<and> alive h \<subseteq> (case cmd (core h) of None \<Rightarrow> {} | Some p \<Rightarrow> {p}) \<union> (case phase h of Spawned p \<Rightarrow> {p} | _ \<Rightarrow> {})
   \<and> (\<forall>p. phase h = Spawned p \<longrightarrow> cmd (core h) = None \<and> p < nextPid h \<and> p \<notin> watched h \<and> p \<notin> exited h)
   \<and> (\<forall>p. cmd (core h) = Some p \<longrightarrow> p \<in> watched h \<and> p \<notin> exited h)
   \<and> (\<forall>p nxt. phase h = Stopping p nxt \<longrightarrow> cmd (core h) \<in> {None, Some p})
   \<and> (\<forall>p \<in> watched h \<union> exited h. p < nextPid h)
   \<and> watched h \<inter> exited h = {}"

lemma coreInv_phase:
  assumes "coreInv h" and "\<And>p. phase h \<noteq> Spawned p" and "\<And>p. ph \<noteq> Spawned p"
    and "\<And>p nxt. ph = Stopping p nxt \<Longrightarrow> cmd (core h) = Some p"
  shows "coreInv (h\<lparr>phase := ph\<rparr>)"
  using assms by (auto simp: coreInv_def split: phase.splits)

lemma coreInv_step:
  assumes "coreStep h h'" and "coreInv h"
  shows "coreInv h'"
  using assms(1)
proof cases
  case (spawned cfg)
  have "cmd (core h) = None" "alive h = {}"
    using assms(2) spawned by (auto simp: coreInv_def)
  with assms(2) show ?thesis unfolding spawned(1) by (auto simp: coreInv_def less_Suc_eq)
next
  case (writeFailed pid)
  with assms(2) show ?thesis by (auto simp: coreInv_def split: option.splits)
next
  case (registered pid now)
  with assms(2) show ?thesis by (auto simp: coreInv_def setRunning_def)
next
  case (processExits pid)
  with assms(2) show ?thesis by (auto simp: coreInv_def)
next
  case (reaped pid)
  with assms(2) show ?thesis by (auto simp: coreInv_def reap_def split: phase.splits option.splits)
next
  case (stopped pid nxt)
  then show ?thesis using coreInv_phase [OF assms(2)] by (auto split: option.splits)
qed (use coreInv_phase [OF assms(2)] assms(2) in auto)

interpretation coreSystem: invariant_system initialHost coreStep coreInv
proof
  show "coreInv h" if "initialHost h" for h using that by (auto simp: initialHost_def coreInv_def)
  show "coreInv h'" if "coreInv h" "coreStep h h'" for h h' using coreInv_step that by blast
qed

section \<open>Properties\<close>

text \<open>
  (C21) One Xray at a time: however starts, stops, restarts, crashes and failures follow one
  another, at most one managed process is alive in a reachable state, and one is alive outside the
  spawn of \<open>start\<close> only while the core counts as started.
\<close>

theorem core_single_process:
  assumes "initialHost h0" and "coreStep\<^sup>*\<^sup>* h0 h" and "p \<in> alive h" and "q \<in> alive h"
  shows "p = q \<and> (Started (core h) \<or> phase h = Spawned p)"
proof -
  have inv: "coreInv h" using coreSystem.reachable_inv assms(1,2) by blast
  then show ?thesis using assms(3,4)
    by (cases "cmd (core h)"; cases "phase h") (auto simp: coreInv_def Started_def)
qed

text \<open>
  (C36) A replacement never overlaps the process it replaces: when \<open>Restart\<close> goes on to start the
  new configuration after stopping a process, that process has exited.
\<close>

theorem restart_waits_for_exit:
  assumes "initialHost h0" and "coreStep\<^sup>*\<^sup>* h0 h" and "phase h = Stopping pid (Some cfg)"
    and "coreStep h h'" and "phase h' = Starting cfg'"
  shows "pid \<notin> alive h' \<and> alive h' = {}"
proof -
  have inv: "coreInv h" using coreSystem.reachable_inv assms(1,2) by blast
  have ex: "pid \<in> exited h \<and> alive h' = alive h"
    using assms(4) by cases (use assms(3,5) in \<open>auto split: option.splits\<close>)
  have "alive h = {}"
  proof (rule ccontr)
    assume "alive h \<noteq> {}"
    then obtain p where p: "cmd (core h) = Some p" "p \<in> alive h"
      using inv assms(3) by (auto simp: coreInv_def split: option.splits)
    then show False using inv assms(3) ex by (auto simp: coreInv_def)
  qed
  with ex show ?thesis by simp
qed

text \<open>
  A new executable that does not work stays configured: when \<open>SetExecutablePath\<close> reports an
  error, the core keeps the new path together with the old version, and so the next start, also
  the one meant to restore the old runtime, uses the executable that failed.
\<close>

theorem failed_executable_stays:
  assumes "SetExecutablePath runVersion path c = (Some err, c')"
  shows "executablePath c' = path \<and> version c' = version c \<and> GetVersion runVersion c' = Inl err"
  using assms by (auto simp: SetExecutablePath_def Let_def split: sum.splits)

definition exampleCore :: Core where
  "exampleCore = \<lparr>executablePath = ''/usr/local/bin/xray'', assetsPath = ''/usr/local/share/xray'',
     version = ''1.8.0'', cmd = None, running = False, startedAt = 0\<rparr>"

theorem failed_executable_stays_witness:
  "executablePath (snd (SetExecutablePath (\<lambda>_. Inl ''exec format error'') ''/data/xray'' exampleCore)) = ''/data/xray''"
proof -
  have "SetExecutablePath (\<lambda>_. Inl ''exec format error'') ''/data/xray'' exampleCore
    = (Some ''exec format error'', snd (SetExecutablePath (\<lambda>_. Inl ''exec format error'') ''/data/xray'' exampleCore))"
    by (simp add: SetExecutablePath_def GetVersion_def)
  from failed_executable_stays [OF this] show ?thesis by simp
qed

definition exampleHost :: "phase \<Rightarrow> Core \<Rightarrow> nat set \<Rightarrow> nat set \<Rightarrow> nat set \<Rightarrow> nat \<Rightarrow> host" where
  "exampleHost ph c al wa ex n = \<lparr>core = c, phase = ph, alive = al, watched = wa, exited = ex, nextPid = n\<rparr>"

definition exampleConfig :: config where
  "exampleConfig = \<lparr>cfgData = [], cfgSettings = exampleSettings, cfgPeerIP = ''127.0.0.1''\<rparr>"

abbreviation exampleUp :: Core where
  "exampleUp \<equiv> exampleCore\<lparr>cmd := Some 0, running := True, startedAt := 5\<rparr>"

lemma example_start:
  "coreStep\<^sup>*\<^sup>* (exampleHost Free exampleCore {} {} {} 0) (exampleHost Free exampleUp {0} {0} {} 1)"
proof -
  let ?h0 = "exampleHost Free exampleCore {} {} {} 0"
  have "coreStep ?h0 (exampleHost (Starting exampleConfig) exampleCore {} {} {} 0)"
    using coreStep.startCalled [of ?h0 exampleConfig] by (simp add: exampleHost_def)
  moreover have "coreStep (exampleHost (Starting exampleConfig) exampleCore {} {} {} 0) (exampleHost (Spawned 0) exampleCore {0} {} {} 1)"
    using coreStep.spawned [of "exampleHost (Starting exampleConfig) exampleCore {} {} {} 0" exampleConfig]
    by (simp add: exampleHost_def exampleCore_def)
  moreover have "coreStep (exampleHost (Spawned 0) exampleCore {0} {} {} 1) (exampleHost Free exampleUp {0} {0} {} 1)"
    using coreStep.registered [of "exampleHost (Spawned 0) exampleCore {0} {} {} 1" 0 5]
    by (simp add: exampleHost_def setRunning_def)
  ultimately show ?thesis by (meson converse_rtranclp_into_rtranclp rtranclp.rtrancl_refl)
qed

lemma example_initial: "initialHost (exampleHost Free exampleCore {} {} {} 0)"
  by (simp add: initialHost_def exampleHost_def exampleCore_def)

theorem core_single_process_witness:
  "Started (core (exampleHost Free exampleUp {0} {0} {} 1))"
  using core_single_process [OF example_initial example_start, of 0 0] by (simp add: exampleHost_def)

lemma example_restart:
  "coreStep\<^sup>*\<^sup>* (exampleHost Free exampleCore {} {} {} 0)
     (exampleHost (Stopping 0 (Some exampleConfig)) exampleCore {} {} {0} 1)"
proof -
  let ?s = "Stopping 0 (Some exampleConfig)"
  have "coreStep (exampleHost Free exampleUp {0} {0} {} 1) (exampleHost ?s exampleUp {0} {0} {} 1)"
    using coreStep.restartStops [of "exampleHost Free exampleUp {0} {0} {} 1" 0 exampleConfig] by (simp add: exampleHost_def)
  moreover have "coreStep (exampleHost ?s exampleUp {0} {0} {} 1) (exampleHost ?s exampleUp {} {0} {} 1)"
    using coreStep.processExits [of 0 "exampleHost ?s exampleUp {0} {0} {} 1"] by (simp add: exampleHost_def)
  moreover have "coreStep (exampleHost ?s exampleUp {} {0} {} 1) (exampleHost ?s exampleCore {} {} {0} 1)"
    using coreStep.reaped [of 0 "exampleHost ?s exampleUp {} {0} {} 1"] by (simp add: exampleHost_def reap_def exampleCore_def)
  ultimately show ?thesis using example_start by (meson rtranclp.rtrancl_into_rtrancl)
qed

theorem restart_waits_for_exit_witness:
  "alive (exampleHost (Starting exampleConfig) exampleCore {} {} {0} 1) = {}"
proof -
  have "coreStep (exampleHost (Stopping 0 (Some exampleConfig)) exampleCore {} {} {0} 1)
      (exampleHost (Starting exampleConfig) exampleCore {} {} {0} 1)"
    using coreStep.stopped [of "exampleHost (Stopping 0 (Some exampleConfig)) exampleCore {} {} {0} 1" 0 "Some exampleConfig"]
    by (simp add: exampleHost_def)
  from restart_waits_for_exit [OF example_initial example_restart _ this, of 0 exampleConfig exampleConfig]
  show ?thesis by (simp add: exampleHost_def)
qed

end
