(* ===== verification/Sessions.thy ===== *)
theory Sessions
  imports Prelude
begin

text \<open>
  Sessions of the control connection: the session part of \<open>Server\<close> in \<open>internal/node/server.go\<close>.
  Times are nanoseconds; every function runs under \<open>mu\<close> and takes the current time as an argument.
\<close>

section \<open>Definitions\<close>

definition sessionTTL :: int where
  "sessionTTL = 1800000000000"

record sessionState =
  connected :: bool
  clientIP :: string
  sessions :: "(string, int) gomap"

text \<open>\<open>time.Time.Sub\<close> saturates at the ends of \<open>time.Duration\<close>.\<close>

definition timeSub :: "int \<Rightarrow> int \<Rightarrow> int" where
  "timeSub t u = max min_int64 (min max_int64 (t - u))"

definition pruneSessionsLocked :: "int \<Rightarrow> sessionState \<Rightarrow> sessionState" where
  "pruneSessionsLocked now s =
     (let live = filter (\<lambda>(_, seenAt). \<not> timeSub now seenAt > sessionTTL) (sessions s)
      in s\<lparr>sessions := live, connected := (if live = [] then False else connected s)\<rparr>)"

definition addSession :: "int \<Rightarrow> string \<Rightarrow> string \<Rightarrow> sessionState \<Rightarrow> sessionState" where
  "addSession now sessionID ip s =
     (let s' = pruneSessionsLocked now s
      in s'\<lparr>connected := True, clientIP := ip, sessions := AList.update sessionID now (sessions s')\<rparr>)"

definition sessionMatches :: "int \<Rightarrow> string \<Rightarrow> sessionState \<Rightarrow> bool \<times> sessionState" where
  "sessionMatches now sessionID s =
     (if sessionID = [] then (False, s)
      else let s' = pruneSessionsLocked now s in
        case map_of (sessions s') sessionID of
          None \<Rightarrow> (False, s')
        | Some _ \<Rightarrow> (True, s'\<lparr>sessions := AList.update sessionID now (sessions s'), connected := True\<rparr>))"

definition currentClientIP :: "sessionState \<Rightarrow> string" where
  "currentClientIP s = clientIP s"

text \<open>The first lines of \<open>grpcRuntimeState\<close>: what is reported as connected.\<close>

definition reportConnected :: "int \<Rightarrow> sessionState \<Rightarrow> bool \<times> sessionState" where
  "reportConnected now s =
     (let s' = pruneSessionsLocked now s in (connected s' \<and> length (sessions s') > 0, s'))"

definition sessionUnaryInterceptor :: "int \<Rightarrow> string \<Rightarrow> sessionState \<Rightarrow> sessionState" where
  "sessionUnaryInterceptor now peerIP s = addSession now (''grpc:'' @ peerIP) peerIP s"

section \<open>Lemmas\<close>

lemma timeSub_TTL: "timeSub now t > sessionTTL \<longleftrightarrow> now - t > sessionTTL"
  by (auto simp: timeSub_def sessionTTL_def)

definition sessionsOk :: "sessionState \<Rightarrow> bool" where
  "sessionsOk s \<longleftrightarrow> gomap_wf (sessions s)"

lemma prune_get:
  "sessionsOk s \<Longrightarrow> map_of (sessions (pruneSessionsLocked now s)) k =
     (case map_of (sessions s) k of None \<Rightarrow> None | Some t \<Rightarrow> if now - t \<le> sessionTTL then Some t else None)"
  by (cases "map_of (sessions s) k")
    (simp_all add: pruneSessionsLocked_def sessionsOk_def map_of_filter_wf timeSub_TTL not_less Let_def)

lemma sessionsOk_ops [keeps]:
  "sessionsOk s \<Longrightarrow> sessionsOk (pruneSessionsLocked now s)"
  "sessionsOk s \<Longrightarrow> sessionsOk (addSession now k ip s)"
  "sessionsOk s \<Longrightarrow> sessionsOk (snd (sessionMatches now k s))"
  by (auto simp: sessionsOk_def pruneSessionsLocked_def addSession_def sessionMatches_def Let_def split: option.split)

text \<open>Runs of session operations.\<close>

datatype sessionCall = AddSession int string string | MatchSession int string | ReportState int

fun sessionOp :: "sessionCall \<Rightarrow> sessionState \<Rightarrow> sessionState" where
  "sessionOp (AddSession now sid ip) s = addSession now sid ip s"
| "sessionOp (MatchSession now sid) s = snd (sessionMatches now sid s)"
| "sessionOp (ReportState now) s = snd (reportConnected now s)"

definition runSessions :: "sessionCall list \<Rightarrow> sessionState \<Rightarrow> sessionState" where
  "runSessions calls s = fold sessionOp calls s"

definition initialSessions :: sessionState where
  "initialSessions = \<lparr>connected = False, clientIP = [], sessions = []\<rparr>"

definition sessionsInv :: "sessionState \<Rightarrow> bool" where
  "sessionsInv s \<longleftrightarrow> sessionsOk s \<and> (sessions s \<noteq> [] \<longrightarrow> connected s)"

lemma filter_not_Nil: "filter P xs \<noteq> [] \<Longrightarrow> xs \<noteq> []"
  by auto

lemma sessionsInv_prune: "sessionsInv s \<Longrightarrow> sessionsInv (pruneSessionsLocked now s)"
  using sessionsOk_ops(1) [of s now]
  by (auto simp: sessionsInv_def pruneSessionsLocked_def Let_def dest: filter_not_Nil)

lemma sessionsInv_op: "sessionsInv s \<Longrightarrow> sessionsInv (sessionOp c s)"
proof (cases c)
  case (AddSession now sid ip)
  assume "sessionsInv s"
  then show ?thesis using AddSession sessionsOk_ops(2) [of s now sid ip]
    by (simp add: sessionsInv_def addSession_def Let_def)
next
  case (MatchSession now sid)
  assume i: "sessionsInv s"
  then show ?thesis using MatchSession sessionsOk_ops(3) [of s now sid] sessionsInv_prune [OF i, of now]
    by (auto simp: sessionsInv_def sessionMatches_def Let_def split: option.split)
next
  case (ReportState now)
  assume "sessionsInv s"
  then show ?thesis using ReportState by (simp add: reportConnected_def Let_def sessionsInv_prune)
qed

lemma runSessions_inv: "sessionsInv (runSessions calls initialSessions)"
proof -
  have "sessionsInv s \<Longrightarrow> sessionsInv (fold sessionOp calls s)" for s
    by (induction calls arbitrary: s) (simp_all add: sessionsInv_op)
  then show ?thesis by (simp add: runSessions_def initialSessions_def sessionsInv_def sessionsOk_def)
qed

section \<open>Properties\<close>

text \<open>
  A session is accepted exactly while it is fresh: the check succeeds if and only if the
  identifier is not empty, known, and was last seen at most thirty minutes ago; a success renews
  it, and no check or new session removes another one that is fresh.
\<close>

theorem session_accepted_iff_fresh:
  assumes "sessionsOk s"
  shows "(fst (sessionMatches now sid s) \<longleftrightarrow>
      sid \<noteq> [] \<and> (\<exists>t. map_of (sessions s) sid = Some t \<and> now - t \<le> 1800000000000))
    \<and> (fst (sessionMatches now sid s) \<longrightarrow> map_of (sessions (snd (sessionMatches now sid s))) sid = Some now)
    \<and> (\<forall>k t. k \<noteq> sid \<and> map_of (sessions s) k = Some t \<and> now - t \<le> 1800000000000 \<longrightarrow>
        map_of (sessions (snd (sessionMatches now sid s))) k = Some t
        \<and> map_of (sessions (addSession now sid ip s)) k = Some t)"
  using prune_get [OF assms, of now]
  by (auto simp: sessionMatches_def addSession_def Let_def sessionTTL_def update_conv' split: option.splits if_splits)

theorem session_accepted_iff_fresh_witness:
  "\<not> fst (sessionMatches 2000000000000 ''a'' \<lparr>connected = True, clientIP = [], sessions = [(''a'', 5)]\<rparr>)"
  using session_accepted_iff_fresh [of "\<lparr>connected = True, clientIP = [], sessions = [(''a'', 5)]\<rparr>" 2000000000000 "''a''"]
  by (simp add: sessionsOk_def)

text \<open>
  The connection state that is reported is true: after any sequence of session operations the
  node reports that it is connected if and only if some session was seen within the last thirty
  minutes.
\<close>

theorem reported_connection_truthful:
  "fst (reportConnected now (runSessions calls initialSessions)) \<longleftrightarrow>
    (\<exists>k t. map_of (sessions (runSessions calls initialSessions)) k = Some t \<and> now - t \<le> 1800000000000)"
proof -
  let ?s = "runSessions calls initialSessions"
  have inv: "sessionsInv ?s" by (rule runSessions_inv)
  have get: "map_of (sessions (pruneSessionsLocked now ?s)) k =
     (case map_of (sessions ?s) k of None \<Rightarrow> None | Some t \<Rightarrow> if now - t \<le> sessionTTL then Some t else None)" for k
    using inv by (intro prune_get) (simp add: sessionsInv_def)
  have conn: "sessions (pruneSessionsLocked now ?s) \<noteq> [] \<Longrightarrow> connected (pruneSessionsLocked now ?s)"
    using sessionsInv_prune [OF inv] by (simp add: sessionsInv_def)
  have "sessions (pruneSessionsLocked now ?s) \<noteq> [] \<longleftrightarrow> (\<exists>k t. map_of (sessions (pruneSessionsLocked now ?s)) k = Some t)"
    by (cases "sessions (pruneSessionsLocked now ?s)") auto
  also have "\<dots> \<longleftrightarrow> (\<exists>k t. map_of (sessions ?s) k = Some t \<and> now - t \<le> 1800000000000)"
    by (auto simp: get sessionTTL_def split: option.splits if_splits)
  finally show ?thesis using conn by (auto simp: reportConnected_def Let_def)
qed

end
