(* ===== verification/Config_Cache.thy ===== *)
theory Config_Cache
  imports Json Encoding
begin

text \<open>
  The cached runtime configuration: the \<open>configCache\<close> part of \<open>internal/node/server.go\<close>. The
  state is the content of \<open>xray-config-cache.json\<close> and the batch kept in memory while a user batch
  is applied. The JSON text of a payload is a parameter with the law that decoding undoes encoding.
  Results: the recorded revision of the master never goes back, stale requests are refused, and a
  batch of updates leaves the file the single updates would leave.
\<close>

section \<open>Data\<close>

text \<open>
  The native runtimes as the master sends them. Their inbounds, sites and session callback are kept
  as JSON, apart from the protocol of an extra inbound: this component stores them and hands them on.
  One record stands for \<open>ovRuntime\<close>, \<open>l2tpRuntime\<close>, \<open>pptpRuntime\<close> (which has no callback), \<open>wgRuntime\<close> and
  \<open>remoteAccessRuntime\<close>, which have the same shape.
\<close>

record vpnRuntime =
  rtGeneratedAt :: string
  rtTarget :: string
  rtCallback :: "json option"
  rtInbounds :: "json list"

record haproxyRuntime =
  hpEnabled :: bool
  hpConfigText :: string
  hpSites :: "json list"

record extraInbound =
  exProtocol :: string
  exBody :: json

record extraRuntime =
  exGeneratedAt :: string
  exTarget :: string
  exCallback :: "json option"
  exInbounds :: "extraInbound list"

record cachedConfigPayload =
  AppliedRevision :: nat
  Config :: string
  PeerIP :: string
  OVRuntime :: "vpnRuntime option"
  L2TPRuntime :: "vpnRuntime option"
  PPTPRuntime :: "vpnRuntime option"
  WGRuntime :: "vpnRuntime option"
  IKEv2Runtime :: "vpnRuntime option"
  AnyConnectRuntime :: "vpnRuntime option"
  HAProxyRuntime :: "haproxyRuntime option"
  ExtraRuntime :: "extraRuntime option"

text \<open>\<open>'f\<close> is the type of file contents: byte strings in the program.\<close>

record 'f payloadCodec =
  marshalPayload :: "cachedConfigPayload \<Rightarrow> 'f"
  unmarshalPayload :: "'f \<Rightarrow> cachedConfigPayload option"

definition codecLaw :: "'f payloadCodec \<Rightarrow> bool" where
  "codecLaw P \<longleftrightarrow> (\<forall>p. unmarshalPayload P (marshalPayload P p) = Some p)"

record 'f cacheState =
  cacheFile :: "'f option"
  configCacheBatch :: "cachedConfigPayload option"
  configCacheBatchDirty :: bool

section \<open>The file and the batch\<close>

definition readConfigCacheFile :: "'f payloadCodec \<Rightarrow> 'f cacheState \<Rightarrow> cachedConfigPayload option" where
  "readConfigCacheFile P s = (case cacheFile s of None \<Rightarrow> None
     | Some raw \<Rightarrow> (case unmarshalPayload P raw of None \<Rightarrow> None
         | Some payload \<Rightarrow>
             if trimSpace (Config payload) = [] then None
             else if trimSpace (PeerIP payload) = [] then Some (payload\<lparr>PeerIP := ''127.0.0.1''\<rparr>)
             else Some payload))"

text \<open>
  \<open>fsErr\<close>: a failure of the directory, the temporary file or the rename; the old file stays
  (\<open>writeFileAtomic\<close>).
\<close>

definition writeConfigCacheFile :: "'f payloadCodec \<Rightarrow> string option \<Rightarrow> cachedConfigPayload \<Rightarrow> 'f cacheState \<Rightarrow> string option \<times> 'f cacheState" where
  "writeConfigCacheFile P fsErr payload s = (case fsErr of
       Some err \<Rightarrow> (Some err, s)
     | None \<Rightarrow> (None, s\<lparr>cacheFile := Some (marshalPayload P payload)\<rparr>))"

definition loadConfigCache :: "'f payloadCodec \<Rightarrow> 'f cacheState \<Rightarrow> cachedConfigPayload option" where
  "loadConfigCache P s = (case configCacheBatch s of Some payload \<Rightarrow> Some payload | None \<Rightarrow> readConfigCacheFile P s)"

definition beginConfigCacheBatch :: "'f payloadCodec \<Rightarrow> 'f cacheState \<Rightarrow> 'f cacheState" where
  "beginConfigCacheBatch P s = (case (configCacheBatch s, readConfigCacheFile P s) of
       (None, Some payload) \<Rightarrow> s\<lparr>configCacheBatch := Some payload, configCacheBatchDirty := False\<rparr>
     | _ \<Rightarrow> s)"

definition endConfigCacheBatch :: "'f payloadCodec \<Rightarrow> string option \<Rightarrow> 'f cacheState \<Rightarrow> string option \<times> 'f cacheState" where
  "endConfigCacheBatch P fsErr s =
     (let s' = s\<lparr>configCacheBatch := None, configCacheBatchDirty := False\<rparr> in
      case configCacheBatch s of
        Some batch \<Rightarrow> if configCacheBatchDirty s then writeConfigCacheFile P fsErr batch s' else (None, s')
      | None \<Rightarrow> (None, s'))"

definition persistConfigCache :: "'f payloadCodec \<Rightarrow> string option \<Rightarrow> cachedConfigPayload \<Rightarrow> 'f cacheState \<Rightarrow> string option \<times> 'f cacheState" where
  "persistConfigCache P fsErr payload s = (case configCacheBatch s of
       Some _ \<Rightarrow> (None, s\<lparr>configCacheBatch := Some payload, configCacheBatchDirty := True\<rparr>)
     | None \<Rightarrow> writeConfigCacheFile P fsErr payload s)"

section \<open>Revisions\<close>

definition appliedRevision :: "'f payloadCodec \<Rightarrow> 'f cacheState \<Rightarrow> nat" where
  "appliedRevision P s = (case loadConfigCache P s of None \<Rightarrow> 0 | Some payload \<Rightarrow> AppliedRevision payload)"

definition setAppliedRevision :: "'f payloadCodec \<Rightarrow> string option \<Rightarrow> nat \<Rightarrow> 'f cacheState \<Rightarrow> 'f cacheState" where
  "setAppliedRevision P fsErr revision s =
     (if revision = 0 then s
      else case loadConfigCache P s of None \<Rightarrow> s
        | Some payload \<Rightarrow>
            if revision \<le> AppliedRevision payload then s
            else snd (persistConfigCache P fsErr (payload\<lparr>AppliedRevision := revision\<rparr>) s))"

text \<open>\<open>None\<close> is a nil request; the error is \<open>FailedPrecondition\<close> with this message.\<close>

definition validateDesiredRevision :: "'f payloadCodec \<Rightarrow> nat option \<Rightarrow> 'f cacheState \<Rightarrow> string option" where
  "validateDesiredRevision P desired s = (case desired of None \<Rightarrow> None
     | Some revision \<Rightarrow>
         if revision = 0 then None
         else if revision < appliedRevision P s
           then Some (''stale desired revision '' @ formatUint revision @ ''; node already applied ''
             @ formatUint (appliedRevision P s))
         else None)"

definition recordAppliedRevision :: "'f payloadCodec \<Rightarrow> string option \<Rightarrow> nat option \<Rightarrow> bool \<Rightarrow> 'f cacheState \<Rightarrow> 'f cacheState" where
  "recordAppliedRevision P fsErr desired failed s = (case desired of
       Some revision \<Rightarrow> if failed then s else setAppliedRevision P fsErr revision s
     | None \<Rightarrow> s)"

section \<open>Saving\<close>

definition cachedRuntime :: "'f payloadCodec \<Rightarrow> (cachedConfigPayload \<Rightarrow> 'r option) \<Rightarrow> 'f cacheState \<Rightarrow> 'r option" where
  "cachedRuntime P field s = (case loadConfigCache P s of None \<Rightarrow> None | Some payload \<Rightarrow> field payload)"

definition cachedOVRuntime :: "'f payloadCodec \<Rightarrow> 'f cacheState \<Rightarrow> vpnRuntime option" where
  "cachedOVRuntime P = cachedRuntime P OVRuntime"

definition cachedL2TPRuntime :: "'f payloadCodec \<Rightarrow> 'f cacheState \<Rightarrow> vpnRuntime option" where
  "cachedL2TPRuntime P = cachedRuntime P L2TPRuntime"

definition cachedPPTPRuntime :: "'f payloadCodec \<Rightarrow> 'f cacheState \<Rightarrow> vpnRuntime option" where
  "cachedPPTPRuntime P = cachedRuntime P PPTPRuntime"

definition cachedWGRuntime :: "'f payloadCodec \<Rightarrow> 'f cacheState \<Rightarrow> vpnRuntime option" where
  "cachedWGRuntime P = cachedRuntime P WGRuntime"

definition cachedIKEv2Runtime :: "'f payloadCodec \<Rightarrow> 'f cacheState \<Rightarrow> vpnRuntime option" where
  "cachedIKEv2Runtime P = cachedRuntime P IKEv2Runtime"

definition cachedAnyConnectRuntime :: "'f payloadCodec \<Rightarrow> 'f cacheState \<Rightarrow> vpnRuntime option" where
  "cachedAnyConnectRuntime P = cachedRuntime P AnyConnectRuntime"

definition cachedHAProxyRuntime :: "'f payloadCodec \<Rightarrow> 'f cacheState \<Rightarrow> haproxyRuntime option" where
  "cachedHAProxyRuntime P = cachedRuntime P HAProxyRuntime"

definition cachedExtraRuntime :: "'f payloadCodec \<Rightarrow> 'f cacheState \<Rightarrow> extraRuntime option" where
  "cachedExtraRuntime P = cachedRuntime P ExtraRuntime"

text \<open>The runtimes a request brings, in the order the handlers keep them.\<close>

record runtimeSet =
  rsOV :: "vpnRuntime option"
  rsL2TP :: "vpnRuntime option"
  rsPPTP :: "vpnRuntime option"
  rsWG :: "vpnRuntime option"
  rsIKEv2 :: "vpnRuntime option"
  rsAnyConnect :: "vpnRuntime option"
  rsHAProxy :: "haproxyRuntime option"
  rsExtra :: "extraRuntime option"

definition saveConfigCacheWithHAProxy :: "'f payloadCodec \<Rightarrow> string option \<Rightarrow> string \<Rightarrow> string \<Rightarrow> runtimeSet \<Rightarrow> 'f cacheState \<Rightarrow> 'f cacheState" where
  "saveConfigCacheWithHAProxy P fsErr rawConfig peerIP rs s =
     (if trimSpace rawConfig = [] then s
      else snd (persistConfigCache P fsErr
        \<lparr>AppliedRevision = appliedRevision P s, Config = rawConfig, PeerIP = peerIP,
         OVRuntime = rsOV rs, L2TPRuntime = rsL2TP rs, PPTPRuntime = rsPPTP rs, WGRuntime = rsWG rs,
         IKEv2Runtime = rsIKEv2 rs, AnyConnectRuntime = rsAnyConnect rs,
         HAProxyRuntime = rsHAProxy rs, ExtraRuntime = rsExtra rs\<rparr> s))"

definition saveConfigCache :: "'f payloadCodec \<Rightarrow> string option \<Rightarrow> string \<Rightarrow> string \<Rightarrow> runtimeSet \<Rightarrow> 'f cacheState \<Rightarrow> 'f cacheState" where
  "saveConfigCache P fsErr rawConfig peerIP rs s =
     saveConfigCacheWithHAProxy P fsErr rawConfig peerIP
       (rs\<lparr>rsHAProxy := cachedHAProxyRuntime P s, rsExtra := cachedExtraRuntime P s\<rparr>) s"

section \<open>What a read returns after a write\<close>

definition usable :: "cachedConfigPayload \<Rightarrow> bool" where
  "usable p \<longleftrightarrow> trimSpace (Config p) \<noteq> [] \<and> trimSpace (PeerIP p) \<noteq> []"

definition normalized :: "cachedConfigPayload \<Rightarrow> cachedConfigPayload" where
  "normalized p = (if trimSpace (PeerIP p) = [] then p\<lparr>PeerIP := ''127.0.0.1''\<rparr> else p)"

lemma normalized_usable [simp]: "usable p \<Longrightarrow> normalized p = p"
  by (simp add: usable_def normalized_def)

lemma normalized_revision [simp]: "AppliedRevision (normalized p) = AppliedRevision p"
  by (simp add: normalized_def)

lemma localhost_not_blank [simp]: "trimSpace ''127.0.0.1'' = ''127.0.0.1''"
  by code_simp

lemma read_usable: "readConfigCacheFile P s = Some p \<Longrightarrow> usable p"
  by (auto simp: readConfigCacheFile_def usable_def split: option.splits if_splits)

lemma read_written:
  assumes "codecLaw P" and "trimSpace (Config p) \<noteq> []"
  shows "readConfigCacheFile P (s\<lparr>cacheFile := Some (marshalPayload P p)\<rparr>) = Some (normalized p)"
  using assms by (simp add: readConfigCacheFile_def codecLaw_def normalized_def)

lemma read_other [simp]:
  "readConfigCacheFile P (s\<lparr>configCacheBatch := b\<rparr>) = readConfigCacheFile P s"
  "readConfigCacheFile P (s\<lparr>configCacheBatchDirty := d\<rparr>) = readConfigCacheFile P s"
  by (simp_all add: readConfigCacheFile_def)

text \<open>The revision the file holds, zero when it cannot be read.\<close>

definition fileRevision :: "'f payloadCodec \<Rightarrow> 'f cacheState \<Rightarrow> nat" where
  "fileRevision P s = (case readConfigCacheFile P s of None \<Rightarrow> 0 | Some p \<Rightarrow> AppliedRevision p)"

section \<open>Runs\<close>

datatype cacheCall = SetRevision "string option" nat | Save "string option" string string runtimeSet
  | BeginBatch | EndBatch "string option"

fun cacheOp :: "'f payloadCodec \<Rightarrow> cacheCall \<Rightarrow> 'f cacheState \<Rightarrow> 'f cacheState" where
  "cacheOp P (SetRevision fsErr revision) s = setAppliedRevision P fsErr revision s"
| "cacheOp P (Save fsErr raw ip rs) s = saveConfigCacheWithHAProxy P fsErr raw ip rs s"
| "cacheOp P BeginBatch s = beginConfigCacheBatch P s"
| "cacheOp P (EndBatch fsErr) s = snd (endConfigCacheBatch P fsErr s)"

definition runCache :: "'f payloadCodec \<Rightarrow> cacheCall list \<Rightarrow> 'f cacheState \<Rightarrow> 'f cacheState" where
  "runCache P calls s = fold (cacheOp P) calls s"

text \<open>The batch is at least as new as the file.\<close>

definition cacheInv :: "'f payloadCodec \<Rightarrow> 'f cacheState \<Rightarrow> bool" where
  "cacheInv P s \<longleftrightarrow> pred_option (\<lambda>p. trimSpace (Config p) \<noteq> [] \<and> fileRevision P s \<le> AppliedRevision p) (configCacheBatch s)"

lemma fileRevision_simps [simp]:
  "fileRevision P (s\<lparr>configCacheBatch := b\<rparr>) = fileRevision P s"
  "fileRevision P (s\<lparr>configCacheBatchDirty := d\<rparr>) = fileRevision P s"
  by (simp_all add: fileRevision_def)

lemma fileRevision_written:
  "codecLaw P \<Longrightarrow> trimSpace (Config p) \<noteq> [] \<Longrightarrow> fileRevision P (s\<lparr>cacheFile := Some (marshalPayload P p)\<rparr>) = AppliedRevision p"
  by (simp add: fileRevision_def read_written)

lemma persist_step:
  assumes "codecLaw P" and "cacheInv P s" and "trimSpace (Config p) \<noteq> []" and "appliedRevision P s \<le> AppliedRevision p"
  shows "cacheInv P (snd (persistConfigCache P fsErr p s)) \<and> fileRevision P s \<le> fileRevision P (snd (persistConfigCache P fsErr p s))"
proof (cases "configCacheBatch s")
  case None
  then show ?thesis
    using assms by (auto simp: persistConfigCache_def writeConfigCacheFile_def cacheInv_def fileRevision_written
      appliedRevision_def loadConfigCache_def fileRevision_def read_written split: option.split)
next
  case (Some b)
  then show ?thesis
    using assms by (auto simp: persistConfigCache_def cacheInv_def appliedRevision_def loadConfigCache_def)
qed

lemma load_config: "cacheInv P s \<Longrightarrow> loadConfigCache P s = Some p \<Longrightarrow> trimSpace (Config p) \<noteq> []"
  by (auto simp: loadConfigCache_def cacheInv_def usable_def dest: read_usable split: option.splits)

lemma cacheOp_step:
  assumes "codecLaw P" and "cacheInv P s"
  shows "cacheInv P (cacheOp P c s) \<and> fileRevision P s \<le> fileRevision P (cacheOp P c s)"
proof (cases c)
  case (SetRevision fsErr r)
  show ?thesis
  proof (cases "loadConfigCache P s")
    case None
    then show ?thesis using assms SetRevision by (simp add: setAppliedRevision_def)
  next
    case (Some p)
    then show ?thesis
      using persist_step [OF assms, of "p\<lparr>AppliedRevision := r\<rparr>" fsErr] load_config [OF assms(2)] assms SetRevision
      by (auto simp: setAppliedRevision_def appliedRevision_def)
  qed
next
  case (Save fsErr raw ip rs)
  then show ?thesis using persist_step [OF assms] assms(2) by (simp add: saveConfigCacheWithHAProxy_def)
next
  case BeginBatch
  then show ?thesis
    using assms(2) read_usable [of P s]
    by (auto simp: beginConfigCacheBatch_def cacheInv_def fileRevision_def usable_def split: option.split)
next
  case (EndBatch fsErr)
  show ?thesis
  proof (cases "configCacheBatch s")
    case None
    then show ?thesis using EndBatch by (simp add: endConfigCacheBatch_def cacheInv_def)
  next
    case (Some b)
    then have "trimSpace (Config b) \<noteq> []" "fileRevision P s \<le> AppliedRevision b"
      using assms(2) by (simp_all add: cacheInv_def)
    with Some EndBatch assms(1) show ?thesis
      by (auto simp: endConfigCacheBatch_def cacheInv_def writeConfigCacheFile_def fileRevision_written Let_def split: option.split)
  qed
qed

lemma runCache_step:
  assumes "codecLaw P" and "cacheInv P s"
  shows "cacheInv P (runCache P calls s) \<and> fileRevision P s \<le> fileRevision P (runCache P calls s)"
  unfolding runCache_def using assms(2)
proof (induction calls arbitrary: s)
  case (Cons c calls)
  then show ?case using cacheOp_step [OF assms(1) Cons.prems, of c] by (auto intro: order_trans)
qed simp

lemma file_le_applied: "cacheInv P s \<Longrightarrow> fileRevision P s \<le> appliedRevision P s"
  by (auto simp: cacheInv_def appliedRevision_def loadConfigCache_def fileRevision_def split: option.splits)

text \<open>An update of the cached payload, as the user operations make them.\<close>

definition updateCache :: "'f payloadCodec \<Rightarrow> (cachedConfigPayload \<Rightarrow> cachedConfigPayload option) \<Rightarrow> 'f cacheState \<Rightarrow> 'f cacheState" where
  "updateCache P f s = (case loadConfigCache P s of None \<Rightarrow> s
     | Some p \<Rightarrow> (case f p of None \<Rightarrow> s | Some p' \<Rightarrow> snd (persistConfigCache P None p' s)))"

definition keepsUsable :: "(cachedConfigPayload \<Rightarrow> cachedConfigPayload option) \<Rightarrow> bool" where
  "keepsUsable f \<longleftrightarrow> (\<forall>p p'. usable p \<longrightarrow> f p = Some p' \<longrightarrow> usable p')"

text \<open>A batch simulates the direct updates: it holds what the file would hold.\<close>

definition batchSim :: "'f payloadCodec \<Rightarrow> 'f cacheState \<Rightarrow> 'f cacheState \<Rightarrow> bool" where
  "batchSim P b d \<longleftrightarrow> configCacheBatch d = None \<and>
     (\<exists>p. configCacheBatch b = Some p \<and> readConfigCacheFile P d = Some p \<and> usable p
        \<and> (configCacheBatchDirty b \<or> readConfigCacheFile P b = Some p))"

lemma batchSim_update:
  assumes "codecLaw P" and "keepsUsable f" and "batchSim P b d"
  shows "batchSim P (updateCache P f b) (updateCache P f d)"
proof -
  obtain p where p: "configCacheBatch b = Some p" "readConfigCacheFile P d = Some p" "usable p" "configCacheBatch d = None"
    using assms(3) by (auto simp: batchSim_def)
  show ?thesis
  proof (cases "f p")
    case None
    then show ?thesis using p assms(3) by (simp add: updateCache_def loadConfigCache_def)
  next
    case (Some p')
    then have u: "usable p'" using assms(2) p(3) by (auto simp: keepsUsable_def)
    then have "trimSpace (Config p') \<noteq> []" by (simp add: usable_def)
    then show ?thesis
      using Some p u assms(1)
      by (simp add: updateCache_def loadConfigCache_def persistConfigCache_def writeConfigCacheFile_def batchSim_def read_written)
  qed
qed

lemma batchSim_fold:
  assumes "codecLaw P"
  shows "list_all keepsUsable fs \<Longrightarrow> batchSim P b d \<Longrightarrow> batchSim P (fold (updateCache P) fs b) (fold (updateCache P) fs d)"
  by (induction fs arbitrary: b d) (simp_all add: batchSim_update [OF assms])

lemma batch_keeps_file:
  "configCacheBatch b \<noteq> None \<Longrightarrow> cacheFile (fold (updateCache P) fs b) = cacheFile b"
proof (induction fs arbitrary: b)
  case (Cons f fs)
  have "configCacheBatch (updateCache P f b) \<noteq> None \<and> cacheFile (updateCache P f b) = cacheFile b"
    using Cons.prems by (auto simp: updateCache_def loadConfigCache_def persistConfigCache_def split: option.splits)
  then show ?case using Cons.IH [of "updateCache P f b"] by simp
qed simp

lemma fold_no_cache: "loadConfigCache P s = None \<Longrightarrow> fold (updateCache P) fs s = s"
  by (induction fs) (simp_all add: updateCache_def)

section \<open>Properties\<close>

text \<open>
  (C17) Once a revision is applied, older ones stay refused: after the node recorded revision \<open>r\<close>
  in a readable cache, and after any further saves, revisions and batches, with any file system
  failures, a request for a revision between 1 and \<open>r - 1\<close> is refused as stale.
\<close>

theorem older_revisions_stay_refused:
  assumes "codecLaw P" and "configCacheBatch s = None" and "readConfigCacheFile P s = Some p"
    and "0 < older" and "older < r"
  shows "validateDesiredRevision P (Some older) (runCache P calls (recordAppliedRevision P None (Some r) False s)) \<noteq> None"
proof -
  let ?s = "recordAppliedRevision P None (Some r) False s"
  have u: "trimSpace (Config p) \<noteq> []" using read_usable [OF assms(3)] by (simp add: usable_def)
  have rev: "r \<le> fileRevision P ?s \<and> configCacheBatch ?s = None"
  proof (cases "r \<le> AppliedRevision p")
    case True
    then show ?thesis using assms(2,3,4,5)
      by (simp add: recordAppliedRevision_def setAppliedRevision_def loadConfigCache_def fileRevision_def)
  next
    case False
    then have "?s = s\<lparr>cacheFile := Some (marshalPayload P (p\<lparr>AppliedRevision := r\<rparr>))\<rparr>"
      using assms by (simp add: recordAppliedRevision_def setAppliedRevision_def loadConfigCache_def
        persistConfigCache_def writeConfigCacheFile_def)
    then show ?thesis using fileRevision_written [OF assms(1), of "p\<lparr>AppliedRevision := r\<rparr>" s] u assms(2) by simp
  qed
  then have "cacheInv P ?s" by (simp add: cacheInv_def)
  from runCache_step [OF assms(1) this, of calls] file_le_applied rev
  have "r \<le> appliedRevision P (runCache P calls ?s)" by (meson order_trans)
  with assms(4,5) show ?thesis by (simp add: validateDesiredRevision_def)
qed

text \<open>
  A batch of cache updates is equivalent to the updates one by one: opening a batch, applying
  any updates that keep the payload usable, and closing it leaves the cache file with the payload
  the same updates leave without a batch; until the batch is closed the file is not touched.
\<close>

theorem cache_batch_refines_updates:
  assumes "codecLaw P" and "configCacheBatch s = None" and "list_all keepsUsable fs"
  shows "readConfigCacheFile P (snd (endConfigCacheBatch P None (fold (updateCache P) fs (beginConfigCacheBatch P s))))
      = readConfigCacheFile P (fold (updateCache P) fs s)
    \<and> fst (endConfigCacheBatch P None (fold (updateCache P) fs (beginConfigCacheBatch P s))) = None
    \<and> cacheFile (fold (updateCache P) fs (beginConfigCacheBatch P s)) = cacheFile s"
proof (cases "readConfigCacheFile P s")
  case None
  then have "beginConfigCacheBatch P s = s" "loadConfigCache P s = None"
    using assms(2) by (simp_all add: beginConfigCacheBatch_def loadConfigCache_def)
  then show ?thesis using assms(2) by (simp add: fold_no_cache endConfigCacheBatch_def)
next
  case (Some p)
  let ?b = "beginConfigCacheBatch P s"
  have kept: "cacheFile (fold (updateCache P) fs ?b) = cacheFile s"
    using batch_keeps_file [of ?b P fs] Some assms(2) by (simp add: beginConfigCacheBatch_def)
  have "batchSim P ?b s"
    using Some assms(2) read_usable [OF Some] by (simp add: batchSim_def beginConfigCacheBatch_def)
  then have "batchSim P (fold (updateCache P) fs ?b) (fold (updateCache P) fs s)"
    by (rule batchSim_fold [OF assms(1,3)])
  then obtain q where q: "configCacheBatch (fold (updateCache P) fs ?b) = Some q"
    "readConfigCacheFile P (fold (updateCache P) fs s) = Some q" "usable q"
    "configCacheBatchDirty (fold (updateCache P) fs ?b) \<or> readConfigCacheFile P (fold (updateCache P) fs ?b) = Some q"
    by (auto simp: batchSim_def)
  have "trimSpace (Config q) \<noteq> []" using q(3) by (simp add: usable_def)
  with q assms(1) kept show ?thesis
    by (auto simp: endConfigCacheBatch_def writeConfigCacheFile_def read_written Let_def)
qed

definition examplePayload :: cachedConfigPayload where
  "examplePayload = \<lparr>AppliedRevision = 3, Config = ''{}'', PeerIP = ''10.0.0.1'', OVRuntime = None, L2TPRuntime = None,
     PPTPRuntime = None, WGRuntime = None, IKEv2Runtime = None, AnyConnectRuntime = None, HAProxyRuntime = None,
     ExtraRuntime = None\<rparr>"

definition exampleCodec :: "cachedConfigPayload payloadCodec" where
  "exampleCodec = \<lparr>marshalPayload = (\<lambda>p. p), unmarshalPayload = Some\<rparr>"

definition exampleCache :: "cachedConfigPayload cacheState" where
  "exampleCache = \<lparr>cacheFile = Some examplePayload, configCacheBatch = None, configCacheBatchDirty = False\<rparr>"

lemma example_not_blank: "trimSpace ''{}'' \<noteq> []" "trimSpace ''10.0.0.1'' \<noteq> []"
  by code_simp+

lemma example_read: "codecLaw exampleCodec" "configCacheBatch exampleCache = None"
  "readConfigCacheFile exampleCodec exampleCache = Some examplePayload"
  using example_not_blank
  by (simp_all add: codecLaw_def exampleCodec_def exampleCache_def readConfigCacheFile_def examplePayload_def)

theorem older_revisions_stay_refused_witness:
  "validateDesiredRevision exampleCodec (Some 5)
     (runCache exampleCodec [BeginBatch, EndBatch None] (recordAppliedRevision exampleCodec None (Some 9) False exampleCache)) \<noteq> None"
  by (rule older_revisions_stay_refused [OF example_read]) simp_all

theorem cache_batch_refines_updates_witness:
  "cacheFile (fold (updateCache exampleCodec) [\<lambda>p. Some (p\<lparr>AppliedRevision := 8\<rparr>)] (beginConfigCacheBatch exampleCodec exampleCache))
     = Some examplePayload"
  using cache_batch_refines_updates [OF example_read(1,2), of "[\<lambda>p. Some (p\<lparr>AppliedRevision := 8\<rparr>)]"]
  by (simp add: keepsUsable_def usable_def exampleCache_def)

end
