(* ===== verification/Proxyman.thy ===== *)
theory Proxyman
  imports Encoding
begin

text \<open>
  Users of the running Xray: \<open>internal/xray/proxyman.go\<close>, \<open>dialAPI\<close> of \<open>stats.go\<close> and
  \<open>internal/node/inbound_users.go\<close>. The Xray process is a parameter: a dial that succeeds or fails
  and \<open>AlterInbound\<close> on a state of type \<open>'x\<close>. Accounts are the messages the node builds. Results:
  when an account can be built, and of which kind it is.
\<close>

section \<open>Data\<close>

record InboundUser =
  Protocol :: string
  Email :: string
  Level :: nat
  ID :: string
  Password :: string
  Auth :: string
  Flow :: string
  ReverseTag :: string
  UserMethod :: string
  CipherType :: int
  IVCheck :: bool

text \<open>The zero value of the struct.\<close>

definition noUser :: InboundUser where
  "noUser = \<lparr>Protocol = [], Email = [], Level = 0, ID = [], Password = [], Auth = [], Flow = [], ReverseTag = [],
     UserMethod = [], CipherType = 0, IVCheck = False\<rparr>"

datatype account = VMess string | VLess string string "string option" | Trojan string
  | Shadowsocks string int bool | Shadowsocks2022 string | Hysteria string

record protocolUser =
  xuLevel :: nat
  xuEmail :: string
  xuAccount :: account

datatype inboundOperation = AddUserOperation protocolUser | RemoveUserOperation string

text \<open>
  An error: its text, the message \<open>status.Convert\<close> gives it, and whether it wraps \<open>ErrAPIUnavailable\<close>.
\<close>

datatype goError = GoError (errText: string) (errUnavailable: bool)

text \<open>The API of the running Xray, and the state it changes.\<close>

record 'x xrayAPI =
  dialXray :: "'x \<Rightarrow> string option"
  alterInbound :: "string \<Rightarrow> inboundOperation \<Rightarrow> 'x \<Rightarrow> string option \<times> 'x"

section \<open>Padded base64\<close>

definition stdVal :: "char \<Rightarrow> nat option" where
  "stdVal c = (let n = of_char c :: nat in
     if 65 \<le> n \<and> n \<le> 90 then Some (n - 65) else if 97 \<le> n \<and> n \<le> 122 then Some (n - 71)
     else if 48 \<le> n \<and> n \<le> 57 then Some (n + 4) else if n = 43 then Some 62
     else if n = 47 then Some 63 else None)"

fun stdDigits :: "string \<Rightarrow> nat list option" where
  "stdDigits [] = Some []"
| "stdDigits (c # s) = (case stdVal c of None \<Rightarrow> None | Some d \<Rightarrow> map_option ((#) d) (stdDigits s))"

text \<open>
  \<open>base64.StdEncoding.DecodeString\<close>: line ends are skipped, the length is a multiple of four and
  at most two padding characters end the last quantum.
\<close>

definition stdDecode :: "string \<Rightarrow> string option" where
  "stdDecode s =
     (let t = filter (\<lambda>c. c \<noteq> CHR 0x0A \<and> c \<noteq> CHR 0x0D) s;
          body = trimRightChars {CHR ''=''} t
      in if length t mod 4 \<noteq> 0 \<or> length body + 2 < length t then None
         else Option.bind (stdDigits body) b64Quanta)"

section \<open>Accounts\<close>

text \<open>The verb \<open>%q\<close>; bytes above 127 are taken as printable.\<close>

definition lowerHex :: "nat \<Rightarrow> char" where
  "lowerHex n = (if n < 10 then char_of (48 + n) else char_of (87 + n))"

definition quoteChar :: "char \<Rightarrow> string" where
  "quoteChar c = (let n = of_char c :: nat; bs = CHR 0x5C in
     if n = 34 \<or> n = 92 then [bs, c]
     else if 7 \<le> n \<and> n \<le> 13 then [bs, ''abtnvfr'' ! (n - 7)]
     else if n < 32 \<or> n = 127 then [bs, CHR ''x'', lowerHex (n div 16), lowerHex (n mod 16)]
     else [c])"

definition quoteGo :: "string \<Rightarrow> string" where
  "quoteGo s = [CHR 0x22] @ concat (map quoteChar s) @ [CHR 0x22]"

text \<open>The numbers are those of \<open>shadowsocks.CipherType\<close>.\<close>

definition resolveShadowsocksCipher :: "InboundUser \<Rightarrow> int" where
  "resolveShadowsocksCipher user =
     (if CipherType user \<noteq> 0 then CipherType user
      else let m = toLower (trimSpace (UserMethod user)) in
        if m = ''aes-128-gcm'' then 5
        else if m = ''aes-256-gcm'' then 6
        else if m = ''chacha20-ietf-poly1305'' \<or> m = ''chacha20-poly1305'' then 7
        else if m = ''xchacha20-ietf-poly1305'' \<or> m = ''xchacha20-poly1305'' then 8
        else if m = ''none'' then 9
        else 7)"

definition keyLength :: "InboundUser \<Rightarrow> nat" where
  "keyLength user = (if contains (toLower (UserMethod user)) ''aes-128'' then 16 else 32)"

definition buildAccountMessage :: "InboundUser \<Rightarrow> string + account" where
  "buildAccountMessage user =
     (let p = toLower (trimSpace (Protocol user)) in
      if p = ''vmess'' then
        (let i = trimSpace (ID user) in if i = [] then Inl ''id is required for vmess'' else Inr (VMess i))
      else if p = ''vless'' then
        (let i = trimSpace (ID user); t = trimSpace (ReverseTag user) in
         if i = [] then Inl ''id is required for vless''
         else Inr (VLess i (trimSpace (Flow user)) (if t = [] then None else Some t)))
      else if p = ''trojan'' then
        (let pw = trimSpace (Password user) in
         if pw = [] then Inl ''password is required for trojan'' else Inr (Trojan pw))
      else if p = ''shadowsocks'' then
        (let pw = trimSpace (Password user) in
         if pw = [] then Inl ''password is required for shadowsocks''
         else if hasPrefix (toLower (trimSpace (UserMethod user))) ''2022-'' then
           (case stdDecode pw of
              None \<Rightarrow> Inl (''shadowsocks 2022 user key must be a base64-encoded '' @ formatUint (keyLength user) @ ''-byte key'')
            | Some key \<Rightarrow>
                if length key \<noteq> keyLength user
                then Inl (''shadowsocks 2022 user key must be a base64-encoded '' @ formatUint (keyLength user) @ ''-byte key'')
                else Inr (Shadowsocks2022 pw))
         else Inr (Shadowsocks pw (resolveShadowsocksCipher user) (IVCheck user)))
      else if p = ''hysteria'' then
        (let a = (if trimSpace (Auth user) = [] then trimSpace (Password user) else trimSpace (Auth user)) in
         if a = [] then Inl ''auth is required for hysteria'' else Inr (Hysteria a))
      else Inl (''unsupported protocol '' @ quoteGo (Protocol user)))"

definition buildProtocolUser :: "InboundUser \<Rightarrow> string + protocolUser" where
  "buildProtocolUser user =
     (let email = trimSpace (Email user) in
      if email = [] then Inl ''email is required''
      else case buildAccountMessage user of
        Inl err \<Rightarrow> Inl err
      | Inr acc \<Rightarrow> Inr \<lparr>xuLevel = Level user, xuEmail = email, xuAccount = acc\<rparr>)"

section \<open>Calls\<close>

definition callXray :: "'x xrayAPI \<Rightarrow> string \<Rightarrow> string \<Rightarrow> inboundOperation \<Rightarrow> 'x \<Rightarrow> goError option \<times> 'x" where
  "callXray A what tag op x = (case dialXray A x of
       Some err \<Rightarrow> (Some (GoError (''connect to Xray proxyman API: Xray API is unavailable: '' @ err) True), x)
     | None \<Rightarrow> (case alterInbound A tag op x of
         (Some err, x') \<Rightarrow> (Some (GoError (what @ err) False), x')
       | (None, x') \<Rightarrow> (None, x')))"

definition AddInboundUser :: "'x xrayAPI \<Rightarrow> string \<Rightarrow> InboundUser \<Rightarrow> 'x \<Rightarrow> goError option \<times> 'x" where
  "AddInboundUser A inboundTag user x =
     (let tag = trimSpace inboundTag in
      if tag = [] then (Some (GoError ''inbound_tag is required'' False), x)
      else case buildProtocolUser user of
        Inl err \<Rightarrow> (Some (GoError err False), x)
      | Inr u \<Rightarrow> callXray A ''add inbound user: '' tag (AddUserOperation u) x)"

definition RemoveInboundUser :: "'x xrayAPI \<Rightarrow> string \<Rightarrow> string \<Rightarrow> 'x \<Rightarrow> goError option \<times> 'x" where
  "RemoveInboundUser A inboundTag removeEmail x =
     (let tag = trimSpace inboundTag; email = trimSpace removeEmail in
      if tag = [] then (Some (GoError ''inbound_tag is required'' False), x)
      else if email = [] then (Some (GoError ''email is required'' False), x)
      else callXray A ''remove inbound user: '' tag (RemoveUserOperation email) x)"

text \<open>The address \<open>dialAPI\<close> connects to; \<open>JoinHostPort\<close> puts brackets around a host with a colon.\<close>

definition joinHostPort :: "string \<Rightarrow> string \<Rightarrow> string" where
  "joinHostPort host port = (if CHR '':'' \<in> set host then ''['' @ host @ '']:'' @ port else host @ '':'' @ port)"

definition dialAddress :: "string \<Rightarrow> int \<Rightarrow> string" where
  "dialAddress apiHost apiPort =
     (let host = trimSpace apiHost in
      joinHostPort (if host \<in> {[], ''0.0.0.0'', ''::'', ''[::]''} then ''127.0.0.1'' else host) (formatInt apiPort))"

section \<open>Errors that do not matter\<close>

definition isIgnorableXrayRemoveError :: "goError option \<Rightarrow> bool" where
  "isIgnorableXrayRemoveError err = (case err of None \<Rightarrow> True
     | Some e \<Rightarrow> let message = toLower (errText e) in
         contains message ''not found'' \<or> contains message ''not exist''
         \<or> contains message ''no such user'' \<or> contains message ''email not found'')"

definition isIgnorableXrayAddError :: "goError option \<Rightarrow> bool" where
  "isIgnorableXrayAddError err = (case err of None \<Rightarrow> True
     | Some e \<Rightarrow> let message = toLower (errText e) in
         contains message ''already exists'' \<or> contains message ''email exists''
         \<or> contains message ''duplicate'')"

end
