(* ===== verification/Server_Util.thy ===== *)
theory Server_Util
  imports Settings Json Proxyman
begin

text \<open>
  Helpers of \<open>internal/node/server.go\<close> and \<open>grpc.go\<close> that handle what comes from outside: versions
  and channels of updates, archives and downloads, file names, request fields. File system,
  network and process lookups are parameters. The results say what an update or a download can
  touch and how its arguments look.
\<close>

section \<open>Versions and update arguments\<close>

definition isDecimal :: "char \<Rightarrow> bool" where
  "isDecimal c \<longleftrightarrow> digitVal c \<noteq> None"

definition isAlpha :: "char \<Rightarrow> bool" where
  "isAlpha c \<longleftrightarrow> (let n = of_char c :: nat in 65 \<le> n \<and> n \<le> 90 \<or> 97 \<le> n \<and> n \<le> 122)"

definition isHex :: "char \<Rightarrow> bool" where
  "isHex c \<longleftrightarrow> (let n = of_char c :: nat in 48 \<le> n \<and> n \<le> 57 \<or> 65 \<le> n \<and> n \<le> 70 \<or> 97 \<le> n \<and> n \<le> 102)"

text \<open>The class \<open>[-+._A-Za-z0-9]\<close> at the end of the version patterns.\<close>

definition versionTailChar :: "char \<Rightarrow> bool" where
  "versionTailChar c \<longleftrightarrow> c \<in> {CHR ''-'', CHR ''+'', CHR ''.'', CHR ''_''} \<or> isAlpha c \<or> isDecimal c"

text \<open>\<open>\d+\.\<close> at the front of the text; gives the rest.\<close>

definition eatNumberDot :: "string \<Rightarrow> string option" where
  "eatNumberDot s = (let r = dropWhile isDecimal s in
     if s \<noteq> [] \<and> isDecimal (hd s) \<and> r \<noteq> [] \<and> hd r = CHR ''.'' then Some (tl r) else None)"

definition endsVersion :: "string \<Rightarrow> bool" where
  "endsVersion s \<longleftrightarrow> s \<noteq> [] \<and> isDecimal (hd s) \<and> list_all versionTailChar s"

definition xrayVersionPattern :: "string \<Rightarrow> bool" where
  "xrayVersionPattern s \<longleftrightarrow> s \<noteq> [] \<and> hd s = CHR ''v'' \<and>
     (case eatNumberDot (tl s) of None \<Rightarrow> False
      | Some r \<Rightarrow> (case eatNumberDot r of None \<Rightarrow> False | Some r2 \<Rightarrow> endsVersion r2))"

definition releaseVersionPattern :: "string \<Rightarrow> bool" where
  "releaseVersionPattern s \<longleftrightarrow>
     (let t = (if s \<noteq> [] \<and> hd s = CHR ''v'' then tl s else s) in
      case eatNumberDot t of None \<Rightarrow> False | Some r \<Rightarrow> endsVersion r)"

definition devVersionPattern :: "string \<Rightarrow> bool" where
  "devVersionPattern s \<longleftrightarrow> hasPrefix s ''dev-'' \<and> 7 \<le> length (drop 4 s) \<and> length (drop 4 s) \<le> 40
     \<and> list_all isHex (drop 4 s)"

definition updateChannelForTag :: "string \<Rightarrow> string" where
  "updateChannelForTag tag =
     (if hasPrefix (toLower (trimSpace tag)) ''dev-'' then ''dev''
      else if trimSpace tag \<noteq> [] then ''latest'' else ''unknown'')"

definition nodeUpdateArgs :: "string \<Rightarrow> string \<Rightarrow> string + string list" where
  "nodeUpdateArgs channel ver =
     (let args = [''update'']; normalizedVersion = trimSpace ver; normalizedChannel = toLower (trimSpace channel) in
      if normalizedVersion \<noteq> [] then
        (if normalizedVersion = ''latest'' then Inr (args @ [''--version'', ''latest''])
         else if normalizedVersion = ''dev'' then Inr (args @ [''--dev''])
         else if devVersionPattern normalizedVersion then Inr (args @ [''--version'', normalizedVersion])
         else if \<not> releaseVersionPattern normalizedVersion then Inl ''invalid update version''
         else Inr (args @ [''--version'', normalizedVersion]))
      else if normalizedChannel \<in> {[], ''current'', ''auto''} then Inr args
      else if normalizedChannel = ''dev'' then Inr (args @ [''--dev''])
      else if normalizedChannel \<in> {''latest'', ''stable'', ''release''} then Inr (args @ [''--version'', ''latest''])
      else Inl ''invalid update channel'')"

definition detectXrayAsset :: "string \<Rightarrow> string \<Rightarrow> string + string" where
  "detectXrayAsset goos goarch =
     (if goos \<noteq> ''linux'' then Inl ''Unsupported platform for node''
      else if goarch = ''amd64'' then Inr ''Xray-linux-64.zip''
      else if goarch = ''arm64'' then Inr ''Xray-linux-arm64-v8a.zip''
      else if goarch = ''arm'' then Inr ''Xray-linux-arm32-v7a.zip''
      else if goarch = ''riscv64'' then Inr ''Xray-linux-riscv64.zip''
      else Inl ''Unsupported platform for node'')"

definition normalizeXrayVersion :: "string \<Rightarrow> string" where
  "normalizeXrayVersion ver =
     (let ver = trimSpace ver in
      if ver \<noteq> [] \<and> \<not> hasPrefix (toLower ver) ''v'' then CHR ''v'' # ver else ver)"

definition validXrayVersion :: "string \<Rightarrow> bool" where
  "validXrayVersion ver = xrayVersionPattern (normalizeXrayVersion ver)"

text \<open>\<open>metadata\<close>: the decoded release file, when there is one.\<close>

definition metadataTag :: "jobj option \<Rightarrow> string option" where
  "metadataTag metadata = (case metadata of None \<Rightarrow> None
     | Some m \<Rightarrow> (case asStr (map_of m ''tag'') of None \<Rightarrow> None
         | Some tag \<Rightarrow> if trimSpace tag \<noteq> [] then Some tag else None))"

definition nodeVersion :: "jobj option \<Rightarrow> settings \<Rightarrow> string" where
  "nodeVersion metadata s = (case metadataTag metadata of Some tag \<Rightarrow> trimSpace tag | None \<Rightarrow> NodeVersion s)"

definition updateChannel :: "jobj option \<Rightarrow> settings \<Rightarrow> string" where
  "updateChannel metadata s = (case metadataTag metadata of Some tag \<Rightarrow> updateChannelForTag tag | None \<Rightarrow> InstallMode s)"

section \<open>Files\<close>

definition allowedGeoFiles :: "string list" where
  "allowedGeoFiles = [''geoip.dat'', ''geosite.dat'']"

definition safeGeoFilename :: "string \<Rightarrow> string" where
  "safeGeoFilename name = (let b = base (trimSpace name) in if b \<in> set allowedGeoFiles then b else [])"

definition emptyDefault :: "string \<Rightarrow> string \<Rightarrow> string" where
  "emptyDefault v fallback = (if trimSpace v = [] then fallback else v)"

definition joinedWarnings :: "string list \<Rightarrow> string" where
  "joinedWarnings values = joinWith ''; '' (filter (\<lambda>v. v \<noteq> []) (map trimSpace values))"

text \<open>\<open>Inl\<close>: another error than a missing file.\<close>

definition tailFile :: "string + string option \<Rightarrow> int \<Rightarrow> string + string list \<times> bool" where
  "tailFile read maxLines = (case read of
       Inl err \<Rightarrow> Inl err
     | Inr None \<Rightarrow> Inr ([], False)
     | Inr (Some body) \<Rightarrow>
         let lines = splitOn (replaceAll body [CHR 0x0D, CHR 0x0A] [CHR 0x0A]) [CHR 0x0A];
             lines = (if lines \<noteq> [] \<and> last lines = [] then butlast lines else lines)
         in if maxLines \<le> 0 then Inr ([], True)
            else if int (length lines) > maxLines then Inr (drop (length lines - nat maxLines) lines, True)
            else Inr (lines, True))"

text \<open>Entries of an archive as \<open>archive/zip\<close> gives them, and the changes \<open>installZipTo\<close> makes.\<close>

record zipEntry =
  zeName :: string
  zeIsDir :: bool
  zeData :: "string + string"

datatype fsAction = MkdirAll string | WriteFile string string | SetAssets string | SnapshotUsage | RestartCached

text \<open>\<open>fsErr\<close> is the file system's answer to an action.\<close>

fun installEntries :: "bool \<Rightarrow> (fsAction \<Rightarrow> string option) \<Rightarrow> string \<Rightarrow> zipEntry list \<Rightarrow> string \<Rightarrow> (string + string) \<times> fsAction list" where
  "installEntries windows fsErr targetDir [] executable =
     (if executable = [] then (Inl ''xray binary not found in archive'', []) else (Inr executable, []))"
| "installEntries windows fsErr targetDir (entry # rest) executable =
     (let cleanName = clean (zeName entry) in
      if isAbs cleanName \<or> cleanName = ''..'' \<or> hasPrefix cleanName ''../''
      then (Inl ''unsafe path in Xray archive'', [])
      else let name = base cleanName in
        if name = ''.'' \<or> name = ''/'' then installEntries windows fsErr targetDir rest executable
        else let dst = joinPath [targetDir, name] in
          if zeIsDir entry then
            (case fsErr (MkdirAll dst) of Some err \<Rightarrow> (Inl err, [MkdirAll dst])
             | None \<Rightarrow> (case installEntries windows fsErr targetDir rest executable of (r, as) \<Rightarrow> (r, MkdirAll dst # as)))
          else case zeData entry of
            Inl err \<Rightarrow> (Inl err, [])
          | Inr content \<Rightarrow>
              (case fsErr (WriteFile dst content) of Some err \<Rightarrow> (Inl err, [WriteFile dst content])
               | None \<Rightarrow>
                   let executable' = (if name = executableName windows ''xray'' \<or> name = ''Xray'' \<or> name = ''Xray.exe'' then dst else executable)
                   in case installEntries windows fsErr targetDir rest executable' of (r, as) \<Rightarrow> (r, WriteFile dst content # as)))"

definition installZipTo :: "bool \<Rightarrow> (string \<Rightarrow> string + zipEntry list) \<Rightarrow> (fsAction \<Rightarrow> string option) \<Rightarrow> string \<Rightarrow> string
    \<Rightarrow> (string + string) \<times> fsAction list" where
  "installZipTo windows zipReader fsErr zipBytes targetDir = (case zipReader zipBytes of
       Inl err \<Rightarrow> (Inl err, [])
     | Inr entries \<Rightarrow> installEntries windows fsErr targetDir entries [])"

section \<open>Downloads\<close>

definition validatePublicHTTPURL :: "(string \<Rightarrow> (string \<times> string) option) \<Rightarrow> (string \<Rightarrow> string + 'ip list) \<Rightarrow> ('ip \<Rightarrow> bool)
    \<Rightarrow> string \<Rightarrow> string option" where
  "validatePublicHTTPURL parseURL lookupIP reserved raw = (case parseURL (trimSpace raw) of
       None \<Rightarrow> Some ''url must be a valid http(s) URL''
     | Some (scheme, hostname) \<Rightarrow>
         if hostname = [] then Some ''url must be a valid http(s) URL''
         else if scheme \<noteq> ''http'' \<and> scheme \<noteq> ''https'' then Some ''url must use http or https''
         else case lookupIP hostname of
           Inl err \<Rightarrow> Some (''url hostname cannot be resolved: '' @ err)
         | Inr addresses \<Rightarrow> if list_ex reserved addresses then Some ''url resolves to a private or reserved address'' else None)"

definition summarizeDownloadBody :: "string \<Rightarrow> string" where
  "summarizeDownloadBody body =
     (let text = trimSpace body in
      if text = [] then ''empty response''
      else if hasPrefix (toLower text) ''<!doctype html'' \<or> hasPrefix (toLower text) ''<html''
        then ''HTML error page from upstream''
      else let text = joinWith '' '' (Prelude.fields text)
           in if length text > 240 then take 240 text @ ''...'' else text)"

text \<open>The response of the HTTP client: status, content length (negative when unknown), body.\<close>

record httpResponse =
  statusCode :: int
  contentLength :: int
  hbody :: "string + string"

definition download :: "(string \<Rightarrow> string + httpResponse) \<Rightarrow> string \<Rightarrow> string + string" where
  "download get url = (case get url of
       Inl err \<Rightarrow> Inl err
     | Inr res \<Rightarrow>
         if statusCode res \<ge> 400 then
           Inl (''http status '' @ formatInt (statusCode res) @ '': ''
             @ summarizeDownloadBody (case hbody res of Inl _ \<Rightarrow> [] | Inr body \<Rightarrow> take 2048 body))
         else case hbody res of Inl err \<Rightarrow> Inl err
         | Inr body \<Rightarrow>
             if contentLength res \<ge> 0 \<and> int (length body) \<noteq> contentLength res
             then Inl (''incomplete download: received '' @ formatUint (length body) @ '' of ''
               @ formatInt (contentLength res) @ '' bytes'')
             else Inr body)"

definition xrayCoreDownloadBaseURLs :: "string list" where
  "xrayCoreDownloadBaseURLs = [''https://github.com/XTLS/Xray-core/releases/download'']"

fun dedupe :: "string list \<Rightarrow> string list \<Rightarrow> string list" where
  "dedupe seen [] = []"
| "dedupe seen (u # us) = (if u \<in> set seen then dedupe seen us else u # dedupe (u # seen) us)"

text \<open>\<open>custom\<close>: the environment variable \<open>XRAY_CORE_DOWNLOAD_BASE_URL\<close>, empty when unset.\<close>

definition xrayCoreDownloadURLs :: "string \<Rightarrow> string \<Rightarrow> string \<Rightarrow> string list" where
  "xrayCoreDownloadURLs custom ver asset =
     (let ver = trimSpace ver; asset = trimSpace asset; custom = trimSpace custom;
          bases = (if custom \<noteq> [] then [custom] else []) @ xrayCoreDownloadBaseURLs;
          bases = filter (\<lambda>b. b \<noteq> []) (map (\<lambda>b. trimRightChars {CHR ''/''} (trimSpace b)) bases)
      in dedupe [] (map (\<lambda>b. b @ ''/'' @ ver @ ''/'' @ asset) bases))"

text \<open>The first candidate that is valid, loads and is an archive; the failures of those before it.\<close>

fun downloadFirst :: "(string \<Rightarrow> string option) \<Rightarrow> (string \<Rightarrow> string + string) \<Rightarrow> (string \<Rightarrow> bool) \<Rightarrow> string list \<Rightarrow> string list
    \<Rightarrow> string + string" where
  "downloadFirst validate fetch isZip [] failures = Inl (joinWith ''; '' failures)"
| "downloadFirst validate fetch isZip (candidate # urls) failures = (case validate candidate of
       Some err \<Rightarrow> downloadFirst validate fetch isZip urls (failures @ [candidate @ '': '' @ err])
     | None \<Rightarrow> (case fetch candidate of
         Inl err \<Rightarrow> downloadFirst validate fetch isZip urls (failures @ [candidate @ '': '' @ err])
       | Inr body \<Rightarrow>
           if isZip body then Inr body
           else downloadFirst validate fetch isZip urls
             (failures @ [candidate @ '': invalid Xray archive: '' @ summarizeDownloadBody body])))"

definition downloadXrayCoreArchive :: "string \<Rightarrow> (string \<Rightarrow> string option) \<Rightarrow> (string \<Rightarrow> string + string) \<Rightarrow> (string \<Rightarrow> bool)
    \<Rightarrow> string \<Rightarrow> string \<Rightarrow> string + string" where
  "downloadXrayCoreArchive custom validate fetch isZip ver asset =
     downloadFirst validate fetch isZip (xrayCoreDownloadURLs custom ver asset) []"

text \<open>The loop of \<open>grpcUpdateGeo\<close>: the files it writes and the error that stops it.\<close>

fun updateGeoFiles :: "(string \<Rightarrow> string option) \<Rightarrow> (string \<Rightarrow> string + string) \<Rightarrow> (fsAction \<Rightarrow> string option) \<Rightarrow> string
    \<Rightarrow> (string \<times> string) list \<Rightarrow> string option \<times> fsAction list" where
  "updateGeoFiles validate fetch fsErr assetsDir [] = (None, [])"
| "updateGeoFiles validate fetch fsErr assetsDir ((fname, furl) # files) =
     (let name = safeGeoFilename fname; url = trimSpace furl in
      if name = [] \<or> url = [] then (Some ''each file must include non-empty name and url'', [])
      else case validate url of Some err \<Rightarrow> (Some err, [])
      | None \<Rightarrow> (case fetch url of
          Inl err \<Rightarrow> (Some (''failed to download '' @ name @ '': '' @ err), [])
        | Inr body \<Rightarrow>
            let act = WriteFile (joinPath [assetsDir, name]) body in
            (case fsErr act of
               Some err \<Rightarrow> (Some (''failed to save '' @ name @ '': '' @ err), [act])
             | None \<Rightarrow> (case updateGeoFiles validate fetch fsErr assetsDir files of (r, as) \<Rightarrow> (r, act # as)))))"

text \<open>\<open>started\<close>: \<open>core.Started()\<close>; \<open>restartErr\<close>: the result of \<open>startCachedConfig(true)\<close>.\<close>

definition grpcUpdateGeo :: "(string \<Rightarrow> string option) \<Rightarrow> (string \<Rightarrow> string + string) \<Rightarrow> (fsAction \<Rightarrow> string option) \<Rightarrow> bool \<Rightarrow> string option
    \<Rightarrow> settings \<Rightarrow> (string \<times> string) list \<Rightarrow> string option \<times> fsAction list" where
  "grpcUpdateGeo validate fetch fsErr started restartErr s files =
     (if files = [] then (Some ([CHR 0x27] @ ''files'' @ [CHR 0x27] @ '' must be a non-empty list of {name,url}''), [])
      else let assetsDir = joinPath [RebeccaDataDir s, ''assets''] in
        case fsErr (MkdirAll assetsDir) of Some err \<Rightarrow> (Some err, [MkdirAll assetsDir])
        | None \<Rightarrow> (case updateGeoFiles validate fetch fsErr assetsDir files of
            (Some err, as) \<Rightarrow> (Some err, MkdirAll assetsDir # as)
          | (None, as) \<Rightarrow>
              let acts = MkdirAll assetsDir # as @ [SetAssets assetsDir] in
              if \<not> started then (None, acts)
              else (map_option (\<lambda>e. ''Geo assets updated but runtime restart failed: '' @ e) restartErr,
                    acts @ [SnapshotUsage, RestartCached])))"

section \<open>Commands\<close>

fun firstCLI :: "(string \<Rightarrow> bool) \<Rightarrow> (string \<Rightarrow> string option) \<Rightarrow> string list \<Rightarrow> string option" where
  "firstCLI fileExists lookPath [] = None"
| "firstCLI fileExists lookPath (candidate # rest) =
     (if contains candidate ''/'' then
        (if fileExists candidate then Some candidate else firstCLI fileExists lookPath rest)
      else case lookPath candidate of Some path \<Rightarrow> Some path | None \<Rightarrow> firstCLI fileExists lookPath rest)"

definition resolveNodeCLI :: "(string \<Rightarrow> bool) \<Rightarrow> (string \<Rightarrow> string option) \<Rightarrow> string \<Rightarrow> string \<Rightarrow> string + string" where
  "resolveNodeCLI fileExists lookPath scriptBin appName =
     (let configured = trimSpace scriptBin in
      if configured \<noteq> [] \<and> fileExists configured then Inr configured
      else let candidates = (if trimSpace appName \<noteq> [] then [appName, joinPath [''/usr/local/bin'', appName]] else [])
             @ [''rebecca-node'', ''/usr/local/bin/rebecca-node'']
           in case firstCLI fileExists lookPath candidates of Some path \<Rightarrow> Inr path
             | None \<Rightarrow> Inl ''unable to locate rebecca-node CLI on this host'')"

definition hostActionCommand :: "bool \<Rightarrow> string option \<Rightarrow> int \<Rightarrow> string \<Rightarrow> string list \<Rightarrow> string \<times> string list" where
  "hostActionCommand linux systemdRun nowNano cli args =
     (case systemdRun of
        Some path \<Rightarrow> if linux then (path, [''--unit'', ''rebecca-node-host-action-'' @ formatInt nowNano, ''--collect'',
            ''--description'', ''Rebecca-node host action'', ''--'', cli] @ args) else (cli, args)
      | None \<Rightarrow> (cli, args))"

section \<open>Identifiers and request fields\<close>

definition hexDigit :: "nat \<Rightarrow> char" where
  "hexDigit n = (if n < 10 then char_of (48 + n) else char_of (87 + n))"

definition hexEncode :: "nat list \<Rightarrow> string" where
  "hexEncode bs = concat (map (\<lambda>b. [hexDigit (b div 16), hexDigit (b mod 16)]) bs)"

text \<open>\<open>raw\<close>: sixteen random bytes; the bit operations as arithmetic on a byte.\<close>

definition newUUID :: "nat list \<Rightarrow> string" where
  "newUUID raw =
     (let raw = raw[6 := raw ! 6 mod 16 + 64]; raw = raw[8 := raw ! 8 mod 64 + 128]; e = hexEncode raw in
      take 8 e @ ''-'' @ take 4 (drop 8 e) @ ''-'' @ take 4 (drop 12 e) @ ''-'' @ take 4 (drop 16 e) @ ''-'' @ drop 20 e)"

definition maxInt64 :: "int \<Rightarrow> int \<Rightarrow> int" where
  "maxInt64 v minimum = (if v < minimum then minimum else v)"

definition field :: "(string, string) gomap \<Rightarrow> string \<Rightarrow> string" where
  "field fs key = trimSpace (mget [] fs key)"

definition parseUint32Field :: "(string, string) gomap \<Rightarrow> string \<Rightarrow> string + nat" where
  "parseUint32Field fs key = (if field fs key = [] then Inr 0
     else case parseUint 32 (field fs key) of None \<Rightarrow> Inl (key @ '' must be a uint32'') | Some n \<Rightarrow> Inr n)"

definition parseInt32Field :: "(string, string) gomap \<Rightarrow> string \<Rightarrow> string + int" where
  "parseInt32Field fs key = (if field fs key = [] then Inr 0
     else case parseInt 32 (field fs key) of None \<Rightarrow> Inl (key @ '' must be an int32'') | Some n \<Rightarrow> Inr n)"

definition parseBoolField :: "(string, string) gomap \<Rightarrow> string \<Rightarrow> string + bool" where
  "parseBoolField fs key = (if field fs key = [] then Inr False
     else case ParseBool (field fs key) of Inl _ \<Rightarrow> Inl (key @ '' must be a bool'') | Inr b \<Rightarrow> Inr b)"

record protoUser =
  puEmail :: string
  puProtocol :: string
  puFields :: "(string, string) gomap"

definition protoInboundUser :: "protoUser option \<Rightarrow> string + InboundUser" where
  "protoInboundUser user = (case user of None \<Rightarrow> Inl ''user is required''
     | Some u \<Rightarrow> let fs = puFields u in
         (case parseUint32Field fs ''level'' of Inl err \<Rightarrow> Inl err
          | Inr level \<Rightarrow> (case parseInt32Field fs ''cipher_type'' of Inl err \<Rightarrow> Inl err
            | Inr cipherType \<Rightarrow> (case parseBoolField fs ''iv_check'' of Inl err \<Rightarrow> Inl err
              | Inr ivCheck \<Rightarrow>
                  let auth = (if field fs ''auth'' = [] then field fs ''password'' else field fs ''auth'') in
                  Inr \<lparr>Protocol = trimSpace (puProtocol u), Email = trimSpace (puEmail u), Level = level,
                    ID = field fs ''id'', Password = field fs ''password'', Auth = auth, Flow = field fs ''flow'',
                    ReverseTag = [], UserMethod = field fs ''method'', CipherType = cipherType, IVCheck = ivCheck\<rparr>))))"

section \<open>Lemmas\<close>

lemma isDecimal_tail [simp]: "isDecimal c \<Longrightarrow> versionTailChar c"
  by (simp add: versionTailChar_def)

lemma dot_tail [simp]: "versionTailChar CHR ''.''"
  by (simp add: versionTailChar_def)

lemma dash_not_decimal: "\<not> isDecimal CHR ''-''"
  by (simp add: isDecimal_def digitVal_def)

lemma isHex_tail: "isHex c \<Longrightarrow> versionTailChar c"
  by (auto simp: isHex_def versionTailChar_def isAlpha_def isDecimal_def digitVal_def Let_def)

lemma eatNumberDot_tail:
  "eatNumberDot s = Some r \<Longrightarrow> list_all versionTailChar r \<Longrightarrow> list_all versionTailChar s \<and> s \<noteq> [] \<and> isDecimal (hd s)"
proof -
  assume e: "eatNumberDot s = Some r" and r: "list_all versionTailChar r"
  let ?d = "dropWhile isDecimal s"
  have d: "?d \<noteq> []" "hd ?d = CHR ''.''" "r = tl ?d" "s \<noteq> []" "isDecimal (hd s)"
    using e by (auto simp: eatNumberDot_def Let_def split: if_splits)
  have "list_all versionTailChar ?d" using d r by (cases ?d) auto
  moreover have "list_all versionTailChar (takeWhile isDecimal s)"
    by (auto simp: list_all_iff dest: set_takeWhileD)
  ultimately have "list_all versionTailChar s" by (metis list_all_append takeWhile_dropWhile_id)
  with d show ?thesis by simp
qed

definition safeVersion :: "string \<Rightarrow> bool" where
  "safeVersion s \<longleftrightarrow> s \<noteq> [] \<and> hd s \<noteq> CHR ''-'' \<and> list_all versionTailChar s"

lemma alpha_v [simp]: "versionTailChar CHR ''v''"
  by (simp add: versionTailChar_def isAlpha_def Let_def)

lemma release_safe: "releaseVersionPattern s \<Longrightarrow> safeVersion s"
proof -
  assume "releaseVersionPattern s"
  then obtain t r where t: "t = (if s \<noteq> [] \<and> hd s = CHR ''v'' then tl s else s)" "eatNumberDot t = Some r" "endsVersion r"
    by (auto simp: releaseVersionPattern_def Let_def split: option.splits)
  from eatNumberDot_tail [OF t(2)] t(3) have "list_all versionTailChar t" "t \<noteq> []" "isDecimal (hd t)"
    by (auto simp: endsVersion_def)
  with t(1) dash_not_decimal show ?thesis by (cases s) (auto simp: safeVersion_def split: if_splits)
qed

lemma dev_safe: "devVersionPattern s \<Longrightarrow> safeVersion s"
proof -
  assume d: "devVersionPattern s"
  then have "take 4 s = ''dev-''" by (simp add: devVersionPattern_def hasPrefix_def eval_nat_numeral)
  then have s: "s = ''dev-'' @ drop 4 s" by (metis append_take_drop_id)
  have "list_all versionTailChar (drop 4 s)" using d isHex_tail by (auto simp: devVersionPattern_def list_all_iff)
  moreover have "list_all versionTailChar ''dev-''"
    by (simp add: versionTailChar_def isAlpha_def Let_def)
  ultimately have "safeVersion (''dev-'' @ drop 4 s)" unfolding safeVersion_def by (simp del: append_Cons append_Nil)
  with s show ?thesis by metis
qed

lemma installEntries_confined:
  "snd (installEntries windows fsErr targetDir entries exe) = acts \<Longrightarrow>
   list_all (\<lambda>a. \<exists>n d. plainComp n \<and> n \<noteq> ''..'' \<and>
      (a = MkdirAll (joinPath [targetDir, n]) \<or> a = WriteFile (joinPath [targetDir, n]) d)) acts"
proof (induction entries arbitrary: exe acts)
  case Nil
  then show ?case by (auto split: if_splits)
next
  case (Cons entry rest)
  let ?c = "clean (zeName entry)" and ?ok = "\<lambda>a. \<exists>n d. plainComp n \<and> n \<noteq> ''..'' \<and>
      (a = MkdirAll (joinPath [targetDir, n]) \<or> a = WriteFile (joinPath [targetDir, n]) d)"
  have IH: "list_all ?ok (snd (installEntries windows fsErr targetDir rest e))" for e using Cons.IH by blast
  show ?case
  proof (cases "isAbs ?c \<or> ?c = ''..'' \<or> hasPrefix ?c ''../'' \<or> base ?c = ''.'' \<or> base ?c = ''/''")
    case True
    then show ?thesis using Cons.prems IH by (auto simp: Let_def split: if_splits)
  next
    case False
    have ne: "zeName entry \<noteq> []" using False by (auto simp: clean_def base_def trimRight_id)
    have "\<not> isAbs (zeName entry)" using False clean_abs by blast
    with base_clean_relative [OF ne] False have n: "plainComp (base ?c)" "base ?c \<noteq> ''..''" by auto
    then have ok: "?ok (MkdirAll (joinPath [targetDir, base ?c]))" "?ok (WriteFile (joinPath [targetDir, base ?c]) d)" for d
      by blast+
    let ?dst = "joinPath [targetDir, base ?c]"
    show ?thesis
    proof (cases "zeIsDir entry")
      case True
      then show ?thesis
        using Cons.prems False IH [of exe] ok(1)
        by (auto simp: Let_def split: option.splits prod.splits)
    next
      case nd: False
      show ?thesis
      proof (cases "zeData entry")
        case (Inl err)
        then show ?thesis using Cons.prems False nd by (simp add: Let_def)
      next
        case (Inr content)
        let ?exe = "if base ?c = executableName windows ''xray'' \<or> base ?c = ''Xray'' \<or> base ?c = ''Xray.exe'' then ?dst else exe"
        show ?thesis
        proof (cases "fsErr (WriteFile ?dst content)")
          case None
          have "acts = WriteFile ?dst content # snd (installEntries windows fsErr targetDir rest ?exe)"
            using Cons.prems False nd Inr None by (auto simp: Let_def case_prod_beta)
          then show ?thesis using IH [of ?exe] ok(2) by simp
        next
          case (Some err)
          then have "acts = [WriteFile ?dst content]" using Cons.prems False nd Inr by (simp add: Let_def)
          then show ?thesis using ok(2) by simp
        qed
      qed
    qed
  qed
qed

lemma updateGeoFiles_confined:
  "snd (updateGeoFiles validate fetch fsErr adir files) = acts \<Longrightarrow>
   list_all (\<lambda>a. \<exists>n d. n \<in> {''geoip.dat'', ''geosite.dat''} \<and> a = WriteFile (joinPath [adir, n]) d) acts"
proof (induction files arbitrary: acts)
  case Nil
  then show ?case by simp
next
  case (Cons f files)
  obtain fname furl where f: "f = (fname, furl)" by (cases f)
  let ?n = "safeGeoFilename fname"
  have n: "?n = [] \<or> ?n \<in> {''geoip.dat'', ''geosite.dat''}"
    by (simp add: safeGeoFilename_def allowedGeoFiles_def Let_def)
  have "acts = [] \<or> (?n \<noteq> [] \<and> (\<exists>d xs. acts = WriteFile (joinPath [adir, ?n]) d # xs
      \<and> (xs = [] \<or> xs = snd (updateGeoFiles validate fetch fsErr adir files))))"
    using Cons.prems by (auto simp: f Let_def split: if_splits option.splits sum.splits prod.splits)
  with n Cons.IH show ?case by auto
qed

lemma dedupe_distinct: "distinct (dedupe seen us) \<and> set (dedupe seen us) \<inter> set seen = {}"
  by (induction us arbitrary: seen) force+

lemma length_hexEncode [simp]: "length (hexEncode bs) = 2 * length bs"
  by (induction bs) (simp_all add: hexEncode_def)

lemma hexEncode_nth:
  assumes "i < length bs"
  shows "hexEncode bs ! (2 * i) = hexDigit (bs ! i div 16)" "hexEncode bs ! Suc (2 * i) = hexDigit (bs ! i mod 16)"
proof -
  have "hexEncode bs ! (2 * i) = hexDigit (bs ! i div 16) \<and> hexEncode bs ! Suc (2 * i) = hexDigit (bs ! i mod 16)"
    using assms
  proof (induction bs arbitrary: i)
    case (Cons b bs)
    then show ?case by (cases i) (auto simp: hexEncode_def)
  qed simp
  then show "hexEncode bs ! (2 * i) = hexDigit (bs ! i div 16)" "hexEncode bs ! Suc (2 * i) = hexDigit (bs ! i mod 16)"
    by simp_all
qed

lemma hexDigit_values: "hexDigit 4 = CHR ''4''" "hexDigit 8 = CHR ''8''" "hexDigit 9 = CHR ''9''"
  "hexDigit 10 = CHR ''a''" "hexDigit 11 = CHR ''b''"
  by (simp_all add: hexDigit_def char_of_def bit_0)

section \<open>Properties\<close>

text \<open>
  Nothing can be smuggled into the update command: whatever channel and version a request
  names, the arguments of the node's command line tool are \<open>update\<close>, possibly with \<open>--dev\<close>, or
  with \<open>--version\<close> and one word that does not start with a dash and has only letters, digits and
  the characters dash, plus, dot and underscore.
\<close>

theorem node_update_args_safe:
  "case nodeUpdateArgs channel ver of
     Inl err \<Rightarrow> err \<in> {''invalid update version'', ''invalid update channel''}
   | Inr args \<Rightarrow> args = [''update''] \<or> args = [''update'', ''--dev''] \<or>
       (\<exists>v. args = [''update'', ''--version'', v] \<and> v \<noteq> [] \<and> hd v \<noteq> CHR ''-'' \<and> list_all versionTailChar v)"
proof -
  have "safeVersion ''latest''" by (simp add: safeVersion_def versionTailChar_def isAlpha_def Let_def)
  then show ?thesis
    using release_safe [of "trimSpace ver"] dev_safe [of "trimSpace ver"]
    by (auto simp: nodeUpdateArgs_def Let_def safeVersion_def)
qed

text \<open>
  Unpacking an archive stays inside the target directory: every directory it makes and every
  file it writes is the target directory joined with a single name, which contains no slash and is
  not \<open>..\<close>, whatever names the archive holds and wherever the unpacking stops.
\<close>

theorem zip_entries_confined:
  "list_all (\<lambda>a. \<exists>n d. n \<noteq> [] \<and> n \<noteq> ''.'' \<and> n \<noteq> ''..'' \<and> slash \<notin> set n \<and>
      (a = MkdirAll (joinPath [targetDir, n]) \<or> a = WriteFile (joinPath [targetDir, n]) d))
    (snd (installZipTo windows zipReader fsErr zipBytes targetDir))"
proof (cases "zipReader zipBytes")
  case (Inr entries)
  have "list_all (\<lambda>a. \<exists>n d. plainComp n \<and> n \<noteq> ''..'' \<and>
      (a = MkdirAll (joinPath [targetDir, n]) \<or> a = WriteFile (joinPath [targetDir, n]) d))
    (snd (installEntries windows fsErr targetDir entries []))"
    by (rule installEntries_confined [OF refl])
  then show ?thesis
    unfolding installZipTo_def Inr sum.case plainComp_def conj_assoc
    by (rule list.pred_mono_strong) blast
qed (simp add: installZipTo_def)

text \<open>
  An update of the geo files writes nothing but \<open>geoip.dat\<close> and \<open>geosite.dat\<close> in the assets
  directory: whatever names a request holds, and wherever the update stops, every file it writes
  is one of the two, and Xray is restarted only after all of them were written.
\<close>

theorem geo_update_confined:
  "list_all (\<lambda>a. case a of
      WriteFile path d \<Rightarrow> path = joinPath [joinPath [RebeccaDataDir s, ''assets''], ''geoip.dat'']
        \<or> path = joinPath [joinPath [RebeccaDataDir s, ''assets''], ''geosite.dat'']
    | RestartCached \<Rightarrow> started \<and>
        fst (updateGeoFiles validate fetch fsErr (joinPath [RebeccaDataDir s, ''assets'']) files) = None
    | _ \<Rightarrow> True)
   (snd (grpcUpdateGeo validate fetch fsErr started restartErr s files))"
proof -
  let ?dir = "joinPath [RebeccaDataDir s, ''assets'']"
  obtain r as where u: "updateGeoFiles validate fetch fsErr ?dir files = (r, as)" by (cases "updateGeoFiles validate fetch fsErr ?dir files")
  have w: "\<exists>n d. n \<in> {''geoip.dat'', ''geosite.dat''} \<and> a = WriteFile (joinPath [?dir, n]) d" if "a \<in> set as" for a
    using updateGeoFiles_confined [of validate fetch fsErr ?dir files as] u that by (simp add: list_all_iff)
  have "set (snd (grpcUpdateGeo validate fetch fsErr started restartErr s files))
      \<subseteq> {MkdirAll ?dir, SetAssets ?dir, SnapshotUsage} \<union> set as \<union> (if r = None \<and> started then {RestartCached} else {})"
    by (auto simp: grpcUpdateGeo_def u Let_def split: option.splits)
  with w show ?thesis unfolding u fst_conv list_all_iff by (fastforce split: if_splits)
qed

text \<open>
  The identifiers of connections are random UUIDs of version 4: for sixteen random bytes the
  result has 36 characters, the version digit 4 at its place and one of the digits 8, 9, a, b after
  the third dash.
\<close>

theorem uuid_shape:
  assumes "length raw = 16" and "list_all (\<lambda>b. b < 256) raw"
  shows "length (newUUID raw) = 36 \<and> newUUID raw ! 14 = CHR ''4''
    \<and> newUUID raw ! 19 \<in> {CHR ''8'', CHR ''9'', CHR ''a'', CHR ''b''}"
proof -
  define bs where "bs = raw[6 := raw ! 6 mod 16 + 64, 8 := raw[6 := raw ! 6 mod 16 + 64] ! 8 mod 64 + 128]"
  have len: "length bs = 16" using assms(1) by (simp add: bs_def)
  let ?e = "hexEncode bs"
  have l: "length ?e = 32" by (simp add: len)
  have u: "newUUID raw = take 8 ?e @ ''-'' @ take 4 (drop 8 ?e) @ ''-'' @ take 4 (drop 12 ?e) @ ''-'' @ take 4 (drop 16 ?e) @ ''-'' @ drop 20 ?e"
    by (simp add: newUUID_def Let_def bs_def)
  have e12: "?e ! 12 = hexDigit (bs ! 6 div 16)" and e16: "?e ! 16 = hexDigit (bs ! 8 div 16)"
    using hexEncode_nth(1) [of 6 bs] hexEncode_nth(1) [of 8 bs] len by simp_all
  have "bs ! 6 div 16 = 4" using assms(1) by (simp add: bs_def)
  then have four: "?e ! 12 = CHR ''4''" by (simp add: e12 hexDigit_values)
  define v where "v = bs ! 8 div 16"
  have "bs ! 8 = raw ! 8 mod 64 + 128" using assms(1) by (simp add: bs_def)
  then have "8 \<le> v" "v < 12" unfolding v_def by (simp_all add: div_less_iff_less_mult less_eq_div_iff_mult_less_eq)
  then have "v \<in> {8, 9, 10, 11}" by auto
  then have var: "?e ! 16 \<in> {CHR ''8'', CHR ''9'', CHR ''a'', CHR ''b''}"
    unfolding e16 v_def [symmetric] using hexDigit_values by (elim insertE) simp_all
  have "newUUID raw ! 14 = ?e ! 12" "newUUID raw ! 19 = ?e ! 16"
    unfolding u by (simp_all add: nth_append len)
  with four var show ?thesis by (simp add: u len)
qed

theorem uuid_shape_witness: "length (newUUID (replicate 16 255)) = 36"
  using uuid_shape [of "replicate 16 255"] by (simp add: list_all_iff)

end
