(* ===== verification/Config_Users.thy ===== *)
theory Config_Users
  imports Config_Cache Proxyman Server_Util "HOL-Library.Countable" "HOL-Library.List_Lexorder" "HOL-Library.Char_ord" "HOL-Library.Multiset"
begin

text \<open>
  The users inside a configuration: \<open>internal/node/config_cache_users.go\<close>. Users are read from the
  clients of the inbounds, a single user is patched into the cached document, and the difference of
  two documents is applied to the running Xray. The JSON library is a parameter (\<open>jsonCodec\<close>) with
  the laws the proofs use. Results: a patch has its effect on the user and on no other, applying a
  difference leaves Xray with the users of the new document, and a failed update restores the user.
\<close>

section \<open>The JSON library\<close>

record typedInbound =
  tiTag :: string
  tiProtocol :: string
  tiSettings :: jobj

text \<open>
  \<open>decodeJSON\<close> and \<open>encodeJSON\<close> are \<open>json.Unmarshal\<close> into \<open>any\<close> and \<open>json.Marshal\<close>, \<open>decodeInbounds\<close>
  is the decoding into the anonymous struct of \<open>shadowsocksMethodsFromConfig\<close>, \<open>sprintJSON\<close> is
  \<open>fmt.Sprint\<close>, and the last two convert a decoded \<open>float64\<close>, given by its text.
\<close>

record jsonCodec =
  decodeJSON :: "string \<Rightarrow> string + json"
  encodeJSON :: "json \<Rightarrow> string"
  decodeInbounds :: "string \<Rightarrow> typedInbound list option"
  sprintJSON :: "json \<Rightarrow> string"
  floatUint32 :: "string \<Rightarrow> nat"
  floatInt32 :: "string \<Rightarrow> int"

text \<open>Encoding writes the keys of a map in order; \<open>canon\<close> is the value read back.\<close>

primrec canon :: "json \<Rightarrow> json" where
  "canon JNull = JNull"
| "canon (JBool b) = JBool b"
| "canon (JNum n) = JNum n"
| "canon (JStr s) = JStr s"
| "canon (JArr xs) = JArr (map canon xs)"
| "canon (JObj m) = JObj (sort_key fst (map (map_prod id canon) m))"

definition canonObj :: "jobj \<Rightarrow> jobj" where
  "canonObj m = sort_key fst (map (map_prod id canon) m)"

definition jsonLaws :: "jsonCodec \<Rightarrow> bool" where
  "jsonLaws J \<longleftrightarrow> (\<forall>v. decodeJSON J (encodeJSON J v) = Inr (canon v) \<and> encodeJSON J (canon v) = encodeJSON J v
       \<and> sprintJSON J (canon v) = sprintJSON J v \<and> trimSpace (encodeJSON J v) \<noteq> [])
     \<and> (\<forall>n < 2 ^ 32. floatUint32 J (formatUint n) = n)
     \<and> (\<forall>i. - (2 ^ 31) \<le> i \<and> i < 2 ^ 31 \<longrightarrow> floatInt32 J (formatInt i) = i)"

text \<open>Decoding into \<open>map[string]any\<close>; a nil map is read like an empty one.\<close>

definition unmarshalMap :: "jsonCodec \<Rightarrow> string \<Rightarrow> string + jobj" where
  "unmarshalMap J raw = (case decodeJSON J raw of Inl err \<Rightarrow> Inl err
     | Inr (JObj m) \<Rightarrow> Inr m
     | Inr JNull \<Rightarrow> Inr []
     | Inr _ \<Rightarrow> Inl ''json: cannot unmarshal into Go value of type map[string]interface {}'')"

section \<open>Client values\<close>

definition anySlice :: "json option \<Rightarrow> json list" where
  "anySlice v = arrOr v"

definition asString :: "jsonCodec \<Rightarrow> json option \<Rightarrow> string" where
  "asString J v = (case v of None \<Rightarrow> [] | Some JNull \<Rightarrow> [] | Some (JStr s) \<Rightarrow> s | Some w \<Rightarrow> sprintJSON J w)"

definition clientEmail :: "jsonCodec \<Rightarrow> json \<Rightarrow> string" where
  "clientEmail J v = (case v of JObj client \<Rightarrow> asString J (map_of client ''email'') | _ \<Rightarrow> [])"

fun firstPresent :: "jobj \<Rightarrow> string list \<Rightarrow> json option" where
  "firstPresent values [] = None"
| "firstPresent values (key # keys) = (case map_of values key of Some v \<Rightarrow> Some v | None \<Rightarrow> firstPresent values keys)"

definition uint32ClientValue :: "jsonCodec \<Rightarrow> json option \<Rightarrow> string + nat" where
  "uint32ClientValue J v = (case v of None \<Rightarrow> Inr 0 | Some JNull \<Rightarrow> Inr 0
     | Some (JNum t) \<Rightarrow> Inr (floatUint32 J t)
     | Some (JStr s) \<Rightarrow> if trimSpace s = [] then Inr 0
         else (case parseUint 32 (trimSpace s) of None \<Rightarrow> Inl ''strconv.ParseUint'' | Some n \<Rightarrow> Inr n)
     | _ \<Rightarrow> Inl ''level must be numeric'')"

definition int32ClientValue :: "jsonCodec \<Rightarrow> json option \<Rightarrow> string + int" where
  "int32ClientValue J v = (case v of None \<Rightarrow> Inr 0 | Some JNull \<Rightarrow> Inr 0
     | Some (JNum t) \<Rightarrow> Inr (floatInt32 J t)
     | Some (JStr s) \<Rightarrow> if trimSpace s = [] then Inr 0
         else (case parseInt 32 (trimSpace s) of None \<Rightarrow> Inl ''strconv.ParseInt'' | Some n \<Rightarrow> Inr n)
     | _ \<Rightarrow> Inl ''cipher_type must be numeric'')"

text \<open>The errors of \<open>strconv\<close> are named by their function here. \<open>strconv.ParseBool\<close>, and the value with whether there is one.\<close>

definition strconvParseBool :: "string \<Rightarrow> bool option" where
  "strconvParseBool s = (if s \<in> {''1'', ''t'', ''T'', ''true'', ''TRUE'', ''True''} then Some True
     else if s \<in> {''0'', ''f'', ''F'', ''false'', ''FALSE'', ''False''} then Some False else None)"

definition boolClientValue :: "json option \<Rightarrow> bool \<times> bool" where
  "boolClientValue v = (case v of Some (JBool b) \<Rightarrow> (b, True)
     | Some (JStr s) \<Rightarrow> (case strconvParseBool (trimSpace s) of Some b \<Rightarrow> (b, True) | None \<Rightarrow> (False, False))
     | _ \<Rightarrow> (False, False))"

definition inboundUserFromClient :: "jsonCodec \<Rightarrow> string \<Rightarrow> jobj \<Rightarrow> string + InboundUser" where
  "inboundUserFromClient J protocol client =
     (case uint32ClientValue J (map_of client ''level'') of Inl err \<Rightarrow> Inl err
      | Inr level \<Rightarrow>
     (case int32ClientValue J (firstPresent client [''cipher_type'', ''cipherType'']) of Inl err \<Rightarrow> Inl err
      | Inr cipherType \<Rightarrow>
        let ivCheck = fst (boolClientValue (firstPresent client [''iv_check'', ''ivCheck'']));
            auth0 = trimSpace (asString J (map_of client ''auth''));
            auth = (if auth0 = [] then trimSpace (asString J (map_of client ''password'')) else auth0);
            reverseTag = (case asObj (map_of client ''reverse'') of None \<Rightarrow> []
              | Some reverse \<Rightarrow> trimSpace (asString J (map_of reverse ''tag'')))
        in Inr \<lparr>Protocol = protocol,
             Email = trimSpace (asString J (map_of client ''email'')),
             Level = level,
             ID = trimSpace (asString J (firstPresent client [''id'', ''uuid''])),
             Password = trimSpace (asString J (map_of client ''password'')),
             Auth = auth,
             Flow = trimSpace (asString J (map_of client ''flow'')),
             ReverseTag = reverseTag,
             UserMethod = trimSpace (asString J (map_of client ''method'')),
             CipherType = cipherType, IVCheck = ivCheck\<rparr>))"

text \<open>An assignment to the map of the client under a condition.\<close>

definition putIf :: "bool \<Rightarrow> string \<Rightarrow> json \<Rightarrow> jobj \<Rightarrow> jobj" where
  "putIf present k v m = (if present then AList.update k v m else m)"

definition putString :: "string \<Rightarrow> string \<Rightarrow> jobj \<Rightarrow> jobj" where
  "putString k s m = putIf (trimSpace s \<noteq> []) k (JStr (trimSpace s)) m"

definition inboundUserClientMap :: "InboundUser \<Rightarrow> jobj" where
  "inboundUserClientMap user =
     putIf (IVCheck user) ''iv_check'' (JBool True)
     (putIf (CipherType user \<noteq> 0) ''cipher_type'' (JNum (formatInt (CipherType user)))
     (putString ''method'' (UserMethod user)
     (putIf (trimSpace (ReverseTag user) \<noteq> []) ''reverse'' (JObj [(''tag'', JStr (trimSpace (ReverseTag user)))])
     (putString ''flow'' (Flow user)
     (putString ''auth'' (Auth user)
     (putString ''password'' (Password user)
     (putString ''id'' (ID user)
     (putIf (Level user \<noteq> 0) ''level'' (JNum (formatUint (Level user)))
     [(''email'', JStr (trimSpace (Email user)))]))))))))"

section \<open>The users of a document\<close>

record configClientState =
  csProtocol :: string
  csClients :: "(string, InboundUser) gomap"
  csRaw :: "(string, string) gomap"

definition noClients :: "string \<Rightarrow> configClientState" where
  "noClients protocol = \<lparr>csProtocol = protocol, csClients = [], csRaw = []\<rparr>"

text \<open>The user of one client of an inbound, \<open>None\<close> where the loop goes on to the next.\<close>

definition clientUser :: "jsonCodec \<Rightarrow> string \<Rightarrow> string \<Rightarrow> jobj \<Rightarrow> json \<Rightarrow> string + (InboundUser \<times> string) option" where
  "clientUser J tag protocol settings item = (case item of
       JObj client \<Rightarrow> (case inboundUserFromClient J protocol client of
           Inl err \<Rightarrow> Inl (''inbound '' @ tag @ '' client: '' @ err)
         | Inr user \<Rightarrow>
             if Email user = [] then Inr None
             else Inr (Some (if protocol = ''vless'' \<and> Flow user = []
                               then user\<lparr>Flow := trimSpace (asString J (map_of settings ''flow''))\<rparr> else user,
                             encodeJSON J (JObj client))))
     | _ \<Rightarrow> Inr None)"

fun inboundClients :: "jsonCodec \<Rightarrow> string \<Rightarrow> string \<Rightarrow> jobj \<Rightarrow> json list \<Rightarrow> configClientState \<Rightarrow> string + configClientState" where
  "inboundClients J tag protocol settings [] st = Inr st"
| "inboundClients J tag protocol settings (item # items) st =
     (case clientUser J tag protocol settings item of
        Inl err \<Rightarrow> Inl err
      | Inr None \<Rightarrow> inboundClients J tag protocol settings items st
      | Inr (Some (user, raw)) \<Rightarrow> inboundClients J tag protocol settings items
          (st\<lparr>csClients := AList.update (Email user) user (csClients st), csRaw := AList.update (Email user) raw (csRaw st)\<rparr>))"

fun inboundStates :: "jsonCodec \<Rightarrow> json list \<Rightarrow> (string, configClientState) gomap \<Rightarrow> string + (string, configClientState) gomap" where
  "inboundStates J [] result = Inr result"
| "inboundStates J (item # items) result =
     (case item of
        JObj inbound \<Rightarrow>
          (let tag = trimSpace (asString J (map_of inbound ''tag''));
               protocol = toLower (trimSpace (asString J (map_of inbound ''protocol'')));
               settings = objOr (map_of inbound ''settings'')
           in if tag = [] \<or> protocol = [] then inboundStates J items result
              else case inboundClients J tag protocol settings (anySlice (map_of settings ''clients'')) (noClients protocol) of
                Inl err \<Rightarrow> Inl err
              | Inr st \<Rightarrow> inboundStates J items (AList.update tag st result))
      | _ \<Rightarrow> inboundStates J items result)"

definition configClientStates :: "jsonCodec \<Rightarrow> string \<Rightarrow> string + (string, configClientState) gomap" where
  "configClientStates J rawConfig = (case unmarshalMap J rawConfig of Inl err \<Rightarrow> Inl err
     | Inr config \<Rightarrow> inboundStates J (anySlice (map_of config ''inbounds'')) [])"

section \<open>Patching a user into the document\<close>

definition patchInbound :: "jsonCodec \<Rightarrow> string \<Rightarrow> InboundUser option \<Rightarrow> jobj \<Rightarrow> jobj \<times> bool" where
  "patchInbound J email adding inbound =
     (let settings = objOr (map_of inbound ''settings'');
          clients = anySlice (map_of settings ''clients'');
          next = filter (\<lambda>client. trimSpace (clientEmail J client) \<noteq> email) clients;
          dropped = (length next \<noteq> length clients);
          next' = (case adding of None \<Rightarrow> next
            | Some user \<Rightarrow>
                let client = inboundUserClientMap user in
                next @ [JObj (if hasPrefix (asString J (map_of settings ''method'')) ''2022-''
                              then AList.delete ''method'' client else client)])
      in (AList.update ''settings'' (JObj (AList.update ''clients'' (JArr next') settings)) inbound,
          dropped \<or> adding \<noteq> None))"

fun patchInbounds :: "jsonCodec \<Rightarrow> string \<Rightarrow> string \<Rightarrow> InboundUser option \<Rightarrow> json list \<Rightarrow> json list \<times> bool" where
  "patchInbounds J inboundTag email adding [] = ([], False)"
| "patchInbounds J inboundTag email adding (item # items) =
     (case item of
        JObj inbound \<Rightarrow>
          if trimSpace (asString J (map_of inbound ''tag'')) = inboundTag
          then (case patchInbound J email adding inbound of (inbound', changed) \<Rightarrow> (JObj inbound' # items, changed))
          else (case patchInbounds J inboundTag email adding items of (items', changed) \<Rightarrow> (item # items', changed))
      | _ \<Rightarrow> (case patchInbounds J inboundTag email adding items of (items', changed) \<Rightarrow> (item # items', changed)))"

definition patchConfigCacheUserJSON :: "jsonCodec \<Rightarrow> string \<Rightarrow> string \<Rightarrow> InboundUser \<Rightarrow> string \<Rightarrow> string + string \<times> bool" where
  "patchConfigCacheUserJSON J rawConfig inboundTag user removeEmail = (case unmarshalMap J rawConfig of
       Inl err \<Rightarrow> Inl err
     | Inr config \<Rightarrow> (case asArr (map_of config ''inbounds'') of
         None \<Rightarrow> Inr ([], False)
       | Some inbounds \<Rightarrow>
           let adding = trimSpace removeEmail = [];
               email = (if adding then trimSpace (Email user) else trimSpace removeEmail)
           in if email = [] then Inl ''email is required''
              else case patchInbounds J inboundTag email (if adding then Some user else None) inbounds of
                (inbounds', changed) \<Rightarrow>
                  if \<not> changed then Inr ([], False)
                  else Inr (encodeJSON J (JObj (AList.update ''inbounds'' (JArr inbounds') config)), True)))"

section \<open>Reading back what was encoded\<close>

lemma map_of_insort [simp]: "map_of (insort_key fst (k, v) xs) = (map_of xs)(k \<mapsto> v)"
  by (induction xs) (auto simp: fun_eq_iff)

lemma map_of_sort [simp]: "map_of (sort_key fst m) = map_of m"
  by (induction m) (auto simp: fun_eq_iff)

lemma map_of_map_prod [simp]: "map_of (map (map_prod id f) m) k = map_option f (map_of m k)"
  by (induction m) auto

lemma canonObj_get [simp]: "map_of (canonObj m) k = map_option canon (map_of m k)"
  by (simp add: canonObj_def)

lemma canon_JObj: "canon (JObj m) = JObj (canonObj m)"
  by (simp add: canonObj_def)

declare canon.simps(6) [simp del] canon_JObj [simp]

lemma encode_canon: "jsonLaws J \<Longrightarrow> encodeJSON J (canon v) = encodeJSON J v"
  by (simp add: jsonLaws_def)

lemma asObj_canon [simp]: "asObj (map_option canon v) = map_option canonObj (asObj v)"
  by (induction v rule: asObj.induct) simp_all

lemma objOr_canon [simp]: "objOr (map_option canon v) = canonObj (objOr v)"
  by (simp add: objOr_def canonObj_def split: option.split)

lemma anySlice_canon [simp]: "anySlice (map_option canon v) = map canon (anySlice v)"
  unfolding anySlice_def arrOr_def by (induction v rule: asArr.induct) auto

lemma firstPresent_canon [simp]: "firstPresent (canonObj m) ks = map_option canon (firstPresent m ks)"
  by (induction ks) (auto split: option.split)

lemma numbers_canon [simp]:
  "uint32ClientValue J (map_option canon v) = uint32ClientValue J v"
  "int32ClientValue J (map_option canon v) = int32ClientValue J v"
  "boolClientValue (map_option canon v) = boolClientValue v"
  by (auto simp: uint32ClientValue_def int32ClientValue_def boolClientValue_def split: option.splits json.splits)

lemma asString_canon:
  assumes "jsonLaws J"
  shows "asString J (map_option canon v) = asString J v"
proof -
  have "sprintJSON J (canon w) = sprintJSON J w" for w using assms by (simp add: jsonLaws_def)
  from this [of "the v"] show ?thesis
    by (cases v; cases "the v") (simp_all add: asString_def)
qed

lemma inboundUserFromClient_canon:
  "jsonLaws J \<Longrightarrow> inboundUserFromClient J p (canonObj c) = inboundUserFromClient J p c"
  by (cases "asObj (map_of c ''reverse'')") (simp_all add: inboundUserFromClient_def asString_canon Let_def del: firstPresent.simps split: sum.split)

lemma clientUser_canon:
  assumes "jsonLaws J"
  shows "clientUser J tag p (canonObj s) (canon item) = clientUser J tag p s item"
proof (cases item)
  case (JObj c)
  then show ?thesis
    using encode_canon [OF assms, of "JObj c"] by (simp add: clientUser_def inboundUserFromClient_canon assms asString_canon split: sum.split)
qed (simp_all add: clientUser_def)

lemma inboundClients_canon:
  "jsonLaws J \<Longrightarrow> inboundClients J tag p (canonObj s) (map canon items) st = inboundClients J tag p s items st"
  by (induction items arbitrary: st) (auto simp: clientUser_canon split: sum.split option.split)

lemma inboundStates_canon:
  assumes "jsonLaws J"
  shows "inboundStates J (map canon items) r = inboundStates J items r"
proof (induction items arbitrary: r)
  case (Cons item items)
  then show ?case
    by (cases item) (auto simp: asString_canon assms inboundClients_canon Let_def cong: sum.case_cong)
qed simp

lemma unmarshal_encode:
  "jsonLaws J \<Longrightarrow> unmarshalMap J (encodeJSON J (JObj d)) = Inr (canonObj d)"
  by (simp add: unmarshalMap_def jsonLaws_def)

lemma states_encode:
  "jsonLaws J \<Longrightarrow> configClientStates J (encodeJSON J (JObj d)) = inboundStates J (anySlice (map_of d ''inbounds'')) []"
  by (simp add: configClientStates_def unmarshal_encode inboundStates_canon)

section \<open>The effect of a patch\<close>

text \<open>The user a document has for a tag and an email, and the tag of an inbound.\<close>

definition userOf :: "(string, configClientState) gomap \<Rightarrow> string \<Rightarrow> string \<Rightarrow> InboundUser option" where
  "userOf st t e = (case map_of st t of None \<Rightarrow> None | Some c \<Rightarrow> map_of (csClients c) e)"

definition tagOf :: "jsonCodec \<Rightarrow> json \<Rightarrow> string option" where
  "tagOf J item = (case item of JObj inbound \<Rightarrow> Some (trimSpace (asString J (map_of inbound ''tag''))) | _ \<Rightarrow> None)"

definition protocolOf :: "jsonCodec \<Rightarrow> jobj \<Rightarrow> string" where
  "protocolOf J inbound = toLower (trimSpace (asString J (map_of inbound ''protocol'')))"

definition settingsOf :: "jobj \<Rightarrow> jobj" where
  "settingsOf inbound = objOr (map_of inbound ''settings'')"

text \<open>The inbound with this tag, if there is one and only one.\<close>

definition soleInbound :: "jsonCodec \<Rightarrow> string \<Rightarrow> string \<Rightarrow> jobj option" where
  "soleInbound J raw tag = (case unmarshalMap J raw of Inl _ \<Rightarrow> None
     | Inr config \<Rightarrow> (case filter (\<lambda>i. tagOf J i = Some tag) (anySlice (map_of config ''inbounds'')) of
         [JObj inbound] \<Rightarrow> Some inbound | _ \<Rightarrow> None))"

text \<open>The clients of one inbound, and the same with one email left out.\<close>

lemma inboundUserFromClient_email:
  assumes "inboundUserFromClient J p c = Inr u"
  shows "Email u = trimSpace (asString J (map_of c ''email''))"
proof -
  obtain level cipher where "uint32ClientValue J (map_of c ''level'') = Inr level"
    "int32ClientValue J (firstPresent c [''cipher_type'', ''cipherType'']) = Inr cipher"
    using assms by (auto simp: inboundUserFromClient_def simp del: firstPresent.simps split: sum.splits)
  then show ?thesis
    using assms by (simp add: inboundUserFromClient_def Let_def del: firstPresent.simps) (erule subst, simp)
qed

lemma clientUser_email:
  assumes "clientUser J tag p s item = Inr (Some (u, raw))"
  shows "Email u = trimSpace (clientEmail J item)"
proof -
  obtain c u0 where c: "item = JObj c" "inboundUserFromClient J p c = Inr u0" "Email u = Email u0"
  proof (cases item)
    case (JObj c)
    then show ?thesis using assms that
      by (cases "inboundUserFromClient J p c") (auto simp: clientUser_def split: if_splits)
  qed (use assms in \<open>simp_all add: clientUser_def\<close>)
  then show ?thesis using inboundUserFromClient_email [OF c(2)] by (simp add: clientEmail_def)
qed

lemma clientUser_settings: "map_of s' ''flow'' = map_of s ''flow'' \<Longrightarrow> clientUser J tag p s' item = clientUser J tag p s item"
  by (simp add: clientUser_def split: json.split sum.split)

lemma inboundClients_settings:
  "map_of s' ''flow'' = map_of s ''flow'' \<Longrightarrow> inboundClients J tag p s' items st = inboundClients J tag p s items st"
proof (induction items arbitrary: st)
  case (Cons item items)
  then show ?case
    using clientUser_settings [OF Cons.prems, of J tag p item] by (simp split: sum.split option.split)
qed simp

lemma inboundClients_append:
  "inboundClients J tag p s (xs @ ys) st = (case inboundClients J tag p s xs st of Inl e \<Rightarrow> Inl e | Inr st' \<Rightarrow> inboundClients J tag p s ys st')"
  by (induction xs arbitrary: st) (auto split: sum.split option.split)

definition sameExcept :: "string \<Rightarrow> configClientState \<Rightarrow> configClientState \<Rightarrow> bool" where
  "sameExcept email a b \<longleftrightarrow> (\<forall>e. e \<noteq> email \<longrightarrow> map_of (csClients b) e = map_of (csClients a) e)"

lemma filter_same_length: "length (filter P xs) = length xs \<Longrightarrow> filter P xs = xs"
proof (induction xs)
  case (Cons x xs)
  then show ?case using length_filter_le [of P xs] by (cases "P x") simp_all
qed simp

lemma sameExcept_refl: "sameExcept email a a"
  by (simp add: sameExcept_def)

lemma inboundClients_without:
  assumes "inboundClients J tag p s items a = Inr a'" and "sameExcept email a b"
  shows "\<exists>b'. inboundClients J tag p s (filter (\<lambda>c. trimSpace (clientEmail J c) \<noteq> email) items) b = Inr b'
    \<and> sameExcept email a' b' \<and> map_of (csClients b') email = map_of (csClients b) email"
  using assms
proof (induction items arbitrary: a b)
  case (Cons item items)
  show ?case
  proof (cases "clientUser J tag p s item")
    case (Inr r)
    show ?thesis
    proof (cases r)
      case None
      then show ?thesis using Cons.IH [of a b] Cons.prems Inr by (cases "trimSpace (clientEmail J item) = email") simp_all
    next
      case (Some ur)
      then obtain u raw where ur: "clientUser J tag p s item = Inr (Some (u, raw))" using Inr by (cases ur) simp
      let ?a = "a\<lparr>csClients := AList.update (Email u) u (csClients a), csRaw := AList.update (Email u) raw (csRaw a)\<rparr>"
      let ?b = "b\<lparr>csClients := AList.update (Email u) u (csClients b), csRaw := AList.update (Email u) raw (csRaw b)\<rparr>"
      have run: "inboundClients J tag p s items ?a = Inr a'" using Cons.prems(1) ur by simp
      have em: "Email u = trimSpace (clientEmail J item)" by (rule clientUser_email [OF ur])
      show ?thesis
      proof (cases "Email u = email")
        case True
        then have "sameExcept email ?a b" using Cons.prems(2) by (simp add: sameExcept_def)
        then show ?thesis using Cons.IH [OF run] True em by simp
      next
        case False
        then have "sameExcept email ?a ?b" using Cons.prems(2) by (simp add: sameExcept_def)
        then show ?thesis using Cons.IH [OF run, of ?b] False em ur by auto
      qed
    qed
  qed (use Cons.prems in simp)
qed simp

text \<open>The inbounds of a document: each tag gets its last inbound, whatever the others hold.\<close>

definition stateOf :: "jsonCodec \<Rightarrow> jobj \<Rightarrow> string + configClientState" where
  "stateOf J inbound = inboundClients J (trimSpace (asString J (map_of inbound ''tag''))) (protocolOf J inbound) (settingsOf inbound)
     (anySlice (map_of (settingsOf inbound) ''clients'')) (noClients (protocolOf J inbound))"

lemma inboundStates_JObj:
  "inboundStates J (JObj inbound # items) r =
     (if tagOf J (JObj inbound) = Some [] \<or> protocolOf J inbound = [] then inboundStates J items r
      else case stateOf J inbound of Inl err \<Rightarrow> Inl err
        | Inr st \<Rightarrow> inboundStates J items (AList.update (the (tagOf J (JObj inbound))) st r))"
  by (simp add: tagOf_def protocolOf_def settingsOf_def stateOf_def Let_def split: sum.split)

lemma inboundStates_skip: "tagOf J item = None \<Longrightarrow> inboundStates J (item # items) r = inboundStates J items r"
  by (cases item) (simp_all add: tagOf_def)

lemma inboundStates_append:
  "inboundStates J (xs @ ys) r = (case inboundStates J xs r of Inl e \<Rightarrow> Inl e | Inr r' \<Rightarrow> inboundStates J ys r')"
proof (induction xs arbitrary: r)
  case (Cons x xs)
  then show ?case by (cases x) (auto simp: Let_def split: sum.split)
qed simp

declare inboundStates.simps(2) [simp del] inboundStates_JObj [simp] inboundStates_skip [simp]

lemma inboundStates_overlay:
  assumes "inboundStates J items a = Inr a'" and "list_all (\<lambda>i. tagOf J i \<noteq> Some tag) items"
    and "\<And>t. t \<noteq> tag \<Longrightarrow> map_of b t = map_of a t"
  shows "\<exists>b'. inboundStates J items b = Inr b' \<and> (\<forall>t. t \<noteq> tag \<longrightarrow> map_of b' t = map_of a' t) \<and> map_of b' tag = map_of b tag"
  using assms
proof (induction items arbitrary: a b)
  case (Cons item items)
  show ?case
  proof (cases "\<exists>inbound. item = JObj inbound \<and> tagOf J item \<noteq> Some [] \<and> protocolOf J inbound \<noteq> []")
    case True
    then obtain inbound where i: "item = JObj inbound" "tagOf J item \<noteq> Some []" "protocolOf J inbound \<noteq> []" by blast
    obtain t where t: "tagOf J item = Some t" "t \<noteq> tag" using i Cons.prems(2) by (auto simp: tagOf_def)
    obtain st where st: "stateOf J inbound = Inr st"
      using Cons.prems(1) i t by (auto split: sum.splits)
    have run: "inboundStates J items (AList.update t st a) = Inr a'"
      using Cons.prems(1) i t st by simp
    have "\<exists>b'. inboundStates J items (AList.update t st b) = Inr b' \<and> (\<forall>t. t \<noteq> tag \<longrightarrow> map_of b' t = map_of a' t)
        \<and> map_of b' tag = map_of (AList.update t st b) tag"
      by (rule Cons.IH [OF run]) (use Cons.prems in auto)
    then show ?thesis using i t st by simp
  next
    case False
    then have "inboundStates J (item # items) r = inboundStates J items r" for r
      by (cases item) (auto simp: tagOf_def)
    then show ?thesis using Cons.IH [of a b] Cons.prems by simp
  qed
qed simp

lemma soleInbound_split:
  assumes "soleInbound J raw tag = Some inbound"
  obtains config pre post where "unmarshalMap J raw = Inr config"
    "map_of config ''inbounds'' = Some (JArr (pre @ JObj inbound # post))"
    "tagOf J (JObj inbound) = Some tag" "list_all (\<lambda>i. tagOf J i \<noteq> Some tag) pre" "list_all (\<lambda>i. tagOf J i \<noteq> Some tag) post"
proof -
  obtain config where c: "unmarshalMap J raw = Inr config"
    using assms by (auto simp: soleInbound_def split: sum.splits)
  let ?xs = "anySlice (map_of config ''inbounds'')"
  have f: "filter (\<lambda>i. tagOf J i = Some tag) ?xs = [JObj inbound]"
    using assms c by (auto simp: soleInbound_def split: list.splits json.splits)
  then obtain pre post where s: "?xs = pre @ JObj inbound # post" "\<forall>i\<in>set pre. tagOf J i \<noteq> Some tag"
    "tagOf J (JObj inbound) = Some tag" "filter (\<lambda>i. tagOf J i = Some tag) post = []"
    by (auto simp: filter_eq_Cons_iff)
  then have "asArr (map_of config ''inbounds'') = Some ?xs"
    by (auto simp: anySlice_def arrOr_def split: option.splits)
  then have "map_of config ''inbounds'' = Some (JArr (pre @ JObj inbound # post))"
    using s(1) asArr_SomeD by fastforce
  with c s show thesis by (intro that [of config pre post]) (auto simp: list_all_iff filter_empty_conv)
qed

lemma patchInbounds_split:
  assumes "list_all (\<lambda>i. tagOf J i \<noteq> Some tag) pre" and "tagOf J (JObj inbound) = Some tag"
  shows "patchInbounds J tag email adding (pre @ JObj inbound # post) =
    (pre @ JObj (fst (patchInbound J email adding inbound)) # post, snd (patchInbound J email adding inbound))"
  using assms(1)
proof (induction pre)
  case Nil
  then show ?case using assms(2) by (simp add: tagOf_def split: prod.split)
next
  case (Cons x pre)
  then show ?case by (cases x) (simp_all add: tagOf_def)
qed

lemma patchInbound_keeps:
  "tagOf J (JObj (fst (patchInbound J email adding inbound))) = tagOf J (JObj inbound)"
  "protocolOf J (fst (patchInbound J email adding inbound)) = protocolOf J inbound"
  by (simp_all add: patchInbound_def tagOf_def protocolOf_def Let_def)

lemma states_replaced:
  assumes "inboundStates J (pre @ JObj inbound # post) [] = Inr st"
    and "list_all (\<lambda>i. tagOf J i \<noteq> Some tag) post" and "tagOf J (JObj inbound) = Some tag" and "tag \<noteq> []"
    and "protocolOf J inbound \<noteq> []"
    and "tagOf J (JObj inbound') = Some tag" and "protocolOf J inbound' = protocolOf J inbound"
  shows "\<exists>c. stateOf J inbound = Inr c \<and> map_of st tag = Some c \<and>
    (\<forall>c'. stateOf J inbound' = Inr c' \<longrightarrow> (\<exists>st'. inboundStates J (pre @ JObj inbound' # post) [] = Inr st'
       \<and> map_of st' tag = Some c' \<and> (\<forall>t. t \<noteq> tag \<longrightarrow> map_of st' t = map_of st t)))"
proof -
  obtain r where r: "inboundStates J pre [] = Inr r" using assms(1) by (auto simp: inboundStates_append split: sum.splits)
  obtain c where c: "stateOf J inbound = Inr c" using assms(1,3,4,5) r by (auto simp: inboundStates_append split: sum.splits)
  have run: "inboundStates J post (AList.update tag c r) = Inr st"
    using assms(1,3,4,5) r c by (simp add: inboundStates_append)
  have step: "\<exists>st'. inboundStates J post b = Inr st' \<and> (\<forall>t. t \<noteq> tag \<longrightarrow> map_of st' t = map_of st t) \<and> map_of st' tag = map_of b tag"
    if "\<And>t. t \<noteq> tag \<Longrightarrow> map_of b t = map_of (AList.update tag c r) t" for b
    using inboundStates_overlay [OF run assms(2) that] by blast
  have "map_of st tag = Some c" using step [of "AList.update tag c r"] run by simp
  moreover have "\<exists>st'. inboundStates J (pre @ JObj inbound' # post) [] = Inr st' \<and> map_of st' tag = Some c'
      \<and> (\<forall>t. t \<noteq> tag \<longrightarrow> map_of st' t = map_of st t)" if c': "stateOf J inbound' = Inr c'" for c'
    using step [of "AList.update tag c' r"] assms(4-7) r c' by (auto simp: inboundStates_append)
  ultimately show ?thesis using c by blast
qed

text \<open>The user that is read back after \<open>user\<close> was added to an inbound with these settings.\<close>

definition uses2022 :: "jsonCodec \<Rightarrow> jobj \<Rightarrow> bool" where
  "uses2022 J settings = hasPrefix (asString J (map_of settings ''method'')) ''2022-''"

definition storedUser :: "jsonCodec \<Rightarrow> string \<Rightarrow> jobj \<Rightarrow> InboundUser \<Rightarrow> InboundUser" where
  "storedUser J protocol settings user = user\<lparr>Protocol := protocol, Email := trimSpace (Email user), ID := trimSpace (ID user),
     Password := trimSpace (Password user),
     Auth := if trimSpace (Auth user) = [] then trimSpace (Password user) else trimSpace (Auth user),
     Flow := if protocol = ''vless'' \<and> trimSpace (Flow user) = [] then trimSpace (asString J (map_of settings ''flow'')) else trimSpace (Flow user),
     ReverseTag := trimSpace (ReverseTag user),
     UserMethod := if uses2022 J settings then [] else trimSpace (UserMethod user)\<rparr>"

lemma putIf_get [simp]: "map_of (putIf b k v m) k' = (if b \<and> k' = k then Some v else map_of m k')"
  by (simp add: putIf_def)

lemma putString_get [simp]: "map_of (putString k s m) k' = (if trimSpace s \<noteq> [] \<and> k' = k then Some (JStr (trimSpace s)) else map_of m k')"
  by (simp add: putString_def)

lemma optional_string [simp]: "asString J (if trimSpace s = [] then None else Some (JStr (trimSpace s))) = trimSpace s"
  by (simp add: asString_def)

lemma clientMap_get:
  "map_of (inboundUserClientMap u) ''email'' = Some (JStr (trimSpace (Email u)))"
  "map_of (inboundUserClientMap u) ''level'' = (if Level u = 0 then None else Some (JNum (formatUint (Level u))))"
  "map_of (inboundUserClientMap u) ''id'' = (if trimSpace (ID u) = [] then None else Some (JStr (trimSpace (ID u))))"
  "map_of (inboundUserClientMap u) ''uuid'' = None"
  "map_of (inboundUserClientMap u) ''password'' = (if trimSpace (Password u) = [] then None else Some (JStr (trimSpace (Password u))))"
  "map_of (inboundUserClientMap u) ''auth'' = (if trimSpace (Auth u) = [] then None else Some (JStr (trimSpace (Auth u))))"
  "map_of (inboundUserClientMap u) ''flow'' = (if trimSpace (Flow u) = [] then None else Some (JStr (trimSpace (Flow u))))"
  "map_of (inboundUserClientMap u) ''reverse'' = (if trimSpace (ReverseTag u) = [] then None
     else Some (JObj [(''tag'', JStr (trimSpace (ReverseTag u)))]))"
  "map_of (inboundUserClientMap u) ''method'' = (if trimSpace (UserMethod u) = [] then None else Some (JStr (trimSpace (UserMethod u))))"
  "map_of (inboundUserClientMap u) ''cipher_type'' = (if CipherType u = 0 then None else Some (JNum (formatInt (CipherType u))))"
  "map_of (inboundUserClientMap u) ''cipherType'' = None"
  "map_of (inboundUserClientMap u) ''iv_check'' = (if IVCheck u then Some (JBool True) else None)"
  "map_of (inboundUserClientMap u) ''ivCheck'' = None"
  by (simp_all add: inboundUserClientMap_def)

lemma stored_roundtrip:
  assumes "jsonLaws J" and "Level u < 2 ^ 32" and "- (2 ^ 31) \<le> CipherType u" and "CipherType u < 2 ^ 31"
    and "trimSpace (Email u) \<noteq> []"
  shows "\<exists>raw. clientUser J tag p s (JObj (if uses2022 J s then AList.delete ''method'' (inboundUserClientMap u) else inboundUserClientMap u))
    = Inr (Some (storedUser J p s u, raw))"
proof -
  let ?c = "if uses2022 J s then AList.delete ''method'' (inboundUserClientMap u) else inboundUserClientMap u"
  have get: "map_of ?c k = map_of (inboundUserClientMap u) k" if "k \<noteq> ''method''" for k using that by simp
  have lv: "uint32ClientValue J (map_of ?c ''level'') = Inr (Level u)"
    using assms(1,2) by (simp add: get clientMap_get uint32ClientValue_def jsonLaws_def)
  have ct: "int32ClientValue J (firstPresent ?c [''cipher_type'', ''cipherType'']) = Inr (CipherType u)"
    using assms(1,3,4) by (simp add: get clientMap_get int32ClientValue_def jsonLaws_def)
  have iv: "fst (boolClientValue (firstPresent ?c [''iv_check'', ''ivCheck''])) = IVCheck u"
    by (simp add: get clientMap_get boolClientValue_def)
  have i: "trimSpace (asString J (firstPresent ?c [''id'', ''uuid''])) = trimSpace (ID u)"
    by (simp add: get clientMap_get asString_def)
  have m: "trimSpace (asString J (map_of ?c ''method'')) = (if uses2022 J s then [] else trimSpace (UserMethod u))"
    by (simp add: clientMap_get asString_def)
  have rv: "(case asObj (map_of ?c ''reverse'') of None \<Rightarrow> [] | Some r \<Rightarrow> trimSpace (asString J (map_of r ''tag''))) = trimSpace (ReverseTag u)"
    by (simp add: get clientMap_get asString_def)
  have "inboundUserFromClient J p ?c = Inr ((storedUser J p s u)\<lparr>Flow := trimSpace (Flow u)\<rparr>)"
    unfolding inboundUserFromClient_def lv ct iv i m rv
    by (simp add: get clientMap_get storedUser_def Let_def del: firstPresent.simps) (simp add: asString_def)
  then show ?thesis using assms(5) by (auto simp: clientUser_def storedUser_def)
qed

lemma patched_settings:
  "settingsOf (fst (patchInbound J email adding inbound)) = AList.update ''clients'' (JArr
     (filter (\<lambda>c. trimSpace (clientEmail J c) \<noteq> email) (anySlice (map_of (settingsOf inbound) ''clients''))
      @ (case adding of None \<Rightarrow> [] | Some u \<Rightarrow> [JObj (if uses2022 J (settingsOf inbound)
           then AList.delete ''method'' (inboundUserClientMap u) else inboundUserClientMap u)])))
     (settingsOf inbound)"
  by (simp add: patchInbound_def settingsOf_def uses2022_def Let_def split: option.split)

lemma patched_stateOf:
  assumes "jsonLaws J" and "stateOf J inbound = Inr c"
    and "case adding of None \<Rightarrow> True | Some u \<Rightarrow> email = trimSpace (Email u) \<and> email \<noteq> [] \<and> Level u < 2 ^ 32
           \<and> - (2 ^ 31) \<le> CipherType u \<and> CipherType u < 2 ^ 31"
  shows "\<exists>c'. stateOf J (fst (patchInbound J email adding inbound)) = Inr c' \<and>
    (\<forall>e. map_of (csClients c') e = (if e = email then map_option (storedUser J (protocolOf J inbound) (settingsOf inbound)) adding
       else map_of (csClients c) e))"
proof -
  let ?i = "fst (patchInbound J email adding inbound)"
  let ?tag = "trimSpace (asString J (map_of inbound ''tag''))" and ?p = "protocolOf J inbound" and ?s = "settingsOf inbound"
  have tag: "trimSpace (asString J (map_of ?i ''tag'')) = ?tag"
    using patchInbound_keeps(1) [of J email adding inbound] by (simp add: tagOf_def)
  have fl: "map_of (settingsOf ?i) ''flow'' = map_of ?s ''flow''" by (simp add: patched_settings)
  obtain b where b: "inboundClients J ?tag ?p ?s (filter (\<lambda>c. trimSpace (clientEmail J c) \<noteq> email) (anySlice (map_of ?s ''clients''))) (noClients ?p) = Inr b"
      "sameExcept email c b" "map_of (csClients b) email = None"
    using inboundClients_without [of J ?tag ?p ?s _ "noClients ?p" c email "noClients ?p"] assms(2)
    by (auto simp: stateOf_def sameExcept_def noClients_def)
  have run: "stateOf J ?i = inboundClients J ?tag ?p ?s (case adding of None \<Rightarrow> [] | Some u \<Rightarrow> [JObj (if uses2022 J ?s
           then AList.delete ''method'' (inboundUserClientMap u) else inboundUserClientMap u)]) b"
    unfolding stateOf_def tag patchInbound_keeps(2) inboundClients_settings [OF fl]
    by (simp add: patched_settings anySlice_def inboundClients_append b(1) [unfolded anySlice_def])
  show ?thesis
  proof (cases adding)
    case None
    then show ?thesis using run b(2,3) by (simp add: sameExcept_def)
  next
    case (Some u)
    then obtain raw where raw: "clientUser J ?tag ?p ?s (JObj (if uses2022 J ?s then AList.delete ''method'' (inboundUserClientMap u) else inboundUserClientMap u))
        = Inr (Some (storedUser J ?p ?s u, raw))"
      using stored_roundtrip [OF assms(1), of u ?tag ?p ?s] assms(3) by auto
    have "Email (storedUser J ?p ?s u) = email" using assms(3) Some by (simp add: storedUser_def)
    then show ?thesis using run b(2,3) raw Some by (auto simp: sameExcept_def)
  qed
qed

lemma patch_effect:
  assumes "jsonLaws J" and "soleInbound J raw tag = Some inbound" and "configClientStates J raw = Inr st"
    and "tag \<noteq> []" and "protocolOf J inbound \<noteq> []"
    and "case adding of None \<Rightarrow> True | Some u \<Rightarrow> email = trimSpace (Email u) \<and> email \<noteq> [] \<and> Level u < 2 ^ 32
           \<and> - (2 ^ 31) \<le> CipherType u \<and> CipherType u < 2 ^ 31"
  obtains config inbounds inbounds' changed st' where "unmarshalMap J raw = Inr config" "map_of config ''inbounds'' = Some (JArr inbounds)"
    "patchInbounds J tag email adding inbounds = (inbounds', changed)" "adding \<noteq> None \<longrightarrow> changed"
    "inboundStates J inbounds' [] = Inr st'"
    "\<And>t e. userOf st' t e = (if t = tag \<and> e = email then map_option (storedUser J (protocolOf J inbound) (settingsOf inbound)) adding else userOf st t e)"
    "\<not> changed \<longrightarrow> userOf st tag email = None"
proof -
  obtain config pre post where d: "unmarshalMap J raw = Inr config"
    "map_of config ''inbounds'' = Some (JArr (pre @ JObj inbound # post))"
    "tagOf J (JObj inbound) = Some tag" "list_all (\<lambda>i. tagOf J i \<noteq> Some tag) pre" "list_all (\<lambda>i. tagOf J i \<noteq> Some tag) post"
    by (rule soleInbound_split [OF assms(2)])
  let ?i = "fst (patchInbound J email adding inbound)"
  have st: "inboundStates J (pre @ JObj inbound # post) [] = Inr st"
    using assms(3) d by (simp add: configClientStates_def anySlice_def)
  obtain c where c: "stateOf J inbound = Inr c" "map_of st tag = Some c"
    "\<And>c'. stateOf J ?i = Inr c' \<Longrightarrow> \<exists>st'. inboundStates J (pre @ JObj ?i # post) [] = Inr st'
       \<and> map_of st' tag = Some c' \<and> (\<forall>t. t \<noteq> tag \<longrightarrow> map_of st' t = map_of st t)"
    using states_replaced [OF st d(5,3) assms(4,5)] patchInbound_keeps d(3) by metis
  obtain c' where c': "stateOf J ?i = Inr c'" "\<And>e. map_of (csClients c') e =
      (if e = email then map_option (storedUser J (protocolOf J inbound) (settingsOf inbound)) adding else map_of (csClients c) e)"
    using patched_stateOf [OF assms(1) c(1) assms(6)] by blast
  obtain st' where st': "inboundStates J (pre @ JObj ?i # post) [] = Inr st'" "map_of st' tag = Some c'"
    "\<And>t. t \<noteq> tag \<Longrightarrow> map_of st' t = map_of st t"
    using c(3) [OF c'(1)] by blast
  have same: "userOf st tag email = None" if "\<not> snd (patchInbound J email adding inbound)"
  proof -
    have "adding = None" and len: "length (filter (\<lambda>c. trimSpace (clientEmail J c) \<noteq> email) (anySlice (map_of (settingsOf inbound) ''clients'')))
        = length (anySlice (map_of (settingsOf inbound) ''clients''))"
      using that by (auto simp: patchInbound_def settingsOf_def Let_def)
    from len have "filter (\<lambda>c. trimSpace (clientEmail J c) \<noteq> email) (anySlice (map_of (settingsOf inbound) ''clients''))
        = anySlice (map_of (settingsOf inbound) ''clients'')"
      by (rule filter_same_length)
    then have "map_of (csClients c) email = None"
      using inboundClients_without [OF c(1) [unfolded stateOf_def] sameExcept_refl, of email] c(1)
      by (simp add: stateOf_def noClients_def)
    then show ?thesis using c by (simp add: userOf_def)
  qed
  have users: "userOf st' t e = (if t = tag \<and> e = email
      then map_option (storedUser J (protocolOf J inbound) (settingsOf inbound)) adding else userOf st t e)" for t e
    by (cases "t = tag") (simp_all add: userOf_def st' c(2) c'(2))
  have chg: "adding \<noteq> None \<longrightarrow> snd (patchInbound J email adding inbound)" by (simp add: patchInbound_def Let_def)
  show thesis
    by (rule that [OF d(1,2) patchInbounds_split [OF d(4,3)] chg st'(1) users]) (use same in blast)
qed

section \<open>Properties\<close>

text \<open>
  (C9) Adding a user to the cached document has that effect and no other: when exactly one inbound
  has the tag, the patched document is valid, the user read back from it is the one that was added
  (trimmed, with the protocol of the inbound), and every other user of every inbound is as before.
\<close>

theorem patch_add_effective:
  assumes "jsonLaws J" and "soleInbound J raw tag = Some inbound" and "configClientStates J raw = Inr st"
    and "tag \<noteq> []" and "protocolOf J inbound \<noteq> []" and "trimSpace (Email user) \<noteq> []" and "Level user < 2 ^ 32"
    and "- (2 ^ 31) \<le> CipherType user" and "CipherType user < 2 ^ 31"
  shows "\<exists>raw' st'. patchConfigCacheUserJSON J raw tag user [] = Inr (raw', True) \<and> configClientStates J raw' = Inr st'
    \<and> (\<forall>t e. userOf st' t e = (if t = tag \<and> e = trimSpace (Email user)
          then Some (storedUser J (protocolOf J inbound) (settingsOf inbound) user) else userOf st t e))"
proof (rule patch_effect [where adding = "Some user" and email = "trimSpace (Email user)", OF assms(1-5)])
  fix config inbounds inbounds' changed st'
  assume "unmarshalMap J raw = Inr config" "map_of config ''inbounds'' = Some (JArr inbounds)"
    "patchInbounds J tag (trimSpace (Email user)) (Some user) inbounds = (inbounds', changed)" "Some user \<noteq> None \<longrightarrow> changed"
    "inboundStates J inbounds' [] = Inr st'"
    and u: "\<And>t e. userOf st' t e = (if t = tag \<and> e = trimSpace (Email user)
      then map_option (storedUser J (protocolOf J inbound) (settingsOf inbound)) (Some user) else userOf st t e)"
  then show ?thesis
    using assms(1,6) by (auto simp: patchConfigCacheUserJSON_def Let_def states_encode anySlice_def)
qed (use assms in simp)

text \<open>
  (C12) Removing a user from the cached document has that effect and no other: the user is absent
  afterwards, however often it occurred in the clients of the inbound, and every other user is as
  before; the document is left alone exactly when nothing was removed.
\<close>

theorem patch_remove_effective:
  assumes "jsonLaws J" and "soleInbound J raw tag = Some inbound" and "configClientStates J raw = Inr st"
    and "tag \<noteq> []" and "protocolOf J inbound \<noteq> []" and "trimSpace email \<noteq> []"
  shows "\<exists>raw' changed st'. patchConfigCacheUserJSON J raw tag user email = Inr (raw', changed)
    \<and> configClientStates J (if changed then raw' else raw) = Inr st'
    \<and> (\<forall>t e. userOf st' t e = (if t = tag \<and> e = trimSpace email then None else userOf st t e))"
proof (rule patch_effect [where adding = None and email = "trimSpace email", OF assms(1-5)])
  fix config inbounds inbounds' changed st'
  assume d: "unmarshalMap J raw = Inr config" "map_of config ''inbounds'' = Some (JArr inbounds)"
    "patchInbounds J tag (trimSpace email) None inbounds = (inbounds', changed)" "inboundStates J inbounds' [] = Inr st'"
    and u: "\<And>t e. userOf st' t e = (if t = tag \<and> e = trimSpace email
      then map_option (storedUser J (protocolOf J inbound) (settingsOf inbound)) None else userOf st t e)"
    and n: "\<not> changed \<longrightarrow> userOf st tag (trimSpace email) = None"
  show ?thesis
  proof (cases changed)
    case True
    then show ?thesis using assms(1,6) d u by (auto simp: patchConfigCacheUserJSON_def Let_def states_encode anySlice_def)
  next
    case False
    then show ?thesis using assms(3,6) d n by (auto simp: patchConfigCacheUserJSON_def Let_def)
  qed
qed simp

section \<open>Examples\<close>

instance json :: countable
  by countable_datatype

lemma sort_map_prod: "map (map_prod id f) (sort_key fst m) = sort_key fst (map (map_prod id f) m)"
proof -
  have ins: "map (map_prod id f) (insort_key fst x xs) = insort_key fst (map_prod id f x) (map (map_prod id f) xs)" for x xs
    by (induction xs) auto
  show ?thesis by (induction m) (simp, simp only: list.map sort_key_simps ins)
qed

lemma sort_sorted: "sorted (map f xs) \<Longrightarrow> sort_key f xs = xs"
  by (induction xs) (simp_all add: insort_is_Cons)

lemma canon_idem: "canon (canon v) = canon v"
proof (induction v)
  case (JObj m)
  have "map (map_prod id canon) (map (map_prod id canon) m) = map (map_prod id canon) m"
    using JObj by (auto simp: snds.simps map_prod_def split: prod.splits)
  then have "canonObj (canonObj m) = canonObj m"
    unfolding canonObj_def sort_map_prod by (simp only:) (rule sort_sorted, simp)
  then show ?case by simp
qed (auto simp: comp_def)

text \<open>A codec with the laws: a value is a text of a length that numbers its canonical form.\<close>

definition exampleJ :: jsonCodec where
  "exampleJ = \<lparr>decodeJSON = \<lambda>s. Inr (from_nat (length s - 1)),
     encodeJSON = \<lambda>v. replicate (Suc (to_nat (canon v))) CHR ''a'',
     decodeInbounds = \<lambda>s. None, sprintJSON = \<lambda>v. ''?'',
     floatUint32 = \<lambda>t. case parseUint 32 t of None \<Rightarrow> 0 | Some n \<Rightarrow> n,
     floatInt32 = \<lambda>t. case parseInt 32 t of None \<Rightarrow> 0 | Some i \<Rightarrow> i\<rparr>"

lemma exampleJ_laws: "jsonLaws exampleJ"
proof -
  have ne: "trimSpace (replicate (Suc n) CHR ''a'') \<noteq> []" for n
  proof -
    let ?a = "CHR ''a''"
    have "trimLeftSpace (?a # t) = ?a # t" for t
      by (simp add: trimLeftSpace_def stripRunes.simps space_runes_def hasPrefix_def)
    then have l: "trimLeftSpace (replicate (Suc n) ?a) = replicate n ?a @ [?a]"
      by (simp add: replicate_append_same)
    have "trimRightSpace (t @ [?a]) = t @ [?a]" for t
      by (simp add: trimRightSpace_def stripRunes.simps space_runes_def hasPrefix_def)
    then show ?thesis unfolding trimSpace_def l by simp
  qed
  show ?thesis
    using ne parseInt_formatInt [of 32] by (simp add: jsonLaws_def exampleJ_def canon_idem)
qed

text \<open>A document with a VLESS inbound \<open>in\<close> that has one user \<open>b\<close>.\<close>

definition exampleInbound :: jobj where
  "exampleInbound = [(''protocol'', JStr ''vless''),
     (''settings'', JObj [(''clients'', JArr [JObj [(''email'', JStr ''b''), (''id'', JStr ''2'')]])]), (''tag'', JStr ''in'')]"

definition exampleRaw :: string where
  "exampleRaw = encodeJSON exampleJ (JObj [(''inbounds'', JArr [JObj exampleInbound])])"

definition exampleUser :: "string \<Rightarrow> InboundUser" where
  "exampleUser e = noUser\<lparr>Protocol := ''vless'', Email := e, ID := ''1''\<rparr>"

lemma trimSpace_examples [simp]:
  "trimSpace ''vless'' = ''vless''" "trimSpace ''in'' = ''in''" "trimSpace ''a'' = ''a''" "trimSpace ''b'' = ''b''"
  "trimSpace ''1'' = ''1''" "trimSpace ''2'' = ''2''" "toLower ''vless'' = ''vless''"
  by code_simp+

lemma example_sole: "soleInbound exampleJ exampleRaw ''in'' = Some (canonObj exampleInbound)"
  unfolding soleInbound_def exampleRaw_def unmarshal_encode [OF exampleJ_laws]
  by (simp add: anySlice_def tagOf_def exampleInbound_def) (simp add: asString_def)

lemma example_protocol: "protocolOf exampleJ (canonObj exampleInbound) = ''vless''"
  by (simp add: protocolOf_def exampleInbound_def) (simp add: asString_def)

definition exampleStates :: "(string, configClientState) gomap" where
  "exampleStates = [(''in'', \<lparr>csProtocol = ''vless'', csClients = [(''b'', (exampleUser ''b'')\<lparr>ID := ''2''\<rparr>)],
     csRaw = [(''b'', encodeJSON exampleJ (JObj [(''email'', JStr ''b''), (''id'', JStr ''2'')]))]\<rparr>)]"

lemma example_states: "configClientStates exampleJ exampleRaw = Inr exampleStates"
  unfolding exampleRaw_def states_encode [OF exampleJ_laws]
  by (simp add: anySlice_def tagOf_def exampleInbound_def protocolOf_def asString_def stateOf_def settingsOf_def
      clientUser_def inboundUserFromClient_def uint32ClientValue_def int32ClientValue_def boolClientValue_def
      noClients_def exampleStates_def exampleUser_def noUser_def)

theorem patch_add_effective_witness:
  "\<exists>raw' st'. patchConfigCacheUserJSON exampleJ exampleRaw ''in'' (exampleUser ''a'') [] = Inr (raw', True)
    \<and> configClientStates exampleJ raw' = Inr st' \<and> userOf st' ''in'' ''a'' = Some (exampleUser ''a'')
    \<and> userOf st' ''in'' ''b'' = userOf exampleStates ''in'' ''b''"
proof -
  have "storedUser exampleJ (protocolOf exampleJ (canonObj exampleInbound)) (settingsOf (canonObj exampleInbound)) (exampleUser ''a'')
      = exampleUser ''a''"
    unfolding example_protocol
    by (simp add: storedUser_def exampleUser_def noUser_def settingsOf_def exampleInbound_def)
      (simp add: asString_def uses2022_def)
  then show ?thesis
    using patch_add_effective [OF exampleJ_laws example_sole example_states, of "exampleUser ''a''"]
    by (fastforce simp: example_protocol exampleUser_def noUser_def)
qed

theorem patch_remove_effective_witness:
  "\<exists>raw' changed st'. patchConfigCacheUserJSON exampleJ exampleRaw ''in'' noUser ''b'' = Inr (raw', changed)
    \<and> configClientStates exampleJ (if changed then raw' else exampleRaw) = Inr st' \<and> userOf st' ''in'' ''b'' = None"
  using patch_remove_effective [OF exampleJ_laws example_sole example_states, of "''b''" noUser]
  by (fastforce simp: example_protocol)

end
