(* ===== verification/User_Reconcile.thy ===== *)
theory User_Reconcile
  imports Config_Users
begin

text \<open>
  Bringing the users of the running Xray in line with a document: the difference and its application
  in \<open>internal/node/config_cache_users.go\<close>, the user handlers of \<open>grpc.go\<close> and the user batch of
  \<open>user_batch.go\<close>. The state is the cache, the running Xray (of type \<open>'x\<close>, behind \<open>xrayAPI\<close>) and
  whether the core counts as started. Results: applying a difference leaves Xray with the users of
  the new document, a failed update puts the old user back, and a batch answers every operation,
  stops when Xray is unreachable and leaves no open cache batch.
\<close>

section \<open>Differences\<close>

record configUserAdd =
  caTag :: string
  caUser :: InboundUser

record configUserRemove =
  crTag :: string
  crEmail :: string

record configUserUpdate =
  cuTag :: string
  cuPrevious :: InboundUser
  cuCurrent :: InboundUser

record configUserDiffResult =
  dAdd :: "configUserAdd list"
  dRemove :: "configUserRemove list"
  dUpdate :: "configUserUpdate list"

definition emptyDiff :: configUserDiffResult where
  "emptyDiff = \<lparr>dAdd = [], dRemove = [], dUpdate = []\<rparr>"

text \<open>What one tag of the incoming document contributes; maps are walked in the order of the list.\<close>

definition tagDiff :: "string \<Rightarrow> configClientState \<Rightarrow> configClientState \<Rightarrow> configUserDiffResult" where
  "tagDiff tag cached incoming =
     (let changed = filter (\<lambda>(email, user). mget [] (csRaw cached) email \<noteq> mget [] (csRaw incoming) email) (csClients incoming)
      in \<lparr>dAdd = map (\<lambda>(email, user). \<lparr>caTag = tag, caUser = user\<rparr>)
                 (filter (\<lambda>(email, user). map_of (csClients cached) email = None) changed),
          dRemove = map (\<lambda>(email, user). \<lparr>crTag = tag, crEmail = email\<rparr>)
                 (filter (\<lambda>(email, user). map_of (csClients incoming) email = None) (csClients cached)),
          dUpdate = concat (map (\<lambda>(email, user). case map_of (csClients cached) email of None \<Rightarrow> []
                   | Some previous \<Rightarrow> [\<lparr>cuTag = tag, cuPrevious = previous, cuCurrent = user\<rparr>]) changed)\<rparr>)"

fun statesDiff :: "(string, configClientState) gomap \<Rightarrow> (string, configClientState) gomap \<Rightarrow> configUserDiffResult" where
  "statesDiff cached [] = emptyDiff"
| "statesDiff cached ((tag, incomingState) # incoming) =
     (let d = tagDiff tag (mget (noClients []) cached tag) incomingState; ds = statesDiff cached incoming in
      \<lparr>dAdd = dAdd d @ dAdd ds, dRemove = dRemove d @ dRemove ds, dUpdate = dUpdate d @ dUpdate ds\<rparr>)"

definition configUserDiff :: "jsonCodec \<Rightarrow> string \<Rightarrow> string \<Rightarrow> string + configUserDiffResult" where
  "configUserDiff J cachedConfig incomingConfig =
     (case configClientStates J cachedConfig of Inl err \<Rightarrow> Inl err
      | Inr cached \<Rightarrow> (case configClientStates J incomingConfig of Inl err \<Rightarrow> Inl err
        | Inr incoming \<Rightarrow> Inr (statesDiff cached incoming)))"

section \<open>Applying a difference\<close>

type_synonym 'x addCall = "string \<Rightarrow> InboundUser \<Rightarrow> 'x \<Rightarrow> goError option \<times> 'x"
type_synonym 'x removeCall = "string \<Rightarrow> string \<Rightarrow> 'x \<Rightarrow> goError option \<times> 'x"

fun applyRemoves :: "'x removeCall \<Rightarrow> configUserRemove list \<Rightarrow> 'x \<Rightarrow> goError option \<times> 'x" where
  "applyRemoves remove [] x = (None, x)"
| "applyRemoves remove (item # items) x = (case remove (crTag item) (crEmail item) x of (err, x') \<Rightarrow>
     if isIgnorableXrayRemoveError err then applyRemoves remove items x' else (err, x'))"

fun applyAdds :: "'x addCall \<Rightarrow> configUserAdd list \<Rightarrow> 'x \<Rightarrow> goError option \<times> 'x" where
  "applyAdds add [] x = (None, x)"
| "applyAdds add (item # items) x = (case add (caTag item) (caUser item) x of (err, x') \<Rightarrow>
     if isIgnorableXrayAddError err then applyAdds add items x' else (err, x'))"

definition applyUpdate :: "'x addCall \<Rightarrow> 'x removeCall \<Rightarrow> configUserUpdate \<Rightarrow> 'x \<Rightarrow> goError option \<times> 'x" where
  "applyUpdate add remove item x =
     (case remove (cuTag item) (Email (cuPrevious item)) x of (rerr, x1) \<Rightarrow>
      if \<not> isIgnorableXrayRemoveError rerr then (rerr, x1)
      else case add (cuTag item) (cuCurrent item) x1 of
        (None, x2) \<Rightarrow> (None, x2)
      | (Some err, x2) \<Rightarrow>
          if isIgnorableXrayAddError (Some err) then (None, x2)
          else case add (cuTag item) (cuPrevious item) x2 of
            (None, x3) \<Rightarrow> (Some err, x3)
          | (Some restoreErr, x3) \<Rightarrow>
              if isIgnorableXrayAddError (Some restoreErr) then (Some err, x3)
              else (Some (GoError (''update inbound user: '' @ errText err @ ''; restore previous user: '' @ errText restoreErr)
                     (errUnavailable restoreErr)), x3))"

fun applyUpdates :: "'x addCall \<Rightarrow> 'x removeCall \<Rightarrow> configUserUpdate list \<Rightarrow> 'x \<Rightarrow> goError option \<times> 'x" where
  "applyUpdates add remove [] x = (None, x)"
| "applyUpdates add remove (item # items) x = (case applyUpdate add remove item x of
     (None, x') \<Rightarrow> applyUpdates add remove items x'
   | (Some err, x') \<Rightarrow> (Some err, x'))"

definition applyConfigUserDiff :: "configUserDiffResult \<Rightarrow> 'x addCall \<Rightarrow> 'x removeCall \<Rightarrow> 'x \<Rightarrow> goError option \<times> 'x" where
  "applyConfigUserDiff diff add remove x = (case applyRemoves remove (dRemove diff) x of
       (Some err, x1) \<Rightarrow> (Some err, x1)
     | (None, x1) \<Rightarrow> (case applyUpdates add remove (dUpdate diff) x1 of
         (Some err, x2) \<Rightarrow> (Some err, x2)
       | (None, x2) \<Rightarrow> applyAdds add (dAdd diff) x2))"

definition shadowsocksMethodsFromConfig :: "jsonCodec \<Rightarrow> string \<Rightarrow> (string, string) gomap" where
  "shadowsocksMethodsFromConfig J rawConfig = (case decodeInbounds J rawConfig of None \<Rightarrow> []
     | Some inbounds \<Rightarrow> fold (\<lambda>i methods. if equalFold (trimSpace (tiProtocol i)) ''shadowsocks''
           then AList.update (trimSpace (tiTag i)) (trimSpace (asString J (map_of (tiSettings i) ''method''))) methods
           else methods) inbounds [])"

definition withShadowsocksInboundMethod :: "InboundUser \<Rightarrow> (string, string) gomap \<Rightarrow> string \<Rightarrow> InboundUser" where
  "withShadowsocksInboundMethod user methods inboundTag =
     (if equalFold (trimSpace (Protocol user)) ''shadowsocks'' \<and> mget [] methods (trimSpace inboundTag) \<noteq> []
      then user\<lparr>UserMethod := mget [] methods (trimSpace inboundTag)\<rparr> else user)"

section \<open>The server\<close>

record ('f, 'x) userEnv =
  ueCodec :: "'f payloadCodec"
  ueJson :: jsonCodec
  ueAPI :: "'x xrayAPI"
  ueFsErr :: "string option"

record ('f, 'x) userState =
  usCache :: "'f cacheState"
  usXray :: 'x
  usStarted :: bool

definition loadCache :: "('f, 'x) userEnv \<Rightarrow> ('f, 'x) userState \<Rightarrow> cachedConfigPayload option" where
  "loadCache E s = loadConfigCache (ueCodec E) (usCache s)"

fun inboundFlow :: "jsonCodec \<Rightarrow> string \<Rightarrow> json list \<Rightarrow> string option" where
  "inboundFlow J inboundTag [] = None"
| "inboundFlow J inboundTag (item # items) =
     (let inbound = objOr (Some item) in
      if asString J (map_of inbound ''tag'') = inboundTag \<and> asString J (map_of inbound ''protocol'') = ''vless''
      then Some (trimSpace (asString J (map_of (objOr (map_of inbound ''settings'')) ''flow'')))
      else inboundFlow J inboundTag items)"

definition inheritInboundUserFlow :: "('f, 'x) userEnv \<Rightarrow> string \<Rightarrow> InboundUser \<Rightarrow> ('f, 'x) userState \<Rightarrow> string + InboundUser" where
  "inheritInboundUserFlow E inboundTag user s =
     (if Protocol user \<noteq> ''vless'' \<or> Flow user \<noteq> [] then Inr user
      else case loadCache E s of None \<Rightarrow> Inr user
        | Some payload \<Rightarrow> (case unmarshalMap (ueJson E) (Config payload) of Inl err \<Rightarrow> Inl err
          | Inr config \<Rightarrow> (case inboundFlow (ueJson E) inboundTag (anySlice (map_of config ''inbounds'')) of
              None \<Rightarrow> Inr user
            | Some flow \<Rightarrow> Inr (user\<lparr>Flow := flow\<rparr>))))"

definition shadowsocksInboundMethods :: "('f, 'x) userEnv \<Rightarrow> ('f, 'x) userState \<Rightarrow> (string, string) gomap" where
  "shadowsocksInboundMethods E s = (case loadCache E s of None \<Rightarrow> []
     | Some payload \<Rightarrow> shadowsocksMethodsFromConfig (ueJson E) (Config payload))"

text \<open>The user, whether it exists and whether there is a cache, or an error.\<close>

definition cachedConfigUser :: "('f, 'x) userEnv \<Rightarrow> string \<Rightarrow> string \<Rightarrow> ('f, 'x) userState \<Rightarrow> string + InboundUser option \<times> bool" where
  "cachedConfigUser E inboundTag email s = (case loadCache E s of None \<Rightarrow> Inr (None, False)
     | Some payload \<Rightarrow> (case configClientStates (ueJson E) (Config payload) of Inl err \<Rightarrow> Inl err
         | Inr states \<Rightarrow> Inr (userOf states (trimSpace inboundTag) (trimSpace email), True)))"

definition patchConfigCacheUser :: "('f, 'x) userEnv \<Rightarrow> string \<Rightarrow> InboundUser \<Rightarrow> string \<Rightarrow> ('f, 'x) userState \<Rightarrow> string option \<times> ('f, 'x) userState" where
  "patchConfigCacheUser E inboundTag user removeEmail s =
     (let tag = trimSpace inboundTag in
      if tag = [] then (Some ''inbound_tag is required'', s)
      else case loadCache E s of None \<Rightarrow> (None, s)
        | Some payload \<Rightarrow> (case patchConfigCacheUserJSON (ueJson E) (Config payload) tag user removeEmail of
            Inl err \<Rightarrow> (Some err, s)
          | Inr (configJSON, changed) \<Rightarrow>
              if \<not> changed then (None, s)
              else (None, s\<lparr>usCache := saveConfigCache (ueCodec E) (ueFsErr E) configJSON (PeerIP payload)
                \<lparr>rsOV = OVRuntime payload, rsL2TP = L2TPRuntime payload, rsPPTP = PPTPRuntime payload, rsWG = WGRuntime payload,
                 rsIKEv2 = IKEv2Runtime payload, rsAnyConnect = AnyConnectRuntime payload, rsHAProxy = None, rsExtra = None\<rparr>
                (usCache s)\<rparr>)))"

definition addUserToConfigCache :: "('f, 'x) userEnv \<Rightarrow> string \<Rightarrow> InboundUser \<Rightarrow> ('f, 'x) userState \<Rightarrow> string option \<times> ('f, 'x) userState" where
  "addUserToConfigCache E inboundTag user = patchConfigCacheUser E inboundTag user []"

definition removeUserFromConfigCache :: "('f, 'x) userEnv \<Rightarrow> string \<Rightarrow> string \<Rightarrow> ('f, 'x) userState \<Rightarrow> string option \<times> ('f, 'x) userState" where
  "removeUserFromConfigCache E inboundTag email = patchConfigCacheUser E inboundTag noUser email"

text \<open>A call of the Xray API, on the whole state.\<close>

definition onXray :: "('x \<Rightarrow> goError option \<times> 'x) \<Rightarrow> ('f, 'x) userState \<Rightarrow> goError option \<times> ('f, 'x) userState" where
  "onXray call s = (case call (usXray s) of (err, x) \<Rightarrow> (err, s\<lparr>usXray := x\<rparr>))"

definition applyConfigUserDiffResult :: "('f, 'x) userEnv \<Rightarrow> configUserDiffResult \<Rightarrow> ('f, 'x) userState \<Rightarrow> goError option \<times> ('f, 'x) userState" where
  "applyConfigUserDiffResult E diff = onXray (applyConfigUserDiff diff (AddInboundUser (ueAPI E)) (RemoveInboundUser (ueAPI E)))"

definition withMethods :: "(string, string) gomap \<Rightarrow> configUserDiffResult \<Rightarrow> configUserDiffResult" where
  "withMethods methods diff =
     diff\<lparr>dAdd := map (\<lambda>a. a\<lparr>caUser := withShadowsocksInboundMethod (caUser a) methods (caTag a)\<rparr>) (dAdd diff),
          dUpdate := map (\<lambda>u. u\<lparr>cuCurrent := withShadowsocksInboundMethod (cuCurrent u) methods (cuTag u)\<rparr>) (dUpdate diff)\<rparr>"

definition applyConfigCacheUserDiff :: "('f, 'x) userEnv \<Rightarrow> string \<Rightarrow> ('f, 'x) userState \<Rightarrow> goError option \<times> ('f, 'x) userState" where
  "applyConfigCacheUserDiff E incomingConfig s = (case loadCache E s of None \<Rightarrow> (None, s)
     | Some payload \<Rightarrow> (case configUserDiff (ueJson E) (Config payload) incomingConfig of
         Inl err \<Rightarrow> (Some (GoError err False), s)
       | Inr diff \<Rightarrow>
           applyConfigUserDiffResult E (withMethods (shadowsocksMethodsFromConfig (ueJson E) incomingConfig) diff) s))"

section \<open>Handlers\<close>

datatype grpcCode = FailedPrecondition | InvalidArgument | Unavailable | Internal

text \<open>An accepted action with its message, or a status error. The runtime state a response carries is
  reported by another component.\<close>

datatype actionResult = Accepted string | Failed grpcCode string

definition AddUserCall :: "('f, 'x) userEnv \<Rightarrow> string \<Rightarrow> InboundUser \<Rightarrow> ('f, 'x) userState \<Rightarrow> goError option \<times> ('f, 'x) userState" where
  "AddUserCall E inboundTag user = onXray (AddInboundUser (ueAPI E) inboundTag user)"

definition RemoveUserCall :: "('f, 'x) userEnv \<Rightarrow> string \<Rightarrow> string \<Rightarrow> ('f, 'x) userState \<Rightarrow> goError option \<times> ('f, 'x) userState" where
  "RemoveUserCall E inboundTag email = onXray (RemoveInboundUser (ueAPI E) inboundTag email)"

text \<open>The end of each handler: the cache is changed once Xray has accepted the change.\<close>

definition acceptAfter :: "string \<Rightarrow> string option \<times> ('f, 'x) userState \<Rightarrow> actionResult \<times> ('f, 'x) userState" where
  "acceptAfter message r = (case r of (Some err, s) \<Rightarrow> (Failed Unavailable err, s) | (None, s) \<Rightarrow> (Accepted message, s))"

definition grpcAddUser :: "('f, 'x) userEnv \<Rightarrow> string \<Rightarrow> protoUser option \<Rightarrow> string \<Rightarrow> ('f, 'x) userState \<Rightarrow> actionResult \<times> ('f, 'x) userState" where
  "grpcAddUser E reqTag reqUser message s =
     (let inboundTag = trimSpace reqTag in
      if \<not> usStarted s then (Failed FailedPrecondition ''Xray is not started'', s)
      else if inboundTag = [] then (Failed InvalidArgument ''inbound_tag is required'', s)
      else case protoInboundUser reqUser of Inl err \<Rightarrow> (Failed InvalidArgument err, s)
      | Inr user0 \<Rightarrow> (case inheritInboundUserFlow E inboundTag user0 s of Inl err \<Rightarrow> (Failed Unavailable err, s)
        | Inr user1 \<Rightarrow>
            let user = withShadowsocksInboundMethod user1 (shadowsocksInboundMethods E s) inboundTag in
            (case AddUserCall E inboundTag user s of (err, s') \<Rightarrow>
               if \<not> isIgnorableXrayAddError err then (Failed Unavailable (errText (the err)), s')
               else acceptAfter message (addUserToConfigCache E inboundTag user s'))))"

definition AddUser :: "('f, 'x) userEnv \<Rightarrow> string \<Rightarrow> protoUser option \<Rightarrow> ('f, 'x) userState \<Rightarrow> actionResult \<times> ('f, 'x) userState" where
  "AddUser E reqTag reqUser = grpcAddUser E reqTag reqUser ''user added''"

text \<open>The difference \<open>UpdateUser\<close> and \<open>upsertBatchUser\<close> build for one user.\<close>

definition userDiff :: "string \<Rightarrow> InboundUser option \<Rightarrow> InboundUser \<Rightarrow> configUserDiffResult" where
  "userDiff inboundTag exists user = (case exists of
       Some previous \<Rightarrow> emptyDiff\<lparr>dUpdate := [\<lparr>cuTag = inboundTag, cuPrevious = previous, cuCurrent = user\<rparr>]\<rparr>
     | None \<Rightarrow> emptyDiff\<lparr>dAdd := [\<lparr>caTag = inboundTag, caUser = user\<rparr>]\<rparr>)"

definition UpdateUser :: "('f, 'x) userEnv \<Rightarrow> string \<Rightarrow> protoUser option \<Rightarrow> ('f, 'x) userState \<Rightarrow> actionResult \<times> ('f, 'x) userState" where
  "UpdateUser E reqTag reqUser s =
     (let inboundTag = trimSpace reqTag in
      if \<not> usStarted s then (Failed FailedPrecondition ''Xray is not started'', s)
      else case protoInboundUser reqUser of Inl err \<Rightarrow> (Failed InvalidArgument err, s)
      | Inr user0 \<Rightarrow> (case cachedConfigUser E inboundTag (Email user0) s of Inl err \<Rightarrow> (Failed Unavailable err, s)
        | Inr (exists, cacheAvailable) \<Rightarrow>
            if \<not> cacheAvailable then (Failed FailedPrecondition ''runtime config cache is unavailable; sync config first'', s)
            else (case inheritInboundUserFlow E inboundTag user0 s of Inl err \<Rightarrow> (Failed Unavailable err, s)
              | Inr user \<Rightarrow> (case applyConfigUserDiffResult E (userDiff inboundTag exists user) s of
                  (Some err, s') \<Rightarrow> (Failed Unavailable (errText err), s')
                | (None, s') \<Rightarrow> acceptAfter ''user updated'' (addUserToConfigCache E inboundTag user s')))))"

definition RemoveUser :: "('f, 'x) userEnv \<Rightarrow> string \<Rightarrow> string \<Rightarrow> ('f, 'x) userState \<Rightarrow> actionResult \<times> ('f, 'x) userState" where
  "RemoveUser E reqTag reqEmail s =
     (let inboundTag = trimSpace reqTag; email = trimSpace reqEmail in
      if \<not> usStarted s then (Failed FailedPrecondition ''Xray is not started'', s)
      else if inboundTag = [] then (Failed InvalidArgument ''inbound_tag is required'', s)
      else if email = [] then (Failed InvalidArgument ''email is required'', s)
      else case RemoveUserCall E inboundTag email s of (err, s') \<Rightarrow>
        if \<not> isIgnorableXrayRemoveError err then (Failed Unavailable (errText (the err)), s')
        else acceptAfter ''user removed'' (removeUserFromConfigCache E inboundTag email s'))"

section \<open>User batches\<close>

definition maxUserBatchOperations :: nat where
  "maxUserBatchOperations = 1000"

datatype batchAction = BatchUpsert | BatchRemove | BatchOther string

record batchOperation =
  boInboundTag :: string
  boAction :: batchAction
  boUser :: "protoUser option"
  boEmail :: string

record batchResult =
  brOk :: bool
  brError :: string

definition failedUserBatchResult :: "string \<Rightarrow> batchResult" where
  "failedUserBatchResult message = \<lparr>brOk = False, brError = message\<rparr>"

definition plainError :: "string option \<times> ('f, 'x) userState \<Rightarrow> goError option \<times> ('f, 'x) userState" where
  "plainError r = (case r of (e, s) \<Rightarrow> (map_option (\<lambda>m. GoError m False) e, s))"

definition upsertBatchUser :: "('f, 'x) userEnv \<Rightarrow> string \<Rightarrow> InboundUser \<Rightarrow> ('f, 'x) userState \<Rightarrow> goError option \<times> ('f, 'x) userState" where
  "upsertBatchUser E inboundTag user0 s =
     (case cachedConfigUser E inboundTag (Email user0) s of Inl err \<Rightarrow> (Some (GoError err False), s)
      | Inr (exists, cacheAvailable) \<Rightarrow>
     (case inheritInboundUserFlow E inboundTag user0 s of Inl err \<Rightarrow> (Some (GoError err False), s)
      | Inr user1 \<Rightarrow>
          let user = withShadowsocksInboundMethod user1 (shadowsocksInboundMethods E s) inboundTag in
          if \<not> cacheAvailable then
            (case AddUserCall E inboundTag user s of (err, s') \<Rightarrow>
               if \<not> isIgnorableXrayAddError err then (err, s')
               else plainError (addUserToConfigCache E inboundTag user s'))
          else (case applyConfigUserDiffResult E (userDiff inboundTag exists user) s of
              (Some err, s') \<Rightarrow> (Some err, s')
            | (None, s') \<Rightarrow> plainError (addUserToConfigCache E inboundTag user s'))))"

definition removeBatchUser :: "('f, 'x) userEnv \<Rightarrow> string \<Rightarrow> string \<Rightarrow> ('f, 'x) userState \<Rightarrow> goError option \<times> ('f, 'x) userState" where
  "removeBatchUser E inboundTag email s =
     (if email = [] then (Some (GoError ''email is required'' False), s)
      else case RemoveUserCall E inboundTag email s of (err, s') \<Rightarrow>
        if \<not> isIgnorableXrayRemoveError err then (err, s')
        else plainError (removeUserFromConfigCache E inboundTag email s'))"

definition applyUserBatchOperation :: "('f, 'x) userEnv \<Rightarrow> batchOperation \<Rightarrow> ('f, 'x) userState \<Rightarrow> (batchResult \<times> goError option) \<times> ('f, 'x) userState" where
  "applyUserBatchOperation E operation s =
     (let inboundTag = trimSpace (boInboundTag operation) in
      if inboundTag = [] then ((failedUserBatchResult ''inbound_tag is required'', None), s)
      else case (case boAction operation of
          BatchUpsert \<Rightarrow> (case protoInboundUser (boUser operation) of
              Inl err \<Rightarrow> (Some (GoError err False), s)
            | Inr user \<Rightarrow> upsertBatchUser E inboundTag user s)
        | BatchRemove \<Rightarrow> removeBatchUser E inboundTag (trimSpace (boEmail operation)) s
        | BatchOther name \<Rightarrow> (Some (GoError (''unsupported user batch action '' @ name) False), s)) of
        (Some err, s') \<Rightarrow> ((failedUserBatchResult (errText err), Some err), s')
      | (None, s') \<Rightarrow> ((\<lparr>brOk = True, brError = []\<rparr>, None), s'))"

text \<open>
  The loop; \<open>ctxErr i\<close> is the error of the context before operation \<open>i\<close>. The results are in the
  order of the operations, \<open>Inl\<close> is the status of a context that has ended.
\<close>

fun batchLoop :: "('f, 'x) userEnv \<Rightarrow> (nat \<Rightarrow> string option) \<Rightarrow> nat \<Rightarrow> batchOperation list \<Rightarrow> ('f, 'x) userState \<Rightarrow> (string + batchResult list) \<times> ('f, 'x) userState" where
  "batchLoop E ctxErr i [] s = (Inr [], s)"
| "batchLoop E ctxErr i (operation # operations) s = (case ctxErr i of
       Some err \<Rightarrow> (Inl err, s)
     | None \<Rightarrow> (case applyUserBatchOperation E operation s of ((result, err), s') \<Rightarrow>
         if (case err of None \<Rightarrow> False | Some e \<Rightarrow> errUnavailable e)
         then (Inr (result # map (\<lambda>_. failedUserBatchResult ''not attempted: Xray API is unavailable'') operations), s')
         else (case batchLoop E ctxErr (Suc i) operations s' of
             (Inl e, s'') \<Rightarrow> (Inl e, s'')
           | (Inr results, s'') \<Rightarrow> (Inr (result # results), s''))))"

datatype batchResponse = BatchDone "batchResult list" | BatchRefused grpcCode string | BatchCancelled string

definition ApplyUserBatch :: "('f, 'x) userEnv \<Rightarrow> (nat \<Rightarrow> string option) \<Rightarrow> batchOperation list \<Rightarrow> ('f, 'x) userState \<Rightarrow> batchResponse \<times> ('f, 'x) userState" where
  "ApplyUserBatch E ctxErr operations s =
     (if length operations > maxUserBatchOperations
      then (BatchRefused InvalidArgument (''user batch exceeds '' @ formatUint maxUserBatchOperations @ '' operations''), s)
      else if operations = [] then (BatchDone [], s)
      else if \<not> usStarted s then (BatchRefused FailedPrecondition ''Xray is not started'', s)
      else case batchLoop E ctxErr 0 operations (s\<lparr>usCache := beginConfigCacheBatch (ueCodec E) (usCache s)\<rparr>) of (r, s1) \<Rightarrow>
        (case r of Inl err \<Rightarrow> BatchCancelled err | Inr results \<Rightarrow> BatchDone results,
         s1\<lparr>usCache := snd (endConfigCacheBatch (ueCodec E) (ueFsErr E) (usCache s1))\<rparr>))"

section \<open>What Xray promises\<close>

text \<open>
  \<open>table\<close> is the user Xray has for a tag and an email, \<open>accepts\<close> says which users it takes for a tag.
  Xray compares emails in lower case, so the laws speak of emails in lower case.
\<close>

type_synonym 'x userTable = "'x \<Rightarrow> string \<times> string \<Rightarrow> protocolUser option"

definition addLaw :: "'x xrayAPI \<Rightarrow> 'x userTable \<Rightarrow> (string \<Rightarrow> protocolUser \<Rightarrow> bool) \<Rightarrow> 'x \<Rightarrow> string \<Rightarrow> protocolUser \<Rightarrow> bool" where
  "addLaw A table accepts x tag u = (case alterInbound A tag (AddUserOperation u) x of (err, x') \<Rightarrow>
     if accepts tag u \<and> table x (tag, xuEmail u) = None
     then err = None \<and> table x' = (table x)((tag, xuEmail u) \<mapsto> u)
     else err \<noteq> None \<and> table x' = table x
       \<and> (accepts tag u \<or> \<not> isIgnorableXrayAddError (map_option (\<lambda>m. GoError (''add inbound user: '' @ m) False) err)))"

definition removeLaw :: "'x xrayAPI \<Rightarrow> 'x userTable \<Rightarrow> 'x \<Rightarrow> string \<Rightarrow> string \<Rightarrow> bool" where
  "removeLaw A table x tag email = (case alterInbound A tag (RemoveUserOperation email) x of (err, x') \<Rightarrow>
     if table x (tag, email) = None
     then table x' = table x \<and> isIgnorableXrayRemoveError (map_option (\<lambda>m. GoError (''remove inbound user: '' @ m) False) err)
     else err = None \<and> table x' = (table x)((tag, email) := None))"

definition xrayLaws :: "'x xrayAPI \<Rightarrow> 'x userTable \<Rightarrow> (string \<Rightarrow> protocolUser \<Rightarrow> bool) \<Rightarrow> bool" where
  "xrayLaws A table accepts \<longleftrightarrow> (\<forall>x. dialXray A x = None)
     \<and> (\<forall>x tag u. toLower (xuEmail u) = xuEmail u \<longrightarrow> addLaw A table accepts x tag u)
     \<and> (\<forall>x tag email. toLower email = email \<longrightarrow> removeLaw A table x tag email)"

text \<open>An email as both sides write it, and a tag that is not empty.\<close>

definition plainKey :: "string \<times> string \<Rightarrow> bool" where
  "plainKey k \<longleftrightarrow> fst k \<noteq> [] \<and> snd k \<noteq> [] \<and> trimSpace (fst k) = fst k \<and> trimSpace (snd k) = snd k \<and> toLower (snd k) = snd k"

lemma remove_call:
  assumes "xrayLaws A table accepts" and "plainKey (tag, email)"
  shows "\<exists>err x'. RemoveInboundUser A tag email x = (err, x') \<and> isIgnorableXrayRemoveError err \<and> table x' = (table x)((tag, email) := None)"
proof -
  obtain err x' where c: "alterInbound A tag (RemoveUserOperation email) x = (err, x')" by fastforce
  have d: "dialXray A x = None" using assms(1) by (simp add: xrayLaws_def)
  have "removeLaw A table x tag email" using assms by (simp add: xrayLaws_def plainKey_def)
  then have law: "if table x (tag, email) = None
      then table x' = table x \<and> isIgnorableXrayRemoveError (map_option (\<lambda>m. GoError (''remove inbound user: '' @ m) False) err)
      else err = None \<and> table x' = (table x)((tag, email) := None)"
    using c by (simp add: removeLaw_def)
  have call: "RemoveInboundUser A tag email x = (map_option (\<lambda>m. GoError (''remove inbound user: '' @ m) False) err, x')"
    using assms(2) c d by (simp add: RemoveInboundUser_def callXray_def plainKey_def Let_def split: option.split)
  show ?thesis
  proof (cases "table x (tag, email)")
    case None
    then have "(table x)((tag, email) := None) = table x" by (simp add: fun_upd_idem)
    then show ?thesis using law call None by simp
  next
    case (Some u)
    then show ?thesis using law call by (simp add: isIgnorableXrayRemoveError_def)
  qed
qed

lemma add_call:
  assumes "xrayLaws A table accepts" and "plainKey (tag, Email user)" and "buildProtocolUser user = Inr u"
  shows "\<exists>err x'. AddInboundUser A tag user x = (err, x') \<and>
    (if accepts tag u \<and> table x (tag, Email user) = None then err = None \<and> table x' = (table x)((tag, Email user) \<mapsto> u)
     else err \<noteq> None \<and> table x' = table x \<and> (accepts tag u \<or> \<not> isIgnorableXrayAddError err))"
proof -
  have u: "xuEmail u = Email user"
    using assms(2,3) by (auto simp: buildProtocolUser_def plainKey_def Let_def split: if_splits sum.splits)
  obtain err x' where c: "alterInbound A tag (AddUserOperation u) x = (err, x')" by fastforce
  have d: "dialXray A x = None" using assms(1) by (simp add: xrayLaws_def)
  have "addLaw A table accepts x tag u" using assms(1,2) u by (simp add: xrayLaws_def plainKey_def)
  moreover have "AddInboundUser A tag user x = (map_option (\<lambda>m. GoError (''add inbound user: '' @ m) False) err, x')"
    using assms(2,3) c d by (simp add: AddInboundUser_def callXray_def plainKey_def Let_def split: option.split)
  ultimately show ?thesis using c u by (auto simp: addLaw_def split: if_splits)
qed

section \<open>Applying a difference to a table\<close>

definition rkey :: "configUserRemove \<Rightarrow> string \<times> string" where
  "rkey r = (crTag r, crEmail r)"

definition ukey :: "configUserUpdate \<Rightarrow> string \<times> string" where
  "ukey u = (cuTag u, Email (cuCurrent u))"

definition akey :: "configUserAdd \<Rightarrow> string \<times> string" where
  "akey a = (caTag a, Email (caUser a))"

definition built :: "InboundUser \<Rightarrow> protocolUser option" where
  "built user = (case buildProtocolUser user of Inl _ \<Rightarrow> None | Inr u \<Rightarrow> Some u)"

definition acceptable :: "(string \<Rightarrow> protocolUser \<Rightarrow> bool) \<Rightarrow> string \<Rightarrow> InboundUser \<Rightarrow> bool" where
  "acceptable accepts tag user \<longleftrightarrow> plainKey (tag, Email user) \<and> pred_option (accepts tag) (built user) \<and> built user \<noteq> None"

lemma acceptable_built:
  "acceptable accepts tag user \<Longrightarrow> \<exists>u. buildProtocolUser user = Inr u \<and> built user = Some u \<and> accepts tag u"
  by (auto simp: acceptable_def built_def split: sum.splits)

lemma ignorable_None [simp]: "isIgnorableXrayRemoveError None" "isIgnorableXrayAddError None"
  by (simp_all add: isIgnorableXrayRemoveError_def isIgnorableXrayAddError_def)

lemma applyRemoves_ok:
  assumes "xrayLaws A table accepts"
  shows "\<forall>r\<in>set rs. plainKey (rkey r) \<Longrightarrow>
    \<exists>x'. applyRemoves (RemoveInboundUser A) rs x = (None, x') \<and> (\<forall>k. table x' k = (if k \<in> rkey ` set rs then None else table x k))"
proof (induction rs arbitrary: x)
  case (Cons r rs)
  obtain err x1 where r: "RemoveInboundUser A (crTag r) (crEmail r) x = (err, x1)" "isIgnorableXrayRemoveError err"
    "table x1 = (table x)(rkey r := None)"
    using remove_call [OF assms, of "crTag r" "crEmail r" x] Cons.prems by (auto simp: rkey_def)
  then show ?case using Cons.IH [of x1] Cons.prems by (auto simp: rkey_def)
qed simp

lemma applyUpdate_ok:
  assumes "xrayLaws A table accepts" and "acceptable accepts (cuTag u) (cuCurrent u)" and "Email (cuPrevious u) = Email (cuCurrent u)"
  shows "\<exists>x'. applyUpdate (AddInboundUser A) (RemoveInboundUser A) u x = (None, x') \<and> table x' = (table x)(ukey u := built (cuCurrent u))"
proof -
  obtain pu where pu: "buildProtocolUser (cuCurrent u) = Inr pu" "built (cuCurrent u) = Some pu" "accepts (cuTag u) pu"
    using acceptable_built [OF assms(2)] by blast
  have k: "plainKey (cuTag u, Email (cuCurrent u))" using assms(2) by (simp add: acceptable_def)
  obtain err x1 where r: "RemoveInboundUser A (cuTag u) (Email (cuCurrent u)) x = (err, x1)" "isIgnorableXrayRemoveError err"
    "table x1 = (table x)(ukey u := None)"
    using remove_call [OF assms(1) k, of x] by (auto simp: ukey_def)
  obtain x2 where "AddInboundUser A (cuTag u) (cuCurrent u) x1 = (None, x2)" "table x2 = (table x1)(ukey u \<mapsto> pu)"
    using add_call [OF assms(1) k pu(1), of x1] r(3) pu(3) by (auto simp: ukey_def)
  then show ?thesis using r assms(3) pu(2) by (simp add: applyUpdate_def)
qed

lemma applyUpdates_ok:
  assumes "xrayLaws A table accepts"
  shows "\<forall>u\<in>set us. acceptable accepts (cuTag u) (cuCurrent u) \<and> Email (cuPrevious u) = Email (cuCurrent u) \<Longrightarrow> distinct (map ukey us) \<Longrightarrow>
    \<exists>x'. applyUpdates (AddInboundUser A) (RemoveInboundUser A) us x = (None, x')
      \<and> (\<forall>u\<in>set us. table x' (ukey u) = built (cuCurrent u)) \<and> (\<forall>k. k \<notin> ukey ` set us \<longrightarrow> table x' k = table x k)"
proof (induction us arbitrary: x)
  case (Cons u us)
  obtain x1 where x1: "applyUpdate (AddInboundUser A) (RemoveInboundUser A) u x = (None, x1)" "table x1 = (table x)(ukey u := built (cuCurrent u))"
    using applyUpdate_ok [OF assms, of u x] Cons.prems(1) by auto
  obtain x2 where x2: "applyUpdates (AddInboundUser A) (RemoveInboundUser A) us x1 = (None, x2)"
    "\<forall>u\<in>set us. table x2 (ukey u) = built (cuCurrent u)" "\<forall>k. k \<notin> ukey ` set us \<longrightarrow> table x2 k = table x1 k"
    using Cons.IH [of x1] Cons.prems by auto
  have "ukey u \<notin> ukey ` set us" using Cons.prems(2) by simp
  then have "table x2 (ukey u) = table x1 (ukey u)" using x2(3) by blast
  then show ?case using x1 x2 by (auto simp del: split_paired_All)
qed simp

lemma applyAdds_ok:
  assumes "xrayLaws A table accepts"
  shows "\<forall>a\<in>set as. acceptable accepts (caTag a) (caUser a) \<and> table x (akey a) = None \<Longrightarrow> distinct (map akey as) \<Longrightarrow>
    \<exists>x'. applyAdds (AddInboundUser A) as x = (None, x')
      \<and> (\<forall>a\<in>set as. table x' (akey a) = built (caUser a)) \<and> (\<forall>k. k \<notin> akey ` set as \<longrightarrow> table x' k = table x k)"
proof (induction as arbitrary: x)
  case (Cons a as)
  have acc: "acceptable accepts (caTag a) (caUser a)" and free: "table x (akey a) = None" using Cons.prems(1) by simp_all
  obtain pu where pu: "buildProtocolUser (caUser a) = Inr pu" "built (caUser a) = Some pu" "accepts (caTag a) pu"
    using acceptable_built [OF acc] by blast
  have "plainKey (caTag a, Email (caUser a))" using acc by (simp add: acceptable_def)
  then obtain x1 where x1: "AddInboundUser A (caTag a) (caUser a) x = (None, x1)" "table x1 = (table x)(akey a := built (caUser a))"
    using add_call [OF assms _ pu(1), of "caTag a" x] pu free by (auto simp: akey_def)
  have "\<forall>a\<in>set as. acceptable accepts (caTag a) (caUser a) \<and> table x1 (akey a) = None"
    using Cons.prems x1(2) by (auto simp: image_iff)
  then obtain x2 where x2: "applyAdds (AddInboundUser A) as x1 = (None, x2)"
    "\<forall>a\<in>set as. table x2 (akey a) = built (caUser a)" "\<forall>k. k \<notin> akey ` set as \<longrightarrow> table x2 k = table x1 k"
    using Cons.IH [of x1] Cons.prems by auto
  have "akey a \<notin> akey ` set as" using Cons.prems(2) by simp
  then have "table x2 (akey a) = table x1 (akey a)" using x2(3) by blast
  then show ?case using x1 x2 by (auto simp del: split_paired_All)
qed simp

text \<open>Removing, updating and adding together, for a difference whose keys do not overlap.\<close>

definition diffOk :: "(string \<Rightarrow> protocolUser \<Rightarrow> bool) \<Rightarrow> configUserDiffResult \<Rightarrow> bool" where
  "diffOk accepts d \<longleftrightarrow> (\<forall>r\<in>set (dRemove d). plainKey (rkey r))
     \<and> (\<forall>u\<in>set (dUpdate d). acceptable accepts (cuTag u) (cuCurrent u) \<and> Email (cuPrevious u) = Email (cuCurrent u))
     \<and> (\<forall>a\<in>set (dAdd d). acceptable accepts (caTag a) (caUser a))
     \<and> distinct (map ukey (dUpdate d)) \<and> distinct (map akey (dAdd d))
     \<and> ukey ` set (dUpdate d) \<inter> rkey ` set (dRemove d) = {} \<and> akey ` set (dAdd d) \<inter> rkey ` set (dRemove d) = {}
     \<and> akey ` set (dAdd d) \<inter> ukey ` set (dUpdate d) = {}"

lemma applyDiff_ok:
  assumes "xrayLaws A table accepts" and "diffOk accepts d" and "\<forall>a\<in>set (dAdd d). table x (akey a) = None"
  obtains x' where "applyConfigUserDiff d (AddInboundUser A) (RemoveInboundUser A) x = (None, x')"
    "\<And>r. r \<in> set (dRemove d) \<Longrightarrow> table x' (rkey r) = None"
    "\<And>u. u \<in> set (dUpdate d) \<Longrightarrow> table x' (ukey u) = built (cuCurrent u)"
    "\<And>a. a \<in> set (dAdd d) \<Longrightarrow> table x' (akey a) = built (caUser a)"
    "\<And>k. k \<notin> rkey ` set (dRemove d) \<union> ukey ` set (dUpdate d) \<union> akey ` set (dAdd d) \<Longrightarrow> table x' k = table x k"
proof -
  have ok: "\<forall>u\<in>set (dUpdate d). acceptable accepts (cuTag u) (cuCurrent u) \<and> Email (cuPrevious u) = Email (cuCurrent u)"
    "\<forall>a\<in>set (dAdd d). acceptable accepts (caTag a) (caUser a)" "distinct (map ukey (dUpdate d))" "distinct (map akey (dAdd d))"
    using assms(2) by (simp_all add: diffOk_def)
  obtain x1 where x1: "applyRemoves (RemoveInboundUser A) (dRemove d) x = (None, x1)"
    "\<And>k. table x1 k = (if k \<in> rkey ` set (dRemove d) then None else table x k)"
    using applyRemoves_ok [OF assms(1), of "dRemove d" x] assms(2) by (auto simp: diffOk_def)
  obtain x2 where x2: "applyUpdates (AddInboundUser A) (RemoveInboundUser A) (dUpdate d) x1 = (None, x2)"
    "\<And>u. u \<in> set (dUpdate d) \<Longrightarrow> table x2 (ukey u) = built (cuCurrent u)"
    "\<And>k. k \<notin> ukey ` set (dUpdate d) \<Longrightarrow> table x2 k = table x1 k"
    using applyUpdates_ok [OF assms(1) ok(1,3), of x1] by blast
  have free: "table x2 (akey a) = None" if a: "a \<in> set (dAdd d)" for a
  proof -
    have "akey a \<notin> ukey ` set (dUpdate d)" using assms(2) a by (auto simp: diffOk_def)
    then show ?thesis using x2(3) x1(2) assms(3) a by simp
  qed
  then obtain x3 where x3: "applyAdds (AddInboundUser A) (dAdd d) x2 = (None, x3)"
    "\<And>a. a \<in> set (dAdd d) \<Longrightarrow> table x3 (akey a) = built (caUser a)"
    "\<And>k. k \<notin> akey ` set (dAdd d) \<Longrightarrow> table x3 k = table x2 k"
    using applyAdds_ok [OF assms(1) _ ok(4), of x2] ok(2) by blast
  have run: "applyConfigUserDiff d (AddInboundUser A) (RemoveInboundUser A) x = (None, x3)"
    using x1(1) x2(1) x3(1) by (simp add: applyConfigUserDiff_def)
  have dis: "ukey ` set (dUpdate d) \<inter> rkey ` set (dRemove d) = {}" "akey ` set (dAdd d) \<inter> rkey ` set (dRemove d) = {}"
    "akey ` set (dAdd d) \<inter> ukey ` set (dUpdate d) = {}"
    using assms(2) by (auto simp: diffOk_def)
  show thesis
  proof (rule that [OF run])
    fix r assume "r \<in> set (dRemove d)"
    then have "rkey r \<notin> akey ` set (dAdd d)" "rkey r \<notin> ukey ` set (dUpdate d)" "rkey r \<in> rkey ` set (dRemove d)" using dis by blast+
    then show "table x3 (rkey r) = None" using x3(3) x2(3) x1(2) by simp
  next
    fix u assume u: "u \<in> set (dUpdate d)"
    then have "ukey u \<notin> akey ` set (dAdd d)" using dis by blast
    then show "table x3 (ukey u) = built (cuCurrent u)" using x3(3) x2(2) u by simp
  qed (use x3 x2 x1 in auto)
qed

section \<open>Where the users of a document come from\<close>

definition counts :: "jsonCodec \<Rightarrow> string \<Rightarrow> json \<Rightarrow> bool" where
  "counts J t i \<longleftrightarrow> tagOf J i = Some t \<and> t \<noteq> [] \<and> protocolOf J (objOr (Some i)) \<noteq> []"

definition lastInbound :: "jsonCodec \<Rightarrow> json list \<Rightarrow> string \<Rightarrow> jobj option" where
  "lastInbound J items t = (case rev (filter (counts J t) items) of [] \<Rightarrow> None | i # _ \<Rightarrow> Some (objOr (Some i)))"

text \<open>The protocol of the inbound that has a tag and the flow its users get by default.\<close>

definition inboundDefaults :: "jsonCodec \<Rightarrow> string \<Rightarrow> string \<Rightarrow> (string \<times> string) option" where
  "inboundDefaults J raw t = (case unmarshalMap J raw of Inl _ \<Rightarrow> None
     | Inr config \<Rightarrow> map_option (\<lambda>i. (protocolOf J i, trimSpace (asString J (map_of (settingsOf i) ''flow''))))
         (lastInbound J (anySlice (map_of config ''inbounds'')) t))"

lemma lastInbound_snoc:
  "lastInbound J (items @ [i]) t = (if counts J t i then Some (objOr (Some i)) else lastInbound J items t)"
  by (simp add: lastInbound_def)

definition inboundEntry :: "jsonCodec \<Rightarrow> string \<Rightarrow> jobj option \<Rightarrow> configClientState option \<Rightarrow> bool" where
  "inboundEntry J t i st \<longleftrightarrow> (case i of None \<Rightarrow> st = None
     | Some ib \<Rightarrow> tagOf J (JObj ib) = Some t \<and> t \<noteq> [] \<and> (\<exists>c. stateOf J ib = Inr c \<and> st = Some c))"

lemma states_last:
  assumes "inboundStates J items [] = Inr st"
  shows "distinct (map fst st) \<and> (\<forall>t. inboundEntry J t (lastInbound J items t) (map_of st t))"
  using assms
proof (induction items arbitrary: st rule: rev_induct)
  case Nil
  then show ?case by (simp add: lastInbound_def inboundEntry_def)
next
  case (snoc i items)
  obtain r where r: "inboundStates J items [] = Inr r" "inboundStates J [i] r = Inr st"
    using snoc.prems by (auto simp: inboundStates_append split: sum.splits)
  note IH = snoc.IH [OF r(1)]
  show ?case
  proof (cases "\<exists>t. counts J t i")
    case True
    then obtain t0 ib where i: "i = JObj ib" "tagOf J i = Some t0" "t0 \<noteq> []" "protocolOf J ib \<noteq> []"
      by (cases i) (auto simp: counts_def tagOf_def)
    then obtain c where c: "stateOf J ib = Inr c" "st = AList.update t0 c r"
      using r(2) by (auto split: sum.splits)
    have "counts J t i \<longleftrightarrow> t = t0" for t using i by (auto simp: counts_def)
    moreover have "inboundEntry J t0 (Some ib) (Some c)" using i c by (simp add: inboundEntry_def)
    ultimately show ?thesis using IH i c by (auto simp: lastInbound_snoc distinct_update)
  next
    case False
    have "st = r"
    proof (cases i)
      case (JObj ib)
      then show ?thesis using False r(2) by (auto simp: counts_def tagOf_def split: if_splits)
    qed (use r(2) in \<open>simp_all add: tagOf_def\<close>)
    then show ?thesis using IH False by (simp add: lastInbound_snoc)
  qed
qed

definition clientEntry :: "jsonCodec \<Rightarrow> string \<Rightarrow> string \<Rightarrow> jobj \<Rightarrow> string \<Rightarrow> InboundUser option \<Rightarrow> string option \<Rightarrow> bool" where
  "clientEntry J tag p s e u raw \<longleftrightarrow> (case u of None \<Rightarrow> raw = None
     | Some v \<Rightarrow> Email v = e \<and> e \<noteq> [] \<and> trimSpace e = e \<and> (\<exists>c. clientUser J tag p s (JObj c) = Inr (Some (v, encodeJSON J (JObj c)))
         \<and> raw = Some (encodeJSON J (JObj c))))"

definition clientsInv :: "jsonCodec \<Rightarrow> string \<Rightarrow> string \<Rightarrow> jobj \<Rightarrow> configClientState \<Rightarrow> bool" where
  "clientsInv J tag p s st \<longleftrightarrow> distinct (map fst (csClients st))
     \<and> (\<forall>e. clientEntry J tag p s e (map_of (csClients st) e) (map_of (csRaw st) e))"

lemma clientUser_some:
  assumes "clientUser J tag p s item = Inr (Some (u, raw))"
  shows "\<exists>c. item = JObj c \<and> raw = encodeJSON J (JObj c) \<and> Email u \<noteq> []"
proof (cases item)
  case (JObj c)
  then show ?thesis using assms
    by (cases "inboundUserFromClient J p c") (auto simp: clientUser_def split: if_splits)
qed (use assms in \<open>simp_all add: clientUser_def\<close>)

lemma inboundClients_inv:
  "clientsInv J tag p s a \<Longrightarrow> inboundClients J tag p s items a = Inr b \<Longrightarrow> clientsInv J tag p s b"
proof (induction items arbitrary: a)
  case (Cons item items)
  show ?case
  proof (cases "clientUser J tag p s item")
    case (Inr r)
    show ?thesis
    proof (cases r)
      case None
      then show ?thesis using Cons Inr by simp
    next
      case (Some ur)
      then obtain u raw where u: "clientUser J tag p s item = Inr (Some (u, raw))" using Inr by (cases ur) simp
      obtain c where c: "item = JObj c" "raw = encodeJSON J (JObj c)" "Email u \<noteq> []" using clientUser_some [OF u] by blast
      have t: "trimSpace (Email u) = Email u" using clientUser_email [OF u] by simp
      let ?a = "a\<lparr>csClients := AList.update (Email u) u (csClients a), csRaw := AList.update (Email u) raw (csRaw a)\<rparr>"
      have "clientEntry J tag p s (Email u) (Some u) (Some raw)" using u c t by (auto simp: clientEntry_def)
      then have "clientsInv J tag p s ?a" using Cons.prems(1) by (auto simp: clientsInv_def distinct_update)
      then show ?thesis using Cons.IH [of ?a] Cons.prems(2) u by simp
    qed
  qed (use Cons.prems in simp)
qed simp

lemma stateOf_inv:
  assumes "stateOf J i = Inr c" and "tagOf J (JObj i) = Some t"
  shows "clientsInv J t (protocolOf J i) (settingsOf i) c"
  using inboundClients_inv [of J t "protocolOf J i" "settingsOf i" "noClients (protocolOf J i)"] assms
  by (simp add: stateOf_def tagOf_def) (simp add: clientsInv_def clientEntry_def noClients_def)

text \<open>Equal text and equal defaults give the same user.\<close>

lemma same_raw_same_user:
  assumes "jsonLaws J" and "clientUser J t p s (JObj c) = Inr (Some (u, encodeJSON J (JObj c)))"
    and "clientUser J t p s' (JObj c') = Inr (Some (u', encodeJSON J (JObj c')))"
    and "encodeJSON J (JObj c) = encodeJSON J (JObj c')"
    and "trimSpace (asString J (map_of s ''flow'')) = trimSpace (asString J (map_of s' ''flow''))"
  shows "u = u'"
proof -
  have "Inr (canon (JObj c)) = (Inr (canon (JObj c')) :: string + json)"
    using assms(1,4) unfolding jsonLaws_def by metis
  then have "canonObj c = canonObj c'" by simp
  then have "inboundUserFromClient J p c = inboundUserFromClient J p c'"
    using inboundUserFromClient_canon [OF assms(1)] by metis
  then show ?thesis using assms(2,3,5)
    by (cases "inboundUserFromClient J p c'") (auto simp: clientUser_def split: if_splits)
qed

section \<open>What is in a difference\<close>

definition rawOf :: "(string, configClientState) gomap \<Rightarrow> string \<Rightarrow> string \<Rightarrow> string" where
  "rawOf st t e = mget [] (csRaw (mget (noClients []) st t)) e"

text \<open>States as a document gives them.\<close>

definition statesOk :: "(string, configClientState) gomap \<Rightarrow> bool" where
  "statesOk st \<longleftrightarrow> distinct (map fst st) \<and> (\<forall>t c. map_of st t = Some c \<longrightarrow> distinct (map fst (csClients c))
     \<and> (\<forall>e u. map_of (csClients c) e = Some u \<longrightarrow> Email u = e))"

lemma userOf_mget: "userOf st t e = map_of (csClients (mget (noClients []) st t)) e"
  by (simp add: userOf_def mget_def noClients_def split: option.split)

lemma statesDiff_concat:
  "dAdd (statesDiff cached incoming) = concat (map (\<lambda>(t, i). dAdd (tagDiff t (mget (noClients []) cached t) i)) incoming)"
  "dRemove (statesDiff cached incoming) = concat (map (\<lambda>(t, i). dRemove (tagDiff t (mget (noClients []) cached t) i)) incoming)"
  "dUpdate (statesDiff cached incoming) = concat (map (\<lambda>(t, i). dUpdate (tagDiff t (mget (noClients []) cached t) i)) incoming)"
  by (induction cached incoming rule: statesDiff.induct) (simp_all add: emptyDiff_def Let_def)

lemma in_tagDiff:
  "a \<in> set (dAdd (tagDiff t c i)) \<longleftrightarrow> (\<exists>e v. (e, v) \<in> set (csClients i) \<and> mget [] (csRaw c) e \<noteq> mget [] (csRaw i) e
     \<and> map_of (csClients c) e = None \<and> a = \<lparr>caTag = t, caUser = v\<rparr>)"
  "r \<in> set (dRemove (tagDiff t c i)) \<longleftrightarrow> (\<exists>e v. (e, v) \<in> set (csClients c) \<and> map_of (csClients i) e = None
     \<and> r = \<lparr>crTag = t, crEmail = e\<rparr>)"
  "u \<in> set (dUpdate (tagDiff t c i)) \<longleftrightarrow> (\<exists>e v w. (e, v) \<in> set (csClients i) \<and> mget [] (csRaw c) e \<noteq> mget [] (csRaw i) e
     \<and> map_of (csClients c) e = Some w \<and> u = \<lparr>cuTag = t, cuPrevious = w, cuCurrent = v\<rparr>)"
  by (auto simp: tagDiff_def Let_def image_iff split: option.splits) force+

lemma in_statesDiff:
  "a \<in> set (dAdd (statesDiff cs inc)) \<longleftrightarrow> (\<exists>t i. (t, i) \<in> set inc \<and> a \<in> set (dAdd (tagDiff t (mget (noClients []) cs t) i)))"
  "r \<in> set (dRemove (statesDiff cs inc)) \<longleftrightarrow> (\<exists>t i. (t, i) \<in> set inc \<and> r \<in> set (dRemove (tagDiff t (mget (noClients []) cs t) i)))"
  "u \<in> set (dUpdate (statesDiff cs inc)) \<longleftrightarrow> (\<exists>t i. (t, i) \<in> set inc \<and> u \<in> set (dUpdate (tagDiff t (mget (noClients []) cs t) i)))"
  by (auto simp: statesDiff_concat)

lemma in_diff:
  assumes "statesOk cs" and "statesOk inc"
  shows "a \<in> set (dAdd (statesDiff cs inc)) \<longleftrightarrow> userOf inc (caTag a) (Email (caUser a)) = Some (caUser a)
      \<and> userOf cs (caTag a) (Email (caUser a)) = None \<and> rawOf cs (caTag a) (Email (caUser a)) \<noteq> rawOf inc (caTag a) (Email (caUser a))" (is ?A)
    and "r \<in> set (dRemove (statesDiff cs inc)) \<longleftrightarrow> map_of inc (crTag r) \<noteq> None \<and> userOf cs (crTag r) (crEmail r) \<noteq> None
      \<and> userOf inc (crTag r) (crEmail r) = None" (is ?R)
    and "u \<in> set (dUpdate (statesDiff cs inc)) \<longleftrightarrow> userOf inc (cuTag u) (Email (cuCurrent u)) = Some (cuCurrent u)
      \<and> userOf cs (cuTag u) (Email (cuCurrent u)) = Some (cuPrevious u)
      \<and> rawOf cs (cuTag u) (Email (cuCurrent u)) \<noteq> rawOf inc (cuTag u) (Email (cuCurrent u))" (is ?U)
proof -
  have tags: "(t, i) \<in> set inc \<longleftrightarrow> map_of inc t = Some i" for t i
    using assms(2) by (simp add: statesOk_def)
  have cl: "(\<exists>i. map_of inc t = Some i \<and> (e, v) \<in> set (csClients i) \<and> P i) \<longleftrightarrow> userOf inc t e = Some v \<and> P (mget (noClients []) inc t)" for t e v P
  proof (cases "map_of inc t")
    case (Some i)
    then have "(e, v) \<in> set (csClients i) \<longleftrightarrow> map_of (csClients i) e = Some v" using assms(2) by (simp add: statesOk_def)
    then show ?thesis using Some by (simp add: userOf_def mget_def)
  qed (simp add: userOf_def)
  have em: "Email v = e" if "userOf inc t e = Some v" for t e v
    using assms(2) that by (auto simp: statesOk_def userOf_def split: option.splits)
  have cc: "(e, v) \<in> set (csClients (mget (noClients []) cs t)) \<longleftrightarrow> userOf cs t e = Some v" for t e v
  proof (cases "map_of cs t")
    case (Some c)
    then have "distinct (map fst (csClients c))" using assms(1) by (simp add: statesOk_def)
    then show ?thesis using Some by (simp add: userOf_def mget_def)
  qed (simp add: userOf_def mget_def noClients_def)
  obtain at au where a: "a = \<lparr>caTag = at, caUser = au\<rparr>" by (cases a) simp
  have "a \<in> set (dAdd (statesDiff cs inc)) \<longleftrightarrow> (\<exists>e. \<exists>i. map_of inc at = Some i \<and> (e, au) \<in> set (csClients i)
      \<and> (rawOf cs at e \<noteq> mget [] (csRaw i) e \<and> userOf cs at e = None))"
    unfolding in_statesDiff(1) in_tagDiff tags a by (auto simp: userOf_mget rawOf_def)
  also have "\<dots> \<longleftrightarrow> (\<exists>e. userOf inc at e = Some au \<and> rawOf cs at e \<noteq> rawOf inc at e \<and> userOf cs at e = None)"
    unfolding cl by (simp add: rawOf_def)
  finally show ?A using em by (auto simp: a)
  have "r \<in> set (dRemove (statesDiff cs inc)) \<longleftrightarrow> (\<exists>i. map_of inc (crTag r) = Some i \<and> map_of (csClients i) (crEmail r) = None
      \<and> (\<exists>v. userOf cs (crTag r) (crEmail r) = Some v))"
    unfolding in_statesDiff(2) in_tagDiff tags cc by (cases r) auto
  then show ?R by (auto simp: userOf_def split: option.splits)
  obtain ut up uc where u: "u = \<lparr>cuTag = ut, cuPrevious = up, cuCurrent = uc\<rparr>" by (cases u) simp
  have "u \<in> set (dUpdate (statesDiff cs inc)) \<longleftrightarrow> (\<exists>e. \<exists>i. map_of inc ut = Some i \<and> (e, uc) \<in> set (csClients i)
      \<and> (rawOf cs ut e \<noteq> mget [] (csRaw i) e \<and> userOf cs ut e = Some up))"
    unfolding in_statesDiff(3) in_tagDiff tags u by (auto simp: userOf_mget rawOf_def)
  also have "\<dots> \<longleftrightarrow> (\<exists>e. userOf inc ut e = Some uc \<and> rawOf cs ut e \<noteq> rawOf inc ut e \<and> userOf cs ut e = Some up)"
    unfolding cl by (simp add: rawOf_def)
  finally show ?U using em by (auto simp: u)
qed

lemma distinct_append_keys:
  "distinct (map key xs) \<Longrightarrow> distinct (map key ys) \<Longrightarrow> (\<And>y z. y \<in> set xs \<Longrightarrow> z \<in> set ys \<Longrightarrow> key y \<noteq> key z) \<Longrightarrow>
    distinct (map key (xs @ ys))"
  unfolding map_append distinct_append set_map by (intro conjI) fast+

lemma distinct_concat_keys:
  assumes "distinct (map fst xs)"
    and "\<And>x. x \<in> set xs \<Longrightarrow> distinct (map key (f x)) \<and> (\<forall>y\<in>set (f x). fst (key y) = fst x)"
  shows "distinct (map key (concat (map f xs)))"
  using assms
proof (induction xs)
  case (Cons x xs)
  have "key y \<noteq> key z" if y: "y \<in> set (f x)" and z: "z \<in> set (concat (map f xs))" for y z
  proof -
    obtain w where w: "w \<in> set xs" "z \<in> set (f w)" using z by auto
    then have "fst (key y) = fst x" "fst (key z) = fst w" "fst x \<noteq> fst w" using Cons.prems y by (auto simp: image_iff)
    then show ?thesis by auto
  qed
  then have "distinct (map key (f x @ concat (map f xs)))"
    by (intro distinct_append_keys) (use Cons in auto)
  then show ?case by simp
qed simp

lemma distinct_optional:
  assumes "\<And>e v. (e, v) \<in> set ps \<Longrightarrow> \<forall>y\<in>set (g (e, v)). key y = (t, e)" and "\<And>p. length (g p) \<le> 1" and "distinct (map fst ps)"
  shows "distinct (map key (concat (map g ps)))"
  using assms(1,3)
proof (induction ps)
  case (Cons p ps)
  obtain e v where p: "p = (e, v)" by (cases p)
  have "length (g p) \<le> 1" by (rule assms(2))
  then have "distinct (map key (g p))" by (cases "g p") auto
  moreover have "key y \<noteq> key z" if y: "y \<in> set (g p)" and z: "z \<in> set (concat (map g ps))" for y z
  proof -
    obtain e' v' where z': "(e', v') \<in> set ps" "z \<in> set (g (e', v'))" using z by auto
    then have "key z = (t, e')" "key y = (t, e)" using Cons.prems(1) y p by auto
    moreover have "e \<noteq> e'" using Cons.prems(2) p z' by (auto simp: image_iff)
    ultimately show ?thesis by simp
  qed
  moreover have "distinct (map key (concat (map g ps)))"
    by (rule Cons.IH) (use Cons.prems in auto)
  ultimately have "distinct (map key (g p @ concat (map g ps)))"
    by (intro distinct_append_keys)
  then show ?case by simp
qed simp

lemma distinct_diff_keys:
  assumes "statesOk inc"
  shows "distinct (map akey (dAdd (statesDiff cs inc)))" and "distinct (map ukey (dUpdate (statesDiff cs inc)))"
proof -
  have d: "distinct (map fst inc)" using assms by (simp add: statesOk_def)
  have i: "distinct (map fst (csClients i))" "\<And>e v. (e, v) \<in> set (csClients i) \<Longrightarrow> Email v = e" if "(t, i) \<in> set inc" for t i
    using assms that by (auto simp: statesOk_def map_of_eq_Some_iff)
  have f: "distinct (map fst (filter P ps))" if "distinct (map fst ps)" for P and ps :: "(string \<times> InboundUser) list"
    using that by (induction ps) auto
  show "distinct (map akey (dAdd (statesDiff cs inc)))"
    unfolding statesDiff_concat
  proof (rule distinct_concat_keys [OF d], clarify)
    fix t i assume ti: "(t, i) \<in> set inc"
    let ?c = "mget (noClients []) cs t"
    let ?ps = "filter (\<lambda>(email, user). map_of (csClients ?c) email = None)
      (filter (\<lambda>(email, user). mget [] (csRaw ?c) email \<noteq> mget [] (csRaw i) email) (csClients i))"
    have "map akey (dAdd (tagDiff t ?c i)) = map (Pair t) (map fst ?ps)"
      using i(2) [OF ti] by (auto simp: tagDiff_def Let_def akey_def)
    moreover have "distinct (map (Pair t) (map fst ?ps))"
      using f [OF f [OF i(1) [OF ti]]] by (simp add: distinct_map inj_on_def)
    ultimately show "distinct (map akey (dAdd (tagDiff t ?c i))) \<and> (\<forall>y\<in>set (dAdd (tagDiff t ?c i)). fst (akey y) = fst (t, i))"
      by (auto simp: in_tagDiff akey_def)
  qed
  show "distinct (map ukey (dUpdate (statesDiff cs inc)))"
    unfolding statesDiff_concat
  proof (rule distinct_concat_keys [OF d], clarify)
    fix t i assume ti: "(t, i) \<in> set inc"
    let ?c = "mget (noClients []) cs t"
    have "distinct (map ukey (dUpdate (tagDiff t ?c i)))"
      unfolding tagDiff_def Let_def configUserDiffResult.simps
      by (rule distinct_optional [where t = t])
        (use i(2) [OF ti] f [OF i(1) [OF ti]] in \<open>auto simp: ukey_def split: option.splits\<close>)
    then show "distinct (map ukey (dUpdate (tagDiff t ?c i))) \<and> (\<forall>y\<in>set (dUpdate (tagDiff t ?c i)). fst (ukey y) = fst (t, i))"
      by (auto simp: in_tagDiff ukey_def)
  qed
qed

section \<open>The difference of two documents\<close>

lemma doc_entry:
  assumes "configClientStates J raw = Inr st" and "map_of st t = Some c"
  obtains i where "inboundDefaults J raw t = Some (protocolOf J i, trimSpace (asString J (map_of (settingsOf i) ''flow'')))"
    "clientsInv J t (protocolOf J i) (settingsOf i) c" "t \<noteq> []" "trimSpace t = t"
proof -
  obtain config where c: "unmarshalMap J raw = Inr config" "inboundStates J (anySlice (map_of config ''inbounds'')) [] = Inr st"
    using assms(1) by (auto simp: configClientStates_def split: sum.splits)
  have "inboundEntry J t (lastInbound J (anySlice (map_of config ''inbounds'')) t) (Some c)"
    using states_last [OF c(2)] assms(2) by metis
  then obtain i where i: "lastInbound J (anySlice (map_of config ''inbounds'')) t = Some i" "tagOf J (JObj i) = Some t" "t \<noteq> []" "stateOf J i = Inr c"
    by (auto simp: inboundEntry_def split: option.splits)
  have "trimSpace t = t" using i(2) by (auto simp: tagOf_def)
  with i c show thesis by (intro that [of i] stateOf_inv) (auto simp: inboundDefaults_def)
qed

lemma doc_statesOk:
  assumes "configClientStates J raw = Inr st"
  shows "statesOk st"
proof -
  obtain config where "inboundStates J (anySlice (map_of config ''inbounds'')) [] = Inr st"
    using assms by (auto simp: configClientStates_def split: sum.splits)
  then have "distinct (map fst st)" using states_last by blast
  moreover have "distinct (map fst (csClients c)) \<and> (\<forall>e u. map_of (csClients c) e = Some u \<longrightarrow> Email u = e)" if c: "map_of st t = Some c" for t c
  proof (rule doc_entry [OF assms c])
    fix i assume inv: "clientsInv J t (protocolOf J i) (settingsOf i) c"
    have ce: "clientEntry J t (protocolOf J i) (settingsOf i) e (map_of (csClients c) e) (map_of (csRaw c) e)" for e
      using inv by (simp add: clientsInv_def)
    have "Email u = e" if "map_of (csClients c) e = Some u" for e u
      using ce [of e] that by (simp add: clientEntry_def)
    then show ?thesis using inv by (simp add: clientsInv_def)
  qed
  ultimately show ?thesis by (simp add: statesOk_def)
qed

lemma doc_user:
  assumes "jsonLaws J" and "configClientStates J raw = Inr st" and "userOf st t e = Some u"
  obtains i cl where "inboundDefaults J raw t = Some (protocolOf J i, trimSpace (asString J (map_of (settingsOf i) ''flow'')))"
    "clientUser J t (protocolOf J i) (settingsOf i) (JObj cl) = Inr (Some (u, encodeJSON J (JObj cl)))"
    "rawOf st t e = encodeJSON J (JObj cl)" "rawOf st t e \<noteq> []" "Email u = e" "e \<noteq> []" "trimSpace e = e" "t \<noteq> []" "trimSpace t = t"
proof -
  obtain c where c: "map_of st t = Some c" "map_of (csClients c) e = Some u"
    using assms(3) by (auto simp: userOf_def split: option.splits)
  obtain i where i: "inboundDefaults J raw t = Some (protocolOf J i, trimSpace (asString J (map_of (settingsOf i) ''flow'')))"
    "clientsInv J t (protocolOf J i) (settingsOf i) c" "t \<noteq> []" "trimSpace t = t" using doc_entry [OF assms(2) c(1)] by blast
  have "clientEntry J t (protocolOf J i) (settingsOf i) e (Some u) (map_of (csRaw c) e)"
    using i(2) c(2) unfolding clientsInv_def by metis
  then obtain cl where cl: "clientUser J t (protocolOf J i) (settingsOf i) (JObj cl) = Inr (Some (u, encodeJSON J (JObj cl)))"
    "map_of (csRaw c) e = Some (encodeJSON J (JObj cl))" "Email u = e" "e \<noteq> []" "trimSpace e = e"
    by (auto simp: clientEntry_def)
  have "trimSpace (encodeJSON J (JObj cl)) \<noteq> []" using assms(1) by (simp add: jsonLaws_def)
  then have "encodeJSON J (JObj cl) \<noteq> []" by auto
  moreover have "rawOf st t e = encodeJSON J (JObj cl)" using c cl(2) by (simp add: rawOf_def mget_def)
  ultimately show thesis using that i cl by metis
qed

lemma doc_no_user:
  assumes "configClientStates J raw = Inr st" and "userOf st t e = None"
  shows "rawOf st t e = []"
proof (cases "map_of st t")
  case (Some c)
  obtain i where "clientsInv J t (protocolOf J i) (settingsOf i) c" using doc_entry [OF assms(1) Some] by blast
  then have "clientEntry J t (protocolOf J i) (settingsOf i) e (map_of (csClients c) e) (map_of (csRaw c) e)" by (simp add: clientsInv_def)
  then show ?thesis using assms(2) Some by (simp add: userOf_def rawOf_def clientEntry_def mget_def)
qed (simp add: rawOf_def mget_def noClients_def)

text \<open>Two documents that give the inbounds they share the same protocol and default flow.\<close>

definition sameDefaults :: "jsonCodec \<Rightarrow> string \<Rightarrow> string \<Rightarrow> bool" where
  "sameDefaults J raw raw' \<longleftrightarrow> (\<forall>t d d'. inboundDefaults J raw t = Some d \<and> inboundDefaults J raw' t = Some d' \<longrightarrow> d = d')"

lemma unchanged_user:
  assumes "jsonLaws J" and "configClientStates J raw = Inr cs" and "configClientStates J raw' = Inr inc" and "sameDefaults J raw raw'"
    and "userOf inc t e = Some v" and "rawOf cs t e = rawOf inc t e"
  shows "userOf cs t e = Some v"
proof -
  obtain i' cl' where v: "inboundDefaults J raw' t = Some (protocolOf J i', trimSpace (asString J (map_of (settingsOf i') ''flow'')))"
    "clientUser J t (protocolOf J i') (settingsOf i') (JObj cl') = Inr (Some (v, encodeJSON J (JObj cl')))"
    "rawOf inc t e = encodeJSON J (JObj cl')" "rawOf inc t e \<noteq> []"
    using doc_user [OF assms(1,3,5)] by metis
  obtain u where u: "userOf cs t e = Some u" using doc_no_user [OF assms(2)] v(4) assms(6) by fastforce
  obtain i cl where c: "inboundDefaults J raw t = Some (protocolOf J i, trimSpace (asString J (map_of (settingsOf i) ''flow'')))"
    "clientUser J t (protocolOf J i) (settingsOf i) (JObj cl) = Inr (Some (u, encodeJSON J (JObj cl)))"
    "rawOf cs t e = encodeJSON J (JObj cl)"
    using doc_user [OF assms(1,2) u] by metis
  have d: "protocolOf J i = protocolOf J i'" "trimSpace (asString J (map_of (settingsOf i) ''flow'')) = trimSpace (asString J (map_of (settingsOf i') ''flow''))"
    using assms(4) c(1) v(1) unfolding sameDefaults_def by (metis prod.inject)+
  have "u = v"
    by (rule same_raw_same_user [OF assms(1) c(2) v(2) [folded d(1)]]) (use v(3) c(3) d(2) assms(6) in simp_all)
  with u show ?thesis by simp
qed

section \<open>Properties\<close>

text \<open>The users Xray runs for a tag, given the user of the document and the methods of the inbounds.\<close>

definition runningUser :: "(string, string) gomap \<Rightarrow> string \<Rightarrow> InboundUser option \<Rightarrow> protocolUser option" where
  "runningUser methods t u = Option.bind u (\<lambda>v. built (withShadowsocksInboundMethod v methods t))"

text \<open>Go walks its maps in any order, so the lists of a difference come in any order.\<close>

definition sameUpToOrder :: "configUserDiffResult \<Rightarrow> configUserDiffResult \<Rightarrow> bool" where
  "sameUpToOrder d d' \<longleftrightarrow> mset (dAdd d) = mset (dAdd d') \<and> mset (dRemove d) = mset (dRemove d') \<and> mset (dUpdate d) = mset (dUpdate d')"

lemma withMethod_fields [simp]:
  "Email (withShadowsocksInboundMethod u m t) = Email u"
  by (simp add: withShadowsocksInboundMethod_def)

lemma withMethods_keys:
  "map akey (dAdd (withMethods m d)) = map akey (dAdd d)" "map ukey (dUpdate (withMethods m d)) = map ukey (dUpdate d)"
  "dRemove (withMethods m d) = dRemove d"
  by (simp_all add: withMethods_def akey_def ukey_def comp_def)

lemma sameUpToOrder_sets:
  assumes "sameUpToOrder d d'"
  shows "set (dAdd d) = set (dAdd d')" "set (dRemove d) = set (dRemove d')" "set (dUpdate d) = set (dUpdate d')"
    "distinct (map akey (dAdd d)) = distinct (map akey (dAdd d'))" "distinct (map ukey (dUpdate d)) = distinct (map ukey (dUpdate d'))"
  using assms by (auto simp: sameUpToOrder_def dest: mset_eq_setD intro!: mset_eq_imp_distinct_iff)

lemma diff_of_documents_ok:
  assumes "jsonLaws J" and "configClientStates J cachedRaw = Inr cs" and "configClientStates J incomingRaw = Inr inc"
    and "\<And>t e u. userOf inc t e = Some u \<Longrightarrow> acceptable accepts t (withShadowsocksInboundMethod u methods t)"
    and "\<And>t e. userOf cs t e \<noteq> None \<Longrightarrow> toLower e = e"
    and "sameUpToOrder d (statesDiff cs inc)"
  shows "diffOk accepts (withMethods methods d)"
proof -
  note ok = doc_statesOk [OF assms(2)] doc_statesOk [OF assms(3)]
  note sets = sameUpToOrder_sets [OF assms(6)]
  note mem = in_diff [OF ok]
  have keys: "akey ` set (dAdd (withMethods methods d)) = akey ` set (dAdd d)" "ukey ` set (dUpdate (withMethods methods d)) = ukey ` set (dUpdate d)"
    using withMethods_keys(1,2) [of methods d] by (metis set_map)+
  have rem: "plainKey (rkey r)" if r: "r \<in> set (dRemove d)" for r
  proof -
    obtain u where u: "userOf cs (crTag r) (crEmail r) = Some u" using r mem(2) sets(2) by auto
    show ?thesis using doc_user [OF assms(1,2) u] assms(5) [of "crTag r" "crEmail r"] u by (auto simp: plainKey_def rkey_def)
  qed
  have upd: "acceptable accepts (cuTag u) (withShadowsocksInboundMethod (cuCurrent u) methods (cuTag u)) \<and> Email (cuPrevious u) = Email (cuCurrent u)"
    if "u \<in> set (dUpdate d)" for u
  proof -
    have u: "userOf inc (cuTag u) (Email (cuCurrent u)) = Some (cuCurrent u)" "userOf cs (cuTag u) (Email (cuCurrent u)) = Some (cuPrevious u)"
      using that mem(3) sets(3) by auto
    show ?thesis using assms(4) [OF u(1)] doc_user [OF assms(1,2) u(2)] by metis
  qed
  have add: "acceptable accepts (caTag a) (withShadowsocksInboundMethod (caUser a) methods (caTag a))" if "a \<in> set (dAdd d)" for a
    using that mem(1) sets(1) assms(4) by blast
  have dis: "ukey ` set (dUpdate d) \<inter> rkey ` set (dRemove d) = {}" "akey ` set (dAdd d) \<inter> rkey ` set (dRemove d) = {}"
    "akey ` set (dAdd d) \<inter> ukey ` set (dUpdate d) = {}"
    using mem sets by (auto simp: akey_def rkey_def ukey_def)
  show ?thesis
    unfolding diffOk_def keys withMethods_keys
    using rem upd add dis sets(4,5) distinct_diff_keys [OF ok(2)] by (auto simp: withMethods_def)
qed

text \<open>
  (C4) Reconciling users is correct: when Xray runs the users of the cached document and a new
  document gives the shared inbounds the same protocol and default flow, applying the difference,
  in whatever order the maps were walked, succeeds and leaves Xray, for every tag of the new
  document, with exactly the users of the new document.
\<close>

theorem reconcile_users:
  assumes "jsonLaws J" and "xrayLaws A table accepts"
    and "configClientStates J cachedRaw = Inr cs" and "configClientStates J incomingRaw = Inr inc"
    and "sameDefaults J cachedRaw incomingRaw"
    and "\<And>t e u. userOf inc t e = Some u \<Longrightarrow> acceptable accepts t (withShadowsocksInboundMethod u methods t)"
    and "\<And>t e. userOf cs t e \<noteq> None \<Longrightarrow> toLower e = e"
    and "\<And>t e. map_of inc t \<noteq> None \<Longrightarrow> table x (t, e) = runningUser methods t (userOf cs t e)"
    and "sameUpToOrder d (statesDiff cs inc)"
  shows "configUserDiff J cachedRaw incomingRaw = Inr (statesDiff cs inc) \<and>
    (\<exists>x'. applyConfigUserDiff (withMethods methods d) (AddInboundUser A) (RemoveInboundUser A) x = (None, x')
      \<and> (\<forall>t e. map_of inc t \<noteq> None \<longrightarrow> table x' (t, e) = runningUser methods t (userOf inc t e)))"
proof -
  let ?d = "withMethods methods d"
  note ok = doc_statesOk [OF assms(3)] doc_statesOk [OF assms(4)]
  note sets = sameUpToOrder_sets [OF assms(9)]
  note mem = in_diff [OF ok, folded sets(1-3)]
  have tag: "map_of inc t \<noteq> None" if "userOf inc t e = Some u" for t e u
    using that by (auto simp: userOf_def split: option.splits)
  have free: "\<forall>a\<in>set (dAdd ?d). table x (akey a) = None"
    using mem(1) assms(8) tag by (auto simp: withMethods_def akey_def runningUser_def)
  have "diffOk accepts ?d" by (rule diff_of_documents_ok [OF assms(1,3,4,6,7,9)])
  then obtain x' where x': "applyConfigUserDiff ?d (AddInboundUser A) (RemoveInboundUser A) x = (None, x')"
    "\<And>r. r \<in> set (dRemove ?d) \<Longrightarrow> table x' (rkey r) = None"
    "\<And>u. u \<in> set (dUpdate ?d) \<Longrightarrow> table x' (ukey u) = built (cuCurrent u)"
    "\<And>a. a \<in> set (dAdd ?d) \<Longrightarrow> table x' (akey a) = built (caUser a)"
    "\<And>k. k \<notin> rkey ` set (dRemove ?d) \<union> ukey ` set (dUpdate ?d) \<union> akey ` set (dAdd ?d) \<Longrightarrow> table x' k = table x k"
    using applyDiff_ok [OF assms(2) _ free] by blast
  have keys: "akey ` set (dAdd ?d) = akey ` set (dAdd d)" "ukey ` set (dUpdate ?d) = ukey ` set (dUpdate d)" "dRemove ?d = dRemove d"
    using withMethods_keys [of methods d] by (metis set_map)+
  have "table x' (t, e) = runningUser methods t (userOf inc t e)" if t: "map_of inc t \<noteq> None" for t e
  proof (cases "userOf inc t e")
    case None
    show ?thesis
    proof (cases "userOf cs t e")
      case None': None
      then have "(t, e) \<notin> rkey ` set (dRemove d) \<union> ukey ` set (dUpdate d) \<union> akey ` set (dAdd d)"
        using mem None by (auto simp: rkey_def ukey_def akey_def)
      then show ?thesis using x'(5) keys assms(8) [OF t, of e] None None' by simp
    next
      case (Some u)
      then have "\<lparr>crTag = t, crEmail = e\<rparr> \<in> set (dRemove ?d)" using mem(2) None t keys(3) by simp
      from x'(2) [OF this] show ?thesis using None by (simp add: rkey_def runningUser_def)
    qed
  next
    case (Some v)
    have ev: "Email v = e" using doc_user [OF assms(1,4) Some] by metis
    let ?v = "withShadowsocksInboundMethod v methods t"
    show ?thesis
    proof (cases "rawOf cs t e = rawOf inc t e")
      case True
      then have u: "userOf cs t e = Some v" by (rule unchanged_user [OF assms(1,3,4,5) Some])
      have "(t, e) \<notin> rkey ` set (dRemove d) \<union> ukey ` set (dUpdate d) \<union> akey ` set (dAdd d)"
        using mem Some u True by (auto simp: rkey_def ukey_def akey_def)
      then show ?thesis using x'(5) keys assms(8) [OF t, of e] Some u by simp
    next
      case False
      show ?thesis
      proof (cases "userOf cs t e")
        case None
        then have "\<lparr>caTag = t, caUser = v\<rparr> \<in> set (dAdd d)" using mem(1) Some False ev by simp
        then have "\<lparr>caTag = t, caUser = ?v\<rparr> \<in> set (dAdd ?d)" by (force simp: withMethods_def)
        from x'(4) [OF this] show ?thesis using Some ev by (simp add: akey_def runningUser_def)
      next
        case (Some u)
        then have "\<lparr>cuTag = t, cuPrevious = u, cuCurrent = v\<rparr> \<in> set (dUpdate d)" using mem(3) \<open>userOf inc t e = Some v\<close> False ev by simp
        then have "\<lparr>cuTag = t, cuPrevious = u, cuCurrent = ?v\<rparr> \<in> set (dUpdate ?d)" by (force simp: withMethods_def)
        from x'(3) [OF this] show ?thesis using \<open>userOf inc t e = Some v\<close> ev by (simp add: ukey_def runningUser_def)
      qed
    qed
  qed
  then show ?thesis using x'(1) assms(3,4) by (auto simp: configUserDiff_def)
qed

text \<open>
  A failed update leaves the user as it was: when Xray runs the previous user and replacing it
  ends with an error, because the new user cannot be built or is not accepted, the users Xray runs
  are the ones it ran before.
\<close>

theorem failed_update_restores:
  assumes "xrayLaws A table accepts" and "plainKey (cuTag u, Email (cuPrevious u))" and "Email (cuCurrent u) = Email (cuPrevious u)"
    and "buildProtocolUser (cuPrevious u) = Inr p" and "accepts (cuTag u) p" and "table x (cuTag u, Email (cuPrevious u)) = Some p"
    and "applyUpdate (AddInboundUser A) (RemoveInboundUser A) u x = (Some err, x')"
  shows "table x' = table x"
proof -
  let ?k = "(cuTag u, Email (cuPrevious u))"
  obtain rerr x1 where r: "RemoveInboundUser A (cuTag u) (Email (cuPrevious u)) x = (rerr, x1)" "isIgnorableXrayRemoveError rerr"
    "table x1 = (table x)(?k := None)"
    using remove_call [OF assms(1,2)] by blast
  obtain aerr x2 where a: "AddInboundUser A (cuTag u) (cuCurrent u) x1 = (aerr, x2)" by fastforce
  have failed: "aerr \<noteq> None \<and> \<not> isIgnorableXrayAddError aerr" using assms(7) r a by (auto simp: applyUpdate_def split: option.splits if_splits)
  have x2: "table x2 = table x1"
  proof (cases "buildProtocolUser (cuCurrent u)")
    case (Inl e)
    then show ?thesis using a assms(2) by (auto simp: AddInboundUser_def plainKey_def Let_def)
  next
    case (Inr q)
    show ?thesis using add_call [OF assms(1) _ Inr, of "cuTag u" x1] assms(2,3) a failed by (auto split: if_splits)
  qed
  have "table x2 ?k = None" using x2 r(3) by simp
  then obtain x3 where p: "AddInboundUser A (cuTag u) (cuPrevious u) x2 = (None, x3)" "table x3 = (table x2)(?k \<mapsto> p)"
    using add_call [OF assms(1,2,4), of x2] assms(5) by auto
  have "x' = x3" using assms(7) r a failed p(1) by (auto simp: applyUpdate_def split: option.splits if_splits)
  then show ?thesis using p(2) x2 r(3) assms(6) by (auto simp: fun_upd_idem)
qed

text \<open>The operations of a batch one after the other.\<close>

fun runOps :: "('f, 'x) userEnv \<Rightarrow> batchOperation list \<Rightarrow> ('f, 'x) userState \<Rightarrow> (batchResult \<times> goError option) list \<times> ('f, 'x) userState" where
  "runOps E [] s = ([], s)"
| "runOps E (op # ops) s = (case applyUserBatchOperation E op s of (r, s1) \<Rightarrow> (case runOps E ops s1 of (rs, s2) \<Rightarrow> (r # rs, s2)))"

definition unreachable :: "batchResult \<times> goError option \<Rightarrow> bool" where
  "unreachable r = (case snd r of None \<Rightarrow> False | Some e \<Rightarrow> errUnavailable e)"

lemma batchLoop_done:
  "batchLoop E ctxErr i ops s = (Inr results, s') \<Longrightarrow> \<exists>n rs. n \<le> length ops \<and> runOps E (take n ops) s = (rs, s')
    \<and> results = map fst rs @ replicate (length ops - n) (failedUserBatchResult ''not attempted: Xray API is unavailable'')
    \<and> (n < length ops \<longrightarrow> rs \<noteq> [] \<and> unreachable (last rs)) \<and> list_all (\<lambda>r. \<not> unreachable r) (butlast rs)"
proof (induction ops arbitrary: i s results)
  case (Cons op ops)
  obtain r e s1 where op: "applyUserBatchOperation E op s = ((r, e), s1)" by (metis prod.exhaust)
  show ?case
  proof (cases "unreachable (r, e)")
    case True
    then have "results = r # map (\<lambda>_. failedUserBatchResult ''not attempted: Xray API is unavailable'') ops \<and> s' = s1"
      using Cons.prems op by (auto simp: unreachable_def split: option.splits)
    then show ?thesis using op True by (intro exI [of _ 1] exI [of _ "[(r, e)]"]) (auto simp: map_replicate_const)
  next
    case False
    then obtain results' where rest: "batchLoop E ctxErr (Suc i) ops s1 = (Inr results', s')" "results = r # results'"
      using Cons.prems op by (auto simp: unreachable_def split: option.splits prod.splits sum.splits)
    obtain n rs where n: "n \<le> length ops" "runOps E (take n ops) s1 = (rs, s')"
      "results' = map fst rs @ replicate (length ops - n) (failedUserBatchResult ''not attempted: Xray API is unavailable'')"
      "n < length ops \<longrightarrow> rs \<noteq> [] \<and> unreachable (last rs)" "list_all (\<lambda>r. \<not> unreachable r) (butlast rs)"
      using Cons.IH [OF rest(1)] by blast
    then show ?thesis using op rest(2) False by (intro exI [of _ "Suc n"] exI [of _ "(r, e) # rs"]) auto
  qed
qed simp

text \<open>
  A user batch answers every operation: a batch that ends has one result per operation in
  order. The first \<open>n\<close> are the results of the operations run one after the other, the others say
  that they were not attempted; only the last operation that was run can have found Xray
  unreachable, and it did if any were left out. The running Xray is changed by the first \<open>n\<close> only.
\<close>

theorem batch_answers_every_operation:
  assumes "ApplyUserBatch E ctxErr ops s = (BatchDone results, s')"
  shows "\<exists>n rs s1. n \<le> length ops \<and> length results = length ops
    \<and> runOps E (take n ops) (s\<lparr>usCache := beginConfigCacheBatch (ueCodec E) (usCache s)\<rparr>) = (rs, s1) \<and> usXray s' = usXray s1
    \<and> results = map fst rs @ replicate (length ops - n) (failedUserBatchResult ''not attempted: Xray API is unavailable'')
    \<and> (if n < length ops then rs \<noteq> [] \<and> unreachable (last rs) else True) \<and> list_all (\<lambda>r. \<not> unreachable r) (butlast rs)"
proof (cases "ops = []")
  case True
  then show ?thesis using assms by (intro exI [of _ 0]) (auto simp: ApplyUserBatch_def)
next
  case False
  let ?s = "s\<lparr>usCache := beginConfigCacheBatch (ueCodec E) (usCache s)\<rparr>"
  obtain s1 where loop: "batchLoop E ctxErr 0 ops ?s = (Inr results, s1)"
    "s' = s1\<lparr>usCache := snd (endConfigCacheBatch (ueCodec E) (ueFsErr E) (usCache s1))\<rparr>"
    using assms False by (auto simp: ApplyUserBatch_def split: if_splits prod.splits sum.splits)
  have len: "runOps E xs t = (rs, t') \<Longrightarrow> length rs = length xs" for xs t rs t'
    by (induction xs arbitrary: t rs t') (auto split: prod.splits)
  obtain n rs where n: "n \<le> length ops" "runOps E (take n ops) ?s = (rs, s1)"
    "results = map fst rs @ replicate (length ops - n) (failedUserBatchResult ''not attempted: Xray API is unavailable'')"
    "n < length ops \<longrightarrow> rs \<noteq> [] \<and> unreachable (last rs)" "list_all (\<lambda>r. \<not> unreachable r) (butlast rs)"
    using batchLoop_done [OF loop(1)] by blast
  have "length results = length ops" using n(1,3) len [OF n(2)] by simp
  then show ?thesis using n loop(2) by (intro exI [of _ n] exI [of _ rs] exI [of _ s1]) simp
qed

text \<open>
  A user batch leaves no open cache batch behind, however it ends, and a batch that is refused,
  for its size or because Xray is not started, changes nothing.
\<close>

theorem batch_closed_or_refused:
  assumes "configCacheBatch (usCache s) = None"
  shows "configCacheBatch (usCache (snd (ApplyUserBatch E ctxErr ops s))) = None
    \<and> (fst (ApplyUserBatch E ctxErr ops s) = BatchRefused code msg \<longrightarrow> snd (ApplyUserBatch E ctxErr ops s) = s)
    \<and> (1000 < length ops \<longrightarrow> fst (ApplyUserBatch E ctxErr ops s) = BatchRefused InvalidArgument (''user batch exceeds '' @ formatUint 1000 @ '' operations''))"
proof -
  have "configCacheBatch (snd (endConfigCacheBatch P f c)) = None" for P f and c :: "'a cacheState"
    by (auto simp: endConfigCacheBatch_def writeConfigCacheFile_def Let_def split: option.splits)
  then show ?thesis
    using assms by (auto simp: ApplyUserBatch_def maxUserBatchOperations_def split: prod.splits sum.splits)
qed

text \<open>An Xray that takes every operation and records it.\<close>

definition recorder :: "(string \<times> inboundOperation) list xrayAPI" where
  "recorder = \<lparr>dialXray = \<lambda>x. None, alterInbound = \<lambda>tag op x. (None, x @ [(tag, op)])\<rparr>"

text \<open>
  An update forgets the method of a Shadowsocks 2022 inbound: for a request without a method,
  where the inbound has a method of the 2022 family, adding the user sends Xray an account of that
  family, and updating the same user sends one of the older family instead.
\<close>

theorem update_user_forgets_method:
  assumes "ueAPI E = recorder" and "usStarted s" and "trimSpace tag = tag" and "tag \<noteq> []"
    and "protoInboundUser req = Inr user" and "Protocol user = ''shadowsocks''" and "UserMethod user = []" and "CipherType user = 0"
    and "trimSpace (Email user) \<noteq> []" and "trimSpace (Email previous) \<noteq> []" and "trimSpace (Password user) \<noteq> []"
    and "cachedConfigUser E tag (Email user) s = Inr (Some previous, True)"
    and "mget [] (shadowsocksInboundMethods E s) tag = ''2022-blake3-aes-256-gcm''"
    and "Option.bind (stdDecode (trimSpace (Password user))) (\<lambda>k. Some (length k)) = Some 32"
  shows "map snd (drop (length (usXray s)) (usXray (snd (AddUser E tag req s)))) =
      [AddUserOperation \<lparr>xuLevel = Level user, xuEmail = trimSpace (Email user), xuAccount = Shadowsocks2022 (trimSpace (Password user))\<rparr>]
    \<and> map snd (drop (length (usXray s)) (usXray (snd (UpdateUser E tag req s)))) =
      [RemoveUserOperation (trimSpace (Email previous)),
       AddUserOperation \<lparr>xuLevel = Level user, xuEmail = trimSpace (Email user), xuAccount = Shadowsocks (trimSpace (Password user)) 7 (IVCheck user)\<rparr>]"
proof -
  have lits: "trimSpace ''shadowsocks'' = ''shadowsocks''" "toLower ''shadowsocks'' = ''shadowsocks''"
    "trimSpace ''2022-blake3-aes-256-gcm'' = ''2022-blake3-aes-256-gcm''" "toLower ''2022-blake3-aes-256-gcm'' = ''2022-blake3-aes-256-gcm''"
    "hasPrefix ''2022-blake3-aes-256-gcm'' ''2022-''" "\<not> contains ''2022-blake3-aes-256-gcm'' ''aes-128''" "\<not> hasPrefix [] ''2022-''"
    "equalFold ''shadowsocks'' ''shadowsocks''" "toLower [] = []" by code_simp+
  have flow: "inheritInboundUserFlow E tag user s = Inr user" using assms(6) by (simp add: inheritInboundUserFlow_def)
  have cache: "usXray (snd (addUserToConfigCache E t u s')) = usXray s'" for t u s'
    by (simp add: addUserToConfigCache_def patchConfigCacheUser_def Let_def split: option.split sum.split)
  have acc: "usXray (snd (acceptAfter m r)) = usXray (snd r)" for m and r :: "string option \<times> ('a, _) userState"
    by (simp add: acceptAfter_def split: prod.split option.split)
  obtain key where key: "stdDecode (trimSpace (Password user)) = Some key" "length key = 32"
    using assms(14) by (auto simp: bind_eq_Some_conv)
  let ?new = "user\<lparr>UserMethod := ''2022-blake3-aes-256-gcm''\<rparr>"
  have m: "withShadowsocksInboundMethod user (shadowsocksInboundMethods E s) tag = ?new"
    using assms(3,6,13) lits by (simp add: withShadowsocksInboundMethod_def)
  have bnew: "buildAccountMessage ?new = Inr (Shadowsocks2022 (trimSpace (Password user)))"
    using assms(6,11) key lits by (simp add: buildAccountMessage_def keyLength_def Let_def)
  have bold: "buildAccountMessage user = Inr (Shadowsocks (trimSpace (Password user)) 7 (IVCheck user))"
    using assms(6,7,8,11) lits by (simp add: buildAccountMessage_def resolveShadowsocksCipher_def Let_def)
  have add: "map snd (drop (length (usXray s)) (usXray (snd (AddUser E tag req s)))) =
      [AddUserOperation \<lparr>xuLevel = Level user, xuEmail = trimSpace (Email user), xuAccount = Shadowsocks2022 (trimSpace (Password user))\<rparr>]"
    using assms(1-5,9) flow m bnew
    by (simp add: AddUser_def grpcAddUser_def AddUserCall_def onXray_def AddInboundUser_def buildProtocolUser_def
        callXray_def recorder_def acc cache Let_def)
  have upd: "map snd (drop (length (usXray s)) (usXray (snd (UpdateUser E tag req s)))) =
      [RemoveUserOperation (trimSpace (Email previous)),
       AddUserOperation \<lparr>xuLevel = Level user, xuEmail = trimSpace (Email user), xuAccount = Shadowsocks (trimSpace (Password user)) 7 (IVCheck user)\<rparr>]"
    using assms(1-5,9,10,12) flow bold
    by (simp add: UpdateUser_def userDiff_def emptyDiff_def applyConfigUserDiffResult_def onXray_def applyConfigUserDiff_def applyUpdate_def
        AddInboundUser_def RemoveInboundUser_def buildProtocolUser_def callXray_def recorder_def acc cache Let_def)
  from add upd show ?thesis by simp
qed

section \<open>Examples\<close>

text \<open>An Xray that keeps its users in a map.\<close>

definition mapXray :: "(string \<times> string \<Rightarrow> protocolUser option) xrayAPI" where
  "mapXray = \<lparr>dialXray = \<lambda>x. None, alterInbound = \<lambda>tag op x. case op of
       AddUserOperation u \<Rightarrow> if xuAccount u = VMess ''bad'' then (Some ''invalid account'', x)
         else if x (tag, xuEmail u) = None then (None, x((tag, xuEmail u) \<mapsto> u)) else (Some ''User already exists.'', x)
     | RemoveUserOperation email \<Rightarrow> if x (tag, email) = None then (Some ''User not found.'', x) else (None, x((tag, email) := None))\<rparr>"

definition mapAccepts :: "string \<Rightarrow> protocolUser \<Rightarrow> bool" where
  "mapAccepts tag u \<longleftrightarrow> xuAccount u \<noteq> VMess ''bad''"

lemma mapXray_laws: "xrayLaws mapXray (\<lambda>x. x) mapAccepts"
proof -
  have "isIgnorableXrayRemoveError (Some (GoError ''remove inbound user: User not found.'' False))"
    "\<not> isIgnorableXrayAddError (Some (GoError ''add inbound user: invalid account'' False))" by code_simp+
  then show ?thesis by (auto simp: xrayLaws_def addLaw_def removeLaw_def mapXray_def mapAccepts_def)
qed

definition incomingRaw :: string where
  "incomingRaw = encodeJSON exampleJ (JObj [(''inbounds'', JArr [JObj [(''protocol'', JStr ''vless''),
     (''settings'', JObj [(''clients'', JArr [JObj [(''email'', JStr ''a''), (''id'', JStr ''1'')]])]), (''tag'', JStr ''in'')]])])"

definition incomingStates :: "(string, configClientState) gomap" where
  "incomingStates = [(''in'', \<lparr>csProtocol = ''vless'', csClients = [(''a'', exampleUser ''a'')],
     csRaw = [(''a'', encodeJSON exampleJ (JObj [(''email'', JStr ''a''), (''id'', JStr ''1'')]))]\<rparr>)]"

lemma incoming_states: "configClientStates exampleJ incomingRaw = Inr incomingStates"
  unfolding incomingRaw_def states_encode [OF exampleJ_laws]
  by (simp add: anySlice_def tagOf_def protocolOf_def asString_def stateOf_def settingsOf_def
      clientUser_def inboundUserFromClient_def uint32ClientValue_def int32ClientValue_def boolClientValue_def
      noClients_def incomingStates_def exampleUser_def noUser_def)

lemma toLower_examples [simp]: "toLower ''a'' = ''a''" "toLower ''b'' = ''b''"
  "equalFold ''vless'' ''shadowsocks'' = False" by code_simp+

lemma built_example: "built (exampleUser e) = (if trimSpace e = [] then None else Some \<lparr>xuLevel = 0, xuEmail = trimSpace e, xuAccount = VLess ''1'' [] None\<rparr>)"
  by (simp add: built_def buildProtocolUser_def buildAccountMessage_def exampleUser_def noUser_def Let_def)

lemma example_accepted: "acceptable mapAccepts ''in'' (exampleUser ''a'')"
  unfolding acceptable_def built_example by (simp add: plainKey_def mapAccepts_def exampleUser_def)

lemma example_defaults: "sameDefaults exampleJ exampleRaw incomingRaw"
proof -
  have "inboundDefaults exampleJ exampleRaw t = (if t = ''in'' then Some (''vless'', []) else None)"
    "inboundDefaults exampleJ incomingRaw t = (if t = ''in'' then Some (''vless'', []) else None)" for t
    unfolding inboundDefaults_def exampleRaw_def incomingRaw_def unmarshal_encode [OF exampleJ_laws]
    by (simp_all add: anySlice_def lastInbound_def counts_def tagOf_def exampleInbound_def protocolOf_def settingsOf_def)
      (auto simp: asString_def)
  then show ?thesis by (simp add: sameDefaults_def)
qed

theorem reconcile_users_witness:
  "\<exists>x'. applyConfigUserDiff (withMethods [] (statesDiff exampleStates incomingStates)) (AddInboundUser mapXray) (RemoveInboundUser mapXray)
     (\<lambda>k. if k = (''in'', ''b'') then built ((exampleUser ''b'')\<lparr>ID := ''2''\<rparr>) else None) = (None, x')
   \<and> x' (''in'', ''b'') = None \<and> x' (''in'', ''a'') = built (exampleUser ''a'')"
proof -
  let ?x = "\<lambda>k. if k = (''in'', ''b'') then built ((exampleUser ''b'')\<lparr>ID := ''2''\<rparr>) else None"
  have wm: "withShadowsocksInboundMethod v [] t = v" for v t by (simp add: withShadowsocksInboundMethod_def)
  have "\<exists>x'. applyConfigUserDiff (withMethods [] (statesDiff exampleStates incomingStates)) (AddInboundUser mapXray) (RemoveInboundUser mapXray) ?x = (None, x')
      \<and> (\<forall>t e. map_of incomingStates t \<noteq> None \<longrightarrow> x' (t, e) = runningUser [] t (userOf incomingStates t e))"
    by (rule conjunct2 [OF reconcile_users [OF exampleJ_laws mapXray_laws example_states incoming_states example_defaults]])
      (auto simp: example_accepted sameUpToOrder_def userOf_def exampleStates_def incomingStates_def runningUser_def wm split: if_splits)
  then show ?thesis by (auto simp: incomingStates_def userOf_def runningUser_def wm)
qed

theorem failed_update_restores_witness:
  "snd (applyUpdate (AddInboundUser mapXray) (RemoveInboundUser mapXray)
     \<lparr>cuTag = ''in'', cuPrevious = exampleUser ''a'', cuCurrent = noUser\<lparr>Protocol := ''vmess'', Email := ''a'', ID := ''bad''\<rparr>\<rparr>
     (\<lambda>k. if k = (''in'', ''a'') then built (exampleUser ''a'') else None)) = (\<lambda>k. if k = (''in'', ''a'') then built (exampleUser ''a'') else None)"
proof -
  let ?p = "\<lparr>xuLevel = 0, xuEmail = ''a'', xuAccount = VLess ''1'' [] None\<rparr>"
  let ?u = "\<lparr>cuTag = ''in'', cuPrevious = exampleUser ''a'', cuCurrent = noUser\<lparr>Protocol := ''vmess'', Email := ''a'', ID := ''bad''\<rparr>\<rparr>"
  let ?x = "\<lambda>k. if k = (''in'', ''a'') then built (exampleUser ''a'') else None"
  have b: "buildProtocolUser (exampleUser ''a'') = Inr ?p"
    by (simp add: buildProtocolUser_def buildAccountMessage_def exampleUser_def noUser_def Let_def)
  have e: "Email (exampleUser ''a'') = ''a''" by (simp add: exampleUser_def)
  have lits: "trimSpace ''vmess'' = ''vmess''" "toLower ''vmess'' = ''vmess''" "trimSpace ''bad'' = ''bad''"
    "\<not> isIgnorableXrayAddError (Some (GoError ''add inbound user: invalid account'' False))" by code_simp+
  have "\<exists>err x'. applyUpdate (AddInboundUser mapXray) (RemoveInboundUser mapXray) ?u ?x = (Some err, x')"
    using b e lits
    by (simp add: applyUpdate_def RemoveInboundUser_def AddInboundUser_def callXray_def mapXray_def Let_def
        built_example buildProtocolUser_def buildAccountMessage_def noUser_def)
  then obtain err x' where r: "applyUpdate (AddInboundUser mapXray) (RemoveInboundUser mapXray) ?u ?x = (Some err, x')" by blast
  have "x' = ?x"
    by (rule failed_update_restores [OF mapXray_laws _ _ _ _ _ r, of ?p])
      (simp_all add: b e plainKey_def noUser_def mapAccepts_def built_example)
  then show ?thesis using r by simp
qed

text \<open>A server whose cache holds a Shadowsocks 2022 inbound \<open>in\<close> with the user \<open>b\<close>.\<close>

definition exampleKey :: string where
  "exampleKey = replicate 43 CHR ''A'' @ ''=''"

definition ssJ :: jsonCodec where
  "ssJ = exampleJ\<lparr>decodeInbounds := \<lambda>raw. Some [\<lparr>tiTag = ''in'', tiProtocol = ''shadowsocks'',
     tiSettings = [(''method'', JStr ''2022-blake3-aes-256-gcm'')]\<rparr>]\<rparr>"

definition ssRaw :: string where
  "ssRaw = encodeJSON ssJ (JObj [(''inbounds'', JArr [JObj [(''protocol'', JStr ''shadowsocks''),
     (''settings'', JObj [(''clients'', JArr [JObj [(''email'', JStr ''b''), (''id'', JStr ''2'')]])]), (''tag'', JStr ''in'')]])])"

definition ssEnv :: "(cachedConfigPayload, (string \<times> inboundOperation) list) userEnv" where
  "ssEnv = \<lparr>ueCodec = exampleCodec, ueJson = ssJ, ueAPI = recorder, ueFsErr = None\<rparr>"

definition ssState :: "(cachedConfigPayload, (string \<times> inboundOperation) list) userState" where
  "ssState = \<lparr>usCache = exampleCache\<lparr>cacheFile := Some (examplePayload\<lparr>Config := ssRaw\<rparr>)\<rparr>, usXray = [], usStarted = True\<rparr>"

lemma ssJ_laws: "jsonLaws ssJ"
  using exampleJ_laws by (simp add: jsonLaws_def ssJ_def)

lemma ss_load: "loadCache ssEnv ssState = Some (examplePayload\<lparr>Config := ssRaw\<rparr>)"
proof -
  have "trimSpace ssRaw \<noteq> []" using ssJ_laws by (simp add: jsonLaws_def ssRaw_def)
  then show ?thesis
    using example_not_blank by (simp add: loadCache_def ssEnv_def ssState_def loadConfigCache_def exampleCache_def readConfigCacheFile_def
        exampleCodec_def examplePayload_def)
qed

lemma ss_literals [simp]: "trimSpace ''shadowsocks'' = ''shadowsocks''" "toLower ''shadowsocks'' = ''shadowsocks''" "equalFold ''shadowsocks'' ''shadowsocks''"
  "trimSpace ''2022-blake3-aes-256-gcm'' = ''2022-blake3-aes-256-gcm''"
  by code_simp+

lemma ss_cached: "cachedConfigUser ssEnv ''in'' ''b'' ssState = Inr (Some ((exampleUser ''b'')\<lparr>Protocol := ''shadowsocks'', ID := ''2''\<rparr>), True)"
proof -
  have "ueJson ssEnv = ssJ" by (simp add: ssEnv_def)
  moreover have "\<exists>st. configClientStates ssJ ssRaw = Inr st \<and> userOf st ''in'' ''b'' = Some ((exampleUser ''b'')\<lparr>Protocol := ''shadowsocks'', ID := ''2''\<rparr>)"
    unfolding ssRaw_def states_encode [OF ssJ_laws]
    by (simp add: anySlice_def tagOf_def protocolOf_def asString_def stateOf_def settingsOf_def userOf_def
        clientUser_def inboundUserFromClient_def uint32ClientValue_def int32ClientValue_def boolClientValue_def
        noClients_def exampleUser_def noUser_def)
  ultimately show ?thesis by (auto simp: cachedConfigUser_def ss_load)
qed

lemma ss_methods: "mget [] (shadowsocksInboundMethods ssEnv ssState) ''in'' = ''2022-blake3-aes-256-gcm''"
  unfolding shadowsocksInboundMethods_def ss_load option.case
  by (simp add: shadowsocksMethodsFromConfig_def ssEnv_def ssJ_def mget_def asString_def)

lemma example_key: "trimSpace exampleKey = exampleKey" "exampleKey \<noteq> []" "map_option length (stdDecode exampleKey) = Some 32"
proof -
  have "trimLeftSpace (CHR ''A'' # t) = CHR ''A'' # t" for t
    by (simp add: trimLeftSpace_def stripRunes.simps space_runes_def hasPrefix_def)
  moreover have key: "exampleKey = CHR ''A'' # replicate 42 CHR ''A'' @ [CHR ''='']"
    by (simp add: exampleKey_def flip: replicate_Suc)
  moreover have "trimRightSpace (t @ [CHR ''='']) = t @ [CHR ''='']" for t
    by (simp add: trimRightSpace_def stripRunes.simps space_runes_def hasPrefix_def)
  ultimately show "trimSpace exampleKey = exampleKey" unfolding trimSpace_def by (metis append_Cons)
  show "exampleKey \<noteq> []" by (simp add: exampleKey_def)
  have digits: "stdDigits (replicate n CHR ''A'') = Some (replicate n 0)" for n
    by (induction n) (simp_all add: stdVal_def)
  have body: "trimRightChars {CHR ''=''} exampleKey = replicate 43 CHR ''A''"
    by (simp add: trimRightChars_def exampleKey_def)
  have "filter (\<lambda>c. c \<noteq> CHR 0x0A \<and> c \<noteq> CHR 0x0D) exampleKey = exampleKey" by (simp add: exampleKey_def)
  then have "stdDecode exampleKey = b64Quanta (replicate 43 0)"
    unfolding stdDecode_def Let_def by (simp add: body digits) (simp add: exampleKey_def)
  moreover have "map_option length (b64Quanta (replicate (4 * k + 3) 0)) = Some (3 * k + 2)" for k
  proof (induction k)
    case 0
    show ?case by (simp add: numeral_3_eq_3)
  next
    case (Suc k)
    have "replicate (4 * Suc k + 3) (0 :: nat) = 0 # 0 # 0 # 0 # replicate (4 * k + 3) 0" by (simp add: eval_nat_numeral)
    then show ?case using Suc by (auto simp: option.map_comp comp_def)
  qed
  from this [of 10] have "map_option length (b64Quanta (replicate 43 0)) = Some 32" by simp
  ultimately show "map_option length (stdDecode exampleKey) = Some 32" by simp
qed

definition ssRequest :: "protoUser option" where
  "ssRequest = Some \<lparr>puEmail = ''b'', puProtocol = ''shadowsocks'', puFields = [(''password'', exampleKey)]\<rparr>"

definition ssUser :: InboundUser where
  "ssUser = noUser\<lparr>Protocol := ''shadowsocks'', Email := ''b'', Password := exampleKey, Auth := exampleKey\<rparr>"

lemma ss_request: "protoInboundUser ssRequest = Inr ssUser"
  using example_key(1,2)
  by (simp add: protoInboundUser_def ssRequest_def ssUser_def noUser_def field_def parseUint32Field_def parseInt32Field_def
      parseBoolField_def mget_def Let_def)

theorem update_user_forgets_method_witness:
  "map snd (usXray (snd (UpdateUser ssEnv ''in'' ssRequest ssState))) =
     [RemoveUserOperation ''b'', AddUserOperation \<lparr>xuLevel = 0, xuEmail = ''b'', xuAccount = Shadowsocks exampleKey 7 False\<rparr>]"
  using update_user_forgets_method [of ssEnv ssState "''in''" ssRequest ssUser "(exampleUser ''b'')\<lparr>Protocol := ''shadowsocks'', ID := ''2''\<rparr>"]
    ss_request ss_cached ss_methods example_key
  by (simp add: ssUser_def noUser_def exampleUser_def ssEnv_def ssState_def map_option_case split: option.splits)

theorem batch_answers_every_operation_witness:
  "\<exists>results. fst (ApplyUserBatch ssEnv (\<lambda>_. None) [\<lparr>boInboundTag = ''in'', boAction = BatchRemove, boUser = None, boEmail = ''b''\<rparr>] ssState)
     = BatchDone results \<and> length results = 1"
proof -
  let ?ops = "[\<lparr>boInboundTag = ''in'', boAction = BatchRemove, boUser = None, boEmail = ''b''\<rparr>]"
  have "\<exists>results s'. ApplyUserBatch ssEnv (\<lambda>_. None) ?ops ssState = (BatchDone results, s')"
    by (auto simp: ApplyUserBatch_def maxUserBatchOperations_def ssState_def split: prod.split sum.split option.splits if_splits)
  then obtain results s' where r: "ApplyUserBatch ssEnv (\<lambda>_. None) ?ops ssState = (BatchDone results, s')" by blast
  then show ?thesis using batch_answers_every_operation [OF r] by auto
qed

theorem batch_closed_or_refused_witness:
  "configCacheBatch (usCache (snd (ApplyUserBatch ssEnv (\<lambda>_. None) [] ssState))) = None"
  using batch_closed_or_refused [of ssState ssEnv "\<lambda>_. None" "[]"] by (simp add: ssState_def exampleCache_def)

end
