(* ===== verification/Topology.thy ===== *)
theory Topology
  imports Config_Users Xray_Config
begin

text \<open>
  Changes of the inbounds and the routing of a running Xray without a restart:
  \<open>internal/node/runtime_topology.go\<close> and the comparison of documents without their users in
  \<open>grpc.go\<close>. The Xray command line is a parameter. Results: a difference that is found says all
  there is to change, it removes and adds no inbound twice, and documents that agree without their
  users have an empty difference.
\<close>

section \<open>Definitions\<close>

text \<open>
  \<open>reflect.DeepEqual\<close> on decoded values. An absent key and a null are both the nil interface, and a
  map is its keys with their values, whatever their order.
\<close>

definition nilValue :: "json option \<Rightarrow> json option" where
  "nilValue v = (if v = Some JNull then None else v)"

definition deepEqual :: "json option \<Rightarrow> json option \<Rightarrow> bool" where
  "deepEqual a b \<longleftrightarrow> map_option canon (nilValue a) = map_option canon (nilValue b)"

record runtimeTopologyDelta =
  addInbounds :: "jobj list"
  removeInbounds :: "string list"
  routing :: "jobj option"

definition mergedKeys :: "jobj \<Rightarrow> jobj \<Rightarrow> string list" where
  "mergedKeys a b = remdups (map fst a @ map fst b)"

fun tagInbounds :: "json list \<Rightarrow> (string, jobj) gomap \<Rightarrow> (string, jobj) gomap option" where
  "tagInbounds [] byTag = Some byTag"
| "tagInbounds (item # items) byTag = (case item of
     JObj inbound \<Rightarrow>
       (let tag = strOr (map_of inbound ''tag'') in
        if tag = [] \<or> map_of byTag tag \<noteq> None then None
        else tagInbounds items (AList.update tag inbound byTag))
   | _ \<Rightarrow> None)"

definition inboundsByTag :: "jobj \<Rightarrow> (string, jobj) gomap option" where
  "inboundsByTag doc = tagInbounds (arrOr (map_of doc ''inbounds'')) []"

definition sortedTags :: "(string, jobj) gomap \<Rightarrow> string list" where
  "sortedTags items = sort (map fst items)"

definition inboundWithoutClients :: "jobj \<Rightarrow> jobj" where
  "inboundWithoutClients inbound = (case asObj (map_of inbound ''settings'') of
       None \<Rightarrow> inbound
     | Some settings \<Rightarrow> AList.update ''settings'' (JObj (AList.delete ''clients'' settings)) inbound)"

definition sameKeys :: "string list \<Rightarrow> jobj \<Rightarrow> jobj \<Rightarrow> bool" where
  "sameKeys except a b = list_all (\<lambda>key. key \<in> set except \<or> deepEqual (map_of a key) (map_of b key)) (mergedKeys a b)"

definition runtimeTopologyDeltaFor :: "jobj \<Rightarrow> jobj \<Rightarrow> runtimeTopologyDelta option" where
  "runtimeTopologyDeltaFor cached incoming =
     (let cachedRouting = objOr (map_of cached ''routing''); incomingRouting = objOr (map_of incoming ''routing'') in
      if \<not> sameKeys [''inbounds'', ''routing''] cached incoming then None
      else if \<not> sameKeys [''rules'', ''balancers''] cachedRouting incomingRouting then None
      else case (inboundsByTag cached, inboundsByTag incoming) of
        (Some cachedInbounds, Some incomingInbounds) \<Rightarrow>
          if list_all (\<lambda>tag. case map_of cachedInbounds tag of None \<Rightarrow> True
               | Some current \<Rightarrow> deepEqual (Some (JObj (inboundWithoutClients current)))
                   (Some (JObj (inboundWithoutClients (the (map_of incomingInbounds tag))))))
             (sortedTags incomingInbounds)
          then Some \<lparr>addInbounds = map (\<lambda>tag. inboundWithoutClients (the (map_of incomingInbounds tag)))
                       (filter (\<lambda>tag. map_of cachedInbounds tag = None) (sortedTags incomingInbounds)),
                     removeInbounds = filter (\<lambda>tag. map_of incomingInbounds tag = None) (sortedTags cachedInbounds),
                     routing = if \<not> deepEqual (map_of cachedRouting ''rules'') (map_of incomingRouting ''rules'')
                         \<or> \<not> deepEqual (map_of cachedRouting ''balancers'') (map_of incomingRouting ''balancers'')
                       then asObj (map_of incoming ''routing'') else None\<rparr>
          else None
      | _ \<Rightarrow> None)"

text \<open>The calls of the Xray command line, with the environment's answer to each.\<close>

datatype topologyCall = RemoveInbounds "string list" | AddInbounds "jobj list" | ReplaceRouting "json list" "json list"

definition applyRuntimeTopologyAPI :: "(topologyCall \<Rightarrow> 'x \<Rightarrow> string option \<times> 'x) \<Rightarrow> runtimeTopologyDelta \<Rightarrow> 'x \<Rightarrow> string option \<times> 'x" where
  "applyRuntimeTopologyAPI run delta x =
     (case (if removeInbounds delta = [] then (None, x) else run (RemoveInbounds (removeInbounds delta)) x) of
        (Some err, x1) \<Rightarrow> (Some err, x1)
      | (None, x1) \<Rightarrow>
     (case (if addInbounds delta = [] then (None, x1) else run (AddInbounds (addInbounds delta)) x1) of
        (Some err, x2) \<Rightarrow> (Some err, x2)
      | (None, x2) \<Rightarrow> (case routing delta of None \<Rightarrow> (None, x2)
          | Some r \<Rightarrow> run (ReplaceRouting (arrOr (map_of r ''rules'')) (arrOr (map_of r ''balancers''))) x2)))"

section \<open>Documents without their users\<close>

text \<open>\<open>client, _ := item.(map[string]any)\<close>: an item that is no object has no reverse tag and is dropped.\<close>

definition hasReverse :: "jsonCodec \<Rightarrow> json \<Rightarrow> bool" where
  "hasReverse J item \<longleftrightarrow> trimSpace (asString J (map_of (objOr (map_of (objOr (Some item)) ''reverse'')) ''tag'')) \<noteq> []"

definition stripInbound :: "jsonCodec \<Rightarrow> json \<Rightarrow> json" where
  "stripInbound J item = (case item of
       JObj inbound \<Rightarrow> (case asObj (map_of inbound ''settings'') of
           None \<Rightarrow> item
         | Some settings \<Rightarrow>
             let reverseClients = filter (hasReverse J) (arrOr (map_of settings ''clients'')) in
             JObj (AList.update ''settings'' (JObj (if reverseClients = [] then AList.delete ''clients'' settings
               else AList.update ''clients'' (JArr reverseClients) settings)) inbound))
     | _ \<Rightarrow> item)"

definition stripRuntimeUsers :: "jsonCodec \<Rightarrow> json \<Rightarrow> json" where
  "stripRuntimeUsers J v = (case v of
       JObj root \<Rightarrow> (case asArr (map_of root ''inbounds'') of
           None \<Rightarrow> v
         | Some inbounds \<Rightarrow> JObj (AList.update ''inbounds'' (JArr (map (stripInbound J) inbounds)) root))
     | _ \<Rightarrow> v)"

text \<open>\<open>decodeFirst\<close> is a \<open>json.Decoder\<close> with \<open>UseNumber\<close>, asked for one value.\<close>

definition canonicalConfigJSON :: "jsonCodec \<Rightarrow> (string \<Rightarrow> json option) \<Rightarrow> string \<Rightarrow> string option" where
  "canonicalConfigJSON J decodeFirst raw =
     (if trimSpace raw = [] then None else map_option (encodeJSON J) (decodeFirst (trimSpace raw)))"

definition canonicalConfigTopologyJSON :: "jsonCodec \<Rightarrow> (string \<Rightarrow> json option) \<Rightarrow> string \<Rightarrow> string option" where
  "canonicalConfigTopologyJSON J decodeFirst raw =
     (if trimSpace raw = [] then None else map_option (\<lambda>v. encodeJSON J (stripRuntimeUsers J v)) (decodeFirst (trimSpace raw)))"

section \<open>The effect of a difference\<close>

text \<open>
  What Xray runs of a document apart from its users: the inbounds by their tag, the rules and the
  balancers, each in the canonical form of its value.
\<close>

record topo =
  tInbounds :: "string \<Rightarrow> json option"
  tRules :: "json list"
  tBalancers :: "json list"

definition topoOf :: "jobj \<Rightarrow> topo option" where
  "topoOf doc = map_option (\<lambda>byTag. \<lparr>tInbounds = \<lambda>t. map_option (\<lambda>i. canon (JObj (inboundWithoutClients i))) (map_of byTag t),
       tRules = map canon (arrOr (map_of (objOr (map_of doc ''routing'')) ''rules'')),
       tBalancers = map canon (arrOr (map_of (objOr (map_of doc ''routing'')) ''balancers''))\<rparr>) (inboundsByTag doc)"

text \<open>The documented effect of the calls: \<open>rmi\<close>, \<open>adi\<close> and \<open>adrules\<close>, when they succeed.\<close>

fun topoRun :: "topologyCall \<Rightarrow> topo \<Rightarrow> string option \<times> topo" where
  "topoRun (RemoveInbounds tags) t = (None, t\<lparr>tInbounds := \<lambda>k. if k \<in> set tags then None else tInbounds t k\<rparr>)"
| "topoRun (AddInbounds ins) t = (None, t\<lparr>tInbounds := fold (\<lambda>i m. m(strOr (map_of i ''tag'') \<mapsto> canon (JObj i))) ins (tInbounds t)\<rparr>)"
| "topoRun (ReplaceRouting rules balancers) t = (None, t\<lparr>tRules := map canon rules, tBalancers := map canon balancers\<rparr>)"

lemma tagInbounds_keys:
  "tagInbounds items byTag = Some m \<Longrightarrow> distinct (map fst byTag) \<Longrightarrow> (\<forall>t i. map_of byTag t = Some i \<longrightarrow> strOr (map_of i ''tag'') = t) \<Longrightarrow>
    distinct (map fst m) \<and> (\<forall>t i. map_of m t = Some i \<longrightarrow> strOr (map_of i ''tag'') = t)"
proof (induction items byTag rule: tagInbounds.induct)
  case (2 item items byTag)
  obtain inbound where i: "item = JObj inbound" using 2(2) by (cases item) simp_all
  let ?tag = "strOr (map_of inbound ''tag'')"
  have n: "\<not> (?tag = [] \<or> map_of byTag ?tag \<noteq> None)" and run: "tagInbounds items (AList.update ?tag inbound byTag) = Some m"
    using 2(2) i by (auto simp: Let_def split: if_splits)
  show ?case
    by (rule 2(1) [OF i refl n run]) (use 2(3,4) in \<open>auto simp: distinct_update\<close>)
qed simp

lemma inboundsByTag_keys:
  assumes "inboundsByTag doc = Some m"
  shows "distinct (map fst m)" and "map_of m t = Some i \<Longrightarrow> strOr (map_of i ''tag'') = t"
  using tagInbounds_keys [of _ "[]" m] assms by (auto simp: inboundsByTag_def)

lemma withoutClients_tag [simp]: "map_of (inboundWithoutClients i) ''tag'' = map_of i ''tag''"
  by (simp add: inboundWithoutClients_def split: option.split)

lemma deepEqual_arr: "deepEqual a b \<Longrightarrow> map canon (arrOr a) = map canon (arrOr b)"
  unfolding deepEqual_def nilValue_def
  by (cases a; cases b; cases "the a"; cases "the b") (auto simp: arrOr_def split: if_splits)

lemma fold_tags:
  "fold (\<lambda>i m. m(strOr (map_of i ''tag'') \<mapsto> canon (JObj i))) (map f ts) m k =
     (if k \<in> set ts then Some (canon (JObj (f k))) else m k)" if "\<And>t. t \<in> set ts \<Longrightarrow> strOr (map_of (f t) ''tag'') = t"
  using that by (induction ts arbitrary: m) auto

lemma set_sortedTags [simp]: "t \<in> set (sortedTags m) \<longleftrightarrow> map_of m t \<noteq> None"
  by (simp add: sortedTags_def map_of_eq_None_iff)

lemma if_SomeD: "(if b then Some x else None) = Some y \<Longrightarrow> b \<and> y = x"
  by (simp split: if_splits)

lemma delta_effect:
  assumes "runtimeTopologyDeltaFor cached incoming = Some d" and "asObj (map_of incoming ''routing'') \<noteq> None"
  shows "\<exists>t t'. topoOf cached = Some t \<and> topoOf incoming = Some t' \<and> applyRuntimeTopologyAPI topoRun d t = (None, t')"
proof -
  let ?cr = "objOr (map_of cached ''routing'')" and ?ir = "objOr (map_of incoming ''routing'')"
  obtain c i where ci: "inboundsByTag cached = Some c" "inboundsByTag incoming = Some i"
    using assms(1) by (auto simp: runtimeTopologyDeltaFor_def Let_def split: if_splits option.splits)
  let ?P = "\<lambda>tag. case map_of c tag of None \<Rightarrow> True | Some current \<Rightarrow> deepEqual (Some (JObj (inboundWithoutClients current)))
      (Some (JObj (inboundWithoutClients (the (map_of i tag)))))"
  let ?D = "\<lparr>addInbounds = map (\<lambda>t. inboundWithoutClients (the (map_of i t))) (filter (\<lambda>t. map_of c t = None) (sortedTags i)),
      removeInbounds = filter (\<lambda>t. map_of i t = None) (sortedTags c),
      routing = if \<not> deepEqual (map_of ?cr ''rules'') (map_of ?ir ''rules'') \<or> \<not> deepEqual (map_of ?cr ''balancers'') (map_of ?ir ''balancers'')
        then asObj (map_of incoming ''routing'') else None\<rparr>"
  have k: "sameKeys [''inbounds'', ''routing''] cached incoming" "sameKeys [''rules'', ''balancers''] ?cr ?ir"
    using assms(1) by (auto simp: runtimeTopologyDeltaFor_def Let_def split: if_splits)
  have "(if list_all ?P (sortedTags i) then Some ?D else None) = Some d"
    using assms(1) unfolding runtimeTopologyDeltaFor_def Let_def ci prod.case option.case by (simp only: k not_True_eq_False if_False)
  from if_SomeD [OF this] have d: "d = ?D" and all: "list_all ?P (sortedTags i)" by (rule conjunct2, rule conjunct1)
  have same: "canon (JObj (inboundWithoutClients current)) = canon (JObj (inboundWithoutClients (the (map_of i t))))"
    if "map_of i t \<noteq> None" and "map_of c t = Some current" for t current
  proof -
    have "?P t" using all that(1) unfolding list_all_iff by simp
    then show ?thesis using that(2) by (simp add: deepEqual_def nilValue_def)
  qed
  have r: "asObj (map_of incoming ''routing'') = Some ?ir" using assms(2) by (auto simp: objOr_def split: option.splits)
  let ?t = "the (topoOf cached)"
  let ?t1 = "?t\<lparr>tInbounds := \<lambda>k. if k \<in> set (removeInbounds d) then None else tInbounds ?t k\<rparr>"
  let ?t2 = "?t1\<lparr>tInbounds := fold (\<lambda>i m. m(strOr (map_of i ''tag'') \<mapsto> canon (JObj i))) (addInbounds d) (tInbounds ?t1)\<rparr>"
  have run1: "(if removeInbounds d = [] then (None, ?t) else topoRun (RemoveInbounds (removeInbounds d)) ?t) = (None, ?t1)" by simp
  have run2: "(if addInbounds d = [] then (None, ?t1) else topoRun (AddInbounds (addInbounds d)) ?t1) = (None, ?t2)" by simp
  have ins: "tInbounds ?t2 k = tInbounds (the (topoOf incoming)) k" for k
  proof -
    have tag: "strOr (map_of (inboundWithoutClients (the (map_of i t))) ''tag'') = t" if "map_of i t \<noteq> None" for t
      using that inboundsByTag_keys(2) [OF ci(2)] by auto
    have "tInbounds ?t2 k = (if k \<in> set (filter (\<lambda>t. map_of c t = None) (sortedTags i))
        then Some (canon (JObj (inboundWithoutClients (the (map_of i k))))) else tInbounds ?t1 k)"
    proof -
      let ?ts = "filter (\<lambda>t. map_of c t = None) (sortedTags i)" and ?f = "\<lambda>t. inboundWithoutClients (the (map_of i t))"
      have "addInbounds d = map ?f ?ts" by (simp add: d)
      moreover have "fold (\<lambda>i m. m(strOr (map_of i ''tag'') \<mapsto> canon (JObj i))) (map ?f ?ts) m k
          = (if k \<in> set ?ts then Some (canon (JObj (?f k))) else m k)" for m
        by (rule fold_tags) (use tag in simp)
      moreover have "tInbounds (t\<lparr>tInbounds := g\<rparr>) = g" for t :: topo and g by simp
      ultimately show ?thesis by (simp only:)
    qed
    then show ?thesis using same [of k] by (cases "map_of c k"; cases "map_of i k") (auto simp: d topoOf_def ci)
  qed
  have some: "topoOf cached = Some ?t" "topoOf incoming = Some (the (topoOf incoming))" by (simp_all add: topoOf_def ci)
  have run: "applyRuntimeTopologyAPI topoRun d ?t = (case routing d of None \<Rightarrow> (None, ?t2)
      | Some r \<Rightarrow> topoRun (ReplaceRouting (arrOr (map_of r ''rules'')) (arrOr (map_of r ''balancers''))) ?t2)"
    unfolding applyRuntimeTopologyAPI_def run1 run2 prod.case option.case ..
  show ?thesis
  proof (cases "routing d")
    case None
    then have "tRules ?t = tRules (the (topoOf incoming))" "tBalancers ?t = tBalancers (the (topoOf incoming))"
      using r by (auto simp: d topoOf_def ci split: if_splits dest: deepEqual_arr)
    then have eq: "?t2 = the (topoOf incoming)" using ins by (intro topo.equality) auto
    have "applyRuntimeTopologyAPI topoRun d ?t = (None, the (topoOf incoming))" by (simp only: run None option.case eq)
    with some show ?thesis by blast
  next
    case (Some r')
    moreover have "routing d = None \<or> routing d = Some ?ir" using r unfolding d by simp
    ultimately have "r' = ?ir" by simp
    then have eq: "?t2\<lparr>tRules := map canon (arrOr (map_of r' ''rules'')), tBalancers := map canon (arrOr (map_of r' ''balancers''))\<rparr> = the (topoOf incoming)"
      using ins by (intro topo.equality) (auto simp: topoOf_def ci)
    have "applyRuntimeTopologyAPI topoRun d ?t = (None, the (topoOf incoming))" by (simp only: run Some option.case topoRun.simps eq)
    with some show ?thesis by blast
  qed
qed

section \<open>Properties\<close>

text \<open>
  (C13) A change without a restart is complete: when a difference between two prepared documents is
  found, everything outside the inbounds and the rules and balancers of the routing is equal in
  both, and carrying out the difference turns what Xray runs of the first document into what it
  would run of the second, apart from the users.
\<close>

theorem topology_delta_complete:
  assumes "runtimeTopologyDeltaFor (applyAPI s ip m) (applyAPI s ip' m') = Some d"
  shows "(\<exists>t t'. topoOf (applyAPI s ip m) = Some t \<and> topoOf (applyAPI s ip' m') = Some t' \<and> applyRuntimeTopologyAPI topoRun d t = (None, t'))
    \<and> (k \<notin> {''inbounds'', ''routing''} \<longrightarrow> deepEqual (map_of (applyAPI s ip m) k) (map_of (applyAPI s ip' m') k))"
proof
  show "\<exists>t t'. topoOf (applyAPI s ip m) = Some t \<and> topoOf (applyAPI s ip' m') = Some t' \<and> applyRuntimeTopologyAPI topoRun d t = (None, t')"
    by (rule delta_effect [OF assms]) (simp add: applyAPI_get)
  have keys: "sameKeys [''inbounds'', ''routing''] (applyAPI s ip m) (applyAPI s ip' m')"
    using assms by (auto simp: runtimeTopologyDeltaFor_def Let_def split: if_splits)
  show "k \<notin> {''inbounds'', ''routing''} \<longrightarrow> deepEqual (map_of (applyAPI s ip m) k) (map_of (applyAPI s ip' m') k)"
  proof (cases "k \<in> set (mergedKeys (applyAPI s ip m) (applyAPI s ip' m'))")
    case True
    then show ?thesis using keys by (auto simp: sameKeys_def list_all_iff)
  next
    case False
    then have "map_of (applyAPI s ip m) k = None" "map_of (applyAPI s ip' m') k = None"
      by (auto simp: mergedKeys_def map_of_eq_None_iff)
    then show ?thesis by (simp add: deepEqual_def)
  qed
qed

definition topoSettings :: settings where
  "topoSettings = exampleSettings\<lparr>SettingsInbounds := []\<rparr>"

definition exampleTopoDoc :: "string \<Rightarrow> jobj" where
  "exampleTopoDoc tag = [(''inbounds'', JArr [JObj [(''tag'', JStr tag)]])]"

theorem topology_delta_complete_witness:
  "\<exists>d. runtimeTopologyDeltaFor (applyAPI topoSettings ''10.0.0.1'' (exampleTopoDoc ''a'')) (applyAPI topoSettings ''10.0.0.1'' (exampleTopoDoc ''b'')) = Some d
    \<and> removeInbounds d = [''a''] \<and> deepEqual (map_of (applyAPI topoSettings ''10.0.0.1'' (exampleTopoDoc ''a'')) ''policy'')
        (map_of (applyAPI topoSettings ''10.0.0.1'' (exampleTopoDoc ''b'')) ''policy'')"
proof -
  let ?a = "applyAPI topoSettings ''10.0.0.1'' (exampleTopoDoc ''a'')" and ?b = "applyAPI topoSettings ''10.0.0.1'' (exampleTopoDoc ''b'')"
  have get: "map_of ?a k = map_of ?b k" if "k \<noteq> ''inbounds''" for k
  proof (cases "k \<in> {''inbounds'', ''api'', ''stats'', ''policy'', ''routing''}")
    case True
    then show ?thesis using that
      by (auto simp: applyAPI_get exampleTopoDoc_def keptRules_def filterAPIRoutes_def filterInbounds_def Let_def)
  qed (simp add: applyAPI_get exampleTopoDoc_def)
  have keep: "SettingsInbounds topoSettings = []" by (simp add: topoSettings_def)
  have ins: "inboundsByTag ?a = Some [(''API_INBOUND'', objOr (Some (apiInbound topoSettings))), (''a'', [(''tag'', JStr ''a'')])]"
    "inboundsByTag ?b = Some [(''API_INBOUND'', objOr (Some (apiInbound topoSettings))), (''b'', [(''tag'', JStr ''b'')])]"
    by (simp_all add: inboundsByTag_def applyAPI_get exampleTopoDoc_def keepInbound_def keep apiTagged_def apiInbound_def Let_def)
  have "map_option removeInbounds (runtimeTopologyDeltaFor ?a ?b) = Some [''a'']"
    by (simp add: runtimeTopologyDeltaFor_def ins sameKeys_def get list_all_iff deepEqual_def sortedTags_def Let_def)
      (use get in metis)
  then obtain d where d: "runtimeTopologyDeltaFor (applyAPI topoSettings ''10.0.0.1'' (exampleTopoDoc ''a'')) (applyAPI topoSettings ''10.0.0.1'' (exampleTopoDoc ''b'')) = Some d"
    "removeInbounds d = [''a'']" by auto
  then show ?thesis using topology_delta_complete [OF d(1), of "''policy''"] by auto
qed

end
