(* ===== verification/Runtime_Control.thy ===== *)
theory Runtime_Control
  imports User_Reconcile Topology
begin

text \<open>
  Starting, changing and stopping the runtime: the runtime handlers of \<open>internal/node/grpc.go\<close>, and
  \<open>startCachedConfig\<close>, \<open>clearConfigCache\<close> and the \<open>apply\<close> functions of \<open>server.go\<close>. The protocol
  managers (OpenVPN, L2TP, PPTP, WireGuard, IKEv2, AnyConnect, HAProxy, SSH, external proxies, other
  VPNs) are parameters that act on a state \<open>'w\<close> of the host, the supervised core is a parameter that
  acts on \<open>'x\<close>. Results: a request that succeeds is in the cache with its revision and the core is
  started, one that fails leaves the cache as it was, a stop leaves nothing to resume, and the
  difference between the cache and the core that a failed request can leave behind.
\<close>

section \<open>Environment and state\<close>

type_synonym ('r, 'w) applyCall = "'r \<Rightarrow> 'w \<Rightarrow> string option \<times> 'w"

record runtimeRequest =
  rqRevision :: nat
  rqConfigJson :: string
  rqRuntimeJson :: string

text \<open>A manager that is an option may be nil. \<open>mSpeedRestore\<close> and \<open>mSpeedSync\<close> only log their errors.\<close>

record 'w managers =
  mOV :: "(vpnRuntime option, 'w) applyCall"
  mL2TP :: "(vpnRuntime option, 'w) applyCall"
  mPPTP :: "(vpnRuntime option, 'w) applyCall"
  mWG :: "(vpnRuntime option, 'w) applyCall"
  mIKEv2 :: "(vpnRuntime option, 'w) applyCall"
  mIKEv2Ready :: "'w \<Rightarrow> string option \<times> 'w"
  mAnyConnect :: "(vpnRuntime option, 'w) applyCall"
  mHAProxy :: "(haproxyRuntime option, 'w) applyCall option"
  mSSH :: "(extraRuntime option, 'w) applyCall option"
  mExternal :: "(extraRuntime option, 'w) applyCall option"
  mExtraVPN :: "(extraRuntime option, 'w) applyCall option"
  mClearBlocks :: "'w \<Rightarrow> string option \<times> 'w"
  mManagedProxies :: "(string, 'w) applyCall"
  mSpeedRestore :: "config \<Rightarrow> 'w \<Rightarrow> 'w"
  mSpeedSync :: "runtimeRequest \<Rightarrow> 'w \<Rightarrow> 'w"
  mTProxy :: "config \<Rightarrow> 'w \<Rightarrow> 'w"
  mSnapshotUsage :: "'w \<Rightarrow> 'w"

text \<open>
  The core: the error, the new state and whether it counts as started. \<open>coreSettle\<close> is the wait of
  three seconds, in which the process may end; \<open>topologyRun\<close> is the Xray command line.
\<close>

record 'x coreCalls =
  coreStart :: "config \<Rightarrow> 'x \<Rightarrow> string option \<times> 'x \<times> bool"
  coreRestart :: "config \<Rightarrow> 'x \<Rightarrow> string option \<times> 'x \<times> bool"
  coreStop :: "'x \<Rightarrow> 'x \<times> bool"
  coreSettle :: "'x \<Rightarrow> 'x \<times> bool"
  coreLogs :: "'x \<Rightarrow> string list"
  topologyRun :: "topologyCall \<Rightarrow> 'x \<Rightarrow> string option \<times> 'x"

text \<open>The struct \<open>grpcVPNRuntime\<close> decodes the runtimes into; a nil list is empty.\<close>

record envelope =
  enGeneratedAt :: string
  enTarget :: string
  enCallback :: "json option"
  enInbounds :: "json list"
  enL2TPInbounds :: "json list"
  enL2TPGenerated :: string
  enPPTPInbounds :: "json list"
  enPPTPGenerated :: string
  enWGInbounds :: "json list"
  enWGGenerated :: string
  enIKEv2Inbounds :: "json list"
  enIKEv2Generated :: string
  enAnyConnectInbounds :: "json list"
  enAnyConnectGenerated :: string
  enHAProxy :: "haproxyRuntime option"
  enExtra :: "extraRuntime option"

text \<open>
  \<open>reDiagnostic\<close>: the outbounds the diagnostics decode from the text. \<open>reRemoveErr\<close>: the error of
  removing the cache file, which is only logged.
\<close>

record ('f, 'x, 'w) runtimeEnv =
  reUsers :: "('f, 'x) userEnv"
  reManagers :: "'w managers"
  reCore :: "'x coreCalls"
  reSettings :: settings
  rePeerIP :: string
  reDecodeFirst :: "string \<Rightarrow> json option"
  reDecodeRuntimes :: "string \<Rightarrow> string + envelope"
  reDiagnostic :: "string \<Rightarrow> jobj list option"
  reRemoveErr :: "string option"

record ('f, 'x, 'w) nodeState =
  nsUsers :: "('f, 'x) userState"
  nsLast :: "config option"
  nsIssues :: "(string, string) gomap"
  nsStopped :: bool
  nsDiagnostic :: "jobj list"
  nsStartupError :: string
  nsWorld :: 'w

datatype runtimeResult = RAccepted string | RFailed grpcCode string | RPanic

abbreviation codec :: "('f, 'x, 'w) runtimeEnv \<Rightarrow> 'f payloadCodec" where
  "codec E \<equiv> ueCodec (reUsers E)"

definition nsCache :: "('f, 'x, 'w) nodeState \<Rightarrow> 'f cacheState" where
  "nsCache s = usCache (nsUsers s)"

definition setCache :: "'f cacheState \<Rightarrow> ('f, 'x, 'w) nodeState \<Rightarrow> ('f, 'x, 'w) nodeState" where
  "setCache c s = s\<lparr>nsUsers := (nsUsers s)\<lparr>usCache := c\<rparr>\<rparr>"

definition coreStarted :: "('f, 'x, 'w) nodeState \<Rightarrow> bool" where
  "coreStarted s = usStarted (nsUsers s)"

definition setCore :: "'x \<times> bool \<Rightarrow> ('f, 'x, 'w) nodeState \<Rightarrow> ('f, 'x, 'w) nodeState" where
  "setCore xb s = s\<lparr>nsUsers := (nsUsers s)\<lparr>usXray := fst xb, usStarted := snd xb\<rparr>\<rparr>"

section \<open>Applying the native runtimes\<close>

definition recordNativeIssue :: "string \<Rightarrow> string \<Rightarrow> ('f, 'x, 'w) nodeState \<Rightarrow> ('f, 'x, 'w) nodeState" where
  "recordNativeIssue protocol message s = s\<lparr>nsIssues := if message = [] then AList.delete protocol (nsIssues s)
     else AList.update protocol message (nsIssues s)\<rparr>"

text \<open>The body the \<open>apply\<close> functions share: the warning, which is recorded under the protocol.\<close>

definition applyNative :: "string \<Rightarrow> string \<Rightarrow> ('w \<Rightarrow> string option \<times> 'w) \<Rightarrow> ('f, 'x, 'w) nodeState \<Rightarrow> string \<times> ('f, 'x, 'w) nodeState" where
  "applyNative protocol prefix call s = (case call (nsWorld s) of (err, w) \<Rightarrow>
     let warning = (case err of None \<Rightarrow> [] | Some e \<Rightarrow> prefix @ e)
     in (warning, recordNativeIssue protocol warning (s\<lparr>nsWorld := w\<rparr>)))"

definition applyL2TPRuntime :: "('f, 'x, 'w) runtimeEnv \<Rightarrow> vpnRuntime option \<Rightarrow> ('f, 'x, 'w) nodeState \<Rightarrow> string \<times> ('f, 'x, 'w) nodeState" where
  "applyL2TPRuntime E r = applyNative ''l2tp'' ''L2TP runtime apply failed: '' (mL2TP (reManagers E) r)"

text \<open>\<open>applyOpenVPNRuntime\<close> returns the error of the manager itself.\<close>

definition applyOpenVPNRuntime :: "('f, 'x, 'w) runtimeEnv \<Rightarrow> vpnRuntime option \<Rightarrow> ('f, 'x, 'w) nodeState \<Rightarrow> string option \<times> ('f, 'x, 'w) nodeState" where
  "applyOpenVPNRuntime E r s = (case mOV (reManagers E) r (nsWorld s) of (err, w) \<Rightarrow>
     (err, recordNativeIssue ''openvpn'' (case err of None \<Rightarrow> [] | Some e \<Rightarrow> ''OpenVPN runtime apply failed: '' @ e) (s\<lparr>nsWorld := w\<rparr>)))"

definition applyPPTPRuntime :: "('f, 'x, 'w) runtimeEnv \<Rightarrow> vpnRuntime option \<Rightarrow> ('f, 'x, 'w) nodeState \<Rightarrow> string \<times> ('f, 'x, 'w) nodeState" where
  "applyPPTPRuntime E r = applyNative ''pptp'' ''PPTP runtime apply failed: '' (mPPTP (reManagers E) r)"

definition applyWGRuntime :: "('f, 'x, 'w) runtimeEnv \<Rightarrow> vpnRuntime option \<Rightarrow> ('f, 'x, 'w) nodeState \<Rightarrow> string \<times> ('f, 'x, 'w) nodeState" where
  "applyWGRuntime E r = applyNative ''wireguard'' ''WireGuard runtime apply failed: '' (mWG (reManagers E) r)"

definition applyIKEv2Runtime :: "('f, 'x, 'w) runtimeEnv \<Rightarrow> vpnRuntime option \<Rightarrow> ('f, 'x, 'w) nodeState \<Rightarrow> string \<times> ('f, 'x, 'w) nodeState" where
  "applyIKEv2Runtime E r = applyNative ''ikev2'' ''IKEv2 runtime apply failed: '' (mIKEv2 (reManagers E) r)"

definition prepareIKEv2Runtime :: "('f, 'x, 'w) runtimeEnv \<Rightarrow> vpnRuntime option \<Rightarrow> ('f, 'x, 'w) nodeState \<Rightarrow> string \<times> ('f, 'x, 'w) nodeState" where
  "prepareIKEv2Runtime E r s =
     (if (case r of None \<Rightarrow> True | Some rt \<Rightarrow> rtInbounds rt = []) then ([], recordNativeIssue ''ikev2-prerequisites'' [] s)
      else applyNative ''ikev2-prerequisites'' ''IKEv2 prerequisite preparation failed: '' (mIKEv2Ready (reManagers E)) s)"

definition applyAnyConnectRuntime :: "('f, 'x, 'w) runtimeEnv \<Rightarrow> vpnRuntime option \<Rightarrow> ('f, 'x, 'w) nodeState \<Rightarrow> string \<times> ('f, 'x, 'w) nodeState" where
  "applyAnyConnectRuntime E r = applyNative ''anyconnect'' ''AnyConnect runtime apply failed: '' (mAnyConnect (reManagers E) r)"

definition applyHAProxyRuntime :: "('f, 'x, 'w) runtimeEnv \<Rightarrow> haproxyRuntime option \<Rightarrow> ('f, 'x, 'w) nodeState \<Rightarrow> string \<times> ('f, 'x, 'w) nodeState" where
  "applyHAProxyRuntime E r s = (case mHAProxy (reManagers E) of
       None \<Rightarrow>
         (let warning = (case r of None \<Rightarrow> [] | Some rt \<Rightarrow> if hpEnabled rt then ''HAProxy runtime apply failed: HAProxy manager is unavailable'' else [])
          in (warning, recordNativeIssue ''haproxy'' warning s))
     | Some call \<Rightarrow> applyNative ''haproxy'' ''HAProxy runtime apply failed: '' (call r) s)"

definition hasProtocol :: "string list \<Rightarrow> extraRuntime option \<Rightarrow> bool" where
  "hasProtocol names r = (case r of None \<Rightarrow> False
     | Some rt \<Rightarrow> list_ex (\<lambda>i. toLower (trimSpace (exProtocol i)) \<in> set names) (exInbounds rt))"

text \<open>One of the three managers of \<open>applyExtraRuntime\<close>.\<close>

definition applyExtra :: "string \<Rightarrow> string \<Rightarrow> (extraRuntime option, 'w) applyCall option \<Rightarrow> string list \<Rightarrow> extraRuntime option \<Rightarrow> 'w \<Rightarrow> string list \<times> 'w" where
  "applyExtra missing prefix manager names r w = (case manager of
       None \<Rightarrow> (if hasProtocol names r then [missing] else [], w)
     | Some call \<Rightarrow> (case call r w of (None, w') \<Rightarrow> ([], w') | (Some err, w') \<Rightarrow> ([prefix @ err], w')))"

definition applyExtraRuntime :: "('f, 'x, 'w) runtimeEnv \<Rightarrow> extraRuntime option \<Rightarrow> ('f, 'x, 'w) nodeState \<Rightarrow> string \<times> ('f, 'x, 'w) nodeState" where
  "applyExtraRuntime E r s =
     (let M = reManagers E in
      case applyExtra ''SSH runtime apply failed: SSH manager is unavailable'' ''SSH runtime apply failed: ''
             (mSSH M) [''ssh''] r (nsWorld s) of (w1, x1) \<Rightarrow>
      case applyExtra ''external proxy runtime apply failed: manager is unavailable'' ''external proxy runtime apply failed: ''
             (mExternal M) [''mtproto'', ''web''] r x1 of (w2, x2) \<Rightarrow>
      case applyExtra ''extra VPN runtime apply failed: manager is unavailable'' ''extra VPN runtime apply failed: ''
             (mExtraVPN M) [''sstp'', ''amneziawg'', ''gre''] r x2 of (w3, x3) \<Rightarrow>
        let result = joinedWarnings (w1 @ w2 @ w3)
        in (result, recordNativeIssue ''extra-protocols'' result (s\<lparr>nsWorld := x3\<rparr>)))"

section \<open>Requests\<close>

definition emptyRuntime :: vpnRuntime where
  "emptyRuntime = \<lparr>rtGeneratedAt = [], rtTarget = [], rtCallback = None, rtInbounds = []\<rparr>"

definition emptyHAProxy :: haproxyRuntime where
  "emptyHAProxy = \<lparr>hpEnabled = False, hpConfigText = [], hpSites = []\<rparr>"

definition emptyExtra :: extraRuntime where
  "emptyExtra = \<lparr>exGeneratedAt = [], exTarget = [], exCallback = None, exInbounds = []\<rparr>"

definition grpcVPNRuntime :: "('f, 'x, 'w) runtimeEnv \<Rightarrow> runtimeRequest \<Rightarrow> string + runtimeSet" where
  "grpcVPNRuntime E req =
     (let raw = trimSpace (rqRuntimeJson req) in
      if raw = [] then Inr \<lparr>rsOV = Some emptyRuntime, rsL2TP = Some emptyRuntime, rsPPTP = Some emptyRuntime, rsWG = Some emptyRuntime,
        rsIKEv2 = Some emptyRuntime, rsAnyConnect = Some emptyRuntime, rsHAProxy = Some emptyHAProxy, rsExtra = Some emptyExtra\<rparr>
      else case reDecodeRuntimes E raw of Inl err \<Rightarrow> Inl (''failed to decode ov_runtime_json: '' @ err)
        | Inr e \<Rightarrow>
            let rt = (\<lambda>generated inbounds. Some \<lparr>rtGeneratedAt = generated, rtTarget = enTarget e, rtCallback = enCallback e, rtInbounds = inbounds\<rparr>)
            in Inr \<lparr>rsOV = rt (enGeneratedAt e) (enInbounds e), rsL2TP = rt (enL2TPGenerated e) (enL2TPInbounds e),
                rsPPTP = Some \<lparr>rtGeneratedAt = enPPTPGenerated e, rtTarget = enTarget e, rtCallback = None, rtInbounds = enPPTPInbounds e\<rparr>,
                rsWG = rt (enWGGenerated e) (enWGInbounds e), rsIKEv2 = rt (enIKEv2Generated e) (enIKEv2Inbounds e),
                rsAnyConnect = rt (enAnyConnectGenerated e) (enAnyConnectInbounds e), rsHAProxy = enHAProxy e, rsExtra = enExtra e\<rparr>)"

definition orElse :: "'a option \<Rightarrow> 'a option \<Rightarrow> 'a option" where
  "orElse a b = (case a of None \<Rightarrow> b | Some _ \<Rightarrow> a)"

text \<open>A runtime that the request leaves out is taken from the cache.\<close>

definition withCached :: "('f, 'x, 'w) runtimeEnv \<Rightarrow> ('f, 'x, 'w) nodeState \<Rightarrow> runtimeSet \<Rightarrow> runtimeSet" where
  "withCached E s rs =
     (let P = codec E; c = nsCache s in
      \<lparr>rsOV = orElse (rsOV rs) (cachedOVRuntime P c), rsL2TP = orElse (rsL2TP rs) (cachedL2TPRuntime P c),
       rsPPTP = orElse (rsPPTP rs) (cachedPPTPRuntime P c), rsWG = orElse (rsWG rs) (cachedWGRuntime P c),
       rsIKEv2 = orElse (rsIKEv2 rs) (cachedIKEv2Runtime P c), rsAnyConnect = orElse (rsAnyConnect rs) (cachedAnyConnectRuntime P c),
       rsHAProxy = orElse (rsHAProxy rs) (cachedHAProxyRuntime P c), rsExtra = orElse (rsExtra rs) (cachedExtraRuntime P c)\<rparr>)"

text \<open>Everything after OpenVPN, in the order of the code, with the warnings.\<close>

definition applyOthers :: "('f, 'x, 'w) runtimeEnv \<Rightarrow> runtimeSet \<Rightarrow> ('f, 'x, 'w) nodeState \<Rightarrow> string list \<times> ('f, 'x, 'w) nodeState" where
  "applyOthers E rs s =
     (case prepareIKEv2Runtime E (rsIKEv2 rs) s of (w1, s1) \<Rightarrow>
      case applyL2TPRuntime E (rsL2TP rs) s1 of (w2, s2) \<Rightarrow>
      case applyPPTPRuntime E (rsPPTP rs) s2 of (w3, s3) \<Rightarrow>
      case applyWGRuntime E (rsWG rs) s3 of (w4, s4) \<Rightarrow>
      case applyIKEv2Runtime E (rsIKEv2 rs) s4 of (w5, s5) \<Rightarrow>
      case applyAnyConnectRuntime E (rsAnyConnect rs) s5 of (w6, s6) \<Rightarrow>
      case applyHAProxyRuntime E (rsHAProxy rs) s6 of (w7, s7) \<Rightarrow>
      case applyExtraRuntime E (rsExtra rs) s7 of (w8, s8) \<Rightarrow> ([w1, w2, w3, w4, w5, w6, w7, w8], s8))"

definition setDiagnosticConfig :: "('f, 'x, 'w) runtimeEnv \<Rightarrow> string \<Rightarrow> ('f, 'x, 'w) nodeState \<Rightarrow> ('f, 'x, 'w) nodeState" where
  "setDiagnosticConfig E raw s = (case reDiagnostic E raw of None \<Rightarrow> s
     | Some outbounds \<Rightarrow> s\<lparr>nsDiagnostic := outbounds, nsStopped := False\<rparr>)"

definition saveRuntime :: "('f, 'x, 'w) runtimeEnv \<Rightarrow> string \<Rightarrow> runtimeSet \<Rightarrow> ('f, 'x, 'w) nodeState \<Rightarrow> ('f, 'x, 'w) nodeState" where
  "saveRuntime E raw rs s =
     (if trimSpace raw = [] then s
      else setCache (saveConfigCacheWithHAProxy (codec E) (ueFsErr (reUsers E)) raw (rePeerIP E) rs (nsCache s)) (setDiagnosticConfig E raw s))"

text \<open>
  The end that \<open>grpcStartRuntime\<close>, \<open>grpcRestartRuntime\<close> and \<open>grpcApplyRuntimeOnly\<close> share: fill in
  the cached runtimes, apply OpenVPN, which can fail, then the others, then save.
\<close>

definition applyAndSave :: "('f, 'x, 'w) runtimeEnv \<Rightarrow> runtimeRequest \<Rightarrow> string \<Rightarrow> runtimeSet \<Rightarrow> ('f, 'x, 'w) nodeState \<Rightarrow> runtimeResult \<times> ('f, 'x, 'w) nodeState" where
  "applyAndSave E req message rs0 s =
     (let rs = withCached E s rs0 in
      case applyOpenVPNRuntime E (rsOV rs) s of
        (Some err, s1) \<Rightarrow> (RFailed Unavailable err, s1)
      | (None, s1) \<Rightarrow> (case applyOthers E rs s1 of (warnings, s2) \<Rightarrow>
          let warning = joinedWarnings warnings
          in (RAccepted (if warning = [] then message else message @ ''; '' @ warning), saveRuntime E (rqConfigJson req) rs s2)))"

definition grpcConfig :: "('f, 'x, 'w) runtimeEnv \<Rightarrow> runtimeRequest \<Rightarrow> config goResult" where
  "grpcConfig E req =
     (let configJSON = trimSpace (rqConfigJson req) in
      if configJSON = [] then Err ''config_json is required''
      else case NewConfig (decodeJSON (ueJson (reUsers E))) configJSON (rePeerIP E) (reSettings E) of
        Ok cfg \<Rightarrow> Ok cfg | Err err \<Rightarrow> Err (''failed to decode config: '' @ err) | Panic \<Rightarrow> Panic)"

definition prepareTProxyConfig :: "('f, 'x, 'w) runtimeEnv \<Rightarrow> config \<Rightarrow> ('f, 'x, 'w) nodeState \<Rightarrow> ('f, 'x, 'w) nodeState" where
  "prepareTProxyConfig E cfg s =
     (if contains (encodeJSON (ueJson (reUsers E)) (JObj (cfgData cfg)))
           ([CHR 0x22] @ ''tproxy'' @ [CHR 0x22, CHR '':'', CHR 0x22] @ ''tproxy'' @ [CHR 0x22])
      then s\<lparr>nsWorld := mTProxy (reManagers E) cfg (nsWorld s)\<rparr> else s)"

text \<open>A start or a restart of the core, followed by the wait and the check.\<close>

definition launchCore :: "('f, 'x, 'w) runtimeEnv \<Rightarrow> (config \<Rightarrow> 'x \<Rightarrow> string option \<times> 'x \<times> bool) \<Rightarrow> config \<Rightarrow> ('f, 'x, 'w) nodeState \<Rightarrow> string option \<times> ('f, 'x, 'w) nodeState" where
  "launchCore E launch cfg s =
     (case launch cfg (usXray (nsUsers s)) of
        (Some err, xb) \<Rightarrow> (Some err, setCore xb s)
      | (None, xb) \<Rightarrow>
          let s1 = (setCore xb s)\<lparr>nsLast := Some cfg\<rparr>; s2 = setCore (coreSettle (reCore E) (fst xb)) s1
          in (if coreStarted s2 then None else Some (joinWith [CHR 0x0A] (coreLogs (reCore E) (usXray (nsUsers s2)))), s2))"

definition runtimeWith :: "('f, 'x, 'w) runtimeEnv \<Rightarrow> (config \<Rightarrow> 'x \<Rightarrow> string option \<times> 'x \<times> bool) \<Rightarrow> runtimeRequest \<Rightarrow> string \<Rightarrow> ('f, 'x, 'w) nodeState \<Rightarrow> runtimeResult \<times> ('f, 'x, 'w) nodeState" where
  "runtimeWith E launch req message s = (case grpcConfig E req of
       Panic \<Rightarrow> (RPanic, s)
     | Err err \<Rightarrow> (RFailed InvalidArgument err, s)
     | Ok cfg \<Rightarrow> (case grpcVPNRuntime E req of
         Inl err \<Rightarrow> (RFailed InvalidArgument err, s)
       | Inr rs \<Rightarrow> (case launchCore E launch cfg (prepareTProxyConfig E cfg s) of
           (Some err, s1) \<Rightarrow> (RFailed Unavailable err, s1)
         | (None, s1) \<Rightarrow> applyAndSave E req message rs s1)))"

definition grpcStartRuntime :: "('f, 'x, 'w) runtimeEnv \<Rightarrow> runtimeRequest \<Rightarrow> bool \<Rightarrow> ('f, 'x, 'w) nodeState \<Rightarrow> runtimeResult \<times> ('f, 'x, 'w) nodeState" where
  "grpcStartRuntime E req sync = runtimeWith E (coreStart (reCore E)) req (if sync then ''runtime config synced'' else ''runtime started'')"

definition grpcRestartRuntime :: "('f, 'x, 'w) runtimeEnv \<Rightarrow> runtimeRequest \<Rightarrow> string \<Rightarrow> ('f, 'x, 'w) nodeState \<Rightarrow> runtimeResult \<times> ('f, 'x, 'w) nodeState" where
  "grpcRestartRuntime E req message = runtimeWith E (coreRestart (reCore E)) req message"

definition grpcApplyRuntimeOnly :: "('f, 'x, 'w) runtimeEnv \<Rightarrow> runtimeRequest \<Rightarrow> string \<Rightarrow> ('f, 'x, 'w) nodeState \<Rightarrow> runtimeResult \<times> ('f, 'x, 'w) nodeState" where
  "grpcApplyRuntimeOnly E req message s = (case grpcVPNRuntime E req of
       Inl err \<Rightarrow> (RFailed InvalidArgument err, s)
     | Inr rs \<Rightarrow> (case applyConfigCacheUserDiff (reUsers E) (rqConfigJson req) (nsUsers s) of
         (Some err, u) \<Rightarrow> (RFailed Unavailable (errText err), s\<lparr>nsUsers := u\<rparr>)
       | (None, u) \<Rightarrow> applyAndSave E req message rs (s\<lparr>nsUsers := u\<rparr>)))"

definition matchesCache :: "('f, 'x, 'w) runtimeEnv \<Rightarrow> (string \<Rightarrow> string option) \<Rightarrow> string \<Rightarrow> ('f, 'x, 'w) nodeState \<Rightarrow> bool" where
  "matchesCache E canonical configJSON s = (case canonical configJSON of None \<Rightarrow> False
     | Some incoming \<Rightarrow> (case loadConfigCache (codec E) (nsCache s) of None \<Rightarrow> False
         | Some payload \<Rightarrow> canonical (Config payload) = Some incoming))"

definition runtimeConfigMatchesCache :: "('f, 'x, 'w) runtimeEnv \<Rightarrow> string \<Rightarrow> ('f, 'x, 'w) nodeState \<Rightarrow> bool" where
  "runtimeConfigMatchesCache E = matchesCache E (canonicalConfigJSON (ueJson (reUsers E)) (reDecodeFirst E))"

definition runtimeTopologyMatchesCache :: "('f, 'x, 'w) runtimeEnv \<Rightarrow> string \<Rightarrow> ('f, 'x, 'w) nodeState \<Rightarrow> bool" where
  "runtimeTopologyMatchesCache E = matchesCache E (canonicalConfigTopologyJSON (ueJson (reUsers E)) (reDecodeFirst E))"

text \<open>\<open>None\<close> where \<open>NewConfig\<close> panics.\<close>

definition applyRuntimeTopologyDelta :: "('f, 'x, 'w) runtimeEnv \<Rightarrow> string \<Rightarrow> ('f, 'x, 'w) nodeState \<Rightarrow> (bool \<times> ('f, 'x, 'w) nodeState) option" where
  "applyRuntimeTopologyDelta E configJSON s = (case loadConfigCache (codec E) (nsCache s) of
       None \<Rightarrow> Some (False, s)
     | Some payload \<Rightarrow> (case NewConfig (decodeJSON (ueJson (reUsers E))) (Config payload) (PeerIP payload) (reSettings E) of
         Panic \<Rightarrow> None | Err _ \<Rightarrow> Some (False, s)
       | Ok cachedCfg \<Rightarrow> (case NewConfig (decodeJSON (ueJson (reUsers E))) configJSON (rePeerIP E) (reSettings E) of
           Panic \<Rightarrow> None | Err _ \<Rightarrow> Some (False, s)
         | Ok incomingCfg \<Rightarrow> (case runtimeTopologyDeltaFor (cfgData cachedCfg) (cfgData incomingCfg) of
             None \<Rightarrow> Some (False, s)
           | Some delta \<Rightarrow>
               let s1 = prepareTProxyConfig E incomingCfg s in
               (case applyRuntimeTopologyAPI (topologyRun (reCore E)) delta (usXray (nsUsers s1)) of (err, x) \<Rightarrow>
                  Some (err = None, s1\<lparr>nsUsers := (nsUsers s1)\<lparr>usXray := x\<rparr>\<rparr>))))))"

section \<open>Handlers\<close>

text \<open>What follows the work of \<open>StartRuntime\<close>, \<open>RestartRuntime\<close> and \<open>SyncConfig\<close>.\<close>

definition finishRequest :: "('f, 'x, 'w) runtimeEnv \<Rightarrow> runtimeRequest \<Rightarrow> runtimeResult \<times> ('f, 'x, 'w) nodeState \<Rightarrow> runtimeResult \<times> ('f, 'x, 'w) nodeState" where
  "finishRequest E req r = (case r of
       (RAccepted m, s) \<Rightarrow>
         let s1 = s\<lparr>nsWorld := mSpeedSync (reManagers E) req (nsWorld s)\<rparr>
         in (RAccepted m, setCache (recordAppliedRevision (codec E) (ueFsErr (reUsers E)) (Some (rqRevision req)) False (nsCache s1)) s1)
     | (failure, s) \<Rightarrow> (failure, s))"

definition ifCurrent :: "('f, 'x, 'w) runtimeEnv \<Rightarrow> runtimeRequest \<Rightarrow> (('f, 'x, 'w) nodeState \<Rightarrow> runtimeResult \<times> ('f, 'x, 'w) nodeState) \<Rightarrow> ('f, 'x, 'w) nodeState \<Rightarrow> runtimeResult \<times> ('f, 'x, 'w) nodeState" where
  "ifCurrent E req work s = (case validateDesiredRevision (codec E) (Some (rqRevision req)) (nsCache s) of
       Some err \<Rightarrow> (RFailed FailedPrecondition err, s)
     | None \<Rightarrow> work s)"

definition StartRuntime :: "('f, 'x, 'w) runtimeEnv \<Rightarrow> runtimeRequest \<Rightarrow> ('f, 'x, 'w) nodeState \<Rightarrow> runtimeResult \<times> ('f, 'x, 'w) nodeState" where
  "StartRuntime E req = ifCurrent E req (\<lambda>s. finishRequest E req
     (if coreStarted s then
        if runtimeConfigMatchesCache E (rqConfigJson req) s then grpcApplyRuntimeOnly E req ''runtime already started'' s
        else grpcRestartRuntime E req ''runtime restarted'' s
      else grpcStartRuntime E req False s))"

definition RestartRuntime :: "('f, 'x, 'w) runtimeEnv \<Rightarrow> runtimeRequest \<Rightarrow> ('f, 'x, 'w) nodeState \<Rightarrow> runtimeResult \<times> ('f, 'x, 'w) nodeState" where
  "RestartRuntime E req = ifCurrent E req (\<lambda>s. finishRequest E req (grpcRestartRuntime E req ''runtime restarted'' s))"

definition SyncConfig :: "('f, 'x, 'w) runtimeEnv \<Rightarrow> runtimeRequest \<Rightarrow> ('f, 'x, 'w) nodeState \<Rightarrow> runtimeResult \<times> ('f, 'x, 'w) nodeState" where
  "SyncConfig E req = ifCurrent E req (\<lambda>s0. case mManagedProxies (reManagers E) (rqConfigJson req) (nsWorld s0) of
     (Some err, w) \<Rightarrow> (RFailed FailedPrecondition err, s0\<lparr>nsWorld := w\<rparr>)
   | (None, w) \<Rightarrow> let s = s0\<lparr>nsWorld := w\<rparr> in finishRequest E req
       (if coreStarted s then
          if runtimeConfigMatchesCache E (rqConfigJson req) s \<or> runtimeTopologyMatchesCache E (rqConfigJson req) s
          then grpcApplyRuntimeOnly E req ''runtime config synced'' s
          else case applyRuntimeTopologyDelta E (rqConfigJson req) s of
            None \<Rightarrow> (RPanic, s)
          | Some (True, s1) \<Rightarrow> grpcApplyRuntimeOnly E req ''runtime topology synced'' s1
          | Some (False, s1) \<Rightarrow> grpcRestartRuntime E req ''runtime config synced'' s1
        else grpcStartRuntime E req True s))"

section \<open>Stopping and resuming\<close>

definition clearConfigCache :: "('f, 'x, 'w) runtimeEnv \<Rightarrow> ('f, 'x, 'w) nodeState \<Rightarrow> ('f, 'x, 'w) nodeState" where
  "clearConfigCache E s =
     (let s1 = s\<lparr>nsStopped := True, nsIssues := [], nsStartupError := [], nsDiagnostic := []\<rparr> in
      case reRemoveErr E of None \<Rightarrow> setCache ((nsCache s1)\<lparr>cacheFile := None\<rparr>) s1 | Some _ \<Rightarrow> s1)"

text \<open>One of the stops whose failure is only noted; a manager that is nil is skipped.\<close>

definition stopNative :: "string \<Rightarrow> string \<Rightarrow> ('w \<Rightarrow> string option \<times> 'w) option \<Rightarrow> (string, string) gomap \<times> 'w \<Rightarrow> (string, string) gomap \<times> 'w" where
  "stopNative protocol prefix manager iw = (case manager of None \<Rightarrow> iw
     | Some call \<Rightarrow> (case call (snd iw) of
         (None, w) \<Rightarrow> (fst iw, w)
       | (Some err, w) \<Rightarrow> (AList.update protocol (prefix @ err) (fst iw), w)))"

definition stopOthers :: "'w managers \<Rightarrow> (string, string) gomap \<times> 'w \<Rightarrow> (string, string) gomap \<times> 'w" where
  "stopOthers M iw =
     stopNative ''ip-blocks'' ''Source IP block cleanup failed: '' (Some (mClearBlocks M))
     (stopNative ''extra-protocols'' ''Extra VPN runtime stop failed: '' (map_option (\<lambda>f. f (Some emptyExtra)) (mExtraVPN M))
     (stopNative ''external-proxy'' ''External proxy runtime stop failed: '' (map_option (\<lambda>f. f (Some emptyExtra)) (mExternal M))
     (stopNative ''ssh'' ''SSH runtime stop failed: '' (map_option (\<lambda>f. f (Some emptyExtra)) (mSSH M))
     (stopNative ''haproxy'' ''HAProxy runtime stop failed: '' (map_option (\<lambda>f. f (Some emptyHAProxy)) (mHAProxy M))
     (stopNative ''anyconnect'' ''AnyConnect runtime stop failed: '' (Some (mAnyConnect M (Some emptyRuntime)))
     (stopNative ''ikev2'' ''IKEv2 runtime stop failed: '' (Some (mIKEv2 M (Some emptyRuntime)))
     (stopNative ''wireguard'' ''WireGuard runtime stop failed: '' (Some (mWG M (Some emptyRuntime))) iw)))))))"

definition StopRuntime :: "('f, 'x, 'w) runtimeEnv \<Rightarrow> bool \<Rightarrow> ('f, 'x, 'w) nodeState \<Rightarrow> runtimeResult \<times> ('f, 'x, 'w) nodeState" where
  "StopRuntime E collectUsage s0 =
     (let M = reManagers E;
          s1 = (if collectUsage then s0\<lparr>nsWorld := mSnapshotUsage M (nsWorld s0)\<rparr> else s0);
          s2 = setCore (coreStop (reCore E) (usXray (nsUsers s1))) s1
      in case applyOpenVPNRuntime E (Some emptyRuntime) s2 of
        (Some err, s3) \<Rightarrow> (RFailed Unavailable err, s3)
      | (None, s3) \<Rightarrow> (case mL2TP M (Some emptyRuntime) (nsWorld s3) of
          (Some err, w) \<Rightarrow> (RFailed Unavailable err, recordNativeIssue ''l2tp'' (''L2TP runtime stop failed: '' @ err) (s3\<lparr>nsWorld := w\<rparr>))
        | (None, w) \<Rightarrow> (case mPPTP M (Some emptyRuntime) w of
            (Some err, w') \<Rightarrow> (RFailed Unavailable err, recordNativeIssue ''pptp'' (''PPTP runtime stop failed: '' @ err) (s3\<lparr>nsWorld := w'\<rparr>))
          | (None, w') \<Rightarrow> (case stopOthers M ([], w') of (issues, w'') \<Rightarrow>
              (RAccepted ''runtime stopped'',
               fold (\<lambda>(protocol, message). recordNativeIssue protocol message) issues (clearConfigCache E (s3\<lparr>nsWorld := w''\<rparr>)))))))"

text \<open>The errors of this cleanup are only logged.\<close>

definition clearCachedAuxiliaryRuntimes :: "'w managers \<Rightarrow> 'w \<Rightarrow> 'w" where
  "clearCachedAuxiliaryRuntimes M w =
     (let w1 = snd (mManagedProxies M ''{}'' w); w2 = snd (mOV M (Some emptyRuntime) w1);
          w3 = snd (mL2TP M (Some emptyRuntime) w2); w4 = snd (mPPTP M (Some emptyRuntime) w3)
      in snd (stopOthers M ([], w4)))"

text \<open>The work of \<open>startCachedConfig\<close> on a payload that was read.\<close>

definition resumeCached :: "('f, 'x, 'w) runtimeEnv \<Rightarrow> bool \<Rightarrow> cachedConfigPayload \<Rightarrow> ('f, 'x, 'w) nodeState \<Rightarrow> unit goResult \<times> ('f, 'x, 'w) nodeState" where
  "resumeCached E restart payload s0 =
     (let s = setDiagnosticConfig E (Config payload) s0 in
      case mManagedProxies (reManagers E) (Config payload) (nsWorld s) of
        (Some err, w) \<Rightarrow> (Err err, s\<lparr>nsWorld := w\<rparr>)
      | (None, w) \<Rightarrow> let s1 = s\<lparr>nsWorld := w\<rparr> in
          (case NewConfig (decodeJSON (ueJson (reUsers E))) (Config payload) (PeerIP payload) (reSettings E) of
             Panic \<Rightarrow> (Panic, s1)
           | Err err \<Rightarrow> (Err err, snd (applyHAProxyRuntime E (HAProxyRuntime payload) s1))
           | Ok cfg \<Rightarrow>
               let s2 = prepareTProxyConfig E cfg s1 in
               (case (if restart then coreRestart (reCore E) else coreStart (reCore E)) cfg (usXray (nsUsers s2)) of
                  (Some err, xb) \<Rightarrow> (Err err, snd (applyHAProxyRuntime E (HAProxyRuntime payload) (setCore xb s2)))
                | (None, xb) \<Rightarrow>
                    let s3 = (setCore xb s2)\<lparr>nsLast := Some cfg\<rparr>;
                        s4 = s3\<lparr>nsWorld := mSpeedRestore (reManagers E) cfg (nsWorld s3)\<rparr>;
                        s5 = snd (applyOpenVPNRuntime E (OVRuntime payload) s4)
                    in (Ok (), snd (applyOthers E \<lparr>rsOV = OVRuntime payload, rsL2TP = L2TPRuntime payload, rsPPTP = PPTPRuntime payload,
                         rsWG = WGRuntime payload, rsIKEv2 = IKEv2Runtime payload, rsAnyConnect = AnyConnectRuntime payload,
                         rsHAProxy = HAProxyRuntime payload, rsExtra = ExtraRuntime payload\<rparr> s5)))))"

definition startCachedConfig :: "('f, 'x, 'w) runtimeEnv \<Rightarrow> bool \<Rightarrow> ('f, 'x, 'w) nodeState \<Rightarrow> unit goResult \<times> ('f, 'x, 'w) nodeState" where
  "startCachedConfig E restart s =
     (case (case loadConfigCache (codec E) (nsCache s) of
              None \<Rightarrow>
                (if cacheFile (nsCache s) \<noteq> None
                 then (Err ''cached runtime configuration is unreadable or invalid; sync a valid configuration from the master'', s)
                 else let s1 = s\<lparr>nsWorld := clearCachedAuxiliaryRuntimes (reManagers E) (nsWorld s)\<rparr>
                      in (if restart then Err ''runtime config cache is unavailable; sync config first'' else Ok (), s1))
            | Some payload \<Rightarrow> resumeCached E restart payload s) of (result, s') \<Rightarrow>
        (result, s'\<lparr>nsStartupError := case result of Err err \<Rightarrow> err | _ \<Rightarrow> []\<rparr>))"

section \<open>What the steps keep\<close>

named_theorems users_kept \<comment> \<open>an operation does not touch the cache and the core\<close>
named_theorems last_kept \<comment> \<open>an operation does not touch the last configuration\<close>

lemma setCore_cache [simp]: "nsCache (setCore xb s) = nsCache s"
  by (simp add: setCore_def nsCache_def)

lemma setCache_cache [simp]: "nsCache (setCache c s) = c" "coreStarted (setCache c s) = coreStarted s" "nsLast (setCache c s) = nsLast s"
  by (simp_all add: setCache_def nsCache_def coreStarted_def)

lemma other_fields [simp]:
  "nsCache (s\<lparr>nsWorld := w\<rparr>) = nsCache s" "nsCache (s\<lparr>nsLast := l\<rparr>) = nsCache s" "nsCache (s\<lparr>nsUsers := u\<rparr>) = usCache u"
  "coreStarted (s\<lparr>nsWorld := w\<rparr>) = coreStarted s" "coreStarted (s\<lparr>nsUsers := u\<rparr>) = usStarted u"
  by (simp_all add: nsCache_def coreStarted_def)

lemma nsUsers_eqD: "nsUsers s' = nsUsers s \<Longrightarrow> nsCache s' = nsCache s \<and> coreStarted s' = coreStarted s"
  by (simp add: nsCache_def coreStarted_def)

lemma recordNativeIssue_kept [users_kept, last_kept]:
  "nsUsers (recordNativeIssue p m s) = nsUsers s" "nsLast (recordNativeIssue p m s) = nsLast s"
  by (simp_all add: recordNativeIssue_def)

lemma applyNative_kept [users_kept, last_kept]:
  "nsUsers (snd (applyNative p q call s)) = nsUsers s" "nsLast (snd (applyNative p q call s)) = nsLast s"
  by (simp_all add: applyNative_def users_kept last_kept Let_def split: prod.split)

lemma applyOpenVPNRuntime_kept [users_kept, last_kept]:
  "nsUsers (snd (applyOpenVPNRuntime E r s)) = nsUsers s" "nsLast (snd (applyOpenVPNRuntime E r s)) = nsLast s"
  by (simp_all add: applyOpenVPNRuntime_def users_kept last_kept split: prod.split)

lemma applyHAProxyRuntime_kept [users_kept, last_kept]:
  "nsUsers (snd (applyHAProxyRuntime E r s)) = nsUsers s" "nsLast (snd (applyHAProxyRuntime E r s)) = nsLast s"
  by (simp_all add: applyHAProxyRuntime_def users_kept last_kept Let_def split: option.split)

lemma applyOthers_kept [users_kept, last_kept]:
  "nsUsers (snd (applyOthers E rs s)) = nsUsers s" "nsLast (snd (applyOthers E rs s)) = nsLast s"
  by (simp_all add: applyOthers_def prepareIKEv2Runtime_def applyL2TPRuntime_def applyPPTPRuntime_def applyWGRuntime_def
      applyIKEv2Runtime_def applyAnyConnectRuntime_def applyExtraRuntime_def users_kept last_kept Let_def split_beta)

lemma prepareTProxyConfig_kept [users_kept, last_kept]:
  "nsUsers (prepareTProxyConfig E cfg s) = nsUsers s" "nsLast (prepareTProxyConfig E cfg s) = nsLast s"
  by (simp_all add: prepareTProxyConfig_def)

lemma setDiagnosticConfig_kept [users_kept, last_kept]:
  "nsUsers (setDiagnosticConfig E raw s) = nsUsers s" "nsLast (setDiagnosticConfig E raw s) = nsLast s"
  by (simp_all add: setDiagnosticConfig_def split: option.split)

lemma cache_of_users [users_kept]:
  "nsCache (prepareTProxyConfig E cfg s) = nsCache s" "nsCache (snd (applyOthers E rs s)) = nsCache s"
  "nsCache (snd (applyOpenVPNRuntime E r s)) = nsCache s" "nsCache (setDiagnosticConfig E raw s) = nsCache s"
  "coreStarted (prepareTProxyConfig E cfg s) = coreStarted s" "coreStarted (snd (applyOthers E rs s)) = coreStarted s"
  "coreStarted (snd (applyOpenVPNRuntime E r s)) = coreStarted s" "coreStarted (setDiagnosticConfig E raw s) = coreStarted s"
  by (simp_all add: nsCache_def coreStarted_def users_kept)

lemma launchCore_cache [users_kept]: "nsCache (snd (launchCore E launch cfg s)) = nsCache s"
  by (simp add: launchCore_def Let_def split: prod.split option.split)

lemma launchCore_ok:
  "launchCore E launch cfg s = (None, s') \<Longrightarrow> nsLast s' = Some cfg \<and> coreStarted s' \<and> nsCache s' = nsCache s"
  using launchCore_cache [of E launch cfg s]
  by (auto simp: launchCore_def setCore_def Let_def split: prod.splits option.splits if_splits)

lemma applyRuntimeTopologyDelta_kept:
  "applyRuntimeTopologyDelta E raw s = Some (b, s') \<Longrightarrow> nsCache s' = nsCache s \<and> coreStarted s' = coreStarted s"
  by (auto simp: applyRuntimeTopologyDelta_def Let_def users_kept nsCache_def coreStarted_def
      split: option.splits goResult.splits prod.splits)

lemma userDiff_kept:
  "applyConfigCacheUserDiff U raw u = (r, u') \<Longrightarrow> usCache u' = usCache u \<and> usStarted u' = usStarted u"
  by (auto simp: applyConfigCacheUserDiff_def applyConfigUserDiffResult_def onXray_def Let_def
      split: option.splits sum.splits prod.splits if_splits)

section \<open>Outcomes\<close>

text \<open>
  What every path of a request ends in: accepted with the core started and the request saved over
  the cache, or refused with the cache as it was.
\<close>

definition savedRequest :: "('f, 'x, 'w) runtimeEnv \<Rightarrow> runtimeRequest \<Rightarrow> 'f cacheState \<Rightarrow> 'f cacheState \<Rightarrow> bool" where
  "savedRequest E req c c' \<longleftrightarrow>
     (\<exists>rs. c' = saveConfigCacheWithHAProxy (codec E) (ueFsErr (reUsers E)) (rqConfigJson req) (rePeerIP E) rs c)"

definition requestOutcome :: "('f, 'x, 'w) runtimeEnv \<Rightarrow> runtimeRequest \<Rightarrow> 'f cacheState \<Rightarrow> runtimeResult \<times> ('f, 'x, 'w) nodeState \<Rightarrow> bool" where
  "requestOutcome E req c r = (case fst r of
       RAccepted _ \<Rightarrow> coreStarted (snd r) \<and> savedRequest E req c (nsCache (snd r))
     | _ \<Rightarrow> nsCache (snd r) = c)"

lemma requestOutcome_failed [simp]:
  "requestOutcome E req c (RFailed code err, s) \<longleftrightarrow> nsCache s = c" "requestOutcome E req c (RPanic, s) \<longleftrightarrow> nsCache s = c"
  by (simp_all add: requestOutcome_def)

lemma saveRuntime_saved:
  "trimSpace raw \<noteq> [] \<Longrightarrow> raw = rqConfigJson req \<Longrightarrow> savedRequest E req (nsCache s) (nsCache (saveRuntime E raw rs s))"
  by (auto simp: saveRuntime_def savedRequest_def)

lemma saveRuntime_kept: "coreStarted (saveRuntime E raw rs s) = coreStarted s" "nsLast (saveRuntime E raw rs s) = nsLast s"
  by (simp_all add: saveRuntime_def users_kept last_kept)

lemma applyAndSave_last: "nsLast (snd (applyAndSave E req m rs s)) = nsLast s"
  using applyOpenVPNRuntime_kept(2) [of E "rsOV (withCached E s rs)" s]
  by (auto simp: applyAndSave_def Let_def saveRuntime_kept last_kept split_beta split: option.split)

lemma applyAndSave_outcome:
  assumes "trimSpace (rqConfigJson req) \<noteq> []" and "coreStarted s"
  shows "requestOutcome E req (nsCache s) (applyAndSave E req m rs s)"
proof (cases "applyOpenVPNRuntime E (rsOV (withCached E s rs)) s")
  case (Pair err s1)
  then have s1: "nsCache s1 = nsCache s" "coreStarted s1 = coreStarted s"
    using cache_of_users(3,7) [of E "rsOV (withCached E s rs)" s] by simp_all
  show ?thesis
  proof (cases err)
    case (Some e)
    then show ?thesis using Pair s1 by (simp add: applyAndSave_def Let_def)
  next
    case None
    let ?s2 = "snd (applyOthers E (withCached E s rs) s1)"
    have "nsCache ?s2 = nsCache s" "coreStarted ?s2" using s1 assms(2) by (simp_all add: users_kept)
    then show ?thesis
      using None Pair saveRuntime_saved [OF assms(1) refl, of E ?s2 "withCached E s rs"]
      by (simp add: applyAndSave_def Let_def requestOutcome_def saveRuntime_kept split_beta)
  qed
qed

lemma runtimeWith_outcome:
  assumes "trimSpace (rqConfigJson req) \<noteq> []"
  shows "requestOutcome E req (nsCache s) (runtimeWith E launch req m s)"
proof (cases "grpcConfig E req")
  case (Ok cfg)
  show ?thesis
  proof (cases "grpcVPNRuntime E req")
    case (Inr rs)
    obtain err s1 where l: "launchCore E launch cfg (prepareTProxyConfig E cfg s) = (err, s1)" by fastforce
    then have "nsCache s1 = nsCache s" using launchCore_cache [of E launch cfg "prepareTProxyConfig E cfg s"] by (simp add: users_kept)
    with Ok Inr l show ?thesis
      using applyAndSave_outcome [OF assms, of s1] launchCore_ok [of E launch cfg _ s1]
      by (cases err) (auto simp: runtimeWith_def)
  qed (simp add: runtimeWith_def Ok)
qed (simp_all add: runtimeWith_def)

lemma applyOnly_outcome:
  assumes "trimSpace (rqConfigJson req) \<noteq> []" and "coreStarted s"
  shows "requestOutcome E req (nsCache s) (grpcApplyRuntimeOnly E req m s)"
proof (cases "grpcVPNRuntime E req")
  case (Inr rs)
  obtain err u where d: "applyConfigCacheUserDiff (reUsers E) (rqConfigJson req) (nsUsers s) = (err, u)" by fastforce
  from userDiff_kept [OF d] have "usCache u = nsCache s" "usStarted u" using assms(2) by (simp_all add: nsCache_def coreStarted_def)
  with Inr d show ?thesis
    using applyAndSave_outcome [OF assms(1), of "s\<lparr>nsUsers := u\<rparr>" E m rs] by (cases err) (auto simp: grpcApplyRuntimeOnly_def)
qed (simp add: grpcApplyRuntimeOnly_def)

text \<open>The work of the three handlers before the revision is recorded.\<close>

definition startWork :: "('f, 'x, 'w) runtimeEnv \<Rightarrow> runtimeRequest \<Rightarrow> ('f, 'x, 'w) nodeState \<Rightarrow> runtimeResult \<times> ('f, 'x, 'w) nodeState" where
  "startWork E req s = (if coreStarted s then
        if runtimeConfigMatchesCache E (rqConfigJson req) s then grpcApplyRuntimeOnly E req ''runtime already started'' s
        else grpcRestartRuntime E req ''runtime restarted'' s
      else grpcStartRuntime E req False s)"

definition syncWork :: "('f, 'x, 'w) runtimeEnv \<Rightarrow> runtimeRequest \<Rightarrow> ('f, 'x, 'w) nodeState \<Rightarrow> runtimeResult \<times> ('f, 'x, 'w) nodeState" where
  "syncWork E req s = (if coreStarted s then
          if runtimeConfigMatchesCache E (rqConfigJson req) s \<or> runtimeTopologyMatchesCache E (rqConfigJson req) s
          then grpcApplyRuntimeOnly E req ''runtime config synced'' s
          else case applyRuntimeTopologyDelta E (rqConfigJson req) s of
            None \<Rightarrow> (RPanic, s)
          | Some (True, s1) \<Rightarrow> grpcApplyRuntimeOnly E req ''runtime topology synced'' s1
          | Some (False, s1) \<Rightarrow> grpcRestartRuntime E req ''runtime config synced'' s1
        else grpcStartRuntime E req True s)"

lemma startWork_outcome:
  "trimSpace (rqConfigJson req) \<noteq> [] \<Longrightarrow> requestOutcome E req (nsCache s) (startWork E req s)"
  by (simp add: startWork_def grpcRestartRuntime_def grpcStartRuntime_def runtimeWith_outcome applyOnly_outcome)

lemma syncWork_outcome:
  assumes "trimSpace (rqConfigJson req) \<noteq> []"
  shows "requestOutcome E req (nsCache s) (syncWork E req s)"
proof (cases "applyRuntimeTopologyDelta E (rqConfigJson req) s")
  case (Some bs)
  then have k: "nsCache (snd bs) = nsCache s" "coreStarted (snd bs) = coreStarted s"
    using applyRuntimeTopologyDelta_kept [of E _ s "fst bs" "snd bs"] by simp_all
  show ?thesis
    using Some k runtimeWith_outcome [OF assms, of E "snd bs"] applyOnly_outcome [OF assms, of "snd bs" E]
    by (auto simp: syncWork_def grpcRestartRuntime_def grpcStartRuntime_def runtimeWith_outcome assms applyOnly_outcome split: prod.split bool.split)
qed (simp add: syncWork_def grpcStartRuntime_def runtimeWith_outcome assms applyOnly_outcome)

datatype runtimeMethod = Start | Restart | Sync

fun handleRuntime :: "('f, 'x, 'w) runtimeEnv \<Rightarrow> runtimeMethod \<Rightarrow> runtimeRequest \<Rightarrow> ('f, 'x, 'w) nodeState \<Rightarrow> runtimeResult \<times> ('f, 'x, 'w) nodeState" where
  "handleRuntime E Start req s = StartRuntime E req s"
| "handleRuntime E Restart req s = RestartRuntime E req s"
| "handleRuntime E Sync req s = SyncConfig E req s"

text \<open>As \<open>requestOutcome\<close>, with the revision recorded after an accepted request.\<close>

definition handlerOutcome :: "('f, 'x, 'w) runtimeEnv \<Rightarrow> runtimeRequest \<Rightarrow> 'f cacheState \<Rightarrow> runtimeResult \<times> ('f, 'x, 'w) nodeState \<Rightarrow> bool" where
  "handlerOutcome E req c r = (case fst r of
       RAccepted _ \<Rightarrow> coreStarted (snd r) \<and> (\<exists>c'. savedRequest E req c c' \<and>
         nsCache (snd r) = recordAppliedRevision (codec E) (ueFsErr (reUsers E)) (Some (rqRevision req)) False c')
     | _ \<Rightarrow> nsCache (snd r) = c)"

lemma finishRequest_outcome: "requestOutcome E req c r \<Longrightarrow> handlerOutcome E req c (finishRequest E req r)"
  by (cases r; cases "fst r") (auto simp: finishRequest_def requestOutcome_def handlerOutcome_def Let_def)

lemma SyncConfig_work:
  "SyncConfig E req = ifCurrent E req (\<lambda>s0. case mManagedProxies (reManagers E) (rqConfigJson req) (nsWorld s0) of
     (Some err, w) \<Rightarrow> (RFailed FailedPrecondition err, s0\<lparr>nsWorld := w\<rparr>)
   | (None, w) \<Rightarrow> finishRequest E req (syncWork E req (s0\<lparr>nsWorld := w\<rparr>)))"
  unfolding SyncConfig_def syncWork_def Let_def ..

lemma StartRuntime_work: "StartRuntime E req = ifCurrent E req (\<lambda>s. finishRequest E req (startWork E req s))"
  unfolding StartRuntime_def startWork_def ..

lemma handler_outcome:
  assumes "trimSpace (rqConfigJson req) \<noteq> []"
  shows "handlerOutcome E req (nsCache s) (handleRuntime E rpc req s)"
proof (cases "validateDesiredRevision (codec E) (Some (rqRevision req)) (nsCache s)")
  case (Some err)
  then show ?thesis by (cases rpc) (simp_all add: StartRuntime_def RestartRuntime_def SyncConfig_def ifCurrent_def handlerOutcome_def)
next
  case None
  have restart: "handlerOutcome E req (nsCache s) (finishRequest E req (grpcRestartRuntime E req m s))" for m
    by (simp add: finishRequest_outcome grpcRestartRuntime_def runtimeWith_outcome [OF assms])
  have sync: "handlerOutcome E req (nsCache s) (finishRequest E req (syncWork E req (s\<lparr>nsWorld := w\<rparr>)))" for w
    using finishRequest_outcome [OF syncWork_outcome [OF assms, of E "s\<lparr>nsWorld := w\<rparr>"]] by simp
  show ?thesis
    using None restart sync finishRequest_outcome [OF startWork_outcome [OF assms, of E s]]
    by (cases rpc) (auto simp: StartRuntime_work RestartRuntime_def SyncConfig_work ifCurrent_def handlerOutcome_def
      split: prod.split option.split)
qed

lemma saved_then_recorded:
  assumes "codecLaw P" and "configCacheBatch c = None" and "trimSpace raw \<noteq> []"
    and "c' = recordAppliedRevision P None (Some r) False (saveConfigCacheWithHAProxy P None raw ip rs c)"
  shows "\<exists>p. readConfigCacheFile P c' = Some p \<and> configCacheBatch c' = None \<and> Config p = raw
    \<and> PeerIP p = (if trimSpace ip = [] then ''127.0.0.1'' else ip) \<and> AppliedRevision p = max (appliedRevision P c) r
    \<and> OVRuntime p = rsOV rs"
proof -
  define q where "q = \<lparr>AppliedRevision = appliedRevision P c, Config = raw, PeerIP = ip, OVRuntime = rsOV rs, L2TPRuntime = rsL2TP rs,
    PPTPRuntime = rsPPTP rs, WGRuntime = rsWG rs, IKEv2Runtime = rsIKEv2 rs, AnyConnectRuntime = rsAnyConnect rs,
    HAProxyRuntime = rsHAProxy rs, ExtraRuntime = rsExtra rs\<rparr>"
  define d where "d = c\<lparr>cacheFile := Some (marshalPayload P q)\<rparr>"
  have d: "saveConfigCacheWithHAProxy P None raw ip rs c = d"
    using assms(2,3) by (simp add: saveConfigCacheWithHAProxy_def persistConfigCache_def writeConfigCacheFile_def d_def q_def)
  have q: "trimSpace (Config q) \<noteq> []" "trimSpace (Config (normalized q\<lparr>AppliedRevision := r\<rparr>)) \<noteq> []"
    using assms(3) by (simp_all add: q_def normalized_def)
  have read: "readConfigCacheFile P d = Some (normalized q)" "configCacheBatch d = None"
    using read_written [OF assms(1) q(1)] assms(2) by (simp_all add: d_def)
  show ?thesis
  proof (cases "r \<le> appliedRevision P c")
    case True
    then have "c' = d" using assms(4) read d
      by (simp add: recordAppliedRevision_def setAppliedRevision_def loadConfigCache_def q_def)
    with read True show ?thesis by (simp add: q_def normalized_def)
  next
    case False
    then have "c' = d\<lparr>cacheFile := Some (marshalPayload P (normalized q\<lparr>AppliedRevision := r\<rparr>))\<rparr>"
      using assms(4) read d
      by (simp add: recordAppliedRevision_def setAppliedRevision_def loadConfigCache_def persistConfigCache_def writeConfigCacheFile_def q_def)
    with read_written [OF assms(1) q(2)] read False show ?thesis by (simp add: q_def normalized_def)
  qed
qed

section \<open>Properties\<close>

text \<open>
  (C6) An accepted request is what the node will resume from: when \<open>StartRuntime\<close>, \<open>RestartRuntime\<close> or
  \<open>SyncConfig\<close> accepts a request and the file system works, the core is started and the cache
  file holds the request's configuration, under the newer of the request's revision and the one that
  was applied before.
\<close>

theorem accepted_request_is_cached:
  assumes "handleRuntime E rpc req s = (RAccepted m, s')"
    and "trimSpace (rqConfigJson req) \<noteq> []" and "codecLaw (codec E)" and "ueFsErr (reUsers E) = None"
    and "configCacheBatch (nsCache s) = None"
  shows "coreStarted s' \<and> (\<exists>p. loadConfigCache (codec E) (nsCache s') = Some p \<and> Config p = rqConfigJson req
    \<and> AppliedRevision p = max (appliedRevision (codec E) (nsCache s)) (rqRevision req))"
proof -
  have "handlerOutcome E req (nsCache s) (RAccepted m, s')" using handler_outcome [OF assms(2), of E s rpc] assms(1) by simp
  then obtain rs where s': "coreStarted s'" "nsCache s' = recordAppliedRevision (codec E) None (Some (rqRevision req)) False
      (saveConfigCacheWithHAProxy (codec E) None (rqConfigJson req) (rePeerIP E) rs (nsCache s))"
    using assms(4) by (auto simp: handlerOutcome_def savedRequest_def)
  from saved_then_recorded [OF assms(3,5,2) this(2)] s'(1) show ?thesis by (auto simp: loadConfigCache_def)
qed

text \<open>
  A refused request does not reach the cache: when the handler fails or panics, with any failures
  of the managers, of Xray and of the file system, the cached configuration and its revision are the
  ones before; a request for an older revision than the applied one changes nothing at all.
\<close>

theorem refused_request_keeps_cache:
  assumes "trimSpace (rqConfigJson req) \<noteq> []"
  shows "((\<nexists>m. fst (handleRuntime E rpc req s) = RAccepted m) \<longrightarrow> nsCache (snd (handleRuntime E rpc req s)) = nsCache s)
    \<and> (0 < rqRevision req \<and> rqRevision req < appliedRevision (codec E) (nsCache s)
      \<longrightarrow> (\<exists>err. handleRuntime E rpc req s = (RFailed FailedPrecondition err, s)))"
proof (intro conjI impI)
  show "nsCache (snd (handleRuntime E rpc req s)) = nsCache s" if "\<nexists>m. fst (handleRuntime E rpc req s) = RAccepted m"
    using handler_outcome [OF assms, of E s rpc] that by (auto simp: handlerOutcome_def split: runtimeResult.splits)
  show "\<exists>err. handleRuntime E rpc req s = (RFailed FailedPrecondition err, s)"
    if "0 < rqRevision req \<and> rqRevision req < appliedRevision (codec E) (nsCache s)"
    using that by (cases rpc) (simp_all add: StartRuntime_def RestartRuntime_def SyncConfig_def ifCurrent_def validateDesiredRevision_def)
qed


lemma finish_last: "nsLast (snd (finishRequest E req r)) = nsLast (snd r)" "fst (finishRequest E req r) = fst r"
  by (cases r; cases "fst r"; simp add: finishRequest_def Let_def)+




lemma fold_issues_kept: "nsUsers (fold (\<lambda>(protocol, message). recordNativeIssue protocol message) issues s) = nsUsers s"
  "nsStopped (fold (\<lambda>(protocol, message). recordNativeIssue protocol message) issues s) = nsStopped s"
  by (induction issues arbitrary: s) (auto simp: recordNativeIssue_def)

text \<open>
  (C37) A stop is final: when \<open>StopRuntime\<close> is accepted and the cache file can be removed, the core is
  as its stop left it, nothing is cached, and starting the node again starts no Xray and reports no
  error, while an explicit restart from the cache is refused.
\<close>

theorem stop_leaves_nothing_to_resume:
  assumes "StopRuntime E collect s = (RAccepted m, s')" and "reRemoveErr E = None" and "configCacheBatch (nsCache s) = None"
  shows "usStarted (nsUsers s') = snd (coreStop (reCore E) (usXray (nsUsers s))) \<and> nsStopped s'
    \<and> loadConfigCache (codec E) (nsCache s') = None
    \<and> fst (startCachedConfig E False s') = Ok () \<and> nsUsers (snd (startCachedConfig E False s')) = nsUsers s'
    \<and> (\<exists>err. fst (startCachedConfig E True s') = Err err)"
proof -
  define s2 where "s2 = setCore (coreStop (reCore E) (usXray (nsUsers s))) (if collect then s\<lparr>nsWorld := mSnapshotUsage (reManagers E) (nsWorld s)\<rparr> else s)"
  define s3 where "s3 = snd (applyOpenVPNRuntime E (Some emptyRuntime) s2)"
  obtain w issues where s': "s' = fold (\<lambda>(protocol, message). recordNativeIssue protocol message) issues (clearConfigCache E (s3\<lparr>nsWorld := w\<rparr>))"
    using assms(1) unfolding StopRuntime_def Let_def s3_def s2_def
    by (cases collect) (auto split: prod.splits option.splits)
  have "nsUsers s' = nsUsers (clearConfigCache E (s3\<lparr>nsWorld := w\<rparr>))" "nsStopped s'"
    using assms(2) by (simp_all add: s' fold_issues_kept clearConfigCache_def setCache_def Let_def)
  then have u: "nsUsers s' = (nsUsers s3)\<lparr>usCache := (usCache (nsUsers s3))\<lparr>cacheFile := None\<rparr>\<rparr>"
    using assms(2) by (simp add: clearConfigCache_def setCache_def nsCache_def Let_def)
  have "nsUsers s3 = (nsUsers s)\<lparr>usXray := fst (coreStop (reCore E) (usXray (nsUsers s))), usStarted := snd (coreStop (reCore E) (usXray (nsUsers s)))\<rparr>"
    by (simp add: s3_def s2_def users_kept setCore_def)
  with u assms(3) have "cacheFile (nsCache s') = None" "configCacheBatch (nsCache s') = None"
    "usStarted (nsUsers s') = snd (coreStop (reCore E) (usXray (nsUsers s)))"
    by (simp_all add: nsCache_def)
  then show ?thesis using \<open>nsStopped s'\<close>
    by (simp add: startCachedConfig_def loadConfigCache_def readConfigCacheFile_def Let_def)
qed

text \<open>
  A failed restart can leave the cache behind the core: when a restart with a new configuration
  starts Xray and OpenVPN then fails, the request is refused, Xray runs the new configuration and the
  cache keeps the old one. A later request to start with the old configuration, if it is accepted, is
  taken as already running and does not restart Xray: the node goes on with the refused configuration.
\<close>

theorem failed_restart_leaves_new_core:
  assumes "validateDesiredRevision (codec E) (Some (rqRevision new)) (nsCache s) = None"
    and "grpcConfig E new = Ok cfg" and "grpcVPNRuntime E new = Inr rs"
    and "launchCore E (coreRestart (reCore E)) cfg (prepareTProxyConfig E cfg s) = (None, s1)"
    and "fst (applyOpenVPNRuntime E (rsOV (withCached E s1 rs)) s1) = Some err"
    and "runtimeConfigMatchesCache E (rqConfigJson old) s"
    and "StartRuntime E old (snd (RestartRuntime E new s)) = (RAccepted m, s')"
  shows "fst (RestartRuntime E new s) = RFailed Unavailable err \<and> nsCache (snd (RestartRuntime E new s)) = nsCache s
    \<and> nsLast (snd (RestartRuntime E new s)) = Some cfg \<and> nsLast s' = Some cfg"
proof -
  define s2 where "s2 = snd (applyOpenVPNRuntime E (rsOV (withCached E s1 rs)) s1)"
  have ov: "applyOpenVPNRuntime E (rsOV (withCached E s1 rs)) s1 = (Some err, s2)"
    using assms(5) by (simp add: s2_def prod_eq_iff)
  have restart: "RestartRuntime E new s = (RFailed Unavailable err, s2)"
    using assms(1-4) ov by (simp add: RestartRuntime_def ifCurrent_def grpcRestartRuntime_def runtimeWith_def applyAndSave_def finishRequest_def Let_def)
  have s1: "nsLast s1 = Some cfg" "coreStarted s1" "nsCache s1 = nsCache s"
    using launchCore_ok [OF assms(4)] by (simp_all add: users_kept)
  then have s2: "nsLast s2 = Some cfg" "coreStarted s2" "nsCache s2 = nsCache s" by (simp_all add: s2_def users_kept last_kept)
  have work: "startWork E old s2 = grpcApplyRuntimeOnly E old ''runtime already started'' s2"
    using assms(6) s2(2) unfolding startWork_def runtimeConfigMatchesCache_def matchesCache_def s2(3) by simp
  have kept: "nsLast (snd (grpcApplyRuntimeOnly E old t s2)) = nsLast s2" for t
    by (simp add: grpcApplyRuntimeOnly_def applyAndSave_last split: sum.split prod.split option.split)
  have "StartRuntime E old s2 = (RAccepted m, s')" using assms(7) restart by simp
  then have "finishRequest E old (startWork E old s2) = (RAccepted m, s')"
    by (simp add: StartRuntime_work ifCurrent_def split: option.splits)
  then have "nsLast s' = nsLast s2" using finish_last(1) [of E old "startWork E old s2"] kept by (simp add: work)
  with restart s2 show ?thesis by simp
qed

section \<open>Examples\<close>

text \<open>Two documents, an Xray that keeps the configurations it was started with, and an OpenVPN that takes no inbound.\<close>

definition otherText :: string where
  "otherText = ''{'' @ [CHR 0x22] @ ''log'' @ [CHR 0x22] @ '':{}}''"

definition tableJ :: jsonCodec where
  "tableJ = \<lparr>decodeJSON = \<lambda>t. if t = ''{}'' then Inr (JObj []) else if t = otherText then Inr (JObj [(''log'', JObj [])])
       else Inl ''invalid character'',
     encodeJSON = \<lambda>v. if v = JObj [] then ''{}'' else otherText, decodeInbounds = \<lambda>t. None, sprintJSON = \<lambda>v. ''?'',
     floatUint32 = \<lambda>t. 0, floatInt32 = \<lambda>t. 0\<rparr>"

definition exampleManagers :: "unit managers" where
  "exampleManagers = \<lparr>mOV = \<lambda>r w. (if (case r of None \<Rightarrow> True | Some rt \<Rightarrow> rtInbounds rt = []) then None else Some ''exit status 1'', w),
     mL2TP = \<lambda>r w. (None, w), mPPTP = \<lambda>r w. (None, w), mWG = \<lambda>r w. (None, w), mIKEv2 = \<lambda>r w. (None, w), mIKEv2Ready = \<lambda>w. (None, w),
     mAnyConnect = \<lambda>r w. (None, w), mHAProxy = None, mSSH = None, mExternal = None, mExtraVPN = None, mClearBlocks = \<lambda>w. (None, w),
     mManagedProxies = \<lambda>c w. (None, w), mSpeedRestore = \<lambda>c w. w, mSpeedSync = \<lambda>q w. w, mTProxy = \<lambda>c w. w, mSnapshotUsage = \<lambda>w. w\<rparr>"

definition exampleCore :: "config list coreCalls" where
  "exampleCore = \<lparr>coreStart = \<lambda>c x. (None, x @ [c], True), coreRestart = \<lambda>c x. (None, x @ [c], True), coreStop = \<lambda>x. (x, False),
     coreSettle = \<lambda>x. (x, True), coreLogs = \<lambda>x. [], topologyRun = \<lambda>c x. (None, x)\<rparr>"

definition exampleEnvelope :: envelope where
  "exampleEnvelope = \<lparr>enGeneratedAt = [], enTarget = [], enCallback = None, enInbounds = [JObj []], enL2TPInbounds = [], enL2TPGenerated = [],
     enPPTPInbounds = [], enPPTPGenerated = [], enWGInbounds = [], enWGGenerated = [], enIKEv2Inbounds = [], enIKEv2Generated = [],
     enAnyConnectInbounds = [], enAnyConnectGenerated = [], enHAProxy = None, enExtra = None\<rparr>"

definition exampleRuntimeEnv :: "(cachedConfigPayload, config list, unit) runtimeEnv" where
  "exampleRuntimeEnv = \<lparr>reUsers = \<lparr>ueCodec = exampleCodec, ueJson = tableJ,
       ueAPI = \<lparr>dialXray = \<lambda>x. None, alterInbound = \<lambda>tag op x. (None, x)\<rparr>, ueFsErr = None\<rparr>,
     reManagers = exampleManagers, reCore = exampleCore, reSettings = exampleSettings, rePeerIP = ''10.0.0.1'',
     reDecodeFirst = \<lambda>t. case decodeJSON tableJ t of Inr v \<Rightarrow> Some v | Inl _ \<Rightarrow> None,
     reDecodeRuntimes = \<lambda>t. Inr exampleEnvelope, reDiagnostic = \<lambda>t. Some [], reRemoveErr = None\<rparr>"

definition exampleNode :: "(cachedConfigPayload, config list, unit) nodeState" where
  "exampleNode = \<lparr>nsUsers = \<lparr>usCache = exampleCache, usXray = [], usStarted = True\<rparr>, nsLast = None, nsIssues = [], nsStopped = False,
     nsDiagnostic = [], nsStartupError = [], nsWorld = ()\<rparr>"

definition oldRequest :: runtimeRequest where
  "oldRequest = \<lparr>rqRevision = 4, rqConfigJson = ''{}'', rqRuntimeJson = []\<rparr>"

definition newRequest :: runtimeRequest where
  "newRequest = \<lparr>rqRevision = 5, rqConfigJson = otherText, rqRuntimeJson = ''{}''\<rparr>"

lemma text_literals [simp]: "trimSpace otherText = otherText" "trimSpace ''{}'' = ''{}''" "trimSpace ''10.0.0.1'' = ''10.0.0.1''" "otherText \<noteq> ''{}''" "otherText \<noteq> []" "trimSpace [] = []"
  by code_simp+

lemma example_fields [simp]:
  "reManagers exampleRuntimeEnv = exampleManagers" "reCore exampleRuntimeEnv = exampleCore" "rePeerIP exampleRuntimeEnv = ''10.0.0.1''"
  "ueFsErr (reUsers exampleRuntimeEnv) = None" "codec exampleRuntimeEnv = exampleCodec" "ueJson (reUsers exampleRuntimeEnv) = tableJ"
  "reRemoveErr exampleRuntimeEnv = None" "nsCache exampleNode = exampleCache" "coreStarted exampleNode"
  by (simp_all add: exampleRuntimeEnv_def exampleNode_def nsCache_def coreStarted_def)

lemma example_tproxy: "prepareTProxyConfig exampleRuntimeEnv cfg s = s"
  by (simp add: prepareTProxyConfig_def exampleManagers_def)

lemma example_launch: "launchCore exampleRuntimeEnv (coreRestart exampleCore) cfg s = (None, setCore (usXray (nsUsers s) @ [cfg], True) (s\<lparr>nsLast := Some cfg\<rparr>))"
  by (simp add: launchCore_def exampleCore_def setCore_def coreStarted_def Let_def)

lemma example_apply:
  "rsOV rs = Some emptyRuntime \<Longrightarrow> \<exists>t s'. applyAndSave exampleRuntimeEnv req m rs s = (RAccepted t, s')"
  by (simp add: applyAndSave_def Let_def applyOpenVPNRuntime_def exampleManagers_def withCached_def orElse_def emptyRuntime_def split_beta)

lemma example_config: "grpcConfig exampleRuntimeEnv oldRequest = NewConfig (decodeJSON tableJ) ''{}'' ''10.0.0.1'' exampleSettings"
  "\<exists>cfg. NewConfig (decodeJSON tableJ) ''{}'' ''10.0.0.1'' exampleSettings = Ok cfg"
  "\<exists>cfg. grpcConfig exampleRuntimeEnv newRequest = Ok cfg"
  by (simp_all add: grpcConfig_def oldRequest_def newRequest_def NewConfig_def tableJ_def exampleRuntimeEnv_def split: sum.split)

lemma example_current: "appliedRevision exampleCodec exampleCache = 3"
  "validateDesiredRevision exampleCodec (Some (rqRevision oldRequest)) exampleCache = None"
  "validateDesiredRevision exampleCodec (Some (rqRevision newRequest)) exampleCache = None"
  using example_read by (simp_all add: validateDesiredRevision_def appliedRevision_def loadConfigCache_def oldRequest_def newRequest_def examplePayload_def)

lemma example_restarted: "\<exists>m s'. RestartRuntime exampleRuntimeEnv oldRequest exampleNode = (RAccepted m, s')"
proof -
  obtain cfg where cfg: "grpcConfig exampleRuntimeEnv oldRequest = Ok cfg" using example_config by auto
  define rs where "rs = \<lparr>rsOV = Some emptyRuntime, rsL2TP = Some emptyRuntime, rsPPTP = Some emptyRuntime, rsWG = Some emptyRuntime,
        rsIKEv2 = Some emptyRuntime, rsAnyConnect = Some emptyRuntime, rsHAProxy = Some emptyHAProxy, rsExtra = Some emptyExtra\<rparr>"
  have vpn: "grpcVPNRuntime exampleRuntimeEnv oldRequest = Inr rs"
    by (simp add: grpcVPNRuntime_def oldRequest_def rs_def Let_def)
  have "\<exists>m s'. runtimeWith exampleRuntimeEnv (coreRestart exampleCore) oldRequest t exampleNode = (RAccepted m, s')" for t
    using example_apply [of rs] by (simp add: runtimeWith_def cfg vpn example_tproxy example_launch rs_def)
  then obtain m s' where "runtimeWith exampleRuntimeEnv (coreRestart exampleCore) oldRequest ''runtime restarted'' exampleNode = (RAccepted m, s')" by meson
  then show ?thesis
    using example_current by (simp add: RestartRuntime_def ifCurrent_def grpcRestartRuntime_def finishRequest_def Let_def)
qed

theorem accepted_request_is_cached_witness:
  "\<exists>m s'. RestartRuntime exampleRuntimeEnv oldRequest exampleNode = (RAccepted m, s') \<and> coreStarted s'
     \<and> (\<exists>p. loadConfigCache exampleCodec (nsCache s') = Some p \<and> Config p = ''{}'' \<and> AppliedRevision p = 4)"
proof -
  obtain m s' where r: "RestartRuntime exampleRuntimeEnv oldRequest exampleNode = (RAccepted m, s')" using example_restarted by auto
  then have "handleRuntime exampleRuntimeEnv Restart oldRequest exampleNode = (RAccepted m, s')" by simp
  from accepted_request_is_cached [OF this] r example_read example_current show ?thesis by (simp add: oldRequest_def)
qed

theorem refused_request_keeps_cache_witness:
  "\<exists>err. StartRuntime exampleRuntimeEnv (oldRequest\<lparr>rqRevision := 2\<rparr>) exampleNode = (RFailed FailedPrecondition err, exampleNode)"
  using refused_request_keeps_cache [of "oldRequest\<lparr>rqRevision := 2\<rparr>" exampleRuntimeEnv Start exampleNode] example_current
  by (simp add: oldRequest_def)

lemma example_stop: "\<exists>m s'. StopRuntime exampleRuntimeEnv True exampleNode = (RAccepted m, s')"
  by (simp add: StopRuntime_def Let_def applyOpenVPNRuntime_def exampleManagers_def emptyRuntime_def split_beta)

theorem stop_leaves_nothing_to_resume_witness:
  "\<exists>m s'. StopRuntime exampleRuntimeEnv True exampleNode = (RAccepted m, s') \<and> \<not> usStarted (nsUsers s')
     \<and> fst (startCachedConfig exampleRuntimeEnv False s') = Ok ()"
proof -
  obtain m s' where r: "StopRuntime exampleRuntimeEnv True exampleNode = (RAccepted m, s')" using example_stop by auto
  from stop_leaves_nothing_to_resume [OF this] r example_read(2) show ?thesis by (simp add: exampleCore_def)
qed



lemma example_load: "loadConfigCache exampleCodec exampleCache = Some examplePayload" "Config examplePayload = ''{}''"
  using example_read by (simp_all add: loadConfigCache_def examplePayload_def)

lemma example_matches: "runtimeConfigMatchesCache exampleRuntimeEnv (rqConfigJson oldRequest) exampleNode"
proof -
  have "canonicalConfigJSON tableJ (reDecodeFirst exampleRuntimeEnv) ''{}'' = Some ''{}''"
    by (simp add: canonicalConfigJSON_def exampleRuntimeEnv_def tableJ_def)
  then show ?thesis
    by (simp add: runtimeConfigMatchesCache_def matchesCache_def oldRequest_def example_load)
qed

lemma example_vpn: "\<exists>rs rt. grpcVPNRuntime exampleRuntimeEnv newRequest = Inr rs \<and> rsOV rs = Some rt \<and> rtInbounds rt \<noteq> []"
  by (simp add: grpcVPNRuntime_def newRequest_def Let_def exampleRuntimeEnv_def exampleEnvelope_def)

lemma example_only:
  assumes "nsCache s = exampleCache"
  shows "\<exists>m s'. grpcApplyRuntimeOnly exampleRuntimeEnv oldRequest t s = (RAccepted m, s')"
proof -
  have "configClientStates tableJ ''{}'' = Inr []"
    by (simp add: configClientStates_def unmarshalMap_def anySlice_def) (simp add: tableJ_def anySlice_def)
  then have "applyConfigCacheUserDiff (reUsers exampleRuntimeEnv) ''{}'' (nsUsers s) = (None, nsUsers s)"
    using assms example_read by (simp add: applyConfigCacheUserDiff_def loadCache_def nsCache_def loadConfigCache_def examplePayload_def
      configUserDiff_def applyConfigUserDiffResult_def applyConfigUserDiff_def onXray_def withMethods_def emptyDiff_def)
  then show ?thesis
    using example_apply by (simp add: grpcApplyRuntimeOnly_def oldRequest_def grpcVPNRuntime_def Let_def)
qed

theorem failed_restart_leaves_new_core_witness:
  "\<exists>cfg m s'. grpcConfig exampleRuntimeEnv newRequest = Ok cfg
     \<and> fst (RestartRuntime exampleRuntimeEnv newRequest exampleNode) = RFailed Unavailable ''exit status 1''
     \<and> StartRuntime exampleRuntimeEnv oldRequest (snd (RestartRuntime exampleRuntimeEnv newRequest exampleNode)) = (RAccepted m, s')
     \<and> nsLast s' = Some cfg"
proof -
  obtain cfg where cfg: "grpcConfig exampleRuntimeEnv newRequest = Ok cfg" using example_config by auto
  obtain rs rt where vpn: "grpcVPNRuntime exampleRuntimeEnv newRequest = Inr rs" "rsOV rs = Some rt" "rtInbounds rt \<noteq> []"
    using example_vpn by auto
  define s1 where "s1 = setCore ([cfg], True) (exampleNode\<lparr>nsLast := Some cfg\<rparr>)"
  have launch: "launchCore exampleRuntimeEnv (coreRestart exampleCore) cfg exampleNode = (None, s1)"
    by (simp add: example_launch s1_def exampleNode_def)
  have ov: "fst (applyOpenVPNRuntime exampleRuntimeEnv (rsOV (withCached exampleRuntimeEnv s1 rs)) s1) = Some ''exit status 1''"
    using vpn by (simp add: applyOpenVPNRuntime_def withCached_def orElse_def Let_def exampleManagers_def)
  define s2 where "s2 = snd (RestartRuntime exampleRuntimeEnv newRequest exampleNode)"
  have "s2 = snd (applyOpenVPNRuntime exampleRuntimeEnv (rsOV (withCached exampleRuntimeEnv s1 rs)) s1)"
    using example_current cfg vpn launch ov
    by (auto simp: s2_def RestartRuntime_def ifCurrent_def grpcRestartRuntime_def runtimeWith_def example_tproxy applyAndSave_def
        finishRequest_def Let_def split: prod.split option.split)
  then have s2: "nsCache s2 = exampleCache" "coreStarted s2" by (simp_all add: users_kept s1_def setCore_def coreStarted_def nsCache_def exampleNode_def)
  have "runtimeConfigMatchesCache exampleRuntimeEnv (rqConfigJson oldRequest) s2"
    using example_matches unfolding runtimeConfigMatchesCache_def matchesCache_def s2(1) example_fields(8) .
  then have "\<exists>m s'. startWork exampleRuntimeEnv oldRequest s2 = (RAccepted m, s')"
    using example_only [OF s2(1)] s2(2) by (simp add: startWork_def)
  then obtain m s' where start: "StartRuntime exampleRuntimeEnv oldRequest s2 = (RAccepted m, s')"
    using example_current s2(1) by (fastforce simp: StartRuntime_work ifCurrent_def finishRequest_def Let_def)
  show ?thesis
    using failed_restart_leaves_new_core [of exampleRuntimeEnv newRequest exampleNode cfg rs s1 "''exit status 1''" oldRequest m s']
      example_current cfg vpn(1) launch ov example_matches start by (simp add: example_tproxy s2_def)
qed

end
