(* ===== verification/Text_Util.thy ===== *)
theory Text_Util
  imports Encoding
begin

text \<open>
  Text helpers several components share: runes and \<open>safeName\<close>, \<open>line\<close> and \<open>noninteractivePackageArgs\<close> of
  \<open>internal/node/ov.go\<close>, with the lemmas on splitting, joining and trimming that the file formats rest on.
\<close>

section \<open>Runes\<close>

text \<open>
  The width of the first rune of a text, as \<open>range\<close> over a string takes it: a valid UTF-8 sequence is
  one rune, any other byte is one by itself.
\<close>

definition contByte :: "nat \<Rightarrow> nat \<Rightarrow> char \<Rightarrow> bool" where
  "contByte lo hi c \<longleftrightarrow> lo \<le> (of_char c :: nat) \<and> (of_char c :: nat) \<le> hi"

fun runeWidth :: "string \<Rightarrow> nat" where
  "runeWidth (a # b # c # d # s) =
     (let n = of_char a :: nat in
      if 0xC2 \<le> n \<and> n \<le> 0xDF \<and> contByte 0x80 0xBF b then 2
      else if 0xE0 \<le> n \<and> n \<le> 0xEF \<and> contByte (if n = 0xE0 then 0xA0 else 0x80) (if n = 0xED then 0x9F else 0xBF) b
        \<and> contByte 0x80 0xBF c then 3
      else if 0xF0 \<le> n \<and> n \<le> 0xF4 \<and> contByte (if n = 0xF0 then 0x90 else 0x80) (if n = 0xF4 then 0x8F else 0xBF) b
        \<and> contByte 0x80 0xBF c \<and> contByte 0x80 0xBF d then 4
      else 1)"
| "runeWidth [a, b, c] =
     (let n = of_char a :: nat in
      if 0xC2 \<le> n \<and> n \<le> 0xDF \<and> contByte 0x80 0xBF b then 2
      else if 0xE0 \<le> n \<and> n \<le> 0xEF \<and> contByte (if n = 0xE0 then 0xA0 else 0x80) (if n = 0xED then 0x9F else 0xBF) b
        \<and> contByte 0x80 0xBF c then 3
      else 1)"
| "runeWidth [a, b] = (if 0xC2 \<le> (of_char a :: nat) \<and> (of_char a :: nat) \<le> 0xDF \<and> contByte 0x80 0xBF b then 2 else 1)"
| "runeWidth s = 1"

lemma runeWidth_pos: "0 < runeWidth s"
  by (induction s rule: runeWidth.induct) (simp_all add: Let_def)

text \<open>The loop that replaces every rune that \<open>keep\<close> does not accept; only single bytes are accepted.\<close>

function replaceRunes :: "(char \<Rightarrow> bool) \<Rightarrow> char \<Rightarrow> string \<Rightarrow> string" where
  "replaceRunes keep r [] = []"
| "replaceRunes keep r (c # s) = (if keep c then c # replaceRunes keep r s else r # replaceRunes keep r (drop (runeWidth (c # s) - 1) s))"
  by pat_completeness auto
termination
  by (relation "measure (\<lambda>(_, _, s). length s)") auto

definition alphaNum :: "char \<Rightarrow> bool" where
  "alphaNum c = (let n = of_char c :: nat in 97 \<le> n \<and> n \<le> 122 \<or> 65 \<le> n \<and> n \<le> 90 \<or> 48 \<le> n \<and> n \<le> 57)"

definition safeName :: "string \<Rightarrow> string" where
  "safeName value =
     (let v = trimSpace value in
      if v = [] then ''openvpn''
      else let out = trimChars {CHR ''-''} (replaceRunes (\<lambda>c. alphaNum c \<or> c = CHR ''-'' \<or> c = CHR ''_'') CHR ''-'' v)
           in if out = [] then ''openvpn'' else out)"

definition textLine :: "string \<Rightarrow> string" where
  "textLine value = value @ [CHR 0x0A]"

definition noninteractivePackageArgs :: "string \<Rightarrow> string list \<Rightarrow> string list" where
  "noninteractivePackageArgs name args =
     (case find (\<lambda>arg. (name = ''apt-get'' \<and> arg = ''install'') \<or> (name = ''dpkg'' \<and> arg = ''--configure'')) args of
        None \<Rightarrow> args
      | Some arg \<Rightarrow> if arg = ''install'' then [''-o'', ''Dpkg::Options::=--force-confold''] @ args else [''--force-confold''] @ args)"

section \<open>Splitting and joining\<close>

lemma cut_append:
  assumes "sep \<noteq> []" and "hd sep \<notin> set s"
  shows "cut (s @ sep @ t) sep = (s, t, True)"
  using assms
proof (induction s)
  case Nil
  then show ?case by (cases sep) (simp_all add: hasPrefix_def)
next
  case (Cons c s)
  then have "\<not> hasPrefix (c # s @ sep @ t) sep" by (cases sep) (auto simp: hasPrefix_def)
  with Cons show ?case by simp
qed

lemma cut_absent: "sep \<noteq> [] \<Longrightarrow> hd sep \<notin> set s \<Longrightarrow> cut s sep = (s, [], False)"
proof (induction s)
  case (Cons c s)
  then have "\<not> hasPrefix (c # s) sep" by (cases sep) (auto simp: hasPrefix_def)
  with Cons show ?case by simp
qed (auto simp: hasPrefix_def)

lemma splitOn_append: "sep \<noteq> [] \<Longrightarrow> hd sep \<notin> set s \<Longrightarrow> splitOn (s @ sep @ t) sep = s # splitOn t sep"
  by (subst splitOn.simps) (simp add: cut_append)

lemma splitOn_absent: "sep \<noteq> [] \<Longrightarrow> hd sep \<notin> set s \<Longrightarrow> splitOn s sep = [s]"
  by (subst splitOn.simps) (simp add: cut_absent)

lemma splitOn_joinWith:
  "fs \<noteq> [] \<Longrightarrow> (\<And>f. f \<in> set fs \<Longrightarrow> c \<notin> set f) \<Longrightarrow> splitOn (joinWith [c] fs) [c] = fs"
proof (induction fs)
  case (Cons f fs)
  then show ?case using splitOn_append [of "[c]" f] splitOn_absent [of "[c]" f] by (cases fs) simp_all
qed simp

lemma splitOn_fields: "f \<in> set (splitOn s [c]) \<Longrightarrow> c \<notin> set f"
proof (induction s "[c]" rule: splitOn.induct)
  case (1 s)
  obtain b a found where k: "cut s [c] = (b, a, found)" by (cases "cut s [c]")
  have "c \<notin> set b" using k
  proof (induction s arbitrary: b)
    case (Cons x s)
    then show ?case by (auto simp: hasPrefix_def split: if_splits prod.splits)
  qed (auto split: if_splits)
  then show ?case using 1 k cut_not_found [of s "[c]" b a]
    by (cases found) (auto simp: splitOn.simps [of s "[c]"])
qed

lemma joinWith_set: "x \<in> set (joinWith sep fs) \<Longrightarrow> x \<in> set sep \<or> (\<exists>f \<in> set fs. x \<in> set f)"
  by (induction sep fs rule: joinWith.induct) auto

lemma set_splitOn: "f \<in> set (splitOn s sep) \<Longrightarrow> set f \<subseteq> set s"
proof (induction s sep rule: splitOn.induct)
  case (1 s sep)
  obtain b a found where k: "cut s sep = (b, a, found)" by (cases "cut s sep")
  have "set b \<subseteq> set s \<and> set a \<subseteq> set s" if found using k that cut_found [of s sep b a] by auto
  with 1 k show ?case by (fastforce simp: splitOn.simps [of s sep] split: if_splits)
qed

section \<open>Trimming\<close>

text \<open>Printable ASCII other than the blank.\<close>

definition graphic :: "char \<Rightarrow> bool" where
  "graphic c \<longleftrightarrow> 33 \<le> (of_char c :: nat) \<and> (of_char c :: nat) \<le> 126"

lemma space_runes_not_graphic: "p \<in> set space_runes \<Longrightarrow> p \<noteq> [] \<and> \<not> graphic (hd p) \<and> \<not> graphic (last p)"
proof -
  have "list_all (\<lambda>p. p \<noteq> [] \<and> \<not> graphic (hd p) \<and> \<not> graphic (last p)) space_runes"
    by (simp add: space_runes_def graphic_def)
  then show "p \<in> set space_runes \<Longrightarrow> p \<noteq> [] \<and> \<not> graphic (hd p) \<and> \<not> graphic (last p)" by (simp add: list_all_iff)
qed

lemma hasPrefix_hd: "p \<noteq> [] \<Longrightarrow> hasPrefix (c # t) p \<Longrightarrow> hd p = c"
  by (cases p) (auto simp: hasPrefix_def)

lemma no_space_rune:
  assumes "graphic c"
  shows "stripRunes space_runes (c # t) = c # t" and "stripRunes (map rev space_runes) (c # t) = c # t"
proof -
  have "find (\<lambda>p. p \<noteq> [] \<and> hasPrefix (c # t) p) space_runes = None"
    using assms space_runes_not_graphic by (fastforce simp: find_None_iff dest: hasPrefix_hd)
  then show "stripRunes space_runes (c # t) = c # t" by (simp add: stripRunes.simps [of _ "c # t"])
  have "find (\<lambda>p. p \<noteq> [] \<and> hasPrefix (c # t) p) (map rev space_runes) = None"
    unfolding find_None_iff
  proof
    assume "\<exists>p. p \<in> set (map rev space_runes) \<and> p \<noteq> [] \<and> hasPrefix (c # t) p"
    then obtain q where "q \<in> set space_runes" "hasPrefix (c # t) (rev q)" "q \<noteq> []" by auto
    with hasPrefix_hd [of "rev q" c t] space_runes_not_graphic assms show False by (auto simp: hd_rev)
  qed
  then show "stripRunes (map rev space_runes) (c # t) = c # t" by (simp add: stripRunes.simps [of _ "c # t"])
qed

lemma trimSpace_graphic:
  assumes "s \<noteq> []" and "graphic (hd s)" and "graphic (last s)"
  shows "trimSpace s = s"
proof -
  have "rev s = last s # rev (butlast s)" using append_butlast_last_id [OF assms(1)] by (metis rev.simps(2) rev_append rev_rev_ident rev_swap append_Cons append_Nil rev_singleton_conv)
  then have "trimRightSpace s = s" using no_space_rune(2) [OF assms(3)] by (metis trimRightSpace_def rev_rev_ident)
  moreover have "trimLeftSpace s = s" using no_space_rune(1) [OF assms(2)] assms(1) by (metis trimLeftSpace_def list.collapse)
  ultimately show ?thesis by (simp add: trimSpace_def)
qed

end
