(* ===== verification/Xray_Stats.thy ===== *)
theory Xray_Stats
  imports Usage_Buffer Text_Util "HOL-Library.Product_Lexorder" "HOL-Library.Multiset"
begin

text \<open>
  The traffic counters of Xray: \<open>internal/xray/stats.go\<close>. The statistics service of Xray is the
  parameter \<open>statsClient\<close>, over the state \<open>'x\<close> of the process. Results: the rows that are computed
  from the counters are sorted, one per tag or per user and inbound, and carry exactly the sum of
  the counters that belong to them, or the largest 64-bit integer where it is larger; the inbound
  tag in the address of a user is read back as it was written.
\<close>

section \<open>The service\<close>

text \<open>A counter of a response; \<open>None\<close> is a nil pointer.\<close>

type_synonym counter = "(string \<times> int) option"

datatype ipLookup = Ips "(string, int) gomap" | NoSuchUser | LookupFailed string

text \<open>\<open>scDial\<close> is the error of \<open>dialAPI\<close>; a query may reset the counters.\<close>

record 'x statsClient =
  scDial :: "'x \<Rightarrow> string option"
  scQueryStats :: "string \<Rightarrow> bool \<Rightarrow> 'x \<Rightarrow> (string + counter list) \<times> 'x"
  scOnlineUsers :: "'x \<Rightarrow> string + string list"
  scOnlineIpList :: "string \<Rightarrow> 'x \<Rightarrow> ipLookup"

definition queryStats :: "'x statsClient \<Rightarrow> string \<Rightarrow> bool \<Rightarrow> 'x \<Rightarrow> (string + counter list) \<times> 'x" where
  "queryStats C pattern reset x = (case scDial C x of
       Some err \<Rightarrow> (Inl (''connect to Xray stats API: '' @ err), x)
     | None \<Rightarrow> (case scQueryStats C pattern reset x of
         (Inl err, x') \<Rightarrow> (Inl (''query Xray stats: '' @ err), x')
       | (Inr stats, x') \<Rightarrow> (Inr stats, x')))"

section \<open>Names of counters\<close>

definition parseLinkStatName :: "string \<Rightarrow> string \<Rightarrow> (string \<times> string) option" where
  "parseLinkStatName kind name =
     (let parts = splitOn name ''>>>'' in
      if length parts < 4 \<or> parts ! 0 \<noteq> kind \<or> parts ! 2 \<noteq> ''traffic'' then None
      else let tag = trimSpace (parts ! 1); link = toLower (trimSpace (parts ! 3)) in
        if tag = [] \<or> (link \<noteq> ''uplink'' \<and> link \<noteq> ''downlink'') then None else Some (tag, link))"

definition parseOutboundStatName :: "string \<Rightarrow> (string \<times> string) option" where
  "parseOutboundStatName = parseLinkStatName ''outbound''"

definition parseInboundStatName :: "string \<Rightarrow> (string \<times> string) option" where
  "parseInboundStatName = parseLinkStatName ''inbound''"

definition inboundRuntimeEmailMarker :: string where
  "inboundRuntimeEmailMarker = ''rb1_''"

text \<open>The user and the inbound tag, which is empty when the address names none.\<close>

definition parseUserEmailIdentity :: "string \<Rightarrow> (string \<times> string) option" where
  "parseUserEmailIdentity email0 =
     (let email = trimSpace email0 in
      if email = [] then None
      else case cut email ''.'' of (uid0, rest, hasRest) \<Rightarrow>
        let uid = trimSpace uid0 in
        if uid = [] then None
        else if \<not> hasRest then Some (uid, [])
        else let marker = fst (cut rest ''.'') in
          if \<not> hasPrefix marker inboundRuntimeEmailMarker then Some (uid, [])
          else case b64Decode (trimPrefix marker inboundRuntimeEmailMarker) of
              None \<Rightarrow> Some (uid, [])
            | Some decoded \<Rightarrow> if trimSpace decoded = [] then Some (uid, []) else Some (uid, decoded))"

definition parseUserEmailUID :: "string \<Rightarrow> string option" where
  "parseUserEmailUID email = map_option fst (parseUserEmailIdentity email)"

definition parseUserStatIdentity :: "string \<Rightarrow> (string \<times> string) option" where
  "parseUserStatIdentity name =
     (let parts = splitOn name ''>>>'' in
      if length parts < 4 \<or> parts ! 0 \<noteq> ''user'' \<or> parts ! 2 \<noteq> ''traffic'' then None
      else parseUserEmailIdentity (parts ! 1))"

definition parseUserStatName :: "string \<Rightarrow> string option" where
  "parseUserStatName name = map_option fst (parseUserStatIdentity name)"

definition parseUserStatCounter :: "string \<Rightarrow> ((string \<times> string) \<times> string) option" where
  "parseUserStatCounter name =
     (let parts = splitOn name ''>>>'' in
      if length parts < 4 then None
      else let link = toLower (trimSpace (parts ! 3)) in
        case parseUserStatIdentity name of None \<Rightarrow> None
        | Some identity \<Rightarrow> if link \<noteq> ''uplink'' \<and> link \<noteq> ''downlink'' then None else Some (identity, link))"

text \<open>The address and the user.\<close>

definition parseOnlineUserName :: "string \<Rightarrow> (string \<times> string) option" where
  "parseOnlineUserName name0 =
     (let name1 = trimSpace name0 in
      if name1 = [] then None
      else let name = (if hasPrefix name1 ''user>>>'' \<and> hasSuffix name1 ''>>>online''
                       then trimSuffix (trimPrefix name1 ''user>>>'') ''>>>online'' else name1);
               email = trimSpace name
           in map_option (Pair email) (parseUserEmailUID email))"

definition onlineUserStatsName :: "string \<Rightarrow> string" where
  "onlineUserStatsName email = ''user>>>'' @ trimSpace email @ ''>>>online''"

section \<open>Rows\<close>

text \<open>On \<open>int64\<close> arguments that are not negative no operation here overflows.\<close>

definition addStatCounter :: "int \<Rightarrow> int \<Rightarrow> int" where
  "addStatCounter current delta = (if delta \<le> 0 then current
     else if current > max_int64 - delta then max_int64 else current + delta)"

definition addLink :: "string \<Rightarrow> int \<Rightarrow> stat \<Rightarrow> stat" where
  "addLink link v item = (if link = ''uplink'' then item\<lparr>Up := addStatCounter (Up item) v\<rparr>
     else if link = ''downlink'' then item\<lparr>Down := addStatCounter (Down item) v\<rparr> else item)"

text \<open>The loop of \<open>QueryOutboundStats\<close> and of \<open>inboundStatsFromCounters\<close>.\<close>

fun linkTotals :: "(string \<Rightarrow> (string \<times> string) option) \<Rightarrow> (string \<Rightarrow> bool) \<Rightarrow> counter list \<Rightarrow> statMap \<Rightarrow> statMap" where
  "linkTotals parse skip [] byTag = byTag"
| "linkTotals parse skip (None # stats) byTag = linkTotals parse skip stats byTag"
| "linkTotals parse skip (Some (name, v) # stats) byTag =
     (if v \<le> 0 then linkTotals parse skip stats byTag
      else case parse name of None \<Rightarrow> linkTotals parse skip stats byTag
        | Some (tag, link) \<Rightarrow>
            if skip tag then linkTotals parse skip stats byTag
            else linkTotals parse skip stats
              (AList.update tag (addLink link v (mget \<lparr>Tag = tag, Up = 0, Down = 0\<rparr> byTag tag)) byTag))"

definition linkRows :: "statMap \<Rightarrow> stat list" where
  "linkRows byTag = filter (\<lambda>item. Up item \<noteq> 0 \<or> Down item \<noteq> 0) (map (mget zeroStat byTag) (sort (map fst byTag)))"

definition apiOutbound :: "string \<Rightarrow> bool" where
  "apiOutbound tag = equalFold tag ''api''"

definition apiInboundTag :: "string \<Rightarrow> bool" where
  "apiInboundTag tag = (equalFold tag ''api'' \<or> equalFold tag ''API_INBOUND'')"

definition outboundStatsFromCounters :: "counter list \<Rightarrow> stat list" where
  "outboundStatsFromCounters stats = linkRows (linkTotals parseOutboundStatName apiOutbound stats [])"

definition inboundStatsFromCounters :: "counter list \<Rightarrow> stat list" where
  "inboundStatsFromCounters stats = linkRows (linkTotals parseInboundStatName apiInboundTag stats [])"

definition onStats :: "(counter list \<Rightarrow> 'r) \<Rightarrow> (string + counter list) \<times> 'x \<Rightarrow> (string + 'r) \<times> 'x" where
  "onStats f r = (case r of (Inl err, x) \<Rightarrow> (Inl err, x) | (Inr stats, x) \<Rightarrow> (Inr (f stats), x))"

definition QueryOutboundStats :: "'x statsClient \<Rightarrow> bool \<Rightarrow> 'x \<Rightarrow> (string + stat list) \<times> 'x" where
  "QueryOutboundStats C reset x = onStats outboundStatsFromCounters (queryStats C ''outbound>>>'' reset x)"

definition QueryInboundStats :: "'x statsClient \<Rightarrow> bool \<Rightarrow> 'x \<Rightarrow> (string + stat list) \<times> 'x" where
  "QueryInboundStats C reset x = onStats inboundStatsFromCounters (queryStats C ''inbound>>>'' reset x)"

definition addUserLink :: "string \<Rightarrow> int \<Rightarrow> userStat \<Rightarrow> userStat" where
  "addUserLink link v item0 =
     (let item = item0\<lparr>Value := addStatCounter (Value item0) v\<rparr> in
      if link = ''uplink'' then item\<lparr>UserUp := addStatCounter (UserUp item) v\<rparr>
      else if link = ''downlink'' then item\<lparr>UserDown := addStatCounter (UserDown item) v\<rparr> else item)"

definition newUserStat :: "string \<times> string \<Rightarrow> userStat" where
  "newUserStat key = \<lparr>UID = fst key, Value = 0, UserUp = 0, UserDown = 0, InboundTag = snd key\<rparr>"

fun userTotals :: "counter list \<Rightarrow> (string \<times> string, userStat) gomap \<Rightarrow> (string \<times> string, userStat) gomap" where
  "userTotals [] byUser = byUser"
| "userTotals (None # stats) byUser = userTotals stats byUser"
| "userTotals (Some (name, v) # stats) byUser =
     (if v = 0 then userTotals stats byUser
      else case parseUserStatCounter name of None \<Rightarrow> userTotals stats byUser
        | Some (key, link) \<Rightarrow> userTotals stats (AList.update key (addUserLink link v (mget (newUserStat key) byUser key)) byUser))"

text \<open>The keys are sorted by user, then by tag.\<close>

definition userStatsFromCounters :: "counter list \<Rightarrow> userStat list" where
  "userStatsFromCounters stats =
     (let byUser = userTotals stats [] in
      filter (\<lambda>item. Value item \<noteq> 0) (map (\<lambda>key. mget (newUserStat key) byUser key) (sort (map fst byUser))))"

definition QueryUserStats :: "'x statsClient \<Rightarrow> bool \<Rightarrow> 'x \<Rightarrow> (string + userStat list) \<times> 'x" where
  "QueryUserStats C reset x = onStats userStatsFromCounters (queryStats C ''user>>>'' reset x)"

section \<open>Online users\<close>

definition onlineUserUIDs :: "string list \<Rightarrow> string list" where
  "onlineUserUIDs names = sort (remdups (List.map_filter (\<lambda>name. map_option snd (parseOnlineUserName name)) names))"

record onlineIPTask =
  statsName :: string
  taskEmail :: string
  taskUID :: string

record OnlineUserIP =
  onUID :: string
  onEmail :: string
  onIPs :: "(string \<times> int) list"

definition maxOnlineIPLookups :: nat where
  "maxOnlineIPLookups = 512"

definition onlineIPTask :: "string set option \<Rightarrow> string \<Rightarrow> onlineIPTask option" where
  "onlineIPTask scoped name0 =
     (let name = trimSpace name0 in
      case parseOnlineUserName name of None \<Rightarrow> None
      | Some (email, uid) \<Rightarrow>
          if (case scoped of None \<Rightarrow> False | Some uids \<Rightarrow> uid \<notin> uids) then None
          else Some \<lparr>statsName = if contains name ''>>>'' then name else onlineUserStatsName email, taskEmail = email, taskUID = uid\<rparr>)"

definition onlineIPTasks :: "string set option \<Rightarrow> string list \<Rightarrow> onlineIPTask list" where
  "onlineIPTasks scoped names =
     (let tasks = List.map_filter (onlineIPTask scoped) names in
      if scoped = None \<and> length tasks > maxOnlineIPLookups then take maxOnlineIPLookups tasks else tasks)"

text \<open>One lookup: the error that is reported, or the user with the addresses.\<close>

definition lookupTask :: "(string \<Rightarrow> ipLookup) \<Rightarrow> onlineIPTask \<Rightarrow> (string + OnlineUserIP) option" where
  "lookupTask look task = (case look (statsName task) of
       NoSuchUser \<Rightarrow> None
     | LookupFailed err \<Rightarrow> Some (Inl (''query Xray online IPs for '' @ taskEmail task @ '': '' @ err))
     | Ips ips \<Rightarrow> Some (Inr \<lparr>onUID = taskUID task, onEmail = taskEmail task,
         onIPs = sort_key fst (filter (\<lambda>p. fst p \<noteq> []) (map (\<lambda>(ip, seen). (trimSpace ip, seen)) ips))\<rparr>))"

text \<open>
  Eight workers share the tasks; \<open>order\<close> is the order in which their lookups end. The first error
  that comes in is reported. Equal users keep the order they came in.
\<close>

definition queryOnlineUserIPs :: "(onlineIPTask list \<Rightarrow> onlineIPTask list) \<Rightarrow> (string \<Rightarrow> ipLookup) \<Rightarrow> string list \<Rightarrow> string set option
    \<Rightarrow> OnlineUserIP list \<times> string option" where
  "queryOnlineUserIPs order look names scoped =
     (let tasks = onlineIPTasks scoped names in
      if tasks = [] then ([], None)
      else let results = List.map_filter (lookupTask look) (order tasks);
               found = List.map_filter (\<lambda>r. case r of Inl _ \<Rightarrow> None | Inr u \<Rightarrow> Some u) results;
               errors = List.map_filter (\<lambda>r. case r of Inl e \<Rightarrow> Some e | Inr _ \<Rightarrow> None) results
           in (sort_key (\<lambda>u. (onUID u, onEmail u)) found, case errors of [] \<Rightarrow> None | e # _ \<Rightarrow> Some e))"

definition connectOnline :: "'x statsClient \<Rightarrow> 'x \<Rightarrow> string + string list" where
  "connectOnline C x = (case scDial C x of
       Some err \<Rightarrow> Inl (''connect to Xray stats API: '' @ err)
     | None \<Rightarrow> (case scOnlineUsers C x of Inl err \<Rightarrow> Inl (''query Xray online users: '' @ err) | Inr names \<Rightarrow> Inr names))"

definition QueryOnlineUserUIDs :: "'x statsClient \<Rightarrow> 'x \<Rightarrow> string + string list" where
  "QueryOnlineUserUIDs C x = map_sum id onlineUserUIDs (connectOnline C x)"

definition QueryOnlineUserSnapshot :: "(onlineIPTask list \<Rightarrow> onlineIPTask list) \<Rightarrow> 'x statsClient \<Rightarrow> string set option \<Rightarrow> 'x
    \<Rightarrow> (string list \<times> OnlineUserIP list) \<times> string option" where
  "QueryOnlineUserSnapshot order C scoped x = (case connectOnline C x of
       Inl err \<Rightarrow> (([], []), Some err)
     | Inr names \<Rightarrow> (case queryOnlineUserIPs order (\<lambda>n. scOnlineIpList C n x) names scoped of
         (found, err) \<Rightarrow> ((onlineUserUIDs names, found), err)))"

definition QueryOnlineUserIPs :: "(onlineIPTask list \<Rightarrow> onlineIPTask list) \<Rightarrow> 'x statsClient \<Rightarrow> 'x \<Rightarrow> OnlineUserIP list \<times> string option" where
  "QueryOnlineUserIPs order C x = (case connectOnline C x of
       Inl err \<Rightarrow> ([], Some err)
     | Inr names \<Rightarrow> queryOnlineUserIPs order (\<lambda>n. scOnlineIpList C n x) names None)"

section \<open>Tables of totals\<close>

text \<open>
  Both loops fill a map: an item that counts adds its amount to the row of its key, which starts
  from a new row. The row a key ends with depends on the items of that key only.
\<close>

definition accumulate :: "('c \<Rightarrow> ('k \<times> 'd) option) \<Rightarrow> ('k \<Rightarrow> 'v) \<Rightarrow> ('d \<Rightarrow> 'v \<Rightarrow> 'v) \<Rightarrow> 'c list \<Rightarrow> ('k, 'v) gomap \<Rightarrow> ('k, 'v) gomap" where
  "accumulate f fresh plus1 = fold (\<lambda>c m. case f c of None \<Rightarrow> m | Some (k, d) \<Rightarrow> AList.update k (plus1 d (mget (fresh k) m k)) m)"

definition itemsOf :: "('c \<Rightarrow> ('k \<times> 'd) option) \<Rightarrow> 'c list \<Rightarrow> 'k \<Rightarrow> 'd list" where
  "itemsOf f cs k = map snd (filter (\<lambda>p. fst p = k) (List.map_filter f cs))"

definition keysOf :: "('c \<Rightarrow> ('k \<times> 'd) option) \<Rightarrow> 'c list \<Rightarrow> 'k set" where
  "keysOf f cs = fst ` set (List.map_filter f cs)"

lemma accumulate_Cons [simp]:
  "accumulate f fresh plus1 (c # cs) m = accumulate f fresh plus1 cs (case f c of None \<Rightarrow> m | Some (k, d) \<Rightarrow> AList.update k (plus1 d (mget (fresh k) m k)) m)"
  "accumulate f fresh plus1 [] m = m"
  by (simp_all add: accumulate_def)

lemma itemsOf_Cons [simp]:
  "itemsOf f [] k = []"
  "itemsOf f (c # cs) k = (case f c of None \<Rightarrow> itemsOf f cs k | Some (k', d) \<Rightarrow> if k' = k then d # itemsOf f cs k else itemsOf f cs k)"
  by (simp_all add: itemsOf_def List.map_filter_simps split: option.split)

lemma keysOf_Cons [simp]:
  "keysOf f [] = {}" "keysOf f (c # cs) = (case f c of None \<Rightarrow> keysOf f cs | Some (k, d) \<Rightarrow> insert k (keysOf f cs))"
  by (simp_all add: keysOf_def List.map_filter_simps split: option.split)

lemma finite_keysOf [simp]: "finite (keysOf f cs)"
  by (simp add: keysOf_def)

lemma accumulate_get: "mget (fresh k) (accumulate f fresh plus1 cs m) k = fold plus1 (itemsOf f cs k) (mget (fresh k) m k)"
  by (induction cs arbitrary: m) (auto split: option.split)

lemma accumulate_keys: "fst ` set (accumulate f fresh plus1 cs m) = fst ` set m \<union> keysOf f cs"
  by (induction cs arbitrary: m) (auto simp: dom_update split: option.split)

lemma accumulate_wf: "gomap_wf m \<Longrightarrow> gomap_wf (accumulate f fresh plus1 cs m)"
  by (induction cs arbitrary: m) (auto split: option.split)

lemma sorted_keys: "gomap_wf m \<Longrightarrow> sort (map fst m) = sorted_list_of_set (fst ` set m)"
  using sorted_list_of_set_sort_remdups [of "map fst m"] by (simp add: distinct_remdups_id)

lemma accumulated_rows:
  "map (\<lambda>k. mget (fresh k) (accumulate f fresh plus1 cs []) k) (sort (map fst (accumulate f fresh plus1 cs [])))
     = map (\<lambda>k. fold plus1 (itemsOf f cs k) (fresh k)) (sorted_list_of_set (keysOf f cs))"
  by (simp add: sorted_keys accumulate_wf accumulate_keys accumulate_get)

section \<open>Rows against the counters\<close>

text \<open>A counter that counts: its tag, its direction and its value.\<close>

definition linkItem :: "(string \<Rightarrow> (string \<times> string) option) \<Rightarrow> (string \<Rightarrow> bool) \<Rightarrow> counter \<Rightarrow> (string \<times> string \<times> int) option" where
  "linkItem parse skip c = (case c of None \<Rightarrow> None
     | Some (name, v) \<Rightarrow> if v \<le> 0 then None
         else case parse name of None \<Rightarrow> None | Some (tag, link) \<Rightarrow> if skip tag then None else Some (tag, link, v))"

definition userItem :: "counter \<Rightarrow> ((string \<times> string) \<times> string \<times> int) option" where
  "userItem c = (case c of None \<Rightarrow> None
     | Some (name, v) \<Rightarrow> if v = 0 then None
         else case parseUserStatCounter name of None \<Rightarrow> None | Some (key, link) \<Rightarrow> Some (key, link, v))"

text \<open>What a list of directed amounts comes to, in one direction and in all; negative amounts do not count.\<close>

definition linkTotal :: "string \<Rightarrow> (string \<times> int) list \<Rightarrow> int" where
  "linkTotal link ds = sum_list (map (\<lambda>(l, v). if l = link then max 0 v else 0) ds)"

definition grandTotal :: "(string \<times> int) list \<Rightarrow> int" where
  "grandTotal ds = sum_list (map (\<lambda>(l, v). max 0 v) ds)"

lemma total_simps [simp]:
  "linkTotal link [] = 0" "linkTotal link ((l, v) # ds) = (if l = link then max 0 v else 0) + linkTotal link ds"
  "grandTotal [] = 0" "grandTotal ((l, v) # ds) = max 0 v + grandTotal ds"
  by (simp_all add: linkTotal_def grandTotal_def)

lemma total_nonneg [simp]: "0 \<le> linkTotal link ds" "0 \<le> grandTotal ds"
  by (induction ds) auto

lemma addStatCounter_satAdd [simp]: "c \<le> max_int64 \<Longrightarrow> addStatCounter c d = satAdd c (max 0 d)"
  by (auto simp: addStatCounter_def satAdd_def min_def)

lemma fold_addLink:
  "u \<le> max_int64 \<Longrightarrow> d \<le> max_int64 \<Longrightarrow> fold (\<lambda>(link, v). addLink link v) ds \<lparr>Tag = t, Up = u, Down = d\<rparr>
     = \<lparr>Tag = t, Up = satAdd u (linkTotal ''uplink'' ds), Down = satAdd d (linkTotal ''downlink'' ds)\<rparr>"
  by (induction ds arbitrary: u d) (auto simp: addLink_def satAdd_satAdd)

lemma fold_addUserLink:
  "v \<le> max_int64 \<Longrightarrow> u \<le> max_int64 \<Longrightarrow> d \<le> max_int64 \<Longrightarrow>
   fold (\<lambda>(link, w). addUserLink link w) ds \<lparr>UID = uid, Value = v, UserUp = u, UserDown = d, InboundTag = tag\<rparr>
     = \<lparr>UID = uid, Value = satAdd v (grandTotal ds), UserUp = satAdd u (linkTotal ''uplink'' ds),
        UserDown = satAdd d (linkTotal ''downlink'' ds), InboundTag = tag\<rparr>"
  by (induction ds arbitrary: v u d) (auto simp: addUserLink_def satAdd_satAdd Let_def)

lemma linkTotals_accumulate:
  "linkTotals parse skip cs m = accumulate (linkItem parse skip) (\<lambda>t. \<lparr>Tag = t, Up = 0, Down = 0\<rparr>) (\<lambda>(link, v). addLink link v) cs m"
  by (induction parse skip cs m rule: linkTotals.induct) (auto simp: linkItem_def split: option.split)

lemma userTotals_accumulate: "userTotals cs m = accumulate userItem newUserStat (\<lambda>(link, v). addUserLink link v) cs m"
  by (induction cs m rule: userTotals.induct) (auto simp: userItem_def split: option.split)

text \<open>The rows as a table of sums, the reference for the loops.\<close>

definition linkTable :: "(string \<Rightarrow> (string \<times> string) option) \<Rightarrow> (string \<Rightarrow> bool) \<Rightarrow> counter list \<Rightarrow> stat list" where
  "linkTable parse skip cs = filter (\<lambda>r. Up r \<noteq> 0 \<or> Down r \<noteq> 0)
     (map (\<lambda>t. \<lparr>Tag = t, Up = min max_int64 (linkTotal ''uplink'' (itemsOf (linkItem parse skip) cs t)),
        Down = min max_int64 (linkTotal ''downlink'' (itemsOf (linkItem parse skip) cs t))\<rparr>)
       (sorted_list_of_set (keysOf (linkItem parse skip) cs)))"

definition userTable :: "counter list \<Rightarrow> userStat list" where
  "userTable cs = filter (\<lambda>r. Value r \<noteq> 0)
     (map (\<lambda>k. \<lparr>UID = fst k, Value = min max_int64 (grandTotal (itemsOf userItem cs k)),
        UserUp = min max_int64 (linkTotal ''uplink'' (itemsOf userItem cs k)),
        UserDown = min max_int64 (linkTotal ''downlink'' (itemsOf userItem cs k)), InboundTag = snd k\<rparr>)
       (sorted_list_of_set (keysOf userItem cs)))"

lemma satAdd_zero: "satAdd 0 x = min max_int64 x"
  by (simp add: satAdd_def)

lemma linkRows_table: "linkRows (linkTotals parse skip cs []) = linkTable parse skip cs"
proof -
  let ?m = "linkTotals parse skip cs []"
  have eq: "mget zeroStat ?m t = mget \<lparr>Tag = t, Up = 0, Down = 0\<rparr> ?m t" if "t \<in> set (sort (map fst ?m))" for t
    using that by (auto simp: mget_def split: option.split dest: weak_map_of_SomeI)
  from eq have "map (mget zeroStat ?m) (sort (map fst ?m)) = map (\<lambda>t. mget \<lparr>Tag = t, Up = 0, Down = 0\<rparr> ?m t) (sort (map fst ?m))"
    by (rule map_cong [OF refl])
  then show ?thesis
    unfolding linkRows_def linkTable_def linkTotals_accumulate
    by (simp add: accumulated_rows fold_addLink satAdd_zero)
qed

lemma userRows_table: "userStatsFromCounters cs = userTable cs"
  unfolding userStatsFromCounters_def userTable_def Let_def userTotals_accumulate accumulated_rows
  by (simp add: newUserStat_def fold_addUserLink satAdd_zero)

section \<open>Names\<close>

definition counterName :: "string \<Rightarrow> string \<Rightarrow> string \<Rightarrow> string" where
  "counterName kind subject link = kind @ ''>>>'' @ subject @ ''>>>'' @ ''traffic'' @ ''>>>'' @ link"

lemma counterName_parts:
  "CHR ''>'' \<notin> set kind \<Longrightarrow> CHR ''>'' \<notin> set subject \<Longrightarrow> CHR ''>'' \<notin> set link \<Longrightarrow>
   splitOn (counterName kind subject link) ''>>>'' = [kind, subject, ''traffic'', link]"
  unfolding counterName_def by (simp add: splitOn_append splitOn_absent del: append_Cons)

lemma b64Char_plain: "b64Char n \<noteq> CHR ''.''" "b64Char n \<noteq> CHR ''>''"
  by (auto simp: b64Char_def char_of_eq_iff take_bit_eq_mod)

lemma b64Encode_plain: "CHR ''.'' \<notin> set (b64Encode s)" "CHR ''>'' \<notin> set (b64Encode s)"
  by (induction s rule: b64Encode.induct) (auto simp: Let_def b64Char_plain dest: sym)

text \<open>The address the master gives a user of an inbound.\<close>

definition inboundUserEmail :: "string \<Rightarrow> string \<Rightarrow> string" where
  "inboundUserEmail uid tag = uid @ ''.'' @ inboundRuntimeEmailMarker @ b64Encode tag"

lemma identity_of_email:
  assumes "trimSpace (inboundUserEmail uid tag) = inboundUserEmail uid tag" and "trimSpace uid = uid" and "uid \<noteq> []"
    and "CHR ''.'' \<notin> set uid" and "trimSpace tag \<noteq> []"
  shows "parseUserEmailIdentity (inboundUserEmail uid tag) = Some (uid, tag)"
proof -
  let ?rest = "inboundRuntimeEmailMarker @ b64Encode tag"
  have "inboundUserEmail uid tag = uid @ CHR ''.'' # ?rest" by (simp add: inboundUserEmail_def)
  then have "cut (inboundUserEmail uid tag) ''.'' = (uid, ?rest, True)" using assms(4) by (simp add: cut_char_append)
  moreover have "cut ?rest ''.'' = (?rest, [], False)"
    by (rule cut_char_absent) (simp add: b64Encode_plain inboundRuntimeEmailMarker_def)
  moreover have "hasPrefix ?rest inboundRuntimeEmailMarker" "trimPrefix ?rest inboundRuntimeEmailMarker = b64Encode tag"
    by (simp_all add: hasPrefix_def trimPrefix_def)
  moreover have "inboundUserEmail uid tag \<noteq> []" by (simp add: inboundUserEmail_def)
  ultimately show ?thesis using assms(1,2,3,5) by (simp add: parseUserEmailIdentity_def)
qed

section \<open>Properties\<close>

text \<open>
  (C25) The rows of outbounds and inbounds are the table of sums: whatever counters Xray reports, in
  any order and with any nil, negative or foreign ones in between, the rows are sorted by tag, one
  for each tag that has traffic, and each direction is the exact sum of the counters of that tag,
  or the largest 64-bit integer where the sum is larger. The counters of the control interface
  are left out.
\<close>

theorem link_stats_are_sums:
  "outboundStatsFromCounters cs = linkTable parseOutboundStatName apiOutbound cs
   \<and> inboundStatsFromCounters cs = linkTable parseInboundStatName apiInboundTag cs"
  by (simp add: outboundStatsFromCounters_def inboundStatsFromCounters_def linkRows_table)

text \<open>
  (C26) The rows of the users are the table of sums, one row for each user and inbound, sorted by
  user and then by tag, with the exact or saturated sums of the total and of both directions.
\<close>

theorem user_stats_are_sums: "userStatsFromCounters cs = userTable cs"
  by (rule userRows_table)

text \<open>
  The user and the inbound of a counter are read back: from the counter Xray keeps for the
  address that names a user and, in base64, an inbound tag, the parser recovers both and the
  direction, for every tag that is not blank.
\<close>

theorem user_counter_roundtrip:
  assumes "trimSpace (inboundUserEmail uid tag) = inboundUserEmail uid tag" and "trimSpace uid = uid" and "uid \<noteq> []"
    and "CHR ''.'' \<notin> set uid" and "CHR ''>'' \<notin> set uid" and "trimSpace tag \<noteq> []"
    and "link = ''uplink'' \<or> link = ''downlink''"
  shows "parseUserStatCounter (counterName ''user'' (inboundUserEmail uid tag) link) = Some ((uid, tag), link)"
proof -
  have "CHR ''>'' \<notin> set (inboundUserEmail uid tag)"
    using assms(5) by (simp add: inboundUserEmail_def inboundRuntimeEmailMarker_def b64Encode_plain)
  then have parts: "splitOn (counterName ''user'' (inboundUserEmail uid tag) link) ''>>>'' = [''user'', inboundUserEmail uid tag, ''traffic'', link]"
    using assms(7) by (intro counterName_parts) auto
  have "toLower (trimSpace link) = link" using assms(7) by (elim disjE) (simp, code_simp)+
  with assms(7) show ?thesis
    unfolding parseUserStatCounter_def parseUserStatIdentity_def parts
    by (auto simp: identity_of_email [OF assms(1-4,6)] Let_def)
qed

theorem user_counter_roundtrip_witness:
  "parseUserStatCounter (counterName ''user'' (inboundUserEmail ''42'' ''in'') ''uplink'') = Some ((''42'', ''in''), ''uplink'')"
proof (rule user_counter_roundtrip)
  have "inboundUserEmail ''42'' ''in'' = ''42.rb1_aW4''"
    by (simp add: inboundUserEmail_def inboundRuntimeEmailMarker_def b64Char_def char_of_def bit_0)
  moreover have "trimSpace ''42.rb1_aW4'' = ''42.rb1_aW4''" by code_simp
  ultimately show "trimSpace (inboundUserEmail ''42'' ''in'') = inboundUserEmail ''42'' ''in''" by simp
  show "trimSpace ''42'' = ''42''" "trimSpace ''in'' \<noteq> []" by code_simp+
qed simp_all

lemma map_filter_length: "length (List.map_filter f xs) \<le> length xs"
  by (induction xs) (auto simp: List.map_filter_simps split: option.split)

lemma map_filter_iff: "y \<in> set (List.map_filter f xs) \<longleftrightarrow> (\<exists>x \<in> set xs. f x = Some y)"
  by (induction xs) (auto simp: List.map_filter_simps split: option.split)

lemma onlineIPTasks_bound: "length (onlineIPTasks None names) \<le> maxOnlineIPLookups"
  by (simp add: onlineIPTasks_def Let_def)

lemma onlineIPTask_scoped: "onlineIPTask (Some uids) name = Some t \<Longrightarrow> taskUID t \<in> uids"
  by (cases "parseOnlineUserName (trimSpace name)") (auto simp: onlineIPTask_def Let_def split: if_splits)

lemma onlineIPTasks_scoped: "t \<in> set (onlineIPTasks (Some uids) names) \<Longrightarrow> taskUID t \<in> uids"
  using onlineIPTask_scoped by (auto simp: onlineIPTasks_def map_filter_iff Let_def)

lemma map_filter_sides:
  "e \<in> set (List.map_filter (\<lambda>r. case r of Inl e \<Rightarrow> Some e | Inr _ \<Rightarrow> None) rs) \<longleftrightarrow> Inl e \<in> set rs"
  "u \<in> set (List.map_filter (\<lambda>r. case r of Inl _ \<Rightarrow> None | Inr u \<Rightarrow> Some u) rs) \<longleftrightarrow> Inr u \<in> set rs"
  by (induction rs) (auto simp: List.map_filter_simps split: sum.split)

lemma lookupTask_cases:
  "lookupTask look t = Some (Inr u) \<Longrightarrow> onUID u = taskUID t"
  "(\<exists>e. lookupTask look t = Some (Inl e)) \<longleftrightarrow> (\<exists>e. look (statsName t) = LookupFailed e)"
  by (auto simp: lookupTask_def split: ipLookup.splits)

text \<open>
  The lookups of addresses are bounded and scoped: without a scope the node asks Xray for at most
  512 users, with a scope only for users of the scope. Whatever the order in which the workers end,
  the rows are sorted by user and address and each belongs to a task; an error is reported exactly
  when some lookup failed.
\<close>

theorem online_lookups_bounded:
  assumes "mset (order (onlineIPTasks scoped names)) = mset (onlineIPTasks scoped names)"
    and "queryOnlineUserIPs order look names scoped = (found, err)"
  shows "(scoped = None \<longrightarrow> length found \<le> 512)
    \<and> (\<forall>uids. scoped = Some uids \<longrightarrow> onUID ` set found \<subseteq> uids)
    \<and> sorted (map (\<lambda>u. (onUID u, onEmail u)) found)
    \<and> (err \<noteq> None \<longleftrightarrow> (\<exists>t \<in> set (onlineIPTasks scoped names). \<exists>e. look (statsName t) = LookupFailed e))"
proof (cases "onlineIPTasks scoped names = []")
  case True
  then show ?thesis using assms(2) by (auto simp: queryOnlineUserIPs_def)
next
  case False
  define tasks where "tasks = onlineIPTasks scoped names"
  define results where "results = List.map_filter (lookupTask look) (order tasks)"
  define us where "us = List.map_filter (\<lambda>r. case r of Inl _ \<Rightarrow> None | Inr u \<Rightarrow> Some u) results"
  define es where "es = List.map_filter (\<lambda>r. case r of Inl e \<Rightarrow> Some e | Inr _ \<Rightarrow> None) results"
  have found: "found = sort_key (\<lambda>u. (onUID u, onEmail u)) us" and err: "err = (case es of [] \<Rightarrow> None | e # _ \<Rightarrow> Some e)"
    using assms(2) False by (simp_all add: queryOnlineUserIPs_def us_def es_def results_def tasks_def Let_def)
  have same: "set (order tasks) = set tasks" "length (order tasks) = length tasks"
    using mset_eq_setD [OF assms(1)] mset_eq_length [OF assms(1)] by (simp_all add: tasks_def)
  have "length us \<le> length tasks"
    using map_filter_length [of _ results] map_filter_length [of "lookupTask look" "order tasks"] same(2)
    by (metis results_def us_def order_trans)
  then have bound: "scoped = None \<longrightarrow> length found \<le> 512"
    using onlineIPTasks_bound [of names] by (auto simp: found tasks_def maxOnlineIPLookups_def)
  have "\<exists>t \<in> set tasks. lookupTask look t = Some (Inr u)" if "u \<in> set found" for u
    using that unfolding found us_def set_sort map_filter_sides unfolding results_def map_filter_iff same(1) .
  then have scope: "\<forall>uids. scoped = Some uids \<longrightarrow> onUID ` set found \<subseteq> uids"
    using onlineIPTasks_scoped lookupTask_cases(1) unfolding tasks_def by fastforce
  have "err \<noteq> None \<longleftrightarrow> (\<exists>e. e \<in> set es)" by (cases es) (auto simp: err)
  also have "\<dots> \<longleftrightarrow> (\<exists>t \<in> set tasks. \<exists>e. lookupTask look t = Some (Inl e))"
    unfolding es_def map_filter_sides unfolding results_def map_filter_iff same(1) by blast
  finally show ?thesis using bound scope by (simp add: found tasks_def lookupTask_cases(2))
qed

theorem online_lookups_bounded_witness:
  "sorted (map (\<lambda>u. (onUID u, onEmail u)) (fst (queryOnlineUserIPs rev (\<lambda>_. Ips [(''10.0.0.1'', 5)]) [''7'', ''42''] None)))"
  using online_lookups_bounded [of rev None "[''7'', ''42'']" "\<lambda>_. Ips [(''10.0.0.1'', 5)]"]
  by (cases "queryOnlineUserIPs rev (\<lambda>_. Ips [(''10.0.0.1'', 5)]) [''7'', ''42''] None") simp

end
