(* ===== verification/Usage_Collect.thy ===== *)
theory Usage_Collect
  imports Xray_Stats Server_Util
begin

text \<open>
  Collecting the usage: \<open>collectUserUsage\<close>, \<open>collectOutboundUsage\<close> and the handlers on top of them in
  \<open>internal/node/grpc.go\<close>, \<open>snapshotRunningUsage\<close> of \<open>server.go\<close> and \<open>user_speed.go\<close>. The state is
  the usage buffer with its spool file, the Xray process and the host; the protocol managers are
  parameters. Results: a collection puts into the buffer exactly what Xray and the managers report,
  also when Xray fails half way, the snapshot before a stop does the same, and a collection that
  does not reset the counters counts the same traffic again.
\<close>

section \<open>Environment and state\<close>

text \<open>
  \<open>ceFs i\<close> is what the file system answers to the \<open>i\<close>-th attempt to persist in a call. \<open>ceRate\<close> is
  \<open>uint64(float64(bytes) / seconds)\<close>, the seconds given in nanoseconds. A manager that is an option may be nil.
\<close>

record ('x, 'w) collectEnv =
  ceClient :: "'x statsClient"
  ceOrder :: "onlineIPTask list \<Rightarrow> onlineIPTask list"
  ceFs :: "nat \<Rightarrow> fsEnv"
  ceNow :: int
  ceRate :: "nat \<Rightarrow> int \<Rightarrow> nat"
  ceOV :: "'w \<Rightarrow> userStat list \<times> 'w"
  ceL2TP :: "'w \<Rightarrow> userStat list \<times> 'w"
  cePPTP :: "'w \<Rightarrow> userStat list \<times> 'w"
  ceWG :: "'w \<Rightarrow> userStat list \<times> 'w"
  ceIKEv2 :: "'w \<Rightarrow> userStat list \<times> 'w"
  ceAnyConnect :: "'w \<Rightarrow> userStat list \<times> 'w"
  ceSSH :: "(('w \<Rightarrow> userStat list \<times> 'w) \<times> ('w \<Rightarrow> string list)) option"
  ceExtraVPN :: "(('w \<Rightarrow> userStat list \<times> 'w) \<times> ('w \<Rightarrow> string list)) option"

record ('x, 'w) collectState =
  coBuffer :: "usageBuffer \<times> spoolFile"
  coXray :: 'x
  coStarted :: bool
  coStatsAt :: "int option"
  coWorld :: 'w

section \<open>Speeds\<close>

record userTrafficSpeed =
  spUID :: string
  spUpload :: nat
  spDownload :: nat

text \<open>The sums are \<open>uint64\<close>.\<close>

definition addSpeed :: "userStat \<Rightarrow> (string, nat \<times> nat) gomap \<Rightarrow> (string, nat \<times> nat) gomap" where
  "addSpeed s byUID =
     (if UID s = [] \<or> (UserUp s \<le> 0 \<and> UserDown s \<le> 0) then byUID
      else case mget (0, 0) byUID (UID s) of (u, d) \<Rightarrow>
        AList.update (UID s)
          (if UserUp s > 0 then (u + nat (UserUp s)) mod 2 ^ 64 else u,
           if UserDown s > 0 then (d + nat (UserDown s)) mod 2 ^ 64 else d) byUID)"

definition calculateUserSpeeds :: "(nat \<Rightarrow> int \<Rightarrow> nat) \<Rightarrow> userStat list \<Rightarrow> int \<Rightarrow> userTrafficSpeed list" where
  "calculateUserSpeeds rate stats elapsed =
     (if elapsed \<le> 0 then []
      else map (\<lambda>(uid, u, d). \<lparr>spUID = uid, spUpload = rate u elapsed, spDownload = rate d elapsed\<rparr>)
        (fold addSpeed stats []))"

definition collectXrayUserStats :: "('x, 'w) collectEnv \<Rightarrow> bool \<Rightarrow> ('x, 'w) collectState
    \<Rightarrow> (string + userStat list \<times> userTrafficSpeed list) \<times> ('x, 'w) collectState" where
  "collectXrayUserStats E reset s = (case QueryUserStats (ceClient E) reset (coXray s) of
       (Inl err, x) \<Rightarrow> (Inl err, s\<lparr>coXray := x\<rparr>)
     | (Inr stats, x) \<Rightarrow>
         if \<not> reset then (Inr (stats, []), s\<lparr>coXray := x\<rparr>)
         else let elapsed = (case coStatsAt s of None \<Rightarrow> 0 | Some before \<Rightarrow> ceNow E - before)
              in (Inr (stats, calculateUserSpeeds (ceRate E) stats elapsed), s\<lparr>coXray := x, coStatsAt := Some (ceNow E)\<rparr>))"

section \<open>Collecting\<close>

text \<open>The managers in the order of the code: what they report and who is online.\<close>

definition collectOptional :: "(('w \<Rightarrow> userStat list \<times> 'w) \<times> ('w \<Rightarrow> string list)) option \<Rightarrow> 'w \<Rightarrow> (userStat list \<times> string list) \<times> 'w" where
  "collectOptional manager w = (case manager of None \<Rightarrow> (([], []), w)
     | Some (usage, online) \<Rightarrow> (case usage w of (stats, w') \<Rightarrow> ((stats, online w'), w')))"

definition collectManagers :: "('x, 'w) collectEnv \<Rightarrow> 'w \<Rightarrow> (userStat list list \<times> string list) \<times> 'w" where
  "collectManagers E w0 =
     (case ceOV E w0 of (s1, w1) \<Rightarrow> case ceL2TP E w1 of (s2, w2) \<Rightarrow> case cePPTP E w2 of (s3, w3) \<Rightarrow>
      case ceWG E w3 of (s4, w4) \<Rightarrow> case ceIKEv2 E w4 of (s5, w5) \<Rightarrow> case ceAnyConnect E w5 of (s6, w6) \<Rightarrow>
      case collectOptional (ceSSH E) w6 of ((s7, u7), w7) \<Rightarrow>
      case collectOptional (ceExtraVPN E) w7 of ((s8, u8), w8) \<Rightarrow>
        (([s1, s2, s3, s4, s5, s6, s7, s8], u7 @ u8), w8))"

record userUsageSample =
  smUid :: string
  smValue :: nat
  smInboundTag :: string

record userUsageBatch =
  ubBatchId :: string
  ubStats :: "userUsageSample list"
  ubOnlineIps :: "OnlineUserIP list"
  ubSpeeds :: "userTrafficSpeed list"

definition userSample :: "userStat \<Rightarrow> userUsageSample" where
  "userSample s = \<lparr>smUid = UID s, smValue = nat (maxInt64 (Value s) 0), smInboundTag = InboundTag s\<rparr>"

definition collectUserUsage :: "('x, 'w) collectEnv \<Rightarrow> bool \<Rightarrow> string list option \<Rightarrow> ('x, 'w) collectState
    \<Rightarrow> userUsageBatch \<times> ('x, 'w) collectState" where
  "collectUserUsage E reset ipScope s0 =
     (let ((stats, speeds, onlineUIDs, onlineIPs), s1) =
        (if coStarted s0 then
           (case collectXrayUserStats E reset s0 of (r, s) \<Rightarrow>
             let ((uids, ips), _) = QueryOnlineUserSnapshot (ceOrder E) (ceClient E) (map_option set ipScope) (coXray s)
             in case r of Inl _ \<Rightarrow> (([], [], uids, ips), s) | Inr (stats, speeds) \<Rightarrow> ((stats, speeds, uids, ips), s))
         else (([], [], [], []), s0));
        ((native, online), w) = collectManagers E (coWorld s1);
        ((batchID, pend), buf) = addUsersAndSnapshot (ceFs E 0) (stats @ concat native) (coBuffer s1)
      in (\<lparr>ubBatchId = batchID, ubStats = map userSample (appendOnlineUserMarkers pend (onlineUIDs @ online)),
           ubOnlineIps = onlineIPs, ubSpeeds = speeds\<rparr>,
          s1\<lparr>coBuffer := buf, coWorld := w\<rparr>))"

record linkUsageSample =
  lkTag :: string
  lkUp :: nat
  lkDown :: nat

record outboundUsageBatch =
  obBatchId :: string
  obStats :: "linkUsageSample list"
  obInboundStats :: "linkUsageSample list"

definition linkSample :: "stat \<Rightarrow> linkUsageSample" where
  "linkSample s = \<lparr>lkTag = Tag s, lkUp = nat (maxInt64 (Up s) 0), lkDown = nat (maxInt64 (Down s) 0)\<rparr>"

definition outboundSnapshot :: "('x, 'w) collectEnv \<Rightarrow> stat list \<Rightarrow> ('x, 'w) collectState \<Rightarrow> outboundUsageBatch \<times> ('x, 'w) collectState" where
  "outboundSnapshot E inboundStats s = (case addUsageAndSnapshot (ceFs E 1) [] inboundStats (coBuffer s) of
     ((batchID, pend, pendInbounds), buf) \<Rightarrow>
       (\<lparr>obBatchId = batchID, obStats = map linkSample pend, obInboundStats = map linkSample pendInbounds\<rparr>, s\<lparr>coBuffer := buf\<rparr>))"

text \<open>The error is \<open>Unavailable\<close> with this text.\<close>

definition collectOutboundUsage :: "('x, 'w) collectEnv \<Rightarrow> bool \<Rightarrow> ('x, 'w) collectState
    \<Rightarrow> (string + outboundUsageBatch) \<times> ('x, 'w) collectState" where
  "collectOutboundUsage E reset s =
     (if \<not> coStarted s then (case outboundSnapshot E [] s of (res, s') \<Rightarrow> (Inr res, s'))
      else case QueryOutboundStats (ceClient E) reset (coXray s) of
        (Inl err, x) \<Rightarrow> (Inl err, s\<lparr>coXray := x\<rparr>)
      | (Inr stats, x) \<Rightarrow>
          let s1 = s\<lparr>coXray := x, coBuffer := add (ceFs E 0) stats (coBuffer s)\<rparr> in
          (case QueryInboundStats (ceClient E) reset (coXray s1) of
             (Inl err, x') \<Rightarrow> (Inl err, s1\<lparr>coXray := x'\<rparr>)
           | (Inr inboundStats, x') \<Rightarrow> (case outboundSnapshot E inboundStats (s1\<lparr>coXray := x'\<rparr>) of (res, s') \<Rightarrow> (Inr res, s'))))"

record collectAllRequest =
  caReset :: bool
  caIpScope :: "string list option"
  caSkipUsers :: bool
  caSkipOutbound :: bool

record collectAllResponse =
  crUsers :: "userUsageBatch option"
  crOutbound :: "outboundUsageBatch option"
  crOutboundError :: string

definition CollectAllUsage :: "('x, 'w) collectEnv \<Rightarrow> collectAllRequest \<Rightarrow> ('x, 'w) collectState \<Rightarrow> collectAllResponse \<times> ('x, 'w) collectState" where
  "CollectAllUsage E req s0 =
     (let (us, s1) = (if caSkipUsers req then (None, s0)
            else case collectUserUsage E (caReset req) (caIpScope req) s0 of (b, s) \<Rightarrow> (Some b, s))
      in if caSkipOutbound req then (\<lparr>crUsers = us, crOutbound = None, crOutboundError = []\<rparr>, s1)
         else case collectOutboundUsage E (caReset req) s1 of
           (Inl err, s2) \<Rightarrow> (\<lparr>crUsers = us, crOutbound = None, crOutboundError = err\<rparr>, s2)
         | (Inr b, s2) \<Rightarrow> (\<lparr>crUsers = us, crOutbound = Some b, crOutboundError = []\<rparr>, s2))"

definition CollectUserUsage :: "('x, 'w) collectEnv \<Rightarrow> bool \<Rightarrow> string list option \<Rightarrow> ('x, 'w) collectState \<Rightarrow> userUsageBatch \<times> ('x, 'w) collectState" where
  "CollectUserUsage E reset ipScope s = collectUserUsage E reset ipScope s"

definition CollectOutboundUsage :: "('x, 'w) collectEnv \<Rightarrow> bool \<Rightarrow> ('x, 'w) collectState \<Rightarrow> (string + outboundUsageBatch) \<times> ('x, 'w) collectState" where
  "CollectOutboundUsage E reset s = collectOutboundUsage E reset s"

definition CollectOnlineUsers :: "('x, 'w) collectEnv \<Rightarrow> ('x, 'w) collectState \<Rightarrow> string + string list" where
  "CollectOnlineUsers E s =
     (let uids = (case ceSSH E of None \<Rightarrow> [] | Some (_, online) \<Rightarrow> online (coWorld s)) in
      if \<not> coStarted s then Inr uids
      else case QueryOnlineUserUIDs (ceClient E) (coXray s) of Inl err \<Rightarrow> Inl err | Inr xrayUIDs \<Rightarrow> Inr (uids @ xrayUIDs))"

definition AckUserUsage :: "('x, 'w) collectEnv \<Rightarrow> string \<Rightarrow> ('x, 'w) collectState \<Rightarrow> bool \<times> ('x, 'w) collectState" where
  "AckUserUsage E batchID s = (case ackUsers (ceFs E 0) batchID (coBuffer s) of (ok, buf) \<Rightarrow> (ok, s\<lparr>coBuffer := buf\<rparr>))"

definition AckOutboundUsage :: "('x, 'w) collectEnv \<Rightarrow> string \<Rightarrow> ('x, 'w) collectState \<Rightarrow> bool \<times> ('x, 'w) collectState" where
  "AckOutboundUsage E batchID s = (case ack (ceFs E 1) batchID (coBuffer s) of (ok, buf) \<Rightarrow> (ok, s\<lparr>coBuffer := buf\<rparr>))"

definition AckAllUsage :: "('x, 'w) collectEnv \<Rightarrow> string \<Rightarrow> string \<Rightarrow> ('x, 'w) collectState \<Rightarrow> (bool \<times> bool) \<times> ('x, 'w) collectState" where
  "AckAllUsage E userBatch outboundBatch s0 =
     (let (us, s1) = (if userBatch = [] then (False, s0) else AckUserUsage E userBatch s0);
          (out, s2) = (if outboundBatch = [] then (False, s1) else AckOutboundUsage E outboundBatch s1)
      in ((us, out), s2))"

section \<open>The snapshot before a stop\<close>

definition addNonempty :: "fsEnv \<Rightarrow> userStat list \<Rightarrow> usageBuffer \<times> spoolFile \<Rightarrow> usageBuffer \<times> spoolFile" where
  "addNonempty env stats buf = (if stats = [] then buf else addUsers env stats buf)"

text \<open>\<open>if stats := manager.CollectUsage(); len(stats) > 0 { s.usage.addUsers(stats) }\<close>, as the \<open>i\<close>-th call that persists.\<close>

definition snapshotManager :: "('x, 'w) collectEnv \<Rightarrow> nat \<Rightarrow> ('w \<Rightarrow> userStat list \<times> 'w) \<Rightarrow> ('x, 'w) collectState \<Rightarrow> ('x, 'w) collectState" where
  "snapshotManager E i manager s = (case manager (coWorld s) of (stats, w) \<Rightarrow> s\<lparr>coWorld := w, coBuffer := addNonempty (ceFs E i) stats (coBuffer s)\<rparr>)"

definition snapshotOptional :: "('x, 'w) collectEnv \<Rightarrow> nat \<Rightarrow> (('w \<Rightarrow> userStat list \<times> 'w) \<times> ('w \<Rightarrow> string list)) option
    \<Rightarrow> ('x, 'w) collectState \<Rightarrow> ('x, 'w) collectState" where
  "snapshotOptional E i manager s = (case manager of None \<Rightarrow> s | Some (usage, _) \<Rightarrow> snapshotManager E i usage s)"

text \<open>The three queries of Xray; an error is only logged.\<close>

definition snapshotOutbound :: "('x, 'w) collectEnv \<Rightarrow> ('x, 'w) collectState \<Rightarrow> ('x, 'w) collectState" where
  "snapshotOutbound E s = (case QueryOutboundStats (ceClient E) True (coXray s) of (r, x) \<Rightarrow>
     s\<lparr>coXray := x, coBuffer := case r of Inl _ \<Rightarrow> coBuffer s | Inr stats \<Rightarrow> add (ceFs E 8) stats (coBuffer s)\<rparr>)"

definition snapshotInbound :: "('x, 'w) collectEnv \<Rightarrow> ('x, 'w) collectState \<Rightarrow> ('x, 'w) collectState" where
  "snapshotInbound E s = (case QueryInboundStats (ceClient E) True (coXray s) of (r, x) \<Rightarrow>
     s\<lparr>coXray := x, coBuffer := case r of Inl _ \<Rightarrow> coBuffer s | Inr stats \<Rightarrow> addInbound (ceFs E 9) stats (coBuffer s)\<rparr>)"

definition snapshotUsers :: "('x, 'w) collectEnv \<Rightarrow> ('x, 'w) collectState \<Rightarrow> ('x, 'w) collectState" where
  "snapshotUsers E s = (case collectXrayUserStats E True s of (r, s') \<Rightarrow>
     s'\<lparr>coBuffer := case r of Inl _ \<Rightarrow> coBuffer s' | Inr (stats, _) \<Rightarrow> addUsers (ceFs E 10) stats (coBuffer s')\<rparr>)"

definition snapshotRunningUsage :: "('x, 'w) collectEnv \<Rightarrow> ('x, 'w) collectState \<Rightarrow> ('x, 'w) collectState" where
  "snapshotRunningUsage E s0 =
     (let s1 = snapshotManager E 0 (ceOV E) s0;
          s2 = snapshotManager E 1 (ceL2TP E) s1;
          s3 = snapshotManager E 2 (cePPTP E) s2;
          s4 = snapshotManager E 3 (ceWG E) s3;
          s5 = snapshotManager E 4 (ceIKEv2 E) s4;
          s6 = snapshotManager E 5 (ceAnyConnect E) s5;
          s7 = snapshotOptional E 6 (ceSSH E) s6;
          s8 = snapshotOptional E 7 (ceExtraVPN E) s7
      in if \<not> coStarted s8 then s8 else snapshotUsers E (snapshotInbound E (snapshotOutbound E s8)))"

section \<open>What reaches the buffer\<close>

lemma userAmount_append [simp]: "userAmount (a @ b) k = userAmount a k + userAmount b k"
  by (induction a) simp_all

lemma addNonempty_users:
  assumes "usersInv buf"
  shows "usersInv (addNonempty env ss buf) \<and> userCnt (addNonempty env ss buf) k = satAdd (userCnt buf k) (userAmount ss k)"
  using userLedger.inv_add [OF assms, of "(env, ss)"] userLedger.cnt_add [OF assms, of "(env, ss)"] userLedger.cnt_bounds [OF assms, of k]
  by (simp add: addNonempty_def assms)

section \<open>What there is to report\<close>

text \<open>
  The specification: the kinds of native services of a node, what the manager of each reports when it is asked, and that asking one manager
  does not change what another has to report. A service that is not set up has nothing to report.
\<close>

datatype service = OpenVPN | L2TPService | PPTPService | WireGuardService | IKEv2Service | AnyConnectService | SSHService | ExtraVPNService

fun ask :: "('x, 'w) collectEnv \<Rightarrow> service \<Rightarrow> 'w \<Rightarrow> userStat list \<times> 'w" where
  "ask E OpenVPN = ceOV E"
| "ask E L2TPService = ceL2TP E"
| "ask E PPTPService = cePPTP E"
| "ask E WireGuardService = ceWG E"
| "ask E IKEv2Service = ceIKEv2 E"
| "ask E AnyConnectService = ceAnyConnect E"
| "ask E SSHService = (case ceSSH E of None \<Rightarrow> (\<lambda>w. ([], w)) | Some (usage, _) \<Rightarrow> usage)"
| "ask E ExtraVPNService = (case ceExtraVPN E of None \<Rightarrow> (\<lambda>w. ([], w)) | Some (usage, _) \<Rightarrow> usage)"

definition reportOf :: "('x, 'w) collectEnv \<Rightarrow> 'w \<Rightarrow> string \<Rightarrow> service \<Rightarrow> int" where
  "reportOf E w k p = userAmount (fst (ask E p w)) k"

definition independent :: "('x, 'w) collectEnv \<Rightarrow> bool" where
  "independent E \<longleftrightarrow> (\<forall>p q w k. p \<noteq> q \<longrightarrow> reportOf E (snd (ask E q w)) k p = reportOf E w k p)"

lemma UNIV_service: "(UNIV :: service set) = {OpenVPN, L2TPService, PPTPService, WireGuardService, IKEv2Service, AnyConnectService, SSHService, ExtraVPNService}"
  by (auto intro: service.exhaust)

text \<open>Asking a list of services, one after the other.\<close>

fun askAll :: "('x, 'w) collectEnv \<Rightarrow> service list \<Rightarrow> 'w \<Rightarrow> userStat list \<times> 'w" where
  "askAll E [] w = ([], w)"
| "askAll E (p # ps) w = (case ask E p w of (stats, w1) \<Rightarrow> case askAll E ps w1 of (rest, w2) \<Rightarrow> (stats @ rest, w2))"

abbreviation services :: "service list" where
  "services \<equiv> [OpenVPN, L2TPService, PPTPService, WireGuardService, IKEv2Service, AnyConnectService, SSHService, ExtraVPNService]"

lemma distinct_services: "distinct services"
  by simp

lemma sum_services: "sum_list (map f services) = (\<Sum>p\<in>UNIV. f p)" for f :: "service \<Rightarrow> int"
  unfolding UNIV_service by simp

lemma reports_kept:
  assumes "independent E" and "p \<notin> set ps"
  shows "sum_list (map (reportOf E (snd (ask E p w)) k) ps) = sum_list (map (reportOf E w k) ps)"
proof -
  have "reportOf E (snd (ask E p w)) k q = reportOf E w k q" if "q \<in> set ps" for q
    using assms(1) [unfolded independent_def, rule_format, of q p w k] that assms(2) by auto
  then have "map (reportOf E (snd (ask E p w)) k) ps = map (reportOf E w k) ps" by (rule map_cong [OF refl])
  then show ?thesis by (rule arg_cong)
qed

lemma askAll_amount: "independent E \<Longrightarrow> distinct ps \<Longrightarrow> userAmount (fst (askAll E ps w)) k = sum_list (map (reportOf E w k) ps)"
proof (induction ps arbitrary: w)
  case (Cons p ps)
  then show ?case using reports_kept [of E p ps w k] Cons.IH [of "snd (ask E p w)"]
    by (simp add: split_beta reportOf_def [of _ _ _ p])
qed simp

lemma collectManagers_asks: "(concat (fst (fst (collectManagers E w))), snd (collectManagers E w)) = askAll E services w"
  by (simp add: collectManagers_def collectOptional_def split_beta split: option.split)

lemma managers_amount:
  "independent E \<Longrightarrow> userAmount (concat (fst (fst (collectManagers E w)))) k = (\<Sum>p\<in>UNIV. reportOf E w k p)"
  using collectManagers_asks [of E w] askAll_amount [of E services w k] sum_services [of "reportOf E w k"] by (metis (no_types, lifting) distinct_services fst_conv)

text \<open>What Xray reports of a user key and what the services of a node have to report of it, all together.\<close>

definition xrayAmount :: "('x, 'w) collectEnv \<Rightarrow> bool \<Rightarrow> 'x \<Rightarrow> string \<Rightarrow> int" where
  "xrayAmount E reset x k = (case fst (QueryUserStats (ceClient E) reset x) of Inl _ \<Rightarrow> 0 | Inr stats \<Rightarrow> userAmount stats k)"

definition managersAmount :: "('x, 'w) collectEnv \<Rightarrow> 'w \<Rightarrow> string \<Rightarrow> int" where
  "managersAmount E w k = (\<Sum>p\<in>UNIV. reportOf E w k p)"

lemma amounts_nonneg [simp]: "0 \<le> xrayAmount E reset x k" "0 \<le> managersAmount E w k"
  by (simp_all add: xrayAmount_def managersAmount_def reportOf_def sum_nonneg split: sum.split)

lemma collectXray_fields:
  "coWorld (snd (collectXrayUserStats E reset s)) = coWorld s" "coBuffer (snd (collectXrayUserStats E reset s)) = coBuffer s"
  "(case fst (collectXrayUserStats E reset s) of Inl _ \<Rightarrow> 0 | Inr (stats, _) \<Rightarrow> userAmount stats k) = xrayAmount E reset (coXray s) k"
  by (auto simp: collectXrayUserStats_def xrayAmount_def Let_def split: prod.split sum.split option.split)

lemma collectUserUsage_buffer:
  assumes "independent E"
  shows "\<exists>stats. coBuffer (snd (collectUserUsage E reset scope s)) = snd (addUsersAndSnapshot (ceFs E 0) stats (coBuffer s))
     \<and> userAmount stats k = (if coStarted s then xrayAmount E reset (coXray s) k else 0) + managersAmount E (coWorld s) k"
proof (cases "coStarted s")
  case True
  obtain r s1 where c: "collectXrayUserStats E reset s = (r, s1)" by fastforce
  have f: "coWorld s1 = coWorld s" "coBuffer s1 = coBuffer s"
    "(case r of Inl _ \<Rightarrow> 0 | Inr (stats, _) \<Rightarrow> userAmount stats k) = xrayAmount E reset (coXray s) k"
    using collectXray_fields(1,2) [of E reset s] collectXray_fields(3) [where E = E and reset = reset and s = s and k = k] unfolding c by simp_all
  show ?thesis
    by (rule exI [of _ "(case r of Inl _ \<Rightarrow> [] | Inr (stats, _) \<Rightarrow> stats) @ concat (fst (fst (collectManagers E (coWorld s))))"])
      (use True f in \<open>auto simp: collectUserUsage_def c managersAmount_def managers_amount [OF assms] Let_def split_beta split: sum.split\<close>)
next
  case False
  then show ?thesis
    by (intro exI [of _ "concat (fst (fst (collectManagers E (coWorld s))))"])
      (simp add: collectUserUsage_def managersAmount_def managers_amount [OF assms] Let_def split_beta)
qed

lemma empty_inbound: "addInboundLocked [] b = b" "addOutboundLocked [] b = b"
  by (simp_all add: addInboundLocked_def addOutboundLocked_def)

lemma add_links:
  assumes "linksInv buf"
  shows "linksInv (add env stats buf) \<and> linkCnt (add env stats buf) (out, tg, up) = satAdd (linkCnt buf (out, tg, up)) (if out then statAmount stats tg up else 0)"
    and "linksInv (addInbound env stats buf) \<and> linkCnt (addInbound env stats buf) (out, tg, up) = satAdd (linkCnt buf (out, tg, up)) (if out then 0 else statAmount stats tg up)"
proof -
  obtain b f where buf: "buf = (b, f)" by (cases buf)
  have a: "\<exists>f'. add env stats buf = (addInboundLocked [] (addOutboundLocked stats b), f')"
    "\<exists>f'. addInbound env stats buf = (addInboundLocked stats (addOutboundLocked [] b), f')"
    by (simp_all add: buf add_def addInbound_def Let_def empty_inbound)
  from a(1) assms linksInv_grow [of b f] linkCnt_grow [of b f "[]" stats _ "(out, tg, up)" env]
  show "linksInv (add env stats buf) \<and> linkCnt (add env stats buf) (out, tg, up) = satAdd (linkCnt buf (out, tg, up)) (if out then statAmount stats tg up else 0)"
    by (auto simp: buf linkAmount_def)
  from a(2) assms linksInv_grow [of b f] linkCnt_grow [of b f stats "[]" _ "(out, tg, up)" env]
  show "linksInv (addInbound env stats buf) \<and> linkCnt (addInbound env stats buf) (out, tg, up) = satAdd (linkCnt buf (out, tg, up)) (if out then 0 else statAmount stats tg up)"
    by (auto simp: buf linkAmount_def)
qed

lemma add_users:
  assumes "usersInv buf"
  shows "usersInv (add env stats buf)" "usersInv (addInbound env stats buf)"
    "userCnt (add env stats buf) = userCnt buf" "userCnt (addInbound env stats buf) = userCnt buf"
  using userLedger.inv_other [OF assms, of "Add env stats"] userLedger.inv_other [OF assms, of "AddInbound env stats"]
    userLedger.cnt_other [OF assms, of "Add env stats"] userLedger.cnt_other [OF assms, of "AddInbound env stats"] by simp_all

lemma addUsers_links: "linksInv buf \<Longrightarrow> linksInv (addUsers env stats buf)" "linksInv buf \<Longrightarrow> linkCnt (addUsers env stats buf) = linkCnt buf"
  using linkLedger.inv_other [of buf "AddUsers env stats"] linkLedger.cnt_other [of buf "AddUsers env stats"] by simp_all

text \<open>What Xray reports of a tag and a direction, and Xray after its outbounds and inbounds were asked.\<close>

definition statsAmount :: "string + stat list \<Rightarrow> string \<Rightarrow> bool \<Rightarrow> int" where
  "statsAmount r tg up = (case r of Inl _ \<Rightarrow> 0 | Inr stats \<Rightarrow> statAmount stats tg up)"

definition outboundAmount :: "('x, 'w) collectEnv \<Rightarrow> bool \<Rightarrow> 'x \<Rightarrow> string \<Rightarrow> bool \<Rightarrow> int" where
  "outboundAmount E reset x = statsAmount (fst (QueryOutboundStats (ceClient E) reset x))"

definition inboundAmount :: "('x, 'w) collectEnv \<Rightarrow> bool \<Rightarrow> 'x \<Rightarrow> string \<Rightarrow> bool \<Rightarrow> int" where
  "inboundAmount E reset x = statsAmount (fst (QueryInboundStats (ceClient E) reset (snd (QueryOutboundStats (ceClient E) reset x))))"

definition afterLinks :: "('x, 'w) collectEnv \<Rightarrow> 'x \<Rightarrow> 'x" where
  "afterLinks E x = snd (QueryInboundStats (ceClient E) True (snd (QueryOutboundStats (ceClient E) True x)))"

text \<open>A buffer whose two ledgers are sound, and what a step leaves in it.\<close>

definition bufferInv :: "usageBuffer \<times> spoolFile \<Rightarrow> bool" where
  "bufferInv b \<longleftrightarrow> usersInv b \<and> linksInv b"

lemma linkCnt_sat: "linksInv b \<Longrightarrow> satAdd (linkCnt b k) 0 = linkCnt b k"
  using linkLedger.cnt_bounds [of b k] by simp

lemma outboundStep:
  assumes "bufferInv b" and "b' = (case r of Inl _ \<Rightarrow> b | Inr stats \<Rightarrow> add env stats b)"
  shows "bufferInv b'" "userCnt b' = userCnt b"
    "linkCnt b' (out, tg, up) = satAdd (linkCnt b (out, tg, up)) (if out then statsAmount r tg up else 0)"
  using assms add_users(1,3) add_links(1) [of b env _ out tg up]
  by (auto simp: bufferInv_def statsAmount_def linkCnt_sat split: sum.split)

lemma inboundStep:
  assumes "bufferInv b" and "b' = (case r of Inl _ \<Rightarrow> b | Inr stats \<Rightarrow> addInbound env stats b)"
  shows "bufferInv b'" "userCnt b' = userCnt b"
    "linkCnt b' (out, tg, up) = satAdd (linkCnt b (out, tg, up)) (if out then 0 else statsAmount r tg up)"
  using assms add_users(2,4) add_links(2) [of b env _ out tg up]
  by (auto simp: bufferInv_def statsAmount_def linkCnt_sat split: sum.split)

lemma usersStep:
  assumes "bufferInv b" and "b' = (case r of Inl _ \<Rightarrow> b | Inr (stats, _) \<Rightarrow> addUsers env stats b)"
  shows "linkCnt b' = linkCnt b"
    "userCnt b' k = satAdd (userCnt b k) (case r of Inl _ \<Rightarrow> 0 | Inr (stats, _) \<Rightarrow> userAmount stats k)"
  using assms userLedger.cnt_add [of b "(env, _)" k] userLedger.cnt_bounds [of b k] addUsers_links
  by (auto simp: bufferInv_def split: sum.split)

lemma snapshot_fields:
  "coBuffer (snapshotOutbound E s) = (case fst (QueryOutboundStats (ceClient E) True (coXray s)) of Inl _ \<Rightarrow> coBuffer s | Inr stats \<Rightarrow> add (ceFs E 8) stats (coBuffer s))"
  "coXray (snapshotOutbound E s) = snd (QueryOutboundStats (ceClient E) True (coXray s))"
  "coBuffer (snapshotInbound E s) = (case fst (QueryInboundStats (ceClient E) True (coXray s)) of Inl _ \<Rightarrow> coBuffer s | Inr stats \<Rightarrow> addInbound (ceFs E 9) stats (coBuffer s))"
  "coXray (snapshotInbound E s) = snd (QueryInboundStats (ceClient E) True (coXray s))"
  by (simp_all add: snapshotOutbound_def snapshotInbound_def split_beta)

lemma snapshot_users:
  "coBuffer (snapshotUsers E s) = (case fst (collectXrayUserStats E True s) of Inl _ \<Rightarrow> coBuffer s | Inr (stats, _) \<Rightarrow> addUsers (ceFs E 10) stats (coBuffer s))"
  using collectXray_fields(2) [of E True s]
  by (cases "fst (collectXrayUserStats E True s)") (simp_all add: snapshotUsers_def split_beta)

text \<open>The managers are asked one by one, and each report is added before the next one is asked.\<close>

fun snapshotAll :: "('x, 'w) collectEnv \<Rightarrow> nat \<Rightarrow> service list \<Rightarrow> ('x, 'w) collectState \<Rightarrow> ('x, 'w) collectState" where
  "snapshotAll E i [] s = s"
| "snapshotAll E i (p # ps) s = snapshotAll E (Suc i) ps (snapshotManager E i (ask E p) s)"

lemma snapshotManager_fields:
  "coWorld (snapshotManager E i m s) = snd (m (coWorld s))" "coBuffer (snapshotManager E i m s) = addNonempty (ceFs E i) (fst (m (coWorld s))) (coBuffer s)"
  "coXray (snapshotManager E i m s) = coXray s" "coStarted (snapshotManager E i m s) = coStarted s"
  by (simp_all add: snapshotManager_def split_beta)

lemma snapshotOptional_asks:
  "snapshotOptional E i (ceSSH E) s = snapshotManager E i (ask E SSHService) s"
  "snapshotOptional E i (ceExtraVPN E) s = snapshotManager E i (ask E ExtraVPNService) s"
  by (simp_all add: snapshotOptional_def snapshotManager_def addNonempty_def split: option.split prod.split)

lemma snapshot_asks:
  "snapshotRunningUsage E s = (let s8 = snapshotAll E 0 services s
     in if \<not> coStarted s8 then s8 else snapshotUsers E (snapshotInbound E (snapshotOutbound E s8)))"
  by (simp add: snapshotRunningUsage_def snapshotOptional_asks numeral_eq_Suc)

lemma snapshotAll_effect:
  assumes "independent E" and "bufferInv (coBuffer s)" and "distinct ps"
  shows "bufferInv (coBuffer (snapshotAll E i ps s))
    \<and> userCnt (coBuffer (snapshotAll E i ps s)) k = satAdd (userCnt (coBuffer s) k) (sum_list (map (reportOf E (coWorld s) k) ps))
    \<and> linkCnt (coBuffer (snapshotAll E i ps s)) = linkCnt (coBuffer s)
    \<and> coXray (snapshotAll E i ps s) = coXray s \<and> coStarted (snapshotAll E i ps s) = coStarted s"
  using assms(2,3)
proof (induction ps arbitrary: i s)
  case Nil
  then show ?case using userLedger.cnt_bounds [of "coBuffer s" k] by (simp add: bufferInv_def)
next
  case (Cons p ps)
  let ?s = "snapshotManager E i (ask E p) s"
  have b: "bufferInv (coBuffer ?s)" "linkCnt (coBuffer ?s) = linkCnt (coBuffer s)"
    "userCnt (coBuffer ?s) k = satAdd (userCnt (coBuffer s) k) (reportOf E (coWorld s) k p)"
    using Cons.prems(1) addNonempty_users [of "coBuffer s" "ceFs E i" "fst (ask E p (coWorld s))" k] addUsers_links
    by (simp_all add: snapshotManager_fields bufferInv_def reportOf_def addNonempty_def)
  have r: "sum_list (map (reportOf E (coWorld ?s) k) ps) = sum_list (map (reportOf E (coWorld s) k) ps)"
    using reports_kept [OF assms(1), of p ps "coWorld s" k] Cons.prems(2) by (simp add: snapshotManager_fields)
  have "0 \<le> reportOf E (coWorld s) k p" by (simp add: reportOf_def)
  moreover have "0 \<le> sum_list (map (reportOf E (coWorld s) k) ps)" by (rule sum_list_nonneg) (auto simp: reportOf_def)
  ultimately show ?case using Cons.IH [OF b(1), of "Suc i"] Cons.prems(2) b unfolding r
    by (simp add: satAdd_satAdd snapshotManager_fields(3,4))
qed

lemma collect_counts:
  assumes "usersInv (coBuffer s)" and "independent E"
  shows "userCnt (coBuffer (snd (collectUserUsage E reset scope s))) k
    = satAdd (userCnt (coBuffer s) k) ((if coStarted s then xrayAmount E reset (coXray s) k else 0) + managersAmount E (coWorld s) k)"
proof -
  obtain stats where "coBuffer (snd (collectUserUsage E reset scope s)) = snd (addUsersAndSnapshot (ceFs E 0) stats (coBuffer s))"
    "userAmount stats k = (if coStarted s then xrayAmount E reset (coXray s) k else 0) + managersAmount E (coWorld s) k"
    using collectUserUsage_buffer [OF assms(2)] by blast
  with userLedger.cnt_collect [OF assms(1), of "(ceFs E 0, stats)" k] show ?thesis by simp
qed

section \<open>Properties\<close>

text \<open>
  (C10) A collection records exactly what there is to report: the counter of a user key grows by what Xray reports and by the sum, over
  all eight kinds of native services, of what each has to report of that key, saturating, whatever batch is open and whatever the
  file system answers, and when Xray cannot be asked by what the services have to report. Asking one service is supposed not to change
  what another has to report.
\<close>

theorem collect_records_reports:
  assumes "usersInv (coBuffer s)" and "independent E"
  shows "userCnt (coBuffer (snd (collectUserUsage E reset scope s))) k
    = satAdd (userCnt (coBuffer s) k) ((if coStarted s then xrayAmount E reset (coXray s) k else 0) + (\<Sum>p\<in>UNIV. reportOf E (coWorld s) k p))"
  using collect_counts [OF assms] unfolding managersAmount_def .

text \<open>
  (C30) Stopping loses no traffic: the snapshot before a stop puts everything that all eight kinds of native services and Xray have to report
  into the buffer, the users by key and the outbounds and inbounds by tag and direction, each part also when Xray fails to report
  another. Asking one service is supposed not to change what another has to report.
\<close>

theorem stop_snapshot_complete:
  assumes "usersInv (coBuffer s)" and "linksInv (coBuffer s)" and "independent E"
  shows "userCnt (coBuffer (snapshotRunningUsage E s)) k = satAdd (userCnt (coBuffer s) k)
      ((\<Sum>p\<in>UNIV. reportOf E (coWorld s) k p) + (if coStarted s then xrayAmount E True (afterLinks E (coXray s)) k else 0))
    \<and> linkCnt (coBuffer (snapshotRunningUsage E s)) (out, tg, up) = satAdd (linkCnt (coBuffer s) (out, tg, up))
      (if \<not> coStarted s then 0 else if out then outboundAmount E True (coXray s) tg up else inboundAmount E True (coXray s) tg up)"
proof -
  let ?x = "coXray s" and ?C = "ceClient E"
  define s1 where "s1 = snapshotAll E 0 services s"
  define b1 where "b1 = coBuffer s1"
  have s1: "coBuffer s1 = b1" "coXray s1 = ?x" "coStarted s1 = coStarted s"
    and b1: "bufferInv b1" "userCnt b1 k = satAdd (userCnt (coBuffer s) k) (managersAmount E (coWorld s) k)" "linkCnt b1 = linkCnt (coBuffer s)"
    using snapshotAll_effect [OF assms(3) _ distinct_services, of s 0 k] assms(1,2) sum_services [of "reportOf E (coWorld s) k"]
    by (simp_all add: s1_def b1_def bufferInv_def managersAmount_def)
  have amount: "(\<Sum>p\<in>UNIV. reportOf E (coWorld s) k p) = managersAmount E (coWorld s) k" by (simp add: managersAmount_def)
  show ?thesis
  proof (cases "coStarted s")
    case False
    then have "snapshotRunningUsage E s = s1" unfolding snapshot_asks Let_def s1_def [symmetric] using s1(3) by simp
    then show ?thesis using False b1 s1(1) linkCnt_sat [OF assms(2)] by (simp add: amount)
  next
    case True
    define s2 where "s2 = snapshotInbound E (snapshotOutbound E s1)"
    define b2 where "b2 = (case fst (QueryOutboundStats ?C True ?x) of Inl _ \<Rightarrow> b1 | Inr stats \<Rightarrow> add (ceFs E 8) stats b1)"
    define b3 where "b3 = (case fst (QueryInboundStats ?C True (snd (QueryOutboundStats ?C True ?x))) of Inl _ \<Rightarrow> b2 | Inr stats \<Rightarrow> addInbound (ceFs E 9) stats b2)"
    have s2: "coBuffer s2 = b3" "coXray s2 = afterLinks E ?x"
      unfolding s2_def snapshot_fields s1 b3_def b2_def afterLinks_def by simp_all
    have "snapshotRunningUsage E s = snapshotUsers E s2"
      unfolding snapshot_asks Let_def s1_def [symmetric] s2_def using True s1(3) by simp
    then have final: "coBuffer (snapshotRunningUsage E s) = (case fst (collectXrayUserStats E True s2) of Inl _ \<Rightarrow> b3 | Inr (stats, _) \<Rightarrow> addUsers (ceFs E 10) stats b3)"
      by (simp only: snapshot_users s2(1))
    have b2: "bufferInv b2" "userCnt b2 = userCnt b1"
      "linkCnt b2 (out, tg, up) = satAdd (linkCnt b1 (out, tg, up)) (if out then outboundAmount E True ?x tg up else 0)"
      using outboundStep [OF b1(1) b2_def] by (simp_all add: outboundAmount_def)
    have b3: "bufferInv b3" "userCnt b3 = userCnt b2"
      "linkCnt b3 (out, tg, up) = satAdd (linkCnt b2 (out, tg, up)) (if out then 0 else inboundAmount E True ?x tg up)"
      using inboundStep [OF b2(1) b3_def] by (simp_all add: inboundAmount_def)
    have "(case fst (collectXrayUserStats E True s2) of Inl _ \<Rightarrow> 0 | Inr (stats, _) \<Rightarrow> userAmount stats k) = xrayAmount E True (afterLinks E ?x) k"
      using collectXray_fields(3) [where E = E and reset = True and s = s2 and k = k] s2(2) by simp
    moreover have "satAdd (linkCnt b1 (out, tg, up)) 0 = linkCnt b1 (out, tg, up)" "satAdd (linkCnt b2 (out, tg, up)) 0 = linkCnt b2 (out, tg, up)"
      using b1(1) b2(1) linkCnt_sat by (simp_all add: bufferInv_def)
    ultimately show ?thesis
      using usersStep [OF b3(1) final] True b1 b2 b3 linkCnt_sat [OF assms(2)] by (simp add: amount satAdd_satAdd)
  qed
qed

text \<open>
  A failure half way loses nothing: when Xray reports its outbounds and then fails to report its
  inbounds, the collection returns the error, and what was taken from the outbounds is in the buffer.
\<close>

theorem outbound_kept_when_inbound_fails:
  assumes "linksInv (coBuffer s)" and "coStarted s" and "collectOutboundUsage E reset s = (Inl err, s')"
  shows "linkCnt (coBuffer s') (True, tg, up) = satAdd (linkCnt (coBuffer s) (True, tg, up)) (outboundAmount E reset (coXray s) tg up)
    \<and> userCnt (coBuffer s') = userCnt (coBuffer s)"
proof (cases "QueryOutboundStats (ceClient E) reset (coXray s)")
  case (Pair r x)
  show ?thesis
  proof (cases r)
    case (Inl e)
    then show ?thesis using Pair assms linkCnt_sat [OF assms(1)]
      by (auto simp: collectOutboundUsage_def outboundAmount_def statsAmount_def)
  next
    case (Inr stats)
    then have "coBuffer s' = add (ceFs E 0) stats (coBuffer s)"
      using Pair assms(2,3) by (auto simp: collectOutboundUsage_def Let_def split: prod.splits sum.splits)
    moreover have "userCnt (add (ceFs E 0) stats (coBuffer s)) = userCnt (coBuffer s)"
      by (cases "coBuffer s") (simp add: add_def addOutboundLocked_def Let_def userCnt_def fun_eq_iff)
    ultimately show ?thesis
      using add_links(1) [OF assms(1), of "ceFs E 0" stats True tg up] Pair Inr by (simp add: outboundAmount_def statsAmount_def)
  qed
qed

text \<open>
  A collection without reset counts the same traffic again: when Xray answers a query without
  reset and stays as it was, two such collections add its counters to the buffer twice.
\<close>

theorem collect_without_reset_counts_twice:
  assumes "usersInv (coBuffer s)" and "coStarted s"
    and "\<And>pattern x. snd (scQueryStats (ceClient E) pattern False x) = x"
    and "independent E" and "\<And>w. managersAmount E w k = 0"
  shows "userCnt (coBuffer (snd (collectUserUsage E False scope (snd (collectUserUsage E False scope s))))) k
    = satAdd (userCnt (coBuffer s) k) (2 * xrayAmount E False (coXray s) k)"
proof -
  let ?s1 = "snd (collectUserUsage E False scope s)"
  have x: "snd (QueryUserStats (ceClient E) False x) = x" for x
    using assms(3) [of "''user>>>''" x] by (auto simp: QueryUserStats_def onStats_def queryStats_def split: option.split prod.splits sum.split)
  have "coXray (snd (collectXrayUserStats E False s)) = coXray s" "coStarted (snd (collectXrayUserStats E False s)) = coStarted s"
    using x [of "coXray s"] by (auto simp: collectXrayUserStats_def split: prod.splits sum.split)
  then have s1: "coXray ?s1 = coXray s" "coStarted ?s1"
    using assms(2) by (auto simp: collectUserUsage_def Let_def split_beta split: sum.split)
  have "usersInv (coBuffer ?s1)"
    using collectUserUsage_buffer [OF assms(4), where reset = False and scope = scope and s = s] usersInv_collect [OF assms(1)] by metis
  from collect_counts [OF this assms(4)] collect_counts [OF assms(1,4)] s1 assms(2,5)
  show ?thesis by (simp add: satAdd_satAdd)
qed

section \<open>Examples\<close>

text \<open>An Xray that has one user counter and fails to report inbounds, and services that each hand out what they have once.\<close>

definition exampleStats :: "counter list statsClient" where
  "exampleStats = \<lparr>scDial = \<lambda>x. None,
     scQueryStats = \<lambda>pattern reset x. (if pattern = ''inbound>>>'' then (Inl ''deadline exceeded'', x) else (Inr x, if reset then [] else x)),
     scOnlineUsers = \<lambda>x. Inr [''7''], scOnlineIpList = \<lambda>name x. NoSuchUser\<rparr>"

definition handOut :: "service \<Rightarrow> (service \<Rightarrow> userStat list) \<Rightarrow> userStat list \<times> (service \<Rightarrow> userStat list)" where
  "handOut p w = (w p, w(p := []))"

definition exampleCollect :: "(counter list, service \<Rightarrow> userStat list) collectEnv" where
  "exampleCollect = \<lparr>ceClient = exampleStats, ceOrder = rev, ceFs = \<lambda>_. fsFine,
     ceNow = 5, ceRate = \<lambda>b t. b * 1000000000 div nat t, ceOV = handOut OpenVPN, ceL2TP = handOut L2TPService, cePPTP = handOut PPTPService,
     ceWG = handOut WireGuardService, ceIKEv2 = handOut IKEv2Service, ceAnyConnect = handOut AnyConnectService,
     ceSSH = Some (handOut SSHService, \<lambda>w. []), ceExtraVPN = Some (handOut ExtraVPNService, \<lambda>w. [])\<rparr>"

definition quietCollect :: "(counter list, service \<Rightarrow> userStat list) collectEnv" where
  "quietCollect = exampleCollect\<lparr>ceOV := Pair [], ceL2TP := Pair [], cePPTP := Pair [], ceWG := Pair [], ceIKEv2 := Pair [], ceAnyConnect := Pair [],
     ceSSH := None, ceExtraVPN := None\<rparr>"

definition exampleCollectState :: "(counter list, service \<Rightarrow> userStat list) collectState" where
  "exampleCollectState = \<lparr>coBuffer = (newUsageBuffer, None), coXray = [Some (counterName ''user'' ''7'' ''uplink'', 5), None,
     Some (counterName ''outbound'' ''direct'' ''uplink'', 9)], coStarted = True, coStatsAt = None, coWorld = (\<lambda>p. [exampleUser])\<rparr>"

lemma example_buffer: "usersInv (coBuffer exampleCollectState)" "linksInv (coBuffer exampleCollectState)" "coStarted exampleCollectState"
  "userCnt (coBuffer exampleCollectState) k = 0" "linkCnt (coBuffer exampleCollectState) j = 0"
  by (simp_all add: exampleCollectState_def usersInv_def linksInv_def newUsageBuffer_def inRange_def statsInRange_def userCnt_def linkCnt_def split: prod.split)

lemma ask_example: "ask exampleCollect p = handOut p" "ask quietCollect p = Pair []"
  by (cases p; simp add: exampleCollect_def quietCollect_def)+

lemma example_independent: "independent exampleCollect" "independent quietCollect"
  by (simp_all add: independent_def reportOf_def ask_example handOut_def)

lemma example_managers: "managersAmount quietCollect w k = 0" "reportOf exampleCollect (coWorld exampleCollectState) ''7'' p = 10"
  by (simp_all add: managersAmount_def reportOf_def ask_example handOut_def exampleCollectState_def userUsageBufferKey_def)

lemma example_sum: "(\<Sum>p\<in>UNIV. reportOf exampleCollect (coWorld exampleCollectState) ''7'' p) = 80"
  unfolding UNIV_service by (simp add: example_managers)

lemma example_names:
  "splitOn (counterName ''user'' ''7'' ''uplink'') ''>>>'' = [''user'', ''7'', ''traffic'', ''uplink'']"
  "splitOn (counterName ''outbound'' ''direct'' ''uplink'') ''>>>'' = [''outbound'', ''direct'', ''traffic'', ''uplink'']"
  "toLower (trimSpace ''uplink'') = ''uplink''" "trimSpace ''7'' = ''7''" "trimSpace ''direct'' = ''direct''" "equalFold ''direct'' ''api'' = False"
  by (simp_all add: counterName_parts) code_simp+

lemma example_user: "parseUserStatCounter (counterName ''user'' ''7'' ''uplink'') = Some ((''7'', []), ''uplink'')"
  "parseUserStatCounter (counterName ''outbound'' ''direct'' ''uplink'') = None"
  by (simp_all add: parseUserStatCounter_def parseUserStatIdentity_def example_names parseUserEmailIdentity_def Let_def hasPrefix_def)

lemma example_outbound: "parseOutboundStatName (counterName ''user'' ''7'' ''uplink'') = None"
  "parseOutboundStatName (counterName ''outbound'' ''direct'' ''uplink'') = Some (''direct'', ''uplink'')"
  by (simp_all add: parseOutboundStatName_def parseLinkStatName_def example_names Let_def)

lemma example_amounts:
  "xrayAmount exampleCollect reset (coXray exampleCollectState) ''7'' = 5"
  "outboundAmount exampleCollect reset (coXray exampleCollectState) ''direct'' True = 9"
  by (simp_all add: xrayAmount_def outboundAmount_def statsAmount_def QueryUserStats_def QueryOutboundStats_def queryStats_def onStats_def
      exampleCollect_def exampleStats_def exampleCollectState_def userStatsFromCounters_def outboundStatsFromCounters_def linkRows_def
      example_user example_outbound apiOutbound_def example_names addUserLink_def addLink_def addStatCounter_def newUserStat_def mget_def
      userUsageBufferKey_def Let_def)

lemma example_quiet: "xrayAmount quietCollect reset x k = xrayAmount exampleCollect reset x k"
  by (simp add: xrayAmount_def quietCollect_def)

theorem collect_records_reports_witness:
  "userCnt (coBuffer (snd (collectUserUsage exampleCollect True None exampleCollectState))) ''7'' = 85"
  using collect_records_reports [OF example_buffer(1) example_independent(1), of True None "''7''"] example_buffer(3,4)
  by (simp add: example_amounts example_sum satAdd_def)

theorem collect_without_reset_counts_twice_witness:
  "userCnt (coBuffer (snd (collectUserUsage quietCollect False None (snd (collectUserUsage quietCollect False None exampleCollectState))))) ''7'' = 10"
proof -
  have "snd (scQueryStats (ceClient quietCollect) pattern False x) = x" for pattern x
    by (simp add: quietCollect_def exampleCollect_def exampleStats_def)
  from collect_without_reset_counts_twice [OF example_buffer(1,3) this example_independent(2) example_managers(1) [of _ "''7''"], of None]
  show ?thesis using example_buffer(4) by (simp add: example_amounts example_quiet satAdd_def)
qed

lemma example_queries:
  "QueryOutboundStats (ceClient exampleCollect) True x = (Inr (outboundStatsFromCounters x), [])"
  "QueryInboundStats (ceClient exampleCollect) True x = (Inl ''query Xray stats: deadline exceeded'', x)"
  by (simp_all add: QueryOutboundStats_def QueryInboundStats_def queryStats_def onStats_def exampleCollect_def exampleStats_def)

theorem outbound_kept_when_inbound_fails_witness:
  "\<exists>s'. collectOutboundUsage exampleCollect True exampleCollectState = (Inl ''query Xray stats: deadline exceeded'', s')
     \<and> linkCnt (coBuffer s') (True, ''direct'', True) = 9"
proof -
  obtain s' where "collectOutboundUsage exampleCollect True exampleCollectState = (Inl ''query Xray stats: deadline exceeded'', s')"
    using example_buffer(3)
    by (simp add: collectOutboundUsage_def example_queries Let_def)
  with outbound_kept_when_inbound_fails [OF example_buffer(2,3) this, of "''direct''" True] show ?thesis
    by (simp add: example_amounts example_buffer satAdd_def)
qed

lemma example_after: "afterLinks exampleCollect x = []"
  by (simp add: afterLinks_def example_queries)

lemma example_drained: "xrayAmount exampleCollect True [] ''7'' = 0"
  by (simp add: xrayAmount_def QueryUserStats_def queryStats_def onStats_def exampleCollect_def exampleStats_def userStatsFromCounters_def)

theorem stop_snapshot_complete_witness:
  "userCnt (coBuffer (snapshotRunningUsage exampleCollect exampleCollectState)) ''7'' = 80
    \<and> linkCnt (coBuffer (snapshotRunningUsage exampleCollect exampleCollectState)) (True, ''direct'', True) = 9"
  using stop_snapshot_complete [OF example_buffer(1,2) example_independent(1), of "''7''" True "''direct''" True] example_buffer(3,4,5)
  by (simp add: example_amounts example_sum example_after example_drained satAdd_def)

end
