(* ===== verification/VPN_Sessions.thy ===== *)
theory VPN_Sessions
  imports Text_Util Proxyman
begin

text \<open>
  Sessions of the native VPNs: \<open>internal/node/vpn_sessions.go\<close>. The state is the file
  \<open>vpn-sessions.tsv\<close>, one line for a session; every operation holds the process mutex and a lock on
  the file, so that a run is a sequence of them. The shell scripts the daemons run on the same file
  are not modelled: the theorems start from a file with any content. Results: an address of an
  inbound belongs to at most one session, an admission never takes a user over the device limit, a
  refused one changes nothing, and a released session is gone.
\<close>

section \<open>Data\<close>

record vpnSessionCallback =
  cbURL :: string
  cbToken :: string
  cbNodeID :: int

record vpnSessionEvent =
  evNodeID :: int
  evUserID :: int
  evProtocol :: string
  evInboundTag :: string
  evSessionID :: string
  evAssignedIP :: string
  evClientIP :: string
  evEvent :: string

type_synonym sessionRecord = "string list"
type_synonym sessionFile = "string option"

text \<open>
  \<open>veLockErr\<close>: the lock of the file failed. \<open>veWrite\<close>: what is in the file after writing a text over
  the old content. \<open>vePost\<close>: the status the master answers to an address, a token and an event, \<open>None\<close>
  when the request fails.
\<close>

record vpnEnv =
  veLockErr :: "string option"
  veWrite :: "string \<Rightarrow> sessionFile \<Rightarrow> sessionFile"
  vePost :: "string \<Rightarrow> string \<Rightarrow> vpnSessionEvent \<Rightarrow> int option"
  veNow :: int

abbreviation tab :: char where "tab \<equiv> CHR 0x09"
abbreviation newline :: char where "newline \<equiv> CHR 0x0A"

section \<open>The callback of the master\<close>

definition normalizedVPNProtocol :: "string \<Rightarrow> string" where
  "normalizedVPNProtocol value =
     (let v = toLower (trimSpace value) in
      if v = ''openvpn'' then ''ov'' else if v = ''wireguard'' then ''wg'' else v)"

definition vpnSessionCallbackReady :: "vpnSessionCallback option \<Rightarrow> bool" where
  "vpnSessionCallbackReady callback = (case callback of None \<Rightarrow> False
     | Some cb \<Rightarrow> trimSpace (cbURL cb) \<noteq> [] \<and> trimSpace (cbToken cb) \<noteq> [] \<and> 0 < cbNodeID cb)"

definition sentEvent :: "vpnSessionCallback \<Rightarrow> vpnSessionEvent \<Rightarrow> vpnSessionEvent" where
  "sentEvent cb event = event\<lparr>evNodeID := cbNodeID cb, evProtocol := normalizedVPNProtocol (evProtocol event),
     evInboundTag := safeName (evInboundTag event), evSessionID := safeName (evSessionID event)\<rparr>"

definition vpnSendSession :: "vpnEnv \<Rightarrow> vpnSessionCallback option \<Rightarrow> vpnSessionEvent \<Rightarrow> bool" where
  "vpnSendSession E callback event =
     (if \<not> vpnSessionCallbackReady callback then True
      else case callback of None \<Rightarrow> True
        | Some cb \<Rightarrow> (case vePost E (trimSpace (cbURL cb)) (trimSpace (cbToken cb)) (sentEvent cb event) of
            None \<Rightarrow> False | Some status \<Rightarrow> 200 \<le> status \<and> status < 300))"

text \<open>The text of the file the shell scripts read.\<close>

definition vpnSessionCallbackBody :: "vpnSessionCallback option \<Rightarrow> string" where
  "vpnSessionCallbackBody callback =
     (case callback of
        Some cb \<Rightarrow>
          if trimSpace (cbURL cb) \<noteq> [] \<and> trimSpace (cbToken cb) \<noteq> [] \<and> 0 < cbNodeID cb
          then textLine (''CALLBACK_URL='' @ quoteGo (trimSpace (cbURL cb))) @ textLine (''CALLBACK_TOKEN='' @ quoteGo (trimSpace (cbToken cb)))
            @ textLine (''CALLBACK_NODE_ID='' @ formatInt (cbNodeID cb))
          else textLine ''CALLBACK_URL='' @ textLine ''CALLBACK_TOKEN='' @ textLine ''CALLBACK_NODE_ID=''
      | None \<Rightarrow> textLine ''CALLBACK_URL='' @ textLine ''CALLBACK_TOKEN='' @ textLine ''CALLBACK_NODE_ID='')"

section \<open>The file\<close>

definition vpnSessionRecordsLocked :: "sessionFile \<Rightarrow> sessionRecord list" where
  "vpnSessionRecordsLocked tsv = (case tsv of None \<Rightarrow> []
     | Some raw \<Rightarrow> map (\<lambda>l. splitOn l [tab]) (filter (\<lambda>l. l \<noteq> []) (map trimSpace (splitOn raw [newline]))))"

definition sessionText :: "sessionRecord list \<Rightarrow> string" where
  "sessionText records = concat (map (\<lambda>r. textLine (joinWith [tab] r)) (filter (\<lambda>r. r \<noteq> []) records))"

definition vpnWriteSessionRecordsLocked :: "vpnEnv \<Rightarrow> sessionRecord list \<Rightarrow> sessionFile \<Rightarrow> sessionFile" where
  "vpnWriteSessionRecordsLocked E records tsv = veWrite E (sessionText records) tsv"

definition vpnSessionDeviceKey :: "string \<Rightarrow> string \<Rightarrow> string" where
  "vpnSessionDeviceKey assignedIP clientIP =
     (if trimSpace clientIP \<noteq> [] then ''client:'' @ safeName (trimSpace clientIP)
      else if trimSpace assignedIP \<noteq> [] then ''assigned:'' @ safeName (trimSpace assignedIP)
      else [])"

definition vpnRecordDeviceKey :: "sessionRecord \<Rightarrow> string" where
  "vpnRecordDeviceKey record =
     (if length record < 4 then []
      else let assignedIP = (if 5 \<le> length record then record ! 4 else []); clientIP = (if 7 \<le> length record then record ! 5 else []) in
        if trimSpace assignedIP = [] \<and> trimSpace clientIP = [] then [] else vpnSessionDeviceKey assignedIP clientIP)"

section \<open>Admission and release\<close>

text \<open>A record that stays: it has a device, is not the same session and not the reconnect of an OpenVPN address.\<close>

definition keptRecord :: "vpnSessionEvent \<Rightarrow> sessionRecord \<Rightarrow> bool" where
  "keptRecord event record =
     (vpnRecordDeviceKey record \<noteq> []
      \<and> \<not> (4 \<le> length record \<and> record ! 3 = safeName (evSessionID event))
      \<and> \<not> (normalizedVPNProtocol (evProtocol event) = ''ov'' \<and> trimSpace (evAssignedIP event) \<noteq> [] \<and> 5 \<le> length record
           \<and> record ! 0 = formatInt (evUserID event) \<and> record ! 1 = normalizedVPNProtocol (evProtocol event)
           \<and> record ! 2 = safeName (evInboundTag event) \<and> record ! 4 = trimSpace (evAssignedIP event)))"

definition sameAddress :: "vpnSessionEvent \<Rightarrow> sessionRecord \<Rightarrow> bool" where
  "sameAddress event record =
     (5 \<le> length record \<and> record ! 1 = normalizedVPNProtocol (evProtocol event) \<and> record ! 2 = safeName (evInboundTag event)
      \<and> record ! 4 \<noteq> [] \<and> record ! 4 = trimSpace (evAssignedIP event))"

text \<open>The devices of a user: the keys of its records, each once.\<close>

definition userDevices :: "string \<Rightarrow> sessionRecord list \<Rightarrow> string list" where
  "userDevices uidText records = remdups (filter (\<lambda>k. k \<noteq> []) (map vpnRecordDeviceKey (filter (\<lambda>r. 1 \<le> length r \<and> r ! 0 = uidText) records)))"

definition newRecord :: "vpnEnv \<Rightarrow> vpnSessionEvent \<Rightarrow> sessionRecord" where
  "newRecord E event = [formatInt (evUserID event), normalizedVPNProtocol (evProtocol event), safeName (evInboundTag event),
     safeName (evSessionID event), trimSpace (evAssignedIP event), trimSpace (evClientIP event), formatInt (veNow E)]"

text \<open>What happens under the lock: \<open>None\<close> when the session is refused, and whether the master was asked.\<close>

definition admitRecords :: "vpnEnv \<Rightarrow> vpnSessionCallback option \<Rightarrow> vpnSessionEvent \<Rightarrow> int \<Rightarrow> sessionRecord list \<Rightarrow> (sessionRecord list \<times> bool) option" where
  "admitRecords E callback event limit records =
     (let kept = filter (keptRecord event) records;
          deviceKey = vpnSessionDeviceKey (evAssignedIP event) (evClientIP event);
          devices = userDevices (formatInt (evUserID event)) kept
      in if 0 < limit \<and> deviceKey = [] then None
         else if list_ex (sameAddress event) kept then None
         else if 0 < limit \<and> limit \<le> int (length devices) \<and> deviceKey \<notin> set devices then None
         else if 0 < limit \<and> vpnSessionCallbackReady callback
           then (if vpnSendSession E callback event then Some (kept @ [newRecord E event], True) else None)
         else Some (kept @ [newRecord E event], False))"

text \<open>The result, the events that are sent without waiting, and the file.\<close>

definition vpnAdmitGoSession :: "vpnEnv \<Rightarrow> vpnSessionCallback option \<Rightarrow> vpnSessionEvent \<Rightarrow> int \<Rightarrow> sessionFile
    \<Rightarrow> bool \<times> vpnSessionEvent list \<times> sessionFile" where
  "vpnAdmitGoSession E callback event limit tsv =
     (if evUserID event \<le> 0 \<or> trimSpace (evSessionID event) = [] then (False, [], tsv)
      else case veLockErr E of Some _ \<Rightarrow> (False, [], tsv)
        | None \<Rightarrow> (case admitRecords E callback event limit (vpnSessionRecordsLocked tsv) of
            None \<Rightarrow> (False, [], tsv)
          | Some (records, preauthorized) \<Rightarrow>
              (True, if preauthorized then [] else [event], vpnWriteSessionRecordsLocked E records tsv)))"

definition vpnReleaseGoSession :: "vpnEnv \<Rightarrow> vpnSessionEvent \<Rightarrow> sessionFile \<Rightarrow> vpnSessionEvent list \<times> sessionFile" where
  "vpnReleaseGoSession E event tsv =
     (if evUserID event \<le> 0 \<or> trimSpace (evSessionID event) = [] then ([], tsv)
      else case veLockErr E of Some _ \<Rightarrow> ([event], tsv)
        | None \<Rightarrow> ([event], vpnWriteSessionRecordsLocked E
            (filter (\<lambda>r. \<not> (4 \<le> length r \<and> r ! 3 = safeName (evSessionID event))) (vpnSessionRecordsLocked tsv)) tsv))"

definition vpnUserCanOpenSession :: "vpnEnv \<Rightarrow> int \<Rightarrow> int \<Rightarrow> sessionFile \<Rightarrow> bool" where
  "vpnUserCanOpenSession E userID limit tsv =
     (if userID \<le> 0 \<or> limit \<le> 0 then True
      else case veLockErr E of Some _ \<Rightarrow> False
        | None \<Rightarrow> int (length (userDevices (formatInt userID) (vpnSessionRecordsLocked tsv))) < limit)"

section \<open>Telling the master that the node is ready\<close>

text \<open>
  The attempts that were made, with the seconds waited, and whether one succeeded; \<open>answer i\<close> is what
  \<open>vpnSendSession\<close> returns the \<open>i\<close>-th time.
\<close>

function notifyFrom :: "(nat \<Rightarrow> bool) \<Rightarrow> nat \<Rightarrow> nat \<Rightarrow> bool \<times> nat \<times> nat" where
  "notifyFrom answer attempt waited =
     (if 5 \<le> attempt then (False, attempt, waited)
      else if answer attempt then (True, attempt, waited)
      else notifyFrom answer (Suc attempt) (waited + 2 ^ attempt))"
  by pat_completeness auto
termination
  by (relation "measure (\<lambda>(_, attempt, _). 5 - attempt)") auto

definition notifyMasterReady :: "vpnSessionCallback option \<Rightarrow> (nat \<Rightarrow> bool) \<Rightarrow> bool \<times> nat \<times> nat" where
  "notifyMasterReady callback answer = (case callback of None \<Rightarrow> (True, 0, 0) | Some _ \<Rightarrow> notifyFrom answer 0 0)"

section \<open>The text of the file\<close>

lemma stripRunes_set: "set (stripRunes rs s) \<subseteq> set s"
  using stripRunes_suffix [of s rs] by (metis set_append sup.cobounded2)

lemma trimSpace_set: "set (trimSpace s) \<subseteq> set s"
  using stripRunes_set [of "map rev space_runes" "rev (trimLeftSpace s)"] stripRunes_set [of space_runes s]
  by (auto simp: trimSpace_def trimRightSpace_def trimLeftSpace_def)

text \<open>A record whose line is read back as the record.\<close>

definition lineOk :: "sessionRecord \<Rightarrow> bool" where
  "lineOk r \<longleftrightarrow> r \<noteq> [] \<and> (\<forall>f \<in> set r. tab \<notin> set f \<and> newline \<notin> set f)
     \<and> joinWith [tab] r \<noteq> [] \<and> trimSpace (joinWith [tab] r) = joinWith [tab] r"

lemma read_lineOk:
  assumes "r \<in> set (vpnSessionRecordsLocked tsv)"
  shows "lineOk r"
proof -
  obtain raw l0 where l0: "tsv = Some raw" "l0 \<in> set (splitOn raw [newline])" "trimSpace l0 \<noteq> []" "r = splitOn (trimSpace l0) [tab]"
    using assms by (auto simp: vpnSessionRecordsLocked_def split: option.splits)
  have "newline \<notin> set (trimSpace l0)" using splitOn_fields [OF l0(2)] trimSpace_set by auto
  then have "newline \<notin> set f" if "f \<in> set r" for f using set_splitOn [of f "trimSpace l0" "[tab]"] that l0(4) by auto
  moreover have "tab \<notin> set f" if "f \<in> set r" for f using splitOn_fields that l0(4) by auto
  ultimately show ?thesis using l0(3,4) by (simp add: lineOk_def joinWith_splitOn)
qed

lemma read_write:
  assumes "\<forall>r \<in> set rs. lineOk r"
  shows "vpnSessionRecordsLocked (Some (sessionText rs)) = rs"
  using assms
proof (induction rs)
  case Nil
  have "splitOn [] [newline] = [[]]" by (simp add: splitOn_absent)
  then show ?case by (simp add: sessionText_def vpnSessionRecordsLocked_def)
next
  case (Cons r rs)
  let ?l = "joinWith [tab] r"
  have r: "lineOk r" using Cons.prems by simp
  have "newline \<notin> set ?l" using r joinWith_set [of newline "[tab]" r] by (auto simp: lineOk_def)
  then have "splitOn (sessionText (r # rs)) [newline] = ?l # splitOn (sessionText rs) [newline]"
    using r splitOn_append [of "[newline]" ?l "sessionText rs"] by (simp add: sessionText_def textLine_def lineOk_def)
  moreover have "splitOn ?l [tab] = r" using r by (intro splitOn_joinWith) (auto simp: lineOk_def)
  ultimately show ?case using Cons r by (simp add: vpnSessionRecordsLocked_def lineOk_def)
qed

lemma set_dropWhile_sub: "set (dropWhile P xs) \<subseteq> set xs"
  by (auto dest: set_dropWhileD)

lemma trimChars_set: "set (trimChars cs s) \<subseteq> set s"
  using set_dropWhile_sub [of "\<lambda>c. c \<in> cs" "rev (dropWhile (\<lambda>c. c \<in> cs) s)"] set_dropWhile_sub [of "\<lambda>c. c \<in> cs" s]
  unfolding trimChars_def set_rev by (rule order_trans)

lemma replaceRunes_set: "x \<in> set (replaceRunes keep r s) \<Longrightarrow> keep x \<or> x = r"
  by (induction keep r s rule: replaceRunes.induct) (auto split: if_splits)

lemma safeName_set: "c \<in> set (safeName v) \<Longrightarrow> alphaNum c \<or> c = CHR ''-'' \<or> c = CHR ''_''"
proof -
  define out where "out = replaceRunes (\<lambda>c. alphaNum c \<or> c = CHR ''-'' \<or> c = CHR ''_'') CHR ''-'' (trimSpace v)"
  have dflt: "list_all alphaNum ''openvpn''" by (simp add: alphaNum_def)
  have "safeName v = ''openvpn'' \<or> safeName v = trimChars {CHR ''-''} out" by (simp add: safeName_def Let_def out_def)
  moreover assume "c \<in> set (safeName v)"
  ultimately consider "c \<in> set ''openvpn''" | "c \<in> set out" using trimChars_set [of "{CHR ''-''}" out] by auto
  then show ?thesis
  proof cases
    case 1
    then show ?thesis using dflt unfolding list_all_iff by blast
  next
    case 2
    then show ?thesis unfolding out_def by (rule replaceRunes_set [THEN disjE]) auto
  qed
qed

lemma safeName_plain: "tab \<notin> set (safeName v)" "newline \<notin> set (safeName v)"
  by (auto dest!: safeName_set simp: alphaNum_def)

lemma formatUint_graphic: "c \<in> set (formatUint n) \<Longrightarrow> graphic c"
  using formatUint_digits [of c n] by (simp add: graphic_def)

lemma formatInt_graphic: "c \<in> set (formatInt i) \<Longrightarrow> graphic c" "formatInt i \<noteq> []"
  by (auto simp: formatInt_def graphic_def formatUint_not_Nil dest!: formatUint_graphic split: if_splits)

text \<open>An event whose texts have no tabs and no line ends inside.\<close>

definition plainEvent :: "vpnSessionEvent \<Rightarrow> bool" where
  "plainEvent event \<longleftrightarrow> (\<forall>f \<in> {normalizedVPNProtocol (evProtocol event), trimSpace (evAssignedIP event), trimSpace (evClientIP event)}.
     tab \<notin> set f \<and> newline \<notin> set f)"

lemma last_joinWith: "fs \<noteq> [] \<Longrightarrow> last fs \<noteq> [] \<Longrightarrow> last (joinWith sep fs) = last (last fs) \<and> joinWith sep fs \<noteq> []"
  by (induction sep fs rule: joinWith.induct) auto

lemma hd_joinWith: "fs \<noteq> [] \<Longrightarrow> hd fs \<noteq> [] \<Longrightarrow> hd (joinWith sep fs) = hd (hd fs)"
  by (induction sep fs rule: joinWith.induct) auto

lemma newRecord_lineOk:
  assumes "plainEvent event"
  shows "lineOk (newRecord E event)"
proof -
  let ?r = "newRecord E event"
  have g: "\<not> graphic tab" "\<not> graphic newline" by (simp_all add: graphic_def)
  have "tab \<notin> set f \<and> newline \<notin> set f" if "f \<in> set ?r" for f
    using that assms safeName_plain g formatInt_graphic(1) by (auto simp: newRecord_def plainEvent_def)
  moreover have j: "last (joinWith [tab] ?r) = last (formatInt (veNow E))" "joinWith [tab] ?r \<noteq> []" "hd (joinWith [tab] ?r) = hd (formatInt (evUserID event))"
    using last_joinWith [of ?r "[tab]"] hd_joinWith [of ?r "[tab]"] formatInt_graphic(2) by (simp_all add: newRecord_def)
  moreover have "trimSpace (joinWith [tab] ?r) = joinWith [tab] ?r"
    using j formatInt_graphic(1) [OF hd_in_set [OF formatInt_graphic(2)]] formatInt_graphic(1) [OF last_in_set [OF formatInt_graphic(2)]]
    by (intro trimSpace_graphic) simp_all
  ultimately show ?thesis by (simp add: lineOk_def) (simp add: newRecord_def)
qed

section \<open>Invariant\<close>

text \<open>Two records that hold the same address of the same inbound of a protocol.\<close>

definition clash :: "sessionRecord \<Rightarrow> sessionRecord \<Rightarrow> bool" where
  "clash a b \<longleftrightarrow> 5 \<le> length a \<and> 5 \<le> length b \<and> a ! 1 = b ! 1 \<and> a ! 2 = b ! 2 \<and> a ! 4 = b ! 4 \<and> a ! 4 \<noteq> []"

definition noClash :: "sessionRecord list \<Rightarrow> bool" where
  "noClash rs \<longleftrightarrow> sorted_wrt (\<lambda>a b. \<not> clash a b) rs"

lemma noClash_filter: "noClash rs \<Longrightarrow> noClash (filter P rs)"
  by (simp add: noClash_def sorted_wrt_filter)

lemma clash_new: "clash r (newRecord E event) \<Longrightarrow> sameAddress event r"
  by (auto simp: clash_def sameAddress_def newRecord_def)

lemma admitRecords_kept:
  assumes "admitRecords E callback event limit rs = Some (rs', pre)"
  shows "rs' = filter (keptRecord event) rs @ [newRecord E event]"
    "\<And>r. r \<in> set (filter (keptRecord event) rs) \<Longrightarrow> \<not> sameAddress event r"
  using assms by (auto simp: admitRecords_def Let_def list_ex_iff split: if_splits)

lemma admitRecords_noClash:
  assumes "noClash rs" and "admitRecords E callback event limit rs = Some (rs', pre)"
  shows "noClash rs'"
  using noClash_filter [OF assms(1), of "keptRecord event"] admitRecords_kept [OF assms(2)] clash_new [of _ E event]
  by (auto simp: noClash_def sorted_wrt_append)

text \<open>A call on the file by an environment whose writes succeed.\<close>

datatype sessionCall = Admit vpnEnv "vpnSessionCallback option" vpnSessionEvent int | Release vpnEnv vpnSessionEvent

fun sessionCallOp :: "sessionCall \<Rightarrow> sessionFile \<Rightarrow> sessionFile" where
  "sessionCallOp (Admit E callback event limit) tsv = snd (snd (vpnAdmitGoSession E callback event limit tsv))"
| "sessionCallOp (Release E event) tsv = snd (vpnReleaseGoSession E event tsv)"

fun sessionCallOk :: "sessionCall \<Rightarrow> bool" where
  "sessionCallOk (Admit E callback event limit) \<longleftrightarrow> veWrite E = (\<lambda>new old. Some new) \<and> plainEvent event"
| "sessionCallOk (Release E event) \<longleftrightarrow> veWrite E = (\<lambda>new old. Some new)"

lemma admitted_file:
  assumes "vpnAdmitGoSession E callback event limit tsv = (True, sent, tsv')" and "veWrite E = (\<lambda>new old. Some new)" and "plainEvent event"
  shows "\<exists>pre. admitRecords E callback event limit (vpnSessionRecordsLocked tsv) = Some (vpnSessionRecordsLocked tsv', pre)"
proof -
  obtain rs pre where a: "admitRecords E callback event limit (vpnSessionRecordsLocked tsv) = Some (rs, pre)" "tsv' = Some (sessionText rs)"
    using assms(1,2) by (auto simp: vpnAdmitGoSession_def vpnWriteSessionRecordsLocked_def split: if_splits option.splits prod.splits)
  have "\<forall>r \<in> set rs. lineOk r" using admitRecords_kept(1) [OF a(1)] read_lineOk newRecord_lineOk [OF assms(3)] by auto
  from read_write [OF this] a show ?thesis by simp
qed

lemma refused_file: "vpnAdmitGoSession E callback event limit tsv = (False, sent, tsv') \<Longrightarrow> sent = [] \<and> tsv' = tsv"
  by (auto simp: vpnAdmitGoSession_def split: if_splits option.splits prod.splits)

lemma released_file:
  assumes "veWrite E = (\<lambda>new old. Some new)" and "veLockErr E = None" and "0 < evUserID event" and "trimSpace (evSessionID event) \<noteq> []"
  shows "vpnSessionRecordsLocked (snd (vpnReleaseGoSession E event tsv))
    = filter (\<lambda>r. \<not> (4 \<le> length r \<and> r ! 3 = safeName (evSessionID event))) (vpnSessionRecordsLocked tsv)"
  using assms read_lineOk [of _ tsv] by (simp add: vpnReleaseGoSession_def vpnWriteSessionRecordsLocked_def read_write)

lemma release_cases:
  "veWrite E = (\<lambda>new old. Some new) \<Longrightarrow> snd (vpnReleaseGoSession E event tsv) = tsv
    \<or> (\<exists>P. vpnSessionRecordsLocked (snd (vpnReleaseGoSession E event tsv)) = filter P (vpnSessionRecordsLocked tsv))"
  using released_file [of E event tsv]
  by (cases "veLockErr E = None \<and> 0 < evUserID event \<and> trimSpace (evSessionID event) \<noteq> []")
    (auto simp: vpnReleaseGoSession_def split: option.splits)

lemma sessionCall_noClash:
  assumes "sessionCallOk c" and "noClash (vpnSessionRecordsLocked tsv)"
  shows "noClash (vpnSessionRecordsLocked (sessionCallOp c tsv))"
proof (cases c)
  case (Admit E callback event limit)
  obtain ok sent tsv' where r: "vpnAdmitGoSession E callback event limit tsv = (ok, sent, tsv')" by (metis prod_cases3)
  show ?thesis
  proof (cases ok)
    case True
    then show ?thesis using admitted_file [of E callback event limit tsv sent tsv'] admitRecords_noClash [OF assms(2)] assms(1) Admit r by auto
  next
    case False
    then show ?thesis using refused_file [of E callback event limit tsv sent tsv'] r assms(2) Admit by auto
  qed
next
  case (Release E event)
  then show ?thesis using release_cases [of E event tsv] assms noClash_filter by auto
qed

section \<open>Properties\<close>

text \<open>
  (C38) An address belongs to one session: start from a session file in which no two sessions hold the
  same address of the same inbound, and let sessions be admitted and released in any order, with
  any limits, failing locks and answers of the master. Then still no two do.
\<close>

theorem session_addresses_distinct:
  assumes "noClash (vpnSessionRecordsLocked tsv)" and "list_all sessionCallOk calls"
  shows "noClash (vpnSessionRecordsLocked (fold sessionCallOp calls tsv))"
  using assms by (induction calls arbitrary: tsv) (simp_all add: sessionCall_noClash)

lemma userDevices_append:
  "set (userDevices uid (rs @ [r])) \<subseteq> insert (vpnRecordDeviceKey r) (set (userDevices uid rs))"
  by (auto simp: userDevices_def)

lemma userDevices_mono: "set (userDevices uid (filter P rs)) \<subseteq> set (userDevices uid rs)"
  by (auto simp: userDevices_def)

lemma newRecord_key: "vpnRecordDeviceKey (newRecord E event) = vpnSessionDeviceKey (evAssignedIP event) (evClientIP event)"
  by (simp add: newRecord_def vpnRecordDeviceKey_def vpnSessionDeviceKey_def Let_def)

lemma length_userDevices: "length (userDevices uid rs) = card (set (userDevices uid rs))"
  unfolding userDevices_def by (simp add: distinct_card [symmetric])

text \<open>
  (C39) An admission keeps the device limit: a user who had at most \<open>limit\<close> devices has at most \<open>limit\<close>
  after a session was admitted under a positive limit, and one who had more, because the limit was
  lowered, has no more than before. The session is in the tsv, with its device. An admission that
  is refused leaves the tsv and sends the master no event of a session; the request by which
  the master was asked for its permission is not such an event.
\<close>

theorem admission_keeps_device_limit:
  assumes "vpnAdmitGoSession E callback event limit tsv = (ok, sent, tsv')" and "0 < limit"
    and "veWrite E = (\<lambda>new old. Some new)" and "plainEvent event"
  shows "if ok
    then int (length (userDevices (formatInt (evUserID event)) (vpnSessionRecordsLocked tsv')))
        \<le> max limit (int (length (userDevices (formatInt (evUserID event)) (vpnSessionRecordsLocked tsv))))
      \<and> newRecord E event \<in> set (vpnSessionRecordsLocked tsv')
    else sent = [] \<and> tsv' = tsv"
proof (cases ok)
  case False
  then show ?thesis using assms(1) refused_file by simp
next
  case True
  let ?uid = "formatInt (evUserID event)" and ?rs = "vpnSessionRecordsLocked tsv" and ?key = "vpnSessionDeviceKey (evAssignedIP event) (evClientIP event)"
  let ?kept = "filter (keptRecord event) ?rs"
  have "vpnAdmitGoSession E callback event limit tsv = (True, sent, tsv')" using assms(1) True by simp
  from admitted_file [OF this assms(3,4)]
  obtain pre where a: "admitRecords E callback event limit ?rs = Some (vpnSessionRecordsLocked tsv', pre)" by blast
  have tsv': "vpnSessionRecordsLocked tsv' = ?kept @ [newRecord E event]" by (rule admitRecords_kept(1) [OF a])
  have sub: "set (userDevices ?uid (vpnSessionRecordsLocked tsv')) \<subseteq> insert ?key (set (userDevices ?uid ?kept))"
    using userDevices_append [of ?uid ?kept "newRecord E event"] by (simp add: tsv' newRecord_key)
  have old: "set (userDevices ?uid ?kept) \<subseteq> set (userDevices ?uid ?rs)" by (rule userDevices_mono)
  have lim: "int (length (userDevices ?uid ?kept)) < limit \<or> ?key \<in> set (userDevices ?uid ?kept)"
    using a assms(2) by (auto simp: admitRecords_def Let_def split: if_splits)
  have "card (set (userDevices ?uid (vpnSessionRecordsLocked tsv'))) \<le> card (insert ?key (set (userDevices ?uid ?kept)))"
    by (rule card_mono [OF _ sub]) simp
  moreover have "card (insert ?key (set (userDevices ?uid ?kept))) \<le> Suc (card (set (userDevices ?uid ?kept)))"
    by (rule card_insert_le_m1) simp_all
  moreover have "insert ?key (set (userDevices ?uid ?kept)) = set (userDevices ?uid ?kept)" if "?key \<in> set (userDevices ?uid ?kept)" using that by auto
  moreover have "card (set (userDevices ?uid ?kept)) \<le> card (set (userDevices ?uid ?rs))" by (rule card_mono [OF _ old]) simp
  ultimately have "int (length (userDevices ?uid (vpnSessionRecordsLocked tsv'))) \<le> max limit (int (length (userDevices ?uid ?rs)))"
    using lim unfolding length_userDevices by (smt (verit) of_nat_Suc of_nat_mono)
  then show ?thesis using True by (simp add: tsv')
qed

text \<open>
  A released session is gone and nothing else: the release of a session removes exactly the
  records of that session, whatever the file held.
\<close>

theorem release_removes_session:
  assumes "veWrite E = (\<lambda>new old. Some new)" and "veLockErr E = None" and "0 < evUserID event" and "trimSpace (evSessionID event) \<noteq> []"
  shows "vpnSessionRecordsLocked (snd (vpnReleaseGoSession E event tsv))
    = filter (\<lambda>r. \<not> (4 \<le> length r \<and> r ! 3 = safeName (evSessionID event))) (vpnSessionRecordsLocked tsv)"
  using assms by (rule released_file)

text \<open>
  Telling the master ends: the node tries at most five times, waits one second, two, four, eight and
  sixteen in between, at most 31 in all, and reports a failure only when all five failed.
\<close>

theorem notify_master_ends:
  "case notifyMasterReady (Some callback) answer of (ok, attempts, waited) \<Rightarrow>
     attempts \<le> 5 \<and> waited = 2 ^ attempts - 1 \<and> waited \<le> 31 \<and> (ok \<longleftrightarrow> (\<exists>i < 5. answer i))"
proof -
  have "case notifyFrom answer n w of (ok, a, v) \<Rightarrow> a \<le> 5 \<and> v = 2 ^ a - 1 \<and> v \<le> 31 \<and> (ok \<longleftrightarrow> (\<exists>i. n \<le> i \<and> i < 5 \<and> answer i))"
    if "n \<le> 5" "w = 2 ^ n - 1" for n w
    using that
  proof (induction answer n w rule: notifyFrom.induct)
    case (1 answer n w)
    show ?case
    proof (cases "5 \<le> n \<or> answer n")
      case True
      have "(2::nat) ^ n \<le> 2 ^ 5" using 1(2) by (rule power_increasing) simp
      with True 1(2,3) show ?thesis by (cases "5 \<le> n") (auto simp: notifyFrom.simps [of answer n w])
    next
      case False
      then have "n < 5" "\<not> answer n" by simp_all
      moreover have "w + 2 ^ n = 2 ^ Suc n - 1" using 1(3) by simp
      moreover have "(\<exists>i. n \<le> i \<and> i < 5 \<and> answer i) \<longleftrightarrow> (\<exists>i. Suc n \<le> i \<and> i < 5 \<and> answer i)"
        using False by (metis Suc_leD le_antisym not_less_eq_eq)
      ultimately show ?thesis using 1(1) by (simp add: notifyFrom.simps [of answer n w])
    qed
  qed
  from this [of 0 0] show ?thesis by (simp add: notifyMasterReady_def)
qed

section \<open>Examples\<close>

definition exampleVPN :: vpnEnv where
  "exampleVPN = \<lparr>veLockErr = None, veWrite = \<lambda>new old. Some new, vePost = \<lambda>url token event. Some 200, veNow = 7\<rparr>"

definition exampleEvent :: vpnSessionEvent where
  "exampleEvent = \<lparr>evNodeID = 1, evUserID = 7, evProtocol = ''wg'', evInboundTag = ''in'', evSessionID = ''s'', evAssignedIP = ''a'',
     evClientIP = ''c'', evEvent = ''start''\<rparr>"

lemma example_text: "trimSpace ''wg'' = ''wg''" "toLower ''wg'' = ''wg''" "trimSpace ''a'' = ''a''" "trimSpace ''c'' = ''c''" "trimSpace ''s'' = ''s''"
  by code_simp+

lemma example_plain: "plainEvent exampleEvent" "veWrite exampleVPN = (\<lambda>new old. Some new)"
  by (simp_all add: plainEvent_def exampleEvent_def normalizedVPNProtocol_def example_text Let_def exampleVPN_def)

lemma empty_records: "vpnSessionRecordsLocked None = []"
  by (simp add: vpnSessionRecordsLocked_def)

lemma example_admitted: "\<exists>sent tsv'. vpnAdmitGoSession exampleVPN None exampleEvent 1 None = (True, sent, tsv')"
  by (simp add: vpnAdmitGoSession_def admitRecords_def empty_records exampleVPN_def exampleEvent_def example_text vpnSessionDeviceKey_def
      userDevices_def vpnSessionCallbackReady_def Let_def)

theorem session_addresses_distinct_witness:
  "noClash (vpnSessionRecordsLocked (fold sessionCallOp
     [Admit exampleVPN None exampleEvent 1, Admit exampleVPN None (exampleEvent\<lparr>evUserID := 8, evSessionID := ''t''\<rparr>) 0, Release exampleVPN exampleEvent] None))"
proof (rule session_addresses_distinct)
  show "noClash (vpnSessionRecordsLocked None)" by (simp add: empty_records noClash_def)
  have "plainEvent (exampleEvent\<lparr>evUserID := 8, evSessionID := ''t''\<rparr>)" using example_plain(1) by (simp add: plainEvent_def)
  then show "list_all sessionCallOk [Admit exampleVPN None exampleEvent 1,
      Admit exampleVPN None (exampleEvent\<lparr>evUserID := 8, evSessionID := ''t''\<rparr>) 0, Release exampleVPN exampleEvent]"
    using example_plain by simp
qed

theorem admission_keeps_device_limit_witness:
  "\<exists>sent tsv'. vpnAdmitGoSession exampleVPN None exampleEvent 1 None = (True, sent, tsv')
     \<and> length (userDevices (formatInt 7) (vpnSessionRecordsLocked tsv')) \<le> 1"
proof -
  obtain sent tsv' where a: "vpnAdmitGoSession exampleVPN None exampleEvent 1 None = (True, sent, tsv')" using example_admitted by blast
  have "userDevices uid [] = []" for uid by (simp add: userDevices_def)
  with admission_keeps_device_limit [OF a _ example_plain(2,1)] have "length (userDevices (formatInt (evUserID exampleEvent)) (vpnSessionRecordsLocked tsv')) \<le> 1"
    by (simp add: empty_records)
  moreover have "evUserID exampleEvent = 7" by (simp add: exampleEvent_def)
  ultimately show ?thesis using a by auto
qed

theorem release_removes_session_witness:
  "vpnSessionRecordsLocked (snd (vpnReleaseGoSession exampleVPN exampleEvent None)) = []"
  using release_removes_session [OF example_plain(2), of exampleEvent None]
  by (simp add: exampleVPN_def exampleEvent_def example_text empty_records)

end
