(* ===== verification/Netip.thy ===== *)
theory Netip
  imports Text_Util
begin

text \<open>
  The part of Go's \<open>net/netip\<close> the node uses: parsing and printing of addresses and the predicates on
  them, with \<open>isGlobalIP\<close> of \<open>internal/node/grpc_helpers.go\<close>. An IPv4 address is a number, an IPv6
  address its eight groups and its zone. Result: every address is read back from its text, in the
  compressed form for IPv6.
\<close>

section \<open>Addresses\<close>

datatype addr = V4 nat | V6 "nat list" string

fun wfAddr :: "addr \<Rightarrow> bool" where
  "wfAddr (V4 n) \<longleftrightarrow> n < 2 ^ 32"
| "wfAddr (V6 gs zone) \<longleftrightarrow> length gs = 8 \<and> list_all (\<lambda>g. g < 65536) gs"

section \<open>Parsing\<close>

definition parseOctet :: "string \<Rightarrow> nat option" where
  "parseOctet s = (if s = [] \<or> (1 < length s \<and> hd s = CHR ''0'') then None
     else case digitsVal 0 s of None \<Rightarrow> None | Some n \<Rightarrow> if n \<le> 255 then Some n else None)"

definition parseIPv4 :: "string \<Rightarrow> nat option" where
  "parseIPv4 s = (case map parseOctet (splitOn s ''.'') of
       [Some a, Some b, Some c, Some d] \<Rightarrow> Some (((a * 256 + b) * 256 + c) * 256 + d)
     | _ \<Rightarrow> None)"

definition hexVal :: "char \<Rightarrow> nat option" where
  "hexVal c = (let n = of_char c :: nat in
     if 48 \<le> n \<and> n \<le> 57 then Some (n - 48) else if 97 \<le> n \<and> n \<le> 102 then Some (n - 87)
     else if 65 \<le> n \<and> n \<le> 70 then Some (n - 55) else None)"

text \<open>The digits of one group: how many, their value and the rest; more than four are an error.\<close>

fun hexGroup :: "nat \<Rightarrow> nat \<Rightarrow> string \<Rightarrow> (nat \<times> nat \<times> string) option" where
  "hexGroup off acc [] = Some (off, acc, [])"
| "hexGroup off acc (c # s) = (case hexVal c of None \<Rightarrow> Some (off, acc, c # s)
     | Some d \<Rightarrow> if 3 < off then None else hexGroup (Suc off) (acc * 16 + d) s)"

text \<open>The loop of \<open>parseIPv6\<close>: the place of the ellipsis, the groups read and the text left.\<close>

function groups6 :: "nat option \<Rightarrow> nat list \<Rightarrow> string \<Rightarrow> (nat list \<times> nat option) option" where
  "groups6 ell acc s =
     (if 8 \<le> length acc then (if s = [] then Some (acc, ell) else None)
      else case hexGroup 0 0 s of None \<Rightarrow> None
        | Some (off, v, rest) \<Rightarrow>
            if off = 0 then None
            else if rest \<noteq> [] \<and> hd rest = CHR ''.'' then
              (if (ell = None \<and> length acc \<noteq> 6) \<or> 8 < length acc + 2 then None
               else case parseIPv4 s of None \<Rightarrow> None | Some n \<Rightarrow> Some (acc @ [n div 65536, n mod 65536], ell))
            else if rest = [] then Some (acc @ [v], ell)
            else if hd rest \<noteq> CHR '':'' \<or> length rest = 1 then None
            else if hd (tl rest) = CHR '':'' then
              (if ell \<noteq> None then None
               else if tl (tl rest) = [] then Some (acc @ [v], Some (Suc (length acc)))
               else groups6 (Some (Suc (length acc))) (acc @ [v]) (tl (tl rest)))
            else groups6 ell (acc @ [v]) (tl rest))"
  by pat_completeness auto
termination
  by (relation "measure (\<lambda>(_, acc, _). 8 - length acc)") auto

declare groups6.simps [simp del]

definition expand6 :: "nat list \<times> nat option \<Rightarrow> nat list option" where
  "expand6 r = (case r of (gs, ell) \<Rightarrow>
     if length gs < 8 then (case ell of None \<Rightarrow> None | Some e \<Rightarrow> Some (take e gs @ replicate (8 - length gs) 0 @ drop e gs))
     else if ell \<noteq> None then None else Some gs)"

definition parseIPv6 :: "string \<Rightarrow> addr option" where
  "parseIPv6 text = (case cut text ''%'' of (s, zone, hasZone) \<Rightarrow>
     if hasZone \<and> zone = [] then None
     else if hasPrefix s ''::'' then
       (if drop 2 s = [] then Some (V6 (replicate 8 0) zone)
        else map_option (\<lambda>gs. V6 gs zone) (Option.bind (groups6 (Some 0) [] (drop 2 s)) expand6))
     else map_option (\<lambda>gs. V6 gs zone) (Option.bind (groups6 None [] s) expand6))"

definition ParseAddr :: "string \<Rightarrow> addr option" where
  "ParseAddr s = (case find (\<lambda>c. c = CHR ''.'' \<or> c = CHR '':'' \<or> c = CHR ''%'') s of
       None \<Rightarrow> None
     | Some c \<Rightarrow> if c = CHR ''.'' then map_option V4 (parseIPv4 s) else if c = CHR '':'' then parseIPv6 s else None)"

section \<open>Printing\<close>

definition octets :: "nat \<Rightarrow> nat list" where
  "octets n = [n div 16777216, n div 65536 mod 256, n div 256 mod 256, n mod 256]"

definition string4 :: "nat \<Rightarrow> string" where
  "string4 n = joinWith ''.'' (map formatUint (octets n))"

definition hexChar :: "nat \<Rightarrow> char" where
  "hexChar n = ''0123456789abcdef'' ! n"

fun formatHex :: "nat \<Rightarrow> string" where
  "formatHex n = (if n < 16 then [hexChar n] else formatHex (n div 16) @ [hexChar (n mod 16)])"

declare formatHex.simps [simp del]

definition zeroRun :: "nat list \<Rightarrow> nat \<Rightarrow> nat" where
  "zeroRun gs i = length (takeWhile (\<lambda>g. g = 0) (drop i gs))"

text \<open>The first longest run of at least two zero groups, from its start to its end.\<close>

definition bestRun :: "nat list \<Rightarrow> (nat \<times> nat) option" where
  "bestRun gs = fold (\<lambda>i best. let l = zeroRun gs i; len = (case best of None \<Rightarrow> 0 | Some (a, b) \<Rightarrow> b - a)
     in if 2 \<le> l \<and> len < l then Some (i, i + l) else best) [0..<8] None"

definition string6 :: "nat list \<Rightarrow> string" where
  "string6 gs = (case bestRun gs of
       None \<Rightarrow> joinWith '':'' (map formatHex gs)
     | Some (a, b) \<Rightarrow> joinWith '':'' (map formatHex (take a gs)) @ ''::'' @ joinWith '':'' (map formatHex (drop b gs)))"

definition Is4In6 :: "nat list \<Rightarrow> bool" where
  "Is4In6 gs \<longleftrightarrow> take 6 gs = [0, 0, 0, 0, 0, 65535]"

definition low32 :: "nat list \<Rightarrow> nat" where
  "low32 gs = gs ! 6 * 65536 + gs ! 7"

fun addrString :: "addr \<Rightarrow> string" where
  "addrString (V4 n) = string4 n"
| "addrString (V6 gs zone) = (if Is4In6 gs then ''::ffff:'' @ string4 (low32 gs) else string6 gs)
     @ (if zone = [] then [] else CHR ''%'' # zone)"

section \<open>Predicates\<close>

fun Is4 :: "addr \<Rightarrow> bool" where
  "Is4 (V4 n) = True"
| "Is4 (V6 gs zone) = False"

definition Is6 :: "addr \<Rightarrow> bool" where
  "Is6 a = (\<not> Is4 a)"

fun Unmap :: "addr \<Rightarrow> addr" where
  "Unmap (V4 n) = V4 n"
| "Unmap (V6 gs zone) = (if Is4In6 gs then V4 (low32 gs) else V6 gs zone)"

definition IsUnspecified :: "addr \<Rightarrow> bool" where
  "IsUnspecified a \<longleftrightarrow> a = V4 0 \<or> a = V6 (replicate 8 0) []"

definition IsLoopback :: "addr \<Rightarrow> bool" where
  "IsLoopback a = (case Unmap a of V4 n \<Rightarrow> n div 16777216 = 127 | V6 gs _ \<Rightarrow> gs = [0, 0, 0, 0, 0, 0, 0, 1])"

definition IsMulticast :: "addr \<Rightarrow> bool" where
  "IsMulticast a = (case Unmap a of V4 n \<Rightarrow> n div 268435456 = 14 | V6 gs _ \<Rightarrow> gs ! 0 div 256 = 255)"

definition IsLinkLocalUnicast :: "addr \<Rightarrow> bool" where
  "IsLinkLocalUnicast a = (case Unmap a of V4 n \<Rightarrow> n div 65536 = 43518 | V6 gs _ \<Rightarrow> gs ! 0 div 64 = 1018)"

definition IsPrivate :: "addr \<Rightarrow> bool" where
  "IsPrivate a = (case Unmap a of
       V4 n \<Rightarrow> n div 16777216 = 10 \<or> n div 1048576 = 2753 \<or> n div 65536 = 49320
     | V6 gs _ \<Rightarrow> gs ! 0 div 512 = 126)"

definition IsGlobalUnicast :: "addr \<Rightarrow> bool" where
  "IsGlobalUnicast a0 = (let a = Unmap a0 in
     a \<noteq> V4 0 \<and> a \<noteq> V4 4294967295 \<and> a \<noteq> V6 (replicate 8 0) [] \<and> \<not> IsLoopback a \<and> \<not> IsMulticast a \<and> \<not> IsLinkLocalUnicast a)"

definition isGlobalIP :: "string \<Rightarrow> bool \<Rightarrow> bool" where
  "isGlobalIP value wantIPv4 = (case ParseAddr (trimChars {CHR ''['', CHR '']''} (trimSpace value)) of
       None \<Rightarrow> False
     | Some addr \<Rightarrow>
         if wantIPv4 \<and> \<not> Is4 addr then False
         else if \<not> wantIPv4 \<and> \<not> Is6 addr then False
         else IsGlobalUnicast addr \<and> \<not> IsPrivate addr \<and> \<not> IsLoopback addr \<and> \<not> IsLinkLocalUnicast addr
           \<and> \<not> IsMulticast addr \<and> \<not> IsUnspecified addr)"

section \<open>The public addresses of the node\<close>

text \<open>
  \<open>get\<close> is the answer of an endpoint, its status code and what is read of its body; \<open>local\<close> the address
  of the socket that was opened towards a public one.
\<close>

type_synonym httpGet = "string \<Rightarrow> (int \<times> string option) option"

definition fetchPublicIP :: "httpGet \<Rightarrow> string \<Rightarrow> bool \<Rightarrow> string" where
  "fetchPublicIP get endpoint wantIPv4 = (case get endpoint of
       None \<Rightarrow> []
     | Some (code, body) \<Rightarrow>
         if code < 200 \<or> 300 \<le> code then []
         else case body of None \<Rightarrow> []
           | Some text \<Rightarrow> let candidate = trimSpace (take 128 text) in
               if isGlobalIP candidate wantIPv4 then trimChars {CHR ''['', CHR '']''} candidate else [])"

definition localOutboundIPv4 :: "addr option \<Rightarrow> string" where
  "localOutboundIPv4 local = (case local of None \<Rightarrow> [] | Some a \<Rightarrow> if isGlobalIP (addrString a) True then addrString a else [])"

fun firstNonEmpty :: "string list \<Rightarrow> string" where
  "firstNonEmpty [] = []"
| "firstNonEmpty (s # rest) = (if s \<noteq> [] then s else firstNonEmpty rest)"

definition publicIPv4 :: "httpGet \<Rightarrow> addr option \<Rightarrow> string" where
  "publicIPv4 get local = firstNonEmpty
     (map (\<lambda>e. fetchPublicIP get e True) [''http://api4.ipify.org/'', ''http://ipv4.icanhazip.com/'', ''https://ifconfig.io/ip'']
      @ [localOutboundIPv4 local, ''127.0.0.1''])"

definition publicIPv6 :: "httpGet \<Rightarrow> string" where
  "publicIPv6 get = firstNonEmpty
     (map (\<lambda>e. let ip = fetchPublicIP get e False in if ip = [] then [] else CHR ''['' # ip @ '']'')
        [''http://api6.ipify.org/'', ''http://ipv6.icanhazip.com/'']
      @ [''[::1]''])"

definition PublicIPs :: "httpGet \<Rightarrow> addr option \<Rightarrow> string \<times> string" where
  "PublicIPs get local = (publicIPv4 get local, publicIPv6 get)"

section \<open>Numbers\<close>

lemma formatUint_leading: "1 < length (formatUint n) \<Longrightarrow> hd (formatUint n) \<noteq> CHR ''0''"
proof (induction n rule: formatUint.induct)
  case (1 n)
  show ?case
  proof (cases "n div 10 < 10")
    case True
    then have "formatUint (n div 10) = [digit (n div 10)]" by (simp add: formatUint.simps [of "n div 10"])
    moreover have "digit (n div 10) \<noteq> CHR ''0''" if "10 \<le> n" using True that of_char_digit [of "n div 10"] by auto
    ultimately show ?thesis using 1(2) by (cases "n < 10") (simp_all add: formatUint.simps [of n])
  next
    case False
    then have "10 \<le> n" "1 < length (formatUint (n div 10))" by (simp_all add: formatUint.simps [of "n div 10"] formatUint_not_Nil Suc_lessI)
    then show ?thesis using 1(1) by (simp add: formatUint.simps [of n] hd_append formatUint_not_Nil)
  qed
qed

lemma formatUint_length: "n < 10 ^ Suc k \<Longrightarrow> length (formatUint n) \<le> Suc k"
proof (induction k arbitrary: n)
  case (Suc k)
  then have "n div 10 < 10 ^ Suc k" by (simp add: div_less_iff_less_mult)
  from Suc.IH [OF this] show ?case by (simp add: formatUint.simps [of n])
qed (simp add: formatUint.simps)

lemma parseOctet_format: "n \<le> 255 \<Longrightarrow> parseOctet (formatUint n) = Some n"
  using formatUint_leading [of n] by (auto simp: parseOctet_def formatUint_not_Nil digitsVal_formatUint)

lemma formatUint_char: "c \<in> set (formatUint n) \<Longrightarrow> c \<noteq> CHR ''.'' \<and> c \<noteq> CHR '':'' \<and> c \<noteq> CHR ''%''"
  using formatUint_digits [of c n] by auto

lemma octets_join: "n < 4294967296 \<Longrightarrow> ((n div 16777216 * 256 + n div 65536 mod 256) * 256 + n div 256 mod 256) * 256 + n mod 256 = (n::nat)"
proof -
  have "n div 256 div 256 = n div 65536" "n div 65536 div 256 = n div 16777216" by (simp_all add: div_mult2_eq [symmetric])
  then show ?thesis using div_mult_mod_eq [of "n div 65536" 256] div_mult_mod_eq [of "n div 256" 256] div_mult_mod_eq [of n 256] by simp
qed

lemma parse_string4: "n < 4294967296 \<Longrightarrow> parseIPv4 (string4 n) = Some n"
proof -
  assume n: "n < 4294967296"
  have "splitOn (string4 n) ''.'' = map formatUint (octets n)"
    unfolding string4_def by (rule splitOn_joinWith) (auto simp: octets_def dest: formatUint_char)
  moreover have "n div 16777216 \<le> 255" using n by (simp add: div_le_mono less_Suc_eq_le [symmetric] div_less_iff_less_mult)
  moreover have "x mod 256 \<le> 255" for x :: nat using mod_less_divisor [of 256 x] by linarith
  ultimately show ?thesis using octets_join [OF n] by (simp add: parseIPv4_def octets_def parseOctet_format)
qed

lemma hexVal_hexChar: "n < 16 \<Longrightarrow> hexVal (hexChar n) = Some n"
proof -
  assume "n < 16"
  moreover have "list_all (\<lambda>n. hexVal (hexChar n) = Some n) [0..<16]" by (simp add: upt_rec hexVal_def hexChar_def)
  ultimately show ?thesis by (simp add: list_all_iff)
qed

lemma formatHex_length: "n < 16 ^ Suc k \<Longrightarrow> length (formatHex n) \<le> Suc k"
proof (induction k arbitrary: n)
  case (Suc k)
  then have "n div 16 < 16 ^ Suc k" by (simp add: div_less_iff_less_mult)
  from Suc.IH [OF this] show ?case by (simp add: formatHex.simps [of n])
qed (simp add: formatHex.simps)

lemma formatHex_not_Nil [simp]: "formatHex n \<noteq> []"
  by (simp add: formatHex.simps [of n])

lemma formatHex_digits: "c \<in> set (formatHex n) \<Longrightarrow> hexVal c \<noteq> None"
proof (induction n rule: formatHex.induct)
  case (1 n)
  show ?case
  proof (cases "n < 16")
    case True
    then show ?thesis using 1(2) by (simp add: formatHex.simps [of n] hexVal_hexChar)
  next
    case False
    then show ?thesis using 1 by (auto simp: formatHex.simps [of n] hexVal_hexChar)
  qed
qed

lemma hexGroup_format:
  "off + length (formatHex n) \<le> 4 \<Longrightarrow>
   hexGroup off acc (formatHex n @ rest) = hexGroup (off + length (formatHex n)) (acc * 16 ^ length (formatHex n) + n) rest"
proof (induction n arbitrary: rest rule: formatHex.induct)
  case (1 n)
  show ?case
  proof (cases "n < 16")
    case True
    then show ?thesis using 1(2) by (simp add: formatHex.simps [of n] hexVal_hexChar)
  next
    case False
    let ?l = "length (formatHex (n div 16))"
    have f: "formatHex n = formatHex (n div 16) @ [hexChar (n mod 16)]" using False by (simp add: formatHex.simps [of n])
    have "hexGroup off acc (formatHex n @ rest) = hexGroup (off + ?l) (acc * 16 ^ ?l + n div 16) (hexChar (n mod 16) # rest)"
      using 1(1) [OF False, of "hexChar (n mod 16) # rest"] 1(2) by (simp add: f)
    also have "\<dots> = hexGroup (Suc (off + ?l)) ((acc * 16 ^ ?l + n div 16) * 16 + n mod 16) rest"
      using 1(2) by (simp add: f hexVal_hexChar)
    also have "(acc * 16 ^ ?l + n div 16) * 16 + n mod 16 = acc * 16 ^ Suc ?l + n" by (simp add: algebra_simps)
    finally show ?thesis by (simp add: f)
  qed
qed

lemma hexGroup_group:
  assumes "v < 65536" and "rest = [] \<or> hexVal (hd rest) = None"
  shows "hexGroup 0 0 (formatHex v @ rest) = Some (length (formatHex v), v, rest)"
proof -
  have "length (formatHex v) \<le> 4" using formatHex_length [of v 3] assms(1) by simp
  then show ?thesis using hexGroup_format [of 0 v 0 rest] assms(2) by (cases rest) simp_all
qed

lemma hexGroup_any:
  assumes "\<And>c. c \<in> set w \<Longrightarrow> hexVal c \<noteq> None" and "off + length w \<le> 4" and "rest = [] \<or> hexVal (hd rest) = None"
  shows "\<exists>v. hexGroup off acc (w @ rest) = Some (off + length w, v, rest)"
  using assms
proof (induction w arbitrary: off acc)
  case Nil
  then show ?case by (cases rest) simp_all
next
  case (Cons c w)
  from Cons.prems(1) [of c] obtain d where "hexVal c = Some d" by auto
  then show ?case using Cons.IH [of "Suc off" "acc * 16 + d"] Cons.prems by simp
qed

lemma hexVal_special [simp]: "hexVal CHR ''.'' = None" "hexVal CHR '':'' = None" "hexVal CHR ''%'' = None"
  by (simp_all add: hexVal_def)

lemma hd_formatHex: "hexVal (hd (formatHex n)) \<noteq> None"
  by (rule formatHex_digits [of _ n]) simp

section \<open>Groups\<close>

abbreviation joinGroups :: "nat list \<Rightarrow> string" where
  "joinGroups gs \<equiv> joinWith '':'' (map formatHex gs)"

lemma joinGroups_Cons: "joinWith '':'' (formatHex g # map formatHex gs) = formatHex g @ (if gs = [] then [] else CHR '':'' # joinGroups gs)"
  by (cases gs) simp_all

lemma joinGroups_Nil_iff [simp]: "joinGroups gs = [] \<longleftrightarrow> gs = []"
  by (cases gs) (simp_all add: joinGroups_Cons)

lemma hd_joinGroups: "gs \<noteq> [] \<Longrightarrow> hd (joinGroups gs) \<noteq> CHR '':''"
  using hd_formatHex [of "hd gs"] by (cases gs) (auto simp: joinGroups_Cons hd_append)

lemma groups_step:
  assumes "v < 65536" and "length acc < 8" and "s \<noteq> []" and "hd s \<noteq> CHR '':''"
  shows "groups6 ell acc (formatHex v @ CHR '':'' # s) = groups6 ell (acc @ [v]) s"
  using assms hexGroup_group [of v "CHR '':'' # s"] by (subst groups6.simps) simp

lemma groups_join:
  "\<lbrakk>gs \<noteq> []; list_all (\<lambda>g. g < 65536) gs; length acc + length gs \<le> 8\<rbrakk> \<Longrightarrow> groups6 ell acc (joinGroups gs) = Some (acc @ gs, ell)"
proof (induction gs arbitrary: acc)
  case (Cons g gs)
  show ?case
  proof (cases "gs = []")
    case True
    then show ?thesis using Cons.prems hexGroup_group [of g "[]"] by (subst groups6.simps) simp
  next
    case False
    then show ?thesis using Cons by (simp add: joinGroups_Cons groups_step hd_joinGroups)
  qed
qed simp

lemma groups_ellipsis:
  "\<lbrakk>pre \<noteq> []; list_all (\<lambda>g. g < 65536) (pre @ post); length acc + length pre + length post \<le> 7\<rbrakk> \<Longrightarrow>
   groups6 None acc (joinGroups pre @ ''::'' @ joinGroups post) = Some (acc @ pre @ post, Some (length acc + length pre))"
proof (induction pre arbitrary: acc)
  case (Cons g pre)
  show ?case
  proof (cases "pre = []")
    case True
    then show ?thesis using Cons.prems hexGroup_group [of g "CHR '':'' # CHR '':'' # joinGroups post"] groups_join [of post "acc @ [g]"]
      by (subst groups6.simps) simp
  next
    case False
    then have "hd (joinGroups pre @ ''::'' @ joinGroups post) \<noteq> CHR '':''" using hd_joinGroups [of pre] by simp
    then have "groups6 None acc (joinGroups (g # pre) @ ''::'' @ joinGroups post) = groups6 None (acc @ [g]) (joinGroups pre @ ''::'' @ joinGroups post)"
      using False Cons.prems groups_step [of g acc "joinGroups pre @ ''::'' @ joinGroups post" None] by (simp add: joinGroups_Cons)
    then show ?thesis using Cons.IH [of "acc @ [g]"] Cons.prems False by simp
  qed
qed simp

text \<open>A run that is chosen is made of zeros.\<close>

definition runOK :: "nat list \<Rightarrow> (nat \<times> nat) option \<Rightarrow> bool" where
  "runOK gs r = (case r of None \<Rightarrow> True
     | Some (a, b) \<Rightarrow> a + 2 \<le> b \<and> b \<le> length gs \<and> gs = take a gs @ replicate (b - a) 0 @ drop b gs)"

lemma zeroRun_split: "i \<le> length gs \<Longrightarrow> i + zeroRun gs i \<le> length gs \<and> gs = take i gs @ replicate (zeroRun gs i) 0 @ drop (i + zeroRun gs i) gs"
proof -
  assume i: "i \<le> length gs"
  let ?d = "drop i gs"
  have l: "zeroRun gs i \<le> length ?d" by (simp add: zeroRun_def length_takeWhile_le del: length_drop)
  have "takeWhile (\<lambda>g. g = 0) ?d = replicate (zeroRun gs i) 0"
    unfolding zeroRun_def by (metis (mono_tags, lifting) replicate_eqI set_takeWhileD)
  then have "?d = replicate (zeroRun gs i) 0 @ drop (zeroRun gs i) ?d"
    unfolding zeroRun_def by (metis append_take_drop_id takeWhile_eq_take)
  then show ?thesis using l i by (metis (no_types, lifting) append_take_drop_id drop_drop add.commute le_diff_conv2 length_drop)
qed

lemma bestRun_ok: "length gs = 8 \<Longrightarrow> runOK gs (bestRun gs)"
proof -
  assume gs: "length gs = 8"
  have "runOK gs (fold (\<lambda>i best. let l = zeroRun gs i; len = (case best of None \<Rightarrow> 0 | Some (a, b) \<Rightarrow> b - a)
     in if 2 \<le> l \<and> len < l then Some (i, i + l) else best) is best)" if "runOK gs best" "\<forall>i \<in> set is. i \<le> 8" for "is" best
    using that
  proof (induction "is" arbitrary: best)
    case (Cons i js)
    then have "runOK gs (if 2 \<le> zeroRun gs i \<and> n < zeroRun gs i then Some (i, i + zeroRun gs i) else best)" for n
      using zeroRun_split [of i gs] gs by (simp add: runOK_def)
    then show ?case using Cons by (simp add: Let_def)
  qed simp
  from this [of None "[0..<8]"] show ?thesis by (simp add: bestRun_def runOK_def)
qed

section \<open>Reading an address back\<close>

lemma expand_run:
  assumes "length gs = 8" and "runOK gs (Some (a, b))"
  shows "expand6 (take a gs @ drop b gs, Some a) = Some gs"
proof -
  have "a + 2 \<le> b" "b \<le> 8" using assms by (simp_all add: runOK_def)
  then have "a \<le> length gs" "length (take a gs @ drop b gs) < 8" "8 - length (take a gs @ drop b gs) = b - a"
    using assms(1) by auto
  moreover have "gs = take a gs @ replicate (b - a) 0 @ drop b gs" using assms by (simp add: runOK_def)
  ultimately show ?thesis by (simp add: expand6_def min_absorb2)
qed

lemma parse_groups:
  assumes "length gs = 8" and "list_all (\<lambda>g. g < 65536) gs" and "bestRun gs = Some (a, b)" and "0 < a"
  shows "Option.bind (groups6 None [] (string6 gs)) expand6 = Some gs"
proof -
  have r: "runOK gs (Some (a, b))" using bestRun_ok [OF assms(1)] assms(3) by simp
  have "list_all (\<lambda>g. g < 65536) (take a gs @ drop b gs)" using assms(2) by (auto simp: list_all_iff dest: in_set_takeD in_set_dropD)
  moreover have "length ([]::nat list) + length (take a gs) + length (drop b gs) \<le> 7" "take a gs \<noteq> []"
    using r assms(1,4) by (auto simp: runOK_def)
  ultimately have "groups6 None [] (string6 gs) = Some (take a gs @ drop b gs, Some a)"
    using groups_ellipsis [of "take a gs" "drop b gs" "[]"] r assms(1) by (simp add: string6_def assms(3) runOK_def min_absorb2)
  then show ?thesis using expand_run [OF assms(1) r] by simp
qed

lemma string6_colon:
  assumes "length gs = 8"
  shows "\<exists>w t. string6 gs = w @ CHR '':'' # t \<and> (\<forall>c \<in> set w. hexVal c \<noteq> None) \<and> (w = [] \<longleftrightarrow> (\<exists>b. bestRun gs = Some (0, b)))"
proof -
  obtain g h gs' where gs: "gs = g # h # gs'"
  proof (cases gs)
    case (Cons g gs1)
    then show ?thesis using assms that by (cases gs1) auto
  qed (use assms in simp)
  note h = formatHex_digits [of _ g]
  consider "bestRun gs = None" | b where "bestRun gs = Some (0, b)" | a b where "bestRun gs = Some (Suc a, b)"
    by (metis not0_implies_Suc option.exhaust prod.exhaust)
  then show ?thesis
  proof cases
    case 1
    then have "string6 gs = formatHex g @ CHR '':'' # joinGroups (h # gs')" by (simp add: string6_def gs joinGroups_Cons)
    then show ?thesis using 1 h by (intro exI [of _ "formatHex g"] exI [of _ "joinGroups (h # gs')"]) auto
  next
    case 2
    then show ?thesis by (intro exI [of _ "[]"] exI [of _ "CHR '':'' # joinGroups (drop b gs)"]) (simp add: string6_def)
  next
    case 3
    then have "string6 gs = formatHex g @ (if take a (h # gs') = [] then [] else CHR '':'' # joinGroups (take a (h # gs'))) @ ''::'' @ joinGroups (drop b gs)"
      by (simp add: string6_def gs joinGroups_Cons)
    then show ?thesis using 3 h by - (rule exI [of _ "formatHex g"], auto)
  qed
qed

lemma joinGroups_percent: "CHR ''%'' \<notin> set (joinGroups gs)"
  by (auto dest!: joinWith_set formatHex_digits)

lemma string6_percent: "CHR ''%'' \<notin> set (string6 gs)"
  by (simp add: string6_def joinGroups_percent split: option.split)

lemma string4_percent: "CHR ''%'' \<notin> set (string4 n)"
  by (auto simp: string4_def dest!: joinWith_set formatUint_char)

lemma parseIPv6_zone:
  assumes "CHR ''%'' \<notin> set s"
  shows "parseIPv6 (s @ (if zone = [] then [] else CHR ''%'' # zone)) =
    (if hasPrefix s ''::'' then
       (if drop 2 s = [] then Some (V6 (replicate 8 0) zone)
        else map_option (\<lambda>gs. V6 gs zone) (Option.bind (groups6 (Some 0) [] (drop 2 s)) expand6))
     else map_option (\<lambda>gs. V6 gs zone) (Option.bind (groups6 None [] s) expand6))"
  using assms cut_append [of "''%''" s zone] cut_absent [of "''%''" s] by (cases "zone = []") (simp_all add: parseIPv6_def)

lemma parse_string6:
  assumes gs: "length gs = 8" and small: "list_all (\<lambda>g. g < 65536) gs"
  shows "parseIPv6 (string6 gs @ (if zone = [] then [] else CHR ''%'' # zone)) = Some (V6 gs zone)"
proof -
  obtain w t where w: "string6 gs = w @ CHR '':'' # t" "\<forall>c \<in> set w. hexVal c \<noteq> None" "w = [] \<longleftrightarrow> (\<exists>b. bestRun gs = Some (0, b))"
    using string6_colon [OF gs] by blast
  show ?thesis
  proof (cases "w = []")
    case True
    with w(3) obtain b where b: "bestRun gs = Some (0, b)" by auto
    have r: "runOK gs (Some (0, b))" using bestRun_ok [OF gs] b by simp
    have p: "hasPrefix (string6 gs) ''::''" "drop 2 (string6 gs) = joinGroups (drop b gs)" by (simp_all add: string6_def b hasPrefix_def)
    show ?thesis
    proof (cases "drop b gs = []")
      case True
      then have "gs = replicate 8 0" using r gs by (simp add: runOK_def)
      then show ?thesis using True p by (simp add: parseIPv6_zone [OF string6_percent])
    next
      case False
      have "list_all (\<lambda>g. g < 65536) (drop b gs)" using small by (auto simp: list_all_iff dest: in_set_dropD)
      then have "groups6 (Some 0) [] (joinGroups (drop b gs)) = Some (drop b gs, Some 0)"
        using groups_join [of "drop b gs" "[]"] False gs by simp
      then show ?thesis using False p expand_run [OF gs r] by (simp add: parseIPv6_zone [OF string6_percent])
    qed
  next
    case False
    then have "\<not> hasPrefix (string6 gs) ''::''" using w(1,2) by (cases w) (auto simp: hasPrefix_def)
    moreover have "Option.bind (groups6 None [] (string6 gs)) expand6 = Some gs"
    proof (cases "bestRun gs")
      case None
      then show ?thesis using groups_join [of gs "[]"] gs small by (cases gs) (auto simp: string6_def expand6_def)
    next
      case (Some ab)
      then obtain a b where "bestRun gs = Some (a, b)" "0 < a" using w(3) False by (cases ab) auto
      then show ?thesis by (rule parse_groups [OF gs small])
    qed
    ultimately show ?thesis by (simp add: parseIPv6_zone [OF string6_percent])
  qed
qed

lemma find_first: "(\<And>c. c \<in> set w \<Longrightarrow> \<not> P c) \<Longrightarrow> P c \<Longrightarrow> find P (w @ c # t) = Some c"
  by (induction w) auto

lemma ParseAddr_colon:
  assumes "\<And>c. c \<in> set w \<Longrightarrow> hexVal c \<noteq> None"
  shows "ParseAddr (w @ CHR '':'' # t) = parseIPv6 (w @ CHR '':'' # t)"
proof -
  have "\<not> (c = CHR ''.'' \<or> c = CHR '':'' \<or> c = CHR ''%'')" if "c \<in> set w" for c using assms [OF that] by auto
  then show ?thesis using find_first [of w "\<lambda>c. c = CHR ''.'' \<or> c = CHR '':'' \<or> c = CHR ''%''" "CHR '':''" t] by (simp add: ParseAddr_def)
qed

lemma string4_dot: "\<exists>t. string4 n = formatUint (n div 16777216) @ CHR ''.'' # t"
  by (simp add: string4_def octets_def)

lemma ParseAddr_string4:
  assumes "n < 4294967296"
  shows "ParseAddr (string4 n) = Some (V4 n)"
proof -
  obtain t where t: "string4 n = formatUint (n div 16777216) @ CHR ''.'' # t" using string4_dot by blast
  have "find (\<lambda>c. c = CHR ''.'' \<or> c = CHR '':'' \<or> c = CHR ''%'') (string4 n) = Some CHR ''.''"
    unfolding t by (rule find_first) (auto dest: formatUint_char)
  then show ?thesis using parse_string4 [OF assms] by (simp add: ParseAddr_def)
qed

text \<open>An IPv4 address inside an IPv6 address is read by \<open>parseIPv4\<close> after its groups.\<close>

lemma groups_string4:
  assumes "n < 4294967296" and "ell \<noteq> None" and "length acc + 2 \<le> 8"
  shows "groups6 ell acc (string4 n) = Some (acc @ [n div 65536, n mod 65536], ell)"
proof -
  obtain t where t: "string4 n = formatUint (n div 16777216) @ CHR ''.'' # t" using string4_dot by blast
  have d: "hexVal c \<noteq> None" if "c \<in> set (formatUint m)" for c m
    using formatUint_digits [OF that] by (simp add: hexVal_def Let_def)
  have "length (formatUint (n div 16777216)) \<le> 3" using assms(1) formatUint_length [of "n div 16777216" 2] by simp
  then obtain v where "hexGroup 0 0 (string4 n) = Some (length (formatUint (n div 16777216)), v, CHR ''.'' # t)"
    using hexGroup_any [of "formatUint (n div 16777216)" 0 "CHR ''.'' # t" 0] d by (auto simp: t)
  then show ?thesis using assms parse_string4 [OF assms(1)] by (subst groups6.simps) (simp add: formatUint_not_Nil)
qed

lemma parse_mapped:
  assumes "n < 4294967296"
  shows "ParseAddr (''::ffff:'' @ string4 n @ (if zone = [] then [] else CHR ''%'' # zone)) = Some (V6 [0, 0, 0, 0, 0, 65535, n div 65536, n mod 65536] zone)"
proof -
  have five: "replicate 5 (0::nat) = [0, 0, 0, 0, 0]" by (simp add: eval_nat_numeral)
  have f: "''ffff'' = formatHex 65535" by (simp add: formatHex.simps hexChar_def)
  have "string4 n \<noteq> []" "hd (string4 n) \<noteq> CHR '':''"
    using string4_dot [of n] formatUint_char [of "hd (formatUint (n div 16777216))" "n div 16777216"] by auto
  then have "groups6 (Some 0) [] (''ffff:'' @ string4 n) = Some ([65535, n div 65536, n mod 65536], Some 0)"
    using groups_step [of 65535 "[]" "string4 n" "Some 0"] groups_string4 [OF assms, of "Some 0" "[65535]"] by (simp add: f [symmetric])
  moreover have "expand6 ([65535, n div 65536, n mod 65536], Some 0) = Some [0, 0, 0, 0, 0, 65535, n div 65536, n mod 65536]"
    by (simp add: expand6_def five)
  ultimately show ?thesis
    using parseIPv6_zone [of "''::ffff:'' @ string4 n" zone] ParseAddr_colon [of "[]" "'':ffff:'' @ string4 n @ (if zone = [] then [] else CHR ''%'' # zone)"]
    by (simp add: hasPrefix_def string4_percent)
qed

lemma addr_parse: "wfAddr a \<Longrightarrow> ParseAddr (addrString a) = Some a"
proof (cases a)
  case (V4 n)
  moreover assume "wfAddr a"
  ultimately show ?thesis by (simp add: ParseAddr_string4)
next
  case (V6 gs zone)
  moreover assume "wfAddr a"
  ultimately have gs: "length gs = 8" "list_all (\<lambda>g. g < 65536) gs" by simp_all
  show ?thesis
  proof (cases "Is4In6 gs")
    case True
    define n where "n = low32 gs"
    have "gs ! 6 < 65536" "gs ! 7 < 65536" using gs by (simp_all add: list_all_length)
    then have n: "n < 4294967296" "n div 65536 = gs ! 6" "n mod 65536 = gs ! 7" by (simp_all add: n_def low32_def)
    have "drop 6 gs = [gs ! 6, gs ! 7]" using gs(1) Cons_nth_drop_Suc [of 6 gs] Cons_nth_drop_Suc [of 7 gs] by simp
    then have "gs = [0, 0, 0, 0, 0, 65535, n div 65536, n mod 65536]"
      using True append_take_drop_id [of 6 gs] by (simp add: Is4In6_def n)
    moreover have "addrString a = ''::ffff:'' @ string4 n @ (if zone = [] then [] else CHR ''%'' # zone)" using True V6 by (simp add: n_def)
    ultimately show ?thesis using parse_mapped [OF n(1), of zone] V6 by metis
  next
    case False
    obtain w t where w: "string6 gs = w @ CHR '':'' # t" "\<forall>c \<in> set w. hexVal c \<noteq> None" using string6_colon [OF gs(1)] by blast
    then show ?thesis using V6 False parse_string6 [OF gs, of zone]
        ParseAddr_colon [of w "t @ (if zone = [] then [] else CHR ''%'' # zone)"] by simp
  qed
qed

text \<open>
  Every address is read back from the text it prints: IPv4 in dotted form, IPv6 with its longest
  run of zero groups left out, IPv4 inside IPv6 in the mixed form, and the zone after the percent sign.
\<close>
theorem address_roundtrip: "wfAddr a \<Longrightarrow> ParseAddr (addrString a) = Some a"
  by (rule addr_parse)

theorem address_roundtrip_witness:
  "wfAddr (V6 [8193, 3512, 0, 0, 1, 0, 0, 1] ''eth0'') \<and> ParseAddr ''2001:db8::1:0:0:1%eth0'' = Some (V6 [8193, 3512, 0, 0, 1, 0, 0, 1] ''eth0'')"
proof -
  have "addrString (V6 [8193, 3512, 0, 0, 1, 0, 0, 1] ''eth0'') = ''2001:db8::1:0:0:1%eth0''"
    by (simp add: Is4In6_def string6_def bestRun_def zeroRun_def formatHex.simps hexChar_def upt_rec)
  then show ?thesis using address_roundtrip [of "V6 [8193, 3512, 0, 0, 1, 0, 0, 1] ''eth0''"] by simp
qed

section \<open>What parsing gives\<close>

lemma parseOctet_bound: "parseOctet s = Some n \<Longrightarrow> n \<le> 255"
  by (auto simp: parseOctet_def split: if_splits option.splits)

lemma parseIPv4_bound: "parseIPv4 s = Some n \<Longrightarrow> n < 4294967296"
proof -
  assume "parseIPv4 s = Some n"
  then obtain a b c d where p: "map parseOctet (splitOn s ''.'') = [Some a, Some b, Some c, Some d]" "n = ((a * 256 + b) * 256 + c) * 256 + d"
    by (auto simp: parseIPv4_def split: list.splits option.splits)
  have "x \<le> 255" if "Some x \<in> set (map parseOctet (splitOn s ''.''))" for x using that parseOctet_bound by auto
  then have "a \<le> 255" "b \<le> 255" "c \<le> 255" "d \<le> 255" unfolding p(1) by simp_all
  then show ?thesis using p(2) by simp
qed

lemma hexVal_bound: "hexVal c = Some d \<Longrightarrow> d < 16"
  by (auto simp: hexVal_def Let_def split: if_splits)

lemma hexGroup_bound: "\<lbrakk>hexGroup off acc s = Some (off', v, rest); acc < 16 ^ off; off \<le> 4\<rbrakk> \<Longrightarrow> v < 16 ^ 4"
proof (induction off acc s rule: hexGroup.induct)
  case (1 off acc)
  then show ?case using power_increasing [of off 4 "16::nat"] by simp
next
  case (2 off acc c s)
  show ?case
  proof (cases "hexVal c")
    case None
    then show ?thesis using 2 power_increasing [of off 4 "16::nat"] by simp
  next
    case (Some d)
    have "acc * 16 + d < 16 ^ Suc off" using hexVal_bound [OF Some] 2(3) by simp
    then show ?thesis using 2 Some by (auto split: if_splits)
  qed
qed

lemma groups6_bound:
  "\<lbrakk>groups6 ell acc s = Some (gs, ell'); list_all (\<lambda>g. g < 65536) acc; length acc \<le> 8\<rbrakk> \<Longrightarrow> list_all (\<lambda>g. g < 65536) gs \<and> length gs \<le> 8"
proof (induction ell acc s rule: groups6.induct)
  case (1 ell acc s)
  show ?case
  proof (cases "8 \<le> length acc")
    case True
    then show ?thesis using 1 by (simp add: groups6.simps [of ell acc s] split: if_splits)
  next
    case False
    obtain off v rest where h: "hexGroup 0 0 s = Some (off, v, rest)" and off: "off \<noteq> 0"
      using False 1(3) by (subst (asm) groups6.simps) (auto split: option.splits if_splits)
    have v: "v < 65536" using hexGroup_bound [OF h] by simp
    have n: "n div 65536 < 65536" if "parseIPv4 s = Some n" for n using parseIPv4_bound [OF that] by simp
    show ?thesis using 1(3,4) False h off v n 1(1) [OF False h refl refl off] 1(2) [OF False h refl refl off]
      by (subst (asm) groups6.simps) (auto split: if_splits option.splits)
  qed
qed

lemma expand6_wf: "\<lbrakk>expand6 (gs, ell) = Some hs; list_all (\<lambda>g. g < 65536) gs; length gs \<le> 8\<rbrakk> \<Longrightarrow> wfAddr (V6 hs zone)"
  by (auto simp: expand6_def list_all_iff min_def dest!: in_set_takeD in_set_dropD split: if_splits option.splits)

lemma parseIPv6_wf: "parseIPv6 t = Some a \<Longrightarrow> wfAddr a"
proof -
  assume p: "parseIPv6 t = Some a"
  obtain s zone hz where c: "cut t ''%'' = (s, zone, hz)" by (cases "cut t ''%''")
  have g: "wfAddr (V6 hs zone)" if "Option.bind (groups6 ell [] u) expand6 = Some hs" for ell u hs
    using that groups6_bound [of ell "[]" u] expand6_wf [of _ _ hs zone] by (auto split: bind_splits)
  show ?thesis using p c by (auto simp: parseIPv6_def list_all_iff dest: g split: if_splits)
qed

lemma ParseAddr_wf: "ParseAddr s = Some a \<Longrightarrow> wfAddr a"
  by (auto simp: ParseAddr_def split: option.splits if_splits dest: parseIPv6_wf parseIPv4_bound)

lemma addrString_inject: "wfAddr a \<Longrightarrow> wfAddr b \<Longrightarrow> addrString a = addrString b \<Longrightarrow> a = b"
  using addr_parse by (metis option.inject)

section \<open>What is reported as public\<close>

definition publicAddr :: "addr \<Rightarrow> bool" where
  "publicAddr a \<longleftrightarrow> IsGlobalUnicast a \<and> \<not> IsPrivate a \<and> \<not> IsLoopback a \<and> \<not> IsLinkLocalUnicast a \<and> \<not> IsMulticast a"

lemma isGlobalIP_parse:
  "isGlobalIP value want \<Longrightarrow> \<exists>a. ParseAddr (trimChars {CHR ''['', CHR '']''} (trimSpace value)) = Some a \<and> Is4 a = want \<and> publicAddr a"
  by (auto simp: isGlobalIP_def publicAddr_def Is6_def split: option.splits if_splits)

lemma fetchPublicIP_public:
  assumes "fetchPublicIP get e want \<noteq> []"
  shows "\<exists>a. ParseAddr (fetchPublicIP get e want) = Some a \<and> Is4 a = want \<and> publicAddr a"
proof -
  from assms obtain body where t: "isGlobalIP (trimSpace body) want" "fetchPublicIP get e want = trimChars {CHR ''['', CHR '']''} (trimSpace body)"
    by (auto simp: fetchPublicIP_def Let_def split: option.splits if_splits)
  show ?thesis using isGlobalIP_parse [OF t(1)] by (simp add: t(2))
qed

lemma string4_graphic: "c \<in> set (string4 n) \<Longrightarrow> graphic c \<and> c \<noteq> CHR ''['' \<and> c \<noteq> CHR '']''"
proof -
  assume "c \<in> set (string4 n)"
  then consider "c = CHR ''.''" | m where "c \<in> set (formatUint m)" by (auto simp: string4_def dest!: joinWith_set)
  then show ?thesis by cases (auto simp: graphic_def dest: formatUint_digits)
qed

lemma trimChars_none: "(\<And>c. c \<in> set s \<Longrightarrow> c \<notin> cs) \<Longrightarrow> trimChars cs s = s"
proof -
  assume s: "\<And>c. c \<in> set s \<Longrightarrow> c \<notin> cs"
  have "dropWhile (\<lambda>c. c \<in> cs) t = t" if "set t = set s" for t using that s by (cases t) auto
  then show ?thesis by (simp add: trimChars_def)
qed

lemma localOutboundIPv4_public:
  assumes "n < 2 ^ 32" and "localOutboundIPv4 (Some (V4 n)) \<noteq> []"
  shows "\<exists>a. ParseAddr (localOutboundIPv4 (Some (V4 n))) = Some a \<and> Is4 a = True \<and> publicAddr a"
proof -
  have ne: "string4 n \<noteq> []" using string4_dot [of n] by auto
  then have hd: "hd (string4 n) \<in> set (string4 n)" "last (string4 n) \<in> set (string4 n)" by simp_all
  have "trimSpace (string4 n) = string4 n" using ne hd string4_graphic by (intro trimSpace_graphic) blast+
  moreover have "trimChars {CHR ''['', CHR '']''} (string4 n) = string4 n"
    using string4_graphic [of _ n] by (intro trimChars_none) auto
  ultimately show ?thesis using assms isGlobalIP_parse [of "string4 n" True] by (auto simp: localOutboundIPv4_def split: if_splits)
qed

lemma firstNonEmpty_elem: "firstNonEmpty xs \<noteq> [] \<Longrightarrow> firstNonEmpty xs \<in> set xs"
  by (induction xs) auto

lemma firstNonEmpty_last: "s \<noteq> [] \<Longrightarrow> firstNonEmpty (xs @ [s]) \<noteq> []"
  by (induction xs) auto

text \<open>
  Whatever the endpoints answer, the public IPv4 address that the node reports is the text of an
  IPv4 address that is global, neither private, loopback, link-local nor multicast, or it is the
  fallback \<open>127.0.0.1\<close>.
\<close>
theorem reported_ipv4_is_public:
  assumes "local = None \<or> (\<exists>n. local = Some (V4 n) \<and> n < 2 ^ 32)"
  shows "publicIPv4 get local = ''127.0.0.1'' \<or> (\<exists>a. ParseAddr (publicIPv4 get local) = Some a \<and> Is4 a = True \<and> publicAddr a)"
proof -
  let ?r = "publicIPv4 get local"
  have ne: "?r \<noteq> []" using firstNonEmpty_last [of "''127.0.0.1''"] by (simp add: publicIPv4_def)
  then have "?r \<in> set (map (\<lambda>e. fetchPublicIP get e True) [''http://api4.ipify.org/'', ''http://ipv4.icanhazip.com/'', ''https://ifconfig.io/ip''] @ [localOutboundIPv4 local, ''127.0.0.1''])"
    unfolding publicIPv4_def by (rule firstNonEmpty_elem)
  then consider e where "?r = fetchPublicIP get e True" | "?r = localOutboundIPv4 local" | "?r = ''127.0.0.1''" by auto
  then show ?thesis
  proof cases
    case (1 e)
    then show ?thesis using ne fetchPublicIP_public [of get e True] by simp
  next
    case 2
    then show ?thesis using ne assms localOutboundIPv4_public by (auto simp: localOutboundIPv4_def)
  qed simp
qed

definition exampleGet :: httpGet where
  "exampleGet e = (if e = ''http://api4.ipify.org/'' then Some (503, None) else Some (200, Some ''10.0.0.7''))"

theorem reported_ipv4_is_public_witness:
  "publicIPv4 exampleGet None = ''127.0.0.1'' \<or> (\<exists>a. ParseAddr (publicIPv4 exampleGet None) = Some a \<and> Is4 a = True \<and> publicAddr a)"
  by (rule reported_ipv4_is_public) simp

end
