(* ===== verification/Host.thy ===== *)
theory Host
  imports Text_Util Paths
begin

text \<open>
  The host a manager works on: the programs it runs and the files it writes are functions of a host
  state that stays a parameter. An action returns its error and the new host; \<open>thenDo\<close> is the early
  return on an error. \<open>hStat\<close> is the error of \<open>os.Stat\<close>; \<open>hReadDir\<close> gives the error and whether the directory
  does not exist, or the entries with whether each is a directory; \<open>hSleep\<close> lets so many milliseconds pass. On it: the installation of packages of \<open>internal/node/ov.go\<close> that the managers share.
\<close>

section \<open>Definitions\<close>

named_theorems keeps

type_synonym 'h action = "'h \<Rightarrow> string option \<times> 'h"

record 'h host =
  hGOOS :: string
  hRoot :: bool
  hLook :: "'h \<Rightarrow> string \<Rightarrow> string + string"
  hRun :: "string list \<Rightarrow> string \<Rightarrow> string list \<Rightarrow> 'h \<Rightarrow> (string option \<times> string) \<times> 'h"
  hRead :: "'h \<Rightarrow> string \<Rightarrow> string + string"
  hWrite :: "string \<Rightarrow> string \<Rightarrow> nat \<Rightarrow> 'h action"
  hChmod :: "string \<Rightarrow> nat \<Rightarrow> 'h action"
  hMkdirAll :: "string \<Rightarrow> nat \<Rightarrow> 'h action"
  hRemove :: "string \<Rightarrow> 'h action"
  hRemoveAll :: "string \<Rightarrow> 'h action"
  hStat :: "'h \<Rightarrow> string \<Rightarrow> string option"
  hReadDir :: "'h \<Rightarrow> string \<Rightarrow> (string \<times> bool) + (string \<times> bool) list"
  hSleep :: "nat \<Rightarrow> 'h \<Rightarrow> 'h"

definition fail :: "'e \<Rightarrow> 'h \<Rightarrow> 'e option \<times> 'h" where
  "fail msg h = (Some msg, h)"

definition skip :: "'h \<Rightarrow> 'e option \<times> 'h" where
  "skip h = (None, h)"

definition thenDo :: "('h \<Rightarrow> 'e option \<times> 'h) \<Rightarrow> ('h \<Rightarrow> 'e option \<times> 'h) \<Rightarrow> 'h \<Rightarrow> 'e option \<times> 'h" where
  "thenDo f g h = (case f h of (Some err, h') \<Rightarrow> (Some err, h') | (None, h') \<Rightarrow> g h')"

text \<open>\<open>_ = f()\<close>: the error is dropped.\<close>

definition ignoring :: "('h \<Rightarrow> 'r \<times> 'h) \<Rightarrow> 'h \<Rightarrow> 'e option \<times> 'h" where
  "ignoring f h = (None, snd (f h))"

definition commandExists :: "'h host \<Rightarrow> 'h \<Rightarrow> string \<Rightarrow> bool" where
  "commandExists H h name = (case hLook H h name of Inl _ \<Rightarrow> False | Inr _ \<Rightarrow> True)"

definition missingExecutables :: "'h host \<Rightarrow> 'h \<Rightarrow> string list \<Rightarrow> string list" where
  "missingExecutables H h names = filter (\<lambda>name. \<not> commandExists H h name) names"

text \<open>\<open>cmd.CombinedOutput\<close> with the message the callers build of it.\<close>

definition runChecked :: "'h host \<Rightarrow> string list \<Rightarrow> string \<Rightarrow> string list \<Rightarrow> string \<Rightarrow> 'h action" where
  "runChecked H env command args what h = (case hRun H env command args h of
       ((None, _), h') \<Rightarrow> (None, h')
     | ((Some err, out), h') \<Rightarrow> (Some (what @ '': '' @ err @ '': '' @ trimSpace out), h'))"

definition runInstallCommand :: "'h host \<Rightarrow> string list \<Rightarrow> string \<Rightarrow> string list \<Rightarrow> 'h action" where
  "runInstallCommand H env name args h = (case hLook H h name of
       Inl err \<Rightarrow> (Some err, h)
     | Inr command \<Rightarrow>
         let args = noninteractivePackageArgs (base command) args
         in runChecked H env command args (name @ '' '' @ joinWith '' '' args) h)"

definition noninteractive :: "string list" where
  "noninteractive = [''DEBIAN_FRONTEND=noninteractive'']"

text \<open>
  The shape of every \<open>install...Packages\<close>: the first package manager that is there installs its list;
  \<open>label\<close> begins the messages.
\<close>

definition installPackages :: "'h host \<Rightarrow> string \<Rightarrow> string list \<Rightarrow> string list \<Rightarrow> string list \<Rightarrow> 'h action" where
  "installPackages H label apt rpm apk h =
     (if \<not> hRoot H then (Some (label @ '' prerequisites are missing and automatic install requires root''), h)
      else if commandExists H h ''apt-get'' then
        thenDo (runInstallCommand H noninteractive ''apt-get'' [''update''])
          (runInstallCommand H noninteractive ''apt-get'' ([''install'', ''-y'', ''--no-install-recommends''] @ apt)) h
      else if commandExists H h ''dnf'' then runInstallCommand H [] ''dnf'' ([''install'', ''-y''] @ rpm) h
      else if commandExists H h ''yum'' then runInstallCommand H [] ''yum'' ([''install'', ''-y''] @ rpm) h
      else if commandExists H h ''apk'' then runInstallCommand H [] ''apk'' ([''add''] @ apk) h
      else (Some (label @ '' prerequisites are missing and no supported package manager was found''), h))"

definition installOVPackages :: "'h host \<Rightarrow> 'h action" where
  "installOVPackages H = installPackages H ''OV'' [''openvpn'', ''nftables'', ''iproute2'', ''iptables'', ''kmod'']
     [''openvpn'', ''nftables'', ''iproute'', ''iptables'', ''kmod''] [''openvpn'', ''nftables'', ''iproute2'', ''iptables'', ''kmod'']"

definition writeFileIfChanged :: "'h host \<Rightarrow> string \<Rightarrow> string \<Rightarrow> nat \<Rightarrow> 'h action" where
  "writeFileIfChanged H path content mode h =
     (if hRead H h path = Inr content then hChmod H path mode h else hWrite H path content mode h)"

section \<open>Lemmas\<close>

lemma digit_simps [simp]:
  "digit 0 = CHR ''0''" "digit (Suc 0) = CHR ''1''" "digit 2 = CHR ''2''" "digit 3 = CHR ''3''" "digit 4 = CHR ''4''"
  "digit 5 = CHR ''5''" "digit 6 = CHR ''6''" "digit 7 = CHR ''7''" "digit 8 = CHR ''8''" "digit 9 = CHR ''9''"
  by (simp_all add: digit_def char_of_eq_iff take_bit_eq_mod)

lemma thenDo_None: "f h = (None, h') \<Longrightarrow> thenDo f g h = g h'"
  by (simp add: thenDo_def)

lemma thenDo_Some: "f h = (Some err, h') \<Longrightarrow> thenDo f g h = (Some err, h')"
  by (simp add: thenDo_def)

lemma thenDo_ok: "thenDo f g h = (None, h'') \<Longrightarrow> \<exists>h'. f h = (None, h') \<and> g h' = (None, h'')"
  by (auto simp: thenDo_def split: prod.splits option.splits)

lemma thenDo_assoc: "thenDo (thenDo f g) k = thenDo f (thenDo g k)"
  by (rule ext) (simp add: thenDo_def split: prod.split option.split)

lemma thenDo_skip [simp]: "thenDo skip g = g" "thenDo f skip = f"
  by (rule ext, simp add: thenDo_def skip_def split: prod.split option.split)+

lemma ignoring_none [simp]: "fst (ignoring f h) = None"
  by (simp add: ignoring_def)

text \<open>An action keeps a view of the host when no outcome of it changes the view.\<close>

definition keeping :: "('h \<Rightarrow> 'v) \<Rightarrow> ('h \<Rightarrow> 'r \<times> 'h) \<Rightarrow> bool" where
  "keeping view f \<longleftrightarrow> (\<forall>h. view (snd (f h)) = view h)"

lemma keepingD: "keeping view f \<Longrightarrow> f h = (r, h') \<Longrightarrow> view h' = view h"
  unfolding keeping_def by (metis snd_conv)

lemma keeping_skip [keeps]: "keeping view skip" "keeping view (fail err)"
  by (simp_all add: keeping_def skip_def fail_def)

lemma keeping_thenDo [keeps]: "keeping view f \<Longrightarrow> keeping view g \<Longrightarrow> keeping view (thenDo f g)"
  by (simp add: keeping_def thenDo_def split: prod.split option.split) (metis snd_conv)

lemma keeping_ignoring [keeps]: "keeping view f \<Longrightarrow> keeping view (ignoring f)"
  by (simp add: keeping_def ignoring_def)

lemma keeping_if [keeps]: "keeping view f \<Longrightarrow> keeping view g \<Longrightarrow> keeping view (if b then f else g)"
  by simp

lemma keeping_runChecked [keeps]: "keeping view (hRun H env command args) \<Longrightarrow> keeping view (runChecked H env command args what)"
  by (simp add: keeping_def runChecked_def split: prod.split option.split) (metis snd_conv)

end
