(* ===== verification/Source_Blocker.thy ===== *)
theory Source_Blocker
  imports Netip Host Xray_Config User_Reconcile "HOL-Library.List_Lexorder" "HOL-Library.Char_ord"
begin

text \<open>
  The source address blocker: \<open>internal/node/source_ip_blocker.go\<close> and \<open>ApplyIPBlocks\<close> of \<open>grpc.go\<close>.
  Entries and ports are normalised, the ports are taken from the running configuration where the request
  names none, and the result is written as an nftables script. The kernel's table, the script file and
  the programs that are run are a state and an environment of their own. Results: what is blocked is
  exactly the admissible addresses with the largest of their timeouts, every one of them is in the script
  once, and a refused request leaves the table alone.
\<close>

section \<open>Definitions\<close>

record sourceIPBlockEntry =
  beIP :: string
  beTTLSeconds :: nat
  beUserUID :: string
  beReason :: string

record sourceIPBlockPorts =
  bpTCP :: "nat list"
  bpUDP :: "nat list"

definition sourceIPBlockNFTTable :: string where
  "sourceIPBlockNFTTable = ''rebecca_xray_limiter''"

definition defaultSourceIPBlockTTLSecond :: nat where
  "defaultSourceIPBlockTTLSecond = 30 * 60"

definition maxSourceIPBlockTTLSecond :: nat where
  "maxSourceIPBlockTTLSecond = 24 * 60 * 60"

definition normalizedSourceIPBlockTTL :: "nat \<Rightarrow> nat" where
  "normalizedSourceIPBlockTTL value =
     (if value = 0 then defaultSourceIPBlockTTLSecond
      else if maxSourceIPBlockTTLSecond < value then maxSourceIPBlockTTLSecond else value)"

subsection \<open>Entries\<close>

definition protectedAddrs :: "string list \<Rightarrow> addr set" where
  "protectedAddrs protectedIPs = set (List.map_filter (\<lambda>raw. ParseAddr (trimSpace raw)) protectedIPs)"

definition exempt :: "addr set \<Rightarrow> addr \<Rightarrow> bool" where
  "exempt protected addr \<longleftrightarrow> IsLoopback addr \<or> IsUnspecified addr \<or> IsMulticast addr \<or> addr \<in> protected"

text \<open>
  The loop over the entries; \<open>byAddr\<close> keeps the entry with the largest timeout of every address. The
  escapes of \<open>%q\<close> in the message are not written out.
\<close>

fun gatherEntries :: "addr set \<Rightarrow> sourceIPBlockEntry list \<Rightarrow> (addr, sourceIPBlockEntry) gomap \<Rightarrow> string + (addr, sourceIPBlockEntry) gomap" where
  "gatherEntries protected [] byAddr = Inr byAddr"
| "gatherEntries protected (entry # rest) byAddr = (case ParseAddr (trimSpace (beIP entry)) of
       None \<Rightarrow> Inl (''invalid source IP block address '' @ CHR 0x22 # beIP entry @ [CHR 0x22])
     | Some addr \<Rightarrow>
         if exempt protected addr then gatherEntries protected rest byAddr
         else let entry = entry\<lparr>beIP := addrString addr, beTTLSeconds := normalizedSourceIPBlockTTL (beTTLSeconds entry)\<rparr> in
           case map_of byAddr addr of
             Some current \<Rightarrow> if beTTLSeconds entry \<le> beTTLSeconds current then gatherEntries protected rest byAddr
               else gatherEntries protected rest (AList.update addr entry byAddr)
           | None \<Rightarrow> gatherEntries protected rest (AList.update addr entry byAddr))"

definition normalizeSourceIPBlockEntries :: "sourceIPBlockEntry list \<Rightarrow> string list \<Rightarrow> string + sourceIPBlockEntry list" where
  "normalizeSourceIPBlockEntries entries protectedIPs =
     (case gatherEntries (protectedAddrs protectedIPs) entries [] of
        Inl err \<Rightarrow> Inl err
      | Inr byAddr \<Rightarrow> Inr (sort_key beIP (map snd byAddr)))"

subsection \<open>Ports\<close>

definition normalizeSourceIPBlockPortList :: "nat list \<Rightarrow> string + nat list" where
  "normalizeSourceIPBlockPortList values =
     (case find (\<lambda>v. v = 0 \<or> 65535 < v) values of
        Some v \<Rightarrow> Inl (''invalid source IP block port '' @ formatUint v)
      | None \<Rightarrow> Inr (sort (remdups values)))"

definition normalizeSourceIPBlockPorts :: "sourceIPBlockPorts \<Rightarrow> string + sourceIPBlockPorts" where
  "normalizeSourceIPBlockPorts ports =
     (case normalizeSourceIPBlockPortList (bpTCP ports) of Inl err \<Rightarrow> Inl err
      | Inr tcp \<Rightarrow> (case normalizeSourceIPBlockPortList (bpUDP ports) of Inl err \<Rightarrow> Inl err
          | Inr udp \<Rightarrow> Inr \<lparr>bpTCP = tcp, bpUDP = udp\<rparr>))"

definition sourceIPBlockString :: "json option \<Rightarrow> string" where
  "sourceIPBlockString value = trimSpace (strOr value)"

definition sourceIPBlockNestedString :: "jobj \<Rightarrow> string \<Rightarrow> string \<Rightarrow> string" where
  "sourceIPBlockNestedString parent key child = (case asObj (map_of parent key) of
       None \<Rightarrow> [] | Some value \<Rightarrow> sourceIPBlockString (map_of value child))"

text \<open>\<open>strings.FieldsFunc\<close>: the maximal runs of characters that do not separate.\<close>

function fieldsFunc :: "(char \<Rightarrow> bool) \<Rightarrow> string \<Rightarrow> string list" where
  "fieldsFunc sep s =
     (let t = dropWhile sep s in if t = [] then [] else takeWhile (\<lambda>c. \<not> sep c) t # fieldsFunc sep (dropWhile (\<lambda>c. \<not> sep c) t))"
  by pat_completeness auto
termination
proof (relation "measure (\<lambda>(_, s). length s)", goal_cases)
  case (2 sep s t)
  then obtain c u where t: "t = c # u" by (metis list.exhaust)
  then have "\<not> sep c" using 2 hd_dropWhile [of sep s] by (metis list.sel(1) list.distinct(1))
  then have "length (dropWhile (\<lambda>c. \<not> sep c) t) < length t" using t by (simp add: length_dropWhile_le le_imp_less_Suc)
  also have "\<dots> \<le> length s" using 2 by (simp add: length_dropWhile_le)
  finally show ?case by simp
qed simp

declare fieldsFunc.simps [simp del]

definition sourceIPBlockInboundNetworks :: "jobj \<Rightarrow> string list" where
  "sourceIPBlockInboundNetworks inbound =
     (let network0 = sourceIPBlockNestedString inbound ''streamSettings'' ''network'';
          network = (if network0 = [] then sourceIPBlockNestedString inbound ''settings'' ''network'' else network0)
      in if network = [] then [''tcp'']
         else let result = filter (\<lambda>p. p \<noteq> []) (map trimSpace (fieldsFunc (\<lambda>c. c \<in> {CHR '','', CHR '' '', CHR 0x09, CHR 0x0A}) (toLower network)))
              in if result = [] then [''tcp''] else result)"

definition sourceIPBlockNetworkIsUDP :: "string \<Rightarrow> bool" where
  "sourceIPBlockNetworkIsUDP network \<longleftrightarrow> toLower (trimSpace network) \<in> {''udp'', ''kcp'', ''quic''}"

text \<open>
  A number of the document is the text that \<open>json.Marshal\<close> gives a \<open>float64\<close>: a whole number in the range
  of ports is written with digits only, so the test on the float is that the text is such a number.
\<close>

definition portText :: "string \<Rightarrow> nat option" where
  "portText t = (case parseUint 16 t of None \<Rightarrow> None | Some n \<Rightarrow> if n = 0 then None else Some n)"

definition sourceIPBlockSinglePort :: "json option \<Rightarrow> nat option" where
  "sourceIPBlockSinglePort value = (case value of
       Some (JNum t) \<Rightarrow> portText t
     | Some (JStr s) \<Rightarrow> let t = trimSpace s in if t = [] \<or> contains t ''-'' then None else portText t
     | _ \<Rightarrow> None)"

definition skippedInbound :: "jobj \<Rightarrow> bool" where
  "skippedInbound inbound =
     (let tag = trimSpace (sourceIPBlockString (map_of inbound ''tag''));
          protocol = toLower (trimSpace (sourceIPBlockString (map_of inbound ''protocol'')))
      in tag = ''API_INBOUND'' \<or> protocol = ''api'' \<or> protocol = ''tunnel'' \<or> protocol = ''dokodemo-door'')"

definition addInboundPorts :: "jobj \<Rightarrow> sourceIPBlockPorts \<Rightarrow> sourceIPBlockPorts" where
  "addInboundPorts inbound ports =
     (if skippedInbound inbound then ports
      else case sourceIPBlockSinglePort (map_of inbound ''port'') of None \<Rightarrow> ports
        | Some port \<Rightarrow> fold (\<lambda>network ports. if sourceIPBlockNetworkIsUDP network then ports\<lparr>bpUDP := bpUDP ports @ [port]\<rparr>
              else ports\<lparr>bpTCP := bpTCP ports @ [port]\<rparr>) (sourceIPBlockInboundNetworks inbound) ports)"

text \<open>
  Decoding into \<open>[]map[string]any\<close>: \<open>null\<close> is the nil slice or the nil map, anything else that is not an
  array of objects is an error. The document always has the key \<open>inbounds\<close>, \<open>applyAPI\<close> puts it there.
\<close>

fun inboundObjects :: "json list \<Rightarrow> jobj list option" where
  "inboundObjects [] = Some []"
| "inboundObjects (JObj m # rest) = map_option ((#) m) (inboundObjects rest)"
| "inboundObjects (JNull # rest) = map_option ((#) []) (inboundObjects rest)"
| "inboundObjects (_ # rest) = None"

definition decodeInbounds :: "json option \<Rightarrow> jobj list option" where
  "decodeInbounds v = (case v of None \<Rightarrow> Some [] | Some JNull \<Rightarrow> Some [] | Some (JArr xs) \<Rightarrow> inboundObjects xs | _ \<Rightarrow> None)"

definition sourceIPBlockPortsFromConfig :: "jobj \<Rightarrow> string + sourceIPBlockPorts" where
  "sourceIPBlockPortsFromConfig doc = (case decodeInbounds (map_of doc ''inbounds'') of
       None \<Rightarrow> Inl ''json: cannot unmarshal''
     | Some inbounds \<Rightarrow> normalizeSourceIPBlockPorts (fold addInboundPorts inbounds \<lparr>bpTCP = [], bpUDP = []\<rparr>))"

definition noPorts :: "sourceIPBlockPorts \<Rightarrow> bool" where
  "noPorts ports \<longleftrightarrow> bpTCP ports = [] \<and> bpUDP ports = []"

definition requestPorts :: "config option \<Rightarrow> nat list \<Rightarrow> nat list \<Rightarrow> string + sourceIPBlockPorts" where
  "requestPorts lastConfig tcpPorts udpPorts =
     (case normalizeSourceIPBlockPorts \<lparr>bpTCP = tcpPorts, bpUDP = udpPorts\<rparr> of Inl err \<Rightarrow> Inl err
      | Inr ports \<Rightarrow>
          if \<not> noPorts ports then Inr ports
          else case lastConfig of
            None \<Rightarrow> Inl ''xray runtime config is unavailable and no source IP block ports were provided''
          | Some cfg \<Rightarrow> (case sourceIPBlockPortsFromConfig (cfgData cfg) of Inl err \<Rightarrow> Inl err
              | Inr ports \<Rightarrow> if noPorts ports then Inl ''no Xray inbound ports were found for source IP blocking'' else Inr ports))"

definition protectedSourceIPs :: "string \<Rightarrow> string list" where
  "protectedSourceIPs clientIP = (if trimSpace clientIP = [] then [] else [clientIP])"

subsection \<open>The script\<close>

definition sourceIPBlockPortSet :: "nat list \<Rightarrow> string" where
  "sourceIPBlockPortSet ports = joinWith '', '' (map formatUint ports)"

definition sourceIPBlockNFTElements :: "sourceIPBlockEntry list \<Rightarrow> bool \<Rightarrow> string list" where
  "sourceIPBlockNFTElements entries wantV4 = List.map_filter (\<lambda>entry. case ParseAddr (beIP entry) of
       None \<Rightarrow> None
     | Some addr \<Rightarrow> if Is4 addr \<noteq> wantV4 then None
         else Some (addrString addr @ '' timeout '' @ formatUint (beTTLSeconds entry) @ ''s'')) entries"

definition sourceIPBlockSet :: "string \<Rightarrow> string \<Rightarrow> string list \<Rightarrow> string list" where
  "sourceIPBlockSet name typ elements =
     [''  set '' @ name @ '' {'', ''    type '' @ typ, ''    flags timeout'']
     @ (if elements \<noteq> [] then [''    elements = { '' @ joinWith '', '' elements @ '' }''] else [])
     @ [''  }'']"

definition dropRule :: "string \<Rightarrow> string \<Rightarrow> string list \<Rightarrow> nat list \<Rightarrow> string list" where
  "dropRule saddr transport elements ports =
     (if elements \<noteq> [] \<and> ports \<noteq> [] then [''    '' @ saddr @ '' '' @ transport @ '' dport { '' @ sourceIPBlockPortSet ports @ '' } drop''] else [])"

definition buildSourceIPBlockNFTScript :: "sourceIPBlockEntry list \<Rightarrow> sourceIPBlockPorts \<Rightarrow> string" where
  "buildSourceIPBlockNFTScript entries ports =
     (let v4 = sourceIPBlockNFTElements entries True; v6 = sourceIPBlockNFTElements entries False in
      concat (map textLine
        ([''table inet '' @ sourceIPBlockNFTTable @ '' {'']
         @ sourceIPBlockSet ''blocked4'' ''ipv4_addr'' v4 @ sourceIPBlockSet ''blocked6'' ''ipv6_addr'' v6
         @ [''  chain input {'', ''    type filter hook input priority 0; policy accept;'']
         @ dropRule ''ip saddr @blocked4'' ''tcp'' v4 (bpTCP ports) @ dropRule ''ip saddr @blocked4'' ''udp'' v4 (bpUDP ports)
         @ dropRule ''ip6 saddr @blocked6'' ''tcp'' v6 (bpTCP ports) @ dropRule ''ip6 saddr @blocked6'' ''udp'' v6 (bpUDP ports)
         @ [''  }'', ''}''])))"

subsection \<open>Applying\<close>

record sourceIPBlocker =
  blkBaseDir :: string
  blkInstallMode :: string

definition newSourceIPBlocker :: "string \<Rightarrow> string \<Rightarrow> sourceIPBlocker" where
  "newSourceIPBlocker dataDir installMode =
     \<lparr>blkBaseDir = joinPath [dataDir, ''source-ip-blocks''], blkInstallMode = toLower (trimSpace installMode)\<rparr>"

definition deleteTableLocked :: "'h host \<Rightarrow> 'h action" where
  "deleteTableLocked H h = (case hLook H h ''nft'' of
       Inl _ \<Rightarrow> (None, h)
     | Inr nft \<Rightarrow> (None, snd (hRun H [] nft [''delete'', ''table'', ''inet'', sourceIPBlockNFTTable] h)))"

definition clearLocked :: "'h host \<Rightarrow> 'h action" where
  "clearLocked H h = (if hGOOS H \<noteq> ''linux'' then (None, h) else deleteTableLocked H h)"

definition applyScriptLocked :: "'h host \<Rightarrow> string \<Rightarrow> 'h action" where
  "applyScriptLocked H path h = (case hLook H h ''nft'' of
       Inl err \<Rightarrow> (Some err, h)
     | Inr nft \<Rightarrow> runChecked H [] nft [''-f'', path] ''nft apply source IP blocks'' h)"

definition installSourceIPBlockPackages :: "'h host \<Rightarrow> 'h action" where
  "installSourceIPBlockPackages H = installPackages H ''source IP blocking'' [''nftables''] [''nftables''] [''nftables'']"

definition ensureSourceIPBlockPrerequisites :: "'h host \<Rightarrow> 'h action" where
  "ensureSourceIPBlockPrerequisites H h =
     (if hGOOS H \<noteq> ''linux'' then (None, h)
      else thenDo (\<lambda>h. if missingExecutables H h [''nft''] \<noteq> [] then installSourceIPBlockPackages H h else (None, h))
        (\<lambda>h. if commandExists H h ''nft'' then (None, h)
           else (Some ''source IP blocking prerequisite nft was not found after automatic install'', h)) h)"

definition blockerApply :: "'h host \<Rightarrow> sourceIPBlocker \<Rightarrow> sourceIPBlockEntry list \<Rightarrow> sourceIPBlockPorts \<Rightarrow> string list \<Rightarrow> 'h action" where
  "blockerApply H b entries ports protectedIPs h =
     (case normalizeSourceIPBlockEntries entries protectedIPs of
        Inl err \<Rightarrow> (Some err, h)
      | Inr blocked \<Rightarrow>
          if blocked = [] then clearLocked H h
          else if hGOOS H \<noteq> ''linux'' then (Some ''source IP blocking is supported only on Linux'', h)
          else if blkInstallMode b \<noteq> ''binary'' then (Some ''source IP blocking is supported only for binary node installs'', h)
          else case normalizeSourceIPBlockPorts ports of
            Inl err \<Rightarrow> (Some err, h)
          | Inr ports \<Rightarrow>
              if noPorts ports then (Some ''at least one Xray inbound port is required for source IP blocking'', h)
              else let path = joinPath [blkBaseDir b, ''nftables.nft''] in
                thenDo (ensureSourceIPBlockPrerequisites H)
                 (thenDo (hMkdirAll H (blkBaseDir b) 448)
                 (thenDo (hWrite H path (buildSourceIPBlockNFTScript blocked ports) 384)
                 (thenDo (deleteTableLocked H) (applyScriptLocked H path)))) h)"

definition blockerClear :: "'h host \<Rightarrow> 'h action" where
  "blockerClear H = clearLocked H"

record ipBlock =
  ibIP :: string
  ibTTLSeconds :: nat
  ibUserUID :: string
  ibReason :: string

record ipBlockRequest =
  ibOperationID :: string
  ibBlocks :: "ipBlock option list"
  ibTCPPorts :: "nat list"
  ibUDPPorts :: "nat list"

definition requestEntries :: "ipBlockRequest \<Rightarrow> sourceIPBlockEntry list" where
  "requestEntries req = List.map_filter (map_option (\<lambda>b. \<lparr>beIP = ibIP b, beTTLSeconds = ibTTLSeconds b,
     beUserUID = ibUserUID b, beReason = ibReason b\<rparr>)) (ibBlocks req)"

text \<open>A request that is absent is the empty one.\<close>

definition ApplyIPBlocks :: "'h host \<Rightarrow> sourceIPBlocker \<Rightarrow> config option \<Rightarrow> string \<Rightarrow> ipBlockRequest option \<Rightarrow> 'h \<Rightarrow> actionResult \<times> 'h" where
  "ApplyIPBlocks H b lastConfig clientIP request h =
     (let req = (case request of None \<Rightarrow> \<lparr>ibOperationID = [], ibBlocks = [], ibTCPPorts = [], ibUDPPorts = []\<rparr> | Some r \<Rightarrow> r);
          blocks = requestEntries req
      in case (if blocks \<noteq> [] then requestPorts lastConfig (ibTCPPorts req) (ibUDPPorts req) else Inr \<lparr>bpTCP = [], bpUDP = []\<rparr>) of
           Inl err \<Rightarrow> (Failed InvalidArgument err, h)
         | Inr ports \<Rightarrow> (case blockerApply H b blocks ports (protectedSourceIPs clientIP) h of
               (Some err, h') \<Rightarrow> (Failed Unavailable err, h')
             | (None, h') \<Rightarrow> (Accepted ''IP blocks applied'', h')))"

section \<open>Entries\<close>

definition ttlsOf :: "sourceIPBlockEntry list \<Rightarrow> addr \<Rightarrow> nat list" where
  "ttlsOf entries a = map (\<lambda>e. normalizedSourceIPBlockTTL (beTTLSeconds e)) (filter (\<lambda>e. ParseAddr (trimSpace (beIP e)) = Some a) entries)"

definition maxOpt :: "nat \<Rightarrow> nat option \<Rightarrow> nat option" where
  "maxOpt t u = Some (case u of None \<Rightarrow> t | Some v \<Rightarrow> max t v)"

lemma fold_maxOpt: "fold maxOpt ts (Some u) = Some (fold max ts u)"
  by (induction ts arbitrary: u) (simp_all add: maxOpt_def)

lemma fold_maxOpt_Max: "fold maxOpt ts None = (if ts = [] then None else Some (Max (set ts)))"
proof (cases ts)
  case (Cons t rest)
  have "fold maxOpt ts None = Some (fold max rest t)" using fold_maxOpt [of rest t] by (simp add: Cons maxOpt_def)
  also have "fold max rest t = Max (set ts)" using Max.set_eq_fold [of t rest] by (simp add: Cons)
  finally show ?thesis by (simp add: Cons)
qed simp

definition gathered :: "addr set \<Rightarrow> (addr, sourceIPBlockEntry) gomap \<Rightarrow> bool" where
  "gathered P m \<longleftrightarrow> gomap_wf m \<and> (\<forall>(a, e) \<in> set m. wfAddr a \<and> \<not> exempt P a \<and> beIP e = addrString a)"

lemma gatheredD: "gathered P m \<Longrightarrow> (a, e) \<in> set m \<Longrightarrow> wfAddr a \<and> \<not> exempt P a \<and> beIP e = addrString a"
  by (auto simp: gathered_def)

lemma gathered_update: "\<lbrakk>gathered P m; wfAddr a; \<not> exempt P a; beIP e = addrString a\<rbrakk> \<Longrightarrow> gathered P (AList.update a e m)"
  by (auto simp: gathered_def dest!: update_in_set)

lemma gather_entries:
  "\<lbrakk>gatherEntries P entries m = Inr m'; gathered P m\<rbrakk> \<Longrightarrow> gathered P m' \<and>
   (\<forall>a. map_option beTTLSeconds (map_of m' a) =
      (if exempt P a then map_option beTTLSeconds (map_of m a) else fold maxOpt (ttlsOf entries a) (map_option beTTLSeconds (map_of m a))))"
proof (induction P entries m rule: gatherEntries.induct)
  case (1 P m)
  then show ?case by (simp add: ttlsOf_def)
next
  case (2 P e rest m)
  obtain a0 where a0: "ParseAddr (trimSpace (beIP e)) = Some a0" using 2 by (auto split: option.splits)
  show ?case
  proof (cases "exempt P a0")
    case True
    then have "ttlsOf (e # rest) a = ttlsOf rest a" if "\<not> exempt P a" for a using a0 that by (auto simp: ttlsOf_def)
    moreover have "gatherEntries P rest m = Inr m'" using 2 a0 True by simp
    ultimately show ?thesis using 2(1) [OF a0 True] 2(6) by simp
  next
    case False
    let ?e = "e\<lparr>beIP := addrString a0, beTTLSeconds := normalizedSourceIPBlockTTL (beTTLSeconds e)\<rparr>"
    have ts: "ttlsOf (e # rest) a = (if a = a0 then [beTTLSeconds ?e] else []) @ ttlsOf rest a" for a using a0 by (simp add: ttlsOf_def)
    have g: "gathered P (AList.update a0 ?e m)" using gathered_update [of P m a0 ?e] 2(6) False ParseAddr_wf [OF a0] by simp
    show ?thesis
    proof (cases "map_of m a0")
      case None
      then have "gatherEntries P rest (AList.update a0 ?e m) = Inr m'" using 2(5) a0 False by simp
      then show ?thesis using 2(2) [OF a0 False refl None _ g] None False by (simp add: ts maxOpt_def)
    next
      case (Some cur)
      show ?thesis
      proof (cases "beTTLSeconds ?e \<le> beTTLSeconds cur")
        case True
        then have "gatherEntries P rest m = Inr m'" using 2(5) a0 False Some by simp
        then show ?thesis using 2(3) [OF a0 False refl Some True _ 2(6)] Some False True by (simp add: ts maxOpt_def max_def)
      next
        case le: False
        then have "gatherEntries P rest (AList.update a0 ?e m) = Inr m'" using 2(5) a0 False Some by simp
        then show ?thesis using 2(4) [OF a0 False refl Some le _ g] Some False le by (simp add: ts maxOpt_def max_def)
      qed
    qed
  qed
qed

lemma normalize_gathered:
  assumes "normalizeSourceIPBlockEntries entries protectedIPs = Inr blocked"
  obtains m where "gatherEntries (protectedAddrs protectedIPs) entries [] = Inr m" "blocked = sort_key beIP (map snd m)"
    "gathered (protectedAddrs protectedIPs) m"
    "\<And>a. map_option beTTLSeconds (map_of m a) = (if exempt (protectedAddrs protectedIPs) a \<or> ttlsOf entries a = [] then None else Some (Max (set (ttlsOf entries a))))"
proof -
  obtain m where m: "gatherEntries (protectedAddrs protectedIPs) entries [] = Inr m" "blocked = sort_key beIP (map snd m)"
    using assms by (auto simp: normalizeSourceIPBlockEntries_def split: sum.splits)
  have "gathered (protectedAddrs protectedIPs) []" by (simp add: gathered_def)
  from gather_entries [OF m(1) this] show ?thesis using m by (intro that [of m]) (simp_all add: fold_maxOpt_Max)
qed

lemma blocked_iff:
  assumes "normalizeSourceIPBlockEntries entries protectedIPs = Inr blocked"
  shows "(\<exists>e \<in> set blocked. ParseAddr (beIP e) = Some a \<and> beTTLSeconds e = t) \<longleftrightarrow>
    \<not> exempt (protectedAddrs protectedIPs) a \<and> ttlsOf entries a \<noteq> [] \<and> t = Max (set (ttlsOf entries a))"
proof -
  from assms obtain m where m: "blocked = sort_key beIP (map snd m)" "gathered (protectedAddrs protectedIPs) m"
    "map_option beTTLSeconds (map_of m a) = (if exempt (protectedAddrs protectedIPs) a \<or> ttlsOf entries a = [] then None else Some (Max (set (ttlsOf entries a))))"
    by (rule normalize_gathered) blast
  have parse: "ParseAddr (beIP e) = Some b \<longleftrightarrow> b = a'" if "(a', e) \<in> set m" for a' e b
    using gatheredD [OF m(2) that] addr_parse [of a'] by auto
  have mem: "e \<in> set blocked \<longleftrightarrow> (\<exists>a'. (a', e) \<in> set m)" for e by (force simp: m(1))
  have "(\<exists>e \<in> set blocked. ParseAddr (beIP e) = Some a \<and> beTTLSeconds e = t) \<longleftrightarrow> (\<exists>e. (a, e) \<in> set m \<and> beTTLSeconds e = t)"
    by (metis mem parse)
  also have "\<dots> \<longleftrightarrow> map_option beTTLSeconds (map_of m a) = Some t" using m(2) by (auto simp: gathered_def)
  finally show ?thesis by (auto simp: m(3))
qed

lemma blocked_strict:
  assumes "normalizeSourceIPBlockEntries entries protectedIPs = Inr blocked"
  shows "sorted_wrt (<) (map beIP blocked)"
proof -
  from assms obtain m where m: "blocked = sort_key beIP (map snd m)" "gathered (protectedAddrs protectedIPs) m"
    by (rule normalize_gathered) blast
  have "inj_on (beIP \<circ> snd) (set m)"
  proof (rule inj_onI, clarify)
    fix a e a' e' assume x: "(a, e) \<in> set m" "(a', e') \<in> set m" "(beIP \<circ> snd) (a, e) = (beIP \<circ> snd) (a', e')"
    then have "a = a'" using gatheredD [OF m(2) x(1)] gatheredD [OF m(2) x(2)] addrString_inject [of a a'] by simp
    moreover have "e = e'" if "a = a'" using x m(2) that by (auto simp: gathered_def eq_key_imp_eq_value)
    ultimately show "a = a' \<and> e = e'" by simp
  qed
  moreover have "distinct m" using m(2) by (auto simp: gathered_def distinct_map)
  ultimately have "distinct (map (beIP \<circ> snd) m)" by (simp only: distinct_map)
  then have "distinct (map beIP (map snd m))" by (simp only: map_map)
  then have "distinct (map beIP blocked)" by (simp add: m(1) distinct_map del: map_map)
  moreover have "sorted (map beIP blocked)" by (simp add: m(1))
  ultimately show ?thesis by (simp add: strict_sorted_iff)
qed

lemma normalizedTTL_bounds: "1 \<le> normalizedSourceIPBlockTTL t \<and> normalizedSourceIPBlockTTL t \<le> maxSourceIPBlockTTLSecond"
  by (simp add: normalizedSourceIPBlockTTL_def maxSourceIPBlockTTLSecond_def defaultSourceIPBlockTTLSecond_def)

text \<open>
  (C27) The blocked addresses are exactly the addresses of the request that are neither loopback,
  unspecified, multicast nor protected, whatever spelling the request uses for them: each has one entry, in
  strictly increasing order of its text, and its timeout is the largest of the timeouts that are asked for it,
  zero counting as half an hour and more than a day as a day.
\<close>
theorem blocked_addresses_exact:
  assumes "normalizeSourceIPBlockEntries entries protectedIPs = Inr blocked"
  shows "sorted_wrt (<) (map beIP blocked)
    \<and> (\<forall>a t. (\<exists>e \<in> set blocked. ParseAddr (beIP e) = Some a \<and> beTTLSeconds e = t) \<longleftrightarrow>
        \<not> (IsLoopback a \<or> IsUnspecified a \<or> IsMulticast a \<or> a \<in> protectedAddrs protectedIPs) \<and> ttlsOf entries a \<noteq> [] \<and> t = Max (set (ttlsOf entries a)))"
  using blocked_strict [OF assms] blocked_iff [OF assms] by (simp add: exempt_def)

section \<open>The script\<close>

lemma blocked_parse:
  assumes "normalizeSourceIPBlockEntries entries protectedIPs = Inr blocked" and "e \<in> set blocked"
  shows "\<exists>a. ParseAddr (beIP e) = Some a \<and> beIP e = addrString a \<and> \<not> exempt (protectedAddrs protectedIPs) a
    \<and> 1 \<le> beTTLSeconds e \<and> beTTLSeconds e \<le> maxSourceIPBlockTTLSecond"
proof -
  from assms(1) obtain m where m: "blocked = sort_key beIP (map snd m)" "gathered (protectedAddrs protectedIPs) m"
    by (rule normalize_gathered) blast
  obtain a where a: "(a, e) \<in> set m" using assms(2) by (auto simp: m(1))
  then have p: "ParseAddr (beIP e) = Some a" "beIP e = addrString a" "\<not> exempt (protectedAddrs protectedIPs) a"
    using gatheredD [OF m(2) a] addr_parse [of a] by auto
  then have "\<exists>e' \<in> set blocked. ParseAddr (beIP e') = Some a \<and> beTTLSeconds e' = beTTLSeconds e" using assms(2) by blast
  then have "ttlsOf entries a \<noteq> [] \<and> beTTLSeconds e = Max (set (ttlsOf entries a))" unfolding blocked_iff [OF assms(1)] by simp
  then have "beTTLSeconds e \<in> set (ttlsOf entries a)" by (metis List.finite_set Max_in set_empty)
  then have "1 \<le> beTTLSeconds e \<and> beTTLSeconds e \<le> maxSourceIPBlockTTLSecond" using normalizedTTL_bounds by (auto simp: ttlsOf_def)
  then show ?thesis using p by blast
qed

definition isV4 :: "sourceIPBlockEntry \<Rightarrow> bool" where
  "isV4 e \<longleftrightarrow> (case ParseAddr (beIP e) of None \<Rightarrow> False | Some a \<Rightarrow> Is4 a)"

lemma script_elements:
  assumes "normalizeSourceIPBlockEntries entries protectedIPs = Inr blocked"
  shows "sourceIPBlockNFTElements blocked want =
    map (\<lambda>e. beIP e @ '' timeout '' @ formatUint (beTTLSeconds e) @ ''s'') (filter (\<lambda>e. isV4 e = want) blocked)"
proof -
  have "sourceIPBlockNFTElements es want = map (\<lambda>e. beIP e @ '' timeout '' @ formatUint (beTTLSeconds e) @ ''s'') (filter (\<lambda>e. isV4 e = want) es)"
    if "set es \<subseteq> set blocked" for es
    using that
  proof (induction es)
    case (Cons e es)
    then obtain a where "ParseAddr (beIP e) = Some a" "beIP e = addrString a" using blocked_parse [OF assms, of e] by auto
    then show ?case using Cons by (auto simp: sourceIPBlockNFTElements_def isV4_def map_filter_simps)
  qed (simp add: sourceIPBlockNFTElements_def map_filter_simps)
  then show ?thesis by simp
qed

section \<open>Ports\<close>

definition portsOk :: "sourceIPBlockPorts \<Rightarrow> bool" where
  "portsOk ports \<longleftrightarrow> (\<forall>l \<in> {bpTCP ports, bpUDP ports}. sorted_wrt (<) l \<and> (\<forall>p \<in> set l. 1 \<le> p \<and> p \<le> 65535))"

lemma normalize_port_list:
  "normalizeSourceIPBlockPortList values = Inr l \<longleftrightarrow> (\<forall>p \<in> set values. 1 \<le> p \<and> p \<le> 65535) \<and> l = sort (remdups values)"
proof (cases "find (\<lambda>v. v = 0 \<or> 65535 < v) values")
  case None
  then have "\<forall>p \<in> set values. 1 \<le> p \<and> p \<le> 65535" by (auto simp: find_None_iff)
  then show ?thesis using None by (auto simp: normalizeSourceIPBlockPortList_def)
next
  case (Some v)
  then have "v \<in> set values \<and> (v = 0 \<or> 65535 < v)" by (auto simp: find_Some_iff in_set_conv_nth)
  then show ?thesis using Some by (fastforce simp: normalizeSourceIPBlockPortList_def)
qed

lemma normalize_ports_ok: "normalizeSourceIPBlockPorts ports = Inr ports' \<Longrightarrow> portsOk ports'"
  by (auto simp: normalizeSourceIPBlockPorts_def portsOk_def normalize_port_list strict_sorted_iff split: sum.splits)

text \<open>
  The ports that are taken from a configuration are valid port numbers in strictly increasing order,
  and the inbound through which the node controls Xray adds nothing to them: the ports of the document
  that the node runs are those of the inbounds the master sent.
\<close>
theorem config_ports_skip_api:
  assumes "sourceIPBlockPortsFromConfig (applyAPI s peerIP m) = Inr ports"
  shows "portsOk ports \<and>
    sourceIPBlockPortsFromConfig [(''inbounds'', JArr (filter (keepInbound (SettingsInbounds s)) (arrOr (map_of m ''inbounds''))))] = Inr ports"
proof -
  let ?kept = "filter (keepInbound (SettingsInbounds s)) (arrOr (map_of m ''inbounds''))"
  obtain api where api: "apiInbound s = JObj api" "skippedInbound api"
    by (simp add: apiInbound_def skippedInbound_def sourceIPBlockString_def trimSpace_graphic graphic_def Let_def)
  have doc: "map_of (applyAPI s peerIP m) ''inbounds'' = Some (JArr (apiInbound s # ?kept))" by (rule applyAPI_get(1))
  have none: "addInboundPorts api p = p" for p using api(2) by (simp add: addInboundPorts_def)
  obtain inbounds where "inboundObjects ?kept = Some inbounds"
    using assms by (auto simp: sourceIPBlockPortsFromConfig_def doc decodeInbounds_def api(1) split: option.splits)
  then have "sourceIPBlockPortsFromConfig [(''inbounds'', JArr ?kept)] = sourceIPBlockPortsFromConfig (applyAPI s peerIP m)"
    by (simp add: sourceIPBlockPortsFromConfig_def doc decodeInbounds_def api(1) none)
  moreover have "portsOk ports" using assms by (auto simp: sourceIPBlockPortsFromConfig_def dest: normalize_ports_ok split: option.splits)
  ultimately show ?thesis using assms by simp
qed

section \<open>Applying\<close>

text \<open>
  What the programs do. \<open>tbl\<close> is the kernel's table: the scripts that were loaded since it came into being, none when there is no table. A file that
  was written is there. Loading a script adds to the table that is there, and a script that is refused changes nothing. Deleting the table
  leaves none when it succeeds and the table as it was when it fails, and does not touch files.
\<close>

definition nftLaws :: "'h host \<Rightarrow> ('h \<Rightarrow> string list) \<Rightarrow> ('h \<Rightarrow> string \<Rightarrow> string option) \<Rightarrow> bool" where
  "nftLaws H tbl fileOf \<longleftrightarrow>
     (\<forall>path c md h h'. hWrite H path c md h = (None, h') \<longrightarrow> fileOf h' path = Some c)
   \<and> (\<forall>nft h err out h'. hLook H h ''nft'' = Inr nft \<longrightarrow> hRun H [] nft [''delete'', ''table'', ''inet'', sourceIPBlockNFTTable] h = ((err, out), h') \<longrightarrow>
        fileOf h' = fileOf h \<and> hLook H h' = hLook H h \<and> tbl h' = (if err = None then [] else tbl h))
   \<and> (\<forall>nft path h err out h'. hLook H h ''nft'' = Inr nft \<longrightarrow> hRun H [] nft [''-f'', path] h = ((err, out), h') \<longrightarrow>
        (if err = None then \<exists>c. fileOf h path = Some c \<and> tbl h' = tbl h @ [c] else tbl h' = tbl h))"

text \<open>A table that is there can be deleted. The program ignores the error when it cannot.\<close>

definition deletable :: "'h host \<Rightarrow> ('h \<Rightarrow> string list) \<Rightarrow> bool" where
  "deletable H tbl \<longleftrightarrow> (\<forall>nft h. hLook H h ''nft'' = Inr nft \<longrightarrow> tbl h \<noteq> [] \<longrightarrow>
     fst (fst (hRun H [] nft [''delete'', ''table'', ''inet'', sourceIPBlockNFTTable] h)) = None)"

lemma deleteTable_effect:
  assumes "nftLaws H tbl fileOf" and "hLook H h ''nft'' = Inr nft" and "deleteTableLocked H h = (r, h1)"
  shows "r = None \<and> fileOf h1 = fileOf h \<and> hLook H h1 = hLook H h" and "deletable H tbl \<Longrightarrow> tbl h1 = []"
    and "fst (fst (hRun H [] nft [''delete'', ''table'', ''inet'', sourceIPBlockNFTTable] h)) \<noteq> None \<Longrightarrow> tbl h1 = tbl h"
proof -
  obtain err out h' where d: "hRun H [] nft [''delete'', ''table'', ''inet'', sourceIPBlockNFTTable] h = ((err, out), h')" by (metis prod.collapse)
  have h1: "r = None" "h1 = h'" using assms(2,3) d by (auto simp: deleteTableLocked_def)
  have l: "fileOf h' = fileOf h \<and> hLook H h' = hLook H h \<and> tbl h' = (if err = None then [] else tbl h)"
    using assms(1,2) d unfolding nftLaws_def by blast
  then show "r = None \<and> fileOf h1 = fileOf h \<and> hLook H h1 = hLook H h" using h1 by simp
  show "tbl h1 = []" if "deletable H tbl" using that assms(2) d l h1 unfolding deletable_def by (metis fst_conv)
  show "tbl h1 = tbl h" if "fst (fst (hRun H [] nft [''delete'', ''table'', ''inet'', sourceIPBlockNFTTable] h)) \<noteq> None" using that d l h1 by auto
qed

lemma nft_written: "nftLaws H tbl fileOf \<Longrightarrow> hWrite H path c md h = (None, h') \<Longrightarrow> fileOf h' path = Some c"
  unfolding nftLaws_def by blast

lemma applyScript_effect:
  assumes "nftLaws H tbl fileOf" and "applyScriptLocked H path h = (None, h2)" and "fileOf h path = Some c"
  shows "tbl h2 = tbl h @ [c]"
proof -
  obtain nft out where n: "hLook H h ''nft'' = Inr nft" "hRun H [] nft [''-f'', path] h = ((None, out), h2)"
    using assms(2) by (auto simp: applyScriptLocked_def runChecked_def split: sum.splits prod.splits option.splits)
  then have "\<exists>c. fileOf h path = Some c \<and> tbl h2 = tbl h @ [c]" using assms(1) unfolding nftLaws_def by (metis (full_types))
  then show ?thesis using assms(3) by auto
qed

definition installScript :: "'h host \<Rightarrow> sourceIPBlocker \<Rightarrow> string \<Rightarrow> 'h action" where
  "installScript H b script = (let path = joinPath [blkBaseDir b, ''nftables.nft''] in
     thenDo (ensureSourceIPBlockPrerequisites H) (thenDo (hMkdirAll H (blkBaseDir b) 448)
       (thenDo (hWrite H path script 384) (thenDo (deleteTableLocked H) (applyScriptLocked H path)))))"

lemma blockerApply_cases:
  assumes "blockerApply H b entries ports protectedIPs h = (r, h')"
  obtains (refused) err where "r = Some err" "h' = h"
  | (cleared) "normalizeSourceIPBlockEntries entries protectedIPs = Inr []" "clearLocked H h = (r, h')"
  | (installed) blocked ports' where "normalizeSourceIPBlockEntries entries protectedIPs = Inr blocked" "blocked \<noteq> []"
      "normalizeSourceIPBlockPorts ports = Inr ports'" "\<not> noPorts ports'"
      "installScript H b (buildSourceIPBlockNFTScript blocked ports') h = (r, h')"
  using assms by (auto simp: blockerApply_def installScript_def Let_def split: sum.splits if_splits)

lemma installScript_ok:
  assumes laws: "nftLaws H tbl fileOf" and ok: "installScript H b script h = (None, h')"
  shows "\<exists>nft h1 h2 h3 h4. ensureSourceIPBlockPrerequisites H h = (None, h1) \<and> hMkdirAll H (blkBaseDir b) 448 h1 = (None, h2)
    \<and> hWrite H (joinPath [blkBaseDir b, ''nftables.nft'']) script 384 h2 = (None, h3)
    \<and> hLook H h3 ''nft'' = Inr nft \<and> deleteTableLocked H h3 = (None, h4) \<and> tbl h' = tbl h4 @ [script]"
proof -
  let ?p = "joinPath [blkBaseDir b, ''nftables.nft'']"
  obtain h1 h2 h3 h4 where e: "ensureSourceIPBlockPrerequisites H h = (None, h1)" "hMkdirAll H (blkBaseDir b) 448 h1 = (None, h2)"
    and s: "hWrite H ?p script 384 h2 = (None, h3)" "deleteTableLocked H h3 = (None, h4)" "applyScriptLocked H ?p h4 = (None, h')"
    using ok by (auto simp: installScript_def Let_def dest!: thenDo_ok)
  obtain nft where nft: "hLook H h4 ''nft'' = Inr nft" using s(3) by (auto simp: applyScriptLocked_def split: sum.splits)
  obtain nft' where n: "hLook H h3 ''nft'' = Inr nft'" using nft s(2) by (cases "hLook H h3 ''nft''") (auto simp: deleteTableLocked_def)
  have "fileOf h4 ?p = Some script" using deleteTable_effect(1) [OF laws n s(2)] nft_written [OF laws s(1)] by simp
  then have "tbl h' = tbl h4 @ [script]" by (rule applyScript_effect [OF laws s(3)])
  with e s n show ?thesis by blast
qed

lemma apply_accepted: "ApplyIPBlocks H b lastConfig clientIP (Some req) h = (Accepted msg, h') \<Longrightarrow>
    \<exists>ports. blockerApply H b (requestEntries req) ports (protectedSourceIPs clientIP) h = (None, h')"
  by (auto simp: ApplyIPBlocks_def Let_def split: sum.splits prod.splits option.splits)

text \<open>
  (C34) When \<open>ApplyIPBlocks\<close> answers that the blocks are applied, the kernel's table is the script of the normalised entries, on ports that
  are valid, and nothing of an earlier request is left in it; or there was nothing to block, and on Linux with \<open>nft\<close> there is no table
  any more. The address of the master that is connected is not among the entries. A table that is there can be deleted.
\<close>
theorem accepted_blocks_installed:
  assumes "nftLaws H tbl fileOf" and "deletable H tbl" and "ApplyIPBlocks H b lastConfig clientIP (Some req) h = (Accepted msg, h')"
    and "ParseAddr (trimSpace clientIP) = Some master"
  shows "\<exists>blocked. normalizeSourceIPBlockEntries (requestEntries req) (protectedSourceIPs clientIP) = Inr blocked
    \<and> (\<forall>e \<in> set blocked. ParseAddr (beIP e) \<noteq> Some master)
    \<and> (if blocked = [] then hGOOS H = ''linux'' \<and> commandExists H h ''nft'' \<longrightarrow> tbl h' = []
       else \<exists>ports. tbl h' = [buildSourceIPBlockNFTScript blocked ports] \<and> portsOk ports \<and> \<not> noPorts ports)"
proof -
  obtain ports where a: "blockerApply H b (requestEntries req) ports (protectedSourceIPs clientIP) h = (None, h')"
    using apply_accepted [OF assms(3)] by blast
  have "trimSpace clientIP \<noteq> []" using assms(4) by (auto simp: ParseAddr_def)
  then have m: "master \<in> protectedAddrs (protectedSourceIPs clientIP)"
    using assms(4) by (simp add: protectedSourceIPs_def protectedAddrs_def map_filter_simps)
  have safe: "ParseAddr (beIP e) \<noteq> Some master" if "normalizeSourceIPBlockEntries (requestEntries req) (protectedSourceIPs clientIP) = Inr blocked" "e \<in> set blocked" for blocked e
    using blocked_parse [OF that] m by (auto simp: exempt_def)
  from a show ?thesis
  proof (cases rule: blockerApply_cases)
    case cleared
    have "tbl h' = []" if n: "hGOOS H = ''linux''" "commandExists H h ''nft''"
    proof -
      obtain nft where "hLook H h ''nft'' = Inr nft" using n(2) by (auto simp: commandExists_def split: sum.splits)
      moreover have "deleteTableLocked H h = (None, h')" using cleared(2) n(1) by (simp add: clearLocked_def)
      ultimately show ?thesis using deleteTable_effect(2) [OF assms(1)] assms(2) by blast
    qed
    then show ?thesis using cleared(1) by (intro exI [of _ "[]"]) simp
  next
    case (installed blocked ports')
    obtain nft h3 h4 where "hLook H h3 ''nft'' = Inr nft" "deleteTableLocked H h3 = (None, h4)" "tbl h' = tbl h4 @ [buildSourceIPBlockNFTScript blocked ports']"
      using installScript_ok [OF assms(1) installed(5)] by blast
    then have "tbl h' = [buildSourceIPBlockNFTScript blocked ports']" using deleteTable_effect(2) [OF assms(1) _ _ assms(2)] by simp
    then show ?thesis using installed safe normalize_ports_ok [OF installed(3)] by (intro exI [of _ blocked]) auto
  qed auto
qed

text \<open>
  When the table cannot be deleted the error is ignored and the new script is merged into the old table: the request is answered as applied, and
  the blocks of earlier requests stay in force.
\<close>

theorem undeleted_table_merged:
  assumes "nftLaws H tbl fileOf" and "\<And>nft h. fst (fst (hRun H [] nft [''delete'', ''table'', ''inet'', sourceIPBlockNFTTable] h)) \<noteq> None"
    and "\<And>h. commandExists H h ''nft''" and "\<And>path mode. keeping tbl (hMkdirAll H path mode)" and "\<And>path c mode. keeping tbl (hWrite H path c mode)"
    and "installScript H b script h = (None, h')"
  shows "tbl h' = tbl h @ [script]"
proof -
  obtain nft h1 h2 h3 h4 where s: "ensureSourceIPBlockPrerequisites H h = (None, h1)" "hMkdirAll H (blkBaseDir b) 448 h1 = (None, h2)"
      "hWrite H (joinPath [blkBaseDir b, ''nftables.nft'']) script 384 h2 = (None, h3)"
      "hLook H h3 ''nft'' = Inr nft" "deleteTableLocked H h3 = (None, h4)" "tbl h' = tbl h4 @ [script]"
    using installScript_ok [OF assms(1,6)] by blast
  have "h1 = h" using s(1) assms(3) by (auto simp: ensureSourceIPBlockPrerequisites_def missingExecutables_def commandExists_def thenDo_def skip_def split: if_splits)
  moreover have "tbl h2 = tbl h1" "tbl h3 = tbl h2" using keepingD [OF assms(4) s(2)] keepingD [OF assms(5) s(3)] by simp_all
  ultimately show ?thesis using s(6) deleteTable_effect(3) [OF assms(1) s(4,5) assms(2)] by simp
qed

lemma gather_invalid: "(\<exists>e \<in> set entries. ParseAddr (trimSpace (beIP e)) = None) \<Longrightarrow> \<exists>err. gatherEntries P entries m = Inl err"
  by (induction entries arbitrary: m) (auto split: option.splits simp: Let_def)

text \<open>
  A request with one address that does not parse is refused as a whole, and nothing on the host
  changes: the blocks that were in force stay.
\<close>
theorem invalid_address_refused:
  assumes "ApplyIPBlocks H b lastConfig clientIP (Some req) h = (r, h')"
    and "Some blk \<in> set (ibBlocks req)" and "ParseAddr (trimSpace (ibIP blk)) = None"
  shows "h' = h \<and> (\<exists>code msg. r = Failed code msg)"
proof -
  have "\<lparr>beIP = ibIP blk, beTTLSeconds = ibTTLSeconds blk, beUserUID = ibUserUID blk, beReason = ibReason blk\<rparr> \<in> set (requestEntries req)"
    using assms(2) by (force simp: requestEntries_def map_filter_def)
  then have "\<exists>e \<in> set (requestEntries req). ParseAddr (trimSpace (beIP e)) = None" using assms(3) by force
  from gather_invalid [OF this, of "protectedAddrs (protectedSourceIPs clientIP)" "[]"] obtain err where "normalizeSourceIPBlockEntries (requestEntries req) (protectedSourceIPs clientIP) = Inl err"
    by (auto simp: normalizeSourceIPBlockEntries_def)
  then have "blockerApply H b (requestEntries req) ports (protectedSourceIPs clientIP) h = (Some err, h)" for ports
    by (simp add: blockerApply_def)
  then show ?thesis using assms(1) by (auto simp: ApplyIPBlocks_def Let_def split: sum.splits)
qed

section \<open>Zones\<close>

lemma zone_parse:
  assumes "z \<noteq> []"
  shows "addrString (V6 [65152, 0, 0, 0, 0, 0, 0, 1] z) = ''fe80::1%'' @ z"
    and "ParseAddr (''fe80::1%'' @ z) = Some (V6 [65152, 0, 0, 0, 0, 0, 0, 1] z)"
proof -
  show a: "addrString (V6 [65152, 0, 0, 0, 0, 0, 0, 1] z) = ''fe80::1%'' @ z" using assms
    by (simp add: Is4In6_def string6_def bestRun_def zeroRun_def formatHex.simps hexChar_def upt_rec)
  show "ParseAddr (''fe80::1%'' @ z) = Some (V6 [65152, 0, 0, 0, 0, 0, 0, 1] z)"
    using addr_parse [of "V6 [65152, 0, 0, 0, 0, 0, 0, 1] z"] unfolding a by simp
qed

lemma zone_blocked:
  assumes "z \<noteq> []" and "graphic (last z)"
  shows "normalizeSourceIPBlockEntries [\<lparr>beIP = ''fe80::1%'' @ z, beTTLSeconds = 0, beUserUID = uid, beReason = why\<rparr>] [] =
    Inr [\<lparr>beIP = ''fe80::1%'' @ z, beTTLSeconds = 1800, beUserUID = uid, beReason = why\<rparr>]"
proof -
  let ?a = "V6 [65152, 0, 0, 0, 0, 0, 0, 1] z"
  note a = zone_parse [OF assms(1)]
  have t: "trimSpace (''fe80::1%'' @ z) = ''fe80::1%'' @ z" using assms by (intro trimSpace_graphic) (simp_all add: graphic_def)
  have e: "\<not> exempt {} ?a" using assms(1) by (simp add: exempt_def IsLoopback_def IsUnspecified_def IsMulticast_def Is4In6_def)
  have "gatherEntries {} [\<lparr>beIP = ''fe80::1%'' @ z, beTTLSeconds = 0, beUserUID = uid, beReason = why\<rparr>] []
    = Inr [(?a, \<lparr>beIP = ''fe80::1%'' @ z, beTTLSeconds = 1800, beUserUID = uid, beReason = why\<rparr>)]"
    using e t a by (simp del: addrString.simps add: normalizedSourceIPBlockTTL_def defaultSourceIPBlockTTLSecond_def)
  then show ?thesis by (simp add: normalizeSourceIPBlockEntries_def protectedAddrs_def map_filter_simps)
qed

text \<open>
  The zone of an IPv6 address reaches the nftables script as it is: an address whose zone is any text is
  accepted, and that text, braces and line breaks included, stands in the element of the set. No address of
  a packet has a zone, and \<open>nft\<close> reads the text as its own syntax.
\<close>
theorem zone_copied_into_script:
  assumes "z \<noteq> []" and "graphic (last z)"
  shows "\<exists>blocked. normalizeSourceIPBlockEntries [\<lparr>beIP = ''fe80::1%'' @ z, beTTLSeconds = 0, beUserUID = uid, beReason = why\<rparr>] [] = Inr blocked
    \<and> sourceIPBlockNFTElements blocked False = [''fe80::1%'' @ z @ '' timeout 1800s'']"
proof -
  have "formatUint 1800 = ''1800''" by (simp add: formatUint.simps)
  moreover have "\<not> isV4 \<lparr>beIP = ''fe80::1%'' @ z, beTTLSeconds = 1800, beUserUID = uid, beReason = why\<rparr>"
    using zone_parse [OF assms(1)] by (simp add: isV4_def)
  ultimately show ?thesis using script_elements [OF zone_blocked [OF assms, of uid why], of False] zone_blocked [OF assms, of uid why] by auto
qed

section \<open>Examples\<close>

text \<open>A host of files and one table, whose \<open>nft\<close> refuses the scripts that \<open>bad\<close> holds for.\<close>

type_synonym miniHost = "(string \<Rightarrow> string option) \<times> string list"

definition miniHost :: "(string \<Rightarrow> bool) \<Rightarrow> miniHost host" where
  "miniHost bad = \<lparr>hGOOS = ''linux'', hRoot = True, hLook = (\<lambda>h name. if name = ''nft'' then Inr ''/usr/sbin/nft'' else Inl ''not found''),
     hRun = (\<lambda>env cmd args h. case args of
        [flag, path] \<Rightarrow> (case fst h path of None \<Rightarrow> ((Some ''exit status 1'', []), h)
          | Some t \<Rightarrow> if bad t then ((Some ''exit status 1'', ''syntax error''), h) else ((None, []), (fst h, snd h @ [t])))
      | _ \<Rightarrow> if snd h = [] then ((Some ''exit status 1'', ''No such file or directory''), h) else ((None, []), (fst h, []))),
     hRead = (\<lambda>h path. case fst h path of None \<Rightarrow> Inl ''not found'' | Some t \<Rightarrow> Inr t),
     hWrite = (\<lambda>path c mode h. (None, ((fst h)(path := Some c), snd h))),
     hChmod = (\<lambda>path mode. skip), hMkdirAll = (\<lambda>path mode. skip), hRemove = (\<lambda>path. skip), hRemoveAll = (\<lambda>path. skip),
     hStat = (\<lambda>h path. None), hReadDir = (\<lambda>h path. Inr []), hSleep = (\<lambda>ms h. h)\<rparr>"

definition exampleBlocker :: sourceIPBlocker where
  "exampleBlocker = \<lparr>blkBaseDir = ''/var/lib/rebecca-node/source-ip-blocks'', blkInstallMode = ''binary''\<rparr>"

definition blockRequest :: "string list \<Rightarrow> ipBlockRequest" where
  "blockRequest ips = \<lparr>ibOperationID = [], ibBlocks = map (\<lambda>ip. Some \<lparr>ibIP = ip, ibTTLSeconds = 0, ibUserUID = [], ibReason = []\<rparr>) ips,
     ibTCPPorts = [443, 80, 443], ibUDPPorts = []\<rparr>"

lemma miniHost_laws: "nftLaws (miniHost bad) snd fst" "deletable (miniHost bad) snd"
  by (auto simp: nftLaws_def deletable_def miniHost_def split: option.splits if_splits)

lemma example_parse:
  "ParseAddr ''198.51.100.7'' = Some (V4 3325256711)" "ParseAddr ''203.0.113.9'' = Some (V4 3405803785)" "ParseAddr ''not an address'' = None"
  by (simp_all add: ParseAddr_def parseIPv4_def splitOn.simps hasPrefix_def parseOctet_def digitVal_def)

lemma example_protected: "protectedAddrs (protectedSourceIPs ''203.0.113.9'') = {V4 3405803785}"
  by (simp add: protectedSourceIPs_def protectedAddrs_def map_filter_simps trimSpace_graphic graphic_def example_parse)

lemma example_entries:
  "requestEntries (blockRequest [ip]) = [\<lparr>beIP = ip, beTTLSeconds = 0, beUserUID = [], beReason = []\<rparr>]"
  by (simp add: requestEntries_def blockRequest_def map_filter_simps)

lemma example_blocked:
  "normalizeSourceIPBlockEntries (requestEntries (blockRequest [''198.51.100.7''])) (protectedSourceIPs ''203.0.113.9'')
    = Inr [\<lparr>beIP = ''198.51.100.7'', beTTLSeconds = 1800, beUserUID = [], beReason = []\<rparr>]"
proof -
  have a: "addrString (V4 3325256711) = ''198.51.100.7''" by (simp add: string4_def octets_def formatUint.simps)
  have e: "\<not> exempt {V4 3405803785} (V4 3325256711)" by (simp add: exempt_def IsLoopback_def IsUnspecified_def IsMulticast_def)
  have t: "normalizedSourceIPBlockTTL 0 = 1800" by (simp add: normalizedSourceIPBlockTTL_def defaultSourceIPBlockTTLSecond_def)
  have p: "ParseAddr (trimSpace ''198.51.100.7'') = Some (V4 3325256711)" by (simp add: trimSpace_graphic graphic_def example_parse)
  have "gatherEntries {V4 3405803785} [\<lparr>beIP = ''198.51.100.7'', beTTLSeconds = 0, beUserUID = [], beReason = []\<rparr>] []
    = Inr [(V4 3325256711, \<lparr>beIP = ''198.51.100.7'', beTTLSeconds = 1800, beUserUID = [], beReason = []\<rparr>)]"
    using e by (simp del: addrString.simps add: p a t)
  then show ?thesis by (simp add: normalizeSourceIPBlockEntries_def example_protected example_entries)
qed

theorem blocked_addresses_exact_witness:
  "\<forall>t. (\<exists>e \<in> set [\<lparr>beIP = ''198.51.100.7'', beTTLSeconds = 1800, beUserUID = [], beReason = []\<rparr>]. ParseAddr (beIP e) = Some (V4 3325256711) \<and> beTTLSeconds e = t) \<longleftrightarrow> t = 1800"
  using blocked_addresses_exact [OF example_blocked] by (simp add: example_parse)

lemma example_ports:
  "normalizeSourceIPBlockPorts \<lparr>bpTCP = [443, 80, 443], bpUDP = []\<rparr> = Inr \<lparr>bpTCP = [80, 443], bpUDP = []\<rparr>"
  "normalizeSourceIPBlockPorts \<lparr>bpTCP = [80, 443], bpUDP = []\<rparr> = Inr \<lparr>bpTCP = [80, 443], bpUDP = []\<rparr>"
  by (simp_all add: normalizeSourceIPBlockPorts_def normalizeSourceIPBlockPortList_def)

lemma block_example_apply:
  assumes "normalizeSourceIPBlockEntries (requestEntries (blockRequest [ip])) (protectedSourceIPs client) = Inr (e # es)"
  shows "ApplyIPBlocks (miniHost bad) exampleBlocker None client (Some (blockRequest [ip])) h =
    (let script = buildSourceIPBlockNFTScript (e # es) \<lparr>bpTCP = [80, 443], bpUDP = []\<rparr>;
         files = (fst h)(''/var/lib/rebecca-node/source-ip-blocks/nftables.nft'' := Some script)
     in if bad script then (Failed Unavailable ''nft apply source IP blocks: exit status 1: syntax error'', (files, []))
        else (Accepted ''IP blocks applied'', (files, [script])))"
proof -
  have p: "requestPorts None (ibTCPPorts (blockRequest [ip])) (ibUDPPorts (blockRequest [ip])) = Inr \<lparr>bpTCP = [80, 443], bpUDP = []\<rparr>"
    by (simp add: requestPorts_def blockRequest_def example_ports noPorts_def)
  have path: "joinPath [''/var/lib/rebecca-node/source-ip-blocks'', ''nftables.nft''] = ''/var/lib/rebecca-node/source-ip-blocks/nftables.nft''"
    by code_simp
  have "blockerApply (miniHost bad) exampleBlocker (requestEntries (blockRequest [ip])) \<lparr>bpTCP = [80, 443], bpUDP = []\<rparr> (protectedSourceIPs client) h =
    (let script = buildSourceIPBlockNFTScript (e # es) \<lparr>bpTCP = [80, 443], bpUDP = []\<rparr>;
         files = (fst h)(''/var/lib/rebecca-node/source-ip-blocks/nftables.nft'' := Some script)
     in if bad script then (Some ''nft apply source IP blocks: exit status 1: syntax error'', (files, [])) else (None, (files, [script])))"
    by (simp add: blockerApply_def assms exampleBlocker_def example_ports noPorts_def path miniHost_def thenDo_def ensureSourceIPBlockPrerequisites_def
        missingExecutables_def commandExists_def skip_def deleteTableLocked_def applyScriptLocked_def runChecked_def Let_def trimSpace_graphic graphic_def)
  then show ?thesis using p example_entries [of ip] by (simp add: ApplyIPBlocks_def Let_def)
qed

theorem accepted_blocks_installed_witness:
  "\<exists>blocked ports h'. ApplyIPBlocks (miniHost (\<lambda>_. False)) exampleBlocker None ''203.0.113.9'' (Some (blockRequest [''198.51.100.7''])) (Map.empty, [''old'']) = (Accepted ''IP blocks applied'', h')
    \<and> blocked \<noteq> [] \<and> (\<forall>e \<in> set blocked. ParseAddr (beIP e) \<noteq> Some (V4 3405803785)) \<and> snd h' = [buildSourceIPBlockNFTScript blocked ports]"
proof -
  obtain h' where a: "ApplyIPBlocks (miniHost (\<lambda>_. False)) exampleBlocker None ''203.0.113.9'' (Some (blockRequest [''198.51.100.7''])) (Map.empty, [''old'']) = (Accepted ''IP blocks applied'', h')"
    by (simp add: block_example_apply [OF example_blocked] Let_def)
  have "ParseAddr (trimSpace ''203.0.113.9'') = Some (V4 3405803785)" by (simp add: trimSpace_graphic graphic_def example_parse)
  from accepted_blocks_installed [OF miniHost_laws a this] obtain blocked where
    b: "normalizeSourceIPBlockEntries (requestEntries (blockRequest [''198.51.100.7''])) (protectedSourceIPs ''203.0.113.9'') = Inr blocked"
      "\<forall>e \<in> set blocked. ParseAddr (beIP e) \<noteq> Some (V4 3405803785)"
      "if blocked = [] then hGOOS (miniHost (\<lambda>_. False)) = ''linux'' \<and> commandExists (miniHost (\<lambda>_. False)) (Map.empty, [''old'']) ''nft'' \<longrightarrow> snd h' = []
       else \<exists>ports. snd h' = [buildSourceIPBlockNFTScript blocked ports] \<and> portsOk ports \<and> \<not> noPorts ports" by blast
  then have "blocked \<noteq> []" using example_blocked by auto
  with a b show ?thesis by auto
qed

definition busyHost :: "miniHost host" where
  "busyHost = (miniHost (\<lambda>_. False))\<lparr>hRun := (\<lambda>env cmd args h. case args of
      [flag, path] \<Rightarrow> (case fst h path of None \<Rightarrow> ((Some ''exit status 1'', []), h) | Some t \<Rightarrow> ((None, []), (fst h, snd h @ [t])))
    | _ \<Rightarrow> ((Some ''exit status 1'', ''Device or resource busy''), h))\<rparr>"

theorem undeleted_table_merged_witness:
  "snd (snd (installScript busyHost exampleBlocker ''new'' (Map.empty, [''old'']))) = [''old'', ''new'']"
proof -
  have laws: "nftLaws busyHost snd fst" by (auto simp: nftLaws_def busyHost_def miniHost_def split: option.splits)
  obtain h' where i: "installScript busyHost exampleBlocker ''new'' (Map.empty, [''old'']) = (None, h')"
    by (simp add: installScript_def busyHost_def miniHost_def thenDo_def ensureSourceIPBlockPrerequisites_def missingExecutables_def commandExists_def skip_def
        deleteTableLocked_def applyScriptLocked_def runChecked_def Let_def)
  have "snd h' = snd (Map.empty :: string \<Rightarrow> string option, [''old'']) @ [''new'']"
    by (rule undeleted_table_merged [OF laws _ _ _ _ i]) (simp_all add: busyHost_def miniHost_def commandExists_def keeping_def skip_def)
  with i show ?thesis by simp
qed

theorem invalid_address_refused_witness:
  "\<exists>code msg. fst (ApplyIPBlocks (miniHost (\<lambda>_. False)) exampleBlocker None [] (Some (blockRequest [''not an address''])) (Map.empty, [])) = Failed code msg"
  using invalid_address_refused [of "miniHost (\<lambda>_. False)" exampleBlocker None "[]" "blockRequest [''not an address'']" "(Map.empty, [])"
      _ _ "\<lparr>ibIP = ''not an address'', ibTTLSeconds = 0, ibUserUID = [], ibReason = []\<rparr>"]
  by (simp add: blockRequest_def trimSpace_graphic graphic_def example_parse)
    (metis fst_conv surj_pair)

theorem zone_copied_into_script_witness:
  "\<exists>blocked. normalizeSourceIPBlockEntries [\<lparr>beIP = ''fe80::1%x } }'', beTTLSeconds = 0, beUserUID = [], beReason = []\<rparr>] [] = Inr blocked
    \<and> sourceIPBlockNFTElements blocked False = [''fe80::1%x } } timeout 1800s'']"
  using zone_copied_into_script [of "''x } }''" "[]" "[]"] by (simp add: graphic_def)

definition exampleDocument :: jobj where
  "exampleDocument = [(''inbounds'', JArr [JObj [(''tag'', JStr ''vless''), (''port'', JNum ''8443'')]])]"

lemma example_document_ports:
  "sourceIPBlockPortsFromConfig (applyAPI (exampleSettings\<lparr>SettingsInbounds := []\<rparr>) ''203.0.113.9'' exampleDocument) = Inr \<lparr>bpTCP = [8443], bpUDP = []\<rparr>"
proof -
  have s1: "skippedInbound [(''listen'', a), (''port'', b), (''protocol'', JStr ''tunnel''), (''settings'', c), (''tag'', JStr ''API_INBOUND'')]" for a b c
    by (simp add: skippedInbound_def sourceIPBlockString_def trimSpace_graphic graphic_def)
  have s2: "\<not> skippedInbound [(''tag'', JStr ''vless''), (''port'', JNum ''8443'')]"
    by (simp add: skippedInbound_def sourceIPBlockString_def trimSpace_graphic graphic_def toLower_def)
  have p: "portText ''8443'' = Some 8443" by (simp add: portText_def parseUint_def digitVal_def)
  show ?thesis
    by (simp add: sourceIPBlockPortsFromConfig_def applyAPI_get decodeInbounds_def apiInbound_def exampleDocument_def keepInbound_def apiTagged_def
        addInboundPorts_def s1 s2 sourceIPBlockSinglePort_def p sourceIPBlockInboundNetworks_def sourceIPBlockNestedString_def sourceIPBlockNetworkIsUDP_def
        trimSpace_graphic graphic_def toLower_def toLowerChar_def normalizeSourceIPBlockPorts_def normalizeSourceIPBlockPortList_def)
qed

theorem config_ports_skip_api_witness:
  "\<exists>ports. sourceIPBlockPortsFromConfig (applyAPI (exampleSettings\<lparr>SettingsInbounds := []\<rparr>) ''203.0.113.9'' exampleDocument) = Inr ports \<and> portsOk ports"
  using config_ports_skip_api [OF example_document_ports] example_document_ports by blast

end
