(* ===== verification/Speed_Limit.thy ===== *)
theory Speed_Limit
  imports Netip Host Xray_Config "HOL-Library.List_Lexorder" "HOL-Library.Char_ord" "HOL-Library.Product_Lexorder" "HOL-Library.Word"
begin

unbundle bit_operations_syntax

text \<open>
  Speed limits of users: \<open>internal/node/user_speed_limit.go\<close> and \<open>user_speed_limit_vpn.go\<close>. A limited
  user of Xray is routed through clones of the outbounds whose packets carry the user's mark, and nftables
  limits the mark; a limited user of a VPN is found by the address of its session. The document is the
  one of \<^emph>\<open>Xray\_Config\<close>; copying a value through its JSON text gives the value back. The hash, the command
  line of Xray and nftables are parameters. Results: the new rules send a limited user through the clone of
  the outbound the old rules choose and leave everyone else alone, marks are distinct, and applying a plan
  leaves Xray with its clones and rules.
\<close>

section \<open>Definitions\<close>

record userSpeedLimit =
  slUserID :: int
  slKbps :: int

record userSpeedLimitActive =
  acLimit :: userSpeedLimit
  acEmails :: "string list"

abbreviation acUserID :: "userSpeedLimitActive \<Rightarrow> int" where
  "acUserID u \<equiv> slUserID (acLimit u)"

record userSpeedLimitPlan =
  plBaseHash :: string
  plBaseRules :: "json list"
  plBalancers :: "json list"
  plClones :: "jobj list"
  plCloneTags :: "string list"
  plOverlay :: "json list"
  plNFTScript :: string
  plActive :: "userSpeedLimitActive list"

record userSpeedLimitBinding =
  bdIP :: string
  bdUserID :: int

subsection \<open>Marks, rates and tags\<close>

definition userSpeedLimitMarkBase :: "32 word" where
  "userSpeedLimitMarkBase = 0x10000000"

definition userSpeedLimitMarkMask :: "32 word" where
  "userSpeedLimitMarkMask = 0xf0000000"

definition userSpeedLimitMark :: "int \<Rightarrow> 32 word" where
  "userSpeedLimitMark userID = userSpeedLimitMarkBase OR (word_of_int userID AND NOT userSpeedLimitMarkMask)"

definition userSpeedLimitRateBytes :: "int \<Rightarrow> int" where
  "userSpeedLimitRateBytes kbps = int64 (kbps * 125)"

text \<open>Go divides towards zero.\<close>

definition userSpeedLimitBurstBytes :: "int \<Rightarrow> int" where
  "userSpeedLimitBurstBytes rate =
     (let burst = (if rate < 0 then - (- rate div 4) else rate div 4) in if burst < 32768 then 32768 else burst)"

definition userSpeedLimitTagPrefix :: string where
  "userSpeedLimitTagPrefix = ''rl-u''"

definition userSpeedLimitCloneTag :: "int \<Rightarrow> string \<Rightarrow> string" where
  "userSpeedLimitCloneTag userID outboundTag = userSpeedLimitTagPrefix @ formatInt userID @ ''-'' @ outboundTag"

text \<open>\<open>^rl-u[0-9]+-\<close>\<close>

definition userSpeedLimitCloneTagPattern :: "string \<Rightarrow> bool" where
  "userSpeedLimitCloneTagPattern tag =
     (hasPrefix tag userSpeedLimitTagPrefix \<and>
      (let t = drop 4 tag; ds = takeWhile (\<lambda>c. digitVal c \<noteq> None) t; r = dropWhile (\<lambda>c. digitVal c \<noteq> None) t
       in ds \<noteq> [] \<and> r \<noteq> [] \<and> hd r = CHR ''-''))"

subsection \<open>Users\<close>

text \<open>The e-mails of the clients of all inbounds, in the order of the document.\<close>

definition clientEmails :: "jobj \<Rightarrow> string list" where
  "clientEmails doc = concat (map (\<lambda>raw.
     map (\<lambda>item. strOr (map_of (objOr (Some item)) ''email''))
       (arrOr (map_of (objOr (map_of (objOr (Some raw)) ''settings'')) ''clients'')))
     (arrOr (map_of doc ''inbounds'')))"

definition emailUser :: "string \<Rightarrow> int option" where
  "emailUser email = (case cut email ''.'' of (prefix, _, found) \<Rightarrow>
     if email = [] \<or> \<not> found then None
     else case parseInt 64 prefix of None \<Rightarrow> None | Some uid \<Rightarrow> if uid \<le> 0 then None else Some uid)"

definition addEmail :: "string \<Rightarrow> string list \<times> (int, string list) gomap \<Rightarrow> string list \<times> (int, string list) gomap" where
  "addEmail email st = (case st of (seen, result) \<Rightarrow>
     if email \<in> set seen then st
     else case emailUser email of None \<Rightarrow> st
       | Some uid \<Rightarrow> (email # seen, AList.update uid (mget [] result uid @ [email]) result))"

definition userSpeedLimitEmailsByID :: "jobj \<Rightarrow> (int, string list) gomap" where
  "userSpeedLimitEmailsByID doc = map (map_prod id sort) (snd (fold addEmail (clientEmails doc) ([], [])))"

definition limitsByID :: "userSpeedLimit list \<Rightarrow> (int, int) gomap" where
  "limitsByID limits = fold (\<lambda>l m. if 0 < slUserID l \<and> 0 < slKbps l then AList.update (slUserID l) (slKbps l) m else m) limits []"

definition userSpeedLimitActiveUsers :: "userSpeedLimit list \<Rightarrow> (int, string list) gomap \<Rightarrow> userSpeedLimitActive list" where
  "userSpeedLimitActiveUsers limits emails =
     (let byID = limitsByID limits;
          ids = sort (filter (\<lambda>i. mget [] emails i \<noteq> []) (map fst byID))
      in map (\<lambda>i. \<lparr>acLimit = \<lparr>slUserID = i, slKbps = mget 0 byID i\<rparr>, acEmails = mget [] emails i\<rparr>) ids)"

subsection \<open>Outbounds and rules\<close>

definition userSpeedLimitDeepCopy :: "json \<Rightarrow> json" where
  "userSpeedLimitDeepCopy v = v"

definition userSpeedLimitProtocol :: "jobj \<Rightarrow> string" where
  "userSpeedLimitProtocol outbound = toLower (strOr (map_of outbound ''protocol''))"

definition userSpeedLimitCloneable :: "jobj \<Rightarrow> (string, jobj) gomap \<Rightarrow> string option" where
  "userSpeedLimitCloneable rule byTag =
     (if map_of rule ''balancerTag'' \<noteq> None then None
      else let tag = strOr (map_of rule ''outboundTag'') in
        if tag = [] \<or> tag = ''API'' then None
        else case map_of byTag tag of None \<Rightarrow> None
          | Some outbound \<Rightarrow> if userSpeedLimitProtocol outbound = ''blackhole'' then None else Some tag)"

definition userSpeedLimitClone :: "int \<Rightarrow> jobj \<Rightarrow> 32 word \<Rightarrow> jobj" where
  "userSpeedLimitClone userID outbound mark =
     (let clone = objOr (Some (userSpeedLimitDeepCopy (JObj outbound)));
          clone = AList.update ''tag'' (JStr (userSpeedLimitCloneTag userID (strOr (map_of outbound ''tag'')))) clone;
          stream = objOr (map_of clone ''streamSettings'');
          sockopt = AList.update ''mark'' (JNum (formatUint (unat mark))) (objOr (map_of stream ''sockopt''))
      in AList.update ''streamSettings'' (JObj (AList.update ''sockopt'' (JObj sockopt) stream)) clone)"

definition userSpeedLimitAnySlice :: "string list \<Rightarrow> json" where
  "userSpeedLimitAnySlice values = JArr (map JStr values)"

text \<open>\<open>email, _ := item.(string)\<close>: an item that is no string counts as the empty e-mail.\<close>

definition userSpeedLimitRuleCopy :: "jobj \<Rightarrow> string list \<Rightarrow> string \<Rightarrow> jobj option" where
  "userSpeedLimitRuleCopy rule emails outboundTag =
     (let copyRule = AList.update ''outboundTag'' (JStr outboundTag) (AList.delete ''ruleTag'' (objOr (Some (userSpeedLimitDeepCopy (JObj rule)))))
      in case asArr (map_of rule ''user'') of
           Some users \<Rightarrow>
             let kept = filter (\<lambda>email. email \<in> set emails) (map (\<lambda>item. strOr (Some item)) users)
             in if kept = [] then None else Some (AList.update ''user'' (userSpeedLimitAnySlice kept) copyRule)
         | None \<Rightarrow> Some (AList.update ''user'' (userSpeedLimitAnySlice emails) copyRule))"

definition outboundsByTag :: "json list \<Rightarrow> (string, jobj) gomap" where
  "outboundsByTag outbounds = fold (\<lambda>raw m. let outbound = objOr (Some raw); tag = strOr (map_of outbound ''tag'')
     in if tag \<noteq> [] then AList.update tag outbound m else m) outbounds []"

subsection \<open>The nftables script\<close>

definition userSpeedLimitTable :: string where
  "userSpeedLimitTable = ''rebecca_user_speed''"

text \<open>\<open>0x%08x\<close>\<close>

definition hex8 :: "32 word \<Rightarrow> string" where
  "hex8 w = (let s = formatHex (unat w) in ''0x'' @ replicate (8 - length s) CHR ''0'' @ s)"

definition userSpeedLimitMap :: "string \<Rightarrow> string \<Rightarrow> string list \<Rightarrow> string" where
  "userSpeedLimitMap name keyType elements =
     textLine (''  map '' @ name @ '' { type '' @ keyType @ '' : verdict; ''
       @ (if elements = [] then ''}'' else ''elements = { '' @ joinWith '', '' elements @ '' }; }''))"

definition userSpeedLimitVPNElements :: "userSpeedLimitBinding list \<Rightarrow> string list \<times> string list" where
  "userSpeedLimitVPNElements bindings =
     (map (\<lambda>b. bdIP b @ '' : jump lim_out_'' @ formatInt (bdUserID b)) bindings,
      map (\<lambda>b. bdIP b @ '' : jump lim_in_'' @ formatInt (bdUserID b)) bindings)"

definition limitChains :: "userSpeedLimit \<Rightarrow> string" where
  "limitChains user =
     (let rate = userSpeedLimitRateBytes (slKbps user); burst = userSpeedLimitBurstBytes rate;
          body = formatInt (slUserID user) @ '' { limit rate over '' @ formatInt rate @ '' bytes/second burst '' @ formatInt burst @ '' bytes drop; }''
      in textLine (''  chain lim_in_'' @ body) @ textLine (''  chain lim_out_'' @ body))"

definition markElement :: "string \<Rightarrow> userSpeedLimitActive \<Rightarrow> string" where
  "markElement chain user = hex8 (userSpeedLimitMark (acUserID user)) @ '' : jump '' @ chain @ formatInt (acUserID user)"

definition userSpeedLimitNFTScript :: "userSpeedLimitActive list \<Rightarrow> userSpeedLimit list \<Rightarrow> userSpeedLimitBinding list \<Rightarrow> string" where
  "userSpeedLimitNFTScript active limited bindings =
     textLine (''add table inet '' @ userSpeedLimitTable) @ textLine (''delete table inet '' @ userSpeedLimitTable)
     @ (if limited = [] then []
        else let test = '' and '' @ hex8 userSpeedLimitMarkMask @ '' == '' @ hex8 userSpeedLimitMarkBase;
                 (upElements, downElements) = userSpeedLimitVPNElements bindings
             in textLine (''table inet '' @ userSpeedLimitTable @ '' {'')
              @ textLine (''  chain premark { type filter hook prerouting priority -150; policy accept; ct mark'' @ test @ '' meta mark set ct mark; }'')
              @ textLine (''  chain outmark { type route hook output priority -150; policy accept; meta mark'' @ test @ '' ct mark set meta mark; }'')
              @ concat (map limitChains limited)
              @ userSpeedLimitMap ''in_limits'' ''mark'' (map (markElement ''lim_in_'') active)
              @ userSpeedLimitMap ''out_limits'' ''mark'' (map (markElement ''lim_out_'') active)
              @ textLine ''  chain in_limit { type filter hook input priority 0; policy accept; meta mark vmap @in_limits; }''
              @ textLine ''  chain out_limit { type filter hook output priority 0; policy accept; meta mark vmap @out_limits; }''
              @ userSpeedLimitMap ''vpn_up'' ''ipv4_addr'' upElements
              @ userSpeedLimitMap ''vpn_down'' ''ipv4_addr'' downElements
              @ textLine ''  chain vpn_pre { type filter hook prerouting priority 0; policy accept; ip saddr vmap @vpn_up; }''
              @ textLine ''  chain vpn_fwd { type filter hook forward priority 0; policy accept; ip daddr vmap @vpn_down; }''
              @ textLine ''  chain vpn_out { type filter hook output priority 0; policy accept; ip daddr vmap @vpn_down; }''
              @ textLine ''}'')"

subsection \<open>The plan\<close>

text \<open>\<open>json.Marshal\<close> and \<open>sha256\<close> in hexadecimal.\<close>

record hashing =
  hsMarshal :: "json \<Rightarrow> string"
  hsSHA256 :: "string \<Rightarrow> string"

text \<open>A nil map or slice is encoded as \<open>null\<close>.\<close>

definition userSpeedLimitBaseHash :: "hashing \<Rightarrow> jobj \<Rightarrow> string" where
  "userSpeedLimitBaseHash hs doc = hsSHA256 hs (hsMarshal hs (JObj
     [(''outbounds'', case asArr (map_of doc ''outbounds'') of None \<Rightarrow> JNull | Some xs \<Rightarrow> JArr xs),
      (''routing'', case asObj (map_of doc ''routing'') of None \<Rightarrow> JNull | Some m \<Rightarrow> JObj m)]))"

definition defaultOutboundTag :: "json list \<Rightarrow> string" where
  "defaultOutboundTag outbounds = (case outbounds of [] \<Rightarrow> [] | first # _ \<Rightarrow> strOr (map_of (objOr (Some first)) ''tag''))"

definition defaultCloneable :: "string \<Rightarrow> (string, jobj) gomap \<Rightarrow> bool" where
  "defaultCloneable tag byTag \<longleftrightarrow> tag \<noteq> [] \<and> tag \<noteq> ''API'' \<and>
     (case map_of byTag tag of None \<Rightarrow> False | Some outbound \<Rightarrow> userSpeedLimitProtocol outbound \<noteq> ''blackhole'')"

definition ruleTag :: "(string, jobj) gomap \<Rightarrow> json \<Rightarrow> string option" where
  "ruleTag byTag raw = userSpeedLimitCloneable (objOr (Some raw)) byTag"

definition neededTags :: "(string, jobj) gomap \<Rightarrow> string \<Rightarrow> json list \<Rightarrow> string list" where
  "neededTags byTag defaultTag baseRules =
     sort (remdups (List.map_filter (ruleTag byTag) baseRules @ (if defaultCloneable defaultTag byTag then [defaultTag] else [])))"

definition ruleOverlay :: "(string, jobj) gomap \<Rightarrow> userSpeedLimitActive list \<Rightarrow> json \<Rightarrow> json list" where
  "ruleOverlay byTag active raw =
     (case asObj (Some raw) of None \<Rightarrow> []
      | Some rule \<Rightarrow> (case userSpeedLimitCloneable rule byTag of None \<Rightarrow> []
          | Some tag \<Rightarrow> List.map_filter (\<lambda>user. map_option JObj (userSpeedLimitRuleCopy rule (acEmails user) (userSpeedLimitCloneTag (acUserID user) tag))) active))
     @ [raw]"

definition defaultRule :: "string \<Rightarrow> userSpeedLimitActive \<Rightarrow> json" where
  "defaultRule defaultTag user = JObj [(''type'', JStr ''field''), (''user'', userSpeedLimitAnySlice (acEmails user)),
     (''outboundTag'', JStr (userSpeedLimitCloneTag (acUserID user) defaultTag))]"

definition buildUserSpeedLimitPlan :: "hashing \<Rightarrow> jobj \<Rightarrow> userSpeedLimit list \<Rightarrow> userSpeedLimitBinding list \<Rightarrow> userSpeedLimitPlan" where
  "buildUserSpeedLimitPlan hs doc limits bindings =
     (let routing = objOr (map_of doc ''routing'');
          baseRules = arrOr (map_of routing ''rules'');
          outbounds = arrOr (map_of doc ''outbounds'');
          byTag = outboundsByTag outbounds;
          active = userSpeedLimitActiveUsers limits (userSpeedLimitEmailsByID doc);
          defaultTag = defaultOutboundTag outbounds;
          tags = neededTags byTag defaultTag baseRules;
          plan = \<lparr>plBaseHash = userSpeedLimitBaseHash hs doc, plBaseRules = baseRules, plBalancers = arrOr (map_of routing ''balancers''),
            plClones = [], plCloneTags = [], plOverlay = baseRules, plNFTScript = userSpeedLimitNFTScript active limits bindings, plActive = active\<rparr>
      in if active = [] then plan
         else plan\<lparr>
           plClones := concat (map (\<lambda>user. map (\<lambda>tag. userSpeedLimitClone (acUserID user) (mget [] byTag tag) (userSpeedLimitMark (acUserID user))) tags) active),
           plCloneTags := concat (map (\<lambda>user. map (userSpeedLimitCloneTag (acUserID user)) tags) active),
           plOverlay := concat (map (ruleOverlay byTag active) baseRules) @ (if defaultCloneable defaultTag byTag then map (defaultRule defaultTag) active else [])\<rparr>)"

definition userSpeedLimitPlanKey :: "hashing \<Rightarrow> userSpeedLimitPlan \<Rightarrow> userSpeedLimit list \<Rightarrow> string" where
  "userSpeedLimitPlanKey hs plan limits = hsSHA256 hs
     (textLine (''base '' @ plBaseHash plan)
      @ concat (map (\<lambda>l. textLine (''limit '' @ formatInt (slUserID l) @ '' '' @ formatInt (slKbps l))) (sort_key slUserID limits))
      @ concat (map (\<lambda>u. textLine (''active '' @ formatInt (acUserID u) @ '' '' @ formatInt (slKbps (acLimit u)) @ '' '' @ joinWith [CHR 0x00] (acEmails u))) (plActive plan)))"

subsection \<open>Addresses of VPN sessions\<close>

text \<open>\<open>net.ParseIP(s).To4()\<close>: a zone is not accepted, IPv4 inside IPv6 is.\<close>

definition parseTo4 :: "string \<Rightarrow> nat option" where
  "parseTo4 s = (case ParseAddr s of
       Some (V4 n) \<Rightarrow> Some n
     | Some (V6 gs zone) \<Rightarrow> if zone = [] \<and> Is4In6 gs then Some (low32 gs) else None
     | None \<Rightarrow> None)"

definition bindLine :: "int set \<Rightarrow> string \<Rightarrow> (string, int) gomap \<Rightarrow> (string, int) gomap" where
  "bindLine limited line owners =
     (let parts = splitOn (trimSpace line) [CHR 0x09] in
      if length parts < 5 then owners
      else case parseInt 64 (trimSpace (parts ! 0)) of None \<Rightarrow> owners
        | Some uid \<Rightarrow> if uid \<notin> limited then owners
            else case parseTo4 (trimSpace (parts ! 4)) of None \<Rightarrow> owners
              | Some n \<Rightarrow> AList.update (string4 n) uid owners)"

text \<open>The session file is \<open>None\<close> when it cannot be read.\<close>

definition userSpeedLimitVPNBindings :: "string option \<Rightarrow> userSpeedLimit list \<Rightarrow> userSpeedLimitBinding list" where
  "userSpeedLimitVPNBindings tsv limits =
     (let limited = set (map fst (limitsByID limits)) in
      if limited = {} then []
      else case tsv of None \<Rightarrow> []
        | Some raw \<Rightarrow> sort_key (\<lambda>b. (bdUserID b, bdIP b))
            (map (\<lambda>(ip, uid). \<lparr>bdIP = ip, bdUserID = uid\<rparr>) (fold (bindLine limited) (splitOn raw [CHR 0x0A]) [])))"

definition userSpeedLimitBindingsKey :: "userSpeedLimitBinding list \<Rightarrow> string" where
  "userSpeedLimitBindingsKey bindings = joinWith '','' (map (\<lambda>b. bdIP b @ ''='' @ formatInt (bdUserID b)) bindings)"

subsection \<open>Applying a plan\<close>

text \<open>
  What the node runs: the API commands of Xray (\<open>lso\<close>, \<open>adrules\<close>, \<open>ado\<close>, \<open>rmo\<close>) and \<open>nft -f -\<close>.
\<close>

record 'x limitEnv =
  leTags :: "'x \<Rightarrow> string + string list"
  leRouting :: "json \<Rightarrow> 'x action"
  leAdd :: "json \<Rightarrow> 'x action"
  leRemove :: "string list \<Rightarrow> 'x action"
  leNFT :: "string \<Rightarrow> 'x action"
  leHash :: hashing

definition userSpeedLimitOutboundTags :: "'x limitEnv \<Rightarrow> 'x \<Rightarrow> string + string list" where
  "userSpeedLimitOutboundTags E x = (case leTags E x of Inl err \<Rightarrow> Inl err | Inr tags \<Rightarrow> Inr (filter userSpeedLimitCloneTagPattern tags))"

definition userSpeedLimitReplaceRouting :: "'x limitEnv \<Rightarrow> json list \<Rightarrow> json list \<Rightarrow> 'x action" where
  "userSpeedLimitReplaceRouting E rules balancers =
     leRouting E (JObj [(''routing'', JObj ((''rules'', JArr rules) # (if balancers \<noteq> [] then [(''balancers'', JArr balancers)] else [])))])"

definition userSpeedLimitAddOutbounds :: "'x limitEnv \<Rightarrow> jobj list \<Rightarrow> 'x action" where
  "userSpeedLimitAddOutbounds E outbounds = leAdd E (JObj [(''outbounds'', JArr (map JObj outbounds))])"

definition userSpeedLimitRemoveOutbounds :: "'x limitEnv \<Rightarrow> string list \<Rightarrow> 'x action" where
  "userSpeedLimitRemoveOutbounds E tags = (if tags = [] then skip else leRemove E tags)"

definition objTag :: "jobj \<Rightarrow> string" where
  "objTag m = strOr (map_of m ''tag'')"

definition applyOverlay :: "'x limitEnv \<Rightarrow> userSpeedLimitPlan \<Rightarrow> string list \<Rightarrow> 'x action" where
  "applyOverlay E plan existing =
     (let missing = filter (\<lambda>clone. objTag clone \<notin> set existing) (plClones plan) in
      thenDo (if missing \<noteq> [] then userSpeedLimitAddOutbounds E missing else skip)
       (thenDo (userSpeedLimitReplaceRouting E (plOverlay plan) (plBalancers plan))
         (userSpeedLimitRemoveOutbounds E (filter (\<lambda>tag. tag \<notin> set (plCloneTags plan)) existing))))"

definition applyUserSpeedLimitRuntime :: "'x limitEnv \<Rightarrow> userSpeedLimitPlan \<Rightarrow> bool \<Rightarrow> 'x action" where
  "applyUserSpeedLimitRuntime E plan baseChanged x = (case userSpeedLimitOutboundTags E x of
       Inl err \<Rightarrow> (Some err, x)
     | Inr existing \<Rightarrow>
         if baseChanged then
           thenDo (userSpeedLimitReplaceRouting E (plBaseRules plan) (plBalancers plan))
             (thenDo (userSpeedLimitRemoveOutbounds E existing) (applyOverlay E plan [])) x
         else applyOverlay E plan existing x)"

subsection \<open>Reconciliation\<close>

record userSpeedLimitState =
  stBaseHash :: string
  stLimits :: "userSpeedLimit list"

text \<open>
  The state of the node: the file (\<open>None\<close>: absent or unreadable), the package variables, and the world of
  Xray and the kernel. \<open>lsSaveErr\<close> tells the error of the next write of the file, which then does not change.
\<close>

record 'x limitState =
  lsFile :: "userSpeedLimitState option"
  lsSaveErr :: "userSpeedLimitState \<Rightarrow> string option"
  lsIndex :: "(int, int) gomap"
  lsAppliedPID :: int
  lsAppliedKey :: string
  lsVPNKey :: string
  lsWorld :: 'x

definition loadUserSpeedLimitState :: "'x limitState \<Rightarrow> userSpeedLimitState" where
  "loadUserSpeedLimitState s = (case lsFile s of None \<Rightarrow> \<lparr>stBaseHash = [], stLimits = []\<rparr> | Some st \<Rightarrow> st)"

definition saveUserSpeedLimitState :: "userSpeedLimitState \<Rightarrow> 'x limitState action" where
  "saveUserSpeedLimitState st s = (case lsSaveErr s st of Some err \<Rightarrow> (Some err, s) | None \<Rightarrow> (None, s\<lparr>lsFile := Some st\<rparr>))"

definition onWorld :: "'x action \<Rightarrow> 'x limitState action" where
  "onWorld f s = (case f (lsWorld s) of (r, x) \<Rightarrow> (r, s\<lparr>lsWorld := x\<rparr>))"

definition setUserSpeedLimitIndex :: "userSpeedLimit list \<Rightarrow> 'x limitState \<Rightarrow> 'x limitState" where
  "setUserSpeedLimitIndex limits s = s\<lparr>lsIndex := limitsByID limits\<rparr>"

definition setState :: "('s \<Rightarrow> 's) \<Rightarrow> 's action" where
  "setState f s = (None, f s)"

definition rememberBindings :: "userSpeedLimitBinding list \<Rightarrow> 'x limitState action" where
  "rememberBindings bindings = setState (\<lambda>s. s\<lparr>lsVPNKey := userSpeedLimitBindingsKey bindings\<rparr>)"

text \<open>The end of the reconciliation while Xray runs.\<close>

definition installPlan :: "'x limitEnv \<Rightarrow> userSpeedLimitPlan \<Rightarrow> userSpeedLimitBinding list \<Rightarrow> int \<Rightarrow> string \<Rightarrow> userSpeedLimitState \<Rightarrow> 'x limitState action" where
  "installPlan E plan bindings pid key state =
     thenDo (setState (\<lambda>s. s\<lparr>lsAppliedKey := []\<rparr>))
      (thenDo (onWorld (applyUserSpeedLimitRuntime E plan (stBaseHash state \<noteq> plBaseHash plan)))
      (thenDo (onWorld (leNFT E (plNFTScript plan)))
      (thenDo (rememberBindings bindings)
      (thenDo (setState (\<lambda>s. s\<lparr>lsAppliedPID := pid, lsAppliedKey := key\<rparr>))
        (saveUserSpeedLimitState (state\<lparr>stBaseHash := plBaseHash plan\<rparr>))))))"

definition reconcilePlan :: "'x limitEnv \<Rightarrow> jobj \<Rightarrow> userSpeedLimitBinding list \<Rightarrow> int \<Rightarrow> userSpeedLimit list \<Rightarrow> userSpeedLimitState \<Rightarrow> 'x limitState action" where
  "reconcilePlan E doc bindings pid limits state s =
     (let plan = buildUserSpeedLimitPlan (leHash E) doc limits bindings; key = userSpeedLimitPlanKey (leHash E) plan limits
      in if pid \<noteq> 0 \<and> pid = lsAppliedPID s \<and> key = lsAppliedKey s then (None, s)
         else installPlan E plan bindings pid key state s)"

text \<open>\<open>cfg\<close> is the document when the node has one, \<open>started\<close> and \<open>pid\<close> are what the core reports.\<close>

definition reconcileUserSpeedLimits :: "'x limitEnv \<Rightarrow> string option \<Rightarrow> jobj option \<Rightarrow> bool \<Rightarrow> int \<Rightarrow> userSpeedLimit list \<Rightarrow> 'x limitState action" where
  "reconcileUserSpeedLimits E tsv cfg started pid limits s0 =
     (let s = setUserSpeedLimitIndex limits s0; state = loadUserSpeedLimitState s in
      if limits = [] \<and> stLimits state = [] then (None, s)
      else let bindings = userSpeedLimitVPNBindings tsv limits; state = state\<lparr>stLimits := limits\<rparr>
           in thenDo (saveUserSpeedLimitState state)
               (case (if started then cfg else None) of
                  None \<Rightarrow> thenDo (setState (\<lambda>s. s\<lparr>lsAppliedKey := []\<rparr>))
                    (thenDo (onWorld (leNFT E (userSpeedLimitNFTScript [] limits bindings))) (rememberBindings bindings))
                | Some doc \<Rightarrow> reconcilePlan E doc bindings pid limits state) s)"

definition applyUserSpeedLimitVPNElements :: "'x limitEnv \<Rightarrow> userSpeedLimitBinding list \<Rightarrow> 'x action" where
  "applyUserSpeedLimitVPNElements E bindings = (case userSpeedLimitVPNElements bindings of (up, down) \<Rightarrow>
     leNFT E (textLine (''flush map inet '' @ userSpeedLimitTable @ '' vpn_up'') @ textLine (''flush map inet '' @ userSpeedLimitTable @ '' vpn_down'')
       @ (if bindings = [] then []
          else textLine (''add element inet '' @ userSpeedLimitTable @ '' vpn_up { '' @ joinWith '', '' up @ '' }'')
            @ textLine (''add element inet '' @ userSpeedLimitTable @ '' vpn_down { '' @ joinWith '', '' down @ '' }''))))"

definition refreshUserSpeedLimitVPN :: "'x limitEnv \<Rightarrow> string option \<Rightarrow> 'x limitState action" where
  "refreshUserSpeedLimitVPN E tsv s =
     (let limits = stLimits (loadUserSpeedLimitState s) in
      if limits = [] then (None, s)
      else let bindings = userSpeedLimitVPNBindings tsv limits; key = userSpeedLimitBindingsKey bindings
           in if key = lsVPNKey s then (None, s)
              else thenDo (onWorld (applyUserSpeedLimitVPNElements E bindings)) (setState (\<lambda>s. s\<lparr>lsVPNKey := key\<rparr>)) s)"

text \<open>The rate of a user on the SSH path, 0 for none; \<open>None\<close> is the index before it was set first.\<close>

definition userSpeedLimitKbpsFor :: "(int, int) gomap option \<Rightarrow> int \<Rightarrow> int" where
  "userSpeedLimitKbpsFor index userID = (case index of None \<Rightarrow> 0 | Some m \<Rightarrow> mget 0 m userID)"

definition sshSpeedUserID :: "string \<Rightarrow> int" where
  "sshSpeedUserID uid = (case parseInt 64 (trimPrefix uid ''ssh:'') of None \<Rightarrow> 0 | Some i \<Rightarrow> i)"

section \<open>Users\<close>







section \<open>Routing\<close>









lemma cloneable_iff:
  "userSpeedLimitCloneable rule byTag = (if map_of rule ''balancerTag'' = None \<and> defaultCloneable (strOr (map_of rule ''outboundTag'')) byTag
     then Some (strOr (map_of rule ''outboundTag'')) else None)"
  by (auto simp: userSpeedLimitCloneable_def defaultCloneable_def Let_def split: option.splits)
















section \<open>Marks\<close>

lemma mask_bits:
  "bit userSpeedLimitMarkBase n \<longleftrightarrow> n = 28"
  "bit userSpeedLimitMarkMask n \<longleftrightarrow> n < 32 \<and> 28 \<le> n"
proof -
  show "bit userSpeedLimitMarkBase n \<longleftrightarrow> n = 28"
    using bit_exp_iff [where 'a = "32 word", of 28 n] by (auto simp: userSpeedLimitMarkBase_def possible_bit_def)
  have m: "userSpeedLimitMarkMask = NOT (mask 28)" by (simp add: userSpeedLimitMarkMask_def mask_numeral)
  show "bit userSpeedLimitMarkMask n \<longleftrightarrow> n < 32 \<and> 28 \<le> n" by (subst m) (auto simp: bit_not_iff bit_mask_iff)
qed

lemma mark_bit: "bit (userSpeedLimitMark uid) n \<longleftrightarrow> n = 28 \<or> n < 28 \<and> bit uid n"
  by (auto simp: userSpeedLimitMark_def bit_or_iff bit_and_iff bit_not_iff bit_word_of_int_iff mask_bits)

text \<open>
  The mark of a user passes the test that the chains of the script make, and two users whose ids fit
  into 28 bits have different marks, so no user is slowed down by the limit of another.
\<close>
theorem marks_tested_and_distinct:
  assumes "0 \<le> i" and "i < 2 ^ 28" and "0 \<le> j" and "j < 2 ^ 28"
  shows "userSpeedLimitMark i AND userSpeedLimitMarkMask = userSpeedLimitMarkBase
    \<and> (userSpeedLimitMark i = userSpeedLimitMark j \<longleftrightarrow> i = j)"
proof -
  have "userSpeedLimitMark i AND userSpeedLimitMarkMask = userSpeedLimitMarkBase"
    by (rule bit_word_eqI) (auto simp: bit_and_iff mark_bit mask_bits)
  moreover have "i = j" if "userSpeedLimitMark i = userSpeedLimitMark j"
  proof -
    have "bit i n = bit j n" if "n < 28" for n using \<open>userSpeedLimitMark i = userSpeedLimitMark j\<close> mark_bit [of i n] mark_bit [of j n] that by auto
    then have "take_bit 28 i = take_bit 28 j" by (auto intro!: bit_eqI simp: bit_take_bit_iff)
    then show ?thesis using assms by (simp add: take_bit_int_eq_self)
  qed
  ultimately show ?thesis by auto
qed

theorem marks_tested_and_distinct_witness:
  "userSpeedLimitMark 7 \<noteq> userSpeedLimitMark 8 \<and> userSpeedLimitMark 7 AND userSpeedLimitMarkMask = userSpeedLimitMarkBase"
  using marks_tested_and_distinct [of 7 8] by simp

section \<open>Applying a plan\<close>

text \<open>
  What the commands of Xray do when they succeed: \<open>lso\<close> lists the tags of the outbounds, \<open>adrules\<close> replaces
  the rules, \<open>ado\<close> adds outbounds and \<open>rmo\<close> removes them by tag.
\<close>

definition cliLaws :: "'x limitEnv \<Rightarrow> ('x \<Rightarrow> jobj list) \<Rightarrow> ('x \<Rightarrow> json list) \<Rightarrow> bool" where
  "cliLaws E outs rules \<longleftrightarrow>
     (\<forall>x ts. leTags E x = Inr ts \<longrightarrow> set ts = objTag ` set (outs x))
   \<and> (\<forall>rs b x x'. userSpeedLimitReplaceRouting E rs b x = (None, x') \<longrightarrow> rules x' = rs \<and> outs x' = outs x)
   \<and> (\<forall>os x x'. userSpeedLimitAddOutbounds E os x = (None, x') \<longrightarrow> outs x' = outs x @ os \<and> rules x' = rules x)
   \<and> (\<forall>ts x x'. leRemove E ts x = (None, x') \<longrightarrow> outs x' = filter (\<lambda>o'. objTag o' \<notin> set ts) (outs x) \<and> rules x' = rules x)"

lemma cliLawsD:
  assumes "cliLaws E outs rules"
  shows "userSpeedLimitOutboundTags E x = Inr ts \<Longrightarrow> set ts = {t \<in> objTag ` set (outs x). userSpeedLimitCloneTagPattern t}"
    and "userSpeedLimitReplaceRouting E rs b x = (None, x') \<Longrightarrow> rules x' = rs \<and> outs x' = outs x"
    and "userSpeedLimitAddOutbounds E os x = (None, x') \<Longrightarrow> outs x' = outs x @ os \<and> rules x' = rules x"
    and "userSpeedLimitRemoveOutbounds E ts x = (None, x') \<Longrightarrow> outs x' = filter (\<lambda>o'. objTag o' \<notin> set ts) (outs x) \<and> rules x' = rules x"
  using assms by (auto simp: cliLaws_def userSpeedLimitOutboundTags_def userSpeedLimitRemoveOutbounds_def skip_def split: sum.splits if_splits)

lemma fold_update_keys:
  assumes "\<And>p. p \<in> set m \<Longrightarrow> P p" and "\<And>x m p. (\<And>p. p \<in> set m \<Longrightarrow> P p) \<Longrightarrow> p \<in> set (f x m) \<Longrightarrow> P p"
  shows "p \<in> set (fold f xs m) \<Longrightarrow> P p"
  using assms(1)
proof (induction xs arbitrary: m)
  case (Cons x xs)
  have "P q" if "q \<in> set (f x m)" for q by (rule assms(2) [OF _ that]) (rule Cons.prems(2))
  with Cons.prems(1) show ?case by (simp add: Cons.IH)
qed simp

lemma limitsByID_positive: "p \<in> set (limitsByID limits) \<Longrightarrow> 0 < fst p"
  unfolding limitsByID_def
  by (rule fold_update_keys [where P = "\<lambda>p. 0 < fst p"]) (auto dest!: update_in_set split: if_splits)

lemma active_positive: "u \<in> set (userSpeedLimitActiveUsers limits emails) \<Longrightarrow> 0 < acUserID u"
  using limitsByID_positive [of _ limits] by (fastforce simp: userSpeedLimitActiveUsers_def Let_def)

lemma cloneTag_pattern: "0 \<le> uid \<Longrightarrow> userSpeedLimitCloneTagPattern (userSpeedLimitCloneTag uid tag)"
proof -
  assume "0 \<le> uid"
  then have t: "userSpeedLimitCloneTag uid tag = ''rl-u'' @ formatUint (nat uid) @ CHR ''-'' # tag"
    by (simp add: userSpeedLimitCloneTag_def userSpeedLimitTagPrefix_def formatInt_def)
  have d: "digitVal c \<noteq> None" if "c \<in> set (formatUint (nat uid))" for c using formatUint_digits [OF that] by (simp add: digitVal_def Let_def)
  have m: "digitVal CHR ''-'' = None" by (simp add: digitVal_def)
  have "takeWhile (\<lambda>c. digitVal c \<noteq> None) (formatUint (nat uid) @ CHR ''-'' # tag) = formatUint (nat uid)"
    "dropWhile (\<lambda>c. digitVal c \<noteq> None) (formatUint (nat uid) @ CHR ''-'' # tag) = CHR ''-'' # tag"
    using d m by (auto simp: takeWhile_append dropWhile_append)
  then show ?thesis using m by (simp add: userSpeedLimitCloneTagPattern_def t userSpeedLimitTagPrefix_def hasPrefix_def)
qed

lemma outboundsByTag_tag: "map_of (outboundsByTag outbounds) tag = Some o' \<Longrightarrow> objTag o' = tag"
proof -
  have "objTag (snd p) = fst p" if "p \<in> set (outboundsByTag outbounds)" for p
    using that unfolding outboundsByTag_def
    by (rule fold_update_keys [where P = "\<lambda>p. objTag (snd p) = fst p", rotated 2]) (auto simp: Let_def objTag_def dest!: update_in_set split: if_splits)
  then show "map_of (outboundsByTag outbounds) tag = Some o' \<Longrightarrow> objTag o' = tag" by (force dest: map_of_SomeD)
qed

lemma neededTags_present: "tag \<in> set (neededTags byTag d rules) \<Longrightarrow> \<exists>o'. map_of byTag tag = Some o'"
  by (auto simp: neededTags_def ruleTag_def map_filter_def cloneable_iff defaultCloneable_def split: if_splits option.splits)

lemma objTag_clone: "objTag (userSpeedLimitClone uid o' m) = userSpeedLimitCloneTag uid (objTag o')"
  by (simp add: userSpeedLimitClone_def Let_def objTag_def userSpeedLimitDeepCopy_def)

lemma plan_clones:
  assumes plan: "plan = buildUserSpeedLimitPlan hs doc limits bindings"
  shows "map objTag (plClones plan) = plCloneTags plan" and "t \<in> set (plCloneTags plan) \<Longrightarrow> userSpeedLimitCloneTagPattern t"
proof -
  let ?by = "outboundsByTag (arrOr (map_of doc ''outbounds''))"
  let ?a = "userSpeedLimitActiveUsers limits (userSpeedLimitEmailsByID doc)"
  let ?n = "neededTags ?by (defaultOutboundTag (arrOr (map_of doc ''outbounds''))) (arrOr (map_of (objOr (map_of doc ''routing'')) ''rules''))"
  have t: "objTag (mget [] ?by tag) = tag" if "tag \<in> set ?n" for tag
    using neededTags_present [OF that] outboundsByTag_tag by (auto simp: mget_def)
  have p: "plClones plan = concat (map (\<lambda>u. map (\<lambda>tag. userSpeedLimitClone (acUserID u) (mget [] ?by tag) (userSpeedLimitMark (acUserID u))) ?n) ?a)"
    "plCloneTags plan = concat (map (\<lambda>u. map (userSpeedLimitCloneTag (acUserID u)) ?n) ?a)"
    by (simp_all add: plan buildUserSpeedLimitPlan_def Let_def)
  show "map objTag (plClones plan) = plCloneTags plan"
    unfolding p by (simp add: map_concat comp_def objTag_clone t cong: map_cong)
  show "t \<in> set (plCloneTags plan) \<Longrightarrow> userSpeedLimitCloneTagPattern t"
    unfolding p using active_positive [of _ limits "userSpeedLimitEmailsByID doc"] cloneTag_pattern by fastforce
qed

definition cloneTagsOf :: "jobj list \<Rightarrow> string set" where
  "cloneTagsOf outs = {t \<in> objTag ` set outs. userSpeedLimitCloneTagPattern t}"

definition otherOutbounds :: "jobj list \<Rightarrow> jobj list" where
  "otherOutbounds outs = filter (\<lambda>o'. \<not> userSpeedLimitCloneTagPattern (objTag o')) outs"

lemma overlay_applied:
  assumes laws: "cliLaws E outs rules" and ok: "applyOverlay E plan existing x = (None, x')" and ex: "set existing = cloneTagsOf (outs x)"
    and tags: "map objTag (plClones plan) = plCloneTags plan" "\<And>t. t \<in> set (plCloneTags plan) \<Longrightarrow> userSpeedLimitCloneTagPattern t"
  shows "rules x' = plOverlay plan \<and> cloneTagsOf (outs x') = set (plCloneTags plan) \<and> otherOutbounds (outs x') = otherOutbounds (outs x)"
proof -
  let ?missing = "filter (\<lambda>clone. objTag clone \<notin> set existing) (plClones plan)"
  obtain x1 x2 where s: "(if ?missing \<noteq> [] then userSpeedLimitAddOutbounds E ?missing else skip) x = (None, x1)"
    "userSpeedLimitReplaceRouting E (plOverlay plan) (plBalancers plan) x1 = (None, x2)"
    "userSpeedLimitRemoveOutbounds E (filter (\<lambda>tag. tag \<notin> set (plCloneTags plan)) existing) x2 = (None, x')"
    using ok by (auto simp: applyOverlay_def Let_def dest!: thenDo_ok)
  have o1: "outs x1 = outs x @ ?missing" using s(1) cliLawsD(3) [OF laws] by (auto simp: skip_def split: if_splits)
  have o2: "rules x2 = plOverlay plan" "outs x2 = outs x1" using cliLawsD(2) [OF laws s(2)] by auto
  have o3: "rules x' = rules x2" "outs x' = filter (\<lambda>o'. objTag o' \<notin> set (filter (\<lambda>tag. tag \<notin> set (plCloneTags plan)) existing)) (outs x2)"
    using cliLawsD(4) [OF laws s(3)] by auto
  have t: "set (plCloneTags plan) = objTag ` set (plClones plan)" using tags(1) by (metis set_map)
  have img: "objTag ` set (filter (\<lambda>o'. P (objTag o')) os) = {t \<in> objTag ` set os. P t}" for P os by auto
  have m: "objTag ` set (outs x @ ?missing) = objTag ` set (outs x) \<union> (set (plCloneTags plan) - set existing)"
    unfolding set_append image_Un img t by auto
  have "cloneTagsOf (outs x') = {t \<in> objTag ` set (outs x) \<union> (set (plCloneTags plan) - set existing).
      t \<notin> set (filter (\<lambda>tag. tag \<notin> set (plCloneTags plan)) existing) \<and> userSpeedLimitCloneTagPattern t}"
    unfolding cloneTagsOf_def o3 o2 o1 img [where P = "\<lambda>t. t \<notin> set (filter (\<lambda>tag. tag \<notin> set (plCloneTags plan)) existing)"] m by blast
  also have "\<dots> = set (plCloneTags plan)" using tags(2) unfolding set_filter ex cloneTagsOf_def by blast
  finally have "cloneTagsOf (outs x') = set (plCloneTags plan)" .
  moreover have "otherOutbounds (outs x') = otherOutbounds (outs x)"
  proof -
    let ?keep = "\<lambda>o'. objTag o' \<notin> set (filter (\<lambda>tag. tag \<notin> set (plCloneTags plan)) existing)"
    have "\<not> userSpeedLimitCloneTagPattern (objTag o') \<longrightarrow> ?keep o'" for o' using ex by (auto simp: cloneTagsOf_def)
    then have "otherOutbounds (outs x') = otherOutbounds (outs x @ ?missing)"
      unfolding otherOutbounds_def o3 o2 o1 filter_filter by (intro filter_cong) auto
    also have "\<dots> = otherOutbounds (outs x)" using tags(2) t by (auto simp: otherOutbounds_def filter_empty_conv)
    finally show ?thesis .
  qed
  ultimately show ?thesis using o2 o3 by simp
qed

text \<open>
  When a plan was applied, Xray runs the rules of the plan and its clones are exactly those of the plan:
  none is missing, none of an earlier plan is left; the outbounds of the master are as before.
\<close>
theorem plan_applied:
  assumes "cliLaws E outs rules" and "plan = buildUserSpeedLimitPlan hs doc limits bindings"
    and "applyUserSpeedLimitRuntime E plan baseChanged x = (None, x')"
  shows "rules x' = plOverlay plan \<and> cloneTagsOf (outs x') = set (plCloneTags plan) \<and> otherOutbounds (outs x') = otherOutbounds (outs x)"
proof -
  obtain existing where ex: "userSpeedLimitOutboundTags E x = Inr existing" using assms(3) by (auto simp: applyUserSpeedLimitRuntime_def split: sum.splits)
  have c: "set existing = cloneTagsOf (outs x)" using cliLawsD(1) [OF assms(1) ex] by (simp add: cloneTagsOf_def)
  note o = overlay_applied [OF assms(1) _ _ plan_clones [OF assms(2)]]
  show ?thesis
  proof (cases baseChanged)
    case True
    then obtain x1 x2 where s: "userSpeedLimitReplaceRouting E (plBaseRules plan) (plBalancers plan) x = (None, x1)"
      "userSpeedLimitRemoveOutbounds E existing x1 = (None, x2)" "applyOverlay E plan [] x2 = (None, x')"
      using assms(3) ex by (auto simp: applyUserSpeedLimitRuntime_def dest!: thenDo_ok)
    have x2: "outs x2 = filter (\<lambda>o'. objTag o' \<notin> set existing) (outs x)"
      using cliLawsD(2) [OF assms(1) s(1)] cliLawsD(4) [OF assms(1) s(2)] by simp
    then have "set [] = cloneTagsOf (outs x2)" using c by (auto simp: cloneTagsOf_def)
    moreover have "otherOutbounds (outs x2) = otherOutbounds (outs x)"
      unfolding x2 otherOutbounds_def filter_filter using c by (intro filter_cong) (auto simp: cloneTagsOf_def)
    ultimately show ?thesis using o [OF s(3)] by simp
  next
    case False
    then have "applyOverlay E plan existing x = (None, x')" using assms(3) ex by (simp add: applyUserSpeedLimitRuntime_def)
    then show ?thesis using o [OF _ c] by simp
  qed
qed

section \<open>Reconciliation\<close>

lemma setState_then [simp]: "thenDo (setState f) g s = g (f s)"
  by (simp add: thenDo_def setState_def)

lemma onWorld_ok: "onWorld f s = (None, s') \<longleftrightarrow> (\<exists>x. f (lsWorld s) = (None, x) \<and> s' = s\<lparr>lsWorld := x\<rparr>)"
  by (auto simp: onWorld_def split: prod.splits)

lemma save_ok: "saveUserSpeedLimitState st s = (None, s') \<longleftrightarrow> lsSaveErr s st = None \<and> s' = s\<lparr>lsFile := Some st\<rparr>"
  by (auto simp: saveUserSpeedLimitState_def split: option.splits)

lemma thenDo_ok_iff: "thenDo f g s = (None, s'') \<longleftrightarrow> (\<exists>s'. f s = (None, s') \<and> g s' = (None, s''))"
  by (auto simp: thenDo_def split: prod.splits option.splits)

text \<open>The part of the reconciliation that changes Xray and the kernel.\<close>

lemma installPlan_ok:
  "installPlan E plan bindings pid key state s = (None, s') \<longleftrightarrow>
   (\<exists>x y. applyUserSpeedLimitRuntime E plan (stBaseHash state \<noteq> plBaseHash plan) (lsWorld s) = (None, x) \<and> leNFT E (plNFTScript plan) x = (None, y)
      \<and> lsSaveErr s (state\<lparr>stBaseHash := plBaseHash plan\<rparr>) = None
      \<and> s' = s\<lparr>lsAppliedKey := key, lsAppliedPID := pid, lsWorld := y, lsVPNKey := userSpeedLimitBindingsKey bindings, lsFile := Some (state\<lparr>stBaseHash := plBaseHash plan\<rparr>)\<rparr>)"
  by (auto simp: installPlan_def rememberBindings_def thenDo_ok_iff onWorld_ok save_ok)

lemma reconcile_started:
  assumes "limits \<noteq> []" and "lsSaveErr s ((loadUserSpeedLimitState s)\<lparr>stLimits := limits\<rparr>) = None"
  shows "reconcileUserSpeedLimits E tsv (Some doc) True pid limits s =
    reconcilePlan E doc (userSpeedLimitVPNBindings tsv limits) pid limits ((loadUserSpeedLimitState s)\<lparr>stLimits := limits\<rparr>)
      (s\<lparr>lsIndex := limitsByID limits, lsFile := Some ((loadUserSpeedLimitState s)\<lparr>stLimits := limits\<rparr>)\<rparr>)"
proof -
  have "loadUserSpeedLimitState (setUserSpeedLimitIndex limits s) = loadUserSpeedLimitState s"
    by (simp add: loadUserSpeedLimitState_def setUserSpeedLimitIndex_def)
  then show ?thesis using assms
    by (simp add: reconcileUserSpeedLimits_def Let_def thenDo_def saveUserSpeedLimitState_def setUserSpeedLimitIndex_def)
qed

text \<open>
  A reconciliation that succeeds while Xray runs leaves it with the rules and exactly the clones of the
  plan, and the kernel with the plan's script, and a second one with the same request and the same process
  runs nothing: it changes neither Xray nor the kernel.
\<close>
theorem limits_reconciled:
  assumes laws: "cliLaws E outs rules" "\<And>t x x'. leNFT E t x = (None, x') \<Longrightarrow> nft x' = t \<and> outs x' = outs x \<and> rules x' = rules x"
    and ok: "reconcileUserSpeedLimits E tsv (Some doc) True pid limits s = (None, s')" and new: "limits \<noteq> []" "lsAppliedKey s = []" "\<And>t. hsSHA256 (leHash E) t \<noteq> []"
    and save: "\<And>st. lsSaveErr s st = None" and pid: "pid \<noteq> 0"
    and plan: "plan = buildUserSpeedLimitPlan (leHash E) doc limits (userSpeedLimitVPNBindings tsv limits)"
  shows "rules (lsWorld s') = plOverlay plan \<and> cloneTagsOf (outs (lsWorld s')) = set (plCloneTags plan) \<and> nft (lsWorld s') = plNFTScript plan
    \<and> (\<exists>s''. reconcileUserSpeedLimits E tsv (Some doc) True pid limits s' = (None, s'') \<and> lsWorld s'' = lsWorld s')"
proof -
  let ?key = "userSpeedLimitPlanKey (leHash E) plan limits" and ?b = "userSpeedLimitVPNBindings tsv limits"
  let ?st = "(loadUserSpeedLimitState s)\<lparr>stLimits := limits\<rparr>"
  have k: "?key \<noteq> []" using new(3) by (simp add: userSpeedLimitPlanKey_def)
  then have "installPlan E plan ?b pid ?key ?st (s\<lparr>lsIndex := limitsByID limits, lsFile := Some ?st\<rparr>) = (None, s')"
    using ok reconcile_started [OF new(1) save] new(2) by (simp add: reconcilePlan_def plan [symmetric])
  then obtain x where x: "applyUserSpeedLimitRuntime E plan (stBaseHash ?st \<noteq> plBaseHash plan) (lsWorld s) = (None, x)"
      "leNFT E (plNFTScript plan) x = (None, lsWorld s')" "lsAppliedPID s' = pid" "lsAppliedKey s' = ?key" "lsSaveErr s' = lsSaveErr s"
    unfolding installPlan_ok by auto
  have "reconcileUserSpeedLimits E tsv (Some doc) True pid limits s' =
    (None, s'\<lparr>lsIndex := limitsByID limits, lsFile := Some ((loadUserSpeedLimitState s')\<lparr>stLimits := limits\<rparr>)\<rparr>)"
    using reconcile_started [OF new(1), of s' E tsv doc pid] save x(3-5) pid by (simp add: reconcilePlan_def plan [symmetric])
  then show ?thesis using plan_applied [OF laws(1) plan x(1)] laws(2) [OF x(2)] by simp
qed

text \<open>
  Removing the last limit is not retried: the state file forgets the limits before nftables is asked
  to remove its table, so when that fails, the next reconciliation without limits finds nothing to do and
  reports success, while the kernel still enforces the old limits.
\<close>
theorem failed_clear_not_retried:
  assumes "stLimits (loadUserSpeedLimitState s) \<noteq> []" and "\<And>st. lsSaveErr s st = None"
    and "leNFT E (userSpeedLimitNFTScript [] [] []) (lsWorld s) = (Some err, lsWorld s)"
  shows "\<exists>s1. reconcileUserSpeedLimits E tsv None started pid [] s = (Some err, s1) \<and> lsWorld s1 = lsWorld s
    \<and> (\<exists>s2. reconcileUserSpeedLimits E tsv' None started' pid' [] s1 = (None, s2) \<and> lsWorld s2 = lsWorld s)"
proof -
  have b: "userSpeedLimitVPNBindings tsv [] = []" by (simp add: userSpeedLimitVPNBindings_def limitsByID_def)
  have l: "loadUserSpeedLimitState (s\<lparr>lsIndex := m\<rparr>) = loadUserSpeedLimitState s" for m by (simp add: loadUserSpeedLimitState_def)
  let ?s1 = "s\<lparr>lsIndex := [], lsFile := Some ((loadUserSpeedLimitState s)\<lparr>stLimits := []\<rparr>), lsAppliedKey := []\<rparr>"
  have "onWorld (leNFT E (userSpeedLimitNFTScript [] [] [])) ?s1 = (Some err, ?s1)" using assms(3) by (simp add: onWorld_def)
  then have "reconcileUserSpeedLimits E tsv None started pid [] s = (Some err, ?s1)"
    using assms(1,2) by (simp add: reconcileUserSpeedLimits_def Let_def b l thenDo_def saveUserSpeedLimitState_def setState_def
        setUserSpeedLimitIndex_def limitsByID_def)
  moreover have "reconcileUserSpeedLimits E tsv' None started' pid' [] ?s1 = (None, ?s1)"
    by (simp add: reconcileUserSpeedLimits_def Let_def loadUserSpeedLimitState_def setUserSpeedLimitIndex_def limitsByID_def)
  ultimately show ?thesis by fastforce
qed

section \<open>Examples\<close>

text \<open>Outbounds, rules and the table.\<close>

type_synonym miniXray = "jobj list \<times> json list \<times> string"

definition miniXray :: "(string \<Rightarrow> string option) \<Rightarrow> miniXray limitEnv" where
  "miniXray nftErr = \<lparr>leTags = (\<lambda>(outs, rules, nft). Inr (map objTag outs)),
     leRouting = (\<lambda>doc (outs, rules, nft). (None, (outs, arrOr (map_of (objOr (map_of (objOr (Some doc)) ''routing'')) ''rules''), nft))),
     leAdd = (\<lambda>doc (outs, rules, nft). (None, (outs @ map (\<lambda>o'. objOr (Some o')) (arrOr (map_of (objOr (Some doc)) ''outbounds'')), rules, nft))),
     leRemove = (\<lambda>ts (outs, rules, nft). (None, (filter (\<lambda>o'. objTag o' \<notin> set ts) outs, rules, nft))),
     leNFT = (\<lambda>t (outs, rules, nft). case nftErr t of Some err \<Rightarrow> (Some err, (outs, rules, nft)) | None \<Rightarrow> (None, (outs, rules, t))),
     leHash = \<lparr>hsMarshal = (\<lambda>_. []), hsSHA256 = (\<lambda>t. CHR ''#'' # t)\<rparr>\<rparr>"

definition miniState :: "userSpeedLimit list \<Rightarrow> miniXray limitState" where
  "miniState limits = \<lparr>lsFile = Some \<lparr>stBaseHash = [], stLimits = limits\<rparr>, lsSaveErr = (\<lambda>_. None), lsIndex = [], lsAppliedPID = 0,
     lsAppliedKey = [], lsVPNKey = [], lsWorld = ([[(''tag'', JStr ''direct'')]], [], [])\<rparr>"

definition limitDocument :: jobj where
  "limitDocument = [(''inbounds'', JArr [JObj [(''settings'', JObj [(''clients'', JArr [JObj [(''email'', JStr ''7.alice'')], JObj [(''email'', JStr ''8.bob'')]])])]]),
     (''outbounds'', JArr [JObj [(''tag'', JStr ''direct''), (''protocol'', JStr ''freedom'')]])]"

definition exampleLimits :: "userSpeedLimit list" where
  "exampleLimits = [\<lparr>slUserID = 7, slKbps = 8000\<rparr>]"

lemma miniXray_laws: "cliLaws (miniXray nftErr) fst (fst \<circ> snd)"
proof -
  have m: "map ((\<lambda>o'. objOr (Some o')) \<circ> JObj) os = os" for os :: "jobj list" by (simp add: comp_def)
  show ?thesis by (auto simp: cliLaws_def miniXray_def userSpeedLimitReplaceRouting_def userSpeedLimitAddOutbounds_def m split: prod.splits)
qed










theorem plan_applied_witness:
  "\<exists>x'. applyUserSpeedLimitRuntime (miniXray (\<lambda>_. None)) (buildUserSpeedLimitPlan (leHash (miniXray (\<lambda>_. None))) limitDocument exampleLimits []) True ([[(''tag'', JStr ''direct'')]], [], []) = (None, x')
    \<and> cloneTagsOf (fst x') = set (plCloneTags (buildUserSpeedLimitPlan (leHash (miniXray (\<lambda>_. None))) limitDocument exampleLimits []))"
proof -
  let ?plan = "buildUserSpeedLimitPlan (leHash (miniXray (\<lambda>_. None))) limitDocument exampleLimits []" and ?x = "([[(''tag'', JStr ''direct'')]], [], []) :: miniXray"
  have "fst (applyUserSpeedLimitRuntime (miniXray (\<lambda>_. None)) ?plan True ?x) = None"
    by (simp add: applyUserSpeedLimitRuntime_def userSpeedLimitOutboundTags_def miniXray_def thenDo_def userSpeedLimitReplaceRouting_def
        userSpeedLimitRemoveOutbounds_def skip_def applyOverlay_def userSpeedLimitAddOutbounds_def Let_def split: prod.split)
  then obtain x' where x': "applyUserSpeedLimitRuntime (miniXray (\<lambda>_. None)) ?plan True ?x = (None, x')" by (metis prod.collapse)
  then show ?thesis using plan_applied [OF miniXray_laws refl x'] by blast
qed

lemma mini_reconcile: "\<exists>s'. reconcileUserSpeedLimits (miniXray (\<lambda>_. None)) None (Some limitDocument) True 41 exampleLimits (miniState []) = (None, s')"
proof -
  let ?E = "miniXray (\<lambda>_. None)" and ?l = exampleLimits
  have "fst (applyUserSpeedLimitRuntime ?E plan changed x) = None" for plan changed x
    by (cases x) (simp add: applyUserSpeedLimitRuntime_def userSpeedLimitOutboundTags_def miniXray_def thenDo_def userSpeedLimitReplaceRouting_def
        userSpeedLimitRemoveOutbounds_def skip_def applyOverlay_def userSpeedLimitAddOutbounds_def Let_def split: prod.split)
  then have a: "\<exists>x. applyUserSpeedLimitRuntime ?E plan changed y = (None, x)" for plan changed y by (metis prod.collapse)
  have n: "\<exists>y. leNFT ?E t x = (None, y)" for t x by (cases x) (simp add: miniXray_def)
  have i: "\<exists>s'. installPlan ?E plan b pid key st s = (None, s')" if "\<And>st. lsSaveErr s st = None" for plan b pid key st s
  proof -
    obtain x where "applyUserSpeedLimitRuntime ?E plan (stBaseHash st \<noteq> plBaseHash plan) (lsWorld s) = (None, x)" using a by blast
    moreover obtain y where "leNFT ?E (plNFTScript plan) x = (None, y)" using n by blast
    ultimately show ?thesis using that unfolding installPlan_ok by blast
  qed
  have sv: "lsSaveErr (miniState []) st = None" for st by (simp add: miniState_def)
  have "?l \<noteq> []" by (simp add: exampleLimits_def)
  from reconcile_started [OF this, of "miniState []" ?E None limitDocument 41] sv i show ?thesis by (simp add: reconcilePlan_def Let_def)
qed

theorem limits_reconciled_witness:
  "\<exists>s'. reconcileUserSpeedLimits (miniXray (\<lambda>_. None)) None (Some limitDocument) True 41 exampleLimits (miniState []) = (None, s')
    \<and> (\<exists>s''. reconcileUserSpeedLimits (miniXray (\<lambda>_. None)) None (Some limitDocument) True 41 exampleLimits s' = (None, s'') \<and> lsWorld s'' = lsWorld s')"
proof -
  obtain s' where s': "reconcileUserSpeedLimits (miniXray (\<lambda>_. None)) None (Some limitDocument) True 41 exampleLimits (miniState []) = (None, s')"
    using mini_reconcile by blast
  have nft: "snd (snd x') = t \<and> fst x' = fst x \<and> (fst \<circ> snd) x' = (fst \<circ> snd) x" if "leNFT (miniXray (\<lambda>_. None)) t x = (None, x')" for t x x'
    using that by (cases x) (auto simp: miniXray_def)
  show ?thesis using limits_reconciled [OF miniXray_laws, where nft = "snd \<circ> snd", OF _ s' _ _ _ _ _ refl] nft s'
    by (simp add: exampleLimits_def miniState_def miniXray_def)
qed

theorem failed_clear_not_retried_witness:
  "\<exists>s1. reconcileUserSpeedLimits (miniXray (\<lambda>_. Some ''exit status 1'')) None None False 0 [] (miniState exampleLimits) = (Some ''exit status 1'', s1)
    \<and> fst (reconcileUserSpeedLimits (miniXray (\<lambda>_. Some ''exit status 1'')) None None False 0 [] s1) = None"
proof -
  have "stLimits (loadUserSpeedLimitState (miniState exampleLimits)) \<noteq> []" "\<And>st. lsSaveErr (miniState exampleLimits) st = None"
    "leNFT (miniXray (\<lambda>_. Some ''exit status 1'')) t x = (Some ''exit status 1'', x)" for t x
    by (simp_all add: miniState_def miniXray_def loadUserSpeedLimitState_def exampleLimits_def split: prod.split)
  from failed_clear_not_retried [OF this, where tsv = None and tsv' = None and started = False and started' = False and pid = 0 and pid' = 0]
  show ?thesis by fastforce
qed

end
