(* ===== verification/Any_Values.thy ===== *)
theory Any_Values
  imports Text_Util Json
begin

text \<open>
  Settings of a runtime are values of any type: \<open>firstString\<close>, \<open>stringList\<close>, \<open>intValue\<close>, \<open>boolValue\<close> of
  \<open>internal/node/ov.go\<close>, \<open>boundedInt\<close> of \<open>l2tp.go\<close>, \<open>anyConnectInt\<close> of \<open>remote_access.go\<close> and
  \<open>stringListSetting\<close> of \<open>sstp.go\<close>. A setting that is not there is \<open>None\<close>. A number decoded from JSON is a
  \<open>float64\<close>, known by its text; what Go prints of it and what it converts to are parameters. Results: a bounded
  setting is in its bounds whatever was sent, and a list of texts has no blank ones.
\<close>

section \<open>Definitions\<close>

record floats =
  fText :: "string \<Rightarrow> string"
  fInt :: "string \<Rightarrow> int"
  fZero :: "string \<Rightarrow> bool"

text \<open>\<open>fmt.Sprint\<close> of a decoded value: maps are printed in the order of their keys.\<close>

fun sprintAny :: "floats \<Rightarrow> json \<Rightarrow> string" where
  "sprintAny F JNull = ''<nil>''"
| "sprintAny F (JBool b) = (if b then ''true'' else ''false'')"
| "sprintAny F (JNum t) = fText F t"
| "sprintAny F (JStr s) = s"
| "sprintAny F (JArr vs) = ''['' @ joinWith '' '' (map (sprintAny F) vs) @ '']''"
| "sprintAny F (JObj m) = ''map['' @ joinWith '' '' (map snd (sort_key fst (map (\<lambda>p. (fst p, fst p @ '':'' @ sprintAny F (snd p))) m))) @ '']''"

definition settingText :: "floats \<Rightarrow> json option \<Rightarrow> string" where
  "settingText F v = sprintAny F (case v of None \<Rightarrow> JNull | Some w \<Rightarrow> w)"

fun firstString :: "floats \<Rightarrow> json option list \<Rightarrow> string" where
  "firstString F [] = []"
| "firstString F (v # vs) =
     (let txt = trimSpace (settingText F v) in if txt \<noteq> [] \<and> txt \<noteq> ''<nil>'' then txt else firstString F vs)"

text \<open>\<open>strings.FieldsFunc\<close>: the non-empty pieces between the separators.\<close>

fun fieldsFunc :: "(char \<Rightarrow> bool) \<Rightarrow> string \<Rightarrow> string \<Rightarrow> string list" where
  "fieldsFunc sep acc [] = (if acc = [] then [] else [acc])"
| "fieldsFunc sep acc (c # s) =
     (if sep c then (if acc = [] then [] else [acc]) @ fieldsFunc sep [] s else fieldsFunc sep (acc @ [c]) s)"

definition stringList :: "floats \<Rightarrow> json option \<Rightarrow> string list" where
  "stringList F v = (case v of
       Some (JArr items) \<Rightarrow> filter (\<lambda>t. t \<noteq> []) (map (\<lambda>item. firstString F [Some item]) items)
     | Some (JStr s) \<Rightarrow> filter (\<lambda>t. t \<noteq> []) (map trimSpace (fieldsFunc (\<lambda>c. c = CHR '','' \<or> c = CHR 0x0A \<or> c = CHR 0x0D) [] s))
     | _ \<Rightarrow> let txt = firstString F [v] in if txt \<noteq> [] then [txt] else [])"

text \<open>\<open>parsed, _ := strconv.Atoi(s)\<close>: 0 on a syntax error, the nearest end of the range on a range error.\<close>

definition parseIntLax :: "string \<Rightarrow> int" where
  "parseIntLax s =
     (let neg = (s \<noteq> [] \<and> hd s = CHR ''-'');
          body = (if s \<noteq> [] \<and> (hd s = CHR ''-'' \<or> hd s = CHR ''+'') then tl s else s)
      in if body = [] then 0 else
         case digitsVal 0 body of None \<Rightarrow> 0
         | Some n \<Rightarrow> if neg then max min_int64 (- int n) else min max_int64 (int n))"

definition intValue :: "floats \<Rightarrow> json option \<Rightarrow> int" where
  "intValue F v = (case v of
       Some (JNum t) \<Rightarrow> fInt F t
     | Some (JStr s) \<Rightarrow> parseIntLax (trimSpace s)
     | _ \<Rightarrow> 0)"

definition boolValue :: "floats \<Rightarrow> json option \<Rightarrow> bool \<Rightarrow> bool" where
  "boolValue F v fallback = (case v of
       Some (JBool b) \<Rightarrow> b
     | Some (JStr s) \<Rightarrow>
         let t = toLower (trimSpace s) in
         if t \<in> {''1'', ''true'', ''yes'', ''on''} then True
         else if t \<in> {''0'', ''false'', ''no'', ''off''} then False
         else fallback
     | Some (JNum t) \<Rightarrow> \<not> fZero F t
     | _ \<Rightarrow> fallback)"

definition boundedInt :: "floats \<Rightarrow> json option \<Rightarrow> int \<Rightarrow> int \<Rightarrow> int \<Rightarrow> int" where
  "boundedInt F v fallback lo hi = (let parsed = intValue F v in if parsed < lo \<or> hi < parsed then fallback else parsed)"

definition anyConnectInt :: "floats \<Rightarrow> jobj \<Rightarrow> string \<Rightarrow> int \<Rightarrow> int \<Rightarrow> int \<Rightarrow> int" where
  "anyConnectInt F settings k fallback lo hi =
     (let v = intValue F (map_of settings k) in if v < lo \<or> hi < v then fallback else v)"

definition stringListSetting :: "floats \<Rightarrow> jobj \<Rightarrow> string \<Rightarrow> string list" where
  "stringListSetting F settings k =
     filter (\<lambda>t. t \<noteq> []) (map (\<lambda>v. trimSpace (firstString F [Some v])) (arrOr (map_of settings k)))"

section \<open>Lemmas\<close>

lemma parseIntLax_parseInt: "parseInt 64 s = Some i \<Longrightarrow> parseIntLax s = i"
  by (auto simp: parseInt_def parseIntLax_def Let_def split: if_splits option.splits)

lemma parseIntLax_formatInt: "is_int64 i \<Longrightarrow> parseIntLax (formatInt i) = i"
  by (rule parseIntLax_parseInt, rule parseInt_formatInt) (simp_all add: is_int64_def)

lemma is_int64_parseIntLax: "is_int64 (parseIntLax s)"
  by (auto simp: parseIntLax_def Let_def is_int64_def split: option.split)

lemma firstString_trimmed: "trimSpace (firstString F vs) = firstString F vs"
  by (induction vs) (simp_all add: Let_def)

lemma firstString_fallback: "trimSpace s \<noteq> [] \<Longrightarrow> trimSpace s \<noteq> ''<nil>'' \<Longrightarrow> firstString F (vs @ [Some (JStr s)]) \<noteq> []"
  by (induction vs) (simp_all add: Let_def settingText_def)

lemma firstString_simps [simp]:
  "firstString F (None # vs) = firstString F vs"
  "firstString F (Some (JStr s) # vs) = (if trimSpace s \<noteq> [] \<and> trimSpace s \<noteq> ''<nil>'' then trimSpace s else firstString F vs)"
proof -
  have "trimSpace ''<nil>'' = ''<nil>''" by (rule trimSpace_graphic) (simp_all add: graphic_def)
  then show "firstString F (None # vs) = firstString F vs" by (simp add: settingText_def)
qed (simp_all add: settingText_def Let_def)

declare firstString.simps(2) [simp del]

lemma boundedInt_bounds: "lo \<le> fallback \<Longrightarrow> fallback \<le> hi \<Longrightarrow> lo \<le> boundedInt F v fallback lo hi \<and> boundedInt F v fallback lo hi \<le> hi"
  by (simp add: boundedInt_def Let_def)

lemma stringList_not_blank: "t \<in> set (stringList F v) \<Longrightarrow> t \<noteq> [] \<and> trimSpace t = t"
proof -
  assume *: "t \<in> set (stringList F v)"
  have "t \<noteq> []" using * by (auto simp: stringList_def Let_def split: option.splits json.splits if_splits)
  moreover have "trimSpace t = t"
    using * by (auto simp: stringList_def Let_def firstString_trimmed simp del: firstString_simps split: option.splits json.splits if_splits)
  ultimately show ?thesis by simp
qed

end
