(* ===== verification/VPN_Accounting.thy ===== *)
theory VPN_Accounting
  imports VPN_Sessions Usage_Buffer Any_Values
begin

text \<open>
  Traffic accounting of the native VPNs: the usage files that the scripts of the daemons append to, the
  accounting file that remembers how much of a session was counted, and the collection that adds what is new.
  \<open>internal/node/ov.go\<close> (OpenVPN), \<open>l2tp.go\<close>, \<open>pptp.go\<close>, \<open>sstp.go\<close> (all on PPP) and the live part of
  \<open>remote_access.go\<close> (IKEv2). Files are texts, \<open>None\<close> when they cannot be read. Results: files are read back
  as they were written, what is counted of a session is what its recorded total grew by, and two defects.
\<close>

section \<open>Rows of tab separated files\<close>

text \<open>Most readers trim a line before they split it.\<close>

definition trimmedRows :: "string \<Rightarrow> string list list" where
  "trimmedRows raw = map (\<lambda>l. splitOn (trimSpace l) [tab]) (splitOn raw [newline])"

definition plainRows :: "string \<Rightarrow> string list list" where
  "plainRows raw = map (\<lambda>l. splitOn l [tab]) (splitOn raw [newline])"

definition row :: "string list \<Rightarrow> string" where
  "row fs = textLine (joinWith [tab] fs)"

section \<open>Users\<close>

record vpnRuntimeUser =
  vuUserID :: int
  vuUsername :: string
  vuVPNUsername :: string
  vuPassword :: string
  vuIPv4Address :: string
  vuStatus :: string
  vuUsedTraffic :: int
  vuDataLimit :: "int option"
  vuExpire :: "int option"
  vuDeviceLimit :: int

definition optInt :: "int option \<Rightarrow> string" where
  "optInt v = (case v of None \<Rightarrow> [] | Some i \<Rightarrow> formatInt i)"

definition vpnUsersTSV :: "vpnRuntimeUser list \<Rightarrow> string" where
  "vpnUsersTSV us = concat (map (\<lambda>u. row [formatInt (vuUserID u), vuVPNUsername u, vuPassword u, vuIPv4Address u,
     formatInt (vuUsedTraffic u), optInt (vuDataLimit u), vuStatus u, optInt (vuExpire u), formatInt (vuDeviceLimit u)]) us)"

text \<open>\<open>ovUserSnapshot\<close> and \<open>pppUserSnapshot\<close>, which have the same fields.\<close>

record ovUserSnapshot =
  osUserID :: string
  osUsername :: string
  osUsedTraffic :: int
  osDataLimit :: int

definition addSnapshot :: "string list \<Rightarrow> (string, ovUserSnapshot) gomap \<Rightarrow> (string, ovUserSnapshot) gomap" where
  "addSnapshot parts m =
     (if length parts < 6 \<or> parts ! 0 = [] \<or> parts ! 1 = [] then m
      else AList.update (parts ! 1) \<lparr>osUserID = parts ! 0, osUsername = parts ! 1,
        osUsedTraffic = parseIntLax (parts ! 4), osDataLimit = parseIntLax (parts ! 5)\<rparr> m)"

definition readOVUsers :: "string option \<Rightarrow> (string, ovUserSnapshot) gomap" where
  "readOVUsers tsv = (case tsv of None \<Rightarrow> [] | Some raw \<Rightarrow> fold addSnapshot (trimmedRows raw) [])"

definition readPPPUsers :: "string option \<Rightarrow> (string, ovUserSnapshot) gomap" where
  "readPPPUsers = readOVUsers"

record remoteAccessUserSnapshot =
  raUserID :: int
  raUsed :: int
  raLimit :: int
  raDeviceLimit :: int
  raAssignedIP :: string
  raStatus :: string
  raExpire :: int

definition addRemoteUser :: "string list \<Rightarrow> (string, remoteAccessUserSnapshot) gomap \<Rightarrow> (string, remoteAccessUserSnapshot) gomap" where
  "addRemoteUser parts m =
     (if length parts < 9 \<or> parts ! 0 = [] \<or> parts ! 1 = [] then m
      else AList.update (parts ! 1) \<lparr>raUserID = parseIntLax (parts ! 0), raUsed = parseIntLax (parts ! 4), raLimit = parseIntLax (parts ! 5),
        raDeviceLimit = parseIntLax (parts ! 8), raAssignedIP = parts ! 3, raStatus = parts ! 6, raExpire = parseIntLax (parts ! 7)\<rparr> m)"

definition readRemoteAccessUsers :: "string option \<Rightarrow> (string, remoteAccessUserSnapshot) gomap" where
  "readRemoteAccessUsers tsv = (case tsv of None \<Rightarrow> [] | Some raw \<Rightarrow> fold addRemoteUser (plainRows raw) [])"

definition remoteAccessUserAvailable :: "string \<Rightarrow> int \<Rightarrow> int \<Rightarrow> int \<Rightarrow> int \<Rightarrow> bool" where
  "remoteAccessUserAvailable status used limit expire now =
     (let status = toLower (trimSpace status) in
      if status \<noteq> [] \<and> status \<noteq> ''active'' \<and> status \<noteq> ''on_hold'' then False
      else if 0 < limit \<and> limit \<le> used then False
      else expire \<le> 0 \<or> now < expire)"

definition runtimeUserAvailable :: "string \<Rightarrow> int \<Rightarrow> int option \<Rightarrow> int option \<Rightarrow> int \<Rightarrow> bool" where
  "runtimeUserAvailable status used dataLimit expiresAt now =
     remoteAccessUserAvailable status used (case dataLimit of None \<Rightarrow> 0 | Some v \<Rightarrow> v) (case expiresAt of None \<Rightarrow> 0 | Some v \<Rightarrow> v) now"

definition remoteAccessSnapshotAvailable :: "remoteAccessUserSnapshot \<Rightarrow> int \<Rightarrow> bool" where
  "remoteAccessSnapshotAvailable user now = remoteAccessUserAvailable (raStatus user) (raUsed user) (raLimit user) (raExpire user) now"

section \<open>The accounting file\<close>

record ovAccountingRecord =
  arUserID :: string
  arTotal :: int
  arBase :: int

type_synonym accounting = "(string, ovAccountingRecord) gomap"

definition noRecord :: ovAccountingRecord where
  "noRecord = \<lparr>arUserID = [], arTotal = 0, arBase = 0\<rparr>"

definition addAccounting :: "string list \<Rightarrow> accounting \<Rightarrow> accounting" where
  "addAccounting parts m =
     (if length parts < 3 \<or> parts ! 0 = [] \<or> parts ! 1 = [] then m
      else AList.update (parts ! 0) \<lparr>arUserID = parts ! 1, arTotal = parseIntLax (parts ! 2),
        arBase = (if 4 \<le> length parts then parseIntLax (parts ! 3) else 0)\<rparr> m)"

definition readOVAccounting :: "string option \<Rightarrow> accounting" where
  "readOVAccounting tsv = (case tsv of None \<Rightarrow> [] | Some raw \<Rightarrow> fold addAccounting (trimmedRows raw) [])"

definition accountingRow :: "string \<times> ovAccountingRecord \<Rightarrow> string" where
  "accountingRow p = row [fst p, arUserID (snd p), formatInt (arTotal (snd p)), formatInt (arBase (snd p))]"

definition accountingText :: "accounting \<Rightarrow> string" where
  "accountingText records = concat (map accountingRow (filter (\<lambda>(session, r). session \<noteq> [] \<and> arUserID r \<noteq> []) records))"

text \<open>\<open>write\<close>: what is in the file after writing a text over the old content; the error is dropped.\<close>

definition writeOVAccounting :: "(string \<Rightarrow> string option \<Rightarrow> string option) \<Rightarrow> accounting \<Rightarrow> string option \<Rightarrow> string option" where
  "writeOVAccounting write records tsv = write (accountingText records) tsv"

section \<open>Usage files\<close>

type_synonym usageTotals = "(string \<times> string, int) gomap"

text \<open>The third field of a line of OpenVPN: the tag of the inbound, in base64 after \<open>rb1_\<close> or as it is.\<close>

definition usageTag :: "string list \<Rightarrow> string" where
  "usageTag parts =
     (if length parts < 3 then []
      else let encoded = trimSpace (parts ! 2) in
        if hasPrefix encoded ''rb1_'' then (case b64Decode (trimPrefix encoded ''rb1_'') of None \<Rightarrow> [] | Some t \<Rightarrow> t) else encoded)"

definition ovUsageLine :: "string \<Rightarrow> usageTotals \<Rightarrow> usageTotals" where
  "ovUsageLine l totals =
     (let parts = splitOn l [tab] in
      if length parts < 2 then totals
      else let uid = trimSpace (parts ! 0); value = parseIntLax (trimSpace (parts ! 1)) in
        if uid = [] \<or> value \<le> 0 then totals else addUserUsage totals uid (usageTag parts) value)"

definition ovUsageFile :: "string option \<Rightarrow> usageTotals \<Rightarrow> usageTotals" where
  "ovUsageFile tsv totals = (case tsv of None \<Rightarrow> totals | Some raw \<Rightarrow> fold ovUsageLine (scanLines raw) totals)"

text \<open>\<open>stats[uid] += value\<close> on \<open>int64\<close>.\<close>

definition addStat :: "string \<Rightarrow> int \<Rightarrow> (string, int) gomap \<Rightarrow> (string, int) gomap" where
  "addStat uid value stats = AList.update uid (int64 (mget 0 stats uid + value)) stats"

definition pppUsageLine :: "string \<Rightarrow> (string, int) gomap \<Rightarrow> (string, int) gomap" where
  "pppUsageLine l stats =
     (let parts = splitOn l [tab] in
      if length parts < 2 then stats
      else let uid = trimSpace (parts ! 0); value = parseIntLax (trimSpace (parts ! 1)) in
        if uid = [] \<or> value \<le> 0 then stats else addStat uid value stats)"

text \<open>IKEv2, AnyConnect (with the protocol in front of the user) and SSTP.\<close>

definition plainUsageLine :: "string \<Rightarrow> string \<Rightarrow> (string, int) gomap \<Rightarrow> (string, int) gomap" where
  "plainUsageLine prefix l stats =
     (let parts = splitOn l [tab] in if 2 \<le> length parts then addStat (prefix @ parts ! 0) (parseIntLax (parts ! 1)) stats else stats)"

definition usageFile :: "(string \<Rightarrow> (string, int) gomap \<Rightarrow> (string, int) gomap) \<Rightarrow> string option \<Rightarrow> (string, int) gomap \<Rightarrow> (string, int) gomap" where
  "usageFile step tsv stats = (case tsv of None \<Rightarrow> stats | Some raw \<Rightarrow> fold step (scanLines raw) stats)"

text \<open>
  The file after it was read: emptied, or as it was when it could not be opened. \<open>between\<close> is what the scripts of
  the daemon, which append to the file, did to it after it was read and before it is emptied.
\<close>

definition emptied :: "(string \<Rightarrow> string option \<Rightarrow> string option) \<Rightarrow> (string option \<Rightarrow> string option) \<Rightarrow> string option \<Rightarrow> string option" where
  "emptied write between tsv = (case tsv of None \<Rightarrow> between None | Some _ \<Rightarrow> write [] (between tsv))"

section \<open>The status file of OpenVPN\<close>

text \<open>
  \<open>encoding/csv\<close> with any number of fields, on the lines of the text: the text of the quoted field that is
  open, the fields of the record so far, the rest of the line and the lines after it, as a quoted field may
  go on there. An error ends the records. Empty lines between records are skipped.
\<close>

lemma cut_shorter: "(b, a, True) = cut s sep \<Longrightarrow> sep \<noteq> [] \<Longrightarrow> length a < length s"
  using cut_found [of s sep b a] by auto

definition linesSize :: "string list \<Rightarrow> nat" where
  "linesSize ls = sum_list (map (\<lambda>l. Suc (length l)) ls)"

lemma linesSize_simps [simp]: "linesSize [] = 0" "linesSize (l # ls) = Suc (length l) + linesSize ls"
  by (simp_all add: linesSize_def)

fun nextLine :: "string list \<Rightarrow> (string \<times> string list) option" where
  "nextLine [] = None"
| "nextLine (l # ls) = (if l = [] then nextLine ls else Some (l, ls))"

lemma nextLine_smaller: "nextLine ls = Some (l, ls') \<Longrightarrow> length l + linesSize ls' < linesSize ls"
  by (induction ls) (auto split: if_splits)

function csvScan :: "string option \<Rightarrow> string list \<Rightarrow> string \<Rightarrow> string list \<Rightarrow> string list list" where
  "csvScan None fs l rest =
     (if l \<noteq> [] \<and> hd l = CHR 0x22 then csvScan (Some []) fs (tl l) rest
      else case cut l '','' of (f, after, found) \<Rightarrow>
        if CHR 0x22 \<in> set f then []
        else if found then csvScan None (fs @ [f]) after rest
        else (fs @ [f]) # (case nextLine rest of None \<Rightarrow> [] | Some (l', rest') \<Rightarrow> csvScan None [] l' rest'))"
| "csvScan (Some acc) fs l rest =
     (case cut l [CHR 0x22] of (b, after, found) \<Rightarrow>
        if found then
          (if after \<noteq> [] \<and> hd after = CHR 0x22 then csvScan (Some (acc @ b @ [CHR 0x22])) fs (tl after) rest
           else if after \<noteq> [] \<and> hd after = CHR '','' then csvScan None (fs @ [acc @ b]) (tl after) rest
           else if after = [] then (fs @ [acc @ b]) # (case nextLine rest of None \<Rightarrow> [] | Some (l', rest') \<Rightarrow> csvScan None [] l' rest')
           else [])
        else case rest of [] \<Rightarrow> [] | l' # rest' \<Rightarrow> csvScan (Some (acc @ l @ [newline])) fs l' rest')"
  by pat_completeness auto
termination
  by (relation "measure (\<lambda>(_, _, l, rest). length l + linesSize rest)") (force dest!: cut_shorter dest: nextLine_smaller)+

declare csvScan.simps [simp del]

definition csvRecords :: "string \<Rightarrow> string list list" where
  "csvRecords raw = (case nextLine (map dropCR (splitOn raw [newline])) of None \<Rightarrow> [] | Some (l, rest) \<Rightarrow> csvScan None [] l rest)"

definition ovStatusBytes :: "string list \<Rightarrow> int \<times> int" where
  "ovStatusBytes record =
     (case (if 7 \<le> length record then (parseInt 64 (trimSpace (record ! 5)), parseInt 64 (trimSpace (record ! 6))) else (None, None)) of
        (Some rx, Some tx) \<Rightarrow> (rx, tx)
      | _ \<Rightarrow> (parseIntLax (trimSpace (record ! 4)), parseIntLax (trimSpace (record ! 5))))"

record ovLiveSession =
  lvSessionID :: string
  lvUsername :: string
  lvUserID :: string
  lvTotal :: int
  lvBase :: int
  lvLimit :: int

definition statusSession :: "(string, ovUserSnapshot) gomap \<Rightarrow> string list \<Rightarrow> ovLiveSession option" where
  "statusSession us record =
     (if length record < 6 \<or> record ! 0 \<noteq> ''CLIENT_LIST'' then None
      else case map_of us (trimSpace (record ! 1)) of None \<Rightarrow> None
        | Some user \<Rightarrow> (case ovStatusBytes record of (rx, tx) \<Rightarrow>
            let total = int64 (rx + tx) in
            if total \<le> 0 then None
            else Some \<lparr>lvSessionID = safeName (''ov:'' @ trimSpace (record ! 2) @ '':'' @ osUsername user), lvUsername = osUsername user,
              lvUserID = osUserID user, lvTotal = total, lvBase = osUsedTraffic user, lvLimit = osDataLimit user\<rparr>))"

definition readOVStatus :: "string option \<Rightarrow> (string, ovUserSnapshot) gomap \<Rightarrow> ovLiveSession list" where
  "readOVStatus status us = (case status of None \<Rightarrow> [] | Some raw \<Rightarrow> List.map_filter (statusSession us) (csvRecords raw))"


section \<open>Collecting the traffic of OpenVPN\<close>

text \<open>The port of the management interface in the configuration of a server.\<close>

definition ovManagementPort :: "string option \<Rightarrow> int" where
  "ovManagementPort config =
     (case config of None \<Rightarrow> 0
      | Some raw \<Rightarrow> (case find (\<lambda>fs. 3 \<le> length fs \<and> fs ! 0 = ''management'' \<and> fs ! 1 = ''127.0.0.1'') (map Prelude.fields (splitOn raw [newline])) of
          None \<Rightarrow> 0 | Some fs \<Rightarrow> parseIntLax (fs ! 2)))"

text \<open>
  \<open>dial network address\<close>: whether the connection is made. The result is where the command is sent and its
  text, \<open>None\<close> when there is no connection.
\<close>

definition killOVClient :: "(string \<Rightarrow> string \<Rightarrow> bool) \<Rightarrow> string option \<Rightarrow> string \<Rightarrow> string \<Rightarrow> (string \<times> string) option" where
  "killOVClient dial config folder username =
     (let name = filter (\<lambda>c. c \<noteq> CHR 0x0D \<and> c \<noteq> newline) (trimSpace username);
          command = ''kill '' @ name @ [newline] @ ''quit'' @ [newline];
          sock = folder @ ''/management.sock'';
          port = ovManagementPort config;
          tcp = ''127.0.0.1:'' @ formatInt port
      in if trimSpace username = [] then None
         else if dial ''unix'' sock then Some (sock, command)
         else if 0 < port \<and> dial ''tcp'' tcp then Some (tcp, command)
         else None)"

text \<open>
  The accounting, the usage and the clients that are killed (directory and user), through one live session,
  one directory and all of them. A directory has its name and the texts of \<open>users.tsv\<close> and \<open>status.log\<close>.
\<close>

type_synonym ovLive = "accounting \<times> usageTotals \<times> (string \<times> string) list"

definition ovLiveStep :: "string \<Rightarrow> string \<Rightarrow> ovLiveSession \<Rightarrow> ovLive \<Rightarrow> ovLive" where
  "ovLiveStep folder inboundTag session st =
     (case st of (records, stats, killed) \<Rightarrow>
        let r = mget noRecord records (lvSessionID session);
            r = (if arUserID r = [] then r\<lparr>arUserID := lvUserID session\<rparr> else r);
            r = (if arBase r \<le> 0 then r\<lparr>arBase := lvBase session\<rparr> else r);
            stats = (if arTotal r < lvTotal session
              then addUserUsage stats (''openvpn:'' @ lvUserID session) inboundTag (int64 (lvTotal session - arTotal r)) else stats);
            r = r\<lparr>arTotal := lvTotal session\<rparr>;
            killed = (if 0 < lvLimit session \<and> lvLimit session \<le> int64 (arBase r + lvTotal session)
              then killed @ [(folder, lvUsername session)] else killed)
        in (AList.update (lvSessionID session) r records, stats, killed))"

record ovDir =
  odName :: string
  odUsers :: "string option"
  odStatus :: "string option"

definition ovLiveDir :: "(string, string) gomap \<Rightarrow> ovDir \<Rightarrow> ovLive \<Rightarrow> ovLive" where
  "ovLiveDir tagByDir d st =
     fold (ovLiveStep (odName d) (mget [] tagByDir (odName d))) (readOVStatus (odStatus d) (readOVUsers (odUsers d))) st"

definition tagByDir :: "string list \<Rightarrow> (string, string) gomap" where
  "tagByDir tags = fold (\<lambda>t. AList.update (safeName t) t) tags []"

text \<open>
  \<open>tags\<close>: the tags of the inbounds of \<open>runtime.json\<close>, empty when it cannot be read. \<open>locked\<close>: the lock of
  the accounting file was taken.
\<close>

record ovFiles =
  ofUsage :: "string option"
  ofAccounting :: "string option"

definition collectLiveUsageLocked :: "(string \<Rightarrow> string option \<Rightarrow> string option) \<Rightarrow> bool \<Rightarrow> string list \<Rightarrow> ovDir list \<Rightarrow> string option \<times> usageTotals
    \<Rightarrow> string option \<times> usageTotals \<times> (string \<times> string) list" where
  "collectLiveUsageLocked write locked tags dirs st =
     (case st of (tsv, stats) \<Rightarrow>
        if \<not> locked then (tsv, stats, [])
        else case fold (ovLiveDir (tagByDir tags)) dirs (readOVAccounting tsv, stats, []) of
          (records, stats, killed) \<Rightarrow> (writeOVAccounting write records tsv, stats, killed))"

definition ovCollectUsage :: "(string \<Rightarrow> string option \<Rightarrow> string option) \<Rightarrow> (string option \<Rightarrow> string option) \<Rightarrow> bool \<Rightarrow> string list \<Rightarrow> ovDir list \<Rightarrow> ovFiles
    \<Rightarrow> userStat list \<times> ovFiles \<times> (string \<times> string) list" where
  "ovCollectUsage write between locked tags dirs F =
     (case collectLiveUsageLocked write locked tags dirs (ofAccounting F, ovUsageFile (ofUsage F) []) of
        (tsv, totals, killed) \<Rightarrow> (userUsageStats totals, F\<lparr>ofUsage := emptied write between (ofUsage F), ofAccounting := tsv\<rparr>, killed))"

section \<open>Collecting the traffic of PPP\<close>

record pppSessionSnapshot =
  psUsername :: string
  psIFName :: string
  psPID :: string

definition readPPPSessions :: "string option \<Rightarrow> pppSessionSnapshot list" where
  "readPPPSessions tsv = (case tsv of None \<Rightarrow> []
     | Some raw \<Rightarrow> map (\<lambda>ps. \<lparr>psUsername = ps ! 0, psIFName = ps ! 1, psPID = ps ! 2\<rparr>)
         (filter (\<lambda>ps. 3 \<le> length ps \<and> ps ! 0 \<noteq> [] \<and> ps ! 1 \<noteq> []) (trimmedRows raw)))"

definition pppSafe :: "string \<Rightarrow> string" where
  "pppSafe value = replaceRunes (\<lambda>c. alphaNum c \<or> c \<in> {CHR ''_'', CHR ''.'', CHR '':'', CHR ''-''}) CHR ''_'' value"

definition pppSessionID :: "string \<Rightarrow> string \<Rightarrow> string \<Rightarrow> string \<Rightarrow> string" where
  "pppSessionID protocol pid ifname username =
     pppSafe (protocol @ '':'' @ trimSpace pid @ '':'' @ trimSpace ifname @ '':'' @ trimSpace username)"

definition readInt64File :: "string option \<Rightarrow> int option" where
  "readInt64File tsv = (case tsv of None \<Rightarrow> None | Some raw \<Rightarrow> parseInt 64 (trimSpace raw))"

text \<open>
  \<open>net path\<close>: the text of a file under \<open>/sys/class/net\<close>. \<open>readInt64File\<close> returns the value \<open>ParseInt\<close> gives next to
  an error too: the nearest end of the range for a counter that does not fit.
\<close>

definition readInt64Value :: "string option \<Rightarrow> int" where
  "readInt64Value tsv = (case tsv of None \<Rightarrow> 0 | Some raw \<Rightarrow> parseIntLax (trimSpace raw))"

definition pppInterfaceBytes :: "(string \<Rightarrow> string option) \<Rightarrow> string \<Rightarrow> int option" where
  "pppInterfaceBytes net ifname =
     (if ifname = [] \<or> (\<exists>c \<in> set ifname. c \<in> {CHR ''/'', CHR '' '', tab, CHR 0x0D, newline}) then None
      else let rx = net (ifname @ ''/statistics/rx_bytes''); tx = net (ifname @ ''/statistics/tx_bytes'') in
        if readInt64File rx \<noteq> None \<or> readInt64File tx \<noteq> None then Some (int64 (readInt64Value rx + readInt64Value tx)) else None)"

text \<open>The accounting, the usage, the sessions that were seen and those that are ended.\<close>

type_synonym pppLive = "accounting \<times> (string, int) gomap \<times> string list \<times> pppSessionSnapshot list"

definition pppLiveStep :: "(string \<Rightarrow> string option) \<Rightarrow> string \<Rightarrow> (string, ovUserSnapshot) gomap \<Rightarrow> pppSessionSnapshot \<Rightarrow> pppLive \<Rightarrow> pppLive" where
  "pppLiveStep net protocol us session st =
     (case (map_of us (psUsername session), pppInterfaceBytes net (psIFName session)) of
        (Some user, Some bytes) \<Rightarrow>
          if bytes \<le> 0 then st
          else (case st of (records, stats, active, killed) \<Rightarrow>
            let sid = pppSessionID protocol (psPID session) (psIFName session) (psUsername session);
                r = mget noRecord records sid;
                r = (if arUserID r = [] then r\<lparr>arUserID := osUserID user\<rparr> else r);
                r = (if arBase r \<le> 0 then r\<lparr>arBase := osUsedTraffic user\<rparr> else r);
                stats = (if arTotal r < bytes then addStat (protocol @ '':'' @ osUserID user) (int64 (bytes - arTotal r)) stats else stats);
                r = r\<lparr>arTotal := bytes\<rparr>;
                killed = (if 0 < osDataLimit user \<and> osDataLimit user \<le> int64 (arBase r + bytes) then killed @ [session] else killed)
            in (AList.update sid r records, stats, active @ [sid], killed))
      | _ \<Rightarrow> st)"

definition keptAccounting :: "string \<Rightarrow> string list \<Rightarrow> accounting \<Rightarrow> accounting" where
  "keptAccounting protocol active records = filter (\<lambda>(sid, _). hasPrefix sid (protocol @ '':'') \<longrightarrow> sid \<in> set active) records"

record pppFiles =
  pfUsage :: "string option"
  pfAccounting :: "string option"
  pfUsers :: "string option"
  pfSessions :: "string option"

definition collectPPPLiveUsage :: "(string \<Rightarrow> string option \<Rightarrow> string option) \<Rightarrow> bool \<Rightarrow> (string \<Rightarrow> string option) \<Rightarrow> string \<Rightarrow> pppFiles \<Rightarrow> (string, int) gomap
    \<Rightarrow> (string, int) gomap \<times> pppFiles \<times> pppSessionSnapshot list" where
  "collectPPPLiveUsage write locked net protocol F stats =
     (let us = readPPPUsers (pfUsers F); sessions = readPPPSessions (pfSessions F) in
      if us = [] \<or> sessions = [] \<or> \<not> locked then (stats, F, [])
      else case fold (pppLiveStep net protocol us) sessions (readOVAccounting (pfAccounting F), stats, [], []) of
        (records, stats, active, killed) \<Rightarrow>
          (stats, F\<lparr>pfAccounting := writeOVAccounting write (keptAccounting protocol active records) (pfAccounting F)\<rparr>, killed))"

text \<open>L2TP and PPTP: \<open>tag\<close> is the tag of the first inbound of \<open>runtime.json\<close>, empty without one.\<close>

definition pppCollectUsage :: "(string \<Rightarrow> string option \<Rightarrow> string option) \<Rightarrow> (string option \<Rightarrow> string option) \<Rightarrow> bool \<Rightarrow> (string \<Rightarrow> string option) \<Rightarrow> string \<Rightarrow> string \<Rightarrow> pppFiles
    \<Rightarrow> userStat list \<times> pppFiles \<times> pppSessionSnapshot list" where
  "pppCollectUsage write between locked net protocol tag F =
     (case collectPPPLiveUsage write locked net protocol (F\<lparr>pfUsage := emptied write between (pfUsage F)\<rparr>) (usageFile pppUsageLine (pfUsage F) []) of
        (stats, F', killed) \<Rightarrow> (map (\<lambda>(uid, v). \<lparr>UID = uid, Value = v, UserUp = 0, UserDown = 0, InboundTag = tag\<rparr>) stats, F', killed))"

definition l2tpCollectUsage :: "(string \<Rightarrow> string option \<Rightarrow> string option) \<Rightarrow> (string option \<Rightarrow> string option) \<Rightarrow> bool \<Rightarrow> (string \<Rightarrow> string option) \<Rightarrow> string \<Rightarrow> pppFiles
    \<Rightarrow> userStat list \<times> pppFiles \<times> pppSessionSnapshot list" where
  "l2tpCollectUsage write between locked net tag F = pppCollectUsage write between locked net ''l2tp'' tag F"

definition pptpCollectUsage :: "(string \<Rightarrow> string option \<Rightarrow> string option) \<Rightarrow> (string option \<Rightarrow> string option) \<Rightarrow> bool \<Rightarrow> (string \<Rightarrow> string option) \<Rightarrow> string \<Rightarrow> pppFiles
    \<Rightarrow> userStat list \<times> pppFiles \<times> pppSessionSnapshot list" where
  "pptpCollectUsage write between locked net tag F = pppCollectUsage write between locked net ''pptp'' tag F"

text \<open>SSTP has a directory for each inbound, given with the tag.\<close>

definition addAll :: "string \<Rightarrow> (string, int) gomap \<Rightarrow> usageTotals \<Rightarrow> usageTotals" where
  "addAll tag stats totals = fold (\<lambda>(uid, v) t. addUserUsage t uid tag v) stats totals"

definition sstpStep :: "(string \<Rightarrow> string option \<Rightarrow> string option) \<Rightarrow> (string option \<Rightarrow> string option) \<Rightarrow> bool \<Rightarrow> (string \<Rightarrow> string option) \<Rightarrow> string \<times> pppFiles
    \<Rightarrow> usageTotals \<times> (string \<times> pppFiles) list \<times> pppSessionSnapshot list \<Rightarrow> usageTotals \<times> (string \<times> pppFiles) list \<times> pppSessionSnapshot list" where
  "sstpStep write between locked net inbound st =
     (case (inbound, st) of ((tag, F), (totals, ready, killed)) \<Rightarrow>
       (case collectPPPLiveUsage write locked net ''sstp'' (F\<lparr>pfUsage := emptied write between (pfUsage F)\<rparr>) (usageFile (plainUsageLine []) (pfUsage F) []) of
          (stats, F', killed') \<Rightarrow> (addAll tag stats totals, ready @ [(tag, F')], killed @ killed')))"

definition collectSSTPUsageLocked :: "(string \<Rightarrow> string option \<Rightarrow> string option) \<Rightarrow> (string option \<Rightarrow> string option) \<Rightarrow> bool \<Rightarrow> (string \<Rightarrow> string option) \<Rightarrow> (string \<times> pppFiles) list
    \<Rightarrow> userStat list \<times> (string \<times> pppFiles) list \<times> pppSessionSnapshot list" where
  "collectSSTPUsageLocked write between locked net dirs =
     (case fold (sstpStep write between locked net) dirs ([], [], []) of (totals, ready, killed) \<Rightarrow> (userUsageStats totals, ready, killed))"

section \<open>Collecting the traffic of IKEv2\<close>

record ikev2Session =
  ikID :: string
  ikUsername :: string
  ikClientIP :: string
  ikAssignedIP :: string
  ikBytes :: int

text \<open>
  What one collection changes: the accounting, the usage, the sessions that were seen, those told to
  terminate, the file of the session registry and the events sent to the master without waiting.
\<close>

record ikev2Live =
  klRecords :: accounting
  klStats :: "(string, int) gomap"
  klActive :: "string list"
  klTerminated :: "string list"
  klRegistry :: sessionFile
  klSent :: "vpnSessionEvent list"

definition ikev2Event :: "string \<Rightarrow> int \<Rightarrow> ikev2Session \<Rightarrow> vpnSessionEvent" where
  "ikev2Event inboundTag uid session = \<lparr>evNodeID = 0, evUserID = uid, evProtocol = ''ikev2'', evInboundTag = inboundTag, evSessionID = ikID session,
     evAssignedIP = ikAssignedIP session, evClientIP = ikClientIP session, evEvent = ''start''\<rparr>"

text \<open>What is checked after the session was accounted: the user, the admission of a new session and the limit.\<close>

definition ikev2Check :: "vpnEnv \<Rightarrow> vpnSessionCallback option \<Rightarrow> string \<Rightarrow> int \<Rightarrow> remoteAccessUserSnapshot \<Rightarrow> bool \<Rightarrow> ovAccountingRecord \<Rightarrow> ikev2Session \<Rightarrow> ikev2Live \<Rightarrow> ikev2Live" where
  "ikev2Check E callback inboundTag now user existed r session st =
     (let terminate = st\<lparr>klTerminated := klTerminated st @ [ikID session]\<rparr> in
      if \<not> remoteAccessSnapshotAvailable user now then terminate
      else case (if existed then (True, [], klRegistry st)
             else vpnAdmitGoSession E callback (ikev2Event inboundTag (raUserID user) session) (raDeviceLimit user) (klRegistry st)) of
        (False, sent, tsv) \<Rightarrow> terminate\<lparr>klRegistry := tsv, klSent := klSent st @ sent\<rparr>
      | (True, sent, tsv) \<Rightarrow>
          (if 0 < raLimit user \<and> raLimit user \<le> int64 (arBase r + arTotal r) then terminate else st)
            \<lparr>klRegistry := tsv, klSent := klSent st @ sent\<rparr>)"

definition ikev2Step :: "vpnEnv \<Rightarrow> vpnSessionCallback option \<Rightarrow> string \<Rightarrow> bool \<Rightarrow> int \<Rightarrow> (string, remoteAccessUserSnapshot) gomap \<Rightarrow> ikev2Session \<Rightarrow> ikev2Live \<Rightarrow> ikev2Live" where
  "ikev2Step E callback inboundTag accounting now us session st =
     (case map_of us (ikUsername session) of
        None \<Rightarrow> st\<lparr>klTerminated := klTerminated st @ [ikID session]\<rparr>
      | Some user \<Rightarrow>
          let existed = (map_of (klRecords st) (ikID session) \<noteq> None);
              r = mget noRecord (klRecords st) (ikID session);
              r = (if arUserID r = [] then r\<lparr>arUserID := formatInt (raUserID user), arBase := raUsed user\<rparr> else r);
              stats = (if accounting \<and> arTotal r < ikBytes session
                then addStat (''ikev2:'' @ arUserID r) (int64 (ikBytes session - arTotal r)) (klStats st) else klStats st);
              r = r\<lparr>arTotal := ikBytes session\<rparr>
          in ikev2Check E callback inboundTag now user existed r session
               (st\<lparr>klRecords := AList.update (ikID session) r (klRecords st), klStats := stats, klActive := klActive st @ [ikID session]\<rparr>))"

text \<open>A record of a session that was not seen is released in the registry and forgotten.\<close>

definition ikev2Release :: "vpnEnv \<Rightarrow> string \<Rightarrow> string \<times> ovAccountingRecord \<Rightarrow> ikev2Live \<Rightarrow> ikev2Live" where
  "ikev2Release E inboundTag p st =
     (if fst p \<in> set (klActive st) then st
      else case vpnReleaseGoSession E \<lparr>evNodeID = 0, evUserID = parseIntLax (arUserID (snd p)), evProtocol = ''ikev2'', evInboundTag = inboundTag,
             evSessionID = fst p, evAssignedIP = [], evClientIP = [], evEvent = ''stop''\<rparr> (klRegistry st) of
        (sent, tsv) \<Rightarrow> st\<lparr>klRecords := AList.delete (fst p) (klRecords st), klRegistry := tsv, klSent := klSent st @ sent\<rparr>)"

record ikev2Files =
  kfUsage :: "string option"
  kfAccounting :: "string option"
  kfUsers :: "string option"
  kfRegistry :: sessionFile

text \<open>
  \<open>sas\<close>: the sessions that \<open>parseIKEv2SAs\<close> finds in the answer of \<open>swanctl\<close>, \<open>None\<close> without the program or when
  it fails. \<open>config\<close>: the callback and, of the first inbound of the configuration, the tag and whether it is
  accounted.
\<close>

definition ikev2Settings :: "(vpnSessionCallback option \<times> (string \<times> bool) option) option \<Rightarrow> vpnSessionCallback option \<times> string \<times> bool" where
  "ikev2Settings config =
     (case config of None \<Rightarrow> (None, ''ikev2'', True)
      | Some (callback, None) \<Rightarrow> (callback, ''ikev2'', True)
      | Some (callback, Some (inboundTag, accounting)) \<Rightarrow> (callback, inboundTag, accounting))"

definition collectIKEv2Live :: "vpnEnv \<Rightarrow> (vpnSessionCallback option \<times> (string \<times> bool) option) option \<Rightarrow> int \<Rightarrow> ikev2Session list option \<Rightarrow> ikev2Files
    \<Rightarrow> ikev2Live \<times> ikev2Files" where
  "collectIKEv2Live E config now sas F =
     (let us = readRemoteAccessUsers (kfUsers F);
          start = \<lparr>klRecords = readOVAccounting (kfAccounting F), klStats = [], klActive = [], klTerminated = [], klRegistry = kfRegistry F, klSent = []\<rparr>
      in if us = [] then (start, F)
         else case sas of None \<Rightarrow> (start, F)
           | Some sessions \<Rightarrow> (case ikev2Settings config of (callback, inboundTag, accounting) \<Rightarrow>
               let seen = fold (ikev2Step E callback inboundTag accounting now us) sessions start;
                   st = fold (ikev2Release E inboundTag) (klRecords seen) seen
               in (st, F\<lparr>kfAccounting := writeOVAccounting (veWrite E) (klRecords st) (kfAccounting F), kfRegistry := klRegistry st\<rparr>)))"

definition ikev2CollectUsage :: "vpnEnv \<Rightarrow> (string option \<Rightarrow> string option) \<Rightarrow> (vpnSessionCallback option \<times> (string \<times> bool) option) option \<Rightarrow> int \<Rightarrow> ikev2Session list option \<Rightarrow> ikev2Files
    \<Rightarrow> userStat list \<times> ikev2Live \<times> ikev2Files" where
  "ikev2CollectUsage E between config now sas F =
     (case collectIKEv2Live E config now sas F of (st, F') \<Rightarrow>
        let tag = (case config of Some (_, Some (inboundTag, _)) \<Rightarrow> inboundTag | _ \<Rightarrow> []);
            stats = usageFile (plainUsageLine ''ikev2:'') (kfUsage F') (klStats st)
        in (userUsageStats (addAll tag stats []), st, F'\<lparr>kfUsage := emptied (veWrite E) between (kfUsage F')\<rparr>))"

section \<open>Rows are read back\<close>

lemma trimmedRows_row:
  assumes "lineOk fs"
  shows "trimmedRows (row fs @ rest) = fs # trimmedRows rest"
proof -
  let ?l = "joinWith [tab] fs"
  have "newline \<notin> set ?l" using assms joinWith_set [of newline "[tab]" fs] by (auto simp: lineOk_def)
  then have "splitOn (row fs @ rest) [newline] = ?l # splitOn rest [newline]"
    using splitOn_append [of "[newline]" ?l rest] by (simp add: row_def textLine_def)
  moreover have "splitOn ?l [tab] = fs" using assms by (intro splitOn_joinWith) (auto simp: lineOk_def)
  ultimately show ?thesis using assms by (simp add: trimmedRows_def lineOk_def)
qed

lemma trimmedRows_Nil: "trimmedRows [] = [[[]]]"
  using splitOn_absent [of "[newline]" "[]"] splitOn_absent [of "[tab]" "[]"] by (simp add: trimmedRows_def)

lemma trimmedRows_rows: "(\<And>x. x \<in> set xs \<Longrightarrow> lineOk (f x)) \<Longrightarrow> trimmedRows (concat (map (\<lambda>x. row (f x)) xs)) = map f xs @ [[[]]]"
  by (induction xs) (simp_all add: trimmedRows_Nil trimmedRows_row)

text \<open>A field without tabs and line ends; a row that starts with a visible character and ends in a number is read back.\<close>

definition plainField :: "string \<Rightarrow> bool" where
  "plainField f \<longleftrightarrow> tab \<notin> set f \<and> newline \<notin> set f"

lemma plainField_format [simp]: "plainField (formatInt i)"
  using formatInt_graphic(1) [of tab i] formatInt_graphic(1) [of newline i] by (auto simp: plainField_def graphic_def)

lemma plainField_optInt [simp]: "plainField (optInt v)"
  by (simp add: optInt_def plainField_def [of "[]"] split: option.split)

lemma lineOk_row:
  assumes "f \<noteq> []" "graphic (hd f)" "\<forall>g \<in> set (f # fs). plainField g"
  shows "lineOk (f # fs @ [formatInt i])"
proof -
  let ?r = "f # fs @ [formatInt i]"
  have j: "last (joinWith [tab] ?r) = last (formatInt i)" "joinWith [tab] ?r \<noteq> []" "hd (joinWith [tab] ?r) = hd f"
    using assms(1) last_joinWith [of ?r "[tab]"] hd_joinWith [of ?r "[tab]"] formatInt_graphic(2) by simp_all
  then have "trimSpace (joinWith [tab] ?r) = joinWith [tab] ?r"
    using assms(2) formatInt_graphic(1) [OF last_in_set [OF formatInt_graphic(2)]] by (intro trimSpace_graphic) simp_all
  moreover have "\<forall>g \<in> set ?r. plainField g" using assms(3) by simp
  ultimately show ?thesis using j by (simp add: lineOk_def plainField_def)
qed

lemma fold_update_distinct:
  "distinct (map k xs @ map fst m) \<Longrightarrow> fold (\<lambda>x. AList.update (k x) (v x)) xs m = m @ map (\<lambda>x. (k x, v x)) xs"
proof (induction xs arbitrary: m)
  case (Cons x xs)
  then have "AList.update (k x) (v x) m = m @ [(k x, v x)]" by (intro update_new) auto
  with Cons show ?case by simp
qed simp

section \<open>The accounting file is read back\<close>

definition okRecord :: "string \<times> ovAccountingRecord \<Rightarrow> bool" where
  "okRecord p \<longleftrightarrow> fst p \<noteq> [] \<and> graphic (hd (fst p)) \<and> plainField (fst p) \<and> arUserID (snd p) \<noteq> [] \<and> plainField (arUserID (snd p))
     \<and> is_int64 (arTotal (snd p)) \<and> is_int64 (arBase (snd p))"

lemma accounting_read_write:
  assumes "gomap_wf records" and "\<forall>p \<in> set records. okRecord p"
  shows "readOVAccounting (Some (accountingText records)) = records"
proof -
  let ?f = "\<lambda>p :: string \<times> ovAccountingRecord. [fst p, arUserID (snd p), formatInt (arTotal (snd p)), formatInt (arBase (snd p))]"
  have ok: "lineOk (?f p)" if "p \<in> set records" for p
    using assms(2) that lineOk_row [of "fst p" "[arUserID (snd p), formatInt (arTotal (snd p))]" "arBase (snd p)"] by (auto simp: okRecord_def)
  have "filter (\<lambda>(session, r). session \<noteq> [] \<and> arUserID r \<noteq> []) records = records"
    using assms(2) by (auto simp: filter_id_conv okRecord_def)
  then have rows: "trimmedRows (accountingText records) = map ?f records @ [[[]]]"
    using trimmedRows_rows [of records ?f] ok by (simp add: accountingText_def accountingRow_def [abs_def])
  have step: "addAccounting (?f p) m = AList.update (fst p) (snd p) m" if "p \<in> set records" for p m
    using assms(2) that by (cases p, cases "snd p") (auto simp: okRecord_def addAccounting_def parseIntLax_formatInt)
  have "fold addAccounting (map ?f records) [] = fold (\<lambda>p. AList.update (fst p) (snd p)) records []"
    unfolding fold_map using step by (intro fold_cong) auto
  also have "\<dots> = records" using fold_update_distinct [of fst records "[]" snd] assms(1) by simp
  finally show ?thesis using rows by (simp add: readOVAccounting_def addAccounting_def)
qed

section \<open>The users are read back\<close>

definition okUser :: "vpnRuntimeUser \<Rightarrow> bool" where
  "okUser u \<longleftrightarrow> vuVPNUsername u \<noteq> [] \<and> plainField (vuVPNUsername u) \<and> plainField (vuPassword u) \<and> plainField (vuIPv4Address u)
     \<and> plainField (vuStatus u) \<and> is_int64 (vuUserID u) \<and> is_int64 (vuUsedTraffic u) \<and> pred_option is_int64 (vuDataLimit u)"

definition userSnapshot :: "vpnRuntimeUser \<Rightarrow> ovUserSnapshot" where
  "userSnapshot u = \<lparr>osUserID = formatInt (vuUserID u), osUsername = vuVPNUsername u, osUsedTraffic = vuUsedTraffic u,
     osDataLimit = (case vuDataLimit u of None \<Rightarrow> 0 | Some v \<Rightarrow> v)\<rparr>"

lemma parseIntLax_optInt: "pred_option is_int64 v \<Longrightarrow> parseIntLax (optInt v) = (case v of None \<Rightarrow> 0 | Some i \<Rightarrow> i)"
  by (auto simp: optInt_def parseIntLax_formatInt parseIntLax_def [of "[]"] split: option.split)

lemma users_read_write:
  assumes "distinct (map vuVPNUsername us)" and "\<forall>u \<in> set us. okUser u"
  shows "readOVUsers (Some (vpnUsersTSV us)) = map (\<lambda>u. (vuVPNUsername u, userSnapshot u)) us"
proof -
  let ?f = "\<lambda>u. [formatInt (vuUserID u), vuVPNUsername u, vuPassword u, vuIPv4Address u,
     formatInt (vuUsedTraffic u), optInt (vuDataLimit u), vuStatus u, optInt (vuExpire u), formatInt (vuDeviceLimit u)]"
  have ok: "lineOk (?f u)" if "u \<in> set us" for u
    using assms(2) that formatInt_graphic(1) [OF hd_in_set [OF formatInt_graphic(2)]] formatInt_graphic(2)
      lineOk_row [of "formatInt (vuUserID u)" "[vuVPNUsername u, vuPassword u, vuIPv4Address u,
        formatInt (vuUsedTraffic u), optInt (vuDataLimit u), vuStatus u, optInt (vuExpire u)]" "vuDeviceLimit u"] by (auto simp: okUser_def)
  have rows: "trimmedRows (vpnUsersTSV us) = map ?f us @ [[[]]]"
    using trimmedRows_rows [of us ?f] ok by (simp add: vpnUsersTSV_def)
  have step: "addSnapshot (?f u) m = AList.update (vuVPNUsername u) (userSnapshot u) m" if "u \<in> set us" for u m
    using assms(2) that formatInt_graphic(2) by (auto simp: okUser_def addSnapshot_def userSnapshot_def parseIntLax_formatInt parseIntLax_optInt)
  have "fold addSnapshot (map ?f us) [] = fold (\<lambda>u. AList.update (vuVPNUsername u) (userSnapshot u)) us []"
    unfolding fold_map using step by (intro fold_cong) auto
  then show ?thesis using rows fold_update_distinct [of vuVPNUsername us "[]" userSnapshot] assms(1) by (simp add: readOVUsers_def addSnapshot_def)
qed

section \<open>Meters\<close>

text \<open>
  What the collections share. A session shows a running total of bytes; the state remembers the last total of each
  session and has counted bytes for each key. A collection goes through the sessions; one that is not seen changes
  nothing. The key is charged with what the total grew by.
\<close>

locale meter =
  fixes step :: "'s \<Rightarrow> 'st \<Rightarrow> 'st"
    and seen :: "'s \<Rightarrow> bool"
    and ident :: "'s \<Rightarrow> 'i"
    and charged :: "'s \<Rightarrow> 'st \<Rightarrow> 'k"
    and shown :: "'s \<Rightarrow> int"
    and recorded :: "'st \<Rightarrow> 'i \<Rightarrow> int"
    and counted :: "'st \<Rightarrow> 'k \<Rightarrow> int"
  assumes unseen: "\<not> seen s \<Longrightarrow> recorded (step s st) = recorded st \<and> counted (step s st) = counted st"
    and recorded_step: "seen s \<Longrightarrow> 0 \<le> shown s \<Longrightarrow> recorded (step s st) i = (if i = ident s then shown s else recorded st i)"
    and counted_step: "\<lbrakk>seen s; 0 \<le> shown s; 0 \<le> recorded st (ident s); 0 \<le> counted st (charged s st); counted st (charged s st) + shown s \<le> max_int64\<rbrakk>
      \<Longrightarrow> counted (step s st) k = counted st k + (if k = charged s st then max 0 (shown s - recorded st (ident s)) else 0)"
begin

text \<open>No total falls, and the sessions in \<open>I\<close> are those charged to \<open>k\<close>.\<close>

primrec grows :: "'i set \<Rightarrow> 'k \<Rightarrow> 's list \<Rightarrow> 'st \<Rightarrow> bool" where
  "grows I k [] st = True"
| "grows I k (s # ss) st = ((seen s \<longrightarrow> recorded st (ident s) \<le> shown s \<and> (charged s st = k \<longleftrightarrow> ident s \<in> I)) \<and> grows I k ss (step s st))"

lemma sum_recorded:
  assumes "finite I" and "seen s" and "0 \<le> shown s"
  shows "sum (recorded (step s st)) I = sum (recorded st) I + (if ident s \<in> I then shown s - recorded st (ident s) else 0)"
proof (cases "ident s \<in> I")
  case True
  then show ?thesis using assms sum.remove [OF assms(1) True, of "recorded st"] sum.remove [OF assms(1) True, of "recorded (step s st)"]
    by (simp add: recorded_step)
next
  case False
  then have "sum (recorded (step s st)) I = sum (recorded st) I"
    using assms by (intro sum.cong) (auto simp: recorded_step)
  with False show ?thesis by simp
qed

lemma conserved:
  assumes "finite I"
  shows "\<lbrakk>grows I k ss st; \<And>s. s \<in> set ss \<Longrightarrow> 0 \<le> shown s; \<And>i. 0 \<le> recorded st i; \<And>k. 0 \<le> counted st k;
    \<And>k. counted st k + sum_list (map shown ss) \<le> max_int64\<rbrakk>
   \<Longrightarrow> counted (fold step ss st) k = counted st k + sum (recorded (fold step ss st)) I - sum (recorded st) I
     \<and> (\<forall>i. 0 \<le> recorded (fold step ss st) i)"
proof (induction ss arbitrary: st)
  case (Cons s ss)
  have nonneg: "0 \<le> shown s" "0 \<le> sum_list (map shown ss)" using Cons.prems(2) by (auto intro!: sum_list_nonneg)
  have room: "counted st k + shown s \<le> max_int64" for k using Cons.prems(5) [of k] nonneg by simp
  show ?case
  proof (cases "seen s")
    case False
    with Cons.prems(1) have "grows I k ss (step s st)" by simp
    moreover have "counted (step s st) k + sum_list (map shown ss) \<le> max_int64" for k
      using unseen [OF False, of st] Cons.prems(5) [of k] nonneg by simp
    ultimately show ?thesis using Cons.IH [of "step s st"] Cons.prems(2,3,4) unseen [OF False, of st] by simp
  next
    case True
    have rec: "recorded (step s st) i = (if i = ident s then shown s else recorded st i)" for i using recorded_step [OF True nonneg(1)] .
    have cnt: "counted (step s st) k' = counted st k' + (if k' = charged s st then max 0 (shown s - recorded st (ident s)) else 0)" for k'
      using counted_step [OF True nonneg(1) Cons.prems(3) Cons.prems(4)] room by blast
    have "grows I k ss (step s st)" using Cons.prems(1) by simp
    moreover have "0 \<le> recorded (step s st) i" for i using rec nonneg Cons.prems(3) by simp
    moreover have "0 \<le> counted (step s st) k'" for k' using cnt Cons.prems(4) by simp
    moreover have "counted (step s st) k' + sum_list (map shown ss) \<le> max_int64" for k'
      using cnt [of k'] Cons.prems(5) [of k'] Cons.prems(3) [of "ident s"] nonneg by (auto simp: max_def split: if_splits)
    ultimately have IH: "counted (fold step ss (step s st)) k = counted (step s st) k + sum (recorded (fold step ss (step s st))) I - sum (recorded (step s st)) I
      \<and> (\<forall>i. 0 \<le> recorded (fold step ss (step s st)) i)"
      using Cons.IH [of "step s st"] Cons.prems(2) by simp
    have "recorded st (ident s) \<le> shown s \<and> (charged s st = k \<longleftrightarrow> ident s \<in> I)" using Cons.prems(1) True by simp
    then have "counted (step s st) k - counted st k = sum (recorded (step s st)) I - sum (recorded st) I"
      using cnt [of k] sum_recorded [OF assms True nonneg(1), of st] by auto
    with IH show ?thesis by simp
  qed
qed simp

text \<open>Each session is shown once, and its key does not depend on the state.\<close>

lemma grows_once:
  "\<lbrakk>distinct (map ident (filter seen ss));
    \<And>s st. s \<in> set ss \<Longrightarrow> charged s st = key s;
    \<And>s. s \<in> set ss \<Longrightarrow> seen s \<Longrightarrow> 0 \<le> shown s \<and> recorded st (ident s) \<le> shown s \<and> (key s = k \<longleftrightarrow> ident s \<in> I)\<rbrakk> \<Longrightarrow> grows I k ss st"
proof (induction ss arbitrary: st)
  case (Cons s ss)
  have "recorded (step s st) (ident s') = recorded st (ident s')" if "s' \<in> set ss" "seen s'" for s'
  proof (cases "seen s")
    case True
    then have "ident s' \<noteq> ident s" using that Cons.prems(1) by (auto simp: image_iff)
    then show ?thesis using recorded_step [OF True, of st] Cons.prems(3) [of s] True by simp
  qed (use unseen in simp)
  then have "grows I k ss (step s st)" using Cons.prems by (intro Cons.IH) (auto split: if_splits)
  then show ?case using Cons.prems(2,3) [of s] by simp
qed simp

lemma recorded_once:
  "\<lbrakk>distinct (map ident (filter seen ss)); \<And>s. s \<in> set ss \<Longrightarrow> 0 \<le> shown s; s \<in> set ss; seen s\<rbrakk> \<Longrightarrow> recorded (fold step ss st) (ident s) = shown s"
proof (induction ss arbitrary: st rule: rev_induct)
  case (snoc s' ss)
  have "ident s \<noteq> ident s'" if "s \<in> set ss" "seen s'" using that snoc.prems(1,4) by (auto simp: image_iff)
  with snoc show ?case
    using recorded_step [of s' "fold step ss st" "ident s"] unseen [of s' "fold step ss st"] by (cases "seen s'") auto
qed simp

end

section \<open>The meters of the protocols\<close>

definition accountedTotal :: "accounting \<Rightarrow> string \<Rightarrow> int" where
  "accountedTotal records sid = arTotal (mget noRecord records sid)"

lemma int64_grown: "0 \<le> a \<Longrightarrow> a < b \<Longrightarrow> b \<le> max_int64 \<Longrightarrow> int64 (b - a) = b - a"
  by (rule int64_id) (simp add: is_int64_def)

lemma addUserUsage_counted:
  "\<lbrakk>uid \<noteq> []; 0 < v; 0 \<le> mget 0 totals (uid, tg); mget 0 totals (uid, tg) + v \<le> max_int64\<rbrakk>
   \<Longrightarrow> mget 0 (addUserUsage totals uid tg v) k = mget 0 totals k + (if k = (uid, tg) then v else 0)"
  by (simp add: addUserUsage_def satAdd_def)

lemma addStat_counted:
  "\<lbrakk>0 \<le> mget 0 stats uid; 0 \<le> v; mget 0 stats uid + v \<le> max_int64\<rbrakk> \<Longrightarrow> mget 0 (addStat uid v stats) k = mget 0 stats k + (if k = uid then v else 0)"
  by (simp add: addStat_def int64_id is_int64_def)

text \<open>A session of OpenVPN with the directory it is in and the tag that is charged.\<close>

type_synonym ovSeen = "string \<times> string \<times> ovLiveSession"

definition ovSeenStep :: "ovSeen \<Rightarrow> ovLive \<Rightarrow> ovLive" where
  "ovSeenStep x st = (if is_int64 (lvTotal (snd (snd x))) then ovLiveStep (fst x) (fst (snd x)) (snd (snd x)) st else st)"

definition ovKey :: "ovSeen \<Rightarrow> string \<times> string" where
  "ovKey x = (''openvpn:'' @ lvUserID (snd (snd x)), fst (snd x))"

definition ovShown :: "ovSeen \<Rightarrow> int" where
  "ovShown x = lvTotal (snd (snd x))"

definition ovIdent :: "ovSeen \<Rightarrow> string" where
  "ovIdent x = lvSessionID (snd (snd x))"

interpretation ov: meter ovSeenStep "\<lambda>x. is_int64 (ovShown x)" ovIdent "\<lambda>x st. ovKey x" ovShown
  "\<lambda>st. accountedTotal (fst st)" "\<lambda>st. mget 0 (fst (snd st))"
proof
  fix x :: ovSeen and st :: ovLive and i k
  obtain folder tg s where x: "x = (folder, tg, s)" by (cases x)
  obtain records stats killed where st: "st = (records, stats, killed)" by (cases st)
  show "\<not> is_int64 (ovShown x) \<Longrightarrow> accountedTotal (fst (ovSeenStep x st)) = accountedTotal (fst st) \<and> mget 0 (fst (snd (ovSeenStep x st))) = mget 0 (fst (snd st))"
    by (simp add: ovSeenStep_def ovShown_def)
  show "is_int64 (ovShown x) \<Longrightarrow> accountedTotal (fst (ovSeenStep x st)) i = (if i = ovIdent x then ovShown x else accountedTotal (fst st) i)"
    by (simp add: ovSeenStep_def ovShown_def ovIdent_def ovLiveStep_def x st Let_def accountedTotal_def)
  assume *: "is_int64 (ovShown x)" "0 \<le> ovShown x" "0 \<le> accountedTotal (fst st) (ovIdent x)" "0 \<le> mget 0 (fst (snd st)) (ovKey x)"
    "mget 0 (fst (snd st)) (ovKey x) + ovShown x \<le> max_int64"
  let ?a = "accountedTotal records (lvSessionID s)"
  have "mget 0 (fst (snd (ovSeenStep x st))) k =
    mget 0 (if ?a < lvTotal s then addUserUsage stats (''openvpn:'' @ lvUserID s) tg (int64 (lvTotal s - ?a)) else stats) k"
    using * by (simp add: ovSeenStep_def ovShown_def ovLiveStep_def x st Let_def accountedTotal_def)
  then show "mget 0 (fst (snd (ovSeenStep x st))) k = mget 0 (fst (snd st)) k + (if k = ovKey x then max 0 (ovShown x - accountedTotal (fst st) (ovIdent x)) else 0)"
    using * by (simp add: x st ovShown_def ovIdent_def ovKey_def int64_grown addUserUsage_counted is_int64_def)
qed

text \<open>PPP: a session without a user of the file or without bytes is not seen.\<close>

definition pppShown :: "(string \<Rightarrow> string option) \<Rightarrow> pppSessionSnapshot \<Rightarrow> int" where
  "pppShown net s = (case pppInterfaceBytes net (psIFName s) of None \<Rightarrow> 0 | Some v \<Rightarrow> max 0 v)"

definition pppSeen :: "(string \<Rightarrow> string option) \<Rightarrow> (string, ovUserSnapshot) gomap \<Rightarrow> pppSessionSnapshot \<Rightarrow> bool" where
  "pppSeen net us s \<longleftrightarrow> map_of us (psUsername s) \<noteq> None \<and> 0 < pppShown net s"

definition pppKey :: "string \<Rightarrow> (string, ovUserSnapshot) gomap \<Rightarrow> pppSessionSnapshot \<Rightarrow> string" where
  "pppKey protocol us s = protocol @ '':'' @ (case map_of us (psUsername s) of None \<Rightarrow> [] | Some u \<Rightarrow> osUserID u)"

definition pppIdent :: "string \<Rightarrow> pppSessionSnapshot \<Rightarrow> string" where
  "pppIdent protocol s = pppSessionID protocol (psPID s) (psIFName s) (psUsername s)"

lemma pppLiveStep_seen:
  assumes "map_of us (psUsername s) = Some u" and "pppInterfaceBytes net (psIFName s) = Some v" and "0 < v"
  shows "pppLiveStep net protocol us s st =
    (let r = mget noRecord (fst st) (pppIdent protocol s);
         r = (if arUserID r = [] then r\<lparr>arUserID := osUserID u\<rparr> else r);
         r = (if arBase r \<le> 0 then r\<lparr>arBase := osUsedTraffic u\<rparr> else r)
     in (AList.update (pppIdent protocol s) (r\<lparr>arTotal := v\<rparr>) (fst st),
         if arTotal r < v then addStat (protocol @ '':'' @ osUserID u) (int64 (v - arTotal r)) (fst (snd st)) else fst (snd st),
         fst (snd (snd st)) @ [pppIdent protocol s],
         if 0 < osDataLimit u \<and> osDataLimit u \<le> int64 (arBase (r\<lparr>arTotal := v\<rparr>) + v) then snd (snd (snd st)) @ [s] else snd (snd (snd st))))"
proof -
  obtain records stats active killed where st: "st = (records, stats, active, killed)" by (cases st)
  have "\<not> v \<le> 0" using assms(3) by simp
  then show ?thesis by (simp only: st pppLiveStep_def assms(1,2) Let_def pppIdent_def prod.case option.case if_False fst_conv snd_conv)
qed

lemma pppLiveStep_unseen: "\<not> pppSeen net us s \<Longrightarrow> pppLiveStep net protocol us s st = st"
  by (auto simp: pppLiveStep_def pppSeen_def pppShown_def split: option.splits)

interpretation ppp: meter "pppLiveStep net protocol us" "pppSeen net us" "pppIdent protocol" "\<lambda>s st. pppKey protocol us s" "pppShown net"
  "\<lambda>st. accountedTotal (fst st)" "\<lambda>st. mget 0 (fst (snd st))" for net protocol us
proof
  fix s :: pppSessionSnapshot and st :: pppLive and i k
  show "\<not> pppSeen net us s \<Longrightarrow> accountedTotal (fst (pppLiveStep net protocol us s st)) = accountedTotal (fst st)
      \<and> mget 0 (fst (snd (pppLiveStep net protocol us s st))) = mget 0 (fst (snd st))"
    by (simp add: pppLiveStep_unseen)
next
  fix s :: pppSessionSnapshot and st :: pppLive and i
  assume "pppSeen net us s"
  then obtain u v where uv: "map_of us (psUsername s) = Some u" "pppInterfaceBytes net (psIFName s) = Some v" "0 < v"
    by (auto simp: pppSeen_def pppShown_def split: option.splits)
  then show "accountedTotal (fst (pppLiveStep net protocol us s st)) i = (if i = pppIdent protocol s then pppShown net s else accountedTotal (fst st) i)"
    by (simp add: pppLiveStep_seen Let_def accountedTotal_def pppShown_def)
next
  fix s :: pppSessionSnapshot and st :: pppLive and k
  assume *: "pppSeen net us s" "0 \<le> accountedTotal (fst st) (pppIdent protocol s)" "0 \<le> mget 0 (fst (snd st)) (pppKey protocol us s)"
    "mget 0 (fst (snd st)) (pppKey protocol us s) + pppShown net s \<le> max_int64"
  then obtain u v where uv: "map_of us (psUsername s) = Some u" "pppInterfaceBytes net (psIFName s) = Some v" "0 < v"
    by (auto simp: pppSeen_def pppShown_def split: option.splits)
  have "arTotal (mget noRecord (fst st) (pppIdent protocol s)) = accountedTotal (fst st) (pppIdent protocol s)" by (simp add: accountedTotal_def)
  with uv * show "mget 0 (fst (snd (pppLiveStep net protocol us s st))) k
      = mget 0 (fst (snd st)) k + (if k = pppKey protocol us s then max 0 (pppShown net s - accountedTotal (fst st) (pppIdent protocol s)) else 0)"
    by (simp add: pppLiveStep_seen Let_def pppShown_def pppKey_def int64_grown addStat_counted)
qed

text \<open>IKEv2: a session of an unknown user is terminated and not accounted; the others are charged to the user of the record.\<close>

definition ikev2Owner :: "(string, remoteAccessUserSnapshot) gomap \<Rightarrow> ikev2Session \<Rightarrow> ikev2Live \<Rightarrow> string" where
  "ikev2Owner us s st = ''ikev2:'' @
     (let r = mget noRecord (klRecords st) (ikID s) in
      if arUserID r = [] then (case map_of us (ikUsername s) of None \<Rightarrow> [] | Some u \<Rightarrow> formatInt (raUserID u)) else arUserID r)"

lemma ikev2Check_keeps [simp]:
  "klRecords (ikev2Check E callback tag now user existed r s st) = klRecords st"
  "klStats (ikev2Check E callback tag now user existed r s st) = klStats st"
  "klActive (ikev2Check E callback tag now user existed r s st) = klActive st"
  by (simp_all add: ikev2Check_def Let_def split: prod.split bool.split)

lemma ikev2Step_seen:
  assumes "map_of us (ikUsername s) = Some u"
  shows "\<exists>r. klRecords (ikev2Step E callback tag True now us s st) = AList.update (ikID s) r (klRecords st) \<and> arTotal r = ikBytes s
    \<and> klStats (ikev2Step E callback tag True now us s st) =
      (let a = accountedTotal (klRecords st) (ikID s) in if a < ikBytes s then addStat (ikev2Owner us s st) (int64 (ikBytes s - a)) (klStats st) else klStats st)"
  using assms by (auto simp: ikev2Step_def Let_def ikev2Owner_def accountedTotal_def noRecord_def)

interpretation ike: meter "ikev2Step E callback tag True now us" "\<lambda>s. map_of us (ikUsername s) \<noteq> None" ikID "ikev2Owner us" ikBytes
  "\<lambda>st. accountedTotal (klRecords st)" "\<lambda>st. mget 0 (klStats st)" for E callback tag now us
proof
  fix s :: ikev2Session and st :: ikev2Live
  show "\<not> map_of us (ikUsername s) \<noteq> None \<Longrightarrow> accountedTotal (klRecords (ikev2Step E callback tag True now us s st)) = accountedTotal (klRecords st)
      \<and> mget 0 (klStats (ikev2Step E callback tag True now us s st)) = mget 0 (klStats st)"
    by (simp add: ikev2Step_def)
next
  fix s :: ikev2Session and st :: ikev2Live and i
  assume "map_of us (ikUsername s) \<noteq> None"
  then obtain u where "map_of us (ikUsername s) = Some u" by blast
  from ikev2Step_seen [OF this, of E callback tag now st]
  show "accountedTotal (klRecords (ikev2Step E callback tag True now us s st)) i = (if i = ikID s then ikBytes s else accountedTotal (klRecords st) i)"
    by (auto simp: accountedTotal_def)
next
  fix s :: ikev2Session and st :: ikev2Live and k
  assume *: "map_of us (ikUsername s) \<noteq> None" "0 \<le> ikBytes s" "0 \<le> accountedTotal (klRecords st) (ikID s)" "0 \<le> mget 0 (klStats st) (ikev2Owner us s st)"
    "mget 0 (klStats st) (ikev2Owner us s st) + ikBytes s \<le> max_int64"
  then obtain u where "map_of us (ikUsername s) = Some u" by blast
  from ikev2Step_seen [OF this, of E callback tag now st] *
  show "mget 0 (klStats (ikev2Step E callback tag True now us s st)) k
      = mget 0 (klStats st) k + (if k = ikev2Owner us s st then max 0 (ikBytes s - accountedTotal (klRecords st) (ikID s)) else 0)"
    by (auto simp: Let_def int64_grown addStat_counted)
qed

section \<open>Collections of OpenVPN\<close>

definition ovSessions :: "string list \<Rightarrow> ovDir list \<Rightarrow> ovSeen list" where
  "ovSessions tags dirs = concat (map (\<lambda>d. map (\<lambda>s. (odName d, mget [] (tagByDir tags) (odName d), s))
     (readOVStatus (odStatus d) (readOVUsers (odUsers d)))) dirs)"

text \<open>What a session that was read from the status file is like.\<close>

definition okSession :: "ovLiveSession \<Rightarrow> bool" where
  "okSession s \<longleftrightarrow> lvSessionID s \<noteq> [] \<and> graphic (hd (lvSessionID s)) \<and> plainField (lvSessionID s) \<and> lvUserID s \<noteq> [] \<and> plainField (lvUserID s)
     \<and> 0 < lvTotal s \<and> is_int64 (lvTotal s) \<and> is_int64 (lvBase s)"

lemma trimmedRows_plain: "fs \<in> set (trimmedRows raw) \<Longrightarrow> f \<in> set fs \<Longrightarrow> plainField f"
proof -
  assume "fs \<in> set (trimmedRows raw)" and f: "f \<in> set fs"
  then obtain l where l: "l \<in> set (splitOn raw [newline])" "fs = splitOn (trimSpace l) [tab]" by (auto simp: trimmedRows_def)
  then show "plainField f" using splitOn_fields [OF l(1)] trimSpace_set [of l] set_splitOn [of f "trimSpace l" "[tab]"] splitOn_fields [of f "trimSpace l" tab] f
    by (auto simp: plainField_def)
qed

definition okSnapshot :: "ovUserSnapshot \<Rightarrow> bool" where
  "okSnapshot u \<longleftrightarrow> osUserID u \<noteq> [] \<and> plainField (osUserID u) \<and> is_int64 (osUsedTraffic u)"

lemma addSnapshot_ok:
  assumes "\<forall>p \<in> set m. okSnapshot (snd p)" and "\<forall>f \<in> set ps. plainField f"
  shows "\<forall>p \<in> set (addSnapshot ps m). okSnapshot (snd p)"
proof (cases "length ps < 6 \<or> ps ! 0 = [] \<or> ps ! 1 = []")
  case True
  then have "addSnapshot ps m = m" unfolding addSnapshot_def by (rule if_P)
  with assms(1) show ?thesis by simp
next
  case False
  let ?u = "\<lparr>osUserID = ps ! 0, osUsername = ps ! 1, osUsedTraffic = parseIntLax (ps ! 4), osDataLimit = parseIntLax (ps ! 5)\<rparr>"
  from False have "addSnapshot ps m = AList.update (ps ! 1) ?u m" unfolding addSnapshot_def by (rule if_not_P)
  moreover have "okSnapshot ?u" using False assms(2) by (cases ps) (auto simp: okSnapshot_def is_int64_parseIntLax)
  ultimately show ?thesis using assms(1) by (auto dest!: update_in_set)
qed

lemma readOVUsers_ok: "p \<in> set (readOVUsers tsv) \<Longrightarrow> okSnapshot (snd p)"
proof -
  have fold_ok: "\<forall>p \<in> set (fold addSnapshot rs m). okSnapshot (snd p)" if "\<forall>p \<in> set m. okSnapshot (snd p)" "\<forall>ps \<in> set rs. \<forall>f \<in> set ps. plainField f" for rs m
    using that
  proof (induction rs arbitrary: m)
    case (Cons ps rs)
    then show ?case using addSnapshot_ok [of m ps] by simp
  qed simp
  have "\<forall>p \<in> set (fold addSnapshot (trimmedRows raw) []). okSnapshot (snd p)" for raw
    by (rule fold_ok) (simp, use trimmedRows_plain in blast)
  then have "\<forall>p \<in> set (readOVUsers tsv). okSnapshot (snd p)" by (cases tsv) (simp_all add: readOVUsers_def)
  then show "p \<in> set (readOVUsers tsv) \<Longrightarrow> okSnapshot (snd p)" by blast
qed

lemma safeName_visible: "safeName v \<noteq> [] \<and> graphic (hd (safeName v)) \<and> plainField (safeName v)"
proof -
  have ne: "safeName v \<noteq> []" by (simp add: safeName_def Let_def)
  have "graphic c" if "c \<in> set (safeName v)" for c using safeName_set [OF that] by (auto simp: alphaNum_def graphic_def Let_def)
  then show ?thesis using ne safeName_plain by (simp add: plainField_def)
qed

lemma ovSessions_ok: "x \<in> set (ovSessions tags dirs) \<Longrightarrow> okSession (snd (snd x))"
proof -
  have "okSession s" if "statusSession (readOVUsers tsv) r = Some s" for tsv r s
    using that readOVUsers_ok safeName_visible
    by (fastforce simp: statusSession_def Let_def okSession_def okSnapshot_def is_int64_int64 split: if_splits option.splits prod.splits dest!: map_of_SomeD)
  then show "x \<in> set (ovSessions tags dirs) \<Longrightarrow> okSession (snd (snd x))"
    by (auto simp: ovSessions_def readOVStatus_def List.map_filter_def split: option.splits)
qed

lemma fold_concat: "fold f (concat xss) st = fold (fold f) xss st"
  by (induction xss arbitrary: st) simp_all

lemma fold_ovLiveDir: "fold (ovLiveDir (tagByDir tags)) dirs st = fold ovSeenStep (ovSessions tags dirs) st"
proof -
  have dir: "ovLiveDir (tagByDir tags) d st = fold ovSeenStep (map (\<lambda>s. (odName d, mget [] (tagByDir tags) (odName d), s)) (readOVStatus (odStatus d) (readOVUsers (odUsers d)))) st"
    if "d \<in> set dirs" for d st
  proof -
    have "is_int64 (lvTotal s)" if "s \<in> set (readOVStatus (odStatus d) (readOVUsers (odUsers d)))" for s
      using ovSessions_ok [of "(odName d, mget [] (tagByDir tags) (odName d), s)" tags dirs] that \<open>d \<in> set dirs\<close> by (auto simp: ovSessions_def okSession_def)
    then show ?thesis unfolding ovLiveDir_def fold_map by (intro fold_cong) (auto simp: ovSeenStep_def)
  qed
  show ?thesis unfolding ovSessions_def fold_concat fold_map by (rule fold_cong) (auto simp: dir)
qed

definition okRecords :: "accounting \<Rightarrow> bool" where
  "okRecords m \<longleftrightarrow> gomap_wf m \<and> (\<forall>p \<in> set m. okRecord p)"

lemma okRecords_step:
  assumes "okSession (snd (snd x))" and "okRecords (fst st)"
  shows "okRecords (fst (ovSeenStep x st))"
proof -
  obtain folder tg s where x: "x = (folder, tg, s)" by (cases x)
  obtain records stats killed where st: "st = (records, stats, killed)" by (cases st)
  have "is_int64 (arBase (mget noRecord records i)) \<and> plainField (arUserID (mget noRecord records i))" for i
    using assms(2) map_of_SomeD [of records i] by (force simp: okRecords_def st mget_def noRecord_def okRecord_def plainField_def split: option.split)
  then show ?thesis using assms
    by (auto simp: okRecords_def x st ovSeenStep_def ovLiveStep_def Let_def okRecord_def okSession_def dest!: update_in_set)
qed

lemma okRecords_fold: "\<lbrakk>\<And>x. x \<in> set xs \<Longrightarrow> okSession (snd (snd x)); okRecords (fst st)\<rbrakk> \<Longrightarrow> okRecords (fst (fold ovSeenStep xs st))"
  by (induction xs arbitrary: st) (simp_all add: okRecords_step)

lemma mget_in: "gomap_wf m \<Longrightarrow> p \<in> set m \<Longrightarrow> mget z m (fst p) = snd p"
  by (cases p) (simp add: mget_def)

text \<open>What the file says of a session, and one collection when the writes succeed.\<close>

definition fileTotal :: "string option \<Rightarrow> string \<Rightarrow> int" where
  "fileTotal tsv sid = accountedTotal (readOVAccounting tsv) sid"

lemma gomap_wf_readOVAccounting: "gomap_wf (readOVAccounting tsv)"
proof -
  have "gomap_wf (fold addAccounting rs m)" if "gomap_wf m" for rs m
    using that by (induction rs arbitrary: m) (simp_all add: addAccounting_def)
  then show ?thesis by (simp add: readOVAccounting_def split: option.split)
qed

definition okFile :: "string option \<Rightarrow> bool" where
  "okFile tsv \<longleftrightarrow> (\<forall>p \<in> set (readOVAccounting tsv). okRecord p \<and> 0 \<le> arTotal (snd p))"

lemma okFile_records: "okFile tsv \<Longrightarrow> okRecords (readOVAccounting tsv)"
  by (simp add: okFile_def okRecords_def gomap_wf_readOVAccounting)

lemma okFile_total: "okFile tsv \<Longrightarrow> 0 \<le> fileTotal tsv sid"
  using map_of_SomeD [of "readOVAccounting tsv" sid] by (force simp: okFile_def fileTotal_def accountedTotal_def mget_def noRecord_def split: option.split)

lemma collect_total:
  fixes tags :: "string list" and dirs :: "ovDir list"
  assumes w: "write = (\<lambda>new _. Some new)" and ok: "okFile tsv"
  defines "ss \<equiv> ovSessions tags dirs"
  defines "st \<equiv> fold ovSeenStep ss (readOVAccounting tsv, [], [])"
  shows "collectLiveUsageLocked write True tags dirs (tsv, []) = (Some (accountingText (fst st)), fst (snd st), snd (snd st))"
    and "readOVAccounting (Some (accountingText (fst st))) = fst st"
proof -
  show "collectLiveUsageLocked write True tags dirs (tsv, []) = (Some (accountingText (fst st)), fst (snd st), snd (snd st))"
    by (simp add: collectLiveUsageLocked_def fold_ovLiveDir writeOVAccounting_def w st_def ss_def split: prod.split)
  have "okRecords (fst st)"
    unfolding st_def ss_def using ovSessions_ok okFile_records [OF ok] by (intro okRecords_fold) simp_all
  then show "readOVAccounting (Some (accountingText (fst st))) = fst st" by (intro accounting_read_write) (simp_all add: okRecords_def)
qed

text \<open>No total falls, and the sessions in \<open>I\<close> are those charged to \<open>k\<close>.\<close>

definition ovGrowing :: "string set \<Rightarrow> string \<times> string \<Rightarrow> string list \<Rightarrow> ovDir list \<Rightarrow> string option \<Rightarrow> bool" where
  "ovGrowing I k tags dirs tsv =
     (let ss = ovSessions tags dirs in distinct (map ovIdent ss) \<and> sum_list (map ovShown ss) \<le> max_int64
        \<and> (\<forall>x \<in> set ss. fileTotal tsv (ovIdent x) \<le> ovShown x \<and> (ovKey x = k \<longleftrightarrow> ovIdent x \<in> I)))"

lemma collect_grows:
  assumes w: "write = (\<lambda>new _. Some new)" and ok: "okFile tsv" and I: "finite I" and g: "ovGrowing I k tags dirs tsv"
  shows "\<exists>tsv' stats killed. collectLiveUsageLocked write True tags dirs (tsv, []) = (tsv', stats, killed) \<and> okFile tsv'
    \<and> mget 0 stats k = sum (fileTotal tsv') I - sum (fileTotal tsv) I"
proof -
  let ?ss = "ovSessions tags dirs" and ?init = "(readOVAccounting tsv, [], []) :: ovLive"
  let ?st = "fold ovSeenStep ?ss ?init"
  have ss: "is_int64 (ovShown x) \<and> 0 \<le> ovShown x" if "x \<in> set ?ss" for x using ovSessions_ok [OF that] by (simp add: okSession_def ovShown_def)
  have nonneg: "0 \<le> accountedTotal (readOVAccounting tsv) i" for i using okFile_total [OF ok] by (simp add: fileTotal_def)
  have "filter (\<lambda>x. is_int64 (ovShown x)) ?ss = ?ss" using ss by (simp add: filter_id_conv)
  moreover have g': "distinct (map ovIdent ?ss)" "sum_list (map ovShown ?ss) \<le> max_int64"
    "\<And>x. x \<in> set ?ss \<Longrightarrow> fileTotal tsv (ovIdent x) \<le> ovShown x \<and> (ovKey x = k \<longleftrightarrow> ovIdent x \<in> I)"
    using g by (simp_all add: ovGrowing_def Let_def)
  ultimately have grows: "ov.grows I k ?ss ?init" using ss by (intro ov.grows_once [where key = ovKey]) (simp_all add: fileTotal_def)
  have c: "mget 0 (fst (snd ?st)) k = sum (accountedTotal (fst ?st)) I - sum (accountedTotal (readOVAccounting tsv)) I
      \<and> (\<forall>i. 0 \<le> accountedTotal (fst ?st) i)"
    using ov.conserved [OF I grows] ss nonneg g'(2) by simp
  have ok': "okRecords (fst ?st)" using ovSessions_ok okFile_records [OF ok] by (intro okRecords_fold) simp_all
  then have "0 \<le> arTotal (snd p)" if "p \<in> set (fst ?st)" for p
    using c that mget_in [of "fst ?st" p noRecord] unfolding okRecords_def accountedTotal_def by metis
  with ok' have "okFile (Some (accountingText (fst ?st)))" using collect_total(2) [OF w ok, of tags dirs] by (simp add: okFile_def okRecords_def)
  moreover have "sum (fileTotal tsv) I = sum (accountedTotal (readOVAccounting tsv)) I"
    "sum (fileTotal (Some (accountingText (fst ?st)))) I = sum (accountedTotal (fst ?st)) I"
    using collect_total(2) [OF w ok, of tags dirs] by (simp_all add: fileTotal_def)
  ultimately show ?thesis using c collect_total(1) [OF w ok, of tags dirs]
    by (intro exI [of _ "Some (accountingText (fst ?st))"] exI [of _ "fst (snd ?st)"] exI [of _ "snd (snd ?st)"] conjI) simp_all
qed

text \<open>A sequence of collections: the sum of what they report for a key, and the file at the end.\<close>

primrec ovCollections :: "(string \<Rightarrow> string option \<Rightarrow> string option) \<Rightarrow> string \<times> string \<Rightarrow> (string list \<times> ovDir list) list \<Rightarrow> string option \<Rightarrow> int \<times> string option" where
  "ovCollections write k [] tsv = (0, tsv)"
| "ovCollections write k (c # cs) tsv =
     (case collectLiveUsageLocked write True (fst c) (snd c) (tsv, []) of (tsv', stats, _) \<Rightarrow>
        case ovCollections write k cs tsv' of (n, tsv'') \<Rightarrow> (mget 0 stats k + n, tsv''))"

primrec allGrowing :: "(string \<Rightarrow> string option \<Rightarrow> string option) \<Rightarrow> string set \<Rightarrow> string \<times> string \<Rightarrow> (string list \<times> ovDir list) list \<Rightarrow> string option \<Rightarrow> bool" where
  "allGrowing write I k [] tsv = True"
| "allGrowing write I k (c # cs) tsv = (ovGrowing I k (fst c) (snd c) tsv
     \<and> allGrowing write I k cs (fst (collectLiveUsageLocked write True (fst c) (snd c) (tsv, []))))"

text \<open>
  (C22) Over any sequence of collections in which the totals that OpenVPN shows do not fall, what is reported for a user
  and an inbound adds up to exactly what the recorded totals of its sessions grew by: the accounting file carries
  over from one collection to the next, so that nothing is counted twice and nothing is missed.
\<close>

theorem ov_traffic_counted_once:
  assumes "write = (\<lambda>new _. Some new)" and "okFile tsv" and "finite I" and "allGrowing write I k cs tsv"
    and "ovCollections write k cs tsv = (n, tsv')"
  shows "n = sum (fileTotal tsv') I - sum (fileTotal tsv) I"
  using assms(2,4,5)
proof (induction cs arbitrary: tsv n)
  case (Cons c cs)
  obtain tsv1 stats killed where c: "collectLiveUsageLocked write True (fst c) (snd c) (tsv, []) = (tsv1, stats, killed)" "okFile tsv1"
    "mget 0 stats k = sum (fileTotal tsv1) I - sum (fileTotal tsv) I"
    using collect_grows [OF assms(1) Cons.prems(1) assms(3), of k "fst c" "snd c"] Cons.prems(2) by auto
  obtain n1 where n1: "ovCollections write k cs tsv1 = (n1, tsv')" "n = mget 0 stats k + n1" using Cons.prems(3) c(1) by (auto split: prod.splits)
  with Cons.IH [OF c(2) _ n1(1)] Cons.prems(2) c show ?case by simp
qed simp

text \<open>A session at the limit of its user, by the base in the accounting or, without one, the traffic in the file of the users.\<close>

definition atLimit :: "accounting \<Rightarrow> ovSeen \<Rightarrow> bool" where
  "atLimit records x =
     (let s = snd (snd x); b = arBase (mget noRecord records (lvSessionID s)) in
      0 < lvLimit s \<and> lvLimit s \<le> int64 ((if b \<le> 0 then lvBase s else b) + lvTotal s))"

lemma ovSeenStep_killed:
  "is_int64 (ovShown x) \<Longrightarrow> snd (snd (ovSeenStep x st)) = snd (snd st) @ (if atLimit (fst st) x then [(fst x, lvUsername (snd (snd x)))] else [])"
  by (cases st) (simp add: ovSeenStep_def ovShown_def ovLiveStep_def atLimit_def Let_def)

lemma ovSeenStep_others:
  "ovIdent y \<noteq> ovIdent x \<Longrightarrow> atLimit (fst (ovSeenStep x st)) y = atLimit (fst st) y"
  by (cases st) (simp add: ovSeenStep_def ovIdent_def ovLiveStep_def atLimit_def Let_def)

lemma ov_killed:
  "\<lbrakk>\<And>x. x \<in> set xs \<Longrightarrow> is_int64 (ovShown x); distinct (map ovIdent xs)\<rbrakk>
   \<Longrightarrow> snd (snd (fold ovSeenStep xs st)) = snd (snd st) @ map (\<lambda>x. (fst x, lvUsername (snd (snd x)))) (filter (atLimit (fst st)) xs)"
proof (induction xs arbitrary: st)
  case (Cons x xs)
  have "filter (atLimit (fst (ovSeenStep x st))) xs = filter (atLimit (fst st)) xs"
    using Cons.prems(2) by (intro filter_cong) (auto simp: image_iff intro!: ovSeenStep_others)
  then show ?case using Cons ovSeenStep_killed [of x st] by simp
qed simp

text \<open>
  A collection tells OpenVPN to drop exactly the clients at their limit: those whose traffic before the session and
  in it reaches the data limit of the user.
\<close>

theorem ov_limit_enforced:
  assumes "distinct (map ovIdent (ovSessions tags dirs))"
    and "collectLiveUsageLocked write True tags dirs (tsv, stats) = (tsv', stats', killed)"
  shows "killed = map (\<lambda>x. (fst x, lvUsername (snd (snd x)))) (filter (atLimit (readOVAccounting tsv)) (ovSessions tags dirs))"
proof -
  have "is_int64 (ovShown x)" if "x \<in> set (ovSessions tags dirs)" for x using ovSessions_ok [OF that] by (simp add: okSession_def ovShown_def)
  from ov_killed [OF this assms(1), of "(readOVAccounting tsv, stats, [])"] assms(2) show ?thesis
    by (auto simp: collectLiveUsageLocked_def fold_ovLiveDir split: prod.splits)
qed

text \<open>
  What the daemons read of a user is what the master sent: from the file of the users that the node writes, every
  user is read back with its id, its traffic and its data limit.
\<close>

theorem users_tsv_roundtrip:
  assumes "distinct (map vuVPNUsername us)" and "\<forall>u \<in> set us. okUser u" and "u \<in> set us"
  shows "map_of (readOVUsers (Some (vpnUsersTSV us))) (vuVPNUsername u)
    = Some \<lparr>osUserID = formatInt (vuUserID u), osUsername = vuVPNUsername u, osUsedTraffic = vuUsedTraffic u,
        osDataLimit = (case vuDataLimit u of None \<Rightarrow> 0 | Some v \<Rightarrow> v)\<rparr>"
proof -
  have "map_of (map (\<lambda>u. (vuVPNUsername u, userSnapshot u)) us) (vuVPNUsername u) = Some (userSnapshot u)"
    using assms by (intro map_of_is_SomeI) (auto simp: comp_def)
  then show ?thesis using users_read_write [OF assms(1,2)] by (simp add: userSnapshot_def)
qed

text \<open>
  A usage line that the script of a client that disconnects appends after the collection has read the file, and
  before it empties it, is lost: the report and the files are those of a run without the line. The emptying is
  not under the lock that the script takes.
\<close>

theorem appended_usage_is_lost:
  assumes "ofUsage F = Some raw" and "write = (\<lambda>new _. Some new)"
  shows "ovCollectUsage write (map_option (\<lambda>s. s @ line)) locked tags dirs F = ovCollectUsage write id locked tags dirs F
    \<and> ofUsage (fst (snd (ovCollectUsage write (map_option (\<lambda>s. s @ line)) locked tags dirs F))) = Some []"
  using assms by (simp add: ovCollectUsage_def emptied_def split: prod.split)

text \<open>
  A session of IKEv2 whose admission is refused is recorded all the same, and so the next collection takes it as
  admitted: while the user is available and under the limit the session is not told to terminate again and stays
  out of the registry. The answer of the first \<open>swanctl --terminate\<close> is not looked at.
\<close>

theorem refused_session_not_checked_again:
  assumes "map_of us (ikUsername s) = Some u" and "map_of (klRecords st) (ikID s) = None"
    and "remoteAccessSnapshotAvailable u now"
    and "vpnAdmitGoSession E callback (ikev2Event tag (raUserID u) s) (raDeviceLimit u) (klRegistry st) = (False, [], klRegistry st)"
    and "raLimit u \<le> 0"
  shows "\<exists>st'. ikev2Step E callback tag accounting now us s st = st' \<and> klTerminated st' = klTerminated st @ [ikID s]
    \<and> klTerminated (ikev2Step E callback tag accounting now us s st') = klTerminated st'
    \<and> klRegistry (ikev2Step E callback tag accounting now us s st') = klRegistry st"
  using assms by (auto simp: ikev2Step_def ikev2Check_def Let_def update_conv' mget_def)

section \<open>Example\<close>

definition exampleVPNUser :: vpnRuntimeUser where
  "exampleVPNUser = \<lparr>vuUserID = 7, vuUsername = ''ann'', vuVPNUsername = ''ann'', vuPassword = ''p'', vuIPv4Address = ''10.66.0.2'', vuStatus = ''active'',
     vuUsedTraffic = 5, vuDataLimit = Some 40, vuExpire = None, vuDeviceLimit = 0\<rparr>"

definition exampleDir :: "string \<Rightarrow> string \<Rightarrow> ovDir" where
  "exampleDir rx tx = \<lparr>odName = ''ov'', odUsers = Some (vpnUsersTSV [exampleVPNUser]),
     odStatus = Some (''CLIENT_LIST,ann,1.2.3.4:5,10.66.0.2,'' @ rx @ '','' @ tx @ [newline])\<rparr>"

lemma example_ok: "okUser exampleVPNUser"
  by (simp add: okUser_def exampleVPNUser_def plainField_def is_int64_def)

lemma example_sessions:
  "ovSessions [''ov''] [exampleDir ''10'' ''20''] = [(''ov'', ''ov'', \<lparr>lvSessionID = ''ov-1-2-3-4-5-ann'', lvUsername = ''ann'', lvUserID = ''7'', lvTotal = 30, lvBase = 5, lvLimit = 40\<rparr>)]"
  "ovSessions [''ov''] [exampleDir ''15'' ''25''] = [(''ov'', ''ov'', \<lparr>lvSessionID = ''ov-1-2-3-4-5-ann'', lvUsername = ''ann'', lvUserID = ''7'', lvTotal = 40, lvBase = 5, lvLimit = 40\<rparr>)]"
  by code_simp+

definition exampleRun :: "(string list \<times> ovDir list) list" where
  "exampleRun = [([''ov''], [exampleDir ''10'' ''20'']), ([''ov''], [exampleDir ''15'' ''25''])]"

lemma example_growing: "allGrowing (\<lambda>new _. Some new) {''ov-1-2-3-4-5-ann''} (''openvpn:7'', ''ov'') exampleRun None"
  by code_simp

lemma example_counted:
  "ovCollections (\<lambda>new _. Some new) (''openvpn:7'', ''ov'') exampleRun None
    = (40, Some (row [''ov-1-2-3-4-5-ann'', ''7'', ''40'', ''5'']))"
  by code_simp

theorem ov_traffic_counted_once_witness:
  "sum (fileTotal (Some (row [''ov-1-2-3-4-5-ann'', ''7'', ''40'', ''5'']))) {''ov-1-2-3-4-5-ann''} - sum (fileTotal None) {''ov-1-2-3-4-5-ann''} = 40
   \<and> fst (ovCollections (\<lambda>new _. Some new) (''openvpn:7'', ''ov'') exampleRun None) = 40"
  using ov_traffic_counted_once [OF refl _ _ example_growing example_counted] by (simp add: example_counted okFile_def readOVAccounting_def)

theorem ov_limit_enforced_witness:
  "snd (snd (collectLiveUsageLocked (\<lambda>new _. Some new) True [''ov''] [exampleDir ''15'' ''25''] (None, []))) = [(''ov'', ''ann'')]"
proof -
  let ?r = "collectLiveUsageLocked (\<lambda>new _. Some new) True [''ov''] [exampleDir ''15'' ''25''] (None, [])"
  have "?r = (fst ?r, fst (snd ?r), snd (snd ?r))" by simp
  from ov_limit_enforced [OF _ this] show ?thesis
    by (simp add: example_sessions atLimit_def Let_def int64_def readOVAccounting_def noRecord_def)
qed

theorem users_tsv_roundtrip_witness:
  "map_of (readOVUsers (Some (vpnUsersTSV [exampleVPNUser]))) ''ann''
    = Some \<lparr>osUserID = ''7'', osUsername = ''ann'', osUsedTraffic = 5, osDataLimit = 40\<rparr>"
proof -
  have "formatInt 7 = ''7''" by code_simp
  then show ?thesis using users_tsv_roundtrip [of "[exampleVPNUser]" exampleVPNUser] example_ok by (simp add: exampleVPNUser_def)
qed

theorem appended_usage_is_lost_witness:
  "ovCollectUsage (\<lambda>new _. Some new) (map_option (\<lambda>s. s @ row [''openvpn:7'', ''90'', ''ov''])) True [] [] \<lparr>ofUsage = Some (row [''openvpn:7'', ''10'', ''ov'']), ofAccounting = None\<rparr>
   = ovCollectUsage (\<lambda>new _. Some new) id True [] [] \<lparr>ofUsage = Some (row [''openvpn:7'', ''10'', ''ov'']), ofAccounting = None\<rparr>"
  using appended_usage_is_lost [of "\<lparr>ofUsage = Some (row [''openvpn:7'', ''10'', ''ov'']), ofAccounting = None\<rparr>"] by simp

definition exampleRemoteUser :: remoteAccessUserSnapshot where
  "exampleRemoteUser = \<lparr>raUserID = 7, raUsed = 0, raLimit = 0, raDeviceLimit = 1, raAssignedIP = [], raStatus = ''active'', raExpire = 0\<rparr>"

definition exampleSA :: ikev2Session where
  "exampleSA = \<lparr>ikID = ''1'', ikUsername = ''ann'', ikClientIP = [], ikAssignedIP = [], ikBytes = 10\<rparr>"

definition exampleIKEv2 :: ikev2Live where
  "exampleIKEv2 = \<lparr>klRecords = [], klStats = [], klActive = [], klTerminated = [], klRegistry = None, klSent = []\<rparr>"

theorem refused_session_not_checked_again_witness:
  "klTerminated (ikev2Step exampleVPN None ''ikev2'' True 0 [(''ann'', exampleRemoteUser)] exampleSA
     (ikev2Step exampleVPN None ''ikev2'' True 0 [(''ann'', exampleRemoteUser)] exampleSA exampleIKEv2)) = [''1'']"
proof -
  have "vpnAdmitGoSession exampleVPN None (ikev2Event ''ikev2'' 7 exampleSA) 1 None = (False, [], None)"
    by (simp add: vpnAdmitGoSession_def admitRecords_def ikev2Event_def exampleSA_def vpnSessionDeviceKey_def exampleVPN_def Let_def)
  moreover have "remoteAccessSnapshotAvailable exampleRemoteUser 0"
    by code_simp
  ultimately show ?thesis
    using refused_session_not_checked_again [of "[(''ann'', exampleRemoteUser)]" exampleSA exampleRemoteUser exampleIKEv2 0 exampleVPN None "''ikev2''" True]
    by (auto simp: exampleRemoteUser_def exampleSA_def exampleIKEv2_def)
qed

end
