(* ===== verification/Address_Pools.thy ===== *)
theory Address_Pools
  imports Netip Proxyman "HOL-Library.Word"
begin

text \<open>
  Address pools of the VPNs: prefixes of \<open>net/netip\<close> and \<open>net\<close>, and on them \<open>ovNetworkMask\<close> of \<open>internal/node/ov.go\<close>,
  \<open>l2tpPoolRange\<close> of \<open>l2tp.go\<close>, \<open>pptpPoolRange\<close> of \<open>pptp.go\<close>, \<open>extraVPNPoolRange\<close> of \<open>sstp.go\<close> and \<open>wgServerAddress\<close>,
  \<open>wgNetwork\<close> of \<open>wireguard.go\<close>. Addresses of ranges are \<open>uint32\<close>, kept at their width. Results: the range of a pool
  lies in the pool, without the address of the server and the ends of the network, unless the arithmetic wraps;
  two networks that do not contain each other's first address have no address in common.
\<close>

section \<open>Prefixes\<close>

datatype prefix = Prefix (pfxAddr: addr) (pfxBits: nat)

fun bitLen :: "addr \<Rightarrow> nat" where
  "bitLen (V4 n) = 32"
| "bitLen (V6 gs zone) = 128"

fun addrNum :: "addr \<Rightarrow> nat" where
  "addrNum (V4 n) = n"
| "addrNum (V6 gs zone) = fold (\<lambda>g n. n * 65536 + g) gs 0"

fun zoneOf :: "addr \<Rightarrow> string" where
  "zoneOf (V4 n) = []"
| "zoneOf (V6 gs zone) = zone"

text \<open>The text before and after the last slash.\<close>

definition cutLastSlash :: "string \<Rightarrow> (string \<times> string) option" where
  "cutLastSlash s = (case cut (rev s) ''/'' of (b, a, found) \<Rightarrow> if found then Some (rev a, rev b) else None)"

definition ParsePrefix :: "string \<Rightarrow> prefix option" where
  "ParsePrefix s =
     (case cutLastSlash s of None \<Rightarrow> None
      | Some (ip, bitsText) \<Rightarrow>
          (case ParseAddr ip of None \<Rightarrow> None
           | Some a \<Rightarrow>
               if zoneOf a \<noteq> [] then None
               else if 1 < length bitsText \<and> (hd bitsText < CHR ''1'' \<or> CHR ''9'' < hd bitsText) then None
               else case parseInt 64 bitsText of None \<Rightarrow> None
                 | Some bits \<Rightarrow> if bits < 0 \<or> int (bitLen a) < bits then None else Some (Prefix a (nat bits))))"

definition sameNet :: "nat \<Rightarrow> nat \<Rightarrow> nat \<Rightarrow> nat \<Rightarrow> bool" where
  "sameNet len bits m n \<longleftrightarrow> m div 2 ^ (len - bits) = n div 2 ^ (len - bits)"

definition pfxContains :: "prefix \<Rightarrow> addr \<Rightarrow> bool" where
  "pfxContains p a \<longleftrightarrow> bitLen (pfxAddr p) = bitLen a \<and> zoneOf a = [] \<and> sameNet (bitLen a) (pfxBits p) (addrNum (pfxAddr p)) (addrNum a)"

definition maskNum :: "nat \<Rightarrow> nat \<Rightarrow> nat \<Rightarrow> nat" where
  "maskNum len bits n = n div 2 ^ (len - bits) * 2 ^ (len - bits)"

definition groupsOf :: "nat \<Rightarrow> nat list" where
  "groupsOf n = map (\<lambda>i. n div 2 ^ (16 * (7 - i)) mod 65536) [0..<8]"

fun Masked :: "prefix \<Rightarrow> prefix" where
  "Masked (Prefix (V4 n) bits) = Prefix (V4 (maskNum 32 bits n)) bits"
| "Masked (Prefix (V6 gs zone) bits) = Prefix (V6 (groupsOf (maskNum 128 bits (addrNum (V6 gs zone)))) []) bits"

definition prefixString :: "prefix \<Rightarrow> string" where
  "prefixString p = addrString (pfxAddr p) @ ''/'' @ formatUint (pfxBits p)"

text \<open>
  \<open>net.ParseCIDR\<close> with the network as the methods of \<open>net.IPNet\<close> see it: an IPv4 network, also when it was written as
  a mapped address, or an IPv6 one; with it the length of the mask as it was written.
\<close>

record ipnet =
  netIP :: addr
  netOnes :: nat
  netWritten :: nat

definition dtoi :: "string \<Rightarrow> nat option" where
  "dtoi s = (if s = [] then None else case digitsVal 0 s of None \<Rightarrow> None | Some n \<Rightarrow> if n < 0xFFFFFF then Some n else None)"

definition parseNet :: "addr \<Rightarrow> nat \<Rightarrow> ipnet" where
  "parseNet a n =
     (case Masked (Prefix a n) of
        Prefix (V4 m) _ \<Rightarrow> \<lparr>netIP = V4 m, netOnes = n, netWritten = n\<rparr>
      | Prefix (V6 gs zone) _ \<Rightarrow>
          if Is4In6 gs then \<lparr>netIP = V4 (low32 gs), netOnes = n - 96, netWritten = n\<rparr> else \<lparr>netIP = V6 gs [], netOnes = n, netWritten = n\<rparr>)"

definition ParseCIDR :: "string \<Rightarrow> ipnet option" where
  "ParseCIDR s =
     (case cut s ''/'' of (ip, ones, found) \<Rightarrow>
        if \<not> found then None
        else case ParseAddr ip of None \<Rightarrow> None
          | Some a \<Rightarrow> if zoneOf a \<noteq> [] then None
              else (case dtoi ones of None \<Rightarrow> None
                | Some n \<Rightarrow> if bitLen a < n then None else Some (parseNet a n)))"

definition netContains :: "ipnet \<Rightarrow> addr \<Rightarrow> bool" where
  "netContains N a \<longleftrightarrow> bitLen (netIP N) = bitLen a \<and> sameNet (bitLen a) (netOnes N) (addrNum (netIP N)) (addrNum a)"

section \<open>Masks and ranges\<close>

definition ovNetworkMask :: "string \<Rightarrow> string \<times> string" where
  "ovNetworkMask cidr =
     (case ParsePrefix (trimSpace cidr) of
        Some (Prefix (V4 n) bits) \<Rightarrow> (string4 (maskNum 32 bits n), string4 (maskNum 32 bits 4294967295))
      | _ \<Rightarrow> (''10.66.0.0'', ''255.255.0.0''))"

definition ipv4ToUint32 :: "nat \<Rightarrow> 32 word" where
  "ipv4ToUint32 n = of_nat n"

definition uint32ToIPv4 :: "32 word \<Rightarrow> addr" where
  "uint32ToIPv4 w = V4 (unat w)"

text \<open>The first address, the first and the last of the range, before they are printed.\<close>

definition l2tpRange :: "nat \<Rightarrow> nat \<Rightarrow> 32 word \<times> 32 word \<times> 32 word" where
  "l2tpRange n bits =
     (let network = ipv4ToUint32 (maskNum 32 bits n); size = 2 ^ (32 - bits) :: nat in
      if size < 4 then (network, network, network)
      else let broadcast = network + of_nat (size - 1);
               local = network + 1;
               start = network + 10;
               end' = broadcast - 1;
               start = (if end' < start then network + 2 else start);
               start = (if end' < start then local else start)
           in (local, start, end'))"

definition rangeText :: "32 word \<Rightarrow> 32 word \<Rightarrow> string" where
  "rangeText a b = addrString (uint32ToIPv4 a) @ ''-'' @ addrString (uint32ToIPv4 b)"

definition l2tpPoolRange :: "string \<Rightarrow> string \<times> string" where
  "l2tpPoolRange pool =
     (case (case ParsePrefix (trimSpace pool) of Some (Prefix (V4 n) bits) \<Rightarrow> l2tpRange n bits | _ \<Rightarrow> l2tpRange 172163072 16) of
        (local, start, end') \<Rightarrow> (addrString (uint32ToIPv4 local), rangeText start end'))"

text \<open>\<open>10.68.0.10-10.68.0.200\<close> becomes \<open>10.68.0.10-200\<close>, as pptpd wants it.\<close>

definition cutLastDot :: "string \<Rightarrow> string option" where
  "cutLastDot s = (case cut (rev s) ''.'' of (b, a, found) \<Rightarrow> if found then Some (rev a @ ''.'') else None)"

definition pptpPoolRange :: "string \<Rightarrow> string" where
  "pptpPoolRange ipRange =
     (case cut (trimSpace ipRange) ''-'' of (start, end', ok) \<Rightarrow>
        if \<not> ok then ipRange
        else case cutLastDot start of None \<Rightarrow> ipRange
          | Some pre \<Rightarrow> if hasPrefix end' pre then start @ ''-'' @ trimPrefix end' pre else ipRange)"

definition extraRange :: "nat \<Rightarrow> nat \<Rightarrow> 32 word \<times> 32 word \<times> 32 word" where
  "extraRange n bits =
     (let network = ipv4ToUint32 (maskNum 32 bits n); size = 2 ^ (32 - bits) :: nat
      in (network + 1, network + 2, network + of_nat size - 2))"

definition extraVPNPoolRange :: "string \<Rightarrow> string + string \<times> string" where
  "extraVPNPoolRange pool =
     (case ParsePrefix (trimSpace pool) of
        Some (Prefix (V4 n) bits) \<Rightarrow>
          if 29 < bits then Inl ''IPv4 pool must be a valid /29 or larger network''
          else if 2 ^ 20 < (2 ^ (32 - bits) :: nat) then Inl ''IPv4 pool must be /12 or narrower''
          else (case extraRange n bits of (gateway, start, end') \<Rightarrow> Inr (addrString (uint32ToIPv4 gateway), rangeText start end'))
      | _ \<Rightarrow> Inl ''IPv4 pool must be a valid /29 or larger network'')"

definition wgDefaultPool :: string where
  "wgDefaultPool = ''10.70.0.0/16''"

text \<open>\<open>server[3]++\<close> on the last byte.\<close>

definition wgServerAddress :: "string \<Rightarrow> string + string" where
  "wgServerAddress pool =
     (case ParseCIDR (trimSpace pool) of
        None \<Rightarrow> Inl (''invalid address_pool '' @ quoteGo pool @ '': invalid CIDR address: '' @ trimSpace pool)
      | Some N \<Rightarrow> (case netIP N of
            V6 _ _ \<Rightarrow> Inl (''address_pool '' @ quoteGo pool @ '' must be IPv4'')
          | V4 n \<Rightarrow> if 30 < netWritten N then Inl (''address_pool '' @ quoteGo pool @ '' is too small (need at least /30)'')
              else Inr (string4 (n div 256 * 256 + (n mod 256 + 1) mod 256) @ ''/'' @ formatUint (netWritten N))))"

definition wgNetwork :: "string \<Rightarrow> string" where
  "wgNetwork pool = (case ParsePrefix (trimSpace pool) of None \<Rightarrow> wgDefaultPool | Some p \<Rightarrow> prefixString (Masked p))"

section \<open>Networks\<close>

lemma maskNum_le: "maskNum len bits n \<le> n"
  by (simp add: maskNum_def)

lemma sameNet_mask: "sameNet len bits (maskNum len bits n) n"
  by (simp add: sameNet_def maskNum_def)

lemma sameNet_coarser: "sameNet len b m n \<Longrightarrow> a \<le> b \<Longrightarrow> b \<le> len \<Longrightarrow> sameNet len a m n"
proof -
  assume *: "sameNet len b m n" "a \<le> b" "b \<le> len"
  have d: "x div 2 ^ (len - a) = x div 2 ^ (len - b) div 2 ^ (b - a)" for x :: nat
    using *(2,3) by (simp add: div_mult2_eq [symmetric] power_add [symmetric])
  show ?thesis using *(1) unfolding sameNet_def d by simp
qed

text \<open>Two networks with an address in common: one has the first address of the other.\<close>

lemma networks_nested:
  assumes "netContains M a" and "netContains N a" and "netOnes M \<le> bitLen a" and "netOnes N \<le> bitLen a"
  shows "netContains M (netIP N) \<or> netContains N (netIP M)"
proof -
  let ?l = "bitLen a"
  have M: "bitLen (netIP M) = ?l" "sameNet ?l (netOnes M) (addrNum (netIP M)) (addrNum a)" using assms(1) by (simp_all add: netContains_def)
  have N: "bitLen (netIP N) = ?l" "sameNet ?l (netOnes N) (addrNum (netIP N)) (addrNum a)" using assms(2) by (simp_all add: netContains_def)
  show ?thesis
  proof (cases "netOnes M \<le> netOnes N")
    case True
    from sameNet_coarser [OF N(2) True assms(4)] M(2) have "sameNet ?l (netOnes M) (addrNum (netIP M)) (addrNum (netIP N))" unfolding sameNet_def by (rule trans [OF _ sym, rotated])
    then show ?thesis unfolding netContains_def M N by simp
  next
    case False
    then have "netOnes N \<le> netOnes M" by simp
    from sameNet_coarser [OF M(2) this assms(3)] N(2) have "sameNet ?l (netOnes N) (addrNum (netIP N)) (addrNum (netIP M))" unfolding sameNet_def by (rule trans [OF _ sym, rotated])
    then show ?thesis unfolding netContains_def M N by simp
  qed
qed

section \<open>Ranges\<close>

text \<open>The numbers of the range, when \<open>network + 10\<close> does not wrap.\<close>

lemma maskNum_block: "bits \<le> 32 \<Longrightarrow> n < 2 ^ 32 \<Longrightarrow> maskNum 32 bits n + 2 ^ (32 - bits) \<le> 2 ^ 32"
proof -
  assume *: "bits \<le> 32" "n < 2 ^ 32"
  have "(2::nat) ^ 32 = 2 ^ bits * 2 ^ (32 - bits)" using *(1) by (simp add: power_add [symmetric])
  moreover have "n div 2 ^ (32 - bits) < 2 ^ bits" using * calculation by (simp add: less_mult_imp_div_less)
  then have "(n div 2 ^ (32 - bits) + 1) * 2 ^ (32 - bits) \<le> 2 ^ bits * (2 ^ (32 - bits) :: nat)" by (intro mult_right_mono) simp_all
  ultimately show ?thesis by (simp add: maskNum_def algebra_simps)
qed

lemma unat_plus_small: "unat (w :: 32 word) + k < 2 ^ 32 \<Longrightarrow> unat (w + of_nat k) = unat w + k"
  by (simp add: unat_add_lem [THEN iffD1] unat_of_nat)

lemma l2tpRange_unat:
  assumes "bits \<le> 30" and "n < 2 ^ 32" and "maskNum 32 bits n + 10 < 2 ^ 32" and "l2tpRange n bits = (local, start, fin)"
  defines "network \<equiv> maskNum 32 bits n" and "sz \<equiv> (2::nat) ^ (32 - bits)"
  shows "unat local = network + 1" and "unat fin = network + sz - 2"
    and "unat start = (if network + sz - 2 < network + 10 then network + 2 else network + 10)"
proof -
  have "(2::nat) ^ 2 \<le> 2 ^ (32 - bits)" using assms(1) by (intro power_increasing) simp_all
  then have sz: "4 \<le> sz" by (simp add: sz_def)
  have block: "network + sz \<le> 2 ^ 32" using maskNum_block assms(1,2) by (simp add: network_def sz_def)
  let ?w = "ipv4ToUint32 network"
  have w: "unat ?w = network" using block sz by (simp add: ipv4ToUint32_def unat_of_nat)
  have plus: "unat (?w + of_nat k) = network + k" if "network + k < 2 ^ 32" for k using unat_plus_small [of ?w k] w that by simp
  have last: "?w + of_nat (sz - 1) - 1 = ?w + of_nat (sz - 2)" using sz by (simp add: of_nat_diff)
  have u: "unat (?w + 1) = network + 1" "unat (?w + 10) = network + 10" "unat (?w + 2) = network + 2" "unat (?w + of_nat (sz - 2)) = network + sz - 2"
    using plus [of 1] plus [of 10] plus [of 2] plus [of "sz - 2"] assms(3) block sz by (simp_all add: network_def)
  have eq: "l2tpRange n bits = (let start = (if ?w + of_nat (sz - 2) < ?w + 10 then ?w + 2 else ?w + 10);
      start = (if ?w + of_nat (sz - 2) < start then ?w + 1 else start) in (?w + 1, start, ?w + of_nat (sz - 2)))"
  proof -
    have "\<not> sz < 4" using sz by simp
    then show ?thesis unfolding l2tpRange_def Let_def network_def [symmetric] sz_def [symmetric] by (simp only: last if_False)
  qed
  have "\<not> (?w + of_nat (sz - 2) < ?w + 2)" using u sz by (simp add: word_less_nat_alt)
  then have "(local, start, fin) = (?w + 1, if ?w + of_nat (sz - 2) < ?w + 10 then ?w + 2 else ?w + 10, ?w + of_nat (sz - 2))"
    using assms(4) eq by (auto simp: Let_def)
  then show "unat local = network + 1" "unat fin = network + sz - 2"
    "unat start = (if network + sz - 2 < network + 10 then network + 2 else network + 10)"
    using u by (auto simp: word_less_nat_alt)
qed

text \<open>Evaluation of texts of prefixes and addresses.\<close>

lemma digit_eval:
  "digit 0 = CHR ''0''" "digit (Suc 0) = CHR ''1''" "digit 1 = CHR ''1''" "digit 2 = CHR ''2''" "digit 3 = CHR ''3''" "digit 4 = CHR ''4''"
  "digit 5 = CHR ''5''" "digit 6 = CHR ''6''" "digit 7 = CHR ''7''" "digit 8 = CHR ''8''" "digit 9 = CHR ''9''"
  by (simp_all add: digit_def char_of_eq_iff take_bit_eq_mod)

lemmas prefix_eval = ParsePrefix_def cutLastSlash_def hasPrefix_def ParseAddr_def parseIPv4_def splitOn.simps parseOctet_def digitVal_def parseInt_def Let_def less_char_def

lemma ParsePrefix_wf: "ParsePrefix s = Some (Prefix a bits) \<Longrightarrow> wfAddr a \<and> bits \<le> bitLen a"
  by (auto simp: ParsePrefix_def split: option.splits prod.splits if_splits dest: ParseAddr_wf)

text \<open>
  The range that is given to the clients of a pool of at least four addresses lies strictly inside the pool, after the
  address of the server: no client gets the address of the network, of the server or the broadcast address. This
  needs the first address of the network plus ten to be a 32-bit number.
\<close>

theorem pool_range_inside:
  assumes "ParsePrefix (trimSpace pool) = Some (Prefix (V4 n) bits)" and "bits \<le> 30"
    and "maskNum 32 bits n + 10 < 2 ^ 32"
  shows "\<exists>local start fin. l2tpPoolRange pool = (string4 local, string4 start @ ''-'' @ string4 fin)
    \<and> local = maskNum 32 bits n + 1 \<and> local < start \<and> start \<le> fin \<and> fin + 1 < maskNum 32 bits n + 2 ^ (32 - bits)"
proof -
  have n: "n < 2 ^ 32" using ParsePrefix_wf [OF assms(1)] by simp
  obtain local start fin where r: "l2tpRange n bits = (local, start, fin)" by (cases "l2tpRange n bits")
  have "(2::nat) ^ 2 \<le> 2 ^ (32 - bits)" using assms(2) by (intro power_increasing) simp_all
  then have "4 \<le> (2::nat) ^ (32 - bits)" by simp
  then show ?thesis using assms(1) r l2tpRange_unat [OF assms(2) n assms(3) r]
    by (intro exI [of _ "unat local"] exI [of _ "unat start"] exI [of _ "unat fin"]) (auto simp: l2tpPoolRange_def rangeText_def uint32ToIPv4_def)
qed

text \<open>
  At the top of the address space \<open>network + 10\<close> wraps, and the range of the pool begins outside of it: the pool
  \<open>255.255.255.252/30\<close> gets the addresses from \<open>0.0.0.6\<close> to \<open>255.255.255.254\<close>.
\<close>

theorem pool_range_wraps: "l2tpPoolRange ''255.255.255.252/30'' = (''255.255.255.253'', ''0.0.0.6-255.255.255.254'')"
proof -
  have "trimSpace ''255.255.255.252/30'' = ''255.255.255.252/30''" by (rule trimSpace_graphic) (simp_all add: graphic_def)
  moreover have "ParsePrefix ''255.255.255.252/30'' = Some (Prefix (V4 4294967292) 30)"
    by (simp add: prefix_eval)
  moreover have "l2tpRange 4294967292 30 = (4294967293, 6, 4294967294)"
    by (simp add: l2tpRange_def Let_def maskNum_def ipv4ToUint32_def)
  ultimately show ?thesis
    by (simp add: l2tpPoolRange_def rangeText_def uint32ToIPv4_def string4_def octets_def formatUint.simps digit_eval)
qed

lemma example_pool: "ParsePrefix (trimSpace ''10.68.0.0/24'') = Some (Prefix (V4 172228608) 24)" "maskNum 32 24 172228608 = 172228608"
proof -
  have "trimSpace ''10.68.0.0/24'' = ''10.68.0.0/24''" by (rule trimSpace_graphic) (simp_all add: graphic_def)
  then show "ParsePrefix (trimSpace ''10.68.0.0/24'') = Some (Prefix (V4 172228608) 24)" by (simp add: prefix_eval)
qed (simp add: maskNum_def)

theorem pool_range_inside_witness:
  "\<exists>local start fin. l2tpPoolRange ''10.68.0.0/24'' = (string4 local, string4 start @ ''-'' @ string4 fin)
    \<and> local = 172228609 \<and> local < start \<and> start \<le> fin \<and> fin + 1 < 172228864"
  using pool_range_inside [OF example_pool(1)] by (simp add: example_pool(2))

end
