(* ===== verification/Wireguard.thy ===== *)
theory Wireguard
  imports VPN_Accounting Address_Pools
begin

text \<open>
  WireGuard: \<open>internal/node/wireguard.go\<close> without the part that drives the kernel. The runtime the master sends and
  its validation, the configuration of peers, the collection of usage with the sessions and the limits of peers.
  \<open>golang.zx2c4.com/wireguard\<close> is a parameter: \<open>key\<close> gives the text of a key, \<open>None\<close> when it is not one. Results: a
  runtime that is accepted has separate ports and pools and separate addresses and keys in each, a peer is pinned
  to its one address, and usage is what the counters of the kernel grew by.
\<close>

section \<open>The runtime\<close>

record wgRuntimePeer =
  wpUserID :: int
  wpUsername :: string
  wpPublicKey :: string
  wpPresharedKey :: string
  wpAddress :: string
  wpStatus :: string
  wpUsedTraffic :: int
  wpDataLimit :: "int option"
  wpExpire :: "int option"
  wpDeviceLimit :: int

record wgRuntimeInbound =
  wiTag :: string
  wiTunnelTag :: string
  wiListenPort :: int
  wiTunnelPort :: int
  wiSettings :: jobj
  wiPeers :: "wgRuntimePeer list"

record wgRuntime =
  wrGeneratedAt :: string
  wrTarget :: string
  wrSessionCallback :: "vpnSessionCallback option"
  wrInbounds :: "wgRuntimeInbound list"

definition normalizeWGRuntimeInbound :: "floats \<Rightarrow> wgRuntimeInbound \<Rightarrow> wgRuntimeInbound" where
  "normalizeWGRuntimeInbound F inbound =
     (let settings = wiSettings inbound;
          inbound = (if wiListenPort inbound = 0 then inbound\<lparr>wiListenPort := intValue F (map_of settings ''listen_port'')\<rparr> else inbound)
      in if wiTunnelPort inbound = 0
         then inbound\<lparr>wiTunnelPort := intValue F (Some (JStr (firstString F
                [map_of settings ''tunnel_port'', map_of settings ''xray_tunnel_port'', map_of settings ''tproxy_port''])))\<rparr>
         else inbound)"

definition wgPool :: "floats \<Rightarrow> wgRuntimeInbound \<Rightarrow> string" where
  "wgPool F inbound = firstString F [map_of (wiSettings inbound) ''address_pool'', map_of (wiSettings inbound) ''ipv4_pool_cidr'', Some (JStr wgDefaultPool)]"

definition wgPeerAddr :: "string \<Rightarrow> addr option" where
  "wgPeerAddr address = (case ParsePrefix (trimSpace address) of Some p \<Rightarrow> Some (pfxAddr p) | None \<Rightarrow> ParseAddr (trimSpace address))"

definition wgPeerActive :: "int \<Rightarrow> wgRuntimePeer \<Rightarrow> bool" where
  "wgPeerActive now peer =
     (if trimSpace (wpPublicKey peer) = [] \<or> trimSpace (wpAddress peer) = [] then False
      else let status = toLower (trimSpace (wpStatus peer)) in
        if status \<noteq> [] \<and> status \<noteq> ''active'' \<and> status \<noteq> ''on_hold'' then False
        else if (case wpDataLimit peer of None \<Rightarrow> False | Some limit \<Rightarrow> 0 < limit \<and> limit \<le> wpUsedTraffic peer) then False
        else \<not> (case wpExpire peer of None \<Rightarrow> False | Some e \<Rightarrow> 0 < e \<and> e \<le> now))"

section \<open>Validation\<close>

datatype wgError =
    TagRequired
  | InvalidPort string int
  | TunnelPortRequired string
  | SharedPort string string int
  | InvalidPool string string
  | PoolNotIPv4 string
  | PoolOverlaps string ipnet ipnet
  | InvalidServer string string
  | ServerNotIPv4 string addr
  | ServerOutside string addr prefix
  | InvalidUserID string int
  | KeyRequired string int
  | InvalidKey string int
  | SharedKey string int int
  | AddressRequired string int
  | InvalidAddress string int string
  | AddressOutside string int addr prefix
  | NetworkAddress string int addr
  | IsServerAddress string int addr
  | SharedAddress string int int addr

text \<open>The address of the server, \<open>None\<close> when none is given: the zero \<open>netip.Addr\<close>.\<close>

definition wgServer :: "string \<Rightarrow> prefix \<Rightarrow> string \<Rightarrow> wgError + addr option" where
  "wgServer tg pfx serverAddress =
     (if trimSpace serverAddress = [] then Inr None
      else case wgPeerAddr serverAddress of
        None \<Rightarrow> Inl (InvalidServer tg serverAddress)
      | Some server \<Rightarrow>
          if \<not> Is4 server then Inl (ServerNotIPv4 tg server)
          else if \<not> pfxContains pfx server then Inl (ServerOutside tg server pfx)
          else Inr (Some server))"

text \<open>The loop over the peers, with the addresses and the keys seen so far and their users.\<close>

fun wgCheckPeers :: "(string \<Rightarrow> string option) \<Rightarrow> string \<Rightarrow> prefix \<Rightarrow> addr option \<Rightarrow> (addr, int) gomap \<Rightarrow> (string, int) gomap \<Rightarrow> wgRuntimePeer list \<Rightarrow> wgError option" where
  "wgCheckPeers key tg pfx server seen seenKeys [] = None"
| "wgCheckPeers key tg pfx server seen seenKeys (peer # peers) =
     (let uid = wpUserID peer; publicKey = trimSpace (wpPublicKey peer); address = trimSpace (wpAddress peer) in
      if uid \<le> 0 then Some (InvalidUserID tg uid)
      else if publicKey = [] then Some (KeyRequired tg uid)
      else if key publicKey = None then Some (InvalidKey tg uid)
      else case map_of seenKeys publicKey of
        Some other \<Rightarrow> Some (SharedKey tg other uid)
      | None \<Rightarrow>
          if address = [] then Some (AddressRequired tg uid)
          else case wgPeerAddr address of
            None \<Rightarrow> Some (InvalidAddress tg uid address)
          | Some a \<Rightarrow>
              if \<not> pfxContains pfx a then Some (AddressOutside tg uid a pfx)
              else if a = pfxAddr pfx then Some (NetworkAddress tg uid a)
              else if server = Some a then Some (IsServerAddress tg uid a)
              else case map_of seen a of
                Some other \<Rightarrow> Some (SharedAddress tg other uid a)
              | None \<Rightarrow> wgCheckPeers key tg pfx server (AList.update a uid seen) (AList.update publicKey uid seenKeys) peers)"

definition wgValidatePeerAddresses :: "(string \<Rightarrow> string option) \<Rightarrow> string \<Rightarrow> string \<Rightarrow> string \<Rightarrow> wgRuntimePeer list \<Rightarrow> wgError option" where
  "wgValidatePeerAddresses key tg pool serverAddress peers =
     (case ParsePrefix (trimSpace pool) of
        None \<Rightarrow> Some (InvalidPool tg pool)
      | Some pfx \<Rightarrow> (case wgServer tg pfx serverAddress of
            Inl err \<Rightarrow> Some err
          | Inr server \<Rightarrow> wgCheckPeers key tg pfx server [] [] peers))"

definition wgOverlap :: "ipnet \<Rightarrow> ipnet \<Rightarrow> bool" where
  "wgOverlap network existing \<longleftrightarrow> netContains network (netIP existing) \<or> netContains existing (netIP network)"

definition wgServerOf :: "floats \<Rightarrow> wgRuntimeInbound \<Rightarrow> string" where
  "wgServerOf F inbound =
     (let serverAddress = firstString F [map_of (wiSettings inbound) ''server_address''] in
      if serverAddress = [] then (case wgServerAddress (wgPool F inbound) of Inl _ \<Rightarrow> [] | Inr a \<Rightarrow> a) else serverAddress)"

fun wgValidateFrom :: "floats \<Rightarrow> (string \<Rightarrow> string option) \<Rightarrow> (int, string) gomap \<Rightarrow> ipnet list \<Rightarrow> wgRuntimeInbound list \<Rightarrow> wgError option" where
  "wgValidateFrom F key usedPorts claimed [] = None"
| "wgValidateFrom F key usedPorts claimed (inbound # ibs) =
     (let tg = wiTag inbound; port = wiListenPort inbound; pool = wgPool F inbound in
      if trimSpace tg = [] then Some TagRequired
      else if port < 1 \<or> 65535 < port then Some (InvalidPort tg port)
      else if boolValue F (map_of (wiSettings inbound) ''tproxy_enabled'') True \<and> wiTunnelPort inbound \<le> 0 then Some (TunnelPortRequired tg)
      else case map_of usedPorts port of
        Some other \<Rightarrow> Some (SharedPort other tg port)
      | None \<Rightarrow> (case ParseCIDR (trimSpace pool) of
            None \<Rightarrow> Some (InvalidPool tg pool)
          | Some network \<Rightarrow>
              if \<not> Is4 (netIP network) then Some (PoolNotIPv4 tg)
              else case find (wgOverlap network) claimed of
                Some existing \<Rightarrow> Some (PoolOverlaps tg network existing)
              | None \<Rightarrow> (case wgValidatePeerAddresses key tg pool (wgServerOf F inbound) (wiPeers inbound) of
                    Some err \<Rightarrow> Some err
                  | None \<Rightarrow> wgValidateFrom F key (AList.update port tg usedPorts) (claimed @ [network]) ibs)))"

definition wgValidateInbounds :: "floats \<Rightarrow> (string \<Rightarrow> string option) \<Rightarrow> wgRuntimeInbound list \<Rightarrow> wgError option" where
  "wgValidateInbounds F key ibs = wgValidateFrom F key [] [] ibs"

section \<open>Peers of the kernel\<close>

text \<open>\<open>net.ParseIP\<close>: no zone; an IPv4-mapped address is the IPv4 address (\<open>To4\<close>).\<close>

definition parseIP :: "string \<Rightarrow> addr option" where
  "parseIP s = (case ParseAddr s of None \<Rightarrow> None | Some a \<Rightarrow> if zoneOf a \<noteq> [] then None else Some (Unmap a))"

definition wgHostAllowedIPs :: "string \<Rightarrow> prefix list option" where
  "wgHostAllowedIPs address =
     (case cut address ''/'' of (host, _, _) \<Rightarrow>
        case parseIP (trimSpace host) of None \<Rightarrow> None | Some ip \<Rightarrow> Some [Prefix ip (bitLen ip)])"

record wgPeerConf =
  pcPublicKey :: string
  pcRemove :: bool
  pcReplaceAllowedIPs :: bool
  pcAllowedIPs :: "prefix list"
  pcPresharedKey :: "string option"
  pcEndpoint :: "string option"

datatype wgPeerError = BadPublicKey | BadAddress string | BadPresharedKey

definition wgPeerConfig :: "(string \<Rightarrow> string option) \<Rightarrow> wgRuntimePeer \<Rightarrow> wgPeerError + wgPeerConf" where
  "wgPeerConfig key peer =
     (case key (trimSpace (wpPublicKey peer)) of
        None \<Rightarrow> Inl BadPublicKey
      | Some publicKey \<Rightarrow> (case wgHostAllowedIPs (wpAddress peer) of
            None \<Rightarrow> Inl (BadAddress (wpAddress peer))
          | Some allowed \<Rightarrow>
              let config = \<lparr>pcPublicKey = publicKey, pcRemove = False, pcReplaceAllowedIPs = True, pcAllowedIPs = allowed, pcPresharedKey = None, pcEndpoint = None\<rparr>;
                  psk = trimSpace (wpPresharedKey peer) in
              if psk = [] then Inr config
              else case key psk of None \<Rightarrow> Inl BadPresharedKey | Some k \<Rightarrow> Inr (config\<lparr>pcPresharedKey := Some k\<rparr>)))"

definition removeConf :: "string \<Rightarrow> wgPeerConf" where
  "removeConf publicKey = \<lparr>pcPublicKey = publicKey, pcRemove = True, pcReplaceAllowedIPs = False, pcAllowedIPs = [], pcPresharedKey = None, pcEndpoint = None\<rparr>"

definition wgUsageUID :: "int \<Rightarrow> string" where
  "wgUsageUID userID = ''wg:'' @ formatInt userID"

definition wgPeerAddressHost :: "string \<Rightarrow> string" where
  "wgPeerAddressHost address = (case cut (trimSpace address) ''/'' of (before, _, ok) \<Rightarrow> if ok then trimSpace before else trimSpace address)"

definition wgHandshakeAdvanced :: "int \<Rightarrow> int \<Rightarrow> bool" where
  "wgHandshakeAdvanced previous current \<longleftrightarrow> previous < current"

section \<open>Sessions of peers\<close>

text \<open>
  A peer as the kernel shows it; times are nanoseconds, \<open>None\<close> for a peer without a handshake. The files of an
  interface are the maps they hold; they are read as they were last written.
\<close>

record wgDevicePeer =
  dpKey :: string
  dpEndpoint :: "string option"
  dpReceive :: int
  dpTransmit :: int
  dpHandshake :: "int option"

record wgSessionState =
  ssUserID :: int
  ssSessionID :: string
  ssAddress :: string
  ssClientIP :: string
  ssLastHandshake :: int

text \<open>\<open>wwOps\<close>: the peers passed to \<open>ConfigureDevice\<close>, whose error is dropped. \<open>wwSent\<close>: events sent without waiting.\<close>

record wgWorld =
  wwDenied :: "(string, int) gomap"
  wwActive :: "string \<Rightarrow> (string, wgSessionState) gomap"
  wwBaselines :: "string \<Rightarrow> (string, int) gomap"
  wwUsageBases :: "string \<Rightarrow> (string, int) gomap"
  wwRegistry :: sessionFile
  wwRuntime :: "wgRuntime option"
  wwOps :: "(string \<times> wgPeerConf) list"
  wwSent :: "vpnSessionEvent list"

definition second :: int where
  "second = 1000000000"

definition wgSessionTimeout :: int where
  "wgSessionTimeout = 180 * second"

definition wgAdmissionRetryDelay :: int where
  "wgAdmissionRetryDelay = 30 * second"

definition wgPeerEndpointIP :: "string option \<Rightarrow> string" where
  "wgPeerEndpointIP endpoint = (case endpoint of None \<Rightarrow> [] | Some ip \<Rightarrow> ip)"

definition wgEvent :: "int \<Rightarrow> string \<Rightarrow> string \<Rightarrow> string \<Rightarrow> string \<Rightarrow> string \<Rightarrow> vpnSessionEvent" where
  "wgEvent uid tg sessionID address clientIP event = \<lparr>evNodeID = 0, evUserID = uid, evProtocol = ''wg'', evInboundTag = tg, evSessionID = sessionID,
     evAssignedIP = wgPeerAddressHost address, evClientIP = clientIP, evEvent = event\<rparr>"

definition removePeer :: "string \<Rightarrow> string \<Rightarrow> wgWorld \<Rightarrow> wgWorld" where
  "removePeer iface k w = (if trimSpace iface = [] then w else w\<lparr>wwOps := wwOps w @ [(iface, removeConf k)]\<rparr>)"

text \<open>One peer of the device: the sessions of the interface now, and the keys that are present.\<close>

definition syncStep :: "vpnEnv \<Rightarrow> vpnSessionCallback option \<Rightarrow> int \<Rightarrow> string \<Rightarrow> string \<Rightarrow> (string, wgRuntimePeer) gomap \<Rightarrow> (string, wgSessionState) gomap
    \<Rightarrow> wgDevicePeer \<Rightarrow> (string, wgSessionState) gomap \<times> string list \<times> wgWorld \<Rightarrow> (string, wgSessionState) gomap \<times> string list \<times> wgWorld" where
  "syncStep E callback now iface tg peerByKey previous dp st =
     (case st of (current, present, w) \<Rightarrow>
        let k = dpKey dp; present = k # present in
        case (map_of peerByKey k, dpHandshake dp) of
          (Some peer, Some handshake) \<Rightarrow>
            if \<not> wgPeerActive (now div second) peer \<or> wgSessionTimeout < now - handshake then (current, present, w)
            else let sessionID = ''wg:'' @ iface @ '':'' @ k;
                     clientIP = wgPeerEndpointIP (dpEndpoint dp);
                     state = \<lparr>ssUserID = wpUserID peer, ssSessionID = sessionID, ssAddress = wpAddress peer, ssClientIP = clientIP,
                       ssLastHandshake = handshake div second\<rparr>;
                     event = wgEvent (wpUserID peer) tg sessionID (wpAddress peer) clientIP in
              (case map_of previous k of
                 None \<Rightarrow>
                   (case vpnAdmitGoSession E callback (event ''start'') (wpDeviceLimit peer) (wwRegistry w) of
                      (False, sent, tsv) \<Rightarrow>
                        (current, removeAll k present, removePeer iface k (w\<lparr>wwRegistry := tsv, wwSent := wwSent w @ sent,
                           wwDenied := AList.update k (now + wgAdmissionRetryDelay) (wwDenied w)\<rparr>))
                    | (True, sent, tsv) \<Rightarrow> (AList.update k state current, present, w\<lparr>wwRegistry := tsv, wwSent := wwSent w @ sent\<rparr>))
               | Some old \<Rightarrow>
                   (AList.update k state current, present,
                    if wgHandshakeAdvanced (ssLastHandshake old) (ssLastHandshake state) then w\<lparr>wwSent := wwSent w @ [event ''seen'']\<rparr> else w))
        | _ \<Rightarrow> (current, present, w))"

definition releaseStep :: "vpnEnv \<Rightarrow> string \<Rightarrow> (string, wgSessionState) gomap \<Rightarrow> string \<times> wgSessionState \<Rightarrow> wgWorld \<Rightarrow> wgWorld" where
  "releaseStep E tg current p w =
     (if map_of current (fst p) \<noteq> None then w
      else let s = snd p in
        case vpnReleaseGoSession E (wgEvent (ssUserID s) tg (ssSessionID s) (ssAddress s) (ssClientIP s) ''stop'') (wwRegistry w) of
          (sent, tsv) \<Rightarrow> w\<lparr>wwRegistry := tsv, wwSent := wwSent w @ sent\<rparr>)"

definition restoreStep :: "vpnEnv \<Rightarrow> (string \<Rightarrow> string option) \<Rightarrow> int \<Rightarrow> string \<Rightarrow> string list \<Rightarrow> wgRuntimePeer \<Rightarrow> wgWorld \<Rightarrow> wgWorld" where
  "restoreStep E key now iface present peer w =
     (let k = trimSpace (wpPublicKey peer) in
      if k = [] \<or> \<not> wgPeerActive (now div second) peer then w
      else if k \<in> set present then w
      else if (case map_of (wwDenied w) k of None \<Rightarrow> False | Some until \<Rightarrow> now < until) then w
      else let w = w\<lparr>wwDenied := AList.delete k (wwDenied w)\<rparr> in
        if \<not> vpnUserCanOpenSession E (wpUserID peer) (wpDeviceLimit peer) (wwRegistry w) then w
        else case wgPeerConfig key peer of Inl _ \<Rightarrow> w | Inr config \<Rightarrow> w\<lparr>wwOps := wwOps w @ [(iface, config)]\<rparr>)"

definition restoreAvailablePeers :: "vpnEnv \<Rightarrow> (string \<Rightarrow> string option) \<Rightarrow> int \<Rightarrow> string \<Rightarrow> wgRuntimePeer list \<Rightarrow> string list \<Rightarrow> wgWorld \<Rightarrow> wgWorld" where
  "restoreAvailablePeers E key now iface peers present w =
     (if trimSpace iface = [] then w else fold (restoreStep E key now iface present) peers w)"

definition syncPeerSessions :: "vpnEnv \<Rightarrow> (string \<Rightarrow> string option) \<Rightarrow> vpnSessionCallback option \<Rightarrow> int \<Rightarrow> string \<Rightarrow> wgRuntimeInbound \<Rightarrow> wgDevicePeer list
    \<Rightarrow> (string, wgRuntimePeer) gomap \<Rightarrow> wgWorld \<Rightarrow> wgWorld" where
  "syncPeerSessions E key callback now iface inbound device peerByKey w =
     (let previous = wwActive w iface in
      case fold (syncStep E callback now iface (wiTag inbound) peerByKey previous) device ([], [], w) of
        (current, present, w1) \<Rightarrow>
          let w2 = fold (releaseStep E (wiTag inbound) current) previous w1;
              w3 = restoreAvailablePeers E key now iface (wiPeers inbound) present w2
          in w3\<lparr>wwActive := (wwActive w3)(iface := current)\<rparr>)"

section \<open>Usage of peers\<close>

definition limitPeer :: "string \<Rightarrow> int \<Rightarrow> wgRuntimePeer \<Rightarrow> wgRuntimePeer" where
  "limitPeer k limit peer = (if trimSpace (wpPublicKey peer) = k \<and> wpUsedTraffic peer < limit then peer\<lparr>wpUsedTraffic := limit\<rparr> else peer)"

definition markPeerLimited :: "string \<Rightarrow> string \<Rightarrow> int \<Rightarrow> wgRuntime option \<Rightarrow> wgRuntime option" where
  "markPeerLimited tg k limit runtime =
     (if limit \<le> 0 then runtime
      else map_option (\<lambda>r. r\<lparr>wrInbounds := map (\<lambda>i. if wiTag i = tg then i\<lparr>wiPeers := map (limitPeer k limit) (wiPeers i)\<rparr> else i) (wrInbounds r)\<rparr>) runtime)"

definition wgPeersByKey :: "wgRuntimePeer list \<Rightarrow> (string, wgRuntimePeer) gomap" where
  "wgPeersByKey peers = fold (\<lambda>peer m. let k = trimSpace (wpPublicKey peer) in if k \<noteq> [] then AList.update k peer m else m) peers []"

definition wgDelta :: "(string, int) gomap \<Rightarrow> string \<Rightarrow> int \<Rightarrow> int" where
  "wgDelta baselines k current = (case map_of baselines k of None \<Rightarrow> current | Some previous \<Rightarrow> if previous \<le> current then int64 (current - previous) else current)"

text \<open>
  What becomes of a file that is saved, since its errors are dropped: it is written, it stays as it was (the directory cannot be made or the file
  not opened), or only a part is written. A part of a JSON object is not JSON, and a file that does not decode counts as empty,
  the runtime as missing.
\<close>

datatype saveOutcome = Saved | NotWritten | Torn

definition savedAs :: "saveOutcome \<Rightarrow> 'a \<Rightarrow> 'a \<Rightarrow> 'a \<Rightarrow> 'a" where
  "savedAs outcome unreadable new old = (case outcome of Saved \<Rightarrow> new | NotWritten \<Rightarrow> old | Torn \<Rightarrow> unreadable)"

record wgSaves =
  svBaselines :: "string \<Rightarrow> saveOutcome"
  svUsageBases :: "string \<Rightarrow> saveOutcome"
  svRuntime :: "string \<Rightarrow> saveOutcome"

text \<open>\<open>markPeerLimited\<close> with its file: it is written when something changed.\<close>

definition saveLimited :: "saveOutcome \<Rightarrow> wgRuntime option \<Rightarrow> wgRuntime option \<Rightarrow> wgRuntime option" where
  "saveLimited outcome new old = (if new = old then old else savedAs outcome None new old)"

text \<open>The totals, the next baselines and usage bases, and the world, through one peer of the device.\<close>

type_synonym wgUsage = "usageTotals \<times> (string, int) gomap \<times> (string, int) gomap \<times> wgWorld"

definition wgUsageStep :: "wgSaves \<Rightarrow> string \<Rightarrow> string \<Rightarrow> (string, wgRuntimePeer) gomap \<Rightarrow> (string, int) gomap \<Rightarrow> (string, int) gomap \<Rightarrow> wgDevicePeer \<Rightarrow> wgUsage \<Rightarrow> wgUsage" where
  "wgUsageStep V iface tg peerByKey baselines usageBases dp st =
     (case st of (totals, next, bases, w) \<Rightarrow>
        let k = dpKey dp; current = int64 (dpReceive dp + dpTransmit dp); next = AList.update k current next in
        case map_of peerByKey k of None \<Rightarrow> (totals, next, bases, w)
        | Some peer \<Rightarrow>
            let base = (case map_of usageBases k of None \<Rightarrow> wpUsedTraffic peer | Some b \<Rightarrow> b);
                bases = AList.update k base bases;
                delta = wgDelta baselines k current;
                totals = (if 0 < delta then addUserUsage totals (wgUsageUID (wpUserID peer)) tg delta else totals) in
            (case wpDataLimit peer of
               Some limit \<Rightarrow>
                 if 0 < limit \<and> limit \<le> int64 (base + current)
                 then (totals, AList.delete k next, AList.delete k bases,
                   (removePeer iface k w)\<lparr>wwRuntime := saveLimited (svRuntime V k) (markPeerLimited tg k limit (wwRuntime w)) (wwRuntime w)\<rparr>)
                 else (totals, next, bases, w)
             | None \<Rightarrow> (totals, next, bases, w)))"

text \<open>\<open>ifaceName\<close> is \<open>wgIfaceName\<close>, of a SHA-1 sum; \<open>device\<close> is what the kernel shows of an interface.\<close>

definition wgCollectInbound :: "wgSaves \<Rightarrow> vpnEnv \<Rightarrow> (string \<Rightarrow> string option) \<Rightarrow> (string \<Rightarrow> string) \<Rightarrow> (string \<Rightarrow> wgDevicePeer list option) \<Rightarrow> vpnSessionCallback option \<Rightarrow> int
    \<Rightarrow> wgRuntimeInbound \<Rightarrow> usageTotals \<times> wgWorld \<Rightarrow> usageTotals \<times> wgWorld" where
  "wgCollectInbound V E key ifaceName device callback now inbound st =
     (case st of (totals, w) \<Rightarrow>
        let iface = ifaceName (wiTag inbound) in
        case device iface of None \<Rightarrow> (totals, w)
        | Some peers \<Rightarrow>
            let peerByKey = wgPeersByKey (wiPeers inbound);
                w = syncPeerSessions E key callback now iface inbound peers peerByKey w in
            (case fold (wgUsageStep V iface (wiTag inbound) peerByKey (wwBaselines w iface) (wwUsageBases w iface)) peers (totals, [], [], w) of
               (totals, next, bases, w) \<Rightarrow>
                 (totals, w\<lparr>wwBaselines := (wwBaselines w)(iface := savedAs (svBaselines V iface) [] next (wwBaselines w iface)),
                    wwUsageBases := (wwUsageBases w)(iface := savedAs (svUsageBases V iface) [] bases (wwUsageBases w iface))\<rparr>)))"

definition wgCollectUsage :: "wgSaves \<Rightarrow> vpnEnv \<Rightarrow> (string \<Rightarrow> string option) \<Rightarrow> (string \<Rightarrow> string) \<Rightarrow> bool \<Rightarrow> (string \<Rightarrow> wgDevicePeer list option) \<Rightarrow> int \<Rightarrow> wgWorld \<Rightarrow> userStat list \<times> wgWorld" where
  "wgCollectUsage V E key ifaceName client device now w =
     (if \<not> client then ([], w)
      else case wwRuntime w of None \<Rightarrow> ([], w)
        | Some r \<Rightarrow>
            (case fold (wgCollectInbound V E key ifaceName device (wrSessionCallback r) now) (wrInbounds r) ([], w) of
               (totals, w) \<Rightarrow> (userUsageStats totals, w)))"

section \<open>What an accepted runtime guarantees\<close>

text \<open>The peers of an inbound, by the loop over them.\<close>

definition peerAddr :: "wgRuntimePeer \<Rightarrow> addr option" where
  "peerAddr peer = wgPeerAddr (trimSpace (wpAddress peer))"

definition peerKey :: "wgRuntimePeer \<Rightarrow> string" where
  "peerKey peer = trimSpace (wpPublicKey peer)"

definition peerPlaced :: "(string \<Rightarrow> string option) \<Rightarrow> prefix \<Rightarrow> addr option \<Rightarrow> wgRuntimePeer \<Rightarrow> bool" where
  "peerPlaced key pfx server peer \<longleftrightarrow> 0 < wpUserID peer \<and> peerKey peer \<noteq> [] \<and> key (peerKey peer) \<noteq> None
     \<and> (\<exists>a. peerAddr peer = Some a \<and> pfxContains pfx a \<and> a \<noteq> pfxAddr pfx \<and> server \<noteq> Some a)"

lemma wgCheckPeers_step:
  assumes "wgCheckPeers key tg pfx server seen seenKeys (peer # peers) = None"
  obtains a where "peerAddr peer = Some a" "peerPlaced key pfx server peer" "map_of seen a = None" "map_of seenKeys (peerKey peer) = None"
    "wgCheckPeers key tg pfx server (AList.update a (wpUserID peer) seen) (AList.update (peerKey peer) (wpUserID peer) seenKeys) peers = None"
  using assms that
  by (auto simp: Let_def peerAddr_def peerKey_def peerPlaced_def simp del: map_of_update split: if_splits option.splits)

lemma wgCheckPeers_ok:
  "wgCheckPeers key tg pfx server seen seenKeys peers = None \<Longrightarrow>
     (\<forall>peer \<in> set peers. peerPlaced key pfx server peer \<and> map_of seenKeys (peerKey peer) = None \<and> map_of seen (the (peerAddr peer)) = None)
     \<and> distinct (map peerKey peers) \<and> distinct (map peerAddr peers)"
proof (induction peers arbitrary: seen seenKeys)
  case (Cons peer peers)
  obtain a where a: "peerAddr peer = Some a" "peerPlaced key pfx server peer" "map_of seen a = None" "map_of seenKeys (peerKey peer) = None"
    "wgCheckPeers key tg pfx server (AList.update a (wpUserID peer) seen) (AList.update (peerKey peer) (wpUserID peer) seenKeys) peers = None"
    using wgCheckPeers_step [OF Cons.prems] by blast
  have placed: "peerPlaced key pfx server p \<and> peerKey p \<noteq> peerKey peer \<and> map_of seenKeys (peerKey p) = None
      \<and> the (peerAddr p) \<noteq> a \<and> map_of seen (the (peerAddr p)) = None" if "p \<in> set peers" for p
    using Cons.IH [OF a(5)] that by (auto split: if_splits)
  have "peerKey peer \<notin> peerKey ` set peers" "Some a \<notin> peerAddr ` set peers" using placed by (metis imageE option.sel)+
  moreover have "distinct (map peerKey peers) \<and> distinct (map peerAddr peers)" using Cons.IH [OF a(5)] by simp
  ultimately show ?case using a placed by simp
qed simp

text \<open>An inbound: its port, its network and its peers.\<close>

definition wgNet :: "floats \<Rightarrow> wgRuntimeInbound \<Rightarrow> ipnet option" where
  "wgNet F inbound = ParseCIDR (trimSpace (wgPool F inbound))"

definition wgSound :: "floats \<Rightarrow> (string \<Rightarrow> string option) \<Rightarrow> wgRuntimeInbound \<Rightarrow> bool" where
  "wgSound F key inbound \<longleftrightarrow> 1 \<le> wiListenPort inbound \<and> wiListenPort inbound \<le> 65535
     \<and> (\<exists>network pfx server. wgNet F inbound = Some network \<and> Is4 (netIP network) \<and> ParsePrefix (trimSpace (wgPool F inbound)) = Some pfx
          \<and> wgServer (wiTag inbound) pfx (wgServerOf F inbound) = Inr server
          \<and> (\<forall>peer \<in> set (wiPeers inbound). peerPlaced key pfx server peer))
     \<and> distinct (map peerKey (wiPeers inbound)) \<and> distinct (map peerAddr (wiPeers inbound))"

lemma wgValidateFrom_step:
  assumes "wgValidateFrom F key usedPorts claimed (inbound # ibs) = None"
  obtains network where "wgSound F key inbound" "wgNet F inbound = Some network" "map_of usedPorts (wiListenPort inbound) = None"
    "find (wgOverlap network) claimed = None"
    "wgValidateFrom F key (AList.update (wiListenPort inbound) (wiTag inbound) usedPorts) (claimed @ [network]) ibs = None"
proof -
  obtain network where n: "1 \<le> wiListenPort inbound" "wiListenPort inbound \<le> 65535" "wgNet F inbound = Some network" "Is4 (netIP network)"
    "map_of usedPorts (wiListenPort inbound) = None" "find (wgOverlap network) claimed = None"
    "wgValidatePeerAddresses key (wiTag inbound) (wgPool F inbound) (wgServerOf F inbound) (wiPeers inbound) = None"
    "wgValidateFrom F key (AList.update (wiListenPort inbound) (wiTag inbound) usedPorts) (claimed @ [network]) ibs = None"
    using assms by (auto simp: Let_def wgNet_def simp del: map_of_update split: if_splits option.splits)
  obtain pfx server where p: "ParsePrefix (trimSpace (wgPool F inbound)) = Some pfx" "wgServer (wiTag inbound) pfx (wgServerOf F inbound) = Inr server"
    "wgCheckPeers key (wiTag inbound) pfx server [] [] (wiPeers inbound) = None"
    using n(7) by (auto simp: wgValidatePeerAddresses_def split: option.splits sum.splits)
  have "wgSound F key inbound" using n p wgCheckPeers_ok [OF p(3)] by (auto simp: wgSound_def)
  then show ?thesis using n that by blast
qed

text \<open>Two inbounds do not share a port or an address of their pools.\<close>

definition separate :: "floats \<Rightarrow> wgRuntimeInbound \<Rightarrow> wgRuntimeInbound \<Rightarrow> bool" where
  "separate F x y \<longleftrightarrow> wiListenPort x \<noteq> wiListenPort y
     \<and> (\<forall>M N a. wgNet F x = Some M \<and> wgNet F y = Some N \<longrightarrow> \<not> (netContains M a \<and> netContains N a))"

lemma ParseCIDR_ones:
  assumes "ParseCIDR s = Some N"
  shows "netOnes N \<le> bitLen (netIP N)"
proof -
  have "netOnes (parseNet a n) \<le> bitLen (netIP (parseNet a n))" if "n \<le> bitLen a" for a n
    using that by (cases a) (simp_all add: parseNet_def le_diff_conv)
  then show ?thesis using assms by (auto simp: ParseCIDR_def not_less split: prod.splits option.splits if_splits)
qed

lemma not_overlap_disjoint:
  assumes "wgNet F x = Some M" and "wgNet F y = Some N" and "\<not> wgOverlap M N"
  shows "\<not> (netContains M a \<and> netContains N a)"
proof
  assume *: "netContains M a \<and> netContains N a"
  then have "bitLen (netIP M) = bitLen a" "bitLen (netIP N) = bitLen a" by (simp_all add: netContains_def)
  with ParseCIDR_ones assms(1,2) have "netOnes M \<le> bitLen a" "netOnes N \<le> bitLen a" by (fastforce simp: wgNet_def)+
  with networks_nested [of M a N] * assms(3) show False by (auto simp: wgOverlap_def)
qed

lemma wgValidateFrom_ok:
  "wgValidateFrom F key usedPorts claimed ibs = None \<Longrightarrow>
     (\<forall>x \<in> set ibs. wgSound F key x \<and> map_of usedPorts (wiListenPort x) = None
        \<and> (\<forall>N \<in> set claimed. \<forall>M. wgNet F x = Some M \<longrightarrow> \<not> wgOverlap M N))
     \<and> sorted_wrt (separate F) ibs"
proof (induction ibs arbitrary: usedPorts claimed)
  case (Cons x ibs)
  obtain M where x: "wgSound F key x" "wgNet F x = Some M" "map_of usedPorts (wiListenPort x) = None" "find (wgOverlap M) claimed = None"
    "wgValidateFrom F key (AList.update (wiListenPort x) (wiTag x) usedPorts) (claimed @ [M]) ibs = None"
    using wgValidateFrom_step [OF Cons.prems] by blast
  have rest: "wgSound F key y \<and> wiListenPort y \<noteq> wiListenPort x \<and> map_of usedPorts (wiListenPort y) = None
      \<and> (\<forall>N \<in> set claimed \<union> {M}. \<forall>N'. wgNet F y = Some N' \<longrightarrow> \<not> wgOverlap N' N)" if "y \<in> set ibs" for y
    using Cons.IH [OF x(5)] that by (auto split: if_splits)
  have "separate F x y" if "y \<in> set ibs" for y
    using rest [OF that] x(2) not_overlap_disjoint [of F y _ x M] unfolding separate_def by (metis UnI2 insertI1 option.inject)
  moreover have "\<not> wgOverlap M N" if "N \<in> set claimed" for N using x(4) that by (auto simp: find_None_iff)
  ultimately show ?case using x rest Cons.IH [OF x(5)] by auto
qed simp

text \<open>
  (C19) The inbounds of an accepted runtime do not collide: every one has a port of its own and an IPv4 pool that has no
  address in common with another, and in each the peers have valid and distinct keys and distinct addresses of the
  pool, none of which is the address of the server.
\<close>

theorem wg_accepted_runtime:
  assumes "wgValidateInbounds F key ibs = None"
  shows "(\<forall>x \<in> set ibs. wgSound F key x) \<and> sorted_wrt (separate F) ibs"
  using wgValidateFrom_ok [of F key "[]" "[]" ibs] assms by (simp add: wgValidateInbounds_def)

section \<open>Peers are pinned to their address\<close>

lemma digitsVal_digits: "digitsVal acc s = Some n \<Longrightarrow> c \<in> set s \<Longrightarrow> digitVal c \<noteq> None"
  by (induction s arbitrary: acc) (auto split: option.splits)

lemma parseIPv4_chars: "parseIPv4 s = Some n \<Longrightarrow> c \<in> set s \<Longrightarrow> c = CHR ''.'' \<or> digitVal c \<noteq> None"
proof -
  assume n: "parseIPv4 s = Some n" and c: "c \<in> set s"
  have oct: "parseOctet p \<noteq> None" if "p \<in> set (splitOn s ''.'')" for p
  proof -
    have "None \<notin> set (map parseOctet (splitOn s ''.''))" using n by (auto simp: parseIPv4_def split: list.splits option.splits)
    then show ?thesis using that by (metis image_eqI image_set)
  qed
  have d: "digitVal x \<noteq> None" if p: "p \<in> set (splitOn s ''.'')" and x: "x \<in> set p" for p x
  proof -
    obtain v where "parseOctet p = Some v" using oct [OF p] by blast
    then have "digitsVal 0 p = Some v" by (simp add: parseOctet_def split: if_splits option.splits)
    then show ?thesis using digitsVal_digits x by blast
  qed
  have "c \<in> set (joinWith ''.'' (splitOn s ''.''))" using c joinWith_splitOn [of "''.''" s] by simp
  from joinWith_set [OF this] show ?thesis using d by auto
qed

lemma ParseAddr_V4: "ParseAddr s = Some (V4 n) \<Longrightarrow> parseIPv4 s = Some n"
  by (auto simp: ParseAddr_def parseIPv6_def split: option.splits if_splits prod.splits)

lemma V4_no_slash: "ParseAddr s = Some (V4 n) \<Longrightarrow> CHR ''/'' \<notin> set s"
  using parseIPv4_chars [OF ParseAddr_V4, of s n "CHR ''/''"] by (auto simp: digitVal_def)

lemma V4_trimmed:
  assumes "ParseAddr s = Some (V4 n)"
  shows "trimSpace s = s"
proof -
  have g: "graphic c" if "c \<in> set s" for c
    using parseIPv4_chars [OF ParseAddr_V4 [OF assms] that] by (auto simp: digitVal_def Let_def graphic_def split: if_splits)
  have "s \<noteq> []" using assms by (auto simp: ParseAddr_def)
  then show ?thesis using g by (intro trimSpace_graphic) simp_all
qed

lemma cutLastSlash_eq: "cutLastSlash s = Some (ip, bits) \<Longrightarrow> s = ip @ ''/'' @ bits"
proof -
  assume "cutLastSlash s = Some (ip, bits)"
  then have "cut (rev s) ''/'' = (rev bits, rev ip, True)" by (auto simp: cutLastSlash_def split: prod.splits if_splits)
  from cut_found [OF this] have "rev (rev s) = rev (rev bits @ ''/'' @ rev ip)" by simp
  then show ?thesis by simp
qed

lemma wgPeerAddr_host:
  assumes "trimSpace address = address" and "wgPeerAddr address = Some (V4 n)"
  shows "wgHostAllowedIPs address = Some [Prefix (V4 n) 32]"
proof -
  have host: "\<exists>host rest ok. cut address ''/'' = (host, rest, ok) \<and> ParseAddr host = Some (V4 n)"
  proof (cases "ParsePrefix address")
    case None
    then have "ParseAddr address = Some (V4 n)" using assms by (simp add: wgPeerAddr_def)
    then show ?thesis using V4_no_slash cut_char_absent [of "CHR ''/''" address] by auto
  next
    case (Some p)
    then obtain ip bits where ip: "cutLastSlash address = Some (ip, bits)" "ParseAddr ip = Some (pfxAddr p)"
      by (auto simp: ParsePrefix_def split: option.splits prod.splits if_splits)
    have "pfxAddr p = V4 n" using assms Some by (simp add: wgPeerAddr_def)
    then show ?thesis using ip V4_no_slash [of ip n] cutLastSlash_eq [OF ip(1)] cut_char_append [of "CHR ''/''" ip bits] by auto
  qed
  then show ?thesis by (auto simp: wgHostAllowedIPs_def parseIP_def V4_trimmed)
qed

lemma peer_pinned_address:
  assumes "wgSound F key x" and "ParsePrefix (trimSpace (wgPool F x)) = Some (Prefix (V4 net) bits)" and "p \<in> set (wiPeers x)" and "trimSpace (wpAddress p) = wpAddress p"
  shows "\<exists>m. peerAddr p = Some (V4 m) \<and> wgHostAllowedIPs (wpAddress p) = Some [Prefix (V4 m) 32]"
proof -
  obtain server where "peerPlaced key (Prefix (V4 net) bits) server p" using assms by (auto simp: wgSound_def)
  then obtain a where a: "peerAddr p = Some a" "pfxContains (Prefix (V4 net) bits) a" by (auto simp: peerPlaced_def)
  then obtain m where "a = V4 m" by (cases a) (auto simp: pfxContains_def)
  then show ?thesis using a assms(4) wgPeerAddr_host [of "wpAddress p" m] by (auto simp: peerAddr_def)
qed

text \<open>
  In an accepted IPv4 inbound the kernel takes from a peer packets of one address only, and the addresses of any two
  peers differ: a client cannot use the tunnel address of another.
\<close>

theorem wg_peers_pinned:
  assumes "wgSound F key x" and "ParsePrefix (trimSpace (wgPool F x)) = Some (Prefix (V4 net) bits)"
    and "\<forall>p \<in> set (wiPeers x). trimSpace (wpAddress p) = wpAddress p"
    and "i < length (wiPeers x)" and "j < length (wiPeers x)" and "i \<noteq> j"
    and "wgPeerConfig key (wiPeers x ! i) = Inr c" and "wgPeerConfig key (wiPeers x ! j) = Inr d"
  shows "\<exists>m n. pcAllowedIPs c = [Prefix (V4 m) 32] \<and> pcAllowedIPs d = [Prefix (V4 n) 32] \<and> m \<noteq> n"
proof -
  have one: "\<exists>m. peerAddr p = Some (V4 m) \<and> wgHostAllowedIPs (wpAddress p) = Some [Prefix (V4 m) 32]" if "p \<in> set (wiPeers x)" for p
    using peer_pinned_address [OF assms(1,2) that] assms(3) that by blast
  obtain m where m: "peerAddr (wiPeers x ! i) = Some (V4 m)" "wgHostAllowedIPs (wpAddress (wiPeers x ! i)) = Some [Prefix (V4 m) 32]"
    using one [OF nth_mem [OF assms(4)]] by blast
  obtain n where n: "peerAddr (wiPeers x ! j) = Some (V4 n)" "wgHostAllowedIPs (wpAddress (wiPeers x ! j)) = Some [Prefix (V4 n) 32]"
    using one [OF nth_mem [OF assms(5)]] by blast
  have "distinct (map peerAddr (wiPeers x))" using assms(1) by (simp add: wgSound_def)
  then have "map peerAddr (wiPeers x) ! i \<noteq> map peerAddr (wiPeers x) ! j" using assms(4,5,6) by (simp only: nth_eq_iff_index_eq length_map not_False_eq_True)
  then have "m \<noteq> n" using m(1) n(1) assms(4,5) by auto
  moreover have "pcAllowedIPs c = [Prefix (V4 m) 32]" "pcAllowedIPs d = [Prefix (V4 n) 32]"
    using assms(7,8) m(2) n(2) by (auto simp: wgPeerConfig_def Let_def split: option.splits if_splits)
  ultimately show ?thesis by blast
qed

section \<open>Usage and limits\<close>

definition wgCurrent :: "wgDevicePeer \<Rightarrow> int" where
  "wgCurrent dp = int64 (dpReceive dp + dpTransmit dp)"

definition wgBase :: "(string, int) gomap \<Rightarrow> wgRuntimePeer \<Rightarrow> string \<Rightarrow> int" where
  "wgBase usageBases peer k = (case map_of usageBases k of None \<Rightarrow> wpUsedTraffic peer | Some b \<Rightarrow> b)"

text \<open>A peer of the device at the limit of its user, with the limit.\<close>

definition wgOver :: "(string, wgRuntimePeer) gomap \<Rightarrow> (string, int) gomap \<Rightarrow> wgDevicePeer \<Rightarrow> int option" where
  "wgOver peerByKey usageBases dp =
     (case map_of peerByKey (dpKey dp) of None \<Rightarrow> None
      | Some peer \<Rightarrow> (case wpDataLimit peer of None \<Rightarrow> None
          | Some limit \<Rightarrow> if 0 < limit \<and> limit \<le> int64 (wgBase usageBases peer (dpKey dp) + wgCurrent dp) then Some limit else None))"

text \<open>
  The specification of a charge, on integers: a counter grew by the difference to its value at the last collection; one that is new, or that fell
  because the device was made again, grew by all of it.
\<close>

definition growth :: "int option \<Rightarrow> int \<Rightarrow> int" where
  "growth previous current = (if \<exists>p. previous = Some p \<and> p \<le> current then current - the previous else current)"

definition wgCharge :: "string \<Rightarrow> (string, wgRuntimePeer) gomap \<Rightarrow> (string, int) gomap \<Rightarrow> wgDevicePeer \<Rightarrow> string \<times> string \<Rightarrow> int" where
  "wgCharge tg peerByKey baselines dp x =
     (case map_of peerByKey (dpKey dp) of None \<Rightarrow> 0
      | Some peer \<Rightarrow> if x = (wgUsageUID (wpUserID peer), tg) then growth (map_of baselines (dpKey dp)) (dpReceive dp + dpTransmit dp) else 0)"

lemma wgUsageStep_fields:
  "fst (wgUsageStep V iface tg peerByKey baselines usageBases dp st) =
     (case map_of peerByKey (dpKey dp) of None \<Rightarrow> fst st
      | Some peer \<Rightarrow> if 0 < wgDelta baselines (dpKey dp) (wgCurrent dp)
          then addUserUsage (fst st) (wgUsageUID (wpUserID peer)) tg (wgDelta baselines (dpKey dp) (wgCurrent dp)) else fst st)"
  "fst (snd (wgUsageStep V iface tg peerByKey baselines usageBases dp st)) =
     (if wgOver peerByKey usageBases dp = None then AList.update (dpKey dp) (wgCurrent dp) (fst (snd st))
      else AList.delete (dpKey dp) (AList.update (dpKey dp) (wgCurrent dp) (fst (snd st))))"
  "snd (snd (snd (wgUsageStep V iface tg peerByKey baselines usageBases dp st))) =
     (case wgOver peerByKey usageBases dp of None \<Rightarrow> snd (snd (snd st))
      | Some limit \<Rightarrow> (removePeer iface (dpKey dp) (snd (snd (snd st))))\<lparr>wwRuntime := saveLimited (svRuntime V (dpKey dp)) (markPeerLimited tg (dpKey dp) limit (wwRuntime (snd (snd (snd st))))) (wwRuntime (snd (snd (snd st))))\<rparr>)"
  by (cases st; simp add: wgUsageStep_def Let_def wgOver_def wgCurrent_def wgBase_def split: option.split)+

text \<open>Counters of the kernel that are numbers of bytes, whose sum is an \<open>int64\<close>, and baselines that are not negative.\<close>

definition wgCounters :: "wgDevicePeer list \<Rightarrow> (string, int) gomap \<Rightarrow> bool" where
  "wgCounters device baselines \<longleftrightarrow> (\<forall>dp \<in> set device. 0 \<le> dpReceive dp \<and> 0 \<le> dpTransmit dp \<and> dpReceive dp + dpTransmit dp \<le> max_int64)
     \<and> (\<forall>p \<in> set baselines. 0 \<le> snd p)"

lemma wgCurrent_sum: "wgCounters device baselines \<Longrightarrow> dp \<in> set device \<Longrightarrow> wgCurrent dp = dpReceive dp + dpTransmit dp \<and> 0 \<le> wgCurrent dp"
proof -
  assume "wgCounters device baselines" "dp \<in> set device"
  then have "0 \<le> dpReceive dp + dpTransmit dp" "dpReceive dp + dpTransmit dp \<le> max_int64" by (auto simp: wgCounters_def)
  then show ?thesis by (simp add: wgCurrent_def int64_id is_int64_def)
qed

lemma wgDelta_growth:
  assumes "0 \<le> c" "c \<le> max_int64" and "\<forall>p \<in> set baselines. 0 \<le> snd p"
  shows "wgDelta baselines k c = growth (map_of baselines k) c"
proof -
  have "0 \<le> v" if "map_of baselines k = Some v" for v using assms(3) map_of_SomeD [OF that] by auto
  then show ?thesis using assms(1,2) by (auto simp: wgDelta_def growth_def int64_id is_int64_def split: option.split)
qed

lemma wgDelta_range:
  assumes "0 \<le> c" "c \<le> max_int64" and "\<forall>p \<in> set baselines. 0 \<le> snd p"
  shows "0 \<le> wgDelta baselines k c \<and> wgDelta baselines k c \<le> c"
proof -
  have "0 \<le> v" if "map_of baselines k = Some v" for v using assms(3) map_of_SomeD [OF that] by auto
  then show ?thesis using assms(1,2) by (auto simp: wgDelta_def int64_id is_int64_def split: option.split)
qed

lemma wgCurrent_max: "wgCurrent dp \<le> max_int64"
  using is_int64_int64 by (simp add: wgCurrent_def is_int64_def)

lemma wgUsage_totals:
  "\<lbrakk>wgCounters device baselines; \<And>x. 0 \<le> mget 0 (fst st) x; \<And>x. mget 0 (fst st) x + sum_list (map wgCurrent device) \<le> max_int64\<rbrakk>
   \<Longrightarrow> mget 0 (fst (fold (wgUsageStep V iface tg peerByKey baselines usageBases) device st)) x
     = mget 0 (fst st) x + (\<Sum>dp\<leftarrow>device. wgCharge tg peerByKey baselines dp x)"
proof (induction device arbitrary: st)
  case (Cons dp device)
  let ?st = "wgUsageStep V iface tg peerByKey baselines usageBases dp st" and ?d = "wgDelta baselines (dpKey dp) (wgCurrent dp)"
  have b: "\<forall>p \<in> set baselines. 0 \<le> snd p" and dc: "wgCurrent dp = dpReceive dp + dpTransmit dp" "0 \<le> wgCurrent dp"
    using Cons.prems(1) wgCurrent_sum [OF Cons.prems(1), of dp] by (simp_all add: wgCounters_def)
  have d: "0 \<le> ?d" "?d \<le> wgCurrent dp" using wgDelta_range [OF dc(2) wgCurrent_max b] by simp_all
  have g: "growth (map_of baselines (dpKey dp)) (dpReceive dp + dpTransmit dp) = ?d"
    using wgDelta_growth [OF dc(2) wgCurrent_max b] dc(1) by simp
  have "0 \<le> y" if "y \<in> set (map wgCurrent device)" for y using that wgCurrent_sum [OF Cons.prems(1)] by fastforce
  then have rest: "0 \<le> sum_list (map wgCurrent device)" by (rule sum_list_nonneg)
  have room: "mget 0 (fst st) y + ?d \<le> max_int64" for y using Cons.prems(3) [of y] d rest by simp
  have step: "mget 0 (fst ?st) y = mget 0 (fst st) y + wgCharge tg peerByKey baselines dp y" for y
    using d room Cons.prems(2) by (auto simp: wgUsageStep_fields wgCharge_def g addUserUsage_counted wgUsageUID_def split: option.split)
  have charge: "0 \<le> wgCharge tg peerByKey baselines dp y \<and> wgCharge tg peerByKey baselines dp y \<le> wgCurrent dp" for y
    using d dc by (simp add: wgCharge_def g split: option.split)
  have "0 \<le> mget 0 (fst ?st) y" "mget 0 (fst ?st) y + sum_list (map wgCurrent device) \<le> max_int64" for y
    using step [of y] Cons.prems(2) [of y] Cons.prems(3) [of y] charge [of y] by simp_all
  then show ?case using Cons.IH [of ?st] Cons.prems(1) step by (simp add: wgCounters_def)
qed simp


lemma wgUsageStep_baselines: "wwBaselines (snd (snd (snd (wgUsageStep V iface tg peerByKey baselines usageBases dp st)))) = wwBaselines (snd (snd (snd st)))"
  by (simp add: wgUsageStep_fields removePeer_def Let_def split: option.split)

lemma fold_baselines: "wwBaselines (snd (snd (snd (fold (wgUsageStep V iface tg peerByKey baselines usageBases) device st)))) = wwBaselines (snd (snd (snd st)))"
  by (induction device arbitrary: st) (simp_all add: wgUsageStep_baselines)

text \<open>The sessions of an interface leave the files of the usage and the runtime alone.\<close>

definition usageFiles :: "wgWorld \<Rightarrow> (string \<Rightarrow> (string, int) gomap) \<times> (string \<Rightarrow> (string, int) gomap) \<times> wgRuntime option" where
  "usageFiles w = (wwBaselines w, wwUsageBases w, wwRuntime w)"

lemma fold_keeps: "(\<And>x st. f (g x st) = f st) \<Longrightarrow> f (fold g xs st) = f st"
  by (induction xs arbitrary: st) simp_all

lemma sync_keeps: "usageFiles (syncPeerSessions E key callback now iface inbound device peerByKey w) = usageFiles w"
proof -
  have sync: "usageFiles (snd (snd (syncStep E callback now iface tg peerByKey previous dp st))) = usageFiles (snd (snd st))" for tg previous dp st
    by (cases st) (simp add: syncStep_def Let_def usageFiles_def removePeer_def split: option.split prod.split bool.split)
  have release: "usageFiles (releaseStep E tg current p w) = usageFiles w" for tg current p w
    by (simp add: releaseStep_def usageFiles_def Let_def split: prod.split)
  have restore: "usageFiles (restoreAvailablePeers E key now iface peers present w) = usageFiles w" for peers present w
    unfolding restoreAvailablePeers_def by (simp add: fold_keeps restoreStep_def usageFiles_def Let_def split: option.split sum.split)
  have active: "usageFiles (w\<lparr>wwActive := m\<rparr>) = usageFiles w" for w m by (simp add: usageFiles_def)
  show ?thesis
    using fold_keeps [of "\<lambda>st. usageFiles (snd (snd st))" "syncStep E callback now iface (wiTag inbound) peerByKey (wwActive w iface)", OF sync, of device "([], [], w)"]
    by (cases "fold (syncStep E callback now iface (wiTag inbound) peerByKey (wwActive w iface)) device ([], [], w)")
      (simp add: syncPeerSessions_def Let_def active restore fold_keeps [of usageFiles, OF release])
qed

lemma wg_collected:
  assumes "device iface = Some peers" and "iface = ifaceName (wiTag x)"
    and "wgCollectInbound V E key ifaceName device callback now x ([], w) = (totals, w')"
  obtains st where "totals = fst (fold (wgUsageStep V iface (wiTag x) (wgPeersByKey (wiPeers x)) (wwBaselines w iface) (wwUsageBases w iface)) peers ([], [], [], st))"
    "wwBaselines w' iface = savedAs (svBaselines V iface) []
       (fst (snd (fold (wgUsageStep V iface (wiTag x) (wgPeersByKey (wiPeers x)) (wwBaselines w iface) (wwUsageBases w iface)) peers ([], [], [], st)))) (wwBaselines w iface)"
proof -
  let ?p = "wgPeersByKey (wiPeers x)"
  let ?w = "syncPeerSessions E key callback now iface x peers ?p w"
  let ?st = "fold (wgUsageStep V iface (wiTag x) ?p (wwBaselines w iface) (wwUsageBases w iface)) peers ([], [], [], ?w)"
  have files: "wwBaselines ?w = wwBaselines w" "wwUsageBases ?w = wwUsageBases w"
    using sync_keeps [of E key callback now iface x peers ?p w] by (simp_all add: usageFiles_def)
  have kept: "wwBaselines (snd (snd (snd ?st))) = wwBaselines w" by (simp add: fold_baselines files)
  show thesis
    by (rule that [of ?w]) (use assms files kept in \<open>auto simp: wgCollectInbound_def Let_def split: prod.splits\<close>)
qed

lemma wg_totals:
  assumes "device iface = Some peers" and "iface = ifaceName (wiTag x)"
    and "wgCounters peers (wwBaselines w iface)" and "(\<Sum>dp\<leftarrow>peers. dpReceive dp + dpTransmit dp) \<le> max_int64"
    and "wgCollectInbound V E key ifaceName device callback now x ([], w) = (totals, w')"
  shows "mget 0 totals k = (\<Sum>dp\<leftarrow>peers. wgCharge (wiTag x) (wgPeersByKey (wiPeers x)) (wwBaselines w iface) dp k)"
proof -
  obtain st where t: "totals = fst (fold (wgUsageStep V iface (wiTag x) (wgPeersByKey (wiPeers x)) (wwBaselines w iface) (wwUsageBases w iface)) peers ([], [], [], st))"
    using wg_collected [OF assms(1,2,5)] .
  have m: "map wgCurrent peers = map (\<lambda>dp. dpReceive dp + dpTransmit dp) peers" using wgCurrent_sum [OF assms(3)] by simp
  have "sum_list (map wgCurrent peers) \<le> max_int64" unfolding m by (rule assms(4))
  then show ?thesis using wgUsage_totals [OF assms(3), of "([], [], [], st)"] t by simp
qed


text \<open>
  When the baselines cannot be written, nobody is told, and the same traffic is charged again: a collection with the same counters of the kernel charges what the one before charged.
\<close>

theorem wg_unsaved_charges_again:
  assumes "device iface = Some peers" and "iface = ifaceName (wiTag x)" and "distinct (map dpKey peers)"
    and "wgCounters peers (wwBaselines w iface)" and "(\<Sum>dp\<leftarrow>peers. dpReceive dp + dpTransmit dp) \<le> max_int64"
    and "svBaselines V iface = NotWritten"
    and "wgCollectInbound V E key ifaceName device callback now x ([], w) = (totals, w')"
    and "wgCollectInbound V E key ifaceName device callback later x ([], w') = (totals', w'')"
  shows "mget 0 totals' k = mget 0 totals k"
proof -
  have "wwBaselines w' iface = wwBaselines w iface" using wg_collected [OF assms(1,2,7)] assms(6) by (metis savedAs_def saveOutcome.simps(8))
  then show ?thesis using wg_totals [OF assms(1,2,4,5,7), of k] wg_totals [OF assms(1,2) _ assms(5,8), of k] assms(4) by simp
qed

definition markedIn :: "string \<Rightarrow> string \<Rightarrow> int \<Rightarrow> wgRuntimeInbound \<Rightarrow> bool" where
  "markedIn tg k limit i \<longleftrightarrow> wiTag i = tg \<longrightarrow> (\<forall>p \<in> set (wiPeers i). peerKey p = k \<longrightarrow> limit \<le> wpUsedTraffic p)"

definition marked :: "string \<Rightarrow> string \<Rightarrow> int \<Rightarrow> wgRuntime option \<Rightarrow> bool" where
  "marked tg k limit runtime \<longleftrightarrow> pred_option (\<lambda>r. \<forall>i \<in> set (wrInbounds r). markedIn tg k limit i) runtime"

lemma limitPeer_simps [simp]: "peerKey (limitPeer k limit p) = peerKey p"
  by (simp add: limitPeer_def peerKey_def)

lemma limitPeer_used: "limit \<le> wpUsedTraffic p \<Longrightarrow> limit \<le> wpUsedTraffic (limitPeer k limit' p)"
  by (simp add: limitPeer_def)

lemma limitPeer_limits: "peerKey p = k \<Longrightarrow> limit \<le> wpUsedTraffic (limitPeer k limit p)"
  by (simp add: limitPeer_def peerKey_def)

lemma marked_map:
  assumes "\<And>i. i \<in> set (wrInbounds r) \<Longrightarrow> wiTag i = tg' \<Longrightarrow> markedIn tg k limit (i\<lparr>wiPeers := map (limitPeer k' limit') (wiPeers i)\<rparr>)"
    and "\<And>i. i \<in> set (wrInbounds r) \<Longrightarrow> wiTag i \<noteq> tg' \<Longrightarrow> markedIn tg k limit i"
  shows "0 < limit' \<Longrightarrow> marked tg k limit (markPeerLimited tg' k' limit' (Some r))"
  using assms unfolding marked_def markPeerLimited_def by (simp add: not_le) blast

lemma marked_now: "0 < limit \<Longrightarrow> marked tg k limit (markPeerLimited tg k limit runtime)"
proof (cases runtime)
  case None
  then show ?thesis by (simp add: marked_def markPeerLimited_def)
next
  case (Some r)
  assume "0 < limit"
  then show ?thesis unfolding Some by (intro marked_map) (simp_all add: markedIn_def limitPeer_limits)
qed

lemma marked_later:
  assumes "marked tg k limit runtime"
  shows "marked tg k limit (markPeerLimited tg' k' limit' runtime)"
proof (cases runtime)
  case None
  then show ?thesis by (simp add: marked_def markPeerLimited_def)
next
  case (Some r)
  have r: "markedIn tg k limit i" if "i \<in> set (wrInbounds r)" for i using assms that Some by (simp add: marked_def)
  show ?thesis
  proof (cases "0 < limit'")
    case True
    then show ?thesis unfolding Some using r by (intro marked_map) (simp_all add: markedIn_def limitPeer_used)
  next
    case False
    then show ?thesis using assms by (simp add: markPeerLimited_def)
  qed
qed

lemma marked_saved:
  "outcome \<noteq> NotWritten \<Longrightarrow> marked tg k limit new \<Longrightarrow> marked tg k limit (saveLimited outcome new old)"
  "marked tg k limit new \<Longrightarrow> marked tg k limit old \<Longrightarrow> marked tg k limit (saveLimited outcome new old)"
  by (cases outcome; auto simp: saveLimited_def savedAs_def marked_def)+

lemma wgUsage_limited:
  assumes "trimSpace iface \<noteq> []" and "\<And>k. svRuntime V k \<noteq> NotWritten"
  shows "dp \<in> set device \<Longrightarrow> wgOver peerByKey usageBases dp = Some limit \<Longrightarrow>
    (let w = snd (snd (snd (fold (wgUsageStep V iface tg peerByKey baselines usageBases) device st)))
     in (iface, removeConf (dpKey dp)) \<in> set (wwOps w) \<and> marked tg (dpKey dp) limit (wwRuntime w))"
proof (induction device arbitrary: st rule: rev_induct)
  case (snoc x device)
  have pos: "0 < limit" using snoc.prems(2) by (auto simp: wgOver_def split: option.splits if_splits)
  show ?case
  proof (cases "dp = x")
    case True
    then show ?thesis using snoc.prems(2) assms(1) marked_saved(1) [OF assms(2) marked_now [OF pos]] by (simp add: wgUsageStep_fields removePeer_def Let_def)
  next
    case False
    then show ?thesis using snoc assms marked_saved(2) [OF marked_later] by (auto simp: wgUsageStep_fields removePeer_def Let_def split: option.split)
  qed
qed simp

text \<open>
  A peer whose traffic reaches the data limit of its user is taken out of the kernel by the collection, and the
  stored runtime, when it can be written, says that the limit is used up, so that the peer is not active and is not put back.
\<close>

theorem wg_limit_enforced:
  assumes "device iface = Some peers" and "iface = ifaceName (wiTag x)" and "trimSpace iface \<noteq> []"
    and "dp \<in> set peers" and "wgOver (wgPeersByKey (wiPeers x)) (wwUsageBases w iface) dp = Some limit"
    and "\<And>k. svRuntime V k \<noteq> NotWritten" and "wgCollectInbound V E key ifaceName device callback now x (totals, w) = (totals', w')"
  shows "(iface, removeConf (dpKey dp)) \<in> set (wwOps w')
    \<and> (\<forall>r i p time. wwRuntime w' = Some r \<and> i \<in> set (wrInbounds r) \<and> wiTag i = wiTag x \<and> p \<in> set (wiPeers i)
          \<and> trimSpace (wpPublicKey p) = dpKey dp \<and> wpDataLimit p = Some limit \<longrightarrow> \<not> wgPeerActive time p)"
proof -
  let ?p = "wgPeersByKey (wiPeers x)"
  let ?w = "syncPeerSessions E key callback now iface x peers ?p w"
  let ?st = "fold (wgUsageStep V iface (wiTag x) ?p (wwBaselines w iface) (wwUsageBases w iface)) peers (totals, [], [], ?w)"
  have files: "wwBaselines ?w = wwBaselines w" "wwUsageBases ?w = wwUsageBases w"
    using sync_keeps [of E key callback now iface x peers ?p w] by (simp_all add: usageFiles_def)
  have r: "wwOps w' = wwOps (snd (snd (snd ?st)))" "wwRuntime w' = wwRuntime (snd (snd (snd ?st)))"
    using assms(1,2,7) files by (auto simp: wgCollectInbound_def Let_def split: prod.splits)
  have pos: "0 < limit" using assms(5) by (auto simp: wgOver_def split: option.splits if_splits)
  have l: "(iface, removeConf (dpKey dp)) \<in> set (wwOps w')" "marked (wiTag x) (dpKey dp) limit (wwRuntime w')"
    using wgUsage_limited [OF assms(3,6,4,5), of "wiTag x" "wwBaselines w iface" "(totals, [], [], ?w)"] r by (simp_all add: Let_def)
  have "\<not> wgPeerActive time p" if "wwRuntime w' = Some r" "i \<in> set (wrInbounds r)" "wiTag i = wiTag x" "p \<in> set (wiPeers i)"
      "trimSpace (wpPublicKey p) = dpKey dp" "wpDataLimit p = Some limit" for r i p time
    using l(2) that pos by (auto simp: marked_def markedIn_def peerKey_def wgPeerActive_def Let_def)
  then show ?thesis using l(1) by blast
qed

section \<open>Examples\<close>

lemmas cidr_eval = ParseCIDR_def parseNet_def dtoi_def hasPrefix_def ParseAddr_def parseIPv4_def splitOn.simps parseOctet_def digitVal_def Let_def maskNum_def

lemma trimmed_text: "s \<noteq> [] \<Longrightarrow> graphic (hd s) \<Longrightarrow> graphic (last s) \<Longrightarrow> trimSpace s = s"
  by (rule trimSpace_graphic)

lemma example_texts [simp]:
  "trimSpace ''10.70.0.0/16'' = ''10.70.0.0/16''" "trimSpace ''10.71.0.0/16'' = ''10.71.0.0/16''" "trimSpace ''10.70.0.5/16'' = ''10.70.0.5/16''"
  "trimSpace ''10.70.0.1/16'' = ''10.70.0.1/16''" "trimSpace ''10.71.0.1/16'' = ''10.71.0.1/16''"
  "trimSpace ''10.70.0.2/32'' = ''10.70.0.2/32''" "trimSpace ''10.70.0.3/32'' = ''10.70.0.3/32''" "trimSpace ''10.70.0.0'' = ''10.70.0.0''"
  "trimSpace ''a'' = ''a''" "trimSpace ''b'' = ''b''" "trimSpace ''wg'' = ''wg''" "trimSpace ''wg2'' = ''wg2''" "trimSpace ''active'' = ''active''"
  by (rule trimmed_text; simp add: graphic_def)+

lemma example_nets [simp]:
  "ParseCIDR ''10.70.0.0/16'' = Some \<lparr>netIP = V4 172359680, netOnes = 16, netWritten = 16\<rparr>"
  "ParseCIDR ''10.71.0.0/16'' = Some \<lparr>netIP = V4 172425216, netOnes = 16, netWritten = 16\<rparr>"
  "ParseCIDR ''10.70.0.5/16'' = Some \<lparr>netIP = V4 172359680, netOnes = 16, netWritten = 16\<rparr>"
  by (simp_all add: cidr_eval)

lemma example_prefixes [simp]:
  "ParsePrefix ''10.70.0.0/16'' = Some (Prefix (V4 172359680) 16)" "ParsePrefix ''10.71.0.0/16'' = Some (Prefix (V4 172425216) 16)"
  "ParsePrefix ''10.70.0.5/16'' = Some (Prefix (V4 172359685) 16)"
  "ParsePrefix ''10.70.0.1/16'' = Some (Prefix (V4 172359681) 16)" "ParsePrefix ''10.71.0.1/16'' = Some (Prefix (V4 172425217) 16)"
  "ParsePrefix ''10.70.0.2/32'' = Some (Prefix (V4 172359682) 32)" "ParsePrefix ''10.70.0.3/32'' = Some (Prefix (V4 172359683) 32)"
  "ParsePrefix ''10.70.0.0'' = None" "ParseAddr ''10.70.0.0'' = Some (V4 172359680)"
  by (simp_all add: prefix_eval)

lemma example_servers [simp]: "wgServerAddress ''10.70.0.0/16'' = Inr ''10.70.0.1/16''" "wgServerAddress ''10.71.0.0/16'' = Inr ''10.71.0.1/16''"
  "wgServerAddress ''10.70.0.5/16'' = Inr ''10.70.0.1/16''"
  by (simp_all add: wgServerAddress_def string4_def octets_def formatUint.simps digit_eval)

definition examplePeer :: "int \<Rightarrow> string \<Rightarrow> string \<Rightarrow> wgRuntimePeer" where
  "examplePeer uid k address = \<lparr>wpUserID = uid, wpUsername = [], wpPublicKey = k, wpPresharedKey = [], wpAddress = address, wpStatus = ''active'',
     wpUsedTraffic = 0, wpDataLimit = Some 100, wpExpire = None, wpDeviceLimit = 0\<rparr>"

definition exampleInbound :: wgRuntimeInbound where
  "exampleInbound = \<lparr>wiTag = ''wg'', wiTunnelTag = [], wiListenPort = 51820, wiTunnelPort = 7000, wiSettings = [],
     wiPeers = [examplePeer 1 ''a'' ''10.70.0.2/32'', examplePeer 2 ''b'' ''10.70.0.3/32'']\<rparr>"

definition exampleInbound2 :: wgRuntimeInbound where
  "exampleInbound2 = \<lparr>wiTag = ''wg2'', wiTunnelTag = [], wiListenPort = 51821, wiTunnelPort = 7001,
     wiSettings = [(''address_pool'', JStr ''10.71.0.0/16'')], wiPeers = []\<rparr>"

definition exampleFloats :: floats where
  "exampleFloats = \<lparr>fText = id, fInt = parseIntLax, fZero = (\<lambda>t. t = ''0'')\<rparr>"

lemma example_valid: "wgValidateInbounds exampleFloats Some [exampleInbound, exampleInbound2] = None"
  by (simp add: wgValidateInbounds_def exampleInbound_def exampleInbound2_def examplePeer_def Let_def wgPool_def wgDefaultPool_def boolValue_def
      wgServerOf_def wgValidatePeerAddresses_def wgServer_def wgPeerAddr_def pfxContains_def sameNet_def wgOverlap_def netContains_def)

theorem wg_accepted_runtime_witness:
  "wgSound exampleFloats Some exampleInbound \<and> wgSound exampleFloats Some exampleInbound2 \<and> separate exampleFloats exampleInbound exampleInbound2"
  using wg_accepted_runtime [OF example_valid] by (simp only: list.set ball_simps sorted_wrt.simps simp_thms)

theorem wg_peers_pinned_witness:
  "\<exists>c d m n. wgPeerConfig Some (wiPeers exampleInbound ! 0) = Inr c \<and> wgPeerConfig Some (wiPeers exampleInbound ! 1) = Inr d
    \<and> pcAllowedIPs c = [Prefix (V4 m) 32] \<and> pcAllowedIPs d = [Prefix (V4 n) 32] \<and> m \<noteq> n"
proof -
  have sound: "wgSound exampleFloats Some exampleInbound"
    using wgValidateFrom_ok [of exampleFloats Some "[]" "[]" "[exampleInbound, exampleInbound2]"] example_valid by (simp add: wgValidateInbounds_def)
  have pool: "ParsePrefix (trimSpace (wgPool exampleFloats exampleInbound)) = Some (Prefix (V4 172359680) 16)"
    by (simp add: wgPool_def wgDefaultPool_def exampleInbound_def)
  have trimmed: "\<forall>p \<in> set (wiPeers exampleInbound). trimSpace (wpAddress p) = wpAddress p"
    by (simp add: exampleInbound_def examplePeer_def)
  have host: "ParseAddr ''10.70.0.2'' = Some (V4 172359682)" "ParseAddr ''10.70.0.3'' = Some (V4 172359683)" by (simp_all add: prefix_eval)
  have "trimSpace ''10.70.0.2'' = ''10.70.0.2''" "trimSpace ''10.70.0.3'' = ''10.70.0.3''" using V4_trimmed [OF host(1)] V4_trimmed [OF host(2)] by simp_all
  with host obtain c d where "wgPeerConfig Some (wiPeers exampleInbound ! 0) = Inr c" "wgPeerConfig Some (wiPeers exampleInbound ! 1) = Inr d"
    by (simp add: wgPeerConfig_def exampleInbound_def examplePeer_def wgHostAllowedIPs_def hasPrefix_def parseIP_def Let_def)
  with wg_peers_pinned [OF sound pool trimmed _ _ _ this] show ?thesis by (auto simp: exampleInbound_def)
qed

definition exampleDevice :: "string \<Rightarrow> wgDevicePeer list option" where
  "exampleDevice iface = (if iface = ''rbwg'' then Some [\<lparr>dpKey = ''a'', dpEndpoint = None, dpReceive = 150, dpTransmit = 50, dpHandshake = None\<rparr>,
     \<lparr>dpKey = ''b'', dpEndpoint = None, dpReceive = 30, dpTransmit = 20, dpHandshake = None\<rparr>] else None)"

definition exampleWorld :: wgWorld where
  "exampleWorld = \<lparr>wwDenied = [], wwActive = (\<lambda>_. []), wwBaselines = (\<lambda>_. [(''b'', 40)]), wwUsageBases = (\<lambda>_. []), wwRegistry = None,
     wwRuntime = Some \<lparr>wrGeneratedAt = [], wrTarget = [], wrSessionCallback = None, wrInbounds = [exampleInbound]\<rparr>, wwOps = [], wwSent = []\<rparr>"

definition allSaved :: wgSaves where
  "allSaved = \<lparr>svBaselines = \<lambda>_. Saved, svUsageBases = \<lambda>_. Saved, svRuntime = \<lambda>_. Saved\<rparr>"

definition exampleCollected :: "usageTotals \<times> wgWorld" where
  "exampleCollected = wgCollectInbound allSaved exampleVPN Some (\<lambda>_. ''rbwg'') exampleDevice None 0 exampleInbound ([], exampleWorld)"

lemma example_collected: "wgCollectInbound allSaved exampleVPN Some (\<lambda>_. ''rbwg'') exampleDevice None 0 exampleInbound ([], exampleWorld) = (fst exampleCollected, snd exampleCollected)"
  by (simp add: exampleCollected_def)

lemma example_peers: "wgPeersByKey (wiPeers exampleInbound) = [(''a'', examplePeer 1 ''a'' ''10.70.0.2/32''), (''b'', examplePeer 2 ''b'' ''10.70.0.3/32'')]"
  by (simp add: wgPeersByKey_def exampleInbound_def examplePeer_def Let_def)

lemma example_device: "exampleDevice ''rbwg'' = Some [\<lparr>dpKey = ''a'', dpEndpoint = None, dpReceive = 150, dpTransmit = 50, dpHandshake = None\<rparr>,
     \<lparr>dpKey = ''b'', dpEndpoint = None, dpReceive = 30, dpTransmit = 20, dpHandshake = None\<rparr>]"
  by (simp add: exampleDevice_def)


theorem wg_limit_enforced_witness:
  "(''rbwg'', removeConf ''a'') \<in> set (wwOps (snd exampleCollected))"
proof -
  have "trimSpace ''rbwg'' \<noteq> []" by (subst trimmed_text) (simp_all add: graphic_def)
  then show ?thesis
    using wg_limit_enforced [OF example_device refl _ _ _ _ example_collected,
        of "\<lparr>dpKey = ''a'', dpEndpoint = None, dpReceive = 150, dpTransmit = 50, dpHandshake = None\<rparr>" 100]
    by (simp add: example_peers wgOver_def wgBase_def wgCurrent_def int64_def exampleWorld_def examplePeer_def allSaved_def)
qed

text \<open>
  The address that no peer may have is the one the pool was written with, not the address of the network: with the
  pool \<open>10.70.0.5/16\<close> a peer may have the network address \<open>10.70.0.0\<close>.
\<close>

theorem unmasked_pool_accepts_network_address:
  "wgValidateInbounds exampleFloats Some [exampleInbound\<lparr>wiSettings := [(''address_pool'', JStr ''10.70.0.5/16'')], wiPeers := [examplePeer 1 ''a'' ''10.70.0.0'']\<rparr>] = None
   \<and> (\<exists>network. ParseCIDR ''10.70.0.5/16'' = Some network \<and> Some (netIP network) = wgPeerAddr ''10.70.0.0'')"
  by (simp add: wgValidateInbounds_def exampleInbound_def examplePeer_def Let_def wgPool_def wgDefaultPool_def boolValue_def
      wgServerOf_def wgValidatePeerAddresses_def wgServer_def wgPeerAddr_def pfxContains_def sameNet_def wgOverlap_def netContains_def)

end
