(* ===== verification/Vpn_Nat.thy ===== *)
theory Vpn_Nat
  imports Host VPN_Sessions Any_Values Address_Pools "HOL-Library.Multiset"
begin

text \<open>
  Forwarding of VPN traffic: \<open>internal/node/vpn_nat.go\<close>, \<open>wireguard_nat.go\<close> and the policy routing of \<open>ov.go\<close>. The
  rules a VPN installs in iptables carry a comment with the name of the VPN; they are added when they are not there
  and removed by their comment. iptables is a parameter with the laws of its documentation. Results: applying the
  rules of a VPN installs them all, keeps the others and can be repeated; removing leaves none with the comment, and
  takes rules of other VPNs along whose name only begins with the same letters.
\<close>

section \<open>Blocked destinations\<close>

text \<open>\<open>stringSet\<close>: the values in the order they were added, each once.\<close>

definition setAdd :: "string \<Rightarrow> string list \<Rightarrow> string list" where
  "setAdd v values = (let t = trimSpace v in if t = [] \<or> t \<in> set values then values else values @ [t])"

definition orderedSet :: "string list \<Rightarrow> string list" where
  "orderedSet vs = fold setAdd vs []"

text \<open>\<open>ifaces\<close>: the texts of \<open>net.InterfaceAddrs\<close>, \<open>None\<close> when it fails.\<close>

definition addInterface :: "string \<Rightarrow> string list \<times> string list \<Rightarrow> string list \<times> string list" where
  "addInterface item vs =
     (case ParsePrefix item of None \<Rightarrow> vs
      | Some p \<Rightarrow> if Is4 (pfxAddr p) then (setAdd (addrString (pfxAddr p)) (fst vs), snd vs)
          else (fst vs, setAdd (addrString (pfxAddr p)) (snd vs)))"

definition ovBlockedDestinations :: "string list option \<Rightarrow> string list \<times> string list" where
  "ovBlockedDestinations ifaces =
     fold addInterface (case ifaces of None \<Rightarrow> [] | Some xs \<Rightarrow> xs)
       (orderedSet [''0.0.0.0/8'', ''10.0.0.0/8'', ''100.64.0.0/10'', ''127.0.0.0/8'', ''169.254.0.0/16'', ''172.16.0.0/12'', ''192.168.0.0/16''],
        orderedSet [''::/128'', ''::1/128'', ''fc00::/7'', ''fe80::/10''])"

section \<open>Rules\<close>

record vpnIPTRule =
  irTable :: string
  irChain :: string
  irSpec :: "string list"

definition vpnNATComment :: "string \<Rightarrow> string" where
  "vpnNATComment tg = ''rebecca-vpn:'' @ safeName tg"

definition commentArgs :: "string \<Rightarrow> string list" where
  "commentArgs c = [''-m'', ''comment'', ''--comment'', c]"

definition natRule :: "string \<Rightarrow> string \<Rightarrow> string list \<Rightarrow> string \<Rightarrow> vpnIPTRule" where
  "natRule t c spec comment = \<lparr>irTable = t, irChain = c, irSpec = spec @ commentArgs comment\<rparr>"

definition vpnDirectNATRules :: "string list option \<Rightarrow> string \<Rightarrow> string \<Rightarrow> string \<Rightarrow> string \<Rightarrow> vpnIPTRule list" where
  "vpnDirectNATRules ifaces tg iface pool egress =
     (let comment = vpnNATComment tg in
      map (\<lambda>blocked. natRule ''filter'' ''FORWARD'' [''-i'', iface, ''-d'', blocked, ''-j'', ''REJECT''] comment) (fst (ovBlockedDestinations ifaces))
      @ [natRule ''nat'' ''POSTROUTING'' [''-s'', pool, ''-o'', egress, ''-j'', ''MASQUERADE''] comment,
         natRule ''filter'' ''FORWARD'' [''-i'', iface, ''-o'', egress, ''-s'', pool, ''-j'', ''ACCEPT''] comment,
         natRule ''filter'' ''FORWARD'' [''-i'', egress, ''-o'', iface, ''-m'', ''conntrack'', ''--ctstate'', ''RELATED,ESTABLISHED'', ''-j'', ''ACCEPT''] comment,
         natRule ''filter'' ''FORWARD'' [''-o'', iface, ''-p'', ''tcp'', ''--tcp-flags'', ''SYN,RST'', ''SYN'', ''-j'', ''TCPMSS'', ''--clamp-mss-to-pmtu''] comment])"

definition wgCommentTag :: "string \<Rightarrow> string" where
  "wgCommentTag iface = ''rebecca-wg:'' @ iface"

definition wgRulesFor :: "string \<Rightarrow> string \<Rightarrow> string \<Rightarrow> vpnIPTRule list" where
  "wgRulesFor iface pool egress =
     (let comment = wgCommentTag iface in
      [natRule ''nat'' ''POSTROUTING'' [''-s'', pool, ''-o'', egress, ''-j'', ''MASQUERADE''] comment,
       natRule ''filter'' ''FORWARD'' [''-i'', iface, ''-o'', egress, ''-j'', ''ACCEPT''] comment,
       natRule ''filter'' ''FORWARD'' [''-i'', egress, ''-o'', iface, ''-m'', ''conntrack'', ''--ctstate'', ''RELATED,ESTABLISHED'', ''-j'', ''ACCEPT''] comment,
       natRule ''filter'' ''FORWARD'' [''-o'', iface, ''-p'', ''tcp'', ''--tcp-flags'', ''SYN,RST'', ''SYN'', ''-j'', ''TCPMSS'', ''--clamp-mss-to-pmtu''] comment])"

section \<open>iptables\<close>

definition vpnRunIPT :: "'h host \<Rightarrow> string list \<Rightarrow> 'h \<Rightarrow> (string option \<times> string) \<times> 'h" where
  "vpnRunIPT H args h = hRun H [] ''iptables'' args h"

definition vpnIPTRuleExists :: "'h host \<Rightarrow> vpnIPTRule \<Rightarrow> 'h \<Rightarrow> bool \<times> 'h" where
  "vpnIPTRuleExists H rule h = (case vpnRunIPT H ([''-t'', irTable rule, ''-C'', irChain rule] @ irSpec rule) h of ((err, _), h') \<Rightarrow> (err = None, h'))"

definition iptMessage :: "string list \<Rightarrow> string \<Rightarrow> string \<Rightarrow> string" where
  "iptMessage args err out = ''iptables '' @ joinWith '' '' args @ '': '' @ err @ '': '' @ trimSpace out"

definition vpnEnsureIPTRule :: "'h host \<Rightarrow> vpnIPTRule \<Rightarrow> 'h action" where
  "vpnEnsureIPTRule H rule h =
     (case vpnIPTRuleExists H rule h of
        (True, h') \<Rightarrow> (None, h')
      | (False, h') \<Rightarrow>
          let args = [''-t'', irTable rule, ''-A'', irChain rule] @ irSpec rule in
          (case vpnRunIPT H args h' of
             ((None, _), h'') \<Rightarrow> (None, h'')
           | ((Some err, out), h'') \<Rightarrow> (Some (iptMessage args err out), h'')))"

fun ensureRules :: "'h host \<Rightarrow> vpnIPTRule list \<Rightarrow> 'h action" where
  "ensureRules H [] = skip"
| "ensureRules H (rule # rules) = thenDo (vpnEnsureIPTRule H rule) (ensureRules H rules)"

definition splitRuleLine :: "string \<Rightarrow> string list" where
  "splitRuleLine l = map (\<lambda>f. if 2 \<le> length f \<and> hd f = CHR 0x22 \<and> last f = CHR 0x22 then butlast (tl f) else f) (Prelude.fields l)"

text \<open>The loop over the lines of one chain: the rules with the comment are deleted as they are printed.\<close>

fun removeLines :: "'h host \<Rightarrow> string \<Rightarrow> string \<Rightarrow> string list \<Rightarrow> 'h action" where
  "removeLines H table comment [] h = (None, h)"
| "removeLines H table comment (l # ls) h =
     (let lineText = trimSpace l; fs = splitRuleLine lineText in
      if lineText = [] \<or> \<not> contains lineText comment then removeLines H table comment ls h
      else if length fs < 2 \<or> hd fs \<noteq> ''-A'' then removeLines H table comment ls h
      else let args = [''-t'', table] @ (''-D'' # tl fs) in
        case vpnRunIPT H args h of
          ((None, _), h') \<Rightarrow> removeLines H table comment ls h'
        | ((Some err, out), h') \<Rightarrow> (Some (iptMessage args err out), h'))"

fun removeChains :: "'h host \<Rightarrow> string \<Rightarrow> (string \<times> string) list \<Rightarrow> 'h action" where
  "removeChains H comment [] h = (None, h)"
| "removeChains H comment ((table, chain) # rest) h =
     (case vpnRunIPT H [''-t'', table, ''-S'', chain] h of
        ((Some _, _), h') \<Rightarrow> removeChains H comment rest h'
      | ((None, out), h') \<Rightarrow> thenDo (removeLines H table comment (splitOn out [CHR 0x0A])) (removeChains H comment rest) h')"

definition natChains :: "(string \<times> string) list" where
  "natChains = [(''nat'', ''POSTROUTING''), (''filter'', ''FORWARD'')]"

definition vpnRemoveDirectNAT :: "'h host \<Rightarrow> string \<Rightarrow> 'h action" where
  "vpnRemoveDirectNAT H tg = removeChains H (vpnNATComment tg) natChains"

definition wgRemoveNAT :: "'h host \<Rightarrow> string \<Rightarrow> 'h action" where
  "wgRemoveNAT H iface = removeChains H (wgCommentTag iface) natChains"

section \<open>The host\<close>

fun fieldAfterDev :: "string list \<Rightarrow> string option" where
  "fieldAfterDev (f # g # fs) = (if f = ''dev'' then Some g else fieldAfterDev (g # fs))"
| "fieldAfterDev _ = None"

definition vpnDefaultRouteIface :: "'h host \<Rightarrow> 'h \<Rightarrow> (string + string) \<times> 'h" where
  "vpnDefaultRouteIface H h =
     (case hRun H [] ''ip'' [''-o'', ''route'', ''get'', ''1.1.1.1''] h of
        ((Some err, out), h') \<Rightarrow> (Inl (''ip route get: '' @ err @ '': '' @ trimSpace out), h')
      | ((None, out), h') \<Rightarrow> (case fieldAfterDev (Prelude.fields out) of
            Some dev \<Rightarrow> (Inr dev, h')
          | None \<Rightarrow> (Inl (''could not parse egress interface from '' @ quoteGo (trimSpace out)), h')))"

definition forwardingBody :: string where
  "forwardingBody = textLine ''net.ipv4.ip_forward=1'' @ textLine ''net.ipv6.conf.all.forwarding=1'' @ textLine ''net.ipv4.conf.all.rp_filter=2''
     @ textLine ''net.ipv4.conf.default.rp_filter=2''"

text \<open>The programs and files are best effort: \<open>runQuiet\<close> runs a program and drops the error.\<close>

definition runQuiet :: "'h host \<Rightarrow> string \<Rightarrow> string list \<Rightarrow> 'h action" where
  "runQuiet H command args h = (None, snd (hRun H [] command args h))"

definition forwarding :: "'h host \<Rightarrow> string \<Rightarrow> string \<Rightarrow> 'h action" where
  "forwarding H nl conf =
     thenDo (ignoring (hWrite H ''/proc/sys/net/ipv4/ip_forward'' (''1'' @ nl) 420))
     (thenDo (ignoring (hWrite H ''/proc/sys/net/ipv6/conf/all/forwarding'' (''1'' @ nl) 420))
     (thenDo (ignoring (hWrite H ''/proc/sys/net/ipv4/conf/all/rp_filter'' (''2'' @ nl) 420))
     (thenDo (ignoring (hWrite H ''/proc/sys/net/ipv4/conf/default/rp_filter'' (''2'' @ nl) 420))
     (ignoring (thenDo (hWrite H conf forwardingBody 420) (runQuiet H ''sysctl'' [''--system'']))))))"

definition enableVPNForwarding :: "'h host \<Rightarrow> 'h action" where
  "enableVPNForwarding H = (if hGOOS H = ''windows'' then skip else forwarding H [CHR 0x0A] ''/etc/sysctl.d/99-rebecca-vpn.conf'')"

definition enableWGForwarding :: "'h host \<Rightarrow> 'h action" where
  "enableWGForwarding H = (if hGOOS H \<noteq> ''linux'' then skip else forwarding H [] ''/etc/sysctl.d/99-rebecca-wireguard.conf'')"

definition firewalldRunning :: "'h host \<Rightarrow> 'h \<Rightarrow> bool \<times> 'h" where
  "firewalldRunning H h =
     (if \<not> commandExists H h ''firewall-cmd'' then (False, h)
      else case hRun H [] ''firewall-cmd'' [''--state''] h of ((err, out), h') \<Rightarrow> (err = None \<and> trimSpace out = ''running'', h'))"

definition trustSource :: "'h host \<Rightarrow> string \<Rightarrow> 'h action" where
  "trustSource H pool h =
     (let pool = trimSpace pool in
      if pool = [] then (None, h)
      else case hRun H [] ''firewall-cmd'' [''--zone=trusted'', ''--query-source='' @ pool] h of ((_, out), h') \<Rightarrow>
        if trimSpace out = ''yes'' then (None, h')
        else thenDo (runQuiet H ''firewall-cmd'' [''--zone=trusted'', ''--add-source='' @ pool])
          (runQuiet H ''firewall-cmd'' [''--permanent'', ''--zone=trusted'', ''--add-source='' @ pool]) h')"

fun doAll :: "'h action list \<Rightarrow> 'h action" where
  "doAll [] = skip"
| "doAll (f # fs) = thenDo f (doAll fs)"

definition trustFirewallSources :: "'h host \<Rightarrow> string list \<Rightarrow> 'h action" where
  "trustFirewallSources H pools h =
     (case firewalldRunning H h of (False, h') \<Rightarrow> (None, h') | (True, h') \<Rightarrow> doAll (map (trustSource H) pools) h')"

definition disableMPTCP :: "'h host \<Rightarrow> 'h action" where
  "disableMPTCP H h =
     (if hStat H h ''/proc/sys/net/mptcp/enabled'' = None
      then thenDo (ignoring (hWrite H ''/proc/sys/net/mptcp/enabled'' (textLine ''0'') 420))
        (ignoring (hWrite H ''/etc/sysctl.d/99-rebecca-vpn-tproxy.conf'' (textLine ''net.mptcp.enabled=0'') 420)) h
      else (None, h))"

definition loadModules :: "'h host \<Rightarrow> string list \<Rightarrow> 'h action" where
  "loadModules H modules h =
     (case hLook H h ''modprobe'' of Inl _ \<Rightarrow> (None, h) | Inr modprobe \<Rightarrow> doAll (map (\<lambda>m. runQuiet H modprobe [m]) modules) h)"

definition enableVPNTProxyHostNetworking :: "'h host \<Rightarrow> string list \<Rightarrow> 'h action" where
  "enableVPNTProxyHostNetworking H pools =
     (if hGOOS H = ''windows'' then skip
      else thenDo (enableVPNForwarding H) (thenDo (disableMPTCP H) (thenDo (loadModules H [''nf_tproxy_ipv4'', ''nf_conntrack'']) (trustFirewallSources H pools))))"

section \<open>Applying the rules\<close>

definition vpnApplyDirectNAT :: "'h host \<Rightarrow> string list option \<Rightarrow> string \<Rightarrow> string \<Rightarrow> string \<Rightarrow> 'h action" where
  "vpnApplyDirectNAT H ifaces tg iface pool h =
     (if trimSpace pool = [] then (Some ''direct NAT pool is empty'', h)
      else case vpnDefaultRouteIface H h of
        (Inl err, h') \<Rightarrow> (Some (''detect default-route interface: '' @ err), h')
      | (Inr egress, h') \<Rightarrow> thenDo (enableVPNForwarding H) (ensureRules H (vpnDirectNATRules ifaces tg iface pool egress)) h')"

definition wgApplyNAT :: "'h host \<Rightarrow> string \<Rightarrow> string \<Rightarrow> 'h action" where
  "wgApplyNAT H iface pool h =
     (case vpnDefaultRouteIface H h of
        (Inl err, h') \<Rightarrow> (Some (''detect default-route interface: '' @ err), h')
      | (Inr egress, h') \<Rightarrow> ensureRules H (wgRulesFor iface pool egress) h')"

section \<open>Policy routing\<close>

definition runCommandIgnoreExists :: "'h host \<Rightarrow> string \<Rightarrow> string list \<Rightarrow> 'h action" where
  "runCommandIgnoreExists H command args h =
     (case hRun H [] command args h of
        ((None, _), h') \<Rightarrow> (None, h')
      | ((Some err, out), h') \<Rightarrow>
          if contains (toLower out) ''file exists'' then (None, h')
          else (Some (command @ '' '' @ joinWith '' '' args @ '': '' @ err @ '': '' @ trimSpace out), h'))"

definition isMissingRouteTableOutput :: "string \<Rightarrow> bool" where
  "isMissingRouteTableOutput output = (let t = toLower output in contains t ''fib table does not exist'' \<or> contains t ''dump terminated'')"

definition addRule :: "'h host \<Rightarrow> string \<Rightarrow> 'h action" where
  "addRule H ip h =
     (case hRun H [] ip [''rule'', ''show''] h of
        ((Some err, out), h') \<Rightarrow> (Some (ip @ '' rule show: '' @ err @ '': '' @ trimSpace out), h')
      | ((None, out), h') \<Rightarrow>
          if contains out ''fwmark 0x1 lookup 100'' then (None, h')
          else runCommandIgnoreExists H ip [''rule'', ''add'', ''fwmark'', ''1'', ''lookup'', ''100''] h')"

definition addRoute :: "'h host \<Rightarrow> string \<Rightarrow> 'h action" where
  "addRoute H ip h =
     (let replace = runCommandIgnoreExists H ip [''route'', ''replace'', ''local'', ''0.0.0.0/0'', ''dev'', ''lo'', ''table'', ''100''] in
      case hRun H [] ip [''route'', ''show'', ''table'', ''100''] h of
        ((Some err, out), h') \<Rightarrow>
          if isMissingRouteTableOutput out then replace h'
          else (Some (ip @ '' route show table 100: '' @ err @ '': '' @ trimSpace out), h')
      | ((None, out), h') \<Rightarrow> if trimSpace out \<noteq> ''local default dev lo scope host'' then replace h' else (None, h'))"

definition applyTProxyRouting :: "'h host \<Rightarrow> 'h action" where
  "applyTProxyRouting H h =
     (if hGOOS H = ''windows'' then (None, h)
      else case enableVPNTProxyHostNetworking H [] h of (_, h') \<Rightarrow>
        (case hLook H h' ''ip'' of
           Inl _ \<Rightarrow> (Some ''ip executable not found'', h')
         | Inr ip \<Rightarrow> thenDo (addRule H ip) (addRoute H ip) h'))"

section \<open>What iptables does\<close>

text \<open>Words without blanks and quotes, as all those of the rules here are.\<close>

definition plainWord :: "string \<Rightarrow> bool" where
  "plainWord w \<longleftrightarrow> w \<noteq> [] \<and> (\<forall>c \<in> set w. graphic c \<and> c \<noteq> CHR 0x22)"

definition plainSpec :: "string list \<Rightarrow> bool" where
  "plainSpec spec \<longleftrightarrow> spec \<noteq> [] \<and> (\<forall>w \<in> set spec. plainWord w)"

text \<open>
  \<open>rules h t c\<close> are the rules of a chain. \<open>-C\<close> tells whether a rule is there, \<open>-A\<close> appends it or fails, \<open>-D\<close> deletes the
  first that is equal, \<open>-S\<close> prints the rules, each on a line that is read back as its words. Other programs and writes
  to files leave the rules alone.
\<close>

definition printed :: "string \<Rightarrow> string list \<Rightarrow> string \<Rightarrow> bool" where
  "printed c spec l \<longleftrightarrow> trimSpace l = l \<and> splitRuleLine l = ''-A'' # c # spec \<and> (\<forall>w \<in> set spec. contains l w)"

type_synonym 'h tables = "'h \<Rightarrow> string \<Rightarrow> string \<Rightarrow> string list list"

definition iptChecks :: "'h host \<Rightarrow> 'h tables \<Rightarrow> bool" where
  "iptChecks H rules \<longleftrightarrow> (\<forall>h t c spec. \<exists>err out h'. vpnRunIPT H ([''-t'', t, ''-C'', c] @ spec) h = ((err, out), h') \<and> rules h' = rules h
     \<and> (err = None \<longleftrightarrow> spec \<in> set (rules h t c)))"

definition iptAppends :: "'h host \<Rightarrow> 'h tables \<Rightarrow> bool" where
  "iptAppends H rules \<longleftrightarrow> (\<forall>h t c spec. \<exists>err out h'. vpnRunIPT H ([''-t'', t, ''-A'', c] @ spec) h = ((err, out), h')
     \<and> rules h' = (if err = None then (rules h)(t := (rules h t)(c := rules h t c @ [spec])) else rules h))"

definition iptDeletes :: "'h host \<Rightarrow> 'h tables \<Rightarrow> bool" where
  "iptDeletes H rules \<longleftrightarrow> (\<forall>h t c spec. spec \<in> set (rules h t c) \<longrightarrow> (\<exists>out h'. vpnRunIPT H ([''-t'', t, ''-D'', c] @ spec) h = ((None, out), h')
     \<and> rules h' = (rules h)(t := (rules h t)(c := remove1 spec (rules h t c)))))"

definition iptPrints :: "'h host \<Rightarrow> 'h tables \<Rightarrow> bool" where
  "iptPrints H rules \<longleftrightarrow> (\<forall>h t c. (t, c) \<in> set natChains \<and> (\<forall>spec \<in> set (rules h t c). plainSpec spec) \<longrightarrow>
     (\<exists>policy ls out h'. vpnRunIPT H [''-t'', t, ''-S'', c] h = ((None, out), h') \<and> rules h' = rules h
        \<and> splitOn out [CHR 0x0A] = policy # ls @ [[]] \<and> hd (splitRuleLine (trimSpace policy)) = ''-P'' \<and> list_all2 (printed c) (rules h t c) ls))"

definition iptAlone :: "'h host \<Rightarrow> 'h tables \<Rightarrow> bool" where
  "iptAlone H rules \<longleftrightarrow> (\<forall>h env command args. command \<noteq> ''iptables'' \<longrightarrow> rules (snd (hRun H env command args h)) = rules h)
     \<and> (\<forall>h path content mode. rules (snd (hWrite H path content mode h)) = rules h)"

definition iptLaws :: "'h host \<Rightarrow> 'h tables \<Rightarrow> bool" where
  "iptLaws H rules \<longleftrightarrow> iptChecks H rules \<and> iptAppends H rules \<and> iptDeletes H rules \<and> iptPrints H rules \<and> iptAlone H rules"

lemma iptLawsD:
  assumes "iptLaws H rules"
  shows "\<exists>err out h'. vpnRunIPT H ([''-t'', t, ''-C'', c] @ spec) h = ((err, out), h') \<and> rules h' = rules h \<and> (err = None \<longleftrightarrow> spec \<in> set (rules h t c))"
    and "\<exists>err out h'. vpnRunIPT H ([''-t'', t, ''-A'', c] @ spec) h = ((err, out), h')
          \<and> rules h' = (if err = None then (rules h)(t := (rules h t)(c := rules h t c @ [spec])) else rules h)"
    and "spec \<in> set (rules h t c) \<Longrightarrow> \<exists>out h'. vpnRunIPT H ([''-t'', t, ''-D'', c] @ spec) h = ((None, out), h')
          \<and> rules h' = (rules h)(t := (rules h t)(c := remove1 spec (rules h t c)))"
    and "(t, c) \<in> set natChains \<and> (\<forall>spec \<in> set (rules h t c). plainSpec spec) \<Longrightarrow> \<exists>policy ls out h'. vpnRunIPT H [''-t'', t, ''-S'', c] h = ((None, out), h') \<and> rules h' = rules h
          \<and> splitOn out [CHR 0x0A] = policy # ls @ [[]] \<and> hd (splitRuleLine (trimSpace policy)) = ''-P'' \<and> list_all2 (printed c) (rules h t c) ls"
    and "command \<noteq> ''iptables'' \<Longrightarrow> rules (snd (hRun H env command args h)) = rules h"
    and "rules (snd (hWrite H path content mode h)) = rules h"
proof -
  have l: "iptChecks H rules" "iptAppends H rules" "iptDeletes H rules" "iptPrints H rules" "iptAlone H rules" using assms by (simp_all add: iptLaws_def)
  show "\<exists>err out h'. vpnRunIPT H ([''-t'', t, ''-C'', c] @ spec) h = ((err, out), h') \<and> rules h' = rules h \<and> (err = None \<longleftrightarrow> spec \<in> set (rules h t c))"
    using l(1) unfolding iptChecks_def by (elim allE)
  show "\<exists>err out h'. vpnRunIPT H ([''-t'', t, ''-A'', c] @ spec) h = ((err, out), h')
          \<and> rules h' = (if err = None then (rules h)(t := (rules h t)(c := rules h t c @ [spec])) else rules h)"
    using l(2) unfolding iptAppends_def by (elim allE)
  show "spec \<in> set (rules h t c) \<Longrightarrow> \<exists>out h'. vpnRunIPT H ([''-t'', t, ''-D'', c] @ spec) h = ((None, out), h')
          \<and> rules h' = (rules h)(t := (rules h t)(c := remove1 spec (rules h t c)))"
    using l(3) unfolding iptDeletes_def by (elim allE) (erule mp)
  show "(t, c) \<in> set natChains \<and> (\<forall>spec \<in> set (rules h t c). plainSpec spec) \<Longrightarrow> \<exists>policy ls out h'. vpnRunIPT H [''-t'', t, ''-S'', c] h = ((None, out), h') \<and> rules h' = rules h
          \<and> splitOn out [CHR 0x0A] = policy # ls @ [[]] \<and> hd (splitRuleLine (trimSpace policy)) = ''-P'' \<and> list_all2 (printed c) (rules h t c) ls"
    using l(4) unfolding iptPrints_def by (elim allE) (erule mp)
  show "command \<noteq> ''iptables'' \<Longrightarrow> rules (snd (hRun H env command args h)) = rules h" "rules (snd (hWrite H path content mode h)) = rules h"
    using l(5) by (simp_all add: iptAlone_def)
qed

section \<open>Installing\<close>

lemma ensureRule:
  assumes "iptLaws H rules" and "vpnEnsureIPTRule H r h = (err, h')"
  shows "if irSpec r \<in> set (rules h (irTable r) (irChain r)) then err = None \<and> rules h' = rules h
    else rules h' = (if err = None then (rules h)(irTable r := (rules h (irTable r))(irChain r := rules h (irTable r) (irChain r) @ [irSpec r])) else rules h)"
proof -
  obtain e out h1 where c: "vpnRunIPT H ([''-t'', irTable r, ''-C'', irChain r] @ irSpec r) h = ((e, out), h1)" "rules h1 = rules h"
    "e = None \<longleftrightarrow> irSpec r \<in> set (rules h (irTable r) (irChain r))" using iptLawsD(1) [OF assms(1)] by blast
  obtain e2 out2 h2 where a: "vpnRunIPT H ([''-t'', irTable r, ''-A'', irChain r] @ irSpec r) h1 = ((e2, out2), h2)"
    "rules h2 = (if e2 = None then (rules h1)(irTable r := (rules h1 (irTable r))(irChain r := rules h1 (irTable r) (irChain r) @ [irSpec r])) else rules h1)"
    using iptLawsD(2) [OF assms(1)] by blast
  show ?thesis using assms(2) c a by (cases e; cases e2) (auto simp: vpnEnsureIPTRule_def vpnIPTRuleExists_def Let_def)
qed

text \<open>The rules of the chains after another are an extension, in order, by rules of a list.\<close>

definition extends :: "(string \<Rightarrow> string \<Rightarrow> string list list) \<Rightarrow> vpnIPTRule list \<Rightarrow> (string \<Rightarrow> string \<Rightarrow> string list list) \<Rightarrow> bool" where
  "extends R rs R' \<longleftrightarrow> (\<forall>t c. \<exists>new. R' t c = R t c @ new \<and> set new \<subseteq> {irSpec r |r. r \<in> set rs \<and> irTable r = t \<and> irChain r = c} - set (R t c))"

lemma extends_refl: "extends R rs R"
  by (simp add: extends_def)

lemma extends_trans:
  assumes "extends R rs R'" and "extends R' rs R''"
  shows "extends R rs R''"
  unfolding extends_def
proof (intro allI)
  fix t c
  let ?S = "{irSpec r |r. r \<in> set rs \<and> irTable r = t \<and> irChain r = c}"
  obtain new where n: "R' t c = R t c @ new" "set new \<subseteq> ?S - set (R t c)" using assms(1) unfolding extends_def by blast
  obtain new' where n': "R'' t c = R' t c @ new'" "set new' \<subseteq> ?S - set (R' t c)" using assms(2) unfolding extends_def by blast
  show "\<exists>new. R'' t c = R t c @ new \<and> set new \<subseteq> ?S - set (R t c)"
    using n n' by (intro exI [of _ "new @ new'"]) auto
qed

lemma extends_mono: "extends R rs R' \<Longrightarrow> set rs \<subseteq> set rs' \<Longrightarrow> extends R rs' R'"
  unfolding extends_def by (elim all_forward ex_forward) blast

lemma extends_keeps: "extends R rs R' \<Longrightarrow> x \<in> set (R t c) \<Longrightarrow> x \<in> set (R' t c)"
  unfolding extends_def by (metis Un_iff set_append)

lemma ensureRule_extends:
  assumes "iptLaws H rules" and "vpnEnsureIPTRule H r h = (err, h')"
  shows "extends (rules h) [r] (rules h') \<and> (err = None \<longrightarrow> irSpec r \<in> set (rules h' (irTable r) (irChain r)))"
  using ensureRule [OF assms] by (auto simp: extends_def split: if_splits)

lemma ensureRules_extends:
  assumes "iptLaws H rules"
  shows "ensureRules H rs h = (err, h') \<Longrightarrow> extends (rules h) rs (rules h')
    \<and> (err = None \<longrightarrow> (\<forall>r \<in> set rs. irSpec r \<in> set (rules h' (irTable r) (irChain r))))"
proof (induction rs arbitrary: h)
  case Nil
  then show ?case by (simp add: skip_def extends_refl)
next
  case (Cons r rs)
  obtain e h1 where r: "vpnEnsureIPTRule H r h = (e, h1)" by (cases "vpnEnsureIPTRule H r h")
  have x: "extends (rules h) [r] (rules h1)" "e = None \<Longrightarrow> irSpec r \<in> set (rules h1 (irTable r) (irChain r))"
    using ensureRule_extends [OF assms r] by auto
  then have x1: "extends (rules h) (r # rs) (rules h1)" by (intro extends_mono [OF x(1)]) simp
  show ?case
  proof (cases e)
    case (Some msg)
    then show ?thesis using Cons.prems r x1 by (auto simp: thenDo_Some)
  next
    case None
    then have rest: "ensureRules H rs h1 = (err, h')" using Cons.prems r by (simp add: thenDo_None)
    from Cons.IH [OF rest] have IH: "extends (rules h1) (r # rs) (rules h')" "err = None \<Longrightarrow> \<forall>r \<in> set rs. irSpec r \<in> set (rules h' (irTable r) (irChain r))"
      by (auto intro: extends_mono)
    then show ?thesis using x1 x(2) None extends_keeps [OF IH(1)] by (auto intro: extends_trans)
  qed
qed

lemma ensureRules_again:
  assumes "iptLaws H rules"
  shows "\<forall>r \<in> set rs. irSpec r \<in> set (rules h (irTable r) (irChain r)) \<Longrightarrow> fst (ensureRules H rs h) = None \<and> rules (snd (ensureRules H rs h)) = rules h"
proof (induction rs arbitrary: h)
  case (Cons r rs)
  obtain e h1 where r: "vpnEnsureIPTRule H r h = (e, h1)" by (cases "vpnEnsureIPTRule H r h")
  have "e = None" "rules h1 = rules h" using ensureRule [OF assms r] Cons.prems by simp_all
  then show ?case using Cons.IH [of h1] Cons.prems r by (simp add: thenDo_None)
qed (simp add: skip_def)

lemma forwarding_keeps:
  assumes "iptLaws H rules"
  shows "fst (enableVPNForwarding H h) = None" and "rules (snd (enableVPNForwarding H h)) = rules h"
proof -
  have w: "rules (snd (ignoring (hWrite H path content mode) h)) = rules h" "fst (ignoring (hWrite H path content mode) h) = None" for path content mode h
    using iptLawsD(6) [OF assms] by (simp_all add: ignoring_def)
  have s: "rules (snd (ignoring (thenDo (hWrite H path content mode) (runQuiet H ''sysctl'' args)) h)) = rules h" for path content mode args h
    using iptLawsD(6) [OF assms, of path content mode h] iptLawsD(5) [OF assms]
    by (cases "hWrite H path content mode h", cases "fst (hWrite H path content mode h)") (simp_all add: ignoring_def thenDo_def runQuiet_def)
  have t: "fst (thenDo f g h) = None" "rules (snd (thenDo f g h)) = rules h"
    if "\<And>h. fst (f h) = None" "\<And>h. rules (snd (f h)) = rules h" "\<And>h. fst (g h) = None" "\<And>h. rules (snd (g h)) = rules h" for f g :: "'a action" and h
    using that(1,2) [of h] that(3,4) by (cases "f h"; simp add: thenDo_def)+
  have "fst (forwarding H nl conf h) = None \<and> rules (snd (forwarding H nl conf h)) = rules h" for nl conf h
    unfolding forwarding_def by (intro conjI t w s) simp_all
  then show "fst (enableVPNForwarding H h) = None" "rules (snd (enableVPNForwarding H h)) = rules h"
    by (simp_all add: enableVPNForwarding_def skip_def)
qed

text \<open>
  When the rules of a VPN were applied, all of them are in their chains; every rule that was there stays in its place,
  and only rules of this VPN that were missing are new. Applying them again changes nothing.
\<close>

theorem nat_rules_installed:
  assumes "iptLaws H rules" and "vpnApplyDirectNAT H ifaces tg iface pool h = (None, h')"
  shows "\<exists>egress. let rs = vpnDirectNATRules ifaces tg iface pool egress in
    (\<forall>r \<in> set rs. irSpec r \<in> set (rules h' (irTable r) (irChain r))) \<and> extends (rules h) rs (rules h')
    \<and> fst (ensureRules H rs h') = None \<and> rules (snd (ensureRules H rs h')) = rules h'"
proof -
  obtain egress h1 where e: "vpnDefaultRouteIface H h = (Inr egress, h1)"
    "thenDo (enableVPNForwarding H) (ensureRules H (vpnDirectNATRules ifaces tg iface pool egress)) h1 = (None, h')"
    using assms(2) by (auto simp: vpnApplyDirectNAT_def split: if_splits prod.splits sum.splits)
  have "rules h1 = rules h"
    using e(1) iptLawsD(5) [OF assms(1), of "''ip''" "[]" "[''-o'', ''route'', ''get'', ''1.1.1.1'']" h]
    by (auto simp: vpnDefaultRouteIface_def split: prod.splits option.splits)
  moreover obtain h2 where h2: "enableVPNForwarding H h1 = (None, h2)" "ensureRules H (vpnDirectNATRules ifaces tg iface pool egress) h2 = (None, h')"
    using thenDo_ok [OF e(2)] by blast
  moreover have "rules h2 = rules h1" using forwarding_keeps(2) [OF assms(1), of h1] h2(1) by simp
  ultimately show ?thesis
    using ensureRules_extends [OF assms(1) h2(2)] ensureRules_again [OF assms(1), of "vpnDirectNATRules ifaces tg iface pool egress" h'] by (auto simp: Let_def)
qed

section \<open>Removing\<close>

lemma contains_iff: "contains s x \<longleftrightarrow> (\<exists>a b. s = a @ x @ b)"
proof (induction s)
  case Nil
  then show ?case by auto
next
  case (Cons c s)
  show ?case
  proof
    assume "contains (c # s) x"
    then consider "hasPrefix (c # s) x" | "contains s x" by auto
    then show "\<exists>a b. c # s = a @ x @ b"
    proof cases
      case 1
      then have "c # s = [] @ x @ drop (length x) (c # s)" by (simp add: hasPrefix_def) (metis append_take_drop_id)
      then show ?thesis by blast
    next
      case 2
      then obtain a b where "s = a @ x @ b" using Cons by blast
      then have "c # s = (c # a) @ x @ b" by simp
      then show ?thesis by blast
    qed
  next
    assume "\<exists>a b. c # s = a @ x @ b"
    then obtain a b where ab: "c # s = a @ x @ b" by blast
    show "contains (c # s) x"
    proof (cases a)
      case Nil
      then have "hasPrefix (c # s) x" unfolding hasPrefix_def using ab by (metis append_Nil append_eq_conv_conj)
      then show ?thesis by simp
    next
      case (Cons d a')
      then have "s = a' @ x @ b" using ab by simp
      then show ?thesis using Cons.IH by auto
    qed
  qed
qed

lemma contains_trans: "contains s x \<Longrightarrow> contains x y \<Longrightarrow> contains s y"
  unfolding contains_iff by (metis append.assoc)

text \<open>
  Going through the lines of a chain: the rules not yet looked at are those of the remaining lines, the others have no
  word with the comment.
\<close>

lemma removeLines_clean:
  assumes "iptLaws H rules"
  shows "\<lbrakk>list_all2 (printed c) specs ls; mset (rules h t c) = mset kept + mset specs; \<forall>spec \<in> set kept. \<forall>w \<in> set spec. \<not> contains w comment\<rbrakk>
    \<Longrightarrow> \<exists>h'. removeLines H t comment (ls @ [[]]) h = (None, h') \<and> (\<forall>spec \<in> set (rules h' t c). \<forall>w \<in> set spec. \<not> contains w comment)
      \<and> set (rules h' t c) \<subseteq> set (rules h t c) \<and> (\<forall>t' c'. (t', c') \<noteq> (t, c) \<longrightarrow> rules h' t' c' = rules h t' c')"
proof (induction ls arbitrary: specs h kept)
  case Nil
  then have "set (rules h t c) = set kept" by (metis add_0_right list_all2_Nil2 mset.simps(1) set_mset_mset)
  then show ?case using Nil.prems(3) by simp
next
  case (Cons l ls)
  obtain spec specs' where s: "specs = spec # specs'" "printed c spec l" "list_all2 (printed c) specs' ls" using Cons.prems(1) by (cases specs) auto
  have l: "trimSpace l = l" "splitRuleLine l = ''-A'' # c # spec" "\<forall>w \<in> set spec. contains l w" using s(2) by (simp_all add: printed_def)
  show ?case
  proof (cases "l = [] \<or> \<not> contains l comment")
    case True
    have "\<not> contains w comment" if "w \<in> set spec" for w
    proof
      assume "contains w comment"
      then have "contains l comment" using l(3) that contains_trans by blast
      moreover have "l \<noteq> []" using l(2) by (auto simp: splitRuleLine_def Prelude.fields.simps trimLeftSpace_def stripRunes.simps space_runes_def hasPrefix_def)
      ultimately show False using True by blast
    qed
    then show ?thesis using Cons.IH [OF s(3), of h "spec # kept"] Cons.prems(2,3) s(1) True l(1) by (auto simp: Let_def)
  next
    case False
    have "spec \<in> set (rules h t c)" using Cons.prems(2) s(1) by (metis set_mset_mset mset.simps(2) union_iff union_single_eq_member add_mset_add_single)
    from iptLawsD(3) [OF assms this] obtain out h1 where d: "vpnRunIPT H ([''-t'', t, ''-D'', c] @ spec) h = ((None, out), h1)"
      "rules h1 = (rules h)(t := (rules h t)(c := remove1 spec (rules h t c)))" by blast
    have "mset (rules h1 t c) = mset kept + mset specs'" using Cons.prems(2) s(1) d(2) by simp
    from Cons.IH [OF s(3) this Cons.prems(3)] obtain h' where h': "removeLines H t comment (ls @ [[]]) h1 = (None, h')"
      "\<forall>spec \<in> set (rules h' t c). \<forall>w \<in> set spec. \<not> contains w comment" "set (rules h' t c) \<subseteq> set (rules h1 t c)"
      "\<forall>t' c'. (t', c') \<noteq> (t, c) \<longrightarrow> rules h' t' c' = rules h1 t' c'" by blast
    have "removeLines H t comment ((l # ls) @ [[]]) h = (None, h')" using False l d(1) h'(1) by (simp add: Let_def)
    moreover have "set (rules h1 t c) \<subseteq> set (rules h t c)" using d(2) set_remove1_subset by simp
    ultimately show ?thesis using h' d(2) by auto
  qed
qed

definition cleanOf :: "'h tables \<Rightarrow> 'h \<Rightarrow> string \<Rightarrow> string \<times> string \<Rightarrow> bool" where
  "cleanOf rules h comment tc \<longleftrightarrow> (\<forall>spec \<in> set (rules h (fst tc) (snd tc)). \<forall>w \<in> set spec. \<not> contains w comment)"

lemma removeChain:
  assumes "iptLaws H rules" and "(t, c) \<in> set natChains \<and> (\<forall>spec \<in> set (rules h t c). plainSpec spec)"
  shows "\<exists>h'. removeChains H comment ((t, c) # rest) h = removeChains H comment rest h' \<and> cleanOf rules h' comment (t, c)
    \<and> set (rules h' t c) \<subseteq> set (rules h t c) \<and> (\<forall>t' c'. (t', c') \<noteq> (t, c) \<longrightarrow> rules h' t' c' = rules h t' c')"
proof -
  obtain policy ls out h1 where p: "vpnRunIPT H [''-t'', t, ''-S'', c] h = ((None, out), h1)" "rules h1 = rules h"
    "splitOn out [CHR 0x0A] = policy # ls @ [[]]" "hd (splitRuleLine (trimSpace policy)) = ''-P''" "list_all2 (printed c) (rules h t c) ls"
    using iptLawsD(4) [OF assms] by blast
  have skip: "removeLines H t comment (policy # ls @ [[]]) h1 = removeLines H t comment (ls @ [[]]) h1" using p(4) by (simp add: Let_def)
  obtain h' where "removeLines H t comment (ls @ [[]]) h1 = (None, h')" "\<forall>spec \<in> set (rules h' t c). \<forall>w \<in> set spec. \<not> contains w comment"
      "set (rules h' t c) \<subseteq> set (rules h1 t c)" "\<forall>t' c'. (t', c') \<noteq> (t, c) \<longrightarrow> rules h' t' c' = rules h1 t' c'"
    using removeLines_clean [OF assms(1) p(5), of h1 t "[]" comment] p(2) by auto
  moreover have "removeChains H comment ((t, c) # rest) h = removeChains H comment rest h'" if "removeLines H t comment (ls @ [[]]) h1 = (None, h')" for h'
    using p(1,3) skip that by (simp add: thenDo_None)
  ultimately show ?thesis unfolding cleanOf_def p(2) fst_conv snd_conv by blast
qed

lemma removeChains_clean:
  assumes "iptLaws H rules" and "\<forall>tc \<in> set natChains. \<forall>spec \<in> set (rules h (fst tc) (snd tc)). plainSpec spec"
  shows "\<exists>h'. removeChains H comment natChains h = (None, h') \<and> (\<forall>tc \<in> set natChains. cleanOf rules h' comment tc)"
proof -
  obtain h1 where h1: "removeChains H comment natChains h = removeChains H comment [(''filter'', ''FORWARD'')] h1" "cleanOf rules h1 comment (''nat'', ''POSTROUTING'')"
    "\<forall>t' c'. (t', c') \<noteq> (''nat'', ''POSTROUTING'') \<longrightarrow> rules h1 t' c' = rules h t' c'"
    using removeChain [OF assms(1), where h = h and t = "''nat''" and c = "''POSTROUTING''" and comment = comment and rest = "[(''filter'', ''FORWARD'')]"] assms(2) by (auto simp: natChains_def)
  obtain h2 where h2: "removeChains H comment [(''filter'', ''FORWARD'')] h1 = removeChains H comment [] h2" "cleanOf rules h2 comment (''filter'', ''FORWARD'')"
    "\<forall>t' c'. (t', c') \<noteq> (''filter'', ''FORWARD'') \<longrightarrow> rules h2 t' c' = rules h1 t' c'"
    using removeChain [OF assms(1), where h = h1 and t = "''filter''" and c = "''FORWARD''" and comment = comment and rest = "[]"] h1(3) assms(2) by (auto simp: natChains_def)
  have "rules h2 ''nat'' ''POSTROUTING'' = rules h1 ''nat'' ''POSTROUTING''" using h2(3) by simp
  then show ?thesis using h1 h2 by (auto simp: natChains_def cleanOf_def)
qed

text \<open>
  Removing the rules of a VPN succeeds and leaves no rule with its comment in the chains, whatever other rules there are.
\<close>

theorem nat_rules_removed:
  assumes "iptLaws H rules" and "\<forall>tc \<in> set natChains. \<forall>spec \<in> set (rules h (fst tc) (snd tc)). plainSpec spec"
  shows "\<exists>h'. vpnRemoveDirectNAT H tg h = (None, h') \<and> (\<forall>tc \<in> set natChains. \<forall>spec \<in> set (rules h' (fst tc) (snd tc)). vpnNATComment tg \<notin> set spec)"
proof -
  have "contains w w" for w unfolding contains_iff by (metis append_Nil append_Nil2)
  then show ?thesis using removeChains_clean [OF assms, of "vpnNATComment tg"] unfolding vpnRemoveDirectNAT_def cleanOf_def by metis
qed

text \<open>
  Rules are removed when their line contains the comment, so removing those of a VPN also removes all rules of every VPN
  whose name begins with the same letters: stopping the OpenVPN inbound \<open>ov\<close> takes the forwarding of \<open>ov2\<close> away.
\<close>

theorem removal_takes_other_rules:
  assumes "iptLaws H rules" and "\<forall>tc \<in> set natChains. \<forall>spec \<in> set (rules h (fst tc) (snd tc)). plainSpec spec"
    and "hasPrefix (safeName other) (safeName tg)"
  shows "\<exists>h'. vpnRemoveDirectNAT H tg h = (None, h') \<and> (\<forall>tc \<in> set natChains. \<forall>spec \<in> set (rules h' (fst tc) (snd tc)). vpnNATComment other \<notin> set spec)"
proof -
  have "vpnNATComment other = [] @ vpnNATComment tg @ drop (length (safeName tg)) (safeName other)"
    using assms(3) unfolding vpnNATComment_def hasPrefix_def by (metis append.assoc append_Nil append_take_drop_id)
  then have "contains (vpnNATComment other) (vpnNATComment tg)" unfolding contains_iff by blast
  then show ?thesis using removeChains_clean [OF assms(1,2), of "vpnNATComment tg"] unfolding vpnRemoveDirectNAT_def cleanOf_def by metis
qed

section \<open>A small iptables\<close>

lemma takeWord_graphic: "\<forall>c \<in> set w. graphic c \<Longrightarrow> takeWord (w @ s) = w @ takeWord s"
proof (induction w)
  case (Cons c w)
  have "\<not> list_ex (hasPrefix (c # w @ s)) space_runes"
    using Cons.prems space_runes_not_graphic hasPrefix_hd [of _ c "w @ s"] by (fastforce simp: list_ex_iff)
  then show ?case using Cons by simp
qed simp

lemma trimLeft_graphic: "graphic c \<Longrightarrow> trimLeftSpace (c # s) = c # s"
  by (simp add: trimLeftSpace_def no_space_rune(1))

lemma trimLeft_blank: "trimLeftSpace (CHR '' '' # s) = trimLeftSpace s"
  unfolding trimLeftSpace_def by (subst stripRunes.simps) (simp add: space_runes_def hasPrefix_def)

lemma takeWord_blank: "takeWord (CHR '' '' # s) = []" "takeWord [] = []"
  by (simp_all add: space_runes_def hasPrefix_def)

lemma fields_word:
  assumes "w \<noteq> []" and "\<forall>c \<in> set w. graphic c"
  shows "Prelude.fields (w @ CHR '' '' # s) = w # Prelude.fields s" and "Prelude.fields w = [w]"
proof -
  have t: "trimLeftSpace (w @ s) = w @ s" for s using assms by (cases w) (simp_all add: trimLeft_graphic)
  have "Prelude.fields (w @ CHR '' '' # s) = w # Prelude.fields (CHR '' '' # s)"
    using t [of "CHR '' '' # s"] takeWord_graphic [OF assms(2), of "CHR '' '' # s"] assms(1)
    by (subst Prelude.fields.simps) (simp add: Let_def takeWord_blank del: takeWord.simps)
  also have "Prelude.fields (CHR '' '' # s) = Prelude.fields s"
    by (subst (1 2) Prelude.fields.simps) (simp only: trimLeft_blank)
  finally show "Prelude.fields (w @ CHR '' '' # s) = w # Prelude.fields s" .
  have nil: "Prelude.fields [] = []" by (subst Prelude.fields.simps) (simp add: trimLeftSpace_def stripRunes.simps space_runes_def hasPrefix_def)
  have "takeWord w = w" "trimLeftSpace w = w" using t [of "[]"] takeWord_graphic [OF assms(2), of "[]"] by simp_all
  then show "Prelude.fields w = [w]" using assms(1) nil by (subst Prelude.fields.simps) (simp only: Let_def if_False drop_all order_refl)
qed

lemma fields_join: "ws \<noteq> [] \<Longrightarrow> \<forall>w \<in> set ws. plainWord w \<Longrightarrow> Prelude.fields (joinWith '' '' ws) = ws"
proof (induction ws)
  case (Cons w ws)
  then show ?case using fields_word [of w] by (cases ws) (auto simp: plainWord_def)
qed simp

lemma splitRuleLine_join: "ws \<noteq> [] \<Longrightarrow> \<forall>w \<in> set ws. plainWord w \<Longrightarrow> splitRuleLine (joinWith '' '' ws) = ws"
proof -
  assume ws: "ws \<noteq> []" "\<forall>w \<in> set ws. plainWord w"
  have "hd w \<noteq> CHR 0x22" if "w \<in> set ws" for w using ws(2) that hd_in_set [of w] by (auto simp: plainWord_def)
  then show ?thesis unfolding splitRuleLine_def fields_join [OF ws] by (intro map_idI) simp
qed

lemma contains_join: "w \<in> set ws \<Longrightarrow> contains (joinWith sep ws) w"
proof (induction sep ws rule: joinWith.induct)
  case (3 sep x y xs)
  show ?case
  proof (cases "w = x")
    case True
    then have "joinWith sep (x # y # xs) = [] @ w @ sep @ joinWith sep (y # xs)" by simp
    then show ?thesis unfolding contains_iff by blast
  next
    case False
    then obtain a b where "joinWith sep (y # xs) = a @ w @ b" using 3 unfolding contains_iff by auto
    then have "joinWith sep (x # y # xs) = (x @ sep @ a) @ w @ b" by simp
    then show ?thesis unfolding contains_iff by blast
  qed
next
  case (2 sep x)
  then show ?case unfolding contains_iff by (intro exI [of _ "[]"]) simp
qed simp

text \<open>The rules of all chains, in the order in which they were added.\<close>

type_synonym ipt = "(string \<times> string \<times> string list) list"

definition miniRules :: "ipt tables" where
  "miniRules h t c = map (snd \<circ> snd) (filter (\<lambda>r. fst r = t \<and> fst (snd r) = c) h)"

definition miniRun :: "string list \<Rightarrow> ipt \<Rightarrow> (string option \<times> string) \<times> ipt" where
  "miniRun args h =
     (case args of t0 # t # act # c # spec \<Rightarrow>
        if act = ''-C'' then ((if (t, c, spec) \<in> set h then None else Some ''exit status 1'', []), h)
        else if act = ''-A'' then ((None, []), h @ [(t, c, spec)])
        else if act = ''-D'' then ((if (t, c, spec) \<in> set h then None else Some ''exit status 1'', []), remove1 (t, c, spec) h)
        else ((None, joinWith [CHR 0x0A] ((''-P '' @ c @ '' ACCEPT'') # map (\<lambda>spec. joinWith '' '' (''-A'' # c # spec)) (miniRules h t c) @ [[]])), h)
      | _ \<Rightarrow> ((Some ''exit status 2'', []), h))"

definition miniIPT :: "ipt host" where
  "miniIPT = \<lparr>hGOOS = ''linux'', hRoot = True, hLook = (\<lambda>h name. Inr name),
     hRun = (\<lambda>env command args h. if command = ''iptables'' then miniRun args h else ((None, if command = ''ip'' then ''1.1.1.1 dev eth0'' else []), h)),
     hRead = (\<lambda>h path. Inl ''no file''), hWrite = (\<lambda>path content mode. skip), hChmod = (\<lambda>path mode. skip), hMkdirAll = (\<lambda>path mode. skip),
     hRemove = (\<lambda>path. skip), hRemoveAll = (\<lambda>path. skip), hStat = (\<lambda>h path. None), hReadDir = (\<lambda>h path. Inr []), hSleep = (\<lambda>ms h. h)\<rparr>"

lemma miniRules_Cons: "miniRules ((t', c', spec) # h) t c = (if t' = t \<and> c' = c then spec # miniRules h t c else miniRules h t c)"
  by (simp add: miniRules_def)

lemma miniRules_append: "miniRules (h @ [(t, c, spec)]) = (miniRules h)(t := (miniRules h t)(c := miniRules h t c @ [spec]))"
  by (intro ext) (simp add: miniRules_def)

lemma miniRules_remove1: "miniRules (remove1 (t, c, spec) h) t' c' = (if t' = t \<and> c' = c then remove1 spec (miniRules h t c) else miniRules h t' c')"
proof (induction h)
  case (Cons r h)
  obtain t1 c1 s1 where "r = (t1, c1, s1)" by (cases r)
  with Cons show ?case by (auto simp: miniRules_Cons)
qed (simp add: miniRules_def)

lemma miniRules_remove: "miniRules (remove1 (t, c, spec) h) = (miniRules h)(t := (miniRules h t)(c := remove1 spec (miniRules h t c)))"
  by (intro ext) (simp add: miniRules_remove1)

lemma miniRules_mem: "spec \<in> set (miniRules h t c) \<longleftrightarrow> (t, c, spec) \<in> set h"
proof (induction h)
  case (Cons r h)
  then show ?case by (cases r) (auto simp: miniRules_Cons)
qed (simp add: miniRules_def)

lemma printed_join:
  assumes "plainWord c" and "plainSpec spec"
  shows "printed c spec (joinWith '' '' (''-A'' # c # spec))"
proof -
  have "plainWord ''-A''" by (simp add: plainWord_def graphic_def)
  then have ws: "\<forall>w \<in> set (''-A'' # c # spec). plainWord w" using assms by (simp add: plainSpec_def)
  have "plainWord (last spec)" using assms(2) by (simp add: plainSpec_def)
  then have last: "last (''-A'' # c # spec) \<noteq> [] \<and> graphic (last (last (''-A'' # c # spec)))"
    using assms(2) by (simp add: plainSpec_def plainWord_def)
  then have "trimSpace (joinWith '' '' (''-A'' # c # spec)) = joinWith '' '' (''-A'' # c # spec)"
    using last_joinWith [of "''-A'' # c # spec" "'' ''"] hd_joinWith [of "''-A'' # c # spec" "'' ''"]
    by (intro trimSpace_graphic) (simp_all add: graphic_def)
  then show ?thesis using splitRuleLine_join [OF _ ws] contains_join by (simp add: printed_def)
qed

lemma mini_prints: "iptPrints miniIPT miniRules"
  unfolding iptPrints_def
proof (intro allI impI)
  fix h t c
  assume *: "(t, c) \<in> set natChains \<and> (\<forall>spec \<in> set (miniRules h t c). plainSpec spec)"
  let ?policy = "''-P '' @ c @ '' ACCEPT''" and ?ls = "map (\<lambda>spec. joinWith '' '' (''-A'' # c # spec)) (miniRules h t c)"
  have "plainWord ''POSTROUTING''" "plainWord ''FORWARD''" by (simp_all add: plainWord_def graphic_def)
  then have c: "plainWord c" using * by (auto simp: natChains_def)
  have nl: "CHR 0x0A \<notin> set w" if "plainWord w" for w
  proof -
    have "\<not> graphic (CHR 0x0A)" by (simp add: graphic_def)
    then show ?thesis using that unfolding plainWord_def by blast
  qed
  have "CHR 0x0A \<notin> set (joinWith '' '' (''-A'' # c # spec))" if "spec \<in> set (miniRules h t c)" for spec
  proof
    assume "CHR 0x0A \<in> set (joinWith '' '' (''-A'' # c # spec))"
    from joinWith_set [OF this] obtain w where w: "w \<in> set (''-A'' # c # spec)" "CHR 0x0A \<in> set w" by auto
    moreover have "CHR 0x0A \<notin> set ''-A''" "CHR 0x0A \<notin> set c" using nl [OF c] by simp_all
    ultimately have "w \<in> set spec" by (metis set_ConsD)
    then have "plainWord w" using * that by (auto simp: plainSpec_def)
    then show False using nl w(2) by blast
  qed
  then have lines: "CHR 0x0A \<notin> set l" if "l \<in> set (?policy # ?ls @ [[]])" for l
    using that nl [OF c] by (simp only: set_simps set_append set_map Un_iff insert_iff image_iff) (elim disjE bexE; simp)
  have "splitOn (joinWith [CHR 0x0A] (?policy # ?ls @ [[]])) [CHR 0x0A] = ?policy # ?ls @ [[]]" using lines by (intro splitOn_joinWith) blast+
  moreover have "splitRuleLine (trimSpace ?policy) = [''-P'', c, ''ACCEPT'']"
  proof -
    have p: "?policy = joinWith '' '' [''-P'', c, ''ACCEPT'']" by simp
    have "trimSpace ?policy = ?policy" by (rule trimSpace_graphic) (simp_all add: graphic_def)
    moreover have "\<forall>w \<in> set [''-P'', c, ''ACCEPT'']. plainWord w" using c by (simp add: plainWord_def graphic_def)
    ultimately show ?thesis using splitRuleLine_join [of "[''-P'', c, ''ACCEPT'']"] p by simp
  qed
  moreover have "list_all2 (printed c) (miniRules h t c) ?ls"
    using * printed_join [OF c] by (simp add: list_all2_conv_all_nth)
  ultimately show "\<exists>policy ls out h'. vpnRunIPT miniIPT [''-t'', t, ''-S'', c] h = ((None, out), h') \<and> miniRules h' = miniRules h
      \<and> splitOn out [CHR 0x0A] = policy # ls @ [[]] \<and> hd (splitRuleLine (trimSpace policy)) = ''-P'' \<and> list_all2 (printed c) (miniRules h t c) ls"
    by (intro exI [of _ ?policy] exI [of _ ?ls] exI [of _ "joinWith [CHR 0x0A] (?policy # ?ls @ [[]])"] exI [of _ h]) (simp add: vpnRunIPT_def miniIPT_def miniRun_def)
qed

lemma mini_laws: "iptLaws miniIPT miniRules"
  unfolding iptLaws_def
proof (intro conjI)
  show "iptChecks miniIPT miniRules" by (simp add: iptChecks_def vpnRunIPT_def miniIPT_def miniRun_def miniRules_mem)
  show "iptAppends miniIPT miniRules" by (simp add: iptAppends_def vpnRunIPT_def miniIPT_def miniRun_def miniRules_append)
  show "iptDeletes miniIPT miniRules" by (simp add: iptDeletes_def vpnRunIPT_def miniIPT_def miniRun_def miniRules_remove miniRules_mem)
  show "iptAlone miniIPT miniRules" by (simp add: iptAlone_def miniIPT_def skip_def)
qed (rule mini_prints)

lemma mini_ensure: "fst (ensureRules miniIPT rs h) = None"
proof (induction rs arbitrary: h)
  case (Cons r rs)
  have "fst (vpnEnsureIPTRule miniIPT r h) = None" for h
    by (simp add: vpnEnsureIPTRule_def vpnIPTRuleExists_def vpnRunIPT_def miniIPT_def miniRun_def Let_def)
  from this [of h] show ?case using Cons by (cases "vpnEnsureIPTRule miniIPT r h") (simp add: thenDo_def)
qed (simp add: skip_def)

lemma mini_applied: "trimSpace pool \<noteq> [] \<Longrightarrow> fst (vpnApplyDirectNAT miniIPT ifaces tg iface pool h) = None"
proof -
  assume pool: "trimSpace pool \<noteq> []"
  have "Prelude.fields (joinWith '' '' [''1.1.1.1'', ''dev'', ''eth0'']) = [''1.1.1.1'', ''dev'', ''eth0'']"
    by (rule fields_join) (simp_all add: plainWord_def graphic_def)
  then have route: "vpnDefaultRouteIface miniIPT h = (Inr ''eth0'', h)" by (simp add: vpnDefaultRouteIface_def miniIPT_def)
  have "fst (enableVPNForwarding miniIPT h) = None" using forwarding_keeps(1) [OF mini_laws] .
  then show ?thesis using pool route mini_ensure by (cases "enableVPNForwarding miniIPT h") (simp add: vpnApplyDirectNAT_def thenDo_def)
qed

theorem nat_rules_installed_witness:
  "\<exists>h'. vpnApplyDirectNAT miniIPT (Some []) ''l2tp'' ''ppp+'' ''10.67.0.0/16'' [] = (None, h')
    \<and> (\<exists>egress. \<forall>r \<in> set (vpnDirectNATRules (Some []) ''l2tp'' ''ppp+'' ''10.67.0.0/16'' egress). irSpec r \<in> set (miniRules h' (irTable r) (irChain r)))"
proof -
  let ?a = "vpnApplyDirectNAT miniIPT (Some []) ''l2tp'' ''ppp+'' ''10.67.0.0/16'' []"
  have "trimSpace ''10.67.0.0/16'' \<noteq> []" by (subst trimSpace_graphic) (simp_all add: graphic_def)
  from mini_applied [OF this] have a: "?a = (None, snd ?a)" by (metis prod.collapse)
  from nat_rules_installed [OF mini_laws a] show ?thesis using a unfolding Let_def by metis
qed

definition otherRule :: "string list" where
  "otherRule = [''-s'', ''10.66.0.0/16'', ''-o'', ''eth0'', ''-j'', ''MASQUERADE'', ''-m'', ''comment'', ''--comment'', vpnNATComment ''openvpn-ov2'']"

lemma example_comments: "vpnNATComment ''openvpn-ov2'' = ''rebecca-vpn:openvpn-ov2''" "vpnNATComment ''openvpn-ov'' = ''rebecca-vpn:openvpn-ov''"
  "safeName ''openvpn-ov2'' = ''openvpn-ov2''" "safeName ''openvpn-ov'' = ''openvpn-ov''"
  by code_simp+

lemma otherRule_plain: "plainSpec otherRule"
proof -
  have "list_all (\<lambda>w. w \<noteq> [] \<and> list_all (\<lambda>c. graphic c \<and> c \<noteq> CHR 0x22) w) otherRule \<and> otherRule \<noteq> []" by code_simp
  then show ?thesis by (simp add: plainSpec_def plainWord_def list_all_iff)
qed

definition otherTables :: ipt where
  "otherTables = [(''nat'', ''POSTROUTING'', otherRule)]"

lemma otherTables_plain: "\<forall>tc \<in> set natChains. \<forall>spec \<in> set (miniRules otherTables (fst tc) (snd tc)). plainSpec spec"
  using otherRule_plain by (simp add: otherTables_def natChains_def miniRules_def)

theorem nat_rules_removed_witness:
  "\<exists>h'. vpnRemoveDirectNAT miniIPT ''openvpn-ov2'' otherTables = (None, h')
    \<and> (\<forall>tc \<in> set natChains. \<forall>spec \<in> set (miniRules h' (fst tc) (snd tc)). vpnNATComment ''openvpn-ov2'' \<notin> set spec)"
  by (rule nat_rules_removed [OF mini_laws otherTables_plain])

theorem removal_takes_other_rules_witness:
  "otherRule \<in> set (miniRules otherTables ''nat'' ''POSTROUTING'')
    \<and> (\<exists>h'. vpnRemoveDirectNAT miniIPT ''openvpn-ov'' otherTables = (None, h')
       \<and> (\<forall>tc \<in> set natChains. \<forall>spec \<in> set (miniRules h' (fst tc) (snd tc)). vpnNATComment ''openvpn-ov2'' \<notin> set spec))"
proof
  have "hasPrefix (safeName ''openvpn-ov2'') (safeName ''openvpn-ov'')" by (simp add: example_comments hasPrefix_def)
  then show "\<exists>h'. vpnRemoveDirectNAT miniIPT ''openvpn-ov'' otherTables = (None, h')
       \<and> (\<forall>tc \<in> set natChains. \<forall>spec \<in> set (miniRules h' (fst tc) (snd tc)). vpnNATComment ''openvpn-ov2'' \<notin> set spec)"
    by (rule removal_takes_other_rules [OF mini_laws otherTables_plain])
qed (simp add: otherTables_def miniRules_def)

end
