(* ===== verification/Host_Views.thy ===== *)
theory Host_Views
  imports Vpn_Nat
begin

text \<open>
  What the rules of a VPN leave alone. A view of the host (the peers of a device, a daemon, a file) is kept by the
  installation and the removal of rules, host forwarding and policy routing when it is kept by the programs they run and by
  the system files they write. The lemmas here are proved once and used for every protocol.
\<close>

definition failing :: "(string \<Rightarrow> 'e) \<Rightarrow> 'h action \<Rightarrow> 'h \<Rightarrow> 'e option \<times> 'h" where
  "failing c f h = (case f h of (err, h') \<Rightarrow> (map_option c err, h'))"

definition numericArg :: "string \<Rightarrow> bool" where
  "numericArg s \<longleftrightarrow> list_all (\<lambda>c. c \<in> set ''0123456789-'') s"

declare numericArg_def [simp]

text \<open>The programs of the rules: not \<open>ip link del\<close>, not \<open>kill\<close> with the number of a process, and not the start of a daemon.\<close>

abbreviation rulesArgs :: "string list \<Rightarrow> bool" where
  "rulesArgs args \<equiv> take 2 args \<noteq> [''link'', ''del''] \<and> take 1 args \<notin> {[''--config''], [''-KILL'']} \<and> \<not> (length args = 1 \<and> numericArg (hd args))"

definition systemFiles :: "string list" where
  "systemFiles = [''/proc/sys/net/ipv4/ip_forward'', ''/proc/sys/net/ipv6/conf/all/forwarding'', ''/proc/sys/net/ipv4/conf/all/rp_filter'',
     ''/proc/sys/net/ipv4/conf/default/rp_filter'', ''/etc/sysctl.d/99-rebecca-vpn.conf'', ''/etc/sysctl.d/99-rebecca-wireguard.conf'',
     ''/proc/sys/net/mptcp/enabled'', ''/etc/sysctl.d/99-rebecca-vpn-tproxy.conf'']"

definition calmHost :: "'h host \<Rightarrow> ('h \<Rightarrow> 'v) \<Rightarrow> bool" where
  "calmHost H view \<longleftrightarrow> (\<forall>env command args. rulesArgs args \<longrightarrow> keeping view (hRun H env command args))
     \<and> (\<forall>path content mode. path \<in> set systemFiles \<longrightarrow> keeping view (hWrite H path content mode))"

lemma calm_run: "calmHost H view \<Longrightarrow> rulesArgs args \<Longrightarrow> keeping view (hRun H env command args)"
  unfolding calmHost_def by blast

lemma calm_file: "calmHost H view \<Longrightarrow> path \<in> set systemFiles \<Longrightarrow> keeping view (hWrite H path content mode)"
  by (simp add: calmHost_def)

named_theorems succeeds

text \<open>An action that cannot fail.\<close>

definition succeeds :: "('h \<Rightarrow> 'e option \<times> 'h) \<Rightarrow> bool" where
  "succeeds f \<longleftrightarrow> (\<forall>h. fst (f h) = None)"

lemma succeedsD: "succeeds f \<Longrightarrow> f h = (None, snd (f h))"
  by (simp add: succeeds_def prod_eq_iff)

lemma succeeds_basic [succeeds]: "succeeds skip" "succeeds (ignoring g)" "succeeds (runQuiet H command args)"
  by (simp_all add: succeeds_def skip_def ignoring_def runQuiet_def)

lemma succeeds_thenDo [succeeds]: "succeeds f \<Longrightarrow> succeeds g \<Longrightarrow> succeeds (thenDo f g)"
  unfolding succeeds_def thenDo_def by (auto split: prod.split option.split) (metis fst_conv option.distinct(1))

lemma succeeds_if [succeeds]: "succeeds f \<Longrightarrow> succeeds g \<Longrightarrow> succeeds (if b then f else g)"
  by simp

lemma succeeds_doAll [succeeds]: "(\<And>f. f \<in> set fs \<Longrightarrow> succeeds f) \<Longrightarrow> succeeds (doAll fs)"
  by (induction fs) (auto intro: succeeds)

lemma thenDo_ignoring: "thenDo (ignoring f) g h = g (snd (f h))"
  by (simp add: thenDo_def ignoring_def)

lemma keeping_bind: "keeping view f \<Longrightarrow> (\<And>r. keeping view (g r)) \<Longrightarrow> keeping view (\<lambda>h. case f h of (r, h') \<Rightarrow> g r h')"
  unfolding keeping_def by (auto split: prod.split) (metis snd_conv)

lemma keeping_failing [keeps]: "keeping view f \<Longrightarrow> keeping view (failing c f)"
  by (simp add: keeping_def failing_def split: prod.split) (metis snd_conv)

lemma keeping_runQuiet [keeps]: "keeping view (hRun H [] command args) \<Longrightarrow> keeping view (runQuiet H command args)"
  by (simp add: keeping_def runQuiet_def)

lemma keeping_doAll [keeps]: "(\<And>f. f \<in> set fs \<Longrightarrow> keeping view f) \<Longrightarrow> keeping view (doAll fs)"
  by (induction fs) (auto intro!: keeps)

lemma keeping_runIPT:
  assumes "calmHost H view"
  shows "keeping view (vpnRunIPT H (''-t'' # args))"
  unfolding vpnRunIPT_def by (rule calm_run [OF assms]) simp_all

lemma keeping_ensureIPTRule:
  assumes "calmHost H view"
  shows "keeping view (vpnEnsureIPTRule H rule)"
proof -
  have k: "view h' = view h" if "vpnRunIPT H (''-t'' # args) h = (r, h')" for args r h h'
    using keepingD [OF keeping_runIPT [OF assms] that] .
  show ?thesis unfolding keeping_def vpnEnsureIPTRule_def vpnIPTRuleExists_def
    by (auto simp: Let_def split: prod.split option.split bool.split dest!: k)
qed

lemma keeping_ensureRules:
  assumes "calmHost H view"
  shows "keeping view (ensureRules H rules)"
  by (induction rules) (auto intro: keeps keeping_ensureIPTRule [OF assms])

lemma keeping_removeLines:
  assumes "calmHost H view"
  shows "view (snd (removeLines H table comment ls h)) = view h"
proof (induction ls arbitrary: h)
  case (Cons l ls)
  have k: "view h' = view h" if "vpnRunIPT H (''-t'' # args) h = (r, h')" for args r h'
    using keepingD [OF keeping_runIPT [OF assms] that] .
  show ?case using Cons by (auto simp: Let_def split: prod.split option.split dest!: k)
qed simp

lemma keeping_removeChains:
  assumes "calmHost H view"
  shows "view (snd (removeChains H comment cs h)) = view h"
proof (induction cs arbitrary: h)
  case (Cons c cs)
  obtain t ch where c: "c = (t, ch)" by (cases c)
  obtain err out h1 where r: "vpnRunIPT H [''-t'', t, ''-S'', ch] h = ((err, out), h1)" by (metis prod.collapse)
  have "view h1 = view h" using keepingD [OF keeping_runIPT [OF assms] r] .
  moreover have "keeping view (thenDo (removeLines H t comment ls) (removeChains H comment cs))" for ls
    using keeping_removeLines [OF assms] Cons by (intro keeps) (simp_all add: keeping_def)
  ultimately show ?case using r c Cons by (cases err) (simp_all add: keeping_def)
qed simp

lemma keeping_forwarding:
  assumes "calmHost H view" and "conf \<in> set systemFiles"
  shows "keeping view (forwarding H nl conf)"
  unfolding forwarding_def by (intro keeps calm_file [OF assms(1)] calm_run [OF assms(1)] assms(2)) (simp_all add: systemFiles_def)

lemma keeping_defaultRoute:
  assumes "calmHost H view"
  shows "keeping view (vpnDefaultRouteIface H)"
proof -
  have k: "view h' = view h" if "hRun H [] ''ip'' [''-o'', ''route'', ''get'', ''1.1.1.1''] h = (r, h')" for r h h'
    using keepingD [OF calm_run [OF assms] that] by simp
  show ?thesis unfolding keeping_def vpnDefaultRouteIface_def by (auto split: prod.split option.split dest!: k)
qed

lemma keeping_trust:
  assumes "calmHost H view"
  shows "keeping view (trustFirewallSources H pools)"
proof -
  have k: "view h' = view h" if "hRun H [] command args h = (r, h')" "rulesArgs args" for command args r h h'
    using keepingD [OF calm_run [OF assms that(2)] that(1)] .
  have "keeping view (firewalldRunning H)"
    unfolding keeping_def firewalldRunning_def by (auto split: prod.split dest!: k)
  moreover have "keeping view (trustSource H pool)" for pool
  proof -
    let ?p = "trimSpace pool"
    have "keeping view (thenDo (runQuiet H ''firewall-cmd'' [''--zone=trusted'', ''--add-source='' @ ?p])
        (runQuiet H ''firewall-cmd'' [''--permanent'', ''--zone=trusted'', ''--add-source='' @ ?p]))"
      by (intro keeps calm_run [OF assms]) simp_all
    then show ?thesis unfolding keeping_def trustSource_def by (auto simp: Let_def split: prod.split dest!: k)
  qed
  then have "keeping view (doAll (map (trustSource H) pools))" by (intro keeps) auto
  ultimately show ?thesis unfolding trustFirewallSources_def keeping_def by (auto split: prod.split bool.split) (metis snd_conv)+
qed

lemma keeping_hostNetworking:
  assumes "calmHost H view"
  shows "keeping view (enableVPNTProxyHostNetworking H pools)"
proof -
  have "keeping view (disableMPTCP H)"
  proof -
    have "keeping view (thenDo (ignoring (hWrite H ''/proc/sys/net/mptcp/enabled'' (textLine ''0'') 420))
        (ignoring (hWrite H ''/etc/sysctl.d/99-rebecca-vpn-tproxy.conf'' (textLine ''net.mptcp.enabled=0'') 420)) :: 'a action)"
      by (intro keeps calm_file [OF assms]) (simp_all add: systemFiles_def)
    then show ?thesis unfolding disableMPTCP_def keeping_def by simp
  qed
  moreover have "keeping view (loadModules H [''nf_tproxy_ipv4'', ''nf_conntrack''])"
  proof -
    have "keeping view (doAll (map (\<lambda>m. runQuiet H modprobe [m]) [''nf_tproxy_ipv4'', ''nf_conntrack'']))" for modprobe
      by (intro keeps) (auto intro!: keeps calm_run [OF assms])
    then show ?thesis unfolding loadModules_def keeping_def by (simp split: sum.split)
  qed
  moreover have "keeping view (enableVPNForwarding H)" unfolding enableVPNForwarding_def by (intro keeps keeping_forwarding [OF assms]) (simp add: systemFiles_def)
  ultimately show ?thesis unfolding enableVPNTProxyHostNetworking_def by (intro keeps keeping_trust [OF assms])
qed

lemma keeping_routing:
  assumes "calmHost H view"
  shows "keeping view (applyTProxyRouting H)"
proof -
  have k: "view h' = view h" if "hRun H [] command args h = (r, h')" "rulesArgs args" for command args r h h'
    using keepingD [OF calm_run [OF assms that(2)] that(1)] .
  have run: "view (snd (runCommandIgnoreExists H command args h)) = view h" if "rulesArgs args" for command args h
    unfolding runCommandIgnoreExists_def using that by (auto split: prod.split option.split dest!: k)
  have "keeping view (addRule H ip)" for ip unfolding keeping_def addRule_def by (auto simp: run split: prod.split option.split dest!: k)
  moreover have "keeping view (addRoute H ip)" for ip unfolding keeping_def addRoute_def by (auto simp: run Let_def split: prod.split option.split dest!: k)
  ultimately have "keeping view (thenDo (addRule H ip) (addRoute H ip))" for ip by (intro keeps)
  moreover have "view h' = view h" if "enableVPNTProxyHostNetworking H [] h = (r, h')" for r h h'
    using keepingD [OF keeping_hostNetworking [OF assms] that] .
  ultimately show ?thesis unfolding keeping_def applyTProxyRouting_def by (auto split: prod.split sum.split)
qed

lemma keeping_directNAT:
  assumes "calmHost H view"
  shows "keeping view (vpnApplyDirectNAT H ifaces tg iface pool)" and "keeping view (vpnRemoveDirectNAT H tg)"
proof -
  have k: "view h' = view h" if "vpnDefaultRouteIface H h = (r, h')" for r h h'
    using keepingD [OF keeping_defaultRoute [OF assms] that] .
  have "keeping view (enableVPNForwarding H)" unfolding enableVPNForwarding_def by (intro keeps keeping_forwarding [OF assms]) (simp add: systemFiles_def)
  then have "keeping view (thenDo (enableVPNForwarding H) (ensureRules H rs))" for rs by (intro keeps keeping_ensureRules [OF assms])
  then show "keeping view (vpnApplyDirectNAT H ifaces tg iface pool)"
    unfolding keeping_def vpnApplyDirectNAT_def by (auto split: prod.split sum.split dest!: k)
  show "keeping view (vpnRemoveDirectNAT H tg)" unfolding vpnRemoveDirectNAT_def using keeping_removeChains [OF assms] by (simp add: keeping_def)
qed

lemma packageArgs_rules: "rulesArgs args \<Longrightarrow> rulesArgs (noninteractivePackageArgs name args)"
  unfolding noninteractivePackageArgs_def by (simp split: option.split)

lemma keeping_install:
  assumes "calmHost H view" and "rulesArgs args"
  shows "keeping view (runInstallCommand H env name args)"
proof -
  have "keeping view (runChecked H env command (noninteractivePackageArgs n args) what)" for command n what
    by (intro keeps calm_run [OF assms(1)] packageArgs_rules assms(2))
  then show ?thesis unfolding keeping_def runInstallCommand_def by (simp add: Let_def split: sum.split)
qed

lemma keeping_loadModules:
  assumes "calmHost H view" and "\<forall>m \<in> set ms. \<not> numericArg m \<and> m \<noteq> ''--config'' \<and> m \<noteq> ''-KILL''"
  shows "keeping view (loadModules H ms)"
proof -
  have "keeping view (doAll (map (\<lambda>m. runQuiet H modprobe [m]) ms))" for modprobe
  proof (rule keeping_doAll)
    fix f assume "f \<in> set (map (\<lambda>m. runQuiet H modprobe [m]) ms)"
    then obtain m where m: "m \<in> set ms" "f = runQuiet H modprobe [m]" by auto
    then have "\<not> numericArg m" "m \<noteq> ''--config''" "m \<noteq> ''-KILL''" using assms(2) by blast+
    then have "rulesArgs [m]" by (simp del: numericArg_def)
    then show "keeping view f" unfolding m(2) by (intro keeps calm_run [OF assms(1)])
  qed
  then show ?thesis unfolding loadModules_def keeping_def by (simp split: sum.split)
qed

lemma keeping_writeFileIfChanged:
  "keeping view (hChmod H path mode) \<Longrightarrow> keeping view (hWrite H path content mode) \<Longrightarrow> keeping view (writeFileIfChanged H path content mode)"
  by (simp add: keeping_def writeFileIfChanged_def)

section \<open>File names\<close>

lemma clean_not_Nil: "clean p \<noteq> []"
  by (simp add: clean_def Let_def)

text \<open>The last element of a path that was joined.\<close>

lemma base_joinPath:
  assumes "d \<noteq> []" and "plainComp f" and "f \<noteq> ''..''"
  shows "base (joinPath [d, f]) = f"
proof -
  let ?p = "d @ ''/'' @ f"
  have f: "slash \<notin> set f" "f \<noteq> []" "f \<noteq> ''.''" using assms(2) by (simp_all add: plainComp_def)
  have "slashSplit (d @ slash # f) = slashSplit d @ [f]" by (induction d) (simp_all add: slashSplit_word f split: list.split)
  then have c: "cleanComps b ?p = rev (foldl (cleanStep b) [] (slashSplit d)) @ [f]" for b
    using f assms(3) by (simp add: cleanComps_def cleanStep_def)
  let ?cs = "cleanComps (isAbs ?p) ?p"
  have cs: "?cs \<noteq> []" "last ?cs = f" "list_all plainComp ?cs" by (simp_all only: c cleanComps_plain [of "isAbs ?p" ?p, unfolded c] last_snoc) simp
  have b: "base (joinWith ''/'' ?cs) = f" using base_join [OF cs(1,3)] cs(2) by simp
  have j: "joinWith ''/'' ?cs \<noteq> []" "last (joinWith ''/'' ?cs) \<noteq> slash" using joinWith_last_char [OF cs(1,3)] by simp_all
  have "base (slash # s) = base s" if "s \<noteq> []" "last s \<noteq> slash" for s
    using that trimRight_id [of "slash # s"] trimRight_id [of s] by (simp add: base_def Let_def)
  then have "base (clean ?p) = f" using b j by (cases "isAbs ?p") (simp_all add: clean_def Let_def)
  then show ?thesis using assms(1) f(2) by (simp add: joinPath_def)
qed

lemma joinPath_differ: "d \<noteq> [] \<Longrightarrow> e \<noteq> [] \<Longrightarrow> plainComp f \<Longrightarrow> f \<noteq> ''..'' \<Longrightarrow> plainComp g \<Longrightarrow> g \<noteq> ''..'' \<Longrightarrow> f \<noteq> g \<Longrightarrow> joinPath [d, f] \<noteq> joinPath [e, g]"
  using base_joinPath by metis

lemma joinPath_not_Nil: "d \<noteq> [] \<Longrightarrow> joinPath [d, f] \<noteq> []"
  by (simp add: joinPath_def clean_not_Nil)

end
