(* ===== verification/Wireguard_Apply.thy ===== *)
theory Wireguard_Apply
  imports Wireguard Host_Views
begin

text \<open>
  WireGuard on the host: the part of \<open>internal/node/wireguard.go\<close> that drives the kernel, and the TPROXY rules of
  \<open>wireguard_nat.go\<close>. \<open>wgctrl\<close> is a parameter: what \<open>New\<close>, \<open>Device\<close> and \<open>ConfigureDevice\<close> do on the host.
  JSON files go through a codec that is a parameter too. Results: after an inbound was applied the device has exactly
  the active peers of the runtime, each with its one address, and peers that stay keep their endpoint; a preshared key
  that the runtime no longer has stays in the kernel.
\<close>

section \<open>Definitions\<close>

record wgDeviceConf =
  dcPrivateKey :: string
  dcListenPort :: int
  dcReplacePeers :: bool
  dcPeers :: "wgPeerConf list"

record 'h wgctl =
  wkNew :: "'h \<Rightarrow> string option"
  wkDevice :: "'h \<Rightarrow> string \<Rightarrow> wgDevicePeer list option"
  wkConfigure :: "string \<Rightarrow> wgDeviceConf \<Rightarrow> 'h action"

record wgCodec =
  ecRuntime :: "wgRuntime \<Rightarrow> string + string"
  dcRuntime :: "string \<Rightarrow> wgRuntime option"
  ecCounters :: "(string, int) gomap \<Rightarrow> string + string"
  dcCounters :: "string \<Rightarrow> (string, int) gomap option"
  ecSessions :: "(string, wgSessionState) gomap \<Rightarrow> string + string"
  dcSessions :: "string \<Rightarrow> (string, wgSessionState) gomap option"

datatype wgApplyError =
    HostFailed string
  | NotBinary
  | Refused wgError
  | NoPrivateKey string
  | BadPrivateKey string
  | BadServer string string
  | BadPeer string wgPeerError
  | NoTunnelPort string
  | ConfigureFailed string string
  | RulesFailed string string
  | NoWgctrl string

definition wgRunIP :: "'h host \<Rightarrow> string list \<Rightarrow> 'h \<Rightarrow> (string option \<times> string) \<times> 'h" where
  "wgRunIP H args = hRun H [] ''ip'' args"

subsection \<open>Files of an interface\<close>

text \<open>A file that cannot be read or decoded is an empty map; a map that cannot be encoded or written is dropped.\<close>

definition loadMap :: "(string \<Rightarrow> ('k, 'v) gomap option) \<Rightarrow> 'h host \<Rightarrow> 'h \<Rightarrow> string \<Rightarrow> ('k, 'v) gomap" where
  "loadMap dec H h path = (case hRead H h path of Inl _ \<Rightarrow> [] | Inr raw \<Rightarrow> (case dec raw of None \<Rightarrow> [] | Some m \<Rightarrow> m))"

definition saveMap :: "(('k, 'v) gomap \<Rightarrow> string + string) \<Rightarrow> 'h host \<Rightarrow> string \<Rightarrow> string \<Rightarrow> ('k, 'v) gomap \<Rightarrow> 'h action" where
  "saveMap enc H d path m =
     ignoring (thenDo (hMkdirAll H d 448) (case enc m of Inl _ \<Rightarrow> skip | Inr raw \<Rightarrow> hWrite H path raw 384))"

definition activeSessionsPath :: "string \<Rightarrow> string \<Rightarrow> string" where
  "activeSessionsPath baseDir iface = joinPath [baseDir, iface, ''active-sessions.json'']"

definition loadActiveSessions :: "wgCodec \<Rightarrow> 'h host \<Rightarrow> string \<Rightarrow> 'h \<Rightarrow> string \<Rightarrow> (string, wgSessionState) gomap" where
  "loadActiveSessions C H baseDir h iface = loadMap (dcSessions C) H h (activeSessionsPath baseDir iface)"

definition saveActiveSessions :: "wgCodec \<Rightarrow> 'h host \<Rightarrow> string \<Rightarrow> string \<Rightarrow> (string, wgSessionState) gomap \<Rightarrow> 'h action" where
  "saveActiveSessions C H baseDir iface m = saveMap (ecSessions C) H (joinPath [baseDir, iface]) (activeSessionsPath baseDir iface) m"

definition baselinePath :: "string \<Rightarrow> string \<Rightarrow> string" where
  "baselinePath baseDir iface = joinPath [baseDir, iface, ''baselines.json'']"

definition usageBasePath :: "string \<Rightarrow> string \<Rightarrow> string" where
  "usageBasePath baseDir iface = joinPath [baseDir, iface, ''usage-bases.json'']"

definition loadBaselines :: "wgCodec \<Rightarrow> 'h host \<Rightarrow> string \<Rightarrow> 'h \<Rightarrow> string \<Rightarrow> (string, int) gomap" where
  "loadBaselines C H baseDir h iface = loadMap (dcCounters C) H h (baselinePath baseDir iface)"

definition saveBaselines :: "wgCodec \<Rightarrow> 'h host \<Rightarrow> string \<Rightarrow> string \<Rightarrow> (string, int) gomap \<Rightarrow> 'h action" where
  "saveBaselines C H baseDir iface m = saveMap (ecCounters C) H (joinPath [baseDir, iface]) (baselinePath baseDir iface) m"

definition loadUsageBases :: "wgCodec \<Rightarrow> 'h host \<Rightarrow> string \<Rightarrow> 'h \<Rightarrow> string \<Rightarrow> (string, int) gomap" where
  "loadUsageBases C H baseDir h iface = loadMap (dcCounters C) H h (usageBasePath baseDir iface)"

definition saveUsageBases :: "wgCodec \<Rightarrow> 'h host \<Rightarrow> string \<Rightarrow> string \<Rightarrow> (string, int) gomap \<Rightarrow> 'h action" where
  "saveUsageBases C H baseDir iface m = saveMap (ecCounters C) H (joinPath [baseDir, iface]) (usageBasePath baseDir iface) m"

definition pruneBaselines :: "wgCodec \<Rightarrow> 'h host \<Rightarrow> string \<Rightarrow> string \<Rightarrow> string list \<Rightarrow> 'h action" where
  "pruneBaselines C H baseDir iface desiredKeys h =
     (let baselines = loadBaselines C H baseDir h iface;
          kept = filter (\<lambda>p. fst p \<in> set desiredKeys) baselines
      in if kept \<noteq> baselines then saveBaselines C H baseDir iface kept h else (None, h))"

definition currentRuntime :: "wgCodec \<Rightarrow> 'h host \<Rightarrow> string \<Rightarrow> 'h \<Rightarrow> wgRuntime option" where
  "currentRuntime C H baseDir h = (case hRead H h (joinPath [baseDir, ''runtime.json'']) of Inl _ \<Rightarrow> None | Inr raw \<Rightarrow> dcRuntime C raw)"

subsection \<open>TPROXY rules\<close>

definition quoted :: "string \<Rightarrow> string" where
  "quoted s = [CHR 0x22] @ s @ [CHR 0x22]"

definition dropRule :: "string \<Rightarrow> string \<Rightarrow> string list \<Rightarrow> string" where
  "dropRule iface family blocked =
     (if blocked = [] then [] else textLine (''    iifname '' @ quoted iface @ '' '' @ family @ '' daddr { '' @ joinWith '', '' blocked @ '' } drop''))"

definition wgTProxyTableName :: "string \<Rightarrow> string" where
  "wgTProxyTableName iface = ''rebecca_wireguard_'' @ iface"

definition wgTProxyScript :: "floats \<Rightarrow> string list option \<Rightarrow> wgRuntimeInbound \<Rightarrow> string \<Rightarrow> string" where
  "wgTProxyScript F ifaces inbound iface =
     (case ovBlockedDestinations ifaces of (blockedV4, blockedV6) \<Rightarrow>
        textLine (''table inet '' @ wgTProxyTableName iface @ '' {'')
        @ textLine ''  chain prerouting {''
        @ textLine ''    type filter hook prerouting priority mangle; policy accept;''
        @ textLine (trimRightChars {CHR 0x0A} (dropRule iface ''ip'' blockedV4 @ dropRule iface ''ip6'' blockedV6))
        @ textLine (''    iifname '' @ quoted iface @ '' meta mark != 0xff meta l4proto { tcp, udp } tproxy ip to 127.0.0.1:'' @ formatInt (wiTunnelPort inbound)
            @ '' meta mark set 1 accept'')
        @ textLine ''  }''
        @ textLine ''  chain postrouting {''
        @ textLine ''    type nat hook postrouting priority srcnat; policy accept;''
        @ textLine (''    ip saddr '' @ wgPool F inbound @ '' oifname != '' @ quoted iface @ '' meta l4proto icmp masquerade'')
        @ textLine ''  }'' @ textLine ''}'')"

definition wgApplyTProxy :: "floats \<Rightarrow> 'h host \<Rightarrow> string list option \<Rightarrow> string \<Rightarrow> wgRuntimeInbound \<Rightarrow> string \<Rightarrow> 'h action" where
  "wgApplyTProxy F H ifaces baseDir inbound iface h =
     (case hLook H h ''nft'' of
        Inl _ \<Rightarrow> (Some ''nft executable not found'', h)
      | Inr nft \<Rightarrow>
          let path = joinPath [joinPath [baseDir, iface], ''nftables.nft''] in
          thenDo (enableVPNTProxyHostNetworking H [wgPool F inbound])
          (thenDo (hMkdirAll H (joinPath [baseDir, iface]) 448)
          (thenDo (hWrite H path (wgTProxyScript F ifaces inbound iface) 384)
          (thenDo (runQuiet H nft [''delete'', ''table'', ''inet'', wgTProxyTableName iface])
          (thenDo (runChecked H [] nft [''-f'', path] (''apply WireGuard nftables '' @ wiTag inbound))
          (applyTProxyRouting H))))) h)"

definition wgRemoveTProxy :: "'h host \<Rightarrow> string \<Rightarrow> 'h action" where
  "wgRemoveTProxy H iface h =
     (case hLook H h ''nft'' of
        Inl _ \<Rightarrow> (None, h)
      | Inr nft \<Rightarrow> (case hRun H [] nft [''delete'', ''table'', ''inet'', wgTProxyTableName iface] h of
            ((None, _), h') \<Rightarrow> (None, h')
          | ((Some err, out), h') \<Rightarrow>
              if contains (toLower out) ''no such file or directory'' then (None, h')
              else (Some (''delete WireGuard nftables table '' @ iface @ '': '' @ err @ '': '' @ trimSpace out), h')))"

subsection \<open>The link\<close>

definition wgLinkExists :: "'h host \<Rightarrow> string \<Rightarrow> 'h \<Rightarrow> bool \<times> 'h" where
  "wgLinkExists H iface h = (case wgRunIP H [''link'', ''show'', ''dev'', iface] h of ((err, _), h') \<Rightarrow> (err = None, h'))"

text \<open>Whether the first place where the address is on a line of the output is not followed by a digit.\<close>

definition lineHasAddress :: "string \<Rightarrow> string \<Rightarrow> bool" where
  "lineHasAddress host lineText = (case cut lineText host of (_, after, found) \<Rightarrow> found \<and> (after = [] \<or> digitVal (hd after) = None))"

definition wgAddressPresent :: "'h host \<Rightarrow> string \<Rightarrow> string \<Rightarrow> 'h \<Rightarrow> bool \<times> 'h" where
  "wgAddressPresent H iface address h =
     (case wgRunIP H [''-o'', ''addr'', ''show'', ''dev'', iface] h of
        ((Some _, _), h') \<Rightarrow> (False, h')
      | ((None, out), h') \<Rightarrow>
          let host = fst (cut address ''/'') in
          (if host = [] then False else \<exists>l \<in> set (splitOn out [CHR 0x0A]). lineHasAddress host l, h'))"

definition addLink :: "'h host \<Rightarrow> string \<Rightarrow> 'h action" where
  "addLink H iface h =
     (case wgLinkExists H iface h of
        (True, h') \<Rightarrow> (None, h')
      | (False, h') \<Rightarrow> runChecked H [] ''ip'' [''link'', ''add'', ''dev'', iface, ''type'', ''wireguard''] (''add wg link '' @ iface) h')"

definition addAddress :: "'h host \<Rightarrow> string \<Rightarrow> string \<Rightarrow> 'h action" where
  "addAddress H iface serverAddress h =
     (if serverAddress = [] then (None, h)
      else case wgAddressPresent H iface serverAddress h of
        (True, h') \<Rightarrow> (None, h')
      | (False, h') \<Rightarrow> (case wgRunIP H [''addr'', ''add'', serverAddress, ''dev'', iface] h' of
            ((None, _), h'') \<Rightarrow> (None, h'')
          | ((Some err, out), h'') \<Rightarrow>
              let low = toLower out in
              if \<not> contains low ''file exists'' \<and> \<not> contains low ''already assigned''
              then (Some (''add address '' @ serverAddress @ '' on '' @ iface @ '': '' @ err @ '': '' @ trimSpace out), h'')
              else (None, h'')))"

definition wgEnsureLink :: "'h host \<Rightarrow> string \<Rightarrow> string \<Rightarrow> int \<Rightarrow> 'h action" where
  "wgEnsureLink H iface serverAddress mtu =
     thenDo (addLink H iface)
     (thenDo (ignoring (hWrite H (joinPath [''/sys/class/net'', iface, ''threaded'']) ''0'' 420))
     (thenDo (if 0 < mtu then runChecked H [] ''ip'' [''link'', ''set'', ''dev'', iface, ''mtu'', formatInt mtu] (''set mtu on '' @ iface) else skip)
     (thenDo (addAddress H iface serverAddress)
     (runChecked H [] ''ip'' [''link'', ''set'', ''up'', ''dev'', iface] (''bring up '' @ iface)))))"

subsection \<open>The device\<close>

text \<open>The peers the device has, by key; the key of a peer is also what \<open>String\<close> gives of it.\<close>

definition wgCurrentPeers :: "'h wgctl \<Rightarrow> 'h \<Rightarrow> string \<Rightarrow> (string, string option) gomap" where
  "wgCurrentPeers K h iface =
     (if trimSpace iface = [] then []
      else case wkDevice K h iface of None \<Rightarrow> [] | Some ps \<Rightarrow> fold (\<lambda>p m. AList.update (dpKey p) (dpEndpoint p) m) ps [])"

fun desiredPeers :: "(string \<Rightarrow> string option) \<Rightarrow> int \<Rightarrow> string \<Rightarrow> (string, string option) gomap \<Rightarrow> wgRuntimePeer list \<Rightarrow> wgApplyError + (string \<times> wgPeerConf) list" where
  "desiredPeers key now tg current [] = Inr []"
| "desiredPeers key now tg current (peer # peers) =
     (if \<not> wgPeerActive now peer then desiredPeers key now tg current peers
      else case wgPeerConfig key peer of
        Inl err \<Rightarrow> Inl (BadPeer tg err)
      | Inr config \<Rightarrow>
          let keyText = trimSpace (wpPublicKey peer);
              config = config\<lparr>pcReplaceAllowedIPs := True\<rparr>;
              config = (case map_of current keyText of Some (Some endpoint) \<Rightarrow> config\<lparr>pcEndpoint := Some endpoint\<rparr> | _ \<Rightarrow> config)
          in case desiredPeers key now tg current peers of Inl err \<Rightarrow> Inl err | Inr rest \<Rightarrow> Inr ((keyText, config) # rest))"

definition deviceConfig :: "string \<Rightarrow> int \<Rightarrow> (string, string option) gomap \<Rightarrow> (string \<times> wgPeerConf) list \<Rightarrow> wgDeviceConf" where
  "deviceConfig privateKey port current desired =
     \<lparr>dcPrivateKey = privateKey, dcListenPort = port, dcReplacePeers = False,
      dcPeers = map snd desired @ map removeConf (filter (\<lambda>k. k \<notin> fst ` set desired) (map fst current))\<rparr>"

definition configurePeers :: "(string \<Rightarrow> string option) \<Rightarrow> 'h wgctl \<Rightarrow> int \<Rightarrow> string \<Rightarrow> string \<Rightarrow> wgRuntimeInbound \<Rightarrow> 'h \<Rightarrow> (wgApplyError + string list) \<times> 'h" where
  "configurePeers key K now iface privateKey inbound h =
     (let current = wgCurrentPeers K h iface in
      case desiredPeers key now (wiTag inbound) current (wiPeers inbound) of
        Inl err \<Rightarrow> (Inl err, h)
      | Inr desired \<Rightarrow> (case wkConfigure K iface (deviceConfig privateKey (wiListenPort inbound) current desired) h of
            (Some err, h') \<Rightarrow> (Inl (ConfigureFailed iface err), h')
          | (None, h') \<Rightarrow> (Inr (map fst desired), h')))"

definition applyRules :: "floats \<Rightarrow> 'h host \<Rightarrow> string list option \<Rightarrow> string \<Rightarrow> string \<Rightarrow> wgRuntimeInbound \<Rightarrow> 'h \<Rightarrow> wgApplyError option \<times> 'h" where
  "applyRules F H ifaces baseDir iface inbound =
     (let settings = wiSettings inbound; tg = wiTag inbound in
      if boolValue F (map_of settings ''tproxy_enabled'') True then
        (if wiTunnelPort inbound \<le> 0 then fail (NoTunnelPort tg)
         else thenDo (failing (RulesFailed tg) (wgApplyTProxy F H ifaces baseDir inbound iface)) (ignoring (wgRemoveNAT H iface)))
      else if boolValue F (map_of settings ''nat_enabled'') False then
        thenDo (ignoring (enableWGForwarding H))
        (thenDo (failing (RulesFailed tg) (wgApplyNAT H iface (wgNetwork (wgPool F inbound)))) (ignoring (wgRemoveTProxy H iface)))
      else thenDo (ignoring (wgRemoveNAT H iface)) (ignoring (wgRemoveTProxy H iface)))"

definition wgMTU :: "floats \<Rightarrow> wgRuntimeInbound \<Rightarrow> int" where
  "wgMTU F inbound = boundedInt F (map_of (wiSettings inbound) ''mtu'') 1420 576 1500"

text \<open>The keys and the address \<open>applyInbound\<close> needs before it touches the host.\<close>

definition inboundKeys :: "floats \<Rightarrow> (string \<Rightarrow> string option) \<Rightarrow> wgRuntimeInbound \<Rightarrow> wgApplyError + string \<times> string" where
  "inboundKeys F key inbound =
     (let tg = wiTag inbound; privateKeyB64 = firstString F [map_of (wiSettings inbound) ''private_key''];
          serverAddress = firstString F [map_of (wiSettings inbound) ''server_address''] in
      if privateKeyB64 = [] then Inl (NoPrivateKey tg)
      else case key privateKeyB64 of
        None \<Rightarrow> Inl (BadPrivateKey tg)
      | Some privateKey \<Rightarrow>
          if serverAddress \<noteq> [] then Inr (privateKey, serverAddress)
          else case wgServerAddress (wgPool F inbound) of Inl err \<Rightarrow> Inl (BadServer tg err) | Inr a \<Rightarrow> Inr (privateKey, a))"

definition applyInbound :: "floats \<Rightarrow> (string \<Rightarrow> string option) \<Rightarrow> (string \<Rightarrow> string) \<Rightarrow> wgCodec \<Rightarrow> 'h wgctl \<Rightarrow> 'h host \<Rightarrow> string list option \<Rightarrow> string \<Rightarrow> int
    \<Rightarrow> wgRuntimeInbound \<Rightarrow> 'h \<Rightarrow> wgApplyError option \<times> 'h" where
  "applyInbound F key ifaceName C K H ifaces baseDir now inbound h =
     (case inboundKeys F key inbound of
        Inl err \<Rightarrow> (Some err, h)
      | Inr (privateKey, serverAddress) \<Rightarrow>
          let iface = ifaceName (wiTag inbound) in
          thenDo (failing HostFailed (hMkdirAll H (joinPath [baseDir, iface]) 448))
          (thenDo (failing HostFailed (wgEnsureLink H iface serverAddress (wgMTU F inbound)))
          (\<lambda>h. case configurePeers key K now iface privateKey inbound h of
              (Inl err, h') \<Rightarrow> (Some err, h')
            | (Inr desiredKeys, h') \<Rightarrow>
                thenDo (applyRules F H ifaces baseDir iface inbound)
                  (failing HostFailed (pruneBaselines C H baseDir iface desiredKeys)) h')) h)"

subsection \<open>Prerequisites\<close>

definition wgTools :: "string list" where
  "wgTools = [''wg'', ''ip'', ''nft'', ''iptables'']"

definition aptGet :: "'h host \<Rightarrow> string list \<Rightarrow> 'h action" where
  "aptGet H args = runInstallCommand H noninteractive ''apt-get'' args"

text \<open>The second attempt after a repair; the error of the first is kept when the repair fails.\<close>

definition installWithRepair :: "'h host \<Rightarrow> string list \<Rightarrow> 'h action" where
  "installWithRepair H packages h =
     (let install = aptGet H ([''install'', ''-y'', ''--no-install-recommends''] @ packages) in
      case install h of
        (None, h') \<Rightarrow> (None, h')
      | (Some err, h') \<Rightarrow> (case aptGet H [''-f'', ''install'', ''-y''] h' of
            (Some _, h'') \<Rightarrow> (Some err, h'')
          | (None, h'') \<Rightarrow> install h''))"

definition installWGPackages :: "'h host \<Rightarrow> 'h action" where
  "installWGPackages H h =
     (let apt = [''wireguard-tools'', ''iproute2'', ''nftables'', ''iptables'', ''kmod''];
          rpm = [''wireguard-tools'', ''iproute'', ''nftables'', ''iptables'', ''kmod''] in
      if \<not> hRoot H then (Some ''WireGuard prerequisites are missing and automatic install requires root'', h)
      else if commandExists H h ''apt-get'' then
        thenDo (if commandExists H h ''dpkg'' then ignoring (runInstallCommand H noninteractive ''dpkg'' [''--configure'', ''-a'']) else skip)
        (thenDo (ignoring (aptGet H [''-f'', ''install'', ''-y'']))
        (thenDo (aptGet H [''update'']) (installWithRepair H apt))) h
      else if commandExists H h ''dnf'' then runInstallCommand H [] ''dnf'' ([''install'', ''-y''] @ rpm) h
      else if commandExists H h ''yum'' then runInstallCommand H [] ''yum'' ([''install'', ''-y''] @ rpm) h
      else if commandExists H h ''apk'' then runInstallCommand H [] ''apk'' ([''add''] @ apt) h
      else (Some ''WireGuard prerequisites are missing and no supported package manager was found'', h))"

definition loadWGKernelModule :: "'h wgctl \<Rightarrow> 'h host \<Rightarrow> 'h action" where
  "loadWGKernelModule K H =
     (if hGOOS H \<noteq> ''linux'' then skip
      else thenDo (doAll (map (\<lambda>m. runQuiet H ''modprobe'' [m]) [''wireguard'', ''nf_conntrack'', ''nf_nat'', ''iptable_nat'', ''iptable_filter'', ''nf_tproxy_ipv4'']))
        (\<lambda>h. (map_option (\<lambda>err. ''wireguard kernel support is unavailable: '' @ err) (wkNew K h), h)))"

definition ensureWGPrerequisites :: "'h wgctl \<Rightarrow> 'h host \<Rightarrow> 'h action" where
  "ensureWGPrerequisites K H =
     (if hGOOS H \<noteq> ''linux'' then skip
      else thenDo (\<lambda>h. if missingExecutables H h wgTools \<noteq> [] then installWGPackages H h else (None, h))
        (thenDo (\<lambda>h. case missingExecutables H h wgTools of
              [] \<Rightarrow> (None, h)
            | executable # _ \<Rightarrow> (Some (''WireGuard prerequisite '' @ executable @ '' was not found after automatic install''), h))
          (loadWGKernelModule K H)))"

subsection \<open>Applying a runtime\<close>

definition teardownInterface :: "'h host \<Rightarrow> string \<Rightarrow> 'h action" where
  "teardownInterface H iface =
     (if hGOOS H = ''windows'' then skip
      else thenDo (ignoring (wgRemoveNAT H iface)) (thenDo (ignoring (wgRemoveTProxy H iface)) (runQuiet H ''ip'' [''link'', ''del'', ''dev'', iface])))"

definition pruneEntry :: "'h host \<Rightarrow> string \<Rightarrow> string list \<Rightarrow> string \<times> bool \<Rightarrow> 'h action" where
  "pruneEntry H baseDir desired entry =
     (case entry of (iface, isDir) \<Rightarrow>
        if \<not> isDir \<or> \<not> hasPrefix iface ''rbwg'' \<or> iface \<in> set desired then skip
        else thenDo (teardownInterface H iface) (ignoring (hRemoveAll H (joinPath [baseDir, iface]))))"

definition pruneRemovedInbounds :: "'h host \<Rightarrow> string \<Rightarrow> string list \<Rightarrow> 'h action" where
  "pruneRemovedInbounds H baseDir desired h =
     (case hReadDir H h baseDir of
        Inl (err, notExist) \<Rightarrow> (if notExist then None else Some err, h)
      | Inr entries \<Rightarrow> doAll (map (pruneEntry H baseDir desired) entries) h)"

fun applyInbounds :: "(wgRuntimeInbound \<Rightarrow> 'h \<Rightarrow> wgApplyError option \<times> 'h) \<Rightarrow> wgRuntimeInbound list \<Rightarrow> 'h \<Rightarrow> wgApplyError option \<times> 'h" where
  "applyInbounds f [] = skip"
| "applyInbounds f (inbound # ibs) = thenDo (f inbound) (applyInbounds f ibs)"

text \<open>What \<open>Apply\<close> does with a runtime that was accepted.\<close>

definition applyAccepted :: "floats \<Rightarrow> (string \<Rightarrow> string option) \<Rightarrow> (string \<Rightarrow> string) \<Rightarrow> wgCodec \<Rightarrow> 'h wgctl \<Rightarrow> 'h host \<Rightarrow> string list option \<Rightarrow> string \<Rightarrow> int
    \<Rightarrow> wgRuntime \<Rightarrow> 'h \<Rightarrow> wgApplyError option \<times> 'h" where
  "applyAccepted F key ifaceName C K H ifaces baseDir now r =
     (case ecRuntime C r of
        Inl err \<Rightarrow> fail (HostFailed err)
      | Inr raw \<Rightarrow>
          thenDo (failing HostFailed (hWrite H (joinPath [baseDir, ''runtime.json'']) raw 384))
          (thenDo (failing HostFailed (pruneRemovedInbounds H baseDir (map (ifaceName \<circ> wiTag) (wrInbounds r))))
          (if hGOOS H = ''windows'' then skip
           else (\<lambda>h. case wkNew K h of
               Some err \<Rightarrow> (Some (NoWgctrl err), h)
             | None \<Rightarrow> applyInbounds (applyInbound F key ifaceName C K H ifaces baseDir now) (wrInbounds r) h))))"

definition wgApply :: "floats \<Rightarrow> (string \<Rightarrow> string option) \<Rightarrow> (string \<Rightarrow> string) \<Rightarrow> wgCodec \<Rightarrow> 'h wgctl \<Rightarrow> 'h host \<Rightarrow> string list option \<Rightarrow> string \<Rightarrow> string \<Rightarrow> int
    \<Rightarrow> wgRuntime option \<Rightarrow> 'h \<Rightarrow> wgApplyError option \<times> 'h" where
  "wgApply F key ifaceName C K H ifaces baseDir installMode now rc =
     (case rc of None \<Rightarrow> skip
      | Some r \<Rightarrow>
          let ibs = map (normalizeWGRuntimeInbound F) (wrInbounds r) in
          if wrInbounds r \<noteq> [] \<and> installMode \<noteq> ''binary'' then fail NotBinary
          else thenDo (if wrInbounds r \<noteq> [] then failing HostFailed (ensureWGPrerequisites K H) else skip)
            (thenDo (failing HostFailed (hMkdirAll H baseDir 448))
            (case wgValidateInbounds F key ibs of
               Some err \<Rightarrow> fail (Refused err)
             | None \<Rightarrow> applyAccepted F key ifaceName C K H ifaces baseDir now (r\<lparr>wrInbounds := ibs\<rparr>))))"

definition wgReconcile :: "floats \<Rightarrow> (string \<Rightarrow> string option) \<Rightarrow> (string \<Rightarrow> string) \<Rightarrow> wgCodec \<Rightarrow> 'h wgctl \<Rightarrow> 'h host \<Rightarrow> string list option \<Rightarrow> string \<Rightarrow> string \<Rightarrow> int
    \<Rightarrow> 'h \<Rightarrow> wgApplyError option \<times> 'h" where
  "wgReconcile F key ifaceName C K H ifaces baseDir installMode now h =
     (case currentRuntime C H baseDir h of
        None \<Rightarrow> (None, h)
      | Some r \<Rightarrow> if wrInbounds r = [] then (None, h) else wgApply F key ifaceName C K H ifaces baseDir installMode now (Some r) h)"

section \<open>What the rules keep\<close>

text \<open>Programs other than \<open>ip link del\<close>, \<open>kill\<close> and the start of a daemon, and all files, do not change a view of the host.\<close>

definition quietHost :: "'h host \<Rightarrow> ('h \<Rightarrow> 'v) \<Rightarrow> bool" where
  "quietHost H view \<longleftrightarrow> (\<forall>env command args. rulesArgs args \<longrightarrow> keeping view (hRun H env command args))
     \<and> (\<forall>path content mode. keeping view (hWrite H path content mode)) \<and> (\<forall>path mode. keeping view (hMkdirAll H path mode))"

lemma quiet_run: "quietHost H view \<Longrightarrow> rulesArgs args \<Longrightarrow> keeping view (hRun H env command args)"
  unfolding quietHost_def by blast

lemma quiet_file: "quietHost H view \<Longrightarrow> keeping view (hWrite H path content mode)" "quietHost H view \<Longrightarrow> keeping view (hMkdirAll H path mode)"
  by (simp_all add: quietHost_def)

lemma quiet_calm: "quietHost H view \<Longrightarrow> calmHost H view"
  by (simp add: quietHost_def calmHost_def)

lemma keeping_applyNAT:
  assumes "quietHost H view"
  shows "keeping view (wgApplyNAT H iface pool)"
proof -
  have k: "view h' = view h" if "vpnDefaultRouteIface H h = (r, h')" for r h h'
    using keepingD [OF keeping_defaultRoute [OF quiet_calm [OF assms]] that] .
  have e: "view (snd (ensureRules H rs h)) = view h" for rs h using keeping_ensureRules [OF quiet_calm [OF assms]] by (simp add: keeping_def)
  show ?thesis unfolding keeping_def wgApplyNAT_def by (auto simp: e split: prod.split sum.split dest!: k)
qed

lemma keeping_applyTProxy:
  assumes "quietHost H view"
  shows "keeping view (wgApplyTProxy F H ifaces baseDir inbound iface)"
proof -
  have "keeping view (thenDo (enableVPNTProxyHostNetworking H [wgPool F inbound])
          (thenDo (hMkdirAll H (joinPath [baseDir, iface]) 448)
          (thenDo (hWrite H path (wgTProxyScript F ifaces inbound iface) 384)
          (thenDo (runQuiet H nft [''delete'', ''table'', ''inet'', wgTProxyTableName iface])
          (thenDo (runChecked H [] nft [''-f'', path] (''apply WireGuard nftables '' @ wiTag inbound))
          (applyTProxyRouting H))))))" for nft path
    by (intro keeps keeping_hostNetworking [OF quiet_calm [OF assms]] keeping_routing [OF quiet_calm [OF assms]] quiet_file [OF assms] quiet_run [OF assms]) simp_all
  then show ?thesis unfolding wgApplyTProxy_def keeping_def by (auto simp: Let_def split: sum.split)
qed

lemma keeping_removeTProxy:
  assumes "quietHost H view"
  shows "keeping view (wgRemoveTProxy H iface)"
proof -
  have k: "view h' = view h" if "hRun H [] command args h = (r, h')" "rulesArgs args" for command args r h h'
    using keepingD [OF quiet_run [OF assms that(2)] that(1)] .
  show ?thesis unfolding keeping_def wgRemoveTProxy_def by (auto split: prod.split option.split sum.split dest!: k)
qed

lemma keeping_applyRules:
  assumes "quietHost H view"
  shows "keeping view (applyRules F H ifaces baseDir iface inbound)"
proof -
  have nat: "keeping view (wgRemoveNAT H iface)" unfolding wgRemoveNAT_def using keeping_removeChains [OF quiet_calm [OF assms]] by (simp add: keeping_def)
  have fwd: "keeping view (enableWGForwarding H)" unfolding enableWGForwarding_def by (intro keeps keeping_forwarding [OF quiet_calm [OF assms]]) (simp add: systemFiles_def)
  show ?thesis unfolding applyRules_def Let_def
    by (intro keeps nat fwd keeping_applyTProxy [OF assms] keeping_removeTProxy [OF assms] keeping_applyNAT [OF assms])
qed

lemma keeping_pruneBaselines:
  assumes "quietHost H view"
  shows "keeping view (pruneBaselines C H baseDir iface desiredKeys)"
proof -
  have "keeping view (case enc of Inl _ \<Rightarrow> skip | Inr raw \<Rightarrow> hWrite H path raw 384)" for enc path
    by (cases enc) (auto intro: keeps quiet_file [OF assms])
  then have "keeping view (saveBaselines C H baseDir iface kept)" for kept
    unfolding saveBaselines_def saveMap_def by (intro keeps quiet_file [OF assms])
  then show ?thesis unfolding keeping_def pruneBaselines_def by (auto simp: Let_def)
qed

section \<open>What the kernel does with peers\<close>

record kernelPeer =
  kpAllowed :: "prefix list"
  kpPsk :: "string option"
  kpEndpoint :: "string option"

type_synonym 'h wgPeers = "'h \<Rightarrow> string \<Rightarrow> string \<Rightarrow> kernelPeer option"

text \<open>
  One \<open>PeerConfig\<close>: a field that is not given stays as it is (\<open>wgtypes.PeerConfig\<close>), and an allowed address belongs to the
  peer it was given to last.
\<close>

definition kernelStep :: "wgPeerConf \<Rightarrow> (string \<Rightarrow> kernelPeer option) \<Rightarrow> string \<Rightarrow> kernelPeer option" where
  "kernelStep c m =
     (let k = pcPublicKey c; old = (case m k of None \<Rightarrow> \<lparr>kpAllowed = [], kpPsk = None, kpEndpoint = None\<rparr> | Some p \<Rightarrow> p) in
      if pcRemove c then m(k := None)
      else (\<lambda>k'. map_option (\<lambda>p. p\<lparr>kpAllowed := filter (\<lambda>a. a \<notin> set (pcAllowedIPs c)) (kpAllowed p)\<rparr>) (m k'))
        (k \<mapsto> \<lparr>kpAllowed = (if pcReplaceAllowedIPs c then [] else kpAllowed old) @ pcAllowedIPs c,
               kpPsk = (case pcPresharedKey c of None \<Rightarrow> kpPsk old | Some k \<Rightarrow> Some k),
               kpEndpoint = (case pcEndpoint c of None \<Rightarrow> kpEndpoint old | Some e \<Rightarrow> Some e)\<rparr>))"

text \<open>
  \<open>Device\<close> shows the peers, each once, of a link that is up; \<open>ConfigureDevice\<close> without \<open>ReplacePeers\<close> goes through its peers
  in order; programs other than \<open>ip link del\<close>, \<open>kill\<close> and daemons, and files, leave the peers alone.
\<close>

definition kernelLaws :: "'h host \<Rightarrow> 'h wgctl \<Rightarrow> 'h wgPeers \<Rightarrow> bool" where
  "kernelLaws H K peers \<longleftrightarrow> quietHost H peers
     \<and> (\<forall>h iface ps. wkDevice K h iface = Some ps \<longrightarrow> (\<forall>k. map_option kpEndpoint (peers h iface k) = map_of (map (\<lambda>p. (dpKey p, dpEndpoint p)) ps) k) \<and> distinct (map dpKey ps))
     \<and> (\<forall>h iface out h'. hRun H [] ''ip'' [''link'', ''set'', ''up'', ''dev'', iface] h = ((None, out), h') \<longrightarrow> wkDevice K h' iface \<noteq> None)
     \<and> (\<forall>h iface conf h'. wkConfigure K iface conf h = (None, h') \<and> \<not> dcReplacePeers conf \<longrightarrow> peers h' = (peers h)(iface := fold kernelStep (dcPeers conf) (peers h iface)))"

lemma kernelLawsD:
  assumes "kernelLaws H K peers"
  shows "quietHost H peers"
    and "wkDevice K h iface = Some ps \<Longrightarrow> map_option kpEndpoint (peers h iface k) = map_of (map (\<lambda>p. (dpKey p, dpEndpoint p)) ps) k"
    and "wkDevice K h iface = Some ps \<Longrightarrow> distinct (map dpKey ps)"
    and "hRun H [] ''ip'' [''link'', ''set'', ''up'', ''dev'', iface] h = ((None, out), h') \<Longrightarrow> wkDevice K h' iface \<noteq> None"
    and "wkConfigure K iface conf h = (None, h') \<Longrightarrow> \<not> dcReplacePeers conf \<Longrightarrow> peers h' = (peers h)(iface := fold kernelStep (dcPeers conf) (peers h iface))"
  using assms unfolding kernelLaws_def by blast+

lemma kernelStep_at: "\<not> pcRemove c \<Longrightarrow> \<exists>p. kernelStep c m (pcPublicKey c) = Some p \<and> (pcReplaceAllowedIPs c \<longrightarrow> kpAllowed p = pcAllowedIPs c)"
  by (auto simp: kernelStep_def Let_def split: option.splits)

lemma kernelStep_other: "k \<noteq> pcPublicKey c \<Longrightarrow> kernelStep c m k =
    (if pcRemove c then m k else map_option (\<lambda>p. p\<lparr>kpAllowed := filter (\<lambda>a. a \<notin> set (pcAllowedIPs c)) (kpAllowed p)\<rparr>) (m k))"
  by (simp add: kernelStep_def Let_def)

lemma fold_removeConf: "fold kernelStep (map removeConf ks) m = (\<lambda>k. if k \<in> set ks then None else m k)"
proof (induction ks arbitrary: m)
  case (Cons k ks)
  have "kernelStep (removeConf k) m = m(k := None)" by (simp add: kernelStep_def removeConf_def)
  then show ?case by (auto simp: Cons)
qed simp

definition pinning :: "wgPeerConf list \<Rightarrow> bool" where
  "pinning cs \<longleftrightarrow> (\<forall>c \<in> set cs. \<not> pcRemove c \<and> pcReplaceAllowedIPs c) \<and> distinct (map pcPublicKey cs)
     \<and> sorted_wrt (\<lambda>c d. set (pcAllowedIPs c) \<inter> set (pcAllowedIPs d) = {}) cs"

lemma fold_pinning_others:
  "\<forall>c \<in> set cs. \<not> pcRemove c \<Longrightarrow> k \<notin> pcPublicKey ` set cs \<Longrightarrow> a = (\<Union>c \<in> set cs. set (pcAllowedIPs c)) \<Longrightarrow>
     fold kernelStep cs m k = map_option (\<lambda>p. p\<lparr>kpAllowed := filter (\<lambda>x. x \<notin> a) (kpAllowed p)\<rparr>) (m k)"
proof (induction cs arbitrary: m a)
  case (Cons c cs)
  have "k \<noteq> pcPublicKey c" using Cons.prems(2) by auto
  moreover have "fold kernelStep cs (kernelStep c m) k =
      map_option (\<lambda>p. p\<lparr>kpAllowed := filter (\<lambda>x. x \<notin> (\<Union>c \<in> set cs. set (pcAllowedIPs c))) (kpAllowed p)\<rparr>) (kernelStep c m k)"
    using Cons.prems by (intro Cons.IH) auto
  ultimately show ?case using Cons.prems by (simp add: kernelStep_other option.map_comp comp_def conj_commute)
qed (simp add: option.map_ident)

lemma fold_pinning:
  "pinning cs \<Longrightarrow> c \<in> set cs \<Longrightarrow> \<exists>p. fold kernelStep cs m (pcPublicKey c) = Some p \<and> kpAllowed p = pcAllowedIPs c"
proof (induction cs arbitrary: m)
  case (Cons d cs)
  have p: "pinning cs" using Cons.prems(1) by (auto simp: pinning_def)
  show ?case
  proof (cases "c \<in> set cs")
    case True
    then show ?thesis using Cons.IH [OF p] by simp
  next
    case False
    then have c: "c = d" using Cons.prems(2) by simp
    have d: "\<not> pcRemove d" "pcReplaceAllowedIPs d" "pcPublicKey d \<notin> pcPublicKey ` set cs" "\<forall>c \<in> set cs. \<not> pcRemove c"
      "\<forall>c \<in> set cs. set (pcAllowedIPs d) \<inter> set (pcAllowedIPs c) = {}" using Cons.prems(1) by (auto simp: pinning_def)
    obtain q where q: "kernelStep d m (pcPublicKey d) = Some q" "kpAllowed q = pcAllowedIPs d" using kernelStep_at [OF d(1), of m] d(2) by blast
    let ?a = "\<Union>c \<in> set cs. set (pcAllowedIPs c)"
    have "filter (\<lambda>x. x \<notin> ?a) (pcAllowedIPs d) = pcAllowedIPs d" using d(5) by (intro filter_True) blast
    then show ?thesis using fold_pinning_others [OF d(4,3) refl, of "kernelStep d m"] q c by simp
  qed
qed simp

text \<open>The keys of the device are those of the peers given, and the others it had before that were not removed.\<close>

lemma fold_pinning_dom:
  "\<forall>c \<in> set cs. \<not> pcRemove c \<Longrightarrow> dom (fold kernelStep cs m) = pcPublicKey ` set cs \<union> dom m"
proof (induction cs arbitrary: m)
  case (Cons c cs)
  have "dom (kernelStep c m) = insert (pcPublicKey c) (dom m)" using Cons.prems by (auto simp: kernelStep_def Let_def)
  then show ?case using Cons by simp
qed simp

definition endpointAt :: "(string \<Rightarrow> kernelPeer option) \<Rightarrow> string \<Rightarrow> string option" where
  "endpointAt m k = Option.bind (m k) kpEndpoint"

lemma endpoint_other: "k \<noteq> pcPublicKey c \<Longrightarrow> \<not> pcRemove c \<Longrightarrow> endpointAt (kernelStep c m) k = endpointAt m k"
  by (cases "m k") (simp_all add: endpointAt_def kernelStep_other)

lemma endpoint_fold:
  "\<forall>c \<in> set cs. \<not> pcRemove c \<and> (pcPublicKey c = k \<longrightarrow> pcEndpoint c = None \<or> pcEndpoint c = endpointAt m k) \<Longrightarrow> endpointAt (fold kernelStep cs m) k = endpointAt m k"
proof (induction cs arbitrary: m)
  case (Cons c cs)
  have "endpointAt (kernelStep c m) k = endpointAt m k"
  proof (cases "pcPublicKey c = k")
    case True
    then have "pcEndpoint c = None \<or> pcEndpoint c = endpointAt m k" "\<not> pcRemove c" using Cons.prems by simp_all
    then show ?thesis using True by (cases "m k") (auto simp: endpointAt_def kernelStep_def Let_def split: option.splits)
  qed (use Cons.prems endpoint_other in simp)
  then show ?case using Cons by simp
qed simp

section \<open>The device after an inbound was applied\<close>

lemma wgCurrentPeers_endpoint:
  assumes "kernelLaws H K peers" and "trimSpace iface \<noteq> []" and "wkDevice K h iface \<noteq> None"
  shows "map_of (wgCurrentPeers K h iface) k = map_option kpEndpoint (peers h iface k)"
proof -
  obtain ps where ps: "wkDevice K h iface = Some ps" using assms(3) by blast
  have "map_of (fold (\<lambda>p m. AList.update (dpKey p) (dpEndpoint p) m) qs m) k =
      (case map_of (map (\<lambda>p. (dpKey p, dpEndpoint p)) qs) k of None \<Rightarrow> map_of m k | Some e \<Rightarrow> Some e)" if "distinct (map dpKey qs)" for qs and m :: "(string, string option) gomap"
    using that
  proof (induction qs arbitrary: m)
    case (Cons q qs)
    have "map_of (map (\<lambda>p. (dpKey p, dpEndpoint p)) qs) (dpKey q) = None" using Cons.prems by (auto simp: map_of_eq_None_iff)
    then show ?case using Cons by (auto simp: update_conv split: option.split)
  qed simp
  from this [OF kernelLawsD(3) [OF assms(1) ps], of "[]"] show ?thesis
    using kernelLawsD(2) [OF assms(1) ps, of k] assms(2) ps by (simp add: wgCurrentPeers_def split: option.split)
qed

lemma desiredPeers_keys: "desiredPeers key now tg current ps = Inr ds \<Longrightarrow> map fst ds = map peerKey (filter (wgPeerActive now) ps)"
  by (induction ps arbitrary: ds) (auto simp: Let_def peerKey_def split: if_splits sum.splits)

text \<open>Which peer of the runtime a configuration is of.\<close>

definition confOf :: "(string \<Rightarrow> string option) \<Rightarrow> (string, string option) gomap \<Rightarrow> wgRuntimePeer \<Rightarrow> wgPeerConf \<Rightarrow> bool" where
  "confOf key current p c \<longleftrightarrow> key (peerKey p) = Some (pcPublicKey c) \<and> wgHostAllowedIPs (wpAddress p) = Some (pcAllowedIPs c) \<and> \<not> pcRemove c \<and> pcReplaceAllowedIPs c
     \<and> pcEndpoint c = Option.bind (map_of current (peerKey p)) id"

lemma wgPeerConfig_ok:
  assumes "wgPeerConfig key p = Inr c"
  shows "key (peerKey p) = Some (pcPublicKey c)" "wgHostAllowedIPs (wpAddress p) = Some (pcAllowedIPs c)" "\<not> pcRemove c" "pcEndpoint c = None"
  using assms by (auto simp: wgPeerConfig_def peerKey_def Let_def split: option.splits if_splits)

lemma desiredPeers_conf: "desiredPeers key now tg current ps = Inr ds \<Longrightarrow> list_all2 (confOf key current) (filter (wgPeerActive now) ps) (map snd ds)"
proof (induction ps arbitrary: ds)
  case (Cons p ps)
  show ?case
  proof (cases "wgPeerActive now p")
    case True
    then obtain c rest where c: "wgPeerConfig key p = Inr c" "desiredPeers key now tg current ps = Inr rest"
      "map snd ds = (case map_of current (peerKey p) of Some (Some e) \<Rightarrow> c\<lparr>pcReplaceAllowedIPs := True, pcEndpoint := Some e\<rparr> | _ \<Rightarrow> c\<lparr>pcReplaceAllowedIPs := True\<rparr>) # map snd rest"
      using Cons.prems by (auto simp: Let_def peerKey_def split: sum.splits)
    have "confOf key current p (hd (map snd ds))"
      using wgPeerConfig_ok [OF c(1)] c(3) by (simp add: confOf_def split: option.split)
    then show ?thesis using c(3) True Cons.IH [OF c(2)] by simp
  qed (use Cons in simp)
qed simp

text \<open>
  The device has the active peers of the inbound and no other, each takes exactly its one address, and its endpoint is the
  one it had: clients that are connected are not cut off.
\<close>

definition deviceMatches :: "int \<Rightarrow> wgRuntimeInbound \<Rightarrow> (string \<Rightarrow> kernelPeer option) \<Rightarrow> (string \<Rightarrow> kernelPeer option) \<Rightarrow> bool" where
  "deviceMatches now x m m' \<longleftrightarrow> dom m' = peerKey ` {p \<in> set (wiPeers x). wgPeerActive now p}
     \<and> (\<forall>p \<in> set (wiPeers x). wgPeerActive now p \<longrightarrow> (\<exists>kp n. m' (peerKey p) = Some kp \<and> peerAddr p = Some (V4 n)
          \<and> kpAllowed kp = [Prefix (V4 n) 32] \<and> kpEndpoint kp = endpointAt m (peerKey p)))"

text \<open>An inbound that was accepted, with an IPv4 pool, addresses without blanks around them and keys as \<open>String\<close> gives them.\<close>

definition tidyInbound :: "floats \<Rightarrow> (string \<Rightarrow> string option) \<Rightarrow> wgRuntimeInbound \<Rightarrow> bool" where
  "tidyInbound F key x \<longleftrightarrow> (\<exists>net bits. ParsePrefix (trimSpace (wgPool F x)) = Some (Prefix (V4 net) bits))
     \<and> (\<forall>p \<in> set (wiPeers x). trimSpace (wpAddress p) = wpAddress p \<and> key (peerKey p) = Some (peerKey p))"

definition plainInbound :: "floats \<Rightarrow> (string \<Rightarrow> string option) \<Rightarrow> wgRuntimeInbound \<Rightarrow> bool" where
  "plainInbound F key x \<longleftrightarrow> wgSound F key x \<and> tidyInbound F key x"

lemma plain_confs:
  assumes "plainInbound F key x" and "desiredPeers key now tg current (wiPeers x) = Inr ds"
  defines "as \<equiv> filter (wgPeerActive now) (wiPeers x)"
  shows "pinning (map snd ds)" and "map pcPublicKey (map snd ds) = map peerKey as" and "fst ` set ds = peerKey ` set as"
    and "p \<in> set as \<Longrightarrow> \<exists>n c. peerAddr p = Some (V4 n) \<and> c \<in> set (map snd ds) \<and> pcPublicKey c = peerKey p \<and> pcAllowedIPs c = [Prefix (V4 n) 32]"
proof -
  obtain net bits where x: "wgSound F key x" "ParsePrefix (trimSpace (wgPool F x)) = Some (Prefix (V4 net) bits)"
    "\<And>p. p \<in> set (wiPeers x) \<Longrightarrow> trimSpace (wpAddress p) = wpAddress p \<and> key (peerKey p) = Some (peerKey p)"
    using assms(1) unfolding plainInbound_def tidyInbound_def by blast
  have l: "list_all2 (confOf key current) as (map snd ds)" using desiredPeers_conf [OF assms(2)] by (simp add: as_def)
  then have len: "length (map snd ds) = length as" by (simp add: list_all2_lengthD)
  have in_as: "as ! i \<in> set (wiPeers x)" if "i < length as" for i using nth_mem [OF that] by (simp add: as_def)
  have conf: "confOf key current (as ! i) (map snd ds ! i)" if "i < length as" for i using list_all2_nthD [OF l that] .
  have keys: "pcPublicKey (map snd ds ! i) = peerKey (as ! i)" if "i < length as" for i
    using conf [OF that] x(3) [OF in_as [OF that]] by (simp add: confOf_def)
  then show k: "map pcPublicKey (map snd ds) = map peerKey as" using len by (intro nth_equalityI) simp_all
  show "fst ` set ds = peerKey ` set as" using desiredPeers_keys [OF assms(2)] by (metis as_def image_set)
  have d: "distinct (map peerKey as)" "distinct (map peerAddr as)" using x(1) by (simp_all add: wgSound_def as_def distinct_map_filter)
  have addr: "\<exists>n. peerAddr (as ! i) = Some (V4 n) \<and> pcAllowedIPs (map snd ds ! i) = [Prefix (V4 n) 32]" if "i < length as" for i
    using peer_pinned_address [OF x(1,2) in_as [OF that]] x(3) [OF in_as [OF that]] conf [OF that] by (auto simp: confOf_def)
  have "set (pcAllowedIPs (map snd ds ! i)) \<inter> set (pcAllowedIPs (map snd ds ! j)) = {}" if "i < j" "j < length as" for i j
  proof -
    have "peerAddr (as ! i) \<noteq> peerAddr (as ! j)" using nth_eq_iff_index_eq [OF d(2), of i j] that by simp
    then show ?thesis using addr [of i] addr [of j] that by auto
  qed
  then have "sorted_wrt (\<lambda>c d. set (pcAllowedIPs c) \<inter> set (pcAllowedIPs d) = {}) (map snd ds)" unfolding sorted_wrt_iff_nth_less using len by simp
  moreover have "\<not> pcRemove c \<and> pcReplaceAllowedIPs c" if c: "c \<in> set (map snd ds)" for c
  proof -
    obtain i where "i < length (map snd ds)" "c = map snd ds ! i" using c unfolding in_set_conv_nth by blast
    then have "i < length as" "c = map snd ds ! i" using len by simp_all
    then show ?thesis using conf [of i] by (simp add: confOf_def)
  qed
  ultimately show "pinning (map snd ds)" using d(1) k by (simp add: pinning_def)
  assume "p \<in> set as"
  then obtain i where i: "i < length as" "p = as ! i" by (auto simp: in_set_conv_nth)
  then show "\<exists>n c. peerAddr p = Some (V4 n) \<and> c \<in> set (map snd ds) \<and> pcPublicKey c = peerKey p \<and> pcAllowedIPs c = [Prefix (V4 n) 32]"
    using addr [OF i(1)] keys [OF i(1)] len nth_mem [of i "map snd ds"] i(2) by (metis (no_types))
qed

lemma configurePeers_device:
  assumes "kernelLaws H K peers" and "plainInbound F key x" and "trimSpace iface \<noteq> []" and "wkDevice K h iface \<noteq> None"
    and "configurePeers key K now iface privateKey x h = (Inr ks, h')"
  shows "deviceMatches now x (peers h iface) (peers h' iface)"
proof -
  let ?cur = "wgCurrentPeers K h iface" and ?m = "peers h iface"
  obtain ds where ds: "desiredPeers key now (wiTag x) ?cur (wiPeers x) = Inr ds"
    "wkConfigure K iface (deviceConfig privateKey (wiListenPort x) ?cur ds) h = (None, h')"
    using assms(5) by (auto simp: configurePeers_def Let_def split: sum.splits prod.splits option.splits)
  note pc = plain_confs [OF assms(2) ds(1)]
  let ?as = "filter (wgPeerActive now) (wiPeers x)" and ?cs = "map snd ds"
  let ?rm = "filter (\<lambda>k. k \<notin> fst ` set ds) (map fst ?cur)"
  have cur: "map_of ?cur k = map_option kpEndpoint (?m k)" for k using wgCurrentPeers_endpoint [OF assms(1,3,4)] .
  have curdom: "set (map fst ?cur) = dom ?m"
  proof -
    have "fst ` set ?cur = dom (map_of ?cur)" by (simp add: dom_map_of_conv_image_fst)
    also have "\<dots> = dom ?m" by (auto simp: cur dom_def)
    finally show ?thesis by simp
  qed
  have m': "peers h' iface = (\<lambda>k. if k \<in> set ?rm then None else fold kernelStep ?cs ?m k)"
    using kernelLawsD(5) [OF assms(1) ds(2)] by (simp add: deviceConfig_def fold_removeConf)
  have add: "\<forall>c \<in> set ?cs. \<not> pcRemove c" using pc(1) by (simp add: pinning_def)
  have img: "pcPublicKey ` set ?cs = peerKey ` set ?as" using pc(2) by (metis image_set)
  have dom: "dom (peers h' iface) = peerKey ` set ?as"
  proof -
    have "dom (peers h' iface) = dom (fold kernelStep ?cs ?m) - set ?rm" unfolding m' dom_def by (intro set_eqI) (simp del: set_map set_filter)
    moreover have "set ?rm = dom ?m - peerKey ` set ?as" using curdom pc(3) by auto
    ultimately show ?thesis using fold_pinning_dom [OF add, of ?m] img by auto
  qed
  have ep: "endpointAt (fold kernelStep ?cs ?m) k = endpointAt ?m k" for k
  proof (rule endpoint_fold, intro ballI conjI impI)
    fix c assume c: "c \<in> set ?cs"
    show "\<not> pcRemove c" using add c by blast
    assume k: "pcPublicKey c = k"
    obtain i where i: "i < length ?cs" "c = ?cs ! i" using c by (metis in_set_conv_nth)
    have conf: "confOf key ?cur (?as ! i) c" using desiredPeers_conf [OF ds(1)] i list_all2_nthD2 by blast
    have "i < length ?as" using i desiredPeers_conf [OF ds(1)] by (metis list_all2_lengthD)
    then have "peerKey (?as ! i) = k" using pc(2) i k by (metis nth_map length_map)
    then show "pcEndpoint c = None \<or> pcEndpoint c = endpointAt ?m k"
      using conf cur [of k] by (cases "?m k") (simp_all add: confOf_def endpointAt_def)
  qed
  have "\<exists>kp n. peers h' iface (peerKey p) = Some kp \<and> peerAddr p = Some (V4 n) \<and> kpAllowed kp = [Prefix (V4 n) 32] \<and> kpEndpoint kp = endpointAt ?m (peerKey p)"
    if p: "p \<in> set ?as" for p
  proof -
    obtain n c where c: "peerAddr p = Some (V4 n)" "c \<in> set ?cs" "pcPublicKey c = peerKey p" "pcAllowedIPs c = [Prefix (V4 n) 32]"
      using pc(4) [OF p] by blast
    obtain kp where kp: "fold kernelStep ?cs ?m (peerKey p) = Some kp" "kpAllowed kp = [Prefix (V4 n) 32]"
      using fold_pinning [OF pc(1) c(2), of ?m] c(3,4) by auto
    have "peerKey p \<notin> set ?rm" using pc(3) p by simp
    then show ?thesis using kp c(1) ep [of "peerKey p"] unfolding m' by (simp add: endpointAt_def)
  qed
  then show ?thesis using dom by (simp add: deviceMatches_def)
qed

lemma keeping_ensureLink:
  assumes "quietHost H view"
  shows "keeping view (wgEnsureLink H iface serverAddress mtu)"
proof -
  have k: "view h' = view h" if "hRun H [] command args h = (r, h')" "rulesArgs args" for command args r h h'
    using keepingD [OF quiet_run [OF assms that(2)] that(1)] .
  have c: "view (snd (runChecked H [] command args what h)) = view h" if "rulesArgs args" for command args what h
    using keeping_runChecked [OF quiet_run [OF assms that]] by (simp add: keeping_def)
  have "keeping view (addLink H iface)"
    unfolding keeping_def addLink_def wgLinkExists_def wgRunIP_def by (auto simp: c split: prod.split bool.split dest!: k)
  moreover have "keeping view (addAddress H iface serverAddress)"
    unfolding keeping_def addAddress_def wgAddressPresent_def wgRunIP_def by (auto simp: Let_def split: prod.split bool.split option.split dest!: k)
  ultimately show ?thesis unfolding wgEnsureLink_def
    by (intro keeps quiet_file [OF assms] quiet_run [OF assms]) simp_all
qed

lemma ensureLink_up:
  assumes "wgEnsureLink H iface serverAddress mtu h = (None, h')"
  shows "\<exists>h1 out. hRun H [] ''ip'' [''link'', ''set'', ''up'', ''dev'', iface] h1 = ((None, out), h')"
proof -
  obtain h1 where "runChecked H [] ''ip'' [''link'', ''set'', ''up'', ''dev'', iface] (''bring up '' @ iface) h1 = (None, h')"
    using assms unfolding wgEnsureLink_def by (meson thenDo_ok)
  then show ?thesis by (auto simp: runChecked_def split: prod.splits option.splits)
qed

lemma failing_ok: "failing c f h = (None, h') \<Longrightarrow> f h = (None, h')"
  by (simp add: failing_def split: prod.splits)

lemma applyInbound_steps:
  assumes "applyInbound F key ifaceName C K H ifaces baseDir now x h = (None, h')"
  defines "iface \<equiv> ifaceName (wiTag x)"
  obtains privateKey serverAddress h1 h2 ks h3 h4 where "inboundKeys F key x = Inr (privateKey, serverAddress)"
    "hMkdirAll H (joinPath [baseDir, iface]) 448 h = (None, h1)" "wgEnsureLink H iface serverAddress (wgMTU F x) h1 = (None, h2)"
    "configurePeers key K now iface privateKey x h2 = (Inr ks, h3)" "applyRules F H ifaces baseDir iface x h3 = (None, h4)"
    "pruneBaselines C H baseDir iface ks h4 = (None, h')"
proof -
  obtain privateKey serverAddress where p: "inboundKeys F key x = Inr (privateKey, serverAddress)"
    using assms(1) by (auto simp: applyInbound_def split: sum.splits)
  let ?conf = "\<lambda>h. case configurePeers key K now iface privateKey x h of
              (Inl err, h') \<Rightarrow> (Some err, h')
            | (Inr desiredKeys, h') \<Rightarrow> thenDo (applyRules F H ifaces baseDir iface x) (failing HostFailed (pruneBaselines C H baseDir iface desiredKeys)) h'"
  have "thenDo (failing HostFailed (hMkdirAll H (joinPath [baseDir, iface]) 448))
      (thenDo (failing HostFailed (wgEnsureLink H iface serverAddress (wgMTU F x))) ?conf) h = (None, h')"
    using assms(1) p unfolding applyInbound_def iface_def by (simp add: Let_def)
  from thenDo_ok [OF this] obtain h1 where h1: "failing HostFailed (hMkdirAll H (joinPath [baseDir, iface]) 448) h = (None, h1)"
    "thenDo (failing HostFailed (wgEnsureLink H iface serverAddress (wgMTU F x))) ?conf h1 = (None, h')" by blast
  from thenDo_ok [OF h1(2)] obtain h2 where h2: "failing HostFailed (wgEnsureLink H iface serverAddress (wgMTU F x)) h1 = (None, h2)" "?conf h2 = (None, h')" by blast
  note h = failing_ok [OF h1(1)] failing_ok [OF h2(1)] h2(2)
  obtain ks h3 where c: "configurePeers key K now iface privateKey x h2 = (Inr ks, h3)"
    "thenDo (applyRules F H ifaces baseDir iface x) (failing HostFailed (pruneBaselines C H baseDir iface ks)) h3 = (None, h')"
    using h(3) by (auto split: prod.splits sum.splits)
  obtain h4 where "applyRules F H ifaces baseDir iface x h3 = (None, h4)" "pruneBaselines C H baseDir iface ks h4 = (None, h')"
    using thenDo_ok [OF c(2)] failing_ok by metis
  with p h(1,2) c(1) show thesis by (rule that)
qed

lemma inbound_matches:
  assumes "kernelLaws H K peers" and "plainInbound F key x" and "trimSpace (ifaceName (wiTag x)) \<noteq> []"
    and "applyInbound F key ifaceName C K H ifaces baseDir now x h = (None, h')"
  shows "deviceMatches now x (peers h (ifaceName (wiTag x))) (peers h' (ifaceName (wiTag x)))"
proof -
  let ?i = "ifaceName (wiTag x)"
  note q = kernelLawsD(1) [OF assms(1)]
  obtain pk sa h1 h2 ks h3 h4 where s: "hMkdirAll H (joinPath [baseDir, ?i]) 448 h = (None, h1)" "wgEnsureLink H ?i sa (wgMTU F x) h1 = (None, h2)"
    "configurePeers key K now ?i pk x h2 = (Inr ks, h3)" "applyRules F H ifaces baseDir ?i x h3 = (None, h4)" "pruneBaselines C H baseDir ?i ks h4 = (None, h')"
    by (rule applyInbound_steps [OF assms(4)])
  have "wkDevice K h2 ?i \<noteq> None" using ensureLink_up [OF s(2)] kernelLawsD(4) [OF assms(1)] by blast
  from configurePeers_device [OF assms(1-3) this s(3)] have "deviceMatches now x (peers h2 ?i) (peers h3 ?i)" .
  moreover have "peers h2 = peers h" using keepingD [OF quiet_file(2) [OF q] s(1)] keepingD [OF keeping_ensureLink [OF q] s(2)] by simp
  moreover have "peers h' = peers h3" using keepingD [OF keeping_applyRules [OF q] s(4)] keepingD [OF keeping_pruneBaselines [OF q] s(5)] by simp
  ultimately show ?thesis by simp
qed

text \<open>
  (C14) When an accepted inbound was applied, the device of its interface has exactly its active peers, each with its one
  address, and peers that were connected keep their endpoint.
\<close>

theorem wg_device_matches:
  assumes "kernelLaws H K peers" and "plainInbound F key x" and "trimSpace (ifaceName (wiTag x)) \<noteq> []"
    and "applyInbound F key ifaceName C K H ifaces baseDir now x h = (None, h')"
  shows "deviceMatches now x (peers h (ifaceName (wiTag x))) (peers h' (ifaceName (wiTag x)))"
  using assms by (rule inbound_matches)

lemma applyAccepted_inbounds:
  assumes "applyAccepted F key ifaceName C K H ifaces baseDir now r h = (None, h')" and "hGOOS H \<noteq> ''windows''"
  shows "\<exists>h2. applyInbounds (applyInbound F key ifaceName C K H ifaces baseDir now) (wrInbounds r) h2 = (None, h')"
proof -
  let ?last = "\<lambda>h. case wkNew K h of Some err \<Rightarrow> (Some (NoWgctrl err), h) | None \<Rightarrow> applyInbounds (applyInbound F key ifaceName C K H ifaces baseDir now) (wrInbounds r) h"
  show ?thesis
  proof (cases "ecRuntime C r")
    case (Inr raw)
    then have "thenDo (failing HostFailed (hWrite H (joinPath [baseDir, ''runtime.json'']) raw 384))
        (thenDo (failing HostFailed (pruneRemovedInbounds H baseDir (map (ifaceName \<circ> wiTag) (wrInbounds r)))) ?last) h = (None, h')"
      using assms by (simp only: applyAccepted_def sum.case if_False)
    from thenDo_ok [OF this] obtain h1 where "thenDo (failing HostFailed (pruneRemovedInbounds H baseDir (map (ifaceName \<circ> wiTag) (wrInbounds r)))) ?last h1 = (None, h')" by blast
    from thenDo_ok [OF this] obtain h2 where "?last h2 = (None, h')" by blast
    then show ?thesis by (auto split: option.splits)
  qed (use assms in \<open>simp add: applyAccepted_def fail_def\<close>)
qed

lemma applyInbound_others:
  assumes "kernelLaws H K peers" and "applyInbound F key ifaceName C K H ifaces baseDir now x h = (None, h')" and "i \<noteq> ifaceName (wiTag x)"
  shows "peers h' i = peers h i"
proof -
  let ?i = "ifaceName (wiTag x)"
  note q = kernelLawsD(1) [OF assms(1)]
  obtain pk sa h1 h2 ks h3 h4 where s: "hMkdirAll H (joinPath [baseDir, ?i]) 448 h = (None, h1)" "wgEnsureLink H ?i sa (wgMTU F x) h1 = (None, h2)"
    "configurePeers key K now ?i pk x h2 = (Inr ks, h3)" "applyRules F H ifaces baseDir ?i x h3 = (None, h4)" "pruneBaselines C H baseDir ?i ks h4 = (None, h')"
    by (rule applyInbound_steps [OF assms(2)])
  obtain conf where "wkConfigure K ?i conf h2 = (None, h3)" "\<not> dcReplacePeers conf"
    using s(3) by (auto simp: configurePeers_def deviceConfig_def Let_def split: sum.splits prod.splits option.splits)
  from kernelLawsD(5) [OF assms(1) this] have "peers h3 i = peers h2 i" using assms(3) by simp
  then show ?thesis using keepingD [OF quiet_file(2) [OF q] s(1)] keepingD [OF keeping_ensureLink [OF q] s(2)]
      keepingD [OF keeping_applyRules [OF q] s(4)] keepingD [OF keeping_pruneBaselines [OF q] s(5)] by simp
qed

lemma applyInbounds_others:
  assumes "kernelLaws H K peers"
  shows "applyInbounds (applyInbound F key ifaceName C K H ifaces baseDir now) xs h = (None, h') \<Longrightarrow> i \<notin> (ifaceName \<circ> wiTag) ` set xs \<Longrightarrow> peers h' i = peers h i"
proof (induction xs arbitrary: h)
  case (Cons x xs)
  obtain h1 where h1: "applyInbound F key ifaceName C K H ifaces baseDir now x h = (None, h1)" "applyInbounds (applyInbound F key ifaceName C K H ifaces baseDir now) xs h1 = (None, h')"
    using thenDo_ok Cons.prems(1) by (metis applyInbounds.simps(2))
  then show ?case using Cons.IH [OF h1(2)] applyInbound_others [OF assms h1(1)] Cons.prems(2) by simp
qed (simp add: skip_def)

lemma applyInbounds_match:
  assumes "kernelLaws H K peers"
  shows "applyInbounds (applyInbound F key ifaceName C K H ifaces baseDir now) xs h = (None, h') \<Longrightarrow> distinct (map (ifaceName \<circ> wiTag) xs) \<Longrightarrow>
    \<forall>x \<in> set xs. plainInbound F key x \<and> trimSpace (ifaceName (wiTag x)) \<noteq> [] \<Longrightarrow> x \<in> set xs \<Longrightarrow>
    deviceMatches now x (peers h (ifaceName (wiTag x))) (peers h' (ifaceName (wiTag x)))"
proof (induction xs arbitrary: h)
  case (Cons y xs)
  obtain h1 where h1: "applyInbound F key ifaceName C K H ifaces baseDir now y h = (None, h1)" "applyInbounds (applyInbound F key ifaceName C K H ifaces baseDir now) xs h1 = (None, h')"
    using thenDo_ok Cons.prems(1) by (metis applyInbounds.simps(2))
  have fresh: "ifaceName (wiTag y) \<notin> (ifaceName \<circ> wiTag) ` set xs" using Cons.prems(2) by simp
  show ?case
  proof (cases "x \<in> set xs")
    case True
    then have "ifaceName (wiTag x) \<in> (ifaceName \<circ> wiTag) ` set xs" by (simp add: image_iff) blast
    then have "ifaceName (wiTag x) \<noteq> ifaceName (wiTag y)" using fresh by metis
    then show ?thesis using Cons.IH [OF h1(2)] Cons.prems(2,3) True applyInbound_others [OF assms h1(1)] by simp
  next
    case False
    then have x: "x = y" using Cons.prems(4) by simp
    have "deviceMatches now y (peers h (ifaceName (wiTag y))) (peers h1 (ifaceName (wiTag y)))"
      using Cons.prems(3) h1(1) by (intro inbound_matches [OF assms]) simp_all
    then show ?thesis using applyInbounds_others [OF assms h1(2) fresh] x by simp
  qed
qed simp

text \<open>
  A runtime that was applied was valid, and the device of every inbound of it has exactly the active peers of the
  inbound: no inbound disturbs another.
\<close>

theorem wg_apply_all:
  assumes "kernelLaws H K peers" and "wgApply F key ifaceName C K H ifaces baseDir installMode now (Some r) h = (None, h')" and "hGOOS H \<noteq> ''windows''"
    and "\<forall>x \<in> set (wrInbounds r). tidyInbound F key (normalizeWGRuntimeInbound F x) \<and> trimSpace (ifaceName (wiTag x)) \<noteq> []"
    and "distinct (map (ifaceName \<circ> wiTag) (wrInbounds r))" and "x \<in> set (wrInbounds r)"
  shows "wgSound F key (normalizeWGRuntimeInbound F x) \<and> (\<exists>m. deviceMatches now (normalizeWGRuntimeInbound F x) m (peers h' (ifaceName (wiTag x))))"
proof -
  let ?n = "normalizeWGRuntimeInbound F" and ?a = "applyInbound F key ifaceName C K H ifaces baseDir now"
  let ?ibs = "map ?n (wrInbounds r)"
  have tag: "wiTag (?n y) = wiTag y" for y by (simp add: normalizeWGRuntimeInbound_def Let_def)
  let ?rest = "case wgValidateInbounds F key ?ibs of Some err \<Rightarrow> fail (Refused err) | None \<Rightarrow> applyAccepted F key ifaceName C K H ifaces baseDir now (r\<lparr>wrInbounds := ?ibs\<rparr>)"
  have "\<not> (wrInbounds r \<noteq> [] \<and> installMode \<noteq> ''binary'')" using assms(2) by (auto simp: wgApply_def Let_def fail_def split: if_splits)
  then have "thenDo (if wrInbounds r \<noteq> [] then failing HostFailed (ensureWGPrerequisites K H) else skip) (thenDo (failing HostFailed (hMkdirAll H baseDir 448)) ?rest) h = (None, h')"
    using assms(2) unfolding wgApply_def Let_def option.case by (simp only: if_False)
  from thenDo_ok [OF this] obtain h0 where "thenDo (failing HostFailed (hMkdirAll H baseDir 448)) ?rest h0 = (None, h')" by blast
  from thenDo_ok [OF this] obtain h1 where "?rest h1 = (None, h')" by blast
  then have v: "wgValidateInbounds F key ?ibs = None" "applyAccepted F key ifaceName C K H ifaces baseDir now (r\<lparr>wrInbounds := ?ibs\<rparr>) h1 = (None, h')"
    by (auto simp: fail_def split: option.splits)
  have sound: "wgSound F key y" if "y \<in> set ?ibs" for y using wgValidateFrom_ok [of F key "[]" "[]" ?ibs] v(1) that by (auto simp: wgValidateInbounds_def)
  obtain h2 where h2: "applyInbounds ?a ?ibs h2 = (None, h')" using applyAccepted_inbounds [OF v(2) assms(3)] by auto
  have "deviceMatches now (?n x) (peers h2 (ifaceName (wiTag (?n x)))) (peers h' (ifaceName (wiTag (?n x))))"
  proof (rule applyInbounds_match [OF assms(1) h2])
    show "distinct (map (ifaceName \<circ> wiTag) ?ibs)" using assms(5) by (simp add: comp_def tag)
    show "\<forall>y \<in> set ?ibs. plainInbound F key y \<and> trimSpace (ifaceName (wiTag y)) \<noteq> []"
      using sound assms(4) by (auto simp: plainInbound_def tag)
    show "?n x \<in> set ?ibs" using assms(6) by simp
  qed
  then show ?thesis using sound assms(6) by (auto simp: tag)
qed


lemma psk_fold:
  "\<forall>c \<in> set cs. \<not> pcRemove c \<and> (pcPublicKey c = k \<longrightarrow> pcPresharedKey c = None) \<Longrightarrow> Option.bind (fold kernelStep cs m k) kpPsk = Option.bind (m k) kpPsk"
proof (induction cs arbitrary: m)
  case (Cons c cs)
  have "Option.bind (kernelStep c m k) kpPsk = Option.bind (m k) kpPsk"
  proof (cases "pcPublicKey c = k")
    case True
    then show ?thesis using Cons.prems by (cases "m k") (auto simp: kernelStep_def Let_def)
  next
    case False
    then show ?thesis using Cons.prems by (cases "m k") (simp_all add: kernelStep_other)
  qed
  then show ?case using Cons by simp
qed simp

lemma desiredPeers_psk: "desiredPeers key now tg current ps = Inr ds \<Longrightarrow> c \<in> set (map snd ds) \<Longrightarrow>
    \<exists>p \<in> set ps. wgPeerActive now p \<and> key (peerKey p) = Some (pcPublicKey c) \<and> (trimSpace (wpPresharedKey p) = [] \<longrightarrow> pcPresharedKey c = None)"
proof (induction ps arbitrary: ds)
  case (Cons p ps)
  show ?case
  proof (cases "wgPeerActive now p")
    case True
    then obtain d rest where d: "wgPeerConfig key p = Inr d" "desiredPeers key now tg current ps = Inr rest"
      "map snd ds = (case map_of current (peerKey p) of Some (Some e) \<Rightarrow> d\<lparr>pcReplaceAllowedIPs := True, pcEndpoint := Some e\<rparr> | _ \<Rightarrow> d\<lparr>pcReplaceAllowedIPs := True\<rparr>) # map snd rest"
      using Cons.prems(1) by (auto simp: Let_def peerKey_def split: sum.splits)
    have "key (peerKey p) = Some (pcPublicKey d)" "trimSpace (wpPresharedKey p) = [] \<longrightarrow> pcPresharedKey d = None"
      using d(1) by (auto simp: wgPeerConfig_def peerKey_def Let_def split: option.splits if_splits)
    then have head: "key (peerKey p) = Some (pcPublicKey (hd (map snd ds))) \<and> (trimSpace (wpPresharedKey p) = [] \<longrightarrow> pcPresharedKey (hd (map snd ds)) = None)"
      unfolding d(3) by (simp split: option.split)
    consider "c \<in> set (map snd rest)" | "c = hd (map snd ds)" using Cons.prems(2) unfolding d(3) by (auto simp del: set_map)
    then show ?thesis
    proof cases
      case 1
      then show ?thesis using Cons.IH [OF d(2)] by (meson list.set_intros(2))
    next
      case 2
      then show ?thesis using head True by (meson list.set_intros(1))
    qed
  qed (use Cons in auto)
qed simp

text \<open>
  A preshared key that was taken out of the runtime stays in the kernel: the configuration of a peer without one says
  nothing of the key, which leaves the old one in force, so the client that was given none can no longer connect.
\<close>

theorem dropped_psk_stays:
  assumes "kernelLaws H K peers" and "plainInbound F key x" and "trimSpace (ifaceName (wiTag x)) \<noteq> []"
    and "applyInbound F key ifaceName C K H ifaces baseDir now x h = (None, h')"
    and "p \<in> set (wiPeers x)" and "wgPeerActive now p" and "trimSpace (wpPresharedKey p) = []"
    and "peers h (ifaceName (wiTag x)) (peerKey p) = Some old"
  shows "\<exists>kp. peers h' (ifaceName (wiTag x)) (peerKey p) = Some kp \<and> kpPsk kp = kpPsk old"
proof -
  let ?i = "ifaceName (wiTag x)" and ?k = "peerKey p"
  note q = kernelLawsD(1) [OF assms(1)]
  obtain pk sa h1 h2 ks h3 h4 where s: "hMkdirAll H (joinPath [baseDir, ?i]) 448 h = (None, h1)" "wgEnsureLink H ?i sa (wgMTU F x) h1 = (None, h2)"
    "configurePeers key K now ?i pk x h2 = (Inr ks, h3)" "applyRules F H ifaces baseDir ?i x h3 = (None, h4)" "pruneBaselines C H baseDir ?i ks h4 = (None, h')"
    by (rule applyInbound_steps [OF assms(4)])
  let ?cur = "wgCurrentPeers K h2 ?i"
  obtain ds where ds: "desiredPeers key now (wiTag x) ?cur (wiPeers x) = Inr ds"
    "wkConfigure K ?i (deviceConfig pk (wiListenPort x) ?cur ds) h2 = (None, h3)"
    using s(3) by (auto simp: configurePeers_def Let_def split: sum.splits prod.splits option.splits)
  have h: "peers h2 = peers h" "peers h' = peers h3"
    using keepingD [OF quiet_file(2) [OF q] s(1)] keepingD [OF keeping_ensureLink [OF q] s(2)]
      keepingD [OF keeping_applyRules [OF q] s(4)] keepingD [OF keeping_pruneBaselines [OF q] s(5)] by simp_all
  note pc = plain_confs [OF assms(2) ds(1)]
  have only: "r = p" if "r \<in> set (wiPeers x)" "peerKey r = ?k" for r
    using assms(2,5) that by (auto simp: plainInbound_def wgSound_def distinct_map inj_on_def)
  have "\<forall>c \<in> set (map snd ds). \<not> pcRemove c \<and> (pcPublicKey c = ?k \<longrightarrow> pcPresharedKey c = None)"
  proof (intro ballI conjI impI)
    fix c assume c: "c \<in> set (map snd ds)"
    show "\<not> pcRemove c" using pc(1) c unfolding pinning_def by blast
    assume "pcPublicKey c = ?k"
    then show "pcPresharedKey c = None" using desiredPeers_psk [OF ds(1) c] assms(2,7) only by (auto simp: plainInbound_def tidyInbound_def)
  qed
  from psk_fold [OF this] have psk: "Option.bind (fold kernelStep (map snd ds) (peers h2 ?i) ?k) kpPsk = kpPsk old" using assms(8) h(1) by simp
  have key: "?k \<in> fst ` set ds" using pc(3) assms(5,6) by simp
  have "p \<in> set (filter (wgPeerActive now) (wiPeers x))" using assms(5,6) by simp
  from pc(4) [OF this] obtain c where "c \<in> set (map snd ds)" "pcPublicKey c = ?k" by blast
  then obtain kp where kp: "fold kernelStep (map snd ds) (peers h2 ?i) ?k = Some kp" using fold_pinning [OF pc(1)] by metis
  have "peers h3 ?i ?k = fold kernelStep (map snd ds) (peers h2 ?i) ?k"
    using kernelLawsD(5) [OF assms(1) ds(2)] key by (simp add: deviceConfig_def fold_removeConf)
  then show ?thesis using kp psk h(2) by simp
qed

section \<open>A small kernel\<close>

text \<open>One interface; the host is the list of its peers, every program succeeds and prints nothing, and no file is there.\<close>

type_synonym peerTable = "(string \<times> kernelPeer) list"

definition miniPeers :: "peerTable wgPeers" where
  "miniPeers h iface = (if iface = ''rbwg'' then map_of h else Map.empty)"

definition miniTable :: "string list \<Rightarrow> (string \<Rightarrow> kernelPeer option) \<Rightarrow> peerTable" where
  "miniTable ks m = concat (map (\<lambda>k. case m k of None \<Rightarrow> [] | Some p \<Rightarrow> [(k, p)]) ks)"

definition miniConfigure :: "string \<Rightarrow> wgDeviceConf \<Rightarrow> peerTable action" where
  "miniConfigure iface conf h =
     (if iface = ''rbwg'' then (None, miniTable (remdups (map fst h @ map pcPublicKey (dcPeers conf))) (fold kernelStep (dcPeers conf) (map_of h)))
      else (Some ''no such device'', h))"

definition miniKernel :: "peerTable wgctl" where
  "miniKernel = \<lparr>wkNew = (\<lambda>h. None),
     wkDevice = (\<lambda>h iface. Some (if iface = ''rbwg'' then map (\<lambda>k. \<lparr>dpKey = k, dpEndpoint = Option.bind (map_of h k) kpEndpoint, dpReceive = 0, dpTransmit = 0, dpHandshake = None\<rparr>)
       (remdups (map fst h)) else [])),
     wkConfigure = miniConfigure\<rparr>"

definition miniHost :: "peerTable host" where
  "miniHost = \<lparr>hGOOS = ''linux'', hRoot = True, hLook = (\<lambda>h name. Inr name), hRun = (\<lambda>env command args h. ((None, []), h)),
     hRead = (\<lambda>h path. Inl ''no file''), hWrite = (\<lambda>path content mode. skip), hChmod = (\<lambda>path mode. skip), hMkdirAll = (\<lambda>path mode. skip),
     hRemove = (\<lambda>path. skip), hRemoveAll = (\<lambda>path. skip), hStat = (\<lambda>h path. None), hReadDir = (\<lambda>h path. Inr []), hSleep = (\<lambda>ms h. h)\<rparr>"

lemma miniTable_map_of: "map_of (miniTable ks m) k = (if k \<in> set ks then m k else None)"
  by (induction ks) (auto simp: miniTable_def map_add_Some_iff split: option.split)

lemma kernelSteps_dom: "dom (fold kernelStep cs m) \<subseteq> pcPublicKey ` set cs \<union> dom m"
proof (induction cs arbitrary: m)
  case (Cons c cs)
  have "dom (kernelStep c m) \<subseteq> insert (pcPublicKey c) (dom m)" by (auto simp: kernelStep_def Let_def split: if_splits)
  then have "pcPublicKey ` set cs \<union> dom (kernelStep c m) \<subseteq> pcPublicKey ` set (c # cs) \<union> dom m" by auto
  with Cons [of "kernelStep c m"] show ?case by (simp only: fold_simps(2) comp_apply subset_trans)
qed simp

lemma miniConfigured: "map_of (miniTable (remdups (map fst h @ map pcPublicKey cs)) (fold kernelStep cs (map_of h))) = fold kernelStep cs (map_of h)"
proof
  fix k
  show "map_of (miniTable (remdups (map fst h @ map pcPublicKey cs)) (fold kernelStep cs (map_of h))) k = fold kernelStep cs (map_of h) k"
    using subsetD [OF kernelSteps_dom [of cs "map_of h"], of k] by (cases "fold kernelStep cs (map_of h) k") (auto simp: miniTable_map_of dom_map_of_conv_image_fst)
qed

lemma mini_kernelLaws: "kernelLaws miniHost miniKernel miniPeers"
  unfolding kernelLaws_def
proof (intro conjI allI impI)
  show "quietHost miniHost miniPeers" by (simp add: quietHost_def keeping_def miniHost_def skip_def)
  fix h :: peerTable and iface ps k
  assume ps: "wkDevice miniKernel h iface = Some ps"
  have "map_of (map (\<lambda>k. (k, f k)) ks) k = (if k \<in> set ks then Some (f k) else None)" for ks and f :: "string \<Rightarrow> string option"
    by (induction ks) auto
  from this [of "\<lambda>k. Option.bind (map_of h k) kpEndpoint" "remdups (map fst h)"]
  show "map_option kpEndpoint (miniPeers h iface k) = map_of (map (\<lambda>p. (dpKey p, dpEndpoint p)) ps) k"
    using ps map_of_eq_None_iff [of h k] by (cases "map_of h k") (auto simp: miniKernel_def miniPeers_def comp_def simp del: map_of_eq_Some_iff)
  show "distinct (map dpKey ps)" using ps by (auto simp: miniKernel_def comp_def)
next
  fix h h' :: peerTable and iface conf
  assume "wkConfigure miniKernel iface conf h = (None, h') \<and> \<not> dcReplacePeers conf"
  then show "miniPeers h' = (miniPeers h)(iface := fold kernelStep (dcPeers conf) (miniPeers h iface))"
    by (auto simp: fun_eq_iff miniKernel_def miniConfigure_def miniPeers_def miniConfigured split: if_splits)
qed (simp add: miniKernel_def)

definition applyExample :: wgRuntimeInbound where
  "applyExample = exampleInbound\<lparr>wiSettings := [(''private_key'', JStr ''k''), (''tproxy_enabled'', JBool False)]\<rparr>"

definition exampleTable :: peerTable where
  "exampleTable = [(''a'', \<lparr>kpAllowed = [], kpPsk = Some ''old'', kpEndpoint = Some ''192.0.2.7:51820''\<rparr>), (''z'', \<lparr>kpAllowed = [], kpPsk = None, kpEndpoint = None\<rparr>)]"

definition exampleCodec :: wgCodec where
  "exampleCodec = \<lparr>ecRuntime = (\<lambda>r. Inr []), dcRuntime = (\<lambda>s. None), ecCounters = (\<lambda>m. Inr []), dcCounters = (\<lambda>s. None), ecSessions = (\<lambda>m. Inr []), dcSessions = (\<lambda>s. None)\<rparr>"

definition exampleApplied :: "wgApplyError option \<times> peerTable" where
  "exampleApplied = applyInbound exampleFloats Some (\<lambda>tg. ''rbwg'') exampleCodec miniKernel miniHost None ''/var/lib/wireguard'' 0 applyExample exampleTable"

lemma applyExample_valid: "wgValidateInbounds exampleFloats Some [applyExample] = None"
  by (simp add: applyExample_def wgValidateInbounds_def exampleInbound_def examplePeer_def Let_def wgPool_def wgDefaultPool_def boolValue_def
      wgServerOf_def wgValidatePeerAddresses_def wgServer_def wgPeerAddr_def pfxContains_def sameNet_def wgOverlap_def netContains_def)

lemma applyExample_plain: "plainInbound exampleFloats Some applyExample"
proof -
  have "wgSound exampleFloats Some applyExample"
    using wgValidateFrom_ok [of exampleFloats Some "[]" "[]" "[applyExample]"] applyExample_valid by (simp add: wgValidateInbounds_def)
  moreover have "ParsePrefix (trimSpace (wgPool exampleFloats applyExample)) = Some (Prefix (V4 172359680) 16)"
    by (simp add: wgPool_def wgDefaultPool_def applyExample_def)
  ultimately show ?thesis unfolding plainInbound_def tidyInbound_def by (simp add: applyExample_def exampleInbound_def examplePeer_def)
qed

lemma mini_run [simp]: "hRun miniHost env command args h = ((None, []), h)" "hWrite miniHost path content mode = skip" "hMkdirAll miniHost path mode = skip"
  "hRead miniHost h path = Inl ''no file''"
  by (simp_all add: miniHost_def)

lemma mini_checked [simp]: "runChecked miniHost env command args what = skip"
  by (rule ext) (simp add: runChecked_def skip_def)

lemma mini_link: "fst (wgEnsureLink miniHost iface address mtu h) = None"
proof -
  have "addLink miniHost iface = skip" by (rule ext) (simp add: addLink_def wgLinkExists_def wgRunIP_def skip_def)
  moreover have "addAddress miniHost iface address = skip"
    by (rule ext) (simp add: addAddress_def wgAddressPresent_def wgRunIP_def Let_def skip_def split: prod.split bool.split)
  moreover have "ignoring skip = (skip :: peerTable action)" by (rule ext) (simp add: ignoring_def skip_def)
  ultimately show ?thesis by (simp add: wgEnsureLink_def skip_def [of h])
qed

lemma exampleApplied_ok: "exampleApplied = (None, snd exampleApplied)"
proof -
  have host: "ParseAddr ''10.70.0.2'' = Some (V4 172359682)" "ParseAddr ''10.70.0.3'' = Some (V4 172359683)" by (simp_all add: prefix_eval)
  have "trimSpace ''10.70.0.2'' = ''10.70.0.2''" "trimSpace ''10.70.0.3'' = ''10.70.0.3''" using V4_trimmed [OF host(1)] V4_trimmed [OF host(2)] by simp_all
  with host obtain c d where "wgPeerConfig Some (examplePeer 1 ''a'' ''10.70.0.2/32'') = Inr c" "wgPeerConfig Some (examplePeer 2 ''b'' ''10.70.0.3/32'') = Inr d"
    by (simp add: wgPeerConfig_def examplePeer_def wgHostAllowedIPs_def hasPrefix_def parseIP_def Let_def)
  then have desired: "\<exists>ds. desiredPeers Some 0 tg current (wiPeers applyExample) = Inr ds" for tg current
    by (simp add: applyExample_def exampleInbound_def Let_def split: sum.split)
  have conf: "\<exists>ks h'. configurePeers Some miniKernel 0 ''rbwg'' pk applyExample h = (Inr ks, h')" for pk h
  proof -
    obtain ds where "desiredPeers Some 0 (wiTag applyExample) (wgCurrentPeers miniKernel h ''rbwg'') (wiPeers applyExample) = Inr ds" using desired by blast
    moreover have "wkConfigure miniKernel ''rbwg'' = miniConfigure ''rbwg''" by (simp add: miniKernel_def)
    ultimately show ?thesis by (simp add: configurePeers_def miniConfigure_def Let_def)
  qed
  have "trimSpace ''k'' = ''k''" by (rule trimSpace_graphic) (simp_all add: graphic_def)
  then have keys: "inboundKeys exampleFloats Some applyExample = Inr (''k'', ''10.70.0.1/16'')"
    by (simp add: inboundKeys_def applyExample_def wgPool_def wgDefaultPool_def Let_def)
  have rules: "fst (applyRules exampleFloats miniHost ifaces d i applyExample h) = None" for ifaces d i h
    by (simp add: applyRules_def applyExample_def boolValue_def thenDo_def ignoring_def)
  have "fst (exampleApplied) = None"
  proof -
    obtain h1 where l: "wgEnsureLink miniHost ''rbwg'' ''10.70.0.1/16'' (wgMTU exampleFloats applyExample) exampleTable = (None, h1)" using mini_link by (metis prod.collapse)
    obtain ks h2 where k: "configurePeers Some miniKernel 0 ''rbwg'' ''k'' applyExample h1 = (Inr ks, h2)" using conf by blast
    obtain h3 where r: "applyRules exampleFloats miniHost None ''/var/lib/wireguard'' ''rbwg'' applyExample h2 = (None, h3)" using rules by (metis prod.collapse)
    show ?thesis using keys l k r unfolding exampleApplied_def applyInbound_def Let_def
      by (simp add: thenDo_def failing_def pruneBaselines_def loadBaselines_def loadMap_def skip_def split: prod.split option.split)
  qed
  then show ?thesis by (metis prod.collapse)
qed

theorem wg_device_matches_witness: "deviceMatches 0 applyExample (miniPeers exampleTable ''rbwg'') (miniPeers (snd exampleApplied) ''rbwg'')"
proof -
  have "trimSpace ''rbwg'' \<noteq> []" by (subst trimSpace_graphic) (simp_all add: graphic_def)
  then show ?thesis using exampleApplied_ok unfolding exampleApplied_def
    by (intro wg_device_matches [OF mini_kernelLaws applyExample_plain, where ifaceName = "\<lambda>tg. ''rbwg''"])
qed

theorem dropped_psk_stays_witness: "\<exists>kp. miniPeers (snd exampleApplied) ''rbwg'' ''a'' = Some kp \<and> kpPsk kp = Some ''old''"
proof -
  have "trimSpace ''rbwg'' \<noteq> []" by (subst trimSpace_graphic) (simp_all add: graphic_def)
  note d = dropped_psk_stays [OF mini_kernelLaws applyExample_plain, where ifaceName = "\<lambda>tg. ''rbwg''", OF this exampleApplied_ok [unfolded exampleApplied_def],
      where p = "examplePeer 1 ''a'' ''10.70.0.2/32''" and old = "snd (hd exampleTable)", folded exampleApplied_def]
  have "peerKey (examplePeer 1 ''a'' ''10.70.0.2/32'') = ''a''" by (simp add: peerKey_def examplePeer_def)
  moreover have "wgPeerActive 0 (examplePeer 1 ''a'' ''10.70.0.2/32'')" by code_simp
  moreover have "examplePeer 1 ''a'' ''10.70.0.2/32'' \<in> set (wiPeers applyExample)" "trimSpace (wpPresharedKey (examplePeer 1 ''a'' ''10.70.0.2/32'')) = []"
    by (simp_all add: applyExample_def exampleInbound_def examplePeer_def)
  ultimately show ?thesis using d by (simp add: miniPeers_def exampleTable_def)
qed

definition exampleRuntime :: wgRuntime where
  "exampleRuntime = \<lparr>wrGeneratedAt = [], wrTarget = [], wrSessionCallback = None, wrInbounds = [applyExample]\<rparr>"

definition exampleAllApplied :: "wgApplyError option \<times> peerTable" where
  "exampleAllApplied = wgApply exampleFloats Some (\<lambda>tg. ''rbwg'') exampleCodec miniKernel miniHost None ''/var/lib/wireguard'' ''binary'' 0 (Some exampleRuntime) exampleTable"

lemma applyExample_normal: "normalizeWGRuntimeInbound exampleFloats applyExample = applyExample"
  by (simp add: normalizeWGRuntimeInbound_def applyExample_def exampleInbound_def Let_def)

lemma exampleAllApplied_ok: "exampleAllApplied = (None, snd exampleAllApplied)"
proof -
  have quiet: "runQuiet miniHost command args = skip" for command args by (rule ext) (simp add: runQuiet_def skip_def)
  have lift: "failing c (skip :: peerTable action) = skip" for c :: "string \<Rightarrow> wgApplyError" by (rule ext) (simp add: failing_def skip_def)
  have found: "missingExecutables miniHost h names = []" for h names by (simp add: missingExecutables_def commandExists_def miniHost_def)
  have "loadWGKernelModule miniKernel miniHost = skip"
    by (rule ext) (simp add: loadWGKernelModule_def quiet miniKernel_def skip_def)
  then have pre: "ensureWGPrerequisites miniKernel miniHost = skip"
    by (auto simp: ensureWGPrerequisites_def found thenDo_def skip_def)
  have prune: "pruneRemovedInbounds miniHost d ns = skip" for d ns
    by (rule ext) (simp add: pruneRemovedInbounds_def miniHost_def)
  have r: "wrInbounds exampleRuntime = [applyExample]" "exampleRuntime\<lparr>wrInbounds := [applyExample]\<rparr> = exampleRuntime" by (simp_all add: exampleRuntime_def)
  have enc: "ecRuntime exampleCodec exampleRuntime = Inr []" by (simp add: exampleCodec_def)
  have new: "wkNew miniKernel h = None" for h by (simp add: miniKernel_def)
  have goos: "hGOOS miniHost = ''linux''" by (simp add: miniHost_def)
  have "applyAccepted exampleFloats Some (\<lambda>tg. ''rbwg'') exampleCodec miniKernel miniHost None ''/var/lib/wireguard'' 0 exampleRuntime exampleTable = exampleApplied"
    by (simp add: applyAccepted_def enc prune lift goos new r exampleApplied_def)
  then have "exampleAllApplied = exampleApplied"
    by (simp add: exampleAllApplied_def wgApply_def r applyExample_normal applyExample_valid pre lift)
  then show ?thesis using exampleApplied_ok by simp
qed

theorem wg_apply_all_witness:
  "wgSound exampleFloats Some applyExample \<and> (\<exists>m. deviceMatches 0 applyExample m (miniPeers (snd exampleAllApplied) ''rbwg''))"
proof -
  have "trimSpace ''rbwg'' \<noteq> []" by (subst trimSpace_graphic) (simp_all add: graphic_def)
  moreover have "tidyInbound exampleFloats Some applyExample" using applyExample_plain by (simp add: plainInbound_def)
  ultimately have tidy: "\<forall>x \<in> set (wrInbounds exampleRuntime). tidyInbound exampleFloats Some (normalizeWGRuntimeInbound exampleFloats x) \<and> trimSpace ''rbwg'' \<noteq> []"
    by (simp add: exampleRuntime_def applyExample_normal)
  have mem: "applyExample \<in> set (wrInbounds exampleRuntime)" "hGOOS miniHost \<noteq> ''windows''" "distinct (map ((\<lambda>tg. ''rbwg'') \<circ> wiTag) (wrInbounds exampleRuntime))"
    by (simp_all add: exampleRuntime_def miniHost_def)
  from wg_apply_all [OF mini_kernelLaws exampleAllApplied_ok [unfolded exampleAllApplied_def] mem(2) tidy mem(3,1)]
  show ?thesis unfolding applyExample_normal exampleAllApplied_def .
qed

end
