(* ===== verification/Path_Below.thy ===== *)
theory Path_Below
  imports Paths
begin

text \<open>
  Absolute paths as lists of their components, and what \<open>filepath.Join\<close> makes of a directory and a name that does not lead upwards:
  a path below the directory. Used wherever a name from an archive or a request becomes the name of a file.
\<close>

definition plainDir :: "string list \<Rightarrow> bool" where
  "plainDir cs \<longleftrightarrow> list_all (\<lambda>c. plainComp c \<and> c \<noteq> ''..'') cs"

definition absPath :: "string list \<Rightarrow> string" where
  "absPath cs = slash # joinWith ''/'' cs"

lemma plainDir_simps [simp]: "plainDir []" "plainDir (c # cs) \<longleftrightarrow> plainComp c \<and> c \<noteq> ''..'' \<and> plainDir cs" "plainDir (cs @ ds) \<longleftrightarrow> plainDir cs \<and> plainDir ds"
  by (simp_all add: plainDir_def)

lemma slashSplit_cat: "slashSplit (p @ slash # q) = slashSplit p @ slashSplit q"
  by (induction p) (simp_all split: list.split)

lemma plainDir_slash: "plainDir cs \<Longrightarrow> \<forall>c \<in> set cs. slash \<notin> set c"
  by (simp add: plainDir_def plainComp_def list_all_iff)

lemma split_absPath: "plainDir cs \<Longrightarrow> slashSplit (absPath cs) = [] # (if cs = [] then [[]] else cs)"
  by (auto simp: absPath_def slashSplit_join plainDir_slash)

text \<open>Components that do not lead upwards are kept.\<close>

definition downward :: "string list \<Rightarrow> bool" where
  "downward cs \<longleftrightarrow> list_all (\<lambda>c. c = [] \<or> (plainComp c \<and> c \<noteq> ''..'')) cs"

lemma plain_downward: "plainDir cs \<Longrightarrow> downward cs"
  by (simp add: plainDir_def downward_def list_all_iff)

lemma downward_filter: "downward cs \<Longrightarrow> plainDir (filter (\<lambda>c. c \<noteq> []) cs)"
  by (auto simp: plainDir_def downward_def list_all_iff)

lemma filter_plain: "plainDir cs \<Longrightarrow> filter (\<lambda>c. c \<noteq> []) cs = cs"
  by (induction cs) (auto simp: plainComp_def)

lemma foldl_downward: "downward cs \<Longrightarrow> foldl (cleanStep rooted) out cs = rev (filter (\<lambda>c. c \<noteq> []) cs) @ out"
  by (induction cs arbitrary: out) (auto simp: downward_def cleanStep_def plainComp_def)

lemma clean_below:
  assumes "plainDir cs" and "downward (slashSplit q)"
  shows "clean (absPath cs @ ''/'' @ q) = absPath (cs @ filter (\<lambda>c. c \<noteq> []) (slashSplit q))"
proof -
  let ?p = "absPath cs @ slash # q"
  have d: "downward ([] # (if cs = [] then [[]] else cs) @ slashSplit q)" using plain_downward [OF assms(1)] assms(2) by (simp add: downward_def)
  have t: "slashSplit ?p = [] # (if cs = [] then [[]] else cs) @ slashSplit q"
    unfolding slashSplit_cat split_absPath [OF assms(1)] by simp
  have "cleanComps True ?p = cs @ filter (\<lambda>c. c \<noteq> []) (slashSplit q)"
    unfolding cleanComps_def t foldl_downward [OF d] by (simp add: filter_plain [OF assms(1)])
  then show ?thesis by (simp add: clean_def absPath_def isAbs_def)
qed

lemma clean_absPath:
  assumes "plainDir cs"
  shows "clean (absPath cs) = absPath cs"
proof -
  have d: "downward ([] # (if cs = [] then [[]] else cs))" using plain_downward [OF assms] by (simp add: downward_def)
  have "cleanComps True (absPath cs) = cs" unfolding cleanComps_def split_absPath [OF assms] foldl_downward [OF d] by (simp add: filter_plain [OF assms])
  then show ?thesis by (simp add: clean_def absPath_def isAbs_def)
qed

lemma join_below:
  assumes "plainDir cs" and "downward (slashSplit q)"
  shows "joinPath [absPath cs, q] = absPath (cs @ filter (\<lambda>c. c \<noteq> []) (slashSplit q))"
  using clean_below [OF assms] by (simp add: joinPath_def absPath_def)

lemma join_plain: "plainDir cs \<Longrightarrow> plainComp c \<Longrightarrow> c \<noteq> ''..'' \<Longrightarrow> joinPath [absPath cs, c] = absPath (cs @ [c])"
  using join_below [of cs c] by (simp add: slashSplit_word plainComp_def downward_def)

section \<open>Clean paths\<close>

lemma rooted_no_up: "''..'' \<notin> set out \<Longrightarrow> ''..'' \<notin> set (foldl (cleanStep True) out cs)"
proof (induction cs arbitrary: out)
  case (Cons c cs)
  have "''..'' \<notin> set (cleanStep True out c)" using Cons.prems by (cases out) (auto simp: cleanStep_def)
  with Cons.IH show ?case by simp
qed simp

lemma rooted_plainDir: "plainDir (cleanComps True p)"
  using rooted_no_up [of "[]" "slashSplit p"] cleanComps_plain [of True p]
  by (auto simp: plainDir_def cleanComps_def list_all_iff)

text \<open>Every clean absolute path has this form.\<close>

lemma clean_abs_form: "isAbs p \<Longrightarrow> clean p = absPath (cleanComps True p)"
  by (auto simp: clean_def absPath_def isAbs_def)

lemma relative_plainDir:
  assumes "p \<noteq> []" and "\<not> isAbs p" and "clean p \<noteq> ''..''" and "\<not> hasPrefix (clean p) ''../''"
  shows "plainDir (cleanComps False p)"
proof -
  obtain r n where rn: "rev (cleanComps False p) = r @ replicate n ''..''" "''..'' \<notin> set r" using upsFirst_comps [of p] by (auto simp: upsFirst_def)
  then have cs: "cleanComps False p = replicate n ''..'' @ rev r" by (metis rev_append rev_replicate rev_rev_ident)
  have "n = 0"
  proof (rule ccontr)
    assume "n \<noteq> 0"
    then obtain cs where c: "cleanComps False p = ''..'' # cs" using cs by (cases n) auto
    then have "joinWith ''/'' (cleanComps False p) \<noteq> []" by (simp add: joinWith_Cons)
    then have "clean p = joinWith ''/'' (''..'' # cs)" using assms(1,2) c by (simp add: clean_def Let_def)
    then show False using assms(3,4) by (auto simp: joinWith_Cons hasPrefix_def split: if_splits)
  qed
  then show ?thesis using rn(2) cs cleanComps_plain [of False p] by (auto simp: plainDir_def list_all_iff)
qed

text \<open>A clean path that does not begin with a parent reference leads downwards.\<close>

lemma clean_downward:
  assumes "clean p \<noteq> ''..''" and "\<not> hasPrefix (clean p) ''../''" and "clean p \<noteq> ''.''"
  shows "downward (slashSplit (clean p))"
proof (cases "isAbs p")
  case True
  have "downward ([] # (if cleanComps True p = [] then [[]] else cleanComps True p))"
    using plain_downward [OF rooted_plainDir, of p] by (simp add: downward_def)
  then show ?thesis unfolding clean_abs_form [OF True] split_absPath [OF rooted_plainDir] .
next
  case False
  have p: "p \<noteq> []" using assms(3) by (auto simp: clean_def)
  have d: "plainDir (cleanComps False p)" by (rule relative_plainDir [OF p False assms(1,2)])
  have ne: "cleanComps False p \<noteq> []" using assms(3) p False by (auto simp: clean_def)
  then have "clean p = joinWith ''/'' (cleanComps False p)"
    using p False joinWith_last_char [OF ne cleanComps_plain] by (simp add: clean_def Let_def)
  then have "slashSplit (clean p) = cleanComps False p" using slashSplit_join [OF ne plainDir_slash [OF d]] by simp
  then show ?thesis using plain_downward [OF d] by simp
qed

section \<open>Parents\<close>

lemma dir_absPath:
  assumes "plainDir (cs @ [c])"
  shows "dir (absPath (cs @ [c])) = absPath cs"
proof -
  have c: "slash \<notin> set c" using assms by (simp add: plainComp_def)
  have j: "joinWith ''/'' (cs @ [c]) = (if cs = [] then c else joinWith ''/'' cs @ slash # c)" by (induction cs) (auto simp: joinWith_Cons)
  let ?q = "slash # (if cs = [] then [] else joinWith ''/'' cs @ ''/'')"
  have p: "absPath (cs @ [c]) = ?q @ c" by (simp add: absPath_def j)
  have "rev (dropWhile (\<lambda>x. x \<noteq> slash) (rev (?q @ c))) = ?q"
  proof -
    have "dropWhile (\<lambda>x. x \<noteq> slash) (rev c @ rev ?q) = dropWhile (\<lambda>x. x \<noteq> slash) (rev ?q)" using c by (intro dropWhile_append2) auto
    also have "\<dots> = rev ?q" by simp
    finally show ?thesis by simp
  qed
  then have d: "dir (absPath (cs @ [c])) = clean ?q" unfolding dir_def p by simp
  show ?thesis
  proof (cases "cs = []")
    case True
    then show ?thesis unfolding d using clean_absPath [of "[]"] by (simp add: absPath_def)
  next
    case False
    have "clean (absPath cs @ ''/'' @ []) = absPath (cs @ filter (\<lambda>c. c \<noteq> []) (slashSplit []))" using assms by (intro clean_below) (simp_all add: downward_def)
    then show ?thesis unfolding d using False by (simp add: absPath_def)
  qed
qed

text \<open>The textual test of a prefix says that a clean path lies below a directory.\<close>

lemma below_prefix:
  assumes "plainDir cs" and "plainDir ds" and "hasPrefix (absPath ds) (absPath cs @ ''/'')" and "cs \<noteq> []"
  shows "\<exists>e. e \<noteq> [] \<and> ds = cs @ e"
proof -
  obtain q where "absPath ds = absPath cs @ slash # q" using assms(3) by (auto simp: hasPrefix_def) (metis append.assoc append_Cons append_Nil append_take_drop_id)
  then have "slashSplit (absPath ds) = slashSplit (absPath cs) @ slashSplit q" by (simp add: slashSplit_cat)
  then have "(if ds = [] then [[]] else ds) = cs @ slashSplit q" using assms(4) by (simp add: split_absPath assms(1,2))
  then have "ds = cs @ slashSplit q" using assms(1,4) by (cases "ds = []") (auto simp: Cons_eq_append_conv plainComp_def split: if_splits)
  then show ?thesis using slashSplit_not_Nil by blast
qed

end
