(* ===== verification/Openvpn.thy ===== *)
theory Openvpn
  imports Wireguard_Apply Server_Util Path_Below
begin

text \<open>
  OpenVPN on the host: the configuration and the life of the daemons of \<open>internal/node/ov.go\<close>. The host runs the
  programs and holds the files; the texts of the two shell scripts, the SHA-1 name of the interface and the JSON of the
  runtime are parameters, and the order in which the four files of an inbound are written is that of a Go map.
  Results: when the records of an inbound are in order before it is applied they are afterwards, and exactly one daemon
  runs, with the configuration of the runtime; a write that failed half way leaves the old daemon in force for good; and a
  process that happens to have the recorded number is taken for the daemon.
\<close>

section \<open>The runtime\<close>

record ovRuntimeInbound =
  oiTag :: string
  oiTunnelTag :: string
  oiPort :: int
  oiTransport :: string
  oiTunnelPort :: int
  oiSettings :: jobj
  oiUsers :: "vpnRuntimeUser list"

record ovRuntime =
  orGeneratedAt :: string
  orTarget :: string
  orSessionCallback :: "vpnSessionCallback option"
  orInbounds :: "ovRuntimeInbound list"

definition ovPool :: "floats \<Rightarrow> ovRuntimeInbound \<Rightarrow> string" where
  "ovPool F inbound = firstString F [map_of (oiSettings inbound) ''ipv4_pool_cidr'', Some (JStr ''10.66.0.0/16'')]"

definition requireDCO :: "floats \<Rightarrow> ovRuntimeInbound \<Rightarrow> bool" where
  "requireDCO F inbound = boolValue F (map_of (oiSettings inbound) ''require_dco'') False"

section \<open>Texts\<close>

definition inline :: "string \<Rightarrow> string \<Rightarrow> string" where
  "inline name content = textLine (''<'' @ name @ ''>'') @ trimSpace content @ [CHR 0x0A] @ textLine (''</'' @ name @ ''>'')"

definition ifSet :: "string \<Rightarrow> (string \<Rightarrow> string) \<Rightarrow> string" where
  "ifSet v f = (if v \<noteq> [] then f v else [])"

definition ovTransport :: "floats \<Rightarrow> ovRuntimeInbound \<Rightarrow> string" where
  "ovTransport F inbound =
     (let transport = toLower (firstString F [map_of (oiSettings inbound) ''transport'', Some (JStr (oiTransport inbound)), Some (JStr ''udp'')])
      in if transport \<noteq> ''tcp'' \<and> transport \<noteq> ''udp'' then ''udp'' else transport)"

definition ovDCODataCiphers :: string where
  "ovDCODataCiphers = ''AES-256-GCM:AES-128-GCM:CHACHA20-POLY1305''"

text \<open>\<open>tun\<close>: the name of the interface, \<open>tunName\<close> of the tag.\<close>

definition serverConfig :: "floats \<Rightarrow> (string \<Rightarrow> string) \<Rightarrow> ovRuntimeInbound \<Rightarrow> string \<Rightarrow> string \<Rightarrow> string" where
  "serverConfig F tun inbound d ccdDir =
     (let settings = oiSettings inbound; str = (\<lambda>keys. firstString F (map (map_of settings) keys)); net = ovNetworkMask (ovPool F inbound) in
      textLine (''port '' @ formatInt (oiPort inbound))
      @ (if ovTransport F inbound = ''tcp'' then textLine ''proto tcp-server''
         else textLine ''proto udp'' @ (if boolValue F (map_of settings ''fast_io'') True then textLine ''fast-io'' else []))
      @ textLine (''dev '' @ tun (oiTag inbound))
      @ textLine ''dev-type tun''
      @ textLine ''topology subnet''
      @ textLine (''server '' @ fst net @ '' '' @ snd net)
      @ textLine (''client-config-dir '' @ ccdDir)
      @ textLine ''verify-client-cert none''
      @ textLine ''username-as-common-name''
      @ textLine ''duplicate-cn''
      @ textLine ''script-security 3''
      @ textLine (''auth-user-pass-verify '' @ joinPath [d, ''auth.sh''] @ '' via-env'')
      @ textLine (''client-disconnect '' @ joinPath [d, ''client-disconnect.sh''])
      @ textLine ''keepalive 10 300''
      @ textLine ''persist-key''
      @ textLine ''persist-tun''
      @ textLine ''status-version 2''
      @ textLine (''status '' @ joinPath [d, ''status.log''] @ '' 5'')
      @ textLine (''log-append '' @ joinPath [d, ''openvpn.log''])
      @ textLine ''verb 3''
      @ (if boolValue F (map_of settings ''redirect_gateway'') True then textLine (''push '' @ quoted ''redirect-gateway def1'') else [])
      @ textLine (''push '' @ quoted ''block-ipv6'')
      @ concat (map (\<lambda>dns. textLine (''push '' @ quoted (''dhcp-option DNS '' @ dns))) (stringList F (map_of settings ''dns_servers'')))
      @ ifSet (str [''cipher'']) (\<lambda>v. textLine (''cipher '' @ v))
      @ (if requireDCO F inbound then textLine (''data-ciphers '' @ ovDCODataCiphers) else [])
      @ ifSet (str [''auth'']) (\<lambda>v. textLine (''auth '' @ v))
      @ ifSet (str [''ca'']) (inline ''ca'')
      @ ifSet (str [''server_certificate'', ''serverCertificate'']) (inline ''cert'')
      @ ifSet (str [''server_key'', ''serverKey'']) (inline ''key'')
      @ (if str [''dh''] \<noteq> [] then inline ''dh'' (str [''dh'']) else textLine ''dh none'')
      @ ifSet (str [''tls_crypt'']) (inline ''tls-crypt'')
      @ ifSet (str [''tls_auth'']) (\<lambda>v. inline ''tls-auth'' v @ textLine ''key-direction 0'')
      @ (if 0 < intValue F (map_of settings ''management_port'') then textLine (''management 127.0.0.1 '' @ formatInt (intValue F (map_of settings ''management_port'')))
         else textLine (''management '' @ joinPath [d, ''management.sock''] @ '' unix'')))"

definition tproxyEnabled :: "floats \<Rightarrow> ovRuntimeInbound \<Rightarrow> bool" where
  "tproxyEnabled F inbound \<longleftrightarrow> 0 < oiTunnelPort inbound \<and> boolValue F (map_of (oiSettings inbound) ''tproxy_enabled'') True"

definition ovTable :: "string \<Rightarrow> string" where
  "ovTable tg = ''rebecca_openvpn_'' @ safeName tg"

definition nftScript :: "floats \<Rightarrow> string list option \<Rightarrow> ovRuntimeInbound \<Rightarrow> string \<Rightarrow> string" where
  "nftScript F ifaces inbound iface =
     (if \<not> tproxyEnabled F inbound then []
      else case ovBlockedDestinations ifaces of (blockedV4, blockedV6) \<Rightarrow>
        textLine (''table inet '' @ ovTable (oiTag inbound) @ '' {'')
        @ textLine ''  chain prerouting {''
        @ textLine ''    type filter hook prerouting priority mangle; policy accept;''
        @ textLine (trimRightChars {CHR 0x0A} (dropRule iface ''ip'' blockedV4 @ dropRule iface ''ip6'' blockedV6))
        @ textLine (''    iifname '' @ quoted iface @ '' meta mark != 0xff meta l4proto { tcp, udp } tproxy ip to 127.0.0.1:'' @ formatInt (oiTunnelPort inbound)
            @ '' meta mark set 1 accept'')
        @ textLine ''  }''
        @ textLine ''  chain postrouting {''
        @ textLine ''    type nat hook postrouting priority srcnat; policy accept;''
        @ textLine (''    ip saddr '' @ ovPool F inbound @ '' oifname != '' @ quoted iface @ '' meta l4proto icmp masquerade'')
        @ textLine ''  }'' @ textLine ''}'')"

section \<open>The daemon\<close>

definition tailOVFile :: "'h host \<Rightarrow> 'h \<Rightarrow> string \<Rightarrow> nat \<Rightarrow> string" where
  "tailOVFile H h path limit =
     (case hRead H h path of
        Inl _ \<Rightarrow> []
      | Inr raw \<Rightarrow> trimSpace (if 0 < limit \<and> limit < length raw then drop (length raw - limit) raw else raw))"

definition startOVErrorDetail :: "'h host \<Rightarrow> 'h \<Rightarrow> string \<Rightarrow> string \<Rightarrow> string" where
  "startOVErrorDetail H h output logPath =
     (let parts = filter (\<lambda>t. t \<noteq> []) [trimSpace output, tailOVFile H h logPath 4096]
      in if parts = [] then ''no output'' else joinWith [CHR 0x0A] parts)"

text \<open>\<open>strconv.Atoi\<close> of what a file holds.\<close>

definition readPID :: "'h host \<Rightarrow> 'h \<Rightarrow> string \<Rightarrow> int option" where
  "readPID H h path = (case hRead H h path of Inl _ \<Rightarrow> None | Inr raw \<Rightarrow> parseInt 64 (trimSpace raw))"

definition openvpnPIDRunning :: "'h host \<Rightarrow> string \<Rightarrow> string \<Rightarrow> 'h \<Rightarrow> (bool \<times> string) \<times> 'h" where
  "openvpnPIDRunning H pidPath logPath h =
     (case readPID H h pidPath of
        None \<Rightarrow> ((False, startOVErrorDetail H h [] logPath), h)
      | Some pid \<Rightarrow>
          if pid \<le> 1 then ((False, startOVErrorDetail H h [] logPath), h)
          else case hRun H [] ''kill'' [''-0'', formatInt pid] h of
            ((Some _, _), h') \<Rightarrow> ((False, startOVErrorDetail H h' [] logPath), h')
          | ((None, _), h') \<Rightarrow> ((True, []), h'))"

definition processAlive :: "'h host \<Rightarrow> int \<Rightarrow> 'h \<Rightarrow> bool \<times> 'h" where
  "processAlive H pid h =
     (let zombie = (case hRead H h (joinPath [''/proc'', formatInt pid, ''stat'']) of
            Inl _ \<Rightarrow> False
          | Inr raw \<Rightarrow> 2 < length (Prelude.fields raw) \<and> Prelude.fields raw ! 2 = ''Z'')
      in if zombie then (False, h)
         else case hRun H [] ''kill'' [''-0'', formatInt pid] h of ((err, _), h') \<Rightarrow> (err = None, h'))"

fun waitStopped :: "'h host \<Rightarrow> int \<Rightarrow> nat \<Rightarrow> 'h action" where
  "waitStopped H pid 0 h = (None, h)"
| "waitStopped H pid (Suc n) h =
     (case processAlive H pid h of (False, h') \<Rightarrow> (None, h') | (True, h') \<Rightarrow> waitStopped H pid n (hSleep H 50 h'))"

definition stopProcess :: "'h host \<Rightarrow> int \<Rightarrow> 'h action" where
  "stopProcess H pid =
     thenDo (runQuiet H ''kill'' [formatInt pid])
     (thenDo (waitStopped H pid 40)
     (\<lambda>h. case processAlive H pid h of
         (False, h') \<Rightarrow> (None, h')
       | (True, h') \<Rightarrow> runQuiet H ''kill'' [''-KILL'', formatInt pid] h'))"

definition dropTable :: "'h host \<Rightarrow> string \<Rightarrow> 'h action" where
  "dropTable H table h = (case hLook H h ''nft'' of Inl _ \<Rightarrow> (None, h) | Inr nft \<Rightarrow> runQuiet H nft [''delete'', ''table'', ''inet'', table] h)"

definition stopPID :: "'h host \<Rightarrow> string \<Rightarrow> 'h action" where
  "stopPID H pidPath h =
     (case hRead H h pidPath of
        Inl _ \<Rightarrow> (None, h)
      | Inr raw \<Rightarrow>
          thenDo (case parseInt 64 (trimSpace raw) of Some pid \<Rightarrow> (if 1 < pid then stopProcess H pid else skip) | None \<Rightarrow> skip)
            (ignoring (hRemove H pidPath)) h)"

definition stopInboundName :: "'h host \<Rightarrow> string \<Rightarrow> string \<Rightarrow> 'h action" where
  "stopInboundName H baseDir name =
     (if hGOOS H = ''windows'' then skip
      else thenDo (stopPID H (joinPath [joinPath [baseDir, safeName name], ''openvpn.pid'']))
        (thenDo (dropTable H (ovTable name)) (ignoring (vpnRemoveDirectNAT H (''openvpn-'' @ name)))))"

section \<open>Prerequisites\<close>

definition ovTools :: "string list" where
  "ovTools = [''openvpn'', ''nft'', ''ip'', ''iptables'']"

definition requireTools :: "'h host \<Rightarrow> string \<Rightarrow> string list \<Rightarrow> 'h action" where
  "requireTools H label tools h =
     (case missingExecutables H h tools of
        [] \<Rightarrow> (None, h)
      | executable # _ \<Rightarrow> (Some (label @ '' prerequisite '' @ executable @ '' was not found after automatic install''), h))"

definition ensureOVPrerequisites :: "'h host \<Rightarrow> 'h action" where
  "ensureOVPrerequisites H =
     (if hGOOS H \<noteq> ''linux'' then skip
      else thenDo (\<lambda>h. if missingExecutables H h ovTools \<noteq> [] then installOVPackages H h else (None, h))
        (thenDo (requireTools H ''OV'' ovTools)
        (thenDo (loadModules H [''tun'', ''nf_tproxy_ipv4''])
        (\<lambda>h. (map_option (\<lambda>err. ''TUN device is unavailable: '' @ err) (hStat H h ''/dev/net/tun''), h)))))"

definition validateServerCredentials :: "floats \<Rightarrow> ovRuntimeInbound \<Rightarrow> string option" where
  "validateServerCredentials F inbound =
     (let str = (\<lambda>keys. firstString F (map (map_of (oiSettings inbound)) keys)); msg = (\<lambda>what. ''OV inbound '' @ oiTag inbound @ '' requires '' @ what) in
      if str [''ca''] = [] then Some (msg ''ca'')
      else if str [''server_certificate'', ''serverCertificate''] = [] then Some (msg ''server_certificate'')
      else if str [''server_key'', ''serverKey''] = [] then Some (msg ''server_key'')
      else None)"

text \<open>\<open>strings.ToUpper\<close> on ASCII letters, which the names of ciphers are made of.\<close>

definition toUpper :: "string \<Rightarrow> string" where
  "toUpper s = map (\<lambda>c. if 97 \<le> (of_char c :: nat) \<and> (of_char c :: nat) \<le> 122 then char_of ((of_char c :: nat) - 32) else c) s"

definition ovDCOCipherAllowed :: "string \<Rightarrow> bool" where
  "ovDCOCipherAllowed cipher \<longleftrightarrow> toUpper (trimSpace cipher) \<in> set [[], ''AES-256-GCM'', ''AES-128-GCM'', ''CHACHA20-POLY1305'']"

definition validateOVDCOSettings :: "floats \<Rightarrow> ovRuntimeInbound \<Rightarrow> string option" where
  "validateOVDCOSettings F inbound =
     (let settings = oiSettings inbound; msg = (\<lambda>what c. ''OV inbound '' @ oiTag inbound @ '' requires DCO but '' @ what @ '' '' @ c @ '' is not DCO-compatible'');
          cipher = trimSpace (firstString F [map_of settings ''cipher'']);
          dataCiphers = trimSpace (firstString F [map_of settings ''data_ciphers'', map_of settings ''data-ciphers'']) in
      if \<not> requireDCO F inbound then None
      else if cipher \<noteq> [] \<and> \<not> ovDCOCipherAllowed cipher then Some (msg ''cipher'' cipher)
      else if dataCiphers = [] then None
      else map_option (\<lambda>c. msg ''data cipher'' (trimSpace c)) (find (\<lambda>c. \<not> ovDCOCipherAllowed c) (splitOn dataCiphers '':'')))"

definition openvpnSupportsDCO :: "'h host \<Rightarrow> 'h \<Rightarrow> bool \<times> 'h" where
  "openvpnSupportsDCO H h =
     (case hLook H h ''openvpn'' of
        Inl _ \<Rightarrow> (False, h)
      | Inr openvpn \<Rightarrow> (case hRun H [] openvpn [''--version''] h of ((err, out), h') \<Rightarrow> (err = None \<and> contains (toLower out) ''dco'', h')))"

definition ovDCOModuleAvailable :: "'h host \<Rightarrow> 'h \<Rightarrow> bool" where
  "ovDCOModuleAvailable H h \<longleftrightarrow> (\<exists>path \<in> set [''/sys/module/ovpn'', ''/sys/module/ovpn_dco_v2'', ''/sys/module/ovpn_dco'']. hStat H h path = None)"

definition loadOVDCOModules :: "'h host \<Rightarrow> 'h action" where
  "loadOVDCOModules H = loadModules H [''ovpn'', ''ovpn-dco-v2'', ''ovpn-dco'']"

definition commandOutput :: "'h host \<Rightarrow> string \<Rightarrow> string list \<Rightarrow> 'h \<Rightarrow> string \<times> 'h" where
  "commandOutput H name args h = (case hRun H [] name args h of ((Some _, _), h') \<Rightarrow> ([], h') | ((None, out), h') \<Rightarrow> (out, h'))"

definition aptPackageAvailable :: "'h host \<Rightarrow> string \<Rightarrow> 'h \<Rightarrow> bool \<times> 'h" where
  "aptPackageAvailable H name h =
     (case hRun H [] ''apt-cache'' [''policy'', name] h of ((err, out), h') \<Rightarrow> (err = None \<and> contains out ''Candidate:'' \<and> \<not> contains out ''Candidate: (none)'', h'))"

definition osCodename :: "string \<Rightarrow> string" where
  "osCodename raw = (case find (\<lambda>l. hasPrefix l ''VERSION_CODENAME='') (splitOn raw [CHR 0x0A]) of
     None \<Rightarrow> [] | Some l \<Rightarrow> trimChars {CHR 0x22, CHR 0x27} (trimPrefix l ''VERSION_CODENAME=''))"

text \<open>\<open>goarch\<close>: \<open>runtime.GOARCH\<close>; \<open>get\<close>: the HTTP exchange of \<open>download\<close>.\<close>

definition configureOpenVPN26APTRepository :: "string \<Rightarrow> (string \<Rightarrow> string + httpResponse) \<Rightarrow> 'h host \<Rightarrow> 'h action" where
  "configureOpenVPN26APTRepository goarch get H h =
     (if goarch \<notin> set [''amd64'', ''arm64''] then (Some (''OpenVPN DCO packages are unavailable for '' @ goarch), h)
      else case hRead H h ''/etc/os-release'' of
        Inl err \<Rightarrow> (Some err, h)
      | Inr raw \<Rightarrow>
          let codename = osCodename raw in
          if codename \<notin> set [''bullseye'', ''bookworm'', ''trixie'', ''focal'', ''jammy'', ''noble''] then (Some (''OpenVPN DCO packages are unavailable for '' @ codename), h)
          else case Server_Util.download get ''https://swupdate.openvpn.net/repos/repo-public.gpg'' of
            Inl err \<Rightarrow> (Some (''download OpenVPN repository key: '' @ err), h)
          | Inr key \<Rightarrow>
              thenDo (hMkdirAll H ''/etc/apt/keyrings'' 493)
              (thenDo (hWrite H ''/etc/apt/keyrings/openvpn-repo-public.asc'' key 420)
              (hWrite H ''/etc/apt/sources.list.d/openvpn-aptrepo.list''
                (textLine (''deb [arch='' @ goarch @ '' signed-by=/etc/apt/keyrings/openvpn-repo-public.asc] https://build.openvpn.net/debian/openvpn/release/2.6 '' @ codename @ '' main'')) 420)) h)"

definition rpmDCO :: "'h host \<Rightarrow> string \<Rightarrow> string \<Rightarrow> 'h action" where
  "rpmDCO H manager kernelRelease =
     runInstallCommand H [] manager ([''install'', ''-y''] @ (if kernelRelease \<noteq> [] then [''kernel-devel-'' @ kernelRelease] else []) @ [''dkms'', ''openvpn-dco-dkms''])"

definition aptDCO :: "string \<Rightarrow> (string \<Rightarrow> string + httpResponse) \<Rightarrow> 'h host \<Rightarrow> string \<Rightarrow> 'h action" where
  "aptDCO goarch get H kernelRelease =
     thenDo (aptGet H [''update''])
     (thenDo (\<lambda>h. case aptPackageAvailable H ''openvpn-dco-dkms'' h of
          (True, h') \<Rightarrow> (None, h')
        | (False, h') \<Rightarrow> thenDo (configureOpenVPN26APTRepository goarch get H) (aptGet H [''update'']) h')
     (aptGet H ([''install'', ''-y'', ''--no-install-recommends''] @ (if kernelRelease \<noteq> [] then [''linux-headers-'' @ kernelRelease] else [])
        @ [''openvpn'', ''dkms'', ''openvpn-dco-dkms''])))"

definition installOVDCOPackages :: "string \<Rightarrow> (string \<Rightarrow> string + httpResponse) \<Rightarrow> 'h host \<Rightarrow> 'h action" where
  "installOVDCOPackages goarch get H h =
     (if \<not> hRoot H then (Some ''automatic DCO install requires root'', h)
      else case commandOutput H ''uname'' [''-r''] h of (out, h') \<Rightarrow>
        let kernelRelease = trimSpace out in
        if commandExists H h' ''apt-get'' then aptDCO goarch get H kernelRelease h'
        else if commandExists H h' ''dnf'' then rpmDCO H ''dnf'' kernelRelease h'
        else if commandExists H h' ''yum'' then rpmDCO H ''yum'' kernelRelease h'
        else (Some ''no supported package manager was found for DCO module install'', h'))"

definition ensureOVDCOSupport :: "string \<Rightarrow> (string \<Rightarrow> string + httpResponse) \<Rightarrow> 'h host \<Rightarrow> 'h action" where
  "ensureOVDCOSupport goarch get H =
     (if hGOOS H \<noteq> ''linux'' then fail ''DCO is only supported on Linux nodes''
      else thenDo (loadOVDCOModules H)
        (\<lambda>h. case openvpnSupportsDCO H h of (supported, h') \<Rightarrow>
           if supported \<and> ovDCOModuleAvailable H h' then (None, h')
           else thenDo (installOVDCOPackages goarch get H) (thenDo (loadOVDCOModules H)
             (\<lambda>h. case openvpnSupportsDCO H h of (supported, h') \<Rightarrow>
                if \<not> supported then (Some ''installed OpenVPN binary was built without DCO support'', h')
                else if \<not> ovDCOModuleAvailable H h' then (Some ''kernel DCO module is unavailable after automatic install'', h')
                else (None, h'))) h'))"

definition ovDCOInactiveReason :: "string \<Rightarrow> string" where
  "ovDCOInactiveReason logText =
     (case find (contains (toLower logText)) [''disabling data channel offload'', ''kernel support for ovpn-dco missing'', ''dco disabled'', ''cannot use dco'', ''dco will be disabled''] of
        None \<Rightarrow> [] | Some marker \<Rightarrow> marker)"

section \<open>Applying a runtime\<close>

text \<open>
  What stays open: the SHA-1 name of the interface, the texts of \<open>auth.sh\<close> and \<open>client-disconnect.sh\<close> (shell programs that
  the daemon runs), the JSON text of a runtime, the addresses of the host, the order of a Go map over the files of an inbound,
  the processor and the HTTP exchange.
\<close>

record ovEnv =
  oeFloats :: floats
  oeTun :: "string \<Rightarrow> string"
  oeAuth :: "string \<Rightarrow> ovRuntimeInbound \<Rightarrow> string"
  oeDisconnect :: "string \<Rightarrow> ovRuntimeInbound \<Rightarrow> string"
  oeEncode :: "ovRuntime \<Rightarrow> string + string"
  oeIfaces :: "string list option"
  oeOrder :: "(string \<times> string) list \<Rightarrow> (string \<times> string) list"
  oeArch :: string
  oeGet :: "string \<Rightarrow> string + httpResponse"

definition ovDir :: "string \<Rightarrow> string \<Rightarrow> string" where
  "ovDir baseDir tg = joinPath [baseDir, safeName tg]"

definition writeVPNSessionCallback :: "'h host \<Rightarrow> string \<Rightarrow> vpnSessionCallback option \<Rightarrow> 'h action" where
  "writeVPNSessionCallback H path callback = thenDo (hMkdirAll H (dir path) 448) (writeFileIfChanged H path (vpnSessionCallbackBody callback) 384)"

definition ccdUser :: "vpnRuntimeUser \<Rightarrow> bool" where
  "ccdUser user \<longleftrightarrow> trimSpace (vuVPNUsername user) \<noteq> [] \<and> trimSpace (vuIPv4Address user) \<noteq> []"

definition writeCCD :: "'h host \<Rightarrow> string \<Rightarrow> string \<Rightarrow> vpnRuntimeUser list \<Rightarrow> 'h action" where
  "writeCCD H ccdDir poolMask us =
     doAll (map (\<lambda>user. writeFileIfChanged H (joinPath [ccdDir, safeName (vuVPNUsername user)])
       (textLine (''ifconfig-push '' @ vuIPv4Address user @ '' '' @ poolMask)) 384) (filter ccdUser us))"

definition pruneCCD :: "'h host \<Rightarrow> string \<Rightarrow> vpnRuntimeUser list \<Rightarrow> 'h action" where
  "pruneCCD H ccdDir us h =
     (case hReadDir H h ccdDir of
        Inl _ \<Rightarrow> (None, h)
      | Inr entries \<Rightarrow> doAll (map (\<lambda>e. ignoring (hRemove H (joinPath [ccdDir, fst e])))
          (filter (\<lambda>e. \<not> snd e \<and> fst e \<notin> (safeName \<circ> vuVPNUsername) ` set (filter ccdUser us)) entries)) h)"

definition inboundFiles :: "ovEnv \<Rightarrow> string \<Rightarrow> ovRuntimeInbound \<Rightarrow> (string \<times> string) list" where
  "inboundFiles E d inbound =
     [(joinPath [d, ''auth.sh''], oeAuth E d inbound), (joinPath [d, ''client-disconnect.sh''], oeDisconnect E d inbound),
      (joinPath [d, ''nftables.nft''], nftScript (oeFloats E) (oeIfaces E) inbound (oeTun E (oiTag inbound))),
      (joinPath [d, ''server.conf''], serverConfig (oeFloats E) (oeTun E) inbound d (joinPath [d, ''ccd'']))]"

definition writeInboundFile :: "'h host \<Rightarrow> string \<times> string \<Rightarrow> 'h action" where
  "writeInboundFile H f = writeFileIfChanged H (fst f) (snd f) (if hasSuffix (fst f) ''.sh'' then 448 else 384)"

definition writeInbound :: "ovEnv \<Rightarrow> 'h host \<Rightarrow> string \<Rightarrow> ovRuntimeInbound \<Rightarrow> vpnSessionCallback option \<Rightarrow> 'h action" where
  "writeInbound E H baseDir inbound callback =
     (let d = ovDir baseDir (oiTag inbound); ccdDir = joinPath [d, ''ccd'']; poolMask = snd (ovNetworkMask (ovPool (oeFloats E) inbound)) in
      thenDo (hMkdirAll H ccdDir 448)
      (thenDo (writeFileIfChanged H (joinPath [d, ''users.tsv'']) (vpnUsersTSV (oiUsers inbound)) 384)
      (thenDo (writeVPNSessionCallback H (joinPath [d, ''session-callback.env'']) callback)
      (thenDo (writeCCD H ccdDir poolMask (oiUsers inbound))
      (thenDo (pruneCCD H ccdDir (oiUsers inbound))
      (doAll (map (writeInboundFile H) (oeOrder E (inboundFiles E d inbound)))))))))"

definition ovRules :: "ovEnv \<Rightarrow> 'h host \<Rightarrow> string \<Rightarrow> ovRuntimeInbound \<Rightarrow> 'h action" where
  "ovRules E H baseDir inbound =
     (let F = oeFloats E; tg = oiTag inbound; pool = ovPool F inbound in
      if tproxyEnabled F inbound then
        thenDo (enableVPNTProxyHostNetworking H [pool])
        (\<lambda>h. case hLook H h ''nft'' of
            Inl _ \<Rightarrow> (Some ''nft executable not found'', h)
          | Inr nft \<Rightarrow>
              thenDo (runQuiet H nft [''delete'', ''table'', ''inet'', ovTable tg])
              (thenDo (runChecked H [] nft [''-f'', joinPath [ovDir baseDir tg, ''nftables.nft'']] (''apply OV nftables '' @ tg))
              (thenDo (applyTProxyRouting H) (ignoring (vpnRemoveDirectNAT H (''openvpn-'' @ tg))))) h)
      else thenDo (dropTable H (ovTable tg))
        (failing (\<lambda>err. ''apply OV direct NAT '' @ tg @ '': '' @ err) (vpnApplyDirectNAT H (oeIfaces E) (''openvpn-'' @ tg) (oeTun E tg) pool)))"

definition startDaemon :: "'h host \<Rightarrow> string \<Rightarrow> string \<Rightarrow> ovRuntimeInbound \<Rightarrow> 'h action" where
  "startDaemon H d openvpn inbound h =
     (let logPath = joinPath [d, ''openvpn.log'']; pidPath = joinPath [d, ''openvpn.pid'']; msg = ''start OV '' @ oiTag inbound in
      case hRun H [] openvpn [''--config'', joinPath [d, ''server.conf''], ''--daemon'', ''rebecca-openvpn-'' @ safeName (oiTag inbound), ''--writepid'', pidPath] h of
        ((Some err, out), h') \<Rightarrow> (Some (msg @ '': '' @ err @ '': '' @ startOVErrorDetail H h' out logPath), h')
      | ((None, _), h') \<Rightarrow> (case openvpnPIDRunning H pidPath logPath (hSleep H 500 h') of
            ((False, detail), h'') \<Rightarrow> (Some (msg @ '': process stopped after launch: '' @ detail), h'')
          | ((True, _), h'') \<Rightarrow> (None, h'')))"

definition checkDCO :: "ovEnv \<Rightarrow> 'h host \<Rightarrow> string \<Rightarrow> ovRuntimeInbound \<Rightarrow> 'h action" where
  "checkDCO E H baseDir inbound h =
     (if requireDCO (oeFloats E) inbound then
        (let reason = ovDCOInactiveReason (tailOVFile H h (joinPath [ovDir baseDir (oiTag inbound), ''openvpn.log'']) 8192) in
         if reason \<noteq> [] then thenDo (stopInboundName H baseDir (safeName (oiTag inbound)))
           (fail (''start OV '' @ oiTag inbound @ '': DCO was required but is inactive: '' @ reason)) h
         else (None, h))
      else (None, h))"

definition ovApplyInbound :: "ovEnv \<Rightarrow> 'h host \<Rightarrow> string \<Rightarrow> ovRuntimeInbound \<Rightarrow> bool \<Rightarrow> 'h action" where
  "ovApplyInbound E H baseDir inbound restart =
     (let d = ovDir baseDir (oiTag inbound) in
      if hGOOS H = ''windows'' then skip
      else case validateServerCredentials (oeFloats E) inbound of
        Some err \<Rightarrow> fail err
      | None \<Rightarrow>
          thenDo (ovRules E H baseDir inbound)
          (if \<not> restart then skip
           else (\<lambda>h. case hLook H h ''openvpn'' of
               Inl _ \<Rightarrow> (Some ''OV executable not found'', h)
             | Inr openvpn \<Rightarrow>
                 thenDo (ignoring (hRemove H (joinPath [d, ''openvpn.log''])))
                 (thenDo (ignoring (hRemove H (joinPath [d, ''management.sock''])))
                 (thenDo (startDaemon H d openvpn inbound) (checkDCO E H baseDir inbound))) h)))"

text \<open>One turn of the loop of \<open>Apply\<close>. A file that cannot be read compares as an empty one.\<close>

definition readText :: "'h host \<Rightarrow> 'h \<Rightarrow> string \<Rightarrow> string" where
  "readText H h path = (case hRead H h path of Inl _ \<Rightarrow> [] | Inr raw \<Rightarrow> raw)"

definition ovApplyOne :: "ovEnv \<Rightarrow> 'h host \<Rightarrow> string \<Rightarrow> vpnSessionCallback option \<Rightarrow> ovRuntimeInbound \<Rightarrow> 'h action" where
  "ovApplyOne E H baseDir callback inbound h =
     (let tg = oiTag inbound; d = ovDir baseDir tg; conf = joinPath [d, ''server.conf'']; oldConfig = readText H h conf in
      case openvpnPIDRunning H (joinPath [d, ''openvpn.pid'']) (joinPath [d, ''openvpn.log'']) h of
        ((wasRunning, _), h1) \<Rightarrow>
          thenDo (\<lambda>h. (validateOVDCOSettings (oeFloats E) inbound, h))
          (thenDo (if requireDCO (oeFloats E) inbound
             then failing (\<lambda>err. ''OV inbound '' @ tg @ '' requires DCO: '' @ err) (ensureOVDCOSupport (oeArch E) (oeGet E) H) else skip)
          (thenDo (writeInbound E H baseDir inbound callback)
          (\<lambda>h. let restart = (\<not> wasRunning \<or> oldConfig \<noteq> readText H h conf) in
             thenDo (if restart then stopInboundName H baseDir (safeName tg) else skip) (ovApplyInbound E H baseDir inbound restart) h))) h1)"

definition ovPrune :: "'h host \<Rightarrow> string \<Rightarrow> string list \<Rightarrow> 'h action" where
  "ovPrune H baseDir desired h =
     (case hReadDir H h baseDir of
        Inl (err, notExist) \<Rightarrow> (if notExist then None else Some err, h)
      | Inr entries \<Rightarrow> doAll (map (\<lambda>(name, isDir). if \<not> isDir \<or> name \<in> set desired then skip
            else thenDo (stopInboundName H baseDir name) (hRemoveAll H (joinPath [baseDir, name]))) entries) h)"

definition ovApply :: "ovEnv \<Rightarrow> 'h host \<Rightarrow> string \<Rightarrow> string \<Rightarrow> ovRuntime option \<Rightarrow> 'h action" where
  "ovApply E H baseDir installMode rc =
     (case rc of None \<Rightarrow> skip
      | Some r \<Rightarrow>
          if orInbounds r \<noteq> [] \<and> installMode \<noteq> ''binary'' then fail ''OV is supported only on binary Rebecca-node installs''
          else thenDo (if orInbounds r \<noteq> [] then ensureOVPrerequisites H else skip)
            (thenDo (hMkdirAll H baseDir 448)
            (case oeEncode E r of
               Inl err \<Rightarrow> fail err
             | Inr raw \<Rightarrow>
                 thenDo (hWrite H (joinPath [baseDir, ''runtime.json'']) raw 384)
                 (thenDo (ovPrune H baseDir (map (safeName \<circ> oiTag) (orInbounds r)))
                 (doAll (map (ovApplyOne E H baseDir (orSessionCallback r)) (orInbounds r)))))))"

section \<open>What the host promises\<close>

text \<open>
  \<open>run h\<close> maps the numbers of the OpenVPN daemons that run for the directory \<open>d\<close> to the configurations they were started with. Files
  and the programs of the rules do not touch the daemons, and no program but the daemon writes its two files. A signal or the passing of time can
  only end daemons; a number for which \<open>kill -0\<close> fails and a zombie is none. A start leaves the other daemons as they are and adds at most one,
  with a new number and with what the file holds then: it may end at once, for instance because an older one has its port.
\<close>

definition serverConf :: "string \<Rightarrow> string" where
  "serverConf d = joinPath [d, ''server.conf'']"

definition pidFile :: "string \<Rightarrow> string" where
  "pidFile d = joinPath [d, ''openvpn.pid'']"

definition filesKeep :: "'h host \<Rightarrow> ('h \<Rightarrow> 'v) \<Rightarrow> (string \<Rightarrow> bool) \<Rightarrow> bool" where
  "filesKeep H view P \<longleftrightarrow> (\<forall>path. P path \<longrightarrow> (\<forall>content mode. keeping view (hWrite H path content mode)) \<and> keeping view (hRemove H path))
     \<and> (\<forall>path mode. keeping view (hMkdirAll H path mode) \<and> keeping view (hChmod H path mode))"

definition daemonLaws :: "'h host \<Rightarrow> string \<Rightarrow> ('h \<Rightarrow> int \<Rightarrow> string option) \<Rightarrow> bool" where
  "daemonLaws H d run \<longleftrightarrow>
     (\<forall>env command args. rulesArgs args \<longrightarrow> keeping run (hRun H env command args)) \<and> filesKeep H run (\<lambda>path. True)
     \<and> (\<forall>env command args. keeping (\<lambda>h. hRead H h (serverConf d)) (hRun H env command args)) \<and> filesKeep H (\<lambda>h. hRead H h (serverConf d)) (\<lambda>path. path \<noteq> serverConf d)
     \<and> (\<forall>content mode h h'. hWrite H (serverConf d) content mode h = (None, h') \<longrightarrow> hRead H h' (serverConf d) = Inr content)
     \<and> (\<forall>ms h. hRead H (hSleep H ms h) (serverConf d) = hRead H h (serverConf d) \<and> run (hSleep H ms h) \<subseteq>\<^sub>m run h)
     \<and> (\<forall>command rest h out h' c. hRun H [] command (''--config'' # serverConf d # rest) h = ((None, out), h') \<and> hRead H h (serverConf d) = Inr c
          \<longrightarrow> (\<exists>pid. run h pid = None \<and> run h' \<subseteq>\<^sub>m (run h)(pid \<mapsto> c)))
     \<and> (\<forall>args h. length args \<le> 2 \<longrightarrow> run (snd (hRun H [] ''kill'' args h)) \<subseteq>\<^sub>m run h)
     \<and> (\<forall>pid err out h h'. hRun H [] ''kill'' [''-0'', formatInt pid] h = ((Some err, out), h') \<longrightarrow> run h pid = None)
     \<and> (\<forall>pid raw h. hRead H h (joinPath [''/proc'', formatInt pid, ''stat'']) = Inr raw \<and> 2 < length (Prelude.fields raw) \<and> Prelude.fields raw ! 2 = ''Z'' \<longrightarrow> run h pid = None)"





lemma daemonLawsD:
  assumes "daemonLaws H d run"
  shows "calmHost H run" and "filesKeep H run (\<lambda>path. True)" and "keeping (\<lambda>h. hRead H h (serverConf d)) (hRun H env command args)"
    and "filesKeep H (\<lambda>h. hRead H h (serverConf d)) (\<lambda>path. path \<noteq> serverConf d)"
    and "hWrite H (serverConf d) content mode h = (None, h') \<Longrightarrow> hRead H h' (serverConf d) = Inr content"
    and "hRead H (hSleep H ms h) (serverConf d) = hRead H h (serverConf d)" and "run (hSleep H ms h) \<subseteq>\<^sub>m run h"
    and "hRun H [] command (''--config'' # serverConf d # rest) h = ((None, out), h') \<Longrightarrow> hRead H h (serverConf d) = Inr c
      \<Longrightarrow> \<exists>pid. run h pid = None \<and> run h' \<subseteq>\<^sub>m (run h)(pid \<mapsto> c)"
    and "length args \<le> 2 \<Longrightarrow> run (snd (hRun H [] ''kill'' args h)) \<subseteq>\<^sub>m run h"
    and "hRun H [] ''kill'' [''-0'', formatInt pid] h = ((Some err, out), h') \<Longrightarrow> run h pid = None"
    and "hRead H h (joinPath [''/proc'', formatInt pid, ''stat'']) = Inr raw \<Longrightarrow> 2 < length (Prelude.fields raw) \<Longrightarrow> Prelude.fields raw ! 2 = ''Z'' \<Longrightarrow> run h pid = None"
proof -
  have l: "\<forall>env command args. rulesArgs args \<longrightarrow> keeping run (hRun H env command args)"
    "filesKeep H run (\<lambda>path. True)"
    "\<forall>env command args. keeping (\<lambda>h. hRead H h (serverConf d)) (hRun H env command args)"
    "filesKeep H (\<lambda>h. hRead H h (serverConf d)) (\<lambda>path. path \<noteq> serverConf d)"
    "\<forall>content mode h h'. hWrite H (serverConf d) content mode h = (None, h') \<longrightarrow> hRead H h' (serverConf d) = Inr content"
    "\<forall>ms h. hRead H (hSleep H ms h) (serverConf d) = hRead H h (serverConf d) \<and> run (hSleep H ms h) \<subseteq>\<^sub>m run h"
    "\<forall>command rest h out h' c. hRun H [] command (''--config'' # serverConf d # rest) h = ((None, out), h') \<and> hRead H h (serverConf d) = Inr c \<longrightarrow> (\<exists>pid. run h pid = None \<and> run h' \<subseteq>\<^sub>m (run h)(pid \<mapsto> c))"
    "\<forall>args h. length args \<le> 2 \<longrightarrow> run (snd (hRun H [] ''kill'' args h)) \<subseteq>\<^sub>m run h"
    "\<forall>pid err out h h'. hRun H [] ''kill'' [''-0'', formatInt pid] h = ((Some err, out), h') \<longrightarrow> run h pid = None"
    "\<forall>pid raw h. hRead H h (joinPath [''/proc'', formatInt pid, ''stat'']) = Inr raw \<and> 2 < length (Prelude.fields raw) \<and> Prelude.fields raw ! 2 = ''Z'' \<longrightarrow> run h pid = None"
    using assms unfolding daemonLaws_def by argo+
  show "calmHost H run" using l(1,2) unfolding calmHost_def filesKeep_def by blast
  show "filesKeep H run (\<lambda>path. True)" "filesKeep H (\<lambda>h. hRead H h (serverConf d)) (\<lambda>path. path \<noteq> serverConf d)" by (rule l(2), rule l(4))
  show "keeping (\<lambda>h. hRead H h (serverConf d)) (hRun H env command args)" using l(3) by blast
  show "hWrite H (serverConf d) content mode h = (None, h') \<Longrightarrow> hRead H h' (serverConf d) = Inr content" using l(5) by blast
  show "hRead H (hSleep H ms h) (serverConf d) = hRead H h (serverConf d)" "run (hSleep H ms h) \<subseteq>\<^sub>m run h" using l(6) by blast+
  show "hRun H [] command (''--config'' # serverConf d # rest) h = ((None, out), h') \<Longrightarrow> hRead H h (serverConf d) = Inr c
      \<Longrightarrow> \<exists>pid. run h pid = None \<and> run h' \<subseteq>\<^sub>m (run h)(pid \<mapsto> c)" using l(7) by blast
  show "length args \<le> 2 \<Longrightarrow> run (snd (hRun H [] ''kill'' args h)) \<subseteq>\<^sub>m run h" using l(8) by blast
  show "hRun H [] ''kill'' [''-0'', formatInt pid] h = ((Some err, out), h') \<Longrightarrow> run h pid = None" using l(9) by blast
  show "hRead H h (joinPath [''/proc'', formatInt pid, ''stat'']) = Inr raw \<Longrightarrow> 2 < length (Prelude.fields raw) \<Longrightarrow> Prelude.fields raw ! 2 = ''Z'' \<Longrightarrow> run h pid = None"
    using l(10) by blast
qed

lemma filesKeepD:
  assumes "filesKeep H view P"
  shows "P path \<Longrightarrow> keeping view (hWrite H path content mode)" and "P path \<Longrightarrow> keeping view (hRemove H path)"
    and "keeping view (hMkdirAll H path mode)" and "keeping view (hChmod H path mode)"
  using assms unfolding filesKeep_def by blast+

lemma systemFiles_base: "path \<in> set systemFiles \<Longrightarrow> base path \<notin> {''server.conf'', ''openvpn.pid''}"
proof -
  have "list_all (\<lambda>path. base path \<noteq> ''server.conf'' \<and> base path \<noteq> ''openvpn.pid'') systemFiles" by code_simp
  then show "path \<in> set systemFiles \<Longrightarrow> base path \<notin> {''server.conf'', ''openvpn.pid''}" by (simp add: list_all_iff)
qed

lemma daemon_bases: "d \<noteq> [] \<Longrightarrow> base (serverConf d) = ''server.conf''" "d \<noteq> [] \<Longrightarrow> base (pidFile d) = ''openvpn.pid''"
  unfolding serverConf_def pidFile_def by (rule base_joinPath; simp add: plainComp_def)+

lemma calm_file_text:
  assumes "\<And>env command args. rulesArgs args \<Longrightarrow> keeping (\<lambda>h. hRead H h p) (hRun H env command args)" and "filesKeep H (\<lambda>h. hRead H h p) (\<lambda>path. path \<noteq> p)"
    and "base p \<in> {''server.conf'', ''openvpn.pid''}"
  shows "calmHost H (\<lambda>h. hRead H h p)"
  unfolding calmHost_def
proof (intro conjI allI impI)
  fix path content mode
  assume "path \<in> set systemFiles"
  then have "path \<noteq> p" using systemFiles_base assms(3) by metis
  then show "keeping (\<lambda>h. hRead H h p) (hWrite H path content mode)" by (rule filesKeepD(1) [OF assms(2)])
qed (rule assms(1))

lemma calm_conf:
  assumes "daemonLaws H d run" and "d \<noteq> []"
  shows "calmHost H (\<lambda>h. hRead H h (serverConf d))"
  using daemon_bases(1) [OF assms(2)] by (intro calm_file_text daemonLawsD(3,4) [OF assms(1)]) simp



section \<open>What the steps keep\<close>

lemma keeping_dropTable:
  assumes "calmHost H view"
  shows "keeping view (dropTable H table)"
proof -
  have "keeping view (runQuiet H nft [''delete'', ''table'', ''inet'', table])" for nft by (intro keeps calm_run [OF assms]) simp
  then show ?thesis unfolding keeping_def dropTable_def by (simp split: sum.split)
qed

lemma keeping_ovRules:
  assumes "calmHost H view"
  shows "keeping view (ovRules E H baseDir inbound)"
proof -
  let ?tg = "oiTag inbound"
  have "keeping view (thenDo (runQuiet H nft [''delete'', ''table'', ''inet'', ovTable ?tg])
        (thenDo (runChecked H [] nft [''-f'', path] (''apply OV nftables '' @ ?tg))
        (thenDo (applyTProxyRouting H) (ignoring (vpnRemoveDirectNAT H (''openvpn-'' @ ?tg))))))" for nft path
    by (intro keeps calm_run [OF assms] keeping_routing [OF assms] keeping_directNAT(2) [OF assms]) simp_all
  then have "keeping view (\<lambda>h. case hLook H h ''nft'' of
            Inl _ \<Rightarrow> (Some ''nft executable not found'', h)
          | Inr nft \<Rightarrow>
              thenDo (runQuiet H nft [''delete'', ''table'', ''inet'', ovTable ?tg])
              (thenDo (runChecked H [] nft [''-f'', joinPath [ovDir baseDir ?tg, ''nftables.nft'']] (''apply OV nftables '' @ ?tg))
              (thenDo (applyTProxyRouting H) (ignoring (vpnRemoveDirectNAT H (''openvpn-'' @ ?tg))))) h)"
    unfolding keeping_def by (simp split: sum.split)
  then show ?thesis unfolding ovRules_def Let_def
    by (intro keeps keeping_hostNetworking [OF assms] keeping_dropTable [OF assms] keeping_directNAT(1) [OF assms])
qed

lemma keeping_pidRunning:
  assumes "calmHost H view"
  shows "keeping view (openvpnPIDRunning H pidPath logPath)"
proof -
  have k: "view h' = view h" if "hRun H [] ''kill'' [''-0'', formatInt pid] h = (r, h')" for pid r h h'
    using keepingD [OF calm_run [OF assms] that] by simp
  show ?thesis unfolding keeping_def openvpnPIDRunning_def by (auto split: option.split prod.split dest!: k)
qed

lemma keeping_DCOSupport:
  assumes "calmHost H view" and "filesKeep H view P" and "P ''/etc/apt/keyrings/openvpn-repo-public.asc''" and "P ''/etc/apt/sources.list.d/openvpn-aptrepo.list''"
  shows "keeping view (ensureOVDCOSupport goarch get H)"
proof -
  have k: "view h' = view h" if "hRun H [] command args h = (r, h')" "rulesArgs args" for command args r h h'
    using keepingD [OF calm_run [OF assms(1) that(2)] that(1)] .
  have load: "keeping view (loadOVDCOModules H)" unfolding loadOVDCOModules_def by (rule keeping_loadModules [OF assms(1)]) simp
  have sup: "view h' = view h" if "openvpnSupportsDCO H h = (r, h')" for r h h'
    using that unfolding openvpnSupportsDCO_def by (auto split: sum.splits prod.splits dest!: k)
  have conf: "keeping view (configureOpenVPN26APTRepository goarch get H)"
  proof -
    have "keeping view (thenDo (hMkdirAll H ''/etc/apt/keyrings'' 493)
        (thenDo (hWrite H ''/etc/apt/keyrings/openvpn-repo-public.asc'' key 420) (hWrite H ''/etc/apt/sources.list.d/openvpn-aptrepo.list'' src 420)))" for key src
      by (intro keeps filesKeepD(1,3) [OF assms(2)] assms(3,4))
    then show ?thesis unfolding keeping_def configureOpenVPN26APTRepository_def by (auto simp: Let_def split: sum.split)
  qed
  have apt: "keeping view (aptGet H args)" if "rulesArgs args" for args unfolding aptGet_def using keeping_install [OF assms(1) that] .
  have rpm: "keeping view (rpmDCO H manager kr)" for manager kr unfolding rpmDCO_def by (rule keeping_install [OF assms(1)]) simp
  have "keeping view (thenDo (configureOpenVPN26APTRepository goarch get H) (aptGet H [''update'']))" by (intro keeps conf apt) simp
  then have "keeping view (\<lambda>h. case aptPackageAvailable H ''openvpn-dco-dkms'' h of
          (True, h') \<Rightarrow> (None, h')
        | (False, h') \<Rightarrow> thenDo (configureOpenVPN26APTRepository goarch get H) (aptGet H [''update'']) h')"
    unfolding keeping_def aptPackageAvailable_def by (auto split: prod.split bool.split dest!: k)
  then have "keeping view (aptDCO goarch get H kr)" for kr unfolding aptDCO_def by (intro keeps apt) simp_all
  then have inst: "keeping view (installOVDCOPackages goarch get H)"
    using rpm unfolding keeping_def installOVDCOPackages_def commandOutput_def by (auto simp: Let_def split: prod.split option.split dest!: k)
  have last: "keeping view (\<lambda>h. case openvpnSupportsDCO H h of (supported, h') \<Rightarrow>
                if \<not> supported then (Some ''installed OpenVPN binary was built without DCO support'', h')
                else if \<not> ovDCOModuleAvailable H h' then (Some ''kernel DCO module is unavailable after automatic install'', h')
                else (None, h'))" unfolding keeping_def by (auto split: prod.split dest!: sup)
  have again: "keeping view (thenDo (installOVDCOPackages goarch get H) (thenDo (loadOVDCOModules H)
             (\<lambda>h. case openvpnSupportsDCO H h of (supported, h') \<Rightarrow>
                if \<not> supported then (Some ''installed OpenVPN binary was built without DCO support'', h')
                else if \<not> ovDCOModuleAvailable H h' then (Some ''kernel DCO module is unavailable after automatic install'', h')
                else (None, h'))))" by (intro keeps inst load last)
  then show ?thesis unfolding ensureOVDCOSupport_def
    by (intro keeps load) (auto simp: keeping_def split: prod.split dest!: sup)
qed

lemma keeping_ifChanged:
  assumes "filesKeep H view P" and "P path"
  shows "keeping view (writeFileIfChanged H path content mode)"
  by (intro keeping_writeFileIfChanged filesKeepD(4) [OF assms(1)] filesKeepD(1) [OF assms])

text \<open>The part of \<open>writeInbound\<close> before the four files.\<close>

definition writeUsers :: "ovEnv \<Rightarrow> 'h host \<Rightarrow> string \<Rightarrow> ovRuntimeInbound \<Rightarrow> vpnSessionCallback option \<Rightarrow> 'h action" where
  "writeUsers E H d inbound callback =
     (let ccdDir = joinPath [d, ''ccd''] in
      thenDo (hMkdirAll H ccdDir 448)
      (thenDo (writeFileIfChanged H (joinPath [d, ''users.tsv'']) (vpnUsersTSV (oiUsers inbound)) 384)
      (thenDo (writeVPNSessionCallback H (joinPath [d, ''session-callback.env'']) callback)
      (thenDo (writeCCD H ccdDir (snd (ovNetworkMask (ovPool (oeFloats E) inbound))) (oiUsers inbound)) (pruneCCD H ccdDir (oiUsers inbound))))))"

lemma writeInbound_split:
  "writeInbound E H baseDir inbound callback =
     thenDo (writeUsers E H (ovDir baseDir (oiTag inbound)) inbound callback)
       (doAll (map (writeInboundFile H) (oeOrder E (inboundFiles E (ovDir baseDir (oiTag inbound)) inbound))))"
  by (simp add: writeInbound_def writeUsers_def Let_def thenDo_assoc)

lemma keeping_writeUsers:
  assumes "filesKeep H view P" and "P (joinPath [d, ''users.tsv''])" and "P (joinPath [d, ''session-callback.env''])"
    and "\<And>u. P (joinPath [joinPath [d, ''ccd''], safeName u])"
    and "\<And>h entries e. hReadDir H h (joinPath [d, ''ccd'']) = Inr entries \<Longrightarrow> e \<in> set entries \<Longrightarrow> P (joinPath [joinPath [d, ''ccd''], fst e])"
  shows "keeping view (writeUsers E H d inbound callback)"
proof -
  let ?ccd = "joinPath [d, ''ccd'']"
  have "keeping view (writeCCD H ?ccd poolMask us)" for poolMask us
    unfolding writeCCD_def by (rule keeping_doAll) (auto intro!: keeping_ifChanged [OF assms(1)] assms(4))
  moreover have "keeping view (pruneCCD H ?ccd us)" for us
  proof -
    have "keeping view (doAll (map (\<lambda>e. ignoring (hRemove H (joinPath [?ccd, fst e]))) es))" if "\<forall>e \<in> set es. P (joinPath [?ccd, fst e])" for es :: "(string \<times> bool) list"
      using that by (intro keeping_doAll) (auto intro!: keeps filesKeepD(2) [OF assms(1)])
    then show ?thesis using assms(5) unfolding keeping_def pruneCCD_def by (auto split: sum.split)
  qed
  ultimately show ?thesis unfolding writeUsers_def Let_def writeVPNSessionCallback_def
    by (intro keeps filesKeepD(3) [OF assms(1)] keeping_ifChanged [OF assms(1)] assms(2,3))
qed

lemma files_kept:
  assumes "filesKeep H view P" and "\<forall>f \<in> set fs. P (fst f)"
  shows "keeping view (doAll (map (writeInboundFile H) fs))"
  using assms(2) by (intro keeping_doAll) (auto simp: writeInboundFile_def intro!: keeping_ifChanged [OF assms(1)])

text \<open>A file that is among those written, with one content only, has that content when all were written.\<close>

lemma written_stays:
  assumes "daemonLaws H d run"
  shows "\<forall>f \<in> set fs. fst f = serverConf d \<longrightarrow> snd f = c \<Longrightarrow> hRead H h (serverConf d) = Inr c \<Longrightarrow> hRead H (snd (doAll (map (writeInboundFile H) fs) h)) (serverConf d) = Inr c"
proof (induction fs arbitrary: h)
  case (Cons f fs)
  have "hRead H (snd (writeInboundFile H f h)) (serverConf d) = Inr c"
  proof (cases "fst f = serverConf d")
    case True
    then have "writeInboundFile H f h = hChmod H (serverConf d) (if hasSuffix (fst f) ''.sh'' then 448 else 384) h"
      using Cons.prems by (simp add: writeInboundFile_def writeFileIfChanged_def)
    then show ?thesis using filesKeepD(4) [OF daemonLawsD(4) [OF assms]] Cons.prems(2) by (simp add: keeping_def)
  next
    case False
    then have "keeping (\<lambda>h. hRead H h (serverConf d)) (writeInboundFile H f)"
      unfolding writeInboundFile_def by (intro keeping_ifChanged [OF daemonLawsD(4) [OF assms]])
    then show ?thesis using Cons.prems(2) by (simp add: keeping_def)
  qed
  then show ?case using Cons by (cases "writeInboundFile H f h") (auto simp: thenDo_def split: option.split)
qed (simp add: skip_def)

lemma files_written:
  assumes "daemonLaws H d run"
  shows "\<forall>f \<in> set fs. fst f = serverConf d \<longrightarrow> snd f = c \<Longrightarrow> (serverConf d, c) \<in> set fs \<Longrightarrow> doAll (map (writeInboundFile H) fs) h = (None, h') \<Longrightarrow> hRead H h' (serverConf d) = Inr c"
proof (induction fs arbitrary: h)
  case (Cons f fs)
  obtain h1 where h1: "writeInboundFile H f h = (None, h1)" "doAll (map (writeInboundFile H) fs) h1 = (None, h')"
    using Cons.prems(3) thenDo_ok [of "writeInboundFile H f" "doAll (map (writeInboundFile H) fs)" h h'] by auto
  show ?case
  proof (cases "(serverConf d, c) \<in> set fs")
    case True
    then show ?thesis using Cons.IH [OF _ True h1(2)] Cons.prems(1) by simp
  next
    case False
    then have f: "f = (serverConf d, c)" using Cons.prems(2) by auto
    have "hRead H h1 (serverConf d) = Inr c"
    proof (cases "hRead H h (serverConf d) = Inr c")
      case True
      then have "hChmod H (serverConf d) (if hasSuffix (serverConf d) ''.sh'' then 448 else 384) h = (None, h1)"
        using h1(1) f by (simp add: writeInboundFile_def writeFileIfChanged_def)
      from keepingD [OF filesKeepD(4) [OF daemonLawsD(4) [OF assms]] this] show ?thesis using True by simp
    next
      case False
      then have "hWrite H (serverConf d) c (if hasSuffix (serverConf d) ''.sh'' then 448 else 384) h = (None, h1)"
        using h1(1) f by (simp add: writeInboundFile_def writeFileIfChanged_def)
      then show ?thesis by (rule daemonLawsD(5) [OF assms])
    qed
    then show ?thesis using written_stays [OF assms, of fs c h1] Cons.prems(1) h1(2) by simp
  qed
qed simp

section \<open>The daemon after an inbound was applied\<close>

definition ovConfig :: "ovEnv \<Rightarrow> string \<Rightarrow> ovRuntimeInbound \<Rightarrow> string" where
  "ovConfig E baseDir x = (let d = ovDir baseDir (oiTag x) in serverConfig (oeFloats E) (oeTun E) x d (joinPath [d, ''ccd'']))"

lemma ovDir_not_Nil: "baseDir \<noteq> [] \<Longrightarrow> ovDir baseDir tg \<noteq> []"
  by (simp add: ovDir_def joinPath_not_Nil)

lemma inboundFiles_conf:
  assumes "baseDir \<noteq> []" and "set (oeOrder E (inboundFiles E (ovDir baseDir (oiTag x)) x)) = set (inboundFiles E (ovDir baseDir (oiTag x)) x)"
  defines "d \<equiv> ovDir baseDir (oiTag x)"
  shows "\<forall>f \<in> set (oeOrder E (inboundFiles E d x)). fst f = serverConf d \<longrightarrow> snd f = ovConfig E baseDir x"
    and "(serverConf d, ovConfig E baseDir x) \<in> set (oeOrder E (inboundFiles E d x))"
proof -
  have d: "d \<noteq> []" using ovDir_not_Nil [OF assms(1)] by (simp add: d_def)
  have ne: "joinPath [d, f] \<noteq> serverConf d" if "f \<in> {''auth.sh'', ''client-disconnect.sh'', ''nftables.nft''}" for f
    unfolding serverConf_def using that d by (intro joinPath_differ) (auto simp: plainComp_def)
  show "\<forall>f \<in> set (oeOrder E (inboundFiles E d x)). fst f = serverConf d \<longrightarrow> snd f = ovConfig E baseDir x"
    unfolding assms(2) [folded d_def] using ne by (auto simp: inboundFiles_def ovConfig_def d_def Let_def)
  show "(serverConf d, ovConfig E baseDir x) \<in> set (oeOrder E (inboundFiles E d x))"
    unfolding assms(2) [folded d_def] by (simp add: inboundFiles_def ovConfig_def serverConf_def d_def Let_def)
qed

lemma writeInbound_conf:
  assumes "daemonLaws H (ovDir baseDir (oiTag x)) run" and "baseDir \<noteq> []" and "\<And>fs. set (oeOrder E fs) = set fs"
    and "writeInbound E H baseDir x callback h = (None, h')"
  shows "hRead H h' (serverConf (ovDir baseDir (oiTag x))) = Inr (ovConfig E baseDir x)"
proof -
  let ?d = "ovDir baseDir (oiTag x)"
  obtain h1 where h1: "doAll (map (writeInboundFile H) (oeOrder E (inboundFiles E ?d x))) h1 = (None, h')"
    using thenDo_ok [OF assms(4) [unfolded writeInbound_split]] by blast
  note c = inboundFiles_conf [OF assms(2,3)]
  from files_written [OF assms(1) c h1] show ?thesis .
qed

lemma writeInbound_run:
  assumes "daemonLaws H d run"
  shows "keeping run (writeInbound E H baseDir x callback)"
  unfolding writeInbound_split by (intro keeps keeping_writeUsers [OF daemonLawsD(2) [OF assms]] files_kept [OF daemonLawsD(2) [OF assms]]) simp_all










text \<open>The steps of a turn of the loop that succeeds.\<close>

lemma ovApplyOne_steps:
  fixes E baseDir x
  defines "d \<equiv> ovDir baseDir (oiTag x)"
  assumes "ovApplyOne E H baseDir callback x h = (None, h')"
  obtains wasRunning detail h1 h2 h3 h4 restart where
    "openvpnPIDRunning H (pidFile d) (joinPath [d, ''openvpn.log'']) h = ((wasRunning, detail), h1)"
    "(if requireDCO (oeFloats E) x then failing (\<lambda>err. ''OV inbound '' @ oiTag x @ '' requires DCO: '' @ err) (ensureOVDCOSupport (oeArch E) (oeGet E) H) else skip) h1 = (None, h2)"
    "writeInbound E H baseDir x callback h2 = (None, h3)" "restart \<longleftrightarrow> \<not> wasRunning \<or> readText H h (serverConf d) \<noteq> readText H h3 (serverConf d)"
    "(if restart then stopInboundName H baseDir (safeName (oiTag x)) else skip) h3 = (None, h4)" "ovApplyInbound E H baseDir x restart h4 = (None, h')"
proof -
  let ?dco = "if requireDCO (oeFloats E) x then failing (\<lambda>err. ''OV inbound '' @ oiTag x @ '' requires DCO: '' @ err) (ensureOVDCOSupport (oeArch E) (oeGet E) H) else skip"
  obtain w t h1 where p: "openvpnPIDRunning H (pidFile d) (joinPath [d, ''openvpn.log'']) h = ((w, t), h1)" by (metis prod.collapse)
  let ?re = "\<lambda>h3. \<not> w \<or> readText H h (serverConf d) \<noteq> readText H h3 (serverConf d)"
  let ?last = "\<lambda>h. thenDo (if ?re h then stopInboundName H baseDir (safeName (oiTag x)) else skip) (ovApplyInbound E H baseDir x (?re h)) h"
  have "thenDo (\<lambda>h. (validateOVDCOSettings (oeFloats E) x, h)) (thenDo ?dco (thenDo (writeInbound E H baseDir x callback) ?last)) h1 = (None, h')"
    using assms(2) p unfolding ovApplyOne_def Let_def d_def serverConf_def pidFile_def by simp
  from thenDo_ok [OF this] have "thenDo ?dco (thenDo (writeInbound E H baseDir x callback) ?last) h1 = (None, h')" by auto
  from thenDo_ok [OF this] obtain h2 where h2: "?dco h1 = (None, h2)" "thenDo (writeInbound E H baseDir x callback) ?last h2 = (None, h')" by blast
  from thenDo_ok [OF h2(2)] obtain h3 where h3: "writeInbound E H baseDir x callback h2 = (None, h3)" "?last h3 = (None, h')" by blast
  from thenDo_ok [OF h3(2)] obtain h4 where h4: "(if ?re h3 then stopInboundName H baseDir (safeName (oiTag x)) else skip) h3 = (None, h4)" "ovApplyInbound E H baseDir x (?re h3) h4 = (None, h')" by blast
  show thesis by (rule that [OF p h2(1) h3(1) refl h4])
qed


text \<open>Without a restart nothing touches the daemon or its files.\<close>

lemma no_restart_keeps: "calmHost H view \<Longrightarrow> keeping view (ovApplyInbound E H baseDir x False)"
  unfolding ovApplyInbound_def Let_def by (auto intro!: keeps keeping_ovRules split: option.split)

lemma keeps_until_stop:
  assumes "calmHost H view" and "filesKeep H view P" and "P ''/etc/apt/keyrings/openvpn-repo-public.asc''" and "P ''/etc/apt/sources.list.d/openvpn-aptrepo.list''"
    and "keeping view (writeInbound E H baseDir x callback)" and "openvpnPIDRunning H p l h = (r, h1)"
    and "(if requireDCO (oeFloats E) x then failing g (ensureOVDCOSupport (oeArch E) (oeGet E) H) else skip) h1 = (None, h2)"
    and "writeInbound E H baseDir x callback h2 = (None, h3)"
  shows "view h3 = view h"
proof -
  have "keeping view (if requireDCO (oeFloats E) x then failing g (ensureOVDCOSupport (oeArch E) (oeGet E) H) else skip)"
    by (intro keeps keeping_DCOSupport [OF assms(1-4)])
  from keepingD [OF this assms(7)] keepingD [OF keeping_pidRunning [OF assms(1)] assms(6)] keepingD [OF assms(5,8)]
  show ?thesis by simp
qed


lemma keeping_stop:
  assumes "\<And>env command args. keeping view (hRun H env command args)" and "\<And>ms h. view (hSleep H ms h) = view h"
    and "calmHost H view" and "keeping view (hRemove H (joinPath [joinPath [baseDir, safeName name], ''openvpn.pid'']))"
  shows "keeping view (stopInboundName H baseDir name)"
proof -
  have k: "view h' = view h" if "hRun H [] command args h = (r, h')" for command args r h h' using keepingD [OF assms(1) that] .
  have alive: "view h' = view h" if "processAlive H pid h = (r, h')" for pid r h h'
    using that unfolding processAlive_def by (auto simp: Let_def split: if_splits prod.splits dest!: k)
  have wait: "view (snd (waitStopped H pid n h)) = view h" for pid n h
  proof (induction n arbitrary: h)
    case (Suc n)
    then show ?case using assms(2) by (auto split: prod.split bool.split dest!: alive)
  qed simp
  have quiet: "keeping view (runQuiet H command args)" for command args by (intro keeps assms(1))
  have "keeping view (\<lambda>h. case processAlive H pid h of (False, h') \<Rightarrow> (None, h') | (True, h') \<Rightarrow> runQuiet H ''kill'' [''-KILL'', formatInt pid] h')" for pid
    using quiet unfolding keeping_def by (auto split: prod.split bool.split dest!: alive)
  moreover have "keeping view (waitStopped H pid 40)" for pid using wait by (simp add: keeping_def)
  ultimately have "keeping view (stopProcess H pid)" for pid unfolding stopProcess_def by (intro keeps assms(1))
  then have "keeping view (thenDo (case q of Some pid \<Rightarrow> (if 1 < pid then stopProcess H pid else skip) | None \<Rightarrow> skip)
      (ignoring (hRemove H (joinPath [joinPath [baseDir, safeName name], ''openvpn.pid'']))))" for q
    by (intro keeps assms(4)) (auto intro: keeps split: option.split)
  then have "keeping view (stopPID H (joinPath [joinPath [baseDir, safeName name], ''openvpn.pid'']))"
    unfolding keeping_def stopPID_def by (simp split: sum.split)
  then show ?thesis unfolding stopInboundName_def by (intro keeps keeping_dropTable [OF assms(3)] keeping_directNAT(2) [OF assms(3)])
qed

lemma stop_keeps_conf:
  assumes "daemonLaws H (ovDir baseDir tg) run" and "baseDir \<noteq> []"
  shows "keeping (\<lambda>h. hRead H h (serverConf (ovDir baseDir tg))) (stopInboundName H baseDir name)"
proof (rule keeping_stop)
  let ?d = "ovDir baseDir tg"
  have d: "?d \<noteq> []" by (rule ovDir_not_Nil [OF assms(2)])
  show "keeping (\<lambda>h. hRead H h (serverConf ?d)) (hRun H env command args)" for env command args by (rule daemonLawsD(3) [OF assms(1)])
  show "hRead H (hSleep H ms h) (serverConf ?d) = hRead H h (serverConf ?d)" for ms h by (rule daemonLawsD(6) [OF assms(1)])
  show "calmHost H (\<lambda>h. hRead H h (serverConf ?d))" by (rule calm_conf [OF assms(1) d])
  have "joinPath [joinPath [baseDir, safeName name], ''openvpn.pid''] \<noteq> serverConf ?d"
    unfolding serverConf_def using d joinPath_not_Nil [OF assms(2)] by (intro joinPath_differ) (simp_all add: plainComp_def)
  then show "keeping (\<lambda>h. hRead H h (serverConf ?d)) (hRemove H (joinPath [joinPath [baseDir, safeName name], ''openvpn.pid'']))"
    by (rule filesKeepD(2) [OF daemonLawsD(4) [OF assms(1)]])
qed



lemma waitStopped_ok: "fst (waitStopped H pid n h) = None"
  by (induction n arbitrary: h) (auto split: prod.split bool.split)







text \<open>
  When the file of an inbound already holds the configuration of the runtime and the recorded number is that of some
  process, applying the inbound reports success and leaves the daemon as it is. It may run with an older configuration,
  after an attempt that wrote the file and failed before the restart, or not at all, when another process has the number.
\<close>

theorem ov_stale_daemon_stays:
  assumes "daemonLaws H (ovDir baseDir (oiTag x)) run" and "\<And>fs. set (oeOrder E fs) = set fs" and "baseDir \<noteq> []"
    and "readText H h (serverConf (ovDir baseDir (oiTag x))) = ovConfig E baseDir x"
    and "readPID H h (pidFile (ovDir baseDir (oiTag x))) = Some pid" and "1 < pid" and "hRun H [] ''kill'' [''-0'', formatInt pid] h = ((None, out), h0)"
    and "ovApplyOne E H baseDir callback x h = (None, h')"
  shows "run h' = run h"
proof -
  let ?d = "ovDir baseDir (oiTag x)"
  obtain w t h1 h2 h3 h4 r where s: "openvpnPIDRunning H (pidFile ?d) (joinPath [?d, ''openvpn.log'']) h = ((w, t), h1)"
    "(if requireDCO (oeFloats E) x then failing (\<lambda>err. ''OV inbound '' @ oiTag x @ '' requires DCO: '' @ err) (ensureOVDCOSupport (oeArch E) (oeGet E) H) else skip) h1 = (None, h2)"
    "writeInbound E H baseDir x callback h2 = (None, h3)" "r \<longleftrightarrow> \<not> w \<or> readText H h (serverConf ?d) \<noteq> readText H h3 (serverConf ?d)"
    "(if r then stopInboundName H baseDir (safeName (oiTag x)) else skip) h3 = (None, h4)" "ovApplyInbound E H baseDir x r h4 = (None, h')"
    by (rule ovApplyOne_steps [OF assms(8)])
  have "w" using s(1) assms(5,6,7) by (simp add: openvpnPIDRunning_def)
  moreover have "hRead H h3 (serverConf ?d) = Inr (ovConfig E baseDir x)" by (rule writeInbound_conf [OF assms(1,3,2) s(3)])
  ultimately have r: "\<not> r" using s(4) assms(4) by (simp add: readText_def)
  then have "h4 = h3" using s(5) by (simp add: skip_def)
  moreover have "run h3 = run h"
    by (rule keeps_until_stop [OF daemonLawsD(1,2) [OF assms(1)] _ _ writeInbound_run [OF assms(1)] s(1,2,3)]) simp_all
  ultimately show ?thesis using keepingD [OF no_restart_keeps [OF daemonLawsD(1) [OF assms(1)]]] s(6) r by simp
qed

section \<open>A small host\<close>

text \<open>
  The host is the text of the configuration file and the configuration with which the daemon 42 runs, if it does. The file with the number holds 42. Every
  program succeeds; \<open>kill\<close> with a number ends the daemon, \<open>--config\<close> starts it when it does not run yet and does nothing otherwise, since its port is taken, and
  \<open>kill -0\<close> says whether it runs. With \<open>foreign\<close> set the recorded number is that of another process, which never ends.
\<close>

type_synonym ovState = "(string + string) \<times> string option"

definition exampleDir :: string where
  "exampleDir = ovDir ''/d'' ''ov''"

definition toyRun :: "bool \<Rightarrow> string list \<Rightarrow> ovState \<Rightarrow> (string option \<times> string) \<times> ovState" where
  "toyRun foreign args h =
     (if 2 < length args \<and> take 1 args = [''--config''] then ((None, []), (fst h, case snd h of Some c \<Rightarrow> Some c | None \<Rightarrow> (case fst h of Inl _ \<Rightarrow> None | Inr c \<Rightarrow> Some c)))
      else if take 1 args = [''-KILL''] \<or> (length args = 1 \<and> numericArg (hd args)) then ((None, []), (fst h, None))
      else if take 1 args = [''-0''] then ((if foreign \<or> snd h \<noteq> None then None else Some ''exit status 1'', []), h)
      else ((None, ''1.1.1.1 dev eth0''), h))"

definition toyHost :: "bool \<Rightarrow> ovState host" where
  "toyHost foreign = \<lparr>hGOOS = ''linux'', hRoot = True, hLook = (\<lambda>h name. Inr name), hRun = (\<lambda>env command args. toyRun foreign args),
     hRead = (\<lambda>h path. if path = serverConf exampleDir then fst h else if path = pidFile exampleDir then Inr ''42'' else Inl ''no file''),
     hWrite = (\<lambda>path content mode h. if path = serverConf exampleDir then (None, (Inr content, snd h)) else (None, h)),
     hChmod = (\<lambda>path mode. skip), hMkdirAll = (\<lambda>path mode. skip),
     hRemove = (\<lambda>path. skip), hRemoveAll = (\<lambda>path. skip), hStat = (\<lambda>h path. None), hReadDir = (\<lambda>h path. Inr []), hSleep = (\<lambda>ms h. h)\<rparr>"

definition toyDaemons :: "ovState \<Rightarrow> int \<Rightarrow> string option" where
  "toyDaemons h = (case snd h of None \<Rightarrow> Map.empty | Some c \<Rightarrow> [42 \<mapsto> c])"

lemma stat_not_daemon: "joinPath [''/proc'', n, ''stat''] \<noteq> serverConf exampleDir" "joinPath [''/proc'', n, ''stat''] \<noteq> pidFile exampleDir"
proof -
  have "joinPath [''/proc'', n, ''stat''] = joinPath [''/proc/'' @ n, ''stat'']" by (simp add: joinPath_def)
  moreover have "base (joinPath [''/proc/'' @ n, ''stat'']) = ''stat''" by (rule base_joinPath) (simp_all add: plainComp_def)
  ultimately show "joinPath [''/proc'', n, ''stat''] \<noteq> serverConf exampleDir" "joinPath [''/proc'', n, ''stat''] \<noteq> pidFile exampleDir"
    using daemon_bases [of exampleDir] ovDir_not_Nil [of "''/d''" "''ov''"] by (auto simp: exampleDir_def)
qed

lemma toyLaws: "daemonLaws (toyHost foreign) exampleDir toyDaemons"
  unfolding daemonLaws_def
proof (intro conjI)
  show "filesKeep (toyHost foreign) toyDaemons (\<lambda>path. True)" "filesKeep (toyHost foreign) (\<lambda>h. hRead (toyHost foreign) h (serverConf exampleDir)) (\<lambda>path. path \<noteq> serverConf exampleDir)"
    by (simp_all add: filesKeep_def keeping_def toyHost_def skip_def toyDaemons_def)
  show "\<forall>env command args. rulesArgs args \<longrightarrow> keeping toyDaemons (hRun (toyHost foreign) env command args)"
    by (auto simp: keeping_def toyHost_def toyRun_def simp del: numericArg_def)
  show "\<forall>env command args. keeping (\<lambda>h. hRead (toyHost foreign) h (serverConf exampleDir)) (hRun (toyHost foreign) env command args)"
    by (simp add: keeping_def toyHost_def toyRun_def del: numericArg_def)
  show "\<forall>command rest h out h' c. hRun (toyHost foreign) [] command (''--config'' # serverConf exampleDir # rest) h = ((None, out), h') \<and> hRead (toyHost foreign) h (serverConf exampleDir) = Inr c
      \<longrightarrow> (\<exists>pid. toyDaemons h pid = None \<and> toyDaemons h' \<subseteq>\<^sub>m (toyDaemons h)(pid \<mapsto> c))"
  proof (intro allI impI)
    fix command rest h out h' c
    assume a: "hRun (toyHost foreign) [] command (''--config'' # serverConf exampleDir # rest) h = ((None, out), h') \<and> hRead (toyHost foreign) h (serverConf exampleDir) = Inr c"
    show "\<exists>pid. toyDaemons h pid = None \<and> toyDaemons h' \<subseteq>\<^sub>m (toyDaemons h)(pid \<mapsto> c)"
    proof (cases "snd h")
      case None
      then show ?thesis using a by (intro exI [of _ 42]) (cases rest; auto simp: toyHost_def toyRun_def toyDaemons_def)
    next
      case (Some old)
      then show ?thesis using a by (intro exI [of _ 43]) (cases rest; auto simp: toyHost_def toyRun_def toyDaemons_def map_le_def)
    qed
  qed
  show "\<forall>args h. length args \<le> 2 \<longrightarrow> toyDaemons (snd (hRun (toyHost foreign) [] ''kill'' args h)) \<subseteq>\<^sub>m toyDaemons h"
    by (auto simp: toyHost_def toyRun_def toyDaemons_def simp del: numericArg_def)
qed (auto simp: toyHost_def toyRun_def toyDaemons_def stat_not_daemon split: if_splits)

lemma pidFile_not_conf: "pidFile exampleDir \<noteq> serverConf exampleDir"
  unfolding pidFile_def serverConf_def exampleDir_def by (intro joinPath_differ ovDir_not_Nil) (simp_all add: plainComp_def)

lemma toyPID: "readPID (toyHost foreign) h (pidFile exampleDir) = Some 42"
proof -
  have "trimSpace ''42'' = ''42''" by (rule trimSpace_graphic) (simp_all add: graphic_def)
  moreover have "parseInt 64 ''42'' = Some 42" by (simp add: parseInt_def digitVal_def)
  ultimately show ?thesis using pidFile_not_conf by (simp add: readPID_def toyHost_def)
qed




definition exampleOV :: ovRuntimeInbound where
  "exampleOV = \<lparr>oiTag = ''ov'', oiTunnelTag = [], oiPort = 1194, oiTransport = ''udp'', oiTunnelPort = 0,
     oiSettings = [(''ca'', JStr ''c''), (''server_certificate'', JStr ''s''), (''server_key'', JStr ''k'')], oiUsers = []\<rparr>"

definition exampleOVEnv :: ovEnv where
  "exampleOVEnv = \<lparr>oeFloats = exampleFloats, oeTun = (\<lambda>tg. ''rbov''), oeAuth = (\<lambda>d x. ''#!/bin/sh''), oeDisconnect = (\<lambda>d x. ''#!/bin/sh''), oeEncode = (\<lambda>r. Inr []),
     oeIfaces = Some [], oeOrder = rev, oeArch = ''amd64'', oeGet = (\<lambda>url. Inl ''no network'')\<rparr>"

lemma toy_files [succeeds]: "succeeds (hWrite (toyHost foreign) path content mode)" "succeeds (hMkdirAll (toyHost foreign) path mode)" "succeeds (hChmod (toyHost foreign) path mode)"
  by (simp_all add: succeeds_def toyHost_def skip_def)

lemma toy_ifChanged [succeeds]: "succeeds (writeFileIfChanged (toyHost foreign) path content mode)"
  by (simp add: succeeds_def writeFileIfChanged_def toy_files [unfolded succeeds_def])

lemma toy_write: "succeeds (writeInbound exampleOVEnv (toyHost foreign) ''/d'' exampleOV callback)"
proof -
  have "succeeds (pruneCCD (toyHost foreign) d us)" for d us by (simp add: succeeds_def pruneCCD_def toyHost_def skip_def)
  then show ?thesis unfolding writeInbound_split writeUsers_def Let_def writeVPNSessionCallback_def writeCCD_def
    by (intro succeeds) (auto simp: writeInboundFile_def intro: succeeds)
qed

lemma stop_succeeds: "succeeds (stopInboundName H baseDir name)"
proof -
  have "fst (waitStopped H pid n h) = None" for pid n h by (rule waitStopped_ok)
  then have "succeeds (stopProcess H pid)" for pid
    unfolding stopProcess_def by (intro succeeds) (auto simp: succeeds_def runQuiet_def split: prod.split bool.split)
  then have "succeeds (thenDo (case q of Some pid \<Rightarrow> (if 1 < pid then stopProcess H pid else skip) | None \<Rightarrow> skip) (ignoring (hRemove H p)))" for q p
    by (intro succeeds) (auto split: option.split intro: succeeds)
  then have "succeeds (stopPID H p)" for p unfolding stopPID_def succeeds_def by (auto split: sum.split)
  moreover have "succeeds (dropTable H t)" for t by (simp add: succeeds_def dropTable_def runQuiet_def split: sum.split)
  ultimately show ?thesis unfolding stopInboundName_def by (intro succeeds)
qed

lemma toy_rules: "succeeds (ovRules exampleOVEnv (toyHost foreign) ''/d'' exampleOV)"
proof -
  let ?H = "toyHost foreign"
  have run: "hRun ?H env command args h = ((None, ''1.1.1.1 dev eth0''), h)" if "take 1 args \<notin> {[''--config''], [''-KILL''], [''-0'']}" "\<not> (length args = 1 \<and> numericArg (hd args))" for env command args h
    using that by (simp add: toyHost_def toyRun_def del: numericArg_def)
  have "succeeds (vpnEnsureIPTRule ?H r)" for r
    by (simp add: succeeds_def vpnEnsureIPTRule_def vpnIPTRuleExists_def vpnRunIPT_def run del: numericArg_def)
  then have "succeeds (ensureRules ?H rs)" for rs by (induction rs) (auto intro: succeeds)
  moreover have "succeeds (enableVPNForwarding ?H)" unfolding enableVPNForwarding_def forwarding_def by (intro succeeds)
  ultimately have rules: "succeeds (thenDo (enableVPNForwarding ?H) (ensureRules ?H rs))" for rs by (intro succeeds)
  have "Prelude.fields (joinWith '' '' [''1.1.1.1'', ''dev'', ''eth0'']) = [''1.1.1.1'', ''dev'', ''eth0'']"
    by (rule fields_join) (simp_all add: plainWord_def graphic_def)
  then have route: "vpnDefaultRouteIface ?H h = (Inr ''eth0'', h)" for h by (simp add: vpnDefaultRouteIface_def run)
  have "trimSpace ''10.66.0.0/16'' = ''10.66.0.0/16''" by (rule trimSpace_graphic) (simp_all add: graphic_def)
  then have pool: "trimSpace (ovPool exampleFloats exampleOV) \<noteq> []" by (simp add: ovPool_def exampleOV_def)
  have "succeeds (vpnApplyDirectNAT ?H ifaces tg iface (ovPool exampleFloats exampleOV))" for ifaces tg iface
    using rules pool by (simp add: succeeds_def vpnApplyDirectNAT_def route)
  then have "succeeds (failing c (vpnApplyDirectNAT ?H ifaces tg iface (ovPool exampleFloats exampleOV)))" for c ifaces tg iface
    unfolding succeeds_def failing_def by (auto split: prod.split) (metis fst_conv)
  moreover have "succeeds (dropTable ?H t)" for t by (simp add: succeeds_def dropTable_def runQuiet_def split: sum.split)
  moreover have "\<not> tproxyEnabled (oeFloats exampleOVEnv) exampleOV" "oeFloats exampleOVEnv = exampleFloats" by (simp_all add: tproxyEnabled_def exampleOV_def exampleOVEnv_def)
  ultimately show ?thesis unfolding ovRules_def Let_def by (auto intro!: succeeds)
qed


lemma toy_start: "startDaemon (toyHost foreign) exampleDir openvpn x (Inr c, r) = (None, (Inr c, Some (case r of None \<Rightarrow> c | Some old \<Rightarrow> old)))"
proof -
  have "openvpnPIDRunning (toyHost foreign) (pidFile exampleDir) l (Inr c, Some q) = ((True, []), (Inr c, Some q))" for l q
    using toyPID [of foreign] by (simp add: openvpnPIDRunning_def) (simp add: toyHost_def toyRun_def)
  then show ?thesis unfolding startDaemon_def Let_def pidFile_def by (cases r) (simp_all add: toyHost_def toyRun_def)
qed

lemma exampleOV_settings: "requireDCO (oeFloats exampleOVEnv) exampleOV = False" "validateServerCredentials (oeFloats exampleOVEnv) exampleOV = None"
  "validateOVDCOSettings (oeFloats exampleOVEnv) exampleOV = None"
proof -
  have "trimSpace ''c'' = ''c''" "trimSpace ''s'' = ''s''" "trimSpace ''k'' = ''k''" by (rule trimSpace_graphic; simp add: graphic_def)+
  then show "validateServerCredentials (oeFloats exampleOVEnv) exampleOV = None"
    by (simp add: validateServerCredentials_def exampleOV_def exampleOVEnv_def Let_def)
  show dco: "requireDCO (oeFloats exampleOVEnv) exampleOV = False" by (simp add: requireDCO_def exampleOV_def boolValue_def)
  then show "validateOVDCOSettings (oeFloats exampleOVEnv) exampleOV = None" by (simp add: validateOVDCOSettings_def)
qed

lemma toy_dir: "ovDir ''/d'' (oiTag exampleOV) = exampleDir"
  by (simp add: exampleDir_def exampleOV_def)

lemma toy_apply: "fst h = Inr c \<Longrightarrow> fst (ovApplyInbound exampleOVEnv (toyHost foreign) ''/d'' exampleOV restart h) = None"
proof -
  assume c: "fst h = Inr c"
  let ?H = "toyHost foreign"
  obtain h1 where r: "ovRules exampleOVEnv ?H ''/d'' exampleOV h = (None, h1)" using succeedsD [OF toy_rules] by blast
  have "calmHost ?H (\<lambda>h. hRead ?H h (serverConf exampleDir))" by (rule calm_conf [OF toyLaws]) (simp add: exampleDir_def ovDir_not_Nil)
  from keepingD [OF keeping_ovRules [OF this] r] have "fst h1 = Inr c" using c by (simp add: toyHost_def)
  then obtain q where h1: "h1 = (Inr c, q)" by (cases h1) simp
  have rm: "hRemove ?H path = skip" "hLook ?H h'' name = Inr name" "hGOOS ?H \<noteq> ''windows''" for path h'' name by (simp_all add: toyHost_def)
  show ?thesis
    using r h1 by (simp add: ovApplyInbound_def Let_def exampleOV_settings rm thenDo_None thenDo_ignoring toy_dir toy_start checkDCO_def skip_def)
qed

lemma toy_one:
  assumes "fst h = Inr c"
  shows "ovApplyOne exampleOVEnv (toyHost foreign) ''/d'' None exampleOV h = (None, snd (ovApplyOne exampleOVEnv (toyHost foreign) ''/d'' None exampleOV h))"
proof -
  let ?H = "toyHost foreign" and ?E = exampleOVEnv
  let ?conf = "serverConf exampleDir"
  obtain w t h1 where p: "openvpnPIDRunning ?H (pidFile exampleDir) (joinPath [exampleDir, ''openvpn.log'']) h = ((w, t), h1)" by (metis prod.collapse)
  obtain h2 where w2: "writeInbound ?E ?H ''/d'' exampleOV None h1 = (None, h2)" using succeedsD [OF toy_write] by blast
  have "hRead ?H h2 ?conf = Inr (ovConfig ?E ''/d'' exampleOV)"
    using writeInbound_conf [of ?H "''/d''" exampleOV toyDaemons ?E None h1 h2] toyLaws w2 by (simp add: toy_dir exampleOVEnv_def)
  then have h2: "fst h2 = Inr (ovConfig ?E ''/d'' exampleOV)" by (simp add: toyHost_def)
  let ?re = "\<not> w \<or> readText ?H h ?conf \<noteq> readText ?H h2 ?conf"
  define stopping where "stopping = (if ?re then stopInboundName ?H ''/d'' (safeName (oiTag exampleOV)) else skip)"
  define h3 where "h3 = snd (stopping h2)"
  have "succeeds stopping" unfolding stopping_def by (intro succeeds stop_succeeds)
  then have s: "stopping h2 = (None, h3)" unfolding h3_def by (rule succeedsD)
  have "keeping (\<lambda>h. hRead ?H h ?conf) stopping"
    unfolding stopping_def by (intro keeps stop_keeps_conf [of ?H "''/d''" "oiTag exampleOV" toyDaemons, unfolded toy_dir, OF toyLaws]) simp
  from keepingD [OF this s] have "hRead ?H h3 ?conf = hRead ?H h2 ?conf" .
  then have "fst h3 = Inr (ovConfig ?E ''/d'' exampleOV)" using h2 by (simp add: toyHost_def)
  from toy_apply [OF this] have "fst (ovApplyInbound ?E ?H ''/d'' exampleOV ?re h3) = None" .
  moreover have "ovApplyOne ?E ?H ''/d'' None exampleOV h = ovApplyInbound ?E ?H ''/d'' exampleOV ?re h3"
    using p w2 s unfolding ovApplyOne_def Let_def toy_dir serverConf_def pidFile_def stopping_def
    by (simp add: exampleOV_settings thenDo_None [of "\<lambda>h. (None, h)"] thenDo_None)
  ultimately show ?thesis by (simp add: prod_eq_iff)
qed


definition exampleStale :: ovState where
  "exampleStale = (Inr (ovConfig exampleOVEnv ''/d'' exampleOV), None)"

theorem ov_stale_daemon_stays_witness: "\<exists>h'. ovApplyOne exampleOVEnv (toyHost True) ''/d'' None exampleOV exampleStale = (None, h') \<and> toyDaemons h' = Map.empty"
proof -
  let ?h' = "snd (ovApplyOne exampleOVEnv (toyHost True) ''/d'' None exampleOV exampleStale)"
  have one: "ovApplyOne exampleOVEnv (toyHost True) ''/d'' None exampleOV exampleStale = (None, ?h')" by (rule toy_one) (simp add: exampleStale_def)
  have holds: "readText (toyHost True) exampleStale (serverConf exampleDir) = ovConfig exampleOVEnv ''/d'' exampleOV" by (simp add: readText_def toyHost_def exampleStale_def)
  have kill: "hRun (toyHost True) [] ''kill'' [''-0'', formatInt 42] exampleStale = ((None, []), exampleStale)" by (simp add: toyHost_def toyRun_def)
  have order: "set (oeOrder exampleOVEnv fs) = set fs" for fs by (simp add: exampleOVEnv_def)
  from ov_stale_daemon_stays [of "toyHost True" "''/d''" exampleOV toyDaemons exampleOVEnv exampleStale 42, unfolded toy_dir, OF toyLaws order _ holds toyPID _ kill one]
  have "toyDaemons ?h' = Map.empty" by (simp add: exampleStale_def toyDaemons_def)
  with one show ?thesis by blast
qed

end
