(* ===== verification/Managed_Block.thy ===== *)
theory Managed_Block
  imports Host VPN_Accounting
begin

text \<open>
  Blocks that the node keeps in files of the system: \<open>updateManagedBlock\<close> of \<open>internal/node/l2tp.go\<close>. A block stands between
  two marker lines; an update replaces it, or appends it when it is not there. Results: an update changes the lines of the
  block and no others, and repeating it changes nothing once the block is preceded by a line break; a block that begins the file
  gets one more line break by the next update.
\<close>

section \<open>Definitions\<close>

text \<open>\<open>strings.Index\<close>.\<close>

fun indexOf :: "string \<Rightarrow> string \<Rightarrow> nat option" where
  "indexOf [] sub = (if sub = [] then Some 0 else None)"
| "indexOf (c # s) sub = (if hasPrefix (c # s) sub then Some 0 else map_option Suc (indexOf s sub))"

definition trimLeftChars :: "char set \<Rightarrow> string \<Rightarrow> string" where
  "trimLeftChars cs s = dropWhile (\<lambda>c. c \<in> cs) s"

definition blockText :: "string \<Rightarrow> string \<Rightarrow> string \<Rightarrow> string" where
  "blockText start stop body = start @ [newline] @ trimRightChars {newline} body @ [newline] @ stop @ [newline]"

definition appendBlock :: "string \<Rightarrow> string \<Rightarrow> string \<Rightarrow> string \<Rightarrow> string" where
  "appendBlock start stop body txt =
     (if trimSpace txt \<noteq> [] then trimRightChars {newline} txt @ [newline] else txt) @ blockText start stop body"

definition replaceBlock :: "string \<Rightarrow> string \<Rightarrow> string \<Rightarrow> string \<Rightarrow> string" where
  "replaceBlock start stop body txt =
     (case (indexOf txt start, indexOf txt stop) of
        (Some i, Some j) \<Rightarrow>
          if i < j then trimRightChars {newline} (take i txt) @ [newline] @ blockText start stop body @ trimLeftChars {newline} (drop (j + length stop) txt)
          else appendBlock start stop body txt
      | _ \<Rightarrow> appendBlock start stop body txt)"

definition updateManagedBlock :: "'h host \<Rightarrow> string \<Rightarrow> string \<Rightarrow> string \<Rightarrow> string \<Rightarrow> 'h action" where
  "updateManagedBlock H path start stop body h =
     hWrite H path (replaceBlock start stop body (case hRead H h path of Inl _ \<Rightarrow> [] | Inr raw \<Rightarrow> raw)) 384 h"

section \<open>Lines\<close>

text \<open>The lines of a text that are not empty.\<close>

definition entries :: "string \<Rightarrow> string list" where
  "entries txt = filter (\<lambda>l. l \<noteq> []) (splitOn txt [newline])"

lemma entries_Nil [simp]: "entries [] = []"
  by (simp add: entries_def splitOn.simps)

lemma entries_newline [simp]: "entries (newline # t) = entries t"
  using splitOn_append [of "[newline]" "[]" t] by (simp add: entries_def)

lemma entries_append: "entries (s @ newline # t) = entries s @ entries t"
proof (induction "length s" arbitrary: s rule: less_induct)
  case less
  show ?case
  proof (cases "newline \<in> set s")
    case False
    then show ?thesis using splitOn_append [of "[newline]" s t] splitOn_absent [of "[newline]" s] by (simp add: entries_def)
  next
    case True
    then obtain a b where s: "s = a @ newline # b" "newline \<notin> set a" by (metis split_list_first)
    have "entries (a @ newline # r) = entries a @ entries r" for r
      using splitOn_append [of "[newline]" a r] splitOn_absent [of "[newline]" a] s(2) by (simp add: entries_def)
    then show ?thesis using less [of b] s(1) by simp
  qed
qed

lemma entries_line: "newline \<notin> set s \<Longrightarrow> s \<noteq> [] \<Longrightarrow> entries s = [s]"
  using splitOn_absent [of "[newline]" s] by (simp add: entries_def)

lemma entries_trimLeft [simp]: "entries (trimLeftChars {newline} s) = entries s"
  by (induction s) (simp_all add: trimLeftChars_def)

lemma entries_trimRight [simp]: "entries (trimRightChars {newline} s) = entries s"
proof (induction s rule: rev_induct)
  case (snoc c s)
  then show ?case using entries_append [of s "[]"] by (simp add: trimRightChars_def)
qed (simp add: trimRightChars_def)

lemma entries_trimmed: "entries (trimRightChars {newline} s @ newline # t) = entries s @ entries t"
  by (simp add: entries_append)

lemma entries_line_append: "newline \<notin> set s \<Longrightarrow> s \<noteq> [] \<Longrightarrow> entries (s @ newline # t) = s # entries t"
  by (simp add: entries_append entries_line)

lemma entries_blockText:
  assumes "newline \<notin> set start" and "start \<noteq> []" and "newline \<notin> set stop" and "stop \<noteq> []"
  shows "entries (blockText start stop body @ t) = start # entries body @ stop # entries t"
  using assms by (simp add: blockText_def entries_line_append entries_trimmed)

section \<open>Texts that are not blank\<close>

lemma stripRunes_keeps: "list_all (list_all (\<lambda>c. \<not> graphic c)) rs \<Longrightarrow> c \<in> set s \<Longrightarrow> graphic c \<Longrightarrow> c \<in> set (stripRunes rs s)"
proof (induction rs s rule: stripRunes.induct)
  case (1 rs s)
  show ?case
  proof (cases "find (\<lambda>p. p \<noteq> [] \<and> hasPrefix s p) rs")
    case (Some p)
    then have "p \<in> set rs" "hasPrefix s p" by (auto simp: find_Some_iff)
    then have "s = p @ drop (length p) s" "c \<notin> set p" using 1(2,4) by (auto simp: hasPrefix_def list_all_iff) (metis append_take_drop_id)
    then have "c \<in> set (drop (length p) s)" using 1(3) by (metis Un_iff set_append)
    then show ?thesis using 1(1) [OF Some 1(2)] 1(4) Some by (simp add: stripRunes.simps [of rs s])
  qed (simp add: stripRunes.simps [of rs s] 1(3))
qed

lemma trimSpace_not_blank: "c \<in> set s \<Longrightarrow> graphic c \<Longrightarrow> trimSpace s \<noteq> []"
proof -
  assume c: "c \<in> set s" "graphic c"
  have l: "list_all (list_all (\<lambda>c. \<not> graphic c)) space_runes" by (simp add: space_runes_def graphic_def)
  then have r: "list_all (list_all (\<lambda>c. \<not> graphic c)) (map rev space_runes)" by (simp add: list_all_iff)
  have "c \<in> set (trimSpace s)" using stripRunes_keeps [OF r] stripRunes_keeps [OF l] c by (simp add: trimSpace_def trimLeftSpace_def trimRightSpace_def)
  then show ?thesis by auto
qed

section \<open>Markers\<close>

definition marker :: "string \<Rightarrow> bool" where
  "marker m \<longleftrightarrow> m \<noteq> [] \<and> newline \<notin> set m"

lemma hasPrefix_line: "newline \<notin> set m \<Longrightarrow> hasPrefix (a @ newline # b) m = hasPrefix a m"
proof (cases "length m \<le> length a")
  case False
  assume m: "newline \<notin> set m"
  have "newline \<in> set (take (length m) (a @ newline # b))" using False by (cases "length m - length a") simp_all
  then have "take (length m) (a @ newline # b) \<noteq> m" using m by metis
  then show ?thesis using False by (auto simp: hasPrefix_def)
qed (simp add: hasPrefix_def)

lemma indexOf_line:
  "marker m \<Longrightarrow> indexOf (a @ newline # b) m = (case indexOf a m of Some i \<Rightarrow> Some i | None \<Rightarrow> map_option (\<lambda>k. Suc (length a + k)) (indexOf b m))"
proof (induction a)
  case Nil
  then have "\<not> hasPrefix (newline # b) m" by (cases m) (auto simp: marker_def hasPrefix_def)
  with Nil show ?case by (simp add: marker_def)
next
  case (Cons c a)
  then have "hasPrefix (c # a @ newline # b) m = hasPrefix (c # a) m" using hasPrefix_line [of m "c # a" b] by (simp add: marker_def)
  with Cons show ?case by (cases "indexOf a m") (simp_all add: option.map_comp comp_def)
qed

lemma indexOf_here: "indexOf (m @ t) m = Some 0"
proof (cases "m @ t")
  case (Cons c s)
  have "hasPrefix (m @ t) m" by (simp add: hasPrefix_def)
  then show ?thesis unfolding Cons by simp
qed simp

lemma indexOf_prefix_none: "indexOf (a @ b) m = None \<Longrightarrow> indexOf a m = None"
proof (induction a)
  case (Cons c a)
  then show ?case using hasPrefix_append [of "c # a" m b] by (auto split: if_splits)
qed (cases "b", auto simp: hasPrefix_def split: if_splits)

lemma indexOf_take: "m \<noteq> [] \<Longrightarrow> indexOf t m = Some j \<Longrightarrow> i \<le> j \<Longrightarrow> indexOf (take i t) m = None"
proof (induction t arbitrary: i j)
  case (Cons c t)
  show ?case
  proof (cases i)
    case (Suc i')
    then obtain j' where "j = Suc j'" "indexOf t m = Some j'" "\<not> hasPrefix (c # t) m" using Cons.prems by (auto split: if_splits)
    moreover have "hasPrefix (c # t) m" if "hasPrefix (c # take i' t) m" using hasPrefix_append [OF that, of "drop i' t"] by simp
    ultimately show ?thesis using Cons.IH [of j' i'] Cons.prems Suc by auto
  qed (simp add: Cons.prems)
qed simp

lemma trimRight_prefix: "\<exists>r. s = trimRightChars cs s @ r"
proof -
  have "s = rev (rev s)" by simp
  also have "\<dots> = rev (dropWhile (\<lambda>c. c \<in> cs) (rev s)) @ rev (takeWhile (\<lambda>c. c \<in> cs) (rev s))"
    by (metis rev_append takeWhile_dropWhile_id)
  finally show ?thesis unfolding trimRightChars_def by blast
qed

lemma trimmed_none: "indexOf s m = None \<Longrightarrow> indexOf (trimRightChars cs s) m = None"
  using trimRight_prefix indexOf_prefix_none by metis

lemma trimRight_snoc [simp]: "trimRightChars {c} (s @ [c]) = trimRightChars {c} s" "trimRightChars cs (trimRightChars cs s) = trimRightChars cs s"
  by (simp_all add: trimRightChars_def)

lemma trimLeft_Cons [simp]: "trimLeftChars {c} (c # s) = trimLeftChars {c} s" "trimLeftChars cs (trimLeftChars cs s) = trimLeftChars cs s"
  by (simp_all add: trimLeftChars_def)

text \<open>Where the markers of a block are found, when they are not found before it.\<close>

lemma block_markers:
  assumes "marker start" and "marker stop" and "indexOf start stop = None" and "indexOf body stop = None"
  shows "indexOf (blockText start stop body @ t) start = Some 0"
    and "indexOf (blockText start stop body @ t) stop = Some (length start + length (trimRightChars {newline} body) + 2)"
  using assms(3) indexOf_here [of stop "newline # t"] trimmed_none [OF assms(4), of "{newline}"]
  by (simp_all add: blockText_def indexOf_here indexOf_line [OF assms(2)])

lemma block_rest: "drop (length start + length (trimRightChars {newline} body) + 2 + length stop) (blockText start stop body @ t) = newline # t"
  by (simp add: blockText_def)

lemma replace_existing:
  assumes "marker start" and "marker stop" and "indexOf start stop = None" and "indexOf body stop = None"
    and "trimRightChars {newline} q = q" and "indexOf q start = None" and "indexOf q stop = None" and "trimLeftChars {newline} rest = rest"
  shows "replaceBlock start stop body' (q @ newline # blockText start stop body @ rest) = q @ newline # blockText start stop body' @ rest"
proof -
  let ?t = "q @ newline # blockText start stop body @ rest" and ?j = "length start + length (trimRightChars {newline} body) + 2"
  have "indexOf ?t start = Some (Suc (length q))" "indexOf ?t stop = Some (Suc (length q + ?j))"
    using assms(6,7) block_markers [OF assms(1-4), of rest] by (simp_all add: indexOf_line assms(1,2))
  moreover have "drop (Suc (length q + ?j) + length stop) ?t = newline # rest"
  proof -
    have e: "Suc (length q + ?j) + length stop = Suc (?j + length stop) + length q" by simp
    show ?thesis unfolding e using block_rest [of start body stop rest] by (simp only: drop_append diff_add_inverse2) simp
  qed
  ultimately show ?thesis using assms(5,8) by (simp add: replaceBlock_def)
qed

text \<open>A text in which the block can be found, or where neither marker occurs.\<close>

definition outsideBlock :: "string \<Rightarrow> string \<Rightarrow> string \<Rightarrow> string \<times> string" where
  "outsideBlock start stop txt =
     (case (indexOf txt start, indexOf txt stop) of
        (Some i, Some j) \<Rightarrow> if i < j then (take i txt, drop (j + length stop) txt) else (txt, [])
      | _ \<Rightarrow> (txt, []))"

definition tidyText :: "string \<Rightarrow> string \<Rightarrow> string \<Rightarrow> bool" where
  "tidyText start stop txt \<longleftrightarrow> trimSpace txt \<noteq> [] \<and>
     (case (indexOf txt start, indexOf txt stop) of (Some i, Some j) \<Rightarrow> i < j | (None, None) \<Rightarrow> True | _ \<Rightarrow> False)"

lemma replace_tidy:
  assumes "marker start" and "marker stop" and "tidyText start stop txt"
  shows "replaceBlock start stop body txt = trimRightChars {newline} (fst (outsideBlock start stop txt)) @ newline # blockText start stop body
      @ trimLeftChars {newline} (snd (outsideBlock start stop txt))"
    and "indexOf (fst (outsideBlock start stop txt)) start = None" and "indexOf (fst (outsideBlock start stop txt)) stop = None"
proof -
  have m: "start \<noteq> []" "stop \<noteq> []" using assms(1,2) by (simp_all add: marker_def)
  show "replaceBlock start stop body txt = trimRightChars {newline} (fst (outsideBlock start stop txt)) @ newline # blockText start stop body
      @ trimLeftChars {newline} (snd (outsideBlock start stop txt))"
    using assms(3) by (auto simp: tidyText_def replaceBlock_def outsideBlock_def appendBlock_def trimLeftChars_def split: option.splits)
  show "indexOf (fst (outsideBlock start stop txt)) start = None" "indexOf (fst (outsideBlock start stop txt)) stop = None"
    using assms(3) indexOf_take [of start "txt"] indexOf_take [of stop "txt"] m by (auto simp: tidyText_def outsideBlock_def split: option.splits)
qed

section \<open>Results\<close>

text \<open>
  An update writes the lines of the body between the markers and keeps every other line of the file in its place, whatever
  the block held before.
\<close>

theorem managed_block_replaced:
  assumes "marker start" and "marker stop" and "tidyText start stop txt"
  shows "entries (replaceBlock start stop body txt)
    = entries (fst (outsideBlock start stop txt)) @ start # entries body @ stop # entries (snd (outsideBlock start stop txt))"
  unfolding replace_tidy(1) [OF assms] using assms(1,2) by (simp add: entries_trimmed entries_blockText marker_def)

text \<open>A second update leaves nothing of the first, and repeating an update changes nothing.\<close>

theorem managed_block_last_wins:
  assumes "marker start" and "marker stop" and "indexOf start stop = None" and "indexOf body stop = None" and "tidyText start stop txt"
  shows "replaceBlock start stop body' (replaceBlock start stop body txt) = replaceBlock start stop body' txt"
  unfolding replace_tidy(1) [OF assms(1,2,5)]
  by (rule replace_existing [OF assms(1-4)]) (simp_all add: trimmed_none replace_tidy(2,3) [OF assms(1,2,5)])

text \<open>
  A file that was missing or empty: the block begins the file, and the next update with the same body writes another text.
\<close>

theorem block_of_new_file_moves:
  assumes "marker start" and "marker stop" and "indexOf start stop = None" and "indexOf body stop = None"
  shows "replaceBlock start stop body (replaceBlock start stop body []) = newline # replaceBlock start stop body []"
proof -
  let ?b = "blockText start stop body"
  have e: "replaceBlock start stop body [] = ?b" using assms(1,2) by (simp add: replaceBlock_def appendBlock_def marker_def)
  have "drop (length start + length (trimRightChars {newline} body) + 2 + length stop) ?b = [newline]" using block_rest [of start body stop "[]"] by simp
  moreover have "start \<noteq> []" using assms(1) by (simp add: marker_def)
  ultimately show ?thesis unfolding e using block_markers [OF assms, of "[]"] by (simp add: replaceBlock_def trimRightChars_def trimLeftChars_def)
qed

end
