(* ===== verification/L2tp.thy ===== *)
theory L2tp
  imports Openvpn Managed_Block
begin

text \<open>
  L2TP over IPsec: \<open>internal/node/l2tp.go\<close> without its traffic accounting. The manager writes its files, the blocks it keeps in
  files of the system, the rules of the host, and restarts the services when those files changed. The texts of the two PPP
  scripts, the JSON of the runtime and the addresses of the host are parameters. Results: the users with a secret are the available
  ones, each on one line; the fingerprint tells any two lists of users apart; after an application only available users have a
  session, unless the attempt before failed half way.
\<close>

section \<open>The runtime\<close>

record l2tpRuntimeInbound =
  liTag :: string
  liTunnelTag :: string
  liPort :: int
  liTunnelPort :: int
  liSettings :: jobj
  liUsers :: "vpnRuntimeUser list"

record l2tpRuntime =
  lrGeneratedAt :: string
  lrTarget :: string
  lrSessionCallback :: "vpnSessionCallback option"
  lrInbounds :: "l2tpRuntimeInbound list"

definition l2tpFixedPort :: int where
  "l2tpFixedPort = 1701"

definition l2tpFixedTunnelPort :: int where
  "l2tpFixedTunnelPort = 1702"

definition fixedSettings :: "(string \<times> json) list" where
  "fixedSettings = [(''l2tp_port'', JNum ''1701''), (''ipsec_ike_port'', JNum ''500''), (''ipsec_nat_port'', JNum ''4500''), (''tunnel_port'', JNum ''1702'')]"

definition normalizeL2TPRuntimeInbound :: "l2tpRuntimeInbound \<Rightarrow> l2tpRuntimeInbound" where
  "normalizeL2TPRuntimeInbound inbound = inbound\<lparr>liPort := l2tpFixedPort, liTunnelPort := l2tpFixedTunnelPort,
     liSettings := fold AList.delete [''xray_tunnel_port'', ''tproxy_port'', ''management_port''] (fold (\<lambda>(k, v). AList.update k v) fixedSettings (liSettings inbound))\<rparr>"

definition pppTProxy :: "floats \<Rightarrow> l2tpRuntimeInbound \<Rightarrow> bool" where
  "pppTProxy F inbound \<longleftrightarrow> 0 < liTunnelPort inbound \<and> boolValue F (map_of (liSettings inbound) ''tproxy_enabled'') True"

definition l2tpPool :: "floats \<Rightarrow> l2tpRuntimeInbound \<Rightarrow> string" where
  "l2tpPool F inbound = firstString F [map_of (liSettings inbound) ''ipv4_pool_cidr'', Some (JStr ''10.67.0.0/16'')]"

section \<open>Texts\<close>

definition dnsLines :: "floats \<Rightarrow> jobj \<Rightarrow> string" where
  "dnsLines F settings =
     (let dnsServers = stringList F (map_of settings ''dns_servers'')
      in concat (map (\<lambda>dns. textLine (''ms-dns '' @ dns)) (if dnsServers = [] then [''1.1.1.1''] else dnsServers)))"

definition boundedLine :: "floats \<Rightarrow> jobj \<Rightarrow> string \<Rightarrow> string \<Rightarrow> int \<Rightarrow> int \<Rightarrow> int \<Rightarrow> string" where
  "boundedLine F settings option_name key fallback lo hi = textLine (option_name @ '' '' @ formatInt (boundedInt F (map_of settings key) fallback lo hi))"

definition l2tpPPPOptions :: "floats \<Rightarrow> l2tpRuntimeInbound \<Rightarrow> string" where
  "l2tpPPPOptions F inbound =
     (let settings = liSettings (normalizeL2TPRuntimeInbound inbound);
          unit = (\<lambda>key. if 0 < boundedInt F (map_of settings key) 1410 576 1500 then boundedLine F settings key key 1410 576 1500 else []) in
      textLine ''ipcp-accept-local'' @ textLine ''ipcp-accept-remote'' @ dnsLines F settings
      @ textLine ''asyncmap 0'' @ textLine ''auth'' @ textLine ''require-mschap-v2'' @ textLine ''noccp'' @ textLine ''noipv6'' @ textLine ''name rebecca-l2tp''
      @ unit ''mtu'' @ unit ''mru''
      @ boundedLine F settings ''lcp-echo-interval'' ''lcp_echo_interval'' 30 1 3600
      @ boundedLine F settings ''lcp-echo-failure'' ''lcp_echo_failure'' 4 1 20
      @ textLine ''ipparam rebecca-l2tp'')"

definition userAvailable :: "int \<Rightarrow> vpnRuntimeUser \<Rightarrow> bool" where
  "userAvailable now user = runtimeUserAvailable (vuStatus user) (vuUsedTraffic user) (vuDataLimit user) (vuExpire user) now"

definition chapLine :: "floats \<Rightarrow> string \<Rightarrow> vpnRuntimeUser \<Rightarrow> string" where
  "chapLine F server user = quoteGo (vuVPNUsername user) @ '' '' @ server @ '' '' @ quoteGo (vuPassword user) @ '' ''
     @ firstString F [Some (JStr (vuIPv4Address user)), Some (JStr ''*'')]"

definition hasSecret :: "vpnRuntimeUser \<Rightarrow> bool" where
  "hasSecret user \<longleftrightarrow> trimSpace (vuVPNUsername user) \<noteq> [] \<and> trimSpace (vuPassword user) \<noteq> []"

definition l2tpChapSecrets :: "floats \<Rightarrow> int \<Rightarrow> vpnRuntimeUser list \<Rightarrow> string" where
  "l2tpChapSecrets F now us = concat (map (\<lambda>user. textLine (chapLine F ''rebecca-l2tp'' user)) (filter (\<lambda>user. hasSecret user \<and> userAvailable now user) us))"

definition l2tpUsersFingerprint :: "vpnRuntimeUser list \<Rightarrow> string" where
  "l2tpUsersFingerprint us = concat (map (\<lambda>u. row [formatInt (vuUserID u), vuVPNUsername u, vuPassword u, vuIPv4Address u, vuStatus u,
     optInt (vuDataLimit u), optInt (vuExpire u), formatInt (vuDeviceLimit u)]) us)"

text \<open>The script of L2TP and that of PPTP differ in the name of the table and the pool they fall back to.\<close>

definition pppNFTScript :: "floats \<Rightarrow> string list option \<Rightarrow> string \<Rightarrow> string \<Rightarrow> l2tpRuntimeInbound \<Rightarrow> string" where
  "pppNFTScript F ifaces table pool inbound =
     (if \<not> pppTProxy F inbound then []
      else case ovBlockedDestinations ifaces of (blockedV4, blockedV6) \<Rightarrow>
        textLine (''table inet '' @ table @ '' {'')
        @ textLine ''  chain prerouting {''
        @ textLine ''    type filter hook prerouting priority mangle; policy accept;''
        @ textLine (trimRightChars {newline}
            ((if blockedV4 \<noteq> [] then textLine (''    ip saddr '' @ pool @ '' ip daddr { '' @ joinWith '', '' blockedV4 @ '' } drop'') else [])
             @ (if blockedV6 \<noteq> [] then textLine (''    iifname '' @ quoted ''ppp*'' @ '' ip6 daddr { '' @ joinWith '', '' blockedV6 @ '' } drop'') else [])))
        @ textLine (''    ip saddr '' @ pool @ '' meta mark != 0xff meta l4proto { tcp, udp } tproxy ip to 127.0.0.1:'' @ formatInt (liTunnelPort inbound) @ '' meta mark set 1 accept'')
        @ textLine ''  }''
        @ textLine ''  chain postrouting {''
        @ textLine ''    type nat hook postrouting priority srcnat; policy accept;''
        @ textLine (''    ip saddr '' @ pool @ '' meta l4proto icmp masquerade'')
        @ textLine ''  }'' @ textLine ''}'')"

definition l2tpNFTScript :: "floats \<Rightarrow> string list option \<Rightarrow> l2tpRuntimeInbound \<Rightarrow> string" where
  "l2tpNFTScript F ifaces inbound =
     (let inbound = normalizeL2TPRuntimeInbound inbound in pppNFTScript F ifaces ''rebecca_l2tp'' (l2tpPool F inbound) inbound)"

section \<open>IPsec\<close>

definition ipsecVersion :: "'h host \<Rightarrow> 'h \<Rightarrow> string \<times> 'h" where
  "ipsecVersion H h = (case commandOutput H ''ipsec'' [''--version''] h of (out, h') \<Rightarrow> (toLower out, h'))"

definition l2tpIPSecImplementation :: "'h host \<Rightarrow> 'h \<Rightarrow> string \<times> 'h" where
  "l2tpIPSecImplementation H h = (case ipsecVersion H h of (v, h') \<Rightarrow> (if contains v ''libreswan'' then ''libreswan'' else ''strongswan'', h'))"

text \<open>The first two parts of a word that are both numbers.\<close>

definition wordVersion :: "string \<Rightarrow> (int \<times> int) option" where
  "wordVersion w =
     (case splitOn (trimChars (set ''v,;()[]'') w) ''.'' of
        p # q # _ \<Rightarrow> (case (parseInt 64 p, parseInt 64 q) of (Some major, Some minor) \<Rightarrow> Some (major, minor) | _ \<Rightarrow> None)
      | _ \<Rightarrow> None)"

definition libreswanVersion :: "'h host \<Rightarrow> 'h \<Rightarrow> (int \<times> int) option \<times> 'h" where
  "libreswanVersion H h = (case ipsecVersion H h of (v, h') \<Rightarrow>
     (if contains v ''libreswan'' then (case List.map_filter wordVersion (Prelude.fields v) of [] \<Rightarrow> None | found # _ \<Rightarrow> Some found) else None, h'))"

definition ipsecSupportsModp1024 :: "'h host \<Rightarrow> 'h \<Rightarrow> bool \<times> 'h" where
  "ipsecSupportsModp1024 H h = (case l2tpIPSecImplementation H h of (impl, h') \<Rightarrow>
     if impl \<noteq> ''libreswan'' then (False, h')
     else case hRun H [] ''ipsec'' [''pluto'', ''--selftest''] h' of ((_, out), h'') \<Rightarrow> (contains (toUpper out) ''MODP1024'', h''))"

definition ikeProposals :: "bool \<Rightarrow> string" where
  "ikeProposals modp1024 =
     ''aes256-sha2;modp2048,aes128-sha2;modp2048,aes256-sha1;modp2048,aes128-sha1;modp2048,3des-sha1;modp2048,''
     @ ''aes256-sha2;modp1536,aes128-sha2;modp1536,aes256-sha1;modp1536,aes128-sha1;modp1536,3des-sha1;modp1536,3des-md5;modp1536,''
     @ ''aes256-sha2;dh20,aes256-sha2;dh19,aes128-sha2;dh19''
     @ (if modp1024 then '',aes256-sha2;modp1024,aes128-sha2;modp1024,aes256-sha1;modp1024,aes128-sha1;modp1024,3des-sha1;modp1024,3des-md5;modp1024'' else [])"

definition libreswanText :: "(int \<times> int) option \<Rightarrow> bool \<Rightarrow> int \<Rightarrow> string" where
  "libreswanText v modp1024 l2tpPort =
     textLine ''config setup'' @ textLine ''  uniqueids=no''
     @ (if (case v of None \<Rightarrow> False | Some (major, minor) \<Rightarrow> 4 < major \<or> (major = 4 \<and> 2 \<le> minor)) then textLine ''  ikev1-policy=accept'' else [])
     @ textLine [] @ textLine ''conn rebecca-l2tp-nat'' @ textLine ''  rightsubnet=vhost:%no,%priv'' @ textLine ''  also=rebecca-l2tp'' @ textLine []
     @ textLine ''conn rebecca-l2tp'' @ textLine ''  auto=add'' @ textLine (''  leftprotoport=17/'' @ formatInt l2tpPort) @ textLine ''  rightprotoport=17/%any''
     @ textLine ''  type=transport'' @ textLine ''  authby=secret'' @ textLine ''  encapsulation=yes'' @ textLine ''  pfs=no'' @ textLine ''  rekey=no''
     @ textLine ''  dpddelay=40'' @ textLine ''  dpdtimeout=130''
     @ (if (case v of None \<Rightarrow> False | Some (major, minor) \<Rightarrow> 5 \<le> major) then textLine ''  keyexchange=ikev1'' else textLine ''  keyexchange=ike'' @ textLine ''  ikev2=no'')
     @ textLine (''  ike='' @ ikeProposals modp1024)
     @ textLine ''  phase2alg=aes256-sha2,aes128-sha2,aes256-sha1,aes128-sha1,3des-sha1,aes256-md5,aes128-md5,3des-md5''
     @ textLine ''  left=%defaultroute'' @ textLine ''  right=%any''"

definition l2tpLibreswanConfig :: "'h host \<Rightarrow> int \<Rightarrow> 'h \<Rightarrow> string \<times> 'h" where
  "l2tpLibreswanConfig H l2tpPort h = (case libreswanVersion H h of (v, h1) \<Rightarrow>
     (case ipsecSupportsModp1024 H h1 of (modp1024, h2) \<Rightarrow> (libreswanText v modp1024 l2tpPort, h2)))"

definition strongswanText :: "int \<Rightarrow> string" where
  "strongswanText l2tpPort =
     textLine ''conn rebecca-l2tp'' @ textLine ''  auto=add'' @ textLine ''  keyexchange=ikev1'' @ textLine ''  authby=secret'' @ textLine ''  type=transport''
     @ textLine ''  left=%any'' @ textLine (''  leftprotoport=17/'' @ formatInt l2tpPort) @ textLine ''  right=%any'' @ textLine ''  rightprotoport=17/%any''
     @ textLine ''  rekey=no'' @ textLine ''  forceencaps=yes'' @ textLine ''  fragmentation=yes''
     @ textLine ''  ike=aes256-sha2_256-modp2048,aes128-sha2_256-modp2048,aes256-sha1-modp2048,aes128-sha1-modp2048,3des-sha1-modp2048!''
     @ textLine ''  esp=aes256-sha2_256,aes128-sha2_256,aes256-sha1,aes128-sha1,3des-sha1!''"

definition l2tpIPSecConfig :: "'h host \<Rightarrow> int \<Rightarrow> 'h \<Rightarrow> string \<times> 'h" where
  "l2tpIPSecConfig H l2tpPort h = (case l2tpIPSecImplementation H h of (impl, h') \<Rightarrow>
     if impl = ''libreswan'' then l2tpLibreswanConfig H l2tpPort h' else (strongswanText l2tpPort, h'))"

section \<open>Services\<close>

definition runOptional :: "'h host \<Rightarrow> string \<Rightarrow> string list \<Rightarrow> 'h action" where
  "runOptional H name args h = (case hLook H h name of
       Inl err \<Rightarrow> (Some err, h)
     | Inr path \<Rightarrow> runChecked H [] path args (name @ '' '' @ joinWith '' '' args) h)"

text \<open>\<open>pgrep -x\<close>: a process with this name runs.\<close>

definition processRuns :: "'h host \<Rightarrow> string \<Rightarrow> 'h \<Rightarrow> bool \<times> 'h" where
  "processRuns H name h = (case hRun H [] ''pgrep'' [''-x'', name] h of ((err, _), h') \<Rightarrow> (err = None, h'))"

definition ipsecRuns :: "'h host \<Rightarrow> 'h \<Rightarrow> bool \<times> 'h" where
  "ipsecRuns H h = (case processRuns H ''charon'' h of (True, h') \<Rightarrow> (True, h') | (False, h') \<Rightarrow> processRuns H ''pluto'' h')"

definition l2tpServicesRunning :: "'h host \<Rightarrow> 'h \<Rightarrow> bool \<times> 'h" where
  "l2tpServicesRunning H h = (case ipsecRuns H h of (ipsecRunning, h1) \<Rightarrow>
     (case processRuns H ''xl2tpd'' h1 of (r, h2) \<Rightarrow> (r \<and> ipsecRunning, h2)))"

fun waitGone :: "'h host \<Rightarrow> string \<Rightarrow> nat \<Rightarrow> 'h \<Rightarrow> bool \<times> 'h" where
  "waitGone H name 0 h = (False, h)"
| "waitGone H name (Suc n) h = (case processRuns H name h of (False, h') \<Rightarrow> (True, h') | (True, h') \<Rightarrow> waitGone H name n (hSleep H 50 h'))"

definition stopL2TPService :: "'h host \<Rightarrow> 'h action" where
  "stopL2TPService H =
     thenDo (\<lambda>h. ignoring (if commandExists H h ''systemctl'' then runOptional H ''systemctl'' [''stop'', ''xl2tpd''] else runOptional H ''service'' [''xl2tpd'', ''stop'']) h)
     (thenDo (runQuiet H ''pkill'' [''-TERM'', ''-x'', ''xl2tpd''])
     (\<lambda>h. case waitGone H ''xl2tpd'' 40 h of (True, h') \<Rightarrow> (None, h') | (False, h') \<Rightarrow> runQuiet H ''pkill'' [''-KILL'', ''-x'', ''xl2tpd''] h'))"

text \<open>The service is started by \<open>systemctl\<close>, or by \<open>service\<close> when that is not there or fails.\<close>

definition orService :: "'h host \<Rightarrow> string list \<Rightarrow> string list \<Rightarrow> 'h action" where
  "orService H systemctlArgs serviceArgs h =
     (if commandExists H h ''systemctl'' then
        (case runOptional H ''systemctl'' systemctlArgs h of (None, h') \<Rightarrow> (None, h') | (Some _, h') \<Rightarrow> runOptional H ''service'' serviceArgs h')
      else runOptional H ''service'' serviceArgs h)"

definition restartL2TPServices :: "'h host \<Rightarrow> 'h action" where
  "restartL2TPServices H =
     thenDo (\<lambda>h. case ipsecRuns H h of
         (False, h') \<Rightarrow> runOptional H ''ipsec'' [''start''] h'
       | (True, h') \<Rightarrow> thenDo (runOptional H ''ipsec'' [''rereadsecrets'']) (runOptional H ''ipsec'' [''reload'']) h')
     (thenDo (stopL2TPService H) (orService H [''start'', ''xl2tpd''] [''xl2tpd'', ''start'']))"

definition fileSnapshot :: "'h host \<Rightarrow> string list \<Rightarrow> 'h \<Rightarrow> string" where
  "fileSnapshot H paths h = concat (map (\<lambda>path. path @ [CHR 0x00] @ readText H h path @ [CHR 0x00]) paths)"

definition l2tpSystemConfigSnapshot :: "'h host \<Rightarrow> 'h \<Rightarrow> string" where
  "l2tpSystemConfigSnapshot H = fileSnapshot H [''/etc/ipsec.conf'', ''/etc/ipsec.secrets'', ''/etc/xl2tpd/xl2tpd.conf'']"

section \<open>Prerequisites\<close>

definition l2tpTools :: "string list" where
  "l2tpTools = [''ipsec'', ''xl2tpd'', ''pppd'', ''nft'', ''ip'', ''iptables'']"

definition debianReady :: "'h host \<Rightarrow> string \<Rightarrow> 'h \<Rightarrow> bool \<times> 'h" where
  "debianReady H name h = (case hRun H [] ''dpkg-query'' [''-W'', ''-f=${db:Status-Abbrev}'', name] h of ((err, out), h') \<Rightarrow> (err = None \<and> hasPrefix out ''ii '', h'))"

definition l2tpDebianPackagesReady :: "'h host \<Rightarrow> 'h \<Rightarrow> bool \<times> 'h" where
  "l2tpDebianPackagesReady H h = (case debianReady H ''strongswan-starter'' h of (False, h') \<Rightarrow> (False, h') | (True, h') \<Rightarrow> debianReady H ''strongswan'' h')"

definition aptInstall :: "'h host \<Rightarrow> string list \<Rightarrow> 'h action" where
  "aptInstall H packages = aptGet H ([''install'', ''-y'', ''--no-install-recommends''] @ packages)"

definition configureDpkg :: "'h host \<Rightarrow> 'h action" where
  "configureDpkg H h = (if commandExists H h ''dpkg'' then runInstallCommand H noninteractive ''dpkg'' [''--configure'', ''-a''] h else (None, h))"

definition l2tpPackages :: "string \<Rightarrow> string \<Rightarrow> string list" where
  "l2tpPackages ipsec iproute = [ipsec, ''xl2tpd'', ''ppp'', ''nftables'', iproute, ''iptables'', ''kmod'']"

definition aptL2TP :: "'h host \<Rightarrow> 'h action" where
  "aptL2TP H = thenDo (configureDpkg H) (thenDo (aptGet H [''update''])
     (\<lambda>h. case ipsecVersion H h of (v, h1) \<Rightarrow>
        if contains v ''strongswan'' then aptInstall H (l2tpPackages ''strongswan'' ''iproute2'') h1
        else (case aptInstall H (l2tpPackages ''libreswan'' ''iproute2'') h1 of
            (None, h2) \<Rightarrow> (None, h2)
          | (Some _, h2) \<Rightarrow> aptInstall H (l2tpPackages ''strongswan'' ''iproute2'') h2)))"

definition installL2TPPackages :: "'h host \<Rightarrow> 'h action" where
  "installL2TPPackages H h =
     (if \<not> hRoot H then (Some ''L2TP prerequisites are missing and automatic install requires root'', h)
      else if commandExists H h ''apt-get'' then aptL2TP H h
      else if commandExists H h ''dnf'' then runInstallCommand H [] ''dnf'' ([''install'', ''-y''] @ l2tpPackages ''libreswan'' ''iproute'') h
      else if commandExists H h ''yum'' then runInstallCommand H [] ''yum'' ([''install'', ''-y''] @ l2tpPackages ''libreswan'' ''iproute'') h
      else if commandExists H h ''apk'' then runInstallCommand H [] ''apk'' ([''add''] @ l2tpPackages ''strongswan'' ''iproute2'') h
      else (Some ''L2TP prerequisites are missing and no supported package manager was found'', h))"

text \<open>Modules that must load, then modules that may fail.\<close>

definition modprobes :: "'h host \<Rightarrow> string list \<Rightarrow> string list \<Rightarrow> 'h action" where
  "modprobes H needed optional =
     (if hGOOS H \<noteq> ''linux'' then skip
      else thenDo (doAll (map (\<lambda>m. runChecked H [] ''modprobe'' [m] (''load kernel module '' @ m)) needed))
        (doAll (map (\<lambda>m. runQuiet H ''modprobe'' [m]) optional)))"

definition loadL2TPKernelModules :: "'h host \<Rightarrow> 'h action" where
  "loadL2TPKernelModules H = modprobes H [''ppp_generic'', ''pppox'', ''l2tp_ppp''] [''pppol2tp'', ''af_key'', ''nf_tproxy_ipv4'']"

definition aptKernelModules :: "'h host \<Rightarrow> string \<Rightarrow> 'h action" where
  "aptKernelModules H release = thenDo (ignoring (configureDpkg H)) (thenDo (aptGet H [''update''])
     (if release = [] then fail ''kernel release is empty''
      else (\<lambda>h. case aptInstall H [''linux-modules-extra-'' @ release] h of
          (None, h1) \<Rightarrow> (None, h1)
        | (Some err, h1) \<Rightarrow> (case aptInstall H [''linux-generic''] h1 of
              (Some fallbackErr, h2) \<Rightarrow> (Some (err @ ''; fallback linux-generic install failed: '' @ fallbackErr), h2)
            | (None, h2) \<Rightarrow> (Some (err @ ''; installed generic kernel module packages, reboot into the new kernel is required''), h2)))))"

definition installL2TPKernelModulePackages :: "'h host \<Rightarrow> 'h action" where
  "installL2TPKernelModulePackages H h =
     (if \<not> hRoot H then (Some ''automatic kernel module package install requires root'', h)
      else case commandOutput H ''uname'' [''-r''] h of (out, h') \<Rightarrow>
        let release = trimSpace out in
        if commandExists H h' ''apt-get'' then aptKernelModules H release h'
        else if commandExists H h' ''dnf'' then runInstallCommand H [] ''dnf'' [''install'', ''-y'', ''kernel-modules-extra''] h'
        else if commandExists H h' ''yum'' then runInstallCommand H [] ''yum'' [''install'', ''-y'', ''kernel-modules-extra''] h'
        else (Some ''no supported package manager was found'', h'))"

definition ensureL2TPPrerequisites :: "'h host \<Rightarrow> 'h action" where
  "ensureL2TPPrerequisites H =
     (if hGOOS H \<noteq> ''linux'' then skip
      else thenDo (\<lambda>h. if commandExists H h ''dpkg-query'' \<and> commandExists H h ''ipsec'' then
            (case l2tpDebianPackagesReady H h of
               (True, h') \<Rightarrow> (None, h')
             | (False, h') \<Rightarrow> runInstallCommand H noninteractive ''dpkg'' [''--configure'', ''strongswan-starter'', ''strongswan''] h')
          else (None, h))
        (thenDo (\<lambda>h. if missingExecutables H h l2tpTools \<noteq> [] then installL2TPPackages H h else (None, h))
        (thenDo (requireTools H ''L2TP'' l2tpTools)
        (\<lambda>h. case loadL2TPKernelModules H h of
            (None, h1) \<Rightarrow> (None, h1)
          | (Some err, h1) \<Rightarrow> (case installL2TPKernelModulePackages H h1 of
                (Some installErr, h2) \<Rightarrow> (Some (err @ ''; automatic kernel module package install failed: '' @ installErr), h2)
              | (None, h2) \<Rightarrow> loadL2TPKernelModules H h2)))))"

section \<open>Sessions\<close>

definition killL2TPProcess :: "'h host \<Rightarrow> string \<Rightarrow> 'h action" where
  "killL2TPProcess H pid = (if pid = [] \<or> parseInt 64 pid = None then skip else runQuiet H ''kill'' [''-TERM'', pid])"

definition deleteL2TPInterface :: "'h host \<Rightarrow> string \<Rightarrow> 'h action" where
  "deleteL2TPInterface H ifname =
     (if ifname = [] \<or> (\<exists>c \<in> set ifname. c \<in> {CHR ''/'', CHR '' '', tab, CHR 0x0D, newline}) then skip
      else (\<lambda>h. case hLook H h ''ip'' of Inl _ \<Rightarrow> (None, h) | Inr ip \<Rightarrow> runQuiet H ip [''link'', ''delete'', ifname] h))"

text \<open>The lines of the file that are looked at, and of those the ones that stay.\<close>

definition sessionLines :: "string \<Rightarrow> string list" where
  "sessionLines raw = filter (\<lambda>l. l \<noteq> [] \<and> 2 \<le> length (splitOn l [tab])) (map trimSpace (splitOn raw [newline]))"

definition sessionUser :: "string \<Rightarrow> string" where
  "sessionUser l = trimSpace (hd (splitOn l [tab]))"

definition endSession :: "'h host \<Rightarrow> string \<Rightarrow> 'h action" where
  "endSession H l = (let parts = splitOn l [tab] in
     thenDo (if 3 \<le> length parts then killL2TPProcess H (trimSpace (parts ! 2)) else skip) (deleteL2TPInterface H (trimSpace (parts ! 1))))"

definition allowedNames :: "(vpnRuntimeUser \<Rightarrow> bool) \<Rightarrow> vpnRuntimeUser list \<Rightarrow> string list" where
  "allowedNames P us = map (trimSpace \<circ> vuVPNUsername) (filter (\<lambda>u. trimSpace (vuVPNUsername u) \<noteq> [] \<and> P u) us)"

definition disconnectOthers :: "'h host \<Rightarrow> string \<Rightarrow> string list \<Rightarrow> 'h action" where
  "disconnectOthers H baseDir allowed h =
     (let path = joinPath [baseDir, ''sessions.tsv''] in
      case hRead H h path of
        Inl _ \<Rightarrow> (None, h)
      | Inr raw \<Rightarrow>
          thenDo (doAll (map (endSession H) (filter (\<lambda>l. sessionUser l \<notin> set allowed) (sessionLines raw))))
            (ignoring (hWrite H path (concat (map textLine (filter (\<lambda>l. sessionUser l \<in> set allowed) (sessionLines raw)))) 384)) h)"

definition l2tpDisconnectStaleSessions :: "'h host \<Rightarrow> string \<Rightarrow> int \<Rightarrow> vpnRuntimeUser list \<Rightarrow> 'h action" where
  "l2tpDisconnectStaleSessions H baseDir now us =
     (if hGOOS H = ''windows'' then skip else disconnectOthers H baseDir (allowedNames (userAvailable now) us))"

section \<open>Applying a runtime\<close>

text \<open>
  What stays open: the texts of the scripts \<open>ip-up\<close> and \<open>ip-down\<close> (shell programs that pppd runs, given the paths they use and the
  tag), the JSON text of a runtime, the addresses of the host, the time.
\<close>

record l2tpEnv =
  leFloats :: floats
  leIPUp :: "string list \<Rightarrow> string"
  leIPDown :: "string list \<Rightarrow> string"
  leEncode :: "l2tpRuntime \<Rightarrow> string + string"
  leDecode :: "string \<Rightarrow> l2tpRuntime option"
  leIfaces :: "string list option"
  leNow :: int

definition inDir :: "string \<Rightarrow> string \<Rightarrow> string" where
  "inDir baseDir name = joinPath [baseDir, name]"

definition vpnSessionsPath :: "string \<Rightarrow> string" where
  "vpnSessionsPath baseDir = joinPath [dir baseDir, ''vpn-sessions.tsv'']"

definition upText :: "l2tpEnv \<Rightarrow> string \<Rightarrow> string \<Rightarrow> string" where
  "upText E baseDir tg = leIPUp E (map (inDir baseDir) [''users.tsv'', ''usage.tsv'', ''sessions.tsv'', ''session-callback.env''] @ [vpnSessionsPath baseDir, tg])"

definition downText :: "l2tpEnv \<Rightarrow> string \<Rightarrow> string \<Rightarrow> string" where
  "downText E baseDir tg = leIPDown E (map (inDir baseDir) [''users.tsv'', ''usage.tsv'', ''accounting.tsv'', ''sessions.tsv'', ''session-callback.env''] @ [vpnSessionsPath baseDir, tg])"

definition l2tpCurrentRuntime :: "l2tpEnv \<Rightarrow> 'h host \<Rightarrow> string \<Rightarrow> 'h \<Rightarrow> l2tpRuntime option" where
  "l2tpCurrentRuntime E H baseDir h = (case hRead H h (inDir baseDir ''runtime.json'') of Inl _ \<Rightarrow> None | Inr raw \<Rightarrow> leDecode E raw)"

definition l2tpWriteInbound :: "l2tpEnv \<Rightarrow> 'h host \<Rightarrow> string \<Rightarrow> l2tpRuntimeInbound \<Rightarrow> vpnSessionCallback option \<Rightarrow> 'h action" where
  "l2tpWriteInbound E H baseDir inbound0 callback =
     (let inbound = normalizeL2TPRuntimeInbound inbound0; tg = liTag inbound in
      thenDo (hMkdirAll H baseDir 448)
      (thenDo (writeVPNSessionCallback H (inDir baseDir ''session-callback.env'') callback)
      (thenDo (hWrite H (inDir baseDir ''users.tsv'') (vpnUsersTSV (liUsers inbound)) 384)
      (thenDo (hWrite H (inDir baseDir ''nftables.nft'') (l2tpNFTScript (leFloats E) (leIfaces E) inbound) 384)
      (thenDo (hWrite H (inDir baseDir ''ip-down.sh'') (downText E baseDir tg) 448)
      (thenDo (hWrite H (inDir baseDir ''ip-up.sh'') (upText E baseDir tg) 448)
      (hWrite H (inDir baseDir ''options.xl2tpd'') (l2tpPPPOptions (leFloats E) inbound) 384)))))))"

text \<open>The rules of a PPP daemon: \<open>vpn\<close> names the comments and the table, \<open>label\<close> the messages.\<close>

definition pppRules :: "'h host \<Rightarrow> string list option \<Rightarrow> string \<Rightarrow> string \<Rightarrow> string \<Rightarrow> string \<Rightarrow> string \<Rightarrow> bool \<Rightarrow> 'h action" where
  "pppRules H ifaces baseDir vpn label tg pool tproxy =
     (let table = ''rebecca_'' @ vpn in
      if tproxy then
        thenDo (enableVPNTProxyHostNetworking H [pool])
        (\<lambda>h. case hLook H h ''nft'' of
            Inl _ \<Rightarrow> (Some ''nft executable not found'', h)
          | Inr nft \<Rightarrow>
              thenDo (runQuiet H nft [''delete'', ''table'', ''inet'', table])
              (thenDo (runChecked H [] nft [''-f'', inDir baseDir ''nftables.nft''] (''apply '' @ label @ '' nftables '' @ tg))
              (thenDo (applyTProxyRouting H) (ignoring (vpnRemoveDirectNAT H vpn)))) h)
      else thenDo (dropTable H table)
        (failing (\<lambda>err. ''apply '' @ label @ '' direct NAT '' @ tg @ '': '' @ err) (vpnApplyDirectNAT H ifaces vpn ''ppp+'' pool)))"

definition xl2tpdConf :: "string \<Rightarrow> string \<Rightarrow> string \<Rightarrow> string" where
  "xl2tpdConf baseDir ipRange localIP =
     textLine ''[global]'' @ textLine (''port = '' @ formatInt l2tpFixedPort) @ textLine ''access control = no'' @ textLine []
     @ textLine ''[lns rebecca-l2tp]'' @ textLine ''lac = 0.0.0.0 - 255.255.255.255'' @ textLine (''ip range = '' @ ipRange) @ textLine (''local ip = '' @ localIP)
     @ textLine (''pppoptfile = '' @ inDir baseDir ''options.xl2tpd'') @ textLine ''length bit = yes''"

definition ipsecStart :: string where "ipsecStart = ''# BEGIN REBECCA L2TP IPSEC''"
definition ipsecStop :: string where "ipsecStop = ''# END REBECCA L2TP IPSEC''"
definition l2tpUsersStart :: string where "l2tpUsersStart = ''# BEGIN REBECCA L2TP USERS''"
definition l2tpUsersStop :: string where "l2tpUsersStop = ''# END REBECCA L2TP USERS''"

definition l2tpWriteSystemConfig :: "l2tpEnv \<Rightarrow> 'h host \<Rightarrow> string \<Rightarrow> l2tpRuntimeInbound \<Rightarrow> 'h action" where
  "l2tpWriteSystemConfig E H baseDir inbound0 =
     (let inbound = normalizeL2TPRuntimeInbound inbound0; tg = liTag inbound; F = leFloats E; psk = firstString F [map_of (liSettings inbound) ''ipsec_psk''];
          (localIP, ipRange) = l2tpPoolRange (l2tpPool F inbound) in
      thenDo (\<lambda>h. case l2tpIPSecConfig H l2tpFixedPort h of (ipsecBlock, h') \<Rightarrow>
          failing (\<lambda>err. ''update /etc/ipsec.conf: '' @ err) (updateManagedBlock H ''/etc/ipsec.conf'' ipsecStart ipsecStop ipsecBlock) h')
      (thenDo (failing (\<lambda>err. ''update /etc/ipsec.secrets: '' @ err)
          (updateManagedBlock H ''/etc/ipsec.secrets'' ipsecStart ipsecStop (textLine (''%any %any : PSK '' @ quoteGo psk))))
      (thenDo (hMkdirAll H ''/etc/xl2tpd'' 493)
      (thenDo (failing (\<lambda>err. ''write /etc/xl2tpd/xl2tpd.conf: '' @ err) (hWrite H ''/etc/xl2tpd/xl2tpd.conf'' (xl2tpdConf baseDir ipRange localIP) 384))
      (thenDo (updateManagedBlock H ''/etc/ppp/chap-secrets'' l2tpUsersStart l2tpUsersStop (l2tpChapSecrets F (leNow E) (liUsers inbound)))
      (thenDo (hMkdirAll H ''/etc/ppp/ip-up.d'' 493)
      (thenDo (failing (\<lambda>err. ''write /etc/ppp/ip-up.d/rebecca-l2tp-sessions: '' @ err) (hWrite H ''/etc/ppp/ip-up.d/rebecca-l2tp-sessions'' (upText E baseDir tg) 448))
      (thenDo (hMkdirAll H ''/etc/ppp/ip-down.d'' 493)
      (hWrite H ''/etc/ppp/ip-down.d/rebecca-l2tp-accounting'' (downText E baseDir tg) 448)))))))))"

definition l2tpApplyInbound :: "l2tpEnv \<Rightarrow> 'h host \<Rightarrow> string \<Rightarrow> l2tpRuntimeInbound \<Rightarrow> 'h action" where
  "l2tpApplyInbound E H baseDir inbound0 =
     (let inbound = normalizeL2TPRuntimeInbound inbound0; F = leFloats E; tg = liTag inbound in
      if hGOOS H = ''windows'' then skip
      else if firstString F [map_of (liSettings inbound) ''ipsec_psk''] = [] then fail (''L2TP inbound '' @ tg @ '' requires ipsec_psk'')
      else (\<lambda>h. let before = l2tpSystemConfigSnapshot H h in
        thenDo (pppRules H (leIfaces E) baseDir ''l2tp'' ''L2TP'' tg (l2tpPool F inbound) (pppTProxy F inbound))
        (thenDo (l2tpWriteSystemConfig E H baseDir inbound)
        (\<lambda>h. if before \<noteq> l2tpSystemConfigSnapshot H h then restartL2TPServices H h
              else case l2tpServicesRunning H h of (True, h') \<Rightarrow> (None, h') | (False, h') \<Rightarrow> restartL2TPServices H h')) h))"

definition emptySessions :: "'h host \<Rightarrow> string \<Rightarrow> 'h action" where
  "emptySessions H baseDir = ignoring (hWrite H (inDir baseDir ''sessions.tsv'') [] 384)"

definition l2tpStop :: "'h host \<Rightarrow> string \<Rightarrow> 'h action" where
  "l2tpStop H baseDir =
     (if hGOOS H = ''windows'' then skip
      else thenDo (ignoring (updateManagedBlock H ''/etc/ipsec.conf'' ipsecStart ipsecStop []))
        (thenDo (ignoring (updateManagedBlock H ''/etc/ipsec.secrets'' ipsecStart ipsecStop []))
        (thenDo (ignoring (runOptional H ''ipsec'' [''rereadsecrets'']))
        (thenDo (ignoring (runOptional H ''ipsec'' [''reload'']))
        (thenDo (stopL2TPService H)
        (thenDo (dropTable H ''rebecca_l2tp'')
        (thenDo (ignoring (vpnRemoveDirectNAT H ''l2tp''))
        (emptySessions H baseDir))))))))"

text \<open>The users of the runtime that was applied last, empty when there is none.\<close>

definition previousFingerprint :: "l2tpEnv \<Rightarrow> 'h host \<Rightarrow> string \<Rightarrow> 'h \<Rightarrow> string" where
  "previousFingerprint E H baseDir h =
     (case l2tpCurrentRuntime E H baseDir h of
        Some previous \<Rightarrow> (case lrInbounds previous of [] \<Rightarrow> [] | x # _ \<Rightarrow> l2tpUsersFingerprint (liUsers x))
      | None \<Rightarrow> [])"

definition normalizeFirst :: "l2tpRuntime \<Rightarrow> l2tpRuntime" where
  "normalizeFirst r = (case lrInbounds r of [] \<Rightarrow> r | x # xs \<Rightarrow> r\<lparr>lrInbounds := normalizeL2TPRuntimeInbound x # xs\<rparr>)"

definition l2tpApplyFirst :: "l2tpEnv \<Rightarrow> 'h host \<Rightarrow> string \<Rightarrow> string \<Rightarrow> l2tpRuntime \<Rightarrow> 'h action" where
  "l2tpApplyFirst E H baseDir previous r =
     (case lrInbounds r of
        [] \<Rightarrow> l2tpStop H baseDir
      | inbound # _ \<Rightarrow>
          thenDo (l2tpWriteInbound E H baseDir inbound (lrSessionCallback r))
          (thenDo (if previous = [] \<or> previous \<noteq> l2tpUsersFingerprint (liUsers inbound)
                   then l2tpDisconnectStaleSessions H baseDir (leNow E) (liUsers inbound) else skip)
          (l2tpApplyInbound E H baseDir inbound)))"

definition l2tpApply :: "l2tpEnv \<Rightarrow> 'h host \<Rightarrow> string \<Rightarrow> string \<Rightarrow> l2tpRuntime option \<Rightarrow> 'h action" where
  "l2tpApply E H baseDir installMode rc =
     (case rc of None \<Rightarrow> skip
      | Some r0 \<Rightarrow>
          if lrInbounds r0 \<noteq> [] \<and> installMode \<noteq> ''binary'' then fail ''L2TP/IPsec is supported only on binary Rebecca-node installs''
          else if 1 < length (lrInbounds r0) then fail ''only one L2TP/IPsec inbound is supported per node because IPsec UDP 500/4500 are node-wide ports''
          else let r = normalizeFirst r0 in
            thenDo (if lrInbounds r \<noteq> [] then ensureL2TPPrerequisites H else skip)
            (thenDo (hMkdirAll H baseDir 448)
            (\<lambda>h. let previous = previousFingerprint E H baseDir h in
               (case leEncode E r of
                  Inl err \<Rightarrow> fail err
                | Inr raw \<Rightarrow> thenDo (hWrite H (inDir baseDir ''runtime.json'') raw 384) (l2tpApplyFirst E H baseDir previous r)) h)))"

section \<open>Fingerprints\<close>

lemma formatInt_inject: "formatInt i = formatInt j \<Longrightarrow> i = j"
proof -
  have d: "CHR ''-'' \<notin> set (formatUint n)" for n using formatUint_digits [of "CHR ''-''" n] by auto
  assume "formatInt i = formatInt j"
  then show ?thesis using d [of "nat i"] d [of "nat j"] formatUint_inject [of "nat (- i)" "nat (- j)"] formatUint_inject [of "nat i" "nat j"]
    by (auto simp: formatInt_def split: if_splits) (metis list.set_intros(1))+
qed

lemma optInt_inject: "optInt v = optInt w \<Longrightarrow> v = w"
  using formatInt_graphic(2) formatInt_graphic(2) [symmetric] by (cases v; cases w) (auto simp: optInt_def dest: formatInt_inject)

definition printUser :: "vpnRuntimeUser \<Rightarrow> string list" where
  "printUser u = [formatInt (vuUserID u), vuVPNUsername u, vuPassword u, vuIPv4Address u, vuStatus u,
     optInt (vuDataLimit u), optInt (vuExpire u), formatInt (vuDeviceLimit u)]"

definition accessOf :: "vpnRuntimeUser \<Rightarrow> int \<times> string \<times> string \<times> string \<times> string \<times> int option \<times> int option \<times> int" where
  "accessOf u = (vuUserID u, vuVPNUsername u, vuPassword u, vuIPv4Address u, vuStatus u, vuDataLimit u, vuExpire u, vuDeviceLimit u)"

definition plainUser :: "vpnRuntimeUser \<Rightarrow> bool" where
  "plainUser u \<longleftrightarrow> plainField (vuVPNUsername u) \<and> plainField (vuPassword u) \<and> plainField (vuIPv4Address u) \<and> plainField (vuStatus u)"

lemma printUser_inject: "printUser u = printUser v \<Longrightarrow> accessOf u = accessOf v"
  by (auto simp: printUser_def accessOf_def dest: formatInt_inject optInt_inject)

lemma map_coarser: "(\<And>u v. f u = f v \<Longrightarrow> g u = g v) \<Longrightarrow> map f us = map f vs \<Longrightarrow> map g us = map g vs"
proof (induction us arbitrary: vs)
  case (Cons u us)
  obtain v ws where vs: "vs = v # ws" "f u = f v" "map f us = map f ws" using Cons.prems(2) by (cases vs) auto
  show ?case using Cons.IH [OF Cons.prems(1) vs(3)] Cons.prems(1) [OF vs(2)] vs(1) by simp
qed simp

lemma fingerprint_rows: "\<forall>u \<in> set us. plainUser u \<Longrightarrow> trimmedRows (l2tpUsersFingerprint us) = map printUser us @ [[[]]]"
proof -
  assume p: "\<forall>u \<in> set us. plainUser u"
  have "lineOk (printUser u)" if "u \<in> set us" for u
  proof -
    have "lineOk (formatInt (vuUserID u) # [vuVPNUsername u, vuPassword u, vuIPv4Address u, vuStatus u, optInt (vuDataLimit u), optInt (vuExpire u)] @ [formatInt (vuDeviceLimit u)])"
      using p that formatInt_graphic(2) formatInt_graphic(1) [OF hd_in_set [OF formatInt_graphic(2)]] by (intro lineOk_row) (simp_all add: plainUser_def)
    then show ?thesis by (simp add: printUser_def)
  qed
  from trimmedRows_rows [OF this, of us] show ?thesis by (simp add: l2tpUsersFingerprint_def printUser_def)
qed

text \<open>
  The fingerprint by which \<open>Apply\<close> decides whether sessions have to be checked tells any two lists of users apart that differ
  in an identifier, a name, a password, an address, a status or a limit, for texts without tabs and line breaks.
\<close>

theorem l2tp_fingerprint_exact:
  assumes "\<forall>u \<in> set us \<union> set vs. plainUser u"
  shows "l2tpUsersFingerprint us = l2tpUsersFingerprint vs \<longleftrightarrow> map accessOf us = map accessOf vs"
proof
  assume "l2tpUsersFingerprint us = l2tpUsersFingerprint vs"
  then have "map printUser us = map printUser vs" using fingerprint_rows [of us] fingerprint_rows [of vs] assms by simp
  then show "map accessOf us = map accessOf vs" using map_coarser [of printUser accessOf, OF printUser_inject] by blast
next
  have fp: "l2tpUsersFingerprint ws = concat (map row (map printUser ws))" for ws by (simp add: l2tpUsersFingerprint_def printUser_def comp_def)
  have pr: "printUser u = printUser v" if "accessOf u = accessOf v" for u v using that by (simp add: accessOf_def printUser_def)
  assume "map accessOf us = map accessOf vs"
  then show "l2tpUsersFingerprint us = l2tpUsersFingerprint vs" unfolding fp using map_coarser [of accessOf printUser, OF pr] by metis
qed

section \<open>Secrets\<close>

lemma quoteChar_line: "newline \<notin> set (quoteChar c)"
proof -
  let ?n = "of_char c :: nat"
  have hex: "lowerHex k \<noteq> newline" if "k < 16" for k
  proof -
    have "(of_char (lowerHex k) :: nat) \<in> {48 + k, 87 + k}" using that by (simp add: lowerHex_def take_bit_eq_mod)
    then show ?thesis by auto
  qed
  have "''abtnvfr'' ! k \<in> set ''abtnvfr''" if "k < 7" for k using that by (intro nth_mem) simp
  then have "''abtnvfr'' ! (?n - 7) \<in> set ''abtnvfr''" if "7 \<le> ?n" "?n \<le> 13" using that by simp
  then have "newline \<noteq> ''abtnvfr'' ! (?n - 7)" if "7 \<le> ?n" "?n \<le> 13" using that by auto
  moreover have "c = newline \<Longrightarrow> ?n = 10" by simp
  moreover have "?n < 256" by simp
  then have "lowerHex (?n div 16) \<noteq> newline" "lowerHex (?n mod 16) \<noteq> newline" by (intro hex; simp add: less_mult_imp_div_less)+
  ultimately show ?thesis by (auto simp: quoteChar_def Let_def)
qed

lemma quoteGo_line: "newline \<notin> set (quoteGo s)"
  using quoteChar_line by (auto simp: quoteGo_def)

lemma chapLine_line: "newline \<notin> set (vuIPv4Address u) \<Longrightarrow> newline \<notin> set server \<Longrightarrow> newline \<notin> set (chapLine F server u) \<and> chapLine F server u \<noteq> []"
  using quoteGo_line trimSpace_set [of "vuIPv4Address u"] trimSpace_set [of "''*''"] by (auto simp: chapLine_def settingText_def Let_def quoteGo_def)

lemma entries_lines: "\<forall>l \<in> set ls. newline \<notin> set l \<and> l \<noteq> [] \<Longrightarrow> entries (concat (map textLine ls)) = ls"
  by (induction ls) (simp_all add: textLine_def entries_line_append)

lemma l2tp_secret_lines:
  assumes "\<forall>u \<in> set us. newline \<notin> set (vuIPv4Address u)"
  shows "entries (l2tpChapSecrets F now us) = map (chapLine F ''rebecca-l2tp'') (filter (\<lambda>u. hasSecret u \<and> userAvailable now u) us)"
proof -
  let ?ls = "map (chapLine F ''rebecca-l2tp'') (filter (\<lambda>u. hasSecret u \<and> userAvailable now u) us)"
  have "\<forall>l \<in> set ?ls. newline \<notin> set l \<and> l \<noteq> []" using assms by (auto simp: chapLine_line)
  from entries_lines [OF this] show ?thesis by (simp add: l2tpChapSecrets_def comp_def)
qed

text \<open>A file of the host: programs and writes of other files leave it, and a write that succeeds gives it its content.\<close>

definition fileLaws :: "'h host \<Rightarrow> string \<Rightarrow> bool" where
  "fileLaws H path \<longleftrightarrow> (\<forall>env command args. keeping (\<lambda>h. hRead H h path) (hRun H env command args))
     \<and> filesKeep H (\<lambda>h. hRead H h path) (\<lambda>p. p \<noteq> path)
     \<and> (\<forall>content mode h h'. hWrite H path content mode h = (None, h') \<longrightarrow> hRead H h' path = Inr content)"

lemma fileLawsD:
  assumes "fileLaws H path"
  shows "keeping (\<lambda>h. hRead H h path) (hRun H env command args)" and "filesKeep H (\<lambda>h. hRead H h path) (\<lambda>p. p \<noteq> path)"
    and "hWrite H path content mode h = (None, h') \<Longrightarrow> hRead H h' path = Inr content"
  using assms unfolding fileLaws_def by blast+

lemma keeping_block: "filesKeep H view P \<Longrightarrow> P path \<Longrightarrow> keeping view (updateManagedBlock H path start stop body)"
  using filesKeepD(1) unfolding keeping_def updateManagedBlock_def by metis

lemma keeping_ipsecConfig:
  assumes "\<And>env command args. keeping view (hRun H env command args)"
  shows "keeping view (l2tpIPSecConfig H port)"
proof -
  have k: "view h' = view h" if "hRun H env command args h = (r, h')" for env command args r h h' using keepingD [OF assms that] .
  have v: "view h' = view h" if "ipsecVersion H h = (r, h')" for r h h'
    using that unfolding ipsecVersion_def commandOutput_def by (auto split: prod.splits option.splits dest!: k)
  have i: "view h' = view h" if "l2tpIPSecImplementation H h = (r, h')" for r h h'
    using that unfolding l2tpIPSecImplementation_def by (auto split: prod.splits dest!: v)
  have "view h' = view h" if "ipsecSupportsModp1024 H h = (r, h')" for r h h'
    using that unfolding ipsecSupportsModp1024_def by (auto split: prod.splits if_splits dest!: i k)
  then show ?thesis unfolding keeping_def l2tpIPSecConfig_def l2tpLibreswanConfig_def libreswanVersion_def
    by (auto split: prod.split dest!: i v)
qed

lemma block_updated:
  assumes "fileLaws H path" and "keeping (\<lambda>h. hRead H h path) before" and "keeping (\<lambda>h. hRead H h path) after"
    and "thenDo before (thenDo (updateManagedBlock H path start stop body) after) h = (None, h')"
  shows "hRead H h' path = Inr (replaceBlock start stop body (readText H h path))"
proof -
  obtain h1 h2 where s: "before h = (None, h1)" "updateManagedBlock H path start stop body h1 = (None, h2)" "after h2 = (None, h')"
    using assms(4) by (meson thenDo_ok)
  have "hRead H h1 path = hRead H h path" "hRead H h' path = hRead H h2 path" using keepingD [OF assms(2) s(1)] keepingD [OF assms(3) s(3)] by simp_all
  then show ?thesis using fileLawsD(3) [OF assms(1)] s(2) by (simp add: updateManagedBlock_def readText_def)
qed

definition chapSecrets :: string where
  "chapSecrets = ''/etc/ppp/chap-secrets''"

text \<open>
  After the files of the system were written the secrets of L2TP in \<open>/etc/ppp/chap-secrets\<close> are one line for each available user
  that has a name and a password, whatever characters these contain; all other lines of the file are kept.
\<close>

theorem l2tp_secrets_installed:
  assumes "fileLaws H chapSecrets" and "tidyText l2tpUsersStart l2tpUsersStop (readText H h chapSecrets)"
    and "\<forall>u \<in> set (liUsers x). newline \<notin> set (vuIPv4Address u)" and "l2tpWriteSystemConfig E H baseDir x h = (None, h')"
  shows "entries (readText H h' chapSecrets)
    = entries (fst (outsideBlock l2tpUsersStart l2tpUsersStop (readText H h chapSecrets)))
      @ l2tpUsersStart # map (chapLine (leFloats E) ''rebecca-l2tp'') (filter (\<lambda>u. hasSecret u \<and> userAvailable (leNow E) u) (liUsers x))
      @ l2tpUsersStop # entries (snd (outsideBlock l2tpUsersStart l2tpUsersStop (readText H h chapSecrets)))"
proof -
  let ?v = "\<lambda>h. hRead H h chapSecrets" and ?body = "l2tpChapSecrets (leFloats E) (leNow E) (liUsers x)"
  note w = filesKeepD [OF fileLawsD(2) [OF assms(1)]]
  obtain localIP ipRange where r: "l2tpPoolRange (l2tpPool (leFloats E) (normalizeL2TPRuntimeInbound x)) = (localIP, ipRange)" by (cases "l2tpPoolRange (l2tpPool (leFloats E) (normalizeL2TPRuntimeInbound x))")
  define ipsec where "ipsec = (\<lambda>h. case l2tpIPSecConfig H l2tpFixedPort h of (ipsecBlock, h') \<Rightarrow>
          failing (\<lambda>err. ''update /etc/ipsec.conf: '' @ err) (updateManagedBlock H ''/etc/ipsec.conf'' ipsecStart ipsecStop ipsecBlock) h')"
  define psk where "psk = failing (\<lambda>err. ''update /etc/ipsec.secrets: '' @ err)
          (updateManagedBlock H ''/etc/ipsec.secrets'' ipsecStart ipsecStop (textLine (''%any %any : PSK '' @ quoteGo (firstString (leFloats E) [map_of (liSettings (normalizeL2TPRuntimeInbound x)) ''ipsec_psk'']))))"
  define conf where "conf = failing (\<lambda>err. ''write /etc/xl2tpd/xl2tpd.conf: '' @ err) (hWrite H ''/etc/xl2tpd/xl2tpd.conf'' (xl2tpdConf baseDir ipRange localIP) 384)"
  define rest where "rest = thenDo (hMkdirAll H ''/etc/ppp/ip-up.d'' 493)
      (thenDo (failing (\<lambda>err. ''write /etc/ppp/ip-up.d/rebecca-l2tp-sessions: '' @ err) (hWrite H ''/etc/ppp/ip-up.d/rebecca-l2tp-sessions'' (upText E baseDir (liTag x)) 448))
      (thenDo (hMkdirAll H ''/etc/ppp/ip-down.d'' 493) (hWrite H ''/etc/ppp/ip-down.d/rebecca-l2tp-accounting'' (downText E baseDir (liTag x)) 448)))"
  have run: "thenDo (thenDo ipsec (thenDo psk (thenDo (hMkdirAll H ''/etc/xl2tpd'' 493) conf))) (thenDo (updateManagedBlock H chapSecrets l2tpUsersStart l2tpUsersStop ?body) rest) h = (None, h')"
    using assms(4) r by (simp add: l2tpWriteSystemConfig_def ipsec_def psk_def conf_def rest_def chapSecrets_def thenDo_assoc Let_def normalizeL2TPRuntimeInbound_def)
  have "keeping ?v ipsec" unfolding ipsec_def
    by (intro keeping_bind keeping_ipsecConfig keeps fileLawsD(1) [OF assms(1)] keeping_block [OF fileLawsD(2) [OF assms(1)]]) (simp add: chapSecrets_def)
  then have before: "keeping ?v (thenDo ipsec (thenDo psk (thenDo (hMkdirAll H ''/etc/xl2tpd'' 493) conf)))" unfolding psk_def conf_def
    by (intro keeps w keeping_block [OF fileLawsD(2) [OF assms(1)]]) (simp_all add: chapSecrets_def)
  have after: "keeping ?v rest" unfolding rest_def by (intro keeps w) (simp_all add: chapSecrets_def)
  have new: "readText H h' chapSecrets = replaceBlock l2tpUsersStart l2tpUsersStop ?body (readText H h chapSecrets)"
    unfolding readText_def [of H h'] block_updated [OF assms(1) before after run] by simp
  have m: "marker l2tpUsersStart" "marker l2tpUsersStop" by (simp_all add: marker_def l2tpUsersStart_def l2tpUsersStop_def)
  show ?thesis unfolding new managed_block_replaced [OF m assms(2)] l2tp_secret_lines [OF assms(3)] by (rule refl)
qed

section \<open>Stale sessions\<close>

text \<open>
  \<open>told h\<close>: the processes that were sent \<open>SIGTERM\<close>. \<open>kill\<close> adds one, and none is taken back.
\<close>

definition signalLaws :: "'h host \<Rightarrow> ('h \<Rightarrow> string set) \<Rightarrow> bool" where
  "signalLaws H told \<longleftrightarrow> (\<forall>env command args h. told h \<subseteq> told (snd (hRun H env command args h)))
     \<and> (\<forall>pid h. pid \<in> told (snd (hRun H [] ''kill'' [''-TERM'', pid] h))) \<and> (\<forall>path content mode h. told h \<subseteq> told (snd (hWrite H path content mode h)))"

lemma signalLawsD:
  assumes "signalLaws H told"
  shows "told h \<subseteq> told (snd (hRun H env command args h))" and "pid \<in> told (snd (hRun H [] ''kill'' [''-TERM'', pid] h))"
    and "told h \<subseteq> told (snd (hWrite H path content mode h))"
  using assms unfolding signalLaws_def by blast+

definition sessionPID :: "string \<Rightarrow> string option" where
  "sessionPID l = (let parts = splitOn l [tab]; pid = trimSpace (parts ! 2) in if 3 \<le> length parts \<and> pid \<noteq> [] \<and> parseInt 64 pid \<noteq> None then Some pid else None)"

lemma killed_told:
  assumes "signalLaws H told"
  shows "fst (killL2TPProcess H pid h) = None" and "told h \<subseteq> told (snd (killL2TPProcess H pid h))"
    and "pid \<noteq> [] \<Longrightarrow> parseInt 64 pid \<noteq> None \<Longrightarrow> pid \<in> told (snd (killL2TPProcess H pid h))"
  using signalLawsD [OF assms] by (auto simp: killL2TPProcess_def runQuiet_def skip_def)

lemma deleted_told:
  assumes "signalLaws H told"
  shows "fst (deleteL2TPInterface H ifname h) = None" and "told h \<subseteq> told (snd (deleteL2TPInterface H ifname h))"
  using signalLawsD(1) [OF assms] by (auto simp: deleteL2TPInterface_def runQuiet_def skip_def split: sum.split)

lemma ended_told:
  assumes "signalLaws H told"
  shows "fst (endSession H l h) = None" and "told h \<union> set_option (sessionPID l) \<subseteq> told (snd (endSession H l h))"
proof -
  let ?ps = "splitOn l [tab]"
  define k where "k = (if 3 \<le> length ?ps then killL2TPProcess H (trimSpace (?ps ! 2)) else skip)"
  obtain h1 where h1: "k h = (None, h1)" using killed_told(1) [OF assms] by (metis k_def prod.collapse skip_def)
  have e: "endSession H l h = deleteL2TPInterface H (trimSpace (?ps ! 1)) h1" using h1 by (simp add: endSession_def Let_def k_def thenDo_def)
  have "told h \<union> set_option (sessionPID l) \<subseteq> told h1"
    using h1 killed_told(2,3) [OF assms, where pid = "trimSpace (?ps ! 2)" and h = h]
    by (auto simp: k_def sessionPID_def Let_def skip_def split: if_splits)
  then show "fst (endSession H l h) = None" "told h \<union> set_option (sessionPID l) \<subseteq> told (snd (endSession H l h))"
    unfolding e using deleted_told [OF assms, where h = h1] by blast+
qed

lemma all_ended:
  assumes "signalLaws H told"
  shows "fst (doAll (map (endSession H) ls) h) = None \<and> told h \<union> (\<Union>l \<in> set ls. set_option (sessionPID l)) \<subseteq> told (snd (doAll (map (endSession H) ls) h))"
proof (induction ls arbitrary: h)
  case (Cons l ls)
  obtain h1 where h1: "endSession H l h = (None, h1)" using ended_told(1) [OF assms] by (metis prod.collapse)
  then show ?case using Cons [of h1] ended_told(2) [OF assms, where h = h and l = l] by (simp add: thenDo_def) blast
qed (simp add: skip_def)

lemma sessionLines_rows:
  assumes "\<forall>l \<in> set ls. l \<in> set (sessionLines raw)"
  shows "trimmedRows (concat (map textLine ls)) = map (\<lambda>l. splitOn l [tab]) ls @ [[[]]]"
  using assms
proof (induction ls)
  case (Cons l ls)
  have l: "trimSpace l = l" "newline \<notin> set l" using Cons.prems splitOn_fields [of _ raw newline] trimSpace_set by (auto simp: sessionLines_def)
  then have "splitOn (l @ newline # t) [newline] = l # splitOn t [newline]" for t using splitOn_append [of "[newline]" l t] by simp
  then show ?case using Cons l by (simp add: textLine_def trimmedRows_def)
qed (simp add: trimmedRows_Nil)

text \<open>
  When sessions are checked, every process of a session whose user is not allowed is told to end, and the file that is written
  lists sessions of allowed users only.
\<close>

theorem stale_sessions_ended:
  assumes "signalLaws H told" and "hRead H h (inDir baseDir ''sessions.tsv'') = Inr raw"
    and "\<And>content h. \<exists>h'. hWrite H (inDir baseDir ''sessions.tsv'') content 384 h = (None, h') \<and> hRead H h' (inDir baseDir ''sessions.tsv'') = Inr content"
    and "disconnectOthers H baseDir allowed h = (err, h')"
  shows "(\<forall>l \<in> set (sessionLines raw). sessionUser l \<in> set allowed \<or> set_option (sessionPID l) \<subseteq> told h')
    \<and> (\<forall>s \<in> set (readPPPSessions (Some (readText H h' (inDir baseDir ''sessions.tsv'')))). trimSpace (psUsername s) \<in> set allowed)"
proof -
  let ?p = "inDir baseDir ''sessions.tsv''" and ?out = "filter (\<lambda>l. sessionUser l \<notin> set allowed) (sessionLines raw)"
  define kept where "kept = filter (\<lambda>l. sessionUser l \<in> set allowed) (sessionLines raw)"
  obtain h1 where h1: "doAll (map (endSession H) ?out) h = (None, h1)" using all_ended [OF assms(1)] by (metis prod.collapse)
  obtain h2 where h2: "hWrite H ?p (concat (map textLine kept)) 384 h1 = (None, h2)" "hRead H h2 ?p = Inr (concat (map textLine kept))" using assms(3) by blast
  have h': "h' = h2" using assms(2,4) h1 h2(1) by (simp add: disconnectOthers_def inDir_def kept_def thenDo_def ignoring_def)
  have "told h1 \<subseteq> told h2" using signalLawsD(3) [OF assms(1), where h = h1] h2(1) by (metis snd_conv)
  moreover have "(\<Union>l \<in> set ?out. set_option (sessionPID l)) \<subseteq> told h1" using all_ended [OF assms(1), of ?out h] unfolding h1 by simp
  ultimately have "(\<Union>l \<in> set ?out. set_option (sessionPID l)) \<subseteq> told h2" by (rule subset_trans [rotated])
  then have "\<forall>l \<in> set (sessionLines raw). sessionUser l \<in> set allowed \<or> set_option (sessionPID l) \<subseteq> told h'" unfolding h' by auto
  moreover have "trimmedRows (concat (map textLine kept)) = map (\<lambda>l. splitOn l [tab]) kept @ [[[]]]"
    by (rule sessionLines_rows [where raw = raw]) (simp add: kept_def)
  then have "\<forall>s \<in> set (readPPPSessions (Some (readText H h' ?p))). trimSpace (psUsername s) \<in> set allowed"
    using h2(2) unfolding h' by (auto simp: readPPPSessions_def readText_def kept_def sessionUser_def hd_conv_nth)
  ultimately show ?thesis ..
qed

section \<open>Examples\<close>

definition exampleUser :: "string \<Rightarrow> string \<Rightarrow> vpnRuntimeUser" where
  "exampleUser name status = \<lparr>vuUserID = 7, vuUsername = name, vuVPNUsername = name, vuPassword = ''p'', vuIPv4Address = ''10.67.0.9'', vuStatus = status,
     vuUsedTraffic = 5, vuDataLimit = Some 40, vuExpire = None, vuDeviceLimit = 1\<rparr>"

theorem l2tp_fingerprint_exact_witness:
  "l2tpUsersFingerprint [exampleUser ''ann'' ''active''] \<noteq> l2tpUsersFingerprint [exampleUser ''ann'' ''limited'']"
proof -
  have "plainUser (exampleUser ''ann'' ''active'')" "plainUser (exampleUser ''ann'' ''limited'')" by (simp_all add: plainUser_def plainField_def exampleUser_def)
  then show ?thesis using l2tp_fingerprint_exact [of "[exampleUser ''ann'' ''active'']" "[exampleUser ''ann'' ''limited'']"]
    by (simp add: accessOf_def exampleUser_def)
qed

text \<open>A host with one file, on which every program succeeds and which remembers the processes that were told to end.\<close>

type_synonym fileState = "string \<times> string list"

definition oneFile :: "string \<Rightarrow> fileState host" where
  "oneFile path = \<lparr>hGOOS = ''linux'', hRoot = True, hLook = (\<lambda>h name. Inr name),
     hRun = (\<lambda>env command args h. ((None, []), if command = ''kill'' \<and> take 1 args = [''-TERM''] then (fst h, snd h @ drop 1 args) else h)),
     hRead = (\<lambda>h p. if p = path then Inr (fst h) else Inl ''no file''), hWrite = (\<lambda>p content mode h. (None, if p = path then (content, snd h) else h)),
     hChmod = (\<lambda>p mode. skip), hMkdirAll = (\<lambda>p mode. skip), hRemove = (\<lambda>p. skip), hRemoveAll = (\<lambda>p. skip), hStat = (\<lambda>h p. None), hReadDir = (\<lambda>h p. Inr []), hSleep = (\<lambda>ms h. h)\<rparr>"

lemma oneFile_laws: "fileLaws (oneFile path) path" "signalLaws (oneFile path) (\<lambda>h. set (snd h))"
  by (auto simp: fileLaws_def signalLaws_def oneFile_def keeping_def filesKeep_def skip_def)

definition exampleSessions :: string where
  "exampleSessions = row [''bob'', ''ppp0'', ''42''] @ row [''ann'', ''ppp1'', ''43'']"

theorem stale_sessions_ended_witness:
  "''42'' \<in> set (snd (snd (disconnectOthers (oneFile (inDir ''/d'' ''sessions.tsv'')) ''/d'' [''ann''] (exampleSessions, []))))"
proof -
  let ?H = "oneFile (inDir ''/d'' ''sessions.tsv'')" and ?l = "joinWith [tab] [''bob'', ''ppp0'', ''42'']" and ?m = "joinWith [tab] [''ann'', ''ppp1'', ''43'']"
  have t: "trimSpace ?l = ?l" "trimSpace ''42'' = ''42''" "trimSpace ''bob'' = ''bob''" by (rule trimSpace_graphic; simp add: graphic_def)+
  have "splitOn (joinWith [newline] [?l, ?m, []]) [newline] = [?l, ?m, []]" by (rule splitOn_joinWith) auto
  moreover have "joinWith [newline] [?l, ?m, []] = exampleSessions" by (simp add: exampleSessions_def row_def textLine_def)
  ultimately have "splitOn exampleSessions [newline] = [?l, ?m, []]" by simp
  moreover have p: "splitOn ?l [tab] = [''bob'', ''ppp0'', ''42'']" by (rule splitOn_joinWith) auto
  moreover have "?l \<noteq> []" by simp
  ultimately have l: "?l \<in> set (sessionLines exampleSessions)" using t by (simp add: sessionLines_def del: joinWith.simps)
  have "parseInt 64 ''42'' = Some 42" by (simp add: parseInt_def digitVal_def)
  then have u: "sessionUser ?l \<notin> set [''ann'']" "sessionPID ?l = Some ''42''" unfolding sessionUser_def sessionPID_def Let_def p using t by simp_all
  let ?r = "disconnectOthers ?H ''/d'' [''ann''] (exampleSessions, [])"
  have "hRead ?H (exampleSessions, []) (inDir ''/d'' ''sessions.tsv'') = Inr exampleSessions" by (simp add: oneFile_def)
  moreover have "\<exists>h'. hWrite ?H (inDir ''/d'' ''sessions.tsv'') content 384 h = (None, h') \<and> hRead ?H h' (inDir ''/d'' ''sessions.tsv'') = Inr content" for content h
    by (simp add: oneFile_def)
  moreover have "?r = (fst ?r, snd ?r)" by simp
  ultimately have "\<forall>l \<in> set (sessionLines exampleSessions). sessionUser l \<in> set [''ann''] \<or> set_option (sessionPID l) \<subseteq> set (snd (snd ?r))"
    by (rule stale_sessions_ended [OF oneFile_laws(2), THEN conjunct1])
  from bspec [OF this l] u show ?thesis by simp
qed

definition exampleL2TPEnv :: l2tpEnv where
  "exampleL2TPEnv = \<lparr>leFloats = exampleFloats, leIPUp = (\<lambda>args. []), leIPDown = (\<lambda>args. []), leEncode = (\<lambda>r. Inr []), leDecode = (\<lambda>raw. None), leIfaces = Some [], leNow = 100\<rparr>"

definition exampleL2TP :: l2tpRuntimeInbound where
  "exampleL2TP = \<lparr>liTag = ''l2tp'', liTunnelTag = [], liPort = 0, liTunnelPort = 0, liSettings = [(''ipsec_psk'', JStr ''k'')],
     liUsers = [exampleUser ''ann'' ''active'', exampleUser ''bob'' ''disabled'']\<rparr>"

definition exampleChap :: string where
  "exampleChap = textLine ''root * x *''"

definition exampleWritten :: "string option \<times> fileState" where
  "exampleWritten = l2tpWriteSystemConfig exampleL2TPEnv (oneFile chapSecrets) ''/d'' exampleL2TP (exampleChap, [])"

lemma exampleWritten_ok: "exampleWritten = (None, snd exampleWritten)"
proof -
  let ?H = "oneFile chapSecrets"
  have w: "succeeds (hWrite ?H p content mode)" "succeeds (hMkdirAll ?H p mode)" for p content mode by (simp_all add: succeeds_def oneFile_def skip_def)
  then have b: "succeeds (updateManagedBlock ?H p start stop body)" for p start stop body by (simp add: succeeds_def updateManagedBlock_def)
  have f: "succeeds (failing c f)" if "succeeds f" for c :: "string \<Rightarrow> string" and f :: "fileState action" using that by (simp add: succeeds_def failing_def split: prod.split) (metis fst_conv)
  have i: "succeeds (\<lambda>h. case l2tpIPSecConfig ?H l2tpFixedPort h of (ipsecBlock, h') \<Rightarrow>
          failing (\<lambda>err. ''update /etc/ipsec.conf: '' @ err) (updateManagedBlock ?H ''/etc/ipsec.conf'' ipsecStart ipsecStop ipsecBlock) h')"
    using f [OF b] by (simp add: succeeds_def split: prod.split)
  obtain localIP ipRange where r: "l2tpPoolRange (l2tpPool (leFloats exampleL2TPEnv) (normalizeL2TPRuntimeInbound exampleL2TP)) = (localIP, ipRange)"
    by (cases "l2tpPoolRange (l2tpPool (leFloats exampleL2TPEnv) (normalizeL2TPRuntimeInbound exampleL2TP))")
  have "succeeds (l2tpWriteSystemConfig exampleL2TPEnv ?H ''/d'' exampleL2TP)"
    unfolding l2tpWriteSystemConfig_def Let_def r prod.case by (intro succeeds i w b f)
  from succeedsD [OF this] show ?thesis unfolding exampleWritten_def by simp
qed

lemma exampleChap_tidy: "tidyText l2tpUsersStart l2tpUsersStop exampleChap" "entries exampleChap = [''root * x *'']"
proof -
  have "trimSpace exampleChap \<noteq> []" by (rule trimSpace_not_blank [of "CHR ''r''"]) (simp_all add: exampleChap_def textLine_def graphic_def)
  then show "tidyText l2tpUsersStart l2tpUsersStop exampleChap"
    by (simp add: tidyText_def exampleChap_def textLine_def l2tpUsersStart_def l2tpUsersStop_def hasPrefix_def)
  show "entries exampleChap = [''root * x *'']" using entries_line_append [of "''root * x *''" "[]"] by (simp add: exampleChap_def textLine_def)
qed

theorem l2tp_secrets_installed_witness:
  "entries (fst (snd exampleWritten)) = [''root * x *'', l2tpUsersStart, chapLine exampleFloats ''rebecca-l2tp'' (exampleUser ''ann'' ''active''), l2tpUsersStop]"
proof -
  have r: "readText (oneFile chapSecrets) h chapSecrets = fst h" for h by (simp add: readText_def oneFile_def)
  have a: "hasSecret (exampleUser ''ann'' ''active'')" "userAvailable 100 (exampleUser ''ann'' ''active'')" "\<not> userAvailable 100 (exampleUser ''bob'' ''disabled'')"
    by code_simp+
  have "outsideBlock l2tpUsersStart l2tpUsersStop exampleChap = (exampleChap, [])"
    by (simp add: outsideBlock_def exampleChap_def textLine_def l2tpUsersStart_def l2tpUsersStop_def hasPrefix_def)
  moreover have "\<forall>u \<in> set (liUsers exampleL2TP). newline \<notin> set (vuIPv4Address u)" by (simp add: exampleL2TP_def exampleUser_def)
  ultimately show ?thesis
    using l2tp_secrets_installed [OF oneFile_laws(1), of "(exampleChap, [])" exampleL2TP exampleL2TPEnv "''/d''" "snd exampleWritten"] exampleWritten_ok exampleChap_tidy a
    unfolding r exampleWritten_def by (simp add: exampleL2TP_def exampleL2TPEnv_def)
qed

end
