(* ===== verification/Pptp.thy ===== *)
theory Pptp
  imports L2tp
begin

text \<open>
  PPTP: \<open>internal/node/pptp.go\<close> without its traffic accounting. It shares the texts and the handling of sessions with L2TP; the
  scripts of PPP are those of L2TP with every \<open>l2tp\<close> replaced. Results: the secrets of PPTP and those of L2TP, which stand in one
  file, do not disturb each other; a user that is no longer available keeps its secret and its session.
\<close>

section \<open>Definitions\<close>

type_synonym pptpRuntimeInbound = l2tpRuntimeInbound

record pptpRuntime =
  prGeneratedAt :: string
  prTarget :: string
  prInbounds :: "pptpRuntimeInbound list"

record pptpEnv =
  ppFloats :: floats
  ppIPUp :: "string list \<Rightarrow> string"
  ppIPDown :: "string list \<Rightarrow> string"
  ppEncode :: "pptpRuntime \<Rightarrow> string + string"
  ppIfaces :: "string list option"
  ppArch :: string

definition pptpPool :: "floats \<Rightarrow> pptpRuntimeInbound \<Rightarrow> string \<Rightarrow> string" where
  "pptpPool F inbound fallback = firstString F [map_of (liSettings inbound) ''ipv4_pool_cidr'', Some (JStr fallback)]"

definition pptpPPPOptions :: "floats \<Rightarrow> pptpRuntimeInbound \<Rightarrow> string" where
  "pptpPPPOptions F inbound = (let settings = liSettings inbound in
     concat (map textLine [''name pptpd'', ''auth'', ''require-mschap-v2'', ''refuse-pap'', ''refuse-chap'', ''refuse-mschap'', ''require-mppe-128'', ''noipv6'', ''proxyarp'', ''nodefaultroute'', ''lock''])
     @ dnsLines F settings
     @ boundedLine F settings ''mtu'' ''mtu'' 1410 576 1500 @ boundedLine F settings ''mru'' ''mru'' 1410 576 1500
     @ boundedLine F settings ''lcp-echo-interval'' ''lcp_echo_interval'' 30 1 3600 @ boundedLine F settings ''lcp-echo-failure'' ''lcp_echo_failure'' 4 1 20
     @ textLine ''ipparam rebecca-pptp'')"

definition pptpChapSecrets :: "floats \<Rightarrow> vpnRuntimeUser list \<Rightarrow> string" where
  "pptpChapSecrets F us = concat (map (\<lambda>user. textLine (chapLine F ''pptpd'' user)) (filter hasSecret us))"

definition pptpNFTScript :: "floats \<Rightarrow> string list option \<Rightarrow> pptpRuntimeInbound \<Rightarrow> string" where
  "pptpNFTScript F ifaces inbound = pppNFTScript F ifaces ''rebecca_pptp'' (pptpPool F inbound ''10.68.0.0/16'') inbound"

definition pptpIPUpText :: "pptpEnv \<Rightarrow> string \<Rightarrow> string \<Rightarrow> string" where
  "pptpIPUpText E baseDir tg = replaceAll (ppIPUp E (map (inDir baseDir) [''users.tsv'', ''usage.tsv'', ''sessions.tsv'', ''session-callback.env''] @ [vpnSessionsPath baseDir, tg])) ''l2tp'' ''pptp''"

text \<open>The paths of the callback and of the sessions are taken from the directory of the file of the users; the tag is the word \<open>pptp\<close>.\<close>

definition pptpIPDownScript :: "pptpEnv \<Rightarrow> string \<Rightarrow> string \<Rightarrow> string \<Rightarrow> string \<Rightarrow> string" where
  "pptpIPDownScript E usersPath usagePath accountingPath sessionsPath =
     replaceAll (ppIPDown E [usersPath, usagePath, accountingPath, sessionsPath, joinPath [dir usersPath, ''session-callback.env''], vpnSessionsPath (dir usersPath), ''pptp'']) ''l2tp'' ''pptp''"

definition pptpDisconnectStaleSessions :: "'h host \<Rightarrow> string \<Rightarrow> vpnRuntimeUser list \<Rightarrow> 'h action" where
  "pptpDisconnectStaleSessions H baseDir us = disconnectOthers H baseDir (allowedNames (\<lambda>u. True) us)"

definition pptpWriteInbound :: "pptpEnv \<Rightarrow> 'h host \<Rightarrow> string \<Rightarrow> pptpRuntimeInbound \<Rightarrow> 'h action" where
  "pptpWriteInbound E H baseDir inbound =
     thenDo (hMkdirAll H baseDir 448)
     (thenDo (writeVPNSessionCallback H (inDir baseDir ''session-callback.env'') None)
     (thenDo (hWrite H (inDir baseDir ''users.tsv'') (vpnUsersTSV (liUsers inbound)) 384)
     (thenDo (hWrite H (inDir baseDir ''nftables.nft'') (pptpNFTScript (ppFloats E) (ppIfaces E) inbound) 384)
     (hWrite H (inDir baseDir ''options.pptpd'') (pptpPPPOptions (ppFloats E) inbound) 384))))"

definition pptpUsersStart :: string where "pptpUsersStart = ''# BEGIN REBECCA PPTP USERS''"
definition pptpUsersStop :: string where "pptpUsersStop = ''# END REBECCA PPTP USERS''"

definition pptpdConf :: "string \<Rightarrow> string \<Rightarrow> string" where
  "pptpdConf localIP ipRange = textLine ''option /etc/ppp/pptpd-options'' @ textLine (''localip '' @ localIP) @ textLine (''remoteip '' @ ipRange)"

definition pptpWriteSystemConfig :: "pptpEnv \<Rightarrow> 'h host \<Rightarrow> string \<Rightarrow> pptpRuntimeInbound \<Rightarrow> 'h action" where
  "pptpWriteSystemConfig E H baseDir inbound =
     (let F = ppFloats E; (localIP, ipRange) = l2tpPoolRange (pptpPool F inbound ''10.68.0.0/24'') in
      thenDo (failing (\<lambda>err. ''update /etc/pptpd.conf: '' @ err)
          (updateManagedBlock H ''/etc/pptpd.conf'' ''# BEGIN REBECCA PPTP'' ''# END REBECCA PPTP'' (pptpdConf localIP (pptpPoolRange ipRange))))
      (thenDo (updateManagedBlock H ''/etc/ppp/chap-secrets'' pptpUsersStart pptpUsersStop (pptpChapSecrets F (liUsers inbound)))
      (thenDo (hMkdirAll H ''/etc/ppp/ip-up.d'' 493)
      (thenDo (failing (\<lambda>err. ''write /etc/ppp/ip-up.d/rebecca-pptp-sessions: '' @ err) (hWrite H ''/etc/ppp/ip-up.d/rebecca-pptp-sessions'' (pptpIPUpText E baseDir (liTag inbound)) 448))
      (thenDo (hMkdirAll H ''/etc/ppp/ip-down.d'' 493)
      (thenDo (failing (\<lambda>err. ''write /etc/ppp/ip-down.d/rebecca-pptp-accounting: '' @ err)
          (hWrite H ''/etc/ppp/ip-down.d/rebecca-pptp-accounting''
            (pptpIPDownScript E (inDir baseDir ''users.tsv'') (inDir baseDir ''usage.tsv'') (inDir baseDir ''accounting.tsv'') (inDir baseDir ''sessions.tsv'')) 448))
      (updateManagedBlock H ''/etc/ppp/pptpd-options'' ''# BEGIN REBECCA PPTP OPTIONS'' ''# END REBECCA PPTP OPTIONS'' (pptpPPPOptions F inbound))))))))"

definition pptpSystemConfigSnapshot :: "'h host \<Rightarrow> 'h \<Rightarrow> string" where
  "pptpSystemConfigSnapshot H = fileSnapshot H [''/etc/pptpd.conf'', ''/etc/ppp/pptpd-options'', ''/etc/ppp/chap-secrets'']"

definition pptpServiceRunning :: "'h host \<Rightarrow> 'h \<Rightarrow> bool \<times> 'h" where
  "pptpServiceRunning H = processRuns H ''pptpd''"

definition restartPPTPService :: "'h host \<Rightarrow> 'h action" where
  "restartPPTPService H = orService H [''restart'', ''pptpd''] [''pptpd'', ''restart'']"

definition pptpApplyInbound :: "pptpEnv \<Rightarrow> 'h host \<Rightarrow> string \<Rightarrow> pptpRuntimeInbound \<Rightarrow> 'h action" where
  "pptpApplyInbound E H baseDir inbound =
     (if hGOOS H = ''windows'' then skip
      else (\<lambda>h. let before = pptpSystemConfigSnapshot H h; F = ppFloats E in
        thenDo (pppRules H (ppIfaces E) baseDir ''pptp'' ''PPTP'' (liTag inbound) (pptpPool F inbound ''10.68.0.0/16'') (pppTProxy F inbound))
        (thenDo (pptpWriteSystemConfig E H baseDir inbound)
        (\<lambda>h. if before \<noteq> pptpSystemConfigSnapshot H h then restartPPTPService H h
              else case pptpServiceRunning H h of (True, h') \<Rightarrow> (None, h') | (False, h') \<Rightarrow> restartPPTPService H h')) h))"

definition pptpStop :: "'h host \<Rightarrow> string \<Rightarrow> 'h action" where
  "pptpStop H baseDir =
     (if hGOOS H = ''windows'' then skip
      else thenDo (ignoring (runOptional H ''systemctl'' [''stop'', ''pptpd'']))
        (thenDo (ignoring (runOptional H ''service'' [''pptpd'', ''stop'']))
        (thenDo (dropTable H ''rebecca_pptp'')
        (thenDo (ignoring (vpnRemoveDirectNAT H ''pptp'')) (emptySessions H baseDir)))))"

section \<open>Prerequisites\<close>

definition pptpTools :: "string list" where
  "pptpTools = [''pptpd'', ''pppd'', ''nft'', ''ip'', ''iptables'']"

definition debianPackageConfigured :: "'h host \<Rightarrow> string \<Rightarrow> 'h \<Rightarrow> bool \<times> 'h" where
  "debianPackageConfigured H name h =
     (if \<not> commandExists H h ''dpkg-query'' then (True, h)
      else case hRun H [] ''dpkg-query'' [''-W'', ''-f=${db:Status-Status}'', name] h of ((err, out), h') \<Rightarrow> (err = None \<and> trimSpace out = ''installed'', h'))"

definition debianURL :: string where
  "debianURL = ''https://deb.debian.org/debian/pool/main/p/pptpd/''"

definition debianScript :: string where
  "debianScript =
     textLine ''set -eu'' @ textLine ''tmp=/tmp/rebecca-pptpd-debs'' @ textLine (''mkdir -p '' @ quoted ''$tmp'') @ textLine (''cd '' @ quoted ''$tmp'')
     @ textLine (''curl -fsSL -o bcrelay.deb '' @ debianURL @ ''bcrelay_1.5.0-1+b2_amd64.deb'')
     @ textLine (''curl -fsSL -o pptpd.deb '' @ debianURL @ ''pptpd_1.5.0-1+b2_amd64.deb'')
     @ textLine (''echo '' @ quoted ''c33700203fcd2adc0e153fcfb2d2a14ae0a74ac141fb4dd44691b821abe893c2  bcrelay.deb'' @ '' | sha256sum -c -'')
     @ textLine (''echo '' @ quoted ''a270fe57f4212b414f0c02e365cd568ac27701c0e9dea5f6294af432d474d601  pptpd.deb'' @ '' | sha256sum -c -'')
     @ textLine ''dpkg --force-confdef --force-confold -i bcrelay.deb || dpkg --force-confdef --force-confold --force-depends -i bcrelay.deb''
     @ textLine ''dpkg --force-confdef --force-confold -i pptpd.deb || dpkg --force-confdef --force-confold --force-depends -i pptpd.deb''
     @ textLine ''dpkg --force-confdef --force-confold --force-depends --configure bcrelay pptpd''"

definition installDebianPPTPD :: "string \<Rightarrow> 'h host \<Rightarrow> 'h action" where
  "installDebianPPTPD goarch H = (if goarch \<noteq> ''amd64'' then fail ''Debian pptpd fallback is only available for amd64'' else runInstallCommand H [] ''sh'' [''-c'', debianScript])"

definition aptPPTPFresh :: "string \<Rightarrow> 'h host \<Rightarrow> 'h action" where
  "aptPPTPFresh goarch H = thenDo (aptGet H [''update''])
     (\<lambda>h. case aptInstall H [''pptpd'', ''ppp'', ''nftables'', ''iproute2'', ''iptables'', ''kmod''] h of
         (None, h1) \<Rightarrow> (None, h1)
       | (Some err, h1) \<Rightarrow> (case aptInstall H [''ppp'', ''nftables'', ''iproute2'', ''iptables'', ''kmod'', ''curl'', ''ca-certificates''] h1 of
             (Some baseErr, h2) \<Rightarrow> (Some (err @ ''; installing PPTP base dependencies failed: '' @ baseErr), h2)
           | (None, h2) \<Rightarrow> failing (\<lambda>debErr. err @ ''; Debian pptpd fallback failed: '' @ debErr) (installDebianPPTPD goarch H) h2))"

definition aptPPTP :: "string \<Rightarrow> 'h host \<Rightarrow> 'h action" where
  "aptPPTP goarch H = thenDo (ignoring (configureDpkg H))
     (\<lambda>h. if commandExists H h ''pptpd'' then
            (case debianPackageConfigured H ''pptpd'' h of (True, h') \<Rightarrow> aptPPTPFresh goarch H h' | (False, h') \<Rightarrow> installDebianPPTPD goarch H h')
          else aptPPTPFresh goarch H h)"

definition installPPTPPackages :: "string \<Rightarrow> 'h host \<Rightarrow> 'h action" where
  "installPPTPPackages goarch H h =
     (let rpm = [''install'', ''-y'', ''pptpd'', ''ppp'', ''nftables'', ''iproute'', ''iptables'', ''kmod''] in
      if \<not> hRoot H then (Some ''PPTP prerequisites are missing and automatic install requires root'', h)
      else if commandExists H h ''apt-get'' then aptPPTP goarch H h
      else if commandExists H h ''dnf'' then runInstallCommand H [] ''dnf'' rpm h
      else if commandExists H h ''yum'' then runInstallCommand H [] ''yum'' rpm h
      else if commandExists H h ''apk'' then runInstallCommand H [] ''apk'' [''add'', ''pptpd'', ''ppp'', ''nftables'', ''iproute2'', ''iptables'', ''kmod''] h
      else (Some ''PPTP prerequisites are missing and no supported package manager was found'', h))"

definition loadPPTPKernelModules :: "'h host \<Rightarrow> 'h action" where
  "loadPPTPKernelModules H = modprobes H [''ppp_generic'', ''ppp_mppe''] [''nf_conntrack_pptp'', ''ip_gre'', ''nf_tproxy_ipv4'']"

definition ensurePPTPPrerequisites :: "string \<Rightarrow> 'h host \<Rightarrow> 'h action" where
  "ensurePPTPPrerequisites goarch H =
     (if hGOOS H \<noteq> ''linux'' then skip
      else thenDo (\<lambda>h. if missingExecutables H h pptpTools \<noteq> [] then installPPTPPackages goarch H h
            else case debianPackageConfigured H ''pptpd'' h of (True, h') \<Rightarrow> (None, h') | (False, h') \<Rightarrow> installPPTPPackages goarch H h')
        (thenDo (requireTools H ''PPTP'' pptpTools) (loadPPTPKernelModules H)))"

definition pptpApply :: "pptpEnv \<Rightarrow> 'h host \<Rightarrow> string \<Rightarrow> string \<Rightarrow> pptpRuntime option \<Rightarrow> 'h action" where
  "pptpApply E H baseDir installMode rc =
     (case rc of None \<Rightarrow> skip
      | Some r \<Rightarrow>
          if prInbounds r \<noteq> [] \<and> installMode \<noteq> ''binary'' then fail ''PPTP is supported only on binary Rebecca-node installs''
          else if 1 < length (prInbounds r) then fail ''only one PPTP inbound is supported per node because TCP 1723/GRE are node-wide''
          else thenDo (if prInbounds r \<noteq> [] then ensurePPTPPrerequisites (ppArch E) H else skip)
            (thenDo (hMkdirAll H baseDir 448)
            (case ppEncode E r of
               Inl err \<Rightarrow> fail err
             | Inr raw \<Rightarrow>
                 thenDo (hWrite H (inDir baseDir ''runtime.json'') raw 384)
                 (case prInbounds r of
                    [] \<Rightarrow> pptpStop H baseDir
                  | inbound # _ \<Rightarrow>
                      thenDo (pptpWriteInbound E H baseDir inbound)
                      (thenDo (pptpDisconnectStaleSessions H baseDir (liUsers inbound)) (pptpApplyInbound E H baseDir inbound))))))"

section \<open>Two blocks in one file\<close>

definition absent :: "string \<Rightarrow> string list \<Rightarrow> bool" where
  "absent m texts \<longleftrightarrow> list_all (\<lambda>t. indexOf t m = None) texts"

lemma absent_block:
  assumes "marker m" and "absent m [start, body, stop]"
  shows "indexOf (blockText start stop body) m = None"
  using assms(2) trimmed_none [of body m "{newline}"] assms(1) by (simp add: blockText_def indexOf_line [OF assms(1)] absent_def marker_def)

lemma block_end: "marker stop \<Longrightarrow> trimRightChars {newline} (q @ newline # blockText start stop body) @ [newline] = q @ newline # blockText start stop body"
  by (cases stop rule: rev_cases) (auto simp: blockText_def trimRightChars_def marker_def)

lemma block_begin: "marker start \<Longrightarrow> trimLeftChars {newline} (blockText start stop body @ t) = blockText start stop body @ t"
  by (cases start) (auto simp: blockText_def trimLeftChars_def marker_def)

lemma second_block:
  assumes "marker start" and "marker stop" and "marker start2" and "marker stop2"
    and "absent start2 [txt, start, body, stop]" and "absent stop2 [txt, start, body, stop]" and "absent start [txt]" and "absent stop [txt]"
    and "trimSpace txt \<noteq> []" and "graphic (hd start)"
  shows "replaceBlock start2 stop2 body2 (replaceBlock start stop body txt)
    = trimRightChars {newline} txt @ newline # blockText start stop body @ blockText start2 stop2 body2"
proof -
  let ?q = "trimRightChars {newline} txt"
  have t1: "replaceBlock start stop body txt = ?q @ newline # blockText start stop body"
    using assms(7,8,9) by (simp add: replaceBlock_def appendBlock_def absent_def)
  have "hd start \<in> set (replaceBlock start stop body txt)" unfolding t1 using assms(1) by (cases start) (simp_all add: blockText_def marker_def)
  from trimSpace_not_blank [OF this assms(10)] have b: "trimSpace (replaceBlock start stop body txt) \<noteq> []" .
  have n: "indexOf ?q m = None" if "absent m [txt, start, body, stop]" for m using that trimmed_none by (simp add: absent_def)
  have "indexOf (?q @ newline # blockText start stop body) start2 = None" "indexOf (?q @ newline # blockText start stop body) stop2 = None"
    using n [OF assms(5)] n [OF assms(6)] absent_block [OF assms(3)] absent_block [OF assms(4)] assms(5,6) by (simp_all add: indexOf_line assms(3,4) absent_def)
  then have "replaceBlock start2 stop2 body2 (replaceBlock start stop body txt)
      = (trimRightChars {newline} (?q @ newline # blockText start stop body) @ [newline]) @ blockText start2 stop2 body2"
    using b by (simp add: replaceBlock_def [of start2] appendBlock_def t1)
  then show ?thesis unfolding block_end [OF assms(2)] by simp
qed

text \<open>
  The secrets of PPTP and L2TP in one file: whatever the order of the updates, each block holds the lines of its last update, and
  the lines that were in the file before are kept.
\<close>

theorem chap_blocks_coexist:
  assumes "trimSpace txt \<noteq> []" and "\<forall>m \<in> {pptpUsersStart, pptpUsersStop, l2tpUsersStart, l2tpUsersStop}. absent m [txt, old]"
    and "marks = replaceBlock l2tpUsersStart l2tpUsersStop secrets (replaceBlock pptpUsersStart pptpUsersStop old txt)"
  shows "entries (replaceBlock pptpUsersStart pptpUsersStop new marks)
    = entries txt @ pptpUsersStart # entries new @ pptpUsersStop # l2tpUsersStart # entries secrets @ [l2tpUsersStop]"
proof -
  let ?q = "trimRightChars {newline} txt"
  have m: "marker pptpUsersStart" "marker pptpUsersStop" "marker l2tpUsersStart" "marker l2tpUsersStop"
    by (simp_all add: marker_def l2tpUsersStart_def l2tpUsersStop_def pptpUsersStart_def pptpUsersStop_def)
  have i: "indexOf pptpUsersStart pptpUsersStop = None" "indexOf pptpUsersStart l2tpUsersStart = None" "indexOf pptpUsersStart l2tpUsersStop = None"
    "indexOf pptpUsersStop l2tpUsersStart = None" "indexOf pptpUsersStop l2tpUsersStop = None" by code_simp+
  have a: "absent l2tpUsersStart [txt, pptpUsersStart, old, pptpUsersStop]" "absent l2tpUsersStop [txt, pptpUsersStart, old, pptpUsersStop]"
    "absent pptpUsersStart [txt]" "absent pptpUsersStop [txt]" "indexOf old pptpUsersStop = None" using assms(2) i by (simp_all add: absent_def)
  have "marks = ?q @ newline # blockText pptpUsersStart pptpUsersStop old @ blockText l2tpUsersStart l2tpUsersStop secrets"
    unfolding assms(3) by (rule second_block [OF m a(1-4) assms(1)]) (simp add: pptpUsersStart_def graphic_def)
  moreover have "trimLeftChars {newline} (blockText l2tpUsersStart l2tpUsersStop secrets) = blockText l2tpUsersStart l2tpUsersStop secrets"
    using block_begin [OF m(3), of l2tpUsersStop secrets "[]"] by simp
  moreover have "indexOf ?q pptpUsersStart = None" "indexOf ?q pptpUsersStop = None" using a(3,4) trimmed_none by (simp_all add: absent_def)
  ultimately have "replaceBlock pptpUsersStart pptpUsersStop new marks = ?q @ newline # blockText pptpUsersStart pptpUsersStop new @ blockText l2tpUsersStart l2tpUsersStop secrets"
    using replace_existing [OF m(1,2) i(1) a(5), of ?q "blockText l2tpUsersStart l2tpUsersStop secrets" new] by simp
  moreover have "entries (blockText l2tpUsersStart l2tpUsersStop secrets) = l2tpUsersStart # entries secrets @ [l2tpUsersStop]"
    using entries_blockText [of l2tpUsersStart l2tpUsersStop secrets "[]"] m by (simp add: marker_def)
  ultimately show ?thesis using m by (simp add: entries_trimmed entries_blockText marker_def)
qed

text \<open>
  A user that is no longer available (expired, disabled) keeps its secret for PPTP, and its open session is left alone, where L2TP
  removes the secret and ends the session.
\<close>

theorem pptp_unavailable_user_stays:
  assumes "u \<in> set us" and "hasSecret u" and "\<not> userAvailable now u" and "\<forall>v \<in> set us. newline \<notin> set (vuIPv4Address v)"
  shows "chapLine F ''pptpd'' u \<in> set (entries (pptpChapSecrets F us)) \<and> trimSpace (vuVPNUsername u) \<in> set (allowedNames (\<lambda>u. True) us)
    \<and> l2tpChapSecrets F now [u] = [] \<and> allowedNames (userAvailable now) [u] = []"
proof -
  let ?ls = "map (chapLine F ''pptpd'') (filter hasSecret us)"
  have "\<forall>l \<in> set ?ls. newline \<notin> set l \<and> l \<noteq> []" using assms(4) by (auto simp: chapLine_line)
  from entries_lines [OF this] have "entries (pptpChapSecrets F us) = ?ls" by (simp add: pptpChapSecrets_def comp_def)
  then show ?thesis using assms by (auto simp: allowedNames_def hasSecret_def l2tpChapSecrets_def)
qed

theorem chap_blocks_coexist_witness:
  "entries (replaceBlock pptpUsersStart pptpUsersStop ''c'' (replaceBlock l2tpUsersStart l2tpUsersStop ''b'' (replaceBlock pptpUsersStart pptpUsersStop ''a'' exampleChap)))
    = [''root * x *'', pptpUsersStart, ''c'', pptpUsersStop, l2tpUsersStart, ''b'', l2tpUsersStop]"
proof -
  have "trimSpace exampleChap \<noteq> []" using exampleChap_tidy(1) by (simp add: tidyText_def)
  moreover have "\<forall>m \<in> {pptpUsersStart, pptpUsersStop, l2tpUsersStart, l2tpUsersStop}. absent m [exampleChap, ''a'']" by code_simp
  moreover have "entries ''b'' = [''b'']" "entries ''c'' = [''c'']" by (rule entries_line; simp)+
  ultimately show ?thesis using chap_blocks_coexist [OF _ _ refl, of exampleChap "''a''" "''c''" "''b''"] exampleChap_tidy(2) by simp
qed

theorem pptp_unavailable_user_stays_witness:
  "chapLine exampleFloats ''pptpd'' (exampleUser ''bob'' ''disabled'') \<in> set (entries (pptpChapSecrets exampleFloats [exampleUser ''bob'' ''disabled'']))"
proof -
  have "hasSecret (exampleUser ''bob'' ''disabled'')" "\<not> userAvailable 100 (exampleUser ''bob'' ''disabled'')" by code_simp+
  then show ?thesis using pptp_unavailable_user_stays [of "exampleUser ''bob'' ''disabled''" "[exampleUser ''bob'' ''disabled'']" 100 exampleFloats]
    by (simp add: exampleUser_def)
qed

end
