(* ===== verification/Haproxy.thy ===== *)
theory Haproxy
  imports Path_Below Openvpn "HOL-Library.Word"
begin

text \<open>
  HAProxy and the web sites behind it: \<open>internal/node/haproxy.go\<close> and \<open>haproxy_process_unix.go\<close>. The host holds the files and runs
  the programs; archives, hashes, certificates, URLs, sockets and processes are answered by a record of parameters. Sizes of archive
  entries and their sum are \<open>uint64\<close>, kept at their width. Results: an archive is unpacked inside its directory, whatever names it
  holds; a site only looks at files below its root; a template that cannot be had leaves the sites that are served alone; the bytes
  that are unpacked are bounded when no declared size is absurd, and not bounded otherwise.
\<close>

section \<open>Data\<close>

record haproxyRuntimeSite =
  hsSocket :: string
  hsHostname :: string
  hsSource :: string
  hsTemplateURL :: string
  hsToken :: string
  hsSHA256 :: string
  hsTLSMode :: string
  hsCertificatePEM :: string
  hsPrivateKeyPEM :: string
  hsCertificatePath :: string
  hsPrivateKeyPath :: string
  hsNotFoundHTML :: string

record haproxyConfig =
  hcEnabled :: bool
  hcConfigText :: string
  hcSites :: "haproxyRuntimeSite list"

text \<open>An entry of an archive: the error of opening it, what it unpacks to, and the error at its end.\<close>

record templateEntry =
  teName :: string
  teIsDir :: bool
  teSize :: "64 word"
  teOpen :: "string option"
  teData :: string
  teEnd :: "string option"

record urlParts =
  upScheme :: string
  upHostname :: string
  upUser :: bool
  upPath :: string

text \<open>
  \<open>heTemp\<close>, \<open>heTempDir\<close>: a new file or directory in a directory. \<open>hePair\<close> and \<open>heLoad\<close>: the error of a certificate with its key, from
  texts and from files. \<open>heGenerate\<close>: the two PEM texts of a new certificate. \<open>heSignal\<close>: the answer to signal 0 (\<open>None\<close>: delivered).
  \<open>heLaunch\<close>: the error of a start, or what came of it within 300 ms: \<open>None\<close> when it still runs.
\<close>

datatype signalError = ESRCH | EPERM | OtherError string

record 'h haproxyEnv =
  heTemp :: "string \<Rightarrow> string \<Rightarrow> 'h \<Rightarrow> (string + string) \<times> 'h"
  heTempDir :: "string \<Rightarrow> string \<Rightarrow> 'h \<Rightarrow> (string + string) \<times> 'h"
  heRename :: "string \<Rightarrow> string \<Rightarrow> 'h action"
  heIsFile :: "'h \<Rightarrow> string \<Rightarrow> bool"
  heZip :: "string \<Rightarrow> templateEntry list option"
  heSum :: "string \<Rightarrow> string"
  heURL :: "string \<Rightarrow> urlParts option"
  heGet :: "string \<Rightarrow> string \<Rightarrow> string + httpResponse"
  hePair :: "string \<Rightarrow> string \<Rightarrow> string option"
  heLoad :: "'h \<Rightarrow> string \<Rightarrow> string \<Rightarrow> string option"
  heGenerate :: "string \<Rightarrow> string + string \<times> string"
  heListen :: "string \<Rightarrow> 'h action"
  heClose :: "string \<Rightarrow> 'h \<Rightarrow> 'h"
  heSignal :: "'h \<Rightarrow> int \<Rightarrow> signalError option"
  heTerminate :: "int \<Rightarrow> 'h \<Rightarrow> signalError option \<times> 'h"
  heLaunch :: "string list \<Rightarrow> 'h \<Rightarrow> (string + string option option) \<times> 'h"

section \<open>Archives\<close>

definition maxTemplateBytes :: "64 word" where
  "maxTemplateBytes = 134217728"

text \<open>\<open>io.Copy\<close> from a reader that is limited to \<open>int64(size) + 1\<close> bytes: what is copied, and the error of the entry when its end is reached.\<close>

definition copyEntry :: "templateEntry \<Rightarrow> string \<times> string option" where
  "copyEntry f = (let n = sint (teSize f + 1) in
     if n \<le> 0 then ([], None) else if nat n \<le> length (teData f) then (take (nat n) (teData f), None) else (teData f, teEnd f))"

definition copyFile :: "'h host \<Rightarrow> string \<Rightarrow> templateEntry \<Rightarrow> 'h action" where
  "copyFile H destination f =
     (case teOpen f of Some err \<Rightarrow> fail err
      | None \<Rightarrow> thenDo (hWrite H destination (fst (copyEntry f)) 384) (\<lambda>h. (snd (copyEntry f), h)))"

definition entryPath :: "templateEntry \<Rightarrow> string" where
  "entryPath f = clean (replaceAll (teName f) [CHR 0x5C] ''/'')"

fun extractEntries :: "'h host \<Rightarrow> string \<Rightarrow> templateEntry list \<Rightarrow> 64 word \<Rightarrow> string \<Rightarrow> 'h \<Rightarrow> (string + string) \<times> 'h" where
  "extractEntries H stage [] before indexPath h = (Inr indexPath, h)"
| "extractEntries H stage (f # fs) before indexPath h =
     (let cleaned = entryPath f; destination = joinPath [stage, cleaned] in
      if cleaned = ''.'' \<or> hasPrefix cleaned ''../'' \<or> isAbs cleaned then (Inl ''HAProxy template ZIP contains an unsafe path'', h)
      else if \<not> hasPrefix destination (stage @ ''/'') then (Inl ''HAProxy template ZIP escaped its directory'', h)
      else if teIsDir f then
        (case hMkdirAll H destination 448 h of
           (Some err, h') \<Rightarrow> (Inl err, h')
         | (None, h') \<Rightarrow> extractEntries H stage fs before indexPath h')
      else let sum = before + teSize f in
        if maxTemplateBytes < sum then (Inl ''extracted HAProxy template exceeds 128 MiB'', h)
        else (case thenDo (hMkdirAll H (dir destination) 448) (copyFile H destination f) h of
           (Some err, h') \<Rightarrow> (Inl err, h')
         | (None, h') \<Rightarrow> extractEntries H stage fs sum
             (if equalFold (base destination) ''index.html'' \<and> (indexPath = [] \<or> length destination < length indexPath) then destination else indexPath) h'))"

text \<open>\<open>filepath.Rel\<close> for a path below the base.\<close>

definition relBelow :: "string \<Rightarrow> string \<Rightarrow> string" where
  "relBelow basePath path = (if path = basePath then ''.'' else drop (length basePath + 1) path)"

definition finishTemplate :: "'h haproxyEnv \<Rightarrow> 'h host \<Rightarrow> string \<Rightarrow> string \<Rightarrow> string \<Rightarrow> 'h \<Rightarrow> (string + string) \<times> 'h" where
  "finishTemplate E H stage target indexPath h =
     (if indexPath = [] then (Inl ''HAProxy template ZIP is missing index.html'', h)
      else let rootRelative = relBelow stage (dir indexPath) in
        case thenDo (hWrite H (joinPath [stage, ''.root'']) rootRelative 384) (thenDo (ignoring (hRemoveAll H target)) (heRename E stage target)) h of
          (Some err, h') \<Rightarrow> (Inl err, h')
        | (None, h') \<Rightarrow> (Inr (joinPath [target, rootRelative]), h'))"

text \<open>The directory that was made is removed at the end, when it is still there.\<close>

definition extractHAProxyTemplate :: "'h haproxyEnv \<Rightarrow> 'h host \<Rightarrow> string \<Rightarrow> string \<Rightarrow> 'h \<Rightarrow> (string + string) \<times> 'h" where
  "extractHAProxyTemplate E H archive target h =
     (case heZip E archive of
        None \<Rightarrow> (Inl ''invalid HAProxy template ZIP'', h)
      | Some files \<Rightarrow>
          if files = [] \<or> 2048 < length files then (Inl ''invalid HAProxy template ZIP'', h)
          else case heTempDir E (dir target) ''.haproxy-template-'' h of
            (Inl err, h') \<Rightarrow> (Inl err, h')
          | (Inr stage, h') \<Rightarrow>
              (case extractEntries H stage files 0 [] h' of
                 (Inl err, h'') \<Rightarrow> (Inl err, snd (hRemoveAll H stage h''))
               | (Inr indexPath, h'') \<Rightarrow> (case finishTemplate E H stage target indexPath h'' of (r, h3) \<Rightarrow> (r, snd (hRemoveAll H stage h3)))))"

section \<open>Sites\<close>

definition validateHAProxyTemplateURL :: "'h haproxyEnv \<Rightarrow> string \<Rightarrow> bool \<Rightarrow> string option" where
  "validateHAProxyTemplateURL E raw trustedMaster =
     (case heURL E raw of
        None \<Rightarrow> Some ''invalid HAProxy template URL''
      | Some u \<Rightarrow>
          if (upScheme u \<noteq> ''https'' \<and> upScheme u \<noteq> ''http'') \<or> upHostname u = [] \<or> upUser u then Some ''invalid HAProxy template URL''
          else if trustedMaster then None
          else if upScheme u \<noteq> ''https'' \<or> \<not> equalFold (upHostname u) ''templatemo.com'' \<or> \<not> hasPrefix (upPath u) ''/download/templatemo_''
          then Some ''untrusted HAProxy template URL'' else None)"

definition downloadHAProxyTemplate :: "'h haproxyEnv \<Rightarrow> haproxyRuntimeSite \<Rightarrow> string + string" where
  "downloadHAProxyTemplate E site =
     (case heGet E (hsTemplateURL site) (hsToken site) of
        Inl err \<Rightarrow> Inl (''download HAProxy template: '' @ err)
      | Inr response \<Rightarrow>
          if statusCode response < 200 \<or> 300 \<le> statusCode response then Inl (''download HAProxy template: HTTP '' @ formatInt (statusCode response))
          else case hbody response of
            Inl err \<Rightarrow> Inl err
          | Inr body \<Rightarrow> let body = take 33554433 body in
              if body = [] \<or> 33554432 < length body then Inl ''HAProxy template download exceeds 32 MiB'' else Inr body)"

definition builtinHAProxySite :: string where
  "builtinHAProxySite = ''<!doctype html><html lang='' @ quoted ''en'' @ ''><meta charset='' @ quoted ''utf-8'' @ ''><meta name='' @ quoted ''viewport''
     @ '' content='' @ quoted ''width=device-width,initial-scale=1'' @ ''><title>Welcome</title><style>body{margin:0;min-height:100vh;display:grid;place-items:center;background:#111;color:#eee;font:16px system-ui}''
     @ ''main{text-align:center;padding:2rem}h1{font-size:2.4rem;margin:.2rem}</style><main><h1>Welcome</h1><p>This website is served through HAProxy.</p></main>''"

definition builtinRoot :: "'h host \<Rightarrow> string \<Rightarrow> 'h \<Rightarrow> (string + string) \<times> 'h" where
  "builtinRoot H d h =
     (let root = joinPath [d, ''templates'', ''builtin''] in
      case thenDo (hMkdirAll H root 448) (hWrite H (joinPath [root, ''index.html'']) builtinHAProxySite 384) h of
        (Some err, h') \<Rightarrow> (Inl err, h') | (None, h') \<Rightarrow> (Inr root, h'))"

text \<open>A template that was unpacked before: the root its marker names, when there is an index.\<close>

definition cachedRoot :: "'h haproxyEnv \<Rightarrow> 'h host \<Rightarrow> 'h \<Rightarrow> string \<Rightarrow> string option" where
  "cachedRoot E H h basePath =
     (case hRead H h (joinPath [basePath, ''.root'']) of
        Inl _ \<Rightarrow> None
      | Inr relative \<Rightarrow> let root = joinPath [basePath, relative] in if heIsFile E h (joinPath [root, ''index.html'']) then Some root else None)"

definition siteRoot :: "'h haproxyEnv \<Rightarrow> 'h host \<Rightarrow> string \<Rightarrow> haproxyRuntimeSite \<Rightarrow> 'h \<Rightarrow> (string + string) \<times> 'h" where
  "siteRoot E H d site h =
     (if hsSource site = ''builtin'' then builtinRoot H d h
      else if hsSource site \<noteq> ''templatemo'' \<and> hsSource site \<noteq> ''upload'' then (Inl ''unsupported HAProxy website source'', h)
      else case validateHAProxyTemplateURL E (hsTemplateURL site) (hsToken site \<noteq> []) of
        Some err \<Rightarrow> (Inl err, h)
      | None \<Rightarrow>
          let key = (if hsSHA256 site = [] then heSum E (hsTemplateURL site) else hsSHA256 site); basePath = joinPath [d, ''templates'', key] in
          case cachedRoot E H h basePath of
            Some root \<Rightarrow> (Inr root, h)
          | None \<Rightarrow>
              (case downloadHAProxyTemplate E site of
                 Inl err \<Rightarrow> (Inl err, h)
               | Inr archive \<Rightarrow>
                   if hsSHA256 site \<noteq> [] \<and> \<not> equalFold (heSum E archive) (hsSHA256 site) then (Inl ''HAProxy template checksum mismatch'', h)
                   else extractHAProxyTemplate E H archive basePath h))"

definition validNodeCertificatePath :: "string \<Rightarrow> bool" where
  "validNodeCertificatePath v \<longleftrightarrow> isAbs v \<and> length v \<le> 1024 \<and> (\<forall>c \<in> set v. c \<notin> {CHR 0x00, CHR 0x0D, CHR 0x0A})"

definition selfSignedCertificate :: "'h haproxyEnv \<Rightarrow> 'h host \<Rightarrow> string \<Rightarrow> string \<Rightarrow> 'h action" where
  "selfSignedCertificate E H d hostname h =
     (if hostname = [] \<or> (\<exists>c \<in> set hostname. c \<in> {CHR 0x00, CHR 0x0D, CHR 0x0A, CHR ''/'', CHR 0x5C}) then (Some ''invalid self-signed certificate hostname'', h)
      else let certDir = joinPath [d, ''certificates'', take 16 (heSum E (toLower hostname))];
               certPath = joinPath [certDir, ''fullchain.pem'']; keyPath = joinPath [certDir, ''privkey.pem''] in
        if heLoad E h certPath keyPath = None then (None, h)
        else thenDo (hMkdirAll H certDir 448)
          (case heGenerate E hostname of
             Inl err \<Rightarrow> fail err
           | Inr (certPEM, keyPEM) \<Rightarrow> thenDo (hWrite H certPath certPEM 384) (thenDo (hWrite H keyPath keyPEM 384) (\<lambda>h. (heLoad E h certPath keyPath, h)))) h)"

definition siteCertificate :: "'h haproxyEnv \<Rightarrow> 'h host \<Rightarrow> string \<Rightarrow> haproxyRuntimeSite \<Rightarrow> 'h action" where
  "siteCertificate E H d site =
     (if hsTLSMode site = ''managed'' then (\<lambda>h. (hePair E (hsCertificatePEM site) (hsPrivateKeyPEM site), h))
      else if hsTLSMode site = ''custom'' then
        (if \<not> validNodeCertificatePath (hsCertificatePath site) \<or> \<not> validNodeCertificatePath (hsPrivateKeyPath site)
         then fail ''invalid HAProxy custom certificate path''
         else (\<lambda>h. (heLoad E h (hsCertificatePath site) (hsPrivateKeyPath site), h)))
      else if hsTLSMode site = ''self_signed'' then selfSignedCertificate E H d (hsHostname site)
      else fail ''unsupported HAProxy website TLS mode'')"

definition usesTLS :: "haproxyRuntimeSite \<Rightarrow> bool" where
  "usesTLS site \<longleftrightarrow> hsTLSMode site \<noteq> [] \<and> hsTLSMode site \<noteq> ''none''"

text \<open>The error of a value that is not used.\<close>

definition checked :: "('h \<Rightarrow> (string + 'a) \<times> 'h) \<Rightarrow> 'h action" where
  "checked f h = (case f h of (Inl err, h') \<Rightarrow> (Some err, h') | (Inr _, h') \<Rightarrow> (None, h'))"

definition checkSite :: "'h haproxyEnv \<Rightarrow> 'h host \<Rightarrow> string \<Rightarrow> haproxyRuntimeSite \<Rightarrow> 'h action" where
  "checkSite E H d site = thenDo (checked (siteRoot E H d site)) (if usesTLS site then siteCertificate E H d site else skip)"

text \<open>A site that is served is known by its socket; closing it removes the socket.\<close>

definition closeSites :: "'h haproxyEnv \<Rightarrow> 'h host \<Rightarrow> string list \<Rightarrow> 'h \<Rightarrow> 'h" where
  "closeSites E H sites h = fold (\<lambda>socket h. snd (hRemove H socket (heClose E socket h))) sites h"

definition validSocket :: "string \<Rightarrow> bool" where
  "validSocket socket \<longleftrightarrow> hasPrefix socket ''/tmp/rebecca-haproxy-'' \<and> hasSuffix socket ''.sock''"

definition startSite :: "'h haproxyEnv \<Rightarrow> 'h host \<Rightarrow> string \<Rightarrow> haproxyRuntimeSite \<Rightarrow> 'h action" where
  "startSite E H d site =
     thenDo (checked (siteRoot E H d site))
     (if \<not> validSocket (hsSocket site) then fail ''invalid HAProxy website socket''
      else thenDo (ignoring (hRemove H (hsSocket site)))
        (thenDo (heListen E (hsSocket site))
        (thenDo (ignoring (hChmod H (hsSocket site) 384))
        (if usesTLS site then
           (\<lambda>h. case siteCertificate E H d site h of (Some err, h') \<Rightarrow> (Some err, heClose E (hsSocket site) h') | (None, h') \<Rightarrow> (None, h'))
         else skip))))"

fun startSites :: "'h haproxyEnv \<Rightarrow> 'h host \<Rightarrow> string \<Rightarrow> haproxyRuntimeSite list \<Rightarrow> string list \<Rightarrow> 'h \<Rightarrow> (string + string list) \<times> 'h" where
  "startSites E H d [] started h = (Inr started, h)"
| "startSites E H d (site # sites) started h =
     (case startSite E H d site h of
        (Some err, h') \<Rightarrow> (Inl err, closeSites E H started h')
      | (None, h') \<Rightarrow> startSites E H d sites (started @ [hsSocket site]) h')"

section \<open>The manager\<close>

record haproxyManager =
  hmDir :: string
  hmSites :: "string list"
  hmLastError :: string

definition restartSitesLocked :: "'h haproxyEnv \<Rightarrow> 'h host \<Rightarrow> haproxyRuntimeSite list \<Rightarrow> haproxyManager \<times> 'h \<Rightarrow> string option \<times> haproxyManager \<times> 'h" where
  "restartSitesLocked E H sites s =
     (case s of (m, h) \<Rightarrow>
        (case startSites E H (hmDir m) sites [] (closeSites E H (hmSites m) h) of
           (Inl err, h') \<Rightarrow> (Some err, m\<lparr>hmSites := []\<rparr>, h')
         | (Inr started, h') \<Rightarrow> (None, m\<lparr>hmSites := started\<rparr>, h')))"

definition haproxyPID :: "'h host \<Rightarrow> 'h \<Rightarrow> string \<Rightarrow> int" where
  "haproxyPID H h path = (case hRead H h path of Inl _ \<Rightarrow> 0 | Inr raw \<Rightarrow> parseIntLax (trimSpace raw))"

definition processExists :: "'h haproxyEnv \<Rightarrow> 'h \<Rightarrow> int \<Rightarrow> bool" where
  "processExists E h pid \<longleftrightarrow> 0 < pid \<and> heSignal E h pid \<in> {None, Some EPERM}"

definition signalText :: "signalError \<Rightarrow> string" where
  "signalText err = (case err of ESRCH \<Rightarrow> ''no such process'' | EPERM \<Rightarrow> ''operation not permitted'' | OtherError msg \<Rightarrow> msg)"

definition terminateHAProxyProcess :: "'h haproxyEnv \<Rightarrow> int \<Rightarrow> 'h action" where
  "terminateHAProxyProcess E pid h = (case heTerminate E pid h of
     (None, h') \<Rightarrow> (None, h') | (Some ESRCH, h') \<Rightarrow> (None, h') | (Some err, h') \<Rightarrow> (Some (signalText err), h'))"

definition stopLocked :: "'h haproxyEnv \<Rightarrow> 'h host \<Rightarrow> haproxyManager \<times> 'h \<Rightarrow> string option \<times> haproxyManager \<times> 'h" where
  "stopLocked E H s =
     (case s of (m, h0) \<Rightarrow>
        let h = closeSites E H (hmSites m) h0; pidPath = joinPath [hmDir m, ''haproxy.pid'']; pid = haproxyPID H h pidPath; m' = m\<lparr>hmSites := []\<rparr> in
        if pid \<le> 0 \<or> \<not> processExists E h pid then (None, m', snd (hRemove H pidPath h))
        else case terminateHAProxyProcess E pid h of
          (Some err, h') \<Rightarrow> (Some err, m', h')
        | (None, h') \<Rightarrow> (None, m', snd (hRemove H pidPath h')))"

definition launchHAProxy :: "'h haproxyEnv \<Rightarrow> 'h host \<Rightarrow> string \<Rightarrow> 'h action" where
  "launchHAProxy E H d h =
     (let pidPath = joinPath [d, ''haproxy.pid'']; oldPID = haproxyPID H h pidPath;
          args = [''-W'', ''-db'', ''-f'', joinPath [d, ''haproxy.cfg''], ''-p'', pidPath] @ (if 0 < oldPID \<and> processExists E h oldPID then [''-sf'', formatInt oldPID] else [])
      in case heLaunch E args h of
           (Inl err, h') \<Rightarrow> (Some err, h')
         | (Inr None, h') \<Rightarrow> (None, h')
         | (Inr (Some None), h') \<Rightarrow> (Some ''HAProxy stopped during startup'', h')
         | (Inr (Some (Some err)), h') \<Rightarrow> (Some err, h'))"

definition checkConfig :: "'h host \<Rightarrow> string \<Rightarrow> 'h action" where
  "checkConfig H path h = (case hRun H [] ''haproxy'' [''-c'', ''-f'', path] h of
     ((None, _), h') \<Rightarrow> (None, h') | ((Some _, out), h') \<Rightarrow> (Some (''invalid HAProxy config: '' @ trimSpace out), h'))"

text \<open>
  What happens before the sites that are served are touched: the configuration is written to a new file and checked, and all sites
  are resolved. The result is the name of the file.
\<close>

definition prepareRuntime :: "'h haproxyEnv \<Rightarrow> 'h host \<Rightarrow> string \<Rightarrow> haproxyConfig \<Rightarrow> 'h \<Rightarrow> (string + string) \<times> 'h" where
  "prepareRuntime E H d rc h0 =
     (case hLook H h0 ''haproxy'' of
        Inl _ \<Rightarrow> (Inl ''HAProxy is not installed; update the Rebecca node first'', h0)
      | Inr _ \<Rightarrow>
          if hcConfigText rc = [] \<or> 1048576 < length (hcConfigText rc) \<or> CHR 0x00 \<in> set (hcConfigText rc) then (Inl ''invalid HAProxy config payload'', h0)
          else case hMkdirAll H d 448 h0 of
            (Some err, h1) \<Rightarrow> (Inl err, h1)
          | (None, h1) \<Rightarrow>
              (case heTemp E d ''haproxy-*.cfg'' h1 of
                 (Inl err, h2) \<Rightarrow> (Inl err, h2)
               | (Inr path, h2) \<Rightarrow>
                   (case thenDo (hWrite H path (hcConfigText rc) 384) (thenDo (checkConfig H path) (doAll (map (checkSite E H d) (hcSites rc)))) h2 of
                      (Some err, h3) \<Rightarrow> (Inl err, snd (hRemove H path h3))
                    | (None, h3) \<Rightarrow> (Inr path, h3))))"

definition haproxyApplyLocked :: "'h haproxyEnv \<Rightarrow> 'h host \<Rightarrow> haproxyConfig option \<Rightarrow> haproxyManager \<times> 'h \<Rightarrow> string option \<times> haproxyManager \<times> 'h" where
  "haproxyApplyLocked E H rc s =
     (case rc of
        None \<Rightarrow> stopLocked E H s
      | Some r \<Rightarrow>
          if \<not> hcEnabled r then stopLocked E H s
          else (case s of (m, h) \<Rightarrow>
            (case prepareRuntime E H (hmDir m) r h of
               (Inl err, h1) \<Rightarrow> (Some err, m, h1)
             | (Inr path, h1) \<Rightarrow>
                 (case restartSitesLocked E H (hcSites r) (m, h1) of
                    (Some err, m', h2) \<Rightarrow> (Some err, m', snd (hRemove H path h2))
                  | (None, m', h2) \<Rightarrow>
                      (case thenDo (heRename E path (joinPath [hmDir m, ''haproxy.cfg''])) (launchHAProxy E H (hmDir m)) h2 of
                         (err, h3) \<Rightarrow> (err, m', snd (hRemove H path h3)))))))"

definition haproxyApply :: "'h haproxyEnv \<Rightarrow> 'h host \<Rightarrow> haproxyConfig option \<Rightarrow> haproxyManager \<times> 'h \<Rightarrow> string option \<times> haproxyManager \<times> 'h" where
  "haproxyApply E H rc s =
     (case haproxyApplyLocked E H rc s of (err, m, h) \<Rightarrow> (err, m\<lparr>hmLastError := (case err of None \<Rightarrow> [] | Some msg \<Rightarrow> msg)\<rparr>, h))"

section \<open>Requests\<close>

datatype siteAnswer = NotFound | CustomNotFound string | ServeFiles

text \<open>The paths a request looks at, and the answer. \<open>stat\<close>: \<open>None\<close> when a path is not there, else whether it is a directory.\<close>

definition requestPath :: "string \<Rightarrow> string \<Rightarrow> string option" where
  "requestPath root urlPath =
     (let cleaned = clean (trimPrefix urlPath ''/'') in
      if cleaned = ''..'' \<or> hasPrefix cleaned ''../'' then None
      else Some (joinPath [root, if cleaned = ''.'' then ''index.html'' else cleaned]))"

definition defaultNotFound :: string where
  "defaultNotFound = ''<!doctype html><title>404 Not Found</title><h1>404 Not Found</h1>''"

definition haproxySiteHandler :: "(string \<Rightarrow> bool option) \<Rightarrow> string \<Rightarrow> string \<Rightarrow> string \<Rightarrow> siteAnswer" where
  "haproxySiteHandler stat root notFoundHTML urlPath =
     (case requestPath root urlPath of
        None \<Rightarrow> NotFound
      | Some path \<Rightarrow>
          let missing = (case stat path of None \<Rightarrow> True | Some isDir \<Rightarrow> isDir \<and> stat (joinPath [path, ''index.html'']) = None)
          in if missing then CustomNotFound (if notFoundHTML = [] then defaultNotFound else notFoundHTML) else ServeFiles)"

section \<open>Confinement\<close>

definition below :: "string list \<Rightarrow> string \<Rightarrow> bool" where
  "below cs path \<longleftrightarrow> (\<exists>e. e \<noteq> [] \<and> plainDir e \<and> path = absPath (cs @ e))"

lemma join_form: "joinPath [absPath cs, c] = absPath (cleanComps True (absPath cs @ ''/'' @ c))"
  using clean_abs_form [of "absPath cs @ ''/'' @ c"] by (simp add: joinPath_def absPath_def isAbs_def)

lemma destination_below:
  assumes "plainDir cs" and "cs \<noteq> []" and "hasPrefix (joinPath [absPath cs, c]) (absPath cs @ ''/'')"
  shows "below cs (joinPath [absPath cs, c])"
proof -
  let ?ds = "cleanComps True (absPath cs @ ''/'' @ c)"
  obtain e where e: "e \<noteq> []" "?ds = cs @ e" using below_prefix [OF assms(1) rooted_plainDir _ assms(2)] assms(3) unfolding join_form by metis
  moreover have "plainDir e" using rooted_plainDir [of "absPath cs @ ''/'' @ c"] e(2) by simp
  ultimately show ?thesis unfolding below_def join_form by metis
qed

lemma dir_below:
  assumes "plainDir cs" and "below cs path"
  shows "dir path = absPath cs \<or> below cs (dir path)"
proof -
  obtain e where e: "e \<noteq> []" "plainDir e" "path = absPath (cs @ e)" using assms(2) by (auto simp: below_def)
  then obtain f c where f: "e = f @ [c]" by (cases e rule: rev_cases) auto
  have "dir (absPath ((cs @ f) @ [c])) = absPath (cs @ f)" using assms(1) e(2) unfolding f by (intro dir_absPath) simp
  then have d: "dir path = absPath (cs @ f)" using e(3) f by simp
  show ?thesis
  proof (cases "f = []")
    case False
    then show ?thesis unfolding d below_def using e(2) f by auto
  qed (simp add: d)
qed

text \<open>
  (C15) Unpacking an archive touches nothing but the directory it unpacks to: every file it writes lies below the directory, and every
  directory it makes is the directory or lies below it, whatever names the archive holds and wherever the unpacking stops.
\<close>

theorem template_files_confined:
  assumes "plainDir cs" and "cs \<noteq> []" and "\<And>path content mode. below cs path \<Longrightarrow> keeping view (hWrite H path content mode)"
    and "\<And>path mode. path = absPath cs \<or> below cs path \<Longrightarrow> keeping view (hMkdirAll H path mode)"
  shows "view (snd (extractEntries H (absPath cs) files before indexPath h)) = view h"
proof (induction files arbitrary: before indexPath h)
  case (Cons f files)
  let ?d = "joinPath [absPath cs, entryPath f]"
  show ?case
  proof (cases "hasPrefix ?d (absPath cs @ ''/'')")
    case True
    have b: "below cs ?d" by (rule destination_below [OF assms(1,2) True])
    have "keeping view (\<lambda>h. (r, h))" for r :: "string option" by (simp add: keeping_def)
    then have "keeping view (copyFile H ?d f)" unfolding copyFile_def by (cases "teOpen f") (auto intro: keeps assms(3) b)
    then have kp: "keeping view (thenDo (hMkdirAll H (dir ?d) 448) (copyFile H ?d f))" using dir_below [OF assms(1) b] by (intro keeps assms(4))
    have k: "view h' = view h" if "thenDo (hMkdirAll H (dir ?d) 448) (copyFile H ?d f) h = (r, h')" for r h' by (rule keepingD [OF kp that])
    have m: "view h' = view h" if "hMkdirAll H ?d 448 h = (r, h')" for r h' using keepingD [OF assms(4) that] b by blast
    show ?thesis using Cons by (auto simp: Let_def split: prod.split option.split dest: k m)
  qed (simp add: Let_def)
qed simp

text \<open>The files a request can reach are those below the root of the site.\<close>

theorem site_paths_confined:
  assumes "plainDir root" and "requestPath (absPath root) urlPath = Some path"
  shows "\<exists>e. plainDir e \<and> path = absPath (root @ e)"
proof -
  let ?c = "clean (trimPrefix urlPath ''/'')"
  have c: "?c \<noteq> ''..''" "\<not> hasPrefix ?c ''../''" "path = joinPath [absPath root, if ?c = ''.'' then ''index.html'' else ?c]"
    using assms(2) by (auto simp: requestPath_def Let_def split: if_splits)
  show ?thesis
  proof (cases "?c = ''.''")
    case True
    then have "path = absPath (root @ [''index.html''])" unfolding c(3) using join_plain [OF assms(1), of "''index.html''"] by (simp add: plainComp_def)
    then show ?thesis by (intro exI [of _ "[''index.html'']"]) (simp add: plainComp_def)
  next
    case False
    have d: "downward (slashSplit ?c)" by (rule clean_downward [OF c(1,2) False])
    then have "path = absPath (root @ filter (\<lambda>c. c \<noteq> []) (slashSplit ?c))" unfolding c(3) using join_below [OF assms(1) d] False by simp
    then show ?thesis using downward_filter [OF d] by blast
  qed
qed

section \<open>Sizes\<close>

lemma sint_le_uint: "sint w \<le> uint w"
  for w :: "64 word"
  using uint_bounded [of w] by (simp add: sint_uint signed_take_bit_eq_take_bit_minus take_bit_int_eq_self)

lemma copied_bytes: "length (fst (copyEntry f)) \<le> unat (teSize f) + 1"
proof -
  have "uint (teSize f + 1) \<le> uint (teSize f) + 1" by (simp add: uint_plus_simple_iff uint_word_ariths zmod_le_nonneg_dividend)
  from order_trans [OF sint_le_uint this] have "nat (sint (teSize f + 1)) \<le> unat (teSize f) + 1" unfolding nat_le_iff uint_nat by simp
  then show ?thesis by (auto simp: copyEntry_def Let_def)
qed

definition unpacked :: "templateEntry list \<Rightarrow> nat" where
  "unpacked files = sum_list (map (\<lambda>f. if teIsDir f then 0 else length (fst (copyEntry f))) files)"

lemma limit_add:
  assumes "unat before \<le> 134217728" and "unat (teSize f) < 2 ^ 63" and "\<not> maxTemplateBytes < before + teSize f"
  shows "unat (before + teSize f) = unat before + unat (teSize f)" and "unat (before + teSize f) \<le> 134217728"
proof -
  have "unat before + unat (teSize f) < 2 ^ LENGTH(64)" using assms(1,2) by simp
  then show "unat (before + teSize f) = unat before + unat (teSize f)" by (simp add: unat_word_ariths)
  show "unat (before + teSize f) \<le> 134217728" using assms(3) by (simp add: maxTemplateBytes_def not_less word_le_nat_alt)
qed

text \<open>
  (C32) The bytes unpacked from an archive are bounded by 128 MiB, up to one byte for an entry, when no entry declares a size of
  \<open>2^63\<close> bytes or more.
\<close>

theorem template_bytes_bounded:
  assumes "extractEntries H stage files before indexPath h = (Inr found, h')" and "\<forall>f \<in> set files. unat (teSize f) < 2 ^ 63" and "unat before \<le> 134217728"
  shows "unpacked files + unat before \<le> 134217728 + length files"
  using assms
proof (induction files arbitrary: before indexPath h)
  case (Cons f files)
  note step = Cons.prems(1) [unfolded extractEntries.simps Let_def]
  show ?case
  proof (cases "teIsDir f")
    case True
    then obtain h1 where "extractEntries H stage files before indexPath h1 = (Inr found, h')" using step by (auto split: if_splits prod.splits option.splits)
    from Cons.IH [OF this] Cons.prems True show ?thesis by (simp add: unpacked_def)
  next
    case False
    then obtain i h1 where n: "\<not> maxTemplateBytes < before + teSize f" "extractEntries H stage files (before + teSize f) i h1 = (Inr found, h')"
      using step by (auto split: if_splits prod.splits option.splits)
    have u: "unat (before + teSize f) = unat before + unat (teSize f)" "unat (before + teSize f) \<le> 134217728" using limit_add [OF Cons.prems(3) _ n(1)] Cons.prems(2) by simp_all
    from Cons.IH [OF n(2) _ u(2)] Cons.prems(2) have "unpacked files + unat (before + teSize f) \<le> 134217728 + length files" by simp
    then show ?thesis using copied_bytes [of f] u(1) False by (simp add: unpacked_def)
  qed
qed (simp add: unpacked_def)

text \<open>
  Without that condition the sum of the sizes wraps around and the limit is not one: an entry that declares
  \<open>2^64 - 2^27\<close> bytes is unpacked to nothing and sets the sum back to zero, so that archives of any number of full entries pass.
\<close>

definition fullEntry :: templateEntry where
  "fullEntry = \<lparr>teName = ''index.html'', teIsDir = False, teSize = 134217728, teOpen = None, teData = replicate 134217728 CHR ''x'', teEnd = None\<rparr>"

definition resetEntry :: templateEntry where
  "resetEntry = \<lparr>teName = ''a'', teIsDir = False, teSize = - 134217728, teOpen = None, teData = [], teEnd = None\<rparr>"

definition freeHost :: "unit host" where
  "freeHost = \<lparr>hGOOS = ''linux'', hRoot = True, hLook = (\<lambda>h name. Inr name), hRun = (\<lambda>env command args h. ((None, []), h)), hRead = (\<lambda>h path. Inl ''no file''),
     hWrite = (\<lambda>path content mode. skip), hChmod = (\<lambda>path mode. skip), hMkdirAll = (\<lambda>path mode. skip), hRemove = (\<lambda>path. skip), hRemoveAll = (\<lambda>path. skip),
     hStat = (\<lambda>h path. None), hReadDir = (\<lambda>h path. Inr []), hSleep = (\<lambda>ms h. h)\<rparr>"

lemma bomb_entries: "entryPath fullEntry = ''index.html''" "entryPath resetEntry = ''a''" "fst (copyEntry resetEntry) = []" "length (fst (copyEntry fullEntry)) = 134217728"
    "snd (copyEntry fullEntry) = None" "snd (copyEntry resetEntry) = None"
proof -
  show "entryPath fullEntry = ''index.html''" "entryPath resetEntry = ''a''"
    by (simp_all add: entryPath_def fullEntry_def resetEntry_def replaceAll.simps hasPrefix_def clean_def isAbs_def cleanComps_def cleanStep_def)
  show "fst (copyEntry resetEntry) = []" "snd (copyEntry resetEntry) = None" by (simp_all add: copyEntry_def resetEntry_def Let_def)
  have l: "length (teData fullEntry) = 134217728" "teEnd fullEntry = None" "teSize fullEntry = 134217728" by (simp_all only: fullEntry_def templateEntry.select_convs length_replicate)
  have "sint (teSize fullEntry + 1) = 134217729" unfolding l(3) by simp
  then have c: "copyEntry fullEntry = (teData fullEntry, None)" unfolding copyEntry_def Let_def l(2) using l(1) by simp
  show "length (fst (copyEntry fullEntry)) = 134217728" "snd (copyEntry fullEntry) = None" unfolding c by (simp_all only: fst_conv snd_conv l(1))
qed

theorem template_limit_wraps:
  "(\<exists>found h'. extractEntries freeHost (absPath [''t'']) (concat (replicate n [fullEntry, resetEntry])) 0 indexPath h = (Inr found, h'))
   \<and> unpacked (concat (replicate n [fullEntry, resetEntry])) = n * 134217728"
proof (intro conjI)
  have j: "joinPath [absPath [''t''], ''index.html''] = absPath [''t'', ''index.html'']" "joinPath [absPath [''t''], ''a''] = absPath [''t'', ''a'']"
    using join_plain [of "[''t'']"] by (simp_all add: plainComp_def)
  have p: "hasPrefix (absPath [''t'', c]) (absPath [''t''] @ ''/'')" for c by (simp add: absPath_def hasPrefix_def)
  have copy: "thenDo (hMkdirAll freeHost d 448) (copyFile freeHost dest f) h = (None, h)" if "f \<in> {fullEntry, resetEntry}" for d dest f h
    using that bomb_entries(5,6) by (auto simp: copyFile_def freeHost_def skip_def thenDo_def fullEntry_def resetEntry_def)
  have full: "extractEntries freeHost (absPath [''t'']) (fullEntry # fs) 0 i h = extractEntries freeHost (absPath [''t'']) fs 134217728
      (if i = [] \<or> length (absPath [''t'', ''index.html'']) < length i then absPath [''t'', ''index.html''] else i) h" for fs i h
  proof -
    have "equalFold (base (absPath [''t'', ''index.html''])) ''index.html''" by code_simp
    moreover have "\<not> maxTemplateBytes < 0 + teSize fullEntry" "\<not> teIsDir fullEntry" by (simp_all add: maxTemplateBytes_def fullEntry_def)
    moreover have "teSize fullEntry = 134217728" by (simp add: fullEntry_def)
    ultimately show ?thesis using copy [of fullEntry] p by (simp add: Let_def bomb_entries(1) j hasPrefix_def isAbs_def)
  qed
  have reset: "\<exists>i'. extractEntries freeHost (absPath [''t'']) (resetEntry # fs) 134217728 i h = extractEntries freeHost (absPath [''t'']) fs 0 i' h" for fs i h
  proof -
    have "134217728 + teSize resetEntry = 0" "\<not> teIsDir resetEntry" by (simp_all add: resetEntry_def)
    then show ?thesis using copy [of resetEntry] p by (simp add: Let_def bomb_entries(2) j hasPrefix_def isAbs_def maxTemplateBytes_def) blast
  qed
  show "\<exists>found h'. extractEntries freeHost (absPath [''t'']) (concat (replicate n [fullEntry, resetEntry])) 0 indexPath h = (Inr found, h')"
  proof (induction n arbitrary: indexPath h)
    case (Suc n)
    let ?fs = "concat (replicate n [fullEntry, resetEntry])"
    obtain i where i: "extractEntries freeHost (absPath [''t'']) (fullEntry # resetEntry # ?fs) 0 indexPath h = extractEntries freeHost (absPath [''t'']) (resetEntry # ?fs) 134217728 i h"
      unfolding full by blast
    obtain i' where i': "extractEntries freeHost (absPath [''t'']) (resetEntry # ?fs) 134217728 i h = extractEntries freeHost (absPath [''t'']) ?fs 0 i' h" using reset by blast
    show ?case unfolding replicate_Suc concat.simps append_Cons append_Nil i i' by (rule Suc.IH)
  qed simp
  show "unpacked (concat (replicate n [fullEntry, resetEntry])) = n * 134217728"
  proof (induction n)
    case (Suc n)
    have "\<not> teIsDir fullEntry" "\<not> teIsDir resetEntry" by (simp_all add: fullEntry_def resetEntry_def)
    then show ?case using Suc bomb_entries(3,4) by (simp add: unpacked_def)
  qed (simp add: unpacked_def)
qed

section \<open>Sites that are served\<close>

text \<open>
  \<open>served h\<close>: the sockets that are listened on. Programs, files and directories do not touch them; removing a file does so only for
  a socket of a site, and the new file of the configuration is not one.
\<close>

definition siteLaws :: "'h haproxyEnv \<Rightarrow> 'h host \<Rightarrow> ('h \<Rightarrow> 'v) \<Rightarrow> bool" where
  "siteLaws E H served \<longleftrightarrow> (\<forall>env command args. keeping served (hRun H env command args)) \<and> (\<forall>path content mode. keeping served (hWrite H path content mode))
     \<and> (\<forall>path mode. keeping served (hMkdirAll H path mode)) \<and> (\<forall>path. keeping served (hRemoveAll H path)) \<and> (\<forall>path path'. keeping served (heRename E path path'))
     \<and> (\<forall>d pattern. keeping served (heTemp E d pattern) \<and> keeping served (heTempDir E d pattern))
     \<and> (\<forall>path. \<not> validSocket path \<longrightarrow> keeping served (hRemove H path)) \<and> (\<forall>d pattern h path h'. heTemp E d pattern h = (Inr path, h') \<longrightarrow> \<not> validSocket path)"

lemma siteLawsD:
  assumes "siteLaws E H served"
  shows "keeping served (hRun H env command args)" and "keeping served (hWrite H path content mode)" and "keeping served (hMkdirAll H path mode)"
    and "keeping served (hRemoveAll H path)" and "keeping served (heRename E path path')" and "keeping served (heTemp E d pattern)" and "keeping served (heTempDir E d pattern)"
    and "\<not> validSocket path \<Longrightarrow> keeping served (hRemove H path)" and "heTemp E d pattern h = (Inr path, h') \<Longrightarrow> \<not> validSocket path"
  using assms unfolding siteLaws_def by blast+

lemma keeping_pair [keeps]: "keeping view (\<lambda>h. (f h, h))"
  by (simp add: keeping_def)

lemma keeping_extract:
  assumes "siteLaws E H served"
  shows "keeping served (extractHAProxyTemplate E H archive target)"
proof -
  note l = siteLawsD [OF assms]
  have "keeping served (copyFile H p f)" for p f unfolding copyFile_def by (cases "teOpen f") (auto intro: keeps l(2))
  then have kp: "keeping served (thenDo (hMkdirAll H q 448) (copyFile H p f))" for p q f by (intro keeps l(3))
  have k: "served h' = served h" if "thenDo (hMkdirAll H q 448) (copyFile H p f) h = (r, h')" for p q f r h h' by (rule keepingD [OF kp that])
  have m: "served h' = served h" if "hMkdirAll H p 448 h = (r, h')" for p r h h' by (rule keepingD [OF l(3) that])
  have x: "served (snd (extractEntries H stage files before i h)) = served h" for stage files before i h
    by (induction files arbitrary: before i h) (auto simp: Let_def split: prod.split option.split dest: k m)
  have kf: "keeping served (thenDo (hWrite H p c 384) (thenDo (ignoring (hRemoveAll H target)) (heRename E stage target)))" for p c stage
    by (intro keeps l)
  have f: "served h' = served h" if "finishTemplate E H stage target i h = (r, h')" for stage i r h h'
    using that by (auto simp: finishTemplate_def Let_def split: if_splits prod.splits option.splits dest!: keepingD [OF kf])
  have x': "served h' = served h" if "extractEntries H stage files before i h = (r, h')" for stage files before i h r h' using x that by (metis snd_conv)
  have t: "served h' = served h" if "heTempDir E d pattern h = (r, h')" for d pattern r h h' by (rule keepingD [OF l(7) that])
  have rm: "served (snd (hRemoveAll H stage h)) = served h" for stage h using l(4) by (simp add: keeping_def)
  show ?thesis unfolding keeping_def extractHAProxyTemplate_def by (auto simp: rm split: option.split prod.split sum.split dest!: x' t f)
qed

lemma keeping_checkSite:
  assumes "siteLaws E H served"
  shows "keeping served (checkSite E H d site)"
proof -
  note l = siteLawsD [OF assms]
  have kb: "keeping served (thenDo (hMkdirAll H root 448) (hWrite H p c 384))" for root p c by (intro keeps l)
  have b: "served h' = served h" if "builtinRoot H d h = (r, h')" for r h h'
    using that by (auto simp: builtinRoot_def Let_def split: prod.splits option.splits dest!: keepingD [OF kb])
  have x: "served h' = served h" if "extractHAProxyTemplate E H archive target h = (r, h')" for archive target r h h' by (rule keepingD [OF keeping_extract [OF assms] that])
  have "served h' = served h" if "siteRoot E H d site h = (r, h')" for r h h'
    using that by (auto simp: siteRoot_def Let_def split: if_splits option.splits sum.splits dest!: b x)
  then have "keeping served (checked (siteRoot E H d site))" unfolding keeping_def checked_def by (auto split: prod.split sum.split)
  moreover have "keeping served (selfSignedCertificate E H d name)" for name
  proof -
    have "keeping served (thenDo (hMkdirAll H certDir 448)
          (case heGenerate E name of
             Inl err \<Rightarrow> fail err
           | Inr (certPEM, keyPEM) \<Rightarrow> thenDo (hWrite H certPath certPEM 384) (thenDo (hWrite H keyPath keyPEM 384) (\<lambda>h. (heLoad E h certPath keyPath, h)))))" for certDir certPath keyPath
      by (intro keeps l) (auto split: sum.split prod.split intro!: keeps l)
    then show ?thesis unfolding keeping_def selfSignedCertificate_def by (simp add: Let_def)
  qed
  then have "keeping served (siteCertificate E H d site)" unfolding siteCertificate_def by (intro keeps)
  ultimately show ?thesis unfolding checkSite_def by (intro keeps)
qed

text \<open>
  A runtime that cannot be prepared (a template that cannot be downloaded or unpacked, a certificate that cannot be loaded, a
  configuration that HAProxy refuses) is reported, and the sites that are served stay as they are.
\<close>

theorem haproxy_failure_keeps_sites:
  assumes "siteLaws E H served" and "hcEnabled r" and "prepareRuntime E H (hmDir m) r h = (Inl err, h1)"
  shows "haproxyApply E H (Some r) (m, h) = (Some err, m\<lparr>hmLastError := err\<rparr>, h1) \<and> served h1 = served h"
proof -
  note l = siteLawsD [OF assms(1)]
  have "keeping served (checkConfig H path)" for path
    unfolding keeping_def checkConfig_def by (auto split: prod.split option.split dest: keepingD [OF l(1)])
  then have "keeping served (thenDo (hWrite H path c 384) (thenDo (checkConfig H path) (doAll (map (checkSite E H d) sites))))" for path c d sites
    using keeping_checkSite [OF assms(1)] by (intro keeps l) auto
  note kp = keepingD [OF this]
  have "served h1 = served h"
    using assms(3) keepingD [OF l(3)] keepingD [OF l(6)] kp l(8) [unfolded keeping_def] l(9)
    by (auto simp: prepareRuntime_def split: sum.splits if_splits prod.splits option.splits)
  then show ?thesis using assms(2,3) by (simp add: haproxyApply_def haproxyApplyLocked_def)
qed

section \<open>Examples\<close>

text \<open>A host that remembers the paths that were written or made.\<close>

definition traceHost :: "string list host" where
  "traceHost = \<lparr>hGOOS = ''linux'', hRoot = True, hLook = (\<lambda>h name. Inr name), hRun = (\<lambda>env command args h. ((None, []), h)), hRead = (\<lambda>h path. Inl ''no file''),
     hWrite = (\<lambda>path content mode h. (None, h @ [path])), hChmod = (\<lambda>path mode. skip), hMkdirAll = (\<lambda>path mode h. (None, h @ [path])), hRemove = (\<lambda>path. skip), hRemoveAll = (\<lambda>path. skip),
     hStat = (\<lambda>h path. None), hReadDir = (\<lambda>h path. Inr []), hSleep = (\<lambda>ms h. h)\<rparr>"

definition smallEntry :: "string \<Rightarrow> templateEntry" where
  "smallEntry name = \<lparr>teName = name, teIsDir = False, teSize = 5, teOpen = None, teData = ''hello'', teEnd = None\<rparr>"

definition outside :: "string list \<Rightarrow> string list \<Rightarrow> string list" where
  "outside cs paths = filter (\<lambda>p. p \<noteq> absPath cs \<and> \<not> below cs p) paths"

theorem template_files_confined_witness:
  "outside [''t''] (snd (extractEntries traceHost (absPath [''t'']) [smallEntry ''site/index.html'', smallEntry ''../../etc/passwd''] 0 [] [])) = []"
proof -
  have "keeping (outside [''t'']) (hWrite traceHost path content mode)" if "below [''t''] path" for path content mode
    using that by (simp add: keeping_def outside_def traceHost_def)
  moreover have "keeping (outside [''t'']) (hMkdirAll traceHost path mode)" if "path = absPath [''t''] \<or> below [''t''] path" for path mode
    using that by (auto simp: keeping_def outside_def traceHost_def)
  ultimately show ?thesis
    using template_files_confined [of "[''t'']" "outside [''t'']" traceHost "[smallEntry ''site/index.html'', smallEntry ''../../etc/passwd'']" 0 "[]" "[]"]
    by (simp add: plainComp_def outside_def del: extractEntries.simps)
qed

theorem site_paths_confined_witness: "\<exists>e. plainDir e \<and> absPath [''r'', ''b''] = absPath ([''r''] @ e)"
proof (rule site_paths_confined [where urlPath = "''/a/../b''"])
  show "plainDir [''r'']" by (simp add: plainComp_def)
  show "requestPath (absPath [''r'']) ''/a/../b'' = Some (absPath [''r'', ''b''])" by code_simp
qed

theorem template_bytes_bounded_witness: "unpacked [smallEntry ''index.html''] \<le> 134217729"
proof -
  have "entryPath (smallEntry ''index.html'') = ''index.html''"
    by (simp add: entryPath_def smallEntry_def replaceAll.simps hasPrefix_def clean_def isAbs_def cleanComps_def cleanStep_def)
  moreover have "joinPath [absPath [''t''], ''index.html''] = absPath [''t'', ''index.html'']" using join_plain [of "[''t'']" "''index.html''"] by (simp add: plainComp_def)
  moreover have "copyEntry (smallEntry ''index.html'') = (''hello'', None)" by (simp add: copyEntry_def smallEntry_def Let_def)
  moreover have "equalFold (base (absPath [''t'', ''index.html''])) ''index.html''" by code_simp
  ultimately have "extractEntries freeHost (absPath [''t'']) [smallEntry ''index.html''] 0 [] () = (Inr (absPath [''t'', ''index.html'']), ())"
    by (simp add: Let_def hasPrefix_def isAbs_def copyFile_def thenDo_def freeHost_def skip_def smallEntry_def maxTemplateBytes_def) (simp add: absPath_def)
  from template_bytes_bounded [OF this] show ?thesis by (simp add: smallEntry_def)
qed

definition exampleSite :: haproxyRuntimeSite where
  "exampleSite = \<lparr>hsSocket = ''/tmp/rebecca-haproxy-1.sock'', hsHostname = ''h'', hsSource = ''other'', hsTemplateURL = [], hsToken = [], hsSHA256 = [], hsTLSMode = [],
     hsCertificatePEM = [], hsPrivateKeyPEM = [], hsCertificatePath = [], hsPrivateKeyPath = [], hsNotFoundHTML = []\<rparr>"

definition socketHost :: "string list host" where
  "socketHost = traceHost\<lparr>hWrite := (\<lambda>path content mode. skip), hMkdirAll := (\<lambda>path mode. skip), hRemove := (\<lambda>path h. (None, removeAll path h))\<rparr>"

definition exampleHAProxy :: "string list haproxyEnv" where
  "exampleHAProxy = \<lparr>heTemp = (\<lambda>d pattern h. (Inr ''/d/haproxy-1.cfg'', h)), heTempDir = (\<lambda>d pattern h. (Inr ''/d/stage'', h)), heRename = (\<lambda>p q. skip), heIsFile = (\<lambda>h p. False),
     heZip = (\<lambda>a. None), heSum = (\<lambda>s. s), heURL = (\<lambda>s. None), heGet = (\<lambda>u t. Inl ''no network''), hePair = (\<lambda>c k. None), heLoad = (\<lambda>h c k. None),
     heGenerate = (\<lambda>n. Inl ''no entropy''), heListen = (\<lambda>s h. (None, h @ [s])), heClose = (\<lambda>s h. removeAll s h), heSignal = (\<lambda>h p. Some ESRCH), heTerminate = (\<lambda>p h. (None, h)),
     heLaunch = (\<lambda>args h. (Inr None, h))\<rparr>"

definition servedSockets :: "string list \<Rightarrow> string list" where
  "servedSockets h = filter validSocket h"

lemma exampleHAProxy_laws: "siteLaws exampleHAProxy socketHost servedSockets"
proof -
  have "\<not> validSocket ''/d/haproxy-1.cfg''" by (simp add: validSocket_def hasPrefix_def)
  moreover have "filter validSocket (removeAll path h) = filter validSocket h" if "\<not> validSocket path" for path h using that by (induction h) auto
  ultimately show ?thesis by (simp add: siteLaws_def keeping_def exampleHAProxy_def socketHost_def traceHost_def skip_def servedSockets_def)
qed

theorem haproxy_failure_keeps_sites_witness:
  "servedSockets (snd (snd (haproxyApply exampleHAProxy socketHost (Some \<lparr>hcEnabled = True, hcConfigText = ''global'', hcSites = [exampleSite]\<rparr>)
     (\<lparr>hmDir = ''/d'', hmSites = [''/tmp/rebecca-haproxy-0.sock''], hmLastError = []\<rparr>, [''/tmp/rebecca-haproxy-0.sock''])))) = [''/tmp/rebecca-haproxy-0.sock'']"
proof -
  let ?r = "\<lparr>hcEnabled = True, hcConfigText = ''global'', hcSites = [exampleSite]\<rparr>" and ?m = "\<lparr>hmDir = ''/d'', hmSites = [''/tmp/rebecca-haproxy-0.sock''], hmLastError = []\<rparr>"
  have c: "checkConfig socketHost p h = (None, h)" for p h by (simp add: checkConfig_def socketHost_def traceHost_def)
  have f: "hLook socketHost h n = Inr n" "hWrite socketHost p t k = skip" "hMkdirAll socketHost p k = skip" "hRemove socketHost p h = (None, removeAll p h)"
    "heTemp exampleHAProxy d q h = (Inr ''/d/haproxy-1.cfg'', h)" for h n p t k d q by (simp_all add: socketHost_def traceHost_def exampleHAProxy_def)
  have "checkSite exampleHAProxy socketHost d exampleSite h = (Some ''unsupported HAProxy website source'', h)" for d h
    by (simp add: checkSite_def checked_def siteRoot_def exampleSite_def thenDo_def)
  then have "prepareRuntime exampleHAProxy socketHost (hmDir ?m) ?r [''/tmp/rebecca-haproxy-0.sock''] = (Inl ''unsupported HAProxy website source'', [''/tmp/rebecca-haproxy-0.sock''])"
    using c f by (simp add: prepareRuntime_def thenDo_def skip_def)
  from haproxy_failure_keeps_sites [OF exampleHAProxy_laws _ this] show ?thesis by (simp add: servedSockets_def validSocket_def hasPrefix_def hasSuffix_def)
qed

end
