(* ===== verification/Outbound_Chain.thy ===== *)
theory Outbound_Chain
  imports Any_Values Xray_Config
begin

text \<open>
  The configuration of an Xray process that tests an outbound or a route: \<open>selectOutboundTestOutbounds\<close>,
  \<open>buildOutboundTestConfig\<close> and \<open>buildRouteTestConfig\<close> of \<open>internal/xray/outbound_check.go\<close>. An outbound is an object of the
  configuration; it may be reached through another one, named by \<open>proxySettings\<close>. Results: the walk along these names ends, also
  on a cycle, and selects exactly the outbounds that the tested one needs; the test processes listen on the loopback address only and
  keep WireGuard in user space.
\<close>

section \<open>Definitions\<close>

definition stringFromMap :: "floats \<Rightarrow> jobj \<Rightarrow> string \<Rightarrow> string" where
  "stringFromMap F m key = (case map_of m key of None \<Rightarrow> [] | Some JNull \<Rightarrow> [] | Some v \<Rightarrow> trimSpace (sprintAny F v))"

text \<open>The tag of an outbound as it is printed: an outbound without a tag has the tag \<open><nil>\<close>.\<close>

definition outboundTag :: "floats \<Rightarrow> jobj \<Rightarrow> string" where
  "outboundTag F outbound = trimSpace (settingText F (map_of outbound ''tag''))"

definition proxyTag :: "floats \<Rightarrow> jobj \<Rightarrow> string" where
  "proxyTag F outbound = trimSpace (stringFromMap F (objOr (map_of outbound ''proxySettings'')) ''tag'')"

definition outboundsByTag :: "floats \<Rightarrow> jobj list \<Rightarrow> (string, jobj) gomap" where
  "outboundsByTag F outbounds = foldl (\<lambda>m outbound. let tag = outboundTag F outbound in if tag \<noteq> [] then AList.update tag outbound m else m) [] outbounds"

text \<open>The loop of the selection; \<open>Inl\<close> is the tag that was not found. The value \<open>None\<close> stands for a loop that does not end.\<close>

partial_function (option) followProxies :: "floats \<Rightarrow> (string, jobj) gomap \<Rightarrow> string \<Rightarrow> string list \<Rightarrow> jobj list \<Rightarrow> (string + jobj list) option" where
  [code]: "followProxies F byTag tag seen selected =
     (if tag = [] then Some (Inr selected)
      else if tag \<in> set seen then Some (Inr selected)
      else case map_of byTag tag of
          None \<Rightarrow> Some (Inl tag)
        | Some outbound \<Rightarrow> followProxies F byTag (proxyTag F outbound) (tag # seen) (selected @ [outbound]))"

definition selectOutboundTestOutbounds :: "floats \<Rightarrow> string \<Rightarrow> jobj list \<Rightarrow> (string + jobj list) option" where
  "selectOutboundTestOutbounds F tag outbounds = followProxies F (outboundsByTag F outbounds) (trimSpace tag) [] []"

definition isWireguard :: "floats \<Rightarrow> jobj \<Rightarrow> bool" where
  "isWireguard F outbound = equalFold (trimSpace (settingText F (map_of outbound ''protocol''))) ''wireguard''"

definition withoutKernelTun :: "floats \<Rightarrow> jobj \<Rightarrow> jobj" where
  "withoutKernelTun F outbound =
     (if isWireguard F outbound
      then AList.update ''settings'' (JObj (AList.update ''noKernelTun'' (JBool True) (objOr (map_of outbound ''settings'')))) outbound
      else outbound)"

definition testLog :: json where
  "testLog = JObj [(''loglevel'', JStr ''warning''), (''access'', JStr ''none''), (''error'', JStr ''none''), (''dnsLog'', JBool False)]"

text \<open>An outbound is copied by encoding and decoding it: \<open>reencode\<close>.\<close>

fun cloneOutbounds :: "(jobj \<Rightarrow> string + jobj) \<Rightarrow> floats \<Rightarrow> jobj list \<Rightarrow> string + jobj list" where
  "cloneOutbounds reencode F [] = Inr []"
| "cloneOutbounds reencode F (outbound # rest) =
     (case reencode outbound of Inl err \<Rightarrow> Inl err
      | Inr cloned \<Rightarrow> (case cloneOutbounds reencode F rest of Inl err \<Rightarrow> Inl err | Inr os \<Rightarrow> Inr (withoutKernelTun F cloned # os)))"

definition outboundTestDocument :: "string \<Rightarrow> int \<Rightarrow> jobj list \<Rightarrow> jobj" where
  "outboundTestDocument tag testPort outbounds =
     [(''log'', testLog),
      (''inbounds'', JArr [JObj [(''tag'', JStr ''test-inbound''), (''listen'', JStr ''127.0.0.1''), (''port'', JNum (formatInt testPort)),
         (''protocol'', JStr ''socks''), (''settings'', JObj [(''auth'', JStr ''noauth''), (''udp'', JBool True)])]]),
      (''outbounds'', JArr (map JObj outbounds)),
      (''routing'', JObj [(''domainStrategy'', JStr ''AsIs''),
         (''rules'', JArr [JObj [(''type'', JStr ''field''), (''outboundTag'', JStr tag), (''network'', JStr ''tcp,udp'')]])]),
      (''policy'', JObj []), (''stats'', JObj [])]"

definition buildOutboundTestConfig :: "(jobj \<Rightarrow> string + jobj) \<Rightarrow> floats \<Rightarrow> string \<Rightarrow> jobj list \<Rightarrow> int \<Rightarrow> (string + jobj) option" where
  "buildOutboundTestConfig reencode F tag outbounds testPort =
     (case selectOutboundTestOutbounds F tag outbounds of
        None \<Rightarrow> None
      | Some (Inl missing) \<Rightarrow> Some (Inl (''outbound '' @ missing @ '' was not found''))
      | Some (Inr selected) \<Rightarrow> (case cloneOutbounds reencode F selected of
          Inl err \<Rightarrow> Some (Inl err)
        | Inr cloned \<Rightarrow> Some (Inr (outboundTestDocument tag testPort cloned))))"

definition routeTestInbound :: "string \<Rightarrow> int \<Rightarrow> json" where
  "routeTestInbound tag socksPort =
     JObj [(''tag'', JStr tag), (''listen'', JStr ''127.0.0.1''), (''port'', JNum (formatInt socksPort)), (''protocol'', JStr ''socks''),
       (''settings'', JObj [(''auth'', JStr ''noauth''), (''udp'', JBool False)]),
       (''sniffing'', JObj [(''enabled'', JBool True), (''destOverride'', JArr [JStr ''http'', JStr ''tls'', JStr ''quic''])])]"

definition testSettings :: "int \<Rightarrow> settings" where
  "testSettings apiPort = \<lparr>AppName = [], InstallMode = [], ServiceHost = [], ServicePort = 0, XrayAPIHost = ''127.0.0.1'', XrayAPIPort = apiPort,
     RebeccaDataDir = [], XrayExecutablePath = [], XrayAssetsPath = [], XrayLogDir = [], NodeVersion = [], SSLCertFile = [], SSLKeyFile = [],
     SSLClientCertFile = [], Debug = False, SettingsInbounds = []\<rparr>"

definition routeTestDocument :: "floats \<Rightarrow> string \<Rightarrow> int \<Rightarrow> jobj \<Rightarrow> jobj" where
  "routeTestDocument F inboundTag socksPort m =
     (let tag = (if trimSpace inboundTag = [] then ''route-test'' else trimSpace inboundTag);
          outbounds = map (\<lambda>item. case item of JObj outbound \<Rightarrow> JObj (withoutKernelTun F outbound) | _ \<Rightarrow> item) (arrOr (map_of m ''outbounds''))
      in AList.update ''inbounds'' (JArr [routeTestInbound tag socksPort]) (AList.update ''log'' testLog (AList.update ''outbounds'' (JArr outbounds) m)))"

text \<open>The prepared document is encoded, decoded by \<open>NewConfig\<close> and encoded again.\<close>

definition buildRouteTestConfig :: "(string \<Rightarrow> string + json) \<Rightarrow> (json \<Rightarrow> string + string) \<Rightarrow> floats \<Rightarrow> string \<Rightarrow> string \<Rightarrow> int \<Rightarrow> int \<Rightarrow> string goResult" where
  "buildRouteTestConfig unmarshal marshal F raw inboundTag socksPort apiPort =
     (case unmarshal raw of
        Inr (JObj m) \<Rightarrow>
          if arrOr (map_of m ''outbounds'') = [] then Err ''Xray config has no outbounds''
          else (case marshal (JObj (routeTestDocument F inboundTag socksPort m)) of
              Inl err \<Rightarrow> Err err
            | Inr prepared \<Rightarrow> (case NewConfig unmarshal prepared ''127.0.0.1'' (testSettings apiPort) of
                Ok c \<Rightarrow> (case marshal (JObj (cfgData c)) of Inl err \<Rightarrow> Err err | Inr out \<Rightarrow> Ok out)
              | Err err \<Rightarrow> Err err
              | Panic \<Rightarrow> Panic))
      | Inr JNull \<Rightarrow> Err ''Xray config has no outbounds''
      | _ \<Rightarrow> Err ''invalid Xray config'')"

section \<open>The walk along the proxies\<close>

text \<open>The outbounds that are used when traffic leaves through \<open>tag\<close>.\<close>

inductive leadsTo :: "floats \<Rightarrow> (string, jobj) gomap \<Rightarrow> string \<Rightarrow> string \<Rightarrow> bool" for F byTag start where
  here: "start \<noteq> [] \<Longrightarrow> leadsTo F byTag start start"
| through: "leadsTo F byTag start tag \<Longrightarrow> map_of byTag tag = Some outbound \<Longrightarrow> proxyTag F outbound \<noteq> []
    \<Longrightarrow> leadsTo F byTag start (proxyTag F outbound)"

definition unseen :: "(string, jobj) gomap \<Rightarrow> string list \<Rightarrow> nat" where
  "unseen byTag seen = card (fst ` set byTag - set seen)"

lemma unseen_less: "map_of byTag tag = Some outbound \<Longrightarrow> tag \<notin> set seen \<Longrightarrow> unseen byTag (tag # seen) < unseen byTag seen"
proof -
  assume *: "map_of byTag tag = Some outbound" "tag \<notin> set seen"
  have "fst ` set byTag - set (tag # seen) = (fst ` set byTag - set seen) - {tag}" by auto
  moreover have "tag \<in> fst ` set byTag - set seen" using * map_of_eq_None_iff [of byTag tag] by simp
  ultimately show ?thesis unfolding unseen_def by (simp only: card_Diff1_less finite_Diff finite_imageI finite_set)
qed

text \<open>What the loop has done so far: the selected outbounds are those of the tags seen, in order, and the next tag follows from them.\<close>

definition walked :: "floats \<Rightarrow> (string, jobj) gomap \<Rightarrow> string \<Rightarrow> string \<Rightarrow> string list \<Rightarrow> jobj list \<Rightarrow> bool" where
  "walked F byTag start tag seen selected \<longleftrightarrow>
     distinct seen \<and> map Some selected = map (map_of byTag) (rev seen)
     \<and> (\<forall>t \<in> set seen. leadsTo F byTag start t)
     \<and> (tag \<noteq> [] \<longrightarrow> leadsTo F byTag start tag)
     \<and> (\<forall>t \<in> set seen. \<forall>outbound. map_of byTag t = Some outbound \<longrightarrow> proxyTag F outbound = [] \<or> proxyTag F outbound \<in> insert tag (set seen))
     \<and> (start \<noteq> [] \<longrightarrow> start \<in> insert tag (set seen))"

definition walkDone :: "floats \<Rightarrow> (string, jobj) gomap \<Rightarrow> string \<Rightarrow> string + jobj list \<Rightarrow> bool" where
  "walkDone F byTag start r = (case r of
       Inl missing \<Rightarrow> leadsTo F byTag start missing \<and> map_of byTag missing = None
     | Inr selected \<Rightarrow> \<exists>tags. distinct tags \<and> map Some selected = map (map_of byTag) tags \<and> set tags = {t. leadsTo F byTag start t})"

lemma leadsTo_not_Nil: "leadsTo F byTag start t \<Longrightarrow> t \<noteq> []"
  by (induction rule: leadsTo.induct) auto

lemma walked_covers:
  assumes w: "walked F byTag start tag seen selected" and d: "tag = [] \<or> tag \<in> set seen" and t: "leadsTo F byTag start t"
  shows "t \<in> set seen"
  using t
proof (induction rule: leadsTo.induct)
  case here
  then show ?case using w d by (auto simp: walked_def)
next
  case (through tag' outbound)
  then have "proxyTag F outbound \<in> insert tag (set seen)" using w by (auto simp: walked_def)
  then show ?case using d through.hyps(3) by auto
qed

lemma walked_step:
  assumes "walked F byTag start tag seen selected" and "tag \<noteq> []" and "tag \<notin> set seen" and "map_of byTag tag = Some outbound"
  shows "walked F byTag start (proxyTag F outbound) (tag # seen) (selected @ [outbound])"
  using assms by (auto simp: walked_def intro: leadsTo.through)

lemma followProxies_done:
  assumes "walked F byTag start tag seen selected"
  shows "\<exists>r. followProxies F byTag tag seen selected = Some r \<and> walkDone F byTag start r"
  using assms
proof (induction "unseen byTag seen" arbitrary: tag seen selected rule: less_induct)
  case less
  note w = less.prems
  consider (stop) "tag = [] \<or> tag \<in> set seen" | (missing) "tag \<noteq> []" "tag \<notin> set seen" "map_of byTag tag = None"
    | (more) outbound where "tag \<noteq> []" "tag \<notin> set seen" "map_of byTag tag = Some outbound" by (cases "map_of byTag tag") auto
  then show ?case
  proof cases
    case stop
    have s: "set (rev seen) = {t. leadsTo F byTag start t}" using w walked_covers [OF w stop] by (auto simp: walked_def)
    have "walkDone F byTag start (Inr selected)" unfolding walkDone_def sum.case
      by (rule exI [of _ "rev seen"]) (use w s in \<open>auto simp: walked_def\<close>)
    then show ?thesis using stop by (auto simp: followProxies.simps [of F byTag tag])
  next
    case missing
    then show ?thesis using w by (simp add: followProxies.simps [of F byTag tag] walkDone_def walked_def)
  next
    case (more outbound)
    show ?thesis using less.hyps [OF unseen_less [OF more(3,2)] walked_step [OF w more]] more by (simp add: followProxies.simps [of F byTag tag])
  qed
qed

lemma walked_start: "walked F byTag start start [] []"
  by (simp add: walked_def leadsTo.here)

lemma select_done: "\<exists>r. selectOutboundTestOutbounds F tag outbounds = Some r \<and> walkDone F (outboundsByTag F outbounds) (trimSpace tag) r"
  unfolding selectOutboundTestOutbounds_def by (rule followProxies_done [OF walked_start])

lemma outbound_config_total: "\<exists>r. buildOutboundTestConfig reencode F tag outbounds port = Some r"
proof -
  obtain r where "selectOutboundTestOutbounds F tag outbounds = Some r" using select_done by blast
  then show ?thesis by (cases r) (simp_all add: buildOutboundTestConfig_def split: sum.split)
qed

section \<open>Test documents\<close>

definition userSpace :: "floats \<Rightarrow> json \<Rightarrow> bool" where
  "userSpace F item = (case item of
       JObj outbound \<Rightarrow> isWireguard F outbound \<longrightarrow> map_of (objOr (map_of outbound ''settings'')) ''noKernelTun'' = Some (JBool True)
     | _ \<Rightarrow> True)"

definition onLoopback :: "json \<Rightarrow> bool" where
  "onLoopback item = (map_of (objOr (Some item)) ''listen'' = Some (JStr ''127.0.0.1''))"

lemma withoutKernelTun_userSpace: "userSpace F (JObj (withoutKernelTun F outbound))"
  by (simp add: userSpace_def withoutKernelTun_def isWireguard_def)

lemma cloned_userSpace: "cloneOutbounds reencode F os = Inr cloned \<Longrightarrow> list_all (\<lambda>o'. userSpace F (JObj o')) cloned"
  by (induction os arbitrary: cloned) (auto simp: withoutKernelTun_userSpace split: sum.splits)

lemma keptRules_routing: "map_of m ''api'' = map_of m' ''api'' \<Longrightarrow> map_of m ''routing'' = map_of m' ''routing'' \<Longrightarrow> keptRules m = keptRules m'"
  by (simp add: keptRules_def filterAPIRoutes_def Let_def split: option.split)

lemma testSettings_api [simp]: "XrayAPIHost (testSettings p) = ''127.0.0.1''" "SettingsInbounds (testSettings p) = []"
  by (simp_all add: testSettings_def)

lemma route_config_no_panic:
  "(\<And>v s. marshal v = Inr s \<Longrightarrow> unmarshal s = Inr v) \<Longrightarrow> buildRouteTestConfig unmarshal marshal F raw inboundTag socksPort apiPort \<noteq> Panic"
  by (auto simp: buildRouteTestConfig_def NewConfig_def split: sum.splits json.splits)

section \<open>Results\<close>

text \<open>
  (C35) A selection holds each outbound that the tested one leads to, once and no other one; when it fails, the tag it names is one
  that traffic would need and that no outbound has.
\<close>

theorem outbound_selection_exact:
  "case selectOutboundTestOutbounds F tag outbounds of
     Some (Inl missing) \<Rightarrow> leadsTo F (outboundsByTag F outbounds) (trimSpace tag) missing \<and> map_of (outboundsByTag F outbounds) missing = None
   | Some (Inr selected) \<Rightarrow> (\<exists>tags. distinct tags \<and> map Some selected = map (map_of (outboundsByTag F outbounds)) tags
       \<and> set tags = {t. leadsTo F (outboundsByTag F outbounds) (trimSpace tag) t})
   | None \<Rightarrow> False"
proof -
  obtain r where "selectOutboundTestOutbounds F tag outbounds = Some r" "walkDone F (outboundsByTag F outbounds) (trimSpace tag) r"
    using select_done by blast
  then show ?thesis by (cases r) (simp_all add: walkDone_def)
qed

text \<open>
  The process that tests an outbound opens one inbound, on the loopback address; none of its WireGuard outbounds makes an
  interface in the kernel; and all traffic goes to the tested outbound.
\<close>

theorem outbound_test_confined:
  assumes "buildOutboundTestConfig reencode F tag outbounds testPort = Some (Inr doc)"
  shows "length (arrOr (map_of doc ''inbounds'')) = 1 \<and> list_all onLoopback (arrOr (map_of doc ''inbounds''))
    \<and> list_all (userSpace F) (arrOr (map_of doc ''outbounds''))
    \<and> map (\<lambda>rule. map_of (objOr (Some rule)) ''outboundTag'') (arrOr (map_of (objOr (map_of doc ''routing'')) ''rules'')) = [Some (JStr tag)]"
proof -
  obtain cloned selected where "doc = outboundTestDocument tag testPort cloned" "cloneOutbounds reencode F selected = Inr cloned"
    using assms by (auto simp: buildOutboundTestConfig_def split: option.splits sum.splits)
  then show ?thesis using cloned_userSpace by (simp add: outboundTestDocument_def onLoopback_def list_all_iff)
qed

text \<open>
  The process that tests a route opens inbounds on the loopback address only, whatever inbounds the configuration has; it keeps
  WireGuard in user space and decides by the rules of the configuration.
\<close>

theorem route_test_confined:
  assumes codec: "\<And>v s. marshal v = Inr s \<Longrightarrow> unmarshal s = Inr v"
    and raw: "unmarshal raw = Inr (JObj m)" and built: "buildRouteTestConfig unmarshal marshal F raw inboundTag socksPort apiPort = Ok out"
  shows "\<exists>doc. unmarshal out = Inr (JObj doc) \<and> list_all onLoopback (arrOr (map_of doc ''inbounds''))
    \<and> list_all (userSpace F) (arrOr (map_of doc ''outbounds''))
    \<and> arrOr (map_of (objOr (map_of doc ''routing'')) ''rules'') = apiRule ''127.0.0.1'' # keptRules m"
proof -
  let ?m = "routeTestDocument F inboundTag socksPort m" and ?s = "testSettings apiPort"
  let ?doc = "applyAPI ?s ''127.0.0.1'' ?m"
  obtain prepared where p: "marshal (JObj ?m) = Inr prepared" using built raw by (auto simp: buildRouteTestConfig_def split: sum.splits if_splits)
  then have "marshal (JObj ?doc) = Inr out"
    using built raw codec [OF p] by (auto simp: buildRouteTestConfig_def NewConfig_def split: sum.splits if_splits)
  then have o: "unmarshal out = Inr (JObj ?doc)" by (rule codec)
  have i: "list_all onLoopback (arrOr (map_of ?doc ''inbounds''))"
    by (simp add: applyAPI_get apiInbound_def onLoopback_def routeTestDocument_def routeTestInbound_def Let_def)
  have u: "list_all (userSpace F) (arrOr (map_of ?doc ''outbounds''))"
    using withoutKernelTun_userSpace [of F]
    by (auto simp: applyAPI_get(6) routeTestDocument_def Let_def list_all_iff userSpace_def split: json.split)
  have "keptRules (filterInbounds [] ?m) = keptRules m" by (rule keptRules_routing) (simp_all add: routeTestDocument_def Let_def)
  then have r: "arrOr (map_of (objOr (map_of ?doc ''routing'')) ''rules'') = apiRule ''127.0.0.1'' # keptRules m" by (simp add: applyAPI_get)
  show ?thesis using o i u r by blast
qed

section \<open>Examples\<close>

definition exampleFloats :: floats where
  "exampleFloats = \<lparr>fText = id, fInt = (\<lambda>_. 443), fZero = (\<lambda>_. False)\<rparr>"

text \<open>Two outbounds that refer to each other, and one that is not needed.\<close>

definition exampleOutbounds :: "jobj list" where
  "exampleOutbounds =
     [[(''tag'', JStr ''other''), (''protocol'', JStr ''vless'')],
      [(''tag'', JStr ''proxy''), (''protocol'', JStr ''vless''), (''proxySettings'', JObj [(''tag'', JStr ''wg'')])],
      [(''tag'', JStr ''wg''), (''protocol'', JStr ''wireguard''), (''proxySettings'', JObj [(''tag'', JStr ''proxy'')])]]"

definition exampleTestDoc :: jobj where
  "exampleTestDoc = outboundTestDocument ''proxy'' 18080
     [[(''tag'', JStr ''proxy''), (''protocol'', JStr ''vless''), (''proxySettings'', JObj [(''tag'', JStr ''wg'')])],
      [(''tag'', JStr ''wg''), (''protocol'', JStr ''wireguard''), (''proxySettings'', JObj [(''tag'', JStr ''proxy'')]), (''settings'', JObj [(''noKernelTun'', JBool True)])]]"

lemma example_trims:
  "trimSpace ''other'' = ''other''" "trimSpace ''proxy'' = ''proxy''" "trimSpace ''wg'' = ''wg''" "trimSpace ''vless'' = ''vless''"
  "trimSpace ''wireguard'' = ''wireguard''" "trimSpace ''public'' = ''public''"
  by (simp_all add: trimSpace_graphic graphic_def)

lemma example_protocols: "\<not> equalFold ''vless'' ''wireguard''" "equalFold ''wireguard'' ''wireguard''"
  by (simp_all add: equalFold_def toLower_def toLowerChar_def)

lemma example_by_tag: "outboundsByTag exampleFloats exampleOutbounds = zip [''other'', ''proxy'', ''wg''] exampleOutbounds"
  by (simp add: outboundsByTag_def exampleOutbounds_def outboundTag_def settingText_def example_trims Let_def)

lemma example_selected: "selectOutboundTestOutbounds exampleFloats ''proxy'' exampleOutbounds = Some (Inr (tl exampleOutbounds))"
  unfolding selectOutboundTestOutbounds_def example_by_tag
  by (simp add: followProxies.simps [of exampleFloats] exampleOutbounds_def proxyTag_def stringFromMap_def example_trims)

lemma example_test_config: "buildOutboundTestConfig Inr exampleFloats ''proxy'' exampleOutbounds 18080 = Some (Inr exampleTestDoc)"
  by (simp add: buildOutboundTestConfig_def example_selected)
    (simp add: exampleOutbounds_def exampleTestDoc_def withoutKernelTun_def isWireguard_def settingText_def example_trims example_protocols)

theorem outbound_test_confined_witness:
  "list_all (userSpace exampleFloats) (arrOr (map_of exampleTestDoc ''outbounds''))
     \<and> map (\<lambda>rule. map_of (objOr (Some rule)) ''outboundTag'') (arrOr (map_of (objOr (map_of exampleTestDoc ''routing'')) ''rules'')) = [Some (JStr ''proxy'')]"
  using outbound_test_confined [OF example_test_config] by blast

definition exampleRouteDoc :: jobj where
  "exampleRouteDoc = [(''inbounds'', JArr [JObj [(''tag'', JStr ''public''), (''listen'', JStr ''0.0.0.0'')]]),
     (''outbounds'', JArr [JObj [(''tag'', JStr ''wg''), (''protocol'', JStr ''wireguard'')]])]"

definition exampleEncode :: "json \<Rightarrow> string + string" where
  "exampleEncode v =
     (let m = routeTestDocument exampleFloats ''public'' 18080 exampleRouteDoc in
      if v = JObj m then Inr ''prepared''
      else if v = JObj (applyAPI (testSettings 18081) ''127.0.0.1'' m) then Inr ''done'' else Inl ''json'')"

definition exampleDecode :: "string \<Rightarrow> string + json" where
  "exampleDecode s =
     (let m = routeTestDocument exampleFloats ''public'' 18080 exampleRouteDoc in
      if s = ''raw'' then Inr (JObj exampleRouteDoc) else if s = ''prepared'' then Inr (JObj m)
      else if s = ''done'' then Inr (JObj (applyAPI (testSettings 18081) ''127.0.0.1'' m)) else Inl ''json'')"

lemma example_codec: "exampleEncode v = Inr s \<Longrightarrow> exampleDecode s = Inr v"
  by (auto simp: exampleEncode_def exampleDecode_def Let_def split: if_splits)

lemma example_route_config: "buildRouteTestConfig exampleDecode exampleEncode exampleFloats ''raw'' ''public'' 18080 18081 = Ok ''done''"
proof -
  let ?m = "routeTestDocument exampleFloats ''public'' 18080 exampleRouteDoc"
  have d: "exampleDecode ''raw'' = Inr (JObj exampleRouteDoc)" "exampleDecode ''prepared'' = Inr (JObj ?m)" by (simp_all add: exampleDecode_def Let_def)
  have "map_of ?m ''api'' \<noteq> map_of (applyAPI (testSettings 18081) ''127.0.0.1'' ?m) ''api''"
    by (simp add: applyAPI_get apiSection_def routeTestDocument_def exampleRouteDoc_def Let_def)
  then have "JObj (applyAPI (testSettings 18081) ''127.0.0.1'' ?m) \<noteq> JObj ?m" by auto
  then have e: "exampleEncode (JObj ?m) = Inr ''prepared''" "exampleEncode (JObj (applyAPI (testSettings 18081) ''127.0.0.1'' ?m)) = Inr ''done''"
    by (simp_all add: exampleEncode_def Let_def)
  have "arrOr (map_of exampleRouteDoc ''outbounds'') \<noteq> []" by (simp add: exampleRouteDoc_def)
  then show ?thesis using e by (simp add: buildRouteTestConfig_def NewConfig_def d)
qed

theorem route_test_confined_witness:
  "\<exists>doc. exampleDecode ''done'' = Inr (JObj doc) \<and> list_all onLoopback (arrOr (map_of doc ''inbounds''))
    \<and> list_all (userSpace exampleFloats) (arrOr (map_of doc ''outbounds''))"
proof -
  have "exampleDecode ''raw'' = Inr (JObj exampleRouteDoc)" by (simp add: exampleDecode_def)
  from route_test_confined [OF example_codec this example_route_config] show ?thesis by blast
qed

end
