(* ===== verification/Outbound_Target.thy ===== *)
theory Outbound_Target
  imports Outbound_Chain Netip Proxyman
begin

text \<open>
  The server an outbound connects to: \<open>outboundTestTarget\<close> and its helpers of \<open>internal/xray/outbound_check.go\<close>, with
  \<open>net.SplitHostPort\<close>, and the delay that \<open>ping\<close> prints. Results: an endpoint that was joined from a host and a port is split into
  the two again, for names and for both kinds of addresses.
\<close>

section \<open>Definitions\<close>

text \<open>\<open>net.SplitHostPort\<close>: the port follows the last colon, and a host with a colon stands in brackets.\<close>

definition lastField :: "string \<Rightarrow> string" where
  "lastField s = rev (takeWhile (\<lambda>c. c \<noteq> CHR '':'') (rev s))"

definition splitHostPort :: "string \<Rightarrow> (string \<times> string) option" where
  "splitHostPort s =
     (if CHR '':'' \<notin> set s then None
      else let port = lastField s; i = length s - length port - 1 in
        if hd s = CHR ''['' then
          let e = length (takeWhile (\<lambda>c. c \<noteq> CHR '']'') s) in
          if CHR '']'' \<notin> set s \<or> e + 1 \<noteq> i \<or> CHR ''['' \<in> set (tl s) \<or> CHR '']'' \<in> set (drop (e + 1) s) then None
          else Some (take (e - 1) (tl s), port)
        else if CHR '':'' \<in> set (take i s) \<or> CHR ''['' \<in> set s \<or> CHR '']'' \<in> set s then None
        else Some (take i s, port))"

record outboundTarget =
  otAddress :: string
  otPort :: int

definition noTarget :: outboundTarget where
  "noTarget = \<lparr>otAddress = [], otPort = 0\<rparr>"

abbreviation brackets :: "char set" where
  "brackets \<equiv> {CHR ''['', CHR '']''}"

definition hostTarget :: "string \<Rightarrow> string \<Rightarrow> outboundTarget \<times> bool" where
  "hostTarget host portText =
     (\<lparr>otAddress = trimChars brackets (trimSpace host), otPort = parseIntLax (trimSpace portText)\<rparr>, trimSpace host \<noteq> [])"

definition targetFromEndpoint :: "string \<Rightarrow> outboundTarget \<times> bool" where
  "targetFromEndpoint endpoint =
     (let endpoint = trimSpace endpoint in
      if endpoint = [] then (noTarget, False)
      else case splitHostPort endpoint of
          Some (host, portText) \<Rightarrow> hostTarget host portText
        | None \<Rightarrow>
            if count_list endpoint (CHR '':'') = 1 then (case cut endpoint '':'' of (host, portText, _) \<Rightarrow> hostTarget host portText)
            else (\<lparr>otAddress = trimChars brackets endpoint, otPort = 0\<rparr>, True))"

definition addressTarget :: "string \<Rightarrow> int \<Rightarrow> outboundTarget \<times> bool" where
  "addressTarget address port =
     (if trimSpace address = [] \<or> port \<le> 0 then targetFromEndpoint address
      else (\<lparr>otAddress = trimChars brackets (trimSpace address), otPort = port\<rparr>, True))"

definition targetFromArray :: "floats \<Rightarrow> json option \<Rightarrow> string \<Rightarrow> string \<Rightarrow> outboundTarget \<times> bool" where
  "targetFromArray F v addressKey portKey = (case v of
       Some (JArr (JObj first # _)) \<Rightarrow>
         let address = stringFromMap F first addressKey in
         if portKey = [] then targetFromEndpoint address else addressTarget address (intValue F (map_of first portKey))
     | _ \<Rightarrow> (noTarget, False))"

fun firstNonEmptyString :: "string list \<Rightarrow> string" where
  "firstNonEmptyString [] = []"
| "firstNonEmptyString (v # vs) = (if trimSpace v \<noteq> [] then trimSpace v else firstNonEmptyString vs)"

definition outboundTargetFromConfig :: "floats \<Rightarrow> jobj \<Rightarrow> outboundTarget \<times> bool" where
  "outboundTargetFromConfig F outbound =
     (let settings = objOr (map_of outbound ''settings''); protocol = toLower (trimSpace (settingText F (map_of outbound ''protocol''))) in
      if protocol \<in> {''vmess'', ''vless''} then targetFromArray F (map_of settings ''vnext'') ''address'' ''port''
      else if protocol \<in> {''trojan'', ''shadowsocks'', ''socks'', ''http''} then targetFromArray F (map_of settings ''servers'') ''address'' ''port''
      else if protocol = ''hysteria'' then addressTarget (stringFromMap F settings ''address'') (intValue F (map_of settings ''port''))
      else if protocol = ''wireguard'' then
        (case targetFromArray F (map_of settings ''peers'') ''endpoint'' [] of
           (target, True) \<Rightarrow> (target, True)
         | (_, False) \<Rightarrow> targetFromEndpoint (stringFromMap F settings ''endpoint''))
      else targetFromEndpoint (firstNonEmptyString
        [stringFromMap F settings ''address'', stringFromMap F settings ''domain'', stringFromMap F outbound ''address'']))"

definition outboundTestTarget :: "floats \<Rightarrow> string \<Rightarrow> jobj list \<Rightarrow> outboundTarget \<times> bool" where
  "outboundTestTarget F tag outbounds = (case find (\<lambda>outbound. outboundTag F outbound = trimSpace tag) outbounds of
       None \<Rightarrow> (noTarget, False)
     | Some outbound \<Rightarrow> outboundTargetFromConfig F outbound)"

definition normalizeOutboundTestType :: "string \<Rightarrow> string" where
  "normalizeOutboundTestType v =
     (let t = toLower (trimSpace v) in if t = ''tcp'' then ''tcp'' else if t \<in> {''icmp'', ''ping''} then ''icmp'' else ''latency'')"

text \<open>The pattern of the delay: \<open>(?i)time[=<]([0-9]+(?:\.[0-9]+)?)\s*ms\<close>, at one place of the text. The letter s has a third form, U+017F.\<close>

definition isDecimal :: "char \<Rightarrow> bool" where
  "isDecimal c \<longleftrightarrow> 48 \<le> (of_char c :: nat) \<and> (of_char c :: nat) \<le> 57"

definition pingNumber :: "string \<Rightarrow> string \<times> string" where
  "pingNumber s =
     (let whole = takeWhile isDecimal s; rest = dropWhile isDecimal s; fraction = takeWhile isDecimal (tl rest) in
      if rest \<noteq> [] \<and> hd rest = CHR ''.'' \<and> fraction \<noteq> [] then (whole @ CHR ''.'' # fraction, dropWhile isDecimal (tl rest))
      else (whole, rest))"

definition pingAt :: "string \<Rightarrow> string option" where
  "pingAt s =
     (if toLower (take 4 s) = ''time'' \<and> drop 4 s \<noteq> [] \<and> hd (drop 4 s) \<in> {CHR ''='', CHR ''<''} then
        (case pingNumber (drop 5 s) of (number, rest) \<Rightarrow>
           let unit = dropWhile (\<lambda>c. c \<in> {CHR '' '', CHR 0x09, CHR 0x0A, CHR 0x0C, CHR 0x0D}) rest in
           if number \<noteq> [] \<and> (toLower (take 2 unit) = ''ms'' \<or> (toLower (take 1 unit) = ''m'' \<and> take 2 (drop 1 unit) = [CHR 0xC5, CHR 0xBF]))
           then Some number else None)
      else None)"

fun pingMatch :: "string \<Rightarrow> string option" where
  "pingMatch [] = None"
| "pingMatch (c # s) = (case pingAt (c # s) of Some number \<Rightarrow> Some number | None \<Rightarrow> pingMatch s)"

text \<open>\<open>rounded\<close>: a decimal as a \<open>float64\<close>, a half added and cut to an integer; nothing when it is out of range.\<close>

definition parsePingDelay :: "(string \<Rightarrow> int option) \<Rightarrow> string \<Rightarrow> int" where
  "parsePingDelay rounded output = (case pingMatch output of None \<Rightarrow> 0
     | Some number \<Rightarrow> (case rounded number of None \<Rightarrow> 0 | Some delay \<Rightarrow> delay))"

section \<open>Joining and splitting\<close>

lemma lastField_port: "CHR '':'' \<notin> set port \<Longrightarrow> lastField (host @ CHR '':'' # port) = port"
proof -
  assume "CHR '':'' \<notin> set port"
  then have "takeWhile (\<lambda>c. c \<noteq> CHR '':'') (rev port @ CHR '':'' # rev host) = rev port" by (subst takeWhile_append2) auto
  then show ?thesis by (simp add: lastField_def)
qed

lemma split_name:
  assumes "CHR '':'' \<notin> set port" and "set port \<inter> brackets = {}" and "CHR '':'' \<notin> set host" and "set host \<inter> brackets = {}"
  shows "splitHostPort (host @ CHR '':'' # port) = Some (host, port)"
proof -
  have "hd (host @ CHR '':'' # port) \<noteq> CHR ''[''" using assms(4) by (cases host) auto
  then show ?thesis using assms lastField_port [OF assms(1), of host] by (auto simp: splitHostPort_def Let_def)
qed

lemma split_bracketed:
  assumes "CHR '':'' \<notin> set port" and "set port \<inter> brackets = {}" and "set host \<inter> brackets = {}"
  shows "splitHostPort (CHR ''['' # host @ CHR '']'' # CHR '':'' # port) = Some (host, port)"
proof -
  let ?s = "CHR ''['' # host @ CHR '']'' # CHR '':'' # port"
  have "takeWhile (\<lambda>c. c \<noteq> CHR '']'') (host @ CHR '']'' # CHR '':'' # port) = host" using assms(3) by (subst takeWhile_append2) auto
  then have e: "length (takeWhile (\<lambda>c. c \<noteq> CHR '']'') (host @ CHR '']'' # CHR '':'' # port)) = length host" by simp
  have "lastField ?s = port" using lastField_port [OF assms(1), of "CHR ''['' # host @ '']''"] by simp
  then show ?thesis using assms by (auto simp: splitHostPort_def Let_def e)
qed

lemma split_join:
  assumes "CHR '':'' \<notin> set port" and "set port \<inter> brackets = {}" and "set host \<inter> brackets = {}"
  shows "splitHostPort (joinHostPort host port) = Some (host, port)"
  using split_name [OF assms(1,2) _ assms(3)] split_bracketed [OF assms] by (simp add: joinHostPort_def)

lemma formatInt_plain: "c \<in> set (formatInt i) \<Longrightarrow> graphic c \<and> c \<notin> brackets \<and> c \<noteq> CHR '':''"
  by (auto simp: formatInt_def graphic_def split: if_splits dest: formatUint_digits)

lemma trimSpace_all_graphic: "list_all graphic s \<Longrightarrow> trimSpace s = s"
  by (cases "s = []") (auto simp: trimSpace_graphic list_all_iff)

section \<open>Results\<close>

text \<open>
  An endpoint that is joined from a host and a port, as configurations write it, gives back this host and this port: for a name, for
  an IPv4 address and for an IPv6 address in brackets.
\<close>

theorem endpoint_roundtrip:
  assumes "host \<noteq> []" and "list_all (\<lambda>c. graphic c \<and> c \<notin> brackets) host" and "is_int64 port"
  shows "targetFromEndpoint (joinHostPort host (formatInt port)) = (\<lparr>otAddress = host, otPort = port\<rparr>, True)"
proof -
  let ?p = "formatInt port"
  have p: "list_all graphic ?p" "CHR '':'' \<notin> set ?p" "set ?p \<inter> brackets = {}" using formatInt_plain [of _ port] by (auto simp: list_all_iff)
  have h: "list_all graphic host" "set host \<inter> brackets = {}" using assms(2) by (auto simp: list_all_iff)
  have "graphic (CHR '':'')" "graphic (CHR ''['')" "graphic (CHR '']'')" by (simp_all add: graphic_def)
  then have "trimSpace (joinHostPort host ?p) = joinHostPort host ?p" using p(1) h(1) by (intro trimSpace_all_graphic) (simp add: joinHostPort_def)
  moreover have "trimSpace host = host" "trimSpace ?p = ?p" using p(1) h(1) by (simp_all add: trimSpace_all_graphic)
  moreover have "trimChars brackets host = host" using h(2) by (intro trimChars_none) auto
  ultimately show ?thesis using split_join [OF p(2,3) h(2)] assms(1,3)
    by (simp add: targetFromEndpoint_def Let_def hostTarget_def parseIntLax_formatInt joinHostPort_def)
qed

theorem endpoint_roundtrip_witness:
  "targetFromEndpoint (joinHostPort ''2001:db8::1'' (formatInt 2408)) = (\<lparr>otAddress = ''2001:db8::1'', otPort = 2408\<rparr>, True)"
  by (rule endpoint_roundtrip) (simp_all add: graphic_def is_int64_def)

end
