(* ===== verification/Outbound_Check.thy ===== *)
theory Outbound_Check
  imports Outbound_Target Xray_Stats Xray_Core
begin

text \<open>
  Tests of outbounds and routes: \<open>TestOutbound\<close> and \<open>TestRoute\<close> of \<open>internal/xray/outbound_check.go\<close> with the request of
  \<open>route_check.go\<close> and the handlers of \<open>internal/node/grpc_helpers.go\<close>. A test starts an Xray process of its own, waits for its
  port and measures a request through it. The system is a state that stays a parameter; a call or a loop that waits may not end and is
  \<open>None\<close> then: the write of the configuration and the last wait for a killed process have no deadline. Results: both tests end when
  these two calls return, and give their slot back; a test of a route leaves no process but one that is reported as still running after
  signal 9, an error that the code drops; a test of an outbound that cannot write the configuration leaves its process.
\<close>

section \<open>The system\<close>

text \<open>
  \<open>thAcquire\<close>: a slot, or the end of the context; \<open>thListen\<close>: a listener on a free port, with the port when its address is of TCP;
  \<open>thStart\<close>: the identifier of the new process; \<open>thExited\<close>: its channel \<open>done\<close> is closed; \<open>thWaitExit\<close>: wait for that so many
  milliseconds; \<open>thFeed\<close>: the write of the configuration, \<open>None\<close> when it blocks for ever; \<open>thReap\<close>: \<open>Kill\<close> and \<open>Wait\<close>, \<open>None\<close> when
  the process never ends; \<open>thGet\<close>: the status of a request, through the SOCKS port when there is one.
\<close>

record 'w testHost =
  thWindows :: bool
  thAcquire :: "'w \<Rightarrow> bool \<times> 'w"
  thRelease :: "'w \<Rightarrow> 'w"
  thListen :: "'w \<Rightarrow> int option option \<times> 'w"
  thClose :: "'w \<Rightarrow> 'w"
  thPipe :: "'w \<Rightarrow> bool \<times> 'w"
  thStart :: "string \<Rightarrow> string list \<Rightarrow> string \<Rightarrow> 'w \<Rightarrow> nat option \<times> 'w"
  thFeed :: "nat \<Rightarrow> string \<Rightarrow> 'w \<Rightarrow> (bool \<times> 'w) option"
  thExited :: "nat \<Rightarrow> 'w \<Rightarrow> bool"
  thSignal :: "nat \<Rightarrow> nat \<Rightarrow> 'w \<Rightarrow> 'w"
  thWaitExit :: "nat \<Rightarrow> nat \<Rightarrow> 'w \<Rightarrow> bool \<times> 'w"
  thReap :: "nat \<Rightarrow> 'w \<Rightarrow> 'w option"
  thNow :: "'w \<Rightarrow> int"
  thSleep :: "nat \<Rightarrow> 'w \<Rightarrow> 'w"
  thDial :: "string \<Rightarrow> nat \<Rightarrow> 'w \<Rightarrow> string option \<times> 'w"
  thGet :: "int option \<Rightarrow> string \<Rightarrow> 'w \<Rightarrow> (string + int) \<times> 'w"
  thPing :: "string list \<Rightarrow> 'w \<Rightarrow> (string option \<times> string) \<times> 'w"

section \<open>The request for a route\<close>

record RouteTestRequest =
  rqInboundTag :: string
  rqDomain :: string
  rqIP :: string
  rqPort :: nat
  rqNetwork :: string
  rqProtocol :: string
  rqEmail :: string

record RouteTestResult =
  rtMatched :: bool
  rtOutboundTag :: string
  rtGroupTags :: "string list"

record routingContext =
  rxInboundTag :: string
  rxUDP :: bool
  rxTargetDomain :: string
  rxTargetPort :: nat
  rxProtocol :: string
  rxUser :: string
  rxTargetIPs :: "nat list list"

text \<open>The routing service of Xray: the error of the connection, and its answer.\<close>

record 'w routingClient =
  rcDial :: "'w \<Rightarrow> string option"
  rcTestRoute :: "routingContext \<Rightarrow> 'w \<Rightarrow> (string + string \<times> string list) \<times> 'w"

text \<open>\<open>net.ParseIP\<close> with \<open>To4\<close> and \<open>To16\<close>: the bytes of an address without a zone.\<close>

definition parseIPBytes :: "string \<Rightarrow> nat list option" where
  "parseIPBytes s = (case ParseAddr s of
       None \<Rightarrow> None
     | Some (V4 n) \<Rightarrow> Some (octets n)
     | Some (V6 gs zone) \<Rightarrow>
         if zone \<noteq> [] then None
         else if Is4In6 gs then Some (octets (low32 gs)) else Some (concat (map (\<lambda>g. [g div 256, g mod 256]) gs)))"

definition noRoute :: RouteTestResult where
  "noRoute = \<lparr>rtMatched = False, rtOutboundTag = [], rtGroupTags = []\<rparr>"

definition requestContext :: "RouteTestRequest \<Rightarrow> string + routingContext" where
  "requestContext req =
     (let domain = trimSpace (rqDomain req); ip = trimSpace (rqIP req);
          ctx = \<lparr>rxInboundTag = trimSpace (rqInboundTag req), rxUDP = equalFold (rqNetwork req) ''udp'', rxTargetDomain = domain,
            rxTargetPort = rqPort req, rxProtocol = trimSpace (rqProtocol req), rxUser = trimSpace (rqEmail req), rxTargetIPs = []\<rparr> in
      if domain = [] \<and> ip = [] then Inl ''domain or ip is required''
      else if ip = [] then Inr ctx
      else case parseIPBytes ip of
          None \<Rightarrow> Inl (''invalid ip address: '' @ ip)
        | Some bytes \<Rightarrow> Inr (ctx\<lparr>rxTargetIPs := [bytes]\<rparr>))"

definition askRoute :: "'w routingClient \<Rightarrow> RouteTestRequest \<Rightarrow> 'w \<Rightarrow> (RouteTestResult \<times> string option) \<times> 'w" where
  "askRoute R req w = (case requestContext req of
       Inl err \<Rightarrow> ((noRoute, Some err), w)
     | Inr ctx \<Rightarrow> (case rcDial R w of
         Some err \<Rightarrow> ((noRoute, Some (''connect to Xray routing API: '' @ err)), w)
       | None \<Rightarrow> (case rcTestRoute R ctx w of
           (Inl err, w') \<Rightarrow> ((noRoute, if contains (toLower err) ''not enough information'' then None else Some (''test Xray route: '' @ err)), w')
         | (Inr (tag, groups), w') \<Rightarrow> ((\<lparr>rtMatched = True, rtOutboundTag = tag, rtGroupTags = groups\<rparr>, None), w'))))"

section \<open>Measuring\<close>

record OutboundTestResult =
  trSuccess :: bool
  trDelay :: int
  trStatusCode :: int
  trError :: string
  trTestType :: string
  trAddress :: string
  trPort :: int
  trOutput :: string

definition failedTest :: "string \<Rightarrow> string \<Rightarrow> OutboundTestResult" where
  "failedTest err testType =
     \<lparr>trSuccess = False, trDelay = 0, trStatusCode = 0, trError = err, trTestType = testType, trAddress = [], trPort = 0, trOutput = []\<rparr>"

definition measuredTest :: "int \<Rightarrow> int \<Rightarrow> string \<Rightarrow> OutboundTestResult" where
  "measuredTest delay statusCode testType =
     \<lparr>trSuccess = True, trDelay = delay, trStatusCode = statusCode, trError = [], trTestType = testType, trAddress = [], trPort = 0, trOutput = []\<rparr>"

definition atTarget :: "outboundTarget \<Rightarrow> OutboundTestResult \<Rightarrow> OutboundTestResult" where
  "atTarget target r = r\<lparr>trAddress := otAddress target, trPort := otPort target\<rparr>"

definition measureOutboundTCP :: "'w testHost \<Rightarrow> outboundTarget \<Rightarrow> 'w \<Rightarrow> OutboundTestResult \<times> 'w" where
  "measureOutboundTCP T target w =
     (if trimSpace (otAddress target) = [] \<or> otPort target \<le> 0 then (atTarget target (failedTest ''TCP test requires outbound address and port'' ''tcp''), w)
      else case thDial T (joinHostPort (otAddress target) (formatInt (otPort target))) 6000 w of
          (Some err, w') \<Rightarrow> (atTarget target (failedTest err ''tcp''), w')
        | (None, w') \<Rightarrow> (atTarget target (measuredTest (thNow T w' - thNow T w) 0 ''tcp''), w'))"

definition pingArgs :: "bool \<Rightarrow> string \<Rightarrow> string list" where
  "pingArgs windows address = (if windows then [''-n'', ''1'', ''-w'', ''5000'', address] else [''-c'', ''1'', ''-W'', ''5'', address])"

definition measureOutboundICMP :: "'w testHost \<Rightarrow> (string \<Rightarrow> int option) \<Rightarrow> outboundTarget \<Rightarrow> 'w \<Rightarrow> OutboundTestResult \<times> 'w" where
  "measureOutboundICMP T rounded target w =
     (if trimSpace (otAddress target) = [] then (atTarget target (failedTest ''ICMP test requires outbound address'' ''icmp''), w)
      else case thPing T (pingArgs (thWindows T) (otAddress target)) w of ((err, output), w') \<Rightarrow>
        let cleaned = trimSpace output; delay = parsePingDelay rounded cleaned in
        (case err of
           Some e \<Rightarrow> ((atTarget target (failedTest (firstNonEmptyString [cleaned, e]) ''icmp''))\<lparr>trDelay := delay, trOutput := cleaned\<rparr>, w')
         | None \<Rightarrow> ((atTarget target (measuredTest delay 0 ''icmp''))\<lparr>trOutput := cleaned\<rparr>, w')))"

text \<open>The first request warms the connection up; the second one is measured.\<close>

definition measureHTTPDelay :: "'w testHost \<Rightarrow> int option \<Rightarrow> string \<Rightarrow> 'w \<Rightarrow> (string + int \<times> int) \<times> 'w" where
  "measureHTTPDelay T via url w = (case thGet T via url w of
       (Inl err, w1) \<Rightarrow> (Inl err, w1)
     | (Inr _, w1) \<Rightarrow> (case thGet T via url w1 of
         (Inl err, w2) \<Rightarrow> (Inl err, w2)
       | (Inr statusCode, w2) \<Rightarrow> (Inr (thNow T w2 - thNow T w1, statusCode), w2)))"

section \<open>Test processes\<close>

definition findAvailablePort :: "'w testHost \<Rightarrow> 'w \<Rightarrow> int option \<times> 'w" where
  "findAvailablePort T w = (case thListen T w of
       (None, w') \<Rightarrow> (None, w')
     | (Some None, w') \<Rightarrow> (None, thClose T w')
     | (Some (Some port), w') \<Rightarrow> (Some port, thClose T w'))"

partial_function (option) waitForPort :: "'w testHost \<Rightarrow> nat \<Rightarrow> int \<Rightarrow> int \<Rightarrow> 'w \<Rightarrow> ((bool \<times> string) \<times> 'w) option" where
  [code]: "waitForPort T pid port deadline w =
     (if thNow T w < deadline then
        (if thExited T pid w then Some ((False, ''Xray test instance exited before it was ready''), w)
         else case thDial T (joinHostPort ''127.0.0.1'' (formatInt port)) 150 w of
             (None, w') \<Rightarrow> Some ((True, []), w')
           | (Some _, w') \<Rightarrow> waitForPort T pid port deadline (thSleep T 100 w'))
      else Some ((False, ''Xray test instance did not become ready''), w))"

definition processExitGrace :: nat where
  "processExitGrace = 5000"

text \<open>Signals 15 and 9 to the group of the process. False is the error that the group is still running after signal 9.\<close>

definition terminateManagedProcess :: "'w testHost \<Rightarrow> nat \<Rightarrow> 'w \<Rightarrow> bool \<times> 'w" where
  "terminateManagedProcess T pid w = (case thWaitExit T pid processExitGrace (thSignal T pid 15 w) of
       (True, w1) \<Rightarrow> (True, w1)
     | (False, w1) \<Rightarrow> thWaitExit T pid processExitGrace (thSignal T pid 9 w1))"

definition killManagedProcess :: "'w testHost \<Rightarrow> nat \<Rightarrow> 'w \<Rightarrow> 'w option" where
  "killManagedProcess T pid w = thReap T pid (thSignal T pid 9 w)"

text \<open>What both tests defer: the process is stopped, the error is dropped, and its exit is awaited for two more seconds.\<close>

definition endTest :: "'w testHost \<Rightarrow> nat \<Rightarrow> 'w \<Rightarrow> 'w" where
  "endTest T pid w = snd (thWaitExit T pid 2000 (snd (terminateManagedProcess T pid w)))"

definition startTest :: "'w testHost \<Rightarrow> Core \<Rightarrow> 'w \<Rightarrow> nat option \<times> 'w" where
  "startTest T c = thStart T (executablePath c) [''run'', ''-config'', ''stdin:''] (''XRAY_LOCATION_ASSET='' @ assetsPath c)"

section \<open>Tests of an outbound\<close>

definition DefaultOutboundTestURL :: string where
  "DefaultOutboundTestURL = ''https://www.google.com/generate_204''"

definition testURLOr :: "string \<Rightarrow> string" where
  "testURLOr url = (if trimSpace url = [] then DefaultOutboundTestURL else trimSpace url)"

definition outboundMeasure :: "'w testHost \<Rightarrow> nat \<Rightarrow> int \<Rightarrow> string \<Rightarrow> string \<Rightarrow> 'w \<Rightarrow> (OutboundTestResult \<times> 'w) option" where
  "outboundMeasure T pid port url testType w = (case waitForPort T pid port (thNow T w + 3000) w of
       None \<Rightarrow> None
     | Some ((False, err), w1) \<Rightarrow> Some (failedTest err testType, w1)
     | Some ((True, _), w1) \<Rightarrow> (case measureHTTPDelay T (Some port) url w1 of
         (Inl _, w2) \<Rightarrow> Some (failedTest ''Request failed'' testType, w2)
       | (Inr (delay, statusCode), w2) \<Rightarrow> Some (measuredTest delay statusCode testType, w2)))"

definition outboundProcess :: "'w testHost \<Rightarrow> Core \<Rightarrow> string \<Rightarrow> int \<Rightarrow> string \<Rightarrow> string \<Rightarrow> 'w \<Rightarrow> (OutboundTestResult \<times> 'w) option" where
  "outboundProcess T c configJSON port url testType w = (case thPipe T w of
       (False, w1) \<Rightarrow> Some (failedTest ''Failed to create stdin pipe for test Xray process'' testType, w1)
     | (True, w1) \<Rightarrow> (case startTest T c w1 of
         (None, w2) \<Rightarrow> Some (failedTest ''Failed to start test xray instance'' testType, w2)
       | (Some pid, w2) \<Rightarrow> (case thFeed T pid configJSON w2 of
           None \<Rightarrow> None
         | Some (False, w3) \<Rightarrow> Some (failedTest ''Outbound test failed'' testType, w3)
         | Some (True, w3) \<Rightarrow> map_option (apsnd (endTest T pid)) (outboundMeasure T pid port url testType w3))))"

text \<open>\<open>marshal\<close> and \<open>reencode\<close>: encoding a document, and encoding and decoding an outbound.\<close>

definition outboundRun :: "'w testHost \<Rightarrow> floats \<Rightarrow> (json \<Rightarrow> string + string) \<Rightarrow> (jobj \<Rightarrow> string + jobj) \<Rightarrow> Core \<Rightarrow> string \<Rightarrow> jobj list
    \<Rightarrow> string \<Rightarrow> string \<Rightarrow> 'w \<Rightarrow> (OutboundTestResult \<times> 'w) option" where
  "outboundRun T F marshal reencode c tag outbounds url testType w = (case findAvailablePort T w of
       (None, w1) \<Rightarrow> Some (failedTest ''Failed to find available test port'' testType, w1)
     | (Some port, w1) \<Rightarrow> (case buildOutboundTestConfig reencode F tag outbounds port of
         None \<Rightarrow> None
       | Some (Inl _) \<Rightarrow> Some (failedTest ''Outbound test failed'' testType, w1)
       | Some (Inr doc) \<Rightarrow> (case marshal (JObj doc) of
           Inl _ \<Rightarrow> Some (failedTest ''Outbound test failed'' testType, w1)
         | Inr configJSON \<Rightarrow> outboundProcess T c configJSON port url testType w1)))"

definition withSlot :: "'w testHost \<Rightarrow> 'r \<Rightarrow> ('w \<Rightarrow> ('r \<times> 'w) option) \<Rightarrow> 'w \<Rightarrow> ('r \<times> 'w) option" where
  "withSlot T refused run w = (case thAcquire T w of
       (False, w1) \<Rightarrow> Some (refused, w1)
     | (True, w1) \<Rightarrow> map_option (apsnd (thRelease T)) (run w1))"

definition TestOutbound :: "'w testHost \<Rightarrow> floats \<Rightarrow> (string \<Rightarrow> int option) \<Rightarrow> (json \<Rightarrow> string + string) \<Rightarrow> (jobj \<Rightarrow> string + jobj) \<Rightarrow> Core
    \<Rightarrow> string \<Rightarrow> string \<Rightarrow> jobj list \<Rightarrow> string \<Rightarrow> string \<Rightarrow> 'w \<Rightarrow> (OutboundTestResult \<times> 'w) option" where
  "TestOutbound T F rounded marshal reencode c name outboundProtocol outbounds testURL testType w =
     (let tag = trimSpace name; protocol = toLower (trimSpace outboundProtocol); kind = normalizeOutboundTestType testType; url = testURLOr testURL in
      if tag = [] then Some (failedTest ''Outbound has no tag'' kind, w)
      else if protocol = ''blackhole'' \<or> equalFold tag ''blocked'' then Some (failedTest ''Blocked/blackhole outbound cannot be tested'' kind, w)
      else if kind = ''tcp'' \<or> kind = ''icmp'' then
        (case outboundTestTarget F tag outbounds of
           (_, False) \<Rightarrow> Some (failedTest ''Outbound server address was not found'' kind, w)
         | (target, True) \<Rightarrow> Some (if kind = ''tcp'' then measureOutboundTCP T target w else measureOutboundICMP T rounded target w))
      else if protocol = ''freedom'' \<or> equalFold tag ''direct'' then
        (case measureHTTPDelay T None url w of
           (Inl _, w') \<Rightarrow> Some (failedTest ''Direct request failed'' kind, w')
         | (Inr (delay, statusCode), w') \<Rightarrow> Some (measuredTest delay statusCode kind, w'))
      else withSlot T (failedTest ''Outbound test queue timed out'' kind) (outboundRun T F marshal reencode c tag outbounds url kind) w)"

section \<open>Tests of a route\<close>

record RouteTestRun =
  rrResult :: OutboundTestResult
  rrMatched :: bool
  rrOutboundTag :: string
  rrGroupTags :: "string list"
  rrOutboundTraffic :: "stat list"

definition failedRoute :: "string \<Rightarrow> RouteTestRun" where
  "failedRoute err = \<lparr>rrResult = failedTest err ''latency'', rrMatched = False, rrOutboundTag = [], rrGroupTags = [], rrOutboundTraffic = []\<rparr>"

definition routeMeasure :: "'w testHost \<Rightarrow> 'w statsClient \<Rightarrow> 'w routingClient \<Rightarrow> int \<Rightarrow> string \<Rightarrow> RouteTestRequest \<Rightarrow> 'w \<Rightarrow> RouteTestRun \<times> 'w" where
  "routeMeasure T C R socksPort url req w = (case askRoute R req w of ((selected, _), w1) \<Rightarrow>
     let run = (failedRoute ''Request failed'')\<lparr>rrMatched := rtMatched selected, rrOutboundTag := rtOutboundTag selected, rrGroupTags := rtGroupTags selected\<rparr> in
     (case measureHTTPDelay T (Some socksPort) url w1 of
        (Inl _, w2) \<Rightarrow> (run, w2)
      | (Inr (delay, statusCode), w2) \<Rightarrow> (case QueryOutboundStats C True w2 of (stats, w3) \<Rightarrow>
          (run\<lparr>rrResult := measuredTest delay statusCode ''latency'', rrOutboundTraffic := (case stats of Inl _ \<Rightarrow> [] | Inr rows \<Rightarrow> rows)\<rparr>, w3))))"

definition routeReady :: "'w testHost \<Rightarrow> nat \<Rightarrow> int \<Rightarrow> int \<Rightarrow> ('w \<Rightarrow> RouteTestRun \<times> 'w) \<Rightarrow> 'w \<Rightarrow> (RouteTestRun \<times> 'w) option" where
  "routeReady T pid socksPort apiPort measuring w = (case waitForPort T pid socksPort (thNow T w + 3000) w of
       None \<Rightarrow> None
     | Some ((False, err), w1) \<Rightarrow> Some (failedRoute err, w1)
     | Some ((True, _), w1) \<Rightarrow> (case waitForPort T pid apiPort (thNow T w1 + 3000) w1 of
         None \<Rightarrow> None
       | Some ((False, err), w2) \<Rightarrow> Some (failedRoute err, w2)
       | Some ((True, _), w2) \<Rightarrow> Some (measuring w2)))"

definition routeProcess :: "'w testHost \<Rightarrow> Core \<Rightarrow> string \<Rightarrow> int \<Rightarrow> int \<Rightarrow> ('w \<Rightarrow> RouteTestRun \<times> 'w) \<Rightarrow> 'w \<Rightarrow> (RouteTestRun \<times> 'w) option" where
  "routeProcess T c configJSON socksPort apiPort measuring w = (case thPipe T w of
       (False, w1) \<Rightarrow> Some (failedRoute ''Failed to create stdin pipe for test Xray process'', w1)
     | (True, w1) \<Rightarrow> (case startTest T c w1 of
         (None, w2) \<Rightarrow> Some (failedRoute ''Failed to start test Xray instance'', w2)
       | (Some pid, w2) \<Rightarrow> (case thFeed T pid configJSON w2 of
           None \<Rightarrow> None
         | Some (False, w3) \<Rightarrow> map_option (Pair (failedRoute ''Route test failed'')) (killManagedProcess T pid w3)
         | Some (True, w3) \<Rightarrow> map_option (apsnd (endTest T pid)) (routeReady T pid socksPort apiPort measuring w3))))"

text \<open>A panic while the configuration is built does not return either.\<close>

definition routeRun :: "'w testHost \<Rightarrow> (int \<Rightarrow> int \<Rightarrow> string goResult) \<Rightarrow> (int \<Rightarrow> 'w \<Rightarrow> RouteTestRun \<times> 'w) \<Rightarrow> Core \<Rightarrow> 'w \<Rightarrow> (RouteTestRun \<times> 'w) option" where
  "routeRun T configOf measuring c w = (case findAvailablePort T w of
       (None, w1) \<Rightarrow> Some (failedRoute ''Failed to find available test port'', w1)
     | (Some socksPort, w1) \<Rightarrow> (case findAvailablePort T w1 of
         (None, w2) \<Rightarrow> Some (failedRoute ''Failed to find available test API port'', w2)
       | (Some apiPort, w2) \<Rightarrow> (case configOf socksPort apiPort of
           Err err \<Rightarrow> Some (failedRoute err, w2)
         | Panic \<Rightarrow> None
         | Ok configJSON \<Rightarrow> routeProcess T c configJSON socksPort apiPort (measuring socksPort) w2)))"


section \<open>The handlers\<close>

definition int32 :: "int \<Rightarrow> int" where
  "int32 x = (x + 2147483648) mod 4294967296 - 2147483648"

record OutboundTestRequest =
  oqTag :: string
  oqProtocol :: string
  oqAllOutbounds :: string
  oqURL :: string
  oqType :: string

text \<open>Both handlers answer \<open>InvalidArgument\<close> with a message on a request they refuse; \<open>decodeList\<close> decodes a list of objects.\<close>

definition grpcTestOutbound :: "(string \<Rightarrow> string + jobj list) \<Rightarrow> (string \<Rightarrow> string \<Rightarrow> jobj list \<Rightarrow> string \<Rightarrow> string \<Rightarrow> 'w \<Rightarrow> (OutboundTestResult \<times> 'w) option)
    \<Rightarrow> OutboundTestRequest \<Rightarrow> 'w \<Rightarrow> ((string + OutboundTestResult) \<times> 'w) option" where
  "grpcTestOutbound decodeList test req w =
     (let raw = trimSpace (oqAllOutbounds req) in
      if raw = [] then Some (Inl ''all_outbounds_json is required'', w)
      else case decodeList raw of
          Inl err \<Rightarrow> Some (Inl (''invalid all_outbounds_json: '' @ err), w)
        | Inr outbounds \<Rightarrow> map_option (apfst (\<lambda>r. Inr (r\<lparr>trStatusCode := int32 (trStatusCode r), trPort := int32 (trPort r)\<rparr>)))
            (test (oqTag req) (oqProtocol req) outbounds (oqURL req) (oqType req) w))"

definition grpcTestRoute :: "(string \<Rightarrow> string \<Rightarrow> string \<Rightarrow> RouteTestRequest \<Rightarrow> 'w \<Rightarrow> (RouteTestRun \<times> 'w) option)
    \<Rightarrow> string \<Rightarrow> string \<Rightarrow> RouteTestRequest \<Rightarrow> 'w \<Rightarrow> ((string + RouteTestRun) \<times> 'w) option" where
  "grpcTestRoute test configJSON url req w =
     (if trimSpace configJSON = [] \<or> trimSpace url = [] then Some (Inl ''config_json and test_url are required'', w)
      else map_option (apfst (\<lambda>r. Inr (r\<lparr>rrResult := (rrResult r)\<lparr>trStatusCode := int32 (trStatusCode (rrResult r))\<rparr>\<rparr>)))
        (test configJSON (rqInboundTag req) url req w))"

section \<open>What the system promises\<close>

text \<open>
  \<open>procs\<close>: the processes that run; \<open>held\<close>: the slots that are taken. Nothing but a start makes a process run, and processes
  may end at any time; a process whose exit was seen or that was waited for has ended, but a signal need not end it; sleeping lets the
  clock advance.
\<close>

definition calm :: "'w testHost \<Rightarrow> ('w \<Rightarrow> nat set) \<Rightarrow> ('w \<Rightarrow> nat) \<Rightarrow> 'w \<Rightarrow> 'w \<Rightarrow> bool" where
  "calm T procs held w w' \<longleftrightarrow> procs w' \<subseteq> procs w \<and> held w' = held w \<and> thNow T w \<le> thNow T w'"

locale testLaws =
  fixes T :: "'w testHost" and C :: "'w statsClient" and R :: "'w routingClient" and procs :: "'w \<Rightarrow> nat set" and held :: "'w \<Rightarrow> nat"
  assumes acquire: "procs (snd (thAcquire T w)) \<subseteq> procs w" "held (snd (thAcquire T w)) = held w + (if fst (thAcquire T w) then 1 else 0)"
    and release: "procs (thRelease T w) \<subseteq> procs w" "held (thRelease T w) = held w - 1"
    and listen: "calm T procs held w (snd (thListen T w))" and close: "calm T procs held w (thClose T w)" and pipe: "calm T procs held w (snd (thPipe T w))"
    and start: "procs (snd (thStart T exe args env w)) \<subseteq> procs w \<union> set_option (fst (thStart T exe args env w))" "held (snd (thStart T exe args env w)) = held w"
    and feed: "thFeed T pid txt w = Some (b, w') \<Longrightarrow> calm T procs held w w'"
    and signal: "calm T procs held w (thSignal T pid n w)"
    and waitExit: "calm T procs held w (snd (thWaitExit T pid ms w))" "fst (thWaitExit T pid ms w) \<Longrightarrow> pid \<notin> procs (snd (thWaitExit T pid ms w))"
    and reap: "thReap T pid w = Some w' \<Longrightarrow> calm T procs held w w'" "thReap T pid w = Some w' \<Longrightarrow> pid \<notin> procs w'"
    and sleep: "calm T procs held w (thSleep T ms w)" "thNow T w + int ms \<le> thNow T (thSleep T ms w)"
    and dial: "calm T procs held w (snd (thDial T address ms w))" and get: "calm T procs held w (snd (thGet T via url w))"
    and stats: "calm T procs held w (snd (scQueryStats C pattern b w))" and routing: "calm T procs held w (snd (rcTestRoute R ctx w))"
begin

abbreviation quietly :: "'w \<Rightarrow> 'w \<Rightarrow> bool" where
  "quietly \<equiv> calm T procs held"

lemma quietly_refl: "quietly w w"
  by (simp add: calm_def)

lemma quietly_trans: "quietly w w1 \<Longrightarrow> quietly w1 w2 \<Longrightarrow> quietly w w2"
  by (auto simp: calm_def)

lemma waiting_ends: "\<exists>r w'. waitForPort T pid port deadline w = Some (r, w') \<and> quietly w w'"
proof (induction "nat (deadline - thNow T w)" arbitrary: w rule: less_induct)
  case less
  obtain e w1 where d: "thDial T (joinHostPort ''127.0.0.1'' (formatInt port)) 150 w = (e, w1)" by fastforce
  have q: "quietly w w1" using dial [of w "joinHostPort ''127.0.0.1'' (formatInt port)" 150] by (simp add: d)
  have q2: "quietly w (thSleep T 100 w1)" using quietly_trans [OF q sleep(1)] .
  have adv: "thNow T w + 100 \<le> thNow T (thSleep T 100 w1)" using q sleep(2) [of w1 100] by (simp add: calm_def)
  show ?case
  proof (cases "thNow T w < deadline \<and> \<not> thExited T pid w \<and> e \<noteq> None")
    case True
    then obtain r w' where "waitForPort T pid port deadline (thSleep T 100 w1) = Some (r, w')" "quietly (thSleep T 100 w1) w'"
      using less [of "thSleep T 100 w1"] adv by fastforce
    then show ?thesis using True d quietly_trans [OF q2] by (auto simp: waitForPort.simps [of T pid port deadline w])
  next
    case False
    then show ?thesis using d q quietly_refl by (auto simp: waitForPort.simps [of T pid port deadline w])
  qed
qed

lemma terminated: "quietly w (snd (terminateManagedProcess T pid w))" "fst (terminateManagedProcess T pid w) \<Longrightarrow> pid \<notin> procs (snd (terminateManagedProcess T pid w))"
proof -
  obtain b w1 where w1: "thWaitExit T pid processExitGrace (thSignal T pid 15 w) = (b, w1)" by fastforce
  have q1: "quietly w w1" using quietly_trans [OF signal waitExit(1)] w1 by (metis snd_conv)
  have q2: "quietly w (snd (thWaitExit T pid processExitGrace (thSignal T pid 9 w1)))"
    using quietly_trans [OF q1 quietly_trans [OF signal waitExit(1)]] .
  show "quietly w (snd (terminateManagedProcess T pid w))" using w1 q1 q2 by (simp add: terminateManagedProcess_def split: bool.split)
  show "fst (terminateManagedProcess T pid w) \<Longrightarrow> pid \<notin> procs (snd (terminateManagedProcess T pid w))"
    using w1 waitExit(2) [of pid processExitGrace "thSignal T pid 15 w"] waitExit(2) [of pid processExitGrace "thSignal T pid 9 w1"]
    by (cases b) (simp_all add: terminateManagedProcess_def)
qed

lemma ended: "quietly w (endTest T pid w)" "fst (terminateManagedProcess T pid w) \<Longrightarrow> pid \<notin> procs (endTest T pid w)"
proof -
  have l: "quietly (snd (terminateManagedProcess T pid w)) (endTest T pid w)" unfolding endTest_def by (rule waitExit(1))
  show "quietly w (endTest T pid w)" using quietly_trans [OF terminated(1) l] .
  show "fst (terminateManagedProcess T pid w) \<Longrightarrow> pid \<notin> procs (endTest T pid w)" using terminated(2) l by (auto simp: calm_def)
qed

lemma port_found: "quietly w (snd (findAvailablePort T w))"
proof -
  obtain r w1 where "thListen T w = (r, w1)" by fastforce
  then show ?thesis using listen [of w] close [of w1] quietly_trans by (auto simp: findAvailablePort_def split: option.split)
qed

lemma delay_measured: "quietly w (snd (measureHTTPDelay T via url w))"
proof -
  obtain r w1 where r: "thGet T via url w = (r, w1)" by fastforce
  obtain r2 w2 where r2: "thGet T via url w1 = (r2, w2)" by fastforce
  have "quietly w w1" "quietly w1 w2" using get [of w via url] get [of w1 via url] by (simp_all add: r r2)
  then show ?thesis using quietly_trans r r2 by (auto simp: measureHTTPDelay_def split: sum.split)
qed

lemma route_measured: "quietly w (snd (routeMeasure T C R socksPort url req w))"
proof -
  have "quietly w (snd (askRoute R req w))"
    using routing [of w] quietly_refl by (auto simp: askRoute_def split: sum.split option.split prod.split) (metis snd_conv)+
  moreover have "quietly x (snd (QueryOutboundStats C True x))" for x
    using stats [of x] quietly_refl by (auto simp: QueryOutboundStats_def onStats_def queryStats_def split: sum.split option.split prod.split) (metis snd_conv)+
  ultimately show ?thesis using delay_measured quietly_trans
    by (simp add: routeMeasure_def Let_def split: prod.split sum.split) (metis snd_conv)
qed

text \<open>
  A step of a test ends; it leaves no process, or one whose termination was reported as failed. The state it ends in is what \<open>after\<close>
  makes of the end of that test.
\<close>

definition leaves :: "('w \<Rightarrow> 'w) \<Rightarrow> 'w \<Rightarrow> ('r \<times> 'w) option \<Rightarrow> bool" where
  "leaves after w out \<longleftrightarrow> (\<exists>r w'. out = Some (r, w') \<and> held w' = held w \<and>
     (procs w' \<subseteq> procs w \<or> (\<exists>pid w1. w' = after (endTest T pid w1) \<and> \<not> fst (terminateManagedProcess T pid w1) \<and> procs w' \<subseteq> insert pid (procs w))))"

definition quiet :: "'w \<Rightarrow> ('r \<times> 'w) option \<Rightarrow> bool" where
  "quiet w out \<longleftrightarrow> (\<exists>r w'. out = Some (r, w') \<and> quietly w w')"

lemma leaves_quiet: "quietly w w' \<Longrightarrow> leaves after w (Some (r, w'))"
  by (auto simp: leaves_def calm_def)

lemma leaves_after: "quietly w w1 \<Longrightarrow> leaves after w1 out \<Longrightarrow> leaves after w out"
  unfolding leaves_def calm_def by (elim exE conjE disjE) (auto 0 4)

lemma leaves_if: "leaves after w a \<Longrightarrow> leaves after w b \<Longrightarrow> leaves after w (if P then a else b)"
  by simp

lemma ended_leaves:
  assumes "quiet w3 out" and "procs w3 \<subseteq> insert pid (procs w)" and "held w3 = held w"
  shows "leaves id w (map_option (apsnd (endTest T pid)) out)"
proof -
  obtain r w4 where o: "out = Some (r, w4)" "quietly w3 w4" using assms(1) by (auto simp: quiet_def)
  have "procs (endTest T pid w4) \<subseteq> insert pid (procs w)" "held (endTest T pid w4) = held w"
    using ended(1) [of w4 pid] o(2) assms(2,3) by (auto simp: calm_def)
  then show ?thesis using ended(2) [of pid w4] o(1) by (auto simp: leaves_def)
qed

lemma started_fed:
  assumes "startTest T c w = (Some pid, w2)" and "thFeed T pid txt w2 = Some (b, w3)"
  shows "procs w3 \<subseteq> insert pid (procs w)" and "held w3 = held w"
proof -
  have "procs w2 \<subseteq> procs w \<union> {pid}" "held w2 = held w"
    using start(1) [of "executablePath c" "[''run'', ''-config'', ''stdin:'']" "''XRAY_LOCATION_ASSET='' @ assetsPath c" w]
      start(2) [of "executablePath c" "[''run'', ''-config'', ''stdin:'']" "''XRAY_LOCATION_ASSET='' @ assetsPath c" w]
      assms(1) unfolding startTest_def by simp_all
  moreover have "procs w3 \<subseteq> procs w2" "held w3 = held w2" using feed [OF assms(2)] by (simp_all add: calm_def)
  ultimately show "procs w3 \<subseteq> insert pid (procs w)" "held w3 = held w" by auto
qed

lemma not_started: "startTest T c w = (None, w2) \<Longrightarrow> procs w2 \<subseteq> procs w" "startTest T c w = (None, w2) \<Longrightarrow> held w2 = held w"
  using start [where w = w] unfolding startTest_def by (metis fst_conv snd_conv option.set(1) sup_bot.right_neutral)+

lemma slot_returned:
  assumes "\<And>w. leaves id w (run w)"
  shows "leaves (thRelease T) w (withSlot T refused run w)"
proof -
  obtain b w1 where a: "thAcquire T w = (b, w1)" by fastforce
  then have w1: "procs w1 \<subseteq> procs w" "held w1 = held w + (if b then 1 else 0)" using acquire [of w] by simp_all
  obtain r w2 where r: "run w1 = Some (r, w2)" "held w2 = held w1" "procs w2 \<subseteq> procs w1
      \<or> (\<exists>pid w3. w2 = endTest T pid w3 \<and> \<not> fst (terminateManagedProcess T pid w3) \<and> procs w2 \<subseteq> insert pid (procs w1))"
    using assms [of w1] by (auto simp: leaves_def)
  show ?thesis
  proof (cases b)
    case True
    then show ?thesis using a w1 r release [of w2] unfolding withSlot_def leaves_def by simp blast
  next
    case False
    then show ?thesis using a w1 by (simp add: withSlot_def leaves_def)
  qed
qed

lemma outbound_measured: "quiet w (outboundMeasure T pid port url testType w)"
proof -
  obtain r w1 where r: "waitForPort T pid port (thNow T w + 3000) w = Some (r, w1)" "quietly w w1" using waiting_ends by blast
  have "quietly w (snd (measureHTTPDelay T via url w1))" for via using quietly_trans [OF r(2) delay_measured] .
  then show ?thesis using r by (auto simp: outboundMeasure_def quiet_def split: prod.split sum.split bool.split) (metis snd_conv)+
qed

lemma route_ready: "(\<And>w. quietly w (snd (measuring w))) \<Longrightarrow> quiet w (routeReady T pid socksPort apiPort measuring w)"
proof -
  assume m: "\<And>w. quietly w (snd (measuring w))"
  obtain b e w1 where r: "waitForPort T pid socksPort (thNow T w + 3000) w = Some ((b, e), w1)" "quietly w w1" using waiting_ends by (metis surj_pair)
  obtain b2 e2 w2 where r2: "waitForPort T pid apiPort (thNow T w1 + 3000) w1 = Some ((b2, e2), w2)" "quietly w1 w2" using waiting_ends by (metis surj_pair)
  have q: "quietly w w2" "quietly w (snd (measuring w2))" using quietly_trans r(2) r2(2) m by blast+
  then have "quiet w (Some (measuring w2))" unfolding quiet_def by (metis surjective_pairing)
  then show ?thesis using r r2 q(1) by (cases b; cases b2) (simp_all add: routeReady_def quiet_def)
qed

lemma outbound_process_leaves:
  assumes "\<And>pid txt w. \<exists>w'. thFeed T pid txt w = Some (True, w')"
  shows "leaves id w (outboundProcess T c configJSON port url testType w)"
proof -
  obtain b w1 where p: "thPipe T w = (b, w1)" by fastforce
  have q: "quietly w w1" using pipe [of w] by (simp add: p)
  obtain s w2 where s: "startTest T c w1 = (s, w2)" by fastforce
  have "leaves id w1 (outboundProcess T c configJSON port url testType w)" if b
  proof (cases s)
    case None
    then show ?thesis using that p s not_started [of c w1 w2] by (simp add: outboundProcess_def leaves_def)
  next
    case (Some pid)
    obtain w3 where f: "thFeed T pid configJSON w2 = Some (True, w3)" using assms [of pid configJSON w2] by blast
    show ?thesis using ended_leaves [OF outbound_measured started_fed [OF s [unfolded Some] f]] that p s f Some by (simp add: outboundProcess_def)
  qed
  then show ?thesis using leaves_after [OF q] p leaves_quiet [OF q] by (cases b) (simp_all add: outboundProcess_def)
qed

lemma route_process_leaves:
  assumes "\<And>w. quietly w (snd (measuring w))" and "\<And>pid txt w. thFeed T pid txt w \<noteq> None" and "\<And>pid w. thReap T pid (thSignal T pid 9 w) \<noteq> None"
  shows "leaves id w (routeProcess T c configJSON socksPort apiPort measuring w)"
proof -
  obtain b w1 where p: "thPipe T w = (b, w1)" by fastforce
  have q: "quietly w w1" using pipe [of w] by (simp add: p)
  obtain s w2 where s: "startTest T c w1 = (s, w2)" by fastforce
  have "leaves id w1 (routeProcess T c configJSON socksPort apiPort measuring w)" if b
  proof (cases s)
    case None
    then show ?thesis using that p s not_started [of c w1 w2] by (simp add: routeProcess_def leaves_def)
  next
    case (Some pid)
    obtain fb w3 where f: "thFeed T pid configJSON w2 = Some (fb, w3)" using assms(2) by fastforce
    note sf = started_fed [OF s [unfolded Some] f]
    show ?thesis
    proof (cases fb)
      case True
      then show ?thesis using ended_leaves [OF route_ready [OF assms(1)] sf] that p s f Some by (simp add: routeProcess_def)
    next
      case False
      obtain w4 where k: "killManagedProcess T pid w3 = Some w4" using assms(3) by (auto simp: killManagedProcess_def)
      then have "quietly w3 w4" "pid \<notin> procs w4" using quietly_trans [OF signal reap(1)] reap(2) unfolding killManagedProcess_def by blast+
      then show ?thesis using False k sf that p s f Some by (auto simp: routeProcess_def leaves_def calm_def)
    qed
  qed
  then show ?thesis using leaves_after [OF q] p leaves_quiet [OF q] by (cases b) (simp_all add: routeProcess_def)
qed

lemma outbound_run_leaves:
  assumes "\<And>pid txt w. \<exists>w'. thFeed T pid txt w = Some (True, w')"
  shows "leaves id w (outboundRun T F marshal reencode c tag outbounds url testType w)"
proof -
  obtain r w1 where r: "findAvailablePort T w = (r, w1)" by fastforce
  have q: "quietly w w1" using port_found [of w] by (simp add: r)
  show ?thesis
  proof (cases r)
    case (Some port)
    obtain cfg where "buildOutboundTestConfig reencode F tag outbounds port = Some cfg"
      using outbound_config_total by blast
    then show ?thesis using r Some leaves_quiet [OF q] leaves_after [OF q outbound_process_leaves [OF assms]]
      by (auto simp: outboundRun_def split: sum.split)
  qed (simp add: outboundRun_def r leaves_quiet [OF q])
qed

lemma route_run_leaves:
  assumes "\<And>p w. quietly w (snd (measuring p w))" and "\<And>p q. configOf p q \<noteq> Panic"
    and "\<And>pid txt w. thFeed T pid txt w \<noteq> None" and "\<And>pid w. thReap T pid (thSignal T pid 9 w) \<noteq> None"
  shows "leaves id w (routeRun T configOf measuring c w)"
proof -
  obtain r w1 where r: "findAvailablePort T w = (r, w1)" by fastforce
  obtain r2 w2 where r2: "findAvailablePort T w1 = (r2, w2)" by fastforce
  have q1: "quietly w w1" using port_found [of w] by (simp add: r)
  have q2: "quietly w w2" using quietly_trans [OF q1 port_found] by (simp add: r2)
  show ?thesis
  proof (cases "r = None \<or> r2 = None")
    case True
    then show ?thesis using r r2 leaves_quiet [OF q1] leaves_quiet [OF q2] by (auto simp: routeRun_def split: option.split)
  next
    case False
    then obtain p q where pq: "r = Some p" "r2 = Some q" by auto
    show ?thesis
      using assms(2) [of p q] r r2 pq leaves_quiet [OF q2] leaves_after [OF q2 route_process_leaves [OF assms(1,3,4)]]
      by (cases "configOf p q") (simp_all add: routeRun_def)
  qed
qed

lemma outbound_test_leaves:
  assumes "\<And>pid txt w. \<exists>w'. thFeed T pid txt w = Some (True, w')" and "\<And>args w. quietly w (snd (thPing T args w))"
  shows "leaves (thRelease T) w (TestOutbound T F rounded marshal reencode c name protocol outbounds testURL testType w)"
proof -
  have tcp: "leaves (thRelease T) w (Some (measureOutboundTCP T target w))" for target
    using dial [of w] quietly_refl [of w] by (auto simp: measureOutboundTCP_def intro!: leaves_quiet split: prod.split option.split) (metis snd_conv)+
  have icmp: "leaves (thRelease T) w (Some (measureOutboundICMP T rounded target w))" for target
    using assms(2) [of w] quietly_refl [of w] by (auto simp: measureOutboundICMP_def Let_def intro!: leaves_quiet split: prod.split option.split) (metis snd_conv)+
  have http: "quietly w (snd (measureHTTPDelay T None url w))" for url by (rule delay_measured)
  have slot: "leaves (thRelease T) w (withSlot T refused (outboundRun T F marshal reencode c tag outbounds url kind) w)" for refused tag url kind
    by (rule slot_returned, rule outbound_run_leaves [OF assms(1)])
  have direct: "leaves (thRelease T) w (case measureHTTPDelay T None url w of (Inl _, w') \<Rightarrow> Some (failedTest ''Direct request failed'' kind, w')
      | (Inr (delay, statusCode), w') \<Rightarrow> Some (measuredTest delay statusCode kind, w'))" for url kind
    using http [of url] by (cases "measureHTTPDelay T None url w") (auto intro!: leaves_quiet split: sum.split)
  have target: "leaves (thRelease T) w (case x of (_, False) \<Rightarrow> Some (failedTest err kind, w)
      | (target, True) \<Rightarrow> Some (if kind = ''tcp'' then measureOutboundTCP T target w else measureOutboundICMP T rounded target w))" for x err kind
    by (cases x; cases "snd x"; simp add: tcp icmp leaves_quiet [OF quietly_refl])
  show ?thesis unfolding TestOutbound_def Let_def by (intro leaves_if direct slot target leaves_quiet [OF quietly_refl])
qed

end

section \<open>A simulated system\<close>

record simWorld =
  swProcs :: "nat list"
  swHeld :: nat
  swNow :: int

text \<open>
  A system on which everything succeeds, but for the write to the new process when \<open>fed\<close> is false. A process ends at signal 9, and not at
  all when \<open>stuck\<close> is true.
\<close>

definition simHost :: "bool \<Rightarrow> bool \<Rightarrow> simWorld testHost" where
  "simHost stuck fed =
     \<lparr>thWindows = False,
      thAcquire = (\<lambda>w. if swHeld w < 2 then (True, w\<lparr>swHeld := Suc (swHeld w)\<rparr>) else (False, w)), thRelease = (\<lambda>w. w\<lparr>swHeld := swHeld w - 1\<rparr>),
      thListen = (\<lambda>w. (Some (Some 18080), w)), thClose = (\<lambda>w. w), thPipe = (\<lambda>w. (True, w)),
      thStart = (\<lambda>exe args env w. (Some 7, w\<lparr>swProcs := 7 # swProcs w\<rparr>)), thFeed = (\<lambda>pid txt w. Some (fed, w)),
      thExited = (\<lambda>pid w. pid \<notin> set (swProcs w)), thSignal = (\<lambda>pid n w. if n = 9 \<and> \<not> stuck then w\<lparr>swProcs := removeAll pid (swProcs w)\<rparr> else w),
      thWaitExit = (\<lambda>pid ms w. (pid \<notin> set (swProcs w), w)), thReap = (\<lambda>pid w. if pid \<in> set (swProcs w) then None else Some w),
      thNow = swNow, thSleep = (\<lambda>ms w. w\<lparr>swNow := swNow w + int ms\<rparr>), thDial = (\<lambda>address ms w. (None, w)),
      thGet = (\<lambda>via url w. (Inr 204, w\<lparr>swNow := swNow w + 20\<rparr>)), thPing = (\<lambda>args w. ((None, ''time=1 ms''), w))\<rparr>"

definition simStats :: "simWorld statsClient" where
  "simStats = \<lparr>scDial = (\<lambda>_. None), scQueryStats = (\<lambda>pattern reset w. (Inr [], w)), scOnlineUsers = (\<lambda>_. Inr []), scOnlineIpList = (\<lambda>_ _. NoSuchUser)\<rparr>"

definition simRouting :: "simWorld routingClient" where
  "simRouting = \<lparr>rcDial = (\<lambda>_. None), rcTestRoute = (\<lambda>ctx w. (Inr (''direct'', []), w))\<rparr>"

definition simProcs :: "simWorld \<Rightarrow> nat set" where
  "simProcs w = set (swProcs w)"

definition simStart :: simWorld where
  "simStart = \<lparr>swProcs = [], swHeld = 0, swNow = 0\<rparr>"

interpretation sim: testLaws "simHost stuck fed" simStats simRouting simProcs swHeld
  by unfold_locales (auto simp: simHost_def simStats_def simRouting_def simProcs_def calm_def split: if_splits)

section \<open>Results\<close>


text \<open>
  A test of an outbound ends and gives its slot back, provided that the configuration can be written to the process, and no process of it
  runs afterwards but one that was reported as still running after signal 9.
\<close>

theorem outbound_test_cleans_up:
  assumes laws: "testLaws T C R procs held" and "\<And>pid txt w. \<exists>w'. thFeed T pid txt w = Some (True, w')" and "\<And>args w. calm T procs held w (snd (thPing T args w))"
  shows "\<exists>r w'. TestOutbound T F rounded marshal reencode c name protocol outbounds testURL testType w = Some (r, w') \<and> held w' = held w
    \<and> (procs w' \<subseteq> procs w
       \<or> (\<exists>pid w1. w' = thRelease T (endTest T pid w1) \<and> \<not> fst (terminateManagedProcess T pid w1) \<and> procs w' \<subseteq> insert pid (procs w)))"
  using testLaws.outbound_test_leaves [OF laws assms(2,3), of w F rounded marshal reencode c name protocol outbounds testURL testType]
  by (simp add: testLaws.leaves_def [OF laws])

text \<open>
  When the configuration cannot be written to the new process, a test of an outbound gives its slot back and returns: nothing
  stops the process it has started, although a test of a route kills its process in the same case.
\<close>

theorem unfed_process_stays:
  assumes "thFeed T pid configJSON w = Some (False, w')" and "startTest T c w1 = (Some pid, w)" and "thPipe T w0 = (True, w1)"
  shows "outboundProcess T c configJSON port url testType w0 = Some (failedTest ''Outbound test failed'' testType, w')
    \<and> routeProcess T c configJSON port apiPort measuring w0 = map_option (Pair (failedRoute ''Route test failed'')) (killManagedProcess T pid w')"
  using assms by (simp add: outboundProcess_def routeProcess_def)

text \<open>The write of the configuration has no deadline: when the process does not read, a test of a route does not end and keeps its slot.\<close>

theorem blocked_write_blocks_test:
  assumes "thPipe T w0 = (True, w1)" and "startTest T c w1 = (Some pid, w)" and "thFeed T pid configJSON w = None"
  shows "routeProcess T c configJSON port apiPort measuring w0 = None \<and> outboundProcess T c configJSON port url testType w0 = None"
  using assms by (simp add: outboundProcess_def routeProcess_def)

section \<open>Examples\<close>



theorem outbound_test_cleans_up_witness:
  "\<exists>r w'. TestOutbound (simHost False True) exampleFloats (\<lambda>_. Some 1) (\<lambda>_. Inr ''config'') Inr exampleCore ''proxy'' ''vless'' exampleOutbounds [] ''latency'' simStart = Some (r, w')
     \<and> swHeld w' = swHeld simStart \<and> simProcs w' = {}"
proof -
  let ?T = "simHost False True"
  have stops: "fst (terminateManagedProcess ?T pid w1)" for pid w1 by (simp add: terminateManagedProcess_def simHost_def split: bool.split)
  have "\<And>pid txt w. \<exists>w'. thFeed ?T pid txt w = Some (True, w')" "\<And>args w. calm ?T simProcs swHeld w (snd (thPing ?T args w))"
    by (simp_all add: simHost_def calm_def)
  from outbound_test_cleans_up [OF sim.testLaws_axioms this]
  obtain r w' where "TestOutbound ?T exampleFloats (\<lambda>_. Some 1) (\<lambda>_. Inr ''config'') Inr exampleCore ''proxy'' ''vless'' exampleOutbounds [] ''latency'' simStart = Some (r, w')"
    "swHeld w' = swHeld simStart" "simProcs w' \<subseteq> simProcs simStart" using stops by blast
  moreover have "simProcs simStart = {}" by (simp add: simProcs_def simStart_def)
  ultimately show ?thesis by blast
qed

theorem unfed_process_stays_witness:
  "map_option (simProcs \<circ> snd) (outboundProcess (simHost False False) exampleCore ''config'' 18080 [] ''latency'' simStart) = Some {7}
     \<and> map_option (simProcs \<circ> snd) (routeProcess (simHost False False) exampleCore ''config'' 18080 18081 (\<lambda>w. (failedRoute [], w)) simStart) = Some {}"
proof -
  let ?w = "simStart\<lparr>swProcs := [7]\<rparr>"
  have "thFeed (simHost False False) 7 ''config'' ?w = Some (False, ?w)" "startTest (simHost False False) exampleCore simStart = (Some 7, ?w)"
    "thPipe (simHost False False) simStart = (True, simStart)"
    by (simp_all add: simHost_def startTest_def simStart_def)
  from unfed_process_stays [OF this] show ?thesis by (simp add: killManagedProcess_def simHost_def simProcs_def)
qed

text \<open>A process that no signal ends is left when the test ends.\<close>

theorem stuck_process_left: "simProcs (endTest (simHost True True) 7 (simStart\<lparr>swProcs := [7]\<rparr>)) = {7}"
  by (simp add: endTest_def terminateManagedProcess_def simHost_def simStart_def simProcs_def)

end
