(* ===== verification/Socks.thy ===== *)
theory Socks
  imports Text_Util
begin

text \<open>
  The SOCKS client with which the node checks its local proxies: \<open>authenticateSOCKS5\<close> of \<open>internal/node/service_diagnostics.go\<close>,
  \<open>testSocks5Connect\<close> of \<open>tor.go\<close> and \<open>testAuthenticatedSocks5Connect\<close> of \<open>windscribe.go\<close>. A connection is a state that stays
  a parameter. Results: what the client sends is read by a server as the credentials and the target it was given, it never sends
  credentials that do not fit their length byte, and it accepts exactly the answers that grant the request, except that one of the two clients
  accepts an answer that breaks off inside a domain name.
\<close>

section \<open>Definitions\<close>

text \<open>\<open>cnWrite\<close>: the error of a write; \<open>cnRead n\<close>: \<open>io.ReadFull\<close> of \<open>n\<close> bytes, and \<open>CopyN\<close> to nowhere.\<close>

record 'c conn =
  cnWrite :: "nat list \<Rightarrow> 'c \<Rightarrow> string option \<times> 'c"
  cnRead :: "nat \<Rightarrow> 'c \<Rightarrow> (string + nat list) \<times> 'c"

definition bytesOf :: "string \<Rightarrow> nat list" where
  "bytesOf s = map of_char s"

definition sendThen :: "'c conn \<Rightarrow> nat list \<Rightarrow> nat \<Rightarrow> (nat list \<Rightarrow> 'c \<Rightarrow> string option \<times> 'c) \<Rightarrow> 'c \<Rightarrow> string option \<times> 'c" where
  "sendThen N msg n k c = (case cnWrite N msg c of
       (Some err, c1) \<Rightarrow> (Some err, c1)
     | (None, c1) \<Rightarrow> (case cnRead N n c1 of (Inl err, c2) \<Rightarrow> (Some err, c2) | (Inr bytes, c2) \<Rightarrow> k bytes c2))"

definition authMessage :: "string \<Rightarrow> string \<Rightarrow> nat list" where
  "authMessage username password =
     [1, length username mod 256] @ bytesOf username @ [length password mod 256] @ bytesOf password"

definition authenticateSOCKS5 :: "'c conn \<Rightarrow> string \<Rightarrow> string \<Rightarrow> 'c \<Rightarrow> string option \<times> 'c" where
  "authenticateSOCKS5 N username password c =
     (let auth = (username \<noteq> [] \<or> password \<noteq> []); chosen = (if auth then 2 else 0) in
      if auth \<and> (username = [] \<or> password = [] \<or> 255 < length username \<or> 255 < length password)
      then (Some ''SOCKS username/password are missing or too long'', c)
      else sendThen N [5, 1, chosen] 2 (\<lambda>response c.
        if response ! 0 \<noteq> 5 \<or> response ! 1 \<noteq> chosen
        then (Some ''listener is not a compatible SOCKS5 service or rejected its authentication method'', c)
        else if \<not> auth then (None, c)
        else sendThen N (authMessage username password) 2 (\<lambda>response c.
          if response ! 0 \<noteq> 1 \<or> response ! 1 \<noteq> 0 then (Some ''SOCKS5 proxy rejected the saved credentials'', c) else (None, c)) c) c)"

definition connectRequest :: "string \<Rightarrow> nat \<Rightarrow> nat list" where
  "connectRequest host targetPort = [5, 1, 0, 3, length host mod 256] @ bytesOf host @ [targetPort div 256 mod 256, targetPort mod 256]"

definition discard :: "'c conn \<Rightarrow> nat \<Rightarrow> 'c \<Rightarrow> string option \<times> 'c" where
  "discard N n c = (case cnRead N n c of (Inl err, c') \<Rightarrow> (Some err, c') | (Inr _, c') \<Rightarrow> (None, c'))"

text \<open>
  The address in the answer. \<open>shadowed\<close>: the error of the last read of a domain name is assigned to an inner variable, so that the
  function returns the outer one, which is nil.
\<close>

definition readAddress :: "'c conn \<Rightarrow> bool \<Rightarrow> nat \<Rightarrow> 'c \<Rightarrow> string option \<times> 'c" where
  "readAddress N shadowed kind c =
     (if kind = 1 then discard N 6 c
      else if kind = 3 then
        (case cnRead N 1 c of
           (Inl err, c1) \<Rightarrow> (Some err, c1)
         | (Inr bytes, c1) \<Rightarrow> (case discard N (bytes ! 0 + 2) c1 of (err, c2) \<Rightarrow> (if shadowed then None else err, c2)))
      else if kind = 4 then discard N 18 c
      else (Some (''SOCKS response has invalid address type '' @ formatUint kind), c))"

definition requestTarget :: "'c conn \<Rightarrow> bool \<Rightarrow> string \<Rightarrow> nat \<Rightarrow> 'c \<Rightarrow> string option \<times> 'c" where
  "requestTarget N shadowed host targetPort = sendThen N (connectRequest host targetPort) 4 (\<lambda>response c.
     if response ! 1 \<noteq> 0 then (Some (''SOCKS connect failed with code '' @ formatUint (response ! 1)), c)
     else readAddress N shadowed (response ! 3) c)"

text \<open>\<open>dialed\<close>: the connection to the port on the loopback address, or the error.\<close>

definition testSocks5Connect :: "'c conn \<Rightarrow> (string + 'c) \<Rightarrow> string \<Rightarrow> nat \<Rightarrow> string option" where
  "testSocks5Connect N dialed host targetPort = (case dialed of
       Inl err \<Rightarrow> Some err
     | Inr c \<Rightarrow> (case authenticateSOCKS5 N [] [] c of
         (Some err, _) \<Rightarrow> Some err
       | (None, c1) \<Rightarrow> if 255 < length host then Some ''SOCKS host is too long'' else fst (requestTarget N True host targetPort c1)))"

definition testAuthenticatedSocks5Connect :: "'c conn \<Rightarrow> (string + 'c) \<Rightarrow> string \<Rightarrow> string \<Rightarrow> string \<Rightarrow> nat \<Rightarrow> string option" where
  "testAuthenticatedSocks5Connect N dialed username password host targetPort =
     (if username = [] \<or> password = [] then Some ''SOCKS username/password are missing''
      else case dialed of
          Inl err \<Rightarrow> Some err
        | Inr c \<Rightarrow> (case authenticateSOCKS5 N username password c of
            (Some err, _) \<Rightarrow> Some err
          | (None, c1) \<Rightarrow> fst (requestTarget N False host targetPort c1)))"

section \<open>What a server reads\<close>

text \<open>The messages of RFC 1928 and RFC 1929 as a server reads them.\<close>

definition counted :: "nat list \<Rightarrow> (nat list \<times> nat list) option" where
  "counted bs = (case bs of [] \<Rightarrow> None | n # rest \<Rightarrow> if length rest < n then None else Some (take n rest, drop n rest))"

definition readCredentials :: "nat list \<Rightarrow> (nat list \<times> nat list) option" where
  "readCredentials bs = (case bs of
       v # rest \<Rightarrow> if v \<noteq> 1 then None else (case counted rest of
           None \<Rightarrow> None
         | Some (user, rest) \<Rightarrow> (case counted rest of Some (pass, []) \<Rightarrow> Some (user, pass) | _ \<Rightarrow> None))
     | [] \<Rightarrow> None)"

definition readTarget :: "nat list \<Rightarrow> (nat list \<times> nat) option" where
  "readTarget bs = (if take 4 bs \<noteq> [5, 1, 0, 3] then None
     else case counted (drop 4 bs) of Some (name, [hi, lo]) \<Rightarrow> Some (name, 256 * hi + lo) | _ \<Rightarrow> None)"

lemma counted_append: "length xs < 256 \<Longrightarrow> counted (length xs mod 256 # xs @ ys) = Some (xs, ys)"
  by (simp add: counted_def)

lemma length_bytesOf [simp]: "length (bytesOf s) = length s"
  by (simp add: bytesOf_def)

lemma credentials_read: "length u < 256 \<Longrightarrow> length p < 256 \<Longrightarrow> readCredentials (authMessage u p) = Some (bytesOf u, bytesOf p)"
  using counted_append [of "bytesOf u" "(length p mod 256) # bytesOf p"] counted_append [of "bytesOf p" "[]"]
  by (simp add: readCredentials_def authMessage_def)

lemma target_read: "length host < 256 \<Longrightarrow> port < 65536 \<Longrightarrow> readTarget (connectRequest host port) = Some (bytesOf host, port)"
  using counted_append [of "bytesOf host" "[port div 256 mod 256, port mod 256]"]
  by (simp add: readTarget_def connectRequest_def)

section \<open>A recorded connection\<close>

text \<open>The bytes the server has yet to send, and the messages it received.\<close>

type_synonym script = "nat list \<times> nat list list"

definition scripted :: "script conn" where
  "scripted = \<lparr>cnWrite = (\<lambda>msg c. (None, (fst c, snd c @ [msg]))),
     cnRead = (\<lambda>n c. if length (fst c) < n then (Inl ''EOF'', ([], snd c)) else (Inr (take n (fst c)), (drop n (fst c), snd c)))\<rparr>"

lemma scripted_read: "cnRead scripted n (bs, ms) = (if length bs < n then (Inl ''EOF'', ([], ms)) else (Inr (take n bs), (drop n bs, ms)))"
  by (simp add: scripted_def)

lemma scripted_send:
  "sendThen scripted msg n k (bs, ms) = (if length bs < n then (Some ''EOF'', ([], ms @ [msg])) else k (take n bs) (drop n bs, ms @ [msg]))"
  by (simp add: sendThen_def scripted_def)

lemma scripted_discard: "discard scripted n (bs, ms) = (if length bs < n then (Some ''EOF'', ([], ms)) else (None, (drop n bs, ms)))"
  by (simp add: discard_def scripted_read)

text \<open>The bytes of the address of an answer: after the kind, with the port.\<close>

definition addressLength :: "nat \<Rightarrow> nat list \<Rightarrow> nat option" where
  "addressLength kind bs =
     (if kind = 1 then Some 6 else if kind = 4 then Some 18 else if kind = 3 then (case bs of [] \<Rightarrow> None | n # _ \<Rightarrow> Some (n + 3)) else None)"

definition granted :: "nat list \<Rightarrow> bool" where
  "granted bs \<longleftrightarrow> 4 \<le> length bs \<and> bs ! 1 = 0 \<and> (case addressLength (bs ! 3) (drop 4 bs) of None \<Rightarrow> False | Some n \<Rightarrow> 4 + n \<le> length bs)"

lemma address_read: "fst (readAddress scripted False kind (bs, ms)) = None \<longleftrightarrow> (case addressLength kind bs of None \<Rightarrow> False | Some n \<Rightarrow> n \<le> length bs)"
  by (cases bs) (auto simp: readAddress_def scripted_discard addressLength_def scripted_read)

section \<open>Results\<close>

text \<open>
  Against a server that sends the bytes \<open>bs\<close>, the authenticated check succeeds exactly when the server accepts the method, accepts the
  credentials and grants the request with a complete address.
\<close>

theorem socks_check_exact:
  assumes "username \<noteq> []" and "password \<noteq> []" and "length username < 256" and "length password < 256"
  shows "testAuthenticatedSocks5Connect scripted (Inr (bs, [])) username password host port = None
    \<longleftrightarrow> 4 \<le> length bs \<and> take 4 bs = [5, 2, 1, 0] \<and> granted (drop 4 bs)"
proof -
  have t: "take 4 bs = [5, 2, 1, 0] \<longleftrightarrow> bs ! 0 = 5 \<and> bs ! 1 = 2 \<and> bs ! 2 = 1 \<and> bs ! 3 = 0" if "4 \<le> length bs"
  proof -
    have "Suc (Suc (Suc (Suc 0))) \<le> length bs" using that by simp
    then obtain a b c d r where "bs = a # b # c # d # r" unfolding Suc_le_length_iff by blast
    then show ?thesis by (simp add: numeral_3_eq_3)
  qed
  have "fst (requestTarget scripted False host port (drop 4 bs, ms)) = None \<longleftrightarrow> granted (drop 4 bs)" for ms
    by (auto simp: requestTarget_def scripted_send granted_def address_read drop_drop add.commute split: option.split)
  then show ?thesis using assms t
    by (auto simp: testAuthenticatedSocks5Connect_def authenticateSOCKS5_def Let_def scripted_send split: if_splits)
qed

text \<open>
  When the authentication succeeds, the server has received the offer of one method and, when there are credentials, a message in
  which it reads exactly these credentials; without credentials nothing else is sent.
\<close>

theorem socks_credentials_sent:
  assumes "authenticateSOCKS5 scripted username password (bs, []) = (None, (rest, sent))"
  shows "if username = [] \<and> password = [] then sent = [[5, 1, 0]]
    else \<exists>m. sent = [[5, 1, 2], m] \<and> readCredentials m = Some (bytesOf username, bytesOf password)"
  using assms credentials_read [of username password]
  by (auto simp: authenticateSOCKS5_def Let_def scripted_send split: if_splits)

text \<open>
  The check of Tor accepts an answer with a domain name that breaks off after the length of the name: the error of the read is
  lost in a shadowed variable.
\<close>

theorem truncated_answer_accepted:
  assumes "length host < 256"
  shows "testSocks5Connect scripted (Inr ([5, 0, 5, 0, 0, 3, n] @ rest, [])) host port = None
    \<and> (length rest < n + 2 \<longrightarrow> \<not> granted ([5, 0, 0, 3, n] @ rest))"
  using assms
  by (auto simp: testSocks5Connect_def authenticateSOCKS5_def Let_def scripted_send requestTarget_def readAddress_def scripted_read
      granted_def addressLength_def numeral_2_eq_2 numeral_3_eq_3 split: prod.split)

theorem socks_check_exact_witness:
  "testAuthenticatedSocks5Connect scripted (Inr ([5, 2, 1, 0, 5, 0, 0, 1, 0, 0, 0, 0, 0, 0], [])) ''rebecca1'' ''password'' ''example.com'' 80 = None"
  using socks_check_exact [of "''rebecca1''" "''password''" "[5, 2, 1, 0, 5, 0, 0, 1, 0, 0, 0, 0, 0, 0]" "''example.com''" 80]
  by (simp add: granted_def addressLength_def)

theorem socks_credentials_sent_witness:
  "authenticateSOCKS5 scripted ''user'' ''pass'' ([5, 2, 1, 0], []) = (None, ([], [[5, 1, 2], authMessage ''user'' ''pass'']))
     \<and> readCredentials (authMessage ''user'' ''pass'') = Some (bytesOf ''user'', bytesOf ''pass'')"
proof -
  have a: "authenticateSOCKS5 scripted ''user'' ''pass'' ([5, 2, 1, 0], []) = (None, ([], [[5, 1, 2], authMessage ''user'' ''pass'']))"
    by (simp add: authenticateSOCKS5_def Let_def scripted_send)
  from socks_credentials_sent [OF this] a show ?thesis by simp
qed

theorem truncated_answer_accepted_witness:
  "testSocks5Connect scripted (Inr ([5, 0, 5, 0, 0, 3, 20], [])) ''example.com'' 80 = None \<and> \<not> granted [5, 0, 0, 3, 20]"
  using truncated_answer_accepted [of "''example.com''" 20 "[]" 80] by simp

end
