(* ===== verification/Tor.thy ===== *)
theory Tor
  imports Managed_Block Socks
begin

text \<open>
  The Tor proxies of a node: \<open>internal/node/tor.go\<close>. A request writes the configuration of an instance and its systemd unit, starts
  it and waits until its SOCKS port works; without systemd a block of the system's \<open>torrc\<close> is used. The accounts of the system,
  the clock, the network and changes of owners are parameters. Results: what the test for a finished setup recognises, exactly; a
  request that is not valid changes nothing; the waiting ends.
\<close>

section \<open>Definitions\<close>

definition torRebeccaBlockStart :: string where "torRebeccaBlockStart = ''# BEGIN REBECCA TOR PROXY''"
definition torRebeccaBlockEnd :: string where "torRebeccaBlockEnd = ''# END REBECCA TOR PROXY''"

record torProxyConfig =
  tpSocksPort :: nat
  tpExitCountry :: string
  tpStrictExit :: bool

text \<open>
  \<open>teUser\<close>: the name, the user and the group identifier of an account; \<open>teGroup\<close>: the name of a group; \<open>teMkdirTemp\<close>: a new
  directory; \<open>teDial\<close>: the error of a connection to an address; \<open>teConnect\<close>: a connection to a port of the loopback address.
\<close>

text \<open>\<open>IsDir\<close> of the result of \<open>os.Stat\<close>, and \<open>os.IsNotExist\<close> of an error.\<close>

record 'h fileFacts =
  ffIsDir :: "'h \<Rightarrow> string \<Rightarrow> bool"
  ffNotExist :: "string \<Rightarrow> bool"

record ('h, 'c) torEnv =
  teFiles :: "'h fileFacts"
  teUser :: "'h \<Rightarrow> string \<Rightarrow> (string \<times> string \<times> string) option"
  teGroup :: "'h \<Rightarrow> string \<Rightarrow> string option"
  teChown :: "string \<Rightarrow> int \<Rightarrow> int \<Rightarrow> 'h action"
  teMkdirTemp :: "'h \<Rightarrow> (string + string) \<times> 'h"
  teNow :: "'h \<Rightarrow> int"
  teDial :: "string \<Rightarrow> 'h \<Rightarrow> string option \<times> 'h"
  teConn :: "'c conn"
  teConnect :: "nat \<Rightarrow> 'h \<Rightarrow> (string + 'c) \<times> 'h"

definition fileExists :: "'h fileFacts \<Rightarrow> 'h host \<Rightarrow> 'h \<Rightarrow> string \<Rightarrow> bool" where
  "fileExists I H h path \<longleftrightarrow> hStat H h path = None \<and> \<not> ffIsDir I h path"

text \<open>\<open>^[a-zA-Z]{2}$\<close>\<close>

definition isLetter :: "char \<Rightarrow> bool" where
  "isLetter c \<longleftrightarrow> (let n = of_char c :: nat in (65 \<le> n \<and> n \<le> 90) \<or> (97 \<le> n \<and> n \<le> 122))"

definition countryCode :: "string \<Rightarrow> bool" where
  "countryCode s \<longleftrightarrow> length s = 2 \<and> list_all isLetter s"

definition torUnitName :: "nat \<Rightarrow> string" where
  "torUnitName port = ''rebecca-tor-'' @ formatUint port @ ''.service''"

definition torUnitPath :: "nat \<Rightarrow> string" where
  "torUnitPath port = joinPath [''/etc/systemd/system'', torUnitName port]"

definition torConfigPath :: "nat \<Rightarrow> string" where
  "torConfigPath port = joinPath [''/etc/tor/rebecca'', ''rebecca-tor-'' @ formatUint port @ ''.torrc'']"

definition socksLine :: "nat \<Rightarrow> string" where
  "socksLine port = ''SocksPort 127.0.0.1:'' @ formatUint port"

definition exitLine :: "string \<Rightarrow> string" where
  "exitLine country = ''ExitNodes {'' @ country @ ''}''"

definition configuredBy :: "string \<Rightarrow> nat \<Rightarrow> string \<Rightarrow> bool \<Rightarrow> bool" where
  "configuredBy txt port country strict \<longleftrightarrow>
     contains txt (socksLine port) \<and> (country = [] \<or> contains txt (exitLine country)) \<and> strict = contains txt ''StrictNodes 1''"

definition torProxyAlreadyConfigured :: "'h fileFacts \<Rightarrow> 'h host \<Rightarrow> 'h \<Rightarrow> nat \<Rightarrow> string \<Rightarrow> bool \<Rightarrow> bool" where
  "torProxyAlreadyConfigured I H h port country strict \<longleftrightarrow>
     hGOOS H = ''linux'' \<and> fileExists I H h (torUnitPath port)
     \<and> (case hRead H h (torConfigPath port) of Inl _ \<Rightarrow> False | Inr txt \<Rightarrow> configuredBy txt port country strict)"

definition exitLines :: "string \<Rightarrow> bool \<Rightarrow> string list" where
  "exitLines country strict = (if country = [] then [] else exitLine country # (if strict then [''StrictNodes 1''] else []))"

definition torInstanceLines :: "nat \<Rightarrow> string \<Rightarrow> bool \<Rightarrow> string \<Rightarrow> string list" where
  "torInstanceLines port country strict dataPath =
     [''DataDirectory '' @ dataPath, socksLine port, ''SocksPolicy accept 127.0.0.1'', ''SocksPolicy reject *'', ''ClientOnly 1'', ''AvoidDiskWrites 1'', ''Log notice stderr'']
     @ exitLines country strict"

definition torInstanceConfig :: "nat \<Rightarrow> string \<Rightarrow> bool \<Rightarrow> string \<Rightarrow> string" where
  "torInstanceConfig port country strict dataPath = joinWith [newline] (torInstanceLines port country strict dataPath) @ [newline]"

definition torSystemdUnit :: "string \<Rightarrow> string \<Rightarrow> string \<Rightarrow> string \<Rightarrow> string \<Rightarrow> string" where
  "torSystemdUnit torPath configPath dataPath serviceUser serviceGroup = concat (map textLine
     [''[Unit]'', ''Description=Rebecca Tor SOCKS instance'', ''After=network-online.target'', ''Wants=network-online.target'', [],
      ''[Service]'', ''Type=simple'', ''User='' @ serviceUser, ''Group='' @ serviceGroup, ''ExecStart='' @ torPath @ '' -f '' @ configPath,
      ''ExecReload=/bin/kill -HUP $MAINPID'', ''KillSignal=SIGINT'', ''TimeoutStopSec=30'', ''Restart=on-failure'', ''RestartSec=3'',
      ''NoNewPrivileges=true'', ''PrivateTmp=true'', ''ProtectHome=true'', ''ProtectSystem=strict'', ''ReadWritePaths='' @ dataPath, ''UMask=0077'', [],
      ''[Install]'', ''WantedBy=multi-user.target''])"

fun torAccount :: "('h, 'c) torEnv \<Rightarrow> 'h \<Rightarrow> string list \<Rightarrow> (string \<times> string \<times> int \<times> int) option" where
  "torAccount E h [] = None"
| "torAccount E h (name # names) = (case teUser E h name of
       None \<Rightarrow> torAccount E h names
     | Some (username, uid, gid) \<Rightarrow> (case (parseInt 64 uid, parseInt 64 gid) of
         (Some u, Some g) \<Rightarrow> Some (username, (case teGroup E h gid of None \<Rightarrow> gid | Some groupName \<Rightarrow> groupName), u, g)
       | _ \<Rightarrow> torAccount E h names))"

definition torServiceAccount :: "('h, 'c) torEnv \<Rightarrow> 'h \<Rightarrow> (string \<times> string \<times> int \<times> int) option" where
  "torServiceAccount E h = torAccount E h [''debian-tor'', ''tor'', ''toranon'', ''_tor'']"

section \<open>Blocks of \<open>torrc\<close>\<close>

definition crlf :: string where
  "crlf = [CHR 0x0D, newline]"

definition replaceMarkedBlock :: "string \<Rightarrow> string \<Rightarrow> string \<Rightarrow> string \<Rightarrow> string" where
  "replaceMarkedBlock current start stop block =
     (let current = replaceAll current crlf [newline];
          current = (case (indexOf current start, indexOf current stop) of
              (Some i, Some j) \<Rightarrow> if i \<le> j then trimSpace (take i current @ drop (j + length stop) current) else current
            | _ \<Rightarrow> current)
      in if trimSpace current = [] then block @ [newline] else trimRightChars {newline} current @ [newline, newline] @ block @ [newline])"

definition torrc :: string where
  "torrc = ''/etc/tor/torrc''"

definition disableLegacyTorSocks :: "'h fileFacts \<Rightarrow> 'h host \<Rightarrow> 'h \<Rightarrow> (string + bool) \<times> 'h" where
  "disableLegacyTorSocks I H h = (case hRead H h torrc of
       Inl err \<Rightarrow> (if ffNotExist I err then Inr False else Inl err, h)
     | Inr raw \<Rightarrow>
         let next = replaceMarkedBlock raw torRebeccaBlockStart torRebeccaBlockEnd (joinWith [newline] [torRebeccaBlockStart, ''SocksPort 0'', torRebeccaBlockEnd]) in
         if next = raw then (Inr False, h)
         else (case hWrite H torrc next 420 h of (Some err, h') \<Rightarrow> (Inl err, h') | (None, h') \<Rightarrow> (Inr True, h')))"

definition legacyBlock :: "nat \<Rightarrow> string \<Rightarrow> bool \<Rightarrow> string" where
  "legacyBlock port country strict = joinWith [newline]
     ([torRebeccaBlockStart, ''SocksPort 0'', socksLine port, ''ClientOnly 1'', ''AvoidDiskWrites 1''] @ exitLines country strict @ [torRebeccaBlockEnd])"

definition writeRebeccaTorConfig :: "'h fileFacts \<Rightarrow> 'h host \<Rightarrow> nat \<Rightarrow> string \<Rightarrow> bool \<Rightarrow> 'h action" where
  "writeRebeccaTorConfig I H port country strict h =
     (let write = (\<lambda>raw. thenDo (hMkdirAll H ''/etc/tor'' 493)
            (hWrite H torrc (replaceMarkedBlock raw torRebeccaBlockStart torRebeccaBlockEnd (legacyBlock port country strict)) 420)) in
      case hRead H h torrc of
        Inr raw \<Rightarrow> write raw h
      | Inl err \<Rightarrow> if ffNotExist I err then write [] h else (Some err, h))"

section \<open>Services and packages\<close>

definition restartTorService :: "'h host \<Rightarrow> 'h action" where
  "restartTorService H h =
     (if commandExists H h ''systemctl'' then
        (case hRun H [] ''systemctl'' [''restart'', ''tor''] h of
           ((None, _), h1) \<Rightarrow> (None, h1)
         | ((Some err, out), h1) \<Rightarrow> (case hRun H [] ''systemctl'' [''restart'', ''tor@default''] h1 of
             ((None, _), h2) \<Rightarrow> (None, h2)
           | ((Some err2, out2), h2) \<Rightarrow> (Some (''restart tor service: '' @ err @ '': '' @ trimSpace out @ ''; '' @ err2 @ '': '' @ trimSpace out2), h2)))
      else if commandExists H h ''service'' then runChecked H [] ''service'' [''tor'', ''restart''] ''restart tor service'' h
      else (Some ''no supported service manager found for Tor'', h))"

definition ensureTorInstalled :: "'h host \<Rightarrow> 'h action" where
  "ensureTorInstalled H h =
     (if commandExists H h ''tor'' then (None, h)
      else if \<not> hRoot H then (Some ''Tor is missing and automatic install requires root'', h)
      else if commandExists H h ''apt-get'' then
        thenDo (if commandExists H h ''dpkg'' then ignoring (runInstallCommand H noninteractive ''dpkg'' [''--configure'', ''-a'']) else skip)
        (thenDo (runInstallCommand H noninteractive ''apt-get'' [''update''])
          (runInstallCommand H noninteractive ''apt-get'' [''install'', ''-y'', ''--no-install-recommends'', ''tor'', ''ca-certificates''])) h
      else if commandExists H h ''dnf'' then runInstallCommand H [] ''dnf'' [''install'', ''-y'', ''tor''] h
      else if commandExists H h ''yum'' then runInstallCommand H [] ''yum'' [''install'', ''-y'', ''tor''] h
      else if commandExists H h ''apk'' then runInstallCommand H [] ''apk'' [''add'', ''tor''] h
      else (Some ''Tor is missing and no supported package manager was found'', h))"

definition ensureTorGeoIPInstalled :: "'h fileFacts \<Rightarrow> 'h host \<Rightarrow> 'h action" where
  "ensureTorGeoIPInstalled I H h =
     (if fileExists I H h ''/usr/share/tor/geoip'' \<and> fileExists I H h ''/usr/share/tor/geoip6'' then (None, h)
      else if \<not> hRoot H then (Some ''Tor GeoIP data is missing and automatic install requires root'', h)
      else if commandExists H h ''apt-get'' then
        thenDo (runInstallCommand H noninteractive ''apt-get'' [''update''])
          (runInstallCommand H noninteractive ''apt-get'' [''install'', ''-y'', ''--no-install-recommends'', ''tor-geoipdb'']) h
      else if commandExists H h ''dnf'' then runInstallCommand H [] ''dnf'' [''install'', ''-y'', ''tor-geoipdb''] h
      else if commandExists H h ''yum'' then runInstallCommand H [] ''yum'' [''install'', ''-y'', ''tor-geoipdb''] h
      else (Some ''Tor GeoIP data is missing and no supported package manager was found'', h))"

section \<open>Waiting\<close>

text \<open>Try until the deadline, with a pause of so many milliseconds; the loop may not end, then the value is \<open>None\<close>.\<close>

partial_function (option) retryUntil :: "('h \<Rightarrow> int) \<Rightarrow> (nat \<Rightarrow> 'h \<Rightarrow> 'h) \<Rightarrow> nat \<Rightarrow> (string option \<Rightarrow> string) \<Rightarrow> ('h \<Rightarrow> string option \<times> 'h) \<Rightarrow> int \<Rightarrow> string option
    \<Rightarrow> 'h \<Rightarrow> (string option \<times> 'h) option" where
  [code]: "retryUntil now sleep pause failure attempt deadline lastErr h =
     (if now h < deadline then
        (case attempt h of
           (None, h') \<Rightarrow> Some (None, h')
         | (Some err, h') \<Rightarrow> retryUntil now sleep pause failure attempt deadline (Some err) (sleep pause h'))
      else Some (Some (failure lastErr), h))"

text \<open>\<open>%v\<close> of an error that may be nil.\<close>

definition errOrNil :: "string option \<Rightarrow> string" where
  "errOrNil e = (case e of None \<Rightarrow> ''<nil>'' | Some err \<Rightarrow> err)"

definition waitForLocalPort :: "('h, 'c) torEnv \<Rightarrow> 'h host \<Rightarrow> nat \<Rightarrow> int \<Rightarrow> 'h \<Rightarrow> (string option \<times> 'h) option" where
  "waitForLocalPort E H port timeout h =
     (let address = ''127.0.0.1:'' @ formatUint port in
      retryUntil (teNow E) (hSleep H) 500 (\<lambda>e. ''Tor SOCKS proxy did not start on '' @ address @ '': '' @ errOrNil e) (teDial E address) (teNow E h + timeout) None h)"

definition probeTor :: "('h, 'c) torEnv \<Rightarrow> nat \<Rightarrow> 'h \<Rightarrow> string option \<times> 'h" where
  "probeTor E port h = (case teConnect E port h of (dialed, h') \<Rightarrow> (testSocks5Connect (teConn E) dialed ''example.com'' 80, h'))"

definition waitForTorSocksReady :: "('h, 'c) torEnv \<Rightarrow> 'h host \<Rightarrow> nat \<Rightarrow> int \<Rightarrow> 'h \<Rightarrow> (string option \<times> 'h) option" where
  "waitForTorSocksReady E H port timeout h =
     retryUntil (teNow E) (hSleep H) 1000 (\<lambda>e. ''Tor SOCKS proxy is not ready on 127.0.0.1:'' @ formatUint port @ '': '' @ errOrNil e) (probeTor E port) (teNow E h + timeout) None h"

section \<open>Applying\<close>

text \<open>The steps that end, and the two waits after them.\<close>

definition andWait :: "('h, 'c) torEnv \<Rightarrow> 'h host \<Rightarrow> nat \<Rightarrow> 'h action \<Rightarrow> 'h \<Rightarrow> (string option \<times> 'h) option" where
  "andWait E H port f h = (case f h of
       (Some err, h1) \<Rightarrow> Some (Some err, h1)
     | (None, h1) \<Rightarrow> (case waitForLocalPort E H port 20000 h1 of
         Some (None, h2) \<Rightarrow> waitForTorSocksReady E H port 90000 h2
       | r \<Rightarrow> r))"

definition legacySteps :: "'h fileFacts \<Rightarrow> 'h host \<Rightarrow> nat \<Rightarrow> string \<Rightarrow> bool \<Rightarrow> 'h action" where
  "legacySteps I H port country strict =
     thenDo (writeRebeccaTorConfig I H port country strict)
     (thenDo (\<lambda>h. case hLook H h ''tor'' of Inl _ \<Rightarrow> (None, h) | Inr tor \<Rightarrow> runChecked H [] tor [''--verify-config''] ''verify tor config'' h)
     (restartTorService H))"

definition applyLegacyTorProxy :: "('h, 'c) torEnv \<Rightarrow> 'h host \<Rightarrow> nat \<Rightarrow> string \<Rightarrow> bool \<Rightarrow> 'h \<Rightarrow> (string option \<times> 'h) option" where
  "applyLegacyTorProxy E H port country strict = andWait E H port (legacySteps (teFiles E) H port country strict)"

definition wrapErr :: "string \<Rightarrow> 'h action \<Rightarrow> 'h action" where
  "wrapErr what f h = (case f h of (None, h') \<Rightarrow> (None, h') | (Some err, h') \<Rightarrow> (Some (what @ '': '' @ err), h'))"

definition torDirectories :: "('h, 'c) torEnv \<Rightarrow> 'h host \<Rightarrow> string \<Rightarrow> string \<Rightarrow> int \<Rightarrow> int \<Rightarrow> 'h action" where
  "torDirectories E H dataRoot dataPath uid gid =
     thenDo (wrapErr ''create Tor config directory'' (hMkdirAll H ''/etc/tor/rebecca'' 493))
     (thenDo (wrapErr ''create Tor data root'' (hMkdirAll H dataRoot 457))
     (thenDo (wrapErr ''set Tor data root permissions'' (hChmod H dataRoot 457))
     (thenDo (wrapErr ''create Tor data directory'' (hMkdirAll H dataPath 448))
     (thenDo (wrapErr ''set Tor data directory owner'' (teChown E dataPath uid gid))
     (wrapErr ''set Tor data directory permissions'' (hChmod H dataPath 448))))))"

text \<open>What follows the verification; the temporary directory is removed when the function returns.\<close>

definition torStart :: "'h fileFacts \<Rightarrow> 'h host \<Rightarrow> nat \<Rightarrow> string \<Rightarrow> 'h action" where
  "torStart I H port unit =
     thenDo (\<lambda>h. case disableLegacyTorSocks I H h of
         (Inl err, h') \<Rightarrow> (Some err, h')
       | (Inr True, h') \<Rightarrow> restartTorService H h'
       | (Inr False, h') \<Rightarrow> (None, h'))
     (thenDo (wrapErr ''write Tor systemd unit'' (hWrite H (torUnitPath port) unit 420))
     (thenDo (runChecked H [] ''systemctl'' [''daemon-reload''] ''reload systemd units'')
     (thenDo (runChecked H [] ''systemctl'' [''enable'', torUnitName port] ''enable Tor instance'')
     (runChecked H [] ''systemctl'' [''restart'', torUnitName port] ''restart Tor instance''))))"

definition torVerify :: "('h, 'c) torEnv \<Rightarrow> 'h host \<Rightarrow> string \<Rightarrow> string \<Rightarrow> ('h \<Rightarrow> (string option \<times> 'h) option) \<Rightarrow> 'h \<Rightarrow> (string option \<times> 'h) option" where
  "torVerify E H torPath configPath rest h = (case teMkdirTemp E h of
       (Inl err, h1) \<Rightarrow> Some (Some (''create Tor verification directory: '' @ err), h1)
     | (Inr verifyPath, h1) \<Rightarrow>
         map_option (\<lambda>(e, h'). (e, snd (hRemoveAll H verifyPath h')))
           (case runChecked H [] torPath [''--verify-config'', ''-f'', configPath, ''--DataDirectory'', verifyPath] ''verify Tor instance config'' h1 of
              (Some err, h2) \<Rightarrow> Some (Some err, h2)
            | (None, h2) \<Rightarrow> rest h2))"

definition applyTorSystemdProxy :: "('h, 'c) torEnv \<Rightarrow> 'h host \<Rightarrow> nat \<Rightarrow> string \<Rightarrow> bool \<Rightarrow> 'h \<Rightarrow> (string option \<times> 'h) option" where
  "applyTorSystemdProxy E H port country strict h = (case hLook H h ''tor'' of
       Inl err \<Rightarrow> Some (Some (''locate tor binary: '' @ err), h)
     | Inr torPath \<Rightarrow> (case torServiceAccount E h of
         None \<Rightarrow> Some (Some ''Tor service account was not created by the installed package'', h)
       | Some (serviceUser, serviceGroup, uid, gid) \<Rightarrow>
           let dataRoot = ''/var/lib/rebecca-tor''; dataPath = joinPath [dataRoot, ''rebecca-tor-'' @ formatUint port];
               unit = torSystemdUnit torPath (torConfigPath port) dataPath serviceUser serviceGroup in
           (case thenDo (torDirectories E H dataRoot dataPath uid gid)
               (wrapErr ''write Tor instance config'' (hWrite H (torConfigPath port) (torInstanceConfig port country strict dataPath) 420)) h of
              (Some err, h1) \<Rightarrow> Some (Some err, h1)
            | (None, h1) \<Rightarrow> torVerify E H torPath (torConfigPath port) (andWait E H port (torStart (teFiles E) H port unit)) h1)))"

definition applyTorProxy :: "('h, 'c) torEnv \<Rightarrow> 'h host \<Rightarrow> torProxyConfig \<Rightarrow> 'h \<Rightarrow> (string option \<times> 'h) option" where
  "applyTorProxy E H config h =
     (let port = tpSocksPort config; country = toLower (trimSpace (tpExitCountry config)); strict = tpStrictExit config in
      if hGOOS H \<noteq> ''linux'' then Some (Some ''Tor proxy setup is supported on Linux nodes only'', h)
      else if port < 1024 \<or> 65535 < port then Some (Some ''Tor SOCKS port must be between 1024 and 65535'', h)
      else if country \<noteq> [] \<and> \<not> countryCode country then Some (Some ''Tor exit country must be a two-letter ISO code'', h)
      else if torProxyAlreadyConfigured (teFiles E) H h port country strict then Some (None, h)
      else case thenDo (ensureTorInstalled H) (if country \<noteq> [] then ensureTorGeoIPInstalled (teFiles E) H else skip) h of
          (Some err, h1) \<Rightarrow> Some (Some err, h1)
        | (None, h1) \<Rightarrow>
            if commandExists H h1 ''systemctl'' then applyTorSystemdProxy E H port country strict h1
            else applyLegacyTorProxy E H port country strict h1)"

section \<open>Lines and what they contain\<close>

lemma contains_line: "newline \<notin> set sub \<Longrightarrow> sub \<noteq> [] \<Longrightarrow> contains (a @ newline # b) sub \<longleftrightarrow> contains a sub \<or> contains b sub"
proof (induction a)
  case Nil
  then have "\<not> hasPrefix (newline # b) sub" by (cases sub) (auto simp: hasPrefix_def)
  then show ?case using Nil by simp
next
  case (Cons c a)
  then show ?case using hasPrefix_line [of sub "c # a" b] by simp
qed

lemma contains_lines:
  "newline \<notin> set sub \<Longrightarrow> sub \<noteq> [] \<Longrightarrow> contains (joinWith [newline] ls @ [newline]) sub \<longleftrightarrow> (\<exists>l \<in> set ls. contains l sub)"
proof (induction ls)
  case (Cons l ls)
  then show ?case using contains_line [of sub l "joinWith [newline] ls @ [newline]"] contains_line [of sub l "[]"] by (cases ls) simp_all
next
  case Nil
  then show ?case by (cases sub) (auto simp: hasPrefix_def)
qed

lemma contains_chars: "contains s sub \<Longrightarrow> set sub \<subseteq> set s"
proof (induction s)
  case (Cons c s)
  then show ?case using set_take_subset [of "length sub" "c # s"] by (auto simp: hasPrefix_def)
qed simp

lemma contains_length: "contains s sub \<Longrightarrow> length sub \<le> length s"
  by (induction s) (auto dest: hasPrefix_length)

lemma contains_same_length: "length sub = length s \<Longrightarrow> contains s sub \<longleftrightarrow> sub = s"
  by (cases s) (auto simp: hasPrefix_def dest: contains_length)

lemma contains_refl: "contains s s"
  by (simp add: contains_same_length)

section \<open>Results\<close>

definition lowerCode :: "string \<Rightarrow> bool" where
  "lowerCode s \<longleftrightarrow> length s = 2 \<and> list_all (\<lambda>c. 97 \<le> (of_char c :: nat) \<and> (of_char c :: nat) \<le> 122) s"

lemma no_char: "c \<in> set sub \<Longrightarrow> c \<notin> set s \<Longrightarrow> \<not> contains s sub"
  using contains_chars by blast

lemma lower_not: "lowerCode s \<Longrightarrow> CHR ''S'' \<notin> set s \<and> CHR ''N'' \<notin> set s \<and> CHR ''{'' \<notin> set s \<and> newline \<notin> set s"
  by (auto simp: lowerCode_def list_all_iff)

lemma digits_not: "CHR ''N'' \<notin> set (formatUint n) \<and> CHR ''{'' \<notin> set (formatUint n) \<and> newline \<notin> set (formatUint n)"
  using formatUint_digits [of _ n] by (fastforce simp: atLeastAtMost_iff)

text \<open>
  The configuration that was written for one request is taken for a finished setup of another request exactly when the other one has the
  same country or none, and is strict exactly when the first had a country and was strict.
\<close>

theorem tor_setup_recognised:
  assumes "country = [] \<or> lowerCode country" and "country' = [] \<or> lowerCode country'"
    and "CHR ''N'' \<notin> set dataPath" and "CHR ''{'' \<notin> set dataPath" and "newline \<notin> set dataPath"
  shows "configuredBy (torInstanceConfig port country strict dataPath) port country' strict'
    \<longleftrightarrow> (country' = [] \<or> country' = country) \<and> (strict' \<longleftrightarrow> strict \<and> country \<noteq> [])"
proof -
  let ?ls = "torInstanceLines port country strict dataPath"
  have s: "contains (torInstanceConfig port country strict dataPath) (socksLine port)"
  proof -
    have "socksLine port \<in> set ?ls" by (simp add: torInstanceLines_def)
    moreover have "newline \<notin> set (socksLine port)" "socksLine port \<noteq> []" using digits_not [of port] by (simp_all add: socksLine_def)
    ultimately show ?thesis unfolding torInstanceConfig_def using contains_lines contains_refl by blast
  qed
  have e: "contains (torInstanceConfig port country strict dataPath) (exitLine country') \<longleftrightarrow> country' = country" if c: "lowerCode country'"
  proof -
    have len: "lowerCode country \<Longrightarrow> contains (exitLine country) (exitLine country') \<longleftrightarrow> country' = country"
      using c by (subst contains_same_length) (auto simp: exitLine_def lowerCode_def)
    have "list_all (\<lambda>l. l = exitLine country \<or> CHR ''{'' \<notin> set l) ?ls"
      using assms(4) digits_not [of port] by (simp add: torInstanceLines_def socksLine_def exitLines_def)
    then have others: "\<not> contains l (exitLine country')" if "l \<in> set ?ls" "l \<noteq> exitLine country" for l
      using that no_char [of "CHR ''{''" "exitLine country'" l] by (auto simp: list_all_iff exitLine_def)
    have "(\<exists>l \<in> set ?ls. contains l (exitLine country')) \<longleftrightarrow> country \<noteq> [] \<and> contains (exitLine country) (exitLine country')"
    proof -
      have "exitLine country \<in> set ?ls \<longleftrightarrow> country \<noteq> []" by (simp add: torInstanceLines_def exitLines_def exitLine_def socksLine_def)
      with others show ?thesis by metis
    qed
    then show ?thesis unfolding torInstanceConfig_def using c assms(1) lower_not [OF c] len
      by (subst contains_lines) (auto simp: exitLine_def lowerCode_def)
  qed
  have "list_all (\<lambda>l. l = exitLine country \<or> l = ''StrictNodes 1'' \<or> CHR ''N'' \<notin> set l) ?ls"
    using assms(3) digits_not [of port] by (simp add: torInstanceLines_def socksLine_def exitLines_def)
  then have others: "\<not> contains l ''StrictNodes 1''" if "l \<in> set ?ls" "l \<noteq> exitLine country" "l \<noteq> ''StrictNodes 1''" for l
    using that no_char [of "CHR ''N''" "''StrictNodes 1''" l] by (auto simp: list_all_iff simp del: contains.simps)
  have exit: "\<not> contains (exitLine country) ''StrictNodes 1''"
    using assms(1) lower_not by (intro no_char [of "CHR ''S''"]) (auto simp: exitLine_def)
  have "''StrictNodes 1'' \<in> set ?ls \<longleftrightarrow> strict \<and> country \<noteq> []" by (simp add: torInstanceLines_def exitLines_def exitLine_def socksLine_def)
  then have "(\<exists>l \<in> set ?ls. contains l ''StrictNodes 1'') \<longleftrightarrow> strict \<and> country \<noteq> []"
    using others exit contains_refl [of "''StrictNodes 1''"] by metis
  then have n: "contains (torInstanceConfig port country strict dataPath) ''StrictNodes 1'' \<longleftrightarrow> strict \<and> country \<noteq> []"
    unfolding torInstanceConfig_def using contains_lines [of "''StrictNodes 1''" ?ls] by (simp del: contains.simps)
  show ?thesis unfolding configuredBy_def using s e n assms(2) by (auto simp: lowerCode_def)
qed

text \<open>
  A request that is not valid is refused before anything on the host is changed.
\<close>

theorem tor_request_checked:
  assumes "tpSocksPort config < 1024 \<or> 65535 < tpSocksPort config
    \<or> toLower (trimSpace (tpExitCountry config)) \<noteq> [] \<and> \<not> countryCode (toLower (trimSpace (tpExitCountry config)))"
  shows "\<exists>err. applyTorProxy E H config h = Some (Some err, h)"
  using assms by (auto simp: applyTorProxy_def Let_def)

section \<open>Waiting ends\<close>

text \<open>The clock advances while the program sleeps and does not go back while it waits for the network.\<close>

definition clockAdvances :: "('h \<Rightarrow> int) \<Rightarrow> (nat \<Rightarrow> 'h \<Rightarrow> 'h) \<Rightarrow> bool" where
  "clockAdvances now sleep \<longleftrightarrow> (\<forall>ms h. now h + int ms \<le> now (sleep ms h))"

definition clockKept :: "('h \<Rightarrow> int) \<Rightarrow> ('h \<Rightarrow> 'r \<times> 'h) \<Rightarrow> bool" where
  "clockKept now f \<longleftrightarrow> (\<forall>h. now h \<le> now (snd (f h)))"

lemma retry_ends:
  assumes "clockAdvances now sleep" and "clockKept now attempt" and "0 < pause"
  shows "\<exists>r. retryUntil now sleep pause failure attempt deadline lastErr h = Some r"
proof (induction "nat (deadline - now h)" arbitrary: h lastErr rule: less_induct)
  case less
  obtain e h1 where a: "attempt h = (e, h1)" by fastforce
  have "now h \<le> now h1" using assms(2) a unfolding clockKept_def by (metis snd_conv)
  moreover have "now h1 + int pause \<le> now (sleep pause h1)" using assms(1) by (simp add: clockAdvances_def)
  ultimately have "now h < now (sleep pause h1)" using assms(3) by simp
  then have "\<exists>r. retryUntil now sleep pause failure attempt deadline (Some err) (sleep pause h1) = Some r" if "now h < deadline" for err
    using less [of "sleep pause h1"] that by simp
  then show ?case using a by (cases e) (auto simp: retryUntil.simps [of now sleep pause failure attempt deadline lastErr h])
qed

lemma clockKept_probe: "clockKept (teNow E) (teConnect E port) \<Longrightarrow> clockKept (teNow E) (probeTor E port)"
  by (simp add: clockKept_def probeTor_def split: prod.split) (metis snd_conv)

lemma andWait_ends:
  assumes "clockAdvances (teNow E) (hSleep H)" and "\<And>address. clockKept (teNow E) (teDial E address)" and "\<And>port. clockKept (teNow E) (teConnect E port)"
  shows "\<exists>r. andWait E H port f h = Some r"
proof (cases "f h")
  case (Pair e h1)
  obtain r where r: "waitForLocalPort E H port 20000 h1 = Some r" using retry_ends [OF assms(1,2)] by (fastforce simp: waitForLocalPort_def Let_def)
  have "\<exists>r. waitForTorSocksReady E H port 90000 h2 = Some r" for h2
    unfolding waitForTorSocksReady_def by (rule retry_ends [OF assms(1) clockKept_probe [OF assms(3)]]) simp
  then show ?thesis using Pair r by (cases e; cases "fst r"; cases r) (auto simp: andWait_def)
qed

text \<open>
  A request for a Tor proxy returns, whatever the commands, the files and the network do, as long as the clock advances.
\<close>

theorem tor_apply_returns:
  assumes "clockAdvances (teNow E) (hSleep H)" and "\<And>address. clockKept (teNow E) (teDial E address)" and "\<And>port. clockKept (teNow E) (teConnect E port)"
  shows "\<exists>r. applyTorProxy E H config h = Some r"
proof -
  note w = andWait_ends [OF assms]
  have l: "\<exists>r. applyLegacyTorProxy E H port country strict h1 = Some r" for port country strict h1 unfolding applyLegacyTorProxy_def by (rule w)
  have v: "\<exists>r. torVerify E H torPath configPath (andWait E H port f) h1 = Some r" for torPath configPath port f h1
    using w by (auto simp: torVerify_def split: prod.split sum.split option.split)
  have y: "\<exists>r. applyTorSystemdProxy E H port country strict h1 = Some r" for port country strict h1
    using v by (auto simp: applyTorSystemdProxy_def Let_def split: sum.split option.split prod.split)
  show ?thesis using l y by (auto simp: applyTorProxy_def Let_def split: prod.split option.split)
qed

section \<open>Examples\<close>

definition clockHost :: "int host" where
  "clockHost = \<lparr>hGOOS = ''linux'', hRoot = True, hLook = (\<lambda>h name. if name = ''tor'' then Inr ''/usr/bin/tor'' else Inl ''not found''),
     hRun = (\<lambda>env command args h. ((None, []), h)), hRead = (\<lambda>h path. Inl ''missing''), hWrite = (\<lambda>path content mode h. (None, h)),
     hChmod = (\<lambda>path mode h. (None, h)), hMkdirAll = (\<lambda>path mode h. (None, h)), hRemove = (\<lambda>path h. (None, h)), hRemoveAll = (\<lambda>path h. (None, h)),
     hStat = (\<lambda>h path. Some ''missing''), hReadDir = (\<lambda>h path. Inr []), hSleep = (\<lambda>ms h. h + int ms)\<rparr>"

text \<open>A network on which no connection is ever accepted.\<close>

definition silentEnv :: "(int, script) torEnv" where
  "silentEnv = \<lparr>teFiles = \<lparr>ffIsDir = (\<lambda>_ _. False), ffNotExist = (\<lambda>_. True)\<rparr>, teUser = (\<lambda>_ _. None), teGroup = (\<lambda>_ _. None),
     teChown = (\<lambda>path uid gid h. (None, h)), teMkdirTemp = (\<lambda>h. (Inl ''full'', h)), teNow = id, teDial = (\<lambda>address h. (Some ''refused'', h)),
     teConn = scripted, teConnect = (\<lambda>port h. (Inl ''refused'', h))\<rparr>"

theorem tor_setup_recognised_witness:
  "configuredBy (torInstanceConfig 9050 ''de'' False ''/var/lib/rebecca-tor/rebecca-tor-9050'') 9050 [] False
     \<and> \<not> configuredBy (torInstanceConfig 9050 [] True ''/var/lib/rebecca-tor/rebecca-tor-9050'') 9050 [] True"
  using tor_setup_recognised [of "''de''" "[]" "''/var/lib/rebecca-tor/rebecca-tor-9050''" 9050 False False]
    tor_setup_recognised [of "[]" "[]" "''/var/lib/rebecca-tor/rebecca-tor-9050''" 9050 True True]
  by (simp add: lowerCode_def)

theorem tor_request_checked_witness:
  "\<exists>err. applyTorProxy silentEnv clockHost \<lparr>tpSocksPort = 80, tpExitCountry = [], tpStrictExit = False\<rparr> 0 = Some (Some err, 0)"
  by (rule tor_request_checked) simp

theorem tor_apply_returns_witness:
  "\<exists>r. applyTorProxy silentEnv clockHost \<lparr>tpSocksPort = 9050, tpExitCountry = [], tpStrictExit = False\<rparr> 0 = Some r"
  by (rule tor_apply_returns) (simp_all add: silentEnv_def clockHost_def clockAdvances_def clockKept_def)

end
