(* ===== verification/Windscribe_Text.thy ===== *)
theory Windscribe_Text
  imports Tor Netip Vpn_Nat
begin

text \<open>
  The texts of the Windscribe setup: the checks, parsers and files of \<open>internal/node/windscribe.go\<close>. Results: a configuration that is
  written is read back with the credentials it was given, so that no credential adds a setting; the locations a node reports are
  sorted, one for each country, and available exactly when some server of the country is; the interface of the default route has the least metric.
\<close>

section \<open>Definitions\<close>

definition windscribeAccount :: string where "windscribeAccount = ''rebecca-windscribe''"
definition windscribeHome :: string where "windscribeHome = ''/var/lib/rebecca-windscribe''"
definition windscribeAccountMarker :: string where "windscribeAccountMarker = windscribeHome @ ''/.rebecca-account''"
definition windscribeConfigPath :: string where "windscribeConfigPath = windscribeHome @ ''/.config/Windscribe/windscribe_cli.conf''"
definition windscribeServiceName :: string where "windscribeServiceName = ''rebecca-windscribe.service''"
definition windscribeRelayUnitName :: string where "windscribeRelayUnitName = ''rebecca-windscribe-proxy.service''"

record windscribeProxyConfig =
  wpAction :: string
  wpUsername :: string
  wpPassword :: string
  wpLocation :: string
  wpSocksPort :: nat
  wpProxyUsername :: string
  wpProxyPassword :: string

record windscribeLocation =
  wlName :: string
  wlAvailable :: bool

definition validWindscribeProxyCredential :: "string \<Rightarrow> bool" where
  "validWindscribeProxyCredential v \<longleftrightarrow> 8 \<le> length v \<and> length v \<le> 64 \<and> list_all alphaNum v"

definition validWindscribeLoginValue :: "string \<Rightarrow> nat \<Rightarrow> nat \<Rightarrow> bool" where
  "validWindscribeLoginValue v lo hi \<longleftrightarrow> lo \<le> length v \<and> length v \<le> hi \<and> list_all (\<lambda>c. c \<notin> {CHR 0x00, CHR 0x0D, newline}) v"

text \<open>\<open>strings.Map\<close> with a function that drops control characters: an invalid byte becomes the replacement character.\<close>

definition controlByte :: "char \<Rightarrow> bool" where
  "controlByte c \<longleftrightarrow> (of_char c :: nat) < 32 \<and> c \<noteq> newline \<and> c \<noteq> CHR 0x0D \<and> c \<noteq> CHR 0x09"

function dropControls :: "string \<Rightarrow> string" where
  "dropControls [] = []"
| "dropControls (c # s) =
     (let w = runeWidth (c # s) in
      (if 1 < w then take w (c # s) else if 128 \<le> (of_char c :: nat) then [CHR 0xEF, CHR 0xBF, CHR 0xBD] else if controlByte c then [] else [c])
      @ dropControls (drop (w - 1) s))"
  by pat_completeness auto
termination
  by (relation "measure length") auto

definition redact :: "string \<Rightarrow> string \<Rightarrow> string" where
  "redact txt secret = (if secret \<noteq> [] then replaceAll txt secret ''[redacted]'' else txt)"

definition sanitizeWindscribeOutput :: "string \<Rightarrow> string list \<Rightarrow> string" where
  "sanitizeWindscribeOutput output secrets = trimSpace (foldl redact (dropControls (replaceAll output [CHR 0x1B] [])) secrets)"

definition truncateWindscribeOutput :: "string \<Rightarrow> string" where
  "truncateWindscribeOutput output = take 600 output"

definition windscribeCountryName :: "string \<Rightarrow> string" where
  "windscribeCountryName name =
     (let name = trimSpace name in
      if hasPrefix name ''US '' then ''United States'' else if hasPrefix name ''Canada '' then ''Canada'' else name)"

text \<open>The country of a line of the list and whether its server can be used.\<close>

definition locationLine :: "string \<Rightarrow> (string \<times> bool) option" where
  "locationLine raw =
     (let line = trimSpace raw; parts = splitOn line '' - ''; name = windscribeCountryName (hd parts) in
      if length parts < 2 \<or> name = [] \<or> equalFold name ''Best Location'' then None
      else Some (name, \<not> contains line ''(Pro)'' \<and> \<not> contains line ''(Disabled)''))"

definition addLocation :: "(string, windscribeLocation) gomap \<Rightarrow> string \<Rightarrow> (string, windscribeLocation) gomap" where
  "addLocation byName raw = (case locationLine raw of
       None \<Rightarrow> byName
     | Some (name, available) \<Rightarrow>
         let key = toLower name; current = map_of byName key in
         if current = None \<or> available
         then AList.update key \<lparr>wlName = name, wlAvailable = ((case current of None \<Rightarrow> False | Some l \<Rightarrow> wlAvailable l) \<or> available)\<rparr> byName
         else byName)"

definition rawLines :: "string \<Rightarrow> string list" where
  "rawLines listing = splitOn (replaceAll listing crlf [newline]) [newline]"

definition locationsByName :: "string \<Rightarrow> (string, windscribeLocation) gomap" where
  "locationsByName listing = foldl addLocation [] (rawLines listing)"

definition parseWindscribeLocations :: "string \<Rightarrow> windscribeLocation list" where
  "parseWindscribeLocations listing = sort_key wlName (map snd (locationsByName listing))"

definition windscribeConfigLines :: "windscribeProxyConfig \<Rightarrow> string list" where
  "windscribeConfigLines config =
     [''[Connection]'', ''AllowLANTraffic=true'', ''Autoconnect=true'', ''ShareProxyGatewayEnabled=true'', ''ShareProxyGatewayMode=SOCKS'',
      ''ShareProxyGatewayPort='' @ formatUint (wpSocksPort config), ''ShareProxyGatewayWhileConnected=true'', ''ShareProxyGatewayRequireAuth=true'',
      ''ShareProxyGatewayUsername='' @ wpProxyUsername config, ''ShareProxyGatewayPassword='' @ wpProxyPassword config,
      ''SplitTunnelingEnabled=true'', ''SplitTunnelingMode=Include'', ''SplitTunnelingApps=/opt/windscribe/Windscribe'']"

definition windscribeConfigContents :: "windscribeProxyConfig \<Rightarrow> string" where
  "windscribeConfigContents config = concat (map textLine (windscribeConfigLines config))"

definition windscribeSystemdUnit :: string where
  "windscribeSystemdUnit = concat (map textLine
     [''[Unit]'', ''Description=Rebecca Windscribe client'', ''After=network-online.target windscribe-helper.service'', ''Wants=network-online.target'', [],
      ''[Service]'', ''Type=simple'', ''User=rebecca-windscribe'', ''Group=rebecca-windscribe'', ''SupplementaryGroups=windscribe'',
      ''Environment=HOME=/var/lib/rebecca-windscribe'', ''Environment=XDG_CONFIG_HOME=/var/lib/rebecca-windscribe/.config'',
      ''Environment=XDG_RUNTIME_DIR=/run/rebecca-windscribe'', ''RuntimeDirectory=rebecca-windscribe'', ''RuntimeDirectoryMode=0700'',
      ''ExecStart=/opt/windscribe/Windscribe'', ''Restart=on-failure'', ''RestartSec=3'', ''NoNewPrivileges=true'', ''PrivateTmp=true'',
      ''ProtectHome=true'', ''ProtectSystem=strict'', ''ReadWritePaths=/var/lib/rebecca-windscribe /run/rebecca-windscribe'', [],
      ''[Install]'', ''WantedBy=multi-user.target''])"

definition windscribeRelayUnit :: "string \<Rightarrow> nat \<Rightarrow> string" where
  "windscribeRelayUnit targetIP port = concat (map textLine
     [''[Unit]'', ''Description=Rebecca Windscribe loopback proxy'', ''After='' @ windscribeServiceName, ''Requires='' @ windscribeServiceName, [],
      ''[Service]'', ''Type=simple'',
      ''ExecStart=/usr/bin/socat TCP4-LISTEN:'' @ formatUint port @ '',bind=127.0.0.1,reuseaddr,fork TCP4:'' @ targetIP @ '':'' @ formatUint port @ '',connect-timeout=10'',
      ''Restart=always'', ''RestartSec=2'', ''NoNewPrivileges=true'', ''PrivateTmp=true'', ''ProtectHome=true'', ''ProtectSystem=strict'', [],
      ''[Install]'', ''WantedBy=multi-user.target''])"

text \<open>\<open>strconv.ParseUint\<close> in base 16 with 32 bits, and the lowest bit of the flags.\<close>

fun hexDigits :: "nat \<Rightarrow> string \<Rightarrow> nat option" where
  "hexDigits acc [] = Some acc"
| "hexDigits acc (c # s) = (case hexVal c of None \<Rightarrow> None | Some d \<Rightarrow> hexDigits (16 * acc + d) s)"

definition parseHex32 :: "string \<Rightarrow> nat option" where
  "parseHex32 s = (if s = [] then None else case hexDigits 0 s of None \<Rightarrow> None | Some n \<Rightarrow> if n < 2 ^ 32 then Some n else None)"

text \<open>A line of the table of routes: the interface and the metric of a default route that is up.\<close>

definition defaultRow :: "string \<Rightarrow> (string \<times> int) option" where
  "defaultRow line =
     (let fs = Prelude.fields line in
      if length fs < 8 \<or> fs ! 1 \<noteq> ''00000000'' then None
      else case parseHex32 (fs ! 3) of
          None \<Rightarrow> None
        | Some flags \<Rightarrow> if even flags then None else (case parseInt 64 (fs ! 6) of None \<Rightarrow> None | Some metric \<Rightarrow> Some (fs ! 0, metric)))"

definition betterRow :: "string \<times> int \<Rightarrow> string \<Rightarrow> string \<times> int" where
  "betterRow best line = (case defaultRow line of
       Some (iface, metric) \<Rightarrow> if snd best \<le> metric then best else (iface, metric)
     | None \<Rightarrow> best)"

text \<open>\<open>overlong\<close>: a line that does not fit the scanner's buffer, which ends the scan with an error.\<close>

definition overlong :: "string \<Rightarrow> bool" where
  "overlong txt \<longleftrightarrow> (\<exists>l \<in> set (splitOn txt [newline]). maxScanTokenSize \<le> length l)"

definition defaultIPv4Interface :: "string \<Rightarrow> string + string" where
  "defaultIPv4Interface txt =
     (let best = foldl betterRow ([], max_int64) (scanLines txt) in
      if overlong txt then Inl ''bufio.Scanner: token too long''
      else if fst best = [] then Inl ''default IPv4 interface was not found'' else Inr (fst best))"

section \<open>Locations\<close>

definition countryLines :: "string list \<Rightarrow> string \<Rightarrow> (string \<times> bool) list" where
  "countryLines raws key = filter (\<lambda>l. toLower (fst l) = key) (List.map_filter locationLine raws)"

definition locationsOK :: "string list \<Rightarrow> (string, windscribeLocation) gomap \<Rightarrow> bool" where
  "locationsOK raws byName \<longleftrightarrow> gomap_wf byName
     \<and> (\<forall>key. map_of byName key = None \<longleftrightarrow> countryLines raws key = [])
     \<and> (\<forall>key l. map_of byName key = Some l \<longrightarrow> toLower (wlName l) = key \<and> (wlAvailable l \<longleftrightarrow> (\<exists>x \<in> set (countryLines raws key). snd x)))"

lemma countryLines_snoc:
  "countryLines (raws @ [raw]) key = countryLines raws key @ (case locationLine raw of Some l \<Rightarrow> if toLower (fst l) = key then [l] else [] | None \<Rightarrow> [])"
  by (simp add: countryLines_def List.map_filter_def split: option.split)

lemma locationsOK_step: "locationsOK raws byName \<Longrightarrow> locationsOK (raws @ [raw]) (addLocation byName raw)"
proof (cases "locationLine raw")
  case None
  assume "locationsOK raws byName"
  then show ?thesis using None by (simp add: locationsOK_def addLocation_def countryLines_snoc)
next
  case (Some p)
  assume ok: "locationsOK raws byName"
  obtain name available where p: "p = (name, available)" by (cases p)
  let ?k = "toLower name" and ?l = "\<lparr>wlName = name, wlAvailable = ((case map_of byName (toLower name) of None \<Rightarrow> False | Some l \<Rightarrow> wlAvailable l) \<or> available)\<rparr>"
  have lines: "countryLines (raws @ [raw]) key = countryLines raws key @ (if ?k = key then [(name, available)] else [])" for key
    using Some by (simp add: countryLines_snoc p)
  have here: "map_of byName ?k = None \<longleftrightarrow> countryLines raws ?k = []" using ok by (simp add: locationsOK_def)
  have there: "map_of byName ?k = Some l \<Longrightarrow> wlAvailable l \<longleftrightarrow> (\<exists>x \<in> set (countryLines raws ?k). snd x)" for l using ok by (simp add: locationsOK_def)
  show ?thesis
  proof (cases "map_of byName ?k = None \<or> available")
    case True
    then have u: "addLocation byName raw = AList.update ?k ?l byName" using Some by (simp add: addLocation_def p Let_def)
    have a: "wlAvailable ?l \<longleftrightarrow> (\<exists>x \<in> set (countryLines (raws @ [raw]) ?k). snd x)"
      using here there by (cases "map_of byName ?k") (auto simp: lines)
    show ?thesis unfolding u using ok a by (auto simp: locationsOK_def lines split: if_splits)
  next
    case False
    then have "addLocation byName raw = byName" using Some by (auto simp: addLocation_def p Let_def)
    then show ?thesis using False ok here by (auto simp: locationsOK_def lines)
  qed
qed

lemma locations_ok: "locationsOK raws (foldl addLocation [] raws)"
proof (induction raws rule: rev_induct)
  case Nil
  then show ?case by (simp add: locationsOK_def countryLines_def List.map_filter_def)
next
  case (snoc raw raws)
  then show ?case using locationsOK_step by simp
qed

section \<open>Results\<close>

text \<open>
  The reported locations are sorted by name and hold one entry for each country of the list; a country is available exactly when a
  line of it is marked neither as reserved nor as disabled.
\<close>

theorem windscribe_locations_exact:
  "sorted (map wlName (parseWindscribeLocations listing)) \<and> distinct (map (\<lambda>l. toLower (wlName l)) (parseWindscribeLocations listing))
    \<and> (\<lambda>l. toLower (wlName l)) ` set (parseWindscribeLocations listing) = (\<lambda>l. toLower (fst l)) ` set (List.map_filter locationLine (rawLines listing))
    \<and> list_all (\<lambda>l. wlAvailable l = list_ex snd (countryLines (rawLines listing) (toLower (wlName l)))) (parseWindscribeLocations listing)"
proof -
  define raws where "raws = rawLines listing"
  define ls where "ls = parseWindscribeLocations listing"
  let ?m = "locationsByName listing" and ?f = "\<lambda>l. toLower (wlName l)"
  have ok: "locationsOK raws ?m" unfolding locationsByName_def raws_def by (rule locations_ok)
  have e: "map_of ?m k = Some l" if "(k, l) \<in> set ?m" for k l using ok that by (simp add: locationsOK_def)
  have key: "?f l = k" "wlAvailable l = list_ex snd (countryLines raws k)" if "(k, l) \<in> set ?m" for k l
    using ok e [OF that] by (auto simp: locationsOK_def list_ex_iff)
  have keys: "map ?f (map snd ?m) = map fst ?m" using key(1) by auto
  have d: "distinct (map ?f ls)"
  proof -
    have "length (map ?f ls) = card (?f ` set (map snd ?m))"
      using ok distinct_card [of "map fst ?m"] keys by (metis length_map length_sort list.set_map locationsOK_def ls_def parseWindscribeLocations_def)
    then show ?thesis by (simp add: ls_def parseWindscribeLocations_def card_distinct)
  qed
  have "set ls = snd ` set ?m" by (simp add: ls_def parseWindscribeLocations_def)
  then have img: "?f ` set ls = fst ` set ?m" using arg_cong [OF keys, of set] by (simp add: image_image)
  have "fst ` set ?m = {k. map_of ?m k \<noteq> None}" by (auto simp: map_of_eq_None_iff)
  also have "\<dots> = {k. countryLines raws k \<noteq> []}" using ok by (simp add: locationsOK_def)
  also have "\<dots> = (\<lambda>l. toLower (fst l)) ` set (List.map_filter locationLine raws)" by (force simp: countryLines_def filter_empty_conv)
  finally have countries: "?f ` set ls = (\<lambda>l. toLower (fst l)) ` set (List.map_filter locationLine raws)" unfolding img .
  have "sorted (map wlName ls)" by (simp add: ls_def parseWindscribeLocations_def)
  moreover have "list_all (\<lambda>l. wlAvailable l = list_ex snd (countryLines raws (?f l))) ls"
    using key \<open>set ls = snd ` set ?m\<close> by (auto simp: list_all_iff)
  ultimately show ?thesis using d countries unfolding raws_def [symmetric] ls_def [symmetric] by blast
qed

text \<open>The settings of a configuration, as \<open>key=value\<close> lines.\<close>

definition settingsOf :: "string \<Rightarrow> (string \<times> string) list" where
  "settingsOf txt = List.map_filter (\<lambda>l. case cut l ''='' of (k, v, found) \<Rightarrow> if found then Some (k, v) else None) (splitOn txt [newline])"

lemma concat_lines_split: "list_all (\<lambda>l. newline \<notin> set l) ls \<Longrightarrow> splitOn (concat (map textLine ls)) [newline] = ls @ [[]]"
proof (induction ls)
  case Nil
  then show ?case by (simp add: splitOn.simps)
next
  case (Cons l ls)
  then show ?case using splitOn_append [of "[newline]" l "concat (map textLine ls)"] by (simp add: textLine_def [of l])
qed

lemma alphaNum_plain: "list_all alphaNum v \<Longrightarrow> newline \<notin> set v" "list_all alphaNum v \<Longrightarrow> CHR ''='' \<notin> set v"
  by (auto simp: list_all_iff alphaNum_def)

text \<open>
  With credentials that pass the check, the configuration is read back as the twelve settings it is meant to hold, with the port and
  the credentials as they were given: no credential can add or change a setting.
\<close>

theorem windscribe_config_roundtrip:
  assumes "validWindscribeProxyCredential (wpProxyUsername config)" and "validWindscribeProxyCredential (wpProxyPassword config)"
  shows "settingsOf (windscribeConfigContents config) =
    [(''AllowLANTraffic'', ''true''), (''Autoconnect'', ''true''), (''ShareProxyGatewayEnabled'', ''true''), (''ShareProxyGatewayMode'', ''SOCKS''),
     (''ShareProxyGatewayPort'', formatUint (wpSocksPort config)), (''ShareProxyGatewayWhileConnected'', ''true''), (''ShareProxyGatewayRequireAuth'', ''true''),
     (''ShareProxyGatewayUsername'', wpProxyUsername config), (''ShareProxyGatewayPassword'', wpProxyPassword config),
     (''SplitTunnelingEnabled'', ''true''), (''SplitTunnelingMode'', ''Include''), (''SplitTunnelingApps'', ''/opt/windscribe/Windscribe'')]"
proof -
  have c: "newline \<notin> set (wpProxyUsername config)" "newline \<notin> set (wpProxyPassword config)"
    using assms alphaNum_plain(1) by (simp_all add: validWindscribeProxyCredential_def)
  have "list_all (\<lambda>l. newline \<notin> set l) (windscribeConfigLines config)" using c digits_not [of "wpSocksPort config"] by (simp add: windscribeConfigLines_def)
  then have "splitOn (windscribeConfigContents config) [newline] = windscribeConfigLines config @ [[]]" unfolding windscribeConfigContents_def by (rule concat_lines_split)
  then show ?thesis by (simp add: settingsOf_def windscribeConfigLines_def List.map_filter_simps hasPrefix_def)
qed

lemma best_row:
  "snd (foldl betterRow b ls) \<le> snd b \<and> (\<forall>l \<in> set ls. \<forall>i m. defaultRow l = Some (i, m) \<longrightarrow> snd (foldl betterRow b ls) \<le> m)
    \<and> (foldl betterRow b ls = b \<or> (\<exists>l \<in> set ls. defaultRow l = Some (foldl betterRow b ls)))"
proof (induction ls rule: rev_induct)
  case (snoc l ls)
  then show ?case by (cases "defaultRow l") (auto simp: betterRow_def)
qed simp

text \<open>
  The interface that is chosen belongs to a default route that is up, and no such route has a smaller metric.
\<close>

theorem default_interface_minimal:
  assumes "defaultIPv4Interface txt = Inr iface"
  shows "\<exists>metric. \<exists>l \<in> set (scanLines txt). defaultRow l = Some (iface, metric) \<and> (\<forall>l' \<in> set (scanLines txt). \<forall>i m. defaultRow l' = Some (i, m) \<longrightarrow> metric \<le> m)"
proof -
  let ?b = "foldl betterRow ([], max_int64) (scanLines txt)"
  have b: "fst ?b = iface" "fst ?b \<noteq> []" using assms by (auto simp: defaultIPv4Interface_def Let_def split: if_splits)
  then have "?b \<noteq> ([], max_int64)" by auto
  then obtain l where l: "l \<in> set (scanLines txt)" "defaultRow l = Some ?b" using best_row [of "([], max_int64)" "scanLines txt"] by blast
  have "\<forall>l' \<in> set (scanLines txt). \<forall>i m. defaultRow l' = Some (i, m) \<longrightarrow> snd ?b \<le> m" using best_row [of "([], max_int64)" "scanLines txt"] by blast
  then show ?thesis using l b(1) by (metis prod.collapse)
qed

theorem windscribe_config_roundtrip_witness:
  "map_of (settingsOf (windscribeConfigContents \<lparr>wpAction = ''apply'', wpUsername = [], wpPassword = [], wpLocation = ''de'', wpSocksPort = 1080,
      wpProxyUsername = ''rebecca1'', wpProxyPassword = ''Secret42''\<rparr>)) ''ShareProxyGatewayPassword'' = Some ''Secret42''"
  using windscribe_config_roundtrip [of "\<lparr>wpAction = ''apply'', wpUsername = [], wpPassword = [], wpLocation = ''de'', wpSocksPort = 1080,
      wpProxyUsername = ''rebecca1'', wpProxyPassword = ''Secret42''\<rparr>"]
  by (simp add: validWindscribeProxyCredential_def alphaNum_def)

definition exampleRoutes :: string where
  "exampleRoutes = ''eth0 00000000 0 3 0 0 9 0'' @ [newline] @ ''wg0 00000000 0 1 0 0 5 0'' @ [newline]"

lemma route_fields:
  "Prelude.fields ''eth0 00000000 0 3 0 0 9 0'' = [''eth0'', ''00000000'', ''0'', ''3'', ''0'', ''0'', ''9'', ''0'']"
  "Prelude.fields ''wg0 00000000 0 1 0 0 5 0'' = [''wg0'', ''00000000'', ''0'', ''1'', ''0'', ''0'', ''5'', ''0'']"
  using fields_join [of "[''eth0'', ''00000000'', ''0'', ''3'', ''0'', ''0'', ''9'', ''0'']"] fields_join [of "[''wg0'', ''00000000'', ''0'', ''1'', ''0'', ''0'', ''5'', ''0'']"]
  by (simp_all add: plainWord_def graphic_def)

lemma example_rows: "defaultRow ''eth0 00000000 0 3 0 0 9 0'' = Some (''eth0'', 9)" "defaultRow ''wg0 00000000 0 1 0 0 5 0'' = Some (''wg0'', 5)"
  by (simp_all add: defaultRow_def route_fields Let_def parseHex32_def hexVal_def parseInt_def digitVal_def)

lemma example_scanned: "scanLines exampleRoutes = [''eth0 00000000 0 3 0 0 9 0'', ''wg0 00000000 0 1 0 0 5 0'']"
proof -
  have l: "scanLines (''eth0 00000000 0 3 0 0 9 0'' @ CHR 0x0A # ''wg0 00000000 0 1 0 0 5 0'' @ CHR 0x0A # [])
      = [''eth0 00000000 0 3 0 0 9 0'', ''wg0 00000000 0 1 0 0 5 0'']"
    by (subst scanLines_line, simp, subst scanLines_line, simp) (simp add: maxScanTokenSize_def dropCR_def)
  then show ?thesis by (simp add: exampleRoutes_def)
qed

lemma example_interface: "defaultIPv4Interface exampleRoutes = Inr ''wg0''"
proof -
  have "splitOn exampleRoutes [newline] = [''eth0 00000000 0 3 0 0 9 0'', ''wg0 00000000 0 1 0 0 5 0'', []]"
    using concat_lines_split [of "[''eth0 00000000 0 3 0 0 9 0'', ''wg0 00000000 0 1 0 0 5 0'']"] by (simp add: exampleRoutes_def textLine_def)
  then have "\<not> overlong exampleRoutes" by (simp add: overlong_def maxScanTokenSize_def)
  then show ?thesis by (simp add: defaultIPv4Interface_def example_scanned betterRow_def example_rows)
qed

theorem default_interface_minimal_witness:
  "\<exists>metric. \<exists>l \<in> set (scanLines exampleRoutes). defaultRow l = Some (''wg0'', metric)"
  using default_interface_minimal [OF example_interface] by blast

end
