(* ===== verification/Managed_Proxies.thy ===== *)
theory Managed_Proxies
  imports Windscribe_Text Any_Values Host_Views
begin

text \<open>
  The local proxies that belong to outbounds: \<open>internal/node/managed_proxies.go\<close>. The outbounds of a configuration are checked
  and collected; units of proxies that are not wanted any more are removed. The setup of Windscribe is an argument. Results: accepted
  proxies have distinct ports in their range, at most one of them is Windscribe's and no two share a location; a wanted
  Tor unit is never removed by the cleanup; the block of \<open>torrc\<close> is removed even when its port is wanted.
\<close>

section \<open>Outbounds\<close>

definition mapList :: "json option \<Rightarrow> jobj list" where
  "mapList v = List.map_filter (\<lambda>item. asObj (Some item)) (arrOr v)"

definition managedString :: "floats \<Rightarrow> json option \<Rightarrow> string" where
  "managedString F v = (case v of None \<Rightarrow> [] | Some JNull \<Rightarrow> [] | Some (JStr t) \<Rightarrow> t | Some w \<Rightarrow> sprintAny F w)"

definition managedProxyKind :: "floats \<Rightarrow> jobj \<Rightarrow> string" where
  "managedProxyKind F outbound =
     (let kind = toLower (trimSpace (managedString F (map_of outbound ''rebecca_proxy'')));
          tag = toLower (trimSpace (managedString F (map_of outbound ''tag''))) in
      if kind = ''tor'' \<or> kind = ''windscribe'' then kind
      else if tag = ''tor'' \<or> hasPrefix tag ''tor-'' then ''tor''
      else if tag = ''windscribe'' \<or> hasPrefix tag ''windscribe-'' then ''windscribe''
      else [])"

definition isLocalAddress :: "string \<Rightarrow> bool" where
  "isLocalAddress v = (let v = trimChars {CHR ''['', CHR '']''} (trimSpace v) in v = ''127.0.0.1'' \<or> v = ''::1'' \<or> equalFold v ''localhost'')"

text \<open>\<open>U\<close>: the \<open>uint32\<close> a number of JSON is equal to, when there is one.\<close>

definition uint32Value :: "(string \<Rightarrow> nat option) \<Rightarrow> json option \<Rightarrow> nat option" where
  "uint32Value U v = (case v of Some (JNum t) \<Rightarrow> U t | Some (JStr t) \<Rightarrow> parseUint 32 (trimSpace t) | _ \<Rightarrow> None)"

definition localSocksDetails :: "floats \<Rightarrow> (string \<Rightarrow> nat option) \<Rightarrow> jobj \<Rightarrow> (nat \<times> string \<times> string) option" where
  "localSocksDetails F U outbound =
     (if toLower (trimSpace (managedString F (map_of outbound ''protocol''))) \<noteq> ''socks'' then None
      else case mapList (map_of (objOr (map_of outbound ''settings'')) ''servers'') of
          [] \<Rightarrow> None
        | server # _ \<Rightarrow>
            if \<not> isLocalAddress (managedString F (map_of server ''address'')) then None
            else case uint32Value U (map_of server ''port'') of
                None \<Rightarrow> None
              | Some port \<Rightarrow>
                  if port < 1024 \<or> 65535 < port then None
                  else Some (case mapList (map_of server ''users'') of
                      [] \<Rightarrow> (port, [], [])
                    | user # _ \<Rightarrow> (port, managedString F (map_of user ''user''), managedString F (map_of user ''pass''))))"

definition managedCountry :: "string \<Rightarrow> string \<Rightarrow> string" where
  "managedCountry tag prefix =
     (let parts = splitOn (toLower (trimSpace tag)) ''-'' in
      if 1 < length parts \<and> last parts \<noteq> prefix \<and> length (last parts) = 2 then last parts else [])"

section \<open>Collecting\<close>

record managedProxy =
  mpKind :: string
  mpTag :: string
  mpPort :: nat
  mpCountry :: string
  mpUsername :: string
  mpPassword :: string

datatype managedError = NotLocalSocks string string string | PortTwice nat | SecondWindscribe | LocationTwice string string string string

record collected =
  cdManaged :: "managedProxy list"
  cdLocations :: "(string, string) gomap"
  cdWindscribe :: nat

definition managedItem :: "floats \<Rightarrow> jobj \<Rightarrow> string \<Rightarrow> nat \<times> string \<times> string \<Rightarrow> managedProxy" where
  "managedItem F outbound kind details = (case details of (port, username, password) \<Rightarrow>
     let tag = trimSpace (managedString F (map_of outbound ''tag''));
         location = toLower (trimSpace (managedString F (map_of outbound ''rebecca_proxy_location''))) in
     \<lparr>mpKind = kind, mpTag = tag, mpPort = port, mpCountry = (if location = [] then managedCountry tag kind else location),
      mpUsername = username, mpPassword = password\<rparr>)"

definition collectOne :: "floats \<Rightarrow> (string \<Rightarrow> nat option) \<Rightarrow> jobj \<Rightarrow> collected \<Rightarrow> managedError + collected" where
  "collectOne F U outbound c =
     (let kind = managedProxyKind F outbound in
      if kind = [] then Inr c
      else case localSocksDetails F U outbound of
          None \<Rightarrow> Inl (NotLocalSocks kind (managedString F (map_of outbound ''tag'')) (managedString F (map_of outbound ''protocol'')))
        | Some details \<Rightarrow>
            let item = managedItem F outbound kind details; port = mpPort item;
                count = (if kind = ''windscribe'' then Suc (cdWindscribe c) else cdWindscribe c);
                key = kind @ '':'' @ mpCountry item; previous = mget [] (cdLocations c) key in
            if port \<in> mpPort ` set (cdManaged c) then Inl (PortTwice port)
            else if kind = ''windscribe'' \<and> 1 < count then Inl SecondWindscribe
            else if mpCountry item = [] then Inr (c\<lparr>cdManaged := cdManaged c @ [item], cdWindscribe := count\<rparr>)
            else if previous \<noteq> [] \<and> previous \<noteq> mpTag item then Inl (LocationTwice kind (mpCountry item) previous (mpTag item))
            else Inr (c\<lparr>cdManaged := cdManaged c @ [item], cdWindscribe := count, cdLocations := AList.update key (mpTag item) (cdLocations c)\<rparr>))"

fun collectManaged :: "floats \<Rightarrow> (string \<Rightarrow> nat option) \<Rightarrow> jobj list \<Rightarrow> collected \<Rightarrow> managedError + collected" where
  "collectManaged F U [] c = Inr c"
| "collectManaged F U (outbound # outbounds) c = (case collectOne F U outbound c of Inl err \<Rightarrow> Inl err | Inr c' \<Rightarrow> collectManaged F U outbounds c')"

definition nothingCollected :: collected where
  "nothingCollected = \<lparr>cdManaged = [], cdLocations = [], cdWindscribe = 0\<rparr>"

section \<open>Ports in texts\<close>

text \<open>\<open>^rebecca-tor-([0-9]+)\.service$\<close>\<close>

definition isNumeral :: "char \<Rightarrow> bool" where
  "isNumeral c \<longleftrightarrow> 48 \<le> (of_char c :: nat) \<and> (of_char c :: nat) \<le> 57"

definition torUnitPort :: "string \<Rightarrow> string option" where
  "torUnitPort name =
     (let digits = trimSuffix (trimPrefix name ''rebecca-tor-'') ''.service'' in
      if digits \<noteq> [] \<and> name = ''rebecca-tor-'' @ digits @ ''.service'' \<and> list_all isNumeral digits
      then Some digits else None)"

text \<open>\<open>port, _ := strconv.ParseUint(s, 10, 32)\<close> of digits: the largest value when it is out of range.\<close>

definition uint32Lax :: "string \<Rightarrow> nat" where
  "uint32Lax s = (case digitsVal 0 s of None \<Rightarrow> 0 | Some n \<Rightarrow> min n 4294967295)"

text \<open>
  \<open>(?:LISTEN|SocksPort)[^0-9]*([0-9]{2,5})\<close>: at a place with one of the words, the digits that come next, when there are at least two.
\<close>

definition portAfter :: "string \<Rightarrow> string option" where
  "portAfter s = (let run = takeWhile isNumeral (dropWhile (\<lambda>c. \<not> isNumeral c) s) in if length run < 2 then None else Some (take 5 run))"

definition portAt :: "string \<Rightarrow> string option" where
  "portAt s =
     (if hasPrefix s ''LISTEN'' then portAfter (drop 6 s) else if hasPrefix s ''SocksPort'' then portAfter (drop 9 s) else None)"

fun managedPort :: "string \<Rightarrow> string option" where
  "managedPort [] = None"
| "managedPort (c # s) = (case portAt (c # s) of Some digits \<Rightarrow> Some digits | None \<Rightarrow> managedPort s)"

section \<open>Cleaning up\<close>

definition runCommandContext :: "'h host \<Rightarrow> string list \<Rightarrow> string \<Rightarrow> string list \<Rightarrow> 'h action" where
  "runCommandContext H env name args h = (case hLook H h name of
       Inl err \<Rightarrow> (Some err, h)
     | Inr command \<Rightarrow> runChecked H env command args (name @ '' '' @ joinWith '' '' args) h)"

definition removeTorUnit :: "'h host \<Rightarrow> string \<Rightarrow> nat \<Rightarrow> 'h action" where
  "removeTorUnit H unit port =
     thenDo (\<lambda>h. if commandExists H h ''systemctl'' then ignoring (runCommandContext H [] ''systemctl'' [''disable'', ''--now'', unit]) h else (None, h))
     (thenDo (ignoring (hRemove H (joinPath [''/etc/systemd/system'', unit])))
     (thenDo (ignoring (hRemove H (torConfigPath port)))
     (ignoring (hRemoveAll H (joinPath [''/var/lib/rebecca-tor'', ''rebecca-tor-'' @ formatUint port])))))"

text \<open>The units of ports that are not wanted.\<close>

definition staleTorUnits :: "nat set \<Rightarrow> (string \<times> bool) list \<Rightarrow> (string \<times> nat) list" where
  "staleTorUnits ports dirEntries = filter (\<lambda>(unit, port). port \<notin> ports)
     (List.map_filter (\<lambda>(name, _). map_option (\<lambda>digits. (name, uint32Lax digits)) (torUnitPort name)) dirEntries)"

fun removeTorUnits :: "'h host \<Rightarrow> (string \<times> nat) list \<Rightarrow> 'h action" where
  "removeTorUnits H [] = skip"
| "removeTorUnits H ((unit, port) # units) = thenDo (removeTorUnit H unit port) (removeTorUnits H units)"

definition torBlockPort :: "string \<Rightarrow> (nat \<times> nat \<times> nat) option" where
  "torBlockPort block = (case (indexOf block torRebeccaBlockStart, indexOf block torRebeccaBlockEnd) of
       (Some i, Some j) \<Rightarrow>
         if i < j then map_option (\<lambda>digits. (i, j, uint32Lax digits)) (managedPort (take (j + length torRebeccaBlockEnd - i) (drop i block))) else None
     | _ \<Rightarrow> None)"

definition cleanupTorrc :: "'h host \<Rightarrow> nat set \<Rightarrow> 'h action" where
  "cleanupTorrc H ports h = (case hRead H h torrc of
       Inl _ \<Rightarrow> (None, h)
     | Inr block \<Rightarrow> (case torBlockPort block of
         None \<Rightarrow> (None, h)
       | Some (i, j, port) \<Rightarrow>
           if port \<in> ports then (None, h)
           else thenDo (wrapErr ''remove stale Tor configuration''
                (hWrite H torrc (trimSpace (take i block @ drop (j + length torRebeccaBlockEnd) block) @ [newline]) 420))
              (wrapErr ''restart Tor after removing stale configuration'' (restartTorService H)) h))"

definition cleanupManagedTor :: "'h host \<Rightarrow> nat set \<Rightarrow> 'h action" where
  "cleanupManagedTor H ports h =
     (let stale = (\<lambda>dirEntries. staleTorUnits ports dirEntries);
          rest = (\<lambda>units. thenDo (removeTorUnits H units)
            (thenDo (\<lambda>h. if units \<noteq> [] \<and> commandExists H h ''systemctl'' then ignoring (runCommandContext H [] ''systemctl'' [''daemon-reload'']) h else (None, h))
            (cleanupTorrc H ports))) in
      case hReadDir H h ''/etc/systemd/system'' of
        Inl (err, notExist) \<Rightarrow> if notExist then rest [] h else (Some err, h)
      | Inr dirEntries \<Rightarrow> rest (stale dirEntries) h)"

text \<open>\<open>disconnect\<close>: the command of Windscribe.\<close>

definition cleanupManagedWindscribe :: "'h fileFacts \<Rightarrow> 'h host \<Rightarrow> 'h action \<Rightarrow> nat set \<Rightarrow> 'h action" where
  "cleanupManagedWindscribe I H disconnect ports h =
     (let path = ''/etc/systemd/system/'' @ windscribeRelayUnitName in
      case hRead H h path of
        Inl err \<Rightarrow> if ffNotExist I err then (None, h) else (Some err, h)
      | Inr raw \<Rightarrow> (case managedPort raw of
          None \<Rightarrow> (None, h)
        | Some digits \<Rightarrow>
            if uint32Lax digits \<in> ports then (None, h)
            else thenDo (\<lambda>h. if commandExists H h ''systemctl''
                  then thenDo (ignoring (runCommandContext H [] ''systemctl'' [''disable'', ''--now'', windscribeRelayUnitName]))
                    (ignoring (runCommandContext H [] ''systemctl'' [''daemon-reload''])) h else (None, h))
               (thenDo (ignoring (hRemove H path)) (ignoring disconnect)) h))"

section \<open>Reconciling\<close>

definition managedProxyOwnsPort :: "'h fileFacts \<Rightarrow> 'h host \<Rightarrow> managedProxy \<Rightarrow> 'h \<Rightarrow> bool" where
  "managedProxyOwnsPort I H item h =
     (if mpKind item = ''tor'' then
        fileExists I H h (torUnitPath (mpPort item))
        \<or> (case hRead H h torrc of Inl _ \<Rightarrow> False | Inr raw \<Rightarrow> contains raw (socksLine (mpPort item)))
      else if mpKind item = ''windscribe'' then
        (case hRead H h (joinPath [''/etc/systemd/system'', windscribeRelayUnitName]) of
           Inl _ \<Rightarrow> False | Inr raw \<Rightarrow> contains raw (''TCP4-LISTEN:'' @ formatUint (mpPort item)))
      else False)"

text \<open>
  \<open>available\<close>: whether the port can be listened on; \<open>works\<close>: the authenticated check of the proxy; \<open>configure\<close>: the setup of Windscribe.
\<close>

record 'h proxySteps =
  psAvailable :: "nat \<Rightarrow> 'h \<Rightarrow> bool \<times> 'h"
  psWorks :: "managedProxy \<Rightarrow> 'h \<Rightarrow> bool \<times> 'h"
  psConfigure :: "managedProxy \<Rightarrow> 'h action"
  psDisconnect :: "'h action"

datatype reconcileError = Undecodable string | NotObject | Refused managedError | StepFailed string | PortOccupied string string nat

fun ensureProxies :: "'h fileFacts \<Rightarrow> 'h host \<Rightarrow> 'h proxySteps \<Rightarrow> managedProxy list \<Rightarrow> 'h \<Rightarrow> reconcileError option \<times> 'h" where
  "ensureProxies I H S [] h = (None, h)"
| "ensureProxies I H S (item # items) h =
     (let (free, h1) = (if managedProxyOwnsPort I H item h then (True, h) else psAvailable S (mpPort item) h) in
      if \<not> free then (Some (PortOccupied (mpKind item) (mpTag item) (mpPort item)), h1)
      else if mpKind item = ''windscribe'' then
        (case psWorks S item h1 of
           (True, h2) \<Rightarrow> ensureProxies I H S items h2
         | (False, h2) \<Rightarrow> (case psConfigure S item h2 of
             (Some err, h3) \<Rightarrow> (Some (StepFailed (''configure Windscribe outbound '' @ mpTag item @ '': '' @ err)), h3)
           | (None, h3) \<Rightarrow> ensureProxies I H S items h3))
      else ensureProxies I H S items h1)"

definition reconcileManagedProxyServices :: "floats \<Rightarrow> (string \<Rightarrow> nat option) \<Rightarrow> (string \<Rightarrow> string + json) \<Rightarrow> 'h fileFacts \<Rightarrow> 'h host \<Rightarrow> 'h proxySteps
    \<Rightarrow> string \<Rightarrow> 'h \<Rightarrow> reconcileError option \<times> 'h" where
  "reconcileManagedProxyServices F U unmarshal I H S raw h =
     (if hGOOS H \<noteq> ''linux'' \<or> trimSpace raw = [] then (None, h)
      else let run = (\<lambda>payload. case collectManaged F U (mapList (map_of payload ''outbounds'')) nothingCollected of
             Inl err \<Rightarrow> (Some (Refused err), h)
           | Inr c \<Rightarrow>
               let ports = mpPort ` set (cdManaged c) in
               (case thenDo (cleanupManagedTor H ports) (cleanupManagedWindscribe I H (psDisconnect S) ports) h of
                  (Some err, h1) \<Rightarrow> (Some (StepFailed err), h1)
                | (None, h1) \<Rightarrow> ensureProxies I H S (cdManaged c) h1)) in
        case unmarshal raw of
          Inr (JObj payload) \<Rightarrow> run payload
        | Inr JNull \<Rightarrow> run []
        | Inr _ \<Rightarrow> (Some NotObject, h)
        | Inl err \<Rightarrow> (Some (Undecodable err), h))"

section \<open>What is collected\<close>

text \<open>The proxies that can run side by side on a node.\<close>

definition wellSet :: "managedProxy list \<Rightarrow> bool" where
  "wellSet items \<longleftrightarrow> distinct (map mpPort items) \<and> list_all (\<lambda>i. 1024 \<le> mpPort i \<and> mpPort i \<le> 65535 \<and> mpKind i \<in> {''tor'', ''windscribe''}) items
     \<and> length (filter (\<lambda>i. mpKind i = ''windscribe'') items) \<le> 1
     \<and> sorted_wrt (\<lambda>i j. mpKind i = mpKind j \<and> mpCountry i = mpCountry j \<and> mpCountry i \<noteq> [] \<longrightarrow> mpTag i = [] \<or> mpTag i = mpTag j) items"

definition collectedOK :: "collected \<Rightarrow> bool" where
  "collectedOK c \<longleftrightarrow> wellSet (cdManaged c) \<and> cdWindscribe c = length (filter (\<lambda>i. mpKind i = ''windscribe'') (cdManaged c))
     \<and> (\<forall>i \<in> set (cdManaged c). mpCountry i \<noteq> [] \<and> mpTag i \<noteq> [] \<longrightarrow> mget [] (cdLocations c) (mpKind i @ '':'' @ mpCountry i) = mpTag i)"

lemma kind_cases: "managedProxyKind F outbound \<in> {''tor'', ''windscribe'', []}"
  by (auto simp: managedProxyKind_def Let_def)

lemma details_port: "localSocksDetails F U outbound = Some (port, u, p) \<Longrightarrow> 1024 \<le> port \<and> port \<le> 65535"
  by (auto simp: localSocksDetails_def split: if_splits list.splits option.splits)

lemma location_key: "k \<in> {''tor'', ''windscribe''} \<Longrightarrow> k' \<in> {''tor'', ''windscribe''} \<Longrightarrow> k @ '':'' @ c = k' @ '':'' @ c' \<longleftrightarrow> k = k' \<and> c = c'"
  by auto

lemma collectOne_ok:
  assumes "collectedOK c" and "collectOne F U outbound c = Inr c'"
  shows "collectedOK c'"
proof (cases "managedProxyKind F outbound = []")
  case True
  then show ?thesis using assms by (simp add: collectOne_def)
next
  case False
  then have k: "managedProxyKind F outbound \<in> {''tor'', ''windscribe''}" using kind_cases [of F outbound] by auto
  obtain port u p where d: "localSocksDetails F U outbound = Some (port, u, p)" using assms(2) False
    by (cases "localSocksDetails F U outbound") (auto simp: collectOne_def Let_def)
  define item where "item = managedItem F outbound (managedProxyKind F outbound) (port, u, p)"
  define key where "key = mpKind item @ '':'' @ mpCountry item"
  have i: "mpKind item = managedProxyKind F outbound" "mpPort item = port" by (simp_all add: item_def managedItem_def Let_def)
  define n where "n = (if mpKind item = ''windscribe'' then Suc (cdWindscribe c) else cdWindscribe c)"
  have new: "port \<notin> mpPort ` set (cdManaged c)" "mpKind item = ''windscribe'' \<longrightarrow> n \<le> 1" "cdManaged c' = cdManaged c @ [item]" "cdWindscribe c' = n"
    "mpCountry item \<noteq> [] \<Longrightarrow> mget [] (cdLocations c) key = [] \<or> mget [] (cdLocations c) key = mpTag item"
    "cdLocations c' = (if mpCountry item = [] then cdLocations c else AList.update key (mpTag item) (cdLocations c))"
    using assms(2) False d i unfolding key_def n_def by (auto simp: collectOne_def Let_def item_def [symmetric] split: if_splits)
  have ok: "wellSet (cdManaged c)" "cdWindscribe c = length (filter (\<lambda>i. mpKind i = ''windscribe'') (cdManaged c))"
    "\<And>x. x \<in> set (cdManaged c) \<Longrightarrow> mpCountry x \<noteq> [] \<Longrightarrow> mpTag x \<noteq> [] \<Longrightarrow> mget [] (cdLocations c) (mpKind x @ '':'' @ mpCountry x) = mpTag x"
    using assms(1) by (auto simp: collectedOK_def)
  have kinds: "mpKind x \<in> {''tor'', ''windscribe''}" if "x \<in> set (cdManaged c)" for x using ok(1) that by (auto simp: wellSet_def list_all_iff)
  have loc: "mpTag x = [] \<or> mpTag x = mpTag item"
    if "x \<in> set (cdManaged c)" "mpKind x = mpKind item" "mpCountry x = mpCountry item" "mpCountry x \<noteq> []" for x
    using ok(3) [OF that(1,4)] new(5) that(2,3,4) unfolding key_def by (cases "mpTag x = []") simp_all
  have w: "wellSet (cdManaged c @ [item])"
  proof -
    have "sorted_wrt (\<lambda>i j. mpKind i = mpKind j \<and> mpCountry i = mpCountry j \<and> mpCountry i \<noteq> [] \<longrightarrow> mpTag i = [] \<or> mpTag i = mpTag j) (cdManaged c @ [item])"
    proof -
      have "\<forall>x \<in> set (cdManaged c). mpKind x = mpKind item \<and> mpCountry x = mpCountry item \<and> mpCountry x \<noteq> [] \<longrightarrow> mpTag x = [] \<or> mpTag x = mpTag item"
        using loc by blast
      then show ?thesis using ok(1) unfolding wellSet_def sorted_wrt_append by simp
    qed
    moreover have "length (filter (\<lambda>i. mpKind i = ''windscribe'') (cdManaged c @ [item])) \<le> 1"
      using ok(1,2) new(2) unfolding wellSet_def n_def by simp
    ultimately show ?thesis using ok(1) new(1) details_port [OF d] k i unfolding wellSet_def by auto
  qed
  have m: "mget [] (cdLocations c') (mpKind x @ '':'' @ mpCountry x) = mpTag x"
    if x: "x \<in> set (cdManaged c @ [item])" "mpCountry x \<noteq> []" "mpTag x \<noteq> []" for x
  proof (cases "mpKind x = mpKind item \<and> mpCountry x = mpCountry item")
    case True
    then show ?thesis using x loc [of x] new(6) unfolding key_def by auto
  next
    case False
    then have "x \<in> set (cdManaged c)" using x(1) by auto
    moreover have "mpKind x @ '':'' @ mpCountry x \<noteq> key" unfolding key_def using location_key [OF kinds [OF \<open>x \<in> set (cdManaged c)\<close>], of "mpKind item"] k i(1) False by simp
    ultimately show ?thesis using ok(3) x(2,3) new(6) by auto
  qed
  show ?thesis unfolding collectedOK_def new(3,4) using w m ok(2) by (auto simp: n_def)
qed

lemma collectManaged_ok: "collectManaged F U outbounds c = Inr c' \<Longrightarrow> collectedOK c \<Longrightarrow> collectedOK c'"
  by (induction outbounds arbitrary: c) (auto split: sum.splits dest: collectOne_ok)

section \<open>Results\<close>

text \<open>
  The proxies that are accepted can run side by side: their ports are distinct and between 1024 and 65535, each is of a kind the
  node knows, at most one is Windscribe's, and of two proxies of one kind and location the first has no tag or they have the same tag.
\<close>

theorem managed_proxies_compatible:
  assumes "collectManaged F U outbounds nothingCollected = Inr c"
  shows "wellSet (cdManaged c)"
proof -
  have "collectedOK nothingCollected" by (simp add: collectedOK_def nothingCollected_def wellSet_def)
  then show ?thesis using collectManaged_ok [OF assms] by (simp add: collectedOK_def)
qed

section \<open>Wanted units stay\<close>

lemma digits_lax: "port < 4294967296 \<Longrightarrow> uint32Lax (formatUint port) = port"
  by (simp add: uint32Lax_def digitsVal_formatUint)

lemma torUnitPort_name: "torUnitPort name = Some digits \<Longrightarrow> name = ''rebecca-tor-'' @ digits @ ''.service'' \<and> list_all isNumeral digits"
  by (auto simp: torUnitPort_def Let_def split: if_splits)

lemma numeral_slash: "list_all isNumeral s \<Longrightarrow> slash \<notin> set s"
  by (auto simp: list_all_iff isNumeral_def)

lemma formatUint_numeral: "list_all isNumeral (formatUint n)"
  using formatUint_digits [of _ n] by (simp add: list_all_iff isNumeral_def)

lemma torName_plain: "list_all isNumeral digits \<Longrightarrow> plainComp (''rebecca-tor-'' @ digits @ ending) \<longleftrightarrow> slash \<notin> set ending"
  using numeral_slash [of digits] by (auto simp: plainComp_def)

lemma stale_differs:
  assumes "(unit, p) \<in> set (staleTorUnits ports dirEntries)" and "port \<in> ports" and "port < 4294967296"
  shows "joinPath [''/etc/systemd/system'', unit] \<noteq> torUnitPath port"
proof -
  obtain digits where d: "torUnitPort unit = Some digits" "p = uint32Lax digits" "p \<notin> ports"
    using assms(1) by (auto simp: staleTorUnits_def List.map_filter_def split: prod.splits)
  note u = torUnitPort_name [OF d(1)]
  have "digits \<noteq> formatUint port" using d(2,3) assms(2,3) digits_lax by auto
  then have "unit \<noteq> torUnitName port" using u by (simp add: torUnitName_def)
  then show ?thesis unfolding torUnitPath_def using u torName_plain [of digits "''.service''"] torName_plain [OF formatUint_numeral, of port "''.service''"]
    by (intro joinPath_differ) (auto simp: torUnitName_def)
qed

lemma config_differs: "torConfigPath p \<noteq> torUnitPath port"
  unfolding torConfigPath_def torUnitPath_def torUnitName_def
proof (rule joinPath_differ)
  show "''rebecca-tor-'' @ formatUint p @ ''.torrc'' \<noteq> ''rebecca-tor-'' @ formatUint port @ ''.service''"
    using arg_cong [of "''rebecca-tor-'' @ formatUint p @ ''.torrc''" "''rebecca-tor-'' @ formatUint port @ ''.service''" last] by auto
  show "plainComp (''rebecca-tor-'' @ formatUint p @ ''.torrc'')" "plainComp (''rebecca-tor-'' @ formatUint port @ ''.service'')"
    unfolding torName_plain [OF formatUint_numeral] by simp_all
qed simp_all

lemma keeping_restart: "(\<And>env command args. keeping v (hRun H env command args)) \<Longrightarrow> keeping v (restartTorService H)"
proof -
  assume run: "\<And>env command args. keeping v (hRun H env command args)"
  have "v (snd (restartTorService H h)) = v h" for h
  proof -
    obtain e o1 h1 where r1: "hRun H [] ''systemctl'' [''restart'', ''tor''] h = ((e, o1), h1)" by (metis prod.collapse)
    obtain e2 o2 h2 where r2: "hRun H [] ''systemctl'' [''restart'', ''tor@default''] h1 = ((e2, o2), h2)" by (metis prod.collapse)
    have "v h1 = v h" "v h2 = v h1" using keepingD [OF run r1] keepingD [OF run r2] by simp_all
    moreover have "v (snd (runChecked H [] ''service'' [''tor'', ''restart''] ''restart tor service'' h)) = v h"
      using keeping_runChecked [OF run] unfolding keeping_def by blast
    ultimately show ?thesis using r1 r2 by (cases e; cases e2) (simp_all add: restartTorService_def)
  qed
  then show ?thesis by (simp add: keeping_def)
qed

lemma keeping_wrapErr: "keeping v f \<Longrightarrow> keeping v (wrapErr what f)"
  by (simp add: keeping_def wrapErr_def split: prod.split option.split) (metis snd_conv)

lemma keeping_context: "(\<And>env command args. keeping v (hRun H env command args)) \<Longrightarrow> keeping v (runCommandContext H env name args)"
  using keeping_runChecked [of v H] by (simp add: keeping_def runCommandContext_def split: sum.split)

lemma keeping_choice: "keeping v f \<Longrightarrow> keeping v (\<lambda>h. if P h then f h else (None, h))"
  by (simp add: keeping_def)

text \<open>
  The cleanup never touches the unit of a Tor proxy whose port is wanted, whatever else is in the directory: for a host on which
  removing another file, writing \<open>torrc\<close> and running a command leave this unit as it is.
\<close>

theorem wanted_tor_unit_kept:
  assumes run: "\<And>env command args. keeping (\<lambda>h. hRead H h (torUnitPath port)) (hRun H env command args)"
    and remove: "\<And>path. path \<noteq> torUnitPath port \<Longrightarrow> keeping (\<lambda>h. hRead H h (torUnitPath port)) (hRemove H path)"
    and dirs: "\<And>name. keeping (\<lambda>h. hRead H h (torUnitPath port)) (hRemoveAll H (joinPath [''/var/lib/rebecca-tor'', name]))"
    and "write": "\<And>content. keeping (\<lambda>h. hRead H h (torUnitPath port)) (hWrite H torrc content 420)"
    and wanted: "port \<in> ports" "port < 4294967296"
  shows "keeping (\<lambda>h. hRead H h (torUnitPath port)) (cleanupManagedTor H ports)"
proof -
  let ?v = "\<lambda>h. hRead H h (torUnitPath port)"
  note cmd = keeping_context [OF run]
  have one: "keeping ?v (removeTorUnit H unit p)" if "joinPath [''/etc/systemd/system'', unit] \<noteq> torUnitPath port" for unit p
    unfolding removeTorUnit_def by (intro keeps keeping_choice cmd dirs remove that config_differs)
  have units: "keeping ?v (removeTorUnits H us)" if "\<And>unit p. (unit, p) \<in> set us \<Longrightarrow> joinPath [''/etc/systemd/system'', unit] \<noteq> torUnitPath port" for us
    using that
  proof (induction us)
    case (Cons u us)
    obtain unit p where u: "u = (unit, p)" by (cases u)
    have "keeping ?v (removeTorUnit H unit p)" "keeping ?v (removeTorUnits H us)" using Cons u by (auto intro: one)
    then show ?case unfolding u removeTorUnits.simps by (rule keeping_thenDo)
  qed (simp add: keeps)
  have rc: "keeping ?v (cleanupTorrc H ports)"
  proof -
    have k: "keeping ?v (thenDo (wrapErr a (hWrite H torrc content 420)) (wrapErr b (restartTorService H)))" for a b content
      by (intro keeps keeping_wrapErr "write" keeping_restart run)
    then have "?v (snd (thenDo (wrapErr a (hWrite H torrc content 420)) (wrapErr b (restartTorService H)) h)) = ?v h" for a b content h
      unfolding keeping_def by blast
    then show ?thesis unfolding keeping_def cleanupTorrc_def by (simp split: sum.split option.split prod.split)
  qed
  define rest where "rest = (\<lambda>us. thenDo (removeTorUnits H us)
      (thenDo (\<lambda>h. if us \<noteq> [] \<and> commandExists H h ''systemctl'' then ignoring (runCommandContext H [] ''systemctl'' [''daemon-reload'']) h else (None, h)) (cleanupTorrc H ports)))"
  have all: "keeping ?v (rest us)" if "\<And>unit p. (unit, p) \<in> set us \<Longrightarrow> joinPath [''/etc/systemd/system'', unit] \<noteq> torUnitPath port" for us
    unfolding rest_def by (intro keeps keeping_choice cmd rc units that)
  have r1: "keeping ?v (rest (staleTorUnits ports es))" for es by (rule all) (rule stale_differs [OF _ wanted])
  have r2: "keeping ?v (rest [])" by (rule all) simp
  have c: "cleanupManagedTor H ports h = (case hReadDir H h ''/etc/systemd/system'' of Inl (err, notExist) \<Rightarrow> if notExist then rest [] h else (Some err, h)
      | Inr es \<Rightarrow> rest (staleTorUnits ports es) h)" for h by (simp only: cleanupManagedTor_def rest_def Let_def)
  show ?thesis unfolding keeping_def c using r1 r2 by (simp add: keeping_def split: sum.split prod.split)
qed

section \<open>The block of \<open>torrc\<close>\<close>

lemma indexOf_chars: "c \<in> set sub \<Longrightarrow> c \<notin> set s \<Longrightarrow> indexOf s sub = None"
proof (induction s)
  case (Cons d s)
  then have "\<not> hasPrefix (d # s) sub" using set_take_subset [of "length sub" "d # s"] by (auto simp: hasPrefix_def)
  then show ?case using Cons by simp
qed auto

lemma joinWith_snoc: "xs \<noteq> [] \<Longrightarrow> joinWith sep (xs @ [x]) = joinWith sep xs @ sep @ x"
  by (induction xs) (auto simp: joinWith_Cons)

definition legacyTail :: "nat \<Rightarrow> string \<Rightarrow> bool \<Rightarrow> string" where
  "legacyTail port country strict = joinWith [newline] ([formatUint port, ''ClientOnly 1'', ''AvoidDiskWrites 1''] @ exitLines country strict)"

lemma legacy_form:
  "legacyBlock port country strict
    = torRebeccaBlockStart @ [newline] @ ''SocksPort 0'' @ [newline] @ ''SocksPort 127.0.0.1:'' @ legacyTail port country strict @ [newline] @ torRebeccaBlockEnd"
proof -
  let ?xs = "[torRebeccaBlockStart, ''SocksPort 0'', socksLine port, ''ClientOnly 1'', ''AvoidDiskWrites 1''] @ exitLines country strict"
  have "legacyBlock port country strict = joinWith [newline] ?xs @ [newline] @ torRebeccaBlockEnd"
    unfolding legacyBlock_def using joinWith_snoc [of ?xs "[newline]" torRebeccaBlockEnd] by simp
  moreover have "joinWith [newline] ?xs = torRebeccaBlockStart @ [newline] @ ''SocksPort 0'' @ [newline] @ ''SocksPort 127.0.0.1:'' @ legacyTail port country strict"
    by (simp add: legacyTail_def joinWith_Cons socksLine_def)
  ultimately show ?thesis by simp
qed

text \<open>The first digits that follow the word are those of the address, not of the port.\<close>

lemma legacy_port: "managedPort (legacyBlock port country strict) = Some ''127''"
  unfolding legacy_form torRebeccaBlockStart_def by (simp add: portAt_def portAfter_def hasPrefix_def isNumeral_def)

lemma legacyTail_plain: "country = [] \<or> lowerCode country \<Longrightarrow> CHR ''#'' \<notin> set (legacyTail port country strict)"
proof -
  assume c: "country = [] \<or> lowerCode country"
  have "CHR ''#'' \<notin> set country" using c by (auto simp: lowerCode_def list_all_iff)
  moreover have "CHR ''#'' \<notin> set (formatUint port)" using formatUint_digits [of "CHR ''#''" port] by auto
  ultimately have "\<forall>l \<in> set ([formatUint port, ''ClientOnly 1'', ''AvoidDiskWrites 1''] @ exitLines country strict). CHR ''#'' \<notin> set l"
    by (simp add: exitLines_def exitLine_def)
  then show ?thesis unfolding legacyTail_def using joinWith_set [of "CHR ''#''" "[newline]"] by fastforce
qed

lemma legacy_found:
  assumes "country = [] \<or> lowerCode country"
  shows "torBlockPort (legacyBlock port country strict @ [newline]) = Some (0, length (legacyBlock port country strict) - length torRebeccaBlockEnd, 127)"
proof -
  let ?b = "legacyBlock port country strict"
  define m where "m = ''SocksPort 0'' @ [newline] @ ''SocksPort 127.0.0.1:'' @ legacyTail port country strict"
  have f: "?b = torRebeccaBlockStart @ newline # m @ newline # torRebeccaBlockEnd" by (simp add: legacy_form m_def)
  then have b: "?b @ [newline] = torRebeccaBlockStart @ newline # m @ newline # torRebeccaBlockEnd @ [newline]" by simp
  have mk: "marker torRebeccaBlockEnd" by (simp add: marker_def torRebeccaBlockEnd_def)
  have s: "indexOf torRebeccaBlockStart torRebeccaBlockEnd = None" by (simp add: torRebeccaBlockStart_def torRebeccaBlockEnd_def hasPrefix_def)
  have "indexOf m torRebeccaBlockEnd = None"
    using legacyTail_plain [OF assms, of port strict] by (intro indexOf_chars [of "CHR ''#''"]) (simp_all add: torRebeccaBlockEnd_def m_def)
  then have "indexOf (m @ newline # torRebeccaBlockEnd @ [newline]) torRebeccaBlockEnd = Some (Suc (length m))"
    unfolding indexOf_line [OF mk, of m] indexOf_here by simp
  then have j: "indexOf (?b @ [newline]) torRebeccaBlockEnd = Some (Suc (length torRebeccaBlockStart + Suc (length m)))"
    unfolding b indexOf_line [OF mk, of torRebeccaBlockStart] s by simp
  have i: "indexOf (?b @ [newline]) torRebeccaBlockStart = Some 0" unfolding b by (rule indexOf_here)
  have l: "length ?b - length torRebeccaBlockEnd = Suc (length torRebeccaBlockStart + Suc (length m))" unfolding f by simp
  have "take (Suc (length torRebeccaBlockStart + Suc (length m)) + length torRebeccaBlockEnd - 0) (drop 0 (?b @ [newline])) = ?b" unfolding b f by simp
  then have "managedPort (take (Suc (length torRebeccaBlockStart + Suc (length m)) + length torRebeccaBlockEnd - 0) (drop 0 (?b @ [newline]))) = Some ''127''"
    by (simp only: legacy_port)
  moreover have "uint32Lax ''127'' = 127" by (simp add: uint32Lax_def digitVal_def)
  ultimately show ?thesis unfolding torBlockPort_def i j l by (simp only: option.case prod.case) simp
qed

text \<open>
  A \<open>torrc\<close> that the node wrote for a proxy loses its block with the next reconciliation, and Tor is restarted without a SOCKS
  port, for every set of wanted ports from 1024 on, also when the port of the block is among them.
\<close>

theorem legacy_tor_block_removed:
  assumes "hRead H h torrc = Inr (legacyBlock port country strict @ [newline])" and "country = [] \<or> lowerCode country" and "\<And>p. p \<in> ports \<Longrightarrow> 1024 \<le> p"
  shows "cleanupTorrc H ports h = thenDo (wrapErr ''remove stale Tor configuration'' (hWrite H torrc [newline] 420))
    (wrapErr ''restart Tor after removing stale configuration'' (restartTorService H)) h"
proof -
  let ?b = "legacyBlock port country strict"
  have n: "127 \<notin> ports" using assms(3) [of 127] by auto
  have l: "length ?b - length torRebeccaBlockEnd + length torRebeccaBlockEnd = length ?b" by (simp add: legacy_form)
  have "trimSpace [newline] = []" by code_simp
  then show ?thesis using n by (simp add: cleanupTorrc_def assms(1) legacy_found [OF assms(2)] l)
qed

section \<open>Witnesses\<close>

theorem managed_proxies_compatible_witness:
  "wellSet [\<lparr>mpKind = ''tor'', mpTag = ''tor-de'', mpPort = 9050, mpCountry = ''de'', mpUsername = [], mpPassword = []\<rparr>]"
proof -
  let ?i = "\<lparr>mpKind = ''tor'', mpTag = ''tor-de'', mpPort = 9050, mpCountry = ''de'', mpUsername = [], mpPassword = []\<rparr>"
  let ?o = "[(''tag'', JStr ''tor-de''), (''protocol'', JStr ''socks''),
    (''settings'', JObj [(''servers'', JArr [JObj [(''address'', JStr ''127.0.0.1''), (''port'', JNum ''9050'')]])])]"
  have t: "toLower ''tor-de'' = ''tor-de''" "toLower ''socks'' = ''socks''" "toLower [] = []" "trimSpace ''socks'' = ''socks''" "trimSpace [] = []"
    "toLower (trimSpace ''tor-de'') = ''tor-de''" "trimSpace ''tor-de'' = ''tor-de''" "toLower (trimSpace ''socks'') = ''socks''"
    "toLower (trimSpace []) = []" "isLocalAddress ''127.0.0.1''" "managedCountry ''tor-de'' ''tor'' = ''de''" by code_simp+
  have d: "localSocksDetails F (\<lambda>t. if t = ''9050'' then Some 9050 else None) ?o = Some (9050, [], [])" for F
    by (simp add: localSocksDetails_def managedString_def mapList_def List.map_filter_def uint32Value_def t)
  have k: "managedProxyKind F ?o = ''tor''" for F
    by (simp add: managedProxyKind_def managedString_def t hasPrefix_def)
  have "collectManaged F (\<lambda>t. if t = ''9050'' then Some 9050 else None) [?o] nothingCollected
      = Inr \<lparr>cdManaged = [?i], cdLocations = [(''tor:de'', ''tor-de'')], cdWindscribe = 0\<rparr>" for F
    by (simp add: collectOne_def d k nothingCollected_def managedItem_def managedString_def t Let_def)
  from managed_proxies_compatible [OF this] show ?thesis by simp
qed

theorem wanted_tor_unit_kept_witness:
  "keeping (\<lambda>h. hRead clockHost h (torUnitPath 9050)) (cleanupManagedTor clockHost {9050})"
  by (rule wanted_tor_unit_kept) (simp_all add: clockHost_def keeping_def)

definition legacyHost :: "int host" where
  "legacyHost = clockHost\<lparr>hRead := (\<lambda>h path. if path = torrc \<and> h = 0 then Inr (legacyBlock 9050 ''de'' False @ [newline]) else Inl ''missing''),
     hWrite := (\<lambda>path content mode h. (None, 1)), hLook := (\<lambda>h name. Inr name)\<rparr>"

theorem legacy_tor_block_removed_witness:
  "cleanupTorrc legacyHost {9050} 0 = (None, 1)"
proof -
  have "cleanupTorrc legacyHost {9050} 0 = thenDo (wrapErr ''remove stale Tor configuration'' (hWrite legacyHost torrc [newline] 420))
    (wrapErr ''restart Tor after removing stale configuration'' (restartTorService legacyHost)) 0"
    by (rule legacy_tor_block_removed [of legacyHost 0 9050 "''de''" False "{9050}"]) (simp_all add: legacyHost_def lowerCode_def)
  then show ?thesis by (simp add: legacyHost_def clockHost_def thenDo_def wrapErr_def restartTorService_def commandExists_def)
qed

end
