(* ===== verification/Spec2Isabelle.thy ===== *)
theory Spec2Isabelle
  imports Usage_Buffer Operation_Dedup Settings Xray_Config Log_Bus Xray_Core Sessions Config_Cache Server_Util
    Proxyman Config_Users User_Reconcile Topology Runtime_Control Xray_Stats Usage_Collect
    VPN_Sessions Netip Source_Blocker Speed_Limit VPN_Accounting Wireguard Vpn_Nat Wireguard_Apply Openvpn Managed_Block L2tp Pptp Haproxy Outbound_Check Windscribe_Text Managed_Proxies
begin

text \<open>
  \<^bold>\<open>Rebecca-node.\<close> The node of the Rebecca panel is a Go server that a master controls over gRPC
  (\<open>src/internal/node/grpc.go\<close>). It supervises one Xray process, runs native VPN daemons and kernel devices beside it,
  counts the traffic of users and hands the counts to the master. This development translates its own code under
  \<open>src/internal\<close> into HOL and proves what makes the parts correct. Every definition is executable and stands next to the
  code it translates in the manifest; names are those of the source.

  \<^bold>\<open>How the parts interact.\<close> A request of the master passes the session check (\<^emph>\<open>Sessions\<close>) and, when it carries an
  operation identifier, the deduplication (\<^emph>\<open>Operation\_Dedup\<close>). A start, restart or synchronisation
  (\<^emph>\<open>Runtime\_Control\<close>) builds the document for Xray (\<^emph>\<open>Xray\_Config\<close>), decides between a restart, a change of inbounds and
  rules (\<^emph>\<open>Topology\<close>) and a change of users (\<^emph>\<open>Config\_Users\<close>, \<^emph>\<open>User\_Reconcile\<close> over \<^emph>\<open>Proxyman\<close>), drives the process
  (\<^emph>\<open>Xray\_Core\<close>), applies the VPNs (\<^emph>\<open>Wireguard\_Apply\<close>, \<^emph>\<open>Openvpn\<close> on \<^emph>\<open>Vpn\_Nat\<close>) and records the request in the
  cache (\<^emph>\<open>Config\_Cache\<close>), from which the node resumes after a restart. Periodically the counters of Xray (\<^emph>\<open>Xray\_Stats\<close>)
  and of the VPNs (\<^emph>\<open>VPN\_Accounting\<close>, \<^emph>\<open>Wireguard\<close>, \<^emph>\<open>VPN\_Sessions\<close>) are collected (\<^emph>\<open>Usage\_Collect\<close>) into the usage buffer
  (\<^emph>\<open>Usage\_Buffer\<close>), which survives a crash in its spool file (\<^emph>\<open>Usage\_Spool\<close>) and is drained by the master in batches
  that it acknowledges. Address blocks (\<^emph>\<open>Source\_Blocker\<close>) and speed limits (\<^emph>\<open>Speed\_Limit\<close>) are written to nftables.

  \<^bold>\<open>Shared theories.\<close>
  \<^item> \<^emph>\<open>Prelude\<close>: Go's strings, 64-bit arithmetic with its wrap-around and saturation, maps as association lists (\<open>gomap\<close>),
    and the collections of rewrite rules. The order of an association list is the order in which one run iterates the map;
    theorems hold for every order or speak of \<open>map_of\<close>.
  \<^item> \<^emph>\<open>Encoding\<close>, \<^emph>\<open>Checksum\<close>, \<^emph>\<open>Text\_Util\<close>, \<^emph>\<open>Paths\<close>, \<^emph>\<open>Netip\<close>, \<^emph>\<open>Json\<close>, \<^emph>\<open>Any\_Values\<close>: the parts of Go's standard library
    that the code calls (decimal numbers, base64, variable-length integers, CRC-32C on 32-bit words, runes, file paths, IP
    addresses and their texts, decoded JSON) with the round trips their users need, and the small helpers built on them.
  \<^item> \<^emph>\<open>Transition\<close>: the locale \<open>invariant_system\<close> of step relations, interpreted for the deduplication (\<open>dedupSystem\<close>) and
    the supervised process (\<open>coreSystem\<close>).
  \<^item> \<^emph>\<open>Batch\_Ledger\<close>: the locale \<open>batch_ledger\<close>, the protocol by which counters are sampled, handed out and acknowledged,
    with the conservation law proved once; interpreted for users (\<open>userLedger\<close>) and for outbounds and inbounds (\<open>linkLedger\<close>).
  \<^item> \<^emph>\<open>Host\<close>, \<^emph>\<open>Host\_Views\<close>: the host a manager works on. Programs and files are functions of a host state that stays a
    parameter; \<open>thenDo\<close> is the early return on an error; a view of the host is kept by an action when \<open>keeping\<close> holds.

  \<^bold>\<open>Components.\<close> For each theory: the code, and what its lemmas show.
  \<^item> \<^emph>\<open>Usage\_Spool\<close> (\<open>usage_spool.go\<close>): writer and reader of the spool file, the locale \<open>spool_entry\<close> for one entry and its two
    interpretations. What is encoded is decoded, and one altered byte is detected.
  \<^item> \<^emph>\<open>Usage\_Buffer\<close> (\<open>usage_buffer.go\<close>, \<open>user_usage.go\<close>, \<open>usage_online.go\<close>): no traffic is lost or counted twice over any
    interleaving, a batch is acknowledged once and handed out again until then, the spool is replaced atomically and reloaded.
  \<^item> \<^emph>\<open>Operation\_Dedup\<close> (\<open>operation_dedup.go\<close>): concurrent requests as threads of a step relation; mutual exclusion, at most
    one successful execution until 2048 others were recorded after it, no waiter left behind, what the journal recovers.
  \<^item> \<^emph>\<open>Settings\<close> (\<open>config.go\<close>), \<^emph>\<open>Log\_Bus\<close> (\<open>logbus.go\<close>), \<^emph>\<open>Sessions\<close> (\<open>server.go\<close>): the environment wins over the file of
    settings, a subscriber gets every line it has room for, a session is accepted exactly while it is fresh.
  \<^item> \<^emph>\<open>Xray\_Config\<close> (\<open>xray/config.go\<close>): the document with the API the node needs; nobody else reaches that API.
  \<^item> \<^emph>\<open>Xray\_Core\<close> (\<open>xray/core.go\<close>): start, stop and restart as steps between those of the operating system; at most one
    process is alive, and a restart waits for the exit of the old one.
  \<^item> \<^emph>\<open>Config\_Cache\<close> (\<open>server.go\<close>): revisions never go back, a batch of updates equals the single updates.
  \<^item> \<^emph>\<open>Server\_Util\<close> (\<open>server.go\<close>, \<open>grpc.go\<close>): versions, archives, downloads; what an update can write and run.
  \<^item> \<^emph>\<open>Proxyman\<close>, \<^emph>\<open>Config\_Users\<close>, \<^emph>\<open>User\_Reconcile\<close> (\<open>proxyman.go\<close>, \<open>config_cache_users.go\<close>, \<open>user_batch.go\<close>): a patch has its
    effect on one user, a difference leaves Xray with the users of the new document, a failed update restores the user.
  \<^item> \<^emph>\<open>Topology\<close>, \<^emph>\<open>Runtime\_Control\<close> (\<open>runtime_topology.go\<close>, \<open>grpc.go\<close>): a difference says all there is to change; an
    accepted request is cached and resumed, a refused one leaves the cache, a stop leaves nothing to resume.
  \<^item> \<^emph>\<open>Xray\_Stats\<close>, \<^emph>\<open>Usage\_Collect\<close> (\<open>xray/stats.go\<close>, \<open>grpc.go\<close>): the rows equal the sorted table of saturated sums; a
    collection puts exactly what is reported into the buffer.
  \<^item> \<^emph>\<open>VPN\_Sessions\<close> (\<open>vpn_sessions.go\<close>): addresses of sessions are distinct, the device limit holds.
  \<^item> \<^emph>\<open>VPN\_Accounting\<close> (\<open>ov.go\<close>, \<open>l2tp.go\<close>, \<open>pptp.go\<close>, \<open>sstp.go\<close>, \<open>remote_access.go\<close>): the locale \<open>meter\<close> with three
    interpretations; traffic of a session is counted once.
  \<^item> \<^emph>\<open>Source\_Blocker\<close>, \<^emph>\<open>Speed\_Limit\<close> (\<open>source_ip_blocker.go\<close>, \<open>user_speed_limit*.go\<close>): the blocked addresses are the
    admissible ones; limited users are routed through clones of their outbounds (locale \<open>limited_users\<close>) by rules that name them plainly and
    nobody else is; a rule with a pattern escapes its copy.
  \<^item> \<^emph>\<open>Address\_Pools\<close> (\<open>ov.go\<close>, \<open>l2tp.go\<close>, \<open>pptp.go\<close>, \<open>sstp.go\<close>, \<open>wireguard.go\<close>): ranges lie in their pools, on \<open>uint32\<close>.
  \<^item> \<^emph>\<open>Wireguard\<close>, \<^emph>\<open>Wireguard\_Apply\<close>, \<^emph>\<open>Vpn\_Nat\<close> (\<open>wireguard.go\<close>, \<open>wireguard_nat.go\<close>, \<open>vpn_nat.go\<close>): accepted runtimes are
    separate, the kernel has the peers of the runtime, the rules of a VPN are installed and removed by their comment.
  \<^item> \<^emph>\<open>Openvpn\<close> (\<open>ov.go\<close>): the files of an inbound, its daemon, and that exactly one daemon runs, with the configuration applied.
  \<^item> \<^emph>\<open>Managed\_Block\<close> (\<open>updateManagedBlock\<close> of \<open>l2tp.go\<close>): an update of a block in a file of the system keeps every other
    line, and the last update wins.
  \<^item> \<^emph>\<open>L2tp\<close> (\<open>l2tp.go\<close>) and \<^emph>\<open>Pptp\<close> (\<open>pptp.go\<close>) on \<open>fileLaws\<close> and \<open>signalLaws\<close>: the secrets of the daemons are those of the
    available users, both protocols share one file without disturbing each other, stale sessions are told to end, and the
    fingerprint by which a restart is decided tells any two lists of users apart.
  \<^item> \<^emph>\<open>Path\_Below\<close> and \<^emph>\<open>Haproxy\<close> (\<open>haproxy.go\<close>, \<open>haproxy_process_unix.go\<close>) on \<open>siteLaws\<close>: templates are unpacked below their
    directory and within the limit on bytes unless the sum of sizes wraps, requests stay below the root of their site, and a
    runtime that cannot be prepared leaves the served sites alone.
  \<^item> \<^emph>\<open>Outbound\_Chain\<close>, \<^emph>\<open>Outbound\_Target\<close>, \<^emph>\<open>Outbound\_Check\<close> (\<open>outbound_check.go\<close>, \<open>route_check.go\<close>, the two handlers of
    \<open>grpc_helpers.go\<close>): the walk along the proxies of an outbound is a partial function that is shown to end, on cycles too,
    and to select exactly what is needed; test processes listen on the loopback address only. The locale \<open>testLaws\<close> is what a
    test relies on in the system (processes, slots, the clock), interpreted on a simulated system; under it both tests end
    when the write of the configuration returns, free their slot and leave no process but one that outlives signal 9 or, for an outbound, one
    to which the configuration cannot be written.
  \<^item> \<^emph>\<open>Socks\<close> (\<open>authenticateSOCKS5\<close> of \<open>service_diagnostics.go\<close> and the checks of \<open>tor.go\<close> and \<open>windscribe.go\<close>): the client accepts
    exactly the answers that grant its request, and a server reads the credentials that were given.
  \<^item> \<^emph>\<open>Tor\<close> (\<open>tor.go\<close>): which requests a written configuration is recognised for, refusal of requests that are not valid, and
    that a request returns as long as the clock advances (the waiting loops are partial functions as well).
  \<^item> \<^emph>\<open>Windscribe\_Text\<close> (\<open>windscribe.go\<close>): the files, checks and parsers; a configuration is read back as it was meant, the
    locations are one for each country, the default interface has the least metric.
  \<^item> \<^emph>\<open>Managed\_Proxies\<close> (\<open>managed_proxies.go\<close>): the reconciliation of the local proxies with the outbounds; accepted proxies can run
    side by side, a wanted Tor unit is kept, the block of \<open>torrc\<close> is removed whether it is wanted or not. The setup of Windscribe,
    the check of a proxy and the test of a port are arguments.

  \<^bold>\<open>Parameters and their laws.\<close> Code that is not part of the repository is an argument of the definitions that use it. What is
  assumed of it is a named predicate, and a witness gives a concrete instance: \<open>codecLaw\<close>, \<open>journalLaws\<close>, \<open>jsonLaws\<close>
  (decoding undoes encoding), \<open>xrayLaws\<close>, \<open>addLaw\<close>, \<open>removeLaw\<close> (the user table of the Xray API), \<open>cliLaws\<close> (outbounds and
  rules set by the command line of Xray), \<open>nftLaws\<close>, \<open>iptLaws\<close> (nftables and iptables), \<open>kernelLaws\<close> (WireGuard devices),
  \<open>deletable\<close> (a table of nftables that is there can be deleted), \<open>routingLaws\<close> (how the router of Xray reads the users of a rule),
  \<open>daemonLaws\<close>, \<open>pidLaws\<close>, \<open>pidFresh\<close>, \<open>killEnds\<close> (daemons of OpenVPN and the file with their number), \<open>testLaws\<close> (processes
  and the clock), \<open>independent\<close> (asking one service does not change what another reports),
  \<open>quietHost\<close>, \<open>calmHost\<close> (which programs do not touch a view of the host). Floating point conversions and hashes are
  parameters without laws.

  \<^bold>\<open>Bounds.\<close> Loops over data are structural recursions. The loops that wait are bounded in the code and keep these bounds
  in the model (forty steps of 50 milliseconds for the exit of an OpenVPN daemon); readers of files recurse on what is left to
  read, and their fuel is its length. \<open>bufio.Scanner\<close> has its limit of 64 KiB for a line. Counters are \<open>int64\<close> or \<open>uint64\<close>
  with the arithmetic written out, addresses of ranges and checksums are 32-bit words.

  \<^bold>\<open>Assumptions of the translation.\<close> Letters are folded as in ASCII where the code calls \<open>ToLower\<close> or \<open>EqualFold\<close>. A
  function that holds its mutex throughout is one step. Contexts do not expire except where a branch of the code handles it,
  and log output is left out. Values that the code copies through JSON are the values themselves.

  \<^bold>\<open>Not modelled.\<close>
  \<^item> The remaining managers (SSTP daemon, IKEv2 and AnyConnect configuration, GRE, AmneziaWG, Psiphon, the installation and
    login of Windscribe, SSH, external proxies): texts of configuration files and calls of programs around the accounting,
    pools, settings and session rules, which are modelled.
  \<^item> Shell scripts that the node writes as texts, and the file accesses of these scripts.
  \<^item> Diagnostics (\<open>service_diagnostics.go\<close> but for its SOCKS client, \<open>system_metrics.go\<close>, \<open>disk_diagnostics*.go\<close>,
    \<open>protocol_status.go\<close>), key helpers of Xray and certificates: they only read the host, or pass requests on to programs and services.
  \<^item> Time, networks, cryptography, JSON and floating point numbers: parameters of the definitions that use them, with what is
    relied on as hypotheses. The token bucket of the SSH speed limit computes on floating point numbers.
  \<^item> Windows and other builds where the code has a build for Linux; generated code (\<open>internal/proto\<close>) and \<open>vendor\<close>.
\<close>

end
